(* ===== verification/Prelude.thy ===== *)
theory Prelude
  imports
    Main
    "HOL-Library.AList"
    "HOL-Library.Multiset"
    "HOL-Library.Char_ord"
    "HOL-Library.List_Lexorder"
begin

text \<open>
  What every component of the model shares: the outcome of code that can panic, Go's maps,
  slices, strings and 64-bit integers, the standard library's sorting, and the lemmas about
  them that the component theories use.

  A Go map is an association list with distinct keys.  Its list order stands for the order in
  which one \<open>range\<close> loop visits the entries, which Go leaves open; the results about such
  loops hold for every list, hence for every visiting order.
\<close>

named_theorems gomap_simps
named_theorems str_simps

type_synonym time = int
type_synonym duration = int

text \<open>
  A \<open>time.Time\<close> is the number of nanoseconds since Go's zero time, so the zero value is 0 and
  \<open>t.IsZero()\<close> is \<open>t = 0\<close>.
\<close>

definition time_zero :: time where
  "time_zero = 0"

subsection \<open>Code that can panic\<close>

datatype 'a outcome = Ret 'a | Panic string

fun out_bind :: "'a outcome \<Rightarrow> ('a \<Rightarrow> 'b outcome) \<Rightarrow> 'b outcome" where
  "out_bind (Ret x) f = f x"
| "out_bind (Panic m) f = Panic m"

lemma out_bind_eq_Ret: "out_bind r f = Ret y \<longleftrightarrow> (\<exists>x. r = Ret x \<and> f x = Ret y)"
  by (cases r) auto

subsection \<open>Maps\<close>

type_synonym ('k, 'v) gomap = "('k \<times> 'v) list"

definition gm_get :: "('k, 'v) gomap \<Rightarrow> 'k \<Rightarrow> 'v option" where
  "gm_get m k = map_of m k"

definition gm_put :: "('k, 'v) gomap \<Rightarrow> 'k \<Rightarrow> 'v \<Rightarrow> ('k, 'v) gomap" where
  "gm_put m k v = AList.update k v m"

definition gm_del :: "('k, 'v) gomap \<Rightarrow> 'k \<Rightarrow> ('k, 'v) gomap" where
  "gm_del m k = AList.delete k m"

definition gm_ok :: "('k, 'v) gomap \<Rightarrow> bool" where
  "gm_ok m \<longleftrightarrow> distinct (map fst m)"

abbreviation gm_or :: "('k, 'v) gomap \<Rightarrow> 'k \<Rightarrow> 'v \<Rightarrow> 'v" where
  "gm_or m k d \<equiv> (case gm_get m k of None \<Rightarrow> d | Some v \<Rightarrow> v)"

lemma gm_get_Nil [simp, gomap_simps]: "gm_get [] k = None"
  by (simp add: gm_get_def)

lemma gm_get_put [simp, gomap_simps]: "gm_get (gm_put m k v) k' = (if k' = k then Some v else gm_get m k')"
  by (simp add: gm_get_def gm_put_def update_conv')

lemma gm_get_del [simp, gomap_simps]: "gm_get (gm_del m k) k' = (if k' = k then None else gm_get m k')"
  by (simp add: gm_get_def gm_del_def delete_conv')

lemma gm_ok_Nil [simp]: "gm_ok []"
  by (simp add: gm_ok_def)

lemma gm_ok_put [simp, intro]: "gm_ok m \<Longrightarrow> gm_ok (gm_put m k v)"
  by (simp add: gm_ok_def gm_put_def distinct_update)

lemma gm_ok_del [simp, intro]: "gm_ok m \<Longrightarrow> gm_ok (gm_del m k)"
  by (simp add: gm_ok_def gm_del_def distinct_delete)

lemma gm_get_in: "gm_get m k = Some v \<Longrightarrow> (k, v) \<in> set m"
  by (simp add: gm_get_def map_of_SomeD)

lemma gm_get_iff: "gm_ok m \<Longrightarrow> gm_get m k = Some v \<longleftrightarrow> (k, v) \<in> set m"
  by (simp add: gm_ok_def gm_get_def)

lemma gm_get_None_iff: "gm_get m k = None \<longleftrightarrow> k \<notin> fst ` set m"
  by (simp add: gm_get_def map_of_eq_None_iff)

lemma gm_keys_put: "fst ` set (gm_put m k v) = insert k (fst ` set m)"
  by (simp add: gm_put_def dom_update)

lemma gm_put_subset: "set (gm_put m k v) \<subseteq> insert (k, v) (set m)"
  unfolding gm_put_def by (induction m) auto

lemma foldl_inv:
  assumes "\<And>b x. x \<in> set xs \<Longrightarrow> P b \<Longrightarrow> P (f b x)" and "P b"
  shows "P (foldl f b xs)"
  using assms by (induction xs arbitrary: b) auto

subsection \<open>Slices\<close>

text \<open>\<open>xs[i:]\<close> panics unless \<open>0 \<le> i \<le> len(xs)\<close>.\<close>

definition slice_from :: "int \<Rightarrow> 'a list \<Rightarrow> 'a list outcome" where
  "slice_from i xs =
     (if 0 \<le> i \<and> i \<le> int (length xs) then Ret (drop (nat i) xs)
      else Panic ''slice bounds out of range'')"

lemma slice_from_nat [simp]:
  "slice_from (int n) xs = (if n \<le> length xs then Ret (drop n xs) else Panic ''slice bounds out of range'')"
  by (simp add: slice_from_def)

text \<open>
  \<open>sort.Slice\<close> with a comparison by key.  The standard library promises a sorted permutation and
  no stability; the model takes the stable one, which is what its insertion sort gives on the
  short slices (at most 12 elements) the program sorts, and the results rest on the promise only.
\<close>

definition sort_slice :: "('a \<Rightarrow> 'k::linorder) \<Rightarrow> 'a list \<Rightarrow> 'a list" where
  "sort_slice key xs = sort_key key xs"

lemma sort_slice_sorted [simp]: "sorted (map key (sort_slice key xs))"
  by (simp add: sort_slice_def)

lemma sort_slice_mset [simp]: "mset (sort_slice key xs) = mset xs"
  by (simp add: sort_slice_def)

lemma sort_slice_set [simp]: "set (sort_slice key xs) = set xs"
  by (simp add: sort_slice_def)

lemma sort_slice_length [simp]: "length (sort_slice key xs) = length xs"
  by (simp add: sort_slice_def)

subsection \<open>Strings\<close>

definition has_prefix :: "string \<Rightarrow> string \<Rightarrow> bool" where
  "has_prefix s p \<longleftrightarrow> take (length p) s = p"

definition has_suffix :: "string \<Rightarrow> string \<Rightarrow> bool" where
  "has_suffix s p \<longleftrightarrow> has_prefix (rev s) (rev p)"

definition trim_prefix :: "string \<Rightarrow> string \<Rightarrow> string" where
  "trim_prefix s p = (if has_prefix s p then drop (length p) s else s)"

fun str_index :: "string \<Rightarrow> string \<Rightarrow> nat option" where
  "str_index [] sub = (if sub = [] then Some 0 else None)"
| "str_index (c # cs) sub =
     (if has_prefix (c # cs) sub then Some 0 else map_option Suc (str_index cs sub))"

definition str_contains :: "string \<Rightarrow> string \<Rightarrow> bool" where
  "str_contains s sub \<longleftrightarrow> str_index s sub \<noteq> None"

fun split_on :: "'a \<Rightarrow> 'a list \<Rightarrow> 'a list list" where
  "split_on c [] = [[]]"
| "split_on c (x # xs) =
     (if x = c then [] # split_on c xs
      else (case split_on c xs of [] \<Rightarrow> [[x]] | s # ss \<Rightarrow> (x # s) # ss))"

fun join_with :: "'a list \<Rightarrow> 'a list list \<Rightarrow> 'a list" where
  "join_with sep [] = []"
| "join_with sep [s] = s"
| "join_with sep (s # t # ss) = s @ sep @ join_with sep (t # ss)"

lemma has_prefix_iff: "has_prefix s p \<longleftrightarrow> (\<exists>t. s = p @ t)"
  by (auto simp: has_prefix_def) (metis append_take_drop_id)

lemma str_index_Some:
  "str_index s sub = Some i \<longleftrightarrow>
     i \<le> length s \<and> has_prefix (drop i s) sub \<and> (\<forall>j<i. \<not> has_prefix (drop j s) sub)"
proof (induction s arbitrary: i)
  case Nil
  then show ?case by (auto simp: has_prefix_def)
next
  case (Cons c s)
  show ?case
  proof (cases i)
    case 0
    then show ?thesis by auto
  next
    case (Suc k)
    then show ?thesis using Cons.IH [of k] by (auto simp: less_Suc_eq_0_disj)
  qed
qed

lemma str_index_None:
  "str_index s sub = None \<longleftrightarrow> (\<forall>j\<le>length s. \<not> has_prefix (drop j s) sub)"
proof (induction s)
  case Nil
  then show ?case by (auto simp: has_prefix_def)
next
  case (Cons c s)
  have "(\<forall>j\<le>length (c # s). \<not> has_prefix (drop j (c # s)) sub) \<longleftrightarrow>
        \<not> has_prefix (c # s) sub \<and> (\<forall>j\<le>length s. \<not> has_prefix (drop j s) sub)"
    by (metis Suc_le_mono drop0 drop_Suc_Cons le0 length_Cons not0_implies_Suc)
  then show ?case using Cons by auto
qed

lemma split_on_nonempty [simp]: "split_on c xs \<noteq> []"
  by (induction xs) (auto split: list.splits)

lemma join_with_Cons: "ss \<noteq> [] \<Longrightarrow> join_with sep (s # ss) = s @ sep @ join_with sep ss"
  by (cases ss) auto

lemma join_with_split_on: "join_with [c] (split_on c xs) = xs"
proof (induction xs)
  case Nil
  show ?case by simp
next
  case (Cons x xs)
  obtain s ss where s: "split_on c xs = s # ss"
    by (cases "split_on c xs") auto
  show ?case
    using Cons.IH by (cases ss) (auto simp: s)
qed

lemma split_on_no_sep: "s \<in> set (split_on c xs) \<Longrightarrow> c \<notin> set s"
proof (induction xs arbitrary: s)
  case (Cons x xs)
  then show ?case by (cases "split_on c xs") (auto split: if_splits)
qed simp

lemma split_on_append:
  "c \<notin> set s \<Longrightarrow> split_on c (s @ c # xs) = s # split_on c xs"
  by (induction s) auto

lemma split_on_single: "c \<notin> set s \<Longrightarrow> split_on c s = [s]"
  by (induction s) auto

lemma split_on_join_with:
  "ss \<noteq> [] \<Longrightarrow> \<forall>s\<in>set ss. c \<notin> set s \<Longrightarrow> split_on c (join_with [c] ss) = ss"
proof (induction ss rule: list_nonempty_induct)
  case (single s)
  then show ?case by (simp add: split_on_single)
next
  case (cons s ss)
  then show ?case by (simp add: join_with_Cons split_on_append)
qed

subsection \<open>Decimal text of integers\<close>

fun show_nat :: "nat \<Rightarrow> string" where
  "show_nat n = (if n < 10 then [char_of (48 + n)] else show_nat (n div 10) @ [char_of (48 + n mod 10)])"

declare show_nat.simps [simp del]

definition show_int :: "int \<Rightarrow> string" where
  "show_int i = (if i < 0 then CHR ''-'' # show_nat (nat (- i)) else show_nat (nat i))"

subsection \<open>64-bit integers\<close>

definition wrap64 :: "int \<Rightarrow> int" where
  "wrap64 x = (x + 2 ^ 63) mod 2 ^ 64 - 2 ^ 63"

lemma wrap64_id: "- (2 ^ 63) \<le> x \<Longrightarrow> x < 2 ^ 63 \<Longrightarrow> wrap64 x = x"
  by (simp add: wrap64_def)

lemma wrap64_add: "wrap64 (wrap64 x + y) = wrap64 (x + y)"
proof -
  have "((x + 2 ^ 63) mod 2 ^ 64 + y) mod 2 ^ 64 = ((x + 2 ^ 63) + y) mod (2 ^ 64 :: int)"
    by (rule mod_add_left_eq)
  moreover have "wrap64 x + y + 2 ^ 63 = (x + 2 ^ 63) mod 2 ^ 64 + y"
    by (simp only: wrap64_def)
  moreover have "(x + 2 ^ 63) + y = x + y + 2 ^ 63"
    by simp
  ultimately show ?thesis by (simp only: wrap64_def)
qed

text \<open>Go's integer division truncates towards zero.\<close>

definition go_div :: "int \<Rightarrow> int \<Rightarrow> int" where
  "go_div a b = sgn a * sgn b * (\<bar>a\<bar> div \<bar>b\<bar>)"

lemma go_div_nonneg: "0 \<le> a \<Longrightarrow> 0 < b \<Longrightarrow> go_div a b = a div b"
  by (cases "a = 0") (auto simp: go_div_def)

lemma go_div_between:
  assumes "0 < n" "lo * n \<le> t" "t \<le> hi * n"
  shows "lo \<le> go_div t n \<and> go_div t n \<le> hi"
proof (cases "0 \<le> t")
  case True
  have "lo \<le> t div n" using assms by (simp add: zdiv_mono1 [of "lo * n" t n, simplified])
  moreover have "t div n \<le> hi" using assms zdiv_mono1 [of t "hi * n" n] by simp
  ultimately show ?thesis using True assms(1) by (simp add: go_div_nonneg)
next
  case False
  then have eq: "go_div t n = - ((- t) div n)"
    using assms(1) by (simp add: go_div_def)
  have "- t \<le> (- lo) * n" "(- hi) * n \<le> - t"
    using assms(2,3) by simp_all
  then have "(- t) div n \<le> ((- lo) * n) div n" "((- hi) * n) div n \<le> (- t) div n"
    using assms(1) by (blast intro: zdiv_mono1)+
  then have "(- t) div n \<le> - lo" "- hi \<le> (- t) div n"
    using assms(1) by (simp_all del: mult_minus_left)
  then show ?thesis by (simp add: eq)
qed

end
