(* ===== verification/GoErrors.thy ===== *)
theory GoErrors
  imports Prelude
begin

text \<open>
  The error values of the program (\<open>error/\<close>, \<open>infra/repository/error.go\<close>, the job
  store error of \<open>job/core/job.go\<close>), their text, their \<open>Unwrap\<close> trees, and
  \<open>errors.Is\<close> / \<open>errors.As\<close> on them.

  \<open>ErrText\<close> is \<open>errors.New\<close> and \<open>fmt.Errorf\<close> without \<open>%w\<close>; \<open>ErrWrap pre e post\<close>
  is \<open>fmt.Errorf\<close> with one \<open>%w\<close> between the texts \<open>pre\<close> and \<open>post\<close>; \<open>ErrJoin\<close> is
  \<open>errors.Join\<close>.  A nil error is \<open>None\<close>.
\<close>

datatype go_error =
    ErrText string
  | ErrWrap string go_error string
  | DomainError string string "go_error option"
  | MultiError "go_error option list"
  | ErrJoin "go_error list"
  | OptimisticLockError string int bool
  | StoreError string string "go_error option"

text \<open>Constructors and sentinels of \<open>error/domain_error.go\<close> and \<open>error/errors.go\<close>.\<close>

definition NewDomainError :: "string \<Rightarrow> string \<Rightarrow> go_error" where
  "NewDomainError code msg = DomainError code msg None"

definition NewDomainErrorWithCause :: "string \<Rightarrow> string \<Rightarrow> go_error option \<Rightarrow> go_error" where
  "NewDomainErrorWithCause code msg cause = DomainError code msg cause"

definition NewMultiError :: "go_error option list \<Rightarrow> go_error" where
  "NewMultiError errs = MultiError errs"

definition ErrNotFound :: go_error where
  "ErrNotFound = NewDomainError ''NOT_FOUND'' ''resource not found''"

definition ErrAlreadyExists :: go_error where
  "ErrAlreadyExists = NewDomainError ''ALREADY_EXISTS'' ''resource already exists''"

definition ErrInvalidState :: go_error where
  "ErrInvalidState = NewDomainError ''INVALID_STATE'' ''invalid state for operation''"

definition ErrConcurrency :: go_error where
  "ErrConcurrency = NewDomainError ''CONCURRENCY'' ''concurrent modification conflict''"

definition ErrPermissionDenied :: go_error where
  "ErrPermissionDenied = NewDomainError ''PERMISSION_DENIED'' ''permission denied''"

subsection \<open>Error texts\<close>

fun number_from :: "nat \<Rightarrow> 'a list \<Rightarrow> (nat \<times> 'a) list" where
  "number_from n [] = []"
| "number_from n (x # xs) = (n, x) # number_from (Suc n) xs"

function (sequential) error_text :: "go_error \<Rightarrow> string" where
  "error_text (ErrText s) = s"
| "error_text (ErrWrap pre e post) = pre @ error_text e @ post"
| "error_text (DomainError code msg None) = ''['' @ code @ ''] '' @ msg"
| "error_text (DomainError code msg (Some c)) = ''['' @ code @ ''] '' @ msg @ '': '' @ error_text c"
| "error_text (MultiError es) =
     ''multiple errors:'' @
     concat (map (\<lambda>(i, t). case t of None \<Rightarrow> []
                  | Some s \<Rightarrow> CHR 0x0A # ''  ['' @ show_nat i @ ''] '' @ s)
               (number_from 1 (map (map_option error_text) es)))"
| "error_text (ErrJoin es) = join_with [CHR 0x0A] (map error_text es)"
| "error_text (OptimisticLockError agg v mismatch) =
     (if mismatch
      then ''optimistic lock error: aggregate '' @ agg @ '' version '' @ show_int v @ '' conflicts with existing version''
      else ''optimistic lock error: aggregate '' @ agg @ '' version '' @ show_int v @ '' was already updated by another transaction'')"
| "error_text (StoreError job op None) = ''store '' @ op @ '' failed for job '' @ job @ '': <nil>''"
| "error_text (StoreError job op (Some e)) = ''store '' @ op @ '' failed for job '' @ job @ '': '' @ error_text e"
  by pat_completeness auto
termination
proof (relation "measure size", goal_cases)
  case (4 es x y)
  then have "size y < size_list (size_option size) es"
    by (induction es) (auto split: option.splits)
  then show ?case by simp
next
  case (5 es x)
  then have "size x < Suc (size_list size es)"
    by (induction es) auto
  then show ?case by simp
qed auto

subsection \<open>Unwrapping\<close>

fun err_unwrap :: "go_error \<Rightarrow> go_error list" where
  "err_unwrap (ErrText s) = []"
| "err_unwrap (ErrWrap pre e post) = [e]"
| "err_unwrap (DomainError code msg cause) = (case cause of None \<Rightarrow> [] | Some e \<Rightarrow> [e])"
| "err_unwrap (MultiError es) = map the (filter (\<lambda>e. e \<noteq> None) es)"
| "err_unwrap (ErrJoin es) = es"
| "err_unwrap (OptimisticLockError agg v m) = [ErrConcurrency]"
| "err_unwrap (StoreError job op e) = (case e of None \<Rightarrow> [] | Some e \<Rightarrow> [e])"

text \<open>
  \<open>errors.Is(err, target)\<close> for a \<open>*DomainError\<close> target with the given code: some error of the
  \<open>Unwrap\<close> tree is a \<open>*DomainError\<close> whose \<open>Is\<close> method answers yes, that is, whose code is
  the target's.  An \<open>OptimisticLockError\<close> unwraps to \<open>ErrConcurrency\<close>.
\<close>

definition DomainError_Is :: "string \<Rightarrow> go_error \<Rightarrow> bool" where
  "DomainError_Is code target = (case target of DomainError c m e \<Rightarrow> code = c | _ \<Rightarrow> False)"

function (sequential) errors_Is :: "go_error \<Rightarrow> string \<Rightarrow> bool" where
  "errors_Is (ErrText s) code = False"
| "errors_Is (ErrWrap pre e post) code = errors_Is e code"
| "errors_Is (DomainError c msg cause) code =
     (c = code \<or> (case cause of None \<Rightarrow> False | Some e \<Rightarrow> errors_Is e code))"
| "errors_Is (MultiError es) code =
     list_ex (\<lambda>o1. case o1 of None \<Rightarrow> False | Some e \<Rightarrow> errors_Is e code) es"
| "errors_Is (ErrJoin es) code = list_ex (\<lambda>e. errors_Is e code) es"
| "errors_Is (OptimisticLockError agg v m) code = (''CONCURRENCY'' = code)"
| "errors_Is (StoreError job op e1) code = (case e1 of None \<Rightarrow> False | Some e \<Rightarrow> errors_Is e code)"
  by pat_completeness auto
termination
proof (relation "measure (\<lambda>(e, c). size e)", goal_cases)
  case (4 es code x y)
  then have "size y < size_list (size_option size) es"
    by (induction es) auto
  then show ?case by simp
next
  case (5 es code x)
  then have "size x < Suc (size_list size es)"
    by (induction es) auto
  then show ?case by simp
qed auto

text \<open>\<open>errors.As(err, **DomainError)\<close>: some error of the tree is a \<open>*DomainError\<close>.\<close>

function (sequential) IsDomainError :: "go_error \<Rightarrow> bool" where
  "IsDomainError (ErrText s) = False"
| "IsDomainError (ErrWrap pre e post) = IsDomainError e"
| "IsDomainError (DomainError c msg cause) = True"
| "IsDomainError (MultiError es) =
     list_ex (\<lambda>o1. case o1 of None \<Rightarrow> False | Some e \<Rightarrow> IsDomainError e) es"
| "IsDomainError (ErrJoin es) = list_ex IsDomainError es"
| "IsDomainError (OptimisticLockError agg v m) = True"
| "IsDomainError (StoreError job op e1) = (case e1 of None \<Rightarrow> False | Some e \<Rightarrow> IsDomainError e)"
  by pat_completeness auto
termination
proof (relation "measure size", goal_cases)
  case (3 es x y)
  then have "size y < size_list (size_option size) es"
    by (induction es) auto
  then show ?case by simp
next
  case (4 es x)
  then have "size x < Suc (size_list size es)"
    by (induction es) auto
  then show ?case by simp
qed auto

subsection \<open>What \<open>errors.Is\<close> finds\<close>

inductive unwraps_to :: "go_error \<Rightarrow> go_error \<Rightarrow> bool" where
  unwraps_self: "unwraps_to e e"
| unwraps_step: "c \<in> set (err_unwrap e) \<Longrightarrow> unwraps_to c d \<Longrightarrow> unwraps_to e d"

inductive_simps unwraps_to_simps: "unwraps_to e d"

lemma errors_Is_unwrap:
  "errors_Is e code \<longleftrightarrow>
     DomainError_Is code e \<or> (\<exists>c\<in>set (err_unwrap e). errors_Is c code)"
proof (cases e)
  case (MultiError es)
  have "set (err_unwrap (MultiError es)) = {x. Some x \<in> set es}"
    by force
  then show ?thesis
    by (simp only: MultiError errors_Is.simps DomainError_Is_def list_ex_iff)
      (auto split: option.splits)
next
  case (DomainError c msg cause)
  then show ?thesis by (cases cause) (auto simp: DomainError_Is_def)
next
  case (StoreError job op e1)
  then show ?thesis by (cases e1) (auto simp: DomainError_Is_def)
qed (simp_all add: DomainError_Is_def list_ex_iff ErrConcurrency_def NewDomainError_def eq_commute)

lemma unwraps_to_trans: "unwraps_to e d \<Longrightarrow> unwraps_to d c \<Longrightarrow> unwraps_to e c"
  by (induction rule: unwraps_to.induct) (auto intro: unwraps_step)

lemma unwraps_errors_Is:
  "unwraps_to e d \<Longrightarrow> DomainError_Is code d \<Longrightarrow> errors_Is e code"
proof (induction rule: unwraps_to.induct)
  case (unwraps_self e)
  then show ?case using errors_Is_unwrap by blast
next
  case (unwraps_step c e d)
  then show ?case using errors_Is_unwrap by blast
qed

lemma unwraps_child:
  assumes "c \<in> set (err_unwrap e)" and "\<exists>d. unwraps_to c d \<and> P d"
  shows "\<exists>d. unwraps_to e d \<and> P d"
  using assms unwraps_step by blast

lemma errors_Is_unwraps:
  "errors_Is e code \<Longrightarrow> \<exists>d. unwraps_to e d \<and> DomainError_Is code d"
proof (induction e code rule: errors_Is.induct)
  case (1 s code)
  then show ?case by simp
next
  case (2 pre e post code)
  then show ?case by - (rule unwraps_child [of e], simp_all)
next
  case (3 c msg cause code)
  show ?case
  proof (cases "c = code")
    case True
    then show ?thesis by (intro exI [of _ "DomainError c msg cause"]) (simp add: unwraps_self DomainError_Is_def)
  next
    case False
    with "3.prems" obtain e where "cause = Some e" "errors_Is e code"
      by (auto split: option.splits)
    with "3.IH" show ?thesis by - (rule unwraps_child [of e], simp_all)
  qed
next
  case (4 es code)
  then obtain e where e: "Some e \<in> set es" "errors_Is e code"
    by (auto simp: list_ex_iff split: option.splits)
  have "e \<in> set (err_unwrap (MultiError es))"
    using e(1) by force
  with 4 e show ?case by - (rule unwraps_child [of e], blast+)
next
  case (5 es code)
  then obtain e where "e \<in> set es" "errors_Is e code"
    by (auto simp: list_ex_iff)
  with "5.IH" show ?case by - (rule unwraps_child [of e], simp_all)
next
  case (6 agg v m code)
  then show ?case
    by - (rule unwraps_child [of ErrConcurrency], simp, intro exI [of _ ErrConcurrency],
      simp add: unwraps_self ErrConcurrency_def NewDomainError_def DomainError_Is_def)
next
  case (7 job op e1 code)
  then obtain e where "e1 = Some e" "errors_Is e code"
    by (auto split: option.splits)
  with "7.IH" show ?case by - (rule unwraps_child [of e], simp_all)
qed

lemma IsDomainError_iff: "IsDomainError e \<longleftrightarrow> (\<exists>code. errors_Is e code)"
proof (induction e rule: IsDomainError.induct)
  case (4 es)
  then show ?case by (fastforce simp: list_ex_iff split: option.splits)
next
  case (5 es)
  then show ?case by (fastforce simp: list_ex_iff)
qed (auto split: option.splits)

lemma errors_Is_sentinels [simp]:
  "errors_Is ErrNotFound code \<longleftrightarrow> code = ''NOT_FOUND''"
  "errors_Is ErrAlreadyExists code \<longleftrightarrow> code = ''ALREADY_EXISTS''"
  "errors_Is ErrConcurrency code \<longleftrightarrow> code = ''CONCURRENCY''"
  by (auto simp: ErrNotFound_def ErrAlreadyExists_def ErrConcurrency_def NewDomainError_def)

text \<open>
  \<open>errors.Is\<close> against a framework sentinel finds exactly the domain errors of that code in
  the unwrap tree of an error, through \<open>%w\<close> wrapping, \<open>errors.Join\<close>, multi errors, store
  errors, causes and optimistic-lock errors.
\<close>

theorem errors_Is_correct:
  "errors_Is e code \<longleftrightarrow> (\<exists>msg cause. unwraps_to e (DomainError code msg cause))"
proof
  assume "errors_Is e code"
  then obtain d where "unwraps_to e d" "DomainError_Is code d"
    using errors_Is_unwraps by blast
  then show "\<exists>msg cause. unwraps_to e (DomainError code msg cause)"
    by (cases d) (auto simp: DomainError_Is_def)
next
  assume "\<exists>msg cause. unwraps_to e (DomainError code msg cause)"
  then show "errors_Is e code"
    using unwraps_errors_Is by (force simp: DomainError_Is_def)
qed

end
