(* ===== verification/GoTypes.thy ===== *)
theory GoTypes
  imports GoErrors
begin

text \<open>
  The part of Go's dynamic types and of package \<open>reflect\<close> the program uses: the dynamic type of
  an interface value, type names, and the search for a handler's payload type
  (\<open>cqrs/impl/memory/bus_helpers.go\<close>, \<open>relationship/notifying_bus.go\<close>, the \<open>...NameOf\<close>
  functions of \<open>cqrs\<close>).

  \<open>TBasic\<close> is a predeclared type, \<open>TNamed path name\<close> a declared one (not itself a named
  pointer type), \<open>TLit\<close> any other type literal, which has no name and no package path.
\<close>

datatype gtype =
    TBasic string
  | TNamed string string
  | TPtr gtype
  | TSlice gtype
  | TArray nat gtype
  | TMap gtype gtype
  | TLit string

text \<open>An \<open>any\<close>: nil, or a value with its dynamic type.\<close>

datatype 'd goany = GNil | GAny gtype 'd

fun type_of :: "'d goany \<Rightarrow> gtype option" where
  "type_of GNil = None"
| "type_of (GAny t d) = Some t"

fun type_Name :: "gtype \<Rightarrow> string" where
  "type_Name (TBasic n) = n"
| "type_Name (TNamed p n) = n"
| "type_Name _ = []"

fun type_PkgPath :: "gtype \<Rightarrow> string" where
  "type_PkgPath (TNamed p n) = p"
| "type_PkgPath _ = []"

fun is_ptr :: "gtype \<Rightarrow> bool" where
  "is_ptr (TPtr t) = True"
| "is_ptr _ = False"

fun deref :: "gtype \<Rightarrow> gtype" where
  "deref (TPtr t) = t"
| "deref t = t"

text \<open>\<open>CommandNameOf\<close>, \<open>QueryNameOf\<close>, \<open>EventNameOf\<close>: the name of the pointed-to type; nil panics.\<close>

definition CommandNameOf :: "'d goany \<Rightarrow> string outcome" where
  "CommandNameOf cmd = (case type_of cmd of
     None \<Rightarrow> Panic ''command: CommandNameOf called with nil command''
   | Some t \<Rightarrow> Ret (type_Name (if is_ptr t then deref t else t)))"

definition QueryNameOf :: "'d goany \<Rightarrow> string outcome" where
  "QueryNameOf q = (case type_of q of
     None \<Rightarrow> Panic ''query: QueryNameOf called with nil query''
   | Some t \<Rightarrow> Ret (type_Name (if is_ptr t then deref t else t)))"

definition EventNameOf :: "'d goany \<Rightarrow> string outcome" where
  "EventNameOf evt = (case type_of evt of
     None \<Rightarrow> Panic ''event: EventNameOf called with nil event''
   | Some t \<Rightarrow> Ret (type_Name (if is_ptr t then deref t else t)))"

text \<open>\<open>typeName\<close> of \<open>aspect/builtin/tracing.go\<close>: no nil check, the nil type panics.\<close>

definition aspect_typeName :: "'d goany \<Rightarrow> string outcome" where
  "aspect_typeName v = (case type_of v of
     None \<Rightarrow> Panic ''nil pointer dereference''
   | Some t \<Rightarrow> Ret (type_Name (if is_ptr t then deref t else t)))"

subsection \<open>Handlers\<close>

text \<open>
  A method of a handler's type with its parameter types, the receiver first; a method set has
  one method of a name.
\<close>

record go_method =
  m_name :: string
  m_in :: "gtype list"

record handler_type =
  ht_type :: gtype
  ht_methods :: "go_method list"

definition MethodByName :: "handler_type \<Rightarrow> string \<Rightarrow> go_method option" where
  "MethodByName t n = find (\<lambda>m. m_name m = n) (ht_methods t)"

definition extractPayloadFromHandleMethod :: "go_method \<Rightarrow> gtype option" where
  "extractPayloadFromHandleMethod m = (if length (m_in m) \<noteq> 3 then None else Some (m_in m ! 2))"

definition extractHandlerPayloadType :: "handler_type \<Rightarrow> gtype option \<times> bool" where
  "extractHandlerPayloadType t =
     (if \<not> is_ptr (ht_type t)
      then (case filter (\<lambda>m. m_name m = ''Handle'') (ht_methods t) of
              [] \<Rightarrow> (None, False)
            | m # _ \<Rightarrow> (extractPayloadFromHandleMethod m, True))
      else (case MethodByName t ''Handle'' of
              None \<Rightarrow> (None, False)
            | Some m \<Rightarrow> (case extractPayloadFromHandleMethod m of
                 None \<Rightarrow> (None, False)
               | Some pt \<Rightarrow> (Some pt, True))))"

definition handlerTypeName :: "handler_type \<Rightarrow> string" where
  "handlerTypeName t = type_Name (if is_ptr (ht_type t) then deref (ht_type t) else ht_type t)"

text \<open>
  \<open>typeNamesFromMap\<close> and \<open>SubscribedTypes\<close> range over a map keyed by type; a nil type in it
  panics at \<open>t.Name()\<close>.
\<close>

fun typeNamesFromMap :: "(gtype option, 'h) gomap \<Rightarrow> string list outcome" where
  "typeNamesFromMap [] = Ret []"
| "typeNamesFromMap ((None, h) # m) = Panic ''nil pointer dereference''"
| "typeNamesFromMap ((Some t, h) # m) =
     out_bind (typeNamesFromMap m)
       (\<lambda>names. Ret ((if is_ptr t then type_Name (deref t) else type_Name t) # names))"

lemma typeNamesFromMap_Ret:
  "None \<notin> fst ` set m \<Longrightarrow>
     typeNamesFromMap m = Ret (map (\<lambda>(t, h). type_Name (if is_ptr (the t) then deref (the t) else the t)) m)"
  by (induction m rule: typeNamesFromMap.induct) auto

lemma extract_ptr_payload:
  "is_ptr (ht_type t) \<Longrightarrow> extractHandlerPayloadType t = (p, ok) \<Longrightarrow> ok \<longleftrightarrow> p \<noteq> None"
  by (auto simp: extractHandlerPayloadType_def split: option.splits dest: sym)

lemma extract_ok_has_Handle:
  assumes "extractHandlerPayloadType t = (p, True)"
  shows "MethodByName t ''Handle'' \<noteq> None"
proof (cases "is_ptr (ht_type t)")
  case True
  with assms show ?thesis
    by (auto simp: extractHandlerPayloadType_def split: option.splits)
next
  case False
  with assms have "filter (\<lambda>m. m_name m = ''Handle'') (ht_methods t) \<noteq> []"
    by (auto simp: extractHandlerPayloadType_def)
  then show ?thesis
    by (auto simp: MethodByName_def find_None_iff filter_empty_conv)
qed

end
