(* ===== verification/AspectChain.thy ===== *)
theory AspectChain
  imports GoTypes
begin

text \<open>
  \<open>aspect/chain.go\<close>: the registry of command, query and event aspects and the onion-model
  execution of an operation inside them.

  Hooks and operations are state transformers over a world \<open>'s\<close> that may panic; \<open>time.Now\<close>
  is an argument \<open>clk\<close> that reads the world's clock.  \<open>RNil\<close> is a nil result.
\<close>

datatype 'v retval = RNil | RErr go_error | RVal 'v

type_synonym ('s, 'a) prog = "'s \<Rightarrow> 'a outcome \<times> 's"

definition prog_bind :: "('s, 'a) prog \<Rightarrow> ('a \<Rightarrow> ('s, 'b) prog) \<Rightarrow> ('s, 'b) prog" where
  "prog_bind m f s = (case m s of (Ret x, s1) \<Rightarrow> f x s1 | (Panic e, s1) \<Rightarrow> (Panic e, s1))"

record ('s, 'c, 'm, 'v) aspect =
  asp_name :: string
  asp_order :: int
  asp_before :: "'c \<Rightarrow> 'm \<Rightarrow> ('s, 'c \<times> go_error option) prog"
  asp_after :: "'c \<Rightarrow> 'm \<Rightarrow> 'v retval \<Rightarrow> go_error option \<Rightarrow> duration \<Rightarrow> ('s, go_error option) prog"

record ('s, 'c, 'm) event_aspect =
  evt_name :: string
  evt_order :: int
  evt_before :: "'c \<Rightarrow> 'm \<Rightarrow> ('s, 'c \<times> go_error option) prog"
  evt_after :: "'c \<Rightarrow> 'm \<Rightarrow> go_error option \<Rightarrow> duration \<Rightarrow> ('s, go_error option) prog"

record ('s, 'c, 'm, 'v) chain =
  queryAspects :: "('s, 'c, 'm, 'v) aspect list"
  commandAspects :: "('s, 'c, 'm, 'v) aspect list"
  eventAspects :: "('s, 'c, 'm) event_aspect list"

definition NewAspectChain :: "('s, 'c, 'm, 'v) chain" where
  "NewAspectChain = \<lparr>queryAspects = [], commandAspects = [], eventAspects = []\<rparr>"

subsection \<open>Registration\<close>

definition RegisterQueryAspect ::
    "('s, 'c, 'm, 'v) chain \<Rightarrow> ('s, 'c, 'm, 'v) aspect \<Rightarrow> ('s, 'c, 'm, 'v) chain" where
  "RegisterQueryAspect ch a = ch\<lparr>queryAspects := sort_slice asp_order (queryAspects ch @ [a])\<rparr>"

definition RegisterCommandAspect ::
    "('s, 'c, 'm, 'v) chain \<Rightarrow> ('s, 'c, 'm, 'v) aspect \<Rightarrow> ('s, 'c, 'm, 'v) chain" where
  "RegisterCommandAspect ch a = ch\<lparr>commandAspects := sort_slice asp_order (commandAspects ch @ [a])\<rparr>"

definition RegisterEventAspect ::
    "('s, 'c, 'm, 'v) chain \<Rightarrow> ('s, 'c, 'm) event_aspect \<Rightarrow> ('s, 'c, 'm, 'v) chain" where
  "RegisterEventAspect ch a = ch\<lparr>eventAspects := sort_slice evt_order (eventAspects ch @ [a])\<rparr>"

text \<open>A value registered by \<open>RegisterAspect\<close>: which aspect interfaces it implements, and how.\<close>

record ('s, 'c, 'm, 'v) aspect_value =
  as_command :: "('s, 'c, 'm, 'v) aspect option"
  as_query :: "('s, 'c, 'm, 'v) aspect option"
  as_event :: "('s, 'c, 'm) event_aspect option"

definition RegisterAspect ::
    "('s, 'c, 'm, 'v) chain \<Rightarrow> ('s, 'c, 'm, 'v) aspect_value \<Rightarrow> ('s, 'c, 'm, 'v) chain" where
  "RegisterAspect ch a =
     (let ch1 = (case as_command a of None \<Rightarrow> ch | Some ca \<Rightarrow> RegisterCommandAspect ch ca);
          ch2 = (case as_query a of None \<Rightarrow> ch1 | Some qa \<Rightarrow> RegisterQueryAspect ch1 qa)
      in (case as_event a of None \<Rightarrow> ch2 | Some ea \<Rightarrow> RegisterEventAspect ch2 ea))"

definition HasAspect :: "('s, 'c, 'm, 'v) chain \<Rightarrow> string \<Rightarrow> bool" where
  "HasAspect ch name \<longleftrightarrow>
     (\<exists>a\<in>set (commandAspects ch). asp_name a = name) \<or>
     (\<exists>a\<in>set (queryAspects ch). asp_name a = name) \<or>
     (\<exists>a\<in>set (eventAspects ch). evt_name a = name)"

fun add_names :: "string list \<Rightarrow> string list \<Rightarrow> string list" where
  "add_names seen [] = seen"
| "add_names seen (n # ns) = (if n \<in> set seen then add_names seen ns else add_names (seen @ [n]) ns)"

definition RegisteredNames :: "('s, 'c, 'm, 'v) chain \<Rightarrow> string list" where
  "RegisteredNames ch =
     add_names (add_names (add_names [] (map asp_name (commandAspects ch)))
        (map asp_name (queryAspects ch))) (map evt_name (eventAspects ch))"

subsection \<open>Execution\<close>

text \<open>What the loop body does with an error of an After hook.\<close>

definition join_after :: "go_error option \<Rightarrow> go_error option \<Rightarrow> go_error option" where
  "join_after err afterErr = (case afterErr of
     None \<Rightarrow> err
   | Some ae \<Rightarrow> (case err of None \<Rightarrow> Some ae | Some e \<Rightarrow> Some (ErrJoin [e, ae])))"

function runQueryAspects ::
    "('s \<Rightarrow> time \<times> 's) \<Rightarrow> 'm \<Rightarrow> ('c \<Rightarrow> ('s, 'v retval \<times> go_error option) prog) \<Rightarrow> nat \<Rightarrow>
     ('s, 'c, 'm, 'v) aspect list \<Rightarrow> 'c \<Rightarrow> ('s, 'v retval \<times> go_error option) prog" where
  "runQueryAspects clk query nxt index aspects ctx s =
     (if length aspects \<le> index then nxt ctx s
      else (let a = aspects ! index in
        case asp_before a ctx query s of
          (Panic p, s1) \<Rightarrow> (Panic p, s1)
        | (Ret (newCtx, Some err), s1) \<Rightarrow> (Ret (RNil, Some err), s1)
        | (Ret (newCtx, None), s1) \<Rightarrow>
            (let (start, s2) = clk s1 in
             case runQueryAspects clk query nxt (index + 1) aspects newCtx s2 of
               (Panic p, s3) \<Rightarrow> (Panic p, s3)
             | (Ret (result, err), s3) \<Rightarrow>
                 (let (finish, s4) = clk s3 in
                  case asp_after a newCtx query result err (finish - start) s4 of
                    (Panic p, s5) \<Rightarrow> (Panic p, s5)
                  | (Ret afterErr, s5) \<Rightarrow> (Ret (result, join_after err afterErr), s5)))))"
  by pat_completeness auto
termination
  by (relation "measure (\<lambda>(clk, q, nxt, index, aspects, ctx, s). length aspects - index)") auto

function runCommandAspects ::
    "('s \<Rightarrow> time \<times> 's) \<Rightarrow> 'm \<Rightarrow> ('c \<Rightarrow> ('s, 'v retval \<times> go_error option) prog) \<Rightarrow> nat \<Rightarrow>
     ('s, 'c, 'm, 'v) aspect list \<Rightarrow> 'c \<Rightarrow> ('s, 'v retval \<times> go_error option) prog" where
  "runCommandAspects clk cmd nxt index aspects ctx s =
     (if length aspects \<le> index then nxt ctx s
      else (let a = aspects ! index in
        case asp_before a ctx cmd s of
          (Panic p, s1) \<Rightarrow> (Panic p, s1)
        | (Ret (newCtx, Some err), s1) \<Rightarrow> (Ret (RNil, Some err), s1)
        | (Ret (newCtx, None), s1) \<Rightarrow>
            (let (start, s2) = clk s1 in
             case runCommandAspects clk cmd nxt (index + 1) aspects newCtx s2 of
               (Panic p, s3) \<Rightarrow> (Panic p, s3)
             | (Ret (result, err), s3) \<Rightarrow>
                 (let (finish, s4) = clk s3 in
                  case asp_after a newCtx cmd result err (finish - start) s4 of
                    (Panic p, s5) \<Rightarrow> (Panic p, s5)
                  | (Ret afterErr, s5) \<Rightarrow> (Ret (result, join_after err afterErr), s5)))))"
  by pat_completeness auto
termination
  by (relation "measure (\<lambda>(clk, q, nxt, index, aspects, ctx, s). length aspects - index)") auto

function runEventAspects ::
    "('s \<Rightarrow> time \<times> 's) \<Rightarrow> 'm \<Rightarrow> ('c \<Rightarrow> ('s, go_error option) prog) \<Rightarrow> nat \<Rightarrow>
     ('s, 'c, 'm) event_aspect list \<Rightarrow> 'c \<Rightarrow> ('s, go_error option) prog" where
  "runEventAspects clk event nxt index aspects ctx s =
     (if length aspects \<le> index then nxt ctx s
      else (let a = aspects ! index in
        case evt_before a ctx event s of
          (Panic p, s1) \<Rightarrow> (Panic p, s1)
        | (Ret (newCtx, Some err), s1) \<Rightarrow> (Ret (Some err), s1)
        | (Ret (newCtx, None), s1) \<Rightarrow>
            (let (start, s2) = clk s1 in
             case runEventAspects clk event nxt (index + 1) aspects newCtx s2 of
               (Panic p, s3) \<Rightarrow> (Panic p, s3)
             | (Ret err, s3) \<Rightarrow>
                 (let (finish, s4) = clk s3 in
                  case evt_after a newCtx event err (finish - start) s4 of
                    (Panic p, s5) \<Rightarrow> (Panic p, s5)
                  | (Ret afterErr, s5) \<Rightarrow> (Ret (join_after err afterErr), s5)))))"
  by pat_completeness auto
termination
  by (relation "measure (\<lambda>(clk, q, nxt, index, aspects, ctx, s). length aspects - index)") auto

definition ExecuteWithQueryAspects ::
    "('s \<Rightarrow> time \<times> 's) \<Rightarrow> ('s, 'c, 'm, 'v) chain \<Rightarrow> 'c \<Rightarrow> 'm \<Rightarrow>
     ('c \<Rightarrow> ('s, 'v retval \<times> go_error option) prog) \<Rightarrow> ('s, 'v retval \<times> go_error option) prog" where
  "ExecuteWithQueryAspects clk ch ctx query nxt = runQueryAspects clk query nxt 0 (queryAspects ch) ctx"

definition ExecuteWithCommandAspects ::
    "('s \<Rightarrow> time \<times> 's) \<Rightarrow> ('s, 'c, 'm, 'v) chain \<Rightarrow> 'c \<Rightarrow> 'm \<Rightarrow>
     ('c \<Rightarrow> ('s, 'v retval \<times> go_error option) prog) \<Rightarrow> ('s, 'v retval \<times> go_error option) prog" where
  "ExecuteWithCommandAspects clk ch ctx cmd nxt = runCommandAspects clk cmd nxt 0 (commandAspects ch) ctx"

definition ExecuteWithEventAspects ::
    "('s \<Rightarrow> time \<times> 's) \<Rightarrow> ('s, 'c, 'm, 'v) chain \<Rightarrow> 'c \<Rightarrow> 'm \<Rightarrow>
     ('c \<Rightarrow> ('s, go_error option) prog) \<Rightarrow> ('s, go_error option) prog" where
  "ExecuteWithEventAspects clk ch ctx event nxt = runEventAspects clk event nxt 0 (eventAspects ch) ctx"

declare runQueryAspects.simps [simp del]
declare runCommandAspects.simps [simp del]
declare runEventAspects.simps [simp del]

subsection \<open>Registration keeps the order\<close>

definition chain_sorted :: "('s, 'c, 'm, 'v) chain \<Rightarrow> bool" where
  "chain_sorted ch \<longleftrightarrow>
     sorted (map asp_order (commandAspects ch)) \<and>
     sorted (map asp_order (queryAspects ch)) \<and>
     sorted (map evt_order (eventAspects ch))"

definition value_names :: "('s, 'c, 'm, 'v) aspect_value \<Rightarrow> string set" where
  "value_names a =
     asp_name ` set_option (as_command a) \<union> asp_name ` set_option (as_query a) \<union>
     evt_name ` set_option (as_event a)"

lemmas register_defs = RegisterCommandAspect_def RegisterQueryAspect_def RegisterEventAspect_def

lemma chain_sorted_New [simp]: "chain_sorted NewAspectChain"
  by (simp add: chain_sorted_def NewAspectChain_def)

lemma chain_sorted_register:
  assumes "chain_sorted ch"
  shows "chain_sorted (RegisterCommandAspect ch a)"
    and "chain_sorted (RegisterQueryAspect ch a)"
    and "chain_sorted (RegisterEventAspect ch b)"
  using assms by (simp_all add: chain_sorted_def register_defs)

lemma chain_sorted_RegisterAspect: "chain_sorted ch \<Longrightarrow> chain_sorted (RegisterAspect ch a)"
  by (auto simp: RegisterAspect_def Let_def split: option.splits intro!: chain_sorted_register)

lemma HasAspect_RegisterAspect:
  "HasAspect (RegisterAspect ch a) n \<longleftrightarrow> HasAspect ch n \<or> n \<in> value_names a"
  by (auto simp: RegisterAspect_def Let_def HasAspect_def value_names_def register_defs split: option.splits)

text \<open>
  Registering aspects in any sequence leaves each list of the chain sorted by \<open>Order()\<close>, so
  lower orders wrap higher ones, and the chain has exactly the registered names.
\<close>

theorem register_all_sorted:
  "chain_sorted (foldl RegisterAspect NewAspectChain as) \<and>
   (HasAspect (foldl RegisterAspect NewAspectChain as) n \<longleftrightarrow> (\<exists>a\<in>set as. n \<in> value_names a))"
proof (induction as rule: rev_induct)
  case Nil
  show ?case by (simp add: HasAspect_def) (simp add: NewAspectChain_def)
next
  case (snoc a as)
  then show ?case by (auto simp: chain_sorted_RegisterAspect HasAspect_RegisterAspect)
qed

lemma add_names_set: "set (add_names seen ns) = set seen \<union> set ns"
  by (induction seen ns rule: add_names.induct) auto

lemma add_names_distinct: "distinct seen \<Longrightarrow> distinct (add_names seen ns)"
  by (induction seen ns rule: add_names.induct) auto

text \<open>
  \<open>RegisteredNames\<close> lists each name \<open>HasAspect\<close> finds exactly once.
\<close>

theorem RegisteredNames_correct:
  "distinct (RegisteredNames ch) \<and> set (RegisteredNames ch) = {n. HasAspect ch n}"
  by (auto simp: RegisteredNames_def add_names_distinct add_names_set HasAspect_def)

subsection \<open>The onion\<close>

text \<open>One layer of the onion around an inner operation, and the specification: nested layers.\<close>

definition aspect_layer ::
    "('s \<Rightarrow> time \<times> 's) \<Rightarrow> 'm \<Rightarrow> ('s, 'c, 'm, 'v) aspect \<Rightarrow>
     ('c \<Rightarrow> ('s, 'v retval \<times> go_error option) prog) \<Rightarrow> 'c \<Rightarrow> ('s, 'v retval \<times> go_error option) prog" where
  "aspect_layer clk msg a inner ctx s =
     (case asp_before a ctx msg s of
        (Panic p, s1) \<Rightarrow> (Panic p, s1)
      | (Ret (c1, Some err), s1) \<Rightarrow> (Ret (RNil, Some err), s1)
      | (Ret (c1, None), s1) \<Rightarrow>
          (let (start, s2) = clk s1 in
           case inner c1 s2 of
             (Panic p, s3) \<Rightarrow> (Panic p, s3)
           | (Ret (result, err), s3) \<Rightarrow>
               (let (finish, s4) = clk s3 in
                case asp_after a c1 msg result err (finish - start) s4 of
                  (Panic p, s5) \<Rightarrow> (Panic p, s5)
                | (Ret afterErr, s5) \<Rightarrow> (Ret (result, join_after err afterErr), s5))))"

lemma runCommandAspects_drop:
  "runCommandAspects clk cmd nxt i aspects = foldr (aspect_layer clk cmd) (drop i aspects) nxt"
proof (induction "length aspects - i" arbitrary: i)
  case 0
  then show ?case by (intro ext) (simp add: runCommandAspects.simps)
next
  case (Suc d)
  then have lt: "i < length aspects"
    by simp
  then have d: "drop i aspects = aspects ! i # drop (i + 1) aspects"
    by (simp add: Cons_nth_drop_Suc)
  have IH: "runCommandAspects clk cmd nxt (i + 1) aspects = foldr (aspect_layer clk cmd) (drop (i + 1) aspects) nxt"
    using Suc by simp
  show ?case
    using lt by (intro ext, subst runCommandAspects.simps) (simp only: not_le [symmetric] if_False d foldr.simps o_apply IH aspect_layer_def Let_def)
qed

lemma runQueryAspects_drop:
  "runQueryAspects clk cmd nxt i aspects = foldr (aspect_layer clk cmd) (drop i aspects) nxt"
proof (induction "length aspects - i" arbitrary: i)
  case 0
  then show ?case by (intro ext) (simp add: runQueryAspects.simps)
next
  case (Suc d)
  then have lt: "i < length aspects"
    by simp
  then have d: "drop i aspects = aspects ! i # drop (i + 1) aspects"
    by (simp add: Cons_nth_drop_Suc)
  have IH: "runQueryAspects clk cmd nxt (i + 1) aspects = foldr (aspect_layer clk cmd) (drop (i + 1) aspects) nxt"
    using Suc by simp
  show ?case
    using lt by (intro ext, subst runQueryAspects.simps) (simp only: not_le [symmetric] if_False d foldr.simps o_apply IH aspect_layer_def Let_def)
qed

lemma chain_is_onion_simps:
  "ExecuteWithCommandAspects clk ch ctx m nxt = foldr (aspect_layer clk m) (commandAspects ch) nxt ctx"
  "ExecuteWithQueryAspects clk ch ctx m nxt = foldr (aspect_layer clk m) (queryAspects ch) nxt ctx"
  by (simp_all add: ExecuteWithCommandAspects_def ExecuteWithQueryAspects_def
      runCommandAspects_drop runQueryAspects_drop)

text \<open>
  C2.  The index recursions of the command and the query chain are the nested onion: the first
  aspect's layer around the second's and so on around the operation.
\<close>

theorem chain_is_onion:
  "ExecuteWithCommandAspects clk ch ctx m nxt = foldr (aspect_layer clk m) (commandAspects ch) nxt ctx \<and>
   ExecuteWithQueryAspects clk ch ctx m nxt = foldr (aspect_layer clk m) (queryAspects ch) nxt ctx"
  by (simp add: chain_is_onion_simps)

lemma aspect_layer_Ret:
  "aspect_layer clk m a inner ctx s = (Ret (res, err), s') \<longleftrightarrow>
     (\<exists>c1 e. asp_before a ctx m s = (Ret (c1, Some e), s') \<and> res = RNil \<and> err = Some e) \<or>
     (\<exists>c1 s1 start s2 err3 s3 finish s4 ae.
        asp_before a ctx m s = (Ret (c1, None), s1) \<and> clk s1 = (start, s2) \<and>
        inner c1 s2 = (Ret (res, err3), s3) \<and> clk s3 = (finish, s4) \<and>
        asp_after a c1 m res err3 (finish - start) s4 = (Ret ae, s') \<and> err = join_after err3 ae)"
  by (auto simp: aspect_layer_def split: prod.splits outcome.splits option.splits)

lemma aspect_layer_RetE:
  assumes "aspect_layer clk m a inner ctx s = (Ret (res, err), s')"
  obtains
    (before_fails) c1 e where "asp_before a ctx m s = (Ret (c1, Some e), s')" "res = RNil" "err = Some e"
  | (inner_runs) c1 s1 start s2 err3 s3 finish s4 ae where
      "asp_before a ctx m s = (Ret (c1, None), s1)" "clk s1 = (start, s2)"
      "inner c1 s2 = (Ret (res, err3), s3)" "clk s3 = (finish, s4)"
      "asp_after a c1 m res err3 (finish - start) s4 = (Ret ae, s')" "err = join_after err3 ae"
  using assms unfolding aspect_layer_Ret by blast

subsection \<open>Hooks are bracketed\<close>

text \<open>
  The same run with a log: every Before, every After and the operation itself write their name
  before they act.  The log of a run that does not panic is a well-nested bracket.
\<close>

datatype hook_event = HBefore string | HHandler | HAfter string

definition log_aspect ::
    "('s, 'c, 'm, 'v) aspect \<Rightarrow> ('s \<times> hook_event list, 'c, 'm, 'v) aspect" where
  "log_aspect a =
     \<lparr>asp_name = asp_name a, asp_order = asp_order a,
      asp_before = (\<lambda>c m w. let (o1, s1) = asp_before a c m (fst w) in (o1, (s1, snd w @ [HBefore (asp_name a)]))),
      asp_after = (\<lambda>c m r e d w. let (o1, s1) = asp_after a c m r e d (fst w) in (o1, (s1, snd w @ [HAfter (asp_name a)])))\<rparr>"

definition log_clk :: "('s \<Rightarrow> time \<times> 's) \<Rightarrow> 's \<times> hook_event list \<Rightarrow> time \<times> ('s \<times> hook_event list)" where
  "log_clk clk w = (let (t, s1) = clk (fst w) in (t, (s1, snd w)))"

definition log_next ::
    "('c \<Rightarrow> ('s, 'v retval \<times> go_error option) prog) \<Rightarrow>
     'c \<Rightarrow> ('s \<times> hook_event list, 'v retval \<times> go_error option) prog" where
  "log_next nxt c w = (let (o1, s1) = nxt c (fst w) in (o1, (s1, snd w @ [HHandler])))"

text \<open>The bracket of a run in which the first \<open>k\<close> Before hooks succeed.\<close>

fun onion_trace :: "string list \<Rightarrow> nat \<Rightarrow> hook_event list" where
  "onion_trace [] k = [HHandler]"
| "onion_trace (n # ns) 0 = [HBefore n]"
| "onion_trace (n # ns) (Suc k) = HBefore n # onion_trace ns k @ [HAfter n]"

lemma log_before:
  "asp_before (log_aspect a) c m (s, l) = (o1, s1, l1) \<longleftrightarrow>
     asp_before a c m s = (o1, s1) \<and> l1 = l @ [HBefore (asp_name a)]"
  by (auto simp: log_aspect_def Let_def split: prod.splits)

lemma log_after:
  "asp_after (log_aspect a) c m r e d (s, l) = (o1, s1, l1) \<longleftrightarrow>
     asp_after a c m r e d s = (o1, s1) \<and> l1 = l @ [HAfter (asp_name a)]"
  by (auto simp: log_aspect_def Let_def split: prod.splits)

lemma log_clk_eq: "log_clk clk (s, l) = (t, s1, l1) \<longleftrightarrow> clk s = (t, s1) \<and> l1 = l"
  by (auto simp: log_clk_def Let_def split: prod.splits)

lemma logged_onion:
  assumes "foldr (aspect_layer (log_clk clk) m) (map log_aspect as) (log_next nxt) ctx (s, l) = (Ret r, s', l')"
  shows "foldr (aspect_layer clk m) as nxt ctx s = (Ret r, s') \<and>
         (\<exists>k. l' = l @ onion_trace (map asp_name as) k)"
  using assms
proof (induction as arbitrary: ctx s l r s' l')
  case Nil
  then show ?case by (auto simp: log_next_def Let_def split: prod.splits)
next
  case (Cons a as)
  obtain res err where r: "r = (res, err)"
    by (cases r)
  from Cons.prems have layer: "aspect_layer (log_clk clk) m (log_aspect a)
      (foldr (aspect_layer (log_clk clk) m) (map log_aspect as) (log_next nxt)) ctx (s, l) = (Ret (res, err), s', l')"
    by (simp only: list.map foldr.simps o_apply r)
  then show ?case
  proof (cases rule: aspect_layer_RetE)
    case (before_fails c1 e)
    then show ?thesis
      by (auto simp: log_before r aspect_layer_Ret intro!: exI [of _ 0])
  next
    case (inner_runs c1 w1 start w2 err3 w3 finish w4 ae)
    obtain s1 l1 s2 l2 s3 l3 s4 l4 where w: "w1 = (s1, l1)" "w2 = (s2, l2)" "w3 = (s3, l3)" "w4 = (s4, l4)"
      by (metis prod.exhaust)
    from Cons.IH [OF inner_runs(3) [unfolded w]] obtain k where
      IH: "foldr (aspect_layer clk m) as nxt c1 s2 = (Ret (res, err3), s3)"
      and l3: "l3 = l2 @ onion_trace (map asp_name as) k"
      by blast
    have "l' = l @ onion_trace (map asp_name (a # as)) (Suc k)"
      using inner_runs l3 by (simp add: w log_before log_after log_clk_eq)
    moreover have "aspect_layer clk m a (foldr (aspect_layer clk m) as nxt) ctx s = (Ret (res, err), s')"
      using inner_runs IH by (auto simp: w log_before log_after log_clk_eq aspect_layer_Ret)
    ultimately show ?thesis by (simp only: list.map foldr.simps o_apply r) blast
  qed
qed

text \<open>
  C40.  Logging does not change a command's run, and the hooks of every run that does not panic
  are bracketed: Before hooks in chain order up to the first one that fails, the operation only
  if all succeed, then the After hooks of exactly the aspects whose Before succeeded, in reverse.
\<close>

theorem command_hooks_bracketed:
  assumes "runCommandAspects (log_clk clk) m (log_next nxt) 0 (map log_aspect as) ctx (s, []) = (Ret r, s', l')"
  shows "runCommandAspects clk m nxt 0 as ctx s = (Ret r, s') \<and>
         (\<exists>k. l' = onion_trace (map asp_name as) k)"
  using logged_onion [of clk m as nxt ctx s "[]" r s' l'] assms by (simp add: runCommandAspects_drop)

definition demo_aspect :: "string \<Rightarrow> bool \<Rightarrow> (nat, nat, string, nat) aspect" where
  "demo_aspect n fail =
     \<lparr>asp_name = n, asp_order = 0,
      asp_before = (\<lambda>c m s. (Ret (c, if fail then Some (ErrText n) else None), Suc s)),
      asp_after = (\<lambda>c m r e d s. (Ret (Some (ErrText m)), Suc s))\<rparr>"

lemma demo_aspect_hooks [simp]:
  "asp_name (demo_aspect n fail) = n"
  "asp_before (demo_aspect n fail) c m s = (Ret (c, if fail then Some (ErrText n) else None), Suc s)"
  "asp_after (demo_aspect n fail) c m r e d s = (Ret (Some (ErrText m)), Suc s)"
  by (simp_all add: demo_aspect_def)

lemma log_hooks:
  "asp_before (log_aspect a) c m w = (let (o1, s1) = asp_before a c m (fst w) in (o1, (s1, snd w @ [HBefore (asp_name a)])))"
  "asp_after (log_aspect a) c m r e d w = (let (o1, s1) = asp_after a c m r e d (fst w) in (o1, (s1, snd w @ [HAfter (asp_name a)])))"
  by (simp_all add: log_aspect_def)

theorem command_hooks_bracketed_witness:
  "runCommandAspects (\<lambda>s. (int s, s)) ''m'' (\<lambda>c s. (Ret (RVal c, None), s)) 0
     [demo_aspect ''a'' False, demo_aspect ''b'' True] 7 0 =
     (Ret (RNil, Some (ErrJoin [ErrText ''b'', ErrText ''m''])), 3) \<and>
   (\<exists>k. [HBefore ''a'', HBefore ''b'', HAfter ''a''] = onion_trace [''a'', ''b''] k)"
proof -
  have "runCommandAspects (log_clk (\<lambda>s. (int s, s))) ''m'' (log_next (\<lambda>c s. (Ret (RVal c, None), s))) 0
     (map log_aspect [demo_aspect ''a'' False, demo_aspect ''b'' True]) 7 (0, []) =
     (Ret (RNil, Some (ErrJoin [ErrText ''b'', ErrText ''m''])), 3, [HBefore ''a'', HBefore ''b'', HAfter ''a''])"
    by (simp only: runCommandAspects_drop drop0 list.map foldr.simps o_apply,
        subst aspect_layer_def, simp add: log_hooks log_clk_def Let_def,
        subst aspect_layer_def, simp add: log_hooks log_clk_def Let_def join_after_def)
  from command_hooks_bracketed [OF this] show ?thesis by simp
qed

subsection \<open>No error is lost\<close>

lemma join_after_keeps: "\<exists>e'. join_after (Some e) ae = Some e' \<and> unwraps_to e' e"
proof (cases ae)
  case None
  then show ?thesis by (simp add: join_after_def unwraps_self)
next
  case (Some a)
  have "unwraps_to (ErrJoin [e, a]) e"
    by (rule unwraps_step [OF _ unwraps_self]) simp
  then show ?thesis by (simp add: Some join_after_def)
qed

lemma join_after_None [simp]: "join_after err ae = None \<longleftrightarrow> err = None \<and> ae = None"
  by (auto simp: join_after_def split: option.splits)

definition keeps_error :: "go_error option \<Rightarrow> go_error option \<Rightarrow> bool" where
  "keeps_error inner outer \<longleftrightarrow>
     (\<forall>e. inner = Some e \<longrightarrow> (\<exists>e'. outer = Some e' \<and> unwraps_to e' e))"

lemma keeps_error_refl [simp]: "keeps_error err err"
  unfolding keeps_error_def using unwraps_self by blast

lemma keeps_error_join: "keeps_error e0 err \<Longrightarrow> keeps_error e0 (join_after err ae)"
proof (unfold keeps_error_def, intro allI impI)
  fix e
  assume "\<forall>e. e0 = Some e \<longrightarrow> (\<exists>e'. err = Some e' \<and> unwraps_to e' e)" "e0 = Some e"
  then obtain e1 where e1: "err = Some e1" "unwraps_to e1 e"
    by (elim allE [of _ e]) blast
  from join_after_keeps [of e1 ae] obtain e2 where "join_after (Some e1) ae = Some e2" "unwraps_to e2 e1"
    by (elim exE conjE)
  with e1 show "\<exists>e'. join_after err ae = Some e' \<and> unwraps_to e' e"
    by (intro exI [of _ e2] conjI) (simp_all add: unwraps_to_trans [of e2 e1])
qed

text \<open>
  How far a run gets: the Before hooks are called in chain order, each on the context and the
  state the one before it left (the clock is read between them), until one refuses.
\<close>

datatype ('s, 'c) descent = Entered 'c 's | Blocked go_error 's | Crashed

fun descend ::
    "('s \<Rightarrow> time \<times> 's) \<Rightarrow> 'm \<Rightarrow> ('s, 'c, 'm, 'v) aspect list \<Rightarrow> 'c \<Rightarrow> 's \<Rightarrow> ('s, 'c) descent" where
  "descend clk m [] ctx s = Entered ctx s"
| "descend clk m (a # as) ctx s =
     (case asp_before a ctx m s of
        (Ret (c1, None), s1) \<Rightarrow> descend clk m as c1 (snd (clk s1))
      | (Ret (c1, Some e), s1) \<Rightarrow> Blocked e s1
      | (Panic p, s1) \<Rightarrow> Crashed)"

lemma onion_error_kept:
  assumes "foldr (aspect_layer clk m) as nxt ctx s = (Ret (res, err), s')"
  shows "case descend clk m as ctx s of
           Blocked e s1 \<Rightarrow> res = RNil \<and> keeps_error (Some e) err
         | Entered c1 s1 \<Rightarrow> \<exists>e0 s2. nxt c1 s1 = (Ret (res, e0), s2) \<and> keeps_error e0 err
         | Crashed \<Rightarrow> False"
  using assms
proof (induction as arbitrary: ctx s err s')
  case Nil
  then show ?case by simp
next
  case (Cons a as)
  then have "aspect_layer clk m a (foldr (aspect_layer clk m) as nxt) ctx s = (Ret (res, err), s')"
    by simp
  then show ?case
  proof (cases rule: aspect_layer_RetE)
    case (before_fails c1 e)
    then show ?thesis by simp
  next
    case (inner_runs c1 s1 start s2 err3 s3 finish s4 ae)
    have "descend clk m (a # as) ctx s = descend clk m as c1 s2"
      using inner_runs(1,2) by simp
    with Cons.IH [OF inner_runs(3)] show ?thesis
      using keeps_error_join [of _ err3 ae] inner_runs(6) by (auto split: descent.splits)
  qed
qed

text \<open>
  C6.  Around any command operation, with any aspects, no error is lost.  Follow the Before hooks
  in chain order from the call's context and state.  When one of them refuses, the returned result
  is nil and its error is in the returned error's tree.  When all agree, the operation runs on the
  context and in the state they leave, its result is the returned one, and its own error, if it
  has one, is in the returned error's tree, whatever the After hooks return.
\<close>

theorem command_error_never_lost:
  assumes "ExecuteWithCommandAspects clk ch ctx m nxt s = (Ret (res, err), s')"
  shows "case descend clk m (commandAspects ch) ctx s of
           Blocked e s1 \<Rightarrow> res = RNil \<and> keeps_error (Some e) err
         | Entered c1 s1 \<Rightarrow> \<exists>e0 s2. nxt c1 s1 = (Ret (res, e0), s2) \<and> keeps_error e0 err
         | Crashed \<Rightarrow> False"
  by (rule onion_error_kept [OF assms [unfolded chain_is_onion_simps]])

theorem command_error_never_lost_witness:
  "ExecuteWithCommandAspects (\<lambda>s. (int s, s))
      (NewAspectChain\<lparr>commandAspects := [demo_aspect ''a'' False]\<rparr>) 7 ''m''
      (\<lambda>c s. (Ret (RVal c, Some (ErrText ''own'')), s + 10)) 0 =
     (Ret (RVal 7, Some (ErrJoin [ErrText ''own'', ErrText ''m''])), 12) \<and>
   descend (\<lambda>s. (int s, s)) ''m'' [demo_aspect ''a'' False] 7 0 = Entered 7 1 \<and>
   keeps_error (Some (ErrText ''own'')) (Some (ErrJoin [ErrText ''own'', ErrText ''m'']))"
proof -
  have run: "ExecuteWithCommandAspects (\<lambda>s. (int s, s))
      (NewAspectChain\<lparr>commandAspects := [demo_aspect ''a'' False]\<rparr>) 7 ''m''
      (\<lambda>c s. (Ret (RVal c, Some (ErrText ''own'')), s + 10)) 0 =
     (Ret (RVal 7, Some (ErrJoin [ErrText ''own'', ErrText ''m''])), 12)"
    by (simp add: chain_is_onion_simps aspect_layer_def join_after_def)
  show ?thesis using command_error_never_lost [OF run] run by simp
qed

subsection \<open>Event aspects\<close>

text \<open>
  The event loop is the command loop of the same hooks with a nil result.
\<close>

definition as_command_aspect :: "('s, 'c, 'm) event_aspect \<Rightarrow> ('s, 'c, 'm, unit) aspect" where
  "as_command_aspect a =
     \<lparr>asp_name = evt_name a, asp_order = evt_order a, asp_before = evt_before a,
      asp_after = (\<lambda>c m r e d. evt_after a c m e d)\<rparr>"

definition with_nil :: "('s, go_error option) prog \<Rightarrow> ('s, unit retval \<times> go_error option) prog" where
  "with_nil p s = (case p s of (Ret e, s1) \<Rightarrow> (Ret (RNil, e), s1) | (Panic m, s1) \<Rightarrow> (Panic m, s1))"

lemma as_command_aspect_hooks [simp]:
  "asp_name (as_command_aspect a) = evt_name a"
  "asp_order (as_command_aspect a) = evt_order a"
  "asp_before (as_command_aspect a) = evt_before a"
  "asp_after (as_command_aspect a) c m r e d = evt_after a c m e d"
  by (simp_all add: as_command_aspect_def)

lemma runEventAspects_drop:
  "with_nil (runEventAspects clk ev nxt i aspects ctx) s =
     foldr (aspect_layer clk ev) (map as_command_aspect (drop i aspects)) (\<lambda>c. with_nil (nxt c)) ctx s"
proof (induction "length aspects - i" arbitrary: i ctx s)
  case 0
  then show ?case by (simp add: runEventAspects.simps with_nil_def)
next
  case (Suc d)
  then have lt: "i < length aspects"
    by simp
  then have d: "drop i aspects = aspects ! i # drop (i + 1) aspects"
    by (simp add: Cons_nth_drop_Suc)
  have IH: "foldr (aspect_layer clk ev) (map as_command_aspect (drop (i + 1) aspects)) (\<lambda>c. with_nil (nxt c)) c1 s1 =
      with_nil (runEventAspects clk ev nxt (i + 1) aspects c1) s1" for c1 s1
    using Suc by simp
  show ?case
    using lt
    by (simp only: d list.map foldr.simps o_apply aspect_layer_def IH as_command_aspect_hooks)
      (subst with_nil_def, subst runEventAspects.simps,
       auto simp: with_nil_def Let_def split: prod.splits outcome.splits option.splits)
qed

text \<open>
  Publishing an event inside the event aspects is the same onion: the event chain's layers
  around the delivery, in chain order, with a nil result.
\<close>

theorem event_chain_is_onion:
  "with_nil (ExecuteWithEventAspects clk ch ctx ev nxt) s =
     foldr (aspect_layer clk ev) (map as_command_aspect (eventAspects ch)) (\<lambda>c. with_nil (nxt c)) ctx s"
  by (simp add: ExecuteWithEventAspects_def runEventAspects_drop)

end
