(* ===== verification/MessageBus.thy ===== *)
theory MessageBus
  imports AspectChain
begin

text \<open>
  The command and the query bus: \<open>cqrs/impl/memory/bus_core.go\<close>, \<open>bus_helpers.go\<close>,
  \<open>command_bus.go\<close>, \<open>query_bus.go\<close>, and the typed \<open>Dispatch\<close> of \<open>cqrs/command\<close> and
  \<open>cqrs/query\<close>.  The interface both buses promise is the locale \<open>message_bus\<close>.

  A handler is user code: its dynamic type, the address \<open>reflect\<close>'s \<open>Pointer\<close> gives (or the
  panic it raises), and what calling its \<open>Handle\<close> method by reflection does.
\<close>

record ('s, 'c, 'd, 'v) handler =
  h_dyn :: handler_type
  h_pointer :: "nat outcome"
  h_call :: "'c \<Rightarrow> 'd goany \<Rightarrow> ('s, 'v retval list) prog"

type_synonym ('s, 'c, 'd, 'v) invokerFunc = "'c \<Rightarrow> 'd goany \<Rightarrow> ('s, 'v retval \<times> go_error option) prog"

text \<open>
  The text of a type in an error message; a package is taken to be called like the last
  element of its path.
\<close>

fun type_String :: "gtype \<Rightarrow> string" where
  "type_String (TBasic n) = n"
| "type_String (TNamed p n) = last (split_on CHR ''/'' p) @ ''.'' @ n"
| "type_String (TPtr t) = ''*'' @ type_String t"
| "type_String (TSlice t) = ''[]'' @ type_String t"
| "type_String (TArray n t) = ''['' @ show_nat n @ '']'' @ type_String t"
| "type_String (TMap k t) = ''map['' @ type_String k @ '']'' @ type_String t"
| "type_String (TLit s) = s"

definition type_text :: "gtype option \<Rightarrow> string" where
  "type_text t = (case t of None \<Rightarrow> ''<nil>'' | Some u \<Rightarrow> type_String u)"

definition ErrBusClosed :: go_error where
  "ErrBusClosed = ErrText ''bus is closed''"

text \<open>\<open>newMessageBus\<close>; \<open>inFlight\<close> is part of the concurrent model below.\<close>

record ('s, 'c, 'd, 'v) messageBus =
  mb_handlers :: "(gtype option, ('s, 'c, 'd, 'v) handler) gomap"
  mb_invokers :: "(gtype option, ('s, 'c, 'd, 'v) invokerFunc) gomap"
  mb_chain :: "('s, 'c, 'd goany, 'v) chain"
  mb_closed :: bool

definition newMessageBus :: "('s, 'c, 'd goany, 'v) chain \<Rightarrow> ('s, 'c, 'd, 'v) messageBus" where
  "newMessageBus ch = \<lparr>mb_handlers = [], mb_invokers = [], mb_chain = ch, mb_closed = False\<rparr>"

subsection \<open>Registration\<close>

definition registerHandler ::
    "('s, 'c, 'd, 'v) messageBus \<Rightarrow> ('s, 'c, 'd, 'v) handler \<Rightarrow> ('s, 'c, 'd, 'v) invokerFunc \<Rightarrow>
     ('s, 'c, 'd, 'v) messageBus \<times> go_error option" where
  "registerHandler b h ivk =
     (case extractHandlerPayloadType (h_dyn h) of
        (payloadType, False) \<Rightarrow>
          (b, Some (ErrText (''RegisterHandler: handler must implement a Handle method, got '' @
                 type_String (ht_type (h_dyn h)))))
      | (payloadType, True) \<Rightarrow>
          (case gm_get (mb_handlers b) payloadType of
             Some old \<Rightarrow> (b, Some (ErrText (''handler already registered for type '' @ type_text payloadType)))
           | None \<Rightarrow>
               (b\<lparr>mb_handlers := gm_put (mb_handlers b) payloadType h,
                  mb_invokers := gm_put (mb_invokers b) payloadType ivk\<rparr>, None)))"

text \<open>The results of the reflective call, as \<open>makeInvoker\<close> reads them.\<close>

definition invoker_result :: "'v retval list \<Rightarrow> 'v retval \<times> go_error option" where
  "invoker_result results =
     (let err = (if 2 \<le> length results
                 then (case results ! 1 of RErr e \<Rightarrow> Some e | _ \<Rightarrow> None) else None)
      in if 1 \<le> length results then (results ! 0, err) else (RNil, err))"

definition makeInvoker ::
    "('s, 'c, 'd, 'v) handler \<Rightarrow> go_error + ('s, 'c, 'd, 'v) invokerFunc" where
  "makeInvoker h =
     (case MethodByName (h_dyn h) ''Handle'' of
        None \<Rightarrow> Inl (ErrText (''handler '' @ type_String (ht_type (h_dyn h)) @ '' does not have a Handle method''))
      | Some hm \<Rightarrow> Inr (\<lambda>ctx msg. prog_bind (h_call h ctx msg) (\<lambda>results s. (Ret (invoker_result results), s))))"

definition CommandBus_RegisterHandler ::
    "('s, 'c, 'd, 'v) messageBus \<Rightarrow> ('s, 'c, 'd, 'v) handler \<Rightarrow>
     ('s, 'c, 'd, 'v) messageBus \<times> go_error option" where
  "CommandBus_RegisterHandler b h =
     (case makeInvoker h of
        Inl e \<Rightarrow> (b, Some (ErrWrap ''RegisterHandler: '' e []))
      | Inr ivk \<Rightarrow> registerHandler b h ivk)"

definition QueryBus_RegisterHandler ::
    "('s, 'c, 'd, 'v) messageBus \<Rightarrow> ('s, 'c, 'd, 'v) handler \<Rightarrow>
     ('s, 'c, 'd, 'v) messageBus \<times> go_error option" where
  "QueryBus_RegisterHandler b h =
     (case makeInvoker h of
        Inl e \<Rightarrow> (b, Some (ErrWrap ''RegisterHandler: '' e []))
      | Inr ivk \<Rightarrow> registerHandler b h ivk)"

subsection \<open>Execution\<close>

text \<open>A possibly nil \<open>reflect.Type\<close> under the verb \<open>%s\<close>.\<close>

definition fmt_s_type :: "gtype option \<Rightarrow> string" where
  "fmt_s_type t = (case t of None \<Rightarrow> ''%!s(<nil>)'' | Some u \<Rightarrow> type_String u)"

definition bus_execute ::
    "('s \<Rightarrow> time \<times> 's) \<Rightarrow> ('s, 'c, 'd, 'v) messageBus \<Rightarrow> 'c \<Rightarrow> 'd goany \<Rightarrow> string \<Rightarrow>
     ('s, 'v retval \<times> go_error option) prog" where
  "bus_execute clk b ctx msg aspectKind s =
     (if mb_closed b then (Ret (RNil, Some ErrBusClosed), s)
      else (case gm_get (mb_invokers b) (type_of msg) of
          None \<Rightarrow> (Ret (RNil, Some (ErrText (''no handler registered for type: '' @ fmt_s_type (type_of msg)))), s)
        | Some ivk \<Rightarrow>
            (let exec = (\<lambda>c. ivk c msg) in
             if aspectKind = ''command'' then ExecuteWithCommandAspects clk (mb_chain b) ctx msg exec s
             else if aspectKind = ''query'' then ExecuteWithQueryAspects clk (mb_chain b) ctx msg exec s
             else exec ctx s)))"

definition CommandBus_Execute ::
    "('s \<Rightarrow> time \<times> 's) \<Rightarrow> ('s, 'c, 'd, 'v) messageBus \<Rightarrow> 'c \<Rightarrow> 'd goany \<Rightarrow>
     ('s, 'v retval \<times> go_error option) prog" where
  "CommandBus_Execute clk b ctx cmd = bus_execute clk b ctx cmd ''command''"

definition QueryBus_Execute ::
    "('s \<Rightarrow> time \<times> 's) \<Rightarrow> ('s, 'c, 'd, 'v) messageBus \<Rightarrow> 'c \<Rightarrow> 'd goany \<Rightarrow>
     ('s, 'v retval \<times> go_error option) prog" where
  "QueryBus_Execute clk b ctx q = bus_execute clk b ctx q ''query''"

definition registeredTypes :: "('s, 'c, 'd, 'v) messageBus \<Rightarrow> string list outcome" where
  "registeredTypes b = typeNamesFromMap (mb_handlers b)"

text \<open>The part of \<open>shutdownBus\<close> that later calls see; its wait is modelled further below.\<close>

definition shutdown_close :: "('s, 'c, 'd, 'v) messageBus \<Rightarrow> ('s, 'c, 'd, 'v) messageBus" where
  "shutdown_close b = b\<lparr>mb_closed := True\<rparr>"

text \<open>
  \<open>Dispatch\<close>: the bus as its \<open>Execute\<close> operation, the result type \<open>R\<close> as its type
  assertion and its zero value.
\<close>

definition cmd_typeAssert :: "('v retval \<Rightarrow> 'r option) \<Rightarrow> 'r \<Rightarrow> 'v retval \<Rightarrow> ('v retval \<Rightarrow> string) \<Rightarrow> 'd goany \<Rightarrow> 'r \<times> go_error option" where
  "cmd_typeAssert isR zero result tname cmd =
     (if (case result of RNil \<Rightarrow> True | _ \<Rightarrow> False) then (zero, None)
      else (case isR result of
          None \<Rightarrow> (zero, Some (ErrText (''command Dispatch: result type mismatch for command '' @
                      type_text (type_of cmd) @ '', got '' @ tname result)))
        | Some r \<Rightarrow> (r, None)))"

definition cmd_Dispatch ::
    "('c \<Rightarrow> 'd goany \<Rightarrow> ('s, 'v retval \<times> go_error option) prog) \<Rightarrow> ('v retval \<Rightarrow> 'r option) \<Rightarrow> 'r \<Rightarrow>
     ('v retval \<Rightarrow> string) \<Rightarrow> 'c \<Rightarrow> 'd goany \<Rightarrow> ('s, 'r \<times> go_error option) prog" where
  "cmd_Dispatch busExecute isR zero tname ctx cmd =
     prog_bind (busExecute ctx cmd) (\<lambda>(result, err) s.
       (case err of Some e \<Rightarrow> (Ret (zero, Some e), s)
        | None \<Rightarrow>
            (case cmd_typeAssert isR zero result tname cmd of
               (typed, Some e) \<Rightarrow> (Ret (zero, Some e), s)
             | (typed, None) \<Rightarrow> (Ret (typed, None), s))))"

definition qry_typeAssert :: "('v retval \<Rightarrow> 'r option) \<Rightarrow> 'r \<Rightarrow> 'v retval \<Rightarrow> ('v retval \<Rightarrow> string) \<Rightarrow> 'd goany \<Rightarrow> 'r \<times> go_error option" where
  "qry_typeAssert isR zero result tname q =
     (if (case result of RNil \<Rightarrow> True | _ \<Rightarrow> False) then (zero, None)
      else (case isR result of
          None \<Rightarrow> (zero, Some (ErrText (''query Dispatch: result type mismatch for query '' @
                      type_text (type_of q) @ '', got '' @ tname result)))
        | Some r \<Rightarrow> (r, None)))"

definition qry_Dispatch ::
    "('c \<Rightarrow> 'd goany \<Rightarrow> ('s, 'v retval \<times> go_error option) prog) \<Rightarrow> ('v retval \<Rightarrow> 'r option) \<Rightarrow> 'r \<Rightarrow>
     ('v retval \<Rightarrow> string) \<Rightarrow> 'c \<Rightarrow> 'd goany \<Rightarrow> ('s, 'r \<times> go_error option) prog" where
  "qry_Dispatch busExecute isR zero tname ctx q =
     prog_bind (busExecute ctx q) (\<lambda>(result, err) s.
       (case err of Some e \<Rightarrow> (Ret (zero, Some e), s)
        | None \<Rightarrow>
            (case qry_typeAssert isR zero result tname q of
               (typed, Some e) \<Rightarrow> (Ret (zero, Some e), s)
             | (typed, None) \<Rightarrow> (Ret (typed, None), s))))"

subsection \<open>What a message bus promises\<close>

text \<open>
  A bus holds at most one handler of a payload type: registering succeeds exactly for a handler
  with a payload type that is still free, and changes the routing of that type only.
\<close>

locale message_bus =
  fixes reg :: "'b \<Rightarrow> 'h \<Rightarrow> 'b \<times> go_error option"
    and payload :: "'h \<Rightarrow> gtype option option"
    and route :: "'b \<Rightarrow> gtype option \<Rightarrow> 'h option"
    and good :: "'b \<Rightarrow> bool"
  assumes reg_free: "payload h = Some t \<Longrightarrow> route b t = None \<Longrightarrow>
            snd (reg b h) = None \<and> (\<forall>t'. route (fst (reg b h)) t' = (if t' = t then Some h else route b t'))"
    and reg_refused: "payload h = None \<or> (\<exists>t. payload h = Some t \<and> route b t \<noteq> None) \<Longrightarrow>
            snd (reg b h) \<noteq> None \<and> fst (reg b h) = b"
    and reg_good: "good b \<Longrightarrow> good (fst (reg b h))"
begin

definition reg_all :: "'b \<Rightarrow> 'h list \<Rightarrow> 'b" where
  "reg_all b hs = foldl (\<lambda>b h. fst (reg b h)) b hs"

lemma route_reg:
  "route (fst (reg b h)) t =
     (case route b t of Some old \<Rightarrow> Some old | None \<Rightarrow> if payload h = Some t then Some h else None)"
proof (cases "payload h")
  case None
  then show ?thesis using reg_refused [of h b] by (simp split: option.split)
next
  case (Some u)
  show ?thesis
  proof (cases "route b u")
    case None
    then show ?thesis using reg_free [OF Some None] Some by (auto split: option.split)
  next
    case (Some old)
    then have "fst (reg b h) = b"
      using reg_refused [of h b] \<open>payload h = Some u\<close> by simp
    then show ?thesis using Some \<open>payload h = Some u\<close> by (auto split: option.split)
  qed
qed

lemma route_reg_all:
  "route (reg_all b hs) t =
     (case route b t of Some old \<Rightarrow> Some old | None \<Rightarrow> find (\<lambda>h. payload h = Some t) hs)"
  unfolding reg_all_def
proof (induction hs arbitrary: b)
  case (Cons h hs)
  then show ?case by (simp add: route_reg split: option.split)
qed (simp split: option.split)

lemma good_reg_all: "good b \<Longrightarrow> good (reg_all b hs)"
  unfolding reg_all_def by (induction hs arbitrary: b) (simp_all add: reg_good)

end

subsection \<open>The in-memory buses provide it\<close>

definition handler_payload :: "('s, 'c, 'd, 'v) handler \<Rightarrow> gtype option option" where
  "handler_payload h = (case extractHandlerPayloadType (h_dyn h) of (t, ok) \<Rightarrow> if ok then Some t else None)"

definition handler_invoker :: "('s, 'c, 'd, 'v) handler \<Rightarrow> ('s, 'c, 'd, 'v) invokerFunc" where
  "handler_invoker h ctx msg = prog_bind (h_call h ctx msg) (\<lambda>results s. (Ret (invoker_result results), s))"

definition bus_route :: "('s, 'c, 'd, 'v) messageBus \<Rightarrow> gtype option \<Rightarrow> ('s, 'c, 'd, 'v) handler option" where
  "bus_route b t = gm_get (mb_handlers b) t"

definition bus_ok :: "('s, 'c, 'd, 'v) messageBus \<Rightarrow> bool" where
  "bus_ok b \<longleftrightarrow> gm_ok (mb_handlers b) \<and> gm_ok (mb_invokers b) \<and>
     (\<forall>t. gm_get (mb_invokers b) t = map_option handler_invoker (bus_route b t)) \<and>
     (\<forall>t h. bus_route b t = Some h \<longrightarrow> handler_payload h = Some t)"

lemma makeInvoker_Inr: "makeInvoker h = Inr ivk \<Longrightarrow> ivk = handler_invoker h"
  by (auto simp: makeInvoker_def handler_invoker_def [abs_def] split: option.splits)

lemma registers_cases:
  obtains (no_handle) e where "CommandBus_RegisterHandler b h = (b, Some e)" "handler_payload h = None"
  | (taken) e t where "CommandBus_RegisterHandler b h = (b, Some e)" "handler_payload h = Some t" "bus_route b t \<noteq> None"
  | (added) t where
      "CommandBus_RegisterHandler b h =
         (b\<lparr>mb_handlers := gm_put (mb_handlers b) t h, mb_invokers := gm_put (mb_invokers b) t (handler_invoker h)\<rparr>, None)"
      "handler_payload h = Some t" "bus_route b t = None"
proof -
  obtain t ok where x: "extractHandlerPayloadType (h_dyn h) = (t, ok)"
    by (cases "extractHandlerPayloadType (h_dyn h)")
  show thesis
  proof (cases ok)
    case False
    then have "handler_payload h = None"
      by (simp add: handler_payload_def x)
    moreover have "\<exists>e. CommandBus_RegisterHandler b h = (b, Some e)"
      using x False by (auto simp: CommandBus_RegisterHandler_def registerHandler_def split: sum.splits)
    ultimately show thesis using no_handle by blast
  next
    case True
    then have p: "handler_payload h = Some t"
      by (simp add: handler_payload_def x)
    from True x have "MethodByName (h_dyn h) ''Handle'' \<noteq> None"
      using extract_ok_has_Handle [of "h_dyn h" t] by simp
    then obtain ivk where m: "makeInvoker h = Inr ivk"
      by (auto simp: makeInvoker_def)
    then have run: "CommandBus_RegisterHandler b h = registerHandler b h (handler_invoker h)"
      using makeInvoker_Inr by (auto simp: CommandBus_RegisterHandler_def)
    show thesis
    proof (cases "bus_route b t")
      case None
      then show thesis using added [OF _ p None] True x
        by (simp add: run registerHandler_def bus_route_def)
    next
      case (Some old)
      then have "\<exists>e. CommandBus_RegisterHandler b h = (b, Some e)"
        using True x by (simp add: run registerHandler_def bus_route_def)
      then show thesis using taken [OF _ p] Some by blast
    qed
  qed
qed

interpretation command_bus: message_bus CommandBus_RegisterHandler handler_payload bus_route bus_ok
proof (unfold_locales, goal_cases)
  case (1 h t b)
  then show ?case by (cases b h rule: registers_cases) (auto simp: bus_route_def)
next
  case (2 h b)
  then show ?case by (cases b h rule: registers_cases) auto
next
  case (3 b h)
  then show ?case by (cases b h rule: registers_cases) (auto simp: bus_ok_def bus_route_def)
qed

lemma QueryBus_RegisterHandler_eq: "QueryBus_RegisterHandler = CommandBus_RegisterHandler"
  by (intro ext) (simp add: QueryBus_RegisterHandler_def CommandBus_RegisterHandler_def)

interpretation query_bus: message_bus QueryBus_RegisterHandler handler_payload bus_route bus_ok
  unfolding QueryBus_RegisterHandler_eq by (rule command_bus.message_bus_axioms)

lemma bus_ok_new [simp]: "bus_ok (newMessageBus ch)"
  by (simp add: bus_ok_def newMessageBus_def bus_route_def)

lemma register_frame:
  "mb_chain (fst (CommandBus_RegisterHandler b h)) = mb_chain b"
  "mb_closed (fst (CommandBus_RegisterHandler b h)) = mb_closed b"
  by (cases b h rule: registers_cases; simp)+

lemma register_all_frame:
  "mb_chain (foldl (\<lambda>b h. fst (CommandBus_RegisterHandler b h)) b hs) = mb_chain b"
  "mb_closed (foldl (\<lambda>b h. fst (CommandBus_RegisterHandler b h)) b hs) = mb_closed b"
  by (induction hs arbitrary: b) (simp_all add: register_frame)

lemma new_fields [simp]:
  "mb_chain (newMessageBus ch) = ch" "mb_closed (newMessageBus ch) = False" "bus_route (newMessageBus ch) t = None"
  by (simp_all add: newMessageBus_def bus_route_def)

text \<open>What \<open>Execute\<close> does, from the routing alone.\<close>

definition no_handler :: "'d goany \<Rightarrow> go_error" where
  "no_handler msg = ErrText (''no handler registered for type: '' @ fmt_s_type (type_of msg))"

lemma execute_route:
  assumes "bus_ok b" "\<not> mb_closed b"
  shows "CommandBus_Execute clk b ctx msg s = (case bus_route b (type_of msg) of
           None \<Rightarrow> (Ret (RNil, Some (no_handler msg)), s)
         | Some h \<Rightarrow> foldr (aspect_layer clk msg) (commandAspects (mb_chain b)) (\<lambda>c. handler_invoker h c msg) ctx s)"
    and "QueryBus_Execute clk b ctx msg s = (case bus_route b (type_of msg) of
           None \<Rightarrow> (Ret (RNil, Some (no_handler msg)), s)
         | Some h \<Rightarrow> foldr (aspect_layer clk msg) (queryAspects (mb_chain b)) (\<lambda>c. handler_invoker h c msg) ctx s)"
  using assms by (auto simp: CommandBus_Execute_def QueryBus_Execute_def bus_execute_def bus_ok_def
      no_handler_def chain_is_onion_simps Let_def split: option.splits)

text \<open>
  C8.  A command bus and a query bus built by any sequence of registrations, failed ones included,
  route a message to the first registered handler whose \<open>Handle\<close> takes the message's dynamic
  type, run inside the aspects of its kind; without one they return an error and run nothing.
\<close>

theorem bus_routes_to_first_handler:
  fixes hs :: "('s, 'c, 'd, 'v) handler list" and ch msg
  defines "cb \<equiv> foldl (\<lambda>b h. fst (CommandBus_RegisterHandler b h)) (newMessageBus ch) hs"
    and "qb \<equiv> foldl (\<lambda>b h. fst (QueryBus_RegisterHandler b h)) (newMessageBus ch) hs"
    and "found \<equiv> find (\<lambda>h. extractHandlerPayloadType (h_dyn h) = (type_of msg, True)) hs"
  shows "CommandBus_Execute clk cb ctx msg s = (case found of
           None \<Rightarrow> (Ret (RNil, Some (no_handler msg)), s)
         | Some h \<Rightarrow> foldr (aspect_layer clk msg) (commandAspects ch) (\<lambda>c. handler_invoker h c msg) ctx s) \<and>
         QueryBus_Execute clk qb ctx msg s = (case found of
           None \<Rightarrow> (Ret (RNil, Some (no_handler msg)), s)
         | Some h \<Rightarrow> foldr (aspect_layer clk msg) (queryAspects ch) (\<lambda>c. handler_invoker h c msg) ctx s)"
proof -
  have eq: "cb = command_bus.reg_all (newMessageBus ch) hs" "qb = cb"
    by (simp_all add: cb_def qb_def command_bus.reg_all_def QueryBus_RegisterHandler_eq)
  have ok: "bus_ok cb"
    by (simp add: eq command_bus.good_reg_all)
  have "(handler_payload h = Some t) = (extractHandlerPayloadType (h_dyn h) = (t, True))"
    for h :: "('s, 'c, 'd, 'v) handler" and t
    by (auto simp: handler_payload_def split: prod.splits if_splits)
  then have route: "bus_route cb (type_of msg) = found"
    by (simp add: eq command_bus.route_reg_all found_def)
  have frame: "mb_chain cb = ch" "\<not> mb_closed cb"
    by (simp_all add: cb_def register_all_frame)
  show ?thesis
    unfolding eq(2) by (simp add: execute_route [OF ok frame(2)] route frame(1) split: option.split)
qed

text \<open>
  After the shutdown flag is set a bus runs nothing: every message gets the bus-closed error
  and the world is unchanged, whatever is registered before or after.
\<close>

theorem closed_bus_runs_nothing:
  fixes hs :: "('s, 'c, 'd, 'v) handler list" and b0
  defines "cb \<equiv> foldl (\<lambda>b h. fst (CommandBus_RegisterHandler b h)) (shutdown_close b0) hs"
  shows "CommandBus_Execute clk cb ctx msg s = (Ret (RNil, Some ErrBusClosed), s) \<and>
         QueryBus_Execute clk cb ctx msg s = (Ret (RNil, Some ErrBusClosed), s)"
  by (simp add: cb_def CommandBus_Execute_def QueryBus_Execute_def bus_execute_def register_all_frame shutdown_close_def)

subsection \<open>Typed dispatch\<close>

lemma prog_bind_Ret_iff:
  "prog_bind m f s = (Ret y, s') \<longleftrightarrow> (\<exists>x s1. m s = (Ret x, s1) \<and> f x s1 = (Ret y, s'))"
  by (auto simp: prog_bind_def split: prod.splits outcome.splits)

text \<open>
  C39.  Over any bus, \<open>Dispatch\<close> succeeds with \<open>r\<close> exactly when the bus succeeds with a nil
  result and \<open>r\<close> is the zero value, or with a result of the asked type whose value is \<open>r\<close>; when
  it fails, \<open>r\<close> is the zero value.
\<close>

theorem Dispatch_typed:
  "(cmd_Dispatch bus isR zero tname ctx m s = (Ret (r, None), s') \<longleftrightarrow>
      (\<exists>result. bus ctx m s = (Ret (result, None), s') \<and>
         (if result = RNil then r = zero else isR result = Some r))) \<and>
   (qry_Dispatch bus isR zero tname ctx m s = (Ret (r, None), s') \<longleftrightarrow>
      (\<exists>result. bus ctx m s = (Ret (result, None), s') \<and>
         (if result = RNil then r = zero else isR result = Some r))) \<and>
   \<not> (cmd_Dispatch bus isR zero tname ctx m s = (Ret (r, Some e), s') \<and> r \<noteq> zero)"
proof -
  obtain o1 s1 where run: "bus ctx m s = (o1, s1)"
    by (cases "bus ctx m s")
  note defs = cmd_Dispatch_def qry_Dispatch_def prog_bind_def run cmd_typeAssert_def qry_typeAssert_def
  show ?thesis
  proof (cases o1)
    case (Panic p)
    then show ?thesis by (simp add: defs)
  next
    case (Ret x)
    obtain result err where x: "x = (result, err)"
      by (cases x)
    show ?thesis
      by (cases err; cases result; cases "isR result"; simp add: defs Ret x; blast?)
  qed
qed

subsection \<open>Shutdown and executions in flight\<close>

text \<open>
  The concurrent part of \<open>execute\<close> and \<open>shutdownBus\<close>.  An execution loads \<open>closed\<close>, adds itself to
  \<open>inFlight\<close>, runs and is done.  A shutdown stores \<open>closed\<close> and starts a goroutine that waits for
  \<open>inFlight\<close> to be zero and then closes the channel \<open>done\<close>; the caller selects between that channel
  and its context.  Each step is one atomic operation of the code, and any number of executions and
  shutdowns may be under way.
\<close>

datatype exec_pc = Calling | Passed | Running | Returned | Refused

datatype shutdown_pc = Storing | Selecting | ShutdownNil | ShutdownCtxErr

datatype waiter_pc = NotStarted | InWait | Waited | ChanClosed

record lifecycle =
  lc_closed :: bool
  lc_inFlight :: nat
  lc_execs :: "exec_pc list"
  lc_shutdowns :: "(shutdown_pc \<times> waiter_pc) list"

definition lc_init :: lifecycle where
  "lc_init = \<lparr>lc_closed = False, lc_inFlight = 0, lc_execs = [], lc_shutdowns = []\<rparr>"

inductive lc_step :: "lifecycle \<Rightarrow> lifecycle \<Rightarrow> bool" where
  lc_call: "lc_step s (s\<lparr>lc_execs := lc_execs s @ [Calling]\<rparr>)"
| lc_load: "i < length (lc_execs s) \<Longrightarrow> lc_execs s ! i = Calling \<Longrightarrow>
     lc_step s (s\<lparr>lc_execs := (lc_execs s)[i := if lc_closed s then Refused else Passed]\<rparr>)"
| lc_add: "i < length (lc_execs s) \<Longrightarrow> lc_execs s ! i = Passed \<Longrightarrow>
     lc_step s (s\<lparr>lc_execs := (lc_execs s)[i := Running], lc_inFlight := lc_inFlight s + 1\<rparr>)"
| lc_done: "i < length (lc_execs s) \<Longrightarrow> lc_execs s ! i = Running \<Longrightarrow>
     lc_step s (s\<lparr>lc_execs := (lc_execs s)[i := Returned], lc_inFlight := lc_inFlight s - 1\<rparr>)"
| lc_shutdown: "lc_step s (s\<lparr>lc_shutdowns := lc_shutdowns s @ [(Storing, NotStarted)]\<rparr>)"
| lc_store: "i < length (lc_shutdowns s) \<Longrightarrow> lc_shutdowns s ! i = (Storing, NotStarted) \<Longrightarrow>
     lc_step s (s\<lparr>lc_closed := True, lc_shutdowns := (lc_shutdowns s)[i := (Selecting, InWait)]\<rparr>)"
| lc_wait: "i < length (lc_shutdowns s) \<Longrightarrow> lc_shutdowns s ! i = (p, InWait) \<Longrightarrow> lc_inFlight s = 0 \<Longrightarrow>
     lc_step s (s\<lparr>lc_shutdowns := (lc_shutdowns s)[i := (p, Waited)]\<rparr>)"
| lc_close: "i < length (lc_shutdowns s) \<Longrightarrow> lc_shutdowns s ! i = (p, Waited) \<Longrightarrow>
     lc_step s (s\<lparr>lc_shutdowns := (lc_shutdowns s)[i := (p, ChanClosed)]\<rparr>)"
| lc_nil: "i < length (lc_shutdowns s) \<Longrightarrow> lc_shutdowns s ! i = (Selecting, ChanClosed) \<Longrightarrow>
     lc_step s (s\<lparr>lc_shutdowns := (lc_shutdowns s)[i := (ShutdownNil, ChanClosed)]\<rparr>)"
| lc_ctx: "i < length (lc_shutdowns s) \<Longrightarrow> lc_shutdowns s ! i = (Selecting, w) \<Longrightarrow>
     lc_step s (s\<lparr>lc_shutdowns := (lc_shutdowns s)[i := (ShutdownCtxErr, w)]\<rparr>)"

inductive_cases lc_stepE: "lc_step s s'"

text \<open>\<open>inFlight\<close> counts the running executions, and every shutdown past its store has closed the bus.\<close>

definition shutdown_ok :: "bool \<Rightarrow> shutdown_pc \<times> waiter_pc \<Rightarrow> bool" where
  "shutdown_ok closed x \<longleftrightarrow> (x = (Storing, NotStarted) \<or> closed \<and> fst x \<noteq> Storing) \<and>
     (fst x = ShutdownNil \<longrightarrow> snd x = ChanClosed)"

definition lc_inv :: "lifecycle \<Rightarrow> bool" where
  "lc_inv s \<longleftrightarrow> lc_inFlight s = length (filter (\<lambda>p. p = Running) (lc_execs s)) \<and>
     (\<forall>i<length (lc_shutdowns s). shutdown_ok (lc_closed s) (lc_shutdowns s ! i))"

lemma count_update:
  assumes "i < length xs"
  shows "length (filter P (xs[i := y])) =
           length (filter P xs) - (if P (xs ! i) then 1 else 0) + (if P y then 1 else 0)"
  using assms by (subst (2) id_take_nth_drop [OF assms]) (simp add: upd_conv_take_nth_drop)

lemma shutdown_ok_simps [simp]:
  "shutdown_ok c (Storing, NotStarted)" "shutdown_ok c (ShutdownNil, ChanClosed) \<longleftrightarrow> c"
  "shutdown_ok c (Selecting, w) \<longleftrightarrow> c" "shutdown_ok c (ShutdownCtxErr, w) \<longleftrightarrow> c"
  "w \<noteq> NotStarted \<Longrightarrow> w \<noteq> ChanClosed \<Longrightarrow> shutdown_ok c (p, w) \<longleftrightarrow> c \<and> p \<noteq> Storing \<and> p \<noteq> ShutdownNil"
  by (auto simp: shutdown_ok_def)

lemma shutdown_ok_closed: "shutdown_ok c x \<Longrightarrow> shutdown_ok True x" "shutdown_ok c (p, Waited) \<Longrightarrow> shutdown_ok c (p, ChanClosed)"
  by (auto simp: shutdown_ok_def)

lemma shutdown_update:
  assumes "\<forall>k<length ws. shutdown_ok c (ws ! k)" "shutdown_ok c' x" "c \<Longrightarrow> c'"
  shows "\<forall>k<length (ws[i := x]). shutdown_ok c' (ws[i := x] ! k)"
proof (intro allI impI)
  fix k assume k: "k < length (ws[i := x])"
  have old: "shutdown_ok c' (ws ! k)"
    using assms(1,3) k shutdown_ok_closed(1) [of c "ws ! k"] by (cases c; cases c') simp_all
  show "shutdown_ok c' (ws[i := x] ! k)"
    using old assms(2) k by (cases "i = k") simp_all
qed

lemma lc_inv_step:
  assumes "lc_step s s'" "lc_inv s"
  shows "lc_inv s'"
  using assms(1)
proof cases
  case lc_call
  with assms(2) show ?thesis by (simp add: lc_inv_def)
next
  case lc_load
  with assms(2) show ?thesis by (simp add: lc_inv_def count_update)
next
  case lc_add
  with assms(2) show ?thesis by (simp add: lc_inv_def count_update)
next
  case lc_done
  with assms(2) show ?thesis by (simp add: lc_inv_def count_update)
next
  case lc_shutdown
  with assms(2) show ?thesis by (simp add: lc_inv_def nth_append)
next
  case (lc_store i)
  with assms(2) show ?thesis by (simp add: lc_inv_def shutdown_update [of _ "lc_closed s", unfolded length_list_update])
next
  case (lc_wait i p)
  then have "shutdown_ok (lc_closed s) (p, Waited)"
    using assms(2) by (force simp: lc_inv_def)
  with lc_wait assms(2) show ?thesis
    by (simp add: lc_inv_def shutdown_update [of _ "lc_closed s", unfolded length_list_update])
next
  case (lc_close i p)
  then have "shutdown_ok (lc_closed s) (p, ChanClosed)"
    using assms(2) shutdown_ok_closed(2) by (force simp: lc_inv_def)
  with lc_close assms(2) show ?thesis
    by (simp add: lc_inv_def shutdown_update [of _ "lc_closed s", unfolded length_list_update])
next
  case (lc_nil i)
  then have "lc_closed s"
    using assms(2) by (force simp: lc_inv_def)
  with lc_nil assms(2) show ?thesis
    by (simp add: lc_inv_def shutdown_update [of _ "lc_closed s", unfolded length_list_update])
next
  case (lc_ctx i w)
  then have "lc_closed s"
    using assms(2) by (force simp: lc_inv_def)
  with lc_ctx assms(2) show ?thesis
    by (simp add: lc_inv_def shutdown_update [of _ "lc_closed s", unfolded length_list_update])
qed

lemma lc_inv_reach: "lc_step\<^sup>*\<^sup>* lc_init s \<Longrightarrow> lc_inv s"
proof (induction rule: rtranclp_induct)
  case base
  show ?case by (simp add: lc_inv_def lc_init_def)
next
  case (step s s')
  then show ?case using lc_inv_step by blast
qed

text \<open>Once the bus is closed, only executions that had passed the check by then can still run.\<close>

definition runs_only_passed :: "lifecycle \<Rightarrow> lifecycle \<Rightarrow> bool" where
  "runs_only_passed s1 s2 \<longleftrightarrow> (\<forall>k<length (lc_execs s2). lc_execs s2 ! k = Running \<longrightarrow>
     k < length (lc_execs s1) \<and> lc_execs s1 ! k = Passed)"

lemma closed_runs_only_passed:
  assumes "lc_step\<^sup>*\<^sup>* s1 s2" "lc_closed s1" "Running \<notin> set (lc_execs s1)"
  shows "runs_only_passed s1 s2"
proof -
  have "lc_closed s2 \<and> (\<forall>k<length (lc_execs s2). lc_execs s2 ! k = Running \<or> lc_execs s2 ! k = Passed \<longrightarrow>
      k < length (lc_execs s1) \<and> lc_execs s1 ! k = Passed)"
    using assms(1)
  proof (induction rule: rtranclp_induct)
    case base
    show ?case using assms(2,3) by (metis nth_mem)
  next
    case (step s s')
    from step.hyps(2) show ?case
      by (cases rule: lc_stepE) (use step.IH in \<open>auto simp: nth_append nth_list_update less_Suc_eq split: if_splits\<close>)
  qed
  then show ?thesis by (simp add: runs_only_passed_def)
qed

text \<open>Behind every waiter that is past \<open>Wait\<close> there is the moment at which it saw zero.\<close>

lemma waiter_saw_zero:
  assumes "lc_step\<^sup>*\<^sup>* lc_init s" "i < length (lc_shutdowns s)" "snd (lc_shutdowns s ! i) \<in> {Waited, ChanClosed}"
  shows "\<exists>s1. lc_step\<^sup>*\<^sup>* lc_init s1 \<and> lc_step\<^sup>*\<^sup>* s1 s \<and> lc_closed s1 \<and> Running \<notin> set (lc_execs s1)"
  using assms
proof (induction arbitrary: i rule: rtranclp_induct)
  case base
  then show ?case by (simp add: lc_init_def)
next
  case (step s s')
  show ?case
  proof (cases "i < length (lc_shutdowns s) \<and> snd (lc_shutdowns s ! i) \<in> {Waited, ChanClosed}")
    case True
    with step.IH obtain s1 where "lc_step\<^sup>*\<^sup>* lc_init s1" "lc_step\<^sup>*\<^sup>* s1 s" "lc_closed s1" "Running \<notin> set (lc_execs s1)"
      by blast
    then show ?thesis
      using step.hyps(2) by (meson rtranclp.rtrancl_into_rtrancl)
  next
    case False
    from step.hyps(2) have zero: "lc_inFlight s = 0 \<and> (\<exists>p. i < length (lc_shutdowns s) \<and> lc_shutdowns s ! i = (p, InWait))"
      by (cases rule: lc_stepE) (use False step.prems in \<open>auto simp: nth_append nth_list_update less_Suc_eq split: if_splits dest: nth_mem\<close>)
    have "lc_inv s"
      by (rule lc_inv_reach [OF step.hyps(1)])
    with zero have "lc_closed s" "Running \<notin> set (lc_execs s)"
      by (force simp: lc_inv_def filter_empty_conv)+
    then show ?thesis
      using step.hyps by (meson rtranclp.rtrancl_refl r_into_rtranclp)
  qed
qed

text \<open>
  C19.  When a shutdown has returned nil, there was a moment before that return, with the bus already
  closed, at which no execution was running: every execution that had been counted was over.
  Whatever runs from then on, at the return or at any time after it, had passed the check of
  \<open>closed\<close> before that moment without having counted itself yet (\<open>shutdown_race\<close> below shows that this
  happens); in particular no call made after it runs.  Executions and shutdowns are any number
  and interleave in any order.
\<close>

theorem shutdown_drains:
  assumes "lc_step\<^sup>*\<^sup>* lc_init s" "i < length (lc_shutdowns s)" "fst (lc_shutdowns s ! i) = ShutdownNil"
  shows "\<exists>s1. lc_step\<^sup>*\<^sup>* lc_init s1 \<and> lc_step\<^sup>*\<^sup>* s1 s \<and> lc_closed s1 \<and> Running \<notin> set (lc_execs s1) \<and>
           runs_only_passed s1 s \<and> (\<forall>s2. lc_step\<^sup>*\<^sup>* s s2 \<longrightarrow> runs_only_passed s1 s2)"
proof -
  have "snd (lc_shutdowns s ! i) = ChanClosed"
    using lc_inv_reach [OF assms(1)] assms(2,3) by (simp add: lc_inv_def shutdown_ok_def)
  with waiter_saw_zero [OF assms(1,2)] obtain s1 where
    s1: "lc_step\<^sup>*\<^sup>* lc_init s1" "lc_step\<^sup>*\<^sup>* s1 s" "lc_closed s1" "Running \<notin> set (lc_execs s1)"
    by auto
  moreover have "runs_only_passed s1 s2" if "lc_step\<^sup>*\<^sup>* s s2" for s2
    by (rule closed_runs_only_passed [OF rtranclp_trans [OF s1(2) that] s1(3,4)])
  ultimately show ?thesis by blast
qed

text \<open>
  The check of \<open>closed\<close> and the increment of \<open>inFlight\<close> are two steps: a call that passed the check
  before the shutdown starts running after the wait, and the shutdown returns nil while it runs.
\<close>

theorem shutdown_race:
  "\<exists>s1 s2. lc_step\<^sup>*\<^sup>* lc_init s1 \<and> lc_step s1 s2 \<and> Running \<in> set (lc_execs s1) \<and> Running \<in> set (lc_execs s2) \<and>
     lc_shutdowns s1 = [(Selecting, ChanClosed)] \<and> lc_shutdowns s2 = [(ShutdownNil, ChanClosed)]"
proof (intro exI conjI)
  let ?s = "\<lambda>c n x d. \<lparr>lc_closed = c, lc_inFlight = n, lc_execs = [x], lc_shutdowns = d\<rparr>"
  have "lc_step\<^sup>*\<^sup>* lc_init lc_init"
    by simp
  then have "lc_step\<^sup>*\<^sup>* lc_init (?s False 0 Calling [])"
    by (rule rtranclp.rtrancl_into_rtrancl) (use lc_call [of lc_init] in \<open>simp add: lc_init_def\<close>)
  then have "lc_step\<^sup>*\<^sup>* lc_init (?s False 0 Passed [])"
    by (rule rtranclp.rtrancl_into_rtrancl) (use lc_load [of 0 "?s False 0 Calling []"] in \<open>simp\<close>)
  then have "lc_step\<^sup>*\<^sup>* lc_init (?s False 0 Passed [(Storing, NotStarted)])"
    by (rule rtranclp.rtrancl_into_rtrancl) (use lc_shutdown [of "?s False 0 Passed []"] in \<open>simp\<close>)
  then have "lc_step\<^sup>*\<^sup>* lc_init (?s True 0 Passed [(Selecting, InWait)])"
    by (rule rtranclp.rtrancl_into_rtrancl) (use lc_store [of 0 "?s False 0 Passed [(Storing, NotStarted)]"] in \<open>simp\<close>)
  then have "lc_step\<^sup>*\<^sup>* lc_init (?s True 0 Passed [(Selecting, Waited)])"
    by (rule rtranclp.rtrancl_into_rtrancl) (use lc_wait [of 0 "?s True 0 Passed [(Selecting, InWait)]"] in \<open>simp\<close>)
  then have "lc_step\<^sup>*\<^sup>* lc_init (?s True 0 Passed [(Selecting, ChanClosed)])"
    by (rule rtranclp.rtrancl_into_rtrancl) (use lc_close [of 0 "?s True 0 Passed [(Selecting, Waited)]"] in \<open>simp\<close>)
  then show "lc_step\<^sup>*\<^sup>* lc_init (?s True 1 Running [(Selecting, ChanClosed)])"
    by (rule rtranclp.rtrancl_into_rtrancl) (use lc_add [of 0 "?s True 0 Passed [(Selecting, ChanClosed)]"] in \<open>simp\<close>)
  show "lc_step (?s True 1 Running [(Selecting, ChanClosed)]) (?s True 1 Running [(ShutdownNil, ChanClosed)])"
    using lc_nil [of 0 "?s True 1 Running [(Selecting, ChanClosed)]"] by simp
qed simp_all

theorem shutdown_drains_witness:
  "\<exists>s s1. lc_step\<^sup>*\<^sup>* lc_init s1 \<and> lc_step\<^sup>*\<^sup>* s1 s \<and> lc_closed s1 \<and> Running \<notin> set (lc_execs s1) \<and>
     lc_execs s = [Returned, Refused] \<and> lc_shutdowns s = [(ShutdownNil, ChanClosed)] \<and> runs_only_passed s1 s"
proof -
  let ?s = "\<lambda>c n xs d. \<lparr>lc_closed = c, lc_inFlight = n, lc_execs = xs, lc_shutdowns = d\<rparr>"
  have "lc_step\<^sup>*\<^sup>* lc_init lc_init"
    by simp
  then have "lc_step\<^sup>*\<^sup>* lc_init (?s False 0 [Calling] [])"
    by (rule rtranclp.rtrancl_into_rtrancl) (use lc_call [of lc_init] in \<open>simp add: lc_init_def\<close>)
  then have "lc_step\<^sup>*\<^sup>* lc_init (?s False 0 [Passed] [])"
    by (rule rtranclp.rtrancl_into_rtrancl) (use lc_load [of 0 "?s False 0 [Calling] []"] in \<open>simp\<close>)
  then have "lc_step\<^sup>*\<^sup>* lc_init (?s False 1 [Running] [])"
    by (rule rtranclp.rtrancl_into_rtrancl) (use lc_add [of 0 "?s False 0 [Passed] []"] in \<open>simp\<close>)
  then have "lc_step\<^sup>*\<^sup>* lc_init (?s False 1 [Running] [(Storing, NotStarted)])"
    by (rule rtranclp.rtrancl_into_rtrancl) (use lc_shutdown [of "?s False 1 [Running] []"] in \<open>simp\<close>)
  then have "lc_step\<^sup>*\<^sup>* lc_init (?s True 1 [Running] [(Selecting, InWait)])"
    by (rule rtranclp.rtrancl_into_rtrancl) (use lc_store [of 0 "?s False 1 [Running] [(Storing, NotStarted)]"] in \<open>simp\<close>)
  then have "lc_step\<^sup>*\<^sup>* lc_init (?s True 0 [Returned] [(Selecting, InWait)])"
    by (rule rtranclp.rtrancl_into_rtrancl) (use lc_done [of 0 "?s True 1 [Running] [(Selecting, InWait)]"] in \<open>simp\<close>)
  then have "lc_step\<^sup>*\<^sup>* lc_init (?s True 0 [Returned] [(Selecting, Waited)])"
    by (rule rtranclp.rtrancl_into_rtrancl) (use lc_wait [of 0 "?s True 0 [Returned] [(Selecting, InWait)]"] in \<open>simp\<close>)
  then have "lc_step\<^sup>*\<^sup>* lc_init (?s True 0 [Returned] [(Selecting, ChanClosed)])"
    by (rule rtranclp.rtrancl_into_rtrancl) (use lc_close [of 0 "?s True 0 [Returned] [(Selecting, Waited)]"] in \<open>simp\<close>)
  then have "lc_step\<^sup>*\<^sup>* lc_init (?s True 0 [Returned] [(ShutdownNil, ChanClosed)])"
    by (rule rtranclp.rtrancl_into_rtrancl) (use lc_nil [of 0 "?s True 0 [Returned] [(Selecting, ChanClosed)]"] in \<open>simp\<close>)
  then have "lc_step\<^sup>*\<^sup>* lc_init (?s True 0 [Returned, Calling] [(ShutdownNil, ChanClosed)])"
    by (rule rtranclp.rtrancl_into_rtrancl) (use lc_call [of "?s True 0 [Returned] [(ShutdownNil, ChanClosed)]"] in \<open>simp\<close>)
  then have "lc_step\<^sup>*\<^sup>* lc_init (?s True 0 [Returned, Refused] [(ShutdownNil, ChanClosed)])"
    by (rule rtranclp.rtrancl_into_rtrancl) (use lc_load [of 1 "?s True 0 [Returned, Calling] [(ShutdownNil, ChanClosed)]"] in \<open>simp\<close>)
  note run = this
  let ?f = "?s True 0 [Returned, Refused] [(ShutdownNil, ChanClosed)]"
  have nil: "0 < length (lc_shutdowns ?f)" "fst (lc_shutdowns ?f ! 0) = ShutdownNil" "lc_execs ?f = [Returned, Refused]"
    "lc_shutdowns ?f = [(ShutdownNil, ChanClosed)]"
    by simp_all
  from shutdown_drains [OF run nil(1,2)] show ?thesis
    by (elim exE conjE) (rule exI [of _ ?f], rule exI, intro conjI, assumption+, (rule nil)+, assumption)
qed

end
