(* ===== verification/GoContext.thy ===== *)
theory GoContext
  imports GoErrors
begin

text \<open>
  Contexts (package \<open>context\<close> of the standard library, as the program uses it) and the values the
  program keeps in them: the trace identity (\<open>trace/trace.go\<close>), the current span
  (\<open>trace/span.go\<close>, \<open>aspect/builtin/tracing.go\<close>), the handler type
  (\<open>aspect/builtin/persistence.go\<close>) and the transaction of each transaction manager.

  A span is reached through the context of one operation only and changed once, in its After
  hook, so the pointer is modelled by the value.  A transaction state is shared: \<open>VTx\<close> holds its
  address in the world.
\<close>

datatype span_type = SpanTypeCommand | SpanTypeQuery | SpanTypeEvent

datatype span_status = StatusUnset | SpanStatusSuccess | SpanStatusError | SpanStatusBusinessError

record span =
  sp_ID :: string
  sp_TraceID :: string
  sp_ParentID :: string
  sp_Type :: span_type
  sp_Name :: string
  sp_Status :: span_status
  sp_Error :: string
  sp_StartedAt :: time
  sp_Duration :: duration

datatype ctx_key = TraceContextKey | SpanContextKey | SpanKey | HandlerTypeKey | MemTxKey | PgTxKey

datatype ctx_val = VTrace string string | VStr string | VSpan span | VTx nat

record go_ctx =
  cx_values :: "(ctx_key \<times> ctx_val) list"
  cx_deadline :: "time option"
  cx_cancelled :: bool

definition ctx_Background :: go_ctx where
  "ctx_Background = \<lparr>cx_values = [], cx_deadline = None, cx_cancelled = False\<rparr>"

definition ctx_WithValue :: "go_ctx \<Rightarrow> ctx_key \<Rightarrow> ctx_val \<Rightarrow> go_ctx" where
  "ctx_WithValue ctx k v = ctx\<lparr>cx_values := (k, v) # cx_values ctx\<rparr>"

definition ctx_Value :: "go_ctx \<Rightarrow> ctx_key \<Rightarrow> ctx_val option" where
  "ctx_Value ctx k = map_of (cx_values ctx) k"

definition ctx_WithTimeout :: "go_ctx \<Rightarrow> time \<Rightarrow> duration \<Rightarrow> go_ctx" where
  "ctx_WithTimeout ctx now d = ctx\<lparr>cx_deadline :=
     (case cx_deadline ctx of None \<Rightarrow> Some (now + d) | Some t \<Rightarrow> Some (min t (now + d)))\<rparr>"

text \<open>\<open>ctx.Err()\<close> at time \<open>now\<close>.\<close>

definition ctx_Err :: "go_ctx \<Rightarrow> time \<Rightarrow> go_error option" where
  "ctx_Err ctx now =
     (if cx_cancelled ctx then Some (ErrText ''context canceled'')
      else (case cx_deadline ctx of None \<Rightarrow> None
            | Some t \<Rightarrow> if t \<le> now then Some (ErrText ''context deadline exceeded'') else None))"

lemma ctx_Value_WithValue [simp]:
  "ctx_Value (ctx_WithValue ctx k v) k' = (if k' = k then Some v else ctx_Value ctx k')"
  by (simp add: ctx_Value_def ctx_WithValue_def)

lemma ctx_Value_WithTimeout [simp]: "ctx_Value (ctx_WithTimeout ctx now d) k = ctx_Value ctx k"
  by (simp add: ctx_Value_def ctx_WithTimeout_def)

lemma ctx_WithTimeout_deadline:
  "\<exists>t. cx_deadline (ctx_WithTimeout ctx now d) = Some t \<and> t \<le> now + d \<and>
       (\<forall>t0. cx_deadline ctx = Some t0 \<longrightarrow> t \<le> t0)"
  by (auto simp: ctx_WithTimeout_def split: option.split)

subsection \<open>\<open>trace/trace.go\<close>\<close>

text \<open>
  \<open>NewTraceID\<close> and \<open>NewSpanID\<close>: the hexadecimal text of the 16 bytes of a fresh UUID, which is an
  argument of the model (package \<open>uuid\<close>).
\<close>

definition hex_digit :: "nat \<Rightarrow> char" where
  "hex_digit n = (if n < 10 then char_of (48 + n) else char_of (87 + n))"

definition hex_EncodeToString :: "nat list \<Rightarrow> string" where
  "hex_EncodeToString bs = concat (map (\<lambda>b. [hex_digit (b div 16), hex_digit (b mod 16)]) bs)"

definition NewTraceID :: "nat list \<Rightarrow> string" where
  "NewTraceID uuid = hex_EncodeToString uuid"

definition NewSpanID :: "nat list \<Rightarrow> string" where
  "NewSpanID uuid = hex_EncodeToString uuid"

definition WithTrace :: "go_ctx \<Rightarrow> string \<Rightarrow> string \<Rightarrow> go_ctx" where
  "WithTrace ctx traceID spanID = ctx_WithValue ctx TraceContextKey (VTrace traceID spanID)"

definition GetTraceID :: "go_ctx \<Rightarrow> string" where
  "GetTraceID ctx = (case ctx_Value ctx TraceContextKey of Some (VTrace t s) \<Rightarrow> t | _ \<Rightarrow> [])"

definition GetSpanID :: "go_ctx \<Rightarrow> string" where
  "GetSpanID ctx = (case ctx_Value ctx TraceContextKey of Some (VTrace t s) \<Rightarrow> s | _ \<Rightarrow> [])"

definition WithParentSpan :: "go_ctx \<Rightarrow> string \<Rightarrow> go_ctx" where
  "WithParentSpan ctx parentSpanID = ctx_WithValue ctx SpanContextKey (VStr parentSpanID)"

definition GetParentSpanID :: "go_ctx \<Rightarrow> string" where
  "GetParentSpanID ctx = (case ctx_Value ctx SpanContextKey of Some (VStr s) \<Rightarrow> s | _ \<Rightarrow> [])"

definition ContextWithHandlerType :: "go_ctx \<Rightarrow> string \<Rightarrow> go_ctx" where
  "ContextWithHandlerType ctx handlerType = ctx_WithValue ctx HandlerTypeKey (VStr handlerType)"

definition extractHandlerType :: "go_ctx \<Rightarrow> string" where
  "extractHandlerType ctx = (case ctx_Value ctx HandlerTypeKey of Some (VStr s) \<Rightarrow> s | _ \<Rightarrow> [])"

lemma trace_ids [simp]:
  "GetTraceID (WithTrace ctx t s) = t" "GetSpanID (WithTrace ctx t s) = s"
  "GetTraceID (WithParentSpan ctx p) = GetTraceID ctx" "GetSpanID (WithParentSpan ctx p) = GetSpanID ctx"
  "GetParentSpanID (WithParentSpan ctx p) = p" "GetParentSpanID (WithTrace ctx t s) = GetParentSpanID ctx"
  "GetTraceID (ctx_WithValue ctx SpanKey v) = GetTraceID ctx" "GetSpanID (ctx_WithValue ctx SpanKey v) = GetSpanID ctx"
  "GetParentSpanID (ctx_WithValue ctx SpanKey v) = GetParentSpanID ctx"
  "GetTraceID (ContextWithHandlerType ctx h) = GetTraceID ctx"
  "extractHandlerType (ContextWithHandlerType ctx h) = h" "extractHandlerType (WithTrace ctx t s) = extractHandlerType ctx"
  by (simp_all add: GetTraceID_def GetSpanID_def GetParentSpanID_def extractHandlerType_def
      WithTrace_def WithParentSpan_def ContextWithHandlerType_def)

lemma hex_digit_inj: "m < 16 \<Longrightarrow> n < 16 \<Longrightarrow> hex_digit m = hex_digit n \<Longrightarrow> m = n"
  by (auto simp: hex_digit_def split: if_splits dest!: arg_cong [where f = of_char])

lemma hex_inj:
  assumes "\<forall>b\<in>set bs. b < 256" "\<forall>b\<in>set cs. b < 256" "hex_EncodeToString bs = hex_EncodeToString cs"
  shows "bs = cs"
  using assms
proof (induction bs arbitrary: cs)
  case Nil
  then show ?case by (cases cs) (auto simp: hex_EncodeToString_def)
next
  case (Cons b bs)
  then obtain c cs' where cs: "cs = c # cs'"
    by (cases cs) (auto simp: hex_EncodeToString_def)
  with Cons.prems have eq: "hex_digit (b div 16) = hex_digit (c div 16)" "hex_digit (b mod 16) = hex_digit (c mod 16)"
    "hex_EncodeToString bs = hex_EncodeToString cs'" "b < 256" "c < 256"
    by (auto simp: hex_EncodeToString_def)
  then have "b div 16 = c div 16" "b mod 16 = c mod 16"
    by (auto intro!: hex_digit_inj)
  then have "b = c" by (metis div_mult_mod_eq)
  with Cons.IH [of cs'] Cons.prems eq cs show ?case by simp
qed

text \<open>
  The trace and span identifiers of two different UUIDs differ.
\<close>

theorem trace_ids_injective:
  assumes "\<forall>b\<in>set id1. b < 256" "\<forall>b\<in>set id2. b < 256"
  shows "(NewTraceID id1 = NewTraceID id2 \<longleftrightarrow> id1 = id2) \<and> (NewSpanID id1 = NewSpanID id2 \<longleftrightarrow> id1 = id2)"
  using hex_inj [OF assms] by (auto simp: NewTraceID_def NewSpanID_def)

theorem trace_ids_injective_witness:
  "(NewTraceID [1, 255] = NewTraceID [2, 254] \<longleftrightarrow> False) \<and> (NewSpanID [1, 255] = NewSpanID [2, 254] \<longleftrightarrow> False)"
  using trace_ids_injective [of "[1, 255]" "[2, 254]"] by simp

end
