(* ===== verification/EventBusModel.thy ===== *)
theory EventBusModel
  imports MessageBus GoContext
begin

text \<open>
  The in-memory event bus, \<open>cqrs/impl/memory/event_bus.go\<close>.

  The goroutines of one \<open>Publish\<close> are run to completion one after the other, in the order
  \<open>sched\<close> gives them; the errors reach the channel in that order.  A \<open>Publish\<close> that never
  returns (a concurrency limit of zero: no handler ever gets a slot) is \<open>None\<close>.
\<close>

record ('s, 'd, 'v) handlerEntry =
  he_handler :: "('s, go_ctx, 'd, 'v) handler"
  he_invoke :: "go_ctx \<Rightarrow> 'd goany \<Rightarrow> ('s, go_error option) prog"
  he_name :: string

record ('s, 'd, 'v) event_bus =
  eb_handlers :: "(gtype option, ('s, 'd, 'v) handlerEntry list) gomap"
  eb_chain :: "('s, go_ctx, 'd goany, 'v) chain"
  eb_handlerTimeout :: duration
  eb_sem :: "nat option"
  eb_closed :: bool

definition defaultHandlerTimeout :: duration where
  "defaultHandlerTimeout = 30 * 1000000000"

datatype ('s, 'd, 'v) event_bus_option =
    WithEventBusAspectChain "('s, go_ctx, 'd goany, 'v) chain"
  | WithHandlerTimeout duration
  | WithConcurrencyLimit nat

fun eb_apply_option :: "('s, 'd, 'v) event_bus \<Rightarrow> ('s, 'd, 'v) event_bus_option \<Rightarrow> ('s, 'd, 'v) event_bus" where
  "eb_apply_option b (WithEventBusAspectChain ch) = b\<lparr>eb_chain := ch\<rparr>"
| "eb_apply_option b (WithHandlerTimeout t) = b\<lparr>eb_handlerTimeout := t\<rparr>"
| "eb_apply_option b (WithConcurrencyLimit n) = b\<lparr>eb_sem := Some n\<rparr>"

definition NewEventBus :: "('s, 'd, 'v) event_bus_option list \<Rightarrow> ('s, 'd, 'v) event_bus" where
  "NewEventBus opts = foldl eb_apply_option
     \<lparr>eb_handlers = [], eb_chain = NewAspectChain, eb_handlerTimeout = defaultHandlerTimeout,
      eb_sem = None, eb_closed = False\<rparr> opts"

subsection \<open>Subscription\<close>

definition makeHandlerInvoker ::
    "('s, go_ctx, 'd, 'v) handler \<Rightarrow> go_error + (go_ctx \<Rightarrow> 'd goany \<Rightarrow> ('s, go_error option) prog)" where
  "makeHandlerInvoker h =
     (case MethodByName (h_dyn h) ''Handle'' of
        None \<Rightarrow> Inl (ErrText (''handler '' @ type_String (ht_type (h_dyn h)) @ '' does not have a Handle method''))
      | Some hm \<Rightarrow> Inr (\<lambda>ctx evt. prog_bind (h_call h ctx evt) (\<lambda>results s.
           (Ret (case results of RErr e # _ \<Rightarrow> Some e | _ \<Rightarrow> None), s))))"

text \<open>The loop that compares the handler's address with those already subscribed.\<close>

fun already_subscribed ::
    "('s, 'd, 'v) handlerEntry list \<Rightarrow> ('s, go_ctx, 'd, 'v) handler \<Rightarrow> bool outcome" where
  "already_subscribed [] h = Ret False"
| "already_subscribed (e # es) h =
     out_bind (h_pointer (he_handler e)) (\<lambda>p. out_bind (h_pointer h) (\<lambda>q.
       if p = q then Ret True else already_subscribed es h))"

definition SubscribeHandler ::
    "('s, 'd, 'v) event_bus \<Rightarrow> ('s, go_ctx, 'd, 'v) handler \<Rightarrow> (('s, 'd, 'v) event_bus \<times> go_error option) outcome" where
  "SubscribeHandler b h =
     (case extractHandlerPayloadType (h_dyn h) of
        (evtType, False) \<Rightarrow>
          Ret (b, Some (ErrText (''SubscribeHandler: handler must implement event.EventHandler[T], got '' @
                     type_String (ht_type (h_dyn h)))))
      | (evtType, True) \<Rightarrow>
          (case makeHandlerInvoker h of
             Inl e \<Rightarrow> Ret (b, Some (ErrWrap ''SubscribeHandler: '' e []))
           | Inr invoke \<Rightarrow>
               (let entry = \<lparr>he_handler = h, he_invoke = invoke, he_name = handlerTypeName (h_dyn h)\<rparr>;
                    existing = gm_or (eb_handlers b) evtType []
                in out_bind (already_subscribed existing h) (\<lambda>dup.
                     if dup then Ret (b, Some (ErrText (''handler already subscribed for event type: '' @ type_text evtType)))
                     else Ret (b\<lparr>eb_handlers := gm_put (eb_handlers b) evtType (existing @ [entry])\<rparr>, None)))))"

definition HandlerCount :: "('s, 'd, 'v) event_bus \<Rightarrow> gtype option \<Rightarrow> nat" where
  "HandlerCount b evtType = length (gm_or (eb_handlers b) evtType [])"

definition SubscribedTypes :: "('s, 'd, 'v) event_bus \<Rightarrow> string list outcome" where
  "SubscribedTypes b = typeNamesFromMap (eb_handlers b)"

definition EventBus_close :: "('s, 'd, 'v) event_bus \<Rightarrow> ('s, 'd, 'v) event_bus" where
  "EventBus_close b = b\<lparr>eb_closed := True\<rparr>"

subsection \<open>Publishing\<close>

text \<open>The timeout of a handler: the bus's, cut to what is left until the caller's deadline.\<close>

definition publish_timeout :: "('s, 'd, 'v) event_bus \<Rightarrow> go_ctx \<Rightarrow> time \<Rightarrow> duration" where
  "publish_timeout b ctx now =
     (case cx_deadline ctx of
        None \<Rightarrow> eb_handlerTimeout b
      | Some deadline \<Rightarrow>
          (let d = deadline - now in if d < eb_handlerTimeout b then d else eb_handlerTimeout b))"

text \<open>One handler goroutine: what it sends on the error channel.\<close>

definition run_handler ::
    "('s \<Rightarrow> time \<times> 's) \<Rightarrow> ('s, 'd, 'v) event_bus \<Rightarrow> go_ctx \<Rightarrow> duration \<Rightarrow> 'd goany \<Rightarrow>
     ('s, 'd, 'v) handlerEntry \<Rightarrow> 's \<Rightarrow> go_error option \<times> 's" where
  "run_handler clk b ctx timeout evt e s =
     (let (now, s1) = clk s;
          hCtx = ContextWithHandlerType (ctx_WithTimeout ctx now timeout) (he_name e)
      in case ExecuteWithEventAspects clk (eb_chain b) hCtx evt (\<lambda>c. he_invoke e c evt) s1 of
           (Panic r, s2) \<Rightarrow> (Some (ErrText (''handler '' @ he_name e @ '' panicked: '' @ r)), s2)
         | (Ret err, s2) \<Rightarrow> (err, s2))"

fun run_handlers ::
    "('s \<Rightarrow> time \<times> 's) \<Rightarrow> ('s, 'd, 'v) event_bus \<Rightarrow> go_ctx \<Rightarrow> duration \<Rightarrow> 'd goany \<Rightarrow>
     ('s, 'd, 'v) handlerEntry list \<Rightarrow> 's \<Rightarrow> go_error option list \<times> 's" where
  "run_handlers clk b ctx timeout evt [] s = ([], s)"
| "run_handlers clk b ctx timeout evt (e # es) s =
     (let (err, s1) = run_handler clk b ctx timeout evt e s;
          (errs, s2) = run_handlers clk b ctx timeout evt es s1
      in (err # errs, s2))"

definition collect_errors :: "go_error option list \<Rightarrow> go_error option" where
  "collect_errors sent =
     (case filter (\<lambda>e. e \<noteq> None) sent of
        [] \<Rightarrow> None
      | [e] \<Rightarrow> e
      | errs \<Rightarrow> Some (NewMultiError errs))"

definition Publish ::
    "('s \<Rightarrow> time \<times> 's) \<Rightarrow> (('s, 'd, 'v) handlerEntry list \<Rightarrow> ('s, 'd, 'v) handlerEntry list) \<Rightarrow>
     ('s, 'd, 'v) event_bus \<Rightarrow> go_ctx \<Rightarrow> 'd goany \<Rightarrow> 's \<Rightarrow> (go_error option outcome \<times> 's) option" where
  "Publish clk sched b ctx evt s =
     (if eb_closed b then Some (Ret (Some ErrBusClosed), s)
      else (case type_of evt of
          None \<Rightarrow> Some (Ret (Some (ErrText ''Publish: event must be a non-nil pointer implementing Event'')), s)
        | Some evtType \<Rightarrow>
            (let entries = gm_or (eb_handlers b) (Some evtType) [];
                 (now, s1) = (case cx_deadline ctx of None \<Rightarrow> (0, s) | Some d \<Rightarrow> clk s);
                 timeout = publish_timeout b ctx now
             in if entries = []
                then Some (ExecuteWithEventAspects clk (eb_chain b) ctx evt (\<lambda>c s. (Ret None, s)) s1)
                else if eb_sem b = Some 0 then None
                else (let (sent, s2) = run_handlers clk b ctx timeout evt (sched entries) s1
                      in Some (Ret (collect_errors sent), s2)))))"

subsection \<open>Subscriptions are unique\<close>

definition entry_of :: "('s, go_ctx, 'd, 'v) handler \<Rightarrow> ('s, 'd, 'v) handlerEntry" where
  "entry_of h = \<lparr>he_handler = h,
     he_invoke = (\<lambda>ctx evt. prog_bind (h_call h ctx evt) (\<lambda>results s.
        (Ret (case results of RErr e # _ \<Rightarrow> Some e | _ \<Rightarrow> None), s))),
     he_name = handlerTypeName (h_dyn h)\<rparr>"

definition eb_ok :: "('s, 'd, 'v) event_bus \<Rightarrow> bool" where
  "eb_ok b \<longleftrightarrow> gm_ok (eb_handlers b) \<and>
     (\<forall>t es. gm_get (eb_handlers b) t = Some es \<longrightarrow>
        es \<noteq> [] \<and> distinct (map (\<lambda>e. h_pointer (he_handler e)) es) \<and>
        (\<forall>e\<in>set es. e = entry_of (he_handler e) \<and> extractHandlerPayloadType (h_dyn (he_handler e)) = (t, True)))"

lemma makeHandlerInvoker_Inr: "makeHandlerInvoker h = Inr ivk \<Longrightarrow>
    \<lparr>he_handler = h, he_invoke = ivk, he_name = handlerTypeName (h_dyn h)\<rparr> = entry_of h"
  by (auto simp: makeHandlerInvoker_def entry_of_def split: option.splits)

lemma already_subscribed_False:
  "already_subscribed es h = Ret False \<Longrightarrow> h_pointer h \<notin> (\<lambda>e. h_pointer (he_handler e)) ` set es"
proof (induction es)
  case (Cons e es)
  then obtain p where p: "h_pointer (he_handler e) = Ret p"
    by (cases "h_pointer (he_handler e)") auto
  with Cons.prems obtain q where q: "h_pointer h = Ret q"
    by (cases "h_pointer h") auto
  with p Cons show ?case by (auto split: if_splits)
qed simp

lemma SubscribeHandler_cases:
  assumes "SubscribeHandler b h = Ret (b', err)"
  obtains (refused) e where "b' = b" "err = Some e"
  | (added) t where "err = None" "extractHandlerPayloadType (h_dyn h) = (t, True)"
      "h_pointer h \<notin> (\<lambda>e. h_pointer (he_handler e)) ` set (gm_or (eb_handlers b) t [])"
      "b' = b\<lparr>eb_handlers := gm_put (eb_handlers b) t (gm_or (eb_handlers b) t [] @ [entry_of h])\<rparr>"
proof -
  obtain t ok where x: "extractHandlerPayloadType (h_dyn h) = (t, ok)"
    by (cases "extractHandlerPayloadType (h_dyn h)")
  show thesis
  proof (cases "\<exists>e. b' = b \<and> err = Some e")
    case True
    then show thesis using refused by blast
  next
    case False
    with assms x have ok: "ok"
      by (cases ok) (auto simp: SubscribeHandler_def)
    with assms x False obtain ivk where ivk: "makeHandlerInvoker h = Inr ivk"
      by (cases "makeHandlerInvoker h") (auto simp: SubscribeHandler_def)
    let ?ex = "gm_or (eb_handlers b) t []"
    obtain dup where dup: "already_subscribed ?ex h = Ret dup"
      using assms x ok ivk by (cases "already_subscribed ?ex h") (auto simp: SubscribeHandler_def)
    with assms x ok ivk False have "\<not> dup"
      by (auto simp: SubscribeHandler_def Let_def)
    with assms x ok ivk dup have b': "err = None"
      "b' = b\<lparr>eb_handlers := gm_put (eb_handlers b) t (?ex @ [entry_of h])\<rparr>"
      by (auto simp: SubscribeHandler_def Let_def makeHandlerInvoker_Inr [OF ivk])
    show thesis
      using added [OF b'(1) _ _ b'(2)] x ok already_subscribed_False [of ?ex h] dup \<open>\<not> dup\<close> by simp
  qed
qed

lemma eb_ok_Subscribe:
  assumes "eb_ok b" "SubscribeHandler b h = Ret (b', err)"
  shows "eb_ok b'"
  using assms(2)
proof (cases rule: SubscribeHandler_cases)
  case (refused e)
  then show ?thesis using assms(1) by simp
next
  case (added t)
  have entry: "he_handler (entry_of h) = h"
    by (simp add: entry_of_def)
  show ?thesis
  proof (cases "gm_get (eb_handlers b) t")
    case None
    then show ?thesis using assms(1) added entry by (simp add: eb_ok_def)
  next
    case (Some es)
    then show ?thesis using assms(1) added entry by (auto simp: eb_ok_def)
  qed
qed

fun subscribe_all :: "('s, 'd, 'v) event_bus \<Rightarrow> ('s, go_ctx, 'd, 'v) handler list \<Rightarrow> ('s, 'd, 'v) event_bus outcome" where
  "subscribe_all b [] = Ret b"
| "subscribe_all b (h # hs) = out_bind (SubscribeHandler b h) (\<lambda>(b', err). subscribe_all b' hs)"

lemma eb_ok_subscribe_all: "eb_ok b \<Longrightarrow> subscribe_all b hs = Ret b' \<Longrightarrow> eb_ok b'"
proof (induction hs arbitrary: b)
  case (Cons h hs)
  then obtain b1 err where "SubscribeHandler b h = Ret (b1, err)" "subscribe_all b1 hs = Ret b'"
    by (auto simp: out_bind_eq_Ret)
  then show ?case using Cons eb_ok_Subscribe by blast
qed simp

lemma eb_ok_options: "eb_ok (foldl eb_apply_option b opts) \<longleftrightarrow> eb_ok b"
proof (induction opts arbitrary: b)
  case (Cons o1 opts)
  then show ?case by (cases o1) (simp_all add: eb_ok_def)
qed simp

lemma eb_ok_New: "eb_ok (NewEventBus opts)"
  by (simp add: NewEventBus_def eb_ok_options) (simp add: eb_ok_def)

text \<open>
  On a bus built by any sequence of subscriptions that does not panic, the handlers kept for an
  event type are exactly those whose \<open>Handle\<close> takes that type, no two at the same address.
\<close>

theorem subscriptions_unique:
  assumes "subscribe_all (NewEventBus opts) hs = Ret b" "gm_get (eb_handlers b) t = Some es"
  shows "distinct (map (\<lambda>e. h_pointer (he_handler e)) es) \<and>
         (\<forall>e\<in>set es. extractHandlerPayloadType (h_dyn (he_handler e)) = (t, True))"
  using eb_ok_subscribe_all [OF eb_ok_New assms(1)] assms(2) by (auto simp: eb_ok_def)

subsection \<open>Every handler runs, and no error is lost\<close>

text \<open>
  A run of several handlers is a chain of states, each handler starting where the one before it
  ended.
\<close>

lemma run_handlers_chain:
  assumes "run_handlers clk b ctx timeout evt es s = (sent, s')"
  shows "\<exists>ss. length ss = Suc (length es) \<and> length sent = length es \<and> ss ! 0 = s \<and> last ss = s' \<and>
         (\<forall>i<length es. run_handler clk b ctx timeout evt (es ! i) (ss ! i) = (sent ! i, ss ! Suc i))"
  using assms
proof (induction es arbitrary: s sent)
  case Nil
  then show ?case by (intro exI [of _ "[s]"]) simp
next
  case (Cons e es)
  obtain err s1 where e: "run_handler clk b ctx timeout evt e s = (err, s1)"
    by (cases "run_handler clk b ctx timeout evt e s")
  obtain errs s2 where es: "run_handlers clk b ctx timeout evt es s1 = (errs, s2)"
    by (cases "run_handlers clk b ctx timeout evt es s1")
  from Cons.prems have sent: "sent = err # errs" "s2 = s'"
    by (simp_all add: e es)
  from Cons.IH [of s1 errs] es sent(2) obtain ss where ss: "length ss = Suc (length es)"
    "length errs = length es" "ss ! 0 = s1" "last ss = s'"
    "\<forall>i<length es. run_handler clk b ctx timeout evt (es ! i) (ss ! i) = (errs ! i, ss ! Suc i)"
    by blast
  have "run_handler clk b ctx timeout evt ((e # es) ! i) ((s # ss) ! i) = (sent ! i, (s # ss) ! Suc i)"
    if "i < length (e # es)" for i
    using that ss e by (cases i) (simp_all add: sent)
  with ss show ?case by (intro exI [of _ "s # ss"]) (auto simp: sent)
qed

lemma collect_errors_None: "collect_errors sent = None \<longleftrightarrow> (\<forall>e\<in>set sent. e = None)"
proof -
  have "set (filter (\<lambda>e. e \<noteq> None) sent) = {e \<in> set sent. e \<noteq> None}"
    by auto
  then show ?thesis
    by (cases "filter (\<lambda>e. e \<noteq> None) sent"; cases "tl (filter (\<lambda>e. e \<noteq> None) sent)")
      (auto simp: collect_errors_def split: list.splits)
qed

lemma collect_errors_keeps:
  assumes "Some e \<in> set sent"
  shows "\<exists>e'. collect_errors sent = Some e' \<and> unwraps_to e' e"
proof -
  have mem: "Some e \<in> set (filter (\<lambda>e. e \<noteq> None) sent)"
    using assms by simp
  show ?thesis
  proof (cases "filter (\<lambda>e. e \<noteq> None) sent")
    case Nil
    then show ?thesis using mem by simp
  next
    case (Cons x xs)
    show ?thesis
    proof (cases xs)
      case Nil
      have "Some e \<in> set [x]"
        using mem unfolding Cons Nil .
      then have "x = Some e"
        by simp
      with Nil Cons have "collect_errors sent = Some e"
        by (simp add: collect_errors_def)
      then show ?thesis by (simp add: unwraps_self)
    next
      case (Cons y ys)
      with \<open>_ = x # xs\<close> have c: "collect_errors sent = Some (MultiError (filter (\<lambda>e. e \<noteq> None) sent))"
        by (simp add: collect_errors_def NewMultiError_def)
      have "e \<in> set (err_unwrap (MultiError (filter (\<lambda>e. e \<noteq> None) sent)))"
        using assms by force
      then show ?thesis using c unwraps_step [OF _ unwraps_self] by blast
    qed
  qed
qed

text \<open>
  C7.  \<open>Publish\<close> on an open bus runs every handler of the event's type exactly once, in the order
  the goroutines are scheduled, even if some of them fail or panic: the run is a chain of states
  that starts at the call's state (after the deadline's clock reading, when the context has one),
  passes through one run of each handler under the bus's timeout cut to that deadline, and ends at
  the state \<open>Publish\<close> leaves.  It does not panic itself, returns nil exactly if all handlers
  succeed, and otherwise an error whose tree has every handler's error.  The handlers' runs are not
  interleaved, and the concurrency limit is not zero (a limit of zero makes \<open>Publish\<close> wait forever).
\<close>

theorem Publish_runs_all:
  assumes "\<not> eb_closed b" "type_of evt = Some t" "gm_get (eb_handlers b) (Some t) = Some es" "es \<noteq> []"
    and "eb_sem b \<noteq> Some 0" "mset (sched es) = mset es"
    and "(case cx_deadline ctx of None \<Rightarrow> (0, s) | Some d \<Rightarrow> clk s) = (now, s0)"
  shows "\<exists>sent err ss.
     Publish clk sched b ctx evt s = Some (Ret err, last ss) \<and>
     length ss = Suc (length es) \<and> length sent = length es \<and> ss ! 0 = s0 \<and>
     (\<forall>i<length es. run_handler clk b ctx (publish_timeout b ctx now) evt (sched es ! i) (ss ! i) =
        (sent ! i, ss ! Suc i)) \<and>
     (err = None \<longleftrightarrow> (\<forall>e\<in>set sent. e = None)) \<and>
     (\<forall>e. Some e \<in> set sent \<longrightarrow> (\<exists>e'. err = Some e' \<and> unwraps_to e' e))"
proof -
  let ?t = "publish_timeout b ctx now"
  obtain sent s2 where run: "run_handlers clk b ctx ?t evt (sched es) s0 = (sent, s2)"
    by (cases "run_handlers clk b ctx ?t evt (sched es) s0")
  have p: "Publish clk sched b ctx evt s = Some (Ret (collect_errors sent), s2)"
    using assms(1-5) by (simp add: Publish_def assms(7) run)
  have len: "length (sched es) = length es"
    using assms(6) by (metis size_mset)
  from run_handlers_chain [OF run] obtain ss where ss: "length ss = Suc (length es)" "length sent = length es"
    "ss ! 0 = s0" "last ss = s2"
    "\<forall>i<length es. run_handler clk b ctx ?t evt (sched es ! i) (ss ! i) = (sent ! i, ss ! Suc i)"
    unfolding len by blast
  show ?thesis
    using p ss collect_errors_None [of sent] collect_errors_keeps [of _ sent]
    by (intro exI [of _ sent] exI [of _ "collect_errors sent"] exI [of _ ss]) simp
qed

definition demo_handler :: "string \<Rightarrow> nat \<Rightarrow> bool \<Rightarrow> (nat, go_ctx, unit, nat) handler" where
  "demo_handler n ptr bad =
     \<lparr>h_dyn = \<lparr>ht_type = TPtr (TNamed ''app'' n), ht_methods =
         [\<lparr>m_name = ''Handle'', m_in = [TPtr (TNamed ''app'' n), TNamed ''context'' ''Context'', TPtr (TNamed ''app'' ''Placed'')]\<rparr>]\<rparr>,
      h_pointer = Ret ptr,
      h_call = (\<lambda>ctx evt s. (if bad then Panic ''boom'' else Ret [RNil], Suc s))\<rparr>"

lemma demo_handler_facts [simp]:
  "extractHandlerPayloadType (h_dyn (demo_handler n ptr bad)) = (Some (TPtr (TNamed ''app'' ''Placed'')), True)"
  "h_pointer (demo_handler n ptr bad) = Ret ptr"
  "\<exists>ivk. makeHandlerInvoker (demo_handler n ptr bad) = Inr ivk"
  by (simp_all add: demo_handler_def extractHandlerPayloadType_def MethodByName_def
      extractPayloadFromHandleMethod_def makeHandlerInvoker_def)

lemma demo_subscribe:
  "already_subscribed (gm_or (eb_handlers b) (Some (TPtr (TNamed ''app'' ''Placed''))) []) (demo_handler n ptr bad) = Ret False \<Longrightarrow>
   SubscribeHandler b (demo_handler n ptr bad) =
     Ret (b\<lparr>eb_handlers := gm_put (eb_handlers b) (Some (TPtr (TNamed ''app'' ''Placed'')))
        (gm_or (eb_handlers b) (Some (TPtr (TNamed ''app'' ''Placed''))) [] @ [entry_of (demo_handler n ptr bad)])\<rparr>, None)"
proof -
  assume dup: "already_subscribed (gm_or (eb_handlers b) (Some (TPtr (TNamed ''app'' ''Placed''))) []) (demo_handler n ptr bad) = Ret False"
  obtain ivk where ivk: "makeHandlerInvoker (demo_handler n ptr bad) = Inr ivk"
    using demo_handler_facts(3) by blast
  show ?thesis
    by (simp add: SubscribeHandler_def ivk Let_def dup makeHandlerInvoker_Inr [OF ivk])
qed

lemma entry_of_handler [simp]: "he_handler (entry_of h) = h"
  by (simp add: entry_of_def)

lemma demo_bus:
  "subscribe_all (NewEventBus []) [demo_handler ''A'' 1 True, demo_handler ''B'' 2 False] =
     Ret (NewEventBus [] \<lparr>eb_handlers := [(Some (TPtr (TNamed ''app'' ''Placed'')),
        [entry_of (demo_handler ''A'' 1 True), entry_of (demo_handler ''B'' 2 False)])]\<rparr>)"
  by (simp add: demo_subscribe NewEventBus_def gm_put_def gm_get_def)

theorem subscriptions_unique_witness:
  "distinct [h_pointer (demo_handler ''A'' 1 True), h_pointer (demo_handler ''B'' 2 False)]"
  using subscriptions_unique [OF demo_bus, of "Some (TPtr (TNamed ''app'' ''Placed''))"]
  by (simp add: gm_get_def)

theorem Publish_runs_all_witness:
  "\<exists>(sent :: go_error option list) err ss.
     Publish (\<lambda>s. (int s, s)) rev
       (NewEventBus [] \<lparr>eb_handlers := [(Some (TPtr (TNamed ''app'' ''Placed'')),
          [entry_of (demo_handler ''A'' 1 True), entry_of (demo_handler ''B'' 2 False)])]\<rparr>)
       ctx_Background (GAny (TPtr (TNamed ''app'' ''Placed'')) ()) 0 = Some (Ret err, last ss) \<and>
     length ss = 3 \<and> length sent = 2 \<and> ss ! 0 = (0 :: nat) \<and>
     (err = None \<longleftrightarrow> (\<forall>e\<in>set sent. e = None))"
proof -
  let ?b = "NewEventBus [] \<lparr>eb_handlers := [(Some (TPtr (TNamed ''app'' ''Placed'')),
          [entry_of (demo_handler ''A'' 1 True), entry_of (demo_handler ''B'' 2 False)])]\<rparr>"
  let ?es = "[entry_of (demo_handler ''A'' 1 True), entry_of (demo_handler ''B'' 2 False)]"
  have prem: "\<not> eb_closed ?b" "type_of (GAny (TPtr (TNamed ''app'' ''Placed'')) ()) = Some (TPtr (TNamed ''app'' ''Placed''))"
    "gm_get (eb_handlers ?b) (Some (TPtr (TNamed ''app'' ''Placed''))) = Some ?es" "?es \<noteq> []"
    "eb_sem ?b \<noteq> Some 0" "mset (rev ?es) = mset ?es"
    by (simp_all only: mset_rev) (simp_all add: NewEventBus_def gm_get_def)
  have start: "(case cx_deadline ctx_Background of None \<Rightarrow> (0, 0) | Some d \<Rightarrow> (\<lambda>s. (int s, s)) 0) = (0 :: int, 0 :: nat)"
    by (simp add: ctx_Background_def)
  from Publish_runs_all [where sched = rev and clk = "\<lambda>s. (int s, s)" and ctx = ctx_Background and s = 0
      and now = 0 and ?s0.0 = 0, OF prem start] obtain sent :: "go_error option list" and err ss where
    r: "Publish (\<lambda>s. (int s, s)) rev ?b ctx_Background (GAny (TPtr (TNamed ''app'' ''Placed'')) ()) 0 =
          Some (Ret err, last ss)"
      "length ss = Suc (length ?es)" "length sent = length ?es" "ss ! 0 = 0"
      "err = None \<longleftrightarrow> (\<forall>e\<in>set sent. e = None)"
    by (elim exE conjE) (rule that; assumption)
  show ?thesis
  proof (rule exI [of _ sent], rule exI [of _ err], rule exI [of _ ss], intro conjI)
    show "length ss = 3" "length sent = 2"
      using r(2,3) by simp_all
  qed (rule r(1) r(4) r(5))+
qed

text \<open>
  A handler that is not a pointer, map, channel, slice or function can be subscribed once, but
  subscribing any second handler for its event type panics.
\<close>

theorem second_subscription_panics:
  assumes "extractHandlerPayloadType (h_dyn h1) = (t, True)" "h_pointer h1 = Panic p"
    and "extractHandlerPayloadType (h_dyn h2) = (t, True)"
    and "eb_handlers b = []" "SubscribeHandler b h1 = Ret (b1, err1)"
  shows "err1 = None \<and> SubscribeHandler b1 h2 = Panic p"
proof -
  have "MethodByName (h_dyn h) ''Handle'' \<noteq> None"
    if "extractHandlerPayloadType (h_dyn h) = (t, True)" for h :: "('a, go_ctx, 'b, 'c) handler"
    using that by (rule extract_ok_has_Handle)
  then obtain ivk1 ivk2 where ivk: "makeHandlerInvoker h1 = Inr ivk1" "makeHandlerInvoker h2 = Inr ivk2"
    using assms(1,3) by (fastforce simp: makeHandlerInvoker_def)
  have "err1 = None \<and> b1 = b\<lparr>eb_handlers := [(t, [entry_of h1])]\<rparr>"
    using assms(1,4,5) ivk makeHandlerInvoker_Inr [OF ivk(1)]
    by (simp add: SubscribeHandler_def Let_def gm_put_def)
  then show ?thesis
    using assms(2,3) ivk by (simp add: SubscribeHandler_def Let_def gm_get_def)
qed

definition value_handler :: "(nat, go_ctx, unit, nat) handler" where
  "value_handler = (demo_handler ''V'' 0 False)\<lparr>h_pointer := Panic ''reflect: call of reflect.Value.Pointer on struct Value''\<rparr>"

theorem second_subscription_panics_witness:
  "\<exists>b1. SubscribeHandler (NewEventBus []) value_handler = Ret (b1, None) \<and>
     SubscribeHandler b1 (demo_handler ''B'' 2 False) = Panic ''reflect: call of reflect.Value.Pointer on struct Value''"
proof -
  have x: "extractHandlerPayloadType (h_dyn value_handler) = (Some (TPtr (TNamed ''app'' ''Placed'')), True)"
    using demo_handler_facts(1) [of "''V''" 0 False] by (simp add: value_handler_def)
  have "\<exists>ivk. makeHandlerInvoker value_handler = Inr ivk"
    by (simp add: value_handler_def demo_handler_def makeHandlerInvoker_def MethodByName_def)
  then obtain b1 where b1: "SubscribeHandler (NewEventBus []) value_handler = Ret (b1, None)"
    using x by (auto simp: SubscribeHandler_def Let_def NewEventBus_def)
  show ?thesis
    using second_subscription_panics [OF x _ _ _ b1, of "''reflect: call of reflect.Value.Pointer on struct Value''"
        "demo_handler ''B'' 2 False"] b1
    by (simp add: value_handler_def NewEventBus_def)
qed

end
