(* ===== verification/Transactions.thy ===== *)
theory Transactions
  imports AspectChain GoContext
begin

text \<open>
  Transaction managers and the aspect that uses them: the interface and \<open>TransactionAspect\<close> of
  \<open>aspect/builtin/transaction.go\<close>, the in-memory manager of \<open>infra/memory_backend.go\<close>, the
  PostgreSQL manager of \<open>pg/transaction.go\<close> and the recording wrapper of
  \<open>exampleapp/infrastructure/transaction.go\<close>.

  A transaction state is reached through a pointer in the context: \<open>VTx a\<close> is the address of an
  entry of the heap.
\<close>

record ('s) tx_manager =
  tm_Begin :: "go_ctx \<Rightarrow> 's \<Rightarrow> (go_ctx option \<times> go_error option) \<times> 's"
  tm_Commit :: "go_ctx \<Rightarrow> 's \<Rightarrow> go_error option \<times> 's"
  tm_Rollback :: "go_ctx \<Rightarrow> 's \<Rightarrow> go_error option \<times> 's"

definition NoOpTransactionManager :: "'s tx_manager" where
  "NoOpTransactionManager =
     \<lparr>tm_Begin = (\<lambda>ctx s. ((Some ctx, None), s)),
      tm_Commit = (\<lambda>ctx s. (None, s)),
      tm_Rollback = (\<lambda>ctx s. (None, s))\<rparr>"

subsection \<open>The in-memory manager\<close>

record memTxState =
  mt_depth :: int
  mt_aborted :: bool

type_synonym mem_heap = "memTxState list"

definition mem_tx_state :: "go_ctx \<Rightarrow> nat option" where
  "mem_tx_state ctx = (case ctx_Value ctx MemTxKey of Some (VTx a) \<Rightarrow> Some a | _ \<Rightarrow> None)"

definition MemTx_Begin :: "go_ctx \<Rightarrow> mem_heap \<Rightarrow> (go_ctx option \<times> go_error option) \<times> mem_heap" where
  "MemTx_Begin ctx h = (case mem_tx_state ctx of
     Some a \<Rightarrow> ((Some ctx, None), h[a := (h ! a)\<lparr>mt_depth := mt_depth (h ! a) + 1\<rparr>])
   | None \<Rightarrow> ((Some (ctx_WithValue ctx MemTxKey (VTx (length h))), None), h @ [\<lparr>mt_depth = 1, mt_aborted = False\<rparr>]))"

definition mem_no_tx :: go_error where
  "mem_no_tx = ErrText ''memory_tx: no transaction in context''"

definition mem_tx_aborted :: go_error where
  "mem_tx_aborted = ErrText ''memory_tx: transaction aborted by inner rollback''"

definition MemTx_Commit :: "go_ctx \<Rightarrow> mem_heap \<Rightarrow> go_error option \<times> mem_heap" where
  "MemTx_Commit ctx h = (case mem_tx_state ctx of
     None \<Rightarrow> (Some mem_no_tx, h)
   | Some a \<Rightarrow>
       (if mt_depth (h ! a) \<le> 0 then (Some mem_no_tx, h)
        else (let h1 = h[a := (h ! a)\<lparr>mt_depth := mt_depth (h ! a) - 1\<rparr>]
              in if mt_aborted (h1 ! a) then (Some mem_tx_aborted, h1) else (None, h1))))"

definition MemTx_Rollback :: "go_ctx \<Rightarrow> mem_heap \<Rightarrow> go_error option \<times> mem_heap" where
  "MemTx_Rollback ctx h = (case mem_tx_state ctx of
     None \<Rightarrow> (Some mem_no_tx, h)
   | Some a \<Rightarrow>
       (if mt_depth (h ! a) \<le> 0 then (Some mem_no_tx, h)
        else (None, h[a := \<lparr>mt_depth = mt_depth (h ! a) - 1, mt_aborted = True\<rparr>])))"

definition MemoryTransactionManager :: "mem_heap tx_manager" where
  "MemoryTransactionManager =
     \<lparr>tm_Begin = MemTx_Begin, tm_Commit = MemTx_Commit, tm_Rollback = MemTx_Rollback\<rparr>"

subsection \<open>The PostgreSQL manager\<close>

text \<open>
  The database connection: beginning a transaction, a statement on it, and ending it.  What they
  do to the database state \<open>'db\<close> is not part of the program.
\<close>

record ('db) pg_driver =
  pd_BeginTx :: "'db \<Rightarrow> (nat + go_error) \<times> 'db"
  pd_Exec :: "nat \<Rightarrow> string \<Rightarrow> 'db \<Rightarrow> go_error option \<times> 'db"
  pd_Commit :: "nat \<Rightarrow> 'db \<Rightarrow> go_error option \<times> 'db"
  pd_Rollback :: "nat \<Rightarrow> 'db \<Rightarrow> go_error option \<times> 'db"

record txState =
  pt_tx :: nat
  pt_depth :: int
  pt_aborted :: bool
  pt_nextSpSeq :: int
  pt_parentSp :: "int list"

record ('db) pg_world =
  pw_heap :: "txState list"
  pw_db :: 'db

definition pg_tx_state :: "go_ctx \<Rightarrow> nat option" where
  "pg_tx_state ctx = (case ctx_Value ctx PgTxKey of Some (VTx a) \<Rightarrow> Some a | _ \<Rightarrow> None)"

definition pg_no_tx :: go_error where
  "pg_no_tx = ErrText ''pg_tx: no transaction in context''"

definition pg_tx_aborted :: go_error where
  "pg_tx_aborted = ErrText ''pg_tx: transaction aborted by inner rollback''"

definition pg_set :: "'db pg_world \<Rightarrow> nat \<Rightarrow> txState \<Rightarrow> 'db pg_world" where
  "pg_set w a st = w\<lparr>pw_heap := (pw_heap w)[a := st]\<rparr>"

definition PgTx_Begin :: "'db pg_driver \<Rightarrow> go_ctx \<Rightarrow> 'db pg_world \<Rightarrow> (go_ctx option \<times> go_error option) \<times> 'db pg_world" where
  "PgTx_Begin d ctx w = (case pg_tx_state ctx of
     Some a \<Rightarrow>
       (let st = pw_heap w ! a;
            spSeq = pt_nextSpSeq st + 1;
            st1 = st\<lparr>pt_depth := pt_depth st + 1, pt_nextSpSeq := spSeq, pt_parentSp := pt_parentSp st @ [spSeq]\<rparr>;
            (err, db1) = pd_Exec d (pt_tx st) (''SAVEPOINT sp_'' @ show_int spSeq) (pw_db w);
            w1 = w\<lparr>pw_db := db1\<rparr>
        in case err of
             Some e \<Rightarrow>
               ((None, Some (ErrWrap ''create savepoint: '' e [])),
                pg_set w1 a (st1\<lparr>pt_depth := pt_depth st1 - 1, pt_nextSpSeq := pt_nextSpSeq st1 - 1,
                                 pt_parentSp := butlast (pt_parentSp st1)\<rparr>))
           | None \<Rightarrow> ((Some ctx, None), pg_set w1 a (st1\<lparr>pt_aborted := False\<rparr>)))
   | None \<Rightarrow>
       (case pd_BeginTx d (pw_db w) of
          (Inr e, db1) \<Rightarrow> ((None, Some e), w\<lparr>pw_db := db1\<rparr>)
        | (Inl tx, db1) \<Rightarrow>
            ((Some (ctx_WithValue ctx PgTxKey (VTx (length (pw_heap w)))), None),
             w\<lparr>pw_db := db1, pw_heap := pw_heap w @
                 [\<lparr>pt_tx = tx, pt_depth = 1, pt_aborted = False, pt_nextSpSeq = 1, pt_parentSp = [1]\<rparr>]\<rparr>)))"

definition PgTx_Commit :: "'db pg_driver \<Rightarrow> go_ctx \<Rightarrow> 'db pg_world \<Rightarrow> go_error option \<times> 'db pg_world" where
  "PgTx_Commit d ctx w = (case pg_tx_state ctx of
     None \<Rightarrow> (Some pg_no_tx, w)
   | Some a \<Rightarrow>
       (let st = pw_heap w ! a in
        if pt_depth st \<le> 0 then (Some pg_no_tx, w)
        else (let spName = ''sp_'' @ show_int (last (pt_parentSp st));
                  st1 = st\<lparr>pt_parentSp := butlast (pt_parentSp st), pt_depth := pt_depth st - 1\<rparr>;
                  w1 = pg_set w a st1
              in if 0 < pt_depth st1
                 then (if pt_aborted st1
                       then (case pd_Exec d (pt_tx st) (''ROLLBACK TO SAVEPOINT '' @ spName) (pw_db w) of
                               (Some e, db1) \<Rightarrow> (Some (ErrWrap ''pg_tx: rollback to savepoint: '' e '' (transaction was already aborted)''), w1\<lparr>pw_db := db1\<rparr>)
                             | (None, db1) \<Rightarrow> (Some pg_tx_aborted, w1\<lparr>pw_db := db1\<rparr>))
                       else (case pd_Exec d (pt_tx st) (''RELEASE SAVEPOINT '' @ spName) (pw_db w) of
                               (err, db1) \<Rightarrow> (err, w1\<lparr>pw_db := db1\<rparr>)))
                 else if pt_aborted st1
                 then (case pd_Rollback d (pt_tx st) (pw_db w) of
                         (ignored, db1) \<Rightarrow> (Some pg_tx_aborted, w1\<lparr>pw_db := db1\<rparr>))
                 else (case pd_Commit d (pt_tx st) (pw_db w) of
                         (err, db1) \<Rightarrow> (err, w1\<lparr>pw_db := db1\<rparr>)))))"

definition PgTx_Rollback :: "'db pg_driver \<Rightarrow> go_ctx \<Rightarrow> 'db pg_world \<Rightarrow> go_error option \<times> 'db pg_world" where
  "PgTx_Rollback d ctx w = (case pg_tx_state ctx of
     None \<Rightarrow> (Some pg_no_tx, w)
   | Some a \<Rightarrow>
       (let st = pw_heap w ! a in
        if pt_depth st \<le> 0 then (Some pg_no_tx, w)
        else (let spName = ''sp_'' @ show_int (last (pt_parentSp st));
                  st1 = st\<lparr>pt_aborted := True, pt_parentSp := butlast (pt_parentSp st), pt_depth := pt_depth st - 1\<rparr>;
                  w1 = pg_set w a st1
              in if 0 < pt_depth st1
                 then (case pd_Exec d (pt_tx st) (''ROLLBACK TO SAVEPOINT '' @ spName) (pw_db w) of
                         (err, db1) \<Rightarrow> (err, w1\<lparr>pw_db := db1\<rparr>))
                 else (case pd_Rollback d (pt_tx st) (pw_db w) of
                         (err, db1) \<Rightarrow> (err, w1\<lparr>pw_db := db1\<rparr>)))))"

definition PgTransactionManager :: "'db pg_driver \<Rightarrow> 'db pg_world tx_manager" where
  "PgTransactionManager d =
     \<lparr>tm_Begin = PgTx_Begin d, tm_Commit = PgTx_Commit d, tm_Rollback = PgTx_Rollback d\<rparr>"

definition HasTransaction :: "go_ctx \<Rightarrow> bool" where
  "HasTransaction ctx \<longleftrightarrow> pg_tx_state ctx \<noteq> None"

definition GetQuerier :: "go_ctx \<Rightarrow> 'db pg_world \<Rightarrow> 'q \<Rightarrow> (nat \<Rightarrow> 'q) \<Rightarrow> 'q" where
  "GetQuerier ctx w db of_tx = (case pg_tx_state ctx of Some a \<Rightarrow> of_tx (pt_tx (pw_heap w ! a)) | None \<Rightarrow> db)"

subsection \<open>The recording wrapper of the example application\<close>

datatype TxAction = TxBegin | TxCommit | TxRollback

type_synonym 's app_world = "TxAction list \<times> 's"

definition AppTx_Begin :: "'s tx_manager \<Rightarrow> go_ctx \<Rightarrow> 's app_world \<Rightarrow> (go_ctx option \<times> go_error option) \<times> 's app_world" where
  "AppTx_Begin delegate ctx w = (case tm_Begin delegate ctx (snd w) of
     ((c, Some e), s1) \<Rightarrow> ((c, Some e), (fst w, s1))
   | ((c, None), s1) \<Rightarrow> ((c, None), (fst w @ [TxBegin], s1)))"

definition AppTx_Commit :: "'s tx_manager \<Rightarrow> go_ctx \<Rightarrow> 's app_world \<Rightarrow> go_error option \<times> 's app_world" where
  "AppTx_Commit delegate ctx w = (case tm_Commit delegate ctx (snd w) of
     (Some e, s1) \<Rightarrow> (Some e, (fst w, s1))
   | (None, s1) \<Rightarrow> (None, (fst w @ [TxCommit], s1)))"

definition AppTx_Rollback :: "'s tx_manager \<Rightarrow> go_ctx \<Rightarrow> 's app_world \<Rightarrow> go_error option \<times> 's app_world" where
  "AppTx_Rollback delegate ctx w = (case tm_Rollback delegate ctx (snd w) of
     (Some e, s1) \<Rightarrow> (Some e, (fst w, s1))
   | (None, s1) \<Rightarrow> (None, (fst w @ [TxRollback], s1)))"

definition AppTransactionManager :: "'s tx_manager \<Rightarrow> 's app_world tx_manager" where
  "AppTransactionManager delegate =
     \<lparr>tm_Begin = AppTx_Begin delegate, tm_Commit = AppTx_Commit delegate, tm_Rollback = AppTx_Rollback delegate\<rparr>"

subsection \<open>\<open>TransactionAspect\<close>\<close>

text \<open>
  A failed \<open>Begin\<close> may return a nil context; the chain does not use it then, and the model keeps
  the caller's.
\<close>

definition TransactionAspect :: "'s tx_manager \<Rightarrow> ('s, go_ctx, 'm, 'v) aspect" where
  "TransactionAspect tm =
     \<lparr>asp_name = ''transaction'', asp_order = 10,
      asp_before = (\<lambda>ctx cmd s. case tm_Begin tm ctx s of
         ((c, err), s1) \<Rightarrow> (Ret (case c of Some c1 \<Rightarrow> c1 | None \<Rightarrow> ctx, err), s1)),
      asp_after = (\<lambda>ctx cmd result err duration s. case err of
         Some e \<Rightarrow>
           (case tm_Rollback tm ctx s of
              (Some rbErr, s1) \<Rightarrow>
                (Ret (Some (ErrWrap ''command failed: '' e ('', rollback failed: '' @ error_text rbErr))), s1)
            | (None, s1) \<Rightarrow> (Ret (Some e), s1))
       | None \<Rightarrow> (case tm_Commit tm ctx s of (cErr, s1) \<Rightarrow> (Ret cErr, s1)))\<rparr>"

definition NewTransactionAspect :: "'s tx_manager option \<Rightarrow> go_error + ('s, go_ctx, 'm, 'v) aspect" where
  "NewTransactionAspect txManager = (case txManager of
     None \<Rightarrow> Inl (ErrText ''transaction: TxManager must not be nil, use NoOpTransactionManager for non-transactional scenarios'')
   | Some tm \<Rightarrow> Inr (TransactionAspect tm))"

subsection \<open>What a transaction manager promises\<close>

text \<open>
  \<open>level\<close> counts the open transactions of a context, \<open>doomed\<close> says that one of them was rolled
  back, \<open>good\<close> that the context belongs to the world.
\<close>

locale tx_contract =
  fixes tm :: "'s tx_manager"
    and level :: "go_ctx \<Rightarrow> 's \<Rightarrow> nat"
    and doomed :: "go_ctx \<Rightarrow> 's \<Rightarrow> bool"
    and good :: "go_ctx \<Rightarrow> 's \<Rightarrow> bool"
  assumes begin_level: "good c s \<Longrightarrow> tm_Begin tm c s = ((Some c', None), s') \<Longrightarrow>
            good c' s' \<and> level c' s' = Suc (level c s)"
    and commit_level: "good c s \<Longrightarrow> 0 < level c s \<Longrightarrow> tm_Commit tm c s = (e, s') \<Longrightarrow>
            good c s' \<and> Suc (level c s') = level c s \<and> (e = None \<longrightarrow> \<not> doomed c s)"
    and rollback_level: "good c s \<Longrightarrow> 0 < level c s \<Longrightarrow> tm_Rollback tm c s = (e, s') \<Longrightarrow>
            good c s' \<and> Suc (level c s') = level c s \<and> doomed c s'"
    and closed_refused: "good c s \<Longrightarrow> level c s = 0 \<Longrightarrow>
            snd (tm_Commit tm c s) = s \<and> snd (tm_Rollback tm c s) = s \<and>
            fst (tm_Commit tm c s) \<noteq> None \<and> fst (tm_Rollback tm c s) \<noteq> None"
begin

lemma aspect_restores_level:
  assumes "good c s" "tm_Begin tm c s = ((Some c1, None), s1)"
    and "good c1 s2 \<and> level c1 s2 = level c1 s1"
    and "asp_after (TransactionAspect tm) c1 m r err d s2 = (Ret e, s3)"
  shows "level c1 s3 = level c s \<and> (err \<noteq> None \<longrightarrow> e \<noteq> None \<and> doomed c1 s3) \<and> (e = None \<longrightarrow> \<not> doomed c1 s2)"
proof -
  have l: "level c1 s2 = Suc (level c s)" "good c1 s2"
    using begin_level [OF assms(1,2)] assms(3) by auto
  show ?thesis
  proof (cases err)
    case None
    obtain ce s4 where "tm_Commit tm c1 s2 = (ce, s4)"
      by (cases "tm_Commit tm c1 s2")
    then show ?thesis
      using commit_level [OF l(2)] l(1) assms(4) None by (auto simp: TransactionAspect_def)
  next
    case (Some e0)
    obtain re s4 where "tm_Rollback tm c1 s2 = (re, s4)"
      by (cases "tm_Rollback tm c1 s2")
    then show ?thesis
      using rollback_level [OF l(2)] l(1) assms(4) Some by (auto simp: TransactionAspect_def split: option.splits)
  qed
qed

end

text \<open>A manager for which one rollback dooms the whole transaction, whatever comes after it.\<close>

locale strict_tx_contract = tx_contract +
  assumes begin_nested: "good c s \<Longrightarrow> 0 < level c s \<Longrightarrow>
            \<exists>s'. tm_Begin tm c s = ((Some c, None), s') \<and> (doomed c s' \<longleftrightarrow> doomed c s)"
    and begin_fresh: "good c s \<Longrightarrow> level c s = 0 \<Longrightarrow> tm_Begin tm c s = ((Some c', None), s') \<Longrightarrow>
            doomed c s \<or> \<not> doomed c' s'"
    and commit_open: "good c s \<Longrightarrow> 0 < level c s \<Longrightarrow> tm_Commit tm c s = (e, s') \<Longrightarrow>
            (e = None \<longleftrightarrow> \<not> doomed c s) \<and> (doomed c s' \<longleftrightarrow> doomed c s)"

text \<open>
  A nest of transactions: the inner ones, and whether the transaction then asks for a commit.
  The errors of inner transactions are ignored, as a caller may.
\<close>

datatype tx_tree = TxNode "tx_tree list" bool

fun tree_rolls_back :: "tx_tree \<Rightarrow> bool" where
  "tree_rolls_back (TxNode ts commit) \<longleftrightarrow> \<not> commit \<or> list_ex tree_rolls_back ts"

fun run_tree :: "'s tx_manager \<Rightarrow> tx_tree \<Rightarrow> go_ctx \<Rightarrow> 's \<Rightarrow> go_error option \<times> 's" where
  "run_tree tm (TxNode ts commit) c s = (case tm_Begin tm c s of
     ((Some c1, None), s1) \<Rightarrow>
       (let s2 = foldl (\<lambda>s t. snd (run_tree tm t c1 s)) s1 ts
        in if commit then tm_Commit tm c1 s2 else tm_Rollback tm c1 s2)
   | ((co, e), s1) \<Rightarrow> (e, s1))"

context strict_tx_contract
begin

lemma run_subtrees:
  assumes "\<And>t s. t \<in> set ts \<Longrightarrow> good c s \<Longrightarrow> 0 < level c s \<Longrightarrow>
             good c (snd (run_tree tm t c s)) \<and> level c (snd (run_tree tm t c s)) = level c s \<and>
             (doomed c (snd (run_tree tm t c s)) \<longleftrightarrow> doomed c s \<or> tree_rolls_back t)"
    and "good c s" "0 < level c s"
  shows "good c (foldl (\<lambda>s t. snd (run_tree tm t c s)) s ts) \<and>
         level c (foldl (\<lambda>s t. snd (run_tree tm t c s)) s ts) = level c s \<and>
         (doomed c (foldl (\<lambda>s t. snd (run_tree tm t c s)) s ts) \<longleftrightarrow> doomed c s \<or> list_ex tree_rolls_back ts)"
  using assms by (induction ts arbitrary: s) auto

lemma run_tree_open:
  assumes "good c s" "0 < level c s"
  shows "good c (snd (run_tree tm t c s)) \<and> level c (snd (run_tree tm t c s)) = level c s \<and>
         (doomed c (snd (run_tree tm t c s)) \<longleftrightarrow> doomed c s \<or> tree_rolls_back t)"
  using assms
proof (induction t arbitrary: s)
  case (TxNode ts commit)
  obtain s1 where s1: "tm_Begin tm c s = ((Some c, None), s1)" "doomed c s1 \<longleftrightarrow> doomed c s"
    using begin_nested [OF TxNode.prems] by blast
  have g1: "good c s1" "level c s1 = Suc (level c s)"
    using begin_level [OF TxNode.prems(1) s1(1)] by auto
  let ?s2 = "foldl (\<lambda>s t. snd (run_tree tm t c s)) s1 ts"
  have sub: "good c ?s2" "level c ?s2 = Suc (level c s)" "doomed c ?s2 \<longleftrightarrow> doomed c s \<or> list_ex tree_rolls_back ts"
    using run_subtrees [of ts c s1] TxNode.IH g1 s1(2) by auto
  obtain e s3 where ce: "tm_Commit tm c ?s2 = (e, s3)"
    by (cases "tm_Commit tm c ?s2")
  obtain e' s4 where re: "tm_Rollback tm c ?s2 = (e', s4)"
    by (cases "tm_Rollback tm c ?s2")
  show ?case
    using commit_level [OF sub(1) _ ce] commit_open [OF sub(1) _ ce] rollback_level [OF sub(1) _ re] sub s1 ce re
    by (cases commit) (auto simp: Let_def)
qed

lemma run_tree_root:
  assumes "good c s" "level c s = 0" "\<not> doomed c s" "tm_Begin tm c s = ((Some c', None), s1)"
  shows "fst (run_tree tm (TxNode ts True) c s) = None \<longleftrightarrow> \<not> list_ex tree_rolls_back ts"
proof -
  have g1: "good c' s1" "level c' s1 = 1" "\<not> doomed c' s1"
    using begin_level [OF assms(1,4)] begin_fresh [OF assms(1,2,4)] assms(2,3) by auto
  let ?s2 = "foldl (\<lambda>s t. snd (run_tree tm t c' s)) s1 ts"
  have sub: "good c' ?s2" "level c' ?s2 = 1" "doomed c' ?s2 \<longleftrightarrow> list_ex tree_rolls_back ts"
    using run_subtrees [of ts c' s1] run_tree_open g1 by auto
  obtain e s3 where ce: "tm_Commit tm c' ?s2 = (e, s3)"
    by (cases "tm_Commit tm c' ?s2")
  show ?thesis
    using commit_open [OF sub(1) _ ce] sub ce assms(4) by (simp add: Let_def)
qed

end

subsection \<open>The in-memory manager keeps the strict promise\<close>

definition mem_level :: "go_ctx \<Rightarrow> mem_heap \<Rightarrow> nat" where
  "mem_level c h = (case mem_tx_state c of None \<Rightarrow> 0 | Some a \<Rightarrow> nat (mt_depth (h ! a)))"

definition mem_doomed :: "go_ctx \<Rightarrow> mem_heap \<Rightarrow> bool" where
  "mem_doomed c h = (case mem_tx_state c of None \<Rightarrow> False | Some a \<Rightarrow> mt_aborted (h ! a))"

definition mem_good :: "go_ctx \<Rightarrow> mem_heap \<Rightarrow> bool" where
  "mem_good c h = (case mem_tx_state c of None \<Rightarrow> True | Some a \<Rightarrow> a < length h \<and> 0 \<le> mt_depth (h ! a))"

lemma mem_tx_state_with [simp]: "mem_tx_state (ctx_WithValue c MemTxKey (VTx a)) = Some a"
  by (simp add: mem_tx_state_def)

lemmas mem_tx_defs = MemoryTransactionManager_def MemTx_Begin_def MemTx_Commit_def MemTx_Rollback_def
  mem_level_def mem_doomed_def mem_good_def Let_def

interpretation mem_tx: strict_tx_contract MemoryTransactionManager mem_level mem_doomed mem_good
proof (unfold_locales, goal_cases)
  case (1 c s c' s')
  then show ?case by (cases "mem_tx_state c") (auto simp: mem_tx_defs)
next
  case (2 c s e s')
  then show ?case by (cases "mem_tx_state c") (auto simp: mem_tx_defs split: if_splits)
next
  case (3 c s e s')
  then show ?case by (cases "mem_tx_state c") (auto simp: mem_tx_defs split: if_splits)
next
  case (4 c s)
  then show ?case by (cases "mem_tx_state c") (auto simp: mem_tx_defs)
next
  case (5 c s)
  then show ?case by (cases "mem_tx_state c") (auto simp: mem_tx_defs)
next
  case (6 c s c' s')
  then show ?case by (cases "mem_tx_state c") (auto simp: mem_tx_defs)
next
  case (7 c s e s')
  then show ?case by (cases "mem_tx_state c") (auto simp: mem_tx_defs split: if_splits)
qed

text \<open>
  C18.  With the in-memory manager, the commit of an outermost transaction succeeds exactly when no
  transaction nested in it, at any depth and in any order, was rolled back.
\<close>

theorem mem_nested_atomic:
  assumes "mem_tx_state c = None"
  shows "fst (run_tree MemoryTransactionManager (TxNode ts True) c h) = None \<longleftrightarrow> \<not> list_ex tree_rolls_back ts"
  using assms by (intro mem_tx.run_tree_root) (auto simp: mem_tx_defs)

theorem mem_nested_atomic_witness:
  "fst (run_tree MemoryTransactionManager (TxNode [TxNode [] False, TxNode [] True] True) ctx_Background []) \<noteq> None \<and>
   mem_tx_state ctx_Background = None"
proof -
  have n: "mem_tx_state ctx_Background = None"
    by (simp add: mem_tx_state_def ctx_Value_def ctx_Background_def)
  show ?thesis
    using mem_nested_atomic [OF n, of "[TxNode [] False, TxNode [] True]" "[]"] n by simp
qed

text \<open>
  A command that runs in the transaction aspect with the in-memory manager, and closes every
  transaction it opens itself: its transaction ends with it; the command's error rolls it back and
  is reported twice, joined with itself; without an error it is committed, unless a nested rollback
  aborted it, which the caller sees.
\<close>

theorem tx_aspect_outcome:
  fixes c h
  defines "a \<equiv> length h"
  assumes "mem_tx_state c = None"
    and "inner (ctx_WithValue c MemTxKey (VTx a)) (h @ [\<lparr>mt_depth = 1, mt_aborted = False\<rparr>]) = (Ret (res, e0), h2)"
    and "a < length h2" "h2 ! a = \<lparr>mt_depth = 1, mt_aborted = ab\<rparr>"
  shows "\<exists>h3. aspect_layer (\<lambda>h. (now h, h)) m (TransactionAspect MemoryTransactionManager) inner c h =
           (Ret (res, case e0 of Some e \<Rightarrow> Some (ErrJoin [e, e])
                      | None \<Rightarrow> if ab then Some mem_tx_aborted else None), h3) \<and>
         h3 ! a = \<lparr>mt_depth = 0, mt_aborted = ab \<or> e0 \<noteq> None\<rparr>"
  using assms
  by (auto simp: aspect_layer_def TransactionAspect_def mem_tx_defs join_after_def split: option.split)

theorem tx_aspect_outcome_witness:
  "\<exists>h3. aspect_layer (\<lambda>h. (0, h)) ''Place'' (TransactionAspect MemoryTransactionManager)
       (\<lambda>c h. (Ret (RNil :: nat retval, Some ErrNotFound), h)) ctx_Background [] =
       (Ret (RNil, Some (ErrJoin [ErrNotFound, ErrNotFound])), h3) \<and> h3 ! 0 = \<lparr>mt_depth = 0, mt_aborted = True\<rparr>"
proof -
  have n: "mem_tx_state ctx_Background = None"
    by (simp add: mem_tx_state_def ctx_Value_def ctx_Background_def)
  show ?thesis
    using tx_aspect_outcome [OF n, of "\<lambda>c h. (Ret (RNil :: nat retval, Some ErrNotFound), h)" "[]" RNil "Some ErrNotFound"
        "[\<lparr>mt_depth = 1, mt_aborted = False\<rparr>]" False "\<lambda>h. 0" "''Place''"] by simp
qed

subsection \<open>The recording wrapper keeps its delegate's promise\<close>

context tx_contract
begin

lemma app_contract:
  "tx_contract (AppTransactionManager tm) (\<lambda>c w. level c (snd w)) (\<lambda>c w. doomed c (snd w)) (\<lambda>c w. good c (snd w))"
proof (unfold_locales, goal_cases)
  case (1 c w c' w')
  then show ?case using begin_level [of c "snd w" c']
    by (auto simp: AppTransactionManager_def AppTx_Begin_def split: prod.splits option.splits)
next
  case (2 c w e w')
  then show ?case using commit_level [of c "snd w"]
    by (fastforce simp: AppTransactionManager_def AppTx_Commit_def split: prod.splits option.splits)
next
  case (3 c w e w')
  then show ?case using rollback_level [of c "snd w"]
    by (fastforce simp: AppTransactionManager_def AppTx_Rollback_def split: prod.splits option.splits)
next
  case (4 c w)
  then show ?case using closed_refused [of c "snd w"]
    by (cases w) (auto simp: AppTransactionManager_def AppTx_Commit_def AppTx_Rollback_def split: prod.splits option.splits)
qed

end

interpretation app_mem_tx: tx_contract "AppTransactionManager MemoryTransactionManager"
  "\<lambda>c w. mem_level c (snd w)" "\<lambda>c w. mem_doomed c (snd w)" "\<lambda>c w. mem_good c (snd w)"
  by (rule mem_tx.app_contract)

subsection \<open>The PostgreSQL manager keeps the promise, but not the strict one\<close>

definition pg_level :: "go_ctx \<Rightarrow> 'db pg_world \<Rightarrow> nat" where
  "pg_level c w = (case pg_tx_state c of None \<Rightarrow> 0 | Some a \<Rightarrow> nat (pt_depth (pw_heap w ! a)))"

definition pg_doomed :: "go_ctx \<Rightarrow> 'db pg_world \<Rightarrow> bool" where
  "pg_doomed c w = (case pg_tx_state c of None \<Rightarrow> False | Some a \<Rightarrow> pt_aborted (pw_heap w ! a))"

text \<open>One savepoint number for every open level, numbers growing inwards and never beyond the counter.\<close>

definition pg_state_ok :: "txState \<Rightarrow> bool" where
  "pg_state_ok st \<longleftrightarrow> pt_depth st = int (length (pt_parentSp st)) \<and>
     sorted_wrt (<) (pt_parentSp st) \<and> (\<forall>n\<in>set (pt_parentSp st). n \<le> pt_nextSpSeq st)"

definition pg_good :: "go_ctx \<Rightarrow> 'db pg_world \<Rightarrow> bool" where
  "pg_good c w = (case pg_tx_state c of None \<Rightarrow> True
     | Some a \<Rightarrow> a < length (pw_heap w) \<and> pg_state_ok (pw_heap w ! a))"

lemma pg_tx_state_with [simp]: "pg_tx_state (ctx_WithValue c PgTxKey (VTx a)) = Some a"
  by (simp add: pg_tx_state_def)

lemma pg_set_heap [simp]: "pw_heap (pg_set w a st) = (pw_heap w)[a := st]"
  by (simp add: pg_set_def)

lemma pg_state_push:
  "pg_state_ok st \<Longrightarrow> pg_state_ok (st\<lparr>pt_depth := pt_depth st + 1, pt_nextSpSeq := pt_nextSpSeq st + 1,
     pt_parentSp := pt_parentSp st @ [pt_nextSpSeq st + 1], pt_aborted := b\<rparr>)"
  by (force simp: pg_state_ok_def sorted_wrt_append)

lemma pg_state_pop:
  assumes "pg_state_ok st" "0 < pt_depth st"
  shows "pg_state_ok (st\<lparr>pt_parentSp := butlast (pt_parentSp st), pt_depth := pt_depth st - 1\<rparr>)"
    and "pg_state_ok (st\<lparr>pt_aborted := True, pt_parentSp := butlast (pt_parentSp st), pt_depth := pt_depth st - 1\<rparr>)"
proof -
  have "pt_parentSp st \<noteq> []"
    using assms by (auto simp: pg_state_ok_def)
  then obtain ps p where "pt_parentSp st = ps @ [p]"
    by (cases "pt_parentSp st" rule: rev_cases) auto
  then show "pg_state_ok (st\<lparr>pt_parentSp := butlast (pt_parentSp st), pt_depth := pt_depth st - 1\<rparr>)"
    and "pg_state_ok (st\<lparr>pt_aborted := True, pt_parentSp := butlast (pt_parentSp st), pt_depth := pt_depth st - 1\<rparr>)"
    using assms by (auto simp: pg_state_ok_def sorted_wrt_append)
qed

lemmas pg_tx_defs = PgTransactionManager_def pg_level_def pg_doomed_def pg_good_def Let_def

lemma pg_begin_contract:
  assumes "pg_good c w" "PgTx_Begin d c w = ((Some c', None), w')"
  shows "pg_good c' w' \<and> pg_level c' w' = Suc (pg_level c w)"
proof (cases "pg_tx_state c")
  case None
  then show ?thesis using assms
    by (auto simp: PgTx_Begin_def pg_tx_defs pg_state_ok_def split: prod.splits sum.splits)
next
  case (Some a)
  let ?st = "pw_heap w ! a"
  have ok: "pg_state_ok ?st" "a < length (pw_heap w)" "0 \<le> pt_depth ?st"
    using assms(1) Some by (auto simp: pg_good_def pg_state_ok_def)
  obtain err db1 where ex: "pd_Exec d (pt_tx ?st) (''SAVEPOINT sp_'' @ show_int (pt_nextSpSeq ?st + 1)) (pw_db w) = (err, db1)"
    by (cases "pd_Exec d (pt_tx ?st) (''SAVEPOINT sp_'' @ show_int (pt_nextSpSeq ?st + 1)) (pw_db w)")
  have "err = None"
    using assms(2) Some ex by (cases err) (auto simp: PgTx_Begin_def Let_def)
  then show ?thesis
    using assms(2) Some ex ok pg_state_push [OF ok(1), of False] by (auto simp: PgTx_Begin_def pg_tx_defs)
qed

lemma pg_commit_contract:
  assumes "pg_good c w" "0 < pg_level c w" "PgTx_Commit d c w = (e, w')"
  shows "pg_good c w' \<and> Suc (pg_level c w') = pg_level c w \<and> (e = None \<longrightarrow> \<not> pg_doomed c w)"
proof -
  obtain a where a: "pg_tx_state c = Some a"
    using assms(2) by (cases "pg_tx_state c") (auto simp: pg_level_def)
  have ok: "pg_state_ok (pw_heap w ! a)" "a < length (pw_heap w)" "0 < pt_depth (pw_heap w ! a)"
    using assms(1,2) a by (auto simp: pg_good_def pg_level_def)
  show ?thesis
    using assms(3) a ok pg_state_pop(1) [OF ok(1,3)]
    by (auto simp: PgTx_Commit_def pg_tx_defs split: prod.splits option.splits if_splits)
qed

lemma pg_rollback_contract:
  assumes "pg_good c w" "0 < pg_level c w" "PgTx_Rollback d c w = (e, w')"
  shows "pg_good c w' \<and> Suc (pg_level c w') = pg_level c w \<and> pg_doomed c w'"
proof -
  obtain a where a: "pg_tx_state c = Some a"
    using assms(2) by (cases "pg_tx_state c") (auto simp: pg_level_def)
  have ok: "pg_state_ok (pw_heap w ! a)" "a < length (pw_heap w)" "0 < pt_depth (pw_heap w ! a)"
    using assms(1,2) a by (auto simp: pg_good_def pg_level_def)
  show ?thesis
    using assms(3) a ok pg_state_pop(2) [OF ok(1,3)]
    by (auto simp: PgTx_Rollback_def pg_tx_defs split: prod.splits option.splits if_splits)
qed

interpretation pg_tx: tx_contract "PgTransactionManager d" pg_level pg_doomed pg_good
  for d :: "'db pg_driver"
proof (unfold_locales, goal_cases)
  case (1 c s c' s')
  then show ?case using pg_begin_contract [of c s d c' s'] by (simp add: PgTransactionManager_def)
next
  case (2 c s e s')
  then show ?case using pg_commit_contract [of c s d e s'] by (simp add: PgTransactionManager_def)
next
  case (3 c s e s')
  then show ?case using pg_rollback_contract [of c s d e s'] by (simp add: PgTransactionManager_def)
next
  case (4 c s)
  then show ?case
    by (cases "pg_tx_state c") (auto simp: PgTx_Commit_def PgTx_Rollback_def pg_tx_defs pg_no_tx_def)
qed

datatype tx_op = OpBegin | OpCommit | OpRollback

fun pg_op :: "'db pg_driver \<Rightarrow> go_ctx \<Rightarrow> 'db pg_world \<Rightarrow> tx_op \<Rightarrow> 'db pg_world" where
  "pg_op d c w OpBegin = snd (PgTx_Begin d c w)"
| "pg_op d c w OpCommit = snd (PgTx_Commit d c w)"
| "pg_op d c w OpRollback = snd (PgTx_Rollback d c w)"

lemma pg_op_good:
  assumes "pg_good c w" "pg_tx_state c = Some a"
  shows "pg_good c (pg_op d c w x)"
proof (cases x)
  case OpBegin
  let ?st = "pw_heap w ! a"
  have ok: "pg_state_ok ?st" "a < length (pw_heap w)"
    using assms by (auto simp: pg_good_def)
  then have undo: "pg_state_ok (?st\<lparr>pt_depth := pt_depth ?st, pt_nextSpSeq := pt_nextSpSeq ?st, pt_parentSp := pt_parentSp ?st\<rparr>)"
    by (simp add: pg_state_ok_def)
  show ?thesis
    using ok undo assms(2) pg_state_push [OF ok(1), of False] OpBegin
    by (auto simp: PgTx_Begin_def pg_good_def Let_def split: prod.splits option.splits)
next
  case OpCommit
  obtain e w' where run: "PgTx_Commit d c w = (e, w')"
    by (cases "PgTx_Commit d c w")
  show ?thesis
  proof (cases "pg_level c w = 0")
    case True
    then show ?thesis using pg_tx.closed_refused [OF assms(1) True, of d] assms(1) OpCommit
      by (simp add: PgTransactionManager_def)
  next
    case False
    then show ?thesis using pg_commit_contract [OF assms(1) _ run] OpCommit run by simp
  qed
next
  case OpRollback
  obtain e w' where run: "PgTx_Rollback d c w = (e, w')"
    by (cases "PgTx_Rollback d c w")
  show ?thesis
  proof (cases "pg_level c w = 0")
    case True
    then show ?thesis using pg_tx.closed_refused [OF assms(1) True, of d] assms(1) OpRollback
      by (simp add: PgTransactionManager_def)
  next
    case False
    then show ?thesis using pg_rollback_contract [OF assms(1) _ run] OpRollback run by simp
  qed
qed

lemma pg_ops_good:
  "pg_good c w \<Longrightarrow> pg_tx_state c = Some a \<Longrightarrow> pg_good c (foldl (pg_op d c) w ops)"
  by (induction ops arbitrary: w) (simp_all add: pg_op_good)

text \<open>
  After any sequence of begins, commits and rollbacks, with any answers of the database, a
  PostgreSQL transaction has one savepoint number per open level, all different: a commit or a
  rollback of an open transaction always finds the number of its own savepoint.
\<close>

theorem pg_savepoints_wellformed:
  fixes ops d c w
  assumes "PgTx_Begin d c w = ((Some c', None), w')" "pg_tx_state c = None"
  defines "st \<equiv> pw_heap (foldl (pg_op d c') w' ops) ! length (pw_heap w)"
  shows "pt_depth st = int (length (pt_parentSp st)) \<and> distinct (pt_parentSp st) \<and>
         (0 < pt_depth st \<longrightarrow> pt_parentSp st \<noteq> [])"
proof -
  have "pg_good c w"
    using assms(2) by (simp add: pg_good_def)
  then have g: "pg_good c' w'"
    using pg_begin_contract assms(1) by blast
  have c': "pg_tx_state c' = Some (length (pw_heap w))"
    using assms(1,2) by (auto simp: PgTx_Begin_def split: sum.splits prod.splits)
  have "pg_state_ok st"
    using pg_ops_good [OF g c', of d ops] c' by (simp add: pg_good_def st_def)
  then show ?thesis
    by (auto simp: pg_state_ok_def strict_sorted_iff)
qed

text \<open>A database that grants everything and logs the statements.\<close>

definition logging_driver :: "string list pg_driver" where
  "logging_driver =
     \<lparr>pd_BeginTx = (\<lambda>l. (Inl 0, l @ [''BEGIN''])),
      pd_Exec = (\<lambda>tx stmt l. (None, l @ [stmt])),
      pd_Commit = (\<lambda>tx l. (None, l @ [''COMMIT''])),
      pd_Rollback = (\<lambda>tx l. (None, l @ [''ROLLBACK'']))\<rparr>"

theorem pg_savepoints_wellformed_witness:
  "\<exists>c' w' st. PgTx_Begin logging_driver ctx_Background \<lparr>pw_heap = [], pw_db = []\<rparr> = ((Some c', None), w') \<and>
     st = pw_heap (foldl (pg_op logging_driver c') w' [OpBegin, OpBegin, OpRollback]) ! 0 \<and>
     pt_depth st = int (length (pt_parentSp st)) \<and> distinct (pt_parentSp st)"
proof -
  let ?w = "\<lparr>pw_heap = [], pw_db = []\<rparr> :: string list pg_world"
  have n: "pg_tx_state ctx_Background = None"
    by (simp add: pg_tx_state_def ctx_Value_def ctx_Background_def)
  obtain c' w' where run: "PgTx_Begin logging_driver ctx_Background ?w = ((Some c', None), w')"
    by (simp add: PgTx_Begin_def n logging_driver_def)
  show ?thesis
    using pg_savepoints_wellformed [OF run n, of "[OpBegin, OpBegin, OpRollback]"] run by auto
qed

lemma logging_steps:
  assumes "pg_tx_state c = Some 0"
  shows "PgTx_Begin logging_driver c \<lparr>pw_heap = [\<lparr>pt_tx = 0, pt_depth = n, pt_aborted = ab, pt_nextSpSeq = k, pt_parentSp = ps\<rparr>], pw_db = l\<rparr> =
     ((Some c, None), \<lparr>pw_heap = [\<lparr>pt_tx = 0, pt_depth = n + 1, pt_aborted = False, pt_nextSpSeq = k + 1, pt_parentSp = ps @ [k + 1]\<rparr>],
       pw_db = l @ [''SAVEPOINT sp_'' @ show_int (k + 1)]\<rparr>)"
    and "1 < n \<Longrightarrow> PgTx_Rollback logging_driver c \<lparr>pw_heap = [\<lparr>pt_tx = 0, pt_depth = n, pt_aborted = ab, pt_nextSpSeq = k, pt_parentSp = ps\<rparr>], pw_db = l\<rparr> =
     (None, \<lparr>pw_heap = [\<lparr>pt_tx = 0, pt_depth = n - 1, pt_aborted = True, pt_nextSpSeq = k, pt_parentSp = butlast ps\<rparr>],
       pw_db = l @ [''ROLLBACK TO SAVEPOINT '' @ ''sp_'' @ show_int (last ps)]\<rparr>)"
    and "1 < n \<Longrightarrow> PgTx_Commit logging_driver c \<lparr>pw_heap = [\<lparr>pt_tx = 0, pt_depth = n, pt_aborted = False, pt_nextSpSeq = k, pt_parentSp = ps\<rparr>], pw_db = l\<rparr> =
     (None, \<lparr>pw_heap = [\<lparr>pt_tx = 0, pt_depth = n - 1, pt_aborted = False, pt_nextSpSeq = k, pt_parentSp = butlast ps\<rparr>],
       pw_db = l @ [''RELEASE SAVEPOINT '' @ ''sp_'' @ show_int (last ps)]\<rparr>)"
    and "PgTx_Commit logging_driver c \<lparr>pw_heap = [\<lparr>pt_tx = 0, pt_depth = 1, pt_aborted = ab, pt_nextSpSeq = k, pt_parentSp = ps\<rparr>], pw_db = l\<rparr> =
     (if ab then Some pg_tx_aborted else None,
      \<lparr>pw_heap = [\<lparr>pt_tx = 0, pt_depth = 0, pt_aborted = ab, pt_nextSpSeq = k, pt_parentSp = butlast ps\<rparr>],
       pw_db = l @ [if ab then ''ROLLBACK'' else ''COMMIT'']\<rparr>)"
  by (simp_all add: PgTx_Begin_def PgTx_Commit_def PgTx_Rollback_def logging_driver_def pg_set_def assms Let_def)

lemma logging_first:
  "PgTx_Begin logging_driver ctx_Background \<lparr>pw_heap = [], pw_db = []\<rparr> =
     ((Some (ctx_WithValue ctx_Background PgTxKey (VTx 0)), None),
      \<lparr>pw_heap = [\<lparr>pt_tx = 0, pt_depth = 1, pt_aborted = False, pt_nextSpSeq = 1, pt_parentSp = [1]\<rparr>], pw_db = [''BEGIN'']\<rparr>)"
  by (simp add: PgTx_Begin_def logging_driver_def pg_tx_state_def ctx_Value_def ctx_Background_def)

text \<open>
  The PostgreSQL manager forgets an inner rollback when another inner transaction begins: the
  outer commit then goes through, while in the other order, and always with the in-memory manager,
  the outer transaction fails.
\<close>

theorem pg_abort_forgotten:
  fixes w :: "string list pg_world"
  defines "w \<equiv> \<lparr>pw_heap = [], pw_db = []\<rparr>"
    and "rolled_then_committed \<equiv> TxNode [TxNode [] False, TxNode [] True] True"
    and "committed_then_rolled \<equiv> TxNode [TxNode [] True, TxNode [] False] True"
  shows "fst (run_tree (PgTransactionManager logging_driver) rolled_then_committed ctx_Background w) = None \<and>
         fst (run_tree (PgTransactionManager logging_driver) committed_then_rolled ctx_Background w) = Some pg_tx_aborted \<and>
         fst (run_tree MemoryTransactionManager rolled_then_committed ctx_Background []) = Some mem_tx_aborted"
proof -
  have n: "mem_tx_state ctx_Background = None"
    by (simp add: mem_tx_state_def ctx_Value_def ctx_Background_def)
  have tm: "tm_Begin (PgTransactionManager logging_driver) = PgTx_Begin logging_driver"
    "tm_Commit (PgTransactionManager logging_driver) = PgTx_Commit logging_driver"
    "tm_Rollback (PgTransactionManager logging_driver) = PgTx_Rollback logging_driver"
    by (simp_all add: PgTransactionManager_def)
  show ?thesis
  proof (intro conjI)
    show "fst (run_tree (PgTransactionManager logging_driver) rolled_then_committed ctx_Background w) = None"
      by (simp add: w_def rolled_then_committed_def tm logging_first logging_steps Let_def)
    show "fst (run_tree (PgTransactionManager logging_driver) committed_then_rolled ctx_Background w) = Some pg_tx_aborted"
      by (simp add: w_def committed_then_rolled_def tm logging_first logging_steps Let_def)
    show "fst (run_tree MemoryTransactionManager rolled_then_committed ctx_Background []) = Some mem_tx_aborted"
      by (simp add: rolled_then_committed_def mem_tx_defs n)
  qed
qed

end
