(* ===== verification/BuiltinAspects.thy ===== *)
theory BuiltinAspects
  imports AspectChain GoContext MessageBus
begin

text \<open>
  The logging and metrics aspects of \<open>aspect/builtin\<close> (\<open>logging.go\<close>, \<open>metrics.go\<close>,
  \<open>default_logger.go\<close>) and the in-memory metrics recorder.  Messages are \<open>'d goany\<close> values, and
  the text of their type (\<open>%T\<close>) is \<open>type_text\<close> of the dynamic type.
\<close>

subsection \<open>Logging\<close>

datatype log_level = LInfo | LError | LDebug

datatype log_arg = LText string string | LErr string go_error | LDur string duration

text \<open>A \<open>Logger\<close>: what a log call does to the world.\<close>

type_synonym 's logger = "log_level \<Rightarrow> string \<Rightarrow> log_arg list \<Rightarrow> 's \<Rightarrow> 's"

definition pct_T :: "'d goany \<Rightarrow> string" where
  "pct_T v = type_text (type_of v)"

definition log_before :: "'s logger \<Rightarrow> string \<Rightarrow> string \<Rightarrow> go_ctx \<Rightarrow> 'd goany \<Rightarrow> ('s, go_ctx \<times> go_error option) prog" where
  "log_before lg msg attr ctx m s = (Ret (ctx, None), lg LDebug msg [LText attr (pct_T m)] s)"

definition log_after ::
    "'s logger \<Rightarrow> string \<Rightarrow> string \<Rightarrow> string \<Rightarrow> go_ctx \<Rightarrow> 'd goany \<Rightarrow> go_error option \<Rightarrow> duration \<Rightarrow> ('s, go_error option) prog" where
  "log_after lg failed msg attr ctx m err d s =
     (Ret None,
      case err of
        Some e \<Rightarrow> lg LError failed [LText attr (pct_T m), LErr ''error'' e, LDur ''duration'' d] s
      | None \<Rightarrow> lg LDebug msg [LText attr (pct_T m), LDur ''duration'' d] s)"

definition LoggingAspect :: "'s logger \<Rightarrow> ('s, go_ctx, 'd goany, 'v) aspect_value" where
  "LoggingAspect lg =
     \<lparr>as_command = Some \<lparr>asp_name = ''logging'', asp_order = 50,
        asp_before = log_before lg ''BeforeCommand'' ''type'',
        asp_after = (\<lambda>ctx m result. log_after lg ''AfterCommand failed'' ''AfterCommand'' ''type'' ctx m)\<rparr>,
      as_query = Some \<lparr>asp_name = ''logging'', asp_order = 50,
        asp_before = log_before lg ''BeforeQuery'' ''type'',
        asp_after = (\<lambda>ctx m result. log_after lg ''AfterQuery failed'' ''AfterQuery'' ''type'' ctx m)\<rparr>,
      as_event = Some \<lparr>evt_name = ''logging'', evt_order = 50,
        evt_before = log_before lg ''BeforePublish'' ''event'',
        evt_after = log_after lg ''AfterPublish failed'' ''AfterPublish'' ''event''\<rparr>\<rparr>"

text \<open>\<open>StdLogger\<close>: a line is its level, its message and its attributes, those of \<open>With\<close> first.\<close>

record log_line =
  ll_level :: log_level
  ll_msg :: string
  ll_attrs :: "log_arg list"

definition StdLogger_WithContext :: "go_ctx \<Rightarrow> log_arg list" where
  "StdLogger_WithContext ctx =
     (if GetTraceID ctx \<noteq> [] then [LText ''trace_id'' (GetTraceID ctx)] else []) @
     (if GetSpanID ctx \<noteq> [] then [LText ''span_id'' (GetSpanID ctx)] else [])"

definition StdLogger_LogCommand :: "go_ctx \<Rightarrow> string \<Rightarrow> duration \<Rightarrow> go_error option \<Rightarrow> log_line" where
  "StdLogger_LogCommand ctx name d err =
     (let attrs = StdLogger_WithContext ctx @ [LText ''command'' name, LDur ''duration_ms'' (go_div d 1000000)]
      in case err of
           Some e \<Rightarrow> \<lparr>ll_level = LError, ll_msg = ''command failed'', ll_attrs = attrs @ [LText ''error'' (error_text e)]\<rparr>
         | None \<Rightarrow> \<lparr>ll_level = LInfo, ll_msg = ''command executed'', ll_attrs = attrs\<rparr>)"

definition StdLogger_LogQuery :: "go_ctx \<Rightarrow> string \<Rightarrow> duration \<Rightarrow> go_error option \<Rightarrow> log_line" where
  "StdLogger_LogQuery ctx name d err =
     (let attrs = StdLogger_WithContext ctx @ [LText ''query'' name, LDur ''duration_ms'' (go_div d 1000000)]
      in case err of
           Some e \<Rightarrow> \<lparr>ll_level = LError, ll_msg = ''query failed'', ll_attrs = attrs @ [LText ''error'' (error_text e)]\<rparr>
         | None \<Rightarrow> \<lparr>ll_level = LInfo, ll_msg = ''query executed'', ll_attrs = attrs\<rparr>)"

definition StdLogger_LogEvent :: "go_ctx \<Rightarrow> string \<Rightarrow> go_error option \<Rightarrow> log_line" where
  "StdLogger_LogEvent ctx name err =
     (let attrs = StdLogger_WithContext ctx @ [LText ''event'' name]
      in case err of
           Some e \<Rightarrow> \<lparr>ll_level = LError, ll_msg = ''event publish failed'', ll_attrs = attrs @ [LText ''error'' (error_text e)]\<rparr>
         | None \<Rightarrow> \<lparr>ll_level = LInfo, ll_msg = ''event published'', ll_attrs = attrs\<rparr>)"

subsection \<open>The in-memory metrics recorder\<close>

record metricsData =
  md_durations :: "(string, duration list) gomap"
  md_errorCounts :: "(string, int) gomap"
  md_totalCounts :: "(string, int) gomap"

definition NewInMemMetricsRecorder :: metricsData where
  "NewInMemMetricsRecorder = \<lparr>md_durations = [], md_errorCounts = [], md_totalCounts = []\<rparr>"

definition metrics_RecordDuration :: "string \<Rightarrow> duration \<Rightarrow> metricsData \<Rightarrow> metricsData" where
  "metrics_RecordDuration name d m =
     m\<lparr>md_durations := gm_put (md_durations m) name (gm_or (md_durations m) name [] @ [d]),
       md_totalCounts := gm_put (md_totalCounts m) name (wrap64 (gm_or (md_totalCounts m) name 0 + 1))\<rparr>"

definition metrics_RecordError :: "string \<Rightarrow> go_error \<Rightarrow> metricsData \<Rightarrow> metricsData" where
  "metrics_RecordError name err m =
     m\<lparr>md_errorCounts := gm_put (md_errorCounts m) name (wrap64 (gm_or (md_errorCounts m) name 0 + 1)),
       md_totalCounts := gm_put (md_totalCounts m) name (wrap64 (gm_or (md_totalCounts m) name 0 + 1))\<rparr>"

definition metrics_GetDurations :: "metricsData \<Rightarrow> string \<Rightarrow> duration list" where
  "metrics_GetDurations m name = gm_or (md_durations m) name []"

definition metrics_GetErrorCount :: "metricsData \<Rightarrow> string \<Rightarrow> int" where
  "metrics_GetErrorCount m name = gm_or (md_errorCounts m) name 0"

definition metrics_GetTotalCount :: "metricsData \<Rightarrow> string \<Rightarrow> int" where
  "metrics_GetTotalCount m name = gm_or (md_totalCounts m) name 0"

definition metrics_GetAverageDuration :: "metricsData \<Rightarrow> string \<Rightarrow> duration" where
  "metrics_GetAverageDuration m name =
     (let durations = gm_or (md_durations m) name []
      in if durations = [] then 0
         else go_div (foldl (\<lambda>total d. wrap64 (total + d)) 0 durations) (int (length durations)))"

definition metrics_Reset :: "metricsData \<Rightarrow> metricsData" where
  "metrics_Reset m = \<lparr>md_durations = [], md_errorCounts = [], md_totalCounts = []\<rparr>"

subsection \<open>The metrics aspect\<close>

text \<open>A \<open>MetricsRecorder\<close>: what its two operations do to the world.\<close>

record ('s) metrics_recorder =
  mr_RecordDuration :: "string \<Rightarrow> duration \<Rightarrow> 's \<Rightarrow> 's"
  mr_RecordError :: "string \<Rightarrow> go_error \<Rightarrow> 's \<Rightarrow> 's"

definition InMemMetricsRecorder :: "metricsData metrics_recorder" where
  "InMemMetricsRecorder =
     \<lparr>mr_RecordDuration = metrics_RecordDuration, mr_RecordError = metrics_RecordError\<rparr>"

definition metrics_after ::
    "'s metrics_recorder \<Rightarrow> string \<Rightarrow> 'd goany \<Rightarrow> go_error option \<Rightarrow> duration \<Rightarrow> ('s, go_error option) prog" where
  "metrics_after r kind m err d s =
     (let name = kind @ pct_T m;
          s1 = mr_RecordDuration r name d s
      in (Ret None, case err of Some e \<Rightarrow> mr_RecordError r name e s1 | None \<Rightarrow> s1))"

definition MetricsAspect :: "'s metrics_recorder \<Rightarrow> ('s, go_ctx, 'd goany, 'v) aspect_value" where
  "MetricsAspect r =
     \<lparr>as_command = Some \<lparr>asp_name = ''metrics'', asp_order = 100,
        asp_before = (\<lambda>ctx m s. (Ret (ctx, None), s)),
        asp_after = (\<lambda>ctx m result. metrics_after r ''Command/'' m)\<rparr>,
      as_query = Some \<lparr>asp_name = ''metrics'', asp_order = 100,
        asp_before = (\<lambda>ctx m s. (Ret (ctx, None), s)),
        asp_after = (\<lambda>ctx m result. metrics_after r ''Query/'' m)\<rparr>,
      as_event = Some \<lparr>evt_name = ''metrics'', evt_order = 100,
        evt_before = (\<lambda>ctx m s. (Ret (ctx, None), s)),
        evt_after = (\<lambda>ctx. metrics_after r ''Event/'')\<rparr>\<rparr>"

subsection \<open>What a metrics recorder promises, and what the aspect makes of it\<close>

locale recorder =
  fixes r :: "'s metrics_recorder"
    and durs :: "'s \<Rightarrow> string \<Rightarrow> duration list"
    and errs :: "'s \<Rightarrow> string \<Rightarrow> int"
  assumes durs_duration: "durs (mr_RecordDuration r n d s) n' = (if n' = n then durs s n' @ [d] else durs s n')"
    and durs_error: "durs (mr_RecordError r n e s) n' = durs s n'"
    and errs_duration: "errs (mr_RecordDuration r n d s) n' = errs s n'"
    and errs_error: "errs (mr_RecordError r n e s) n' = (if n' = n then wrap64 (errs s n' + 1) else errs s n')"
begin

lemma after_records:
  assumes "metrics_after r kind m err d s = (o1, s')"
  shows "o1 = Ret None \<and>
         durs s' n = durs s n @ (if n = kind @ pct_T m then [d] else []) \<and>
         errs s' n = (if n = kind @ pct_T m \<and> err \<noteq> None then wrap64 (errs s n + 1) else errs s n)"
  using assms by (auto simp: metrics_after_def Let_def durs_duration durs_error errs_duration errs_error split: option.splits)

lemma layer_records:
  assumes "aspect_layer (\<lambda>s. (now s, s)) m (the (as_command (MetricsAspect r))) inner ctx s = (Ret (res, err), s')"
  shows "\<exists>s2. inner ctx s = (Ret (res, err), s2) \<and>
         durs s' (''Command/'' @ pct_T m) = durs s2 (''Command/'' @ pct_T m) @ [now s2 - now s] \<and>
         errs s' (''Command/'' @ pct_T m) =
           (if err = None then errs s2 (''Command/'' @ pct_T m) else wrap64 (errs s2 (''Command/'' @ pct_T m) + 1))"
proof -
  obtain s2 err2 ae where run: "inner ctx s = (Ret (res, err2), s2)"
    "metrics_after r ''Command/'' m err2 (now s2 - now s) s2 = (Ret ae, s')" "err = join_after err2 ae"
    using assms by (auto simp: aspect_layer_Ret MetricsAspect_def)
  from after_records [OF run(2), of "''Command/'' @ pct_T m"] have "ae = None"
    by simp
  with run have "err = err2"
    by (simp add: join_after_def)
  with run after_records [OF run(2), of "''Command/'' @ pct_T m"] show ?thesis by auto
qed

end

subsection \<open>The in-memory recorder provides it\<close>

lemmas metrics_defs = metrics_RecordDuration_def metrics_RecordError_def metrics_GetDurations_def
  metrics_GetErrorCount_def metrics_GetTotalCount_def

interpretation inmem: recorder InMemMetricsRecorder metrics_GetDurations metrics_GetErrorCount
  by unfold_locales (auto simp: InMemMetricsRecorder_def metrics_defs)

text \<open>
  A command that runs inside the metrics aspect over the in-memory recorder, with its error and
  result unchanged, adds its elapsed time to the durations of its name and one error exactly if it
  failed; the operation's own world changes are kept.
\<close>

theorem metrics_aspect_records:
  assumes "aspect_layer (\<lambda>s. (now s, s)) m (the (as_command (MetricsAspect InMemMetricsRecorder))) inner ctx s = (Ret (res, err), s')"
  defines "name \<equiv> ''Command/'' @ type_text (type_of m)"
  shows "\<exists>s2. inner ctx s = (Ret (res, err), s2) \<and>
         metrics_GetDurations s' name = metrics_GetDurations s2 name @ [now s2 - now s] \<and>
         metrics_GetErrorCount s' name =
           (if err = None then metrics_GetErrorCount s2 name else wrap64 (metrics_GetErrorCount s2 name + 1))"
  using inmem.layer_records [OF assms(1)] unfolding name_def pct_T_def .

theorem metrics_aspect_records_witness:
  "\<exists>s'. aspect_layer (\<lambda>s. (5, s)) (GAny (TNamed ''app'' ''Pay'') ()) (the (as_command (MetricsAspect InMemMetricsRecorder)))
      (\<lambda>ctx s. (Ret (RNil :: nat retval, Some ErrNotFound), s)) ctx_Background NewInMemMetricsRecorder =
      (Ret (RNil, Some ErrNotFound), s') \<and>
    metrics_GetDurations s' ''Command/app.Pay'' = [0] \<and> metrics_GetErrorCount s' ''Command/app.Pay'' = 1"
proof -
  let ?run = "aspect_layer (\<lambda>s. (5, s)) (GAny (TNamed ''app'' ''Pay'') ()) (the (as_command (MetricsAspect InMemMetricsRecorder)))
      (\<lambda>ctx s. (Ret (RNil :: nat retval, Some ErrNotFound), s)) ctx_Background NewInMemMetricsRecorder"
  obtain s' where run: "?run = (Ret (RNil, Some ErrNotFound), s')"
    by (simp add: aspect_layer_def MetricsAspect_def metrics_after_def join_after_def Let_def)
  then show ?thesis
    using metrics_aspect_records [of "\<lambda>s. 5", OF run]
    by (auto simp: type_text_def metrics_defs NewInMemMetricsRecorder_def wrap64_def)
qed

subsection \<open>Counts and averages\<close>

datatype metrics_op = MDuration string duration | MError string go_error | MReset

fun metrics_step :: "metricsData \<Rightarrow> metrics_op \<Rightarrow> metricsData" where
  "metrics_step m (MDuration n d) = metrics_RecordDuration n d m"
| "metrics_step m (MError n e) = metrics_RecordError n e m"
| "metrics_step m MReset = metrics_Reset m"

text \<open>The operations after the last reset.\<close>

definition since_reset :: "metrics_op list \<Rightarrow> metrics_op list" where
  "since_reset ops = foldl (\<lambda>acc x. if x = MReset then [] else acc @ [x]) [] ops"

definition durations_of :: "string \<Rightarrow> metrics_op list \<Rightarrow> duration list" where
  "durations_of n ops = concat (map (\<lambda>x. case x of MDuration n' d \<Rightarrow> if n' = n then [d] else [] | _ \<Rightarrow> []) ops)"

definition errors_of :: "string \<Rightarrow> metrics_op list \<Rightarrow> nat" where
  "errors_of n ops = length (filter (\<lambda>x. case x of MError n' e \<Rightarrow> n' = n | _ \<Rightarrow> False) ops)"

lemma metrics_spec_snoc:
  "since_reset [] = []" "since_reset (ops @ [x]) = (if x = MReset then [] else since_reset ops @ [x])"
  "durations_of n [] = []" "durations_of n (ops @ [x]) = durations_of n ops @ durations_of n [x]"
  "errors_of n [] = 0" "errors_of n (ops @ [x]) = errors_of n ops + errors_of n [x]"
  by (simp_all add: since_reset_def durations_of_def errors_of_def)

lemma metrics_spec_one:
  "durations_of n [MDuration n' d] = (if n' = n then [d] else [])" "durations_of n [MError n' e] = []"
  "errors_of n [MDuration n' d] = 0" "errors_of n [MError n' e] = (if n' = n then 1 else 0)"
  by (simp_all add: durations_of_def errors_of_def)

lemma wrap64_add_right: "wrap64 (y + wrap64 x) = wrap64 (y + x)"
  using wrap64_add [of x y] by (simp add: add.commute)

lemma wrap64_sum: "foldl (\<lambda>total d. wrap64 (total + d)) (wrap64 t) ds = wrap64 (t + sum_list ds)"
proof (induction ds arbitrary: t)
  case (Cons d ds)
  then show ?case using Cons.IH [of "t + d"] by (simp add: wrap64_add add.assoc)
qed simp

text \<open>
  After any sequence of operations the recorder holds, for every name, exactly the durations
  recorded since the last reset, in order; its error count and its total count are the numbers of
  errors, and of durations and errors together, modulo the 64-bit width.
\<close>

theorem metrics_counts:
  fixes ops n
  defines "m \<equiv> foldl metrics_step NewInMemMetricsRecorder ops" and "last_ops \<equiv> since_reset ops"
  shows "metrics_GetDurations m n = durations_of n last_ops \<and>
         metrics_GetErrorCount m n = wrap64 (int (errors_of n last_ops)) \<and>
         metrics_GetTotalCount m n = wrap64 (int (length (durations_of n last_ops) + errors_of n last_ops))"
  unfolding m_def last_ops_def
proof (induction ops rule: rev_induct)
  case Nil
  show ?case by (simp add: metrics_spec_snoc metrics_defs NewInMemMetricsRecorder_def wrap64_def)
next
  case (snoc x ops)
  show ?case
  proof (cases x)
    case MReset
    then show ?thesis
      by (simp add: metrics_spec_snoc metrics_defs metrics_Reset_def wrap64_def)
  next
    case (MDuration n' d)
    with snoc show ?thesis
      by (auto simp: metrics_spec_snoc metrics_spec_one metrics_defs wrap64_add_right ac_simps)
  next
    case (MError n' e)
    with snoc show ?thesis
      by (auto simp: metrics_spec_snoc metrics_spec_one metrics_defs wrap64_add_right ac_simps)
  qed
qed

text \<open>
  The average lies between the least and the greatest recorded duration whenever the true sum
  of the durations fits in 64 bits; it is 0 without durations.
\<close>

theorem metrics_average_bounds:
  assumes "metrics_GetDurations m n = ds" "ds \<noteq> []" "\<forall>d\<in>set ds. lo \<le> d \<and> d \<le> hi"
    and "- (2 ^ 63) \<le> sum_list ds" "sum_list ds < 2 ^ 63"
  shows "lo \<le> metrics_GetAverageDuration m n \<and> metrics_GetAverageDuration m n \<le> hi"
proof -
  have len: "0 < int (length ds)"
    using assms(2) by simp
  have "lo * int (length ds) \<le> sum_list ds \<and> sum_list ds \<le> hi * int (length ds)"
    using assms(3) by (induction ds) (auto simp: algebra_simps)
  moreover have "metrics_GetAverageDuration m n = go_div (sum_list ds) (int (length ds))"
    using assms(1,2) wrap64_sum [of 0 ds] wrap64_id [OF assms(4,5)]
    by (simp add: metrics_GetAverageDuration_def metrics_GetDurations_def Let_def wrap64_id)
  ultimately show ?thesis using go_div_between [OF len, of lo "sum_list ds" hi] by (simp only:)
qed

theorem metrics_average_bounds_witness:
  "3 \<le> metrics_GetAverageDuration (metrics_RecordDuration ''x'' 3 (metrics_RecordDuration ''x'' 8 NewInMemMetricsRecorder)) ''x'' \<and>
   metrics_GetAverageDuration (metrics_RecordDuration ''x'' 3 (metrics_RecordDuration ''x'' 8 NewInMemMetricsRecorder)) ''x'' \<le> 8"
  by (rule metrics_average_bounds [of _ _ "[8, 3]"]) (simp_all add: metrics_defs NewInMemMetricsRecorder_def)

end
