(* ===== verification/TraceStore.thy ===== *)
theory TraceStore
  imports AspectChain GoContext
begin

text \<open>
  The in-memory trace store, \<open>trace/store.go\<close>, and the tracing aspect that fills it,
  \<open>aspect/builtin/tracing.go\<close>.

  The abstract view of the store is the list of its spans; the index by trace is redundant, and
  the invariant \<open>ts_ok\<close> says how.
\<close>

record TraceFilter =
  tf_TraceID :: string
  tf_Type :: "span_type option"
  tf_Status :: "span_status option"
  tf_StartTime :: time
  tf_EndTime :: time
  tf_NameContains :: string

record InMemoryTraceStore =
  ts_spans :: "span list"
  ts_traceIndex :: "(string, nat list) gomap"
  ts_ttl :: duration
  ts_maxSpans :: int
  ts_stopped :: bool

definition defaultTTL :: duration where
  "defaultTTL = 24 * 3600 * 1000000000"

datatype trace_store_option = WithTTL duration | WithMaxSpans int

fun ts_apply_option :: "InMemoryTraceStore \<Rightarrow> trace_store_option \<Rightarrow> InMemoryTraceStore" where
  "ts_apply_option s (WithTTL ttl) = s\<lparr>ts_ttl := ttl\<rparr>"
| "ts_apply_option s (WithMaxSpans n) = s\<lparr>ts_maxSpans := n\<rparr>"

definition NewInMemoryTraceStore :: "trace_store_option list \<Rightarrow> InMemoryTraceStore" where
  "NewInMemoryTraceStore opts = foldl ts_apply_option
     \<lparr>ts_spans = [], ts_traceIndex = [], ts_ttl = defaultTTL, ts_maxSpans = 10000, ts_stopped = False\<rparr> opts"

definition ts_Close :: "InMemoryTraceStore \<Rightarrow> InMemoryTraceStore" where
  "ts_Close s = (if ts_stopped s then s else s\<lparr>ts_stopped := True\<rparr>)"

subsection \<open>Recording and eviction\<close>

text \<open>The first loop of \<open>evict\<close>: the number of leading spans that started before the cutoff.\<close>

fun count_expired :: "time \<Rightarrow> span list \<Rightarrow> nat" where
  "count_expired cutoff [] = 0"
| "count_expired cutoff (sp # sps) = (if sp_StartedAt sp < cutoff then Suc (count_expired cutoff sps) else 0)"

text \<open>\<open>rebuildIndex\<close>: the loop, from position \<open>i\<close> on.\<close>

fun rebuild_from :: "nat \<Rightarrow> span list \<Rightarrow> (string, nat list) gomap \<Rightarrow> (string, nat list) gomap" where
  "rebuild_from i [] idx = idx"
| "rebuild_from i (sp # sps) idx =
     rebuild_from (Suc i) sps (gm_put idx (sp_TraceID sp) (gm_or idx (sp_TraceID sp) [] @ [i]))"

definition rebuildIndex :: "InMemoryTraceStore \<Rightarrow> InMemoryTraceStore" where
  "rebuildIndex s = s\<lparr>ts_traceIndex := rebuild_from 0 (ts_spans s) []\<rparr>"

definition ts_evict :: "time \<Rightarrow> InMemoryTraceStore \<Rightarrow> InMemoryTraceStore outcome" where
  "ts_evict now s =
     (let cutoff = now - ts_ttl s;
          expired = int (count_expired cutoff (ts_spans s));
          len = int (length (ts_spans s));
          firstValid = (if ts_maxSpans s < len - expired then len - ts_maxSpans s else expired)
      in if 0 < firstValid
         then out_bind (slice_from firstValid (ts_spans s)) (\<lambda>sps. Ret (rebuildIndex (s\<lparr>ts_spans := sps\<rparr>)))
         else Ret s)"

definition ts_RecordSpan :: "time \<Rightarrow> span \<Rightarrow> InMemoryTraceStore \<Rightarrow> InMemoryTraceStore outcome" where
  "ts_RecordSpan now sp s =
     (let idx = length (ts_spans s);
          s1 = s\<lparr>ts_spans := ts_spans s @ [sp],
                 ts_traceIndex := gm_put (ts_traceIndex s) (sp_TraceID sp) (gm_or (ts_traceIndex s) (sp_TraceID sp) [] @ [idx])\<rparr>
      in ts_evict now s1)"

subsection \<open>Queries\<close>

definition ts_GetTrace :: "InMemoryTraceStore \<Rightarrow> string \<Rightarrow> go_error + span list" where
  "ts_GetTrace s traceID =
     (case gm_get (ts_traceIndex s) traceID of
        None \<Rightarrow> Inl (ErrWrap (''trace '' @ traceID @ '': '') ErrNotFound [])
      | Some indexes \<Rightarrow> Inr (map (\<lambda>i. ts_spans s ! i) indexes))"

definition matchesFilter :: "span list \<Rightarrow> TraceFilter \<Rightarrow> bool" where
  "matchesFilter spans f \<longleftrightarrow>
     \<not> (tf_TraceID f \<noteq> [] \<and> \<not> list_ex (\<lambda>s. sp_TraceID s = tf_TraceID f) spans) \<and>
     \<not> (tf_Type f \<noteq> None \<and> \<not> list_ex (\<lambda>s. Some (sp_Type s) = tf_Type f) spans) \<and>
     \<not> (tf_Status f \<noteq> None \<and> \<not> list_ex (\<lambda>s. Some (sp_Status s) = tf_Status f) spans) \<and>
     \<not> (tf_StartTime f \<noteq> 0 \<and> \<not> list_ex (\<lambda>s. \<not> sp_StartedAt s < tf_StartTime f) spans) \<and>
     \<not> (tf_EndTime f \<noteq> 0 \<and> \<not> list_ex (\<lambda>s. \<not> tf_EndTime f < sp_StartedAt s) spans) \<and>
     \<not> (tf_NameContains f \<noteq> [] \<and> \<not> list_ex (\<lambda>s. str_contains (sp_Name s) (tf_NameContains f)) spans)"

definition ts_ListTraces :: "InMemoryTraceStore \<Rightarrow> TraceFilter \<Rightarrow> string list" where
  "ts_ListTraces s f =
     map fst (filter (\<lambda>(traceID, indexes).
        \<not> (tf_TraceID f \<noteq> [] \<and> traceID \<noteq> tf_TraceID f) \<and>
        matchesFilter (map (\<lambda>i. ts_spans s ! i) indexes) f) (ts_traceIndex s))"

subsection \<open>The index is the index of the spans\<close>

definition positions_of :: "string \<Rightarrow> span list \<Rightarrow> nat list" where
  "positions_of t sps = filter (\<lambda>i. sp_TraceID (sps ! i) = t) [0..<length sps]"

definition index_of :: "span list \<Rightarrow> (string, nat list) gomap \<Rightarrow> bool" where
  "index_of sps idx \<longleftrightarrow> gm_ok idx \<and>
     (\<forall>t. gm_get idx t = (if positions_of t sps = [] then None else Some (positions_of t sps)))"

definition ts_ok :: "InMemoryTraceStore \<Rightarrow> bool" where
  "ts_ok s \<longleftrightarrow> index_of (ts_spans s) (ts_traceIndex s)"

lemma positions_Nil [simp]: "positions_of t [] = []"
  by (simp add: positions_of_def)

lemma positions_snoc:
  "positions_of t (sps @ [sp]) = positions_of t sps @ (if sp_TraceID sp = t then [length sps] else [])"
proof -
  have "filter (\<lambda>i. sp_TraceID ((sps @ [sp]) ! i) = t) [0..<length sps] =
        filter (\<lambda>i. sp_TraceID (sps ! i) = t) [0..<length sps]"
    by (rule filter_cong) (simp_all add: nth_append)
  then show ?thesis by (simp add: positions_of_def)
qed

lemma index_snoc:
  assumes "index_of sps idx"
  shows "index_of (sps @ [sp]) (gm_put idx (sp_TraceID sp) (gm_or idx (sp_TraceID sp) [] @ [length sps]))"
  using assms by (auto simp: index_of_def positions_snoc)

lemma rebuild_from_index:
  "index_of pre idx \<Longrightarrow> index_of (pre @ sps) (rebuild_from (length pre) sps idx)"
proof (induction sps arbitrary: pre idx)
  case (Cons sp sps)
  show ?case using Cons.IH [OF index_snoc [OF Cons.prems, of sp]] by simp
qed simp

lemma index_Nil [simp]: "index_of [] []"
  by (simp add: index_of_def)

lemma ts_ok_rebuild [simp]: "ts_ok (rebuildIndex s)"
  using rebuild_from_index [OF index_Nil, of "ts_spans s"] by (simp add: ts_ok_def rebuildIndex_def)

lemma positions_map: "map (\<lambda>i. sps ! i) (positions_of t sps) = filter (\<lambda>sp. sp_TraceID sp = t) sps"
proof -
  have "filter (\<lambda>sp. sp_TraceID sp = t) (map (\<lambda>i. sps ! i) [0..<length sps]) =
        map (\<lambda>i. sps ! i) (positions_of t sps)"
    by (simp add: filter_map o_def positions_of_def)
  then show ?thesis by (simp add: map_nth)
qed

lemma positions_empty: "positions_of t sps = [] \<longleftrightarrow> t \<notin> sp_TraceID ` set sps"
proof -
  have "positions_of t sps = [] \<longleftrightarrow> filter (\<lambda>sp. sp_TraceID sp = t) sps = []"
    using positions_map [of sps t] by (metis map_is_Nil_conv)
  then show ?thesis by (auto simp: filter_empty_conv)
qed

lemma rebuildIndex_fields [simp]:
  "ts_spans (rebuildIndex s) = ts_spans s" "ts_ttl (rebuildIndex s) = ts_ttl s"
  "ts_maxSpans (rebuildIndex s) = ts_maxSpans s"
  by (simp_all add: rebuildIndex_def)

text \<open>The spans that eviction keeps.\<close>

definition keep_spans :: "time \<Rightarrow> duration \<Rightarrow> int \<Rightarrow> span list \<Rightarrow> span list" where
  "keep_spans now ttl maxSpans sps =
     (let fresh = dropWhile (\<lambda>sp. sp_StartedAt sp < now - ttl) sps
      in if maxSpans < int (length fresh) then drop (length fresh - nat maxSpans) fresh else fresh)"

lemma count_expired_drop:
  "drop (count_expired c sps) sps = dropWhile (\<lambda>sp. sp_StartedAt sp < c) sps"
  "count_expired c sps = length sps - length (dropWhile (\<lambda>sp. sp_StartedAt sp < c) sps)"
  "count_expired c sps \<le> length sps"
  by (induction sps) (auto simp: Suc_diff_le length_dropWhile_le)

lemma ts_evict_spans:
  assumes "0 \<le> ts_maxSpans s" "ts_ok s"
  obtains s' where "ts_evict now s = Ret s'" "ts_ok s'"
    "ts_spans s' = keep_spans now (ts_ttl s) (ts_maxSpans s) (ts_spans s)"
    "ts_ttl s' = ts_ttl s" "ts_maxSpans s' = ts_maxSpans s"
proof -
  let ?c = "now - ts_ttl s"
  let ?k = "count_expired ?c (ts_spans s)"
  let ?fresh = "dropWhile (\<lambda>sp. sp_StartedAt sp < ?c) (ts_spans s)"
  have fresh: "drop ?k (ts_spans s) = ?fresh" and k: "?k \<le> length (ts_spans s)"
    using count_expired_drop by blast+
  have len: "length ?fresh = length (ts_spans s) - ?k"
    using fresh by (metis length_drop)
  let ?fv = "if ts_maxSpans s < int (length (ts_spans s)) - int ?k then int (length (ts_spans s)) - ts_maxSpans s else int ?k"
  have fv: "0 \<le> ?fv" "?fv \<le> int (length (ts_spans s))" "?k \<le> nat ?fv"
    using assms(1) k by auto
  have "drop (nat ?fv) (ts_spans s) = drop (nat ?fv - ?k) ?fresh"
    unfolding fresh [symmetric] drop_drop using fv(3) by simp
  also have "\<dots> = keep_spans now (ts_ttl s) (ts_maxSpans s) (ts_spans s)"
    using len k assms(1) by (auto simp: keep_spans_def Let_def of_nat_diff nat_diff_distrib intro!: arg_cong2 [where f = drop])
  finally have keep: "drop (nat ?fv) (ts_spans s) = keep_spans now (ts_ttl s) (ts_maxSpans s) (ts_spans s)" .
  obtain n where n: "n = nat ?fv" "drop n (ts_spans s) = keep_spans now (ts_ttl s) (ts_maxSpans s) (ts_spans s)"
    using keep by blast
  show thesis
  proof (cases "0 < ?fv")
    case True
    then have run: "ts_evict now s = Ret (rebuildIndex (s\<lparr>ts_spans := drop n (ts_spans s)\<rparr>))"
      using fv by (simp add: ts_evict_def slice_from_def Let_def n(1))
    show thesis by (rule that [OF run]) (simp_all add: n(2))
  next
    case False
    then have run: "ts_evict now s = Ret s" "n = 0"
      using fv(1) by (auto simp: ts_evict_def Let_def n(1))
    show thesis by (rule that [OF run(1) assms(2)]) (use n(2) run(2) in simp_all)
  qed
qed

subsection \<open>Histories of the store\<close>

fun ts_run :: "InMemoryTraceStore \<Rightarrow> (time \<times> span) list \<Rightarrow> InMemoryTraceStore outcome" where
  "ts_run s [] = Ret s"
| "ts_run s ((now, sp) # recs) = out_bind (ts_RecordSpan now sp s) (\<lambda>s1. ts_run s1 recs)"

fun kept_spans :: "duration \<Rightarrow> int \<Rightarrow> span list \<Rightarrow> (time \<times> span) list \<Rightarrow> span list" where
  "kept_spans ttl maxSpans sps [] = sps"
| "kept_spans ttl maxSpans sps ((now, sp) # recs) = kept_spans ttl maxSpans (keep_spans now ttl maxSpans (sps @ [sp])) recs"

lemma ts_RecordSpan_spans:
  assumes "0 \<le> ts_maxSpans s" "ts_ok s"
  obtains s' where "ts_RecordSpan now sp s = Ret s'" "ts_ok s'"
    "ts_spans s' = keep_spans now (ts_ttl s) (ts_maxSpans s) (ts_spans s @ [sp])"
    "ts_ttl s' = ts_ttl s" "ts_maxSpans s' = ts_maxSpans s"
proof -
  let ?s1 = "s\<lparr>ts_spans := ts_spans s @ [sp], ts_traceIndex :=
     gm_put (ts_traceIndex s) (sp_TraceID sp) (gm_or (ts_traceIndex s) (sp_TraceID sp) [] @ [length (ts_spans s)])\<rparr>"
  have "ts_ok ?s1"
    using assms(2) index_snoc by (simp add: ts_ok_def)
  then show thesis
    by (rule ts_evict_spans [of ?s1 now, rotated]) (use assms(1) that in \<open>simp_all add: ts_RecordSpan_def Let_def\<close>)
qed

lemma ts_run_spans:
  assumes "0 \<le> ts_maxSpans s" "ts_ok s"
  shows "\<exists>s'. ts_run s recs = Ret s' \<and> ts_ok s' \<and>
           ts_spans s' = kept_spans (ts_ttl s) (ts_maxSpans s) (ts_spans s) recs"
  using assms
proof (induction recs arbitrary: s)
  case (Cons r recs)
  obtain now sp where r: "r = (now, sp)"
    by (cases r)
  obtain s1 where s1: "ts_RecordSpan now sp s = Ret s1" "ts_ok s1"
    "ts_spans s1 = keep_spans now (ts_ttl s) (ts_maxSpans s) (ts_spans s @ [sp])"
    "ts_ttl s1 = ts_ttl s" "ts_maxSpans s1 = ts_maxSpans s"
    using ts_RecordSpan_spans [OF Cons.prems] by blast
  with Cons.IH [of s1] Cons.prems(1) show ?case by (simp add: r)
qed simp

lemma GetTrace_ok:
  "ts_ok s \<Longrightarrow> ts_GetTrace s t =
     (let found = filter (\<lambda>sp. sp_TraceID sp = t) (ts_spans s)
      in if found = [] then Inl (ErrWrap (''trace '' @ t @ '': '') ErrNotFound []) else Inr found)"
  by (auto simp: ts_GetTrace_def ts_ok_def index_of_def Let_def positions_map [symmetric] split: option.split)

text \<open>
  C36.  After any sequence of recorded spans, with any non-negative limit, the store has not panicked
  and a trace's spans are exactly the kept ones of that trace, in the order they were recorded;
  a trace without a kept span is not found.
\<close>

theorem trace_store_refines:
  assumes "0 \<le> ts_maxSpans (NewInMemoryTraceStore opts)"
  defines "s0 \<equiv> NewInMemoryTraceStore opts"
  shows "\<exists>s. ts_run s0 recs = Ret s \<and>
           (\<forall>t. ts_GetTrace s t =
              (let found = filter (\<lambda>sp. sp_TraceID sp = t) (kept_spans (ts_ttl s0) (ts_maxSpans s0) [] recs)
               in if found = [] then Inl (ErrWrap (''trace '' @ t @ '': '') ErrNotFound []) else Inr found))"
proof -
  have fields: "ts_spans (foldl ts_apply_option s opts) = ts_spans s \<and>
      ts_traceIndex (foldl ts_apply_option s opts) = ts_traceIndex s" for s
  proof (induction opts arbitrary: s)
    case (Cons x opts)
    then show ?case by (cases x) simp_all
  qed simp
  then have "ts_spans s0 = []" "ts_ok s0"
    by (simp_all add: s0_def NewInMemoryTraceStore_def ts_ok_def)
  then show ?thesis
    using ts_run_spans [of s0 recs] assms(1) GetTrace_ok by (auto simp: s0_def)
qed

definition demo_span :: "string \<Rightarrow> time \<Rightarrow> span" where
  "demo_span t at = \<lparr>sp_ID = ''s'', sp_TraceID = t, sp_ParentID = [], sp_Type = SpanTypeCommand, sp_Name = ''Pay'',
     sp_Status = SpanStatusSuccess, sp_Error = [], sp_StartedAt = at, sp_Duration = 1\<rparr>"

theorem trace_store_refines_witness:
  "\<exists>s. ts_run (NewInMemoryTraceStore [WithMaxSpans 1]) [(5, demo_span ''a'' 4), (7, demo_span ''b'' 6)] = Ret s \<and>
     ts_GetTrace s ''b'' = Inr [demo_span ''b'' 6] \<and> (\<exists>e. ts_GetTrace s ''a'' = Inl e)"
proof -
  have p: "0 \<le> ts_maxSpans (NewInMemoryTraceStore [WithMaxSpans 1])"
    by (simp add: NewInMemoryTraceStore_def)
  have k: "kept_spans (ts_ttl (NewInMemoryTraceStore [WithMaxSpans 1])) (ts_maxSpans (NewInMemoryTraceStore [WithMaxSpans 1])) []
      [(5, demo_span ''a'' 4), (7, demo_span ''b'' 6)] = [demo_span ''b'' 6]"
    by (simp add: NewInMemoryTraceStore_def defaultTTL_def keep_spans_def demo_span_def)
  show ?thesis
    using trace_store_refines [OF p, of "[(5, demo_span ''a'' 4), (7, demo_span ''b'' 6)]"]
    unfolding k by (auto simp: demo_span_def)
qed

lemma index_keys: "index_of sps idx \<Longrightarrow> fst ` set idx = sp_TraceID ` set sps"
proof -
  assume a: "index_of sps idx"
  have "t \<in> fst ` set idx \<longleftrightarrow> t \<in> sp_TraceID ` set sps" for t
    using a gm_get_None_iff [of idx t] by (auto simp: index_of_def positions_empty split: if_splits)
  then show ?thesis by blast
qed

lemma index_entry: "index_of sps idx \<Longrightarrow> (t, is) \<in> set idx \<Longrightarrow> is = positions_of t sps"
  by (auto simp: index_of_def gm_get_iff [symmetric] split: if_splits)

text \<open>
  \<open>ListTraces\<close> names each trace at most once, and names exactly the traces with a span in the
  store that match the filter, where matching looks at all spans of the trace together.
\<close>

theorem ListTraces_correct:
  assumes "ts_ok s"
  shows "distinct (ts_ListTraces s f) \<and>
         set (ts_ListTraces s f) = {t. t \<in> sp_TraceID ` set (ts_spans s) \<and>
            (tf_TraceID f = [] \<or> t = tf_TraceID f) \<and>
            matchesFilter (filter (\<lambda>sp. sp_TraceID sp = t) (ts_spans s)) f}"
proof
  have ix: "index_of (ts_spans s) (ts_traceIndex s)"
    using assms by (simp add: ts_ok_def)
  then have d: "distinct (map fst (ts_traceIndex s))"
    by (simp add: index_of_def gm_ok_def)
  show "distinct (ts_ListTraces s f)"
    unfolding ts_ListTraces_def by (rule distinct_map_filter [OF d])
  have "ts_ListTraces s f = map fst (filter (\<lambda>(t, is). (tf_TraceID f = [] \<or> t = tf_TraceID f) \<and>
      matchesFilter (filter (\<lambda>sp. sp_TraceID sp = t) (ts_spans s)) f) (ts_traceIndex s))"
    unfolding ts_ListTraces_def
    by (intro arg_cong [where f = "map fst"] filter_cong refl)
      (auto simp: positions_map dest!: index_entry [OF ix])
  then show "set (ts_ListTraces s f) = {t. t \<in> sp_TraceID ` set (ts_spans s) \<and>
            (tf_TraceID f = [] \<or> t = tf_TraceID f) \<and>
            matchesFilter (filter (\<lambda>sp. sp_TraceID sp = t) (ts_spans s)) f}"
    unfolding index_keys [OF ix, symmetric] by force
qed

theorem ListTraces_correct_witness:
  "distinct (ts_ListTraces (NewInMemoryTraceStore []) \<lparr>tf_TraceID = [], tf_Type = None, tf_Status = None, tf_StartTime = 0,
     tf_EndTime = 0, tf_NameContains = []\<rparr>)"
  using ListTraces_correct [of "NewInMemoryTraceStore []"] by (simp add: NewInMemoryTraceStore_def ts_ok_def)

end
