(* ===== verification/TracingModel.thy ===== *)
theory TracingModel
  imports TraceStore
begin

text \<open>
  The tracing aspect, \<open>aspect/builtin/tracing.go\<close>.  Its environment: the clock, package
  \<open>uuid\<close>, the trace store (nil or not) and the logger (nil or not), each as what a call does to the
  world.  The three pairs of hooks differ in the span type only.
\<close>

record ('s) tracing_env =
  te_now :: "'s \<Rightarrow> time \<times> 's"
  te_uuid :: "'s \<Rightarrow> nat list \<times> 's"
  te_store :: "(go_ctx \<Rightarrow> span \<Rightarrow> ('s, go_error option) prog) option"
  te_logger :: "(string \<Rightarrow> go_error \<Rightarrow> 's \<Rightarrow> 's) option"

definition tracing_before ::
    "'s tracing_env \<Rightarrow> span_type \<Rightarrow> go_ctx \<Rightarrow> 'd goany \<Rightarrow> ('s, go_ctx \<times> go_error option) prog" where
  "tracing_before env ty ctx msg s =
     (let parentSpanID = GetSpanID ctx;
          (traceID, s1) = (if GetTraceID ctx = [] then (let (u, s1) = te_uuid env s in (NewTraceID u, s1))
                           else (GetTraceID ctx, s));
          (u2, s2) = te_uuid env s1;
          spanID = NewSpanID u2
      in case aspect_typeName msg of
           Panic p \<Rightarrow> (Panic p, s2)
         | Ret spanName \<Rightarrow>
             (let newCtx = WithParentSpan (WithTrace ctx traceID spanID) parentSpanID;
                  (now, s3) = te_now env s2;
                  sp = \<lparr>sp_ID = spanID, sp_TraceID = traceID, sp_ParentID = parentSpanID, sp_Type = ty,
                        sp_Name = spanName, sp_Status = StatusUnset, sp_Error = [], sp_StartedAt = now, sp_Duration = 0\<rparr>
              in (Ret (ctx_WithValue newCtx SpanKey (VSpan sp), None), s3)))"

definition finish_span :: "span \<Rightarrow> go_error option \<Rightarrow> duration \<Rightarrow> span" where
  "finish_span sp err d = (case err of
     Some e \<Rightarrow> sp\<lparr>sp_Duration := d, sp_Error := error_text e,
                  sp_Status := (if IsDomainError e then SpanStatusBusinessError else SpanStatusError)\<rparr>
   | None \<Rightarrow> sp\<lparr>sp_Duration := d, sp_Status := SpanStatusSuccess\<rparr>)"

definition tracing_after ::
    "'s tracing_env \<Rightarrow> go_ctx \<Rightarrow> go_error option \<Rightarrow> duration \<Rightarrow> ('s, go_error option) prog" where
  "tracing_after env ctx err d s = (case ctx_Value ctx SpanKey of
     Some (VSpan sp) \<Rightarrow>
       (case te_store env of
          None \<Rightarrow> (Ret None, s)
        | Some store \<Rightarrow>
            (case store ctx (finish_span sp err d) s of
               (Panic p, s1) \<Rightarrow> (Panic p, s1)
             | (Ret None, s1) \<Rightarrow> (Ret None, s1)
             | (Ret (Some e), s1) \<Rightarrow>
                 (Ret None, case te_logger env of
                    None \<Rightarrow> s1 | Some lg \<Rightarrow> lg ''TracingAspect RecordSpan failed'' e s1)))
   | _ \<Rightarrow> (Ret None, s))"

definition tracing_BeforeCommand :: "'s tracing_env \<Rightarrow> go_ctx \<Rightarrow> 'd goany \<Rightarrow> ('s, go_ctx \<times> go_error option) prog" where
  "tracing_BeforeCommand env = tracing_before env SpanTypeCommand"

definition tracing_BeforeQuery :: "'s tracing_env \<Rightarrow> go_ctx \<Rightarrow> 'd goany \<Rightarrow> ('s, go_ctx \<times> go_error option) prog" where
  "tracing_BeforeQuery env = tracing_before env SpanTypeQuery"

definition tracing_BeforePublish :: "'s tracing_env \<Rightarrow> go_ctx \<Rightarrow> 'd goany \<Rightarrow> ('s, go_ctx \<times> go_error option) prog" where
  "tracing_BeforePublish env = tracing_before env SpanTypeEvent"

definition tracing_AfterCommand ::
    "'s tracing_env \<Rightarrow> go_ctx \<Rightarrow> 'd goany \<Rightarrow> 'v retval \<Rightarrow> go_error option \<Rightarrow> duration \<Rightarrow> ('s, go_error option) prog" where
  "tracing_AfterCommand env ctx cmd result = tracing_after env ctx"

definition tracing_AfterQuery ::
    "'s tracing_env \<Rightarrow> go_ctx \<Rightarrow> 'd goany \<Rightarrow> 'v retval \<Rightarrow> go_error option \<Rightarrow> duration \<Rightarrow> ('s, go_error option) prog" where
  "tracing_AfterQuery env ctx query result = tracing_after env ctx"

definition tracing_AfterPublish ::
    "'s tracing_env \<Rightarrow> go_ctx \<Rightarrow> 'd goany \<Rightarrow> go_error option \<Rightarrow> duration \<Rightarrow> ('s, go_error option) prog" where
  "tracing_AfterPublish env ctx event = tracing_after env ctx"

definition TracingAspect :: "'s tracing_env \<Rightarrow> ('s, go_ctx, 'd goany, 'v) aspect_value" where
  "TracingAspect env =
     \<lparr>as_command = Some \<lparr>asp_name = ''tracing'', asp_order = 0,
        asp_before = tracing_BeforeCommand env, asp_after = tracing_AfterCommand env\<rparr>,
      as_query = Some \<lparr>asp_name = ''tracing'', asp_order = 0,
        asp_before = tracing_BeforeQuery env, asp_after = tracing_AfterQuery env\<rparr>,
      as_event = Some \<lparr>evt_name = ''tracing'', evt_order = 0,
        evt_before = tracing_BeforePublish env, evt_after = tracing_AfterPublish env\<rparr>\<rparr>"

subsection \<open>The spans of nested operations form a tree\<close>

text \<open>The trace of an operation, the span ID drawn for it and the time it begins at, with the states after them.\<close>

definition trace_of :: "'s tracing_env \<Rightarrow> go_ctx \<Rightarrow> 's \<Rightarrow> string \<times> 's" where
  "trace_of env ctx s =
     (if GetTraceID ctx = [] then (let (u, s1) = te_uuid env s in (NewTraceID u, s1)) else (GetTraceID ctx, s))"

definition drawn_span :: "'s tracing_env \<Rightarrow> go_ctx \<Rightarrow> 's \<Rightarrow> string \<times> 's" where
  "drawn_span env ctx s = (let (u, s2) = te_uuid env (snd (trace_of env ctx s)) in (NewSpanID u, s2))"

definition begun_at :: "'s tracing_env \<Rightarrow> go_ctx \<Rightarrow> 's \<Rightarrow> time \<times> 's" where
  "begun_at env ctx s = te_now env (snd (drawn_span env ctx s))"

lemma tracing_before_Ret:
  assumes "tracing_before env ty ctx msg s = (Ret (c1, e), s1)"
  shows "e = None \<and> s1 = snd (begun_at env ctx s) \<and> GetTraceID c1 = fst (trace_of env ctx s) \<and>
    GetSpanID c1 = fst (drawn_span env ctx s) \<and> GetParentSpanID c1 = GetSpanID ctx \<and>
    (\<exists>name. aspect_typeName msg = Ret name \<and> ctx_Value c1 SpanKey =
       Some (VSpan \<lparr>sp_ID = fst (drawn_span env ctx s), sp_TraceID = fst (trace_of env ctx s), sp_ParentID = GetSpanID ctx,
         sp_Type = ty, sp_Name = name, sp_Status = StatusUnset, sp_Error = [],
         sp_StartedAt = fst (begun_at env ctx s), sp_Duration = 0\<rparr>))"
proof -
  have "tracing_before env ty ctx msg s = (case aspect_typeName msg of
      Panic p \<Rightarrow> (Panic p, snd (drawn_span env ctx s))
    | Ret name \<Rightarrow> (Ret (ctx_WithValue (WithParentSpan
          (WithTrace ctx (fst (trace_of env ctx s)) (fst (drawn_span env ctx s))) (GetSpanID ctx)) SpanKey
        (VSpan \<lparr>sp_ID = fst (drawn_span env ctx s), sp_TraceID = fst (trace_of env ctx s), sp_ParentID = GetSpanID ctx,
          sp_Type = ty, sp_Name = name, sp_Status = StatusUnset, sp_Error = [],
          sp_StartedAt = fst (begun_at env ctx s), sp_Duration = 0\<rparr>), None), snd (begun_at env ctx s)))"
    by (cases "GetTraceID ctx = []")
      (simp_all add: tracing_before_def trace_of_def drawn_span_def begun_at_def Let_def split: prod.split outcome.split)
  with assms show ?thesis by (auto split: outcome.splits)
qed

lemma finish_span_fields [simp]:
  "sp_ID (finish_span sp err d) = sp_ID sp" "sp_TraceID (finish_span sp err d) = sp_TraceID sp"
  "sp_ParentID (finish_span sp err d) = sp_ParentID sp" "sp_Type (finish_span sp err d) = sp_Type sp"
  "sp_Name (finish_span sp err d) = sp_Name sp" "sp_Duration (finish_span sp err d) = d"
  "sp_StartedAt (finish_span sp err d) = sp_StartedAt sp"
  by (simp_all add: finish_span_def split: option.split)

lemma finish_span_Status:
  "sp_Status (finish_span sp err d) = (case err of None \<Rightarrow> SpanStatusSuccess
     | Some e \<Rightarrow> if \<exists>code. errors_Is e code then SpanStatusBusinessError else SpanStatusError)"
  by (simp add: finish_span_def IsDomainError_iff split: option.split)

text \<open>
  C37.  A traced command that does not panic.  A trace is taken from the caller's context or drawn, then a
  span ID is drawn and the clock read; the operation runs on from there, and its result and error are
  the command's, even when the store fails.  Afterwards the store is called once, in the state the
  operation and the second clock reading left, with the operation's one span: its ID is the one the
  operation finds in its context, so that operations nested in it become its children, its parent is the
  caller's span, its duration the time between the two readings around the operation, its status success
  without an error, business error when a domain error is in the error's tree, error otherwise.  The
  command ends in the state the store left, or, when the store failed, in the one the logger left.
\<close>

theorem tracing_span_tree:
  assumes "aspect_layer clk m (the (as_command (TracingAspect env))) inner ctx s = (Ret (res, err), s')"
    and "te_store env = Some store"
  shows "\<exists>name c1 start s1 s2 finish s3 o1 s4.
     aspect_typeName m = Ret name \<and> clk (snd (begun_at env ctx s)) = (start, s1) \<and>
     inner c1 s1 = (Ret (res, err), s2) \<and> clk s2 = (finish, s3) \<and>
     GetTraceID c1 = fst (trace_of env ctx s) \<and> GetSpanID c1 = fst (drawn_span env ctx s) \<and>
     GetParentSpanID c1 = GetSpanID ctx \<and>
     store c1 \<lparr>sp_ID = fst (drawn_span env ctx s), sp_TraceID = fst (trace_of env ctx s), sp_ParentID = GetSpanID ctx,
         sp_Type = SpanTypeCommand, sp_Name = name,
         sp_Status = (case err of None \<Rightarrow> SpanStatusSuccess
           | Some e \<Rightarrow> if \<exists>code. errors_Is e code then SpanStatusBusinessError else SpanStatusError),
         sp_Error = (case err of None \<Rightarrow> [] | Some e \<Rightarrow> error_text e),
         sp_StartedAt = fst (begun_at env ctx s), sp_Duration = finish - start\<rparr> s3 = (Ret o1, s4) \<and>
     s' = (case (o1, te_logger env) of
        (Some e, Some lg) \<Rightarrow> lg ''TracingAspect RecordSpan failed'' e s4
      | _ \<Rightarrow> s4)"
  using assms(1)
proof (cases rule: aspect_layer_RetE)
  case (before_fails c1 e)
  then show ?thesis
    using tracing_before_Ret [of env SpanTypeCommand ctx m s c1 "Some e" s']
    by (simp add: TracingAspect_def tracing_BeforeCommand_def)
next
  case (inner_runs c1 s1 start s2 err3 s3 finish s4 ae)
  then have "tracing_before env SpanTypeCommand ctx m s = (Ret (c1, None), s1)"
    by (simp add: TracingAspect_def tracing_BeforeCommand_def)
  note b = tracing_before_Ret [OF this]
  then obtain name where name: "aspect_typeName m = Ret name" and sp: "ctx_Value c1 SpanKey =
       Some (VSpan \<lparr>sp_ID = fst (drawn_span env ctx s), sp_TraceID = fst (trace_of env ctx s), sp_ParentID = GetSpanID ctx,
         sp_Type = SpanTypeCommand, sp_Name = name, sp_Status = StatusUnset, sp_Error = [],
         sp_StartedAt = fst (begun_at env ctx s), sp_Duration = 0\<rparr>)" (is "_ = Some (VSpan ?sp)")
    by blast
  from inner_runs(5) have after: "tracing_after env c1 err3 (finish - start) s4 = (Ret ae, s')"
    by (simp add: TracingAspect_def tracing_AfterCommand_def)
  obtain o1 s5 where st: "store c1 (finish_span ?sp err3 (finish - start)) s4 = (Ret o1, s5)"
    using after sp assms(2) by (auto simp: tracing_after_def split: prod.splits outcome.splits)
  from after have ae: "ae = None" "s' = (case (o1, te_logger env) of
        (Some e, Some lg) \<Rightarrow> lg ''TracingAspect RecordSpan failed'' e s5 | _ \<Rightarrow> s5)"
    by (auto simp: tracing_after_def sp assms(2) st split: option.splits)
  then have "err = err3"
    using inner_runs(6) by (simp add: join_after_def)
  moreover have "finish_span ?sp err (finish - start) = ?sp\<lparr>sp_Duration := finish - start,
      sp_Error := (case err of None \<Rightarrow> [] | Some e \<Rightarrow> error_text e),
      sp_Status := (case err of None \<Rightarrow> SpanStatusSuccess
        | Some e \<Rightarrow> if \<exists>code. errors_Is e code then SpanStatusBusinessError else SpanStatusError)\<rparr>"
    by (simp add: finish_span_def IsDomainError_iff split: option.split)
  ultimately show ?thesis
    using b name st ae inner_runs(2-4)
    by (intro exI [of _ name] exI [of _ c1] exI [of _ start] exI [of _ s2] exI [of _ s3] exI [of _ finish] exI [of _ s4]
        exI [of _ o1] exI [of _ s5]) simp
qed

text \<open>An environment with a list of spans as its store and a counter as its UUIDs and clock.\<close>

definition demo_env :: "(nat \<times> span list) tracing_env" where
  "demo_env =
     \<lparr>te_now = (\<lambda>s. (int (fst s), s)), te_uuid = (\<lambda>s. ([fst s], (Suc (fst s), snd s))),
      te_store = Some (\<lambda>ctx sp s. (Ret None, (fst s, snd s @ [sp]))), te_logger = None\<rparr>"

theorem tracing_span_tree_witness:
  "\<exists>sp. aspect_layer (\<lambda>s. (0, s)) (GAny (TNamed ''app'' ''Pay'') ()) (the (as_command (TracingAspect demo_env)))
       (\<lambda>ctx s. (Ret (RNil :: nat retval, Some ErrNotFound), s)) (WithTrace ctx_Background ''t'' ''p'') (3, []) =
     (Ret (RNil, Some ErrNotFound), (4, [sp])) \<and>
     sp_TraceID sp = ''t'' \<and> sp_ParentID sp = ''p'' \<and> sp_ID sp = NewSpanID [3] \<and> sp_Status sp = SpanStatusBusinessError"
proof -
  let ?inner = "\<lambda>ctx s. (Ret (RNil :: nat retval, Some ErrNotFound), s)"
  let ?ctx = "WithTrace ctx_Background ''t'' ''p''"
  let ?m = "GAny (TNamed ''app'' ''Pay'') ()"
  obtain c1 s1 where before: "tracing_before demo_env SpanTypeCommand ?ctx ?m (3, []) = (Ret (c1, None), s1)"
    by (simp add: tracing_before_def demo_env_def aspect_typeName_def Let_def)
  obtain sp where "ctx_Value c1 SpanKey = Some (VSpan sp)"
    using tracing_before_Ret [OF before] by blast
  then have after: "tracing_after demo_env c1 (Some ErrNotFound) d s2 = (Ret None, (fst s2, snd s2 @ [finish_span sp (Some ErrNotFound) d]))" for d s2
    by (simp add: tracing_after_def demo_env_def)
  obtain s' where run: "aspect_layer (\<lambda>s. (0, s)) ?m (the (as_command (TracingAspect demo_env))) ?inner ?ctx (3, []) =
      (Ret (RNil, Some ErrNotFound), s')"
    by (simp add: aspect_layer_def TracingAspect_def tracing_BeforeCommand_def tracing_AfterCommand_def before after join_after_def Let_def)
  have store: "te_store demo_env = Some (\<lambda>ctx sp s. (Ret None, (fst s, snd s @ [sp])))"
    by (simp add: demo_env_def)
  have ids: "trace_of demo_env ?ctx (3, []) = (''t'', (3, []))" "drawn_span demo_env ?ctx (3, []) = (NewSpanID [3], (4, []))"
    "begun_at demo_env ?ctx (3, []) = (4, (4, []))" "GetSpanID ?ctx = ''p''"
    by (simp_all add: trace_of_def drawn_span_def begun_at_def demo_env_def)
  have "\<exists>sp. s' = (4, [sp]) \<and> sp_TraceID sp = ''t'' \<and> sp_ParentID sp = ''p'' \<and> sp_ID sp = NewSpanID [3] \<and>
      sp_Status sp = SpanStatusBusinessError"
    using tracing_span_tree [OF run store] unfolding ids
    by (auto simp: demo_env_def)
  with run show ?thesis by auto
qed

end
