(* ===== verification/MessageStores.thy ===== *)
theory MessageStores
  imports AspectChain GoContext
begin

text \<open>
  The message log: the entries and the persistence aspect of \<open>aspect/builtin/persistence.go\<close>, the
  bounded in-memory store of \<open>aspect/builtin/in_memory_message_store.go\<close> and the queryable store of
  \<open>observability/message_reader.go\<close>.  JSON data is its text.
\<close>

record CommandEntry =
  ce_TraceID :: string
  ce_SpanID :: string
  ce_CommandType :: string
  ce_CommandData :: string
  ce_ResultType :: string
  ce_ResultData :: string
  ce_Error :: string
  ce_Duration :: duration
  ce_CreatedAt :: time

record QueryEntry =
  qe_TraceID :: string
  qe_SpanID :: string
  qe_QueryType :: string
  qe_QueryData :: string
  qe_ResultType :: string
  qe_ResultData :: string
  qe_Error :: string
  qe_Duration :: duration
  qe_CreatedAt :: time

record EventEntry =
  ee_TraceID :: string
  ee_SpanID :: string
  ee_AggregateID :: string
  ee_EventType :: string
  ee_EventData :: string
  ee_HandlerCount :: int
  ee_Error :: string
  ee_Duration :: duration
  ee_CreatedAt :: time

record EventHandlerEntry =
  eh_TraceID :: string
  eh_SpanID :: string
  eh_AggregateID :: string
  eh_EventType :: string
  eh_HandlerType :: string
  eh_Status :: string
  eh_Error :: string
  eh_Duration :: duration
  eh_CreatedAt :: time

text \<open>The interface \<open>MessageStore\<close>.\<close>

record ('s) message_store =
  ms_RecordCommand :: "go_ctx \<Rightarrow> CommandEntry \<Rightarrow> ('s, go_error option) prog"
  ms_RecordQuery :: "go_ctx \<Rightarrow> QueryEntry \<Rightarrow> ('s, go_error option) prog"
  ms_RecordEvent :: "go_ctx \<Rightarrow> EventEntry \<Rightarrow> ('s, go_error option) prog"
  ms_RecordEventHandler :: "go_ctx \<Rightarrow> EventHandlerEntry \<Rightarrow> ('s, go_error option) prog"

subsection \<open>The bounded in-memory store\<close>

record InMemoryMessageStore =
  im_commands :: "CommandEntry list"
  im_queries :: "QueryEntry list"
  im_events :: "EventEntry list"
  im_handlers :: "EventHandlerEntry list"
  im_maxSize :: int

text \<open>\<open>WithInMemoryMaxSize\<close> is the option's value.\<close>

definition NewInMemoryMessageStore :: "int option \<Rightarrow> InMemoryMessageStore" where
  "NewInMemoryMessageStore maxSize =
     \<lparr>im_commands = [], im_queries = [], im_events = [], im_handlers = [],
      im_maxSize = (case maxSize of None \<Rightarrow> 1000 | Some n \<Rightarrow> n)\<rparr>"

definition append_bounded :: "int \<Rightarrow> 'a list \<Rightarrow> 'a \<Rightarrow> 'a list outcome" where
  "append_bounded maxSize xs x =
     (let ys = xs @ [x]
      in if maxSize < int (length ys) then slice_from (int (length ys) - maxSize) ys else Ret ys)"

definition im_RecordCommand :: "CommandEntry \<Rightarrow> InMemoryMessageStore \<Rightarrow> InMemoryMessageStore outcome" where
  "im_RecordCommand entry s =
     out_bind (append_bounded (im_maxSize s) (im_commands s) entry) (\<lambda>xs. Ret (s\<lparr>im_commands := xs\<rparr>))"

definition im_RecordQuery :: "QueryEntry \<Rightarrow> InMemoryMessageStore \<Rightarrow> InMemoryMessageStore outcome" where
  "im_RecordQuery entry s =
     out_bind (append_bounded (im_maxSize s) (im_queries s) entry) (\<lambda>xs. Ret (s\<lparr>im_queries := xs\<rparr>))"

definition im_RecordEvent :: "EventEntry \<Rightarrow> InMemoryMessageStore \<Rightarrow> InMemoryMessageStore outcome" where
  "im_RecordEvent entry s =
     out_bind (append_bounded (im_maxSize s) (im_events s) entry) (\<lambda>xs. Ret (s\<lparr>im_events := xs\<rparr>))"

definition im_RecordEventHandler :: "EventHandlerEntry \<Rightarrow> InMemoryMessageStore \<Rightarrow> InMemoryMessageStore outcome" where
  "im_RecordEventHandler entry s =
     out_bind (append_bounded (im_maxSize s) (im_handlers s) entry) (\<lambda>xs. Ret (s\<lparr>im_handlers := xs\<rparr>))"

definition im_GetCommands :: "InMemoryMessageStore \<Rightarrow> CommandEntry list" where
  "im_GetCommands s = im_commands s"

definition im_GetQueries :: "InMemoryMessageStore \<Rightarrow> QueryEntry list" where
  "im_GetQueries s = im_queries s"

definition im_GetEvents :: "InMemoryMessageStore \<Rightarrow> EventEntry list" where
  "im_GetEvents s = im_events s"

definition im_GetHandlers :: "InMemoryMessageStore \<Rightarrow> EventHandlerEntry list" where
  "im_GetHandlers s = im_handlers s"

subsection \<open>The queryable store\<close>

record MessageFilter =
  mf_Type :: string
  mf_TraceID :: string
  mf_AggregateID :: string
  mf_Status :: string
  mf_Since :: time
  mf_Limit :: int
  mf_Offset :: int

record 'a QueryResult =
  qr_Items :: "'a list"
  qr_Total :: nat

definition matchStringFilter :: "string \<Rightarrow> string \<Rightarrow> string \<Rightarrow> time \<Rightarrow> MessageFilter \<Rightarrow> bool" where
  "matchStringFilter entryType traceID err createdAt f \<longleftrightarrow>
     \<not> (mf_Type f \<noteq> [] \<and> entryType \<noteq> mf_Type f) \<and>
     \<not> (mf_TraceID f \<noteq> [] \<and> traceID \<noteq> mf_TraceID f) \<and>
     \<not> (mf_Status f = ''error'' \<and> err = []) \<and>
     \<not> (mf_Status f = ''success'' \<and> err \<noteq> []) \<and>
     \<not> (mf_Since f \<noteq> 0 \<and> createdAt < mf_Since f)"

definition matchCommandFilter :: "CommandEntry \<Rightarrow> MessageFilter \<Rightarrow> bool" where
  "matchCommandFilter e f = matchStringFilter (ce_CommandType e) (ce_TraceID e) (ce_Error e) (ce_CreatedAt e) f"

definition matchQueryFilter :: "QueryEntry \<Rightarrow> MessageFilter \<Rightarrow> bool" where
  "matchQueryFilter e f = matchStringFilter (qe_QueryType e) (qe_TraceID e) (qe_Error e) (qe_CreatedAt e) f"

definition matchEventFilter :: "EventEntry \<Rightarrow> MessageFilter \<Rightarrow> bool" where
  "matchEventFilter e f =
     (if mf_AggregateID f \<noteq> [] \<and> ee_AggregateID e \<noteq> mf_AggregateID f then False
      else matchStringFilter (ee_EventType e) (ee_TraceID e) (ee_Error e) (ee_CreatedAt e) f)"

text \<open>The loop over the entries, newest first, and the page that is cut out.\<close>

fun filter_newest :: "('a \<Rightarrow> bool) \<Rightarrow> 'a list \<Rightarrow> 'a list" where
  "filter_newest P [] = []"
| "filter_newest P (x # xs) = filter_newest P xs @ (if P x then [x] else [])"

definition page :: "MessageFilter \<Rightarrow> 'a list \<Rightarrow> 'a QueryResult outcome" where
  "page f filtered =
     (let total = length filtered;
          offset = (if int total < mf_Offset f then int total else mf_Offset f)
      in out_bind (slice_from offset filtered) (\<lambda>remaining.
           let limit = (if mf_Limit f \<le> 0 \<or> int (length remaining) < mf_Limit f
                        then int (length remaining) else mf_Limit f)
           in Ret \<lparr>qr_Items = take (nat limit) remaining, qr_Total = total\<rparr>))"

definition QueryCommands :: "InMemoryMessageStore \<Rightarrow> MessageFilter \<Rightarrow> CommandEntry QueryResult outcome" where
  "QueryCommands s f = page f (filter_newest (\<lambda>e. matchCommandFilter e f) (im_GetCommands s))"

definition QueryQueries :: "InMemoryMessageStore \<Rightarrow> MessageFilter \<Rightarrow> QueryEntry QueryResult outcome" where
  "QueryQueries s f = page f (filter_newest (\<lambda>e. matchQueryFilter e f) (im_GetQueries s))"

definition QueryEvents :: "InMemoryMessageStore \<Rightarrow> MessageFilter \<Rightarrow> EventEntry QueryResult outcome" where
  "QueryEvents s f = page f (filter_newest (\<lambda>e. matchEventFilter e f) (im_GetEvents s))"

definition NewObservableMessageStore :: "int option \<Rightarrow> InMemoryMessageStore" where
  "NewObservableMessageStore maxSize =
     (let m = (case maxSize of None \<Rightarrow> 1000 | Some n \<Rightarrow> n)
      in if m \<noteq> 1000 then NewInMemoryMessageStore (Some m) else NewInMemoryMessageStore None)"

text \<open>Handler entries are not kept.\<close>

definition obs_RecordEventHandler :: "EventHandlerEntry \<Rightarrow> InMemoryMessageStore \<Rightarrow> InMemoryMessageStore outcome" where
  "obs_RecordEventHandler entry s = Ret s"

subsection \<open>The persistence aspect\<close>

text \<open>
  Its environment: the clock, \<open>encoding/json\<close> and \<open>%q\<close>, \<open>MetadataOf\<close>'s aggregate id of an
  event, and the result values' type name and JSON.
\<close>

record ('s, 'd, 'v) persist_env =
  pe_store :: "'s message_store"
  pe_now :: "'s \<Rightarrow> time \<times> 's"
  pe_Marshal :: "'d goany \<Rightarrow> go_error + string"
  pe_quote :: "string \<Rightarrow> string"
  pe_resultName :: "'v retval \<Rightarrow> string outcome"
  pe_resultMarshal :: "'v retval \<Rightarrow> go_error + string"
  pe_AggregateID :: "'d goany \<Rightarrow> string"

definition marshal_or_error :: "('s, 'd, 'v) persist_env \<Rightarrow> go_error + string \<Rightarrow> string" where
  "marshal_or_error env r = (case r of
     Inr data \<Rightarrow> data
   | Inl e \<Rightarrow> ''{'' @ CHR 0x22 # ''_marshal_error'' @ CHR 0x22 # '':'' @ pe_quote env (error_text e) @ ''}'')"

definition opt_text :: "go_error option \<Rightarrow> string" where
  "opt_text err = (case err of None \<Rightarrow> [] | Some e \<Rightarrow> error_text e)"

text \<open>The result's type name and data, empty for a nil result.\<close>

definition result_fields :: "('s, 'd, 'v) persist_env \<Rightarrow> 'v retval \<Rightarrow> (string \<times> string) outcome" where
  "result_fields env result =
     (if (case result of RNil \<Rightarrow> True | _ \<Rightarrow> False) then Ret ([], [])
      else out_bind (pe_resultName env result) (\<lambda>n. Ret (n, marshal_or_error env (pe_resultMarshal env result))))"

definition persist_AfterCommand ::
    "('s, 'd, 'v) persist_env \<Rightarrow> go_ctx \<Rightarrow> 'd goany \<Rightarrow> 'v retval \<Rightarrow> go_error option \<Rightarrow> duration \<Rightarrow> ('s, go_error option) prog" where
  "persist_AfterCommand env ctx cmd result err d s =
     (case aspect_typeName cmd of
        Panic p \<Rightarrow> (Panic p, s)
      | Ret name \<Rightarrow>
          (let (now, s1) = pe_now env s in
           case result_fields env result of
             Panic p \<Rightarrow> (Panic p, s1)
           | Ret (rtype, rdata) \<Rightarrow>
               ms_RecordCommand (pe_store env) ctx
                 \<lparr>ce_TraceID = GetTraceID ctx, ce_SpanID = GetSpanID ctx, ce_CommandType = name,
                  ce_CommandData = marshal_or_error env (pe_Marshal env cmd), ce_ResultType = rtype,
                  ce_ResultData = rdata, ce_Error = opt_text err, ce_Duration = d, ce_CreatedAt = now\<rparr> s1))"

definition persist_AfterQuery ::
    "('s, 'd, 'v) persist_env \<Rightarrow> go_ctx \<Rightarrow> 'd goany \<Rightarrow> 'v retval \<Rightarrow> go_error option \<Rightarrow> duration \<Rightarrow> ('s, go_error option) prog" where
  "persist_AfterQuery env ctx query result err d s =
     (case aspect_typeName query of
        Panic p \<Rightarrow> (Panic p, s)
      | Ret name \<Rightarrow>
          (let (now, s1) = pe_now env s in
           case result_fields env result of
             Panic p \<Rightarrow> (Panic p, s1)
           | Ret (rtype, rdata) \<Rightarrow>
               ms_RecordQuery (pe_store env) ctx
                 \<lparr>qe_TraceID = GetTraceID ctx, qe_SpanID = GetSpanID ctx, qe_QueryType = name,
                  qe_QueryData = marshal_or_error env (pe_Marshal env query), qe_ResultType = rtype,
                  qe_ResultData = rdata, qe_Error = opt_text err, qe_Duration = d, qe_CreatedAt = now\<rparr> s1))"

definition persist_AfterPublish ::
    "('s, 'd, 'v) persist_env \<Rightarrow> go_ctx \<Rightarrow> 'd goany \<Rightarrow> go_error option \<Rightarrow> duration \<Rightarrow> ('s, go_error option) prog" where
  "persist_AfterPublish env ctx evt err d s =
     (case EventNameOf evt of
        Panic p \<Rightarrow> (Panic p, s)
      | Ret eventType \<Rightarrow>
          (let (now, s1) = pe_now env s in
           case ms_RecordEvent (pe_store env) ctx
                  \<lparr>ee_TraceID = GetTraceID ctx, ee_SpanID = GetSpanID ctx, ee_AggregateID = pe_AggregateID env evt,
                   ee_EventType = eventType, ee_EventData = marshal_or_error env (pe_Marshal env evt),
                   ee_HandlerCount = 0, ee_Error = opt_text err, ee_Duration = d, ee_CreatedAt = now\<rparr> s1 of
             (Panic p, s2) \<Rightarrow> (Panic p, s2)
           | (Ret (Some recErr), s2) \<Rightarrow> (Ret (Some recErr), s2)
           | (Ret None, s2) \<Rightarrow>
               (if extractHandlerType ctx = [] then (Ret None, s2)
                else (let (now2, s3) = pe_now env s2 in
                  ms_RecordEventHandler (pe_store env) ctx
                    \<lparr>eh_TraceID = GetTraceID ctx, eh_SpanID = GetSpanID ctx, eh_AggregateID = pe_AggregateID env evt,
                     eh_EventType = eventType, eh_HandlerType = extractHandlerType ctx,
                     eh_Status = (if err = None then ''success'' else ''error''), eh_Error = opt_text err,
                     eh_Duration = d, eh_CreatedAt = now2\<rparr> s3))))"

definition PersistenceAspect :: "('s, 'd, 'v) persist_env \<Rightarrow> ('s, go_ctx, 'd goany, 'v) aspect_value" where
  "PersistenceAspect env =
     \<lparr>as_command = Some \<lparr>asp_name = ''persistence'', asp_order = 200,
        asp_before = (\<lambda>ctx m s. (Ret (ctx, None), s)), asp_after = persist_AfterCommand env\<rparr>,
      as_query = Some \<lparr>asp_name = ''persistence'', asp_order = 200,
        asp_before = (\<lambda>ctx m s. (Ret (ctx, None), s)), asp_after = persist_AfterQuery env\<rparr>,
      as_event = Some \<lparr>evt_name = ''persistence'', evt_order = 200,
        evt_before = (\<lambda>ctx m s. (Ret (ctx, None), s)), evt_after = persist_AfterPublish env\<rparr>\<rparr>"

subsection \<open>Bounds and pages\<close>

lemma append_bounded_Ret:
  "0 \<le> n \<Longrightarrow> append_bounded n xs x = Ret (drop (Suc (length xs) - nat n) (xs @ [x]))"
proof -
  assume n: "0 \<le> n"
  have "nat (int k - n) = k - nat n" for k
    using n by arith
  from this [of "length (xs @ [x])"] n show ?thesis
    by (auto simp: append_bounded_def slice_from_def Let_def simp del: append.simps drop_append)
qed

lemma filter_newest_eq: "filter_newest P xs = rev (filter P xs)"
  by (induction xs) auto

fun im_commands_run :: "InMemoryMessageStore \<Rightarrow> CommandEntry list \<Rightarrow> InMemoryMessageStore outcome" where
  "im_commands_run s [] = Ret s"
| "im_commands_run s (e # es) = out_bind (im_RecordCommand e s) (\<lambda>s1. im_commands_run s1 es)"

definition last_n :: "nat \<Rightarrow> 'a list \<Rightarrow> 'a list" where
  "last_n n xs = drop (length xs - n) xs"

lemma last_n_append: "last_n n (last_n n xs @ ys) = last_n n (xs @ ys)"
  by (cases "n \<le> length xs") (simp_all add: last_n_def add.commute)

lemma im_run_last:
  assumes "0 \<le> im_maxSize s" "im_commands s = last_n (nat (im_maxSize s)) xs"
  shows "im_commands_run s es = Ret (s\<lparr>im_commands := last_n (nat (im_maxSize s)) (xs @ es)\<rparr>)"
  using assms
proof (induction es arbitrary: s xs)
  case (Cons e es)
  have "append_bounded (im_maxSize s) (im_commands s) e = Ret (last_n (nat (im_maxSize s)) (xs @ [e]))"
    using append_bounded_Ret [OF Cons.prems(1), of "im_commands s" e] last_n_append [of "nat (im_maxSize s)" xs "[e]"]
    by (simp add: Cons.prems(2) last_n_def)
  with Cons.IH [of "s\<lparr>im_commands := last_n (nat (im_maxSize s)) (xs @ [e])\<rparr>" "xs @ [e]"] Cons.prems(1)
  show ?case by (simp add: im_RecordCommand_def)
qed simp

lemma im_commands_page:
  assumes "0 \<le> maxSize" "0 \<le> mf_Offset f"
  shows "out_bind (im_commands_run (NewObservableMessageStore (Some maxSize)) es) (\<lambda>s. QueryCommands s f) =
     (let matching = filter (\<lambda>e. matchCommandFilter e f) (rev (last_n (nat maxSize) es));
          rest = drop (nat (mf_Offset f)) matching
      in Ret \<lparr>qr_Items = (if mf_Limit f \<le> 0 then rest else take (nat (mf_Limit f)) rest), qr_Total = length matching\<rparr>)"
proof -
  let ?s = "NewObservableMessageStore (Some maxSize)"
  have s: "im_maxSize ?s = maxSize" "im_commands ?s = []"
    by (simp_all add: NewObservableMessageStore_def NewInMemoryMessageStore_def Let_def)
  have run: "im_commands_run ?s es = Ret (?s\<lparr>im_commands := last_n (nat maxSize) es\<rparr>)"
    using im_run_last [of ?s "[]" es] assms(1) s by (simp add: last_n_def)
  let ?m = "filter (\<lambda>e. matchCommandFilter e f) (rev (last_n (nat maxSize) es))"
  have "page f ?m = (let rest = drop (nat (mf_Offset f)) ?m
      in Ret \<lparr>qr_Items = (if mf_Limit f \<le> 0 then rest else take (nat (mf_Limit f)) rest), qr_Total = length ?m\<rparr>)"
    using assms(2) by (auto simp: page_def slice_from_def Let_def)
  then show ?thesis
    by (simp add: run QueryCommands_def im_GetCommands_def filter_newest_eq rev_filter Let_def)
qed

text \<open>
  After any commands are recorded in a store with a non-negative limit, a query returns, newest
  first, the page of the matching ones among the last \<open>limit\<close> recorded, and counts all of these; a
  non-positive page limit means all, an offset beyond the end an empty page.
\<close>

theorem query_commands_page:
  assumes "0 \<le> maxSize" "0 \<le> mf_Offset f"
  shows "out_bind (im_commands_run (NewObservableMessageStore (Some maxSize)) es) (\<lambda>s. QueryCommands s f) =
     (let matching = filter (\<lambda>e. matchCommandFilter e f) (rev (last_n (nat maxSize) es));
          rest = drop (nat (mf_Offset f)) matching
      in Ret \<lparr>qr_Items = (if mf_Limit f \<le> 0 then rest else take (nat (mf_Limit f)) rest), qr_Total = length matching\<rparr>)"
  by (rule im_commands_page [OF assms])

text \<open>
  A negative offset makes every query panic.
\<close>

theorem query_negative_offset_panics:
  assumes "mf_Offset f < 0"
  shows "QueryCommands s f = Panic ''slice bounds out of range'' \<and>
         QueryQueries s f = Panic ''slice bounds out of range'' \<and>
         QueryEvents s f = Panic ''slice bounds out of range''"
  using assms by (simp add: QueryCommands_def QueryQueries_def QueryEvents_def page_def slice_from_def Let_def)

theorem query_commands_page_witness:
  "out_bind (im_commands_run (NewObservableMessageStore (Some 2)) [])
     (\<lambda>s. QueryCommands s \<lparr>mf_Type = [], mf_TraceID = [], mf_AggregateID = [], mf_Status = [], mf_Since = 0, mf_Limit = 1, mf_Offset = 5\<rparr>) =
   Ret \<lparr>qr_Items = [], qr_Total = 0\<rparr>"
  using query_commands_page [of 2 "\<lparr>mf_Type = [], mf_TraceID = [], mf_AggregateID = [], mf_Status = [], mf_Since = 0, mf_Limit = 1, mf_Offset = 5\<rparr>" "[]"]
  by (simp add: last_n_def)

theorem query_negative_offset_panics_witness:
  "QueryCommands (NewInMemoryMessageStore None) \<lparr>mf_Type = [], mf_TraceID = [], mf_AggregateID = [], mf_Status = [],
     mf_Since = 0, mf_Limit = 1, mf_Offset = - 1\<rparr> = Panic ''slice bounds out of range''"
  using query_negative_offset_panics [of "\<lparr>mf_Type = [], mf_TraceID = [], mf_AggregateID = [], mf_Status = [],
     mf_Since = 0, mf_Limit = 1, mf_Offset = - 1\<rparr>"] by simp

subsection \<open>What the persistence aspect writes\<close>

definition run_record :: "('s \<Rightarrow> 's outcome) \<Rightarrow> ('s, go_error option) prog" where
  "run_record f s = (case f s of Ret s1 \<Rightarrow> (Ret None, s1) | Panic p \<Rightarrow> (Panic p, s))"

definition im_message_store :: "InMemoryMessageStore message_store" where
  "im_message_store =
     \<lparr>ms_RecordCommand = (\<lambda>ctx e. run_record (im_RecordCommand e)),
      ms_RecordQuery = (\<lambda>ctx e. run_record (im_RecordQuery e)),
      ms_RecordEvent = (\<lambda>ctx e. run_record (im_RecordEvent e)),
      ms_RecordEventHandler = (\<lambda>ctx e. run_record (im_RecordEventHandler e))\<rparr>"

lemma append_bounded_last:
  assumes "1 \<le> n"
  shows "\<exists>ys. append_bounded n xs x = Ret (ys @ [x])"
proof -
  have "append_bounded n xs x = Ret (drop (Suc (length xs) - nat n) (xs @ [x]))"
    using append_bounded_Ret [of n xs x] assms by (simp del: drop_append)
  moreover have "Suc (length xs) - nat n \<le> length xs"
    using assms by arith
  ultimately show ?thesis by simp
qed

text \<open>
  After an event was published to a handler through the persistence aspect over the in-memory
  store, the store's last event entry and its last handler entry describe that run: the trace and span
  of its context, the event's type and aggregate, the handler's type, and status and error text of
  its outcome; the aspect adds no error.
\<close>

theorem persistence_records_event:
  assumes "1 \<le> im_maxSize s" "extractHandlerType ctx \<noteq> []" "EventNameOf evt = Ret name"
    and "pe_store env = im_message_store" "pe_now env = (\<lambda>s. (now s, s))"
  shows "\<exists>s' e h. persist_AfterPublish env ctx evt err d s = (Ret None, s') \<and>
     last (im_GetEvents s') = e \<and> last (im_GetHandlers s') = h \<and>
     ee_TraceID e = GetTraceID ctx \<and> ee_SpanID e = GetSpanID ctx \<and> ee_EventType e = name \<and>
     ee_AggregateID e = pe_AggregateID env evt \<and> ee_Duration e = d \<and>
     ee_Error e = (case err of None \<Rightarrow> [] | Some x \<Rightarrow> error_text x) \<and>
     eh_HandlerType h = extractHandlerType ctx \<and> eh_EventType h = name \<and> eh_TraceID h = GetTraceID ctx \<and>
     eh_Status h = (if err = None then ''success'' else ''error'') \<and> eh_Error h = ee_Error e"
proof -
  let ?e = "\<lparr>ee_TraceID = GetTraceID ctx, ee_SpanID = GetSpanID ctx, ee_AggregateID = pe_AggregateID env evt,
     ee_EventType = name, ee_EventData = marshal_or_error env (pe_Marshal env evt),
     ee_HandlerCount = 0, ee_Error = opt_text err, ee_Duration = d, ee_CreatedAt = now s\<rparr>"
  obtain es where es: "append_bounded (im_maxSize s) (im_events s) ?e = Ret (es @ [?e])"
    using append_bounded_last [OF assms(1), of "im_events s" ?e] by (elim exE)
  let ?s2 = "s\<lparr>im_events := es @ [?e]\<rparr>"
  let ?h = "\<lparr>eh_TraceID = GetTraceID ctx, eh_SpanID = GetSpanID ctx, eh_AggregateID = pe_AggregateID env evt,
     eh_EventType = name, eh_HandlerType = extractHandlerType ctx,
     eh_Status = (if err = None then ''success'' else ''error''), eh_Error = opt_text err,
     eh_Duration = d, eh_CreatedAt = now ?s2\<rparr>"
  obtain hs where hs: "append_bounded (im_maxSize s) (im_handlers s) ?h = Ret (hs @ [?h])"
    using append_bounded_last [OF assms(1), of "im_handlers s" ?h] by (elim exE)
  have "persist_AfterPublish env ctx evt err d s = (Ret None, ?s2\<lparr>im_handlers := hs @ [?h]\<rparr>)"
    using assms(2-5) es hs
    by (simp add: persist_AfterPublish_def im_message_store_def run_record_def im_RecordEvent_def im_RecordEventHandler_def Let_def)
  then show ?thesis
    by (intro exI [of _ "?s2\<lparr>im_handlers := hs @ [?h]\<rparr>"] exI [of _ ?e] exI [of _ ?h])
      (simp add: im_GetEvents_def im_GetHandlers_def opt_text_def)
qed

definition demo_persist :: "(InMemoryMessageStore, unit, unit) persist_env" where
  "demo_persist = \<lparr>pe_store = im_message_store, pe_now = (\<lambda>s. (9, s)), pe_Marshal = (\<lambda>v. Inr ''{}''), pe_quote = (\<lambda>s. s),
     pe_resultName = (\<lambda>r. Ret ''R''), pe_resultMarshal = (\<lambda>r. Inr ''{}''), pe_AggregateID = (\<lambda>e. ''agg'')\<rparr>"

theorem persistence_records_event_witness:
  "\<exists>s'. persist_AfterPublish demo_persist (ContextWithHandlerType ctx_Background ''H'')
      (GAny (TNamed ''app'' ''Paid'') ()) (Some ErrNotFound) 4 (NewInMemoryMessageStore None) = (Ret None, s') \<and>
     eh_HandlerType (last (im_GetHandlers s')) = ''H'' \<and> eh_Status (last (im_GetHandlers s')) = ''error''"
proof -
  have "1 \<le> im_maxSize (NewInMemoryMessageStore None)" "extractHandlerType (ContextWithHandlerType ctx_Background ''H'') \<noteq> []"
    "EventNameOf (GAny (TNamed ''app'' ''Paid'') ()) = Ret ''Paid''"
    "pe_store demo_persist = im_message_store" "pe_now demo_persist = (\<lambda>s. ((\<lambda>s. 9) s, s))"
    by (simp_all add: NewInMemoryMessageStore_def EventNameOf_def demo_persist_def)
  from persistence_records_event [OF this, of "Some ErrNotFound" 4] show ?thesis
    by (elim exE conjE) (intro exI conjI, assumption, simp_all)
qed

end
