(* ===== verification/Relationship.thy ===== *)
theory Relationship
  imports EventBusModel "HOL-Library.Product_Lexorder"
begin

text \<open>
  The relationship registry, \<open>relationship/registry.go\<close>, and the buses that fill it,
  \<open>relationship/notifying_bus.go\<close>.
\<close>

record registry =
  rr_commandHandlers :: "(string, string) gomap"
  rr_queryHandlers :: "(string, string) gomap"
  rr_eventHandlers :: "(string, string list) gomap"
  rr_handlerEmits :: "(string, string list) gomap"
  rr_typeDomains :: "(string, string) gomap"

definition NewRegistry :: registry where
  "NewRegistry = \<lparr>rr_commandHandlers = [], rr_queryHandlers = [], rr_eventHandlers = [],
     rr_handlerEmits = [], rr_typeDomains = []\<rparr>"

definition RecordCommandHandler :: "string \<Rightarrow> string \<Rightarrow> registry \<Rightarrow> registry" where
  "RecordCommandHandler commandName handlerName r =
     r\<lparr>rr_commandHandlers := gm_put (rr_commandHandlers r) commandName handlerName\<rparr>"

definition RecordQueryHandler :: "string \<Rightarrow> string \<Rightarrow> registry \<Rightarrow> registry" where
  "RecordQueryHandler queryName handlerName r =
     r\<lparr>rr_queryHandlers := gm_put (rr_queryHandlers r) queryName handlerName\<rparr>"

definition RecordEventHandler :: "string \<Rightarrow> string \<Rightarrow> registry \<Rightarrow> registry" where
  "RecordEventHandler eventName handlerName r =
     (let handlers = gm_or (rr_eventHandlers r) eventName []
      in if handlerName \<in> set handlers then r
         else r\<lparr>rr_eventHandlers := gm_put (rr_eventHandlers r) eventName (handlers @ [handlerName])\<rparr>)"

definition RecordTypeDomain :: "string \<Rightarrow> string \<Rightarrow> registry \<Rightarrow> registry" where
  "RecordTypeDomain typeName domain r = r\<lparr>rr_typeDomains := gm_put (rr_typeDomains r) typeName domain\<rparr>"

definition GetTypeDomain :: "registry \<Rightarrow> string \<Rightarrow> string" where
  "GetTypeDomain r typeName = gm_or (rr_typeDomains r) typeName []"

definition RecordHandlerEmits :: "string \<Rightarrow> string \<Rightarrow> registry \<Rightarrow> registry" where
  "RecordHandlerEmits handlerName eventName r =
     (let events = gm_or (rr_handlerEmits r) handlerName []
      in if eventName \<in> set events then r
         else (let r1 = r\<lparr>rr_handlerEmits := gm_put (rr_handlerEmits r) handlerName (events @ [eventName])\<rparr>;
                   handlerDomain = GetTypeDomain r1 handlerName
               in if handlerDomain \<noteq> [] \<and> GetTypeDomain r1 eventName = []
                  then r1\<lparr>rr_typeDomains := gm_put (rr_typeDomains r1) eventName handlerDomain\<rparr> else r1))"

definition GetCommandHandler :: "registry \<Rightarrow> string \<Rightarrow> string" where
  "GetCommandHandler r commandName = gm_or (rr_commandHandlers r) commandName []"

definition GetQueryHandler :: "registry \<Rightarrow> string \<Rightarrow> string" where
  "GetQueryHandler r queryName = gm_or (rr_queryHandlers r) queryName []"

definition GetEventHandlers :: "registry \<Rightarrow> string \<Rightarrow> string list" where
  "GetEventHandlers r eventName = gm_or (rr_eventHandlers r) eventName []"

definition GetHandlerEmits :: "registry \<Rightarrow> string \<Rightarrow> string list" where
  "GetHandlerEmits r handlerName = gm_or (rr_handlerEmits r) handlerName []"

definition ListCommandTypes :: "registry \<Rightarrow> string list" where
  "ListCommandTypes r = sort_slice (\<lambda>k. k) (map fst (rr_commandHandlers r))"

definition ListQueryTypes :: "registry \<Rightarrow> string list" where
  "ListQueryTypes r = sort_slice (\<lambda>k. k) (map fst (rr_queryHandlers r))"

definition ListEventTypes :: "registry \<Rightarrow> string list" where
  "ListEventTypes r = sort_slice (\<lambda>k. k) (map fst (rr_eventHandlers r))"

subsection \<open>The domain of a package path\<close>

text \<open>\<open>pkgPath[start : start+end]\<close>, or the rest when there is no further slash.\<close>

definition up_to_slash :: "string \<Rightarrow> string" where
  "up_to_slash rest = (case str_index rest ''/'' of None \<Rightarrow> rest | Some e \<Rightarrow> take e rest)"

definition InferDomainFromPkgPath :: "string \<Rightarrow> string" where
  "InferDomainFromPkgPath pkgPath =
     (if pkgPath = [] then []
      else (case str_index pkgPath ''/ddd/'' of
          Some idx \<Rightarrow> up_to_slash (drop (idx + 5) pkgPath)
        | None \<Rightarrow> if has_prefix pkgPath ''ddd/'' then up_to_slash (drop 4 pkgPath) else []))"

subsection \<open>The graph\<close>

record node =
  n_ID :: string
  n_Type :: string
  n_Domain :: string

record edge =
  e_Source :: string
  e_Target :: string
  e_Type :: string

record graph =
  g_Nodes :: "node list"
  g_Edges :: "edge list"
  g_Domains :: "string list"

text \<open>The local variables of \<open>BuildGraph\<close>.\<close>

record build =
  b_nodes :: "(string, node) gomap"
  b_edges :: "edge list"
  b_domains :: "(string, bool) gomap"

definition addNode :: "string \<Rightarrow> string \<Rightarrow> string \<Rightarrow> string \<Rightarrow> string \<Rightarrow> build \<Rightarrow> build" where
  "addNode domainFilter typeFilter i nodeType domain b =
     (if domainFilter \<noteq> [] \<and> domain \<noteq> domainFilter then b
      else if typeFilter \<noteq> [] \<and> nodeType \<noteq> typeFilter then b
      else (let b1 = b\<lparr>b_nodes := gm_put (b_nodes b) i \<lparr>n_ID = i, n_Type = nodeType, n_Domain = domain\<rparr>\<rparr>
            in if domain \<noteq> [] then b1\<lparr>b_domains := gm_put (b_domains b1) domain True\<rparr> else b1))"

definition addEdge :: "string \<Rightarrow> string \<Rightarrow> string \<Rightarrow> build \<Rightarrow> build" where
  "addEdge source target edgeType b =
     b\<lparr>b_edges := b_edges b @ [\<lparr>e_Source = source, e_Target = target, e_Type = edgeType\<rparr>]\<rparr>"

definition build_handles :: "registry \<Rightarrow> string \<Rightarrow> string \<Rightarrow> string \<Rightarrow> (string, string) gomap \<Rightarrow> build \<Rightarrow> build" where
  "build_handles r df tf kind m b = foldl (\<lambda>b (msg, handler).
     let domain = GetTypeDomain r msg
     in addEdge msg handler ''handles'' (addNode df tf handler ''handler'' domain (addNode df tf msg kind domain b))) b m"

definition build_subscribes :: "registry \<Rightarrow> string \<Rightarrow> string \<Rightarrow> build \<Rightarrow> build" where
  "build_subscribes r df tf b = foldl (\<lambda>b (evt, handlers).
     let domain = GetTypeDomain r evt
     in foldl (\<lambda>b handler. addEdge evt handler ''subscribes'' (addNode df tf handler ''handler'' domain b))
          (addNode df tf evt ''event'' domain b) handlers) b (rr_eventHandlers r)"

definition build_emits :: "registry \<Rightarrow> string \<Rightarrow> string \<Rightarrow> build \<Rightarrow> build" where
  "build_emits r df tf b = foldl (\<lambda>b (handler, events).
     let handlerDomain = GetTypeDomain r handler
     in foldl (\<lambda>b evt.
          let evtDomain = (if GetTypeDomain r evt = [] then handlerDomain else GetTypeDomain r evt)
          in addEdge handler evt ''emits'' (addNode df tf evt ''event'' evtDomain b))
          (addNode df tf handler ''handler'' handlerDomain b) events) b (rr_handlerEmits r)"

definition BuildGraph :: "registry \<Rightarrow> string \<Rightarrow> string \<Rightarrow> graph" where
  "BuildGraph r domainFilter typeFilter =
     (let b0 = \<lparr>b_nodes = [], b_edges = [], b_domains = []\<rparr>;
          b1 = build_handles r domainFilter typeFilter ''command'' (rr_commandHandlers r) b0;
          b2 = build_handles r domainFilter typeFilter ''query'' (rr_queryHandlers r) b1;
          b3 = build_subscribes r domainFilter typeFilter b2;
          b4 = build_emits r domainFilter typeFilter b3
      in \<lparr>g_Nodes = sort_slice (\<lambda>n. (n_Type n, n_ID n)) (map snd (b_nodes b4)),
          g_Edges = b_edges b4,
          g_Domains = sort_slice (\<lambda>d. d) (map fst (b_domains b4))\<rparr>)"

subsection \<open>The notifying buses\<close>

text \<open>
  A wrapped bus is its inner bus and the registry.  The inner bus is an argument: what its
  \<open>RegisterHandler\<close> does.
\<close>

definition rel_typeName :: "gtype \<Rightarrow> string" where
  "rel_typeName t = type_Name (if is_ptr t then deref t else t)"

definition rel_typePkgPath :: "gtype \<Rightarrow> string" where
  "rel_typePkgPath t = type_PkgPath (if is_ptr t then deref t else t)"

definition NotifyingCommandBus_RegisterHandler ::
    "('b \<Rightarrow> ('s, 'c, 'd, 'v) handler \<Rightarrow> 'b \<times> go_error option) \<Rightarrow> 'b \<times> registry \<Rightarrow> ('s, 'c, 'd, 'v) handler \<Rightarrow>
     (('b \<times> registry) \<times> go_error option) outcome" where
  "NotifyingCommandBus_RegisterHandler innerReg w h =
     (case extractHandlerPayloadType (h_dyn h) of
        (payloadType, False) \<Rightarrow> (case innerReg (fst w) h of (b, e) \<Rightarrow> Ret ((b, snd w), e))
      | (None, True) \<Rightarrow> Panic ''nil pointer dereference''
      | (Some payloadType, True) \<Rightarrow>
          (let commandName = rel_typeName payloadType;
               handlerName = handlerTypeName (h_dyn h);
               domain = InferDomainFromPkgPath (rel_typePkgPath payloadType);
               reg1 = RecordTypeDomain handlerName domain (RecordTypeDomain commandName domain
                        (RecordCommandHandler commandName handlerName (snd w)))
           in case innerReg (fst w) h of (b, e) \<Rightarrow> Ret ((b, reg1), e)))"

definition NotifyingQueryBus_RegisterHandler ::
    "('b \<Rightarrow> ('s, 'c, 'd, 'v) handler \<Rightarrow> 'b \<times> go_error option) \<Rightarrow> 'b \<times> registry \<Rightarrow> ('s, 'c, 'd, 'v) handler \<Rightarrow>
     (('b \<times> registry) \<times> go_error option) outcome" where
  "NotifyingQueryBus_RegisterHandler innerReg w h =
     (case extractHandlerPayloadType (h_dyn h) of
        (payloadType, False) \<Rightarrow> (case innerReg (fst w) h of (b, e) \<Rightarrow> Ret ((b, snd w), e))
      | (None, True) \<Rightarrow> Panic ''nil pointer dereference''
      | (Some payloadType, True) \<Rightarrow>
          (let queryName = rel_typeName payloadType;
               handlerName = handlerTypeName (h_dyn h);
               domain = InferDomainFromPkgPath (rel_typePkgPath payloadType);
               reg1 = RecordTypeDomain handlerName domain (RecordTypeDomain queryName domain
                        (RecordQueryHandler queryName handlerName (snd w)))
           in case innerReg (fst w) h of (b, e) \<Rightarrow> Ret ((b, reg1), e)))"

definition NotifyingEventBus_SubscribeHandler ::
    "('b \<Rightarrow> ('s, 'c, 'd, 'v) handler \<Rightarrow> ('b \<times> go_error option) outcome) \<Rightarrow> 'b \<times> registry \<Rightarrow> ('s, 'c, 'd, 'v) handler \<Rightarrow>
     (('b \<times> registry) \<times> go_error option) outcome" where
  "NotifyingEventBus_SubscribeHandler innerSub w h =
     (case extractHandlerPayloadType (h_dyn h) of
        (payloadType, False) \<Rightarrow> out_bind (innerSub (fst w) h) (\<lambda>(b, e). Ret ((b, snd w), e))
      | (None, True) \<Rightarrow> Panic ''nil pointer dereference''
      | (Some payloadType, True) \<Rightarrow>
          (let eventName = rel_typeName payloadType;
               handlerName = handlerTypeName (h_dyn h);
               domain = InferDomainFromPkgPath (rel_typePkgPath payloadType);
               reg1 = RecordTypeDomain handlerName domain (RecordTypeDomain eventName domain
                        (RecordEventHandler eventName handlerName (snd w)))
           in out_bind (innerSub (fst w) h) (\<lambda>(b, e). Ret ((b, reg1), e))))"

subsection \<open>The graph is closed under its edges\<close>

definition node_ok :: "string \<Rightarrow> string \<Rightarrow> string set \<Rightarrow> string \<times> node \<Rightarrow> bool" where
  "node_ok df tf ds x \<longleftrightarrow> n_ID (snd x) = fst x \<and> (df = [] \<or> n_Domain (snd x) = df) \<and>
     (tf = [] \<or> n_Type (snd x) = tf) \<and> (n_Domain (snd x) = [] \<or> n_Domain (snd x) \<in> ds)"

definition build_inv :: "string \<Rightarrow> string \<Rightarrow> build \<Rightarrow> bool" where
  "build_inv df tf b \<longleftrightarrow> gm_ok (b_nodes b) \<and> gm_ok (b_domains b) \<and>
     (\<forall>x\<in>set (b_nodes b). node_ok df tf (fst ` set (b_domains b)) x) \<and>
     (df = [] \<and> tf = [] \<longrightarrow>
        (\<forall>e\<in>set (b_edges b). e_Source e \<in> fst ` set (b_nodes b) \<and> e_Target e \<in> fst ` set (b_nodes b)))"

lemma node_ok_mono: "node_ok df tf ds x \<Longrightarrow> ds \<subseteq> ds' \<Longrightarrow> node_ok df tf ds' x"
  by (auto simp: node_ok_def)

text \<open>The invariant, and that without filters the nodes of \<open>S\<close> are there.\<close>

definition build_has :: "string \<Rightarrow> string \<Rightarrow> string set \<Rightarrow> build \<Rightarrow> bool" where
  "build_has df tf S b \<longleftrightarrow> build_inv df tf b \<and> (df = [] \<and> tf = [] \<longrightarrow> S \<subseteq> fst ` set (b_nodes b))"

lemma build_has_addNode:
  assumes "build_has df tf S b"
  shows "build_has df tf (insert i S) (addNode df tf i ty dmn b)"
proof (cases "(df \<noteq> [] \<and> dmn \<noteq> df) \<or> (tf \<noteq> [] \<and> ty \<noteq> tf)")
  case True
  then show ?thesis using assms by (auto simp: addNode_def build_has_def)
next
  case False
  let ?n = "\<lparr>n_ID = i, n_Type = ty, n_Domain = dmn\<rparr>"
  let ?b = "addNode df tf i ty dmn b"
  have nodes: "b_nodes ?b = gm_put (b_nodes b) i ?n" and edges: "b_edges ?b = b_edges b"
    and doms: "b_domains ?b = (if dmn = [] then b_domains b else gm_put (b_domains b) dmn True)"
    using False by (auto simp: addNode_def Let_def)
  have ds: "fst ` set (b_domains b) \<subseteq> fst ` set (b_domains ?b)" "dmn = [] \<or> dmn \<in> fst ` set (b_domains ?b)"
    by (auto simp: doms gm_keys_put)
  have inv: "build_inv df tf b"
    using assms by (simp add: build_has_def)
  have "node_ok df tf (fst ` set (b_domains ?b)) x" if "x \<in> set (b_nodes ?b)" for x
  proof -
    have "x = (i, ?n) \<or> x \<in> set (b_nodes b)"
      using that gm_put_subset [of "b_nodes b" i ?n] nodes by auto
    then show ?thesis
    proof
      assume "x = (i, ?n)"
      then show ?thesis using False ds(2) by (auto simp: node_ok_def)
    next
      assume "x \<in> set (b_nodes b)"
      then show ?thesis using inv node_ok_mono [OF _ ds(1)] by (simp add: build_inv_def)
    qed
  qed
  moreover have "fst ` set (b_nodes ?b) = insert i (fst ` set (b_nodes b))"
    by (simp add: nodes gm_keys_put)
  moreover have "gm_ok (b_nodes ?b)" "gm_ok (b_domains ?b)"
    using inv by (simp_all add: nodes doms build_inv_def)
  ultimately show ?thesis
    using assms edges by (auto simp: build_has_def build_inv_def)
qed

lemma build_has_addEdge:
  assumes "build_has df tf S b" "source \<in> S" "target \<in> S"
  shows "build_has df tf S (addEdge source target ty b)"
  using assms by (auto simp: addEdge_def build_has_def build_inv_def)

lemma build_has_mono: "build_has df tf S b \<Longrightarrow> T \<subseteq> S \<Longrightarrow> build_has df tf T b"
  by (auto simp: build_has_def)

lemma build_has_inv: "build_has df tf {} b \<longleftrightarrow> build_inv df tf b"
  by (simp add: build_has_def)

lemma build_handles_inv: "build_inv df tf b \<Longrightarrow> build_inv df tf (build_handles r df tf kind m b)"
  unfolding build_handles_def
proof (rule foldl_inv, goal_cases)
  case (1 b x)
  obtain msg handler where x: "x = (msg, handler)"
    by (cases x)
  have "build_has df tf {handler, msg} (addNode df tf handler ''handler'' (GetTypeDomain r msg)
      (addNode df tf msg kind (GetTypeDomain r msg) b))"
    using 1 by (intro build_has_addNode) (simp add: build_has_inv)
  then have "build_has df tf {handler, msg} (addEdge msg handler ''handles''
      (addNode df tf handler ''handler'' (GetTypeDomain r msg) (addNode df tf msg kind (GetTypeDomain r msg) b)))"
    by (rule build_has_addEdge) simp_all
  then show ?case by (simp add: x Let_def build_has_def)
qed

lemma build_star:
  assumes "build_has df tf {c} b"
  shows "build_has df tf {c} (foldl (\<lambda>b x. addEdge c x ty (addNode df tf x nty (dmn x) b)) b xs)"
proof (rule foldl_inv [where P = "build_has df tf {c}", OF _ assms])
  fix b x
  assume "build_has df tf {c} b"
  then have "build_has df tf {x, c} (addNode df tf x nty (dmn x) b)"
    by (rule build_has_addNode)
  then have "build_has df tf {x, c} (addEdge c x ty (addNode df tf x nty (dmn x) b))"
    by (rule build_has_addEdge) auto
  then show "build_has df tf {c} (addEdge c x ty (addNode df tf x nty (dmn x) b))"
    by (rule build_has_mono) simp
qed

lemma build_subscribes_inv: "build_inv df tf b \<Longrightarrow> build_inv df tf (build_subscribes r df tf b)"
  unfolding build_subscribes_def
proof (rule foldl_inv, goal_cases)
  case (1 b x)
  obtain evt hs where x: "x = (evt, hs)"
    by (cases x)
  have "build_has df tf {evt} (addNode df tf evt ''event'' (GetTypeDomain r evt) b)"
    using 1 by (intro build_has_addNode) (simp add: build_has_inv)
  from build_star [OF this, of "''subscribes''" "''handler''" "\<lambda>_. GetTypeDomain r evt" hs]
  show ?case by (simp add: x Let_def build_has_def)
qed

lemma build_emits_inv: "build_inv df tf b \<Longrightarrow> build_inv df tf (build_emits r df tf b)"
  unfolding build_emits_def
proof (rule foldl_inv, goal_cases)
  case (1 b x)
  obtain h es where x: "x = (h, es)"
    by (cases x)
  have "build_has df tf {h} (addNode df tf h ''handler'' (GetTypeDomain r h) b)"
    using 1 by (intro build_has_addNode) (simp add: build_has_inv)
  from build_star [OF this, of "''emits''" "''event''" "\<lambda>e. if GetTypeDomain r e = [] then GetTypeDomain r h else GetTypeDomain r e" es]
  show ?case by (simp add: x Let_def build_has_def)
qed

text \<open>
  The graph's nodes are sorted by type and id with distinct ids, pass the filters, and their
  domains are listed; without filters both ends of every edge are nodes of the graph.
\<close>

theorem BuildGraph_closed:
  fixes r df tf
  defines "g \<equiv> BuildGraph r df tf"
  shows "sorted (map (\<lambda>n. (n_Type n, n_ID n)) (g_Nodes g)) \<and> distinct (map n_ID (g_Nodes g)) \<and>
         (\<forall>n\<in>set (g_Nodes g). (df = [] \<or> n_Domain n = df) \<and> (tf = [] \<or> n_Type n = tf) \<and>
            (n_Domain n = [] \<or> n_Domain n \<in> set (g_Domains g))) \<and>
         (df = [] \<and> tf = [] \<longrightarrow>
            (\<forall>e\<in>set (g_Edges g). e_Source e \<in> n_ID ` set (g_Nodes g) \<and> e_Target e \<in> n_ID ` set (g_Nodes g)))"
proof -
  have inv: "build_inv df tf \<lparr>b_nodes = [], b_edges = [], b_domains = []\<rparr>"
    by (simp add: build_inv_def)
  obtain b where b: "build_inv df tf b" and g: "g = \<lparr>g_Nodes = sort_slice (\<lambda>n. (n_Type n, n_ID n)) (map snd (b_nodes b)),
      g_Edges = b_edges b, g_Domains = sort_slice (\<lambda>d. d) (map fst (b_domains b))\<rparr>"
    by (rule that [OF build_emits_inv [OF build_subscribes_inv [OF build_handles_inv [OF build_handles_inv [OF inv]]]]])
      (simp add: g_def BuildGraph_def Let_def)
  have ok: "\<forall>x\<in>set (b_nodes b). node_ok df tf (fst ` set (b_domains b)) x" "distinct (map fst (b_nodes b))"
    using b by (simp_all add: build_inv_def gm_ok_def)
  then have ids: "map n_ID (map snd (b_nodes b)) = map fst (b_nodes b)"
    by (simp add: node_ok_def)
  then have keys: "n_ID ` snd ` set (b_nodes b) = fst ` set (b_nodes b)"
    by (metis list.set_map)
  have "mset (map n_ID (g_Nodes g)) = mset (map fst (b_nodes b))"
    by (simp add: g multiset.map_comp flip: ids)
  then have dist: "distinct (map n_ID (g_Nodes g))"
    using ok(2) mset_eq_imp_distinct_iff by blast
  have nodes: "set (g_Nodes g) = snd ` set (b_nodes b)" and doms: "set (g_Domains g) = fst ` set (b_domains b)"
    by (simp_all add: g)
  show ?thesis
  proof (intro conjI)
    show "sorted (map (\<lambda>n. (n_Type n, n_ID n)) (g_Nodes g))"
      by (simp add: g)
    show "distinct (map n_ID (g_Nodes g))"
      by (rule dist)
    show "\<forall>n\<in>set (g_Nodes g). (df = [] \<or> n_Domain n = df) \<and> (tf = [] \<or> n_Type n = tf) \<and>
            (n_Domain n = [] \<or> n_Domain n \<in> set (g_Domains g))"
      using ok(1) unfolding nodes doms by (simp add: node_ok_def)
    show "df = [] \<and> tf = [] \<longrightarrow>
            (\<forall>e\<in>set (g_Edges g). e_Source e \<in> n_ID ` set (g_Nodes g) \<and> e_Target e \<in> n_ID ` set (g_Nodes g))"
      using b unfolding nodes keys by (simp add: g build_inv_def)
  qed
qed

theorem BuildGraph_closed_witness:
  "distinct (map n_ID (g_Nodes (BuildGraph (RecordCommandHandler ''Create'' ''CreateHandler'' NewRegistry) [] []))) \<and>
   sorted (map (\<lambda>n. (n_Type n, n_ID n)) (g_Nodes (BuildGraph (RecordCommandHandler ''Create'' ''CreateHandler'' NewRegistry) [] [])))"
  using BuildGraph_closed [of "RecordCommandHandler ''Create'' ''CreateHandler'' NewRegistry" "[]" "[]"] by blast

subsection \<open>Domains\<close>

lemma up_to_slash_eq: "up_to_slash s = takeWhile (\<lambda>c. c \<noteq> CHR ''/'') s"
proof (induction s)
  case Nil
  show ?case by (simp add: up_to_slash_def)
next
  case (Cons c s)
  then show ?case
    by (cases "str_index s ''/''") (auto simp: up_to_slash_def has_prefix_def)
qed

text \<open>
  The domain of a package path is the element that follows the first inner element \<open>ddd\<close>; a
  path without one has the element after a leading \<open>ddd\<close>, or no domain.
\<close>

theorem InferDomain_correct:
  "(\<forall>pre rest. p = pre @ ''/ddd/'' @ rest \<and> (\<forall>j<length pre. \<not> has_prefix (drop j p) ''/ddd/'') \<longrightarrow>
      InferDomainFromPkgPath p = takeWhile (\<lambda>c. c \<noteq> CHR ''/'') rest) \<and>
   (\<not> str_contains p ''/ddd/'' \<longrightarrow>
      InferDomainFromPkgPath p =
        (if has_prefix p ''ddd/'' then takeWhile (\<lambda>c. c \<noteq> CHR ''/'') (drop 4 p) else []))"
proof (intro conjI allI impI)
  fix pre rest
  assume p: "p = pre @ ''/ddd/'' @ rest \<and> (\<forall>j<length pre. \<not> has_prefix (drop j p) ''/ddd/'')"
  have "str_index p ''/ddd/'' = Some (length pre)"
    unfolding str_index_Some using p by (auto simp: has_prefix_iff)
  moreover have "p \<noteq> []" "drop (length pre + 5) p = rest"
    using p by simp_all
  ultimately show "InferDomainFromPkgPath p = takeWhile (\<lambda>c. c \<noteq> CHR ''/'') rest"
    by (simp add: InferDomainFromPkgPath_def up_to_slash_eq)
next
  assume "\<not> str_contains p ''/ddd/''"
  then show "InferDomainFromPkgPath p =
        (if has_prefix p ''ddd/'' then takeWhile (\<lambda>c. c \<noteq> CHR ''/'') (drop 4 p) else [])"
    by (auto simp: InferDomainFromPkgPath_def str_contains_def up_to_slash_eq has_prefix_def)
qed

theorem InferDomain_correct_witness:
  "InferDomainFromPkgPath ''shop/ddd/order/command'' = ''order''"
proof -
  have "\<forall>j<length ''shop''. \<not> has_prefix (drop j ''shop/ddd/order/command'') ''/ddd/''"
    by (auto simp: has_prefix_def less_Suc_eq numeral_eq_Suc)
  then have "''shop/ddd/order/command'' = ''shop'' @ ''/ddd/'' @ ''order/command'' \<and>
      (\<forall>j<length ''shop''. \<not> has_prefix (drop j ''shop/ddd/order/command'') ''/ddd/'')"
    by simp
  from conjunct1 [OF InferDomain_correct, rule_format, OF this] show ?thesis by simp
qed

subsection \<open>Notifying buses are transparent\<close>

lemma GetTypeDomain_Record [simp]:
  "GetTypeDomain (RecordTypeDomain n d r) n' = (if n' = n then d else GetTypeDomain r n')"
  by (simp add: GetTypeDomain_def RecordTypeDomain_def)

lemma GetCommandHandler_simps [simp]:
  "GetCommandHandler (RecordCommandHandler n h r) n' = (if n' = n then h else GetCommandHandler r n')"
  "GetCommandHandler (RecordTypeDomain n d r) n' = GetCommandHandler r n'"
  by (simp_all add: GetCommandHandler_def RecordCommandHandler_def RecordTypeDomain_def)

text \<open>
  Registering through a notifying command bus has the inner bus's effect and error; after every
  registration that has a payload type the registry names the handler for the command and knows the
  domain of both.
\<close>

theorem notifying_transparent:
  assumes "NotifyingCommandBus_RegisterHandler CommandBus_RegisterHandler (b, r) h = Ret ((b', r'), e)"
  shows "(b', e) = CommandBus_RegisterHandler b h \<and>
         (\<forall>t. extractHandlerPayloadType (h_dyn h) = (Some t, True) \<longrightarrow>
            GetCommandHandler r' (rel_typeName t) = handlerTypeName (h_dyn h) \<and>
            GetTypeDomain r' (rel_typeName t) = InferDomainFromPkgPath (rel_typePkgPath t) \<and>
            GetTypeDomain r' (handlerTypeName (h_dyn h)) = InferDomainFromPkgPath (rel_typePkgPath t))"
  using assms
  by (auto simp: NotifyingCommandBus_RegisterHandler_def Let_def split: prod.splits bool.splits option.splits)

definition paid_handler :: "string \<Rightarrow> (nat, go_ctx, unit, nat) handler" where
  "paid_handler n =
     \<lparr>h_dyn = \<lparr>ht_type = TPtr (TNamed ''shop/ddd/order/command'' n), ht_methods =
         [\<lparr>m_name = ''Handle'', m_in = [TPtr (TNamed ''shop/ddd/order/command'' n), TNamed ''context'' ''Context'',
                                       TNamed ''shop/ddd/order/command'' ''Pay'']\<rparr>]\<rparr>,
      h_pointer = Ret 1, h_call = (\<lambda>ctx m s. (Ret [RNil, RNil], s))\<rparr>"

lemma paid_handler_payload [simp]:
  "extractHandlerPayloadType (h_dyn (paid_handler n)) = (Some (TNamed ''shop/ddd/order/command'' ''Pay''), True)"
  "handlerTypeName (h_dyn (paid_handler n)) = n"
  by (simp_all add: paid_handler_def extractHandlerPayloadType_def MethodByName_def
      extractPayloadFromHandleMethod_def handlerTypeName_def)

theorem notifying_transparent_witness:
  "\<exists>b' r' e. NotifyingCommandBus_RegisterHandler CommandBus_RegisterHandler (newMessageBus NewAspectChain, NewRegistry)
       (paid_handler ''PayHandler'') = Ret ((b', r'), e) \<and>
     GetCommandHandler r' ''Pay'' = ''PayHandler''"
proof -
  obtain b' r' e where run: "NotifyingCommandBus_RegisterHandler CommandBus_RegisterHandler (newMessageBus NewAspectChain, NewRegistry)
       (paid_handler ''PayHandler'') = Ret ((b', r'), e)"
    by (cases "CommandBus_RegisterHandler (newMessageBus NewAspectChain) (paid_handler ''PayHandler'')")
      (simp add: NotifyingCommandBus_RegisterHandler_def Let_def)
  then show ?thesis
    using notifying_transparent [OF run] by (simp add: rel_typeName_def)
qed

text \<open>
  The registry is written before the inner bus accepts the handler: when a second handler of a
  command is rejected, the bus keeps routing to the first while the registry names the second.
\<close>

theorem rejected_handler_shown:
  assumes "extractHandlerPayloadType (h_dyn h1) = (Some t, True)" "extractHandlerPayloadType (h_dyn h2) = (Some t, True)"
  shows "\<exists>b1 r1 r2 e. NotifyingCommandBus_RegisterHandler CommandBus_RegisterHandler (newMessageBus ch, NewRegistry) h1 = Ret ((b1, r1), None) \<and>
           NotifyingCommandBus_RegisterHandler CommandBus_RegisterHandler (b1, r1) h2 = Ret ((b1, r2), Some e) \<and>
           bus_route b1 (Some t) = Some h1 \<and> GetCommandHandler r2 (rel_typeName t) = handlerTypeName (h_dyn h2)"
proof -
  have p: "handler_payload h1 = Some (Some t)" "handler_payload h2 = Some (Some t)"
    using assms by (simp_all add: handler_payload_def)
  obtain b1 e1 where b1: "CommandBus_RegisterHandler (newMessageBus ch) h1 = (b1, e1)"
    by (cases "CommandBus_RegisterHandler (newMessageBus ch) h1")
  have r1: "e1 = None" "bus_route b1 (Some t) = Some h1"
    using command_bus.reg_free [OF p(1), of "newMessageBus ch"] b1 by simp_all
  obtain b2 e2 where b2: "CommandBus_RegisterHandler b1 h2 = (b2, e2)"
    by (cases "CommandBus_RegisterHandler b1 h2")
  obtain e where "e2 = Some e" "b2 = b1"
    using command_bus.reg_refused [of h2 b1] p(2) r1(2) b2 by auto
  then show ?thesis
    using assms b1 b2 r1 by (simp add: NotifyingCommandBus_RegisterHandler_def Let_def)
qed

theorem rejected_handler_shown_witness:
  "\<exists>b1 r1 r2 e. NotifyingCommandBus_RegisterHandler CommandBus_RegisterHandler (newMessageBus NewAspectChain, NewRegistry) (paid_handler ''A'') = Ret ((b1, r1), None) \<and>
     NotifyingCommandBus_RegisterHandler CommandBus_RegisterHandler (b1, r1) (paid_handler ''B'') = Ret ((b1, r2), Some e) \<and>
     GetCommandHandler r2 ''Pay'' = ''B''"
  using rejected_handler_shown [OF paid_handler_payload(1) paid_handler_payload(1), of NewAspectChain "''A''" "''B''"]
  by (simp add: rel_typeName_def) blast

end
