(* ===== verification/JobCore.thy ===== *)
theory JobCore
  imports MessageBus
begin

text \<open>
  Background jobs: \<open>job/core/job.go\<close> and the stores of \<open>job/memory/job_store.go\<close> and
  \<open>job/pg/job_store.go\<close> (the row scan).  Every method of a job runs under the job's lock and is one
  definition; the clock is an argument \<open>now\<close>.  \<open>jb_done\<close> is the done channel: nil, open or closed.
\<close>

datatype JobStatus = JobStatusPending | JobStatusRunning | JobStatusCompleted | JobStatusFailed | JobStatusCancelled

fun status_text :: "JobStatus \<Rightarrow> string" where
  "status_text JobStatusPending = ''pending''"
| "status_text JobStatusRunning = ''running''"
| "status_text JobStatusCompleted = ''completed''"
| "status_text JobStatusFailed = ''failed''"
| "status_text JobStatusCancelled = ''cancelled''"

datatype done_chan = DoneNil | DoneOpen | DoneClosed

record ('d, 'v) job =
  jb_id :: string
  jb_command :: "'d goany"
  jb_commandType :: string
  jb_status :: JobStatus
  jb_result :: "'v retval"
  jb_resultType :: string
  jb_err :: string
  jb_createdAt :: time
  jb_startedAt :: time
  jb_completedAt :: time
  jb_timeout :: duration
  jb_retryCount :: int
  jb_maxRetries :: int
  jb_done :: done_chan

datatype JobOption = WithTimeout duration | WithMaxRetries int

fun apply_job_option :: "('d, 'v) job \<Rightarrow> JobOption \<Rightarrow> ('d, 'v) job" where
  "apply_job_option j (WithTimeout t) = j\<lparr>jb_timeout := t\<rparr>"
| "apply_job_option j (WithMaxRetries n) = j\<lparr>jb_maxRetries := n\<rparr>"

definition NewJob :: "time \<Rightarrow> string \<Rightarrow> 'd goany \<Rightarrow> JobOption list \<Rightarrow> ('d, 'v) job" where
  "NewJob now i cmd opts = foldl apply_job_option
     \<lparr>jb_id = i, jb_command = cmd, jb_commandType = [], jb_status = JobStatusPending, jb_result = RNil,
      jb_resultType = [], jb_err = [], jb_createdAt = now, jb_startedAt = 0, jb_completedAt = 0,
      jb_timeout = 0, jb_retryCount = 0, jb_maxRetries = 0, jb_done = DoneNil\<rparr> opts"

definition ErrInvalidStateTransition :: go_error where
  "ErrInvalidStateTransition = ErrText ''invalid state transition''"

definition ErrJobNotFound :: go_error where
  "ErrJobNotFound = ErrText ''job not found''"

fun isValidTransition :: "JobStatus \<Rightarrow> JobStatus \<Rightarrow> bool" where
  "isValidTransition JobStatusPending t \<longleftrightarrow> t = JobStatusRunning"
| "isValidTransition JobStatusRunning t \<longleftrightarrow> t = JobStatusCompleted \<or> t = JobStatusFailed \<or> t = JobStatusCancelled"
| "isValidTransition JobStatusFailed t \<longleftrightarrow> t = JobStatusPending"
| "isValidTransition JobStatusCompleted t \<longleftrightarrow> False"
| "isValidTransition JobStatusCancelled t \<longleftrightarrow> False"

definition RestoreJobState ::
    "JobStatus \<Rightarrow> 'v retval \<Rightarrow> string \<Rightarrow> string \<Rightarrow> time \<Rightarrow> time \<Rightarrow> ('d, 'v) job \<Rightarrow> go_error option \<times> ('d, 'v) job" where
  "RestoreJobState status result resultType err startedAt completedAt j =
     (if \<not> isValidTransition (jb_status j) status
      then (Some (ErrWrap (''job '' @ jb_id j @ '': '') ErrInvalidStateTransition
              ('': '' @ status_text (jb_status j) @ '' -> '' @ status_text status)), j)
      else (None, j\<lparr>jb_status := status, jb_result := result, jb_resultType := resultType, jb_err := err,
                    jb_startedAt := startedAt, jb_completedAt := completedAt\<rparr>))"

definition MarkRunning :: "time \<Rightarrow> ('d, 'v) job \<Rightarrow> ('d, 'v) job" where
  "MarkRunning now j = j\<lparr>jb_status := JobStatusRunning, jb_startedAt := now\<rparr>"

definition TryComplete :: "time \<Rightarrow> 'v retval \<Rightarrow> ('d, 'v) job \<Rightarrow> bool \<times> ('d, 'v) job" where
  "TryComplete now result j =
     (if jb_status j = JobStatusCancelled \<or> jb_status j = JobStatusPending then (False, j)
      else (True, j\<lparr>jb_completedAt := now, jb_status := JobStatusCompleted, jb_result := result\<rparr>))"

text \<open>The pair of results is \<open>cancelled\<close> and \<open>shouldRetry\<close>.\<close>

definition TryFail :: "time \<Rightarrow> string \<Rightarrow> ('d, 'v) job \<Rightarrow> (bool \<times> bool) \<times> ('d, 'v) job" where
  "TryFail now errStr j =
     (if jb_status j = JobStatusCancelled \<or> jb_status j = JobStatusPending
      then ((jb_status j = JobStatusCancelled, False), j)
      else (let j1 = j\<lparr>jb_completedAt := now, jb_status := JobStatusFailed, jb_err := errStr\<rparr>
            in if jb_retryCount j1 < jb_maxRetries j1
               then ((False, True), j1\<lparr>jb_retryCount := jb_retryCount j1 + 1\<rparr>)
               else ((False, False), j1)))"

definition TryCancel :: "time \<Rightarrow> ('d, 'v) job \<Rightarrow> go_error option \<times> ('d, 'v) job" where
  "TryCancel now j =
     (if jb_status j = JobStatusCompleted \<or> jb_status j = JobStatusCancelled
      then (Some (ErrText (''job '' @ jb_id j @ '' cannot be cancelled (status: '' @ status_text (jb_status j) @ '')'')), j)
      else (None, j\<lparr>jb_status := JobStatusCancelled, jb_completedAt := now\<rparr>))"

definition ResetForRetry :: "('d, 'v) job \<Rightarrow> go_error option \<times> ('d, 'v) job" where
  "ResetForRetry j =
     (if jb_status j \<noteq> JobStatusFailed then (Some (ErrText (''job '' @ jb_id j @ '' is not in failed state'')), j)
      else (None, j\<lparr>jb_status := JobStatusPending, jb_err := [], jb_result := RNil, jb_startedAt := 0, jb_completedAt := 0\<rparr>))"

definition job_Done :: "('d, 'v) job \<Rightarrow> ('d, 'v) job" where
  "job_Done j = (if jb_done j = DoneNil then j\<lparr>jb_done := DoneOpen\<rparr> else j)"

definition MarkDone :: "('d, 'v) job \<Rightarrow> ('d, 'v) job" where
  "MarkDone j =
     (let j1 = (if jb_done j = DoneNil then j\<lparr>jb_done := DoneOpen\<rparr> else j)
      in if jb_done j1 = DoneClosed then j1 else j1\<lparr>jb_done := DoneClosed\<rparr>)"

definition ResetDone :: "('d, 'v) job \<Rightarrow> ('d, 'v) job" where
  "ResetDone j = j\<lparr>jb_done := DoneOpen\<rparr>"

fun terminal :: "JobStatus \<Rightarrow> bool" where
  "terminal JobStatusCompleted = True"
| "terminal JobStatusFailed = True"
| "terminal JobStatusCancelled = True"
| "terminal JobStatusPending = False"
| "terminal JobStatusRunning = False"

definition job_Snapshot :: "('d, 'v) job \<Rightarrow> ('d, 'v) job" where
  "job_Snapshot j = j\<lparr>jb_done := (if terminal (jb_status j) then DoneClosed else DoneOpen)\<rparr>"

text \<open>The type registry: type texts to types; \<open>NewInstance\<close> gives a pointer to a new value.\<close>

definition TypeRegistry_Register :: "'d goany \<Rightarrow> (string, gtype) gomap \<Rightarrow> (string, gtype) gomap outcome" where
  "TypeRegistry_Register sample r = (case type_of sample of
     None \<Rightarrow> Panic ''nil pointer dereference''
   | Some t \<Rightarrow> (let u = (if is_ptr t then deref t else t) in Ret (gm_put r (type_String u) u)))"

definition TypeRegistry_NewInstance :: "(string, gtype) gomap \<Rightarrow> string \<Rightarrow> gtype option" where
  "TypeRegistry_NewInstance r typeName = map_option TPtr (gm_get r typeName)"

definition job_TypeName :: "'d goany \<Rightarrow> string" where
  "job_TypeName v = (case type_of v of
     None \<Rightarrow> []
   | Some t \<Rightarrow> type_String (if is_ptr t then deref t else t))"

subsection \<open>The in-memory job store\<close>

type_synonym ('d, 'v) job_map = "(string, ('d, 'v) job) gomap"

definition js_Create :: "('d, 'v) job \<Rightarrow> ('d, 'v) job_map \<Rightarrow> go_error option \<times> ('d, 'v) job_map" where
  "js_Create j s =
     (case gm_get s (jb_id j) of
        Some old \<Rightarrow> (Some (ErrWrap (''job '' @ jb_id j @ '': '') ErrAlreadyExists []), s)
      | None \<Rightarrow> (None, gm_put s (jb_id j) (job_Snapshot j)))"

definition js_Get :: "('d, 'v) job_map \<Rightarrow> string \<Rightarrow> go_error + ('d, 'v) job" where
  "js_Get s i =
     (case gm_get s i of
        None \<Rightarrow> Inl (ErrWrap (''job '' @ i @ '': '') ErrNotFound [])
      | Some j \<Rightarrow> Inr (job_Snapshot j))"

definition js_Update :: "('d, 'v) job \<Rightarrow> ('d, 'v) job_map \<Rightarrow> go_error option \<times> ('d, 'v) job_map" where
  "js_Update j s =
     (case gm_get s (jb_id j) of
        None \<Rightarrow> (Some (ErrWrap (''job '' @ jb_id j @ '': '') ErrNotFound []), s)
      | Some old \<Rightarrow> (None, gm_put s (jb_id j) (job_Snapshot j)))"

definition js_List :: "('d, 'v) job_map \<Rightarrow> JobStatus \<Rightarrow> ('d, 'v) job list" where
  "js_List s status = filter (\<lambda>j. jb_status j = status) (map (\<lambda>(i, j). job_Snapshot j) s)"

definition js_Delete :: "string \<Rightarrow> ('d, 'v) job_map \<Rightarrow> go_error option \<times> ('d, 'v) job_map" where
  "js_Delete i s =
     (case gm_get s i of
        None \<Rightarrow> (Some (ErrWrap (''job '' @ i @ '': '') ErrNotFound []), s)
      | Some j \<Rightarrow> (None, gm_del s i))"

subsection \<open>The job store's contract\<close>

text \<open>What \<open>Get\<close> returns of a job is everything but its channel.\<close>

definition same_job :: "('d, 'v) job \<Rightarrow> ('d, 'v) job \<Rightarrow> bool" where
  "same_job a b \<longleftrightarrow> a\<lparr>jb_done := DoneNil\<rparr> = b\<lparr>jb_done := DoneNil\<rparr>"

lemma same_job_refl [simp]: "same_job a a"
  by (simp add: same_job_def)

lemma same_job_snapshot [simp]: "same_job (job_Snapshot a) b \<longleftrightarrow> same_job a b" "same_job a (job_Snapshot b) \<longleftrightarrow> same_job a b"
  by (simp_all add: same_job_def job_Snapshot_def)

lemma same_job_sym: "same_job a b \<Longrightarrow> same_job b a"
  by (simp add: same_job_def)

lemma same_job_trans: "same_job a b \<Longrightarrow> same_job b c \<Longrightarrow> same_job a c"
  by (simp add: same_job_def)

lemma same_job_fields: "same_job a b \<Longrightarrow> jb_id a = jb_id b \<and> jb_status a = jb_status b \<and> jb_result a = jb_result b \<and>
    jb_retryCount a = jb_retryCount b \<and> jb_maxRetries a = jb_maxRetries b"
  unfolding same_job_def by (cases a; cases b) simp

locale job_store =
  fixes create :: "('d, 'v) job \<Rightarrow> 's \<Rightarrow> go_error option \<times> 's"
    and get :: "'s \<Rightarrow> string \<Rightarrow> go_error + ('d, 'v) job"
    and update :: "('d, 'v) job \<Rightarrow> 's \<Rightarrow> go_error option \<times> 's"
  assumes create_ok: "create j s = (None, s') \<Longrightarrow> \<exists>j'. get s' (jb_id j) = Inr j' \<and> same_job j' j"
    and create_dup: "get s (jb_id j) = Inr j0 \<Longrightarrow> \<exists>e. create j s = (Some e, s) \<and> errors_Is e ''ALREADY_EXISTS''"
    and create_new: "get s (jb_id j) = Inl e \<Longrightarrow> \<exists>s'. create j s = (None, s')"
    and update_ok: "get s (jb_id j) = Inr j0 \<Longrightarrow> \<exists>s' j'. update j s = (None, s') \<and> get s' (jb_id j) = Inr j' \<and> same_job j' j"
    and update_missing: "get s (jb_id j) = Inl e \<Longrightarrow> \<exists>e'. update j s = (Some e', s) \<and> errors_Is e' ''NOT_FOUND''"
    and create_other: "i \<noteq> jb_id j \<Longrightarrow> get (snd (create j s)) i = get s i"
    and update_other: "i \<noteq> jb_id j \<Longrightarrow> get (snd (update j s)) i = get s i"
begin

lemma update_error_iff: "fst (update j s) \<noteq> None \<longleftrightarrow> (\<exists>e. get s (jb_id j) = Inl e)"
proof (cases "get s (jb_id j)")
  case (Inl e)
  then show ?thesis using update_missing by fastforce
next
  case (Inr j0)
  then show ?thesis using update_ok [OF Inr] by auto
qed

lemma create_then_updates:
  assumes "create j s = (None, s1)" "jb_id j2 = jb_id j" "fst (update j2 s1) = None"
  shows "\<exists>j'. get (snd (update j2 s1)) (jb_id j) = Inr j' \<and> same_job j' j2"
proof -
  obtain j0 where "get s1 (jb_id j2) = Inr j0"
    using create_ok [OF assms(1)] assms(2) by auto
  from update_ok [OF this] show ?thesis using assms(2) by auto
qed

end

text \<open>
  Less than that contract: which operations succeed depends on the known ids alone.  \<open>good\<close> are the jobs
  a store can represent.
\<close>

datatype ('d, 'v) store_op = SCreate "('d, 'v) job" | SUpdate "('d, 'v) job"

fun op_job :: "('d, 'v) store_op \<Rightarrow> ('d, 'v) job" where
  "op_job (SCreate j) = j"
| "op_job (SUpdate j) = j"

fun store_run ::
    "(('d, 'v) job \<Rightarrow> 's \<Rightarrow> go_error option \<times> 's) \<Rightarrow> (('d, 'v) job \<Rightarrow> 's \<Rightarrow> go_error option \<times> 's) \<Rightarrow>
       ('d, 'v) store_op list \<Rightarrow> 's \<Rightarrow> bool list" where
  "store_run create update [] s = []"
| "store_run create update (SCreate j # ops) s =
     (case create j s of (err, s1) \<Rightarrow> (err = None) # store_run create update ops s1)"
| "store_run create update (SUpdate j # ops) s =
     (case update j s of (err, s1) \<Rightarrow> (err = None) # store_run create update ops s1)"

fun ids_run :: "('d, 'v) store_op list \<Rightarrow> string set \<Rightarrow> bool list" where
  "ids_run [] ids = []"
| "ids_run (SCreate j # ops) ids = (jb_id j \<notin> ids) # ids_run ops (insert (jb_id j) ids)"
| "ids_run (SUpdate j # ops) ids = (jb_id j \<in> ids) # ids_run ops ids"

locale job_rows =
  fixes create :: "('d, 'v) job \<Rightarrow> 's \<Rightarrow> go_error option \<times> 's"
    and update :: "('d, 'v) job \<Rightarrow> 's \<Rightarrow> go_error option \<times> 's"
    and good :: "('d, 'v) job \<Rightarrow> bool"
    and known :: "'s \<Rightarrow> string \<Rightarrow> bool"
  assumes rows_create: "good j \<Longrightarrow>
      \<exists>err s'. create j s = (err, s') \<and> (err = None \<longleftrightarrow> \<not> known s (jb_id j)) \<and>
        (\<forall>i. known s' i \<longleftrightarrow> i = jb_id j \<or> known s i)"
    and rows_update: "good j \<Longrightarrow>
      \<exists>err s'. update j s = (err, s') \<and> (err = None \<longleftrightarrow> known s (jb_id j)) \<and> (\<forall>i. known s' i \<longleftrightarrow> known s i)"
begin

lemma run_ids: "\<forall>opr\<in>set ops. good (op_job opr) \<Longrightarrow> store_run create update ops s = ids_run ops {i. known s i}"
proof (induction ops arbitrary: s)
  case (Cons opr ops)
  then have IH: "\<And>s. store_run create update ops s = ids_run ops {i. known s i}" and g: "good (op_job opr)" by simp_all
  show ?case
  proof (cases opr)
    case (SCreate j)
    then obtain err s' where c: "create j s = (err, s')" "err = None \<longleftrightarrow> \<not> known s (jb_id j)"
        "\<forall>i. known s' i \<longleftrightarrow> i = jb_id j \<or> known s i"
      using rows_create [of j s] g by auto
    have "{i. known s' i} = insert (jb_id j) {i. known s i}" using c(3) by auto
    then show ?thesis using SCreate c(1,2) IH [of s'] by simp
  next
    case (SUpdate j)
    then obtain err s' where c: "update j s = (err, s')" "err = None \<longleftrightarrow> known s (jb_id j)" "\<forall>i. known s' i \<longleftrightarrow> known s i"
      using rows_update [of j s] g by auto
    then show ?thesis using SUpdate IH [of s'] by simp
  qed
qed simp

end

sublocale job_store \<subseteq> rows: job_rows create update "\<lambda>j. True" "\<lambda>s i. \<exists>j. get s i = Inr j"
proof unfold_locales
  fix j :: "('d, 'v) job" and s :: 's
  show "\<exists>err s'. create j s = (err, s') \<and> (err = None \<longleftrightarrow> \<not> (\<exists>j'. get s (jb_id j) = Inr j')) \<and>
      (\<forall>i. (\<exists>j. get s' i = Inr j) \<longleftrightarrow> i = jb_id j \<or> (\<exists>j. get s i = Inr j))"
  proof (cases "get s (jb_id j)")
    case (Inl e)
    then obtain s' where c: "create j s = (None, s')" using create_new by blast
    have "get s' i = get s i" if "i \<noteq> jb_id j" for i using create_other [OF that, of s] c by simp
    moreover have "\<exists>j'. get s' (jb_id j) = Inr j'" using create_ok [OF c] by blast
    ultimately have "(\<exists>j. get s' i = Inr j) \<longleftrightarrow> i = jb_id j \<or> (\<exists>j. get s i = Inr j)" for i
      by (cases "i = jb_id j") simp_all
    then show ?thesis using Inl by (intro exI [of _ None] exI [of _ s']) (simp add: c)
  next
    case (Inr j0)
    then obtain e where "create j s = (Some e, s)" using create_dup by blast
    then show ?thesis using Inr by auto
  qed
  show "\<exists>err s'. update j s = (err, s') \<and> (err = None \<longleftrightarrow> (\<exists>j'. get s (jb_id j) = Inr j')) \<and>
      (\<forall>i. (\<exists>j. get s' i = Inr j) \<longleftrightarrow> (\<exists>j. get s i = Inr j))"
  proof (cases "get s (jb_id j)")
    case (Inl e)
    then obtain e' where "update j s = (Some e', s)" using update_missing by blast
    then show ?thesis using Inl by auto
  next
    case (Inr j0)
    then obtain s' j' where u: "update j s = (None, s')" "get s' (jb_id j) = Inr j'" using update_ok by blast
    have "get s' i = get s i" if "i \<noteq> jb_id j" for i using update_other [OF that, of s] u(1) by simp
    then have "(\<exists>j. get s' i = Inr j) \<longleftrightarrow> (\<exists>j. get s i = Inr j)" for i
      using Inr u(2) by (cases "i = jb_id j") simp_all
    then show ?thesis using Inr by (intro exI [of _ None] exI [of _ s']) (simp add: u(1))
  qed
qed

lemma errors_Is_wrap [simp]: "errors_Is (ErrWrap a e b) code = errors_Is e code"
  by simp

interpretation mem_jobs: job_store js_Create js_Get js_Update
  by unfold_locales (auto simp: js_Create_def js_Get_def js_Update_def split: option.splits)

text \<open>
  Over any sequence of operations the in-memory job store is a finite map: creating fails exactly
  for a known id and updating or deleting exactly for an unknown one, leaving the store unchanged; a
  read returns the job last written under its id, in a snapshot whose done channel is closed exactly
  when the job is in a terminal state.
\<close>

theorem job_store_is_map:
  "(fst (js_Create j s) = None \<longleftrightarrow> gm_get s (jb_id j) = None) \<and>
   (fst (js_Update j s) = None \<longleftrightarrow> gm_get s (jb_id j) \<noteq> None) \<and>
   (fst (js_Delete i s) = None \<longleftrightarrow> gm_get s i \<noteq> None) \<and>
   (fst (js_Create j s) \<noteq> None \<longrightarrow> snd (js_Create j s) = s) \<and>
   (fst (js_Update j s) \<noteq> None \<longrightarrow> snd (js_Update j s) = s) \<and>
   (fst (js_Update j s) = None \<longrightarrow>
      js_Get (snd (js_Update j s)) i =
        (if i = jb_id j then Inr (j\<lparr>jb_done := (if terminal (jb_status j) then DoneClosed else DoneOpen)\<rparr>) else js_Get s i)) \<and>
   (fst (js_Delete i s) = None \<longrightarrow> (\<exists>e. js_Get (snd (js_Delete i s)) i = Inl e \<and> errors_Is e ''NOT_FOUND''))"
  by (auto simp: js_Create_def js_Get_def js_Update_def js_Delete_def job_Snapshot_def split: option.splits)

theorem job_store_is_map_witness:
  "js_Get (snd (js_Update (NewJob 0 ''a'' GNil []) (snd (js_Create (NewJob 0 ''a'' GNil []) [])))) ''a'' =
     Inr ((NewJob 0 ''a'' (GNil :: unit goany) [] :: (unit, unit) job)\<lparr>jb_done := DoneOpen\<rparr>)"
proof -
  have "fst (js_Update (NewJob 0 ''a'' (GNil :: unit goany) []) (snd (js_Create (NewJob 0 ''a'' (GNil :: unit goany) [] :: (unit, unit) job) []))) = None"
    by (simp add: js_Update_def js_Create_def NewJob_def)
  then show ?thesis
    using job_store_is_map [of "NewJob 0 ''a'' (GNil :: unit goany) [] :: (unit, unit) job"
        "snd (js_Create (NewJob 0 ''a'' (GNil :: unit goany) [] :: (unit, unit) job) [])" "''a''"]
    by (simp add: NewJob_def)
qed

end
