(* ===== verification/JobManager.thy ===== *)
theory JobManager
  imports JobCore GoContext
begin

text \<open>
  The job manager, \<open>job/memory/job_manager.go\<close>, over the in-memory job store: its calls one at a
  time, the loop of \<open>executeJob\<close> on its own, and the interleaved steps of one job's executions,
  cancellations and retries.
\<close>

subsection \<open>The execution loop alone\<close>

text \<open>
  \<open>executeJob\<close> while nobody else touches the job.  The command bus is \<open>run\<close>, its answer to the
  \<open>n\<close>-th execution; \<open>stopped n\<close> says whether the manager's stop channel is closed then.  Errors of
  the store go to the caller's handler and do not change the loop.  The result has the number of
  executions.
\<close>

function execute_loop ::
    "(nat \<Rightarrow> 'v retval \<times> go_error option) \<Rightarrow> (nat \<Rightarrow> bool) \<Rightarrow> time \<Rightarrow> nat \<Rightarrow> ('d, 'v) job \<Rightarrow> ('d, 'v) job_map \<Rightarrow>
     ('d, 'v) job \<times> ('d, 'v) job_map \<times> nat" where
  "execute_loop run stopped now n j s =
     (if stopped n then (j, s, n)
      else (let j1 = MarkRunning now j;
                s1 = snd (js_Update j1 s)
            in case run n of
                 (result, Some e) \<Rightarrow>
                   (case TryFail now (error_text e) j1 of
                      ((True, r), j2) \<Rightarrow> (MarkDone j2, s1, n + 1)
                    | ((False, True), j2) \<Rightarrow> execute_loop run stopped now (n + 1) j2 (snd (js_Update j2 s1))
                    | ((False, False), j2) \<Rightarrow> (MarkDone j2, snd (js_Update j2 s1), n + 1))
               | (result, None) \<Rightarrow>
                   (case TryComplete now result j1 of
                      (False, j2) \<Rightarrow> (MarkDone j2, s1, n + 1)
                    | (True, j2) \<Rightarrow> (MarkDone j2, snd (js_Update j2 s1), n + 1))))"
  by pat_completeness auto
termination
  by (relation "measure (\<lambda>(run, stopped, now, n, j, s). nat (jb_maxRetries j - jb_retryCount j))")
    (auto simp: TryFail_def MarkRunning_def Let_def split: if_splits)

declare execute_loop.simps [simp del]

text \<open>The context of an execution: the submitter's trace, with a new span under its span.\<close>

definition executeJob_ctx :: "nat list \<Rightarrow> string \<Rightarrow> string \<Rightarrow> go_ctx" where
  "executeJob_ctx uuid parentTraceID parentSpanID =
     (if parentTraceID = [] then ctx_Background
      else WithParentSpan (WithTrace ctx_Background parentTraceID (NewSpanID uuid)) parentSpanID)"

definition exec_ctx :: "go_ctx \<Rightarrow> time \<Rightarrow> ('d, 'v) job \<Rightarrow> go_ctx" where
  "exec_ctx bgCtx now j = (if 0 < jb_timeout j then ctx_WithTimeout bgCtx now (jb_timeout j) else bgCtx)"

subsection \<open>The manager's calls\<close>

record ('d, 'v) manager =
  jm_store :: "('d, 'v) job_map"
  jm_jobs :: "(string, ('d, 'v) job) gomap"
  jm_cancelers :: "string list"
  jm_cancelled :: "string list"
  jm_spawned :: "string list"
  jm_closed :: bool

text \<open>
  \<open>jm_spawned\<close> lists the jobs whose \<open>executeJob\<close> was started, \<open>jm_cancelled\<close> the cancel functions
  that were called.
\<close>

definition jm_Submit :: "nat list \<Rightarrow> time \<Rightarrow> 'd goany \<Rightarrow> JobOption list \<Rightarrow> ('d, 'v) manager \<Rightarrow>
    (go_error + ('d, 'v) job) \<times> ('d, 'v) manager" where
  "jm_Submit uuid now cmd opts m =
     (let j = NewJob now (hex_EncodeToString uuid) cmd opts
      in case js_Create j (jm_store m) of
           (Some e, s1) \<Rightarrow> (Inl e, m\<lparr>jm_store := s1\<rparr>)
         | (None, s1) \<Rightarrow>
             (Inr j, m\<lparr>jm_store := s1, jm_jobs := gm_put (jm_jobs m) (jb_id j) j, jm_spawned := jm_spawned m @ [jb_id j]\<rparr>))"

definition jm_GetStatus :: "('d, 'v) manager \<Rightarrow> string \<Rightarrow> go_error + ('d, 'v) job" where
  "jm_GetStatus m jobID = js_Get (jm_store m) jobID"

definition jm_Cancel :: "time \<Rightarrow> string \<Rightarrow> ('d, 'v) manager \<Rightarrow> go_error option \<times> ('d, 'v) manager" where
  "jm_Cancel now jobID m =
     (case gm_get (jm_jobs m) jobID of
        Some liveJob \<Rightarrow>
          (case TryCancel now liveJob of
             (Some e, j1) \<Rightarrow> (Some e, m)
           | (None, j1) \<Rightarrow>
               (let m1 = (if jobID \<in> set (jm_cancelers m) then m\<lparr>jm_cancelled := jm_cancelled m @ [jobID]\<rparr> else m);
                    j2 = MarkDone j1;
                    (e, s1) = js_Update j2 (jm_store m1)
                in (e, m1\<lparr>jm_jobs := gm_put (jm_jobs m1) jobID j2, jm_store := s1\<rparr>)))
      | None \<Rightarrow>
          (case js_Get (jm_store m) jobID of
             Inl e \<Rightarrow> (Some e, m)
           | Inr j \<Rightarrow>
               (case TryCancel now j of
                  (Some e, j1) \<Rightarrow> (Some e, m)
                | (None, j1) \<Rightarrow> (let (e, s1) = js_Update j1 (jm_store m) in (e, m\<lparr>jm_store := s1\<rparr>)))))"

text \<open>
  \<open>Retry\<close>, once a live job is done (its channel closed); waiting for that, or for the caller's
  context, is the step \<open>RWait\<close> below.
\<close>

definition jm_Retry :: "string \<Rightarrow> ('d, 'v) manager \<Rightarrow> go_error option \<times> ('d, 'v) manager" where
  "jm_Retry jobID m =
     (case gm_get (jm_jobs m) jobID of
        Some liveJob \<Rightarrow>
          (case ResetForRetry liveJob of
             (Some e, j1) \<Rightarrow> (Some e, m)
           | (None, j1) \<Rightarrow>
               (let j2 = ResetDone j1;
                    m1 = m\<lparr>jm_jobs := gm_put (jm_jobs m) jobID j2\<rparr>
                in case js_Update j2 (jm_store m1) of
                     (Some e, s1) \<Rightarrow> (Some (ErrWrap ''failed to reset job for retry: '' e []), m1\<lparr>jm_store := s1\<rparr>)
                   | (None, s1) \<Rightarrow> (None, m1\<lparr>jm_store := s1, jm_spawned := jm_spawned m1 @ [jobID]\<rparr>)))
      | None \<Rightarrow>
          (case js_Get (jm_store m) jobID of
             Inl e \<Rightarrow> (Some e, m)
           | Inr j \<Rightarrow>
               (case ResetForRetry j of
                  (Some e, j1) \<Rightarrow> (Some e, m)
                | (None, j1) \<Rightarrow>
                    (let j2 = ResetDone j1
                     in case js_Update j2 (jm_store m) of
                          (Some e, s1) \<Rightarrow> (Some (ErrWrap ''failed to reset job for retry: '' e []), m\<lparr>jm_store := s1\<rparr>)
                        | (None, s1) \<Rightarrow>
                            (None, m\<lparr>jm_store := s1, jm_jobs := gm_put (jm_jobs m) (jb_id j2) j2,
                                     jm_spawned := jm_spawned m @ [jb_id j2]\<rparr>)))))"

text \<open>What ends a \<open>Wait\<close>: the job is done, the timeout, or the caller's context.\<close>

datatype wait_end = WaitDone | WaitTimeout | WaitCtx go_error

definition jm_Wait :: "wait_end \<Rightarrow> string \<Rightarrow> ('d, 'v) manager \<Rightarrow> go_error + ('d, 'v) job" where
  "jm_Wait ending jobID m =
     (case gm_get (jm_jobs m) jobID of
        None \<Rightarrow> Inl (ErrWrap (''job '' @ jobID @ '': '') ErrJobNotFound [])
      | Some j \<Rightarrow>
          (case ending of
             WaitDone \<Rightarrow> js_Get (jm_store m) jobID
           | WaitTimeout \<Rightarrow> Inl (ErrText (''job '' @ jobID @ '' timed out waiting for completion''))
           | WaitCtx e \<Rightarrow> Inl e))"

definition jm_ListByStatus :: "('d, 'v) manager \<Rightarrow> JobStatus \<Rightarrow> ('d, 'v) job list" where
  "jm_ListByStatus m status = js_List (jm_store m) status"

definition jm_Shutdown :: "('d, 'v) manager \<Rightarrow> ('d, 'v) manager" where
  "jm_Shutdown m =
     (if jm_closed m then m
      else m\<lparr>jm_closed := True, jm_cancelled := jm_cancelled m @ jm_cancelers m, jm_cancelers := []\<rparr>)"

definition jm_recover_running :: "time \<Rightarrow> ('d, 'v) manager \<Rightarrow> ('d, 'v) manager" where
  "jm_recover_running now m = foldl (\<lambda>m j.
     let (ignored, j1) = RestoreJobState JobStatusFailed RNil [] ''process restarted during execution'' 0 now j
     in m\<lparr>jm_store := snd (js_Update j1 (jm_store m))\<rparr>) m (js_List (jm_store m) JobStatusRunning)"

definition jm_recoverJobs :: "time \<Rightarrow> ('d, 'v) manager \<Rightarrow> ('d, 'v) manager" where
  "jm_recoverJobs now m =
     (let m1 = jm_recover_running now m
      in foldl (\<lambda>m j. m\<lparr>jm_jobs := gm_put (jm_jobs m) (jb_id j) j, jm_spawned := jm_spawned m @ [jb_id j]\<rparr>)
           m1 (js_List (jm_store m1) JobStatusPending))"

subsection \<open>How often a job runs, and how it ends\<close>

lemma js_Update_get:
  "gm_get s (jb_id j) \<noteq> None \<Longrightarrow> gm_get (snd (js_Update j s)) i = (if i = jb_id j then Some (job_Snapshot j) else gm_get s i)"
  by (auto simp: js_Update_def split: option.split)

definition failed_with :: "time \<Rightarrow> string \<Rightarrow> ('d, 'v) job \<Rightarrow> ('d, 'v) job" where
  "failed_with now msg j = (MarkRunning now j)\<lparr>jb_completedAt := now, jb_status := JobStatusFailed, jb_err := msg\<rparr>"

definition completed_with :: "time \<Rightarrow> 'v retval \<Rightarrow> ('d, 'v) job \<Rightarrow> ('d, 'v) job" where
  "completed_with now v j = (MarkRunning now j)\<lparr>jb_completedAt := now, jb_status := JobStatusCompleted, jb_result := v\<rparr>"

lemma execute_loop_step:
  assumes "\<not> stopped n"
  shows "execute_loop run stopped now n j s =
    (let s1 = snd (js_Update (MarkRunning now j) s)
     in case snd (run n) of
          None \<Rightarrow> (let j2 = completed_with now (fst (run n)) j in (MarkDone j2, snd (js_Update j2 s1), n + 1))
        | Some e \<Rightarrow>
            (let j2 = failed_with now (error_text e) j
             in if jb_retryCount j < jb_maxRetries j
                then (let j3 = j2\<lparr>jb_retryCount := jb_retryCount j + 1\<rparr>
                      in execute_loop run stopped now (n + 1) j3 (snd (js_Update j3 s1)))
                else (MarkDone j2, snd (js_Update j2 s1), n + 1)))"
  using assms
  by (subst execute_loop.simps)
    (auto simp: Let_def TryFail_def TryComplete_def failed_with_def completed_with_def MarkRunning_def
       split: prod.splits option.splits)

lemma job_update_fields [simp]:
  "jb_id (MarkRunning now j) = jb_id j" "jb_id (failed_with now e j) = jb_id j" "jb_id (completed_with now v j) = jb_id j"
  "jb_maxRetries (failed_with now e j) = jb_maxRetries j" "jb_retryCount (failed_with now e j) = jb_retryCount j"
  "jb_retryCount (completed_with now v j) = jb_retryCount j"
  "jb_status (failed_with now e j) = JobStatusFailed" "jb_status (completed_with now v j) = JobStatusCompleted"
  "jb_err (failed_with now e j) = e" "jb_result (completed_with now v j) = v"
  by (simp_all add: MarkRunning_def failed_with_def completed_with_def)

lemma MarkDone_fields [simp]:
  "jb_id (MarkDone j) = jb_id j" "jb_status (MarkDone j) = jb_status j" "jb_result (MarkDone j) = jb_result j"
  "jb_err (MarkDone j) = jb_err j" "jb_retryCount (MarkDone j) = jb_retryCount j" "jb_done (MarkDone j) = DoneClosed"
  "same_job a (MarkDone j) = same_job a j" "same_job (MarkDone j) a = same_job j a"
  by (auto simp: MarkDone_def Let_def same_job_def)

lemma job_Done_fields [simp]:
  "jb_status (job_Done j) = jb_status j" "jb_retryCount (job_Done j) = jb_retryCount j"
  "jb_maxRetries (job_Done j) = jb_maxRetries j" "same_job a (job_Done j) \<longleftrightarrow> same_job a j"
  "jb_done (job_Done j) = DoneClosed \<longleftrightarrow> jb_done j = DoneClosed"
  by (simp_all add: job_Done_def same_job_def)

definition first_ok :: "(nat \<Rightarrow> 'v retval \<times> go_error option) \<Rightarrow> nat \<Rightarrow> nat \<Rightarrow> nat option" where
  "first_ok run n b = find (\<lambda>i. snd (run i) = None) [n..<n + b + 1]"

lemma first_ok_simps:
  "first_ok run n 0 = (if snd (run n) = None then Some n else None)"
  "first_ok run n (Suc b) = (if snd (run n) = None then Some n else first_ok run (Suc n) b)"
proof -
  have "[n..<n + Suc b + 1] = n # [Suc n..<Suc n + b + 1]"
    by (simp add: upt_conv_Cons del: upt_Suc)
  then show "first_ok run n (Suc b) = (if snd (run n) = None then Some n else first_ok run (Suc n) b)"
    unfolding first_ok_def by (simp del: upt_Suc)
qed (simp add: first_ok_def)

text \<open>How a run of the loop from execution \<open>n\<close> on ends, with \<open>b\<close> retries left.\<close>

definition loop_outcome :: "(nat \<Rightarrow> 'v retval \<times> go_error option) \<Rightarrow> nat \<Rightarrow> nat \<Rightarrow> ('d, 'v) job \<Rightarrow> ('d, 'v) job \<Rightarrow> nat \<Rightarrow> bool" where
  "loop_outcome run n b j j' n' \<longleftrightarrow>
     (case first_ok run n b of
        Some i \<Rightarrow> n' = i + 1 \<and> jb_status j' = JobStatusCompleted \<and> jb_result j' = fst (run i) \<and>
                  jb_retryCount j' = jb_retryCount j + int (i - n)
      | None \<Rightarrow> n' = n + b + 1 \<and> jb_status j' = JobStatusFailed \<and>
                  jb_err j' = error_text (the (snd (run (n + b)))) \<and> jb_retryCount j' = jb_retryCount j + int b)"

lemma first_ok_Some: "first_ok run n b = Some i \<Longrightarrow> n \<le> i"
  by (auto simp: first_ok_def find_Some_iff simp del: upt_Suc)

lemma execute_loop_outcome:
  assumes "\<forall>k. \<not> stopped k" "gm_get s (jb_id j) \<noteq> None" "b = nat (jb_maxRetries j - jb_retryCount j)"
    and "execute_loop run stopped now n j s = (j', s', n')"
  shows "loop_outcome run n b j j' n' \<and> jb_done j' = DoneClosed \<and> jb_id j' = jb_id j \<and>
         (\<exists>c. gm_get s' (jb_id j) = Some c \<and> same_job c j')"
  using assms
proof (induction b arbitrary: n j s)
  case 0
  then have "\<not> jb_retryCount j < jb_maxRetries j" "\<not> stopped n"
    by simp_all
  with 0 show ?case
    by (cases "snd (run n)") (auto simp: execute_loop_step Let_def loop_outcome_def js_Update_get first_ok_simps)
next
  case (Suc b)
  then have r: "jb_retryCount j < jb_maxRetries j" "\<not> stopped n"
    by simp_all
  show ?case
  proof (cases "snd (run n)")
    case None
    with Suc.prems(1,2,4) r show ?thesis
      by (auto simp: execute_loop_step Let_def loop_outcome_def js_Update_get first_ok_simps)
  next
    case (Some e)
    let ?j3 = "(failed_with now (error_text e) j)\<lparr>jb_retryCount := jb_retryCount j + 1\<rparr>"
    let ?s2 = "snd (js_Update ?j3 (snd (js_Update (MarkRunning now j) s)))"
    have run: "execute_loop run stopped now (Suc n) ?j3 ?s2 = (j', s', n')"
      using Suc.prems(4) r Some by (simp add: execute_loop_step Let_def)
    have has: "gm_get ?s2 (jb_id ?j3) \<noteq> None" "b = nat (jb_maxRetries ?j3 - jb_retryCount ?j3)"
      using Suc.prems(2,3) by (simp_all add: js_Update_get)
    from Suc.IH [OF Suc.prems(1) has run] show ?thesis
      using Some first_ok_Some [of run "Suc n" b]
      by (auto simp: loop_outcome_def first_ok_simps split: option.splits)
  qed
qed

text \<open>
  C4.  Left alone, a submitted job runs until its first successful execution, but at most
  \<open>1 + max(0, maxRetries)\<close> times: it ends completed with that execution's result, or failed with the
  text of the last error; its done channel is closed and the store holds the same final state.
\<close>

theorem executeJob_outcome:
  assumes "\<forall>k. \<not> stopped k" "gm_get s (jb_id j) \<noteq> None" "jb_retryCount j = 0"
    and "execute_loop run stopped now 0 j s = (j', s', n)"
  defines "attempts \<equiv> nat (jb_maxRetries j) + 1"
  shows "(case find (\<lambda>i. snd (run i) = None) [0..<attempts] of
            Some i \<Rightarrow> n = i + 1 \<and> jb_status j' = JobStatusCompleted \<and> jb_result j' = fst (run i)
          | None \<Rightarrow> n = attempts \<and> jb_status j' = JobStatusFailed \<and>
                     jb_err j' = error_text (the (snd (run (attempts - 1))))) \<and>
         jb_done j' = DoneClosed \<and> (\<exists>c. js_Get s' (jb_id j) = Inr c \<and> same_job c j')"
proof -
  from execute_loop_outcome [OF assms(1,2) refl assms(4)]
  have o1: "loop_outcome run 0 (nat (jb_maxRetries j)) j j' n" "jb_done j' = DoneClosed"
    and c: "\<exists>c. gm_get s' (jb_id j) = Some c \<and> same_job c j'"
    using assms(3) by simp_all
  have "\<exists>c. js_Get s' (jb_id j) = Inr c \<and> same_job c j'"
    using c by (auto simp: js_Get_def)
  then show ?thesis
    using o1 by (auto simp: loop_outcome_def attempts_def first_ok_def simp del: upt_Suc split: option.splits)
qed

definition demo_job :: "int \<Rightarrow> (unit, nat) job" where
  "demo_job n = NewJob 0 ''j'' GNil [WithMaxRetries n]"

theorem executeJob_outcome_witness:
  "\<exists>j' s' n. execute_loop (\<lambda>i. if i = 2 then (RVal 7, None) else (RNil, Some ErrNotFound)) (\<lambda>k. False) 5 0
       (demo_job 3) [(''j'', demo_job 3)] = (j', s', n) \<and>
     n = 3 \<and> jb_status j' = JobStatusCompleted \<and> jb_result j' = RVal 7"
proof -
  let ?run = "\<lambda>i :: nat. if i = 2 then (RVal 7, None) else (RNil :: nat retval, Some ErrNotFound)"
  obtain j' s' n where run: "execute_loop ?run (\<lambda>k. False) 5 0 (demo_job 3) [(''j'', demo_job 3)] = (j', s', n)"
    by (cases "execute_loop ?run (\<lambda>k. False) 5 0 (demo_job 3) [(''j'', demo_job 3)]")
  have j: "jb_id (demo_job 3) = ''j''" "jb_retryCount (demo_job 3) = 0" "jb_maxRetries (demo_job 3) = 3"
    by (simp_all add: demo_job_def NewJob_def)
  have "find (\<lambda>i. snd (?run i) = None) [0..<4] = Some 2"
    by (simp add: upt_rec)
  then show ?thesis
    using executeJob_outcome [OF _ _ j(2) run] run j by (simp add: gm_get_def)
qed

subsection \<open>Interleaved executions, cancellations and retries of one job\<close>

text \<open>
  The threads that touch one live job: executions (\<open>W...\<close>, the loop of \<open>executeJob\<close>),
  cancellations (\<open>C...\<close>, \<open>Cancel\<close>) and retries (\<open>R...\<close>, \<open>Retry\<close>).  A program counter is
  the next atomic operation: one locked method of the job, one store update or one look at a channel.
  The store's copy and the stop channel are shared; an execution may return anything.  A retry
  carries whether its context can end (\<open>context.Background\<close> never does) and, once it waits, which
  of the job's done channels it took: \<open>ResetDone\<close> puts a new channel in place, and a retry goes
  on waiting for the one it has.  \<open>sh_gen\<close> numbers the current channel, whose state is the job's;
  \<open>sh_closed\<close> has the replaced channels that were closed.
\<close>

datatype 'v pc =
    WTop | WMarkRunning | WSaveRunning | WExecute | WReturned "'v retval" "go_error option"
  | WSaveRetry | WSaveFinal | WMarkDone
  | CTry | CSignal | CMarkDone | CSave
  | RCall bool | RWait bool nat | RReset | RResetDone | RSave | RSpawn
  | Ended

record ('d, 'v) shared =
  sh_job :: "('d, 'v) job"
  sh_store :: "('d, 'v) job"
  sh_stopped :: bool
  sh_gen :: nat
  sh_closed :: "nat list"

text \<open>\<open>worker_act now pc sh pc' sh'\<close>: one step of \<open>executeJob\<close>.\<close>

inductive worker_act :: "'v pc \<Rightarrow> ('d, 'v) shared \<Rightarrow> 'v pc \<Rightarrow> ('d, 'v) shared \<Rightarrow> bool" where
  w_stop: "sh_stopped sh \<Longrightarrow> worker_act WTop sh Ended sh"
| w_go: "\<not> sh_stopped sh \<Longrightarrow> worker_act WTop sh WMarkRunning sh"
| w_mark: "worker_act WMarkRunning sh WSaveRunning (sh\<lparr>sh_job := MarkRunning now (sh_job sh)\<rparr>)"
| w_save_running: "worker_act WSaveRunning sh WExecute (sh\<lparr>sh_store := job_Snapshot (sh_job sh)\<rparr>)"
| w_execute: "worker_act WExecute sh (WReturned r e) sh"
| w_fail_cancelled: "TryFail now (error_text e) (sh_job sh) = ((True, b), j') \<Longrightarrow>
     worker_act (WReturned r (Some e)) sh WMarkDone (sh\<lparr>sh_job := j'\<rparr>)"
| w_fail_retry: "TryFail now (error_text e) (sh_job sh) = ((False, True), j') \<Longrightarrow>
     worker_act (WReturned r (Some e)) sh WSaveRetry (sh\<lparr>sh_job := j'\<rparr>)"
| w_fail_final: "TryFail now (error_text e) (sh_job sh) = ((False, False), j') \<Longrightarrow>
     worker_act (WReturned r (Some e)) sh WSaveFinal (sh\<lparr>sh_job := j'\<rparr>)"
| w_complete_refused: "TryComplete now r (sh_job sh) = (False, j') \<Longrightarrow>
     worker_act (WReturned r None) sh WMarkDone (sh\<lparr>sh_job := j'\<rparr>)"
| w_complete: "TryComplete now r (sh_job sh) = (True, j') \<Longrightarrow>
     worker_act (WReturned r None) sh WSaveFinal (sh\<lparr>sh_job := j'\<rparr>)"
| w_save_retry: "worker_act WSaveRetry sh WTop (sh\<lparr>sh_store := job_Snapshot (sh_job sh)\<rparr>)"
| w_save_final: "worker_act WSaveFinal sh WMarkDone (sh\<lparr>sh_store := job_Snapshot (sh_job sh)\<rparr>)"
| w_done: "worker_act WMarkDone sh Ended (sh\<lparr>sh_job := MarkDone (sh_job sh)\<rparr>)"

inductive cancel_act :: "'v pc \<Rightarrow> ('d, 'v) shared \<Rightarrow> 'v pc \<Rightarrow> ('d, 'v) shared \<Rightarrow> bool" where
  c_refused: "TryCancel now (sh_job sh) = (Some e, j') \<Longrightarrow> cancel_act CTry sh Ended sh"
| c_cancel: "TryCancel now (sh_job sh) = (None, j') \<Longrightarrow> cancel_act CTry sh CSignal (sh\<lparr>sh_job := j'\<rparr>)"
| c_signal: "cancel_act CSignal sh CMarkDone sh"
| c_done: "cancel_act CMarkDone sh CSave (sh\<lparr>sh_job := MarkDone (sh_job sh)\<rparr>)"
| c_save: "cancel_act CSave sh Ended (sh\<lparr>sh_store := job_Snapshot (sh_job sh)\<rparr>)"

definition chan_closed :: "nat \<Rightarrow> ('d, 'v) shared \<Rightarrow> bool" where
  "chan_closed g sh \<longleftrightarrow> g \<in> set (sh_closed sh) \<or> (g = sh_gen sh \<and> jb_done (sh_job sh) = DoneClosed)"

definition sh_ResetDone :: "('d, 'v) shared \<Rightarrow> ('d, 'v) shared" where
  "sh_ResetDone sh =
     sh\<lparr>sh_job := ResetDone (sh_job sh), sh_gen := Suc (sh_gen sh),
        sh_closed := (if jb_done (sh_job sh) = DoneClosed then sh_gen sh # sh_closed sh else sh_closed sh)\<rparr>"

lemma sh_ResetDone_fields [simp]:
  "sh_job (sh_ResetDone sh) = ResetDone (sh_job sh)" "sh_store (sh_ResetDone sh) = sh_store sh"
  "sh_stopped (sh_ResetDone sh) = sh_stopped sh" "sh_gen (sh_ResetDone sh) = Suc (sh_gen sh)"
  "sh_closed (sh_ResetDone sh) = (if jb_done (sh_job sh) = DoneClosed then sh_gen sh # sh_closed sh else sh_closed sh)"
  by (simp_all add: sh_ResetDone_def)

text \<open>
  A retry takes the job's channel, then waits until that channel is closed or its context ends.  Its
  last step also starts a new execution.
\<close>

inductive retry_act :: "'v pc \<Rightarrow> ('d, 'v) shared \<Rightarrow> 'v pc \<Rightarrow> ('d, 'v) shared \<Rightarrow> bool" where
  r_call: "retry_act (RCall c) sh (RWait c (sh_gen sh)) (sh\<lparr>sh_job := job_Done (sh_job sh)\<rparr>)"
| r_wait: "chan_closed g sh \<Longrightarrow> retry_act (RWait c g) sh RReset sh"
| r_ctx: "retry_act (RWait True g) sh Ended sh"
| r_refused: "ResetForRetry (sh_job sh) = (Some e, j') \<Longrightarrow> retry_act RReset sh Ended sh"
| r_reset: "ResetForRetry (sh_job sh) = (None, j') \<Longrightarrow> retry_act RReset sh RResetDone (sh\<lparr>sh_job := j'\<rparr>)"
| r_reset_done: "retry_act RResetDone sh RSave (sh_ResetDone sh)"
| r_save: "retry_act RSave sh RSpawn (sh\<lparr>sh_store := job_Snapshot (sh_job sh)\<rparr>)"

record ('d, 'v) jstate =
  js_shared :: "('d, 'v) shared"
  js_threads :: "'v pc list"

inductive jm_step :: "('d, 'v) jstate \<Rightarrow> ('d, 'v) jstate \<Rightarrow> bool" where
  s_worker: "i < length ts \<Longrightarrow> worker_act (ts ! i) sh p sh' \<Longrightarrow>
     jm_step \<lparr>js_shared = sh, js_threads = ts\<rparr> \<lparr>js_shared = sh', js_threads = ts[i := p]\<rparr>"
| s_cancel: "i < length ts \<Longrightarrow> cancel_act (ts ! i) sh p sh' \<Longrightarrow>
     jm_step \<lparr>js_shared = sh, js_threads = ts\<rparr> \<lparr>js_shared = sh', js_threads = ts[i := p]\<rparr>"
| s_retry: "i < length ts \<Longrightarrow> retry_act (ts ! i) sh p sh' \<Longrightarrow>
     jm_step \<lparr>js_shared = sh, js_threads = ts\<rparr> \<lparr>js_shared = sh', js_threads = ts[i := p]\<rparr>"
| s_spawn: "i < length ts \<Longrightarrow> ts ! i = RSpawn \<Longrightarrow>
     jm_step \<lparr>js_shared = sh, js_threads = ts\<rparr> \<lparr>js_shared = sh, js_threads = ts[i := Ended] @ [WTop]\<rparr>"
| s_call_cancel: "jm_step \<lparr>js_shared = sh, js_threads = ts\<rparr> \<lparr>js_shared = sh, js_threads = ts @ [CTry]\<rparr>"
| s_call_retry: "jm_step \<lparr>js_shared = sh, js_threads = ts\<rparr> \<lparr>js_shared = sh, js_threads = ts @ [RCall c]\<rparr>"
| s_shutdown: "jm_step \<lparr>js_shared = sh, js_threads = ts\<rparr>
     \<lparr>js_shared = sh\<lparr>sh_stopped := True\<rparr>, js_threads = ts\<rparr>"

text \<open>The state after \<open>Submit\<close>: the store has a snapshot of the new job, one execution is started.\<close>

definition submitted :: "('d, 'v) job \<Rightarrow> ('d, 'v) jstate" where
  "submitted j = \<lparr>js_shared = \<lparr>sh_job = j, sh_store = job_Snapshot j, sh_stopped = False, sh_gen = 0, sh_closed = []\<rparr>,
     js_threads = [WTop]\<rparr>"

inductive_cases worker_actE: "worker_act p sh p' sh'"
inductive_cases cancel_actE: "cancel_act p sh p' sh'"
inductive_cases retry_actE: "retry_act p sh p' sh'"
inductive_cases jm_stepE: "jm_step s s'"

text \<open>Extending a run by one thread's step.\<close>

lemma reach_worker:
  "jm_step\<^sup>*\<^sup>* s0 \<lparr>js_shared = sh, js_threads = ts\<rparr> \<Longrightarrow> i < length ts \<Longrightarrow> worker_act (ts ! i) sh p sh' \<Longrightarrow>
     ts' = ts[i := p] \<Longrightarrow> jm_step\<^sup>*\<^sup>* s0 \<lparr>js_shared = sh', js_threads = ts'\<rparr>"
  by (auto intro: rtranclp.rtrancl_into_rtrancl s_worker)

lemma reach_cancel:
  "jm_step\<^sup>*\<^sup>* s0 \<lparr>js_shared = sh, js_threads = ts\<rparr> \<Longrightarrow> i < length ts \<Longrightarrow> cancel_act (ts ! i) sh p sh' \<Longrightarrow>
     ts' = ts[i := p] \<Longrightarrow> jm_step\<^sup>*\<^sup>* s0 \<lparr>js_shared = sh', js_threads = ts'\<rparr>"
  by (auto intro: rtranclp.rtrancl_into_rtrancl s_cancel)

lemma reach_retry:
  "jm_step\<^sup>*\<^sup>* s0 \<lparr>js_shared = sh, js_threads = ts\<rparr> \<Longrightarrow> i < length ts \<Longrightarrow> retry_act (ts ! i) sh p sh' \<Longrightarrow>
     ts' = ts[i := p] \<Longrightarrow> jm_step\<^sup>*\<^sup>* s0 \<lparr>js_shared = sh', js_threads = ts'\<rparr>"
  by (auto intro: rtranclp.rtrancl_into_rtrancl s_retry)

lemma reach_other:
  "jm_step\<^sup>*\<^sup>* s0 s \<Longrightarrow> jm_step s s' \<Longrightarrow> jm_step\<^sup>*\<^sup>* s0 s'"
  by (rule rtranclp.rtrancl_into_rtrancl)

text \<open>One kind of step of one thread, for the proofs.\<close>

definition thread_act :: "'v pc \<Rightarrow> ('d, 'v) shared \<Rightarrow> 'v pc \<Rightarrow> ('d, 'v) shared \<Rightarrow> bool" where
  "thread_act p sh p' sh' \<longleftrightarrow> worker_act p sh p' sh' \<or> cancel_act p sh p' sh' \<or> retry_act p sh p' sh' \<or>
     (p = RSpawn \<and> p' = Ended \<and> sh' = sh)"

lemma jm_step_cases:
  assumes "jm_step s s'"
  obtains (act) i p' new where "i < length (js_threads s)" "thread_act (js_threads s ! i) (js_shared s) p' (js_shared s')"
      "js_threads s' = (js_threads s)[i := p'] @ new" "new = (if js_threads s ! i = RSpawn then [WTop] else [])"
  | (call) p where "js_shared s' = js_shared s" "js_threads s' = js_threads s @ [p]" "p = CTry \<or> (\<exists>c. p = RCall c)"
  | (shutdown) "js_shared s' = (js_shared s)\<lparr>sh_stopped := True\<rparr>" "js_threads s' = js_threads s"
  using assms
proof cases
  case (s_worker i ts sh p sh')
  moreover from this have "ts ! i \<noteq> RSpawn" by (auto elim: worker_actE)
  ultimately show thesis using act [of i p "[]"] by (simp add: thread_act_def)
next
  case (s_cancel i ts sh p sh')
  moreover from this have "ts ! i \<noteq> RSpawn" by (auto elim: cancel_actE)
  ultimately show thesis using act [of i p "[]"] by (simp add: thread_act_def)
next
  case (s_retry i ts sh p sh')
  moreover from this have "ts ! i \<noteq> RSpawn" by (auto elim: retry_actE)
  ultimately show thesis using act [of i p "[]"] by (simp add: thread_act_def)
next
  case (s_spawn i ts sh)
  then show thesis using act [of i Ended "[WTop]"] by (simp add: thread_act_def)
qed (use call shutdown in simp_all)

subsubsection \<open>The store catches up\<close>

fun pending_save :: "'v pc \<Rightarrow> bool" where
  "pending_save WSaveRunning = True"
| "pending_save WSaveRetry = True"
| "pending_save WSaveFinal = True"
| "pending_save CSignal = True"
| "pending_save CMarkDone = True"
| "pending_save CSave = True"
| "pending_save RResetDone = True"
| "pending_save RSave = True"
| "pending_save p = False"

lemma try_refused_same:
  "TryFail now e j = ((True, b), j') \<Longrightarrow> j' = j"
  "TryComplete now r j = (False, j') \<Longrightarrow> j' = j"
  by (auto simp: TryFail_def TryComplete_def Let_def split: if_splits)

lemma thread_act_sync:
  assumes "thread_act p sh p' sh'"
  shows "pending_save p' \<or> same_job (sh_store sh') (sh_job sh') \<or>
         (\<not> pending_save p \<and> sh_store sh' = sh_store sh \<and> (same_job (sh_store sh) (sh_job sh) \<longrightarrow> same_job (sh_store sh') (sh_job sh')))"
  using assms unfolding thread_act_def
  by (elim disjE worker_actE cancel_actE retry_actE conjE)
    (auto dest: try_refused_same)

definition in_sync :: "('d, 'v) jstate \<Rightarrow> bool" where
  "in_sync s \<longleftrightarrow> same_job (sh_store (js_shared s)) (sh_job (js_shared s)) \<or> (\<exists>t\<in>set (js_threads s). pending_save t)"

lemma in_sync_step: "jm_step s s' \<Longrightarrow> in_sync s \<Longrightarrow> in_sync s'"
proof (erule jm_step_cases, goal_cases)
  case (1 i p' new)
  have p': "p' \<in> set (js_threads s')"
    using 1(2,4) by (simp add: set_update_memI)
  have other: "t \<in> set (js_threads s')" if "t \<in> set (js_threads s)" "t \<noteq> js_threads s ! i" for t
  proof -
    obtain k where "k < length (js_threads s)" "js_threads s ! k = t"
      using \<open>t \<in> set (js_threads s)\<close> by (auto simp: in_set_conv_nth)
    then have "js_threads s' ! k = t" "k < length (js_threads s')"
      using that(2) 1(4) by (cases "k = i"; force simp: nth_append)+
    then show ?thesis by (metis nth_mem)
  qed
  show ?case
  proof (cases "\<exists>t\<in>set (js_threads s). pending_save t \<and> t \<noteq> js_threads s ! i")
    case True
    then show ?thesis using other by (auto simp: in_sync_def)
  next
    case False
    then show ?thesis
      using thread_act_sync [OF 1(3)] 1(1) p' by (auto simp: in_sync_def)
  qed
next
  case (2 p)
  then show ?case by (auto simp: in_sync_def)
next
  case 3
  then show ?case by (auto simp: in_sync_def)
qed

text \<open>
  C13.  However the executions, cancellations, retries and the shutdown of a submitted job interleave:
  whenever no thread still has a store update to make, the store's copy is the job as it is, in every
  field but the done channel.
\<close>

theorem job_store_catches_up:
  assumes "jm_step\<^sup>*\<^sup>* (submitted j) s" "\<forall>t\<in>set (js_threads s). \<not> pending_save t"
  shows "same_job (sh_store (js_shared s)) (sh_job (js_shared s))"
proof -
  have "in_sync s"
    using assms(1)
  proof (induction rule: rtranclp_induct)
    case base
    show ?case by (simp add: in_sync_def submitted_def)
  next
    case (step s s')
    then show ?case using in_sync_step by blast
  qed
  then show ?thesis using assms(2) by (auto simp: in_sync_def)
qed

theorem job_store_catches_up_witness:
  "same_job (sh_store (js_shared (submitted (demo_job 1)))) (sh_job (js_shared (submitted (demo_job 1))))"
  using job_store_catches_up [of "demo_job 1" "submitted (demo_job 1)"] by (simp add: submitted_def)

subsubsection \<open>Retries are bounded\<close>

definition retry_ok :: "('d, 'v) job \<Rightarrow> bool" where
  "retry_ok j \<longleftrightarrow> 0 \<le> jb_retryCount j \<and> jb_retryCount j \<le> max 0 (jb_maxRetries j)"

lemma job_ops_counts:
  "jb_retryCount (MarkRunning now j) = jb_retryCount j" "jb_maxRetries (MarkRunning now j) = jb_maxRetries j"
  "TryComplete now r j = (c, j') \<Longrightarrow> jb_retryCount j' = jb_retryCount j \<and> jb_maxRetries j' = jb_maxRetries j"
  "TryCancel now j = (e, j') \<Longrightarrow> jb_retryCount j' = jb_retryCount j \<and> jb_maxRetries j' = jb_maxRetries j"
  "ResetForRetry j = (e, j') \<Longrightarrow> jb_retryCount j' = jb_retryCount j \<and> jb_maxRetries j' = jb_maxRetries j"
  "jb_maxRetries (MarkDone j) = jb_maxRetries j" "jb_retryCount (ResetDone j) = jb_retryCount j" "jb_maxRetries (ResetDone j) = jb_maxRetries j"
  by (auto simp: MarkRunning_def TryComplete_def TryCancel_def ResetForRetry_def ResetDone_def MarkDone_def Let_def split: if_splits)

lemma TryFail_retry_ok: "TryFail now e j = (b, j') \<Longrightarrow> retry_ok j \<Longrightarrow> retry_ok j' \<and> jb_maxRetries j' = jb_maxRetries j"
  by (auto simp: TryFail_def retry_ok_def Let_def split: if_splits)

lemma thread_act_retry_ok:
  "thread_act p sh p' sh' \<Longrightarrow> retry_ok (sh_job sh) \<Longrightarrow>
     retry_ok (sh_job sh') \<and> jb_maxRetries (sh_job sh') = jb_maxRetries (sh_job sh)"
  unfolding thread_act_def
  by (elim disjE worker_actE cancel_actE retry_actE conjE)
    (simp_all add: job_ops_counts retry_ok_def [of "MarkRunning _ _"] retry_ok_def [of "MarkDone _"]
       retry_ok_def [of "ResetDone _"] flip: retry_ok_def,
     (auto dest: TryFail_retry_ok job_ops_counts(3-5) simp: retry_ok_def)+)

lemma opts_retryCount: "jb_retryCount (foldl apply_job_option j opts) = jb_retryCount j"
proof (induction opts arbitrary: j)
  case (Cons x opts)
  then show ?case by (cases x) simp_all
qed simp

text \<open>
  C22.  In every interleaving the retry count of a submitted job stays between 0 and its maximum, which
  never changes.
\<close>

theorem job_retries_bounded:
  fixes s :: "('d, 'v) jstate"
  assumes "jm_step\<^sup>*\<^sup>* (submitted (NewJob now i cmd opts)) s"
  defines "j \<equiv> sh_job (js_shared s)"
  shows "0 \<le> jb_retryCount j \<and> jb_retryCount j \<le> max 0 (jb_maxRetries (NewJob now i cmd opts :: ('d, 'v) job))"
proof -
  let ?j0 = "NewJob now i cmd opts :: ('d, 'v) job"
  have "retry_ok ?j0"
    by (simp add: NewJob_def retry_ok_def opts_retryCount)
  have inv: "retry_ok (sh_job (js_shared s)) \<and> jb_maxRetries (sh_job (js_shared s)) = jb_maxRetries ?j0"
    using assms(1)
  proof (induction rule: rtranclp_induct)
    case base
    show ?case using \<open>retry_ok ?j0\<close> by (simp add: submitted_def)
  next
    case (step s s')
    from step.hyps(2) show ?case
      by (cases rule: jm_step_cases) (use step.IH thread_act_retry_ok in fastforce)+
  qed
  from inv have "jb_maxRetries j = jb_maxRetries ?j0" "retry_ok j"
    by (simp_all add: j_def)
  then show ?thesis by (metis retry_ok_def)
qed

theorem job_retries_bounded_witness:
  "jb_retryCount (sh_job (js_shared (submitted (NewJob 0 ''j'' (GNil :: unit goany) [WithMaxRetries 2] :: (unit, nat) job)))) \<le> 2"
  using job_retries_bounded [of 0 "''j''" "GNil :: unit goany" "[WithMaxRetries 2]"
      "submitted (NewJob 0 ''j'' GNil [WithMaxRetries 2]) :: (unit, nat) jstate"]
  by (simp add: NewJob_def)

subsubsection \<open>Cancellation\<close>

text \<open>Threads that may still put a cancelled job back to work.\<close>

fun may_revive :: "'v pc \<Rightarrow> bool" where
  "may_revive WTop = True"
| "may_revive WMarkRunning = True"
| "may_revive WSaveRetry = True"
| "may_revive RResetDone = True"
| "may_revive RSave = True"
| "may_revive RSpawn = True"
| "may_revive p = False"

lemma thread_act_cancelled:
  assumes "thread_act p sh p' sh'" "jb_status (sh_job sh) = JobStatusCancelled" "\<not> may_revive p"
  shows "jb_status (sh_job sh') = JobStatusCancelled \<and> \<not> may_revive p'"
  using assms unfolding thread_act_def
  by (elim disjE worker_actE cancel_actE retry_actE conjE)
    (auto simp: TryFail_def TryComplete_def TryCancel_def ResetForRetry_def)

definition cancelled_for_good :: "('d, 'v) jstate \<Rightarrow> bool" where
  "cancelled_for_good s \<longleftrightarrow> jb_status (sh_job (js_shared s)) = JobStatusCancelled \<and> (\<forall>t\<in>set (js_threads s). \<not> may_revive t)"

lemma cancelled_step: "jm_step s s' \<Longrightarrow> cancelled_for_good s \<Longrightarrow> cancelled_for_good s'"
proof (erule jm_step_cases, goal_cases)
  case (1 i p' new)
  have "\<not> may_revive (js_threads s ! i)"
    using 1 by (simp add: cancelled_for_good_def)
  moreover from this have "js_threads s ! i \<noteq> RSpawn"
    by auto
  ultimately have "jb_status (sh_job (js_shared s')) = JobStatusCancelled \<and> \<not> may_revive p'" "new = []"
    using thread_act_cancelled [OF 1(3)] 1 by (auto simp: cancelled_for_good_def split: if_splits)
  then show ?case
    using 1 set_update_subset_insert [of "js_threads s" i p'] by (auto simp: cancelled_for_good_def)
next
  case (2 p)
  then show ?case by (auto simp: cancelled_for_good_def)
next
  case 3
  then show ?case by (auto simp: cancelled_for_good_def)
qed

text \<open>
  C23.  When \<open>TryCancel\<close> succeeds while no execution is before its \<open>MarkRunning\<close> or about to go round
  the loop again, and no retry is past its reset of the job, the job stays cancelled in every later
  interleaving, whatever the running executions return and however often it is cancelled or
  retried again.  Retries that have not reset the job may be waiting.  Without that side condition
  the cancellation can be lost (\<open>cancel_lost\<close> below).
\<close>

theorem cancel_sticks:
  assumes "TryCancel now (sh_job sh) = (None, j')" "\<forall>t\<in>set ts. \<not> may_revive t"
    and "jm_step\<^sup>*\<^sup>* \<lparr>js_shared = sh\<lparr>sh_job := j'\<rparr>, js_threads = ts\<rparr> s"
  shows "jb_status (sh_job (js_shared s)) = JobStatusCancelled"
proof -
  have "cancelled_for_good \<lparr>js_shared = sh\<lparr>sh_job := j'\<rparr>, js_threads = ts\<rparr>"
    using assms(1,2) by (auto simp: cancelled_for_good_def TryCancel_def split: if_splits)
  with assms(3) have "cancelled_for_good s"
    by (induction rule: rtranclp_induct) (auto intro: cancelled_step)
  then show ?thesis by (simp add: cancelled_for_good_def)
qed

theorem cancel_sticks_witness:
  "\<exists>s. jm_step\<^sup>*\<^sup>* \<lparr>js_shared = \<lparr>sh_job = (MarkRunning 1 (demo_job 0))\<lparr>jb_status := JobStatusCancelled, jb_completedAt := 2\<rparr>,
          sh_store = demo_job 0, sh_stopped = False, sh_gen = 0, sh_closed = []\<rparr>,
        js_threads = [WExecute, CSignal, RCall False]\<rparr> s \<and>
      js_threads s = [Ended, Ended, Ended] \<and> jb_status (sh_job (js_shared s)) = JobStatusCancelled"
proof -
  let ?j0 = "MarkRunning 1 (demo_job 0)"
  let ?j1 = "?j0\<lparr>jb_status := JobStatusCancelled, jb_completedAt := 2\<rparr>"
  let ?j2 = "MarkDone ?j1" and ?j3 = "MarkDone (MarkDone ?j1)"
  let ?j4 = "job_Done ?j3"
  let ?h = "\<lambda>j st. \<lparr>sh_job = j, sh_store = st, sh_stopped = False, sh_gen = 0, sh_closed = []\<rparr>"
  let ?st = "demo_job 0" and ?sn = "job_Snapshot ?j3"
  let ?R = "\<lambda>sh ts. jm_step\<^sup>*\<^sup>* \<lparr>js_shared = ?h ?j1 ?st, js_threads = [WExecute, CSignal, RCall False]\<rparr>
     \<lparr>js_shared = sh, js_threads = ts\<rparr>"
  have "?R (?h ?j1 ?st) [WExecute, CSignal, RCall False]"
    by (rule rtranclp.rtrancl_refl)
  then have "?R (?h ?j1 ?st) [WReturned (RVal 7) None, CSignal, RCall False]"
    by (rule reach_worker [where i = 0]) (simp_all add: w_execute)
  then have "?R (?h ?j1 ?st) [WMarkDone, CSignal, RCall False]"
    by (rule reach_worker [where i = 0])
      (use w_complete_refused [of 3 "RVal 7" "?h ?j1 ?st" ?j1] in \<open>simp_all add: TryComplete_def\<close>)
  then have "?R (?h ?j2 ?st) [Ended, CSignal, RCall False]"
    by (rule reach_worker [where i = 0]) (use w_done [of "?h ?j1 ?st"] in simp_all)
  then have "?R (?h ?j2 ?st) [Ended, CMarkDone, RCall False]"
    by (rule reach_cancel [where i = 1]) (simp_all add: c_signal)
  then have "?R (?h ?j3 ?st) [Ended, CSave, RCall False]"
    by (rule reach_cancel [where i = 1]) (use c_done [of "?h ?j2 ?st"] in simp_all)
  then have "?R (?h ?j3 ?sn) [Ended, Ended, RCall False]"
    by (rule reach_cancel [where i = 1]) (use c_save [of "?h ?j3 ?st"] in simp_all)
  then have "?R (?h ?j4 ?sn) [Ended, Ended, RWait False 0]"
    by (rule reach_retry [where i = 2]) (use r_call [of False "?h ?j3 ?sn"] in simp_all)
  then have "?R (?h ?j4 ?sn) [Ended, Ended, RReset]"
    by (rule reach_retry [where i = 2])
      (use r_wait [of 0 "?h ?j4 ?sn" False] in \<open>simp_all add: chan_closed_def job_Done_def MarkDone_def Let_def\<close>)
  then have fin: "?R (?h ?j4 ?sn) [Ended, Ended, Ended]"
    by (rule reach_retry [where i = 2])
      (use r_refused [of "?h ?j4 ?sn"] in \<open>simp_all add: ResetForRetry_def job_Done_def\<close>)
  have "TryCancel 2 ?j0 = (None, ?j1)"
    by (simp add: TryCancel_def MarkRunning_def)
  then have "jb_status (sh_job (js_shared \<lparr>js_shared = ?h ?j4 ?sn, js_threads = [Ended, Ended, Ended :: nat pc]\<rparr>)) = JobStatusCancelled"
    using fin by (intro cancel_sticks [of 2 "?h ?j0 ?st" ?j1 "[WExecute, CSignal, RCall False]"]) simp_all
  then show ?thesis using fin by (intro exI [of _ "\<lparr>js_shared = ?h ?j4 ?sn, js_threads = [Ended, Ended, Ended]\<rparr>"]) simp
qed

text \<open>
  A job cancelled before its execution reached \<open>MarkRunning\<close> may run all the same and end
  completed: \<open>MarkRunning\<close> overwrites the cancelled state after \<open>Cancel\<close> has succeeded.
\<close>

theorem cancel_lost:
  "\<exists>s1 s2. jm_step\<^sup>*\<^sup>* (submitted (demo_job 0)) s1 \<and> js_threads s1 = [WTop, Ended] \<and>
     jb_status (sh_job (js_shared s1)) = JobStatusCancelled \<and> jb_status (sh_store (js_shared s1)) = JobStatusCancelled \<and>
     jm_step\<^sup>*\<^sup>* s1 s2 \<and> js_threads s2 = [Ended, Ended] \<and>
     jb_status (sh_job (js_shared s2)) = JobStatusCompleted \<and> jb_status (sh_store (js_shared s2)) = JobStatusCompleted"
proof -
  let ?S = "\<lambda>j st ts. \<lparr>js_shared = \<lparr>sh_job = j, sh_store = st, sh_stopped = False, sh_gen = 0, sh_closed = []\<rparr>, js_threads = ts\<rparr>"
  let ?j0 = "demo_job 0"
  let ?j1 = "?j0\<lparr>jb_status := JobStatusCancelled, jb_completedAt := 1\<rparr>"
  let ?j2 = "MarkDone ?j1"
  let ?j3 = "MarkRunning 2 ?j2"
  let ?j4 = "?j3\<lparr>jb_completedAt := 3, jb_status := JobStatusCompleted, jb_result := RVal 7\<rparr>"
  have st: "jb_status ?j0 = JobStatusPending" "jb_status ?j3 = JobStatusRunning"
    by (simp_all add: demo_job_def NewJob_def MarkRunning_def)
  have a: "jm_step (submitted ?j0) (?S ?j0 (job_Snapshot ?j0) [WTop, CTry])"
    using s_call_cancel [of "js_shared (submitted ?j0)" "[WTop]"] by (simp add: submitted_def)
  have cx: "jm_step (?S j st [WTop, p]) (?S j' st' [WTop, p'])"
    if "cancel_act p \<lparr>sh_job = j, sh_store = st, sh_stopped = False, sh_gen = 0, sh_closed = []\<rparr> p' \<lparr>sh_job = j', sh_store = st', sh_stopped = False, sh_gen = 0, sh_closed = []\<rparr>"
    for j st p j' st' p'
    using s_cancel [of 1 "[WTop, p]"] that by simp
  have b: "jm_step (?S ?j0 st [WTop, CTry]) (?S ?j1 st [WTop, CSignal])" for st
    using c_cancel [of 1 "\<lparr>sh_job = ?j0, sh_store = st, sh_stopped = False, sh_gen = 0, sh_closed = []\<rparr>" ?j1] st(1)
    by (intro cx) (simp add: TryCancel_def)
  have c: "jm_step (?S ?j1 st [WTop, CSignal]) (?S ?j1 st [WTop, CMarkDone])" for st
    by (intro cx c_signal)
  have d: "jm_step (?S ?j1 st [WTop, CMarkDone]) (?S ?j2 st [WTop, CSave])" for st
    using c_done [of "\<lparr>sh_job = ?j1, sh_store = st, sh_stopped = False, sh_gen = 0, sh_closed = []\<rparr>"] by (intro cx) simp
  have e: "jm_step (?S ?j2 st [WTop, CSave]) (?S ?j2 (job_Snapshot ?j2) [WTop, Ended])" for st
    using c_save [of "\<lparr>sh_job = ?j2, sh_store = st, sh_stopped = False, sh_gen = 0, sh_closed = []\<rparr>"] by (intro cx) simp
  let ?s1 = "?S ?j2 (job_Snapshot ?j2) [WTop, Ended]"
  have r1: "jm_step\<^sup>*\<^sup>* (submitted ?j0) ?s1"
    by (rule converse_rtranclp_into_rtranclp [OF a converse_rtranclp_into_rtranclp [OF b
          converse_rtranclp_into_rtranclp [OF c converse_rtranclp_into_rtranclp [OF d r_into_rtranclp [of jm_step, OF e]]]]])
  have w: "jm_step (?S j st [p, Ended]) (?S j' st' [p', Ended])"
    if "worker_act p \<lparr>sh_job = j, sh_store = st, sh_stopped = False, sh_gen = 0, sh_closed = []\<rparr> p' \<lparr>sh_job = j', sh_store = st', sh_stopped = False, sh_gen = 0, sh_closed = []\<rparr>"
    for j st p j' st' p'
    using s_worker [of 0 "[p, Ended]"] that by simp
  let ?sn = job_Snapshot
  have "worker_act WTop \<lparr>sh_job = ?j2, sh_store = ?sn ?j2, sh_stopped = False, sh_gen = 0, sh_closed = []\<rparr> WMarkRunning \<lparr>sh_job = ?j2, sh_store = ?sn ?j2, sh_stopped = False, sh_gen = 0, sh_closed = []\<rparr>"
    by (rule w_go) simp
  moreover have "worker_act WMarkRunning \<lparr>sh_job = ?j2, sh_store = st, sh_stopped = False, sh_gen = 0, sh_closed = []\<rparr> WSaveRunning \<lparr>sh_job = ?j3, sh_store = st, sh_stopped = False, sh_gen = 0, sh_closed = []\<rparr>" for st
    using w_mark [of "\<lparr>sh_job = ?j2, sh_store = st, sh_stopped = False, sh_gen = 0, sh_closed = []\<rparr>" 2] by simp
  moreover have "worker_act WSaveRunning \<lparr>sh_job = ?j3, sh_store = st, sh_stopped = False, sh_gen = 0, sh_closed = []\<rparr> WExecute \<lparr>sh_job = ?j3, sh_store = ?sn ?j3, sh_stopped = False, sh_gen = 0, sh_closed = []\<rparr>" for st
    using w_save_running [of "\<lparr>sh_job = ?j3, sh_store = st, sh_stopped = False, sh_gen = 0, sh_closed = []\<rparr>"] by simp
  moreover have "worker_act WExecute \<lparr>sh_job = ?j3, sh_store = st, sh_stopped = False, sh_gen = 0, sh_closed = []\<rparr> (WReturned (RVal 7) None) \<lparr>sh_job = ?j3, sh_store = st, sh_stopped = False, sh_gen = 0, sh_closed = []\<rparr>" for st
    by (rule w_execute)
  moreover have "worker_act (WReturned (RVal 7) None) \<lparr>sh_job = ?j3, sh_store = st, sh_stopped = False, sh_gen = 0, sh_closed = []\<rparr> WSaveFinal \<lparr>sh_job = ?j4, sh_store = st, sh_stopped = False, sh_gen = 0, sh_closed = []\<rparr>" for st
    using w_complete [of 3 "RVal 7" "\<lparr>sh_job = ?j3, sh_store = st, sh_stopped = False, sh_gen = 0, sh_closed = []\<rparr>" ?j4] st(2) by (simp add: TryComplete_def)
  moreover have "worker_act WSaveFinal \<lparr>sh_job = ?j4, sh_store = st, sh_stopped = False, sh_gen = 0, sh_closed = []\<rparr> WMarkDone \<lparr>sh_job = ?j4, sh_store = ?sn ?j4, sh_stopped = False, sh_gen = 0, sh_closed = []\<rparr>" for st
    using w_save_final [of "\<lparr>sh_job = ?j4, sh_store = st, sh_stopped = False, sh_gen = 0, sh_closed = []\<rparr>"] by simp
  moreover have "worker_act WMarkDone \<lparr>sh_job = ?j4, sh_store = st, sh_stopped = False, sh_gen = 0, sh_closed = []\<rparr> Ended \<lparr>sh_job = MarkDone ?j4, sh_store = st, sh_stopped = False, sh_gen = 0, sh_closed = []\<rparr>" for st
    using w_done [of "\<lparr>sh_job = ?j4, sh_store = st, sh_stopped = False, sh_gen = 0, sh_closed = []\<rparr>"] by simp
  ultimately have r2: "jm_step\<^sup>*\<^sup>* ?s1 (?S (MarkDone ?j4) (?sn ?j4) [Ended, Ended])"
    by (meson w converse_rtranclp_into_rtranclp rtranclp.rtrancl_refl)
  show ?thesis
    by (rule exI [of _ ?s1], rule exI [of _ "?S (MarkDone ?j4) (?sn ?j4) [Ended, Ended]"])
      (use r1 r2 in \<open>simp add: job_Snapshot_def\<close>)
qed

end
