(* ===== verification/JobTermination.thy ===== *)
theory JobTermination
  imports JobManager
begin

text \<open>
  The threads of one job end: executions, cancellations and retries under way take a bounded number of steps
  in every interleaving (\<open>job/memory/job_manager.go\<close>, the loop of \<open>executeJob\<close>, \<open>Cancel\<close> and \<open>Retry\<close>).
\<close>

text \<open>A step of a thread already under way: no new call and no shutdown.\<close>

definition thread_step :: "('d, 'v) jstate \<Rightarrow> ('d, 'v) jstate \<Rightarrow> bool" where
  "thread_step s s' \<longleftrightarrow> jm_step s s' \<and> (\<exists>i<length (js_threads s). js_threads s' ! i \<noteq> js_threads s ! i)"

text \<open>The steps a thread may still take while it does not go round the loop; a retry's end pays for its execution.\<close>

fun pc_weight :: "'v pc \<Rightarrow> nat" where
  "pc_weight WTop = 8"
| "pc_weight WMarkRunning = 7"
| "pc_weight WSaveRunning = 6"
| "pc_weight WExecute = 5"
| "pc_weight (WReturned r e) = 4"
| "pc_weight WSaveRetry = 9"
| "pc_weight WSaveFinal = 3"
| "pc_weight WMarkDone = 2"
| "pc_weight CTry = 5"
| "pc_weight CSignal = 4"
| "pc_weight CMarkDone = 3"
| "pc_weight CSave = 2"
| "pc_weight (RCall c) = 14"
| "pc_weight (RWait c g) = 13"
| "pc_weight RReset = 12"
| "pc_weight RResetDone = 11"
| "pc_weight RSave = 10"
| "pc_weight RSpawn = 9"
| "pc_weight Ended = 0"

definition retries_left :: "('d, 'v) job \<Rightarrow> nat" where
  "retries_left j = nat (jb_maxRetries j - jb_retryCount j)"

text \<open>Every time round the loop uses one of the job's retries, which all its executions share.\<close>

definition steps_left :: "('d, 'v) jstate \<Rightarrow> nat" where
  "steps_left s = 8 * retries_left (sh_job (js_shared s)) + sum_list (map pc_weight (js_threads s))"

lemma retries_left_ops [simp]:
  "retries_left (MarkRunning now j) = retries_left j" "retries_left (MarkDone j) = retries_left j"
  "retries_left (ResetDone j) = retries_left j" "retries_left (job_Done j) = retries_left j"
  by (simp_all add: retries_left_def MarkRunning_def MarkDone_def ResetDone_def Let_def)

lemma retries_left_try:
  "TryComplete now r j = (c, j') \<Longrightarrow> retries_left j' = retries_left j"
  "TryCancel now j = (e, j') \<Longrightarrow> retries_left j' = retries_left j"
  "ResetForRetry j = (e, j') \<Longrightarrow> retries_left j' = retries_left j"
  "TryFail now m j = ((True, b), j') \<Longrightarrow> retries_left j' = retries_left j"
  "TryFail now m j = ((False, False), j') \<Longrightarrow> retries_left j' = retries_left j"
  "TryFail now m j = ((False, True), j') \<Longrightarrow> Suc (retries_left j') = retries_left j"
  by (auto simp: TryComplete_def TryCancel_def ResetForRetry_def TryFail_def Let_def retries_left_def split: if_splits)

lemma thread_act_pays:
  assumes "thread_act p sh p' sh'"
  shows "8 * retries_left (sh_job sh') + pc_weight p' + (if p = RSpawn then 8 else 0) < 8 * retries_left (sh_job sh) + pc_weight p"
  using assms unfolding thread_act_def
  by (elim disjE worker_actE cancel_actE retry_actE conjE) (auto dest!: retries_left_try)

lemma weight_update:
  assumes "i < length ts" "a + pc_weight p + c < b + pc_weight (ts ! i)"
  shows "a + sum_list (map pc_weight (ts[i := p])) + c < b + sum_list (map pc_weight ts)"
  using assms member_le_sum_list [of "pc_weight (ts ! i)" "map pc_weight ts"]
  by (simp add: map_update sum_list_update)

lemma thread_step_pays:
  assumes "thread_step s s'"
  shows "steps_left s' < steps_left s"
proof -
  from assms have "jm_step s s'" and ch: "\<exists>i<length (js_threads s). js_threads s' ! i \<noteq> js_threads s ! i"
    by (simp_all add: thread_step_def)
  then show ?thesis
  proof cases
    case (s_worker i ts sh p sh')
    then show ?thesis
      using weight_update [of i ts _ p 0] thread_act_pays [of "ts ! i" sh p sh']
      by (fastforce simp: steps_left_def thread_act_def split: if_splits)
  next
    case (s_cancel i ts sh p sh')
    then show ?thesis
      using weight_update [of i ts _ p 0] thread_act_pays [of "ts ! i" sh p sh']
      by (fastforce simp: steps_left_def thread_act_def split: if_splits)
  next
    case (s_retry i ts sh p sh')
    then show ?thesis
      using weight_update [of i ts _ p 0] thread_act_pays [of "ts ! i" sh p sh']
      by (fastforce simp: steps_left_def thread_act_def split: if_splits)
  next
    case (s_spawn i ts sh)
    then show ?thesis
      using weight_update [of i ts _ Ended 8] by (fastforce simp: steps_left_def)
  qed (use ch in \<open>auto simp: nth_append\<close>)
qed

lemma worker_act_changes: "worker_act p sh p' sh' \<Longrightarrow> p' \<noteq> p"
  by (auto elim: worker_actE)

text \<open>
  What a thread may be waiting for outside the manager's own code: the command's handler, which
  need not return, and a done channel that nobody has closed.
\<close>

fun waiting :: "'v pc \<Rightarrow> ('d, 'v) shared \<Rightarrow> bool" where
  "waiting WExecute sh = True"
| "waiting (RWait c g) sh = (\<not> chan_closed g sh)"
| "waiting p sh = False"

text \<open>Every other thread that has not ended can take a step of its own.\<close>

lemma thread_can_step:
  assumes "i < length ts" "ts ! i \<noteq> Ended" "\<not> waiting (ts ! i) sh"
  shows "\<exists>s'. thread_step \<lparr>js_shared = sh, js_threads = ts\<rparr> s' \<and> js_threads s' ! i \<noteq> ts ! i"
proof -
  let ?s = "\<lparr>js_shared = sh, js_threads = ts\<rparr>"
  have act: "\<exists>s'. thread_step ?s s' \<and> js_threads s' ! i \<noteq> ts ! i" if "worker_act (ts ! i) sh p sh' \<or> cancel_act (ts ! i) sh p sh' \<or> retry_act (ts ! i) sh p sh'"
    "p \<noteq> ts ! i" for p sh'
  proof -
    have "jm_step ?s \<lparr>js_shared = sh', js_threads = ts[i := p]\<rparr>"
      using that(1) assms(1) by (auto intro: jm_step.intros)
    then show ?thesis
      using that(2) assms(1) unfolding thread_step_def by (metis nth_list_update_eq jstate.select_convs(2))
  qed
  show ?thesis
  proof (cases "ts ! i")
    case WTop
    then show ?thesis
      using act [of Ended sh] act [of WMarkRunning sh] w_stop [of sh] w_go [of sh] by auto
  next
    case (WReturned r e)
    then show ?thesis
    proof (cases e)
      case None
      obtain c j' where "TryComplete 0 r (sh_job sh) = (c, j')" by (meson surj_pair)
      then show ?thesis
        using act [of WMarkDone "sh\<lparr>sh_job := j'\<rparr>"] act [of WSaveFinal "sh\<lparr>sh_job := j'\<rparr>"] WReturned None
          w_complete [of 0 r sh j'] w_complete_refused [of 0 r sh j'] by (cases c) auto
    next
      case (Some m)
      obtain a b j' where "TryFail 0 (error_text m) (sh_job sh) = ((a, b), j')" by (metis surj_pair)
      then show ?thesis
        using act [of WMarkDone "sh\<lparr>sh_job := j'\<rparr>"] act [of WSaveFinal "sh\<lparr>sh_job := j'\<rparr>"] act [of WSaveRetry "sh\<lparr>sh_job := j'\<rparr>"]
          WReturned Some w_fail_cancelled [of 0 m sh b j' r] w_fail_retry [of 0 m sh j' r] w_fail_final [of 0 m sh j' r]
        by (cases a; cases b) auto
    qed
  next
    case CTry
    obtain e j' where "TryCancel 0 (sh_job sh) = (e, j')" by (meson surj_pair)
    then show ?thesis
      using act [of Ended sh] act [of CSignal "sh\<lparr>sh_job := j'\<rparr>"] CTry c_refused [of 0 sh _ j'] c_cancel [of 0 sh j']
      by (cases e) auto
  next
    case RReset
    obtain e j' where "ResetForRetry (sh_job sh) = (e, j')" by (meson surj_pair)
    then show ?thesis
      using act [of Ended sh] act [of RResetDone "sh\<lparr>sh_job := j'\<rparr>"] RReset r_refused [of sh _ j'] r_reset [of sh j']
      by (cases e) auto
  next
    case RSpawn
    then have "jm_step ?s \<lparr>js_shared = sh, js_threads = ts[i := Ended] @ [WTop]\<rparr>"
      using assms(1) by (rule_tac s_spawn)
    then show ?thesis
      using RSpawn assms(1) unfolding thread_step_def
      by (intro exI [of _ "\<lparr>js_shared = sh, js_threads = ts[i := Ended] @ [WTop]\<rparr>"] conjI exI [of _ i])
        (simp_all add: nth_append)
  next
    case (RCall c)
    then show ?thesis using act r_call [of c sh] by (metis pc.distinct)
  next
    case (RWait c g)
    then show ?thesis using act r_wait [of g sh c] assms(3) by (metis pc.distinct waiting.simps(2))
  next
    case WExecute
    then show ?thesis using assms(3) by simp
  qed (use act assms(2) worker_act.intros cancel_act.intros retry_act.intros in \<open>metis pc.distinct\<close>)+
qed

lemma thread_steps_bounded: "(thread_step ^^ n) s s' \<Longrightarrow> n + steps_left s' \<le> steps_left s"
proof (induction n arbitrary: s')
  case (Suc n)
  then obtain t where "(thread_step ^^ n) s t" "thread_step t s'"
    by auto
  with Suc.IH [of t] thread_step_pays [of t s'] show ?case by simp
qed simp

subsection \<open>The done channel gets closed\<close>

text \<open>Threads that still have to close the job's current done channel, or to start an execution that has.\<close>

fun owes_done :: "'v pc \<Rightarrow> bool" where
  "owes_done (WReturned r e) = True"
| "owes_done p = (p \<in> {WTop, WMarkRunning, WSaveRunning, WExecute, WSaveRetry, WSaveFinal, WMarkDone, RSave, RSpawn})"

definition done_or_owed :: "('d, 'v) jstate \<Rightarrow> bool" where
  "done_or_owed s \<longleftrightarrow> sh_stopped (js_shared s) \<or> jb_done (sh_job (js_shared s)) = DoneClosed \<or>
     (\<exists>t\<in>set (js_threads s). owes_done t)"

lemma try_keeps_done:
  "TryFail now m j = (r, j') \<Longrightarrow> jb_done j' = jb_done j" "TryComplete now v j = (c, j') \<Longrightarrow> jb_done j' = jb_done j"
  "TryCancel now j = (e, j') \<Longrightarrow> jb_done j' = jb_done j" "ResetForRetry j = (e, j') \<Longrightarrow> jb_done j' = jb_done j"
  "jb_done (MarkRunning now j) = jb_done j"
  by (auto simp: TryFail_def TryComplete_def TryCancel_def ResetForRetry_def MarkRunning_def Let_def split: if_splits)

lemma thread_act_done:
  assumes "thread_act p sh p' sh'"
  shows "sh_stopped sh' = sh_stopped sh \<and>
         (sh_stopped sh \<or> jb_done (sh_job sh') = DoneClosed \<or> owes_done p' \<or> p = RSpawn \<or>
          \<not> owes_done p \<and> jb_done (sh_job sh) \<noteq> DoneClosed)"
  using assms unfolding thread_act_def
  by (elim disjE worker_actE cancel_actE retry_actE conjE) (auto simp: try_keeps_done)

lemma done_or_owed_step: "jm_step s s' \<Longrightarrow> done_or_owed s \<Longrightarrow> done_or_owed s'"
proof (erule jm_step_cases, goal_cases)
  case (1 i p' new)
  have p': "p' \<in> set (js_threads s')"
    using 1(2,4) by (simp add: set_update_memI)
  have other: "t \<in> set (js_threads s')" if "t \<in> set (js_threads s)" "t \<noteq> js_threads s ! i" for t
    using that 1(2,4) by (metis UnCI in_set_conv_nth length_list_update nth_list_update_neq nth_mem set_append)
  show ?case
    using 1 thread_act_done [OF 1(3)] p' other by (auto simp: done_or_owed_def)
next
  case (2 p)
  then show ?case by (auto simp: done_or_owed_def)
next
  case 3
  then show ?case by (auto simp: done_or_owed_def)
qed

lemma reachable_done_or_owed: "jm_step\<^sup>*\<^sup>* (submitted j) s \<Longrightarrow> done_or_owed s"
  by (induction rule: rtranclp_induct) (simp_all add: done_or_owed_def [of "submitted j"] done_or_owed_step, simp add: submitted_def)

lemma thread_steps_run: "(thread_step ^^ n) s s' \<Longrightarrow> jm_step\<^sup>*\<^sup>* s s'"
proof (induction n arbitrary: s')
  case (Suc n)
  then obtain t where "(thread_step ^^ n) s t" "thread_step t s'"
    by auto
  then have "jm_step\<^sup>*\<^sup>* s t" "jm_step t s'"
    using Suc.IH [of t] by (simp_all add: thread_step_def [of t])
  then show ?case
    by (rule rtranclp.rtrancl_into_rtrancl)
qed simp

text \<open>
  C12.  In any state a submitted job can be in, whatever the interleaving and whatever the executions return:
  the threads under way take at most \<open>steps_left\<close> further steps, eight per remaining retry and a constant
  per thread (\<open>8 * r + 8\<close> for a fresh job with \<open>r\<close> retries); a thread that has not ended can take a step of
  its own, unless it is an execution whose handler has not returned or a retry on an open done channel; and
  as long as nobody shut the manager down, the job's current done channel is closed once no execution is
  left and none is about to start.  A retry whose context never ends can nevertheless wait for ever, after
  a shutdown or on a replaced channel (\<open>retry_stuck_after_shutdown\<close>, \<open>retry_stuck_on_old_channel\<close> below).
\<close>

theorem job_threads_terminate:
  fixes s :: "('d, 'v) jstate"
  assumes "jm_step\<^sup>*\<^sup>* (submitted (NewJob now i cmd opts)) s" "(thread_step ^^ n) s s'"
  shows "n \<le> steps_left s \<and>
    steps_left (submitted (NewJob now i cmd opts :: ('d, 'v) job)) =
      8 * nat (jb_maxRetries (NewJob now i cmd opts :: ('d, 'v) job)) + 8 \<and>
    (\<forall>k<length (js_threads s'). js_threads s' ! k = Ended \<or> waiting (js_threads s' ! k) (js_shared s') \<or>
       (\<exists>s''. thread_step s' s'' \<and> js_threads s'' ! k \<noteq> js_threads s' ! k)) \<and>
    (\<not> sh_stopped (js_shared s') \<longrightarrow> (\<forall>t\<in>set (js_threads s'). \<not> owes_done t) \<longrightarrow>
       chan_closed (sh_gen (js_shared s')) (js_shared s'))"
proof (intro conjI impI allI)
  show "n \<le> steps_left s"
    using thread_steps_bounded [OF assms(2)] by simp
  have "jb_retryCount (NewJob now i cmd opts :: ('d, 'v) job) = 0"
    by (simp add: NewJob_def opts_retryCount)
  then show "steps_left (submitted (NewJob now i cmd opts :: ('d, 'v) job)) =
      8 * nat (jb_maxRetries (NewJob now i cmd opts :: ('d, 'v) job)) + 8"
    by (simp add: steps_left_def submitted_def retries_left_def)
  show "js_threads s' ! k = Ended \<or> waiting (js_threads s' ! k) (js_shared s') \<or>
      (\<exists>s''. thread_step s' s'' \<and> js_threads s'' ! k \<noteq> js_threads s' ! k)" if "k < length (js_threads s')" for k
    using thread_can_step [of k "js_threads s'" "js_shared s'"] that by (cases s') auto
  assume "\<not> sh_stopped (js_shared s')" "\<forall>t\<in>set (js_threads s'). \<not> owes_done t"
  moreover have "done_or_owed s'"
    using assms(1) thread_steps_run [OF assms(2)] by (intro reachable_done_or_owed) (rule rtranclp_trans)
  ultimately show "chan_closed (sh_gen (js_shared s')) (js_shared s')"
    by (auto simp: done_or_owed_def chan_closed_def)
qed

theorem job_threads_terminate_witness:
  "(1 :: nat) \<le> steps_left (submitted (demo_job 1)) \<and> steps_left (submitted (demo_job 1)) = 16"
proof -
  let ?s = "submitted (demo_job 1)"
  have "jm_step ?s \<lparr>js_shared = js_shared ?s, js_threads = [WTop :: nat pc][0 := WMarkRunning]\<rparr>"
    using s_worker [of 0 "[WTop :: nat pc]" "js_shared ?s" WMarkRunning "js_shared ?s"] w_go [of "js_shared ?s"]
    by (simp add: submitted_def)
  then have "thread_step ?s \<lparr>js_shared = js_shared ?s, js_threads = [WMarkRunning]\<rparr>"
    by (simp add: thread_step_def submitted_def)
  then have step: "(thread_step ^^ 1) ?s \<lparr>js_shared = js_shared ?s, js_threads = [WMarkRunning]\<rparr>"
    by (simp only: relpowp_1)
  show ?thesis
    using job_threads_terminate [OF rtranclp.rtrancl_refl step [unfolded demo_job_def]]
    by (simp add: demo_job_def NewJob_def)
qed

subsection \<open>Retries that wait for ever\<close>

text \<open>
  A job shut down before its execution started never closes its done channel: the execution leaves
  through the stop channel.  A retry with \<open>context.Background\<close> then waits, and no thread can move.
\<close>

theorem retry_stuck_after_shutdown:
  "\<exists>s. jm_step\<^sup>*\<^sup>* (submitted (demo_job 0)) s \<and> js_threads s = [Ended, RWait False 0] \<and> (\<forall>s'. \<not> thread_step s s')"
proof -
  let ?h = "\<lambda>j b. \<lparr>sh_job = j, sh_store = job_Snapshot (demo_job 0), sh_stopped = b, sh_gen = 0, sh_closed = []\<rparr>"
  let ?j = "demo_job 0" and ?j1 = "job_Done (demo_job 0)"
  let ?R = "\<lambda>sh ts. jm_step\<^sup>*\<^sup>* (submitted ?j) \<lparr>js_shared = sh, js_threads = ts\<rparr>"
  have "?R (?h ?j False) [WTop]"
    by (simp add: submitted_def)
  then have "?R (?h ?j True) [WTop]"
    using s_shutdown [of "?h ?j False" "[WTop]"] by (auto intro: reach_other)
  then have "?R (?h ?j True) [Ended]"
    by (rule reach_worker [where i = 0]) (use w_stop [of "?h ?j True"] in simp_all)
  then have "?R (?h ?j True) [Ended, RCall False]"
    using s_call_retry [of "?h ?j True" "[Ended]" False] by (auto intro: reach_other)
  then have fin: "?R (?h ?j1 True) [Ended, RWait False 0]"
    by (rule reach_retry [where i = 1]) (use r_call [of False "?h ?j True"] in simp_all)
  have "\<not> thread_step \<lparr>js_shared = ?h ?j1 True, js_threads = [Ended, RWait False 0]\<rparr> s'" for s'
  proof
    assume "thread_step \<lparr>js_shared = ?h ?j1 True, js_threads = [Ended, RWait False 0]\<rparr> s'"
    then obtain i where step: "jm_step \<lparr>js_shared = ?h ?j1 True, js_threads = [Ended, RWait False 0]\<rparr> s'"
      and ch: "i < Suc (Suc 0)" "js_threads s' ! i \<noteq> [Ended, RWait False 0] ! i"
      by (auto simp: thread_step_def)
    have no: "\<not> thread_act ([Ended, RWait False 0] ! k) (?h ?j1 True) p' sh'" if "k < Suc (Suc 0)" for k p' and sh' :: "(unit, nat) shared"
      using that by (cases k) (auto simp: thread_act_def chan_closed_def demo_job_def NewJob_def
          elim: worker_actE cancel_actE retry_actE)
    from step show False
      by (cases rule: jm_step_cases) (use no ch in \<open>auto simp: nth_append less_Suc_eq\<close>)
  qed
  with fin show ?thesis by (intro exI [of _ "\<lparr>js_shared = ?h ?j1 True, js_threads = [Ended, RWait False 0]\<rparr>"]) simp
qed

text \<open>A channel that was replaced while open stays open, whatever is called afterwards.\<close>

lemma old_channel_step:
  assumes "jm_step s s'" "k < length (js_threads s)" "js_threads s ! k = RWait False g"
    and "g < sh_gen (js_shared s)" "g \<notin> set (sh_closed (js_shared s))"
  shows "k < length (js_threads s') \<and> js_threads s' ! k = RWait False g \<and> g < sh_gen (js_shared s') \<and>
         g \<notin> set (sh_closed (js_shared s'))"
  using assms(1)
proof (cases rule: jm_step_cases)
  case (act i p' new)
  have "sh_gen (js_shared s) \<le> sh_gen (js_shared s') \<and>
      set (sh_closed (js_shared s')) \<subseteq> insert (sh_gen (js_shared s)) (set (sh_closed (js_shared s)))"
    using act(2) unfolding thread_act_def by (elim disjE worker_actE cancel_actE retry_actE conjE) auto
  moreover have "i \<noteq> k"
    using act(2) assms(3-5) unfolding thread_act_def
    by (auto simp: chan_closed_def elim: worker_actE cancel_actE retry_actE)
  ultimately show ?thesis
    using act assms by (auto simp: nth_append)
qed (use assms in \<open>auto simp: nth_append\<close>)

text \<open>
  Two retries of one failed job can both pass the wait.  The second one resets the job when the first
  one's execution has failed it again but not yet closed the channel: that channel is replaced while
  it is open, nobody closes it any more, and a third retry that took it waits for ever, without any
  shutdown, whatever happens to the job afterwards.
\<close>

theorem retry_stuck_on_old_channel:
  "\<exists>s k g. jm_step\<^sup>*\<^sup>* (submitted (demo_job 0)) s \<and> \<not> sh_stopped (js_shared s) \<and>
     k < length (js_threads s) \<and> js_threads s ! k = RWait False g \<and>
     (\<forall>s'. jm_step\<^sup>*\<^sup>* s s' \<longrightarrow> js_threads s' ! k = RWait False g)"
proof -
  let ?h = "\<lambda>j st g cl. \<lparr>sh_job = j, sh_store = st, sh_stopped = False, sh_gen = g, sh_closed = cl\<rparr>"
  let ?sn = job_Snapshot and ?e = ErrBusClosed
  let ?F = "\<lambda>now j. j\<lparr>jb_completedAt := now, jb_status := JobStatusFailed, jb_err := error_text ErrBusClosed\<rparr>"
  let ?P = "\<lambda>j. j\<lparr>jb_status := JobStatusPending, jb_err := [], jb_result := RNil, jb_startedAt := 0, jb_completedAt := 0\<rparr>"
  let ?a = "demo_job 0"
  let ?b = "MarkRunning 1 ?a"
  let ?c = "?F 2 ?b"
  let ?d = "MarkDone ?c"
  let ?d1 = "job_Done (job_Done ?d)"
  let ?f = "?P ?d1"
  let ?g = "ResetDone ?f"
  let ?k = "MarkRunning 3 ?g"
  let ?l = "?F 4 ?k"
  let ?m = "job_Done ?l"
  let ?n = "?P ?m"
  let ?o = "ResetDone ?n"
  let ?R = "\<lambda>sh ts. jm_step\<^sup>*\<^sup>* (submitted ?a) \<lparr>js_shared = sh, js_threads = ts\<rparr>"
  note step_simps = demo_job_def NewJob_def MarkRunning_def TryFail_def ResetForRetry_def ResetDone_def chan_closed_def Let_def job_ops_counts(6)
  have unclosed: "jb_done ?n \<noteq> DoneClosed"
    by (simp add: ResetDone_def MarkRunning_def)
  have "?R (?h ?a (?sn ?a) 0 []) [WTop]"
    by (simp add: submitted_def)
  then have "?R (?h ?a (?sn ?a) 0 []) [WMarkRunning]"
    by (rule reach_worker [where i = 0]) (use w_go [of "?h ?a (?sn ?a) 0 []"] in \<open>simp_all add: step_simps\<close>)
  then have "?R (?h ?b (?sn ?a) 0 []) [WSaveRunning]"
    by (rule reach_worker [where i = 0]) (use w_mark [of "?h ?a (?sn ?a) 0 []" 1] in \<open>simp_all add: submitted_def\<close>)
  then have "?R (?h ?b (?sn ?b) 0 []) [WExecute]"
    by (rule reach_worker [where i = 0]) (use w_save_running [of "?h ?b (?sn ?a) 0 []"] in \<open>simp_all add: submitted_def\<close>)
  then have "?R (?h ?b (?sn ?b) 0 []) [WReturned RNil (Some ?e)]"
    by (rule reach_worker [where i = 0]) (use w_execute [of "?h ?b (?sn ?b) 0 []" RNil "Some ?e"] in \<open>simp_all add: submitted_def\<close>)
  then have "?R (?h ?c (?sn ?b) 0 []) [WSaveFinal]"
    by (rule reach_worker [where i = 0]) (use w_fail_final [of 2 ?e "?h ?b (?sn ?b) 0 []" ?c RNil] in \<open>simp_all add: step_simps\<close>)
  then have "?R (?h ?c (?sn ?c) 0 []) [WMarkDone]"
    by (rule reach_worker [where i = 0]) (use w_save_final [of "?h ?c (?sn ?b) 0 []"] in \<open>simp_all add: submitted_def\<close>)
  then have "?R (?h ?d (?sn ?c) 0 []) [Ended]"
    by (rule reach_worker [where i = 0]) (use w_done [of "?h ?c (?sn ?c) 0 []"] in \<open>simp_all add: submitted_def\<close>)
  then have "?R (?h ?d (?sn ?c) 0 []) [Ended, RCall False]"
    by (rule reach_other) (use s_call_retry [of "?h ?d (?sn ?c) 0 []" "[Ended]" False] in simp)
  then have "?R (?h ?d (?sn ?c) 0 []) [Ended, RCall False, RCall False]"
    by (rule reach_other) (use s_call_retry [of "?h ?d (?sn ?c) 0 []" "[Ended, RCall False]" False] in simp)
  then have "?R (?h (job_Done ?d) (?sn ?c) 0 []) [Ended, RWait False 0, RCall False]"
    by (rule reach_retry [where i = 1]) (use r_call [of False "?h ?d (?sn ?c) 0 []"] in \<open>simp_all add: submitted_def\<close>)
  then have "?R (?h ?d1 (?sn ?c) 0 []) [Ended, RWait False 0, RWait False 0]"
    by (rule reach_retry [where i = 2]) (use r_call [of False "?h (job_Done ?d) (?sn ?c) 0 []"] in \<open>simp_all add: submitted_def\<close>)
  then have "?R (?h ?d1 (?sn ?c) 0 []) [Ended, RReset, RWait False 0]"
    by (rule reach_retry [where i = 1]) (use r_wait [of 0 "?h ?d1 (?sn ?c) 0 []" False] in \<open>simp_all add: chan_closed_def\<close>)
  then have "?R (?h ?d1 (?sn ?c) 0 []) [Ended, RReset, RReset]"
    by (rule reach_retry [where i = 2]) (use r_wait [of 0 "?h ?d1 (?sn ?c) 0 []" False] in \<open>simp_all add: chan_closed_def\<close>)
  then have "?R (?h ?f (?sn ?c) 0 []) [Ended, RResetDone, RReset]"
    by (rule reach_retry [where i = 1]) (use r_reset [of "?h ?d1 (?sn ?c) 0 []" ?f] in \<open>simp_all add: ResetForRetry_def\<close>)
  then have "?R (?h ?g (?sn ?c) 1 [0]) [Ended, RSave, RReset]"
    by (rule reach_retry [where i = 1]) (use r_reset_done [of "?h ?f (?sn ?c) 0 []"] in \<open>simp_all add: sh_ResetDone_def\<close>)
  then have "?R (?h ?g (?sn ?g) 1 [0]) [Ended, RSpawn, RReset]"
    by (rule reach_retry [where i = 1]) (use r_save [of "?h ?g (?sn ?c) 1 [0]"] in \<open>simp_all add: submitted_def\<close>)
  then have "?R (?h ?g (?sn ?g) 1 [0]) [Ended, Ended, RReset, WTop]"
    by (rule reach_other) (use s_spawn [of 1 "[Ended, RSpawn, RReset]" "?h ?g (?sn ?g) 1 [0]"] in simp)
  then have "?R (?h ?g (?sn ?g) 1 [0]) [Ended, Ended, RReset, WMarkRunning]"
    by (rule reach_worker [where i = 3]) (use w_go [of "?h ?g (?sn ?g) 1 [0]"] in \<open>simp_all add: step_simps\<close>)
  then have "?R (?h ?k (?sn ?g) 1 [0]) [Ended, Ended, RReset, WSaveRunning]"
    by (rule reach_worker [where i = 3]) (use w_mark [of "?h ?g (?sn ?g) 1 [0]" 3] in \<open>simp_all add: submitted_def\<close>)
  then have "?R (?h ?k (?sn ?k) 1 [0]) [Ended, Ended, RReset, WExecute]"
    by (rule reach_worker [where i = 3]) (use w_save_running [of "?h ?k (?sn ?g) 1 [0]"] in \<open>simp_all add: submitted_def\<close>)
  then have "?R (?h ?k (?sn ?k) 1 [0]) [Ended, Ended, RReset, WReturned RNil (Some ?e)]"
    by (rule reach_worker [where i = 3]) (use w_execute [of "?h ?k (?sn ?k) 1 [0]" RNil "Some ?e"] in \<open>simp_all add: submitted_def\<close>)
  then have "?R (?h ?l (?sn ?k) 1 [0]) [Ended, Ended, RReset, WSaveFinal]"
    by (rule reach_worker [where i = 3]) (use w_fail_final [of 4 ?e "?h ?k (?sn ?k) 1 [0]" ?l RNil] in \<open>simp_all add: step_simps\<close>)
  then have "?R (?h ?l (?sn ?k) 1 [0]) [Ended, Ended, RReset, WSaveFinal, RCall False]"
    by (rule reach_other) (use s_call_retry [of "?h ?l (?sn ?k) 1 [0]" "[Ended, Ended, RReset, WSaveFinal]" False] in simp)
  then have "?R (?h ?m (?sn ?k) 1 [0]) [Ended, Ended, RReset, WSaveFinal, RWait False 1]"
    by (rule reach_retry [where i = 4]) (use r_call [of False "?h ?l (?sn ?k) 1 [0]"] in \<open>simp_all add: submitted_def\<close>)
  then have "?R (?h ?n (?sn ?k) 1 [0]) [Ended, Ended, RResetDone, WSaveFinal, RWait False 1]"
    by (rule reach_retry [where i = 2]) (use r_reset [of "?h ?m (?sn ?k) 1 [0]" ?n] in \<open>simp_all add: ResetForRetry_def\<close>)
  then have "?R (?h ?o (?sn ?k) 2 [0]) [Ended, Ended, RSave, WSaveFinal, RWait False 1]"
    by (rule reach_retry [where i = 2]) (use r_reset_done [of "?h ?n (?sn ?k) 1 [0]"] unclosed in \<open>simp_all add: sh_ResetDone_def numeral_2_eq_2\<close>)
  note fin = this
  let ?s = "\<lparr>js_shared = ?h ?o (?sn ?k) 2 [0], js_threads = [Ended, Ended, RSave, WSaveFinal, RWait False 1]\<rparr>"
  have "js_threads s' ! 4 = RWait False 1" if "jm_step\<^sup>*\<^sup>* ?s s'" for s'
  proof -
    have "4 < length (js_threads s') \<and> js_threads s' ! 4 = RWait False 1 \<and> 1 < sh_gen (js_shared s') \<and>
        1 \<notin> set (sh_closed (js_shared s'))"
      using that by (induction rule: rtranclp_induct) (simp, blast dest: old_channel_step)
    then show ?thesis by simp
  qed
  with fin show ?thesis
    by (intro exI [of _ ?s] exI [of _ 4] exI [of _ 1]) simp
qed

end
