(* ===== verification/Entities.thy ===== *)
theory Entities
  imports GoContext MessageBus
begin

text \<open>
  Entities and value objects: \<open>domain/entity/entity.go\<close>, \<open>auditable.go\<close>, \<open>soft_deletable.go\<close>,
  \<open>id.go\<close> and \<open>domain/valueobject/valueobject.go\<close>.  Embedding is a record field named after the
  embedded struct, a pointer that may be nil is an option, the clock is an argument \<open>now\<close>.

  \<open>encoding/json\<close> is a pair of functions \<open>enc\<close> and \<open>dec\<close> between the structs of this file and
  byte slices (the type \<open>'b\<close>): what \<open>json.Marshal\<close> writes for the struct, and what \<open>json.Unmarshal\<close> reads back into a
  zero struct.
\<close>

record Entity =
  en_id :: string

record AuditableEntity =
  ae_Entity :: Entity
  ae_createdAt :: time
  ae_updatedAt :: time

record SoftDeletableEntity =
  sd_AuditableEntity :: AuditableEntity
  sd_deletedAt :: "time option"

subsection \<open>Entity\<close>

definition id_required :: go_error where
  "id_required = ErrText ''entity: id is required''"

definition NewEntity :: "string \<Rightarrow> go_error + Entity" where
  "NewEntity i = (if i = [] then Inl id_required else Inr \<lparr>en_id = i\<rparr>)"

definition MustNewEntity :: "string \<Rightarrow> Entity outcome" where
  "MustNewEntity i = (case NewEntity i of Inl err \<Rightarrow> Panic (error_text err) | Inr e \<Rightarrow> Ret e)"

definition Entity_Equals :: "Entity option \<Rightarrow> Entity option \<Rightarrow> bool" where
  "Entity_Equals e other =
     (case (e, other) of
        (Some x, Some y) \<Rightarrow> en_id x = en_id y
      | _ \<Rightarrow> e = None \<and> other = None)"

definition Entity_IsEmpty :: "Entity \<Rightarrow> bool" where
  "Entity_IsEmpty e \<longleftrightarrow> en_id e = []"

definition Entity_Validate :: "Entity \<Rightarrow> go_error option" where
  "Entity_Validate e = (if en_id e = [] then Some id_required else None)"

definition Entity_Clone :: "Entity option \<Rightarrow> Entity option" where
  "Entity_Clone e = (case e of None \<Rightarrow> None | Some x \<Rightarrow> Some x)"

definition Entity_MarshalJSON :: "(string \<Rightarrow> go_error + 'b) \<Rightarrow> Entity \<Rightarrow> go_error + 'b" where
  "Entity_MarshalJSON enc e = enc (en_id e)"

definition Entity_UnmarshalJSON ::
    "('b \<Rightarrow> go_error + string) \<Rightarrow> 'b \<Rightarrow> Entity \<Rightarrow> go_error option \<times> Entity" where
  "Entity_UnmarshalJSON dec data e =
     (case dec data of
        Inl err \<Rightarrow> (Some err, e)
      | Inr i \<Rightarrow> if i = [] then (Some id_required, e) else (None, e\<lparr>en_id := i\<rparr>))"

record EntityJSON =
  ej_ID :: string

definition Entity_ToJSON :: "Entity \<Rightarrow> EntityJSON" where
  "Entity_ToJSON e = \<lparr>ej_ID = en_id e\<rparr>"

definition Entity_FromJSON :: "EntityJSON \<Rightarrow> Entity \<Rightarrow> Entity" where
  "Entity_FromJSON j e = e\<lparr>en_id := ej_ID j\<rparr>"

text \<open>The 16 bytes of \<open>uuid.New()\<close> are an argument; \<open>hex.EncodeToString\<close> is the one of
  \<open>GoContext\<close>.\<close>

definition NewEntityWithID :: "nat list \<Rightarrow> Entity outcome" where
  "NewEntityWithID uuid = MustNewEntity (hex_EncodeToString uuid)"

definition DefaultIDGenerator :: "nat list \<Rightarrow> string outcome" where
  "DefaultIDGenerator uuid = out_bind (NewEntityWithID uuid) (\<lambda>e. Ret (en_id e))"

subsection \<open>AuditableEntity\<close>

definition NewAuditableEntity :: "time \<Rightarrow> string \<Rightarrow> go_error + AuditableEntity" where
  "NewAuditableEntity now i =
     (case NewEntity i of
        Inl err \<Rightarrow> Inl err
      | Inr e \<Rightarrow> Inr \<lparr>ae_Entity = e, ae_createdAt = now, ae_updatedAt = now\<rparr>)"

definition NewAuditableEntityFromData :: "string \<Rightarrow> time \<Rightarrow> time \<Rightarrow> go_error + AuditableEntity" where
  "NewAuditableEntityFromData i createdAt updatedAt =
     (case NewEntity i of
        Inl err \<Rightarrow> Inl err
      | Inr e \<Rightarrow> Inr \<lparr>ae_Entity = e, ae_createdAt = createdAt, ae_updatedAt = updatedAt\<rparr>)"

definition MustNewAuditableEntity :: "time \<Rightarrow> string \<Rightarrow> AuditableEntity outcome" where
  "MustNewAuditableEntity now i =
     (case NewAuditableEntity now i of Inl err \<Rightarrow> Panic (error_text err) | Inr e \<Rightarrow> Ret e)"

definition Touch :: "time \<Rightarrow> AuditableEntity \<Rightarrow> AuditableEntity" where
  "Touch now e = e\<lparr>ae_updatedAt := now\<rparr>"

definition AuditableEntity_MarshalJSON ::
    "(string \<times> time \<times> time \<Rightarrow> go_error + 'b) \<Rightarrow> AuditableEntity \<Rightarrow> go_error + 'b" where
  "AuditableEntity_MarshalJSON enc e = enc (en_id (ae_Entity e), ae_createdAt e, ae_updatedAt e)"

definition AuditableEntity_UnmarshalJSON ::
    "('b \<Rightarrow> go_error + string \<times> time \<times> time) \<Rightarrow> 'b \<Rightarrow> AuditableEntity \<Rightarrow>
       go_error option \<times> AuditableEntity" where
  "AuditableEntity_UnmarshalJSON dec data e =
     (case dec data of
        Inl err \<Rightarrow> (Some err, e)
      | Inr (i, c, u) \<Rightarrow>
          if i = [] then (Some id_required, e)
          else (None, e\<lparr>ae_Entity := (ae_Entity e)\<lparr>en_id := i\<rparr>, ae_createdAt := c, ae_updatedAt := u\<rparr>))"

record AuditableEntityJSON =
  aj_EntityJSON :: EntityJSON
  aj_CreatedAt :: time
  aj_UpdatedAt :: time

definition AuditableEntity_ToJSON :: "AuditableEntity \<Rightarrow> AuditableEntityJSON" where
  "AuditableEntity_ToJSON e =
     \<lparr>aj_EntityJSON = Entity_ToJSON (ae_Entity e), aj_CreatedAt = ae_createdAt e, aj_UpdatedAt = ae_updatedAt e\<rparr>"

definition AuditableEntity_FromJSON :: "AuditableEntityJSON \<Rightarrow> AuditableEntity \<Rightarrow> AuditableEntity" where
  "AuditableEntity_FromJSON j e =
     e\<lparr>ae_Entity := Entity_FromJSON (aj_EntityJSON j) (ae_Entity e),
       ae_createdAt := aj_CreatedAt j, ae_updatedAt := aj_UpdatedAt j\<rparr>"

subsection \<open>SoftDeletableEntity\<close>

definition NewSoftDeletableEntity :: "time \<Rightarrow> string \<Rightarrow> go_error + SoftDeletableEntity" where
  "NewSoftDeletableEntity now i =
     (case NewAuditableEntity now i of
        Inl err \<Rightarrow> Inl err
      | Inr ae \<Rightarrow> Inr \<lparr>sd_AuditableEntity = ae, sd_deletedAt = None\<rparr>)"

definition NewSoftDeletableEntityFromData ::
    "string \<Rightarrow> time \<Rightarrow> time \<Rightarrow> time option \<Rightarrow> go_error + SoftDeletableEntity" where
  "NewSoftDeletableEntityFromData i createdAt updatedAt deletedAt =
     (case NewAuditableEntityFromData i createdAt updatedAt of
        Inl err \<Rightarrow> Inl err
      | Inr ae \<Rightarrow> Inr \<lparr>sd_AuditableEntity = ae, sd_deletedAt = deletedAt\<rparr>)"

definition IsDeleted :: "SoftDeletableEntity \<Rightarrow> bool" where
  "IsDeleted e \<longleftrightarrow> sd_deletedAt e \<noteq> None"

text \<open>\<open>SoftDelete\<close> reads the clock twice: for \<open>deletedAt\<close> and in \<open>Touch\<close>.\<close>

definition SoftDelete :: "time \<Rightarrow> time \<Rightarrow> SoftDeletableEntity \<Rightarrow> SoftDeletableEntity" where
  "SoftDelete now now2 e =
     (let e1 = e\<lparr>sd_deletedAt := Some now\<rparr>
      in e1\<lparr>sd_AuditableEntity := Touch now2 (sd_AuditableEntity e1)\<rparr>)"

definition Restore :: "time \<Rightarrow> SoftDeletableEntity \<Rightarrow> SoftDeletableEntity" where
  "Restore now e =
     (let e1 = e\<lparr>sd_deletedAt := None\<rparr>
      in e1\<lparr>sd_AuditableEntity := Touch now (sd_AuditableEntity e1)\<rparr>)"

definition SoftDeletableEntity_MarshalJSON ::
    "(string \<times> time \<times> time \<times> time option \<Rightarrow> go_error + 'b) \<Rightarrow> SoftDeletableEntity \<Rightarrow> go_error + 'b" where
  "SoftDeletableEntity_MarshalJSON enc e =
     (let a = sd_AuditableEntity e
      in enc (en_id (ae_Entity a), ae_createdAt a, ae_updatedAt a, sd_deletedAt e))"

definition SoftDeletableEntity_UnmarshalJSON ::
    "('b \<Rightarrow> go_error + string \<times> time \<times> time \<times> time option) \<Rightarrow> 'b \<Rightarrow> SoftDeletableEntity \<Rightarrow>
       go_error option \<times> SoftDeletableEntity" where
  "SoftDeletableEntity_UnmarshalJSON dec data e =
     (case dec data of
        Inl err \<Rightarrow> (Some err, e)
      | Inr (i, c, u, d) \<Rightarrow>
          if i = [] then (Some id_required, e)
          else (None, e\<lparr>sd_AuditableEntity := (sd_AuditableEntity e)\<lparr>ae_Entity := (ae_Entity (sd_AuditableEntity e))\<lparr>en_id := i\<rparr>,
                                                  ae_createdAt := c, ae_updatedAt := u\<rparr>,
                        sd_deletedAt := d\<rparr>))"

record SoftDeletableEntityJSON =
  sj_AuditableEntityJSON :: AuditableEntityJSON
  sj_DeletedAt :: "time option"

definition SoftDeletableEntity_ToJSON :: "SoftDeletableEntity \<Rightarrow> SoftDeletableEntityJSON" where
  "SoftDeletableEntity_ToJSON e =
     \<lparr>sj_AuditableEntityJSON = AuditableEntity_ToJSON (sd_AuditableEntity e), sj_DeletedAt = sd_deletedAt e\<rparr>"

definition SoftDeletableEntity_FromJSON ::
    "SoftDeletableEntityJSON \<Rightarrow> SoftDeletableEntity \<Rightarrow> SoftDeletableEntity" where
  "SoftDeletableEntity_FromJSON j e =
     e\<lparr>sd_AuditableEntity := AuditableEntity_FromJSON (sj_AuditableEntityJSON j) (sd_AuditableEntity e),
       sd_deletedAt := sj_DeletedAt j\<rparr>"

subsection \<open>Value objects\<close>

text \<open>\<open>zero\<close> is the zero value of the wrapped type.\<close>

record 'v ValueObject =
  vo_value :: 'v
  vo_validate :: "('v \<Rightarrow> go_error option) option"

definition vo_New :: "'v \<Rightarrow> ('v \<Rightarrow> go_error option) option \<Rightarrow> go_error + 'v ValueObject" where
  "vo_New v validate =
     (case (case validate of None \<Rightarrow> None | Some f \<Rightarrow> f v) of
        Some err \<Rightarrow> Inl err
      | None \<Rightarrow> Inr \<lparr>vo_value = v, vo_validate = validate\<rparr>)"

definition vo_MustNew :: "'v \<Rightarrow> ('v \<Rightarrow> go_error option) option \<Rightarrow> 'v ValueObject outcome" where
  "vo_MustNew v validate = (case vo_New v validate of Inl err \<Rightarrow> Panic (error_text err) | Inr o1 \<Rightarrow> Ret o1)"

definition vo_Equals :: "'v ValueObject \<Rightarrow> 'v ValueObject \<Rightarrow> bool" where
  "vo_Equals v other \<longleftrightarrow> vo_value v = vo_value other"

definition vo_Validate :: "'v \<Rightarrow> 'v ValueObject \<Rightarrow> go_error option" where
  "vo_Validate zero v =
     (case vo_validate v of
        Some f \<Rightarrow> f (vo_value v)
      | None \<Rightarrow> if vo_value v = zero then Some (ErrText ''value object: value cannot be zero'') else None)"

definition vo_MarshalJSON :: "('v \<Rightarrow> go_error + 'b) \<Rightarrow> 'v ValueObject \<Rightarrow> go_error + 'b" where
  "vo_MarshalJSON enc v = enc (vo_value v)"

definition vo_UnmarshalJSON ::
    "('b \<Rightarrow> go_error + 'v) \<Rightarrow> 'v \<Rightarrow> 'b \<Rightarrow> 'v ValueObject \<Rightarrow> go_error option \<times> 'v ValueObject" where
  "vo_UnmarshalJSON dec zero data v =
     (case dec data of
        Inl err \<Rightarrow> (Some err, v)
      | Inr x \<Rightarrow> (let v1 = v\<lparr>vo_value := x\<rparr> in (vo_Validate zero v1, v1)))"

subsection \<open>What the constructors and the JSON functions keep\<close>

lemmas entity_json_defs =
  Entity_ToJSON_def Entity_FromJSON_def AuditableEntity_ToJSON_def AuditableEntity_FromJSON_def
  SoftDeletableEntity_ToJSON_def SoftDeletableEntity_FromJSON_def

lemma NewEntity_Inr: "NewEntity i = Inr e \<longleftrightarrow> i \<noteq> [] \<and> e = \<lparr>en_id = i\<rparr>"
  by (auto simp: NewEntity_def)

lemma Entity_Validate_None: "Entity_Validate e = None \<longleftrightarrow> en_id e \<noteq> []"
  by (simp add: Entity_Validate_def)

lemma NewEntity_valid: "NewEntity i = Inr e \<Longrightarrow> Entity_Validate e = None \<and> \<not> Entity_IsEmpty e"
  by (auto simp: NewEntity_Inr Entity_Validate_None Entity_IsEmpty_def)

lemma Entity_Equals_equivalence:
  "Entity_Equals a a"
  "Entity_Equals a b \<Longrightarrow> Entity_Equals b a"
  "Entity_Equals a b \<Longrightarrow> Entity_Equals b c \<Longrightarrow> Entity_Equals a c"
  by (auto simp: Entity_Equals_def split: option.splits)

lemma hex_length: "length (hex_EncodeToString bs) = 2 * length bs"
  by (induction bs) (auto simp: hex_EncodeToString_def)

lemma NewEntityWithID_Ret: "length uuid = 16 \<Longrightarrow> NewEntityWithID uuid = Ret \<lparr>en_id = hex_EncodeToString uuid\<rparr>"
proof -
  assume "length uuid = 16"
  then have "hex_EncodeToString uuid \<noteq> []"
    using hex_length [of uuid] by auto
  then show ?thesis by (simp add: NewEntityWithID_def MustNewEntity_def NewEntity_def)
qed

subsection \<open>The life of a soft-deletable entity\<close>

text \<open>The operations a client can call, each with the clock readings it takes.\<close>

datatype sd_op = OpTouch time | OpSoftDelete time time | OpRestore time

fun sd_apply :: "SoftDeletableEntity \<Rightarrow> sd_op \<Rightarrow> SoftDeletableEntity" where
  "sd_apply e (OpTouch t) = e\<lparr>sd_AuditableEntity := Touch t (sd_AuditableEntity e)\<rparr>"
| "sd_apply e (OpSoftDelete t u) = SoftDelete t u e"
| "sd_apply e (OpRestore t) = Restore t e"

fun sd_times :: "sd_op \<Rightarrow> time list" where
  "sd_times (OpTouch t) = [t]"
| "sd_times (OpSoftDelete t u) = [t, u]"
| "sd_times (OpRestore t) = [t]"

fun sd_deleted :: "bool \<Rightarrow> sd_op list \<Rightarrow> bool" where
  "sd_deleted d [] = d"
| "sd_deleted d (OpTouch t # ops) = sd_deleted d ops"
| "sd_deleted d (OpSoftDelete t u # ops) = sd_deleted True ops"
| "sd_deleted d (OpRestore t # ops) = sd_deleted False ops"

abbreviation sd_created :: "SoftDeletableEntity \<Rightarrow> time" where
  "sd_created e \<equiv> ae_createdAt (sd_AuditableEntity e)"

abbreviation sd_updated :: "SoftDeletableEntity \<Rightarrow> time" where
  "sd_updated e \<equiv> ae_updatedAt (sd_AuditableEntity e)"

abbreviation sd_ident :: "SoftDeletableEntity \<Rightarrow> string" where
  "sd_ident e \<equiv> en_id (ae_Entity (sd_AuditableEntity e))"

definition sd_ok :: "SoftDeletableEntity \<Rightarrow> bool" where
  "sd_ok e \<longleftrightarrow> sd_created e \<le> sd_updated e \<and> (\<forall>d. sd_deletedAt e = Some d \<longrightarrow> sd_created e \<le> d \<and> d \<le> sd_updated e)"

lemmas sd_step_defs = SoftDelete_def Restore_def Touch_def IsDeleted_def sd_ok_def Let_def

lemma sd_apply_ident: "sd_ident (sd_apply e op) = sd_ident e \<and> sd_created (sd_apply e op) = sd_created e"
  by (cases op) (simp_all add: sd_step_defs)

lemma sd_apply_ok:
  assumes "sd_ok e" "sorted (sd_updated e # sd_times op)"
  shows "sd_ok (sd_apply e op) \<and> sd_updated (sd_apply e op) = last (sd_times op)"
  using assms by (cases op) (auto simp: sd_step_defs)

lemma sd_apply_deleted: "sd_deleted (IsDeleted e) (op # ops) = sd_deleted (IsDeleted (sd_apply e op)) ops"
  by (cases op) (simp_all add: sd_step_defs)

lemma sd_run:
  "sd_ok e \<Longrightarrow> sorted (sd_updated e # concat (map sd_times ops)) \<Longrightarrow>
   sd_ident (foldl sd_apply e ops) = sd_ident e \<and> sd_created (foldl sd_apply e ops) = sd_created e \<and>
   IsDeleted (foldl sd_apply e ops) = sd_deleted (IsDeleted e) ops \<and> sd_ok (foldl sd_apply e ops)"
proof (induction ops arbitrary: e)
  case Nil
  then show ?case by simp
next
  case (Cons op ops)
  have s: "sorted (sd_updated e # sd_times op)" "sorted (last (sd_times op) # concat (map sd_times ops))"
    using Cons.prems(2) by (cases op; auto simp: sorted_append)+
  note a = sd_apply_ok [OF Cons.prems(1) s(1)]
  then have "sorted (sd_updated (sd_apply e op) # concat (map sd_times ops))"
    using s(2) by metis
  then show ?case
    using Cons.IH [of "sd_apply e op"] a sd_apply_ident [of e op] sd_apply_deleted [of e op ops]
    by simp
qed

text \<open>
  Over any sequence of touches, soft deletions and restores under a clock that does not go back, a
  soft-deletable entity keeps its identity and creation time, is deleted exactly when the last of its
  deletions and restores is a deletion, and its times stay ordered: created, then deleted, then updated.
\<close>

theorem soft_delete_lifecycle:
  assumes "NewSoftDeletableEntity now i = Inr e"
    and "sorted (now # concat (map sd_times ops))"
  shows "sd_ident (foldl sd_apply e ops) = i \<and> i \<noteq> [] \<and> sd_created (foldl sd_apply e ops) = now \<and>
    IsDeleted (foldl sd_apply e ops) = sd_deleted False ops \<and>
    now \<le> sd_updated (foldl sd_apply e ops) \<and>
    (\<forall>d. sd_deletedAt (foldl sd_apply e ops) = Some d \<longrightarrow> now \<le> d \<and> d \<le> sd_updated (foldl sd_apply e ops))"
proof -
  have e: "e = \<lparr>sd_AuditableEntity = \<lparr>ae_Entity = \<lparr>en_id = i\<rparr>, ae_createdAt = now, ae_updatedAt = now\<rparr>, sd_deletedAt = None\<rparr>"
    and i: "i \<noteq> []"
    using assms(1) by (auto simp: NewSoftDeletableEntity_def NewAuditableEntity_def NewEntity_Inr split: sum.splits)
  have "sd_ok e" by (simp add: e sd_ok_def)
  moreover have "sd_updated e = now" "sd_ident e = i" "sd_created e = now" "\<not> IsDeleted e"
    by (simp_all add: e IsDeleted_def)
  ultimately show ?thesis
    using sd_run [of e ops] assms(2) i by (auto simp: sd_ok_def)
qed

theorem soft_delete_lifecycle_witness:
  "IsDeleted (foldl sd_apply
     \<lparr>sd_AuditableEntity = \<lparr>ae_Entity = \<lparr>en_id = ''a''\<rparr>, ae_createdAt = 3, ae_updatedAt = 3\<rparr>, sd_deletedAt = None\<rparr>
     [OpSoftDelete 4 5, OpRestore 6, OpSoftDelete 7 7])"
proof -
  have "NewSoftDeletableEntity 3 ''a'' =
      Inr \<lparr>sd_AuditableEntity = \<lparr>ae_Entity = \<lparr>en_id = ''a''\<rparr>, ae_createdAt = 3, ae_updatedAt = 3\<rparr>, sd_deletedAt = None\<rparr>"
    by (simp add: NewSoftDeletableEntity_def NewAuditableEntity_def NewEntity_def)
  from soft_delete_lifecycle [OF this, of "[OpSoftDelete 4 5, OpRestore 6, OpSoftDelete 7 7]"]
  show ?thesis by simp
qed

lemma SoftDeletableEntity_fields:
  "x\<lparr>sd_AuditableEntity := (sd_AuditableEntity x)\<lparr>ae_Entity := (ae_Entity (sd_AuditableEntity x))\<lparr>en_id := sd_ident e\<rparr>,
        ae_createdAt := sd_created e, ae_updatedAt := sd_updated e\<rparr>, sd_deletedAt := sd_deletedAt e\<rparr> = e"
proof -
  obtain i c u d where "e = \<lparr>sd_AuditableEntity = \<lparr>ae_Entity = \<lparr>en_id = i\<rparr>, ae_createdAt = c, ae_updatedAt = u\<rparr>, sd_deletedAt = d\<rparr>"
    by (metis (full_types) SoftDeletableEntity.cases AuditableEntity.cases Entity.cases)
  then show ?thesis
    by (cases x; cases "sd_AuditableEntity x"; cases "ae_Entity (sd_AuditableEntity x)") simp
qed

lemma SoftDeletableEntity_ToFromJSON: "SoftDeletableEntity_FromJSON (SoftDeletableEntity_ToJSON e) x = e"
  using SoftDeletableEntity_fields [of x e] by (simp add: entity_json_defs)

text \<open>
  The JSON functions of the three entities restore them: reading back what was written rebuilds
  the identity and times of any entity with a nonempty id into any target, and the text of an entity
  without an id is rejected with the target unchanged.
\<close>

theorem entity_json_roundtrip:
  assumes "\<And>x. \<exists>t. enc x = Inr t \<and> dec t = Inr x"
  shows "\<exists>t. SoftDeletableEntity_MarshalJSON enc e = Inr t \<and>
    SoftDeletableEntity_UnmarshalJSON dec t x =
      (if sd_ident e = [] then (Some id_required, x) else (None, e)) \<and>
    SoftDeletableEntity_FromJSON (SoftDeletableEntity_ToJSON e) x = e"
proof -
  obtain t where "enc (sd_ident e, sd_created e, sd_updated e, sd_deletedAt e) = Inr t"
      "dec t = Inr (sd_ident e, sd_created e, sd_updated e, sd_deletedAt e)"
    using assms by blast
  then show ?thesis
    by (intro exI [of _ t])
      (simp add: SoftDeletableEntity_MarshalJSON_def SoftDeletableEntity_UnmarshalJSON_def Let_def
        SoftDeletableEntity_ToFromJSON SoftDeletableEntity_fields)
qed

theorem entity_json_roundtrip_witness:
  "\<exists>t. SoftDeletableEntity_MarshalJSON Inr
      \<lparr>sd_AuditableEntity = \<lparr>ae_Entity = \<lparr>en_id = ''a''\<rparr>, ae_createdAt = 1, ae_updatedAt = 2\<rparr>, sd_deletedAt = Some 2\<rparr> = Inr t"
proof -
  let ?e = "\<lparr>sd_AuditableEntity = \<lparr>ae_Entity = \<lparr>en_id = ''a''\<rparr>, ae_createdAt = 1, ae_updatedAt = 2\<rparr>, sd_deletedAt = Some 2\<rparr>"
  obtain t where "SoftDeletableEntity_MarshalJSON Inr ?e = Inr t"
    using entity_json_roundtrip [of Inr Inr ?e ?e] by blast
  then show ?thesis by blast
qed

subsection \<open>Validation of value objects\<close>

lemma vo_New_Inr:
  "vo_New v validate = Inr o1 \<longleftrightarrow>
     (case validate of None \<Rightarrow> True | Some f \<Rightarrow> f v = None) \<and> o1 = \<lparr>vo_value = v, vo_validate = validate\<rparr>"
  by (auto simp: vo_New_def split: option.splits)

text \<open>
  A value object made by \<open>New\<close> with a validator is valid and survives its JSON text; made
  without a validator it survives exactly when its value is not the zero value, which \<open>New\<close> accepts and
  \<open>UnmarshalJSON\<close> rejects.
\<close>

theorem value_object_roundtrip:
  assumes "vo_New v validate = Inr o1" and "enc v = Inr t" and "dec t = Inr v" and "vo_validate o2 = validate"
  shows "(fst (vo_UnmarshalJSON dec zero t o2) = None \<longleftrightarrow> validate \<noteq> None \<or> v \<noteq> zero) \<and>
    vo_Equals (snd (vo_UnmarshalJSON dec zero t o2)) o1 \<and> vo_MarshalJSON enc o1 = Inr t"
  using assms by (auto simp: vo_New_Inr vo_UnmarshalJSON_def vo_Validate_def vo_Equals_def vo_MarshalJSON_def Let_def
      split: option.splits)

theorem value_object_roundtrip_witness:
  "fst (vo_UnmarshalJSON Inr (0::nat) 0 \<lparr>vo_value = 7, vo_validate = None\<rparr>) \<noteq> None"
  using value_object_roundtrip [of 0 None "\<lparr>vo_value = 0, vo_validate = None\<rparr>" Inr "0::nat" Inr
      "\<lparr>vo_value = 7, vo_validate = None\<rparr>" 0]
  by (simp add: vo_New_def)

end
