(* ===== verification/EventStore.thy ===== *)
theory EventStore
  imports GoContext MessageBus
begin

text \<open>
  Domain events and the in-memory event store: \<open>cqrs/event/event.go\<close>, \<open>domain/event/event.go\<close> and
  \<open>cqrs/impl/memory/event_store.go\<close>.  Each method of the store runs under its lock and is one
  definition.  An event is a pointer to a struct: its metadata (\<open>ev_Metadata\<close> is None when \<open>Metadata()\<close>
  gives something other than a \<open>BaseEvent\<close>) and its value.  The store keeps and returns copies of what
  is pointed to, or the interface values themselves, so the model holds event contents.
\<close>

record base_event =
  be_AggregateID :: string
  be_OccurredAt :: time
  be_CorrelationID :: string
  be_CausationID :: string

record 'd devent =
  ev_Metadata :: "base_event option"
  ev_value :: "'d goany"

definition NewBaseEvent :: "string \<Rightarrow> time \<Rightarrow> base_event" where
  "NewBaseEvent aggregateID occurredAt =
     \<lparr>be_AggregateID = aggregateID, be_OccurredAt = occurredAt, be_CorrelationID = [], be_CausationID = []\<rparr>"

definition NewDomainEvent :: "time \<Rightarrow> string \<Rightarrow> base_event" where
  "NewDomainEvent now aggregateID =
     \<lparr>be_AggregateID = aggregateID, be_OccurredAt = now, be_CorrelationID = [], be_CausationID = []\<rparr>"

definition NewDomainEventWithCorrelation :: "time \<Rightarrow> string \<Rightarrow> string \<Rightarrow> string \<Rightarrow> base_event" where
  "NewDomainEventWithCorrelation now aggregateID correlationID causationID =
     \<lparr>be_AggregateID = aggregateID, be_OccurredAt = now, be_CorrelationID = correlationID,
      be_CausationID = causationID\<rparr>"

definition WithCorrelation :: "time \<Rightarrow> go_ctx \<Rightarrow> string \<Rightarrow> base_event" where
  "WithCorrelation now ctx aggregateID =
     \<lparr>be_AggregateID = aggregateID, be_OccurredAt = now, be_CorrelationID = GetTraceID ctx,
      be_CausationID = GetSpanID ctx\<rparr>"

definition MetadataOf :: "'d devent \<Rightarrow> base_event" where
  "MetadataOf value =
     (case ev_Metadata value of
        Some be \<Rightarrow> be
      | None \<Rightarrow> \<lparr>be_AggregateID = [], be_OccurredAt = 0, be_CorrelationID = [], be_CausationID = []\<rparr>)"

abbreviation agg_of :: "'d devent \<Rightarrow> string" where
  "agg_of e \<equiv> be_AggregateID (MetadataOf e)"

text \<open>
  The store's fields.  \<open>es_T\<close> is the type parameter \<open>T\<close> (None an interface), \<open>es_pool\<close> the dynamic
  type of what \<open>pool.Get()\<close> returns (None when the pool has no \<open>New\<close>), \<open>es_newFunc\<close> whether a
  factory was given; a factory returns a new, non-nil event.
\<close>

record 'd es_store =
  es_events :: "(string, 'd devent list) gomap"
  es_globalEvents :: "(int \<times> 'd devent) list"
  es_nextPosition :: int
  es_T :: "gtype option"
  es_pool :: "gtype option"
  es_newFunc :: bool
  es_shallowCopy :: bool

datatype es_option = WithFactory

fun apply_es_option :: "'d es_store \<Rightarrow> es_option \<Rightarrow> 'd es_store" where
  "apply_es_option s WithFactory = s\<lparr>es_newFunc := True\<rparr>"

definition NewEventSourceStore :: "gtype option \<Rightarrow> es_option list \<Rightarrow> go_error + 'd es_store" where
  "NewEventSourceStore t opts =
     (let s = \<lparr>es_events = [], es_globalEvents = [], es_nextPosition = 0, es_T = t, es_pool = None,
               es_newFunc = False, es_shallowCopy = False\<rparr>
      in case t of
           None \<Rightarrow> Inr (foldl apply_es_option (s\<lparr>es_shallowCopy := True\<rparr>) opts)
         | Some ty \<Rightarrow>
             if \<not> is_ptr ty
             then Inl (ErrText (''EventSourceStore[T]: T must be a pointer type, got '' @ type_String ty))
             else (let s1 = foldl apply_es_option s opts
                   in if es_newFunc s1 then Inr s1
                      else (let s2 = s1\<lparr>es_pool := Some (TPtr (deref ty))\<rparr>
                            in case es_pool s2 of
                                 Some v \<Rightarrow>
                                   if Some v \<noteq> es_T s2
                                   then Inl (ErrText (''EventSourceStore[T]: pool New returned unexpected type '' @
                                                      type_String v @ '', expected '' @ type_String ty))
                                   else Inr s2
                               | None \<Rightarrow> Inr s2)))"

definition es_alloc :: "'d es_store \<Rightarrow> go_error option" where
  "es_alloc s =
     (if es_newFunc s then None
      else if es_pool s \<noteq> None \<and> (es_T s = None \<or> es_pool s = es_T s) then None
      else Some (ErrText ''EventSourceStore[T]: pool returned unexpected type''))"

definition es_copyEvent :: "'d es_store \<Rightarrow> 'd devent \<Rightarrow> go_error + 'd devent" where
  "es_copyEvent s src = (case es_alloc s of Some err \<Rightarrow> Inl err | None \<Rightarrow> Inr src)"

definition es_put :: "'d es_store \<Rightarrow> 'd devent \<Rightarrow> 'd devent \<Rightarrow> 'd es_store" where
  "es_put s evt eventToStore =
     (let aggID = agg_of evt;
          s1 = s\<lparr>es_events := gm_put (es_events s) aggID (gm_or (es_events s) aggID [] @ [eventToStore])\<rparr>;
          s2 = s1\<lparr>es_nextPosition := es_nextPosition s1 + 1\<rparr>
      in s2\<lparr>es_globalEvents := es_globalEvents s2 @ [(es_nextPosition s2, eventToStore)]\<rparr>)"

fun es_append_loop :: "'d devent list \<Rightarrow> 'd es_store \<Rightarrow> go_error option \<times> 'd es_store" where
  "es_append_loop [] s = (None, s)"
| "es_append_loop (evt # events) s =
     (if es_shallowCopy s then es_append_loop events (es_put s evt evt)
      else (case es_copyEvent s evt of
              Inl err \<Rightarrow> (Some (ErrWrap ''copy event: '' err []), s)
            | Inr copied \<Rightarrow> es_append_loop events (es_put s evt copied)))"

definition es_Append ::
    "string \<Rightarrow> int \<Rightarrow> 'd devent list \<Rightarrow> 'd es_store \<Rightarrow> go_error option \<times> 'd es_store" where
  "es_Append aggregateID expectedVersion events s =
     (let current = int (length (gm_or (es_events s) aggregateID []))
      in if current \<noteq> expectedVersion
         then (Some (ErrWrap (''concurrency conflict: expected version '' @ show_int expectedVersion @ '' but got '' @
                 show_int current @ '' for aggregate '' @ aggregateID @ '': '') ErrConcurrency []), s)
         else es_append_loop events s)"

fun es_copy_all :: "'d es_store \<Rightarrow> string \<Rightarrow> (int \<times> 'd devent) list \<Rightarrow> go_error + (int \<times> 'd devent) list" where
  "es_copy_all s what [] = Inr []"
| "es_copy_all s what ((i, e) # xs) =
     (if es_shallowCopy s then (case es_copy_all s what xs of Inl err \<Rightarrow> Inl err | Inr ys \<Rightarrow> Inr ((i, e) # ys))
      else (case es_copyEvent s e of
        Inl err \<Rightarrow> Inl (ErrWrap (''copy event at '' @ what @ show_int i @ '': '') err [])
      | Inr copied \<Rightarrow> (case es_copy_all s what xs of Inl err \<Rightarrow> Inl err | Inr ys \<Rightarrow> Inr ((i, copied) # ys))))"

definition es_Load :: "'d es_store \<Rightarrow> string \<Rightarrow> int \<Rightarrow> (go_error + 'd devent list) outcome" where
  "es_Load s aggregateID afterVersion =
     (case gm_get (es_events s) aggregateID of
        None \<Rightarrow> Ret (Inr [])
      | Some events \<Rightarrow>
          if afterVersion \<ge> int (length events) then Ret (Inr [])
          else out_bind (slice_from afterVersion events)
                 (\<lambda>slice. Ret (case es_copy_all s ''index '' (zip (map int [0..<length slice]) slice) of
                                 Inl err \<Rightarrow> Inl err
                               | Inr xs \<Rightarrow> Inr (map snd xs))))"

fun es_startIdx :: "int \<Rightarrow> nat \<Rightarrow> (int \<times> 'd devent) list \<Rightarrow> nat" where
  "es_startIdx afterPosition i [] = i"
| "es_startIdx afterPosition i (entry # rest) =
     (if fst entry > afterPosition then i else es_startIdx afterPosition (Suc i) rest)"

definition es_LoadAll :: "'d es_store \<Rightarrow> int \<Rightarrow> int \<Rightarrow> go_error + (int \<times> 'd devent) list" where
  "es_LoadAll s afterPosition limit =
     (let startIdx = es_startIdx afterPosition 0 (es_globalEvents s)
      in if startIdx \<ge> length (es_globalEvents s) then Inr []
         else (let endIdx = length (es_globalEvents s);
                   endIdx1 = (if limit > 0 \<and> int startIdx + limit < int endIdx
                              then startIdx + nat limit else endIdx)
               in es_copy_all s ''position '' (take (endIdx1 - startIdx) (drop startIdx (es_globalEvents s)))))"

text \<open>\<open>domainevent.FromSlice\<close> converts each element to the interface type.\<close>

definition FromSlice :: "('e \<Rightarrow> 'd devent) \<Rightarrow> 'e list \<Rightarrow> 'd devent list" where
  "FromSlice conv events = map conv events"

subsection \<open>The store's invariant\<close>

abbreviation es_stream :: "'d es_store \<Rightarrow> string \<Rightarrow> 'd devent list" where
  "es_stream s a \<equiv> gm_or (es_events s) a []"

definition es_wf :: "'d es_store \<Rightarrow> bool" where
  "es_wf s \<longleftrightarrow>
     (es_shallowCopy s \<or> es_alloc s = None) \<and>
     es_nextPosition s = int (length (es_globalEvents s)) \<and>
     map fst (es_globalEvents s) = map (\<lambda>i. int i + 1) [0..<length (es_globalEvents s)] \<and>
     (\<forall>a. es_stream s a = filter (\<lambda>e. agg_of e = a) (map snd (es_globalEvents s)))"

lemma es_options_fields:
  "es_T (foldl apply_es_option s opts) = es_T s \<and> es_shallowCopy (foldl apply_es_option s opts) = es_shallowCopy s \<and>
   es_events (foldl apply_es_option s opts) = es_events s \<and>
   es_globalEvents (foldl apply_es_option s opts) = es_globalEvents s \<and>
   es_nextPosition (foldl apply_es_option s opts) = es_nextPosition s"
proof (induction opts arbitrary: s)
  case (Cons x opts)
  then show ?case by (cases x) simp
qed simp

lemma NewEventSourceStore_wf:
  assumes "NewEventSourceStore t opts = Inr s"
  shows "es_wf s \<and> es_globalEvents s = []"
proof (cases t)
  case None
  with assms show ?thesis by (auto simp: NewEventSourceStore_def es_wf_def es_options_fields Let_def)
next
  case (Some ty)
  with assms show ?thesis
    by (auto simp: NewEventSourceStore_def es_wf_def es_options_fields es_alloc_def Let_def split: if_splits)
qed

lemma NewEventSourceStore_fails_iff:
  "(\<exists>err. NewEventSourceStore t opts = Inl err) \<longleftrightarrow> (\<exists>ty. t = Some ty \<and> \<not> is_ptr ty)"
proof (cases t)
  case (Some ty)
  then show ?thesis
    by (cases ty) (auto simp: NewEventSourceStore_def es_options_fields Let_def)
qed (simp add: NewEventSourceStore_def Let_def)

lemma es_put_wf: "es_wf s \<Longrightarrow> es_wf (es_put s e e)"
  by (auto simp: es_wf_def es_put_def es_alloc_def Let_def)

lemma es_put_stream: "es_stream (es_put s e e) a = es_stream s a @ (if agg_of e = a then [e] else [])"
  by (simp add: es_put_def Let_def)

lemma es_put_global: "es_wf s \<Longrightarrow> map snd (es_globalEvents (es_put s e e)) = map snd (es_globalEvents s) @ [e]"
  by (simp add: es_put_def Let_def)

lemma es_append_loop_wf:
  "es_wf s \<Longrightarrow> \<exists>s'. es_append_loop evs s = (None, s') \<and> es_wf s' \<and>
     map snd (es_globalEvents s') = map snd (es_globalEvents s) @ evs"
proof (induction evs arbitrary: s)
  case (Cons e evs)
  then have eq: "es_append_loop (e # evs) s = es_append_loop evs (es_put s e e)"
    by (auto simp: es_wf_def es_copyEvent_def)
  have "\<exists>s'. es_append_loop evs (es_put s e e) = (None, s') \<and> es_wf s' \<and>
      map snd (es_globalEvents s') = map snd (es_globalEvents s) @ e # evs"
    using Cons.IH [OF es_put_wf [OF Cons.prems], of e] es_put_global [OF Cons.prems, of e] by simp
  then show ?case unfolding eq .
qed simp

lemma es_stream_wf: "es_wf s \<Longrightarrow> es_stream s a = filter (\<lambda>e. agg_of e = a) (map snd (es_globalEvents s))"
  by (simp add: es_wf_def)

lemma es_copy_all_wf: "es_wf s \<Longrightarrow> es_copy_all s what xs = Inr xs"
  by (induction s what xs rule: es_copy_all.induct) (auto simp: es_wf_def es_copyEvent_def)

lemma es_Append_ok:
  assumes "es_wf s" "v = int (length (es_stream s a))"
  shows "\<exists>s'. es_Append a v evs s = (None, s') \<and> es_wf s' \<and>
    map snd (es_globalEvents s') = map snd (es_globalEvents s) @ evs \<and>
    (\<forall>b. es_stream s' b = es_stream s b @ filter (\<lambda>e. agg_of e = b) evs)"
proof -
  obtain s' where s': "es_append_loop evs s = (None, s')" "es_wf s'"
      "map snd (es_globalEvents s') = map snd (es_globalEvents s) @ evs"
    using es_append_loop_wf [OF assms(1)] by blast
  have "es_stream s' b = es_stream s b @ filter (\<lambda>e. agg_of e = b) evs" for b
    using es_stream_wf [OF s'(2), of b] es_stream_wf [OF assms(1), of b] s'(3) by simp
  then show ?thesis using s' assms(2) by (simp add: es_Append_def Let_def)
qed

lemma es_Append_stale:
  "v \<noteq> int (length (es_stream s a)) \<Longrightarrow>
     \<exists>err. es_Append a v evs s = (Some err, s) \<and> errors_Is err ''CONCURRENCY''"
  by (simp add: es_Append_def Let_def)

lemma es_Load_wf:
  assumes "es_wf s"
  shows "es_Load s a (int n) = Ret (Inr (drop n (es_stream s a)))"
proof (cases "gm_get (es_events s) a")
  case None
  then show ?thesis by (simp add: es_Load_def)
next
  case (Some xs)
  then show ?thesis using assms by (simp add: es_Load_def es_copy_all_wf)
qed

lemma es_startIdx_filter:
  "sorted_wrt (<) (map fst xs) \<Longrightarrow>
     es_startIdx p i xs = i + length (filter (\<lambda>e. fst e \<le> p) xs) \<and>
     drop (length (filter (\<lambda>e. fst e \<le> p) xs)) xs = filter (\<lambda>e. p < fst e) xs"
proof (induction xs arbitrary: i)
  case (Cons x xs)
  show ?case
  proof (cases "p < fst x")
    case True
    have "filter (\<lambda>e. fst e \<le> p) xs = []" "filter (\<lambda>e. p < fst e) xs = xs"
      using Cons.prems True by (auto simp: filter_empty_conv filter_id_conv)
    then show ?thesis using True by simp
  next
    case False
    then show ?thesis using Cons by simp
  qed
qed simp

lemma es_wf_positions: "es_wf s \<Longrightarrow> sorted_wrt (<) (map fst (es_globalEvents s))"
  by (auto simp: es_wf_def sorted_wrt_map sorted_wrt_iff_nth_less)

lemma es_LoadAll_wf:
  assumes "es_wf s"
  shows "es_LoadAll s p l =
    Inr (let xs = filter (\<lambda>e. p < fst e) (es_globalEvents s) in if l > 0 then take (nat l) xs else xs)"
proof -
  let ?n = "length (filter (\<lambda>e. fst e \<le> p) (es_globalEvents s))"
  let ?xs = "filter (\<lambda>e. p < fst e) (es_globalEvents s)"
  have f: "es_startIdx p 0 (es_globalEvents s) = ?n" "drop ?n (es_globalEvents s) = ?xs"
    using es_startIdx_filter [OF es_wf_positions [OF assms], of p 0] by simp_all
  have n: "length ?xs = length (es_globalEvents s) - ?n" "?n \<le> length (es_globalEvents s)"
    using f(2) by (metis length_drop) simp
  show ?thesis
  proof (cases "?n \<ge> length (es_globalEvents s)")
    case True
    then have "?xs = []" using n by (metis diff_is_0_eq length_0_conv)
    then show ?thesis using True by (simp add: es_LoadAll_def f(1) Let_def)
  next
    case False
    then show ?thesis using n
      by (auto simp: es_LoadAll_def f es_copy_all_wf [OF assms] Let_def nat_less_iff)
  qed
qed

subsection \<open>The contract of an aggregate event store\<close>

text \<open>
  \<open>AggregateEventStore\<close> of \<open>cqrs/event/event.go\<close>: \<open>stream\<close> is what the store holds of an
  aggregate, \<open>own a e\<close> says that the event \<open>e\<close> can be appended for the aggregate \<open>a\<close>.  An append at
  the current version extends the stream, an append at an earlier version is a concurrency conflict
  that changes no stream, a load returns the events after the given version.
\<close>

locale event_store =
  fixes ok :: "'s \<Rightarrow> bool"
    and stream :: "'s \<Rightarrow> string \<Rightarrow> 'e list"
    and own :: "string \<Rightarrow> 'e \<Rightarrow> bool"
    and append :: "string \<Rightarrow> int \<Rightarrow> 'e list \<Rightarrow> 's \<Rightarrow> (go_error option \<times> 's) outcome"
    and load :: "'s \<Rightarrow> string \<Rightarrow> int \<Rightarrow> (go_error + 'e list) outcome"
  assumes append_at:
      "ok s \<Longrightarrow> \<forall>e\<in>set evs. own a e \<Longrightarrow>
         \<exists>s'. append a (int (length (stream s a))) evs s = Ret (None, s') \<and> ok s' \<and>
              stream s' a = stream s a @ evs \<and> (\<forall>b. b \<noteq> a \<longrightarrow> stream s' b = stream s b)"
    and append_stale:
      "ok s \<Longrightarrow> \<forall>e\<in>set evs. own a e \<Longrightarrow> evs \<noteq> [] \<Longrightarrow> n < length (stream s a) \<Longrightarrow>
         \<exists>err s'. append a (int n) evs s = Ret (Some err, s') \<and> errors_Is err ''CONCURRENCY'' \<and> ok s' \<and>
                  stream s' = stream s"
    and load_stream: "ok s \<Longrightarrow> load s a (int n) = Ret (Inr (drop n (stream s a)))"
begin

lemma append_then_load:
  assumes "ok s" "\<forall>e\<in>set evs. own a e"
    and "append a (int (length (stream s a))) evs s = Ret (r, s')"
  shows "r = None \<and> ok s' \<and> load s' a (int (length (stream s a))) = Ret (Inr evs) \<and>
    load s' a 0 = Ret (Inr (stream s a @ evs))"
proof -
  obtain s'' where s'': "append a (int (length (stream s a))) evs s = Ret (None, s'')" "ok s''"
      "stream s'' a = stream s a @ evs"
    using append_at [OF assms(1,2)] by blast
  then have "s'' = s'" "r = None" using assms(3) by simp_all
  then show ?thesis
    using s'' load_stream [of s' a "length (stream s a)"] load_stream [of s' a 0] by simp
qed

lemma two_writers:
  assumes "ok s" "\<forall>e\<in>set es1. own a e" "\<forall>e\<in>set es2. own a e" "es1 \<noteq> []" "es2 \<noteq> []"
    and "append a (int (length (stream s a))) es1 s = Ret (r1, s1)"
    and "append a (int (length (stream s a))) es2 s1 = Ret (r2, s2)"
  shows "r1 = None \<and> (\<exists>err. r2 = Some err \<and> errors_Is err ''CONCURRENCY'') \<and>
    load s2 a 0 = Ret (Inr (stream s a @ es1))"
proof -
  obtain s1' where s1: "append a (int (length (stream s a))) es1 s = Ret (None, s1')" "ok s1'"
      "stream s1' a = stream s a @ es1"
    using append_at [OF assms(1,2)] by blast
  then have eq: "s1' = s1" "r1 = None" using assms(6) by simp_all
  have "length (stream s a) < length (stream s1 a)"
    using s1(3) eq assms(4) by simp
  from append_stale [OF _ assms(3,5) this] s1(2) eq
  obtain err s2' where s2: "append a (int (length (stream s a))) es2 s1 = Ret (Some err, s2')"
      "errors_Is err ''CONCURRENCY''" "ok s2'" "stream s2' = stream s1"
    by auto
  then have eq2: "s2' = s2" "r2 = Some err" using assms(7) by simp_all
  then show ?thesis
    using s2 s1(3) eq load_stream [of s2 a 0] by simp
qed

end

definition es_own :: "string \<Rightarrow> 'd devent \<Rightarrow> bool" where
  "es_own a e \<longleftrightarrow> agg_of e = a"

interpretation mem_events: event_store es_wf es_stream es_own "\<lambda>a v evs s. Ret (es_Append a v evs s)" es_Load
proof (unfold_locales, goal_cases)
  case (1 s evs a)
  have "filter (\<lambda>e. agg_of e = a) evs = evs" "\<And>b. b \<noteq> a \<Longrightarrow> filter (\<lambda>e. agg_of e = b) evs = []"
    using 1(2) by (auto simp: es_own_def filter_id_conv filter_empty_conv)
  then show ?case using es_Append_ok [OF 1(1) refl, of a evs] by auto
next
  case (2 s evs a n)
  then have "int n \<noteq> int (length (es_stream s a))" by simp
  from es_Append_stale [OF this, of evs] show ?case using 2(1) by blast
next
  case (3 s a n)
  then show ?case by (rule es_Load_wf)
qed

subsection \<open>The store as a log\<close>

text \<open>A sequence of \<open>Append\<close> calls, each of any aggregate, expected version and events.\<close>

fun es_run :: "(string \<times> int \<times> 'd devent list) list \<Rightarrow> 'd es_store \<Rightarrow> go_error option list \<times> 'd es_store" where
  "es_run [] s = ([], s)"
| "es_run ((a, v, evs) # reqs) s =
     (let (r, s1) = es_Append a v evs s; (rs, s2) = es_run reqs s1 in (r # rs, s2))"

definition accepted :: "(string \<times> int \<times> 'e list) list \<Rightarrow> go_error option list \<Rightarrow> 'e list" where
  "accepted reqs rs = concat (map (\<lambda>((a, v, evs), r). if r = None then evs else []) (zip reqs rs))"

lemma es_run_log:
  "es_wf s \<Longrightarrow> es_run reqs s = (rs, s') \<Longrightarrow>
     es_wf s' \<and> map snd (es_globalEvents s') = map snd (es_globalEvents s) @ accepted reqs rs"
proof (induction reqs arbitrary: s rs)
  case Nil
  then show ?case by (simp add: accepted_def)
next
  case (Cons q reqs)
  obtain a v evs where q: "q = (a, v, evs)" by (cases q)
  obtain r s1 rs' where r: "es_Append a v evs s = (r, s1)" "es_run reqs s1 = (rs', s')" "rs = r # rs'"
    using Cons.prems(2) by (auto simp: q split: prod.splits)
  have "es_wf s1 \<and> map snd (es_globalEvents s1) = map snd (es_globalEvents s) @ (if r = None then evs else [])"
    using es_Append_ok [OF Cons.prems(1), of v a evs] es_Append_stale [of v s a evs] r(1) Cons.prems(1)
    by (cases "v = int (length (es_stream s a))") auto
  then show ?case
    using Cons.IH [OF _ r(2)] by (simp add: q r(3) accepted_def)
qed

definition sample_event :: "string \<Rightarrow> unit devent" where
  "sample_event a = \<lparr>ev_Metadata = Some (NewBaseEvent a 7), ev_value = GNil\<rparr>"

definition sample_store :: "unit es_store" where
  "sample_store = \<lparr>es_events = [], es_globalEvents = [], es_nextPosition = 0, es_T = None, es_pool = None,
                   es_newFunc = False, es_shallowCopy = True\<rparr>"

lemma sample_store_new: "NewEventSourceStore None [] = Inr sample_store"
  by (simp add: NewEventSourceStore_def sample_store_def)

lemma agg_of_sample [simp]: "agg_of (sample_event a) = a"
  by (simp add: sample_event_def MetadataOf_def NewBaseEvent_def)

lemmas sample_eval = es_Append_def es_put_def es_Load_def es_LoadAll_def sample_store_def accepted_def gm_put_def gm_get_def Let_def

text \<open>
  C5.  The in-memory event store is an append-only log: after any sequence of appends to a new store
  the global events are the events of the accepted appends in order, at the consecutive positions
  1, 2, ..., and loading an aggregate from a version gives its events of that log after the version.
\<close>

theorem event_store_is_log:
  assumes "NewEventSourceStore t opts = Inr s0" and "es_run reqs s0 = (rs, s)"
  shows "map snd (es_globalEvents s) = accepted reqs rs \<and>
    map fst (es_globalEvents s) = map (\<lambda>i. int i + 1) [0..<length (accepted reqs rs)] \<and>
    es_Load s a (int n) = Ret (Inr (drop n (filter (\<lambda>e. agg_of e = a) (accepted reqs rs))))"
proof -
  note w = NewEventSourceStore_wf [OF assms(1)]
  then have s: "es_wf s" "map snd (es_globalEvents s) = accepted reqs rs"
    using es_run_log [OF _ assms(2)] by simp_all
  then have "length (es_globalEvents s) = length (accepted reqs rs)"
    by (metis length_map)
  then show ?thesis
    using s es_stream_wf [OF s(1), of a] es_Load_wf [OF s(1), of a n] by (simp add: es_wf_def)
qed

theorem event_store_is_log_witness:
  "map fst (es_globalEvents (snd (es_run [(''a'', 0, [sample_event ''a'']), (''a'', 0, [sample_event ''a'']),
      (''b'', 0, [sample_event ''b''])] sample_store))) = [1, 2]"
proof -
  let ?reqs = "[(''a'', 0, [sample_event ''a'']), (''a'', 0, [sample_event ''a'']), (''b'', 0, [sample_event ''b''])]"
  obtain rs s where r: "es_run ?reqs sample_store = (rs, s)" by (cases "es_run ?reqs sample_store")
  moreover have "length (accepted ?reqs rs) = 2"
    using r by (auto simp: sample_eval split: prod.splits)
  ultimately show ?thesis
    using event_store_is_log [OF sample_store_new r] by (simp add: numeral_2_eq_2)
qed

text \<open>
  Optimistic concurrency: of two writers that append to an aggregate at the version both have read,
  the first succeeds and the second fails with the concurrency error, and the aggregate's stream is the
  one the first writer left.
\<close>

theorem event_store_two_writers:
  assumes "NewEventSourceStore t opts = Inr s0" and "es_run reqs s0 = (rs, s)"
    and "es_Load s a 0 = Ret (Inr old)"
    and "\<forall>e\<in>set (es1 @ es2). agg_of e = a" and "es1 \<noteq> []" and "es2 \<noteq> []"
    and "es_Append a (int (length old)) es1 s = (r1, s1)"
    and "es_Append a (int (length old)) es2 s1 = (r2, s2)"
  shows "r1 = None \<and> (\<exists>err. r2 = Some err \<and> errors_Is err ''CONCURRENCY'') \<and>
    es_Load s2 a 0 = Ret (Inr (old @ es1))"
proof -
  have w: "es_wf s" using NewEventSourceStore_wf [OF assms(1)] es_run_log [OF _ assms(2)] by blast
  have old: "old = es_stream s a" using assms(3) es_Load_wf [OF w, of a 0] by simp
  show ?thesis
    using mem_events.two_writers [OF w _ _ assms(5,6), of a] assms(4,7,8) by (auto simp: old es_own_def)
qed

theorem event_store_two_writers_witness:
  "\<exists>err. fst (es_Append ''a'' 0 [sample_event ''a''] (snd (es_Append ''a'' 0 [sample_event ''a''] sample_store))) = Some err"
proof -
  obtain r1 s1 where a1: "es_Append ''a'' 0 [sample_event ''a''] sample_store = (r1, s1)"
    by (cases "es_Append ''a'' 0 [sample_event ''a''] sample_store")
  obtain r2 s2 where a2: "es_Append ''a'' 0 [sample_event ''a''] s1 = (r2, s2)"
    by (cases "es_Append ''a'' 0 [sample_event ''a''] s1")
  have "es_run [] sample_store = ([], sample_store)" "es_Load sample_store ''a'' 0 = Ret (Inr [])"
    by (simp_all add: sample_eval)
  from event_store_two_writers [OF sample_store_new this, of "[sample_event ''a'']" "[sample_event ''a'']" r1 s1 r2 s2]
  show ?thesis using a1 a2 by auto
qed

lemma filter_after_last:
  fixes xs :: "('k :: linorder \<times> 'v) list"
  assumes "sorted_wrt (<) (map fst (xs @ ys))" "xs \<noteq> []"
  shows "filter (\<lambda>e. fst (last xs) < fst e) (xs @ ys) = ys"
proof -
  obtain zs z where xs: "xs = zs @ [z]" using assms(2) by (cases xs rule: rev_cases) auto
  have "\<forall>e\<in>set zs. fst e < fst z" "\<forall>e\<in>set ys. fst z < fst e"
    using assms(1) by (auto simp: xs sorted_wrt_append)
  then have "filter (\<lambda>e. fst z < fst e) zs = []" "filter (\<lambda>e. fst z < fst e) ys = ys"
    by (auto simp: filter_empty_conv filter_id_conv)
  then show ?thesis by (simp add: xs)
qed

text \<open>
  \<open>LoadAll\<close> pages the global log: it returns the first \<open>limit\<close> events after a position (all for
  a limit of 0 or less), and a projection that resumes after the last position of one page gets the
  events that follow it, none twice and none left out.
\<close>

theorem event_log_pages:
  assumes "NewEventSourceStore t opts = Inr s0" and "es_run reqs s0 = (rs, s)"
    and "es_LoadAll s p l = Inr page" and "0 < l" and "page \<noteq> []"
    and "es_LoadAll s (fst (last page)) l' = Inr page'" and "0 < l'"
  shows "es_LoadAll s p (l + l') = Inr (page @ page') \<and> length page \<le> nat l \<and>
    es_LoadAll s p 0 = Inr (filter (\<lambda>e. p < fst e) (es_globalEvents s))"
proof -
  have w: "es_wf s" using NewEventSourceStore_wf [OF assms(1)] es_run_log [OF _ assms(2)] by blast
  define xs where "xs = filter (\<lambda>e. p < fst e) (es_globalEvents s)"
  have page: "page = take (nat l) xs"
    using assms(3,4) by (simp add: es_LoadAll_wf [OF w] xs_def Let_def)
  define q where "q = fst (last page)"
  have split: "xs = page @ drop (nat l) xs" by (simp add: page)
  have sw: "sorted_wrt (<) (map fst xs)"
    using es_wf_positions [OF w] by (simp add: xs_def sorted_wrt_map sorted_wrt_filter)
  have "p < q" using last_in_set [OF assms(5)] set_take_subset [of "nat l" xs]
    by (auto simp: q_def page xs_def)
  then have "filter (\<lambda>e. q < fst e) (es_globalEvents s) = filter (\<lambda>e. q < fst e) xs"
    by (auto simp: xs_def intro: filter_cong)
  also have "\<dots> = drop (nat l) xs"
    using filter_after_last [of page "drop (nat l) xs"] assms(5) sw split by (simp add: q_def)
  finally have "page' = take (nat l') (drop (nat l) xs)"
    using assms(6,7) by (simp add: es_LoadAll_wf [OF w] q_def Let_def)
  then show ?thesis
    using assms(4,7) by (simp add: es_LoadAll_wf [OF w] xs_def [symmetric] page take_add nat_add_distrib Let_def)
qed

theorem event_log_pages_witness:
  "\<exists>page page'. es_LoadAll (snd (es_run [(''a'', 0, [sample_event ''a'', sample_event ''a''])] sample_store)) 0 (1 + 1) =
     Inr (page @ page')"
proof -
  obtain rs s where r: "es_run [(''a'', 0, [sample_event ''a'', sample_event ''a''])] sample_store = (rs, s)"
    by (cases "es_run [(''a'', 0, [sample_event ''a'', sample_event ''a''])] sample_store")
  then have "es_LoadAll s 0 1 = Inr [(1, sample_event ''a'')]" "es_LoadAll s 1 1 = Inr [(2, sample_event ''a'')]"
    by (auto simp: sample_eval)
  with event_log_pages [OF sample_store_new r, of 0 1 "[(1, sample_event ''a'')]" 1 "[(2, sample_event ''a'')]"]
  show ?thesis using r by auto
qed

text \<open>
  \<open>Append\<close> checks the version of the aggregate it is given and files each event under the
  aggregate its metadata names: an append at version 0 of a fresh aggregate whose events name another
  one succeeds any number of times, extends that other stream without a check of its version, and
  leaves the given aggregate empty.
\<close>

theorem foreign_events_unchecked:
  assumes "NewEventSourceStore t opts = Inr s0" and "es_run reqs s0 = (rs, s)"
    and "es_Load s a 0 = Ret (Inr [])" and "es_Load s b 0 = Ret (Inr old)"
    and "\<forall>e\<in>set evs. agg_of e = b" and "a \<noteq> b"
  shows "\<exists>s1 s2. es_Append a 0 evs s = (None, s1) \<and> es_Append a 0 evs s1 = (None, s2) \<and>
    es_Load s2 a 0 = Ret (Inr []) \<and> es_Load s2 b 0 = Ret (Inr (old @ evs @ evs))"
proof -
  have w: "es_wf s" using NewEventSourceStore_wf [OF assms(1)] es_run_log [OF _ assms(2)] by blast
  have f: "filter (\<lambda>e. agg_of e = a) evs = []" "filter (\<lambda>e. agg_of e = b) evs = evs"
    using assms(5,6) by (auto simp: filter_empty_conv filter_id_conv)
  have emp: "es_stream s a = []" "es_stream s b = old"
    using assms(3,4) es_Load_wf [OF w, of _ 0] by simp_all
  obtain s1 where s1: "es_Append a 0 evs s = (None, s1)" "es_wf s1" "es_stream s1 a = []" "es_stream s1 b = old @ evs"
    using es_Append_ok [OF w, of 0 a evs] emp f by auto
  obtain s2 where s2: "es_Append a 0 evs s1 = (None, s2)" "es_wf s2" "es_stream s2 a = []" "es_stream s2 b = (old @ evs) @ evs"
    using es_Append_ok [OF s1(2), of 0 a evs] s1 f by auto
  show ?thesis
    using s1(1) s2 es_Load_wf [OF s2(2), of _ 0] by (intro exI [of _ s1] exI [of _ s2]) simp
qed

theorem foreign_events_unchecked_witness:
  "\<exists>s1. es_Append ''a'' 0 [sample_event ''b''] sample_store = (None, s1)"
proof -
  have "es_run [] sample_store = ([], sample_store)" "es_Load sample_store ''a'' 0 = Ret (Inr [])"
      "es_Load sample_store ''b'' 0 = Ret (Inr [])"
    by (simp_all add: sample_eval)
  from foreign_events_unchecked [OF sample_store_new this, of "[sample_event ''b'']"]
  show ?thesis by auto
qed

end
