(* ===== verification/Aggregates.thy ===== *)
theory Aggregates
  imports Entities EventStore
begin

text \<open>
  Aggregates: \<open>domain/aggregate/aggregate.go\<close>.  An aggregate is its embedded root and its domain state
  of a type \<open>'s\<close>; its method \<open>When\<close> is a parameter \<open>wh\<close> that takes an event and the domain state and
  returns its error and the state it leaves.  The root's fields are private to the package, so \<open>When\<close>
  does not change them.
\<close>

record 'd agg_root =
  ar_Entity :: Entity
  ar_version :: int
  ar_snapshotVersion :: int
  ar_uncommittedEvents :: "'d devent list"

record ('s, 'd) aggregate =
  ag_root :: "'d agg_root"
  ag_state :: 's

type_synonym ('s, 'd) when_fn = "'d devent \<Rightarrow> 's \<Rightarrow> go_error option \<times> 's"

definition NewAggregateRoot :: "string \<Rightarrow> go_error + 'd agg_root" where
  "NewAggregateRoot i =
     (case NewEntity i of
        Inl err \<Rightarrow> Inl err
      | Inr e \<Rightarrow> Inr \<lparr>ar_Entity = e, ar_version = 0, ar_snapshotVersion = -1, ar_uncommittedEvents = []\<rparr>)"

definition AggregateRoot_Equals :: "'d agg_root option \<Rightarrow> 'd agg_root option \<Rightarrow> bool" where
  "AggregateRoot_Equals a other =
     (case (a, other) of
        (Some x, Some y) \<Rightarrow> en_id (ar_Entity x) = en_id (ar_Entity y)
      | _ \<Rightarrow> a = None \<and> other = None)"

definition ExpectedVersion :: "'d agg_root \<Rightarrow> int" where
  "ExpectedVersion a = ar_version a - int (length (ar_uncommittedEvents a))"

definition SetSnapshotVersion :: "int \<Rightarrow> 'd agg_root \<Rightarrow> 'd agg_root" where
  "SetSnapshotVersion v a = a\<lparr>ar_version := v, ar_snapshotVersion := v\<rparr>"

text \<open>\<open>%T\<close> of an event.\<close>

definition event_T :: "'d devent \<Rightarrow> string" where
  "event_T evt = (case type_of (ev_value evt) of None \<Rightarrow> ''<nil>'' | Some t \<Rightarrow> type_String t)"

definition ApplyChange ::
    "('s, 'd) when_fn \<Rightarrow> 'd devent \<Rightarrow> ('s, 'd) aggregate \<Rightarrow> go_error option \<times> ('s, 'd) aggregate" where
  "ApplyChange wh evt agg =
     (case wh evt (ag_state agg) of
        (Some err, st) \<Rightarrow> (Some (ErrWrap (''apply event '' @ event_T evt @ '': '') err []), agg\<lparr>ag_state := st\<rparr>)
      | (None, st) \<Rightarrow>
          (let root = ag_root agg;
               root1 = root\<lparr>ar_uncommittedEvents := ar_uncommittedEvents root @ [evt]\<rparr>;
               root2 = root1\<lparr>ar_version := ar_version root1 + 1\<rparr>
           in (None, agg\<lparr>ag_state := st, ag_root := root2\<rparr>)))"

definition ApplyHistory ::
    "('s, 'd) when_fn \<Rightarrow> 'd devent \<Rightarrow> ('s, 'd) aggregate \<Rightarrow> go_error option \<times> ('s, 'd) aggregate" where
  "ApplyHistory wh evt agg =
     (case wh evt (ag_state agg) of
        (Some err, st) \<Rightarrow> (Some (ErrWrap (''apply event '' @ event_T evt @ '': '') err []), agg\<lparr>ag_state := st\<rparr>)
      | (None, st) \<Rightarrow>
          (let root = ag_root agg
           in (None, agg\<lparr>ag_state := st, ag_root := root\<lparr>ar_version := ar_version root + 1\<rparr>\<rparr>)))"

fun LoadFromHistory ::
    "('s, 'd) when_fn \<Rightarrow> 'd devent list \<Rightarrow> ('s, 'd) aggregate \<Rightarrow> go_error option \<times> ('s, 'd) aggregate" where
  "LoadFromHistory wh [] agg = (None, agg)"
| "LoadFromHistory wh (evt # events) agg =
     (case ApplyHistory wh evt agg of
        (Some err, agg1) \<Rightarrow> (Some err, agg1)
      | (None, agg1) \<Rightarrow> LoadFromHistory wh events agg1)"

definition UncommittedEvents :: "'d agg_root \<Rightarrow> 'd devent list" where
  "UncommittedEvents a = ar_uncommittedEvents a"

definition MarkEventsAsCommitted :: "'d agg_root \<Rightarrow> 'd agg_root" where
  "MarkEventsAsCommitted a = a\<lparr>ar_uncommittedEvents := []\<rparr>"

definition AggregateRoot_Validate :: "'d agg_root \<Rightarrow> go_error option" where
  "AggregateRoot_Validate a =
     (case Entity_Validate (ar_Entity a) of
        Some err \<Rightarrow> Some (ErrWrap ''aggregate: '' err [])
      | None \<Rightarrow> if ar_version a < 0 then Some (ErrText ''aggregate: version cannot be negative'') else None)"

definition AggregateRoot_Clone :: "'d agg_root option \<Rightarrow> 'd agg_root option" where
  "AggregateRoot_Clone a =
     (case a of
        None \<Rightarrow> None
      | Some r \<Rightarrow> Some \<lparr>ar_Entity = ar_Entity r, ar_version = ar_version r,
                         ar_snapshotVersion = ar_snapshotVersion r,
                         ar_uncommittedEvents = ar_uncommittedEvents r\<rparr>)"

definition CloneAggregate :: "('s, 'd) aggregate option \<Rightarrow> 'd agg_root option" where
  "CloneAggregate agg = (case agg of None \<Rightarrow> None | Some a \<Rightarrow> AggregateRoot_Clone (Some (ag_root a)))"

record AggregateRootJSON =
  rj_EntityJSON :: EntityJSON
  rj_Version :: int
  rj_SnapshotVersion :: int

definition AggregateRoot_ToJSON :: "'d agg_root \<Rightarrow> AggregateRootJSON" where
  "AggregateRoot_ToJSON a =
     \<lparr>rj_EntityJSON = Entity_ToJSON (ar_Entity a), rj_Version = ar_version a,
      rj_SnapshotVersion = ar_snapshotVersion a\<rparr>"

definition AggregateRoot_FromJSON :: "AggregateRootJSON \<Rightarrow> 'd agg_root \<Rightarrow> 'd agg_root" where
  "AggregateRoot_FromJSON j a =
     a\<lparr>ar_Entity := Entity_FromJSON (rj_EntityJSON j) (ar_Entity a), ar_version := rj_Version j,
       ar_snapshotVersion := rj_SnapshotVersion j\<rparr>"

definition AggregateRoot_MarshalJSON :: "(AggregateRootJSON \<Rightarrow> go_error + 'b) \<Rightarrow> 'd agg_root \<Rightarrow> go_error + 'b" where
  "AggregateRoot_MarshalJSON enc a = enc (AggregateRoot_ToJSON a)"

definition AggregateRoot_UnmarshalJSON ::
    "('b \<Rightarrow> go_error + AggregateRootJSON) \<Rightarrow> 'b \<Rightarrow> 'd agg_root \<Rightarrow> go_error option \<times> 'd agg_root" where
  "AggregateRoot_UnmarshalJSON dec data a =
     (case dec data of Inl err \<Rightarrow> (Some err, a) | Inr aux \<Rightarrow> (None, AggregateRoot_FromJSON aux a))"

abbreviation ag_id :: "('s, 'd) aggregate \<Rightarrow> string" where
  "ag_id a \<equiv> en_id (ar_Entity (ag_root a))"

abbreviation ag_version :: "('s, 'd) aggregate \<Rightarrow> int" where
  "ag_version a \<equiv> ar_version (ag_root a)"

abbreviation ag_events :: "('s, 'd) aggregate \<Rightarrow> 'd devent list" where
  "ag_events a \<equiv> ar_uncommittedEvents (ag_root a)"

subsection \<open>Replay\<close>

text \<open>The command side: applying the changes of a command one after the other, stopping at an error.\<close>

fun apply_changes ::
    "('s, 'd) when_fn \<Rightarrow> 'd devent list \<Rightarrow> ('s, 'd) aggregate \<Rightarrow> go_error option \<times> ('s, 'd) aggregate" where
  "apply_changes wh [] agg = (None, agg)"
| "apply_changes wh (evt # events) agg =
     (case ApplyChange wh evt agg of
        (Some err, agg1) \<Rightarrow> (Some err, agg1)
      | (None, agg1) \<Rightarrow> apply_changes wh events agg1)"

lemma ApplyChange_None:
  "ApplyChange wh e a = (None, a') \<longleftrightarrow>
     (\<exists>st. wh e (ag_state a) = (None, st) \<and>
        a' = a\<lparr>ag_state := st, ag_root := (ag_root a)\<lparr>ar_uncommittedEvents := ag_events a @ [e], ar_version := ag_version a + 1\<rparr>\<rparr>)"
  by (auto simp: ApplyChange_def Let_def split: prod.splits option.splits)

lemma ApplyHistory_None:
  "ApplyHistory wh e a = (None, a') \<longleftrightarrow>
     (\<exists>st. wh e (ag_state a) = (None, st) \<and>
        a' = a\<lparr>ag_state := st, ag_root := (ag_root a)\<lparr>ar_version := ag_version a + 1\<rparr>\<rparr>)"
  by (auto simp: ApplyHistory_def Let_def split: prod.splits option.splits)

lemma ApplyChange_root:
  "ApplyChange wh e a = (r, a') \<Longrightarrow>
     ag_id a' = ag_id a \<and> ar_snapshotVersion (ag_root a') = ar_snapshotVersion (ag_root a) \<and>
     ag_version a' = ag_version a + (if r = None then 1 else 0) \<and>
     ag_events a' = ag_events a @ (if r = None then [e] else []) \<and>
     ExpectedVersion (ag_root a') = ExpectedVersion (ag_root a)"
  by (auto simp: ApplyChange_def ExpectedVersion_def Let_def split: prod.splits option.splits)

lemma ApplyHistory_root:
  "ApplyHistory wh e a = (r, a') \<Longrightarrow>
     ag_id a' = ag_id a \<and> ar_snapshotVersion (ag_root a') = ar_snapshotVersion (ag_root a) \<and>
     ag_version a' = ag_version a + (if r = None then 1 else 0) \<and> ag_events a' = ag_events a"
  by (auto simp: ApplyHistory_def Let_def split: prod.splits option.splits)

lemma LoadFromHistory_append:
  "LoadFromHistory wh (xs @ ys) a =
     (case LoadFromHistory wh xs a of (Some err, a1) \<Rightarrow> (Some err, a1) | (None, a1) \<Rightarrow> LoadFromHistory wh ys a1)"
  by (induction wh xs a rule: LoadFromHistory.induct) (auto split: prod.splits option.splits)

lemma LoadFromHistory_None:
  "LoadFromHistory wh evs a = (None, a') \<Longrightarrow>
     ag_version a' = ag_version a + int (length evs) \<and> ag_events a' = ag_events a \<and> ag_id a' = ag_id a \<and>
     ar_snapshotVersion (ag_root a') = ar_snapshotVersion (ag_root a)"
proof (induction evs arbitrary: a)
  case (Cons e evs)
  then obtain a1 where "ApplyHistory wh e a = (None, a1)" "LoadFromHistory wh evs a1 = (None, a')"
    by (auto split: prod.splits option.splits)
  then show ?case using Cons.IH [of a1] ApplyHistory_root [of wh e a None a1] by simp
qed simp

text \<open>Two aggregates with the same identity, version and state, whatever is uncommitted.\<close>

definition same_replay :: "('s, 'd) aggregate \<Rightarrow> ('s, 'd) aggregate \<Rightarrow> bool" where
  "same_replay a b \<longleftrightarrow> ag_id a = ag_id b \<and> ag_version a = ag_version b \<and> ag_state a = ag_state b"

lemma apply_changes_replay:
  assumes "apply_changes wh evs a = (r, a')" "same_replay a b"
  shows "\<exists>b'. LoadFromHistory wh evs b = (r, b') \<and> same_replay a' b' \<and> ag_events b' = ag_events b \<and>
    ExpectedVersion (ag_root a') = ExpectedVersion (ag_root a) \<and>
    (\<exists>n\<le>length evs. ag_events a' = ag_events a @ take n evs \<and> (r = None \<longrightarrow> n = length evs))"
  using assms
proof (induction evs arbitrary: a b)
  case Nil
  then show ?case by auto
next
  case (Cons e evs)
  obtain r1 st where w: "wh e (ag_state a) = (r1, st)" by (cases "wh e (ag_state a)")
  obtain a1 where a1: "ApplyChange wh e a = (case r1 of None \<Rightarrow> None | Some err \<Rightarrow> Some (ErrWrap (''apply event '' @ event_T e @ '': '') err []), a1)"
    "ag_state a1 = st"
    using w by (cases r1) (simp_all add: ApplyChange_def Let_def)
  obtain b1 where b1: "ApplyHistory wh e b = (case r1 of None \<Rightarrow> None | Some err \<Rightarrow> Some (ErrWrap (''apply event '' @ event_T e @ '': '') err []), b1)"
    "ag_state b1 = st"
    using w Cons.prems(2) by (cases r1) (simp_all add: ApplyHistory_def same_replay_def Let_def)
  note ra = ApplyChange_root [OF a1(1)] and rb = ApplyHistory_root [OF b1(1)]
  have s1: "same_replay a1 b1"
    using ra rb a1(2) b1(2) Cons.prems(2) by (auto simp: same_replay_def split: option.splits)
  show ?case
  proof (cases r1)
    case None
    then obtain b' n where h: "LoadFromHistory wh evs b1 = (r, b')" "same_replay a' b'" "ag_events b' = ag_events b1"
        "ExpectedVersion (ag_root a') = ExpectedVersion (ag_root a1)" "n \<le> length evs"
        "ag_events a' = ag_events a1 @ take n evs" "r = None \<longrightarrow> n = length evs"
      using Cons.IH [OF _ s1] Cons.prems(1) a1(1) by auto
    then show ?thesis
      using None a1(1) b1(1) ra rb by (intro exI [of _ b']) (auto intro!: exI [of _ "Suc n"])
  next
    case (Some err)
    then show ?thesis using Cons.prems(1) a1 b1 ra rb s1 by (auto intro!: exI [of _ 0])
  qed
qed

text \<open>
  C14.  Replay: rehydrating an aggregate with the events a command applied to an equal aggregate gives the
  same error or none, and the same identity, version and domain state, with no uncommitted events of its
  own; the command side records exactly the events applied before an error, and the version it expects
  in the store stays the one it started from.
\<close>

theorem replay_reproduces_commands:
  assumes "apply_changes wh evs a = (r, a')"
  shows "\<exists>b'. LoadFromHistory wh evs (a\<lparr>ag_root := MarkEventsAsCommitted (ag_root a)\<rparr>) = (r, b') \<and>
    ag_id a' = ag_id b' \<and> ag_version a' = ag_version b' \<and> ag_state a' = ag_state b' \<and> ag_events b' = [] \<and>
    ExpectedVersion (ag_root a') = ExpectedVersion (ag_root a) \<and>
    (\<exists>n\<le>length evs. UncommittedEvents (ag_root a') = UncommittedEvents (ag_root a) @ take n evs \<and>
       (r = None \<longrightarrow> n = length evs))"
proof -
  have "same_replay a (a\<lparr>ag_root := MarkEventsAsCommitted (ag_root a)\<rparr>)"
    by (simp add: same_replay_def MarkEventsAsCommitted_def)
  from apply_changes_replay [OF assms this] obtain b' n where
    "LoadFromHistory wh evs (a\<lparr>ag_root := MarkEventsAsCommitted (ag_root a)\<rparr>) = (r, b')" "same_replay a' b'"
    "ag_events b' = []" "ExpectedVersion (ag_root a') = ExpectedVersion (ag_root a)" "n \<le> length evs"
    "ag_events a' = ag_events a @ take n evs" "r = None \<longrightarrow> n = length evs"
    by (auto simp: MarkEventsAsCommitted_def)
  then show ?thesis by (auto simp: same_replay_def UncommittedEvents_def)
qed

theorem replay_reproduces_commands_witness:
  "\<exists>b'. LoadFromHistory (\<lambda>e n. (None, Suc n)) [sample_event ''a'', sample_event ''a'']
     (\<lparr>ag_root = MarkEventsAsCommitted \<lparr>ar_Entity = \<lparr>en_id = ''a''\<rparr>, ar_version = 0, ar_snapshotVersion = -1, ar_uncommittedEvents = []\<rparr>,
       ag_state = 0\<rparr>) = (None, b') \<and> ag_version b' = 2"
proof -
  let ?a = "\<lparr>ag_root = \<lparr>ar_Entity = \<lparr>en_id = ''a''\<rparr>, ar_version = 0, ar_snapshotVersion = -1, ar_uncommittedEvents = []\<rparr>, ag_state = 0\<rparr>"
  let ?wh = "\<lambda>e n. (None, Suc n)"
  obtain a' where a': "apply_changes ?wh [sample_event ''a'', sample_event ''a''] ?a = (None, a')" "ag_version a' = 2"
    by (simp add: ApplyChange_def)
  from replay_reproduces_commands [OF this(1)] a'(2) show ?thesis by auto
qed

subsection \<open>Versions\<close>

text \<open>
  The exported operations that write an aggregate: a change, a replayed history, the commit after a save,
  the mark of a snapshot, and the two that read a JSON text, the second with what the decoder gives.
\<close>

datatype 'd agg_op =
    OpChange "'d devent"
  | OpHistory "'d devent list"
  | OpCommit
  | OpSnapshot int
  | OpFromJSON AggregateRootJSON
  | OpUnmarshalJSON "go_error + AggregateRootJSON"

fun agg_step :: "('s, 'd) when_fn \<Rightarrow> ('s, 'd) aggregate \<Rightarrow> 'd agg_op \<Rightarrow> ('s, 'd) aggregate" where
  "agg_step wh a (OpChange e) = snd (ApplyChange wh e a)"
| "agg_step wh a (OpHistory evs) = snd (LoadFromHistory wh evs a)"
| "agg_step wh a OpCommit = a\<lparr>ag_root := MarkEventsAsCommitted (ag_root a)\<rparr>"
| "agg_step wh a (OpSnapshot v) = a\<lparr>ag_root := SetSnapshotVersion v (ag_root a)\<rparr>"
| "agg_step wh a (OpFromJSON j) = a\<lparr>ag_root := AggregateRoot_FromJSON j (ag_root a)\<rparr>"
| "agg_step wh a (OpUnmarshalJSON r) = a\<lparr>ag_root := snd (AggregateRoot_UnmarshalJSON (\<lambda>_. r) () (ag_root a))\<rparr>"

text \<open>
  The specification reads a log of the operations that took effect: a change that \<open>When\<close> accepted, the
  part of a history before its first error, a JSON text that was decoded.
\<close>

fun replayed :: "('s, 'd) when_fn \<Rightarrow> 's \<Rightarrow> 'd devent list \<Rightarrow> 'd devent list \<times> 's" where
  "replayed wh st [] = ([], st)"
| "replayed wh st (e # evs) = (case wh e st of
     (Some _, st') \<Rightarrow> ([], st')
   | (None, st') \<Rightarrow> map_prod (Cons e) id (replayed wh st' evs))"

fun effect :: "('s, 'd) when_fn \<Rightarrow> 's \<Rightarrow> 'd agg_op \<Rightarrow> 'd agg_op list \<times> 's" where
  "effect wh st (OpChange e) = (case wh e st of (None, st') \<Rightarrow> ([OpChange e], st') | (Some _, st') \<Rightarrow> ([], st'))"
| "effect wh st (OpHistory evs) = (case replayed wh st evs of (evs', st') \<Rightarrow> ([OpHistory evs'], st'))"
| "effect wh st (OpUnmarshalJSON r) = (case r of Inl _ \<Rightarrow> ([], st) | Inr j \<Rightarrow> ([OpFromJSON j], st))"
| "effect wh st op = ([op], st)"

fun effects :: "('s, 'd) when_fn \<Rightarrow> 's \<Rightarrow> 'd agg_op list \<Rightarrow> 'd agg_op list \<times> 's" where
  "effects wh st [] = ([], st)"
| "effects wh st (op # ops) = (case effect wh st op of (l, st') \<Rightarrow> map_prod (append l) id (effects wh st' ops))"

text \<open>The entries after the last one that satisfies a condition, and what the log says of an aggregate.\<close>

definition since :: "('a \<Rightarrow> bool) \<Rightarrow> 'a list \<Rightarrow> 'a list" where
  "since p xs = rev (takeWhile (\<lambda>x. \<not> p x) (rev xs))"

fun own_events :: "'d agg_op \<Rightarrow> 'd devent list" where
  "own_events (OpChange e) = [e]"
| "own_events _ = []"

fun op_events :: "'d agg_op \<Rightarrow> 'd devent list" where
  "op_events (OpChange e) = [e]"
| "op_events (OpHistory evs) = evs"
| "op_events _ = []"

fun rebase :: "'d agg_op \<Rightarrow> (int \<times> int) option" where
  "rebase (OpSnapshot v) = Some (v, v)"
| "rebase (OpFromJSON j) = Some (rj_Version j, rj_SnapshotVersion j)"
| "rebase _ = None"

fun renamed :: "'d agg_op \<Rightarrow> string option" where
  "renamed (OpFromJSON j) = Some (ej_ID (rj_EntityJSON j))"
| "renamed _ = None"

definition log_pending :: "'d agg_op list \<Rightarrow> 'd devent list" where
  "log_pending l = concat (map own_events (since (\<lambda>op. op = OpCommit) l))"

definition log_base :: "'d agg_op list \<Rightarrow> int \<times> int" where
  "log_base l = last ((0, -1) # List.map_filter rebase l)"

definition log_version :: "'d agg_op list \<Rightarrow> int" where
  "log_version l = fst (log_base l) + int (length (concat (map op_events (since (\<lambda>op. rebase op \<noteq> None) l))))"

definition log_id :: "string \<Rightarrow> 'd agg_op list \<Rightarrow> string" where
  "log_id i l = last (i # List.map_filter renamed l)"

lemma since_Nil [simp]: "since p [] = []"
  by (simp add: since_def)

lemma since_snoc [simp]: "since p (xs @ [x]) = (if p x then [] else since p xs @ [x])"
  by (simp add: since_def)

lemma map_filter_snoc [simp]:
  "List.map_filter f (xs @ [x]) = List.map_filter f xs @ (case f x of None \<Rightarrow> [] | Some y \<Rightarrow> [y])"
  by (simp add: List.map_filter_def split: option.split)

lemma effects_snoc:
  "effects wh st (ops @ [op]) = (case effects wh st ops of (l, st') \<Rightarrow> map_prod (append l) id (effect wh st' op))"
  by (induction ops arbitrary: st) (simp_all add: prod.map_comp comp_def split: prod.split, auto simp: map_prod_def split: prod.splits)

definition log_describes :: "string \<Rightarrow> 'd agg_op list \<Rightarrow> 'd agg_root \<Rightarrow> bool" where
  "log_describes i l r \<longleftrightarrow> en_id (ar_Entity r) = log_id i l \<and> ar_version r = log_version l \<and>
     ar_snapshotVersion r = snd (log_base l) \<and> ar_uncommittedEvents r = log_pending l"

lemma LoadFromHistory_replayed:
  "snd (LoadFromHistory wh evs a) = (case replayed wh (ag_state a) evs of (evs', st') \<Rightarrow>
     a\<lparr>ag_state := st', ag_root := (ag_root a)\<lparr>ar_version := ag_version a + int (length evs')\<rparr>\<rparr>)"
  by (induction wh evs a rule: LoadFromHistory.induct)
    (auto simp: ApplyHistory_def Let_def split: prod.splits option.splits)

lemma agg_step_described:
  assumes "log_describes i l (ag_root b)" "effect wh (ag_state b) op = (l', st')"
  shows "log_describes i (l @ l') (ag_root (agg_step wh b op)) \<and> ag_state (agg_step wh b op) = st'"
proof (cases op)
  case (OpChange e)
  with assms show ?thesis
    by (auto simp: log_describes_def ApplyChange_def log_id_def log_version_def log_base_def log_pending_def Let_def
        split: prod.splits option.splits)
next
  case (OpHistory evs)
  with assms show ?thesis
    by (auto simp: log_describes_def LoadFromHistory_replayed log_id_def log_version_def log_base_def log_pending_def
        split: prod.splits)
next
  case (OpUnmarshalJSON r)
  with assms show ?thesis
    by (cases r) (auto simp: log_describes_def AggregateRoot_UnmarshalJSON_def AggregateRoot_FromJSON_def Entity_FromJSON_def
        log_id_def log_version_def log_base_def log_pending_def)
qed (use assms in \<open>auto simp: log_describes_def MarkEventsAsCommitted_def SetSnapshotVersion_def AggregateRoot_FromJSON_def
  Entity_FromJSON_def log_id_def log_version_def log_base_def log_pending_def\<close>)

lemma agg_steps_described:
  assumes "log_describes i [] (ag_root a)"
  shows "log_describes i (fst (effects wh (ag_state a) ops)) (ag_root (foldl (agg_step wh) a ops)) \<and>
    ag_state (foldl (agg_step wh) a ops) = snd (effects wh (ag_state a) ops)"
proof (induction ops rule: rev_induct)
  case (snoc op ops)
  obtain l st' where l: "effects wh (ag_state a) ops = (l, st')" by fastforce
  obtain l' st'' where l': "effect wh st' op = (l', st'')" by fastforce
  from agg_step_described [of i l "foldl (agg_step wh) a ops" wh op l' st''] snoc l l'
  show ?case by (simp add: effects_snoc)
qed (simp add: assms)

text \<open>A log without a snapshot mark or a JSON text counts at least its uncommitted events.\<close>

lemma since_all: "(\<And>x. x \<in> set xs \<Longrightarrow> \<not> p x) \<Longrightarrow> since p xs = xs"
  by (simp add: since_def takeWhile_eq_all_conv [THEN iffD2])

lemma since_suffix: "\<exists>ys. xs = ys @ since p xs"
  by (metis since_def rev_append rev_rev_ident takeWhile_dropWhile_id)

lemma own_events_le: "length (own_events op) \<le> length (op_events op)"
  by (cases op) simp_all

lemma length_own_events_le: "length (concat (map own_events l)) \<le> length (concat (map op_events l))"
  by (induction l) (auto intro: add_le_mono own_events_le)

lemma pending_le_version:
  assumes "\<And>op. op \<in> set l \<Longrightarrow> rebase op = None"
  shows "int (length (log_pending l)) \<le> log_version l" "log_base l = (0, -1)"
proof -
  show base: "log_base l = (0, -1)"
    using assms by (simp add: log_base_def List.map_filter_def filter_empty_conv [THEN iffD2])
  obtain ys where "l = ys @ since (\<lambda>op. op = OpCommit) l" using since_suffix by blast
  then have "length (concat (map op_events l)) = length (concat (map op_events ys)) +
      length (concat (map op_events (since (\<lambda>op. op = OpCommit) l)))"
    by (metis concat_append length_append map_append)
  then show "int (length (log_pending l)) \<le> log_version l"
    using assms length_own_events_le [of "since (\<lambda>op. op = OpCommit) l"]
    by (simp add: log_version_def base log_pending_def since_all)
qed



subsection \<open>Cloning and JSON\<close>

lemma AggregateRoot_Clone_id: "AggregateRoot_Clone a = a"
  by (auto simp: AggregateRoot_Clone_def split: option.splits)

text \<open>
  The JSON text of a root leaves out its uncommitted events, and reading one keeps those of the target:
  the version a rehydrated root expects is the version of the text less the target's events.
\<close>

lemma AggregateRoot_FromJSON_ToJSON:
  "AggregateRoot_FromJSON (AggregateRoot_ToJSON a) b =
     a\<lparr>ar_uncommittedEvents := ar_uncommittedEvents b\<rparr>"
  by (cases a; cases b; cases "ar_Entity a"; cases "ar_Entity b")
    (simp add: AggregateRoot_FromJSON_def AggregateRoot_ToJSON_def Entity_ToJSON_def Entity_FromJSON_def)

lemma AggregateRoot_json_roundtrip:
  assumes "enc (AggregateRoot_ToJSON a) = Inr t" "dec t = Inr (AggregateRoot_ToJSON a)"
  shows "AggregateRoot_MarshalJSON enc a = Inr t \<and>
    AggregateRoot_UnmarshalJSON dec t b = (None, a\<lparr>ar_uncommittedEvents := ar_uncommittedEvents b\<rparr>)"
  using assms by (simp add: AggregateRoot_MarshalJSON_def AggregateRoot_UnmarshalJSON_def AggregateRoot_FromJSON_ToJSON)

end
