(* ===== verification/Repositories.thy ===== *)
theory Repositories
  imports Aggregates
begin

text \<open>
  Repositories of aggregates: the contract of \<open>domain/repository/repository.go\<close> and the in-memory
  repositories of \<open>infra/repository/memory/repository.go\<close>.  A serializer is a pair of functions to
  and from byte slices (the type \<open>'b\<close>); each repository method runs under the repository's lock and
  is one definition.
\<close>

record ('s, 'd, 'b) serializer =
  sz_Serialize :: "('s, 'd) aggregate \<Rightarrow> go_error + 'b"
  sz_Deserialize :: "'b \<Rightarrow> go_error + ('s, 'd) aggregate"

record ('s, 'd) aggregateRecord =
  rec_agg :: "('s, 'd) aggregate"
  rec_version :: int

record ('s, 'd, 'b) mem_repo =
  mr_store :: "(string, ('s, 'd) aggregateRecord) gomap"
  mr_serializer :: "('s, 'd, 'b) serializer"

text \<open>The options set the serializer; without one it is the JSON serializer.\<close>

definition NewRepository :: "('s, 'd, 'b) serializer \<Rightarrow> ('s, 'd, 'b) serializer list \<Rightarrow> ('s, 'd, 'b) mem_repo" where
  "NewRepository json opts =
     foldl (\<lambda>r s. r\<lparr>mr_serializer := s\<rparr>) \<lparr>mr_store = [], mr_serializer = json\<rparr> opts"

definition NewEventSourcedRepository ::
    "('s, 'd, 'b) serializer \<Rightarrow> ('s, 'd, 'b) serializer list \<Rightarrow> ('s, 'd, 'b) mem_repo" where
  "NewEventSourcedRepository json opts =
     foldl (\<lambda>r s. r\<lparr>mr_serializer := s\<rparr>) \<lparr>mr_store = [], mr_serializer = json\<rparr> opts"

definition deepCopy :: "('s, 'd, 'b) serializer \<Rightarrow> ('s, 'd) aggregate \<Rightarrow> go_error + ('s, 'd) aggregate" where
  "deepCopy serializer agg =
     (case sz_Serialize serializer agg of
        Inl err \<Rightarrow> Inl (ErrWrap ''serialize aggregate: '' err [])
      | Inr data \<Rightarrow>
          (case sz_Deserialize serializer data of
             Inl err \<Rightarrow> Inl (ErrWrap ''deserialize aggregate: '' err [])
           | Inr copied \<Rightarrow> Inr copied))"

definition aggregate_not_found :: "string \<Rightarrow> go_error" where
  "aggregate_not_found i = ErrWrap (''aggregate '' @ i @ '': '') ErrNotFound []"

definition repo_Save :: "('s, 'd) aggregate \<Rightarrow> ('s, 'd, 'b) mem_repo \<Rightarrow> go_error option \<times> ('s, 'd, 'b) mem_repo" where
  "repo_Save agg r =
     (let root = ag_root agg;
          expectedVersion = ExpectedVersion root;
          i = en_id (ar_Entity root);
          conflict = (case gm_get (mr_store r) i of
              None \<Rightarrow> None
            | Some existing \<Rightarrow>
                if expectedVersion \<noteq> rec_version existing then Some (OptimisticLockError i expectedVersion False)
                else if ar_version root = rec_version existing \<and> length (UncommittedEvents root) = 0
                then Some (OptimisticLockError i expectedVersion True)
                else None)
      in case conflict of
           Some err \<Rightarrow> (Some err, r)
         | None \<Rightarrow>
             (case deepCopy (mr_serializer r) agg of
                Inl err \<Rightarrow> (Some err, r)
              | Inr copied \<Rightarrow>
                  (None, r\<lparr>mr_store := gm_put (mr_store r) i \<lparr>rec_agg = copied, rec_version = ar_version root\<rparr>\<rparr>)))"

definition repo_FindByID :: "('s, 'd, 'b) mem_repo \<Rightarrow> string \<Rightarrow> go_error + ('s, 'd) aggregate" where
  "repo_FindByID r i =
     (case gm_get (mr_store r) i of
        None \<Rightarrow> Inl (aggregate_not_found i)
      | Some rec \<Rightarrow> deepCopy (mr_serializer r) (rec_agg rec))"

definition repo_Delete :: "string \<Rightarrow> ('s, 'd, 'b) mem_repo \<Rightarrow> go_error option \<times> ('s, 'd, 'b) mem_repo" where
  "repo_Delete i r =
     (case gm_get (mr_store r) i of
        None \<Rightarrow> (Some (aggregate_not_found i), r)
      | Some rec \<Rightarrow> (None, r\<lparr>mr_store := gm_del (mr_store r) i\<rparr>))"

text \<open>The event-sourced repository also marks the saved aggregate's events as committed.\<close>

definition es_repo_Save ::
    "('s, 'd) aggregate \<Rightarrow> ('s, 'd, 'b) mem_repo \<Rightarrow> (go_error option \<times> ('s, 'd) aggregate) \<times> ('s, 'd, 'b) mem_repo" where
  "es_repo_Save agg r =
     (let root = ag_root agg;
          events = UncommittedEvents root
      in if length events = 0 then ((None, agg), r)
         else (let expectedVersion = ExpectedVersion root;
                   i = en_id (ar_Entity root);
                   conflict = (case gm_get (mr_store r) i of
                       None \<Rightarrow> None
                     | Some existing \<Rightarrow>
                         if expectedVersion \<noteq> rec_version existing then Some (OptimisticLockError i expectedVersion False)
                         else if ar_version root = rec_version existing
                         then Some (OptimisticLockError i expectedVersion True)
                         else None)
               in case conflict of
                    Some err \<Rightarrow> ((Some err, agg), r)
                  | None \<Rightarrow>
                      (case deepCopy (mr_serializer r) agg of
                         Inl err \<Rightarrow> ((Some err, agg), r)
                       | Inr copied \<Rightarrow>
                           ((None, agg\<lparr>ag_root := MarkEventsAsCommitted root\<rparr>),
                            r\<lparr>mr_store := gm_put (mr_store r) i \<lparr>rec_agg = copied, rec_version = ar_version root\<rparr>\<rparr>))))"

definition es_repo_Load :: "('s, 'd, 'b) mem_repo \<Rightarrow> string \<Rightarrow> go_error + ('s, 'd) aggregate" where
  "es_repo_Load r i =
     (case gm_get (mr_store r) i of
        None \<Rightarrow> Inl (aggregate_not_found i)
      | Some rec \<Rightarrow> deepCopy (mr_serializer r) (rec_agg rec))"

lemma errors_Is_not_found [simp]: "errors_Is (aggregate_not_found i) code \<longleftrightarrow> code = ''NOT_FOUND''"
  by (simp add: aggregate_not_found_def)

subsection \<open>The contract\<close>

text \<open>
  What every repository with optimistic locking promises its clients.  \<open>held s i\<close> is the version and
  domain state stored for an identity, \<open>expects a\<close> the version an aggregate was read at, \<open>fresh a\<close> says
  that it was not read from the repository.
\<close>

definition content :: "('s, 'd) aggregate \<Rightarrow> int \<times> 's" where
  "content a = (ag_version a, ag_state a)"

locale versioned_repository =
  fixes ok :: "'r \<Rightarrow> bool"
    and held :: "'r \<Rightarrow> string \<Rightarrow> (int \<times> 's) option"
    and expects :: "('s, 'd) aggregate \<Rightarrow> int"
    and fresh :: "('s, 'd) aggregate \<Rightarrow> bool"
    and save :: "('s, 'd) aggregate \<Rightarrow> 'r \<Rightarrow> (go_error option \<times> ('s, 'd) aggregate) \<times> 'r"
    and find :: "'r \<Rightarrow> string \<Rightarrow> go_error + ('s, 'd) aggregate"
  assumes save_new:
      "ok r \<Longrightarrow> held r (ag_id a) = None \<Longrightarrow> fresh a \<Longrightarrow> 0 \<le> ag_version a \<Longrightarrow> ag_events a \<noteq> [] \<Longrightarrow>
         \<exists>a' r'. save a r = ((None, a'), r') \<and> ok r' \<and> content a' = content a \<and>
                 (\<forall>i. held r' i = (if i = ag_id a then Some (content a) else held r i))"
    and save_current:
      "ok r \<Longrightarrow> held r (ag_id a) = Some (expects a, s0) \<Longrightarrow> expects a < ag_version a \<Longrightarrow> ag_events a \<noteq> [] \<Longrightarrow>
         \<exists>a' r'. save a r = ((None, a'), r') \<and> ok r' \<and> content a' = content a \<and>
                 (\<forall>i. held r' i = (if i = ag_id a then Some (content a) else held r i))"
    and save_stale:
      "ok r \<Longrightarrow> held r (ag_id a) = Some (v, s0) \<Longrightarrow> v \<noteq> expects a \<Longrightarrow> ag_events a \<noteq> [] \<Longrightarrow>
         \<exists>err. save a r = ((Some err, a), r) \<and> errors_Is err ''CONCURRENCY''"
    and find_held:
      "ok r \<Longrightarrow> held r i = Some (v, s0) \<Longrightarrow>
         \<exists>a. find r i = Inr a \<and> ag_id a = i \<and> content a = (v, s0) \<and> ag_events a = [] \<and> expects a = v"
    and find_missing:
      "ok r \<Longrightarrow> held r i = None \<Longrightarrow> \<exists>err. find r i = Inl err \<and> errors_Is err ''NOT_FOUND''"
    and change_expects: "ApplyChange wh e a = (None, a') \<Longrightarrow> expects a' = expects a"
begin

lemma changes_expects: "apply_changes wh evs a = (None, a') \<Longrightarrow> expects a' = expects a"
proof (induction evs arbitrary: a)
  case (Cons e evs)
  then obtain a1 where "ApplyChange wh e a = (None, a1)" "apply_changes wh evs a1 = (None, a')"
    by (auto split: prod.splits option.splits)
  then show ?case using Cons.IH [of a1] change_expects [of wh e a a1] by simp
qed simp

lemma changes_root:
  "apply_changes wh evs a = (None, a') \<Longrightarrow>
     ag_id a' = ag_id a \<and> ag_version a' = ag_version a + int (length evs) \<and> ag_events a' = ag_events a @ evs"
proof (induction evs arbitrary: a)
  case (Cons e evs)
  then obtain a1 where "ApplyChange wh e a = (None, a1)" "apply_changes wh evs a1 = (None, a')"
    by (auto split: prod.splits option.splits)
  then show ?case using Cons.IH [of a1] ApplyChange_root [of wh e a None a1] by simp
qed simp

lemma lost_update_prevented:
  assumes ok: "ok r" and c: "find r i = Inr c"
    and a1: "apply_changes wh evs1 c = (None, a1)" "evs1 \<noteq> []"
    and a2: "apply_changes wh evs2 c = (None, a2)" "evs2 \<noteq> []"
    and s1: "save a1 r = ((e1, b1), r1)" and s2: "save a2 r1 = ((e2, b2), r2)"
  shows "e1 = None \<and> (\<exists>err. e2 = Some err \<and> errors_Is err ''CONCURRENCY'') \<and> r2 = r1 \<and>
    (\<exists>b. find r2 i = Inr b \<and> ag_id b = i \<and> content b = content a1)"
proof -
  have "held r i \<noteq> None"
  proof
    assume "held r i = None"
    from find_missing [OF ok this] c show False by auto
  qed
  then obtain p where "held r i = Some p" by blast
  then obtain v st where h: "held r i = Some (v, st)" by (cases p) simp
  then have c': "ag_id c = i" "content c = (v, st)" "ag_events c = []" "expects c = v"
    using find_held [OF ok h] c by auto
  note r1 = changes_root [OF a1(1)] changes_expects [OF a1(1)]
  note r2 = changes_root [OF a2(1)] changes_expects [OF a2(1)]
  have "held r (ag_id a1) = Some (expects a1, st)" "expects a1 < ag_version a1" "ag_events a1 \<noteq> []"
    using h r1 c' a1(2) by (auto simp: content_def)
  from save_current [OF ok this] s1
  have k: "e1 = None" "ok r1" "held r1 i = Some (content a1)"
    using r1 c'(1) by auto
  have "ag_version a1 \<noteq> expects a2"
    using r1 r2 c' a1(2) by (auto simp: content_def)
  moreover have "held r1 (ag_id a2) = Some (ag_version a1, ag_state a1)" "ag_events a2 \<noteq> []"
    using k(3) r2 c'(1) a2(2) by (simp_all add: content_def)
  ultimately obtain err where "save a2 r1 = ((Some err, a2), r1)" "errors_Is err ''CONCURRENCY''"
    using save_stale [OF k(2)] by blast
  moreover obtain b where "find r1 i = Inr b" "ag_id b = i" "content b = content a1"
    using find_held [OF k(2), of i "ag_version a1" "ag_state a1"] k(3) by (auto simp: content_def)
  ultimately show ?thesis using s2 k(1) by simp
qed

end

subsection \<open>The in-memory repositories keep it\<close>

text \<open>
  What the repositories need of a serializer: it keeps the identity, version and domain state and
  leaves out the uncommitted events, as the JSON text of an aggregate root does.
\<close>

definition ser_ok :: "('s, 'd, 'b) serializer \<Rightarrow> bool" where
  "ser_ok z \<longleftrightarrow> (\<forall>a. \<exists>t c. sz_Serialize z a = Inr t \<and> sz_Deserialize z t = Inr c \<and>
     ag_id c = ag_id a \<and> content c = content a \<and> ag_events c = [])"

definition mr_ok :: "('s, 'd, 'b) mem_repo \<Rightarrow> bool" where
  "mr_ok r \<longleftrightarrow> ser_ok (mr_serializer r) \<and>
     (\<forall>i rec. gm_get (mr_store r) i = Some rec \<longrightarrow>
        ag_id (rec_agg rec) = i \<and> ag_version (rec_agg rec) = rec_version rec)"

definition mr_held :: "('s, 'd, 'b) mem_repo \<Rightarrow> string \<Rightarrow> (int \<times> 's) option" where
  "mr_held r i = map_option (\<lambda>rec. content (rec_agg rec)) (gm_get (mr_store r) i)"

lemma deepCopy_ok:
  assumes "ser_ok z"
  shows "\<exists>c. deepCopy z a = Inr c \<and> ag_id c = ag_id a \<and> content c = content a \<and> ag_events c = []"
proof -
  obtain t c where "sz_Serialize z a = Inr t" "sz_Deserialize z t = Inr c" "ag_id c = ag_id a"
      "content c = content a" "ag_events c = []"
    using assms unfolding ser_ok_def by blast
  then show ?thesis by (simp add: deepCopy_def)
qed

lemma mr_put_ok:
  assumes "mr_ok r" "ag_id c = i" "ag_version c = v"
  shows "mr_ok (r\<lparr>mr_store := gm_put (mr_store r) i \<lparr>rec_agg = c, rec_version = v\<rparr>\<rparr>) \<and>
    mr_held (r\<lparr>mr_store := gm_put (mr_store r) i \<lparr>rec_agg = c, rec_version = v\<rparr>\<rparr>) j =
      (if j = i then Some (content c) else mr_held r j)"
  using assms by (simp add: mr_ok_def mr_held_def)

lemma mr_held_None: "mr_held r i = None \<longleftrightarrow> gm_get (mr_store r) i = None"
  by (simp add: mr_held_def)

lemma mr_held_Some:
  "mr_ok r \<Longrightarrow> mr_held r i = Some (v, s) \<Longrightarrow>
     \<exists>rec. gm_get (mr_store r) i = Some rec \<and> rec_version rec = v \<and> content (rec_agg rec) = (v, s) \<and> ag_id (rec_agg rec) = i"
  by (auto simp: mr_held_def mr_ok_def content_def)

lemma mr_find_held:
  assumes "mr_ok r" "mr_held r i = Some (v, s)"
  shows "\<exists>a. repo_FindByID r i = Inr a \<and> ag_id a = i \<and> content a = (v, s) \<and> ag_events a = [] \<and>
    ExpectedVersion (ag_root a) = v"
proof -
  obtain rec where rec: "gm_get (mr_store r) i = Some rec" "content (rec_agg rec) = (v, s)" "ag_id (rec_agg rec) = i"
    using mr_held_Some [OF assms] by blast
  obtain c where c: "deepCopy (mr_serializer r) (rec_agg rec) = Inr c" "ag_id c = ag_id (rec_agg rec)"
      "content c = content (rec_agg rec)" "ag_events c = []"
    using deepCopy_ok assms(1) unfolding mr_ok_def by blast
  then show ?thesis using rec by (simp add: repo_FindByID_def content_def ExpectedVersion_def)
qed

lemma repo_Save_writes:
  assumes "mr_ok r" "mr_held r (ag_id a) = None \<or> mr_held r (ag_id a) = Some (ExpectedVersion (ag_root a), s0)"
    and "ag_events a \<noteq> []"
  shows "\<exists>r'. repo_Save a r = (None, r') \<and> mr_ok r' \<and>
    (\<forall>i. mr_held r' i = (if i = ag_id a then Some (content a) else mr_held r i))"
proof -
  obtain c where c: "deepCopy (mr_serializer r) a = Inr c" "ag_id c = ag_id a" "content c = content a"
    using deepCopy_ok assms(1) unfolding mr_ok_def by blast
  let ?r = "r\<lparr>mr_store := gm_put (mr_store r) (ag_id a) \<lparr>rec_agg = c, rec_version = ag_version a\<rparr>\<rparr>"
  have "repo_Save a r = (None, ?r)"
  proof (cases "mr_held r (ag_id a)")
    case None
    then show ?thesis using c(1) by (simp add: repo_Save_def mr_held_None Let_def)
  next
    case (Some h)
    then obtain rec where "gm_get (mr_store r) (ag_id a) = Some rec" "rec_version rec = ExpectedVersion (ag_root a)"
      using mr_held_Some [OF assms(1)] assms(2) by force
    then show ?thesis using c(1) assms(3) by (simp add: repo_Save_def UncommittedEvents_def Let_def)
  qed
  then show ?thesis
    using mr_put_ok [OF assms(1) c(2), of "ag_version a"] c(3) by (simp add: content_def)
qed

lemma repo_Save_stale:
  assumes "mr_ok r" "mr_held r (ag_id a) = Some (v, s0)" "v \<noteq> ExpectedVersion (ag_root a)"
  shows "\<exists>err. repo_Save a r = (Some err, r) \<and> errors_Is err ''CONCURRENCY''"
  using mr_held_Some [OF assms(1,2)] assms(3) by (auto simp: repo_Save_def Let_def)

lemma es_repo_Save_eq:
  "ag_events a \<noteq> [] \<Longrightarrow> es_repo_Save a r =
     (let (e, r') = repo_Save a r in ((e, if e = None then a\<lparr>ag_root := MarkEventsAsCommitted (ag_root a)\<rparr> else a), r'))"
  by (auto simp: es_repo_Save_def repo_Save_def UncommittedEvents_def ExpectedVersion_def Let_def split: option.split sum.split)

lemma es_repo_Load_eq: "es_repo_Load r i = repo_FindByID r i"
  by (simp add: es_repo_Load_def repo_FindByID_def)

lemma mr_find_missing: "mr_held r i = None \<Longrightarrow> \<exists>err. repo_FindByID r i = Inl err \<and> errors_Is err ''NOT_FOUND''"
  by (simp add: mr_held_None repo_FindByID_def)

lemma content_mark [simp]: "content (a\<lparr>ag_root := MarkEventsAsCommitted (ag_root a)\<rparr>) = content a"
  by (simp add: content_def MarkEventsAsCommitted_def)

interpretation mem_repo: versioned_repository mr_ok mr_held "\<lambda>a. ExpectedVersion (ag_root a)" "\<lambda>a. True"
    "\<lambda>a r. let (e, r') = repo_Save a r in ((e, a), r')" repo_FindByID
proof (unfold_locales, goal_cases)
  case (1 r a)
  then show ?case using repo_Save_writes [of r a] by auto
next
  case (2 r a s0)
  then show ?case using repo_Save_writes [of r a s0] by auto
next
  case (3 r a v s0)
  then show ?case using repo_Save_stale [of r a v s0] by auto
next
  case (4 r i v s0)
  then show ?case by (rule mr_find_held)
next
  case (5 r i)
  then show ?case by (simp add: mr_find_missing)
next
  case (6 wh e a a')
  then show ?case using ApplyChange_root by blast
qed

interpretation mem_es_repo: versioned_repository mr_ok mr_held "\<lambda>a. ExpectedVersion (ag_root a)" "\<lambda>a. True"
    es_repo_Save es_repo_Load
proof (unfold_locales, goal_cases)
  case (1 r a)
  then show ?case using repo_Save_writes [of r a] by (auto simp: es_repo_Save_eq)
next
  case (2 r a s0)
  then show ?case using repo_Save_writes [of r a s0] by (auto simp: es_repo_Save_eq)
next
  case (3 r a v s0)
  then show ?case using repo_Save_stale [of r a v s0] by (auto simp: es_repo_Save_eq)
next
  case (4 r i v s0)
  then show ?case unfolding es_repo_Load_eq by (rule mr_find_held)
next
  case (5 r i)
  then show ?case by (simp add: es_repo_Load_eq mr_find_missing)
next
  case (6 wh e a a')
  then show ?case using ApplyChange_root by blast
qed

subsection \<open>What clients get\<close>

text \<open>
  The states a repository reaches from a new one, by saves and deletions of any aggregates (a save of
  an aggregate whose root is its own).
\<close>

datatype ('s, 'd) repo_op = OpSave "('s, 'd) aggregate" | OpDelete string

fun repo_step :: "('s, 'd, 'b) mem_repo \<Rightarrow> ('s, 'd) repo_op \<Rightarrow> ('s, 'd, 'b) mem_repo" where
  "repo_step r (OpSave a) = snd (repo_Save a r)"
| "repo_step r (OpDelete i) = snd (repo_Delete i r)"

lemma NewRepository_fields: "mr_store (NewRepository json opts) = [] \<and> mr_serializer (NewRepository json opts) = last (json # opts)"
proof -
  have "mr_store (foldl (\<lambda>r s. r\<lparr>mr_serializer := s\<rparr>) r opts) = mr_store r \<and>
      mr_serializer (foldl (\<lambda>r s. r\<lparr>mr_serializer := s\<rparr>) r opts) = last (mr_serializer r # opts)" for r
    by (induction opts arbitrary: r) auto
  from this [of "\<lparr>mr_store = [], mr_serializer = json\<rparr>"] show ?thesis
    by (simp add: NewRepository_def)
qed

lemma repo_step_ok:
  assumes "mr_ok r"
  shows "mr_ok (repo_step r op)"
proof (cases op)
  case (OpSave a)
  obtain c where c: "deepCopy (mr_serializer r) a = Inr c" "ag_id c = ag_id a" "content c = content a"
    using deepCopy_ok assms unfolding mr_ok_def by blast
  then have "ag_version c = ag_version a" by (simp add: content_def)
  from mr_put_ok [OF assms c(2) this] c(1) assms OpSave show ?thesis
    by (auto simp: repo_Save_def Let_def split: option.split)
next
  case (OpDelete i)
  with assms show ?thesis by (auto simp: repo_Delete_def mr_ok_def split: option.splits)
qed

lemma repo_reachable_ok:
  "ser_ok (last (json # opts)) \<Longrightarrow> mr_ok (foldl repo_step (NewRepository json opts) ops)"
proof -
  assume "ser_ok (last (json # opts))"
  then have "mr_ok (NewRepository json opts)"
    using NewRepository_fields [of json opts] by (simp add: mr_ok_def)
  then show ?thesis by (rule foldl_inv [rotated]) (rule repo_step_ok)
qed

text \<open>
  C17.  Optimistic locking: after any saves and deletions, of two clients that read the same aggregate,
  change it and save it, the first succeeds, the second gets an error that is \<open>ErrConcurrency\<close> and
  changes nothing, and a later read returns what the first one saved.
\<close>

theorem memory_repository_no_lost_update:
  assumes "ser_ok (last (json # opts))" and "r = foldl repo_step (NewRepository json opts) ops"
    and "repo_FindByID r i = Inr c"
    and "apply_changes wh evs1 c = (None, a1)" and "evs1 \<noteq> []"
    and "apply_changes wh evs2 c = (None, a2)" and "evs2 \<noteq> []"
    and "repo_Save a1 r = (e1, r1)" and "repo_Save a2 r1 = (e2, r2)"
  shows "e1 = None \<and> (\<exists>err. e2 = Some err \<and> errors_Is err ''CONCURRENCY'') \<and> r2 = r1 \<and>
    (\<exists>b. repo_FindByID r2 i = Inr b \<and> ag_id b = i \<and> content b = content a1)"
proof -
  have "mr_ok r" using repo_reachable_ok [OF assms(1)] assms(2) by simp
  from mem_repo.lost_update_prevented [OF this assms(3-7), of e1 a1 r1 e2 a2 r2] assms(8,9)
  show ?thesis by auto
qed

text \<open>
  The event-sourced in-memory repository gives the same protection, and a successful save leaves the
  aggregate with no uncommitted events, so it can be changed and saved again.
\<close>

theorem memory_event_repository_no_lost_update:
  assumes "mr_ok r" and "es_repo_Load r i = Inr c"
    and "apply_changes wh evs1 c = (None, a1)" and "evs1 \<noteq> []"
    and "apply_changes wh evs2 c = (None, a2)" and "evs2 \<noteq> []"
    and "es_repo_Save a1 r = ((e1, b1), r1)" and "es_repo_Save a2 r1 = ((e2, b2), r2)"
  shows "e1 = None \<and> UncommittedEvents (ag_root b1) = [] \<and> content b1 = content a1 \<and>
    (\<exists>err. e2 = Some err \<and> errors_Is err ''CONCURRENCY'') \<and> r2 = r1 \<and>
    (\<exists>b. es_repo_Load r2 i = Inr b \<and> ag_id b = i \<and> content b = content a1)"
proof -
  note l = mem_es_repo.lost_update_prevented [OF assms]
  have "ag_events a1 \<noteq> []"
    using mem_es_repo.changes_root [OF assms(3)] assms(4) by simp
  from es_repo_Save_eq [OF this, of r] assms(7) l
  have "b1 = a1\<lparr>ag_root := MarkEventsAsCommitted (ag_root a1)\<rparr>"
    by (auto split: prod.splits)
  then have "UncommittedEvents (ag_root b1) = []" "content b1 = content a1"
    by (simp_all add: UncommittedEvents_def MarkEventsAsCommitted_def content_def)
  then show ?thesis using l by auto
qed

text \<open>
  \<open>Save\<close> does not commit: an aggregate saved twice in a row without \<open>MarkEventsAsCommitted\<close> gets
  an optimistic-lock error the second time, although nobody else wrote.
\<close>

theorem save_twice_conflicts:
  assumes "mr_ok r" and "repo_Save a r = (None, r1)" and "UncommittedEvents (ag_root a) \<noteq> []"
  shows "repo_Save a r1 = (Some (OptimisticLockError (ag_id a) (ExpectedVersion (ag_root a)) False), r1)"
proof -
  obtain c where r1: "r1 = r\<lparr>mr_store := gm_put (mr_store r) (ag_id a) \<lparr>rec_agg = c, rec_version = ag_version a\<rparr>\<rparr>"
    using assms(2) by (auto simp: repo_Save_def Let_def split: option.splits sum.splits if_splits)
  have "ExpectedVersion (ag_root a) \<noteq> ag_version a"
    using assms(3) by (simp add: ExpectedVersion_def UncommittedEvents_def)
  then show ?thesis by (simp add: repo_Save_def r1 Let_def)
qed

definition sample_aggregate :: "(nat, unit) aggregate" where
  "sample_aggregate = \<lparr>ag_root = \<lparr>ar_Entity = \<lparr>en_id = ''a''\<rparr>, ar_version = 1, ar_snapshotVersion = -1,
      ar_uncommittedEvents = [sample_event ''a'']\<rparr>, ag_state = 1\<rparr>"

definition sample_serializer :: "(nat, unit, (nat, unit) aggregate) serializer" where
  "sample_serializer = \<lparr>sz_Serialize = (\<lambda>a. Inr (a\<lparr>ag_root := MarkEventsAsCommitted (ag_root a)\<rparr>)), sz_Deserialize = Inr\<rparr>"

lemma sample_serializer_ok: "ser_ok sample_serializer"
  by (simp add: ser_ok_def sample_serializer_def MarkEventsAsCommitted_def content_def)

abbreviation sample_when :: "(nat, unit) when_fn" where
  "sample_when \<equiv> \<lambda>e n. (None, Suc n)"

lemmas sample_repo_eval = NewRepository_def repo_Save_def repo_FindByID_def deepCopy_def sample_serializer_def
  sample_aggregate_def MarkEventsAsCommitted_def UncommittedEvents_def ExpectedVersion_def ApplyChange_def Let_def

theorem memory_repository_no_lost_update_witness:
  "\<exists>c a1 r r1 e2. r = foldl repo_step (NewRepository sample_serializer []) [OpSave sample_aggregate] \<and>
     repo_FindByID r ''a'' = Inr c \<and> apply_changes sample_when [sample_event ''a''] c = (None, a1) \<and>
     repo_Save a1 r = (None, r1) \<and> repo_Save a1 r1 = (Some e2, r1)"
proof -
  obtain r where r: "r = foldl repo_step (NewRepository sample_serializer []) [OpSave sample_aggregate]" by blast
  obtain c where c: "repo_FindByID r ''a'' = Inr c"
    by (simp add: r sample_repo_eval)
  obtain a1 where a1: "apply_changes sample_when [sample_event ''a''] c = (None, a1)"
    by (simp add: ApplyChange_def Let_def)
  obtain e1 r1 e2 r2 where s: "repo_Save a1 r = (e1, r1)" "repo_Save a1 r1 = (e2, r2)"
    by (metis surj_pair)
  from memory_repository_no_lost_update [of sample_serializer "[]", OF _ r c a1 _ a1 _ s] sample_serializer_ok
  have "e1 = None" "\<exists>err. e2 = Some err" "r2 = r1" by auto
  then show ?thesis using r c a1 s by blast
qed

theorem memory_event_repository_no_lost_update_witness:
  "\<exists>(r :: (nat, unit, (nat, unit) aggregate) mem_repo) c a1 b1 r1 e2 b2 r2. es_repo_Load r ''a'' = Inr c \<and>
     apply_changes sample_when [sample_event ''a''] c = (None, a1) \<and>
     es_repo_Save a1 r = ((None, b1), r1) \<and> es_repo_Save a1 r1 = ((Some e2, b2), r2)"
proof -
  obtain r where r: "r = foldl repo_step (NewRepository sample_serializer []) [OpSave sample_aggregate]" by blast
  have ok: "mr_ok r"
    using repo_reachable_ok [of sample_serializer "[]" "[OpSave sample_aggregate]"] sample_serializer_ok r by simp
  obtain c where c: "es_repo_Load r ''a'' = Inr c"
    by (simp add: es_repo_Load_eq r sample_repo_eval)
  obtain a1 where a1: "apply_changes sample_when [sample_event ''a''] c = (None, a1)"
    by (simp add: ApplyChange_def Let_def)
  obtain e1 b1 r1 e2 b2 r2 where s: "es_repo_Save a1 r = ((e1, b1), r1)" "es_repo_Save a1 r1 = ((e2, b2), r2)"
    by (metis surj_pair)
  from memory_event_repository_no_lost_update [OF ok c a1 _ a1 _ s]
  obtain err where "e1 = None" "e2 = Some err" by auto
  then have "es_repo_Save a1 r = ((None, b1), r1)" "es_repo_Save a1 r1 = ((Some err, b2), r2)"
    using s by simp_all
  with c a1 show ?thesis by blast
qed

theorem save_twice_conflicts_witness:
  "\<exists>r1. repo_Save sample_aggregate (NewRepository sample_serializer []) = (None, r1) \<and>
     fst (repo_Save sample_aggregate r1) \<noteq> None"
proof -
  have ok: "mr_ok (NewRepository sample_serializer [])"
    using repo_reachable_ok [of sample_serializer "[]" "[]"] sample_serializer_ok by simp
  obtain r1 where r1: "repo_Save sample_aggregate (NewRepository sample_serializer []) = (None, r1)"
    by (simp add: sample_repo_eval)
  have "UncommittedEvents (ag_root sample_aggregate) \<noteq> []"
    by (simp add: sample_aggregate_def UncommittedEvents_def)
  from save_twice_conflicts [OF ok r1 this] r1 show ?thesis by auto
qed

end
