(* ===== verification/PgUtil.thy ===== *)
theory PgUtil
  imports GoErrors
begin

text \<open>
  What the PostgreSQL components share: the driver's errors and faults, which their operations take as
  arguments, and the nullable-column helpers of \<open>pg/util.go\<close>.
\<close>

text \<open>
  A driver error is a unique violation (SQL state 23505, what \<open>IsUniqueViolation\<close> of \<open>pg/util.go\<close>
  looks for) or another one.
\<close>

datatype pg_err = UniqueViolation go_error | OtherErr go_error

fun IsUniqueViolation :: "pg_err \<Rightarrow> bool" where
  "IsUniqueViolation (UniqueViolation e) = True"
| "IsUniqueViolation (OtherErr e) = False"

fun pg_error :: "pg_err \<Rightarrow> go_error" where
  "pg_error (UniqueViolation e) = e"
| "pg_error (OtherErr e) = e"

text \<open>Faults: of \<open>BeginTx\<close>, of the i-th \<open>ExecContext\<close>, of \<open>Commit\<close>, of \<open>QueryContext\<close>, of the i-th \<open>Scan\<close>, of \<open>rows.Err\<close>.\<close>

record pg_faults =
  pf_begin :: "go_error option"
  pf_exec :: "nat \<Rightarrow> go_error option"
  pf_commit :: "go_error option"
  pf_query :: "go_error option"
  pf_scan :: "nat \<Rightarrow> go_error option"
  pf_rows :: "go_error option"

definition no_faults :: pg_faults where
  "no_faults = \<lparr>pf_begin = None, pf_exec = (\<lambda>i. None), pf_commit = None, pf_query = None,
                pf_scan = (\<lambda>i. None), pf_rows = None\<rparr>"

text \<open>Faults of one statement: the driver's error, and the error of \<open>RowsAffected\<close>.\<close>

record stmt_faults =
  sf_exec :: "go_error option"
  sf_rows :: "go_error option"

definition sf_none :: stmt_faults where
  "sf_none = \<lparr>sf_exec = None, sf_rows = None\<rparr>"

definition NullString :: "string \<Rightarrow> string option" where
  "NullString s = (if s = [] then None else Some s)"

definition NullTime :: "time \<Rightarrow> time option" where
  "NullTime t = (if t = 0 then None else Some t)"

lemma no_faults_simps [simp]:
  "pf_begin no_faults = None" "pf_exec no_faults i = None" "pf_commit no_faults = None" "pf_query no_faults = None"
  "pf_scan no_faults i = None" "pf_rows no_faults = None"
  by (simp_all add: no_faults_def)

lemma NullString_read [simp]: "(case NullString x of None \<Rightarrow> [] | Some y \<Rightarrow> y) = x"
  by (simp add: NullString_def)

lemma NullTime_read [simp]: "(case NullTime x of None \<Rightarrow> 0 | Some y \<Rightarrow> y) = x"
  by (simp add: NullTime_def)

end
