(* ===== verification/PgEventStore.thy ===== *)
theory PgEventStore
  imports EventStore PgUtil
begin

text \<open>
  The PostgreSQL event store \<open>cqrs/impl/pg/event_store.go\<close> over the table \<open>ddd_domain_events\<close> of
  \<open>pg/migrate.go\<close>.  The model of the database is what the store's SQL says on that table: rows in
  the order of their \<open>BIGSERIAL\<close> id, whose sequence also advances for rows that are rolled back or
  refused, the constraint \<open>UNIQUE (aggregate_id, version)\<close>, and the store's one INSERT and its two SELECTs.
  What the driver may report besides is a record of faults; \<open>encoding/json\<close> is a pair of functions.
\<close>

record 'b ev_row =
  er_id :: int
  er_aggregate_id :: string
  er_event_type :: string
  er_event_data :: 'b
  er_occurred_at :: time
  er_version :: int
  er_correlation_id :: string
  er_causation_id :: string

record 'b ev_table =
  et_rows :: "'b ev_row list"
  et_seq :: int

text \<open>The INSERT: its row gets the next id; a duplicate (aggregate, version) is refused.\<close>

definition exec_insert :: "go_error option \<Rightarrow> 'b ev_row \<Rightarrow> 'b ev_table \<Rightarrow> pg_err option \<times> 'b ev_table" where
  "exec_insert flt row db =
     (case flt of
        Some e \<Rightarrow> (Some (OtherErr e), db)
      | None \<Rightarrow>
          (let i = et_seq db + 1;
               db1 = db\<lparr>et_seq := i\<rparr>
           in if \<exists>r\<in>set (et_rows db). er_aggregate_id r = er_aggregate_id row \<and> er_version r = er_version row
              then (Some (UniqueViolation (ErrText ''duplicate key value violates unique constraint'')), db1)
              else (None, db1\<lparr>et_rows := et_rows db1 @ [row\<lparr>er_id := i\<rparr>]\<rparr>)))"

text \<open>
  The store: the type parameter (None an interface), the dynamic type of the factory's events, the
  factory map from type names to the dynamic types of its factories, and the type the pool makes.
\<close>

record pg_store =
  ps_T :: "gtype option"
  ps_newFunc :: "gtype option"
  ps_factoryMap :: "(string, gtype) gomap option"
  ps_pool :: "gtype option"

datatype pg_es_option = PgWithFactory gtype | PgWithFactoryMap "(string, gtype) gomap"

fun apply_pg_es_option :: "pg_store \<Rightarrow> pg_es_option \<Rightarrow> pg_store" where
  "apply_pg_es_option s (PgWithFactory t) = s\<lparr>ps_newFunc := Some t\<rparr>"
| "apply_pg_es_option s (PgWithFactoryMap m) =
     s\<lparr>ps_factoryMap := Some (foldl (\<lambda>fm (k, v). gm_put fm k v)
                                (case ps_factoryMap s of None \<Rightarrow> [] | Some fm \<Rightarrow> fm) m)\<rparr>"

definition PgNewEventSourceStore :: "gtype option \<Rightarrow> pg_es_option list \<Rightarrow> go_error + pg_store" where
  "PgNewEventSourceStore t opts =
     (let s = foldl apply_pg_es_option \<lparr>ps_T = t, ps_newFunc = None, ps_factoryMap = None, ps_pool = None\<rparr> opts
      in case t of
           None \<Rightarrow>
             if ps_newFunc s = None \<and> ps_factoryMap s = None
             then Inl (ErrText ''PgEventSourceStore[T]: WithFactory or WithFactoryMap is required when T is an interface type'')
             else Inr s
         | Some ty \<Rightarrow>
             if \<not> is_ptr ty
             then Inl (ErrText (''PgEventSourceStore[T]: T must be a pointer type, got '' @ type_String ty))
             else if ps_newFunc s \<noteq> None then Inr s
             else (let v = TPtr (deref ty)
                   in if Some v \<noteq> t
                      then Inl (ErrText (''PgEventSourceStore[T]: pool New returned unexpected type '' @
                             type_String v @ '', expected '' @ type_String ty))
                      else Inr (s\<lparr>ps_pool := Some v\<rparr>)))"

definition pg_alloc :: "pg_store \<Rightarrow> string \<Rightarrow> go_error + gtype" where
  "pg_alloc s eventType =
     (case (case ps_factoryMap s of None \<Rightarrow> None | Some fm \<Rightarrow> gm_get fm eventType) of
        Some t \<Rightarrow> Inr t
      | None \<Rightarrow>
          (case ps_newFunc s of
             Some t \<Rightarrow> Inr t
           | None \<Rightarrow>
               (case ps_pool s of
                  Some v \<Rightarrow> if ps_T s = None \<or> ps_T s = Some v then Inr v
                            else Inl (ErrText ''PgEventSourceStore[T]: pool returned unexpected type'')
                | None \<Rightarrow> Inl (ErrText ''PgEventSourceStore[T]: pool returned unexpected type''))))"

text \<open>\<open>json.Marshal\<close> of an event, and \<open>json.Unmarshal\<close> into a new event of a dynamic type.\<close>

record ('d, 'b) pg_json =
  pj_Marshal :: "'d devent \<Rightarrow> go_error + 'b"
  pj_Unmarshal :: "'b \<Rightarrow> gtype \<Rightarrow> go_error + 'd devent"

fun pg_appendEvents ::
    "('d, 'b) pg_json \<Rightarrow> pg_faults \<Rightarrow> string \<Rightarrow> int \<Rightarrow> nat \<Rightarrow> 'd devent list \<Rightarrow> 'b ev_table \<Rightarrow>
       (go_error option \<times> 'b ev_table) outcome" where
  "pg_appendEvents js flt aggregateID expectedVersion i [] db = Ret (None, db)"
| "pg_appendEvents js flt aggregateID expectedVersion i (evt # events) db =
     (case pj_Marshal js evt of
        Inl err \<Rightarrow> Ret (Some (ErrWrap ''marshal event: '' err []), db)
      | Inr data \<Rightarrow>
          (let meta = MetadataOf evt;
               version = expectedVersion + int i + 1
           in out_bind (EventNameOf (ev_value evt))
                (\<lambda>name.
                   (let row = \<lparr>er_id = 0, er_aggregate_id = be_AggregateID meta, er_event_type = name,
                               er_event_data = data, er_occurred_at = be_OccurredAt meta, er_version = version,
                               er_correlation_id = be_CorrelationID meta, er_causation_id = be_CausationID meta\<rparr>
                    in case exec_insert (pf_exec flt i) row db of
                         (Some err, db1) \<Rightarrow>
                           if IsUniqueViolation err
                           then Ret (Some (ErrWrap (''concurrency conflict: version '' @ show_int version @
                                  '' already exists for aggregate '' @ aggregateID @ '': '') ErrConcurrency []), db1)
                           else Ret (Some (ErrWrap ''insert event: '' (pg_error err) []), db1)
                       | (None, db1) \<Rightarrow>
                           pg_appendEvents js flt aggregateID expectedVersion (Suc i) events db1))))"

text \<open>
  In a context that carries a transaction the rows go to that transaction, whose owner commits or rolls
  back; otherwise \<open>Append\<close> runs its own.
\<close>

definition pg_Append ::
    "('d, 'b) pg_json \<Rightarrow> pg_faults \<Rightarrow> bool \<Rightarrow> string \<Rightarrow> int \<Rightarrow> 'd devent list \<Rightarrow> 'b ev_table \<Rightarrow>
       (go_error option \<times> 'b ev_table) outcome" where
  "pg_Append js flt hasTx aggregateID expectedVersion events db =
     (if hasTx then pg_appendEvents js flt aggregateID expectedVersion 0 events db
      else case pf_begin flt of
             Some err \<Rightarrow> Ret (Some (ErrWrap ''begin tx: '' err []), db)
           | None \<Rightarrow>
               out_bind (pg_appendEvents js flt aggregateID expectedVersion 0 events db)
                 (\<lambda>(err, db1).
                    let rolled_back = db1\<lparr>et_rows := et_rows db\<rparr>
                    in case err of
                         Some e \<Rightarrow> Ret (Some e, rolled_back)
                       | None \<Rightarrow>
                           (case pf_commit flt of
                              Some e \<Rightarrow> Ret (Some e, rolled_back)
                            | None \<Rightarrow> Ret (None, db1))))"

text \<open>The loop over the rows of a SELECT.\<close>

fun pg_scan_rows ::
    "pg_store \<Rightarrow> ('d, 'b) pg_json \<Rightarrow> pg_faults \<Rightarrow> nat \<Rightarrow> 'b ev_row list \<Rightarrow> go_error + (int \<times> 'd devent) list" where
  "pg_scan_rows s js flt i [] =
     (case pf_rows flt of Some err \<Rightarrow> Inl (ErrWrap ''iterate events: '' err []) | None \<Rightarrow> Inr [])"
| "pg_scan_rows s js flt i (row # rows) =
     (case pf_scan flt i of
        Some err \<Rightarrow> Inl (ErrWrap ''scan event: '' err [])
      | None \<Rightarrow>
          (case pg_alloc s (er_event_type row) of
             Inl err \<Rightarrow> Inl (ErrWrap ''allocate event: '' err [])
           | Inr t \<Rightarrow>
               (case pj_Unmarshal js (er_event_data row) t of
                  Inl err \<Rightarrow> Inl (ErrWrap ''unmarshal event: '' err [])
                | Inr evt \<Rightarrow>
                    (case pg_scan_rows s js flt (Suc i) rows of
                       Inl err \<Rightarrow> Inl err
                     | Inr result \<Rightarrow> Inr ((er_id row, evt) # result)))))"

definition pg_Load ::
    "pg_store \<Rightarrow> ('d, 'b) pg_json \<Rightarrow> pg_faults \<Rightarrow> 'b ev_table \<Rightarrow> string \<Rightarrow> int \<Rightarrow> go_error + 'd devent list" where
  "pg_Load s js flt db aggregateID afterVersion =
     (case pf_query flt of
        Some err \<Rightarrow> Inl (ErrWrap ''query events: '' err [])
      | None \<Rightarrow>
          (case pg_scan_rows s js flt 0
                  (sort_key er_version
                     (filter (\<lambda>r. er_aggregate_id r = aggregateID \<and> er_version r > afterVersion) (et_rows db))) of
             Inl err \<Rightarrow> Inl err
           | Inr result \<Rightarrow> Inr (map snd result)))"

definition pg_LoadAll ::
    "pg_store \<Rightarrow> ('d, 'b) pg_json \<Rightarrow> pg_faults \<Rightarrow> 'b ev_table \<Rightarrow> int \<Rightarrow> int \<Rightarrow> go_error + (int \<times> 'd devent) list" where
  "pg_LoadAll s js flt db afterPosition limit =
     (case pf_query flt of
        Some err \<Rightarrow> Inl (ErrWrap ''query all events: '' err [])
      | None \<Rightarrow>
          (let rows = sort_key er_id (filter (\<lambda>r. er_id r > afterPosition) (et_rows db))
           in pg_scan_rows s js flt 0 (if limit > 0 then take (nat limit) rows else rows)))"

subsection \<open>The table's invariant\<close>

abbreviation agg_rows :: "'b ev_table \<Rightarrow> string \<Rightarrow> 'b ev_row list" where
  "agg_rows db a \<equiv> filter (\<lambda>r. er_aggregate_id r = a) (et_rows db)"

definition pg_decode :: "pg_store \<Rightarrow> ('d, 'b) pg_json \<Rightarrow> 'b ev_row \<Rightarrow> 'd devent" where
  "pg_decode s js r =
     (case pg_alloc s (er_event_type r) of
        Inl err \<Rightarrow> \<lparr>ev_Metadata = None, ev_value = GNil\<rparr>
      | Inr t \<Rightarrow> (case pj_Unmarshal js (er_event_data r) t of
           Inl err \<Rightarrow> \<lparr>ev_Metadata = None, ev_value = GNil\<rparr>
         | Inr e \<Rightarrow> e))"

definition pg_stream :: "pg_store \<Rightarrow> ('d, 'b) pg_json \<Rightarrow> 'b ev_table \<Rightarrow> string \<Rightarrow> 'd devent list" where
  "pg_stream s js db a = map (pg_decode s js) (agg_rows db a)"

text \<open>The versions of each aggregate are 1, 2, ... and every row can be read back.\<close>

definition row_ok :: "pg_store \<Rightarrow> ('d, 'b) pg_json \<Rightarrow> 'b ev_row \<Rightarrow> bool" where
  "row_ok s js r \<longleftrightarrow> (\<exists>t e. pg_alloc s (er_event_type r) = Inr t \<and> pj_Unmarshal js (er_event_data r) t = Inr e)"

definition pg_ok :: "pg_store \<Rightarrow> ('d, 'b) pg_json \<Rightarrow> 'b ev_table \<Rightarrow> bool" where
  "pg_ok s js db \<longleftrightarrow>
     (\<forall>a. map er_version (agg_rows db a) = map (\<lambda>i. int i + 1) [0..<length (agg_rows db a)]) \<and>
     (\<forall>r\<in>set (et_rows db). row_ok s js r)"

text \<open>An event the store can take for an aggregate: it is the aggregate's, and its JSON text reads back.\<close>

definition pg_own :: "pg_store \<Rightarrow> ('d, 'b) pg_json \<Rightarrow> string \<Rightarrow> 'd devent \<Rightarrow> bool" where
  "pg_own s js a e \<longleftrightarrow> agg_of e = a \<and>
     (\<exists>b n t. pj_Marshal js e = Inr b \<and> EventNameOf (ev_value e) = Ret n \<and> pg_alloc s n = Inr t \<and>
              pj_Unmarshal js b t = Inr e)"

lemma pg_ok_versions: "pg_ok s js db \<Longrightarrow> er_version ` set (agg_rows db a) = {1..int (length (agg_rows db a))}"
proof -
  assume "pg_ok s js db"
  then have "er_version ` set (agg_rows db a) = (\<lambda>i. int i + 1) ` {0..<length (agg_rows db a)}"
    unfolding pg_ok_def by (metis atLeastLessThan_upt list.set_map)
  also have "\<dots> = {1..int (length (agg_rows db a))}"
  proof (intro set_eqI iffI)
    fix x assume "x \<in> {1..int (length (agg_rows db a))}"
    then show "x \<in> (\<lambda>i. int i + 1) ` {0..<length (agg_rows db a)}"
      by (intro image_eqI [of _ _ "nat (x - 1)"]) auto
  qed auto
  finally show ?thesis .
qed

lemma taken_iff:
  "(\<exists>r\<in>set (et_rows db). er_aggregate_id r = a \<and> er_version r = v) \<longleftrightarrow> v \<in> er_version ` set (agg_rows db a)"
  by auto

lemma pg_insert_free:
  assumes "pg_ok s js db" and "pg_own s js a e" and "int (length (agg_rows db a)) < v"
    and "row = \<lparr>er_id = 0, er_aggregate_id = a, er_event_type = n, er_event_data = b, er_occurred_at = oc,
                er_version = v, er_correlation_id = co, er_causation_id = ca\<rparr>"
  shows "\<exists>db1. exec_insert None row db = (None, db1) \<and>
    et_rows db1 = et_rows db @ [row\<lparr>er_id := et_seq db + 1\<rparr>]"
proof -
  have "v \<notin> er_version ` set (agg_rows db a)"
    using assms(3) unfolding pg_ok_versions [OF assms(1)] by simp
  then have "\<not> (\<exists>r\<in>set (et_rows db). er_aggregate_id r = a \<and> er_version r = v)"
    by (simp only: taken_iff) simp
  then show ?thesis by (simp add: exec_insert_def assms(4) Let_def)
qed

lemma pg_appendEvents_ok:
  assumes "pg_ok s js db" and "\<forall>e\<in>set evs. pg_own s js a e" and "v + int i = int (length (agg_rows db a))"
  shows "\<exists>db'. pg_appendEvents js no_faults a v i evs db = Ret (None, db') \<and> pg_ok s js db' \<and>
    pg_stream s js db' a = pg_stream s js db a @ evs \<and> (\<forall>b. b \<noteq> a \<longrightarrow> pg_stream s js db' b = pg_stream s js db b)"
  using assms
proof (induction evs arbitrary: i db)
  case Nil
  then show ?case by simp
next
  case (Cons e evs)
  obtain b n t where e: "agg_of e = a" "pj_Marshal js e = Inr b" "EventNameOf (ev_value e) = Ret n"
      "pg_alloc s n = Inr t" "pj_Unmarshal js b t = Inr e"
    using Cons.prems(2) by (auto simp: pg_own_def)
  define row where "row = \<lparr>er_id = 0, er_aggregate_id = a, er_event_type = n, er_event_data = b,
      er_occurred_at = be_OccurredAt (MetadataOf e), er_version = v + int i + 1,
      er_correlation_id = be_CorrelationID (MetadataOf e), er_causation_id = be_CausationID (MetadataOf e)\<rparr>"
  obtain db1 where db1: "exec_insert None row db = (None, db1)"
      "et_rows db1 = et_rows db @ [row\<lparr>er_id := et_seq db + 1\<rparr>]"
    using pg_insert_free [OF Cons.prems(1), of a e "v + int i + 1" row] Cons.prems(2,3) row_def by auto
  have step: "pg_appendEvents js no_faults a v i (e # evs) db = pg_appendEvents js no_faults a v (Suc i) evs db1"
    using e db1(1) by (simp add: no_faults_def row_def [symmetric] Let_def)
  have rows: "agg_rows db1 c = agg_rows db c @ (if c = a then [row\<lparr>er_id := et_seq db + 1\<rparr>] else [])" for c
    by (simp add: db1(2) row_def)
  have dec: "pg_decode s js (row\<lparr>er_id := et_seq db + 1\<rparr>) = e" "row_ok s js (row\<lparr>er_id := et_seq db + 1\<rparr>)"
    using e by (simp_all add: pg_decode_def row_ok_def row_def)
  have ok1: "pg_ok s js db1"
  proof -
    have "map er_version (agg_rows db1 c) = map (\<lambda>i. int i + 1) [0..<length (agg_rows db1 c)]" for c
      using Cons.prems(1,3) by (simp add: rows pg_ok_def row_def)
    then show ?thesis using Cons.prems(1) dec(2) by (auto simp: pg_ok_def db1(2))
  qed
  have str: "pg_stream s js db1 c = pg_stream s js db c @ (if c = a then [e] else [])" for c
    by (simp add: pg_stream_def rows dec(1))
  have "v + int (Suc i) = int (length (agg_rows db1 a))"
    using Cons.prems(3) by (simp add: rows)
  from Cons.IH [OF ok1 _ this] Cons.prems(2)
  obtain db' where "pg_appendEvents js no_faults a v (Suc i) evs db1 = Ret (None, db')" "pg_ok s js db'"
      "pg_stream s js db' a = pg_stream s js db1 a @ evs" "\<forall>b. b \<noteq> a \<longrightarrow> pg_stream s js db' b = pg_stream s js db1 b"
    by auto
  then show ?case unfolding step by (simp add: str)
qed

lemma pg_appendEvents_stale:
  assumes "pg_ok s js db" and "\<forall>e\<in>set evs. pg_own s js a e" and "evs \<noteq> []"
    and "0 \<le> v" and "v < int (length (agg_rows db a))"
  shows "\<exists>err db'. pg_appendEvents js no_faults a v 0 evs db = Ret (Some err, db') \<and>
    errors_Is err ''CONCURRENCY'' \<and> et_rows db' = et_rows db"
proof -
  obtain e evs' where evs: "evs = e # evs'" using assms(3) by (cases evs) auto
  obtain b n t where e: "agg_of e = a" "pj_Marshal js e = Inr b" "EventNameOf (ev_value e) = Ret n"
    using assms(2) by (auto simp: pg_own_def evs)
  have "v + 1 \<in> er_version ` set (agg_rows db a)"
    using assms(4,5) unfolding pg_ok_versions [OF assms(1)] by simp
  then have "\<exists>r\<in>set (et_rows db). er_aggregate_id r = a \<and> er_version r = v + 1"
    by (simp only: taken_iff)
  then show ?thesis
    using e by (simp add: evs no_faults_def exec_insert_def Let_def)
qed

lemma pg_ok_rows: "et_rows db' = et_rows db \<Longrightarrow> pg_ok s js db' = pg_ok s js db \<and> pg_stream s js db' = pg_stream s js db"
  by (simp add: pg_ok_def pg_stream_def fun_eq_iff)

lemma pg_Append_ok:
  assumes "pg_ok s js db" and "\<forall>e\<in>set evs. pg_own s js a e"
  shows "\<exists>db'. pg_Append js no_faults tx a (int (length (pg_stream s js db a))) evs db = Ret (None, db') \<and>
    pg_ok s js db' \<and> pg_stream s js db' a = pg_stream s js db a @ evs \<and>
    (\<forall>b. b \<noteq> a \<longrightarrow> pg_stream s js db' b = pg_stream s js db b)"
proof -
  obtain db' where "pg_appendEvents js no_faults a (int (length (pg_stream s js db a))) 0 evs db = Ret (None, db')"
      "pg_ok s js db'" "pg_stream s js db' a = pg_stream s js db a @ evs"
      "\<forall>b. b \<noteq> a \<longrightarrow> pg_stream s js db' b = pg_stream s js db b"
    using pg_appendEvents_ok [OF assms, of "int (length (pg_stream s js db a))" 0] by (auto simp: pg_stream_def)
  moreover have "pf_begin no_faults = None" "pf_commit no_faults = None"
    by (simp_all add: no_faults_def)
  ultimately show ?thesis by (simp add: pg_Append_def)
qed

lemma pg_Append_stale:
  assumes "pg_ok s js db" and "\<forall>e\<in>set evs. pg_own s js a e" and "evs \<noteq> []" and "n < length (pg_stream s js db a)"
  shows "\<exists>err db'. pg_Append js no_faults tx a (int n) evs db = Ret (Some err, db') \<and>
    errors_Is err ''CONCURRENCY'' \<and> pg_ok s js db' \<and> pg_stream s js db' = pg_stream s js db"
proof -
  obtain err db' where "pg_appendEvents js no_faults a (int n) 0 evs db = Ret (Some err, db')"
      "errors_Is err ''CONCURRENCY''" "et_rows db' = et_rows db"
    using pg_appendEvents_stale [OF assms(1-3), of "int n"] assms(4) by (auto simp: pg_stream_def)
  moreover have "pf_begin no_faults = None"
    by (simp add: no_faults_def)
  ultimately show ?thesis
    using assms(1) pg_ok_rows [of db' db s js] pg_ok_rows [of "db'\<lparr>et_rows := et_rows db\<rparr>" db s js]
    by (simp add: pg_Append_def)
qed

lemma pg_scan_rows_ok:
  "\<forall>r\<in>set rows. row_ok s js r \<Longrightarrow>
     pg_scan_rows s js no_faults i rows = Inr (map (\<lambda>r. (er_id r, pg_decode s js r)) rows)"
proof (induction rows arbitrary: i)
  case Nil
  then show ?case by (simp add: no_faults_def)
next
  case (Cons r rows)
  then obtain t e where "pg_alloc s (er_event_type r) = Inr t" "pj_Unmarshal js (er_event_data r) t = Inr e"
    by (auto simp: row_ok_def)
  moreover have "pf_scan no_faults i = None" by (simp add: no_faults_def)
  ultimately show ?case using Cons by (simp add: pg_decode_def)
qed

lemma filter_upt_versions:
  fixes xs :: "'b ev_row list"
  assumes "map er_version xs = map (\<lambda>i. int i + 1) [0..<length xs]"
  shows "filter (\<lambda>r. int n < er_version r) xs = drop n xs" and "sorted (map er_version xs)"
proof -
  show "sorted (map er_version xs)"
    by (simp only: assms) (simp add: sorted_iff_nth_mono)
  have v: "er_version (xs ! i) = int i + 1" if "i < length xs" for i
    using arg_cong [OF assms, of "\<lambda>ys. ys ! i"] that by simp
  have "xs = take n xs @ drop n xs" by simp
  then have "filter (\<lambda>r. int n < er_version r) xs =
      filter (\<lambda>r. int n < er_version r) (take n xs) @ filter (\<lambda>r. int n < er_version r) (drop n xs)"
    by (metis filter_append)
  moreover have "filter (\<lambda>r. int n < er_version r) (take n xs) = []"
    using v by (auto simp: filter_empty_conv in_set_conv_nth)
  moreover have "filter (\<lambda>r. int n < er_version r) (drop n xs) = drop n xs"
    using v by (auto simp: filter_id_conv in_set_conv_nth)
  ultimately show "filter (\<lambda>r. int n < er_version r) xs = drop n xs" by simp
qed

lemma pg_Load_from:
  assumes "pg_ok s js db" and "filter (\<lambda>r. v < er_version r) (agg_rows db a) = drop n (agg_rows db a)"
  shows "pg_Load s js no_faults db a v = Inr (drop n (pg_stream s js db a))"
proof -
  have sel: "filter (\<lambda>r. er_aggregate_id r = a \<and> v < er_version r) (et_rows db) = drop n (agg_rows db a)"
    by (simp only: assms(2) [symmetric] filter_filter)
  have "sorted (map er_version (agg_rows db a))"
    using assms(1) filter_upt_versions(2) unfolding pg_ok_def by blast
  then have "sort_key er_version (drop n (agg_rows db a)) = drop n (agg_rows db a)"
    by (intro sort_key_id_if_sorted) (simp add: drop_map [symmetric] sorted_wrt_drop)
  moreover have "\<forall>r\<in>set (drop n (agg_rows db a)). row_ok s js r"
    using assms(1) by (auto simp: pg_ok_def dest: in_set_dropD)
  moreover have "pf_query no_faults = None" by (simp add: no_faults_def)
  ultimately show ?thesis
    by (simp add: pg_Load_def sel pg_scan_rows_ok pg_stream_def drop_map o_def)
qed

lemma pg_Load_ok: "pg_ok s js db \<Longrightarrow> pg_Load s js no_faults db a (int n) = Inr (drop n (pg_stream s js db a))"
proof -
  assume ok: "pg_ok s js db"
  then have "map er_version (agg_rows db a) = map (\<lambda>i. int i + 1) [0..<length (agg_rows db a)]"
    unfolding pg_ok_def by blast
  from pg_Load_from [OF ok filter_upt_versions(1) [OF this]] show ?thesis .
qed

lemma pg_Load_all_versions: "pg_ok s js db \<Longrightarrow> v \<le> 0 \<Longrightarrow> pg_Load s js no_faults db a v = Inr (pg_stream s js db a)"
proof -
  assume ok: "pg_ok s js db" "v \<le> 0"
  have "filter (\<lambda>r. v < er_version r) (agg_rows db a) = drop 0 (agg_rows db a)"
  proof -
    have "\<forall>r\<in>set (agg_rows db a). v < er_version r"
      using pg_ok_versions [OF ok(1), of a] ok(2) by force
    then show ?thesis by (simp add: filter_id_conv del: filter_filter)
  qed
  from pg_Load_from [OF ok(1) this] show ?thesis by simp
qed

text \<open>
  What the event-sourced repository asks in addition of its store: a load after version -1, that is, from
  before the first event, gives the whole stream.
\<close>

locale replay_event_store = event_store +
  assumes load_all: "ok s \<Longrightarrow> load s a (-1) = Ret (Inr (stream s a))"
begin

lemma append_then_replay:
  assumes "ok s" "\<forall>e\<in>set evs. own a e"
    and "append a (int (length (stream s a))) evs s = Ret (r, s')"
  shows "load s' a (-1) = Ret (Inr (stream s a @ evs))"
proof -
  obtain s'' where "append a (int (length (stream s a))) evs s = Ret (None, s'')" "ok s''"
      "stream s'' a = stream s a @ evs"
    using append_at [OF assms(1,2)] by blast
  then show ?thesis using assms(3) load_all [of s' a] by simp
qed

end

interpretation pg_events: replay_event_store "pg_ok st js" "pg_stream st js" "pg_own st js"
    "pg_Append js no_faults tx" "\<lambda>db a n. Ret (pg_Load st js no_faults db a n)" for st js tx
proof (unfold_locales, goal_cases)
  case (1 s evs a)
  then show ?case by (rule pg_Append_ok)
next
  case (2 s evs a n)
  then show ?case by (rule pg_Append_stale)
next
  case (3 s a n)
  then show ?case by (simp add: pg_Load_ok)
next
  case (4 s a)
  then show ?case by (simp add: pg_Load_all_versions)
qed

subsection \<open>A concrete store\<close>

definition sample_pg_event :: "string \<Rightarrow> unit devent" where
  "sample_pg_event a = \<lparr>ev_Metadata = Some (NewBaseEvent a 7), ev_value = GAny (TPtr (TNamed ''shop/event'' ''Placed'')) ()\<rparr>"

definition sample_pg_store :: pg_store where
  "sample_pg_store = \<lparr>ps_T = None, ps_newFunc = Some (TPtr (TNamed ''shop/event'' ''Placed'')), ps_factoryMap = None, ps_pool = None\<rparr>"

definition sample_json :: "(unit, unit devent) pg_json" where
  "sample_json = \<lparr>pj_Marshal = Inr, pj_Unmarshal = (\<lambda>b t. Inr b)\<rparr>"

definition empty_table :: "'b ev_table" where
  "empty_table = \<lparr>et_rows = [], et_seq = 0\<rparr>"

lemma sample_pg_store_new:
  "PgNewEventSourceStore None [PgWithFactory (TPtr (TNamed ''shop/event'' ''Placed''))] = Inr sample_pg_store"
  by (simp add: PgNewEventSourceStore_def sample_pg_store_def Let_def)

lemma pg_own_sample: "pg_own sample_pg_store sample_json a (sample_pg_event a)"
  by (simp add: pg_own_def sample_pg_event_def sample_json_def sample_pg_store_def pg_alloc_def EventNameOf_def
      MetadataOf_def NewBaseEvent_def)

lemma pg_ok_empty: "pg_ok st js empty_table \<and> pg_stream st js empty_table a = []"
  by (simp add: pg_ok_def pg_stream_def empty_table_def)

lemma es_wf_sample: "es_wf sample_store \<and> es_stream sample_store a = []"
  using NewEventSourceStore_wf [OF sample_store_new] by (simp add: sample_store_def)

subsection \<open>The two stores\<close>

text \<open>
  C15.  On the aggregate's own events the PostgreSQL store simulates the in-memory one: from states with
  the same streams, an append at the current or an earlier version succeeds in both or is a concurrency
  conflict in both, and leaves the same streams; loads after any version agree.
\<close>

theorem pg_simulates_memory:
  assumes "es_wf s" and "pg_ok st js db" and "\<And>a. pg_stream st js db a = es_stream s a"
    and "evs \<noteq> []" and "\<forall>e\<in>set evs. pg_own st js a e" and "n \<le> length (es_stream s a)"
  shows "\<exists>r s' r' db'. es_Append a (int n) evs s = (r, s') \<and>
    pg_Append js no_faults tx a (int n) evs db = Ret (r', db') \<and>
    (r = None \<longleftrightarrow> r' = None) \<and>
    (\<forall>err. r = Some err \<longrightarrow> errors_Is err ''CONCURRENCY'') \<and> (\<forall>err. r' = Some err \<longrightarrow> errors_Is err ''CONCURRENCY'') \<and>
    es_wf s' \<and> pg_ok st js db' \<and> (\<forall>b. pg_stream st js db' b = es_stream s' b) \<and>
    (\<forall>b m. es_Load s' b (int m) = Ret (pg_Load st js no_faults db' b (int m)))"
proof -
  have own: "\<forall>e\<in>set evs. es_own a e"
    using assms(5) by (auto simp: pg_own_def es_own_def)
  have loads: "es_Load s' b (int m) = Ret (pg_Load st js no_faults db' b (int m))"
    if "es_wf s'" "pg_ok st js db'" "\<forall>b. pg_stream st js db' b = es_stream s' b" for s' db' b m
    using es_Load_wf [OF that(1), of b m] pg_Load_ok [OF that(2), of b m] that(3) by simp
  show ?thesis
  proof (cases "n = length (es_stream s a)")
    case True
    obtain s' where s': "es_Append a (int n) evs s = (None, s')" "es_wf s'" "es_stream s' a = es_stream s a @ evs"
        "\<forall>b. b \<noteq> a \<longrightarrow> es_stream s' b = es_stream s b"
      using mem_events.append_at [OF assms(1) own] True by auto
    obtain db' where db': "pg_Append js no_faults tx a (int n) evs db = Ret (None, db')" "pg_ok st js db'"
        "pg_stream st js db' a = pg_stream st js db a @ evs"
        "\<forall>b. b \<noteq> a \<longrightarrow> pg_stream st js db' b = pg_stream st js db b"
      using pg_Append_ok [OF assms(2,5), of tx] True assms(3) by auto
    have "pg_stream st js db' b = es_stream s' b" for b
      using s'(3,4) db'(3,4) assms(3) by (cases "b = a") simp_all
    then show ?thesis using s' db' loads [OF s'(2) db'(2)] by blast
  next
    case False
    then have lt: "n < length (es_stream s a)" using assms(6) by simp
    obtain err s' where s': "es_Append a (int n) evs s = (Some err, s')" "errors_Is err ''CONCURRENCY''" "es_wf s'"
        "es_stream s' = es_stream s"
      using mem_events.append_stale [OF assms(1) own assms(4) lt] by auto
    obtain err' db' where db': "pg_Append js no_faults tx a (int n) evs db = Ret (Some err', db')"
        "errors_Is err' ''CONCURRENCY''" "pg_ok st js db'" "pg_stream st js db' = pg_stream st js db"
      using pg_Append_stale [OF assms(2,5,4), of n tx] lt assms(3) by auto
    have "pg_stream st js db' b = es_stream s' b" for b
      using s'(4) db'(4) assms(3) by metis
    then show ?thesis using s' db' loads [OF s'(3) db'(3)] by blast
  qed
qed

theorem pg_simulates_memory_witness:
  "\<exists>s' r' db'. es_Append ''a'' 0 [sample_pg_event ''a''] sample_store = (None, s') \<and>
     pg_Append sample_json no_faults False ''a'' 0 [sample_pg_event ''a''] empty_table = Ret (r', db') \<and> r' = None"
proof -
  have "es_Append ''a'' 0 [sample_pg_event ''a''] sample_store =
      (None, snd (es_Append ''a'' 0 [sample_pg_event ''a''] sample_store))"
    by (simp add: sample_eval)
  moreover have "\<exists>r s' r' db'. es_Append ''a'' (int 0) [sample_pg_event ''a''] sample_store = (r, s') \<and>
      pg_Append sample_json no_faults False ''a'' (int 0) [sample_pg_event ''a''] empty_table = Ret (r', db') \<and>
      (r = None \<longleftrightarrow> r' = None)"
  proof -
    have "es_wf sample_store" "pg_ok sample_pg_store sample_json empty_table"
      "\<And>a. pg_stream sample_pg_store sample_json empty_table a = es_stream sample_store a"
      "[sample_pg_event ''a''] \<noteq> []" "\<forall>e\<in>set [sample_pg_event ''a'']. pg_own sample_pg_store sample_json ''a'' e"
      "0 \<le> length (es_stream sample_store ''a'')"
      by (simp_all only: es_wf_sample pg_ok_empty pg_own_sample list.set ball_simps le0 not_Cons_self2 simp_thms insert_iff empty_iff list.distinct)
    from pg_simulates_memory [OF this, of False] show ?thesis by blast
  qed
  ultimately show ?thesis by auto
qed

lemma pg_appendEvents_beyond:
  assumes "\<forall>r\<in>set (agg_rows db a). er_version r \<le> v + int i" and "\<forall>e\<in>set evs. pg_own s js a e"
  shows "\<exists>db'. pg_appendEvents js no_faults a v i evs db = Ret (None, db') \<and>
    pg_stream s js db' a = pg_stream s js db a @ evs \<and>
    map er_version (agg_rows db' a) = map er_version (agg_rows db a) @ map (\<lambda>k. v + int (i + k) + 1) [0..<length evs]"
  using assms
proof (induction evs arbitrary: i db)
  case Nil
  then show ?case by simp
next
  case (Cons e evs)
  obtain b n t where e: "agg_of e = a" "pj_Marshal js e = Inr b" "EventNameOf (ev_value e) = Ret n"
      "pg_alloc s n = Inr t" "pj_Unmarshal js b t = Inr e"
    using Cons.prems(2) by (auto simp: pg_own_def)
  define row where "row = \<lparr>er_id = 0, er_aggregate_id = a, er_event_type = n, er_event_data = b,
      er_occurred_at = be_OccurredAt (MetadataOf e), er_version = v + int i + 1,
      er_correlation_id = be_CorrelationID (MetadataOf e), er_causation_id = be_CausationID (MetadataOf e)\<rparr>"
  define row1 where "row1 = row\<lparr>er_id := et_seq db + 1\<rparr>"
  have free: "\<not> (\<exists>r\<in>set (et_rows db). er_aggregate_id r = a \<and> er_version r = v + int i + 1)"
    using Cons.prems(1) by force
  have "er_aggregate_id row = a" "er_version row = v + int i + 1" by (simp_all add: row_def)
  with free obtain db1 where db1: "exec_insert None row db = (None, db1)" "et_rows db1 = et_rows db @ [row1]"
    by (simp add: exec_insert_def row1_def Let_def)
  have step: "pg_appendEvents js no_faults a v i (e # evs) db = pg_appendEvents js no_faults a v (Suc i) evs db1"
    using e db1(1) by (simp add: no_faults_def row_def [symmetric] Let_def)
  have rows: "agg_rows db1 a = agg_rows db a @ [row1]"
    by (simp add: db1(2) row1_def row_def)
  have dec: "pg_decode s js row1 = e" "er_version row1 = v + int i + 1"
    using e by (simp_all add: pg_decode_def row_def row1_def)
  have "\<forall>r\<in>set (agg_rows db1 a). er_version r \<le> v + int (Suc i)"
    using Cons.prems(1) by (auto simp: rows dec(2) simp del: set_filter)
  from Cons.IH [OF this] Cons.prems(2)
  obtain db' where db': "pg_appendEvents js no_faults a v (Suc i) evs db1 = Ret (None, db')"
      "pg_stream s js db' a = pg_stream s js db1 a @ evs"
      "map er_version (agg_rows db' a) = map er_version (agg_rows db1 a) @ map (\<lambda>k. v + int (Suc i + k) + 1) [0..<length evs]"
    by auto
  have "map (\<lambda>k. v + int (i + k) + 1) [0..<length (e # evs)] =
      (v + int i + 1) # map (\<lambda>k. v + int (Suc i + k) + 1) [0..<length evs]"
    by (simp add: upt_conv_Cons map_Suc_upt [symmetric] o_def del: upt_Suc)
  then show ?case unfolding step
    using db' by (simp add: pg_stream_def rows dec del: filter_append)
qed

text \<open>
  Beyond the current version the stores differ: an append whose expected version is greater than the
  aggregate's is a conflict for the in-memory store, while the PostgreSQL store, which relies on the
  uniqueness of (aggregate, version) alone, accepts it and leaves a gap in the versions.
\<close>

theorem pg_accepts_version_gap:
  assumes "es_wf s" and "pg_ok st js db" and "pg_stream st js db a = es_stream s a"
    and "\<forall>e\<in>set evs. pg_own st js a e" and "length (es_stream s a) < n"
  shows "(\<exists>err. es_Append a (int n) evs s = (Some err, s) \<and> errors_Is err ''CONCURRENCY'') \<and>
    (\<exists>db'. pg_Append js no_faults tx a (int n) evs db = Ret (None, db') \<and>
       pg_stream st js db' a = pg_stream st js db a @ evs \<and>
       map er_version (agg_rows db' a) =
         map er_version (agg_rows db a) @ map (\<lambda>k. int n + int k + 1) [0..<length evs])"
proof -
  have "length (agg_rows db a) = length (es_stream s a)"
    using arg_cong [OF assms(3), of length] by (simp add: pg_stream_def)
  then have "er_version ` set (agg_rows db a) = {1..int (length (es_stream s a))}"
    using pg_ok_versions [OF assms(2), of a] by simp
  then have "\<forall>r\<in>set (agg_rows db a). er_version r \<le> int (length (es_stream s a))"
    using atLeastAtMost_iff by blast
  then have "\<forall>r\<in>set (agg_rows db a). er_version r \<le> int n + int 0"
    using assms(5) by fastforce
  from pg_appendEvents_beyond [OF this assms(4)]
  obtain db' where db': "pg_appendEvents js no_faults a (int n) 0 evs db = Ret (None, db')"
      "pg_stream st js db' a = pg_stream st js db a @ evs"
      "map er_version (agg_rows db' a) = map er_version (agg_rows db a) @ map (\<lambda>k. int n + int k + 1) [0..<length evs]"
    by auto
  have "pf_begin no_faults = None" "pf_commit no_faults = None" by (simp_all add: no_faults_def)
  with db'(1) have "pg_Append js no_faults tx a (int n) evs db = Ret (None, db')"
    by (simp add: pg_Append_def)
  moreover have "int n \<noteq> int (length (es_stream s a))" using assms(5) by simp
  ultimately show ?thesis using es_Append_stale [of "int n" s a evs] db'(2,3) by blast
qed

theorem pg_accepts_version_gap_witness:
  "\<exists>db'. pg_Append sample_json no_faults False ''a'' (int 5) [sample_pg_event ''a''] empty_table = Ret (None, db') \<and>
     map er_version (agg_rows db' ''a'') = [6]"
proof -
  have "\<forall>e\<in>set [sample_pg_event ''a'']. pg_own sample_pg_store sample_json ''a'' e"
    using pg_own_sample [of "''a''"] by simp
  from pg_accepts_version_gap [of sample_store sample_pg_store sample_json empty_table "''a''", OF _ _ _ this, of 5 False]
  obtain db' where "pg_Append sample_json no_faults False ''a'' (int 5) [sample_pg_event ''a''] empty_table = Ret (None, db')"
    "map er_version (agg_rows db' ''a'') = map er_version (agg_rows (empty_table :: unit devent ev_table) ''a'') @ map (\<lambda>k. int 5 + int k + 1) [0..<length [sample_pg_event ''a'']]"
    using es_wf_sample [of "''a''"] pg_ok_empty [of sample_pg_store sample_json "''a''"] by auto
  then show ?thesis by (intro exI [of _ db']) (simp add: empty_table_def)
qed

end
