(* ===== verification/PgRepositories.thy ===== *)
theory PgRepositories
  imports Repositories PgEventStore
begin

text \<open>
  The PostgreSQL repositories \<open>infra/repository/pg/repository.go\<close> over the table
  \<open>ddd_aggregate_snapshots\<close> of \<open>pg/migrate.go\<close>, whose primary key is the aggregate's id alone: the table
  is a map from ids to rows, and the repository's INSERT, UPDATE, SELECT and DELETE are what their SQL
  says on it.  The event-sourced repository takes its event store through the interface's
  \<open>Append\<close> and \<open>Load\<close>, which are arguments.
\<close>

record 'b snapshot_row =
  sr_aggregate_type :: string
  sr_snapshot_data :: 'b
  sr_version :: int
  sr_updated_at :: time

type_synonym 'b snapshot_table = "(string, 'b snapshot_row) gomap"

definition sql_insert_snapshot ::
    "stmt_faults \<Rightarrow> string \<Rightarrow> 'b snapshot_row \<Rightarrow> 'b snapshot_table \<Rightarrow> (pg_err + nat) \<times> 'b snapshot_table" where
  "sql_insert_snapshot flt i row t =
     (case sf_exec flt of
        Some e \<Rightarrow> (Inl (OtherErr e), t)
      | None \<Rightarrow>
          (case gm_get t i of
             Some old \<Rightarrow> (Inl (UniqueViolation (ErrText ''duplicate key value violates unique constraint'')), t)
           | None \<Rightarrow> (Inr 1, gm_put t i row)))"

definition sql_update_snapshot ::
    "stmt_faults \<Rightarrow> string \<Rightarrow> int \<Rightarrow> 'b snapshot_row \<Rightarrow> 'b snapshot_table \<Rightarrow> (pg_err + nat) \<times> 'b snapshot_table" where
  "sql_update_snapshot flt i snapshotVersion row t =
     (case sf_exec flt of
        Some e \<Rightarrow> (Inl (OtherErr e), t)
      | None \<Rightarrow>
          (case gm_get t i of
             Some old \<Rightarrow>
               if sr_aggregate_type old = sr_aggregate_type row \<and> sr_version old = snapshotVersion
               then (Inr 1, gm_put t i row) else (Inr 0, t)
           | None \<Rightarrow> (Inr 0, t)))"

definition sql_select_snapshot ::
    "stmt_faults \<Rightarrow> string \<Rightarrow> string \<Rightarrow> 'b snapshot_table \<Rightarrow> go_error + ('b \<times> int) option" where
  "sql_select_snapshot flt i typeName t =
     (case sf_exec flt of
        Some e \<Rightarrow> Inl e
      | None \<Rightarrow>
          (case gm_get t i of
             Some row \<Rightarrow> Inr (if sr_aggregate_type row = typeName then Some (sr_snapshot_data row, sr_version row) else None)
           | None \<Rightarrow> Inr None))"

definition sql_delete_snapshot ::
    "stmt_faults \<Rightarrow> string \<Rightarrow> string \<Rightarrow> 'b snapshot_table \<Rightarrow> (go_error + nat) \<times> 'b snapshot_table" where
  "sql_delete_snapshot flt i typeName t =
     (case sf_exec flt of
        Some e \<Rightarrow> (Inl e, t)
      | None \<Rightarrow>
          (case gm_get t i of
             Some row \<Rightarrow> if sr_aggregate_type row = typeName then (Inr 1, gm_del t i) else (Inr 0, t)
           | None \<Rightarrow> (Inr 0, t)))"

text \<open>
  The INSERT or UPDATE of a serialized aggregate, which \<open>Save\<close> and \<open>saveSnapshot\<close> share word for word.
\<close>

definition write_snapshot ::
    "stmt_faults \<Rightarrow> time \<Rightarrow> string \<Rightarrow> 'b \<Rightarrow> 'd agg_root \<Rightarrow> 'b snapshot_table \<Rightarrow>
       (go_error option \<times> 'd agg_root) \<times> 'b snapshot_table" where
  "write_snapshot flt now typeName data root t =
     (let snapshotVersion = ar_snapshotVersion root;
          newVersion = ar_version root;
          i = en_id (ar_Entity root);
          row = \<lparr>sr_aggregate_type = typeName, sr_snapshot_data = data, sr_version = newVersion, sr_updated_at = now\<rparr>;
          lock_error = OptimisticLockError i snapshotVersion False
      in if snapshotVersion < 0
         then (case sql_insert_snapshot flt i row t of
                 (Inl err, t1) \<Rightarrow> ((if IsUniqueViolation err then Some lock_error else Some (pg_error err), root), t1)
               | (Inr n, t1) \<Rightarrow>
                   if n = 0 then ((Some lock_error, root), t1)
                   else ((None, SetSnapshotVersion newVersion root), t1))
         else (case sql_update_snapshot flt i snapshotVersion row t of
                 (Inl err, t1) \<Rightarrow> ((Some (pg_error err), root), t1)
               | (Inr n, t1) \<Rightarrow>
                   (case sf_rows flt of
                      Some err \<Rightarrow> ((Some (ErrWrap ''check rows affected: '' err []), root), t1)
                    | None \<Rightarrow>
                        if n = 0 then ((Some lock_error, root), t1)
                        else ((None, SetSnapshotVersion newVersion root), t1))))"

definition pg_repo_Save ::
    "('s, 'd, 'b) serializer \<Rightarrow> string \<Rightarrow> stmt_faults \<Rightarrow> time \<Rightarrow> ('s, 'd) aggregate \<Rightarrow> 'b snapshot_table \<Rightarrow>
       (go_error option \<times> ('s, 'd) aggregate) \<times> 'b snapshot_table" where
  "pg_repo_Save serializer typeName flt now agg t =
     (case sz_Serialize serializer agg of
        Inl err \<Rightarrow> ((Some (ErrWrap ''serialize aggregate: '' err []), agg), t)
      | Inr data \<Rightarrow>
          (let ((err, root), t1) = write_snapshot flt now typeName data (ag_root agg) t
           in ((err, agg\<lparr>ag_root := root\<rparr>), t1)))"

definition pg_repo_FindByID ::
    "('s, 'd, 'b) serializer \<Rightarrow> string \<Rightarrow> stmt_faults \<Rightarrow> 'b snapshot_table \<Rightarrow> string \<Rightarrow> go_error + ('s, 'd) aggregate" where
  "pg_repo_FindByID serializer typeName flt t i =
     (case sql_select_snapshot flt i typeName t of
        Inl err \<Rightarrow> Inl err
      | Inr None \<Rightarrow> Inl (aggregate_not_found i)
      | Inr (Some (data, version)) \<Rightarrow>
          (case sz_Deserialize serializer data of
             Inl err \<Rightarrow> Inl (ErrWrap ''deserialize aggregate: '' err [])
           | Inr agg \<Rightarrow> Inr (agg\<lparr>ag_root := SetSnapshotVersion version (ag_root agg)\<rparr>)))"

definition pg_repo_Delete ::
    "string \<Rightarrow> stmt_faults \<Rightarrow> string \<Rightarrow> 'b snapshot_table \<Rightarrow> go_error option \<times> 'b snapshot_table" where
  "pg_repo_Delete typeName flt i t =
     (case sql_delete_snapshot flt i typeName t of
        (Inl err, t1) \<Rightarrow> (Some err, t1)
      | (Inr n, t1) \<Rightarrow>
          (case sf_rows flt of
             Some err \<Rightarrow> (Some (ErrWrap ''check rows affected: '' err []), t1)
           | None \<Rightarrow> if n = 0 then (Some (aggregate_not_found i), t1) else (None, t1)))"

subsection \<open>The event-sourced repository\<close>

text \<open>
  \<open>esr_append\<close> and \<open>esr_load\<close> are the event store's methods on its state \<open>'e\<close>, \<open>esr_reconstructor\<close>
  the client's function from ids to empty aggregates, \<open>esr_when\<close> the aggregate's \<open>When\<close>.
\<close>

record ('s, 'd, 'b, 'e) es_repository =
  esr_append :: "string \<Rightarrow> int \<Rightarrow> 'd devent list \<Rightarrow> 'e \<Rightarrow> (go_error option \<times> 'e) outcome"
  esr_load :: "'e \<Rightarrow> string \<Rightarrow> int \<Rightarrow> (go_error + 'd devent list) outcome"
  esr_reconstructor :: "string \<Rightarrow> ('s, 'd) aggregate"
  esr_when :: "('s, 'd) when_fn"
  esr_serializer :: "('s, 'd, 'b) serializer"
  esr_typeName :: string
  esr_snapshotEvery :: int

definition saveSnapshot ::
    "('s, 'd, 'b, 'e) es_repository \<Rightarrow> stmt_faults \<Rightarrow> time \<Rightarrow> ('s, 'd) aggregate \<Rightarrow> 'b snapshot_table \<Rightarrow>
       (go_error option \<times> ('s, 'd) aggregate) \<times> 'b snapshot_table" where
  "saveSnapshot r flt now agg t =
     (case sz_Serialize (esr_serializer r) agg of
        Inl err \<Rightarrow> ((Some err, agg), t)
      | Inr data \<Rightarrow>
          (let ((err, root), t1) = write_snapshot flt now (esr_typeName r) data (ag_root agg) t
           in ((err, agg\<lparr>ag_root := root\<rparr>), t1)))"

definition pg_es_Save ::
    "('s, 'd, 'b, 'e) es_repository \<Rightarrow> stmt_faults \<Rightarrow> time \<Rightarrow> ('s, 'd) aggregate \<Rightarrow> 'e \<times> 'b snapshot_table \<Rightarrow>
       ((go_error option \<times> ('s, 'd) aggregate) \<times> ('e \<times> 'b snapshot_table)) outcome" where
  "pg_es_Save r flt now agg = (\<lambda>(es, t).
     (let root = ag_root agg;
          domainEvents = UncommittedEvents root
      in if length domainEvents = 0 then Ret ((None, agg), (es, t))
         else out_bind (esr_append r (en_id (ar_Entity root)) (ar_version root - int (length domainEvents)) domainEvents es)
                (\<lambda>(err, es1).
                   case err of
                     Some e \<Rightarrow> Ret ((Some (ErrWrap ''append events: '' e []), agg), (es1, t))
                   | None \<Rightarrow>
                       if esr_snapshotEvery r > 0 \<and> ar_version root mod esr_snapshotEvery r = 0
                       then (case saveSnapshot r flt now agg t of
                               ((Some e, agg1), t1) \<Rightarrow> Ret ((Some (ErrWrap ''save snapshot: '' e []), agg1), (es1, t1))
                             | ((None, agg1), t1) \<Rightarrow>
                                 Ret ((None, agg1\<lparr>ag_root := MarkEventsAsCommitted (ag_root agg1)\<rparr>), (es1, t1)))
                       else Ret ((None, agg\<lparr>ag_root := MarkEventsAsCommitted root\<rparr>), (es1, t)))))"

text \<open>\<open>loadSnapshot\<close> with no error is a row of the aggregate's type; any error means no snapshot.\<close>

definition loadSnapshot ::
    "string \<Rightarrow> stmt_faults \<Rightarrow> string \<Rightarrow> 'b snapshot_table \<Rightarrow> ('b \<times> int) option" where
  "loadSnapshot typeName flt i t =
     (case sql_select_snapshot flt i typeName t of Inl err \<Rightarrow> None | Inr None \<Rightarrow> None | Inr (Some p) \<Rightarrow> Some p)"

definition pg_es_Load ::
    "('s, 'd, 'b, 'e) es_repository \<Rightarrow> stmt_faults \<Rightarrow> 'e \<times> 'b snapshot_table \<Rightarrow> string \<Rightarrow>
       (go_error + ('s, 'd) aggregate) outcome" where
  "pg_es_Load r flt = (\<lambda>(es, t) i.
     (let agg = esr_reconstructor r i
      in case (case loadSnapshot (esr_typeName r) flt i t of
                 None \<Rightarrow> Inr (-1, agg)
               | Some (data, version) \<Rightarrow>
                   (case sz_Deserialize (esr_serializer r) data of
                      Inl err2 \<Rightarrow> Inl (ErrWrap (''deserialize snapshot for aggregate '' @ i @ '': '') err2 [])
                    | Inr deserAgg \<Rightarrow>
                        Inr (version, deserAgg\<lparr>ag_root := SetSnapshotVersion version (ag_root deserAgg)\<rparr>))) of
           Inl err \<Rightarrow> Ret (Inl err)
         | Inr (snapshotVersion, agg1) \<Rightarrow>
             out_bind (esr_load r es i snapshotVersion)
               (\<lambda>res. case res of
                  Inl err \<Rightarrow> Ret (Inl (ErrWrap (''load events for aggregate '' @ i @ '': '') err []))
                | Inr events \<Rightarrow>
                    if length events = 0 \<and> snapshotVersion < 0 then Ret (Inl (aggregate_not_found i))
                    else (case LoadFromHistory (esr_when r) events agg1 of
                            (Some err, agg2) \<Rightarrow> Ret (Inl (ErrWrap (''load from history for aggregate '' @ i @ '': '') err []))
                          | (None, agg2) \<Rightarrow> Ret (Inr agg2)))))"

subsection \<open>The snapshot repository keeps the contract\<close>

definition pgr_ok :: "('s, 'd, 'b) serializer \<Rightarrow> string \<Rightarrow> 'b snapshot_table \<Rightarrow> bool" where
  "pgr_ok z typeName t \<longleftrightarrow> ser_ok z \<and>
     (\<forall>i row. gm_get t i = Some row \<longrightarrow>
        sr_aggregate_type row = typeName \<and> 0 \<le> sr_version row \<and>
        (\<exists>c. sz_Deserialize z (sr_snapshot_data row) = Inr c \<and> ag_id c = i \<and>
             ag_version c = sr_version row \<and> ag_events c = []))"

definition pgr_held :: "('s, 'd, 'b) serializer \<Rightarrow> 'b snapshot_table \<Rightarrow> string \<Rightarrow> (int \<times> 's) option" where
  "pgr_held z t i =
     (case gm_get t i of
        None \<Rightarrow> None
      | Some row \<Rightarrow> (case sz_Deserialize z (sr_snapshot_data row) of Inl err \<Rightarrow> None | Inr c \<Rightarrow> Some (content c)))"

abbreviation ag_snap :: "('s, 'd) aggregate \<Rightarrow> int" where
  "ag_snap a \<equiv> ar_snapshotVersion (ag_root a)"

lemma ag_root_same [simp]: "a\<lparr>ag_root := ag_root a\<rparr> = a"
  by (cases a) simp

lemma sf_none_simps [simp]: "sf_exec sf_none = None" "sf_rows sf_none = None"
  by (simp_all add: sf_none_def)

lemma pgr_held_None: "pgr_ok z ty t \<Longrightarrow> pgr_held z t i = None \<longleftrightarrow> gm_get t i = None"
  by (auto simp: pgr_held_def pgr_ok_def split: option.splits sum.splits) (metis Inl_Inr_False)

lemma pgr_held_Some:
  assumes "pgr_ok z ty t" "pgr_held z t i = Some (v, s)"
  shows "\<exists>row c. gm_get t i = Some row \<and> sr_aggregate_type row = ty \<and> sr_version row = v \<and> 0 \<le> v \<and>
    sz_Deserialize z (sr_snapshot_data row) = Inr c \<and> ag_id c = i \<and> content c = (v, s) \<and> ag_events c = []"
proof -
  obtain row where row: "gm_get t i = Some row"
    using assms(2) by (auto simp: pgr_held_def split: option.splits)
  then obtain c where "sz_Deserialize z (sr_snapshot_data row) = Inr c" "ag_id c = i" "ag_version c = sr_version row"
      "ag_events c = []" "sr_aggregate_type row = ty" "0 \<le> sr_version row"
    using assms(1) unfolding pgr_ok_def by blast
  then show ?thesis using assms(2) row by (auto simp: pgr_held_def content_def)
qed

lemma pgr_put_ok:
  assumes "pgr_ok z ty t" "sz_Deserialize z data = Inr c" "ag_id c = i" "ag_version c = v" "ag_events c = []" "0 \<le> v"
  shows "pgr_ok z ty (gm_put t i \<lparr>sr_aggregate_type = ty, sr_snapshot_data = data, sr_version = v, sr_updated_at = now\<rparr>) \<and>
    pgr_held z (gm_put t i \<lparr>sr_aggregate_type = ty, sr_snapshot_data = data, sr_version = v, sr_updated_at = now\<rparr>) j =
      (if j = i then Some (content c) else pgr_held z t j)"
  using assms by (auto simp: pgr_ok_def pgr_held_def)

lemma pg_repo_Save_writes:
  assumes "pgr_ok z ty t" "0 \<le> ag_version a"
    and "pgr_held z t (ag_id a) = None \<and> ag_snap a < 0 \<or> pgr_held z t (ag_id a) = Some (ag_snap a, s0)"
  shows "\<exists>a' t'. pg_repo_Save z ty sf_none now a t = ((None, a'), t') \<and> pgr_ok z ty t' \<and> content a' = content a \<and>
    (\<forall>i. pgr_held z t' i = (if i = ag_id a then Some (content a) else pgr_held z t i))"
proof -
  obtain data c where d: "sz_Serialize z a = Inr data" "sz_Deserialize z data = Inr c" "ag_id c = ag_id a"
      "content c = content a" "ag_events c = []"
    using assms(1) unfolding pgr_ok_def ser_ok_def by blast
  let ?row = "\<lparr>sr_aggregate_type = ty, sr_snapshot_data = data, sr_version = ag_version a, sr_updated_at = now\<rparr>"
  let ?a = "a\<lparr>ag_root := SetSnapshotVersion (ag_version a) (ag_root a)\<rparr>"
  have "pg_repo_Save z ty sf_none now a t = ((None, ?a), gm_put t (ag_id a) ?row)"
    using assms(3)
  proof
    assume h: "pgr_held z t (ag_id a) = None \<and> ag_snap a < 0"
    then have "gm_get t (ag_id a) = None" using pgr_held_None [OF assms(1)] by blast
    then show ?thesis using h d(1) by (simp add: pg_repo_Save_def write_snapshot_def sql_insert_snapshot_def Let_def)
  next
    assume "pgr_held z t (ag_id a) = Some (ag_snap a, s0)"
    from pgr_held_Some [OF assms(1) this] obtain row where
      "gm_get t (ag_id a) = Some row" "sr_aggregate_type row = ty" "sr_version row = ag_snap a" "0 \<le> ag_snap a"
      by blast
    then show ?thesis using d(1) by (simp add: pg_repo_Save_def write_snapshot_def sql_update_snapshot_def Let_def)
  qed
  moreover have "content ?a = content a" by (simp add: content_def SetSnapshotVersion_def)
  moreover have "ag_version c = ag_version a" using d(4) by (simp add: content_def)
  ultimately show ?thesis
    using pgr_put_ok [OF assms(1) d(2,3) _ d(5) assms(2)] d(4) by simp
qed

lemma pg_repo_Save_stale:
  assumes "pgr_ok z ty t" "pgr_held z t (ag_id a) = Some (v, s0)" "v \<noteq> ag_snap a"
  shows "\<exists>err. pg_repo_Save z ty sf_none now a t = ((Some err, a), t) \<and> errors_Is err ''CONCURRENCY''"
proof -
  obtain data where d: "sz_Serialize z a = Inr data"
    using assms(1) unfolding pgr_ok_def ser_ok_def by blast
  obtain row where "gm_get t (ag_id a) = Some row" "sr_version row = v"
    using pgr_held_Some [OF assms(1,2)] by blast
  then show ?thesis
    using d assms(3) by (simp add: pg_repo_Save_def write_snapshot_def sql_insert_snapshot_def sql_update_snapshot_def Let_def)
qed

lemma pg_find_held:
  assumes "pgr_ok z ty t" "pgr_held z t i = Some (v, s0)"
  shows "\<exists>a. pg_repo_FindByID z ty sf_none t i = Inr a \<and> ag_id a = i \<and> content a = (v, s0) \<and> ag_events a = [] \<and> ag_snap a = v"
proof -
  obtain row c where "gm_get t i = Some row" "sr_aggregate_type row = ty" "sr_version row = v"
      "sz_Deserialize z (sr_snapshot_data row) = Inr c" "ag_id c = i" "content c = (v, s0)" "ag_events c = []"
    using pgr_held_Some [OF assms] by blast
  then show ?thesis
    by (simp add: pg_repo_FindByID_def sql_select_snapshot_def SetSnapshotVersion_def content_def)
qed

interpretation pg_repo: versioned_repository "pgr_ok z ty" "pgr_held z" ag_snap "\<lambda>a. ag_snap a < 0"
    "pg_repo_Save z ty sf_none now" "pg_repo_FindByID z ty sf_none" for z ty now
proof (unfold_locales, goal_cases)
  case (1 t a)
  then show ?case using pg_repo_Save_writes [of z ty t a] by blast
next
  case (2 t a s0)
  then have "0 \<le> ag_version a" using pgr_held_Some [of z ty t "ag_id a"] by fastforce
  with 2 show ?case using pg_repo_Save_writes [of z ty t a s0] by blast
next
  case (3 t a v s0)
  then show ?case by (intro pg_repo_Save_stale)
next
  case (4 t i v s0)
  then show ?case by (rule pg_find_held)
next
  case (5 t i)
  then show ?case
    by (simp add: pgr_held_None pg_repo_FindByID_def sql_select_snapshot_def)
next
  case (6 wh e a a')
  then show ?case using ApplyChange_root by blast
qed

definition sample_row :: "(nat, unit) aggregate snapshot_row" where
  "sample_row = \<lparr>sr_aggregate_type = ''Order'',
     sr_snapshot_data = sample_aggregate\<lparr>ag_root := MarkEventsAsCommitted (ag_root sample_aggregate)\<rparr>,
     sr_version = 1, sr_updated_at = 0\<rparr>"

lemma sample_table_ok: "pgr_ok sample_serializer ''Order'' [(''a'', sample_row)]"
  using sample_serializer_ok
  by (simp add: pgr_ok_def gm_get_def sample_row_def sample_serializer_def sample_aggregate_def MarkEventsAsCommitted_def)

text \<open>
  The PostgreSQL snapshot repository prevents lost updates: of two clients that read the same
  aggregate, change it and save it, the first succeeds, the second gets an error that is
  \<open>ErrConcurrency\<close> and writes nothing, and a later read returns what the first saved.
\<close>

theorem pg_repository_no_lost_update:
  assumes "pgr_ok z ty t" and "pg_repo_FindByID z ty sf_none t i = Inr c"
    and "apply_changes wh evs1 c = (None, a1)" and "evs1 \<noteq> []"
    and "apply_changes wh evs2 c = (None, a2)" and "evs2 \<noteq> []"
    and "pg_repo_Save z ty sf_none now a1 t = ((e1, b1), t1)" and "pg_repo_Save z ty sf_none now a2 t1 = ((e2, b2), t2)"
  shows "e1 = None \<and> (\<exists>err. e2 = Some err \<and> errors_Is err ''CONCURRENCY'') \<and> t2 = t1 \<and>
    (\<exists>b. pg_repo_FindByID z ty sf_none t2 i = Inr b \<and> ag_id b = i \<and> content b = content a1)"
  by (rule pg_repo.lost_update_prevented [OF assms])

theorem pg_repository_no_lost_update_witness:
  "\<exists>c a1 b1 t1 e2 b2. pg_repo_FindByID sample_serializer ''Order'' sf_none [(''a'', sample_row)] ''a'' = Inr c \<and>
     apply_changes sample_when [sample_event ''a''] c = (None, a1) \<and>
     pg_repo_Save sample_serializer ''Order'' sf_none 5 a1 [(''a'', sample_row)] = ((None, b1), t1) \<and>
     pg_repo_Save sample_serializer ''Order'' sf_none 5 a1 t1 = ((Some e2, b2), t1)"
proof -
  let ?t = "[(''a'', sample_row)]"
  obtain c where c: "pg_repo_FindByID sample_serializer ''Order'' sf_none ?t ''a'' = Inr c"
    by (simp add: pg_repo_FindByID_def sql_select_snapshot_def gm_get_def sample_row_def sample_serializer_def)
  obtain a1 where a1: "apply_changes sample_when [sample_event ''a''] c = (None, a1)"
    by (simp add: ApplyChange_def Let_def)
  obtain e1 b1 t1 e2 b2 t2 where s: "pg_repo_Save sample_serializer ''Order'' sf_none 5 a1 ?t = ((e1, b1), t1)"
      "pg_repo_Save sample_serializer ''Order'' sf_none 5 a1 t1 = ((e2, b2), t2)"
    by (metis surj_pair)
  from pg_repository_no_lost_update [OF sample_table_ok c a1 _ a1 _ s]
  obtain err where "e1 = None" "e2 = Some err" "t2 = t1" by auto
  with s have "pg_repo_Save sample_serializer ''Order'' sf_none 5 a1 ?t = ((None, b1), t1)"
      "pg_repo_Save sample_serializer ''Order'' sf_none 5 a1 t1 = ((Some err, b2), t1)"
    by simp_all
  with c a1 show ?thesis by blast
qed

text \<open>
  Aggregates of different types share the snapshot table's key: when a row of another type has the
  id, \<open>FindByID\<close> and \<open>Delete\<close> report that the aggregate does not exist, and every save of a new
  aggregate with that id fails with an optimistic-lock error.
\<close>

theorem pg_types_share_ids:
  assumes "gm_get t i = Some row" and "sr_aggregate_type row \<noteq> ty" and "ag_id a = i" and "ag_snap a < 0"
    and "sz_Serialize z a = Inr data"
  shows "pg_repo_FindByID z ty sf_none t i = Inl (aggregate_not_found i) \<and>
    pg_repo_Delete ty sf_none i t = (Some (aggregate_not_found i), t) \<and>
    pg_repo_Save z ty sf_none now a t = ((Some (OptimisticLockError i (ag_snap a) False), a), t)"
  using assms
  by (simp add: pg_repo_FindByID_def sql_select_snapshot_def pg_repo_Delete_def sql_delete_snapshot_def
      pg_repo_Save_def write_snapshot_def sql_insert_snapshot_def Let_def)

theorem pg_types_share_ids_witness:
  "fst (fst (pg_repo_Save sample_serializer ''Invoice'' sf_none 5 sample_aggregate [(''a'', sample_row)])) =
     Some (OptimisticLockError ''a'' (-1) False)"
proof -
  have "gm_get [(''a'', sample_row)] ''a'' = Some sample_row" "sr_aggregate_type sample_row \<noteq> ''Invoice''"
      "ag_id sample_aggregate = ''a''" "ag_snap sample_aggregate < 0"
    by (simp_all add: gm_get_def sample_row_def sample_aggregate_def)
  moreover have "sz_Serialize sample_serializer sample_aggregate = Inr (sample_aggregate\<lparr>ag_root := MarkEventsAsCommitted (ag_root sample_aggregate)\<rparr>)"
    by (simp add: sample_serializer_def)
  ultimately show ?thesis
    using pg_types_share_ids [of "[(''a'', sample_row)]" "''a''" sample_row "''Invoice''" sample_aggregate sample_serializer _ 5]
    by (simp add: sample_aggregate_def)
qed

subsection \<open>Rehydration from snapshot and events\<close>

text \<open>The domain state after events, None when \<open>When\<close> rejects one.\<close>

fun replay :: "('s, 'd) when_fn \<Rightarrow> 'd devent list \<Rightarrow> 's \<Rightarrow> 's option" where
  "replay wh [] st = Some st"
| "replay wh (e # evs) st = (case wh e st of (None, st1) \<Rightarrow> replay wh evs st1 | (Some err, st1) \<Rightarrow> None)"

lemma replay_append:
  "replay wh (xs @ ys) st = (case replay wh xs st of None \<Rightarrow> None | Some st1 \<Rightarrow> replay wh ys st1)"
  by (induction wh xs st rule: replay.induct) (auto split: prod.splits option.splits)

lemma LoadFromHistory_replay:
  "replay wh evs (ag_state a) = Some st \<Longrightarrow>
     \<exists>b. LoadFromHistory wh evs a = (None, b) \<and> ag_state b = st \<and> ag_version b = ag_version a + int (length evs) \<and>
         ag_events b = ag_events a \<and> ag_id b = ag_id a \<and> ag_snap b = ag_snap a"
proof (induction evs arbitrary: a)
  case (Cons e evs)
  then obtain st1 where w: "wh e (ag_state a) = (None, st1)" "replay wh evs st1 = Some st"
    by (auto split: prod.splits option.splits)
  then obtain a1 where a1: "ApplyHistory wh e a = (None, a1)" "ag_state a1 = st1"
    by (simp add: ApplyHistory_def Let_def)
  then show ?case
    using Cons.IH [of a1] w(2) ApplyHistory_root [OF a1(1)] by (simp add: add.assoc)
qed simp

lemma apply_changes_replays:
  "apply_changes wh evs a = (None, a') \<Longrightarrow>
     replay wh evs (ag_state a) = Some (ag_state a') \<and> ag_id a' = ag_id a \<and> ag_snap a' = ag_snap a \<and>
     ag_version a' = ag_version a + int (length evs) \<and> ag_events a' = ag_events a @ evs"
proof (induction evs arbitrary: a)
  case (Cons e evs)
  then obtain a1 where a1: "ApplyChange wh e a = (None, a1)" "apply_changes wh evs a1 = (None, a')"
    by (auto split: prod.splits option.splits)
  then have "wh e (ag_state a) = (None, ag_state a1)" by (auto simp: ApplyChange_None)
  then show ?case using Cons.IH [OF a1(2)] ApplyChange_root [OF a1(1)] by simp
qed simp

text \<open>
  The tables agree on an aggregate: its history replays from the client's empty aggregate, and its
  snapshot, if any, is of the repository's type and is the state after the first \<open>sr_version\<close> events.
\<close>

definition es_consistent ::
    "('s, 'd, 'b, 'e) es_repository \<Rightarrow> 'd devent list \<Rightarrow> 'b snapshot_table \<Rightarrow> string \<Rightarrow> bool" where
  "es_consistent r hist t i \<longleftrightarrow>
     (let a0 = esr_reconstructor r i in
        ag_id a0 = i \<and> ag_version a0 = 0 \<and> ag_events a0 = [] \<and> ag_snap a0 = -1 \<and>
        replay (esr_when r) hist (ag_state a0) \<noteq> None \<and>
        (\<forall>row. gm_get t i = Some row \<longrightarrow>
           sr_aggregate_type row = esr_typeName r \<and> 0 \<le> sr_version row \<and> sr_version row \<le> int (length hist) \<and>
           (\<exists>c. sz_Deserialize (esr_serializer r) (sr_snapshot_data row) = Inr c \<and> ag_id c = i \<and> ag_events c = [] \<and>
                replay (esr_when r) (take (nat (sr_version row)) hist) (ag_state a0) = Some (ag_state c))))"

definition snap_version :: "'b snapshot_table \<Rightarrow> string \<Rightarrow> int" where
  "snap_version t i = (case gm_get t i of None \<Rightarrow> -1 | Some row \<Rightarrow> sr_version row)"

text \<open>What the repository holds of an aggregate with a history.\<close>

definition loaded :: "('s, 'd, 'b, 'e) es_repository \<Rightarrow> 'd devent list \<Rightarrow> 'b snapshot_table \<Rightarrow> string \<Rightarrow> ('s, 'd) aggregate \<Rightarrow> bool" where
  "loaded r hist t i a \<longleftrightarrow> ag_id a = i \<and> ag_version a = int (length hist) \<and> ag_events a = [] \<and>
     replay (esr_when r) hist (ag_state (esr_reconstructor r i)) = Some (ag_state a) \<and> ag_snap a = snap_version t i"

lemma es_consistent_snap:
  "es_consistent r hist t i \<Longrightarrow> gm_get t i = Some row \<Longrightarrow>
     \<exists>c. sr_aggregate_type row = esr_typeName r \<and> 0 \<le> sr_version row \<and> sr_version row \<le> int (length hist) \<and>
       sz_Deserialize (esr_serializer r) (sr_snapshot_data row) = Inr c \<and> ag_id c = i \<and> ag_events c = [] \<and>
       replay (esr_when r) (take (nat (sr_version row)) hist) (ag_state (esr_reconstructor r i)) = Some (ag_state c)"
  unfolding es_consistent_def Let_def by blast

lemma pg_es_Load_loaded:
  assumes "es_consistent r hist t i" and "hist \<noteq> []"
    and "esr_load r es i (-1) = Ret (Inr hist)" and "\<And>n. esr_load r es i (int n) = Ret (Inr (drop n hist))"
  shows "\<exists>a. pg_es_Load r sf_none (es, t) i = Ret (Inr a) \<and> loaded r hist t i a"
proof (cases "gm_get t i")
  case None
  obtain st where st: "replay (esr_when r) hist (ag_state (esr_reconstructor r i)) = Some st"
    using assms(1) by (auto simp: es_consistent_def Let_def)
  from LoadFromHistory_replay [OF this] show ?thesis
    using assms None st
    by (auto simp: pg_es_Load_def loadSnapshot_def sql_select_snapshot_def loaded_def snap_version_def es_consistent_def Let_def)
next
  case (Some row)
  obtain c where c: "sr_aggregate_type row = esr_typeName r" "0 \<le> sr_version row" "sr_version row \<le> int (length hist)"
      "sz_Deserialize (esr_serializer r) (sr_snapshot_data row) = Inr c" "ag_id c = i" "ag_events c = []"
      "replay (esr_when r) (take (nat (sr_version row)) hist) (ag_state (esr_reconstructor r i)) = Some (ag_state c)"
    using assms(1) Some unfolding es_consistent_def Let_def by blast
  obtain n where n: "sr_version row = int n" "n \<le> length hist"
    using c(2,3) by (metis nonneg_int_cases of_nat_le_iff)
  obtain st where st: "replay (esr_when r) hist (ag_state (esr_reconstructor r i)) = Some st"
    using assms(1) by (auto simp: es_consistent_def Let_def)
  have "replay (esr_when r) (take n hist @ drop n hist) (ag_state (esr_reconstructor r i)) = Some st"
    using st by simp
  then have rest: "replay (esr_when r) (drop n hist) (ag_state c) = Some st"
    using c(7) n(1) by (simp only: replay_append) simp
  let ?c = "c\<lparr>ag_root := SetSnapshotVersion (int n) (ag_root c)\<rparr>"
  obtain b where b: "LoadFromHistory (esr_when r) (drop n hist) ?c = (None, b)" "ag_state b = st"
      "ag_version b = ag_version ?c + int (length (drop n hist))" "ag_events b = ag_events ?c" "ag_id b = ag_id ?c" "ag_snap b = ag_snap ?c"
    using LoadFromHistory_replay [of "esr_when r" "drop n hist" ?c st] rest by auto
  have "pg_es_Load r sf_none (es, t) i = Ret (Inr b)"
    using c(1,4) Some n b(1) assms(4) by (simp add: pg_es_Load_def loadSnapshot_def sql_select_snapshot_def Let_def)
  moreover have "loaded r hist t i b"
    using b c(5,6) n st Some by (simp add: loaded_def snap_version_def SetSnapshotVersion_def)
  ultimately show ?thesis by blast
qed

lemma saveSnapshot_ok:
  assumes "es_consistent r hist t i" and "ser_ok (esr_serializer r)" and "ag_id a = i" and "ag_snap a = snap_version t i"
    and "ag_version a = int (length hist')" and "\<exists>evs. hist' = hist @ evs"
    and "replay (esr_when r) hist' (ag_state (esr_reconstructor r i)) = Some (ag_state a)"
  shows "\<exists>t'. saveSnapshot r sf_none now a t =
      ((None, a\<lparr>ag_root := SetSnapshotVersion (ag_version a) (ag_root a)\<rparr>), t') \<and> es_consistent r hist' t' i"
proof -
  obtain data c where d: "sz_Serialize (esr_serializer r) a = Inr data" "sz_Deserialize (esr_serializer r) data = Inr c"
      "ag_id c = ag_id a" "content c = content a" "ag_events c = []"
    using assms(2) unfolding ser_ok_def by blast
  let ?row = "\<lparr>sr_aggregate_type = esr_typeName r, sr_snapshot_data = data, sr_version = ag_version a, sr_updated_at = now\<rparr>"
  have "saveSnapshot r sf_none now a t = ((None, a\<lparr>ag_root := SetSnapshotVersion (ag_version a) (ag_root a)\<rparr>), gm_put t i ?row)"
  proof (cases "gm_get t i")
    case None
    then have "ag_snap a < 0" using assms(4) by (simp add: snap_version_def)
    then show ?thesis
      using None d(1) assms(3) by (simp add: saveSnapshot_def write_snapshot_def sql_insert_snapshot_def Let_def)
  next
    case (Some row)
    then have "sr_aggregate_type row = esr_typeName r" "0 \<le> sr_version row" "ag_snap a = sr_version row"
      using assms(1,4) by (auto simp: es_consistent_def snap_version_def Let_def)
    then show ?thesis
      using Some d(1) assms(3) by (simp add: saveSnapshot_def write_snapshot_def sql_update_snapshot_def Let_def)
  qed
  moreover have "es_consistent r hist' (gm_put t i ?row) i"
    using assms(1,3,5,7) d(2-5) by (auto simp: es_consistent_def content_def Let_def)
  ultimately show ?thesis by blast
qed

lemma es_consistent_grow:
  assumes "es_consistent r hist t i" and "replay (esr_when r) (hist @ evs) (ag_state (esr_reconstructor r i)) = Some st"
  shows "es_consistent r (hist @ evs) t i"
proof -
  have "sr_version row \<le> int (length (hist @ evs)) \<and> take (nat (sr_version row)) (hist @ evs) = take (nat (sr_version row)) hist"
    if "gm_get t i = Some row" for row
    using assms(1) that by (auto simp: es_consistent_def Let_def)
  then show ?thesis
    using assms unfolding es_consistent_def Let_def by auto
qed

text \<open>The client side: the repository over any event store that replays from the start.\<close>

locale replay_repository = replay_event_store ok stream own append load
  for ok :: "'e \<Rightarrow> bool" and stream :: "'e \<Rightarrow> string \<Rightarrow> 'd devent list"
    and own :: "string \<Rightarrow> 'd devent \<Rightarrow> bool"
    and append :: "string \<Rightarrow> int \<Rightarrow> 'd devent list \<Rightarrow> 'e \<Rightarrow> (go_error option \<times> 'e) outcome"
    and load :: "'e \<Rightarrow> string \<Rightarrow> int \<Rightarrow> (go_error + 'd devent list) outcome" +
  fixes r :: "('s, 'd, 'b, 'e) es_repository"
  assumes r_append: "esr_append r = append" and r_load: "esr_load r = load"
begin

lemma load_loaded:
  assumes "ok es" "es_consistent r (stream es i) t i" "stream es i \<noteq> []"
  shows "\<exists>a. pg_es_Load r sf_none (es, t) i = Ret (Inr a) \<and> loaded r (stream es i) t i a"
  by (rule pg_es_Load_loaded [OF assms(2,3)]) (simp_all add: r_load load_all load_stream assms(1))

lemma save_extends:
  assumes "ok es" "es_consistent r (stream es i) t i" "ser_ok (esr_serializer r)"
    and "loaded r (stream es i) t i a" and "apply_changes (esr_when r) evs a = (None, a')"
    and "evs \<noteq> []" and "\<forall>e\<in>set evs. own i e"
  shows "\<exists>b es' t'. pg_es_Save r sf_none now a' (es, t) = Ret ((None, b), (es', t')) \<and> ok es' \<and>
    stream es' i = stream es i @ evs \<and> (\<forall>j. j \<noteq> i \<longrightarrow> stream es' j = stream es j) \<and>
    es_consistent r (stream es' i) t' i \<and> content b = content a' \<and> ag_events b = []"
proof -
  note ch = apply_changes_replays [OF assms(5)]
  have a: "ag_id a' = i" "ag_events a' = evs" "ag_snap a' = snap_version t i"
      "ag_version a' = int (length (stream es i @ evs))"
    using ch assms(4) by (simp_all add: loaded_def)
  have rp: "replay (esr_when r) (stream es i @ evs) (ag_state (esr_reconstructor r i)) = Some (ag_state a')"
    using ch assms(4) by (simp add: loaded_def replay_append)
  obtain es' where es': "append i (int (length (stream es i))) evs es = Ret (None, es')" "ok es'"
      "stream es' i = stream es i @ evs" "\<forall>j. j \<noteq> i \<longrightarrow> stream es' j = stream es j"
    using append_at [OF assms(1,7)] by blast
  have app: "esr_append r i (ag_version a' - int (length evs)) evs es = Ret (None, es')"
    using es'(1) a(4) by (simp add: r_append)
  show ?thesis
  proof (cases "esr_snapshotEvery r > 0 \<and> ag_version a' mod esr_snapshotEvery r = 0")
    case True
    obtain t' where t': "saveSnapshot r sf_none now a' t =
        ((None, a'\<lparr>ag_root := SetSnapshotVersion (ag_version a') (ag_root a')\<rparr>), t')"
        "es_consistent r (stream es i @ evs) t' i"
      using saveSnapshot_ok [OF assms(2,3) a(1,3,4) _ rp] by blast
    have "pg_es_Save r sf_none now a' (es, t) =
        Ret ((None, a'\<lparr>ag_root := MarkEventsAsCommitted (SetSnapshotVersion (ag_version a') (ag_root a'))\<rparr>), (es', t'))"
      using True app t'(1) a(1,2) assms(6) by (simp add: pg_es_Save_def UncommittedEvents_def Let_def)
    then show ?thesis
      using es' t'(2) by (simp add: content_def MarkEventsAsCommitted_def SetSnapshotVersion_def)
  next
    case False
    have "pg_es_Save r sf_none now a' (es, t) =
        Ret ((None, a'\<lparr>ag_root := MarkEventsAsCommitted (ag_root a')\<rparr>), (es', t))"
      using False app a(1,2) assms(6) by (auto simp: pg_es_Save_def UncommittedEvents_def Let_def)
    then show ?thesis
      using es' es_consistent_grow [OF assms(2) rp] by (simp add: content_def MarkEventsAsCommitted_def)
  qed
qed

lemma save_then_reload:
  assumes "ok es" "es_consistent r (stream es i) t i" "ser_ok (esr_serializer r)"
    and "stream es i = [] \<and> a = esr_reconstructor r i \<and> gm_get t i = None \<or> pg_es_Load r sf_none (es, t) i = Ret (Inr a)"
    and "apply_changes (esr_when r) evs a = (None, a')"
    and "evs \<noteq> []" and "\<forall>e\<in>set evs. own i e"
  shows "\<exists>b es' t'. pg_es_Save r sf_none now a' (es, t) = Ret ((None, b), (es', t')) \<and> ok es' \<and>
    stream es' i = stream es i @ evs \<and> (\<forall>j. j \<noteq> i \<longrightarrow> stream es' j = stream es j) \<and>
    es_consistent r (stream es' i) t' i \<and>
    (\<exists>c. pg_es_Load r sf_none (es', t') i = Ret (Inr c) \<and> ag_id c = i \<and> content c = content a' \<and> ag_events c = [])"
proof -
  have ld: "loaded r (stream es i) t i a"
    using assms(4)
  proof
    assume "stream es i = [] \<and> a = esr_reconstructor r i \<and> gm_get t i = None"
    then show ?thesis using assms(2) by (simp add: loaded_def snap_version_def es_consistent_def Let_def)
  next
    assume l: "pg_es_Load r sf_none (es, t) i = Ret (Inr a)"
    show ?thesis
    proof (cases "stream es i = []")
      case False
      from load_loaded [OF assms(1,2) False] l show ?thesis by auto
    next
      case True
      show ?thesis
      proof (cases "gm_get t i")
        case None
        then have "pg_es_Load r sf_none (es, t) i = Ret (Inl (aggregate_not_found i))"
          using True load_all [OF assms(1), of i]
          by (simp add: pg_es_Load_def loadSnapshot_def sql_select_snapshot_def r_load Let_def)
        with l show ?thesis by simp
      next
        case (Some row)
        from es_consistent_snap [OF assms(2) this]
        obtain c where c: "sr_aggregate_type row = esr_typeName r" "sr_version row = 0" "ag_id c = i" "ag_events c = []"
            "sz_Deserialize (esr_serializer r) (sr_snapshot_data row) = Inr c"
            "replay (esr_when r) [] (ag_state (esr_reconstructor r i)) = Some (ag_state c)"
          by (elim exE conjE) (rule that, simp_all add: True)
        have "load es i 0 = Ret (Inr [])"
          using load_stream [OF assms(1), of i 0] True by simp
        then have "a = c\<lparr>ag_root := SetSnapshotVersion 0 (ag_root c)\<rparr>"
          using l Some c by (simp add: pg_es_Load_def loadSnapshot_def sql_select_snapshot_def r_load Let_def)
        then show ?thesis
          using c Some True by (simp add: loaded_def snap_version_def SetSnapshotVersion_def)
      qed
    qed
  qed
  obtain b es' t' where s: "pg_es_Save r sf_none now a' (es, t) = Ret ((None, b), (es', t'))" "ok es'"
      "stream es' i = stream es i @ evs" "\<forall>j. j \<noteq> i \<longrightarrow> stream es' j = stream es j"
      "es_consistent r (stream es' i) t' i"
    using save_extends [OF assms(1-3) ld assms(5-7)] by blast
  obtain c where c: "pg_es_Load r sf_none (es', t') i = Ret (Inr c)" "loaded r (stream es' i) t' i c"
    using load_loaded [OF s(2,5)] s(3) assms(6) by auto
  have "content c = content a'"
    using c(2) s(3) ld apply_changes_replays [OF assms(5)] by (simp add: loaded_def replay_append content_def)
  then show ?thesis using s c by (auto simp: loaded_def)
qed

end

definition pg_es_repository ::
    "pg_store \<Rightarrow> ('d, 'v) pg_json \<Rightarrow> bool \<Rightarrow> (string \<Rightarrow> ('s, 'd) aggregate) \<Rightarrow> ('s, 'd) when_fn \<Rightarrow>
       ('s, 'd, 'b) serializer \<Rightarrow> string \<Rightarrow> int \<Rightarrow> ('s, 'd, 'b, 'v ev_table) es_repository" where
  "pg_es_repository st js tx rc wh z ty every =
     \<lparr>esr_append = pg_Append js no_faults tx, esr_load = (\<lambda>db a n. Ret (pg_Load st js no_faults db a n)),
      esr_reconstructor = rc, esr_when = wh, esr_serializer = z, esr_typeName = ty, esr_snapshotEvery = every\<rparr>"

interpretation pg_es: replay_repository "pg_ok st js" "pg_stream st js" "pg_own st js"
    "pg_Append js no_faults tx" "\<lambda>db a n. Ret (pg_Load st js no_faults db a n)"
    "pg_es_repository st js tx rc wh z ty every" for st js tx rc wh z ty every
  by unfold_locales (simp_all add: pg_es_repository_def)

text \<open>
  C3.  The PostgreSQL event-sourced repository is faithful for every snapshot interval: an aggregate
  that is new or was loaded, changed by events of its own and saved, is stored with its stream extended
  by exactly those events, and a later \<open>Load\<close>, from the snapshot and the events after it or from
  the events alone, gives back the saved identity, version and domain state with nothing uncommitted;
  the two tables stay consistent, so the next save and load behave the same.
\<close>

theorem pg_event_sourced_reload:
  assumes "r = pg_es_repository st js tx rc wh z ty every"
    and "pg_ok st js db" and "es_consistent r (pg_stream st js db i) t i" and "ser_ok z"
    and "pg_stream st js db i = [] \<and> a = rc i \<and> gm_get t i = None \<or> pg_es_Load r sf_none (db, t) i = Ret (Inr a)"
    and "apply_changes wh evs a = (None, a')" and "evs \<noteq> []" and "\<forall>e\<in>set evs. pg_own st js i e"
  shows "\<exists>b db' t'. pg_es_Save r sf_none now a' (db, t) = Ret ((None, b), (db', t')) \<and> pg_ok st js db' \<and>
    pg_stream st js db' i = pg_stream st js db i @ evs \<and> (\<forall>j. j \<noteq> i \<longrightarrow> pg_stream st js db' j = pg_stream st js db j) \<and>
    es_consistent r (pg_stream st js db' i) t' i \<and>
    (\<exists>c. pg_es_Load r sf_none (db', t') i = Ret (Inr c) \<and> ag_id c = i \<and> content c = content a' \<and> ag_events c = [])"
proof -
  have f: "esr_serializer r = z" "esr_reconstructor r = rc" "esr_when r = wh"
    by (simp_all add: assms(1) pg_es_repository_def)
  have prems: "ser_ok (esr_serializer r)"
    "pg_stream st js db i = [] \<and> a = esr_reconstructor r i \<and> gm_get t i = None \<or> pg_es_Load r sf_none (db, t) i = Ret (Inr a)"
    "apply_changes (esr_when r) evs a = (None, a')"
    unfolding f using assms(4,5,6) by blast+
  note p = assms(3) prems
  show ?thesis
    using pg_es.save_then_reload [OF assms(2) p [unfolded assms(1)] assms(7,8), of now]
    unfolding assms(1) .
qed

definition sample_reconstructor :: "string \<Rightarrow> (nat, unit) aggregate" where
  "sample_reconstructor i = \<lparr>ag_root = \<lparr>ar_Entity = \<lparr>en_id = i\<rparr>, ar_version = 0, ar_snapshotVersion = -1,
      ar_uncommittedEvents = []\<rparr>, ag_state = 0\<rparr>"

definition sample_pg_repository :: "(nat, unit, (nat, unit) aggregate, unit devent ev_table) es_repository" where
  "sample_pg_repository = pg_es_repository sample_pg_store sample_json False sample_reconstructor sample_when
     sample_serializer ''Order'' 2"

theorem pg_event_sourced_reload_witness:
  "\<exists>a' b db' t' c. apply_changes sample_when [sample_pg_event ''a'', sample_pg_event ''a''] (sample_reconstructor ''a'') = (None, a') \<and>
     pg_es_Save sample_pg_repository sf_none 5 a' (empty_table, []) = Ret ((None, b), (db', t')) \<and>
     pg_es_Load sample_pg_repository sf_none (db', t') ''a'' = Ret (Inr c) \<and> content c = content a'"
proof -
  obtain a' where a': "apply_changes sample_when [sample_pg_event ''a'', sample_pg_event ''a''] (sample_reconstructor ''a'') = (None, a')"
    by (simp add: ApplyChange_def Let_def)
  have cons: "es_consistent sample_pg_repository (pg_stream sample_pg_store sample_json empty_table ''a'') [] ''a''"
    by (simp add: es_consistent_def pg_ok_empty sample_pg_repository_def pg_es_repository_def sample_reconstructor_def)
  have new: "pg_stream sample_pg_store sample_json empty_table ''a'' = [] \<and> sample_reconstructor ''a'' = sample_reconstructor ''a'' \<and>
        gm_get [] ''a'' = None \<or> pg_es_Load sample_pg_repository sf_none (empty_table, []) ''a'' = Ret (Inr (sample_reconstructor ''a''))"
    by (simp add: pg_ok_empty)
  have own: "\<forall>e\<in>set [sample_pg_event ''a'', sample_pg_event ''a'']. pg_own sample_pg_store sample_json ''a'' e"
    using pg_own_sample by simp
  have "\<exists>b db' t'. pg_es_Save sample_pg_repository sf_none 5 a' (empty_table, []) = Ret ((None, b), (db', t')) \<and>
      (\<exists>c. pg_es_Load sample_pg_repository sf_none (db', t') ''a'' = Ret (Inr c) \<and> content c = content a')"
    using pg_event_sourced_reload [OF sample_pg_repository_def conjunct1 [OF pg_ok_empty] cons sample_serializer_ok new a' _ own, of 5]
    by blast
  with a' show ?thesis by blast
qed

text \<open>
  With the in-memory event store behind it the same repository panics: \<open>Load\<close> of an aggregate
  that has events and no snapshot asks the store for the events after version -1, and the in-memory
  store slices with that index.
\<close>

theorem memory_store_load_panics:
  assumes "es_wf s" and "es_Load s i 0 = Ret (Inr (e # evs))" and "gm_get t i = None"
    and "esr_load r = es_Load"
  shows "pg_es_Load r sf_none (s, t) i = Panic ''slice bounds out of range''"
proof -
  have "es_stream s i = e # evs" using es_Load_wf [OF assms(1), of i 0] assms(2) by simp
  then obtain xs where "gm_get (es_events s) i = Some xs" by (auto split: option.splits)
  then have "es_Load s i (-1) = Panic ''slice bounds out of range''"
    by (simp add: es_Load_def slice_from_def)
  then show ?thesis
    using assms(3,4) by (simp add: pg_es_Load_def loadSnapshot_def sql_select_snapshot_def Let_def)
qed

theorem memory_store_load_panics_witness:
  "pg_es_Load \<lparr>esr_append = (\<lambda>a v evs s. Ret (es_Append a v evs s)), esr_load = es_Load,
      esr_reconstructor = sample_reconstructor, esr_when = sample_when, esr_serializer = sample_serializer,
      esr_typeName = ''Order'', esr_snapshotEvery = 10\<rparr> sf_none
    (snd (es_Append ''a'' 0 [sample_event ''a''] sample_store), []) ''a'' = Panic ''slice bounds out of range''"
proof -
  obtain r s where rs: "es_Append ''a'' 0 [sample_event ''a''] sample_store = (r, s)"
    by (cases "es_Append ''a'' 0 [sample_event ''a''] sample_store")
  have "es_wf sample_store" "\<forall>e\<in>set [sample_event ''a'']. es_own ''a'' e"
      "Ret (es_Append ''a'' (int (length (es_stream sample_store ''a''))) [sample_event ''a''] sample_store) = Ret (r, s)"
    using rs es_wf_sample by (simp_all add: es_own_def)
  from mem_events.append_then_load [OF this] es_wf_sample [of "''a''"]
  have s: "es_wf s" "es_Load s ''a'' 0 = Ret (Inr [sample_event ''a''])" by simp_all
  have "snd (es_Append ''a'' 0 [sample_event ''a''] sample_store) = s" using rs by simp
  moreover have "esr_load \<lparr>esr_append = (\<lambda>a v evs s. Ret (es_Append a v evs s)), esr_load = es_Load,
      esr_reconstructor = sample_reconstructor, esr_when = sample_when, esr_serializer = sample_serializer,
      esr_typeName = ''Order'', esr_snapshotEvery = 10\<rparr> = es_Load"
    by simp
  from memory_store_load_panics [OF s _ this, of "[]"]
  have "pg_es_Load \<lparr>esr_append = (\<lambda>a v evs s. Ret (es_Append a v evs s)), esr_load = es_Load,
      esr_reconstructor = sample_reconstructor, esr_when = sample_when, esr_serializer = sample_serializer,
      esr_typeName = ''Order'', esr_snapshotEvery = 10\<rparr> sf_none (s, []) ''a'' = Panic ''slice bounds out of range''"
    by simp
  ultimately show ?thesis by (simp only:)
qed

end
