(* ===== verification/PgJobs.thy ===== *)
theory PgJobs
  imports JobManager PgRepositories
begin

text \<open>
  The PostgreSQL job store \<open>job/pg/job_store.go\<close> over the tables \<open>ddd_jobs\<close> and \<open>ddd_job_execution_log\<close> of
  \<open>pg/migrate.go\<close>, with the nullable-column helpers of \<open>pg/util.go\<close>.  \<open>ddd_jobs\<close> is a map from its primary
  key to rows; each statement is what its SQL says on it, besides a fault the driver may report.  Times are
  taken to be representable in the column (PostgreSQL keeps microseconds), and the status column holds the
  text of one of the five statuses, which is all this code writes.
\<close>

record 'b job_row =
  jr_id :: string
  jr_command :: 'b
  jr_command_type :: string
  jr_status :: JobStatus
  jr_result :: "'b option"
  jr_result_type :: "string option"
  jr_error :: "string option"
  jr_created_at :: time
  jr_started_at :: "time option"
  jr_completed_at :: "time option"
  jr_timeout_ns :: int
  jr_retry_count :: int
  jr_max_retries :: int

type_synonym 'b job_table = "(string, 'b job_row) gomap"

text \<open>
  \<open>encoding/json\<close> on commands and results: \<open>json.Marshal\<close>, \<open>json.Unmarshal\<close> into an \<open>any\<close>, and into a new value
  of a pointer type; and the reflected type of a result.
\<close>

record ('x, 'b) json_codec =
  jc_Marshal :: "'x \<Rightarrow> go_error + 'b"
  jc_Unmarshal_any :: "'b \<Rightarrow> go_error + 'x"
  jc_Unmarshal :: "gtype \<Rightarrow> 'b \<Rightarrow> go_error + 'x"
  jc_type :: "'x \<Rightarrow> gtype option"

text \<open>
  What the columns take.  Which texts a TEXT column takes (no NUL byte, valid in the database's encoding)
  and which documents a JSONB column takes (no \<open>\u0000\<close>) are the database's; INT and BIGINT are the 32- and
  64-bit integers.
\<close>

record 'b column_types =
  ct_text :: "string \<Rightarrow> bool"
  ct_jsonb :: "'b \<Rightarrow> bool"

definition int4 :: "int \<Rightarrow> bool" where
  "int4 n \<longleftrightarrow> - (2 ^ 31) \<le> n \<and> n < 2 ^ 31"

definition int8 :: "int \<Rightarrow> bool" where
  "int8 n \<longleftrightarrow> - (2 ^ 63) \<le> n \<and> n < 2 ^ 63"

definition row_fits :: "'b column_types \<Rightarrow> 'b job_row \<Rightarrow> bool" where
  "row_fits ct row \<longleftrightarrow> ct_text ct (jr_id row) \<and> ct_jsonb ct (jr_command row) \<and> ct_text ct (jr_command_type row) \<and>
     pred_option (ct_jsonb ct) (jr_result row) \<and> pred_option (ct_text ct) (jr_result_type row) \<and>
     pred_option (ct_text ct) (jr_error row) \<and>
     int8 (jr_timeout_ns row) \<and> int4 (jr_retry_count row) \<and> int4 (jr_max_retries row)"

text \<open>The store: its type registry (None: nil), the codecs of commands and results, \<open>%q\<close>, and its table's columns.\<close>

record ('d, 'v, 'b) pg_job_store =
  pjs_registry :: "(string, gtype) gomap option"
  pjs_cmd :: "('d goany, 'b) json_codec"
  pjs_res :: "('v retval, 'b) json_codec"
  pjs_quote :: "string \<Rightarrow> string"
  pjs_columns :: "'b column_types"

subsection \<open>Nullable columns\<close>

definition JSONOrNull :: "('v retval, 'b) json_codec \<Rightarrow> 'v retval \<Rightarrow> go_error + 'b option" where
  "JSONOrNull js v =
     (if v = RNil then Inr None
      else case jc_Marshal js v of
             Inl err \<Rightarrow> Inl (ErrWrap ''marshal JSON: '' err [])
           | Inr data \<Rightarrow> Inr (Some data))"

definition result_TypeName :: "('v retval, 'b) json_codec \<Rightarrow> 'v retval \<Rightarrow> string" where
  "result_TypeName js v = (case jc_type js v of None \<Rightarrow> [] | Some t \<Rightarrow> type_String (if is_ptr t then deref t else t))"

subsection \<open>Writing jobs\<close>

text \<open>A parameter the column does not take is refused before the statement looks at the table.\<close>

definition bad_parameter :: go_error where
  "bad_parameter = ErrText ''invalid value for a column''"

definition sql_insert_job ::
    "'b column_types \<Rightarrow> go_error option \<Rightarrow> 'b job_row \<Rightarrow> 'b job_table \<Rightarrow> pg_err option \<times> 'b job_table" where
  "sql_insert_job ct flt row t =
     (case flt of
        Some e \<Rightarrow> (Some (OtherErr e), t)
      | None \<Rightarrow>
          if \<not> row_fits ct row then (Some (OtherErr bad_parameter), t)
          else (case gm_get t (jr_id row) of
             Some old \<Rightarrow> (Some (UniqueViolation (ErrText ''duplicate key value violates unique constraint'')), t)
           | None \<Rightarrow> (None, gm_put t (jr_id row) row)))"

definition pg_job_Create ::
    "('d, 'v, 'b) pg_job_store \<Rightarrow> go_error option \<Rightarrow> ('d, 'v) job \<Rightarrow> 'b job_table \<Rightarrow> go_error option \<times> 'b job_table" where
  "pg_job_Create s flt j t =
     (case jc_Marshal (pjs_cmd s) (jb_command j) of
        Inl err \<Rightarrow> (Some (ErrWrap ''marshal command: '' err []), t)
      | Inr cmdData \<Rightarrow>
          (let commandType = (if jb_commandType j = [] then job_TypeName (jb_command j) else jb_commandType j)
           in case JSONOrNull (pjs_res s) (jb_result j) of
                Inl err \<Rightarrow> (Some (ErrWrap ''marshal result: '' err []), t)
              | Inr resultData \<Rightarrow>
                  (let row = \<lparr>jr_id = jb_id j, jr_command = cmdData, jr_command_type = commandType, jr_status = jb_status j,
                              jr_result = resultData, jr_result_type = NullString (jb_resultType j),
                              jr_error = NullString (jb_err j), jr_created_at = jb_createdAt j,
                              jr_started_at = NullTime (jb_startedAt j), jr_completed_at = NullTime (jb_completedAt j),
                              jr_timeout_ns = jb_timeout j, jr_retry_count = jb_retryCount j,
                              jr_max_retries = jb_maxRetries j\<rparr>
                   in case sql_insert_job (pjs_columns s) flt row t of (err, t1) \<Rightarrow> (map_option pg_error err, t1))))"

text \<open>
  The UPDATE sets nine columns of the row with the job's id; it reports the number of rows.  \<open>fits\<close> says
  whether its parameters are values of their columns.
\<close>

definition sql_update_job ::
    "stmt_faults \<Rightarrow> bool \<Rightarrow> string \<Rightarrow> ('b job_row \<Rightarrow> 'b job_row) \<Rightarrow> 'b job_table \<Rightarrow> (go_error + nat) \<times> 'b job_table" where
  "sql_update_job flt fits i set_columns t =
     (case sf_exec flt of
        Some e \<Rightarrow> (Inl e, t)
      | None \<Rightarrow> if \<not> fits then (Inl bad_parameter, t) else (case gm_get t i of None \<Rightarrow> (Inr 0, t) | Some row \<Rightarrow> (Inr 1, gm_put t i (set_columns row))))"

definition sql_delete_job :: "stmt_faults \<Rightarrow> string \<Rightarrow> 'b job_table \<Rightarrow> (go_error + nat) \<times> 'b job_table" where
  "sql_delete_job flt i t =
     (case sf_exec flt of
        Some e \<Rightarrow> (Inl e, t)
      | None \<Rightarrow> (case gm_get t i of None \<Rightarrow> (Inr 0, t) | Some row \<Rightarrow> (Inr 1, gm_del t i)))"

text \<open>What \<open>Update\<close> and \<open>Delete\<close> make of the number of affected rows.\<close>

definition check_affected :: "stmt_faults \<Rightarrow> string \<Rightarrow> (go_error + nat) \<times> 'b job_table \<Rightarrow> go_error option \<times> 'b job_table" where
  "check_affected flt i r =
     (case r of
        (Inl err, t) \<Rightarrow> (Some err, t)
      | (Inr n, t) \<Rightarrow>
          (case sf_rows flt of
             Some err \<Rightarrow> (Some (ErrWrap ''check rows affected: '' err []), t)
           | None \<Rightarrow> if n = 0 then (Some (ErrWrap (''job '' @ i @ '': '') ErrNotFound []), t) else (None, t)))"

definition update_fits :: "'b column_types \<Rightarrow> ('d, 'v) job \<Rightarrow> 'b option \<Rightarrow> string \<Rightarrow> bool" where
  "update_fits ct j resultData resultType \<longleftrightarrow> ct_text ct (jb_id j) \<and> pred_option (ct_jsonb ct) resultData \<and>
     pred_option (ct_text ct) (NullString resultType) \<and> pred_option (ct_text ct) (NullString (jb_err j)) \<and>
     int8 (jb_timeout j) \<and> int4 (jb_retryCount j) \<and> int4 (jb_maxRetries j)"

definition pg_job_Update ::
    "('d, 'v, 'b) pg_job_store \<Rightarrow> stmt_faults \<Rightarrow> ('d, 'v) job \<Rightarrow> 'b job_table \<Rightarrow> go_error option \<times> 'b job_table" where
  "pg_job_Update s flt j t =
     (let resultType = (if jb_resultType j = [] \<and> jb_result j \<noteq> RNil then result_TypeName (pjs_res s) (jb_result j)
                        else jb_resultType j)
      in case JSONOrNull (pjs_res s) (jb_result j) of
           Inl err \<Rightarrow> (Some (ErrWrap ''marshal result: '' err []), t)
         | Inr resultData \<Rightarrow>
             check_affected flt (jb_id j)
               (sql_update_job flt (update_fits (pjs_columns s) j resultData resultType) (jb_id j)
                  (\<lambda>row. row\<lparr>jr_status := jb_status j, jr_result := resultData, jr_result_type := NullString resultType,
                             jr_error := NullString (jb_err j), jr_started_at := NullTime (jb_startedAt j),
                             jr_completed_at := NullTime (jb_completedAt j), jr_timeout_ns := jb_timeout j,
                             jr_retry_count := jb_retryCount j, jr_max_retries := jb_maxRetries j\<rparr>) t))"

definition pg_job_Delete :: "stmt_faults \<Rightarrow> string \<Rightarrow> 'b job_table \<Rightarrow> go_error option \<times> 'b job_table" where
  "pg_job_Delete flt i t = check_affected flt i (sql_delete_job flt i t)"

subsection \<open>Reading jobs\<close>

definition unmarshalTyped ::
    "(string \<Rightarrow> string) \<Rightarrow> (string, gtype) gomap option \<Rightarrow> ('x, 'b) json_codec \<Rightarrow> 'b \<Rightarrow> string \<Rightarrow> go_error + 'x" where
  "unmarshalTyped quote registry js data typeName =
     (let untyped = (\<lambda>msg. case jc_Unmarshal_any js data of Inl err \<Rightarrow> Inl (ErrWrap msg err []) | Inr v \<Rightarrow> Inr v)
      in case registry of
           None \<Rightarrow> untyped ''unmarshal untyped data: ''
         | Some r \<Rightarrow>
             if typeName = [] then untyped ''unmarshal untyped data: ''
             else (case TypeRegistry_NewInstance r typeName of
                     None \<Rightarrow> untyped (''unmarshal unregistered type '' @ quote typeName @ '': '')
                   | Some t \<Rightarrow>
                       (case jc_Unmarshal js t data of
                          Inl err \<Rightarrow> Inl (ErrWrap (''unmarshal type '' @ quote typeName @ '': '') err [])
                        | Inr inst \<Rightarrow> Inr inst)))"

text \<open>
  \<open>scanJob\<close> of a row that was scanned; \<open>now\<close> is the clock of \<open>NewJob\<close>.  The error of
  \<open>RestoreJobState\<close> is dropped.
\<close>

definition scanJob :: "time \<Rightarrow> ('d, 'v, 'b) pg_job_store \<Rightarrow> 'b job_row \<Rightarrow> go_error + ('d, 'v) job" where
  "scanJob now s row =
     (let startedAtVal = (case jr_started_at row of None \<Rightarrow> 0 | Some t \<Rightarrow> t);
          completedAtVal = (case jr_completed_at row of None \<Rightarrow> 0 | Some t \<Rightarrow> t);
          resultTypeStr = (case jr_result_type row of None \<Rightarrow> [] | Some r \<Rightarrow> r);
          errStrVal = (case jr_error row of None \<Rightarrow> [] | Some e \<Rightarrow> e)
      in case (case jr_result row of
                 None \<Rightarrow> Inr RNil
               | Some resultData \<Rightarrow> unmarshalTyped (pjs_quote s) (pjs_registry s) (pjs_res s) resultData resultTypeStr) of
           Inl err \<Rightarrow> Inl (ErrWrap ''unmarshal result: '' err [])
         | Inr result \<Rightarrow>
             (case unmarshalTyped (pjs_quote s) (pjs_registry s) (pjs_cmd s) (jr_command row) (jr_command_type row) of
                Inl err \<Rightarrow> Inl (ErrWrap ''unmarshal command: '' err [])
              | Inr cmd \<Rightarrow>
                  (let j = NewJob now (jr_id row) cmd [WithTimeout (jr_timeout_ns row), WithMaxRetries (jr_max_retries row)]
                   in Inr (snd (RestoreJobState (jr_status row) result resultTypeStr errStrVal startedAtVal completedAtVal j)))))"

definition pg_job_Get ::
    "('d, 'v, 'b) pg_job_store \<Rightarrow> go_error option \<Rightarrow> time \<Rightarrow> 'b job_table \<Rightarrow> string \<Rightarrow> go_error + ('d, 'v) job" where
  "pg_job_Get s flt now t i =
     (case flt of
        Some err \<Rightarrow> Inl err
      | None \<Rightarrow>
          (case gm_get t i of
             None \<Rightarrow> Inl (ErrWrap (''job '' @ i @ '': '') ErrNotFound [])
           | Some row \<Rightarrow> scanJob now s row))"

fun scan_jobs ::
    "('d, 'v, 'b) pg_job_store \<Rightarrow> pg_faults \<Rightarrow> time \<Rightarrow> nat \<Rightarrow> 'b job_row list \<Rightarrow> go_error + ('d, 'v) job list" where
  "scan_jobs s flt now i [] =
     (case pf_rows flt of Some err \<Rightarrow> Inl (ErrWrap ''iterate jobs: '' err []) | None \<Rightarrow> Inr [])"
| "scan_jobs s flt now i (row # rows) =
     (case pf_scan flt i of
        Some err \<Rightarrow> Inl err
      | None \<Rightarrow>
          (case scanJob now s row of
             Inl err \<Rightarrow> Inl err
           | Inr j \<Rightarrow> (case scan_jobs s flt now (Suc i) rows of Inl err \<Rightarrow> Inl err | Inr js \<Rightarrow> Inr (j # js))))"

text \<open>The SELECT of \<open>List\<close> has no ORDER BY: the map's order stands for the one the database picks.\<close>

definition pg_job_List ::
    "('d, 'v, 'b) pg_job_store \<Rightarrow> pg_faults \<Rightarrow> time \<Rightarrow> 'b job_table \<Rightarrow> JobStatus \<Rightarrow> go_error + ('d, 'v) job list" where
  "pg_job_List s flt now t status =
     (case pf_query flt of
        Some err \<Rightarrow> Inl err
      | None \<Rightarrow> scan_jobs s flt now 0 (filter (\<lambda>row. jr_status row = status) (map snd t)))"

subsection \<open>The execution log\<close>

record job_execution =
  je_job_id :: string
  je_attempt :: int
  je_status :: string
  je_error :: "string option"
  je_started_at :: time
  je_completed_at :: time
  je_duration_ns :: "int option"

definition RecordJobExecution ::
    "go_error option \<Rightarrow> time \<Rightarrow> string \<Rightarrow> int \<Rightarrow> string \<Rightarrow> go_error option \<Rightarrow> time \<Rightarrow> job_execution list \<Rightarrow>
       go_error option \<times> job_execution list" where
  "RecordJobExecution flt now jobID attempt status jobErr startedAt log =
     (let errStr = map_option error_text jobErr;
          durationNs = (if startedAt \<noteq> 0 then Some (now - startedAt) else None)
      in case flt of
           Some err \<Rightarrow> (Some err, log)
         | None \<Rightarrow> (None, log @ [\<lparr>je_job_id = jobID, je_attempt = attempt, je_status = status, je_error = errStr,
                                 je_started_at = startedAt, je_completed_at = now, je_duration_ns = durationNs\<rparr>]))"

subsection \<open>What is read back of a stored job\<close>

text \<open>The codecs restore the job's command and result from the types that are written with them.\<close>

definition storable :: "('d, 'v, 'b) pg_job_store \<Rightarrow> string \<Rightarrow> ('d, 'v) job \<Rightarrow> bool" where
  "storable s resultType j \<longleftrightarrow>
     (case jc_Marshal (pjs_cmd s) (jb_command j) of
        Inl err \<Rightarrow> False
      | Inr b \<Rightarrow> unmarshalTyped (pjs_quote s) (pjs_registry s) (pjs_cmd s) b
                   (if jb_commandType j = [] then job_TypeName (jb_command j) else jb_commandType j) = Inr (jb_command j)) \<and>
     (jb_result j = RNil \<or>
      (case jc_Marshal (pjs_res s) (jb_result j) of
         Inl err \<Rightarrow> False
       | Inr b \<Rightarrow> unmarshalTyped (pjs_quote s) (pjs_registry s) (pjs_res s) b resultType = Inr (jb_result j)))"

text \<open>
  What a row of \<open>j\<close> is read as: \<open>NewJob\<close> starts pending, and pending to running is the only transition
  \<open>RestoreJobState\<close> then accepts.
\<close>

definition read_back :: "time \<Rightarrow> string \<Rightarrow> ('d, 'v) job \<Rightarrow> ('d, 'v) job" where
  "read_back now resultType j =
     (if jb_status j = JobStatusRunning
      then j\<lparr>jb_commandType := [], jb_resultType := resultType, jb_createdAt := now, jb_retryCount := 0, jb_done := DoneNil\<rparr>
      else NewJob now (jb_id j) (jb_command j) [WithTimeout (jb_timeout j), WithMaxRetries (jb_maxRetries j)])"

text \<open>The row that holds a job, written with a result type.\<close>

definition holds_job :: "('d, 'v, 'b) pg_job_store \<Rightarrow> string \<Rightarrow> ('d, 'v) job \<Rightarrow> 'b job_row \<Rightarrow> bool" where
  "holds_job s resultType j row \<longleftrightarrow>
     jr_id row = jb_id j \<and> jr_status row = jb_status j \<and> jr_result_type row = NullString resultType \<and>
     jr_error row = NullString (jb_err j) \<and> jr_started_at row = NullTime (jb_startedAt j) \<and>
     jr_completed_at row = NullTime (jb_completedAt j) \<and> jr_timeout_ns row = jb_timeout j \<and>
     jr_max_retries row = jb_maxRetries j \<and>
     unmarshalTyped (pjs_quote s) (pjs_registry s) (pjs_cmd s) (jr_command row) (jr_command_type row) = Inr (jb_command j) \<and>
     (case jr_result row of
        None \<Rightarrow> jb_result j = RNil
      | Some b \<Rightarrow> unmarshalTyped (pjs_quote s) (pjs_registry s) (pjs_res s) b resultType = Inr (jb_result j))"

definition table_holds :: "('d, 'v, 'b) pg_job_store \<Rightarrow> string \<Rightarrow> ('d, 'v) job \<Rightarrow> 'b job_table \<Rightarrow> bool" where
  "table_holds s resultType j t \<longleftrightarrow> (case gm_get t (jb_id j) of None \<Rightarrow> False | Some row \<Rightarrow> holds_job s resultType j row)"

lemma NewJob_two [simp]:
  "NewJob now i cmd [WithTimeout t, WithMaxRetries n] =
     \<lparr>jb_id = i, jb_command = cmd, jb_commandType = [], jb_status = JobStatusPending, jb_result = RNil,
      jb_resultType = [], jb_err = [], jb_createdAt = now, jb_startedAt = 0, jb_completedAt = 0,
      jb_timeout = t, jb_retryCount = 0, jb_maxRetries = n, jb_done = DoneNil\<rparr>"
  by (simp add: NewJob_def)

lemma scanJob_holds:
  assumes "holds_job s rt j row"
  shows "scanJob now s row = Inr (read_back now rt j)"
proof -
  have "(case jr_result row of None \<Rightarrow> Inr RNil
      | Some b \<Rightarrow> unmarshalTyped (pjs_quote s) (pjs_registry s) (pjs_res s) b rt) = Inr (jb_result j)"
    using assms by (auto simp: holds_job_def split: option.splits)
  with assms show ?thesis
    by (cases j; cases "jb_status j") (auto simp: holds_job_def scanJob_def Let_def RestoreJobState_def read_back_def)
qed

lemma Create_holds:
  assumes "pg_job_Create s flt j t = (None, t')" and "storable s (jb_resultType j) j"
  shows "gm_get t (jb_id j) = None"
    and "table_holds s (jb_resultType j) j t'"
    and "i \<noteq> jb_id j \<Longrightarrow> gm_get t' i = gm_get t i"
  using assms
  by (auto simp: pg_job_Create_def sql_insert_job_def JSONOrNull_def storable_def table_holds_def holds_job_def Let_def
      split: sum.splits option.splits if_splits)

definition update_type :: "('d, 'v, 'b) pg_job_store \<Rightarrow> ('d, 'v) job \<Rightarrow> string" where
  "update_type s j =
     (if jb_resultType j = [] \<and> jb_result j \<noteq> RNil then result_TypeName (pjs_res s) (jb_result j) else jb_resultType j)"

lemma check_affected_None: "check_affected flt i r = (None, t') \<longleftrightarrow> sf_rows flt = None \<and> (\<exists>n. r = (Inr (Suc n), t'))"
  by (cases r; cases "fst r") (auto simp: check_affected_def gr0_conv_Suc split: option.splits)

lemma sql_update_job_Suc:
  "sql_update_job flt fits i f t = (Inr (Suc n), t') \<longleftrightarrow> sf_exec flt = None \<and> fits \<and> n = 0 \<and> (\<exists>row. gm_get t i = Some row \<and> t' = gm_put t i (f row))"
  by (auto simp: sql_update_job_def split: option.splits)

lemma pg_job_Update_None:
  "pg_job_Update s flt j t = (None, t') \<Longrightarrow>
     \<exists>rd row. JSONOrNull (pjs_res s) (jb_result j) = Inr rd \<and> gm_get t (jb_id j) = Some row \<and>
       t' = gm_put t (jb_id j) (row\<lparr>jr_status := jb_status j, jr_result := rd, jr_result_type := NullString (update_type s j),
              jr_error := NullString (jb_err j), jr_started_at := NullTime (jb_startedAt j),
              jr_completed_at := NullTime (jb_completedAt j), jr_timeout_ns := jb_timeout j,
              jr_retry_count := jb_retryCount j, jr_max_retries := jb_maxRetries j\<rparr>)"
  unfolding pg_job_Update_def update_type_def [symmetric] Let_def
  by (cases "JSONOrNull (pjs_res s) (jb_result j)") (auto simp: check_affected_None sql_update_job_Suc)

lemma Update_holds:
  assumes "pg_job_Update s flt j t = (None, t')" and "storable s (update_type s j) j"
    and "table_holds s rt0 j0 t" and "jb_id j0 = jb_id j" and "jb_command j0 = jb_command j"
  shows "table_holds s (update_type s j) j t'"
proof -
  obtain rd row where u: "JSONOrNull (pjs_res s) (jb_result j) = Inr rd" "gm_get t (jb_id j) = Some row"
      "t' = gm_put t (jb_id j) (row\<lparr>jr_status := jb_status j, jr_result := rd, jr_result_type := NullString (update_type s j),
              jr_error := NullString (jb_err j), jr_started_at := NullTime (jb_startedAt j),
              jr_completed_at := NullTime (jb_completedAt j), jr_timeout_ns := jb_timeout j,
              jr_retry_count := jb_retryCount j, jr_max_retries := jb_maxRetries j\<rparr>)"
    using pg_job_Update_None [OF assms(1)] by blast
  have "holds_job s rt0 j0 row" using assms(3,4) u(2) by (simp add: table_holds_def)
  then have c: "jr_id row = jb_id j"
      "unmarshalTyped (pjs_quote s) (pjs_registry s) (pjs_cmd s) (jr_command row) (jr_command_type row) = Inr (jb_command j)"
    using assms(4,5) by (simp_all add: holds_job_def)
  have "case rd of None \<Rightarrow> jb_result j = RNil
      | Some b \<Rightarrow> unmarshalTyped (pjs_quote s) (pjs_registry s) (pjs_res s) b (update_type s j) = Inr (jb_result j)"
    using assms(2) u(1) by (auto simp: storable_def JSONOrNull_def split: if_splits sum.splits)
  then show ?thesis using c by (simp add: table_holds_def holds_job_def u(3))
qed

lemma Get_holds: "table_holds s rt j t \<Longrightarrow> pg_job_Get s None now t (jb_id j) = Inr (read_back now rt j)"
  using scanJob_holds [of s rt j _ now] by (auto simp: table_holds_def pg_job_Get_def split: option.splits)

text \<open>
  C27.  A job's outcome is not read back.  After a job is created and updated with a completed, failed or
  cancelled state, the row has that state, but \<open>Get\<close> gives a pending job without result, error and
  times: a client cannot see how the job ended, it cannot be retried, and it can be cancelled.  Only a
  running state is read back, and even then with the retry count 0.
\<close>

theorem pg_job_outcome_unread:
  assumes "pg_job_Create s None j t = (None, t1)" and "storable s (jb_resultType j) j"
    and "pg_job_Update s sf_none j2 t1 = (None, t2)" and "storable s (update_type s j2) j2"
    and "jb_id j2 = jb_id j" and "jb_command j2 = jb_command j"
  shows "\<exists>row got. gm_get t2 (jb_id j) = Some row \<and> jr_status row = jb_status j2 \<and>
    pg_job_Get s None now t2 (jb_id j) = Inr got \<and>
    jb_command got = jb_command j \<and> jb_retryCount got = 0 \<and>
    (if jb_status j2 = JobStatusRunning then jb_status got = JobStatusRunning \<and> jb_startedAt got = jb_startedAt j2
     else jb_status got = JobStatusPending \<and> jb_result got = RNil \<and> jb_err got = [] \<and> jb_completedAt got = 0 \<and>
       fst (ResetForRetry got) \<noteq> None \<and> fst (TryCancel now got) = None)"
proof -
  have "table_holds s (jb_resultType j) j t1" by (rule Create_holds(2) [OF assms(1,2)])
  from Update_holds [OF assms(3,4) this] have h: "table_holds s (update_type s j2) j2 t2"
    using assms(5,6) by simp
  then obtain row where row: "gm_get t2 (jb_id j) = Some row" "holds_job s (update_type s j2) j2 row"
    by (auto simp: table_holds_def assms(5) split: option.splits)
  show ?thesis
    using row Get_holds [OF h, of now] assms(5,6)
    by (intro exI [of _ row] exI [of _ "read_back now (update_type s j2) j2"])
      (auto simp: holds_job_def read_back_def ResetForRetry_def TryCancel_def)
qed

text \<open>
  Recovery after a restart over this store: a job that was running is listed, is marked failed, and its row
  says failed with the message; \<open>Get\<close> reports it as pending without an error.
\<close>

theorem pg_recovered_job_pending:
  assumes "table_holds s rt j t" and "jb_status j = JobStatusRunning" and "jb_result j = RNil"
    and "pg_job_List s no_faults now t JobStatusRunning = Inr js"
    and "ct_text (pjs_columns s) (jb_id j)" and "ct_text (pjs_columns s) ''process restarted during execution''"
    and "int8 (jb_timeout j)" and "int4 (jb_maxRetries j)"
  shows "\<exists>listed failed t2 row got. listed \<in> set js \<and> jb_id listed = jb_id j \<and>
    RestoreJobState JobStatusFailed RNil [] ''process restarted during execution'' 0 now listed = (None, failed) \<and>
    pg_job_Update s sf_none failed t = (None, t2) \<and>
    gm_get t2 (jb_id j) = Some row \<and> jr_status row = JobStatusFailed \<and>
    jr_error row = Some ''process restarted during execution'' \<and>
    pg_job_Get s None now t2 (jb_id j) = Inr got \<and> jb_status got = JobStatusPending \<and> jb_err got = []"
proof -
  obtain row where row: "gm_get t (jb_id j) = Some row" "holds_job s rt j row"
    using assms(1) by (auto simp: table_holds_def split: option.splits)
  have scan: "scanJob now s row = Inr (read_back now rt j)" by (rule scanJob_holds [OF row(2)])
  have all: "scan_jobs s no_faults now n rows = Inr js' \<Longrightarrow> r \<in> set rows \<Longrightarrow> scanJob now s r = Inr x \<Longrightarrow> x \<in> set js'"
    for n rows js' r x
    by (induction rows arbitrary: n js') (auto simp: no_faults_def split: sum.splits)
  have "row \<in> set (filter (\<lambda>row. jr_status row = JobStatusRunning) (map snd t))"
    using gm_get_in [OF row(1)] row(2) assms(2) by (force simp: holds_job_def)
  then have listed: "read_back now rt j \<in> set js"
    using all [OF _ _ scan] assms(4) by (simp add: pg_job_List_def no_faults_def)
  let ?l = "read_back now rt j"
  let ?f = "?l\<lparr>jb_status := JobStatusFailed, jb_result := RNil, jb_resultType := [],
      jb_err := ''process restarted during execution'', jb_startedAt := 0, jb_completedAt := now\<rparr>"
  have restore: "RestoreJobState JobStatusFailed RNil [] ''process restarted during execution'' 0 now ?l = (None, ?f)"
    using assms(2) by (simp add: RestoreJobState_def read_back_def)
  let ?t2 = "snd (pg_job_Update s sf_none ?f t)"
  have id: "jb_id ?f = jb_id j" using assms(2) by (simp add: read_back_def)
  have fits: "update_fits (pjs_columns s) ?f None []"
    using assms(2,5-8) by (simp add: update_fits_def read_back_def NullString_def) (simp add: int4_def)
  then have upd: "pg_job_Update s sf_none ?f t = (None, ?t2)"
    using row(1) id by (simp add: pg_job_Update_def JSONOrNull_def sql_update_job_def sf_none_def check_affected_def)
  have h2: "table_holds s [] ?f ?t2"
    using row id assms(2) fits
    by (simp add: pg_job_Update_def JSONOrNull_def sql_update_job_def sf_none_def check_affected_def
        table_holds_def holds_job_def read_back_def NullString_def)
  then obtain row2 where row2: "gm_get ?t2 (jb_id j) = Some row2" "holds_job s [] ?f row2"
    using id by (auto simp: table_holds_def split: option.splits)
  have got: "pg_job_Get s None now ?t2 (jb_id j) = Inr (read_back now [] ?f)"
    using Get_holds [OF h2, of now] id by simp
  show ?thesis
    by (rule exI [of _ ?l], rule exI [of _ ?f], rule exI [of _ ?t2], rule exI [of _ row2], rule exI [of _ "read_back now [] ?f"])
      (use listed restore upd row2 got id assms(2) in \<open>simp add: holds_job_def NullString_def read_back_def\<close>)
qed

subsection \<open>Both stores accept the same operations\<close>

text \<open>
  The jobs both statements take: command and result have a JSON, and every parameter of the INSERT and
  of the UPDATE is a value of its column.
\<close>

definition columns_take :: "('d, 'v, 'b) pg_job_store \<Rightarrow> ('d, 'v) job \<Rightarrow> bool" where
  "columns_take s j \<longleftrightarrow>
     (case jc_Marshal (pjs_cmd s) (jb_command j) of
        Inl e \<Rightarrow> False
      | Inr b \<Rightarrow> ct_jsonb (pjs_columns s) b \<and>
          ct_text (pjs_columns s) (if jb_commandType j = [] then job_TypeName (jb_command j) else jb_commandType j)) \<and>
     (case JSONOrNull (pjs_res s) (jb_result j) of
        Inl e \<Rightarrow> False
      | Inr rd \<Rightarrow> update_fits (pjs_columns s) j rd (jb_resultType j) \<and> update_fits (pjs_columns s) j rd (update_type s j))"

interpretation pg_rows: job_rows "pg_job_Create s None" "pg_job_Update s sf_none" "columns_take s" "\<lambda>t i. gm_get t i \<noteq> None"
  for s
proof unfold_locales
  fix j :: "('a, 'b) job" and t :: "'c job_table"
  assume g: "columns_take s j"
  then obtain b rd where j: "jc_Marshal (pjs_cmd s) (jb_command j) = Inr b" "JSONOrNull (pjs_res s) (jb_result j) = Inr rd"
    and fit: "update_fits (pjs_columns s) j rd (update_type s j)"
    by (auto simp: columns_take_def split: sum.splits)
  show "\<exists>err t'. pg_job_Create s None j t = (err, t') \<and> (err = None \<longleftrightarrow> \<not> gm_get t (jb_id j) \<noteq> None) \<and>
      (\<forall>i. gm_get t' i \<noteq> None \<longleftrightarrow> i = jb_id j \<or> gm_get t i \<noteq> None)"
    using g j by (auto simp: pg_job_Create_def columns_take_def update_fits_def row_fits_def sql_insert_job_def Let_def split: option.splits)
  show "\<exists>err t'. pg_job_Update s sf_none j t = (err, t') \<and> (err = None \<longleftrightarrow> gm_get t (jb_id j) \<noteq> None) \<and>
      (\<forall>i. gm_get t' i \<noteq> None \<longleftrightarrow> gm_get t i \<noteq> None)"
    unfolding pg_job_Update_def update_type_def [symmetric] Let_def
    using j fit by (auto simp: sql_update_job_def check_affected_def sf_none_def split: option.splits)
qed

text \<open>
  C28.  Over any sequence of creations and updates of jobs whose command and result have a JSON and whose
  fields are values of the table's columns, starting from empty stores, the PostgreSQL and the
  in-memory store accept and reject the same operations.  The condition is needed: a job whose
  maximum of retries is not a 32-bit integer, which the job options accept, is created in memory and
  refused by PostgreSQL.
\<close>

theorem job_stores_agree:
  assumes "\<forall>opr\<in>set ops. columns_take s (op_job opr)" and "2 ^ 31 \<le> n"
  shows "store_run (pg_job_Create s None) (pg_job_Update s sf_none) ops [] = store_run js_Create js_Update ops [] \<and>
    (let j = NewJob now i cmd [WithMaxRetries n]
     in fst (js_Create j []) = None \<and> fst (pg_job_Create s None j []) \<noteq> None)"
proof
  show "store_run (pg_job_Create s None) (pg_job_Update s sf_none) ops [] = store_run js_Create js_Update ops []"
    using pg_rows.run_ids [of ops s "[]"] mem_jobs.rows.run_ids [of ops "[]"] assms(1) by (simp add: js_Get_def)
  have "\<not> int4 n" using assms(2) by (simp add: int4_def)
  then show "let j = NewJob now i cmd [WithMaxRetries n]
     in fst (js_Create j []) = None \<and> fst (pg_job_Create s None j []) \<noteq> None"
    by (auto simp: js_Create_def pg_job_Create_def sql_insert_job_def row_fits_def NewJob_def Let_def split: sum.split)
qed

subsection \<open>Witnesses\<close>

definition unit_codec :: "'x \<Rightarrow> ('x, unit) json_codec" where
  "unit_codec v = \<lparr>jc_Marshal = (\<lambda>x. Inr ()), jc_Unmarshal_any = (\<lambda>b. Inr v), jc_Unmarshal = (\<lambda>t b. Inr v), jc_type = (\<lambda>x. None)\<rparr>"

definition sample_jobs :: "(unit, unit, unit) pg_job_store" where
  "sample_jobs = \<lparr>pjs_registry = None, pjs_cmd = unit_codec GNil, pjs_res = unit_codec (RVal ()), pjs_quote = (\<lambda>s. s),
     pjs_columns = \<lparr>ct_text = (\<lambda>t. CHR 0x00 \<notin> set t), ct_jsonb = (\<lambda>b. True)\<rparr>\<rparr>"

definition sample_job :: "(unit, unit) job" where
  "sample_job = NewJob 5 ''j'' GNil [WithMaxRetries 2]"

lemmas sample_jobs_eval = sample_jobs_def unit_codec_def sample_job_def NewJob_def pg_job_Create_def pg_job_Update_def
  sql_insert_job_def sql_update_job_def check_affected_def sf_none_def JSONOrNull_def storable_def unmarshalTyped_def
  update_type_def result_TypeName_def columns_take_def update_fits_def row_fits_def int4_def int8_def NullString_def job_TypeName_def

theorem pg_job_outcome_unread_witness:
  "\<exists>got. pg_job_Get sample_jobs None 9
     (snd (pg_job_Update sample_jobs sf_none (sample_job\<lparr>jb_status := JobStatusCompleted, jb_result := RVal ()\<rparr>)
        (snd (pg_job_Create sample_jobs None sample_job [])))) ''j'' = Inr got \<and>
     jb_status got = JobStatusPending \<and> jb_result got = RNil"
proof -
  let ?j2 = "sample_job\<lparr>jb_status := JobStatusCompleted, jb_result := RVal ()\<rparr>"
  let ?t1 = "snd (pg_job_Create sample_jobs None sample_job [])"
  let ?t2 = "snd (pg_job_Update sample_jobs sf_none ?j2 ?t1)"
  have "pg_job_Create sample_jobs None sample_job [] = (None, ?t1)"
    and "storable sample_jobs (jb_resultType sample_job) sample_job"
    and "pg_job_Update sample_jobs sf_none ?j2 ?t1 = (None, ?t2)" and "storable sample_jobs (update_type sample_jobs ?j2) ?j2"
    and "jb_id ?j2 = jb_id sample_job" "jb_command ?j2 = jb_command sample_job"
    by (simp_all add: sample_jobs_eval)
  from pg_job_outcome_unread [OF this, of 9] show ?thesis
    by (auto simp: sample_job_def NewJob_def)
qed

theorem pg_recovered_job_pending_witness:
  "\<exists>t2 got. pg_job_Get sample_jobs None 9 t2 ''j'' = Inr got \<and> jb_status got = JobStatusPending \<and>
     map_option jr_status (gm_get t2 ''j'') = Some JobStatusFailed"
proof -
  let ?j = "sample_job\<lparr>jb_status := JobStatusRunning\<rparr>"
  let ?t = "snd (pg_job_Create sample_jobs None ?j [])"
  have h: "table_holds sample_jobs [] ?j ?t"
    using Create_holds(2) [of sample_jobs None ?j "[]" ?t] by (simp add: sample_jobs_eval)
  obtain js where list: "pg_job_List sample_jobs no_faults 9 ?t JobStatusRunning = Inr js"
    by (simp add: sample_jobs_eval pg_job_List_def no_faults_def scanJob_def gm_put_def)
  have fits: "ct_text (pjs_columns sample_jobs) (jb_id ?j)" "ct_text (pjs_columns sample_jobs) ''process restarted during execution''"
    "int8 (jb_timeout ?j)" "int4 (jb_maxRetries ?j)"
    by (simp_all add: sample_jobs_eval)
  from pg_recovered_job_pending [OF h _ _ list fits] obtain t2 row got where
    "gm_get t2 ''j'' = Some row" "jr_status row = JobStatusFailed" "pg_job_Get sample_jobs None 9 t2 ''j'' = Inr got"
    "jb_status got = JobStatusPending"
    by (auto simp: sample_job_def NewJob_def)
  then show ?thesis by (intro exI [of _ t2] exI [of _ got]) simp
qed

theorem job_stores_agree_witness:
  "store_run (pg_job_Create sample_jobs None) (pg_job_Update sample_jobs sf_none) [SUpdate sample_job, SCreate sample_job, SCreate sample_job] [] =
     [False, True, False] \<and>
   fst (pg_job_Create sample_jobs None (NewJob 5 ''k'' GNil [WithMaxRetries (2 ^ 31)]) []) \<noteq> None"
proof -
  have "\<forall>opr\<in>set [SUpdate sample_job, SCreate sample_job, SCreate sample_job]. columns_take sample_jobs (op_job opr)"
    by (simp add: sample_jobs_eval)
  from job_stores_agree [OF this order.refl, of 5 "''k''" GNil] show ?thesis by (simp add: js_Create_def js_Update_def Let_def)
qed

end
