(* ===== verification/PgTraces.thy ===== *)
theory PgTraces
  imports TraceStore PgUtil
begin

text \<open>
  The PostgreSQL trace store \<open>trace/pg/trace_store.go\<close> over the table \<open>ddd_spans\<close> of \<open>pg/migrate.go\<close>: rows
  in the order they were inserted, the primary key \<open>id\<close>, and the statements as what their SQL says.  A tie
  in an ORDER BY and the order of a SELECT DISTINCT are the order of insertion.  The database's LIKE
  is the argument \<open>like\<close>; the law \<open>like_laws\<close> is its documented behaviour with the backslash as escape character.
\<close>

record span_row =
  sr_id :: string
  sr_trace_id :: string
  sr_parent_id :: "string option"
  sr_type :: span_type
  sr_name :: string
  sr_status :: span_status
  sr_error :: "string option"
  sr_started_at :: time
  sr_duration_ns :: int

definition pg_RecordSpan :: "go_error option \<Rightarrow> span \<Rightarrow> span_row list \<Rightarrow> go_error option \<times> span_row list" where
  "pg_RecordSpan flt sp t =
     (case flt of
        Some err \<Rightarrow> (Some err, t)
      | None \<Rightarrow>
          if list_ex (\<lambda>r. sr_id r = sp_ID sp) t
          then (Some (ErrText ''duplicate key value violates unique constraint''), t)
          else (None, t @ [\<lparr>sr_id = sp_ID sp, sr_trace_id = sp_TraceID sp, sr_parent_id = NullString (sp_ParentID sp),
                           sr_type = sp_Type sp, sr_name = sp_Name sp, sr_status = sp_Status sp,
                           sr_error = NullString (sp_Error sp), sr_started_at = sp_StartedAt sp,
                           sr_duration_ns = sp_Duration sp\<rparr>]))"

fun scan_spans :: "pg_faults \<Rightarrow> nat \<Rightarrow> span_row list \<Rightarrow> go_error + span list" where
  "scan_spans flt i [] =
     (case pf_rows flt of Some err \<Rightarrow> Inl (ErrWrap ''iterate spans: '' err []) | None \<Rightarrow> Inr [])"
| "scan_spans flt i (r # rows) =
     (case pf_scan flt i of
        Some err \<Rightarrow> Inl err
      | None \<Rightarrow>
          (let sp = \<lparr>sp_ID = sr_id r, sp_TraceID = sr_trace_id r,
                     sp_ParentID = (case sr_parent_id r of None \<Rightarrow> [] | Some p \<Rightarrow> p),
                     sp_Type = sr_type r, sp_Name = sr_name r, sp_Status = sr_status r,
                     sp_Error = (case sr_error r of None \<Rightarrow> [] | Some e \<Rightarrow> e),
                     sp_StartedAt = sr_started_at r, sp_Duration = sr_duration_ns r\<rparr>
           in case scan_spans flt (Suc i) rows of Inl err \<Rightarrow> Inl err | Inr spans \<Rightarrow> Inr (sp # spans)))"

definition pg_GetTrace :: "pg_faults \<Rightarrow> span_row list \<Rightarrow> string \<Rightarrow> go_error + span list" where
  "pg_GetTrace flt t traceID =
     (case pf_query flt of
        Some err \<Rightarrow> Inl err
      | None \<Rightarrow>
          (case scan_spans flt 0 (sort_key sr_started_at (filter (\<lambda>r. sr_trace_id r = traceID) t)) of
             Inl err \<Rightarrow> Inl err
           | Inr spans \<Rightarrow>
               if length spans = 0 then Inl (ErrWrap (''trace '' @ traceID @ '': '') ErrNotFound []) else Inr spans))"

subsection \<open>LIKE patterns\<close>

text \<open>\<open>strings.ReplaceAll\<close> of a one-character string.\<close>

definition replace_char :: "char \<Rightarrow> string \<Rightarrow> string \<Rightarrow> string" where
  "replace_char c new s = concat (map (\<lambda>x. if x = c then new else [x]) s)"

definition escapeLike :: "string \<Rightarrow> string" where
  "escapeLike s =
     (let s1 = replace_char (CHR 0x5C) [CHR 0x5C, CHR 0x5C] s;
          s2 = replace_char (CHR ''%'') [CHR 0x5C, CHR ''%''] s1
      in replace_char (CHR ''_'') [CHR 0x5C, CHR ''_''] s2)"

definition like_laws :: "(string \<Rightarrow> string \<Rightarrow> bool) \<Rightarrow> bool" where
  "like_laws like \<longleftrightarrow>
     (\<forall>s. like [] s \<longleftrightarrow> s = []) \<and>
     (\<forall>p s. like (CHR ''%'' # p) s \<longleftrightarrow> (\<exists>k\<le>length s. like p (drop k s))) \<and>
     (\<forall>p s. like (CHR ''_'' # p) s \<longleftrightarrow> s \<noteq> [] \<and> like p (tl s)) \<and>
     (\<forall>c p s. like (CHR 0x5C # c # p) s \<longleftrightarrow> s \<noteq> [] \<and> hd s = c \<and> like p (tl s)) \<and>
     (\<forall>c p s. c \<notin> {CHR ''%'', CHR ''_'', CHR 0x5C} \<longrightarrow> like (c # p) s \<longleftrightarrow> s \<noteq> [] \<and> hd s = c \<and> like p (tl s))"

subsection \<open>The query of \<open>ListTraces\<close>\<close>

text \<open>
  The query text is built with numbered placeholders next to the list of arguments.  A condition is its
  column, its comparison and the number of its placeholder.
\<close>

datatype span_arg = ArgText string | ArgType span_type | ArgStatus span_status | ArgTime time

datatype span_cond = TraceEq nat | TypeEq nat | StatusEq nat | StartedFrom nat | StartedTo nat | NameLike nat

definition add_cond ::
    "bool \<Rightarrow> (nat \<Rightarrow> span_cond) \<Rightarrow> span_arg \<Rightarrow> span_cond list \<times> span_arg list \<times> nat \<Rightarrow> span_cond list \<times> span_arg list \<times> nat" where
  "add_cond asked mk arg q =
     (case q of (query, args, argIdx) \<Rightarrow> if asked then (query @ [mk argIdx], args @ [arg], argIdx + 1) else q)"

definition list_query :: "TraceFilter \<Rightarrow> span_cond list \<times> span_arg list" where
  "list_query f =
     (let q0 = ([], [], 1);
          q1 = add_cond (tf_TraceID f \<noteq> []) TraceEq (ArgText (tf_TraceID f)) q0;
          q2 = (case tf_Type f of None \<Rightarrow> q1 | Some ty \<Rightarrow> add_cond True TypeEq (ArgType ty) q1);
          q3 = (case tf_Status f of None \<Rightarrow> q2 | Some st \<Rightarrow> add_cond True StatusEq (ArgStatus st) q2);
          q4 = add_cond (tf_StartTime f \<noteq> 0) StartedFrom (ArgTime (tf_StartTime f)) q3;
          q5 = add_cond (tf_EndTime f \<noteq> 0) StartedTo (ArgTime (tf_EndTime f)) q4;
          (query, args, argIdx) =
            add_cond (tf_NameContains f \<noteq> []) NameLike (ArgText (''%'' @ escapeLike (tf_NameContains f) @ ''%'')) q5
      in (query, args))"

text \<open>What a condition says of a row; \<open>$n\<close> is the n-th argument, from 1.\<close>

fun cond_holds :: "(string \<Rightarrow> string \<Rightarrow> bool) \<Rightarrow> span_arg list \<Rightarrow> span_row \<Rightarrow> span_cond \<Rightarrow> bool" where
  "cond_holds like args r (TraceEq n) \<longleftrightarrow> ArgText (sr_trace_id r) = args ! (n - 1)"
| "cond_holds like args r (TypeEq n) \<longleftrightarrow> ArgType (sr_type r) = args ! (n - 1)"
| "cond_holds like args r (StatusEq n) \<longleftrightarrow> ArgStatus (sr_status r) = args ! (n - 1)"
| "cond_holds like args r (StartedFrom n) \<longleftrightarrow> (case args ! (n - 1) of ArgTime t \<Rightarrow> t \<le> sr_started_at r | _ \<Rightarrow> False)"
| "cond_holds like args r (StartedTo n) \<longleftrightarrow> (case args ! (n - 1) of ArgTime t \<Rightarrow> sr_started_at r \<le> t | _ \<Rightarrow> False)"
| "cond_holds like args r (NameLike n) \<longleftrightarrow> (case args ! (n - 1) of ArgText p \<Rightarrow> like p (sr_name r) | _ \<Rightarrow> False)"

fun scan_ids :: "pg_faults \<Rightarrow> nat \<Rightarrow> string list \<Rightarrow> go_error + string list" where
  "scan_ids flt i [] = (case pf_rows flt of Some err \<Rightarrow> Inl (ErrWrap ''iterate traces: '' err []) | None \<Rightarrow> Inr [])"
| "scan_ids flt i (x # xs) =
     (case pf_scan flt i of
        Some err \<Rightarrow> Inl err
      | None \<Rightarrow> (case scan_ids flt (Suc i) xs of Inl err \<Rightarrow> Inl err | Inr ids \<Rightarrow> Inr (x # ids)))"

definition pg_ListTraces ::
    "(string \<Rightarrow> string \<Rightarrow> bool) \<Rightarrow> pg_faults \<Rightarrow> span_row list \<Rightarrow> TraceFilter \<Rightarrow> go_error + string list" where
  "pg_ListTraces like flt t f =
     (case list_query f of (query, args) \<Rightarrow>
        (case pf_query flt of
           Some err \<Rightarrow> Inl err
         | None \<Rightarrow> scan_ids flt 0 (remdups (map sr_trace_id (filter (\<lambda>r. list_all (cond_holds like args r) query) t)))))"

subsection \<open>Patterns match exactly the texts that contain the filter's\<close>

definition escape_char :: "char \<Rightarrow> string" where
  "escape_char c = (if c = CHR 0x5C \<or> c = CHR ''%'' \<or> c = CHR ''_'' then [CHR 0x5C, c] else [c])"

lemma replace_char_append: "replace_char c new (xs @ ys) = replace_char c new xs @ replace_char c new ys"
  by (simp add: replace_char_def)

lemma escapeLike_chars: "escapeLike s = concat (map escape_char s)"
proof (induction s)
  case (Cons c s)
  have "escapeLike (c # s) = escapeLike [c] @ escapeLike s"
    using replace_char_append by (simp add: escapeLike_def Let_def replace_char_def)
  also have "escapeLike [c] = escape_char c"
    by (auto simp: escapeLike_def replace_char_def escape_char_def Let_def)
  finally show ?case using Cons by simp
qed (simp add: escapeLike_def replace_char_def)

lemma like_lawsD:
  assumes "like_laws like"
  shows "like [] s \<longleftrightarrow> s = []"
    and "like (CHR ''%'' # p) s \<longleftrightarrow> (\<exists>k\<le>length s. like p (drop k s))"
    and "like (CHR 0x5C # c # p) s \<longleftrightarrow> s \<noteq> [] \<and> hd s = c \<and> like p (tl s)"
    and "c \<notin> {CHR ''%'', CHR ''_'', CHR 0x5C} \<Longrightarrow> like (c # p) s \<longleftrightarrow> s \<noteq> [] \<and> hd s = c \<and> like p (tl s)"
proof -
  note l = assms [unfolded like_laws_def]
  show "like [] s \<longleftrightarrow> s = []" by (rule l [THEN conjunct1, THEN spec])
  note l = l [THEN conjunct2]
  show "like (CHR ''%'' # p) s \<longleftrightarrow> (\<exists>k\<le>length s. like p (drop k s))" by (rule l [THEN conjunct1, THEN spec, THEN spec])
  note l = l [THEN conjunct2, THEN conjunct2]
  show "like (CHR 0x5C # c # p) s \<longleftrightarrow> s \<noteq> [] \<and> hd s = c \<and> like p (tl s)"
    by (rule l [THEN conjunct1, THEN spec, THEN spec, THEN spec])
  show "c \<notin> {CHR ''%'', CHR ''_'', CHR 0x5C} \<Longrightarrow> like (c # p) s \<longleftrightarrow> s \<noteq> [] \<and> hd s = c \<and> like p (tl s)"
    by (rule l [THEN conjunct2, THEN spec, THEN spec, THEN spec, THEN mp])
qed

lemma like_escape_char:
  assumes "like_laws like"
  shows "like (escape_char c @ p) s \<longleftrightarrow> s \<noteq> [] \<and> hd s = c \<and> like p (tl s)"
proof (cases "c \<in> {CHR ''%'', CHR ''_'', CHR 0x5C}")
  case True
  then have "escape_char c @ p = CHR 0x5C # c # p" by (auto simp: escape_char_def)
  then show ?thesis by (simp only: like_lawsD(3) [OF assms])
next
  case False
  then have "escape_char c @ p = c # p" by (simp add: escape_char_def)
  then show ?thesis by (simp only: like_lawsD(4) [OF assms False])
qed

lemma has_prefix_Cons: "has_prefix s (c # t) \<longleftrightarrow> s \<noteq> [] \<and> hd s = c \<and> has_prefix (tl s) t"
  by (cases s) (auto simp: has_prefix_def)

lemma like_prefix:
  assumes "like_laws like"
  shows "like (escapeLike t @ ''%'') s \<longleftrightarrow> has_prefix s t"
proof (induction t arbitrary: s)
  case Nil
  have "like [] (drop (length s) s)" by (simp only: like_lawsD(1) [OF assms]) simp
  then have "like ''%'' s" unfolding like_lawsD(2) [OF assms] by blast
  then show ?case by (simp add: escapeLike_chars has_prefix_def)
next
  case (Cons c t)
  have "like (escapeLike (c # t) @ ''%'') s \<longleftrightarrow> s \<noteq> [] \<and> hd s = c \<and> like (escapeLike t @ ''%'') (tl s)"
    using like_escape_char [OF assms, of c "escapeLike t @ ''%''" s] by (simp add: escapeLike_chars)
  then show ?case using Cons by (simp add: has_prefix_Cons)
qed

lemma like_contains:
  assumes "like_laws like"
  shows "like (''%'' @ escapeLike t @ ''%'') s \<longleftrightarrow> str_contains s t"
proof -
  have "like (CHR ''%'' # escapeLike t @ ''%'') s \<longleftrightarrow> (\<exists>k\<le>length s. like (escapeLike t @ ''%'') (drop k s))"
    by (rule like_lawsD(2) [OF assms])
  then show ?thesis
    unfolding str_contains_def str_index_None like_prefix [OF assms] by auto
qed

subsection \<open>The store's contents\<close>

fun pg_record_all :: "span list \<Rightarrow> span_row list \<Rightarrow> span_row list" where
  "pg_record_all [] t = t"
| "pg_record_all (sp # sps) t = pg_record_all sps (snd (pg_RecordSpan None sp t))"

definition span_of :: "span_row \<Rightarrow> span" where
  "span_of r = \<lparr>sp_ID = sr_id r, sp_TraceID = sr_trace_id r, sp_ParentID = (case sr_parent_id r of None \<Rightarrow> [] | Some p \<Rightarrow> p),
     sp_Type = sr_type r, sp_Name = sr_name r, sp_Status = sr_status r,
     sp_Error = (case sr_error r of None \<Rightarrow> [] | Some e \<Rightarrow> e), sp_StartedAt = sr_started_at r, sp_Duration = sr_duration_ns r\<rparr>"

lemma span_of_fields [simp]:
  "sp_TraceID (span_of r) = sr_trace_id r" "sp_StartedAt (span_of r) = sr_started_at r" "sp_Type (span_of r) = sr_type r"
  "sp_Status (span_of r) = sr_status r" "sp_Name (span_of r) = sr_name r" "sp_ID (span_of r) = sr_id r"
  by (simp_all add: span_of_def)

lemma record_all_spans:
  assumes "distinct (map sp_ID sps)" and "\<forall>sp\<in>set sps. sp_ID sp \<notin> sr_id ` set t"
  shows "map span_of (pg_record_all sps t) = map span_of t @ sps"
  using assms
proof (induction sps arbitrary: t)
  case (Cons sp sps)
  have "\<not> list_ex (\<lambda>r. sr_id r = sp_ID sp) t" using Cons.prems(2) by (simp add: list_ex_iff) (metis imageI)
  then obtain row where row: "snd (pg_RecordSpan None sp t) = t @ [row]" "span_of row = sp" "sr_id row = sp_ID sp"
    by (simp add: pg_RecordSpan_def span_of_def)
  have "\<forall>sp'\<in>set sps. sp_ID sp' \<notin> sr_id ` set (t @ [row])" using Cons.prems row(3) by simp (metis imageI)
  then show ?case using Cons.IH [of "t @ [row]"] Cons.prems(1) row by simp
qed simp

lemma scan_spans_ok: "scan_spans no_faults i rows = Inr (map span_of rows)"
  by (induction rows arbitrary: i) (simp_all add: span_of_def Let_def)

lemma sort_key_map: "map f (sort_key (\<lambda>x. k (f x)) xs) = sort_key k (map f xs)"
proof (induction xs)
  case (Cons x xs)
  have "map f (insort_key (\<lambda>x. k (f x)) x ys) = insort_key k (f x) (map f ys)" for ys
    by (induction ys) auto
  then show ?case using Cons by simp
qed simp

lemma sort_key_Nil: "sort_key k xs = [] \<longleftrightarrow> xs = []"
  by (metis length_0_conv length_sort)

lemma filter_span_of: "map span_of (filter (\<lambda>r. P (span_of r)) t) = filter P (map span_of t)"
  by (simp add: filter_map o_def)

text \<open>
  Spans are stored without loss: after spans with distinct ids are recorded, a trace's spans are read
  back exactly as they were recorded, ordered by their start, and a trace without a span is not found.
\<close>

theorem pg_trace_roundtrip:
  assumes "distinct (map sp_ID sps)"
  shows "pg_GetTrace no_faults (pg_record_all sps []) t =
    (let found = sort_key sp_StartedAt (filter (\<lambda>sp. sp_TraceID sp = t) sps)
     in if found = [] then Inl (ErrWrap (''trace '' @ t @ '': '') ErrNotFound []) else Inr found)"
proof -
  let ?rows = "pg_record_all sps []"
  let ?sel = "sort_key sr_started_at (filter (\<lambda>r. sr_trace_id r = t) ?rows)"
  have "map span_of ?rows = sps" using record_all_spans [OF assms, of "[]"] by simp
  then have "map span_of (filter (\<lambda>r. sr_trace_id r = t) ?rows) = filter (\<lambda>sp. sp_TraceID sp = t) sps"
    using filter_span_of [of "\<lambda>sp. sp_TraceID sp = t" ?rows] by simp
  then have sel: "map span_of ?sel = sort_key sp_StartedAt (filter (\<lambda>sp. sp_TraceID sp = t) sps)"
    using sort_key_map [of span_of sp_StartedAt "filter (\<lambda>r. sr_trace_id r = t) ?rows"] by simp
  show ?thesis
    unfolding pg_GetTrace_def scan_spans_ok no_faults_simps sel by (simp add: Let_def sort_key_Nil)
qed

subsection \<open>Listing traces\<close>

text \<open>A span that satisfies every condition of the filter by itself.\<close>

definition span_matches :: "TraceFilter \<Rightarrow> span \<Rightarrow> bool" where
  "span_matches f sp \<longleftrightarrow>
     (tf_TraceID f = [] \<or> sp_TraceID sp = tf_TraceID f) \<and>
     (tf_Type f = None \<or> Some (sp_Type sp) = tf_Type f) \<and>
     (tf_Status f = None \<or> Some (sp_Status sp) = tf_Status f) \<and>
     (tf_StartTime f = 0 \<or> tf_StartTime f \<le> sp_StartedAt sp) \<and>
     (tf_EndTime f = 0 \<or> sp_StartedAt sp \<le> tf_EndTime f) \<and>
     (tf_NameContains f = [] \<or> str_contains (sp_Name sp) (tf_NameContains f))"

text \<open>Every placeholder of the built query is the number of its own argument.\<close>

definition query_ok :: "(string \<Rightarrow> string \<Rightarrow> bool) \<Rightarrow> (span_row \<Rightarrow> bool) \<Rightarrow> span_cond list \<times> span_arg list \<times> nat \<Rightarrow> bool" where
  "query_ok like P q \<longleftrightarrow>
     (case q of (query, args, argIdx) \<Rightarrow> argIdx = length args + 1 \<and>
        (\<forall>r more. list_all (cond_holds like (args @ more) r) query \<longleftrightarrow> P r))"

lemma query_ok_add:
  assumes "query_ok like P q"
    and "\<And>r args more. cond_holds like (args @ arg # more) r (mk (length args + 1)) \<longleftrightarrow> Q r"
  shows "query_ok like (\<lambda>r. P r \<and> (asked \<longrightarrow> Q r)) (add_cond asked mk arg q)"
proof -
  obtain query args argIdx where q: "q = (query, args, argIdx)" by (cases q)
  have "list_all (cond_holds like (args @ more) r) query \<longleftrightarrow> P r" for r more
    using assms(1) q by (simp add: query_ok_def)
  then show ?thesis
    using assms q by (cases asked) (simp_all add: query_ok_def add_cond_def)
qed

lemma query_ok_option:
  assumes "query_ok like P q"
    and "\<And>x r args more. cond_holds like (args @ mkarg x # more) r (mk (length args + 1)) \<longleftrightarrow> g r = x"
  shows "query_ok like (\<lambda>r. P r \<and> (opt = None \<or> Some (g r) = opt))
    (case opt of None \<Rightarrow> q | Some x \<Rightarrow> add_cond True mk (mkarg x) q)"
proof (cases opt)
  case None
  then show ?thesis using assms(1) by simp
next
  case (Some x)
  then show ?thesis
    using query_ok_add [OF assms(1), of "mkarg x" mk "\<lambda>r. g r = x" True] assms(2) by simp
qed

lemma list_query_ok:
  assumes "like_laws like" and "list_query f = (query, args)"
  shows "list_all (cond_holds like args r) query \<longleftrightarrow> span_matches f (span_of r)"
proof -
  define q0 :: "span_cond list \<times> span_arg list \<times> nat" where "q0 = ([], [], 1)"
  define q1 where "q1 = add_cond (tf_TraceID f \<noteq> []) TraceEq (ArgText (tf_TraceID f)) q0"
  define q2 where "q2 = (case tf_Type f of None \<Rightarrow> q1 | Some ty \<Rightarrow> add_cond True TypeEq (ArgType ty) q1)"
  define q3 where "q3 = (case tf_Status f of None \<Rightarrow> q2 | Some st \<Rightarrow> add_cond True StatusEq (ArgStatus st) q2)"
  define q4 where "q4 = add_cond (tf_StartTime f \<noteq> 0) StartedFrom (ArgTime (tf_StartTime f)) q3"
  define q5 where "q5 = add_cond (tf_EndTime f \<noteq> 0) StartedTo (ArgTime (tf_EndTime f)) q4"
  define q6 where "q6 = add_cond (tf_NameContains f \<noteq> []) NameLike (ArgText (''%'' @ escapeLike (tf_NameContains f) @ ''%'')) q5"
  have "query_ok like (\<lambda>r. True) q0" by (simp add: query_ok_def q0_def)
  then have "query_ok like (\<lambda>r. True \<and> (tf_TraceID f \<noteq> [] \<longrightarrow> sr_trace_id r = tf_TraceID f)) q1"
    unfolding q1_def by (rule query_ok_add) auto
  then have "query_ok like (\<lambda>r. (True \<and> (tf_TraceID f \<noteq> [] \<longrightarrow> sr_trace_id r = tf_TraceID f)) \<and>
      (tf_Type f = None \<or> Some (sr_type r) = tf_Type f)) q2"
    unfolding q2_def by (rule query_ok_option) auto
  then have "query_ok like (\<lambda>r. ((True \<and> (tf_TraceID f \<noteq> [] \<longrightarrow> sr_trace_id r = tf_TraceID f)) \<and>
      (tf_Type f = None \<or> Some (sr_type r) = tf_Type f)) \<and> (tf_Status f = None \<or> Some (sr_status r) = tf_Status f)) q3"
    unfolding q3_def by (rule query_ok_option) auto
  from query_ok_add [OF this, of "ArgTime (tf_StartTime f)" StartedFrom "\<lambda>r. tf_StartTime f \<le> sr_started_at r" "tf_StartTime f \<noteq> 0"]
  have "query_ok like (\<lambda>r. (((True \<and> (tf_TraceID f \<noteq> [] \<longrightarrow> sr_trace_id r = tf_TraceID f)) \<and>
      (tf_Type f = None \<or> Some (sr_type r) = tf_Type f)) \<and> (tf_Status f = None \<or> Some (sr_status r) = tf_Status f)) \<and>
      (tf_StartTime f \<noteq> 0 \<longrightarrow> tf_StartTime f \<le> sr_started_at r)) q4"
    unfolding q4_def by simp
  from query_ok_add [OF this, of "ArgTime (tf_EndTime f)" StartedTo "\<lambda>r. sr_started_at r \<le> tf_EndTime f" "tf_EndTime f \<noteq> 0"]
  have "query_ok like (\<lambda>r. ((((True \<and> (tf_TraceID f \<noteq> [] \<longrightarrow> sr_trace_id r = tf_TraceID f)) \<and>
      (tf_Type f = None \<or> Some (sr_type r) = tf_Type f)) \<and> (tf_Status f = None \<or> Some (sr_status r) = tf_Status f)) \<and>
      (tf_StartTime f \<noteq> 0 \<longrightarrow> tf_StartTime f \<le> sr_started_at r)) \<and> (tf_EndTime f \<noteq> 0 \<longrightarrow> sr_started_at r \<le> tf_EndTime f)) q5"
    unfolding q5_def by simp
  from query_ok_add [OF this, of "ArgText (''%'' @ escapeLike (tf_NameContains f) @ ''%'')" NameLike
      "\<lambda>r. str_contains (sr_name r) (tf_NameContains f)" "tf_NameContains f \<noteq> []"]
  have q6: "query_ok like (\<lambda>r. span_matches f (span_of r)) q6"
    unfolding q6_def by (simp add: like_contains [OF assms(1), simplified] span_matches_def disj_imp conj_assoc)
  have "(case q6 of (query, args, argIdx) \<Rightarrow> (query, args)) = (query, args)"
    using assms(2) unfolding list_query_def Let_def q0_def q1_def q2_def q3_def q4_def q5_def q6_def .
  then obtain n where "q6 = (query, args, n)" by (cases q6) simp
  then have "list_all (cond_holds like (args @ []) r) query \<longleftrightarrow> span_matches f (span_of r)"
    using q6 unfolding query_ok_def by blast
  then show ?thesis by simp
qed

lemma scan_ids_ok: "scan_ids no_faults i ids = Inr ids"
  by (induction ids arbitrary: i) simp_all

lemma pg_ListTraces_set:
  assumes "distinct (map sp_ID sps)" and "like_laws like"
  shows "\<exists>ids. pg_ListTraces like no_faults (pg_record_all sps []) f = Inr ids \<and> distinct ids \<and>
    set ids = sp_TraceID ` {sp \<in> set sps. span_matches f sp}"
proof -
  let ?t = "pg_record_all sps []"
  obtain query args where q: "list_query f = (query, args)" by (cases "list_query f")
  let ?sel = "filter (\<lambda>r. list_all (cond_holds like args r) query) ?t"
  have "map span_of ?t = sps" using record_all_spans [OF assms(1), of "[]"] by simp
  moreover have "map span_of ?sel = filter (span_matches f) (map span_of ?t)"
    unfolding list_query_ok [OF assms(2) q] by (rule filter_span_of)
  ultimately have sel: "map span_of ?sel = filter (span_matches f) sps" by simp
  have "map sr_trace_id ?sel = map sp_TraceID (map span_of ?sel)" by simp
  then have "map sr_trace_id ?sel = map sp_TraceID (filter (span_matches f) sps)" unfolding sel .
  then have "set (map sr_trace_id ?sel) = sp_TraceID ` {sp \<in> set sps. span_matches f sp}" by simp
  then show ?thesis
    using q by (intro exI [of _ "remdups (map sr_trace_id ?sel)"]) (simp add: pg_ListTraces_def scan_ids_ok)
qed

text \<open>
  C29.  The built query lists exactly the traces with a span that satisfies the whole filter: every
  placeholder has its own argument, and the escaped pattern matches exactly the names that contain the
  filter's text, wildcards included; each trace is listed once.
\<close>

theorem pg_list_traces_correct:
  assumes "distinct (map sp_ID sps)" and "like_laws like"
  shows "\<exists>ids. pg_ListTraces like no_faults (pg_record_all sps []) f = Inr ids \<and> distinct ids \<and>
    set ids = sp_TraceID ` {sp \<in> set sps. span_matches f sp}"
  by (rule pg_ListTraces_set [OF assms])

lemma span_matches_filter:
  "span_matches f sp \<Longrightarrow> sp \<in> set sps \<Longrightarrow> matchesFilter sps f"
  by (auto simp: span_matches_def matchesFilter_def list_ex_iff not_less)

definition two_spans :: "span list" where
  "two_spans =
     [\<lparr>sp_ID = ''1'', sp_TraceID = ''a'', sp_ParentID = [], sp_Type = SpanTypeCommand, sp_Name = ''Pay'',
       sp_Status = SpanStatusSuccess, sp_Error = [], sp_StartedAt = 5, sp_Duration = 1\<rparr>,
      \<lparr>sp_ID = ''2'', sp_TraceID = ''a'', sp_ParentID = ''1'', sp_Type = SpanTypeQuery, sp_Name = ''Find'',
       sp_Status = SpanStatusError, sp_Error = ''no'', sp_StartedAt = 6, sp_Duration = 1\<rparr>]"

definition failed_commands :: TraceFilter where
  "failed_commands = \<lparr>tf_TraceID = [], tf_Type = Some SpanTypeCommand, tf_Status = Some SpanStatusError,
     tf_StartTime = 0, tf_EndTime = 0, tf_NameContains = []\<rparr>"

text \<open>
  The two trace stores read a filter differently.  With the same spans the PostgreSQL store lists no
  trace that the in-memory store does not, but it asks for one span with all the properties, where the
  in-memory store is content with different spans of the trace for each: a trace with a successful command
  and a failed query is a failed command for the in-memory store only.
\<close>

theorem trace_filters_differ:
  assumes "like_laws like"
  shows "(\<forall>s f ids. ts_ok s \<and> distinct (map sp_ID (ts_spans s)) \<and>
            pg_ListTraces like no_faults (pg_record_all (ts_spans s) []) f = Inr ids \<longrightarrow> set ids \<subseteq> set (ts_ListTraces s f)) \<and>
    (\<exists>s. ts_run (NewInMemoryTraceStore []) [(7, two_spans ! 0), (8, two_spans ! 1)] = Ret s \<and>
       ts_ListTraces s failed_commands = [''a''] \<and>
       pg_ListTraces like no_faults (pg_record_all two_spans []) failed_commands = Inr [])"
proof (intro conjI allI impI)
  fix s f ids
  assume h: "ts_ok s \<and> distinct (map sp_ID (ts_spans s)) \<and> pg_ListTraces like no_faults (pg_record_all (ts_spans s) []) f = Inr ids"
  then have ids: "set ids = sp_TraceID ` {sp \<in> set (ts_spans s). span_matches f sp}"
    using pg_ListTraces_set [of "ts_spans s" like f] assms by auto
  show "set ids \<subseteq> set (ts_ListTraces s f)"
  proof
    fix t assume "t \<in> set ids"
    then obtain sp where sp: "sp \<in> set (ts_spans s)" "span_matches f sp" "t = sp_TraceID sp" using ids by auto
    then have "matchesFilter (filter (\<lambda>sp. sp_TraceID sp = t) (ts_spans s)) f"
      by (intro span_matches_filter [of f sp]) simp_all
    then show "t \<in> set (ts_ListTraces s f)"
      using ListTraces_correct [of s f] h sp by (auto simp: span_matches_def)
  qed
next
  have "\<exists>s. ts_run (NewInMemoryTraceStore []) [(7, two_spans ! 0), (8, two_spans ! 1)] = Ret s \<and>
       ts_ListTraces s failed_commands = [''a'']"
    by (simp add: NewInMemoryTraceStore_def ts_RecordSpan_def ts_evict_def two_spans_def defaultTTL_def Let_def
        ts_ListTraces_def failed_commands_def matchesFilter_def gm_put_def gm_get_def)
  moreover obtain ids where ids: "pg_ListTraces like no_faults (pg_record_all two_spans []) failed_commands = Inr ids"
      "set ids = sp_TraceID ` {sp \<in> set two_spans. span_matches failed_commands sp}"
    using pg_ListTraces_set [of two_spans like failed_commands] assms by (auto simp: two_spans_def)
  moreover have "{sp \<in> set two_spans. span_matches failed_commands sp} = {}"
    by (auto simp: two_spans_def failed_commands_def span_matches_def)
  ultimately show "\<exists>s. ts_run (NewInMemoryTraceStore []) [(7, two_spans ! 0), (8, two_spans ! 1)] = Ret s \<and>
       ts_ListTraces s failed_commands = [''a''] \<and>
       pg_ListTraces like no_faults (pg_record_all two_spans []) failed_commands = Inr []"
    by simp
qed

subsection \<open>Witnesses\<close>

text \<open>A LIKE that has the laws.\<close>

fun sample_like :: "string \<Rightarrow> string \<Rightarrow> bool" where
  "sample_like [] s \<longleftrightarrow> s = []"
| "sample_like (c # p) s \<longleftrightarrow>
     (if c = CHR ''%'' then list_ex (\<lambda>k. sample_like p (drop k s)) [0..<Suc (length s)]
      else if c = CHR ''_'' then s \<noteq> [] \<and> sample_like p (tl s)
      else if c = CHR 0x5C then (case p of [] \<Rightarrow> False | d # p' \<Rightarrow> s \<noteq> [] \<and> hd s = d \<and> sample_like p' (tl s))
      else s \<noteq> [] \<and> hd s = c \<and> sample_like p (tl s))"

lemma sample_like_laws: "like_laws sample_like"
  unfolding like_laws_def by (auto simp: list_ex_iff less_Suc_eq_le simp del: upt_Suc)

lemma two_spans_distinct: "distinct (map sp_ID two_spans)"
  by (simp add: two_spans_def)

theorem pg_trace_roundtrip_witness:
  "pg_GetTrace no_faults (pg_record_all two_spans []) ''a'' = Inr two_spans"
  using pg_trace_roundtrip [OF two_spans_distinct, of "''a''"] by (simp add: two_spans_def)

theorem pg_list_traces_correct_witness:
  "\<exists>ids. pg_ListTraces sample_like no_faults (pg_record_all two_spans []) (failed_commands\<lparr>tf_Status := None\<rparr>) = Inr ids \<and> set ids = {''a''}"
proof -
  have "sp_TraceID ` set (filter (span_matches (failed_commands\<lparr>tf_Status := None\<rparr>)) two_spans) = {''a''}"
    by (simp add: two_spans_def failed_commands_def span_matches_def)
  then have "sp_TraceID ` {sp \<in> set two_spans. span_matches (failed_commands\<lparr>tf_Status := None\<rparr>) sp} = {''a''}"
    unfolding set_filter .
  then show ?thesis
    using pg_list_traces_correct [OF two_spans_distinct sample_like_laws, of "failed_commands\<lparr>tf_Status := None\<rparr>"] by auto
qed

theorem trace_filters_differ_witness:
  "pg_ListTraces sample_like no_faults (pg_record_all two_spans []) failed_commands = Inr []"
  using trace_filters_differ [OF sample_like_laws] by blast

end
