(* ===== verification/PgMessages.thy ===== *)
theory PgMessages
  imports MessageStores PgUtil
begin

text \<open>
  The PostgreSQL message log: the inserts of \<open>aspect/builtin/pg/message_store.go\<close> and the queries of
  \<open>observability/pg/message_reader.go\<close> over the log tables of \<open>pg/migrate.go\<close>, as rows in the order of
  insertion, which also decides ties of an ORDER BY.  A JSON column keeps a text that is valid JSON in its
  normal form: the argument \<open>jsonb\<close> gives that form, None for an invalid text.  No JSON (a nil
  \<open>json.RawMessage\<close>) is the empty text, a NULL in the column.
\<close>

record command_row =
  cl_trace_id :: "string option"
  cl_span_id :: "string option"
  cl_command_type :: string
  cl_command_data :: "string option"
  cl_result_type :: "string option"
  cl_result_data :: "string option"
  cl_error :: "string option"
  cl_duration_ns :: "int option"
  cl_created_at :: time

record query_row =
  ql_trace_id :: "string option"
  ql_span_id :: "string option"
  ql_query_type :: string
  ql_query_data :: string
  ql_result_type :: "string option"
  ql_result_data :: "string option"
  ql_error :: "string option"
  ql_duration_ns :: "int option"
  ql_created_at :: time

record event_row =
  el_trace_id :: "string option"
  el_span_id :: "string option"
  el_aggregate_id :: string
  el_event_type :: string
  el_event_data :: string
  el_handler_count :: "int option"
  el_error :: "string option"
  el_duration_ns :: "int option"
  el_created_at :: time

record handler_row =
  hl_trace_id :: "string option"
  hl_span_id :: "string option"
  hl_aggregate_id :: string
  hl_event_type :: string
  hl_handler_type :: string
  hl_status :: string
  hl_error :: "string option"
  hl_duration_ns :: "int option"
  hl_created_at :: time

record message_tables =
  mt_commands :: "command_row list"
  mt_queries :: "query_row list"
  mt_events :: "event_row list"
  mt_handlers :: "handler_row list"

definition empty_tables :: message_tables where
  "empty_tables = \<lparr>mt_commands = [], mt_queries = [], mt_events = [], mt_handlers = []\<rparr>"

subsection \<open>Recording\<close>

text \<open>What the database makes of the JSON arguments: a nullable column, and one declared NOT NULL.\<close>

definition invalid_json :: go_error where
  "invalid_json = ErrText ''invalid input syntax for type json''"

definition null_violation :: go_error where
  "null_violation = ErrText ''null value in column violates not-null constraint''"

definition json_column :: "(string \<Rightarrow> string option) \<Rightarrow> string \<Rightarrow> go_error + string option" where
  "json_column jsonb d =
     (if d = [] then Inr None else case jsonb d of None \<Rightarrow> Inl invalid_json | Some v \<Rightarrow> Inr (Some v))"

definition json_column_not_null :: "(string \<Rightarrow> string option) \<Rightarrow> string \<Rightarrow> go_error + string" where
  "json_column_not_null jsonb d =
     (if d = [] then Inl null_violation else case jsonb d of None \<Rightarrow> Inl invalid_json | Some v \<Rightarrow> Inr v)"

definition pg_RecordCommand ::
    "(string \<Rightarrow> string option) \<Rightarrow> go_error option \<Rightarrow> CommandEntry \<Rightarrow> message_tables \<Rightarrow> go_error option \<times> message_tables" where
  "pg_RecordCommand jsonb flt entry t =
     (case flt of
        Some err \<Rightarrow> (Some err, t)
      | None \<Rightarrow>
          (case json_column jsonb (ce_CommandData entry) of
             Inl err \<Rightarrow> (Some err, t)
           | Inr data \<Rightarrow>
               (case json_column jsonb (ce_ResultData entry) of
                  Inl err \<Rightarrow> (Some err, t)
                | Inr result \<Rightarrow>
                    (None, t\<lparr>mt_commands := mt_commands t @
                       [\<lparr>cl_trace_id = Some (ce_TraceID entry), cl_span_id = Some (ce_SpanID entry),
                         cl_command_type = ce_CommandType entry, cl_command_data = data,
                         cl_result_type = NullString (ce_ResultType entry), cl_result_data = result,
                         cl_error = NullString (ce_Error entry), cl_duration_ns = Some (ce_Duration entry),
                         cl_created_at = ce_CreatedAt entry\<rparr>]\<rparr>))))"

definition pg_RecordQuery ::
    "(string \<Rightarrow> string option) \<Rightarrow> go_error option \<Rightarrow> QueryEntry \<Rightarrow> message_tables \<Rightarrow> go_error option \<times> message_tables" where
  "pg_RecordQuery jsonb flt entry t =
     (case flt of
        Some err \<Rightarrow> (Some err, t)
      | None \<Rightarrow>
          (case json_column_not_null jsonb (qe_QueryData entry) of
             Inl err \<Rightarrow> (Some err, t)
           | Inr data \<Rightarrow>
               (case json_column jsonb (qe_ResultData entry) of
                  Inl err \<Rightarrow> (Some err, t)
                | Inr result \<Rightarrow>
                    (None, t\<lparr>mt_queries := mt_queries t @
                       [\<lparr>ql_trace_id = Some (qe_TraceID entry), ql_span_id = Some (qe_SpanID entry),
                         ql_query_type = qe_QueryType entry, ql_query_data = data,
                         ql_result_type = NullString (qe_ResultType entry), ql_result_data = result,
                         ql_error = NullString (qe_Error entry), ql_duration_ns = Some (qe_Duration entry),
                         ql_created_at = qe_CreatedAt entry\<rparr>]\<rparr>))))"

definition pg_RecordEvent ::
    "(string \<Rightarrow> string option) \<Rightarrow> go_error option \<Rightarrow> EventEntry \<Rightarrow> message_tables \<Rightarrow> go_error option \<times> message_tables" where
  "pg_RecordEvent jsonb flt entry t =
     (case flt of
        Some err \<Rightarrow> (Some err, t)
      | None \<Rightarrow>
          (case json_column_not_null jsonb (ee_EventData entry) of
             Inl err \<Rightarrow> (Some err, t)
           | Inr data \<Rightarrow>
               (None, t\<lparr>mt_events := mt_events t @
                  [\<lparr>el_trace_id = Some (ee_TraceID entry), el_span_id = Some (ee_SpanID entry),
                    el_aggregate_id = ee_AggregateID entry, el_event_type = ee_EventType entry, el_event_data = data,
                    el_handler_count = Some (ee_HandlerCount entry), el_error = NullString (ee_Error entry),
                    el_duration_ns = Some (ee_Duration entry), el_created_at = ee_CreatedAt entry\<rparr>]\<rparr>)))"

definition pg_RecordEventHandler ::
    "go_error option \<Rightarrow> EventHandlerEntry \<Rightarrow> message_tables \<Rightarrow> go_error option \<times> message_tables" where
  "pg_RecordEventHandler flt entry t =
     (case flt of
        Some err \<Rightarrow> (Some err, t)
      | None \<Rightarrow>
          (None, t\<lparr>mt_handlers := mt_handlers t @
             [\<lparr>hl_trace_id = Some (eh_TraceID entry), hl_span_id = Some (eh_SpanID entry),
               hl_aggregate_id = eh_AggregateID entry, hl_event_type = eh_EventType entry,
               hl_handler_type = eh_HandlerType entry, hl_status = eh_Status entry, hl_error = NullString (eh_Error entry),
               hl_duration_ns = Some (eh_Duration entry), hl_created_at = eh_CreatedAt entry\<rparr>]\<rparr>))"

subsection \<open>The WHERE clause\<close>

text \<open>
  A condition of the clause: a text column or the creation time against the placeholder \<open>$n\<close>, or one of
  the two fixed conditions on the error column.
\<close>

datatype sql_arg = ArgStr string | ArgTime time | ArgInt int

datatype sql_cond = ColumnEq string nat | ErrorPresent | ErrorAbsent | CreatedSince nat

fun cond_text :: "sql_cond \<Rightarrow> string" where
  "cond_text (ColumnEq c n) = c @ '' = $'' @ show_int (int n)"
| "cond_text ErrorPresent = ''(error IS NOT NULL AND error != '' @ [CHR 0x27, CHR 0x27] @ '')''"
| "cond_text ErrorAbsent = ''(error IS NULL OR error = '' @ [CHR 0x27, CHR 0x27] @ '')''"
| "cond_text (CreatedSince n) = ''created_at >= $'' @ show_int (int n)"

fun where_parts :: "(string \<times> string) list \<Rightarrow> sql_cond list \<times> sql_arg list \<times> nat \<Rightarrow> sql_cond list \<times> sql_arg list \<times> nat" where
  "where_parts [] acc = acc"
| "where_parts ((column, value) # parts) (conds, args, idx) =
     (if value \<noteq> [] then where_parts parts (conds @ [ColumnEq column idx], args @ [ArgStr value], idx + 1)
      else where_parts parts (conds, args, idx))"

definition buildWhereClause :: "(string \<times> string) list \<Rightarrow> string \<Rightarrow> time \<Rightarrow> sql_cond list \<times> sql_arg list" where
  "buildWhereClause parts status since =
     (case where_parts parts ([], [], 1) of
        (conds, args, idx) \<Rightarrow>
          (let conds1 = (if status = ''error'' then conds @ [ErrorPresent]
                         else if status = ''success'' then conds @ [ErrorAbsent] else conds)
           in if since \<noteq> 0 then (conds1 @ [CreatedSince idx], args @ [ArgTime since]) else (conds1, args)))"

definition where_text :: "sql_cond list \<Rightarrow> string" where
  "where_text conds = (if length conds = 0 then [] else '' WHERE '' @ join_with '' AND '' (map cond_text conds))"

text \<open>
  What a row satisfies: \<open>col\<close> gives its text columns, None a NULL, which no comparison accepts.
\<close>

fun row_satisfies :: "('r \<Rightarrow> string \<Rightarrow> string option) \<Rightarrow> ('r \<Rightarrow> string option) \<Rightarrow> ('r \<Rightarrow> time) \<Rightarrow> sql_arg list \<Rightarrow> 'r \<Rightarrow> sql_cond \<Rightarrow> bool" where
  "row_satisfies col err created args r (ColumnEq c n) \<longleftrightarrow>
     (case col r c of None \<Rightarrow> False | Some v \<Rightarrow> args ! (n - 1) = ArgStr v)"
| "row_satisfies col err created args r ErrorPresent \<longleftrightarrow> (case err r of None \<Rightarrow> False | Some e \<Rightarrow> e \<noteq> [])"
| "row_satisfies col err created args r ErrorAbsent \<longleftrightarrow> (case err r of None \<Rightarrow> True | Some e \<Rightarrow> e = [])"
| "row_satisfies col err created args r (CreatedSince n) \<longleftrightarrow>
     (case args ! (n - 1) of ArgTime t \<Rightarrow> t \<le> created r | _ \<Rightarrow> False)"

subsection \<open>The queries\<close>

text \<open>
  Faults: of the COUNT, of the query, of the i-th \<open>Scan\<close>, of \<open>rows.Err\<close>.  The COUNT, then the page:
  ORDER BY \<open>created_at\<close> DESC, with the limit and the offset in the last two arguments; the database rejects a
  negative OFFSET.
\<close>

fun scan_log :: "pg_faults \<Rightarrow> string \<Rightarrow> ('r \<Rightarrow> 'e) \<Rightarrow> nat \<Rightarrow> 'r list \<Rightarrow> go_error + 'e list" where
  "scan_log flt what read i [] = (case pf_rows flt of Some err \<Rightarrow> Inl err | None \<Rightarrow> Inr [])"
| "scan_log flt what read i (r # rows) =
     (case pf_scan flt i of
        Some err \<Rightarrow> Inl (ErrWrap (''scan '' @ what @ '': '') err [])
      | None \<Rightarrow>
          (case scan_log flt what read (Suc i) rows of Inl err \<Rightarrow> Inl err | Inr items \<Rightarrow> Inr (read r # items)))"

fun int_arg :: "sql_arg \<Rightarrow> int" where
  "int_arg (ArgInt n) = n"
| "int_arg (ArgStr s) = 0"
| "int_arg (ArgTime t) = 0"

definition sql_page :: "sql_arg list \<Rightarrow> nat \<Rightarrow> nat \<Rightarrow> 'r list \<Rightarrow> go_error + 'r list" where
  "sql_page args limit_n offset_n rows =
     (let limit = int_arg (args ! (limit_n - 1)); offset = int_arg (args ! (offset_n - 1))
      in if offset < 0 then Inl (ErrText ''OFFSET must not be negative'')
         else Inr (take (nat limit) (drop (nat offset) rows)))"

definition query_log ::
    "pg_faults \<Rightarrow> go_error option \<Rightarrow> string \<Rightarrow> string \<Rightarrow> ('r \<Rightarrow> string \<Rightarrow> string option) \<Rightarrow> ('r \<Rightarrow> string option) \<Rightarrow>
     ('r \<Rightarrow> time) \<Rightarrow> ('r \<Rightarrow> 'e) \<Rightarrow> sql_cond list \<times> sql_arg list \<Rightarrow> MessageFilter \<Rightarrow> 'r list \<Rightarrow> go_error + 'e QueryResult" where
  "query_log flt count_fault what whats col err created read clause filter1 table =
     (case clause of (conds, args) \<Rightarrow>
        (case count_fault of
           Some e \<Rightarrow> Inl (ErrWrap (''count '' @ whats @ '': '') e [])
         | None \<Rightarrow>
             (let selected = filter (\<lambda>r. list_all (row_satisfies col err created args r) conds) table;
                  total = length selected;
                  limit = (if mf_Limit filter1 \<le> 0 then 100 else mf_Limit filter1);
                  offset = mf_Offset filter1;
                  queryArgs = args @ [ArgInt limit, ArgInt offset]
              in case pf_query flt of
                   Some e \<Rightarrow> Inl (ErrWrap (''query '' @ whats @ '': '') e [])
                 | None \<Rightarrow>
                     (case sql_page queryArgs (length queryArgs - 1) (length queryArgs)
                             (sort_key (\<lambda>r. - created r)
                                (filter (\<lambda>r. list_all (row_satisfies col err created queryArgs r) conds) table)) of
                        Inl e \<Rightarrow> Inl (ErrWrap (''query '' @ whats @ '': '') e [])
                      | Inr rows \<Rightarrow>
                          (case scan_log flt what read 0 rows of
                             Inl e \<Rightarrow> Inl e
                           | Inr items \<Rightarrow> Inr \<lparr>qr_Items = items, qr_Total = total\<rparr>)))))"

text \<open>A NULL reads as the empty text, no data and a zero duration.\<close>

definition text_of :: "string option \<Rightarrow> string" where
  "text_of c = (case c of None \<Rightarrow> [] | Some s \<Rightarrow> s)"

definition int_of :: "int option \<Rightarrow> int" where
  "int_of c = (case c of None \<Rightarrow> 0 | Some n \<Rightarrow> n)"

definition command_of :: "command_row \<Rightarrow> CommandEntry" where
  "command_of r =
     \<lparr>ce_TraceID = text_of (cl_trace_id r), ce_SpanID = text_of (cl_span_id r), ce_CommandType = cl_command_type r,
      ce_CommandData = text_of (cl_command_data r), ce_ResultType = text_of (cl_result_type r),
      ce_ResultData = text_of (cl_result_data r), ce_Error = text_of (cl_error r),
      ce_Duration = int_of (cl_duration_ns r), ce_CreatedAt = cl_created_at r\<rparr>"

definition query_of :: "query_row \<Rightarrow> QueryEntry" where
  "query_of r =
     \<lparr>qe_TraceID = text_of (ql_trace_id r), qe_SpanID = text_of (ql_span_id r), qe_QueryType = ql_query_type r,
      qe_QueryData = ql_query_data r, qe_ResultType = text_of (ql_result_type r),
      qe_ResultData = text_of (ql_result_data r), qe_Error = text_of (ql_error r),
      qe_Duration = int_of (ql_duration_ns r), qe_CreatedAt = ql_created_at r\<rparr>"

definition event_of :: "event_row \<Rightarrow> EventEntry" where
  "event_of r =
     \<lparr>ee_TraceID = text_of (el_trace_id r), ee_SpanID = text_of (el_span_id r), ee_AggregateID = el_aggregate_id r,
      ee_EventType = el_event_type r, ee_EventData = el_event_data r, ee_HandlerCount = int_of (el_handler_count r),
      ee_Error = text_of (el_error r), ee_Duration = int_of (el_duration_ns r), ee_CreatedAt = el_created_at r\<rparr>"

definition command_col :: "command_row \<Rightarrow> string \<Rightarrow> string option" where
  "command_col r c = (if c = ''command_type'' then Some (cl_command_type r) else if c = ''trace_id'' then cl_trace_id r else None)"

definition query_col :: "query_row \<Rightarrow> string \<Rightarrow> string option" where
  "query_col r c = (if c = ''query_type'' then Some (ql_query_type r) else if c = ''trace_id'' then ql_trace_id r else None)"

definition event_col :: "event_row \<Rightarrow> string \<Rightarrow> string option" where
  "event_col r c =
     (if c = ''event_type'' then Some (el_event_type r) else if c = ''trace_id'' then el_trace_id r
      else if c = ''aggregate_id'' then Some (el_aggregate_id r) else None)"

definition pg_QueryCommands ::
    "pg_faults \<Rightarrow> go_error option \<Rightarrow> message_tables \<Rightarrow> MessageFilter \<Rightarrow> go_error + CommandEntry QueryResult" where
  "pg_QueryCommands flt count_fault t f =
     query_log flt count_fault ''command'' ''commands'' command_col cl_error cl_created_at command_of
       (buildWhereClause [(''command_type'', mf_Type f), (''trace_id'', mf_TraceID f)] (mf_Status f) (mf_Since f))
       f (mt_commands t)"

definition pg_QueryQueries ::
    "pg_faults \<Rightarrow> go_error option \<Rightarrow> message_tables \<Rightarrow> MessageFilter \<Rightarrow> go_error + QueryEntry QueryResult" where
  "pg_QueryQueries flt count_fault t f =
     query_log flt count_fault ''query'' ''queries'' query_col ql_error ql_created_at query_of
       (buildWhereClause [(''query_type'', mf_Type f), (''trace_id'', mf_TraceID f)] (mf_Status f) (mf_Since f))
       f (mt_queries t)"

definition pg_QueryEvents ::
    "pg_faults \<Rightarrow> go_error option \<Rightarrow> message_tables \<Rightarrow> MessageFilter \<Rightarrow> go_error + EventEntry QueryResult" where
  "pg_QueryEvents flt count_fault t f =
     (let parts = [(''event_type'', mf_Type f), (''trace_id'', mf_TraceID f)];
          parts1 = (if mf_AggregateID f \<noteq> [] then parts @ [(''aggregate_id'', mf_AggregateID f)] else parts)
      in query_log flt count_fault ''event'' ''events'' event_col el_error el_created_at event_of
           (buildWhereClause parts1 (mf_Status f) (mf_Since f)) f (mt_events t))"

subsection \<open>The clause says what the in-memory filters say\<close>

lemma where_parts_ok:
  assumes "where_parts parts (conds, args, idx) = (conds', args', idx')" and "idx = length args + 1"
    and "\<And>r extra. list_all (row_satisfies col err created (args @ extra) r) conds \<longleftrightarrow> P r"
  shows "idx' = length args' + 1 \<and>
    (\<forall>r extra. list_all (row_satisfies col err created (args' @ extra) r) conds' \<longleftrightarrow>
       P r \<and> (\<forall>(c, v)\<in>set parts. v \<noteq> [] \<longrightarrow> col r c = Some v))"
  using assms
proof (induction parts arbitrary: conds args idx P)
  case (Cons p parts)
  obtain c v where p: "p = (c, v)" by (cases p)
  show ?case
  proof (cases "v = []")
    case True
    then show ?thesis using Cons.IH [of conds args idx P] Cons.prems p by simp
  next
    case False
    let ?conds = "conds @ [ColumnEq c idx]" and ?args = "args @ [ArgStr v]"
    have "list_all (row_satisfies col err created (?args @ extra) r) ?conds \<longleftrightarrow> P r \<and> col r c = Some v" for r extra
      using Cons.prems(3) [of "ArgStr v # extra" r] Cons.prems(2) by (auto split: option.split)
    from Cons.IH [OF _ _ this, of "idx + 1"] show ?thesis
      using Cons.prems(1,2) p False by (auto simp: conj_assoc)
  qed
qed simp

lemma buildWhereClause_ok:
  assumes "buildWhereClause parts status since = (conds, args)"
  shows "list_all (row_satisfies col err created (args @ extra) r) conds \<longleftrightarrow>
    (\<forall>(c, v)\<in>set parts. v \<noteq> [] \<longrightarrow> col r c = Some v) \<and>
    (status = ''error'' \<longrightarrow> text_of (err r) \<noteq> []) \<and> (status = ''success'' \<longrightarrow> text_of (err r) = []) \<and>
    (since \<noteq> 0 \<longrightarrow> since \<le> created r)"
proof -
  obtain conds1 args1 idx where w: "where_parts parts ([], [], 1) = (conds1, args1, idx)" by (cases "where_parts parts ([], [], 1)")
  have ok: "idx = length args1 + 1"
    "list_all (row_satisfies col err created (args1 @ extra) r) conds1 \<longleftrightarrow> (\<forall>(c, v)\<in>set parts. v \<noteq> [] \<longrightarrow> col r c = Some v)" for r extra
    using where_parts_ok [OF w, of col err created "\<lambda>r. True"] by simp_all
  show ?thesis
    using assms w ok by (cases "since = 0") (auto simp: buildWhereClause_def text_of_def Let_def split: if_splits option.splits)
qed

lemma scan_log_ok: "scan_log no_faults what read i rows = Inr (map read rows)"
  by (induction rows arbitrary: i) simp_all

text \<open>The page of a query without faults and with a valid offset.\<close>

lemma query_log_ok:
  assumes "0 \<le> mf_Offset f"
    and "\<And>r extra. list_all (row_satisfies col err created (args @ extra) r) conds \<longleftrightarrow> P r"
  shows "query_log no_faults None what whats col err created read (conds, args) f table =
    Inr \<lparr>qr_Items = map read (take (nat (if mf_Limit f \<le> 0 then 100 else mf_Limit f))
           (drop (nat (mf_Offset f)) (sort_key (\<lambda>r. - created r) (filter P table)))),
         qr_Total = length (filter P table)\<rparr>"
proof -
  have p: "(\<lambda>r. list_all (row_satisfies col err created (args @ extra) r) conds) = P" for extra using assms(2) by (intro ext)
  have p0: "(\<lambda>r. list_all (row_satisfies col err created args r) conds) = P" using p [of "[]"] by simp
  show ?thesis
    using assms(1) by (simp add: query_log_def p p0 sql_page_def scan_log_ok Let_def nth_append)
qed

subsection \<open>Both logs answer a query alike\<close>

definition json_normal :: "(string \<Rightarrow> string option) \<Rightarrow> string \<Rightarrow> bool" where
  "json_normal jsonb d \<longleftrightarrow> d = [] \<or> jsonb d = Some d"

definition command_row_of :: "CommandEntry \<Rightarrow> command_row" where
  "command_row_of e =
     \<lparr>cl_trace_id = Some (ce_TraceID e), cl_span_id = Some (ce_SpanID e), cl_command_type = ce_CommandType e,
      cl_command_data = NullString (ce_CommandData e), cl_result_type = NullString (ce_ResultType e),
      cl_result_data = NullString (ce_ResultData e), cl_error = NullString (ce_Error e),
      cl_duration_ns = Some (ce_Duration e), cl_created_at = ce_CreatedAt e\<rparr>"

fun pg_commands_run :: "(string \<Rightarrow> string option) \<Rightarrow> CommandEntry list \<Rightarrow> message_tables \<Rightarrow> message_tables" where
  "pg_commands_run jsonb [] t = t"
| "pg_commands_run jsonb (e # es) t = pg_commands_run jsonb es (snd (pg_RecordCommand jsonb None e t))"

lemma text_of_NullString [simp]: "text_of (NullString s) = s"
  by (simp add: text_of_def)

lemma command_of_row [simp]: "command_of (command_row_of e) = e"
  by (simp add: command_of_def command_row_of_def int_of_def) (simp add: text_of_def)

lemma RecordCommand_row:
  "json_normal jsonb (ce_CommandData e) \<Longrightarrow> json_normal jsonb (ce_ResultData e) \<Longrightarrow>
     pg_RecordCommand jsonb None e t = (None, t\<lparr>mt_commands := mt_commands t @ [command_row_of e]\<rparr>)"
  by (auto simp: pg_RecordCommand_def json_column_def json_normal_def command_row_of_def NullString_def)

lemma pg_commands_run_rows:
  "\<forall>e\<in>set es. json_normal jsonb (ce_CommandData e) \<and> json_normal jsonb (ce_ResultData e) \<Longrightarrow>
     mt_commands (pg_commands_run jsonb es t) = mt_commands t @ map command_row_of es"
  by (induction es arbitrary: t) (simp_all add: RecordCommand_row)

lemma newest_first:
  fixes k :: "'r \<Rightarrow> int"
  assumes "sorted_wrt (\<lambda>a b. k a < k b) xs"
  shows "sort_key (\<lambda>r. - k r) xs = rev xs"
proof (rule sort_key_inj_key_eq)
  have "sorted_wrt (\<lambda>a b. k b < k a) (rev xs)" using assms by (simp add: sorted_wrt_rev)
  then show "sorted (map (\<lambda>r. - k r) (rev xs))"
    unfolding sorted_map by (rule sorted_wrt_mono_rel [rotated]) simp
  show "inj_on (\<lambda>r. - k r) (set xs)"
    using assms by (auto simp: inj_on_def sorted_wrt_iff_nth_less in_set_conv_nth) (metis less_irrefl linorder_neqE_nat)
qed simp

lemma command_clause:
  assumes "buildWhereClause [(''command_type'', mf_Type f), (''trace_id'', mf_TraceID f)] (mf_Status f) (mf_Since f) = (conds, args)"
  shows "list_all (row_satisfies command_col cl_error cl_created_at (args @ extra) (command_row_of e)) conds \<longleftrightarrow> matchCommandFilter e f"
  using buildWhereClause_ok [OF assms, of command_col cl_error cl_created_at extra "command_row_of e"]
  by (auto simp: matchCommandFilter_def matchStringFilter_def command_col_def command_row_of_def not_less)

text \<open>
  The PostgreSQL log answers a query for commands as the in-memory log does.  When commands with
  increasing times and normal JSON are recorded in both, and the in-memory log has room for them, a query
  with a valid offset counts the same entries and returns the same page, newest first; only for a
  non-positive limit the PostgreSQL reader returns at most the first 100 entries of what the in-memory
  reader returns.
\<close>

theorem pg_query_commands_agrees:
  assumes "\<forall>e\<in>set es. json_normal jsonb (ce_CommandData e) \<and> json_normal jsonb (ce_ResultData e)"
    and "sorted_wrt (\<lambda>a b. ce_CreatedAt a < ce_CreatedAt b) es"
    and "int (length es) \<le> maxSize" and "0 \<le> mf_Offset f"
  shows "\<exists>q. out_bind (im_commands_run (NewObservableMessageStore (Some maxSize)) es) (\<lambda>s. QueryCommands s f) = Ret q \<and>
    pg_QueryCommands no_faults None (pg_commands_run jsonb es empty_tables) f =
      Inr (if mf_Limit f \<le> 0 then q\<lparr>qr_Items := take 100 (qr_Items q)\<rparr> else q)"
proof -
  let ?rows = "map command_row_of es" and ?m = "filter (\<lambda>e. matchCommandFilter e f) es"
  obtain conds args where c: "buildWhereClause [(''command_type'', mf_Type f), (''trace_id'', mf_TraceID f)] (mf_Status f)
      (mf_Since f) = (conds, args)"
    by (cases "buildWhereClause [(''command_type'', mf_Type f), (''trace_id'', mf_TraceID f)] (mf_Status f) (mf_Since f)")
  let ?P = "\<lambda>r. list_all (row_satisfies command_col cl_error cl_created_at args r) conds"
  have P: "list_all (row_satisfies command_col cl_error cl_created_at (args @ extra) r) conds \<longleftrightarrow> ?P r" for r extra
    using buildWhereClause_ok [OF c, of command_col cl_error cl_created_at extra r]
      buildWhereClause_ok [OF c, of command_col cl_error cl_created_at "[]" r] by simp
  have "?P (command_row_of e) \<longleftrightarrow> matchCommandFilter e f" for e
    using command_clause [OF c, of "[]" e] by simp
  then have sel: "filter ?P ?rows = map command_row_of ?m" by (simp add: filter_map o_def)
  have "sorted_wrt (\<lambda>a b. cl_created_at a < cl_created_at b) (map command_row_of ?m)"
    using sorted_wrt_filter [OF assms(2)] by (simp add: sorted_wrt_map command_row_of_def)
  note sorted = newest_first [OF this]
  have rows: "mt_commands (pg_commands_run jsonb es empty_tables) = ?rows"
    using pg_commands_run_rows [OF assms(1), of empty_tables] by (simp add: empty_tables_def)
  have pg: "pg_QueryCommands no_faults None (pg_commands_run jsonb es empty_tables) f =
      Inr \<lparr>qr_Items = take (nat (if mf_Limit f \<le> 0 then 100 else mf_Limit f)) (drop (nat (mf_Offset f)) (rev ?m)),
           qr_Total = length ?m\<rparr>"
    unfolding pg_QueryCommands_def c query_log_ok [OF assms(4) P] rows sel sorted
    by (simp add: take_map [symmetric] drop_map [symmetric] rev_map o_def)
  have "last_n (nat maxSize) es = es" "0 \<le> maxSize" using assms(3) by (simp_all add: last_n_def)
  with im_commands_page [OF _ assms(4), of maxSize es] pg show ?thesis
    by (auto simp: Let_def rev_filter [symmetric])
qed

text \<open>The database rejects a negative offset, where the in-memory log panics.\<close>

theorem pg_query_negative_offset:
  assumes "mf_Offset f < 0"
  shows "\<exists>e. pg_QueryCommands no_faults None t f = Inl e \<and> QueryCommands s f = Panic ''slice bounds out of range''"
  using assms
  by (auto simp: pg_QueryCommands_def query_log_def sql_page_def nth_append Let_def QueryCommands_def page_def slice_from_def
      split: prod.split)

subsection \<open>Witnesses\<close>

definition sample_command :: "time \<Rightarrow> CommandEntry" where
  "sample_command at = \<lparr>ce_TraceID = ''t'', ce_SpanID = ''s'', ce_CommandType = ''Pay'', ce_CommandData = ''{}'',
     ce_ResultType = [], ce_ResultData = [], ce_Error = [], ce_Duration = 1, ce_CreatedAt = at\<rparr>"

definition all_messages :: MessageFilter where
  "all_messages = \<lparr>mf_Type = ''Pay'', mf_TraceID = [], mf_AggregateID = [], mf_Status = ''success'', mf_Since = 0,
     mf_Limit = 0, mf_Offset = 0\<rparr>"

theorem pg_query_commands_agrees_witness:
  "\<exists>q. pg_QueryCommands no_faults None (pg_commands_run Some [sample_command 1, sample_command 2] empty_tables) all_messages = Inr q"
  using pg_query_commands_agrees [of "[sample_command 1, sample_command 2]" Some 10 all_messages]
  by (auto simp: sample_command_def json_normal_def all_messages_def)

theorem pg_query_negative_offset_witness:
  "\<exists>e. pg_QueryCommands no_faults None empty_tables (all_messages\<lparr>mf_Offset := -1\<rparr>) = Inl e"
  using pg_query_negative_offset [of "all_messages\<lparr>mf_Offset := -1\<rparr>" empty_tables "NewInMemoryMessageStore None"]
  by (auto simp: all_messages_def)

end
