(* ===== verification/OrderModel.thy ===== *)
theory OrderModel
  imports PgRepositories
begin

text \<open>
  The order aggregate of the example application (\<open>exampleapp/ddd/order/domain/model.go\<close>), its
  events (\<open>order/event/events.go\<close>), its command and query handlers (\<open>order/command/handlers.go\<close>,
  \<open>order/query/handlers.go\<close>) and its in-memory repository
  (\<open>order/repository/repository.go\<close>).

  Amounts are floating-point numbers: a type \<open>'f\<close> with the machine's addition, multiplication and
  conversion as a parameter.  The in-memory repository keeps and returns pointers, so orders live on a
  heap and the repository maps ids to addresses.
\<close>

record 'f float_ops =
  fl_zero :: 'f
  fl_add :: "'f \<Rightarrow> 'f \<Rightarrow> 'f"
  fl_mul :: "'f \<Rightarrow> 'f \<Rightarrow> 'f"
  fl_of_int :: "int \<Rightarrow> 'f"

type_synonym OrderStatus = string

definition OrderStatusPending :: OrderStatus where
  "OrderStatusPending = ''pending''"

definition OrderStatusPaid :: OrderStatus where
  "OrderStatusPaid = ''paid''"

definition OrderStatusShipped :: OrderStatus where
  "OrderStatusShipped = ''shipped''"

definition OrderStatusCancelled :: OrderStatus where
  "OrderStatusCancelled = ''cancelled''"

lemmas order_statuses = OrderStatusPending_def OrderStatusPaid_def OrderStatusShipped_def OrderStatusCancelled_def

record 'f OrderItem =
  oi_Entity :: Entity
  oi_ProductName :: string
  oi_Price :: 'f
  oi_Quantity :: int

definition NewOrderItem :: "string \<Rightarrow> string \<Rightarrow> 'f \<Rightarrow> int \<Rightarrow> 'f OrderItem outcome" where
  "NewOrderItem i productName price quantity =
     (case NewEntity i of
        Inl err \<Rightarrow> Panic (error_text err)
      | Inr e \<Rightarrow> Ret \<lparr>oi_Entity = e, oi_ProductName = productName, oi_Price = price, oi_Quantity = quantity\<rparr>)"

definition Subtotal :: "'f float_ops \<Rightarrow> 'f OrderItem \<Rightarrow> 'f" where
  "Subtotal fl i = fl_mul fl (oi_Price i) (fl_of_int fl (oi_Quantity i))"

text \<open>The contents of the order's events besides their metadata; the constructor is the struct type.\<close>

datatype 'f order_event =
    OrderPlacedEvent string 'f "string list"
  | PaymentConfirmedEvent
  | OrderShippedEvent
  | OrderCancelledEvent string
  | OtherEvent

fun order_event_type :: "'f order_event \<Rightarrow> gtype" where
  "order_event_type (OrderPlacedEvent u t i) = TNamed ''github.com/ddd-qce/exampleapp/ddd/order/event'' ''OrderPlacedEvent''"
| "order_event_type PaymentConfirmedEvent = TNamed ''github.com/ddd-qce/exampleapp/ddd/order/event'' ''PaymentConfirmedEvent''"
| "order_event_type OrderShippedEvent = TNamed ''github.com/ddd-qce/exampleapp/ddd/order/event'' ''OrderShippedEvent''"
| "order_event_type (OrderCancelledEvent r) = TNamed ''github.com/ddd-qce/exampleapp/ddd/order/event'' ''OrderCancelledEvent''"
| "order_event_type OtherEvent = TNamed ''other'' ''Event''"

text \<open>\<open>&orderevent.X{BaseEvent: cqrsevent.WithCorrelation(ctx, o.ID()), ...}\<close>.\<close>

definition new_order_event :: "time \<Rightarrow> go_ctx \<Rightarrow> string \<Rightarrow> 'f order_event \<Rightarrow> 'f order_event devent" where
  "new_order_event now ctx i d =
     \<lparr>ev_Metadata = Some (WithCorrelation now ctx i), ev_value = GAny (TPtr (order_event_type d)) d\<rparr>"

record 'f order_state =
  os_UserID :: string
  os_Items :: "'f OrderItem list"
  os_Status :: OrderStatus
  os_TotalAmount :: 'f
  os_CreatedAt :: time
  os_PaidAt :: time
  os_ShippedAt :: time
  os_CancelledAt :: time
  os_CancelReason :: string

type_synonym 'f Order = "('f order_state, 'f order_event) aggregate"

abbreviation order_status :: "'f Order \<Rightarrow> OrderStatus" where
  "order_status o1 \<equiv> os_Status (ag_state o1)"

text \<open>The type switch of \<open>When\<close> asks for pointers to the four structs.\<close>

definition Order_When :: "('f order_state, 'f order_event) when_fn" where
  "Order_When evt o1 =
     (let OccurredAt = be_OccurredAt (MetadataOf evt);
          unhandled = (Some (ErrText (''order: unhandled event type '' @ event_T evt)), o1)
      in case ev_value evt of
           GAny (TPtr t) (OrderPlacedEvent userID totalAmount items) \<Rightarrow>
             (None, o1\<lparr>os_UserID := userID, os_TotalAmount := totalAmount, os_Status := OrderStatusPending,
                       os_CreatedAt := OccurredAt\<rparr>)
         | GAny (TPtr t) PaymentConfirmedEvent \<Rightarrow>
             (None, o1\<lparr>os_Status := OrderStatusPaid, os_PaidAt := OccurredAt\<rparr>)
         | GAny (TPtr t) OrderShippedEvent \<Rightarrow>
             (None, o1\<lparr>os_Status := OrderStatusShipped, os_ShippedAt := OccurredAt\<rparr>)
         | GAny (TPtr t) (OrderCancelledEvent reason) \<Rightarrow>
             (None, o1\<lparr>os_Status := OrderStatusCancelled, os_CancelledAt := OccurredAt, os_CancelReason := reason\<rparr>)
         | _ \<Rightarrow> unhandled)"

definition order_validate :: "'f Order \<Rightarrow> go_error option" where
  "order_validate o1 =
     (case AggregateRoot_Validate (ag_root o1) of
        Some err \<Rightarrow> Some err
      | None \<Rightarrow>
          if os_UserID (ag_state o1) = [] then Some (ErrText ''order must have a user ID'')
          else if length (os_Items (ag_state o1)) = 0 then Some (ErrText ''order must have at least one item'')
          else if list_ex (\<lambda>item. Entity_IsEmpty (oi_Entity item)) (os_Items (ag_state o1))
          then Some (ErrText ''order item has empty product ID'')
          else None)"

definition calculateTotal :: "'f float_ops \<Rightarrow> 'f OrderItem list \<Rightarrow> 'f" where
  "calculateTotal fl items = foldl (\<lambda>total item. fl_add fl total (Subtotal fl item)) (fl_zero fl) items"

definition ItemNames :: "'f OrderItem list \<Rightarrow> string list" where
  "ItemNames items = map oi_ProductName items"

definition empty_order_state :: "'f float_ops \<Rightarrow> 'f order_state" where
  "empty_order_state fl =
     \<lparr>os_UserID = [], os_Items = [], os_Status = [], os_TotalAmount = fl_zero fl, os_CreatedAt = 0,
      os_PaidAt = 0, os_ShippedAt = 0, os_CancelledAt = 0, os_CancelReason = []\<rparr>"

text \<open>\<open>now\<close> is the clock at the order's creation, \<open>now2\<close> when its event is made.\<close>

definition NewOrder ::
    "'f float_ops \<Rightarrow> time \<Rightarrow> time \<Rightarrow> go_ctx \<Rightarrow> string \<Rightarrow> string \<Rightarrow> 'f OrderItem list \<Rightarrow> go_error + 'f Order" where
  "NewOrder fl now now2 ctx i userID items =
     (case NewAggregateRoot i of
        Inl err \<Rightarrow> Inl err
      | Inr ar \<Rightarrow>
          (let o1 = \<lparr>ag_root = ar,
                     ag_state = (empty_order_state fl)\<lparr>os_UserID := userID, os_Items := items,
                                  os_Status := OrderStatusPending, os_CreatedAt := now\<rparr>\<rparr>
           in case order_validate o1 of
                Some err \<Rightarrow> Inl err
              | None \<Rightarrow>
                  (let total = calculateTotal fl items;
                       o2 = o1\<lparr>ag_state := (ag_state o1)\<lparr>os_TotalAmount := total\<rparr>\<rparr>
                   in case ApplyChange Order_When
                             (new_order_event now2 ctx (ag_id o2) (OrderPlacedEvent userID total (ItemNames items))) o2 of
                        (Some err, o3) \<Rightarrow> Inl err
                      | (None, o3) \<Rightarrow> Inr o3)))"

definition NewOrderForReplay :: "'f float_ops \<Rightarrow> string \<Rightarrow> 'f Order outcome" where
  "NewOrderForReplay fl i =
     (case NewAggregateRoot i of
        Inl err \<Rightarrow> Panic (error_text err)
      | Inr ar \<Rightarrow> Ret \<lparr>ag_root = ar, ag_state = empty_order_state fl\<rparr>)"

definition ConfirmPayment :: "time \<Rightarrow> go_ctx \<Rightarrow> 'f Order \<Rightarrow> go_error option \<times> 'f Order" where
  "ConfirmPayment now ctx o1 =
     (if order_status o1 \<noteq> OrderStatusPending
      then (Some (ErrText (''order '' @ ag_id o1 @ '' cannot be confirmed payment (status: '' @ order_status o1 @ '')'')), o1)
      else ApplyChange Order_When (new_order_event now ctx (ag_id o1) PaymentConfirmedEvent) o1)"

definition Ship :: "time \<Rightarrow> go_ctx \<Rightarrow> 'f Order \<Rightarrow> go_error option \<times> 'f Order" where
  "Ship now ctx o1 =
     (if order_status o1 \<noteq> OrderStatusPaid
      then (Some (ErrText (''order '' @ ag_id o1 @ '' cannot be shipped (status: '' @ order_status o1 @ '')'')), o1)
      else ApplyChange Order_When (new_order_event now ctx (ag_id o1) OrderShippedEvent) o1)"

definition Order_Cancel :: "time \<Rightarrow> go_ctx \<Rightarrow> string \<Rightarrow> 'f Order \<Rightarrow> go_error option \<times> 'f Order" where
  "Order_Cancel now ctx reason o1 =
     (if order_status o1 = OrderStatusCancelled
      then (Some (ErrText (''order '' @ ag_id o1 @ '' already cancelled'')), o1)
      else if order_status o1 = OrderStatusShipped
      then (Some (ErrText (''order '' @ ag_id o1 @ '' already shipped, cannot cancel'')), o1)
      else ApplyChange Order_When (new_order_event now ctx (ag_id o1) (OrderCancelledEvent reason)) o1)"

subsection \<open>The in-memory order repository\<close>

record 'f order_world =
  ow_heap :: "'f Order list"
  ow_orders :: "(string, nat) gomap"

definition order_not_found :: "string \<Rightarrow> go_error" where
  "order_not_found i = ErrText (''order '' @ i @ '' not found'')"

definition NewOrderRepository :: "(string, nat) gomap" where
  "NewOrderRepository = []"

definition or_Save :: "nat \<Rightarrow> 'f order_world \<Rightarrow> go_error option \<times> 'f order_world" where
  "or_Save order w = (None, w\<lparr>ow_orders := gm_put (ow_orders w) (ag_id (ow_heap w ! order)) order\<rparr>)"

definition or_FindByID :: "'f order_world \<Rightarrow> string \<Rightarrow> go_error + nat" where
  "or_FindByID w i = (case gm_get (ow_orders w) i of None \<Rightarrow> Inl (order_not_found i) | Some order \<Rightarrow> Inr order)"

definition or_Delete :: "string \<Rightarrow> 'f order_world \<Rightarrow> go_error option \<times> 'f order_world" where
  "or_Delete i w =
     (case gm_get (ow_orders w) i of
        None \<Rightarrow> (Some (order_not_found i), w)
      | Some order \<Rightarrow> (None, w\<lparr>ow_orders := gm_del (ow_orders w) i\<rparr>))"

definition or_FindAll :: "'f order_world \<Rightarrow> nat list" where
  "or_FindAll w = map snd (ow_orders w)"

subsection \<open>Command handlers\<close>

text \<open>A method called through a pointer: it changes the order at the address.\<close>

definition on_heap :: "nat \<Rightarrow> ('f Order \<Rightarrow> go_error option \<times> 'f Order) \<Rightarrow> 'f order_world \<Rightarrow> go_error option \<times> 'f order_world" where
  "on_heap p f w = (let (err, o1) = f (ow_heap w ! p) in (err, w\<lparr>ow_heap := (ow_heap w)[p := o1]\<rparr>))"

record 'f ItemInput =
  ii_ProductID :: string
  ii_ProductName :: string
  ii_Price :: 'f
  ii_Quantity :: int

record 'f PlaceOrderResult =
  po_OrderID :: string
  po_TotalAmount :: 'f

fun new_items :: "'f ItemInput list \<Rightarrow> 'f OrderItem list outcome" where
  "new_items [] = Ret []"
| "new_items (i # is) =
     out_bind (NewOrderItem (ii_ProductID i) (ii_ProductName i) (ii_Price i) (ii_Quantity i))
       (\<lambda>item. out_bind (new_items is) (\<lambda>items. Ret (item # items)))"

text \<open>\<open>uid\<close> is the UUID the handler draws.\<close>

definition PlaceOrder_Handle ::
    "'f float_ops \<Rightarrow> nat list \<Rightarrow> time \<Rightarrow> time \<Rightarrow> go_ctx \<Rightarrow> string \<Rightarrow> 'f ItemInput list \<Rightarrow> 'f order_world \<Rightarrow>
       (go_error + 'f PlaceOrderResult) outcome \<times> 'f order_world" where
  "PlaceOrder_Handle fl uid now now2 ctx userID inputs w =
     (case new_items inputs of
        Panic m \<Rightarrow> (Panic m, w)
      | Ret items \<Rightarrow>
          (case NewOrder fl now now2 ctx (hex_EncodeToString uid) userID items of
             Inl err \<Rightarrow> (Ret (Inl err), w)
           | Inr order \<Rightarrow>
               (let p = length (ow_heap w);
                    w1 = w\<lparr>ow_heap := ow_heap w @ [order]\<rparr>
                in case or_Save p w1 of
                     (Some err, w2) \<Rightarrow> (Ret (Inl err), w2)
                   | (None, w2) \<Rightarrow>
                       (Ret (Inr \<lparr>po_OrderID = ag_id (ow_heap w2 ! p),
                                  po_TotalAmount = os_TotalAmount (ag_state (ow_heap w2 ! p))\<rparr>), w2))))"

text \<open>\<open>Handle\<close> of \<open>ConfirmPaymentHandler\<close>, \<open>ShipOrderHandler\<close> and \<open>CancelOrderHandler\<close>; success is \<open>Inr\<close>.\<close>

definition ConfirmPayment_Handle :: "time \<Rightarrow> go_ctx \<Rightarrow> string \<Rightarrow> 'f order_world \<Rightarrow> (go_error + bool) \<times> 'f order_world" where
  "ConfirmPayment_Handle now ctx orderID w =
     (case or_FindByID w orderID of
        Inl err \<Rightarrow> (Inl err, w)
      | Inr p \<Rightarrow>
          (case on_heap p (ConfirmPayment now ctx) w of
             (Some err, w1) \<Rightarrow> (Inl err, w1)
           | (None, w1) \<Rightarrow> (case or_Save p w1 of (Some err, w2) \<Rightarrow> (Inl err, w2) | (None, w2) \<Rightarrow> (Inr True, w2))))"

definition ShipOrder_Handle :: "time \<Rightarrow> go_ctx \<Rightarrow> string \<Rightarrow> 'f order_world \<Rightarrow> (go_error + bool) \<times> 'f order_world" where
  "ShipOrder_Handle now ctx orderID w =
     (case or_FindByID w orderID of
        Inl err \<Rightarrow> (Inl err, w)
      | Inr p \<Rightarrow>
          (case on_heap p (Ship now ctx) w of
             (Some err, w1) \<Rightarrow> (Inl err, w1)
           | (None, w1) \<Rightarrow> (case or_Save p w1 of (Some err, w2) \<Rightarrow> (Inl err, w2) | (None, w2) \<Rightarrow> (Inr True, w2))))"

definition CancelOrder_Handle ::
    "time \<Rightarrow> go_ctx \<Rightarrow> string \<Rightarrow> string \<Rightarrow> 'f order_world \<Rightarrow> (go_error + bool) \<times> 'f order_world" where
  "CancelOrder_Handle now ctx orderID reason w =
     (case or_FindByID w orderID of
        Inl err \<Rightarrow> (Inl err, w)
      | Inr p \<Rightarrow>
          (case on_heap p (Order_Cancel now ctx reason) w of
             (Some err, w1) \<Rightarrow> (Inl err, w1)
           | (None, w1) \<Rightarrow> (case or_Save p w1 of (Some err, w2) \<Rightarrow> (Inl err, w2) | (None, w2) \<Rightarrow> (Inr True, w2))))"

subsection \<open>Query handlers\<close>

record 'f OrderViewItem =
  ov_ProductID :: string
  ov_ProductName :: string
  ov_Price :: 'f
  ov_Quantity :: int
  ov_Subtotal :: 'f

record 'f GetOrderResult =
  gr_OrderID :: string
  gr_UserID :: string
  gr_Status :: string
  gr_TotalAmount :: 'f
  gr_Items :: "'f OrderViewItem list"
  gr_CreatedAt :: string
  gr_PaidAt :: string
  gr_ShippedAt :: string
  gr_CancelledAt :: string
  gr_CancelReason :: string

text \<open>\<open>rfc\<close> is \<open>t.Format(time.RFC3339)\<close>.\<close>

definition toOrderView :: "'f float_ops \<Rightarrow> (time \<Rightarrow> string) \<Rightarrow> 'f Order \<Rightarrow> 'f GetOrderResult" where
  "toOrderView fl rfc o1 =
     (let s = ag_state o1;
          show_time = (\<lambda>t. if t = 0 then [] else rfc t)
      in \<lparr>gr_OrderID = ag_id o1, gr_UserID = os_UserID s, gr_Status = os_Status s,
          gr_TotalAmount = os_TotalAmount s,
          gr_Items = map (\<lambda>item. \<lparr>ov_ProductID = en_id (oi_Entity item), ov_ProductName = oi_ProductName item,
                                  ov_Price = oi_Price item, ov_Quantity = oi_Quantity item,
                                  ov_Subtotal = Subtotal fl item\<rparr>) (os_Items s),
          gr_CreatedAt = show_time (os_CreatedAt s), gr_PaidAt = show_time (os_PaidAt s),
          gr_ShippedAt = show_time (os_ShippedAt s), gr_CancelledAt = show_time (os_CancelledAt s),
          gr_CancelReason = os_CancelReason s\<rparr>)"

definition GetOrder_Handle ::
    "'f float_ops \<Rightarrow> (time \<Rightarrow> string) \<Rightarrow> string \<Rightarrow> 'f order_world \<Rightarrow> go_error + 'f GetOrderResult" where
  "GetOrder_Handle fl rfc orderID w =
     (case or_FindByID w orderID of Inl err \<Rightarrow> Inl err | Inr p \<Rightarrow> Inr (toOrderView fl rfc (ow_heap w ! p)))"

definition ListOrders_Handle :: "'f float_ops \<Rightarrow> (time \<Rightarrow> string) \<Rightarrow> 'f order_world \<Rightarrow> 'f GetOrderResult list" where
  "ListOrders_Handle fl rfc w = map (\<lambda>p. toOrderView fl rfc (ow_heap w ! p)) (or_FindAll w)"

subsection \<open>The event-sourced order repository\<close>

text \<open>
  \<open>OrderEventSourcedRepository\<close>: an event store and an event bus through their interfaces (arguments, on
  the states \<open>'e\<close> and \<open>'w\<close>), and the order repository above.
\<close>

record ('f, 'e, 'w) order_es_repo =
  oer_append :: "string \<Rightarrow> int \<Rightarrow> 'f order_event devent list \<Rightarrow> 'e \<Rightarrow> (go_error option \<times> 'e) outcome"
  oer_load :: "'e \<Rightarrow> string \<Rightarrow> int \<Rightarrow> (go_error + 'f order_event devent list) outcome"
  oer_publish :: "'f order_event devent \<Rightarrow> 'w \<Rightarrow> go_error option outcome \<times> 'w"

fun publish_all ::
    "('f order_event devent \<Rightarrow> 'w \<Rightarrow> go_error option outcome \<times> 'w) \<Rightarrow> 'f order_event devent list \<Rightarrow> 'w \<Rightarrow>
       go_error option outcome \<times> 'w" where
  "publish_all publish [] bus = (Ret None, bus)"
| "publish_all publish (evt # evts) bus =
     (case publish evt bus of
        (Panic m, bus1) \<Rightarrow> (Panic m, bus1)
      | (Ret (Some err), bus1) \<Rightarrow> (Ret (Some (ErrWrap (''publish event '' @ event_T evt @ '': '') err [])), bus1)
      | (Ret None, bus1) \<Rightarrow> publish_all publish evts bus1)"

definition oer_Save ::
    "('f, 'e, 'w) order_es_repo \<Rightarrow> nat \<Rightarrow> 'e \<times> 'w \<times> 'f order_world \<Rightarrow>
       go_error option outcome \<times> ('e \<times> 'w \<times> 'f order_world)" where
  "oer_Save r order = (\<lambda>(es, bus, w).
     (let o1 = ow_heap w ! order;
          uncommitted = UncommittedEvents (ag_root o1)
      in if length uncommitted > 0
         then (case oer_append r (ag_id o1) (ag_version o1 - int (length uncommitted)) uncommitted es of
                 Panic m \<Rightarrow> (Panic m, (es, bus, w))
               | Ret (Some err, es1) \<Rightarrow> (Ret (Some err), (es1, bus, w))
               | Ret (None, es1) \<Rightarrow>
                   (let w1 = w\<lparr>ow_heap := (ow_heap w)[order := o1\<lparr>ag_root := MarkEventsAsCommitted (ag_root o1)\<rparr>]\<rparr>
                    in case publish_all (oer_publish r) uncommitted bus of
                         (Panic m, bus1) \<Rightarrow> (Panic m, (es1, bus1, w1))
                       | (Ret (Some err), bus1) \<Rightarrow> (Ret (Some err), (es1, bus1, w1))
                       | (Ret None, bus1) \<Rightarrow> (let (err, w2) = or_Save order w1 in (Ret err, (es1, bus1, w2)))))
         else (let (err, w1) = or_Save order w in (Ret err, (es, bus, w1)))))"

definition oer_Load :: "'f float_ops \<Rightarrow> ('f, 'e, 'w) order_es_repo \<Rightarrow> 'e \<Rightarrow> string \<Rightarrow> (go_error + 'f Order) outcome" where
  "oer_Load fl r es i =
     out_bind (oer_load r es i 0)
       (\<lambda>res. case res of
          Inl err \<Rightarrow> Ret (Inl err)
        | Inr events \<Rightarrow>
            if length events = 0 then Ret (Inl (ErrText (''order '' @ i @ '' not found in event store'')))
            else out_bind (NewOrderForReplay fl i)
                   (\<lambda>order. case LoadFromHistory Order_When events order of
                      (Some err, o1) \<Rightarrow> Ret (Inl (ErrWrap (''load order '' @ i @ '' from history: '') err []))
                    | (None, o1) \<Rightarrow> Ret (Inr o1)))"

subsection \<open>The order's histories\<close>

text \<open>The name of an event's struct, and what a client does with an order.\<close>

definition event_kind :: "'f order_event devent \<Rightarrow> string" where
  "event_kind e = (case ev_value e of GAny t d \<Rightarrow> type_Name (deref t) | GNil \<Rightarrow> [])"

datatype order_op = OpConfirmPayment time go_ctx | OpShip time go_ctx | OpCancel time go_ctx string

fun order_step :: "'f Order \<Rightarrow> order_op \<Rightarrow> 'f Order" where
  "order_step o1 (OpConfirmPayment now ctx) = snd (ConfirmPayment now ctx o1)"
| "order_step o1 (OpShip now ctx) = snd (Ship now ctx o1)"
| "order_step o1 (OpCancel now ctx reason) = snd (Order_Cancel now ctx reason o1)"

text \<open>The five histories of an order, with the state each ends in.\<close>

definition order_histories :: "(string list \<times> OrderStatus) list" where
  "order_histories =
     [([''OrderPlacedEvent''], OrderStatusPending),
      ([''OrderPlacedEvent'', ''PaymentConfirmedEvent''], OrderStatusPaid),
      ([''OrderPlacedEvent'', ''PaymentConfirmedEvent'', ''OrderShippedEvent''], OrderStatusShipped),
      ([''OrderPlacedEvent'', ''OrderCancelledEvent''], OrderStatusCancelled),
      ([''OrderPlacedEvent'', ''PaymentConfirmedEvent'', ''OrderCancelledEvent''], OrderStatusCancelled)]"

lemma order_event_kind [simp]: "event_kind (new_order_event now ctx i d) = type_Name (order_event_type d)"
  by (simp add: event_kind_def new_order_event_def)

lemma agg_of_order_event [simp]: "agg_of (new_order_event now ctx i d) = i"
  by (simp add: new_order_event_def MetadataOf_def WithCorrelation_def)

lemma When_order_event [simp]:
  "Order_When (new_order_event now ctx i PaymentConfirmedEvent) s = (None, s\<lparr>os_Status := OrderStatusPaid, os_PaidAt := now\<rparr>)"
  "Order_When (new_order_event now ctx i OrderShippedEvent) s = (None, s\<lparr>os_Status := OrderStatusShipped, os_ShippedAt := now\<rparr>)"
  "Order_When (new_order_event now ctx i (OrderCancelledEvent r)) s =
     (None, s\<lparr>os_Status := OrderStatusCancelled, os_CancelledAt := now, os_CancelReason := r\<rparr>)"
  "Order_When (new_order_event now ctx i (OrderPlacedEvent u t ns)) s =
     (None, s\<lparr>os_UserID := u, os_TotalAmount := t, os_Status := OrderStatusPending, os_CreatedAt := now\<rparr>)"
  by (simp_all add: Order_When_def new_order_event_def MetadataOf_def WithCorrelation_def Let_def)

text \<open>What stays true of an order, from its creation by \<open>NewOrder\<close>.\<close>

definition order_ok :: "string \<Rightarrow> 'f order_state \<Rightarrow> 'f Order \<Rightarrow> bool" where
  "order_ok i s0 o1 \<longleftrightarrow>
     ag_id o1 = i \<and> (map event_kind (ag_events o1), order_status o1) \<in> set order_histories \<and>
     ag_version o1 = int (length (ag_events o1)) \<and> (\<forall>e\<in>set (ag_events o1). agg_of e = i) \<and>
     os_UserID (ag_state o1) = os_UserID s0 \<and> os_Items (ag_state o1) = os_Items s0 \<and>
     os_TotalAmount (ag_state o1) = os_TotalAmount s0"

lemma order_apply:
  assumes "order_ok i s0 o1" and "Order_When e (ag_state o1) = (None, st)" and "agg_of e = i"
    and "(map event_kind (ag_events o1) @ [event_kind e], os_Status st) \<in> set order_histories"
    and "os_UserID st = os_UserID (ag_state o1)" "os_Items st = os_Items (ag_state o1)"
        "os_TotalAmount st = os_TotalAmount (ag_state o1)"
  shows "order_ok i s0 (snd (ApplyChange Order_When e o1))"
  using assms by (simp add: order_ok_def ApplyChange_def Let_def)

lemma order_step_ok:
  assumes "order_ok i s0 o1"
  shows "order_ok i s0 (order_step o1 op)"
proof -
  have h: "(map event_kind (ag_events o1), order_status o1) \<in> set order_histories" and i: "ag_id o1 = i"
    using assms by (simp_all add: order_ok_def)
  show ?thesis
  proof (cases op)
    case (OpConfirmPayment now ctx)
    show ?thesis
    proof (cases "order_status o1 = OrderStatusPending")
      case True
      then have "map event_kind (ag_events o1) = [''OrderPlacedEvent'']"
        using h by (auto simp: order_histories_def order_statuses)
      then have "(map event_kind (ag_events o1) @ [''PaymentConfirmedEvent''], OrderStatusPaid) \<in> set order_histories"
        by (simp add: order_histories_def)
      then show ?thesis
        using True i order_apply [OF assms, of "new_order_event now ctx i PaymentConfirmedEvent"] OpConfirmPayment
        by (simp add: ConfirmPayment_def)
    qed (simp add: OpConfirmPayment ConfirmPayment_def assms)
  next
    case (OpShip now ctx)
    show ?thesis
    proof (cases "order_status o1 = OrderStatusPaid")
      case True
      then have "map event_kind (ag_events o1) = [''OrderPlacedEvent'', ''PaymentConfirmedEvent'']"
        using h by (auto simp: order_histories_def order_statuses)
      then have "(map event_kind (ag_events o1) @ [''OrderShippedEvent''], OrderStatusShipped) \<in> set order_histories"
        by (simp add: order_histories_def)
      then show ?thesis
        using True i order_apply [OF assms, of "new_order_event now ctx i OrderShippedEvent"] OpShip
        by (simp add: Ship_def)
    qed (simp add: OpShip Ship_def assms)
  next
    case (OpCancel now ctx r)
    show ?thesis
    proof (cases "order_status o1 = OrderStatusCancelled \<or> order_status o1 = OrderStatusShipped")
      case False
      then have "map event_kind (ag_events o1) = [''OrderPlacedEvent''] \<or>
          map event_kind (ag_events o1) = [''OrderPlacedEvent'', ''PaymentConfirmedEvent'']"
        using h by (auto simp: order_histories_def order_statuses)
      then have "(map event_kind (ag_events o1) @ [''OrderCancelledEvent''], OrderStatusCancelled) \<in> set order_histories"
        by (auto simp: order_histories_def)
      then show ?thesis
        using False i order_apply [OF assms, of "new_order_event now ctx i (OrderCancelledEvent r)"] OpCancel
        by (simp add: Order_Cancel_def)
    qed (auto simp: OpCancel Order_Cancel_def assms)
  qed
qed

lemma NewOrder_Inr:
  assumes "NewOrder fl now now2 ctx i userID items = Inr o1"
  shows "i \<noteq> [] \<and> userID \<noteq> [] \<and> items \<noteq> [] \<and> (\<forall>it\<in>set items. en_id (oi_Entity it) \<noteq> []) \<and>
    o1 = \<lparr>ag_root = \<lparr>ar_Entity = \<lparr>en_id = i\<rparr>, ar_version = 1, ar_snapshotVersion = -1,
            ar_uncommittedEvents = [new_order_event now2 ctx i (OrderPlacedEvent userID (calculateTotal fl items) (ItemNames items))]\<rparr>,
          ag_state = (empty_order_state fl)\<lparr>os_UserID := userID, os_Items := items, os_Status := OrderStatusPending,
            os_TotalAmount := calculateTotal fl items, os_CreatedAt := now2\<rparr>\<rparr>"
  using assms
  by (auto simp: NewOrder_def NewAggregateRoot_def NewEntity_def order_validate_def ApplyChange_def Let_def
      list_ex_iff Entity_IsEmpty_def split: sum.splits option.splits if_splits prod.splits)

lemma NewOrder_ok:
  "NewOrder fl now now2 ctx i userID items = Inr o1 \<Longrightarrow> order_ok i (ag_state o1) o1"
  using NewOrder_Inr [of fl now now2 ctx i userID items o1] by (auto simp: order_ok_def order_histories_def)

lemma orders_ok:
  "NewOrder fl now now2 ctx i userID items = Inr o1 \<Longrightarrow> order_ok i (ag_state o1) (foldl order_step o1 ops)"
  using foldl_inv [of ops "order_ok i (ag_state o1)" order_step o1] NewOrder_ok order_step_ok by blast

lemma order_facts:
  assumes "NewOrder fl now now2 ctx i userID items = Inr o1" and "o2 = foldl order_step o1 ops"
  shows "(map event_kind (ag_events o2), order_status o2) \<in> set order_histories"
    and "ag_id o2 = i" and "ag_version o2 = int (length (ag_events o2))" and "ag_events o2 \<noteq> []"
    and "os_UserID (ag_state o2) = userID" and "os_Items (ag_state o2) = items" and "items \<noteq> []" and "i \<noteq> []"
    and "os_TotalAmount (ag_state o2) = calculateTotal fl items"
    and "\<forall>e\<in>set (ag_events o2). agg_of e = i"
proof -
  note n = NewOrder_Inr [OF assms(1)]
  have ok: "order_ok i (ag_state o1) o2" using orders_ok [OF assms(1), of ops] assms(2) by simp
  then show h: "(map event_kind (ag_events o2), order_status o2) \<in> set order_histories" by (simp add: order_ok_def)
  show "ag_events o2 \<noteq> []" using h by (auto simp: order_histories_def)
  show "ag_id o2 = i" "ag_version o2 = int (length (ag_events o2))" "\<forall>e\<in>set (ag_events o2). agg_of e = i"
    using ok by (simp_all add: order_ok_def)
  show "os_UserID (ag_state o2) = userID" "os_Items (ag_state o2) = items" "items \<noteq> []" "i \<noteq> []"
    "os_TotalAmount (ag_state o2) = calculateTotal fl items"
    using ok n by (simp_all add: order_ok_def)
qed

text \<open>
  The order's state machine: whatever sequence of payments, shipments and cancellations is tried on a
  new order, its history is one of five: placed; placed and paid; placed, paid and shipped; placed and
  cancelled; placed, paid and cancelled; its status is the one that history ends in, and its user, items
  and total are those it was placed with.
\<close>

theorem order_state_machine:
  assumes "NewOrder fl now now2 ctx i userID items = Inr o1" and "o2 = foldl order_step o1 ops"
  shows "(map event_kind (UncommittedEvents (ag_root o2)), order_status o2) \<in> set order_histories \<and>
    ag_id o2 = i \<and> ag_version o2 = int (length (UncommittedEvents (ag_root o2))) \<and>
    os_UserID (ag_state o2) = userID \<and> os_Items (ag_state o2) = items \<and>
    os_TotalAmount (ag_state o2) = calculateTotal fl items"
  unfolding UncommittedEvents_def by (intro conjI order_facts [OF assms])

subsection \<open>Replaying an order\<close>

lemma Order_When_items:
  "Order_When e (s\<lparr>os_Items := xs\<rparr>) = (fst (Order_When e s), (snd (Order_When e s))\<lparr>os_Items := xs\<rparr>)"
  by (auto simp: Order_When_def Let_def split: goany.split gtype.split order_event.split)

lemma replay_items:
  "replay Order_When evs s = Some s' \<Longrightarrow> replay Order_When evs (s\<lparr>os_Items := xs\<rparr>) = Some (s'\<lparr>os_Items := xs\<rparr>)"
proof (induction evs arbitrary: s)
  case (Cons e evs)
  then obtain s1 where "Order_When e s = (None, s1)" "replay Order_When evs s1 = Some s'"
    by (auto split: prod.splits option.splits)
  then show ?case using Cons.IH [of s1] by (simp add: Order_When_items)
qed simp

lemma order_step_cases:
  "order_step o1 op = o1 \<or>
     (\<exists>e. fst (Order_When e (ag_state o1)) = None \<and> order_step o1 op = snd (ApplyChange Order_When e o1))"
proof (cases op)
  case (OpConfirmPayment now ctx)
  have "fst (Order_When (new_order_event now ctx (ag_id o1) PaymentConfirmedEvent) (ag_state o1)) = None" by simp
  then show ?thesis unfolding OpConfirmPayment order_step.simps ConfirmPayment_def by force
next
  case (OpShip now ctx)
  have "fst (Order_When (new_order_event now ctx (ag_id o1) OrderShippedEvent) (ag_state o1)) = None" by simp
  then show ?thesis unfolding OpShip order_step.simps Ship_def by force
next
  case (OpCancel now ctx r)
  have "fst (Order_When (new_order_event now ctx (ag_id o1) (OrderCancelledEvent r)) (ag_state o1)) = None" by simp
  then show ?thesis unfolding OpCancel order_step.simps Order_Cancel_def by force
qed

lemma order_step_changes: "\<exists>evs. apply_changes Order_When evs o1 = (None, order_step o1 op)"
  using order_step_cases [of o1 op]
proof
  assume "order_step o1 op = o1"
  then have "apply_changes Order_When [] o1 = (None, order_step o1 op)" by simp
  then show ?thesis by blast
next
  assume "\<exists>e. fst (Order_When e (ag_state o1)) = None \<and> order_step o1 op = snd (ApplyChange Order_When e o1)"
  then obtain e where e: "fst (Order_When e (ag_state o1)) = None" "order_step o1 op = snd (ApplyChange Order_When e o1)"
    by blast
  then obtain st where "Order_When e (ag_state o1) = (None, st)" by (metis prod.collapse)
  then have "apply_changes Order_When [e] o1 = (None, snd (ApplyChange Order_When e o1))"
    by (simp add: ApplyChange_def Let_def)
  then show ?thesis unfolding e(2) by blast
qed

lemma apply_changes_append:
  "apply_changes wh xs a = (None, b) \<Longrightarrow> apply_changes wh (xs @ ys) a = apply_changes wh ys b"
  by (induction wh xs a rule: apply_changes.induct) (auto split: prod.splits option.splits)

lemma order_steps_changes: "\<exists>evs. apply_changes Order_When evs o1 = (None, foldl order_step o1 ops)"
proof (induction ops rule: rev_induct)
  case (snoc op ops)
  then obtain evs where "apply_changes Order_When evs o1 = (None, foldl order_step o1 ops)" by blast
  moreover obtain evs' where "apply_changes Order_When evs' (foldl order_step o1 ops) = (None, foldl order_step o1 (ops @ [op]))"
    using order_step_changes [of "foldl order_step o1 ops" op] by auto
  ultimately show ?case using apply_changes_append by metis
qed (auto intro: exI [of _ "[]"])

lemma order_replays:
  assumes "NewOrder fl now now2 ctx i userID items = Inr o1" and "o2 = foldl order_step o1 ops"
  shows "replay Order_When (ag_events o2) (empty_order_state fl) = Some ((ag_state o2)\<lparr>os_Items := []\<rparr>)"
proof -
  let ?placed = "new_order_event now2 ctx i (OrderPlacedEvent userID (calculateTotal fl items) (ItemNames items))"
  note n = NewOrder_Inr [OF assms(1)]
  obtain evs where evs: "apply_changes Order_When evs o1 = (None, o2)"
    using order_steps_changes [of o1 ops] assms(2) by auto
  have ev: "ag_events o2 = ?placed # evs" and r: "replay Order_When evs (ag_state o1) = Some (ag_state o2)"
    using apply_changes_replays [OF evs] n by simp_all
  have s1: "(ag_state o1)\<lparr>os_Items := []\<rparr> = (empty_order_state fl)\<lparr>os_UserID := userID, os_TotalAmount := calculateTotal fl items,
      os_Status := OrderStatusPending, os_CreatedAt := now2\<rparr>"
    using n by (simp add: empty_order_state_def)
  have "replay Order_When (?placed # evs) (empty_order_state fl) = replay Order_When evs ((ag_state o1)\<lparr>os_Items := []\<rparr>)"
    by (simp add: s1)
  then show ?thesis using replay_items [OF r, of "[]"] ev by simp
qed

lemma order_rehydrated:
  assumes "NewOrder fl now now2 ctx i userID items = Inr o1" and "o2 = foldl order_step o1 ops"
  obtains o0 b where "NewOrderForReplay fl i = Ret o0" "LoadFromHistory Order_When (ag_events o2) o0 = (None, b)"
    "ag_id b = i" "ag_version b = ag_version o2" "ag_state b = (ag_state o2)\<lparr>os_Items := []\<rparr>" "ag_events b = []"
proof -
  note f = order_facts [OF assms]
  obtain o0 where o0: "NewOrderForReplay fl i = Ret o0" "ag_id o0 = i" "ag_version o0 = 0" "ag_events o0 = []"
      "ag_state o0 = empty_order_state fl"
    by (rule that [of "\<lparr>ag_root = \<lparr>ar_Entity = \<lparr>en_id = i\<rparr>, ar_version = 0, ar_snapshotVersion = -1,
          ar_uncommittedEvents = []\<rparr>, ag_state = empty_order_state fl\<rparr>"])
      (simp_all add: NewOrderForReplay_def NewAggregateRoot_def NewEntity_def f(8))
  have "replay Order_When (ag_events o2) (ag_state o0) = Some ((ag_state o2)\<lparr>os_Items := []\<rparr>)"
    using order_replays [OF assms] by (simp add: o0(5))
  from LoadFromHistory_replay [OF this] obtain b where
    b: "LoadFromHistory Order_When (ag_events o2) o0 = (None, b)" "ag_state b = (ag_state o2)\<lparr>os_Items := []\<rparr>"
    "ag_version b = ag_version o0 + int (length (ag_events o2))" "ag_events b = ag_events o0" "ag_id b = ag_id o0"
    by (elim exE conjE) (rule that; assumption)
  show ?thesis by (rule that [OF o0(1) b(1) _ _ b(2)]) (simp_all only: b(3-5) f(3) o0(2-4) add_0_left)
qed

text \<open>
  Replay loses the items: rehydrating an order from its own history gives back its identity, version,
  status, user, total and times, and an empty list of items, whatever was ordered, because the
  placed event carries the items' names only and \<open>When\<close> does not read them.
\<close>

theorem order_replay_loses_items:
  assumes "NewOrder fl now now2 ctx i userID items = Inr o1" and "o2 = foldl order_step o1 ops"
  shows "\<exists>o0 b. NewOrderForReplay fl i = Ret o0 \<and>
    LoadFromHistory Order_When (UncommittedEvents (ag_root o2)) o0 = (None, b) \<and>
    ag_id b = ag_id o2 \<and> ag_version b = ag_version o2 \<and> ag_state b = (ag_state o2)\<lparr>os_Items := []\<rparr> \<and>
    os_Items (ag_state o2) \<noteq> [] \<and> UncommittedEvents (ag_root b) = []"
proof -
  obtain o0 b where b: "NewOrderForReplay fl i = Ret o0" "LoadFromHistory Order_When (ag_events o2) o0 = (None, b)"
    "ag_id b = i" "ag_version b = ag_version o2" "ag_state b = (ag_state o2)\<lparr>os_Items := []\<rparr>" "ag_events b = []"
    by (rule order_rehydrated [OF assms])
  show ?thesis
    unfolding UncommittedEvents_def order_facts(2,6) [OF assms]
    by (intro exI [of _ o0] exI [of _ b] conjI) (rule b order_facts(7) [OF assms])+
qed

subsection \<open>Saving and loading an order\<close>

definition publishes :: "('e \<Rightarrow> 'w \<Rightarrow> go_error option outcome \<times> 'w) \<Rightarrow> bool" where
  "publishes p \<longleftrightarrow> (\<forall>e w. fst (p e w) = Ret None)"

text \<open>The bus after one publication of each event, in order.\<close>

definition after_publishing :: "('e \<Rightarrow> 'w \<Rightarrow> go_error option outcome \<times> 'w) \<Rightarrow> 'e list \<Rightarrow> 'w \<Rightarrow> 'w" where
  "after_publishing p evts bus = foldl (\<lambda>b e. snd (p e b)) bus evts"

lemma publish_all_ok: "publishes p \<Longrightarrow> publish_all p evts bus = (Ret None, after_publishing p evts bus)"
proof (induction evts arbitrary: bus)
  case (Cons e evts)
  obtain bus1 where "p e bus = (Ret None, bus1)"
    using Cons.prems by (metis prod.collapse publishes_def)
  then show ?case using Cons by (simp add: after_publishing_def)
qed (simp add: after_publishing_def)

text \<open>
  C16.  The order repository over the in-memory event store: a new order, after any operations, is saved once
  its events are appended and published: its stream is its history, the bus is the one that publishing each
  of its uncommitted events once, in order, leaves, its events are committed, the order repository has it, and
  \<open>Load\<close> rebuilds it from the store, without its items.
\<close>

theorem order_save_then_load:
  assumes "NewOrder fl now now2 ctx i userID items = Inr o1" and "o2 = foldl order_step o1 ops"
    and "es_wf es" and "es_Load es i 0 = Ret (Inr [])"
    and "p < length (ow_heap w)" and "ow_heap w ! p = o2"
    and "oer_append r = (\<lambda>a v evs s. Ret (es_Append a v evs s))" and "oer_load r = es_Load" and "publishes (oer_publish r)"
  shows "\<exists>es' bus' w' b. oer_Save r p (es, bus, w) = (Ret None, (es', bus', w')) \<and>
    bus' = after_publishing (oer_publish r) (UncommittedEvents (ag_root o2)) bus \<and>
    es_Load es' i 0 = Ret (Inr (UncommittedEvents (ag_root o2))) \<and>
    or_FindByID w' i = Inr p \<and> UncommittedEvents (ag_root (ow_heap w' ! p)) = [] \<and>
    oer_Load fl r es' i = Ret (Inr b) \<and> ag_id b = i \<and> ag_version b = ag_version o2 \<and>
    ag_state b = (ag_state o2)\<lparr>os_Items := []\<rparr>"
proof -
  note f = order_facts [OF assms(1,2)]
  have own: "\<forall>e\<in>set (ag_events o2). es_own i e" using f(10) by (simp add: es_own_def)
  have emp: "es_stream es i = []" using es_Load_wf [OF assms(3), of i 0] assms(4) by simp
  obtain e0 es' where ap: "es_Append i 0 (ag_events o2) es = (e0, es')" by (cases "es_Append i 0 (ag_events o2) es")
  then have es': "e0 = None" "es_Load es' i 0 = Ret (Inr (ag_events o2))"
    using mem_events.append_then_load [OF assms(3) own, of e0 es'] emp by simp_all
  let ?bus = "after_publishing (oer_publish r) (ag_events o2) bus"
  note bus' = publish_all_ok [OF assms(9), of "ag_events o2" bus]
  obtain o0 b where b: "NewOrderForReplay fl i = Ret o0" "LoadFromHistory Order_When (ag_events o2) o0 = (None, b)"
    "ag_id b = i" "ag_version b = ag_version o2" "ag_state b = (ag_state o2)\<lparr>os_Items := []\<rparr>" "ag_events b = []"
    by (rule order_rehydrated [OF assms(1,2)])
  let ?o = "o2\<lparr>ag_root := MarkEventsAsCommitted (ag_root o2)\<rparr>"
  let ?w = "w\<lparr>ow_heap := (ow_heap w)[p := ?o], ow_orders := gm_put (ow_orders w) i p\<rparr>"
  have id: "ag_id ?o = i" and new: "ag_events ?o = []" using f(2) by (simp_all add: MarkEventsAsCommitted_def)
  have v0: "ag_version o2 - int (length (ag_events o2)) = 0" using f(3) by simp
  have save: "oer_Save r p (es, bus, w) = (Ret None, (es', ?bus, ?w))"
    using f(2,4) v0 ap es'(1) bus' id assms(5,6)
    by (simp add: oer_Save_def UncommittedEvents_def or_Save_def assms(7))
  have "oer_Load fl r es' i = Ret (Inr b)"
    using b(1,2) es'(2) f(4) by (simp add: oer_Load_def assms(8))
  moreover have "or_FindByID ?w i = Inr p" by (simp add: or_FindByID_def)
  moreover have "ow_heap ?w ! p = ?o" using assms(5) by simp
  ultimately show ?thesis
    unfolding UncommittedEvents_def
    by (intro exI [of _ es'] exI [of _ ?bus] exI [of _ ?w] exI [of _ b] conjI)
      (simp_all only: save es'(2) b(3-5) new)
qed

text \<open>
  C20.  A failed publication is never repeated: when the store accepts the events and the bus then rejects one
  of them, \<open>Save\<close> fails, but the events are already committed, so saving again publishes nothing, touches
  neither store nor bus, and reports success.
\<close>

theorem order_publish_failure_lost:
  assumes "UncommittedEvents (ag_root (ow_heap w ! p)) = evts" and "evts \<noteq> []" and "p < length (ow_heap w)"
    and "oer_append r (ag_id (ow_heap w ! p)) (ag_version (ow_heap w ! p) - int (length evts)) evts es = Ret (None, es1)"
    and "publish_all (oer_publish r) evts bus = (Ret (Some err), bus1)"
  shows "\<exists>w1 w2. oer_Save r p (es, bus, w) = (Ret (Some err), (es1, bus1, w1)) \<and>
    ow_orders w1 = ow_orders w \<and>
    oer_Save r p (es1, bus1, w1) = (Ret None, (es1, bus1, w2)) \<and>
    or_FindByID w2 (ag_id (ow_heap w ! p)) = Inr p"
proof -
  let ?o = "ow_heap w ! p"
  let ?w1 = "w\<lparr>ow_heap := (ow_heap w)[p := ?o\<lparr>ag_root := MarkEventsAsCommitted (ag_root ?o)\<rparr>]\<rparr>"
  let ?w2 = "snd (or_Save p ?w1)"
  have ev: "ag_events ?o = evts" using assms(1) by (simp add: UncommittedEvents_def)
  have one: "oer_Save r p (es, bus, w) = (Ret (Some err), (es1, bus1, ?w1))"
    using ev assms(2,4,5) by (simp add: oer_Save_def UncommittedEvents_def Let_def)
  have new: "ag_events (ow_heap ?w1 ! p) = []" and id: "ag_id (ow_heap ?w1 ! p) = ag_id ?o"
    using assms(3) by (simp_all add: MarkEventsAsCommitted_def)
  have two: "oer_Save r p (es1, bus1, ?w1) = (Ret None, (es1, bus1, ?w2))"
    using new by (simp add: oer_Save_def UncommittedEvents_def or_Save_def)
  have "or_FindByID ?w2 (ag_id ?o) = Inr p" using id by (simp add: or_FindByID_def or_Save_def)
  with one two show ?thesis by (intro exI [of _ ?w1] exI [of _ ?w2] conjI) simp_all
qed

subsection \<open>Placing an order\<close>

lemma new_items_Panic: "i \<in> set is \<Longrightarrow> ii_ProductID i = [] \<Longrightarrow> \<exists>m. new_items is = Panic m"
  by (induction "is") (auto simp: NewOrderItem_def NewEntity_def)

definition input_item :: "'f ItemInput \<Rightarrow> 'f OrderItem" where
  "input_item i = \<lparr>oi_Entity = \<lparr>en_id = ii_ProductID i\<rparr>, oi_ProductName = ii_ProductName i, oi_Price = ii_Price i,
     oi_Quantity = ii_Quantity i\<rparr>"

lemma new_items_Ret:
  "\<forall>i\<in>set is. ii_ProductID i \<noteq> [] \<Longrightarrow> new_items is = Ret (map input_item is)"
  by (induction "is") (auto simp: NewOrderItem_def NewEntity_def  input_item_def)

lemma NewOrder_cases:
  assumes "i \<noteq> []" and "\<forall>it\<in>set items. en_id (oi_Entity it) \<noteq> []"
  shows "if userID = [] \<or> items = [] then \<exists>e. NewOrder fl now now2 ctx i userID items = Inl e
    else \<exists>o1. NewOrder fl now now2 ctx i userID items = Inr o1"
  using assms
  by (auto simp: NewOrder_def NewAggregateRoot_def NewEntity_def order_validate_def ApplyChange_def Let_def
      list_ex_iff Entity_IsEmpty_def AggregateRoot_Validate_def Entity_Validate_def)

text \<open>
  Placing an order.  The handler panics exactly when an item has no product id (\<open>NewOrderItem\<close> panics
  before \<open>validate\<close> can report it); without a user or items it fails and changes nothing; otherwise the
  order is pending under the returned id, with the requested items and their total, and every order
  stored under another id reads as before.
\<close>

theorem PlaceOrder_outcome:
  fixes w :: "'f order_world"
  assumes "uid \<noteq> []" and "PlaceOrder_Handle fl uid now now2 ctx userID inputs w = (r, w')"
  shows "if \<exists>i\<in>set inputs. ii_ProductID i = [] then (\<exists>m. r = Panic m) \<and> w' = w
    else if userID = [] \<or> inputs = [] then (\<exists>e. r = Ret (Inl e)) \<and> w' = w
    else \<exists>res v. r = Ret (Inr res) \<and> po_OrderID res = hex_EncodeToString uid \<and>
      GetOrder_Handle fl rfc (po_OrderID res) w' = Inr v \<and> gr_OrderID v = po_OrderID res \<and> gr_UserID v = userID \<and>
      gr_Status v = ''pending'' \<and> gr_TotalAmount v = po_TotalAmount res \<and>
      po_TotalAmount res = foldl (\<lambda>t i. fl_add fl t (fl_mul fl (ii_Price i) (fl_of_int fl (ii_Quantity i)))) (fl_zero fl) inputs \<and>
      map (\<lambda>i. (ov_ProductID i, ov_Quantity i)) (gr_Items v) = map (\<lambda>i. (ii_ProductID i, ii_Quantity i)) inputs \<and>
      (\<forall>i p. i \<noteq> po_OrderID res \<longrightarrow> or_FindByID w i = Inr p \<longrightarrow> p < length (ow_heap w) \<longrightarrow>
         GetOrder_Handle fl rfc i w' = GetOrder_Handle fl rfc i w)"
proof (cases "\<exists>i\<in>set inputs. ii_ProductID i = []")
  case True
  then obtain m where "new_items inputs = Panic m" using new_items_Panic by blast
  then have "r = Panic m" "w' = w" using assms(2) by (simp_all add: PlaceOrder_Handle_def)
  then show ?thesis using True by simp
next
  case False
  let ?items = "map input_item inputs" and ?i = "hex_EncodeToString uid"
  have items: "new_items inputs = Ret ?items" using False new_items_Ret by blast
  have i: "?i \<noteq> []" using assms(1) hex_length [of uid] by (metis length_0_conv mult_eq_0_iff zero_neq_numeral)
  have "\<forall>it\<in>set ?items. en_id (oi_Entity it) \<noteq> []" using False by (auto simp: input_item_def)
  note new = NewOrder_cases [OF i this, of userID fl now now2 ctx]
  show ?thesis
  proof (cases "userID = [] \<or> inputs = []")
    case bad: True
    then obtain e where "NewOrder fl now now2 ctx ?i userID ?items = Inl e" using new by auto
    then have "r = Ret (Inl e)" "w' = w" using assms(2) items by (simp_all add: PlaceOrder_Handle_def)
    then show ?thesis using False bad by simp
  next
    case good: False
    then obtain o1 where o1: "NewOrder fl now now2 ctx ?i userID ?items = Inr o1" using new by auto
    note f = order_facts [OF o1, of o1 "[]", simplified]
    have st: "order_status o1 = OrderStatusPending" using NewOrder_Inr [OF o1] by simp
    let ?w = "w\<lparr>ow_heap := ow_heap w @ [o1], ow_orders := gm_put (ow_orders w) ?i (length (ow_heap w))\<rparr>"
    let ?res = "\<lparr>po_OrderID = ?i, po_TotalAmount = os_TotalAmount (ag_state o1)\<rparr>"
    have r: "r = Ret (Inr ?res)" and w': "w' = ?w"
      using assms(2) items o1 f(2) by (simp_all add: PlaceOrder_Handle_def or_Save_def Let_def)
    have get: "GetOrder_Handle fl rfc ?i w' = Inr (toOrderView fl rfc o1)"
      by (simp add: w' GetOrder_Handle_def or_FindByID_def)
    have others: "\<forall>i p. i \<noteq> ?i \<longrightarrow> or_FindByID w i = Inr p \<longrightarrow> p < length (ow_heap w) \<longrightarrow>
         GetOrder_Handle fl rfc i w' = GetOrder_Handle fl rfc i w"
      by (auto simp: w' GetOrder_Handle_def or_FindByID_def nth_append split: option.splits)
    have total: "os_TotalAmount (ag_state o1) =
        foldl (\<lambda>t i. fl_add fl t (fl_mul fl (ii_Price i) (fl_of_int fl (ii_Quantity i)))) (fl_zero fl) inputs"
      unfolding f(9) calculateTotal_def foldl_map by (simp add: Subtotal_def input_item_def)
    have view: "map (\<lambda>i. (ov_ProductID i, ov_Quantity i)) (gr_Items (toOrderView fl rfc o1)) =
        map (\<lambda>i. (ii_ProductID i, ii_Quantity i)) inputs"
      using f(6) by (simp add: toOrderView_def Let_def input_item_def)
    have "\<exists>res v. r = Ret (Inr res) \<and> po_OrderID res = ?i \<and>
      GetOrder_Handle fl rfc (po_OrderID res) w' = Inr v \<and> gr_OrderID v = po_OrderID res \<and> gr_UserID v = userID \<and>
      gr_Status v = ''pending'' \<and> gr_TotalAmount v = po_TotalAmount res \<and>
      po_TotalAmount res = foldl (\<lambda>t i. fl_add fl t (fl_mul fl (ii_Price i) (fl_of_int fl (ii_Quantity i)))) (fl_zero fl) inputs \<and>
      map (\<lambda>i. (ov_ProductID i, ov_Quantity i)) (gr_Items v) = map (\<lambda>i. (ii_ProductID i, ii_Quantity i)) inputs \<and>
      (\<forall>i p. i \<noteq> po_OrderID res \<longrightarrow> or_FindByID w i = Inr p \<longrightarrow> p < length (ow_heap w) \<longrightarrow>
         GetOrder_Handle fl rfc i w' = GetOrder_Handle fl rfc i w)"
      by (rule exI [of _ ?res], rule exI [of _ "toOrderView fl rfc o1"])
        (use r get others total view f(2,5) st in \<open>simp add: toOrderView_def Let_def OrderStatusPending_def\<close>)
    then show ?thesis using False good by simp
  qed
qed

subsection \<open>Witnesses\<close>

definition sample_fl :: "int float_ops" where
  "sample_fl = \<lparr>fl_zero = 0, fl_add = (+), fl_mul = (*), fl_of_int = (\<lambda>x. x)\<rparr>"

definition sample_items :: "int OrderItem list" where
  "sample_items = [\<lparr>oi_Entity = \<lparr>en_id = ''pen''\<rparr>, oi_ProductName = ''Pen'', oi_Price = 3, oi_Quantity = 2\<rparr>]"

definition sample_order :: "int Order" where
  "sample_order = (case NewOrder sample_fl 5 6 ctx_Background ''o1'' ''ann'' sample_items of Inr o1 \<Rightarrow> o1 | Inl e \<Rightarrow> undefined)"

definition sample_ops :: "order_op list" where
  "sample_ops = [OpShip 7 ctx_Background, OpConfirmPayment 8 ctx_Background, OpCancel 9 ctx_Background ''late'', OpShip 10 ctx_Background]"

lemma sample_order: "NewOrder sample_fl 5 6 ctx_Background ''o1'' ''ann'' sample_items = Inr sample_order"
proof -
  have "userid \<noteq> [] \<Longrightarrow> \<exists>o1. NewOrder sample_fl 5 6 ctx_Background ''o1'' userid sample_items = Inr o1" for userid
    using NewOrder_cases [of "''o1''" sample_items userid sample_fl 5 6 ctx_Background] by (simp add: sample_items_def)
  then obtain o1 where "NewOrder sample_fl 5 6 ctx_Background ''o1'' ''ann'' sample_items = Inr o1" by blast
  then show ?thesis by (simp add: sample_order_def)
qed

theorem order_state_machine_witness:
  "order_status (foldl order_step sample_order sample_ops) \<in> snd ` set order_histories \<and>
   os_TotalAmount (ag_state (foldl order_step sample_order sample_ops)) = 6"
proof -
  have "calculateTotal sample_fl sample_items = 6"
    by (simp add: calculateTotal_def sample_fl_def sample_items_def Subtotal_def)
  then show ?thesis
    using order_state_machine [OF sample_order refl, of sample_ops] by force
qed

theorem order_replay_loses_items_witness:
  "\<exists>o0 b. NewOrderForReplay sample_fl ''o1'' = Ret o0 \<and>
    LoadFromHistory Order_When (UncommittedEvents (ag_root sample_order)) o0 = (None, b) \<and> os_Items (ag_state b) = []"
proof -
  obtain o0 b where "NewOrderForReplay sample_fl ''o1'' = Ret o0"
    "LoadFromHistory Order_When (UncommittedEvents (ag_root sample_order)) o0 = (None, b)"
    "ag_state b = (ag_state sample_order)\<lparr>os_Items := []\<rparr>"
    using order_replay_loses_items [OF sample_order, of sample_order "[]", simplified]
    by (elim exE conjE) (rule that; assumption)
  then show ?thesis by (intro exI [of _ o0] exI [of _ b]) simp
qed

text \<open>A bus that rejects nothing, and one that rejects everything; both count the publications.\<close>

definition sample_order_store :: "int order_event es_store" where
  "sample_order_store = (case NewEventSourceStore None [] of Inr s \<Rightarrow> s | Inl e \<Rightarrow> undefined)"

definition sample_repo :: "bool \<Rightarrow> (int, int order_event es_store, nat) order_es_repo" where
  "sample_repo ok =
     \<lparr>oer_append = (\<lambda>a v evs s. Ret (es_Append a v evs s)), oer_load = es_Load,
      oer_publish = (\<lambda>e n. (Ret (if ok then None else Some (ErrText ''bus closed'')), n + 1))\<rparr>"

definition sample_heap :: "int order_world" where
  "sample_heap = \<lparr>ow_heap = [sample_order], ow_orders = NewOrderRepository\<rparr>"

lemma sample_order_store_new: "NewEventSourceStore None [] = Inr sample_order_store"
  by (simp add: sample_order_store_def NewEventSourceStore_def)

theorem order_save_then_load_witness:
  "\<exists>es' w' b. oer_Save (sample_repo True) 0 (sample_order_store, 0, sample_heap) =
      (Ret None, (es', length (ag_events sample_order), w')) \<and>
    oer_Load sample_fl (sample_repo True) es' ''o1'' = Ret (Inr b) \<and> ag_version b = 1"
proof -
  have ld: "es_Load sample_order_store ''o1'' 0 = Ret (Inr [])"
    by (simp add: sample_order_store_def NewEventSourceStore_def es_Load_def)
  have v: "ag_version sample_order = 1"
    using NewOrder_Inr [OF sample_order] by (elim conjE) (erule ssubst, simp)
  have n: "after_publishing (oer_publish (sample_repo True)) evts k = k + length evts" for evts k
    by (induction evts arbitrary: k) (simp_all add: after_publishing_def sample_repo_def)
  show ?thesis
    using order_save_then_load [OF sample_order, of sample_order "[]" sample_order_store 0 sample_heap "sample_repo True" 0, unfolded n]
      NewEventSourceStore_wf [OF sample_order_store_new] ld v
    by (auto simp: sample_heap_def sample_repo_def publishes_def UncommittedEvents_def)
qed

theorem order_publish_failure_lost_witness:
  "\<exists>err st w2. oer_Save (sample_repo False) 0 (sample_order_store, 0, sample_heap) = (Ret (Some err), st) \<and>
    oer_Save (sample_repo False) 0 st = (Ret None, (fst st, fst (snd st), w2))"
proof -
  let ?o = "ow_heap sample_heap ! 0"
  have o: "?o = sample_order" by (simp add: sample_heap_def)
  note f = order_facts [OF sample_order, of sample_order "[]", simplified]
  obtain e0 es1 where ap: "es_Append ''o1'' 0 (ag_events sample_order) sample_order_store = (e0, es1)"
    by (cases "es_Append ''o1'' 0 (ag_events sample_order) sample_order_store")
  have own: "\<forall>e\<in>set (ag_events sample_order). es_own ''o1'' e" using f(10) by (simp add: es_own_def)
  have "es_stream sample_order_store ''o1'' = []"
    by (simp add: sample_order_store_def NewEventSourceStore_def)
  then have "e0 = None"
    using mem_events.append_then_load [OF NewEventSourceStore_wf [OF sample_order_store_new, THEN conjunct1] own, of e0 es1] ap by simp
  then have st: "oer_append (sample_repo False) (ag_id ?o) (ag_version ?o - int (length (ag_events sample_order)))
      (ag_events sample_order) sample_order_store = Ret (None, es1)"
    using ap f(2,3) by (simp add: o sample_repo_def)
  obtain e evts where e: "ag_events sample_order = e # evts" using f(4) by (cases "ag_events sample_order") auto
  have "publish_all (oer_publish (sample_repo False)) (ag_events sample_order) 0 =
      (Ret (Some (ErrWrap (''publish event '' @ event_T e @ '': '') (ErrText ''bus closed'') [])), 1)"
    by (simp add: e sample_repo_def)
  from order_publish_failure_lost [OF _ f(4) _ st this] show ?thesis
    by (fastforce simp: o UncommittedEvents_def sample_heap_def)
qed

theorem PlaceOrder_outcome_witness:
  "\<exists>res w'. PlaceOrder_Handle sample_fl [1] 5 6 ctx_Background ''ann''
      [\<lparr>ii_ProductID = ''pen'', ii_ProductName = ''Pen'', ii_Price = 3, ii_Quantity = 2\<rparr>] \<lparr>ow_heap = [], ow_orders = []\<rparr> =
    (Ret (Inr res), w') \<and> po_TotalAmount res = 6"
proof -
  let ?in = "[\<lparr>ii_ProductID = ''pen'', ii_ProductName = ''Pen'', ii_Price = 3, ii_Quantity = 2\<rparr>] :: int ItemInput list"
  let ?w = "\<lparr>ow_heap = [], ow_orders = []\<rparr> :: int order_world"
  obtain r w' where r: "PlaceOrder_Handle sample_fl [1] 5 6 ctx_Background ''ann'' ?in ?w = (r, w')"
    by (cases "PlaceOrder_Handle sample_fl [1] 5 6 ctx_Background ''ann'' ?in ?w")
  have "foldl (\<lambda>t i. fl_add sample_fl t (fl_mul sample_fl (ii_Price i) (fl_of_int sample_fl (ii_Quantity i)))) (fl_zero sample_fl) ?in = 6"
    by (simp add: sample_fl_def)
  then show ?thesis using PlaceOrder_outcome [OF _ r, of "\<lambda>t. []"] r by auto
qed

end
