(* ===== verification/OrderService.thy ===== *)
theory OrderService
  imports OrderModel
begin

text \<open>
  The order commands together, as a client sends them to the handlers of \<open>order/command/handlers.go\<close> over
  the in-memory repository, and the PostgreSQL order repository
  (\<open>exampleapp/ddd/order/repository/pg_repository.go\<close>).
\<close>

subsection \<open>Sequences of commands\<close>

text \<open>A command with the clock and the context of its handler; placing draws a UUID and reads the clock twice.\<close>

datatype 'f order_command =
    CPlace "nat list" time time go_ctx string "'f ItemInput list"
  | CConfirm time go_ctx string
  | CShip time go_ctx string
  | CCancel time go_ctx string string

fun order_handle :: "'f float_ops \<Rightarrow> 'f order_world \<Rightarrow> 'f order_command \<Rightarrow> 'f order_world" where
  "order_handle fl w (CPlace uid now now2 ctx userID inputs) = snd (PlaceOrder_Handle fl uid now now2 ctx userID inputs w)"
| "order_handle fl w (CConfirm now ctx i) = snd (ConfirmPayment_Handle now ctx i w)"
| "order_handle fl w (CShip now ctx i) = snd (ShipOrder_Handle now ctx i w)"
| "order_handle fl w (CCancel now ctx i reason) = snd (CancelOrder_Handle now ctx i reason w)"

definition order_world_empty :: "'f order_world" where
  "order_world_empty = \<lparr>ow_heap = [], ow_orders = NewOrderRepository\<rparr>"

text \<open>Every stored order is one that \<open>NewOrder\<close> made, some steps later.\<close>

definition orders_wf :: "'f order_world \<Rightarrow> bool" where
  "orders_wf w \<longleftrightarrow>
     (\<forall>i p. gm_get (ow_orders w) i = Some p \<longrightarrow> p < length (ow_heap w) \<and> (\<exists>s0. order_ok i s0 (ow_heap w ! p)))"

lemma orders_wf_update:
  assumes "orders_wf w" and "gm_get (ow_orders w) i = Some p" and "\<And>s0. order_ok i s0 (ow_heap w ! p) \<Longrightarrow> order_ok i s0 o1"
  shows "orders_wf (w\<lparr>ow_heap := (ow_heap w)[p := o1]\<rparr>)"
  unfolding orders_wf_def
proof (intro allI impI)
  fix j q assume "gm_get (ow_orders (w\<lparr>ow_heap := (ow_heap w)[p := o1]\<rparr>)) j = Some q"
  then have q: "gm_get (ow_orders w) j = Some q" by simp
  then obtain s0 where s0: "q < length (ow_heap w)" "order_ok j s0 (ow_heap w ! q)" using assms(1) unfolding orders_wf_def by blast
  have "order_ok j s0 ((ow_heap w)[p := o1] ! q)"
  proof (cases "q = p")
    case True
    obtain s1 where "order_ok i s1 (ow_heap w ! p)" using assms(1,2) unfolding orders_wf_def by blast
    then have "i = j" using s0(2) True by (simp add: order_ok_def)
    then show ?thesis using s0 True assms(3) by simp
  qed (use s0 in simp)
  then show "q < length (ow_heap (w\<lparr>ow_heap := (ow_heap w)[p := o1]\<rparr>)) \<and>
      (\<exists>s0. order_ok j s0 (ow_heap (w\<lparr>ow_heap := (ow_heap w)[p := o1]\<rparr>) ! q))"
    using s0(1) by auto
qed

lemma orders_wf_save:
  assumes "orders_wf w" and "gm_get (ow_orders w) i = Some p"
  shows "orders_wf (snd (or_Save p w))"
proof -
  obtain s0 where "p < length (ow_heap w)" "order_ok i s0 (ow_heap w ! p)" using assms unfolding orders_wf_def by blast
  then have "ag_id (ow_heap w ! p) = i" by (simp add: order_ok_def)
  then show ?thesis using assms by (simp add: or_Save_def orders_wf_def)
qed

text \<open>A handler that looks an order up, changes it with an operation of the state machine, and saves it.\<close>

lemma orders_wf_change:
  assumes "orders_wf w" and "gm_get (ow_orders w) i = Some p"
    and "\<And>s0 o1. order_ok i s0 o1 \<Longrightarrow> order_ok i s0 (snd (f o1))"
  shows "orders_wf (snd (on_heap p f w))" and "orders_wf (snd (or_Save p (snd (on_heap p f w))))"
proof -
  have w1: "snd (on_heap p f w) = w\<lparr>ow_heap := (ow_heap w)[p := snd (f (ow_heap w ! p))]\<rparr>"
    by (simp add: on_heap_def split: prod.split)
  show wf: "orders_wf (snd (on_heap p f w))"
    unfolding w1 by (rule orders_wf_update [OF assms(1,2)]) (rule assms(3))
  show "orders_wf (snd (or_Save p (snd (on_heap p f w))))"
    by (rule orders_wf_save [OF wf, of i]) (simp add: w1 assms(2))
qed

lemma find_cases:
  obtains (missing) "or_FindByID w i = Inl (order_not_found i)" "gm_get (ow_orders w) i = None"
  | (found) p where "or_FindByID w i = Inr p" "gm_get (ow_orders w) i = Some p"
  by (cases "gm_get (ow_orders w) i") (auto simp: or_FindByID_def)

lemma or_Save_fst [simp]: "fst (or_Save p w) = None"
  by (simp add: or_Save_def)

text \<open>The three handlers that change an order.\<close>

lemma order_step_keeps:
  "order_ok i s0 o1 \<Longrightarrow> order_ok i s0 (snd (ConfirmPayment now ctx o1))"
  "order_ok i s0 o1 \<Longrightarrow> order_ok i s0 (snd (Ship now ctx o1))"
  "order_ok i s0 o1 \<Longrightarrow> order_ok i s0 (snd (Order_Cancel now ctx r o1))"
  using order_step_ok [of i s0 o1 "OpConfirmPayment now ctx"] order_step_ok [of i s0 o1 "OpShip now ctx"]
    order_step_ok [of i s0 o1 "OpCancel now ctx r"] by simp_all

lemma change_and_save_wf:
  assumes "orders_wf w" and "gm_get (ow_orders w) i = Some p"
    and "\<And>s0 o1. order_ok i s0 o1 \<Longrightarrow> order_ok i s0 (snd (f o1))"
  shows "orders_wf (snd (case on_heap p f w of
             (Some err, w1) \<Rightarrow> (Inl err, w1)
           | (None, w1) \<Rightarrow> (case or_Save p w1 of (Some err, w2) \<Rightarrow> (Inl err, w2) | (None, w2) \<Rightarrow> (Inr True, w2))))"
proof -
  have wf: "orders_wf (snd (on_heap p f w))" "orders_wf (snd (or_Save p (snd (on_heap p f w))))"
    by (rule orders_wf_change [where i=i and f=f, OF assms(1,2)], rule assms(3), assumption)+
  show ?thesis
  proof (cases "on_heap p f w")
    case (Pair err w1)
    then show ?thesis using wf by (cases err; cases "or_Save p w1") (simp_all split: option.splits)
  qed
qed

lemma change_handlers_wf:
  assumes "orders_wf w"
  shows "orders_wf (snd (ConfirmPayment_Handle now ctx i w))" and "orders_wf (snd (ShipOrder_Handle now ctx i w))"
    and "orders_wf (snd (CancelOrder_Handle now ctx i r w))"
proof -
  show "orders_wf (snd (ConfirmPayment_Handle now ctx i w))"
  proof (cases rule: find_cases [of w i])
    case (found p)
    then show ?thesis
      unfolding ConfirmPayment_Handle_def by (simp add: change_and_save_wf [where f="ConfirmPayment now ctx", OF assms found(2) order_step_keeps(1)])
  qed (simp add: ConfirmPayment_Handle_def assms)
  show "orders_wf (snd (ShipOrder_Handle now ctx i w))"
  proof (cases rule: find_cases [of w i])
    case (found p)
    then show ?thesis
      unfolding ShipOrder_Handle_def by (simp add: change_and_save_wf [where f="Ship now ctx", OF assms found(2) order_step_keeps(2)])
  qed (simp add: ShipOrder_Handle_def assms)
  show "orders_wf (snd (CancelOrder_Handle now ctx i r w))"
  proof (cases rule: find_cases [of w i])
    case (found p)
    then show ?thesis
      unfolding CancelOrder_Handle_def by (simp add: change_and_save_wf [where f="Order_Cancel now ctx r", OF assms found(2) order_step_keeps(3)])
  qed (simp add: CancelOrder_Handle_def assms)
qed

lemma place_handler_wf:
  assumes "orders_wf w"
  shows "orders_wf (snd (PlaceOrder_Handle fl uid now now2 ctx userID inputs w))"
proof (cases "new_items inputs")
  case (Ret items)
  show ?thesis
  proof (cases "NewOrder fl now now2 ctx (hex_EncodeToString uid) userID items")
    case (Inl e)
    then show ?thesis using assms Ret by (simp add: PlaceOrder_Handle_def)
  next
    case (Inr o1)
    let ?i = "hex_EncodeToString uid"
    have ok: "order_ok ?i (ag_state o1) o1" by (rule NewOrder_ok [OF Inr])
    then have "ag_id o1 = ?i" by (simp add: order_ok_def)
    then have w': "snd (PlaceOrder_Handle fl uid now now2 ctx userID inputs w) =
        w\<lparr>ow_heap := ow_heap w @ [o1], ow_orders := gm_put (ow_orders w) ?i (length (ow_heap w))\<rparr>"
      using Ret Inr by (simp add: PlaceOrder_Handle_def or_Save_def Let_def)
    have "p < Suc (length (ow_heap w)) \<and> (\<exists>s0. order_ok i s0 ((ow_heap w @ [o1]) ! p))"
      if "gm_get (gm_put (ow_orders w) ?i (length (ow_heap w))) i = Some p" for i p
    proof (cases "i = ?i")
      case True
      then show ?thesis using that ok by auto
    next
      case False
      then have "gm_get (ow_orders w) i = Some p" using that by simp
      then have "p < length (ow_heap w)" "\<exists>s0. order_ok i s0 (ow_heap w ! p)" using assms unfolding orders_wf_def by blast+
      then show ?thesis by (simp add: nth_append)
    qed
    then show ?thesis unfolding w' orders_wf_def by simp
  qed
qed (simp add: PlaceOrder_Handle_def assms)

lemma order_handle_wf: "orders_wf w \<Longrightarrow> orders_wf (order_handle fl w c)"
  by (cases c) (simp_all add: change_handlers_wf place_handler_wf)

lemma order_commands_wf: "orders_wf w \<Longrightarrow> orders_wf (foldl (order_handle fl) w cs)"
  by (induction cs arbitrary: w) (simp_all add: order_handle_wf)

text \<open>
  C1.  Whatever commands clients send, every order a query shows has the status of one of the five
  histories and carries that whole history as uncommitted events: saving through the handlers' repository
  neither stores nor publishes an event, so the subscribers to the order's events are never called.
\<close>

theorem order_service_histories:
  assumes "w = foldl (order_handle fl) order_world_empty cs" and "GetOrder_Handle fl rfc i w = Inr v"
  shows "\<exists>p. or_FindByID w i = Inr p \<and> gr_OrderID v = i \<and>
    (map event_kind (UncommittedEvents (ag_root (ow_heap w ! p))), gr_Status v) \<in> set order_histories \<and>
    int (length (UncommittedEvents (ag_root (ow_heap w ! p)))) = ag_version (ow_heap w ! p)"
proof -
  have "orders_wf order_world_empty" by (simp add: orders_wf_def order_world_empty_def NewOrderRepository_def)
  then have wf: "orders_wf w" unfolding assms(1) by (rule order_commands_wf)
  show ?thesis
  proof (cases rule: find_cases [of w i])
    case (found p)
    then obtain s0 where ok: "order_ok i s0 (ow_heap w ! p)" using wf unfolding orders_wf_def by blast
    have v: "v = toOrderView fl rfc (ow_heap w ! p)" using assms(2) found(1) by (simp add: GetOrder_Handle_def)
    show ?thesis
      using ok found(1) unfolding v
      by (intro exI [of _ p]) (simp add: order_ok_def toOrderView_def UncommittedEvents_def Let_def)
  qed (use assms(2) in \<open>simp add: GetOrder_Handle_def\<close>)
qed

theorem order_service_histories_witness:
  "\<exists>v p. GetOrder_Handle sample_fl (\<lambda>t. []) ''0a'' (foldl (order_handle sample_fl) order_world_empty
       [CPlace [10] 5 6 ctx_Background ''ann'' [\<lparr>ii_ProductID = ''pen'', ii_ProductName = ''Pen'', ii_Price = 3, ii_Quantity = 2\<rparr>]]) = Inr v \<and>
     gr_OrderID v = ''0a'' \<and> (p, gr_Status v) \<in> set order_histories"
proof -
  let ?items = "[\<lparr>ii_ProductID = ''pen'', ii_ProductName = ''Pen'', ii_Price = 3, ii_Quantity = 2\<rparr>] :: int ItemInput list"
  let ?w = "foldl (order_handle sample_fl) order_world_empty [CPlace [10] 5 6 ctx_Background ''ann'' ?items]"
  have hex: "hex_EncodeToString [10] = ''0a''" by code_simp
  obtain o1 where o1: "NewOrder sample_fl 5 6 ctx_Background ''0a'' ''ann'' sample_items = Inr o1"
    using NewOrder_cases [of "''0a''" sample_items "''ann''" sample_fl 5 6 ctx_Background] by (auto simp: sample_items_def)
  have "order_ok ''0a'' (ag_state o1) o1" by (rule NewOrder_ok [OF o1])
  then have "ag_id o1 = ''0a''" by (simp add: order_ok_def)
  then have "gm_get (ow_orders ?w) ''0a'' = Some 0"
    using o1 by (simp add: PlaceOrder_Handle_def NewOrderItem_def NewEntity_def sample_items_def hex or_Save_def Let_def order_world_empty_def NewOrderRepository_def)
  then obtain v where v: "GetOrder_Handle sample_fl (\<lambda>t. []) ''0a'' ?w = Inr v"
    by (simp add: GetOrder_Handle_def or_FindByID_def del: foldl.simps)
  from order_service_histories [OF refl v] show ?thesis using v by blast
qed

end
