(* ===== verification/JsonHelpers.thy ===== *)
theory JsonHelpers
  imports Aggregates
begin

text \<open>
  The reflective JSON functions of entities and aggregates, \<open>domain/entity/json_helper.go\<close> and
  \<open>domain/aggregate/json_helper.go\<close>: they merge the JSON object of the embedded base struct with the
  tagged fields of the user's struct, and split such an object again.

  A user struct is the list of its fields as package \<open>reflect\<close> shows them.  A JSON object is the map of its
  keys to values of a type \<open>'j\<close>; \<open>encoding/json\<close> on the values is a record of functions, where decoding
  takes the value it decodes into.  Versions are integers that a float64 holds, since the base struct goes
  through \<open>map[string]interface{}\<close>.
\<close>

record ('g, 'j) json_lib =
  jl_text :: "string \<Rightarrow> 'j"
  jl_int :: "int \<Rightarrow> 'j"
  jl_time :: "time \<Rightarrow> go_error + 'j"
  jl_value :: "'g \<Rightarrow> go_error + 'j"
  jl_to_text :: "'j \<Rightarrow> string \<Rightarrow> go_error + string"
  jl_to_int :: "'j \<Rightarrow> int \<Rightarrow> go_error + int"
  jl_to_time :: "'j \<Rightarrow> time \<Rightarrow> go_error + time"
  jl_to_time_ptr :: "'j \<Rightarrow> time option \<Rightarrow> go_error + time option"
  jl_to_value :: "'j \<Rightarrow> 'g \<Rightarrow> go_error + 'g"

type_synonym 'j json_object = "(string, 'j) gomap"

text \<open>
  A field: \<open>fd_Struct\<close> and \<open>fd_TypeName\<close> are of its type without a pointer, \<open>fd_Base\<close> is the value of a
  field whose type is one of the three entity structs (or, with \<open>fd_Ptr\<close>, a pointer to it), and \<open>fd_Value\<close>
  the value of any other field.
\<close>

datatype base_val = BEntity Entity | BAuditable AuditableEntity | BSoft SoftDeletableEntity

record 'g sfield =
  fd_Exported :: bool
  fd_Anonymous :: bool
  fd_Ptr :: bool
  fd_Struct :: bool
  fd_TypeName :: string
  fd_Tag :: string
  fd_Base :: "base_val option"
  fd_Value :: 'g

text \<open>\<open>strings.Split(tag, ",")[0]\<close>.\<close>

definition json_key :: "string \<Rightarrow> string" where
  "json_key tag = takeWhile (\<lambda>c. c \<noteq> CHR '','') tag"

text \<open>The fields both loops work on: exported, no embedded base, with a tag.\<close>

definition is_domain_field :: "('g sfield \<Rightarrow> bool) \<Rightarrow> 'g sfield \<Rightarrow> bool" where
  "is_domain_field isEmbeddedBase f \<longleftrightarrow> fd_Exported f \<and> \<not> isEmbeddedBase f \<and> fd_Tag f \<noteq> [] \<and> fd_Tag f \<noteq> ''-''"

text \<open>The map of a merge: JSON values of the base, Go values of the domain fields.\<close>

datatype ('g, 'j) mval = MBase 'j | MDomain 'g

fun marshal_mval :: "('g, 'j) json_lib \<Rightarrow> ('g, 'j) mval \<Rightarrow> go_error + 'j" where
  "marshal_mval js (MBase j) = Inr j"
| "marshal_mval js (MDomain g) = jl_value js g"

fun marshal_map :: "('g, 'j) json_lib \<Rightarrow> (string, ('g, 'j) mval) gomap \<Rightarrow> go_error + 'j json_object" where
  "marshal_map js [] = Inr []"
| "marshal_map js ((k, v) # m) =
     (case marshal_mval js v of
        Inl err \<Rightarrow> Inl err
      | Inr j \<Rightarrow> (case marshal_map js m of Inl err \<Rightarrow> Inl err | Inr obj \<Rightarrow> Inr ((k, j) # obj)))"

text \<open>\<open>json.Marshal\<close> of a map goes by the sorted keys.\<close>

definition json_Marshal ::
    "('g, 'j) json_lib \<Rightarrow> (string, ('g, 'j) mval) gomap \<Rightarrow> go_error + 'j json_object" where
  "json_Marshal js m = marshal_map js (sort_key fst m)"

fun merge_domain :: "(string \<times> 'g) list \<Rightarrow> (string, ('g, 'j) mval) gomap \<Rightarrow> (string, ('g, 'j) mval) gomap" where
  "merge_domain [] m = m"
| "merge_domain ((k, g) # kvs) m = merge_domain kvs (gm_put m k (MDomain g))"

definition base_mvals :: "'j json_object \<Rightarrow> (string, ('g, 'j) mval) gomap" where
  "base_mvals obj = map (\<lambda>(k, j). (k, MBase j)) obj"

text \<open>Decoding one key of an object into a variable: a missing key leaves it.\<close>

definition decode_key :: "('j \<Rightarrow> 'x \<Rightarrow> go_error + 'x) \<Rightarrow> 'j json_object \<Rightarrow> string \<Rightarrow> 'x \<Rightarrow> go_error + 'x" where
  "decode_key dec obj k x = (case gm_get obj k of None \<Rightarrow> Inr x | Some j \<Rightarrow> dec j x)"

text \<open>The loop that decodes the domain fields; it stops at the first error with the fields it has set.\<close>

fun decode_fields ::
    "('g, 'j) json_lib \<Rightarrow> ('g sfield \<Rightarrow> bool) \<Rightarrow> string \<Rightarrow> 'j json_object \<Rightarrow> 'g sfield list \<Rightarrow> go_error option \<times> 'g sfield list" where
  "decode_fields js isEmbeddedBase what raw [] = (None, [])"
| "decode_fields js isEmbeddedBase what raw (f # fs) =
     (if \<not> is_domain_field isEmbeddedBase f
      then (case decode_fields js isEmbeddedBase what raw fs of (err, fs1) \<Rightarrow> (err, f # fs1))
      else (let jsonKey = json_key (fd_Tag f)
            in case gm_get raw jsonKey of
                 None \<Rightarrow> (case decode_fields js isEmbeddedBase what raw fs of (err, fs1) \<Rightarrow> (err, f # fs1))
               | Some rawMsg \<Rightarrow>
                   (case jl_to_value js rawMsg (fd_Value f) of
                      Inl err \<Rightarrow> (Some (ErrWrap (''unmarshal '' @ what @ '' field '' @ jsonKey @ '': '') err []), f # fs)
                    | Inr g \<Rightarrow>
                        (case decode_fields js isEmbeddedBase what raw fs of
                           (err, fs1) \<Rightarrow> (err, f\<lparr>fd_Value := g\<rparr> # fs1)))))"

text \<open>The keys of an object that are base keys.\<close>

definition restrict_keys :: "string list \<Rightarrow> 'j json_object \<Rightarrow> 'j json_object" where
  "restrict_keys ks raw = filter (\<lambda>(k, j). k \<in> set ks) raw"

subsection \<open>Aggregates\<close>

definition agg_isEmbeddedBase :: "'g sfield \<Rightarrow> bool" where
  "agg_isEmbeddedBase f \<longleftrightarrow> fd_Anonymous f \<and> fd_Struct f \<and>
     fd_TypeName f \<in> {''AggregateRoot'', ''Entity'', ''AuditableEntity'', ''SoftDeletableEntity''}"

definition root_object :: "('g, 'j) json_lib \<Rightarrow> AggregateRootJSON \<Rightarrow> 'j json_object" where
  "root_object js b =
     [(''id'', jl_text js (ej_ID (rj_EntityJSON b))), (''version'', jl_int js (rj_Version b)),
      (''snapshotVersion'', jl_int js (rj_SnapshotVersion b))]"

definition baseJSONKeys :: "('g, 'j) json_lib \<Rightarrow> AggregateRootJSON \<Rightarrow> string list" where
  "baseJSONKeys js b = map fst (root_object js b)"

fun agg_extractDomainFields :: "'g sfield list \<Rightarrow> (string \<times> 'g) list" where
  "agg_extractDomainFields [] = []"
| "agg_extractDomainFields (f # fs) =
     (if is_domain_field agg_isEmbeddedBase f then (json_key (fd_Tag f), fd_Value f) # agg_extractDomainFields fs
      else agg_extractDomainFields fs)"

text \<open>A user aggregate: its root and the fields of its struct.\<close>

record ('d, 'g) reflected =
  ra_root :: "'d agg_root"
  ra_fields :: "'g sfield list"

definition MarshalAggregate :: "('g, 'j) json_lib \<Rightarrow> ('d, 'g) reflected \<Rightarrow> go_error + 'j json_object" where
  "MarshalAggregate js agg =
     (let baseMap = base_mvals (root_object js (AggregateRoot_ToJSON (ra_root agg)));
          domainMap = agg_extractDomainFields (ra_fields agg)
      in json_Marshal js (merge_domain domainMap baseMap))"

text \<open>The argument is what \<open>json.Unmarshal\<close> of the data into a map of raw messages gives.\<close>

definition UnmarshalAggregate ::
    "('g, 'j) json_lib \<Rightarrow> go_error + 'j json_object \<Rightarrow> ('d, 'g) reflected \<Rightarrow> go_error option \<times> ('d, 'g) reflected" where
  "UnmarshalAggregate js data agg =
     (case data of
        Inl err \<Rightarrow> (Some (ErrWrap ''unmarshal aggregate: '' err []), agg)
      | Inr raw \<Rightarrow>
          (let root = ra_root agg;
               baseRaw = restrict_keys (baseJSONKeys js (AggregateRoot_ToJSON root)) raw
           in case (case decode_key (jl_to_text js) baseRaw ''id'' [] of
                      Inl err \<Rightarrow> Inl err
                    | Inr i \<Rightarrow>
                        (case decode_key (jl_to_int js) baseRaw ''version'' 0 of
                           Inl err \<Rightarrow> Inl err
                         | Inr v \<Rightarrow>
                             (case decode_key (jl_to_int js) baseRaw ''snapshotVersion'' 0 of
                                Inl err \<Rightarrow> Inl err
                              | Inr sv \<Rightarrow> Inr \<lparr>rj_EntityJSON = \<lparr>ej_ID = i\<rparr>, rj_Version = v, rj_SnapshotVersion = sv\<rparr>))) of
                Inl err \<Rightarrow> (Some (ErrWrap ''unmarshal aggregate base: '' err []), agg)
              | Inr baseJSON \<Rightarrow>
                  (let root1 = AggregateRoot_FromJSON baseJSON root
                   in case decode_fields js agg_isEmbeddedBase ''aggregate'' raw (ra_fields agg) of
                        (err, fs) \<Rightarrow> (err, agg\<lparr>ra_root := root1, ra_fields := fs\<rparr>))))"

subsection \<open>Entities\<close>

definition ent_isEmbeddedBase :: "'g sfield \<Rightarrow> bool" where
  "ent_isEmbeddedBase f \<longleftrightarrow> fd_Anonymous f \<and> fd_Struct f \<and>
     fd_TypeName f \<in> {''Entity'', ''AuditableEntity'', ''SoftDeletableEntity''}"

datatype base_json = JEntity EntityJSON | JAuditable AuditableEntityJSON | JSoft SoftDeletableEntityJSON

fun base_ToJSON :: "base_val \<Rightarrow> base_json" where
  "base_ToJSON (BEntity e) = JEntity (Entity_ToJSON e)"
| "base_ToJSON (BAuditable e) = JAuditable (AuditableEntity_ToJSON e)"
| "base_ToJSON (BSoft e) = JSoft (SoftDeletableEntity_ToJSON e)"

fun base_FromJSON :: "base_json \<Rightarrow> base_val \<Rightarrow> base_val option" where
  "base_FromJSON (JEntity j) (BEntity e) = Some (BEntity (Entity_FromJSON j e))"
| "base_FromJSON (JAuditable j) (BAuditable e) = Some (BAuditable (AuditableEntity_FromJSON j e))"
| "base_FromJSON (JSoft j) (BSoft e) = Some (BSoft (SoftDeletableEntity_FromJSON j e))"
| "base_FromJSON _ _ = None"

text \<open>\<open>structToMap\<close> of a base struct; \<open>deletedAt\<close> has \<open>omitempty\<close>.\<close>

definition audit_object :: "('g, 'j) json_lib \<Rightarrow> AuditableEntityJSON \<Rightarrow> go_error + 'j json_object" where
  "audit_object js j =
     (case jl_time js (aj_CreatedAt j) of
        Inl err \<Rightarrow> Inl err
      | Inr c \<Rightarrow>
          (case jl_time js (aj_UpdatedAt j) of
             Inl err \<Rightarrow> Inl err
           | Inr u \<Rightarrow> Inr [(''id'', jl_text js (ej_ID (aj_EntityJSON j))), (''createdAt'', c), (''updatedAt'', u)]))"

fun base_object :: "('g, 'j) json_lib \<Rightarrow> base_json \<Rightarrow> go_error + 'j json_object" where
  "base_object js (JEntity j) = Inr [(''id'', jl_text js (ej_ID j))]"
| "base_object js (JAuditable j) = audit_object js j"
| "base_object js (JSoft j) =
     (case audit_object js (sj_AuditableEntityJSON j) of
        Inl err \<Rightarrow> Inl err
      | Inr obj \<Rightarrow>
          (case sj_DeletedAt j of
             None \<Rightarrow> Inr obj
           | Some t \<Rightarrow> (case jl_time js t of Inl err \<Rightarrow> Inl err | Inr d \<Rightarrow> Inr (obj @ [(''deletedAt'', d)]))))"

text \<open>\<open>jsonKeysFromMap\<close>, whose error is dropped.\<close>

definition jsonKeysFromMap :: "('g, 'j) json_lib \<Rightarrow> base_json \<Rightarrow> string list" where
  "jsonKeysFromMap js j = (case base_object js j of Inl err \<Rightarrow> [] | Inr obj \<Rightarrow> map fst obj)"

fun zero_base :: "base_val \<Rightarrow> base_val" where
  "zero_base (BEntity e) = BEntity \<lparr>en_id = []\<rparr>"
| "zero_base (BAuditable e) = BAuditable \<lparr>ae_Entity = \<lparr>en_id = []\<rparr>, ae_createdAt = 0, ae_updatedAt = 0\<rparr>"
| "zero_base (BSoft e) =
     BSoft \<lparr>sd_AuditableEntity = \<lparr>ae_Entity = \<lparr>en_id = []\<rparr>, ae_createdAt = 0, ae_updatedAt = 0\<rparr>, sd_deletedAt = None\<rparr>"

text \<open>
  The first embedded struct with one of the three names.  \<open>addr\<close> says whether the struct was reached
  through a pointer; for a base embedded as a pointer the type assertion fails then.
\<close>

fun extractBase ::
    "('g, 'j) json_lib \<Rightarrow> bool \<Rightarrow> 'g sfield list \<Rightarrow> (go_error + base_json \<times> string list) outcome" where
  "extractBase js addr [] = Ret (Inl (ErrText ''no embedded Entity base found''))"
| "extractBase js addr (f # fs) =
     (if \<not> ent_isEmbeddedBase f then extractBase js addr fs
      else (case fd_Base f of
              None \<Rightarrow> Panic ''interface conversion''
            | Some b \<Rightarrow>
                if fd_Ptr f \<and> addr then Panic ''interface conversion''
                else (let jsonVal = base_ToJSON (if fd_Ptr f then zero_base b else b)
                      in Ret (Inr (jsonVal, jsonKeysFromMap js jsonVal)))))"

text \<open>\<open>fieldVal.Addr()\<close> panics for a struct that was not reached through a pointer.\<close>

fun applyBaseFromJSON :: "bool \<Rightarrow> base_json \<Rightarrow> 'g sfield list \<Rightarrow> 'g sfield list outcome" where
  "applyBaseFromJSON addr j [] = Ret []"
| "applyBaseFromJSON addr j (f # fs) =
     (if \<not> ent_isEmbeddedBase f then out_bind (applyBaseFromJSON addr j fs) (\<lambda>fs1. Ret (f # fs1))
      else if \<not> addr then Panic ''reflect.Value.Addr of unaddressable value''
      else if fd_Ptr f then Panic ''interface conversion''
      else (case fd_Base f of
              None \<Rightarrow> Panic ''interface conversion''
            | Some b \<Rightarrow>
                (case base_FromJSON j b of
                   None \<Rightarrow> Panic ''interface conversion''
                 | Some b1 \<Rightarrow> Ret (f\<lparr>fd_Base := Some b1\<rparr> # fs))))"

fun ent_extractDomainFields :: "string list \<Rightarrow> 'g sfield list \<Rightarrow> (string \<times> 'g) list" where
  "ent_extractDomainFields baseKeys [] = []"
| "ent_extractDomainFields baseKeys (f # fs) =
     (if is_domain_field ent_isEmbeddedBase f \<and> json_key (fd_Tag f) \<notin> set baseKeys
      then (json_key (fd_Tag f), fd_Value f) # ent_extractDomainFields baseKeys fs
      else ent_extractDomainFields baseKeys fs)"

definition MarshalEntity :: "('g, 'j) json_lib \<Rightarrow> bool \<Rightarrow> 'g sfield list \<Rightarrow> (go_error + 'j json_object) outcome" where
  "MarshalEntity js addr fs =
     out_bind (extractBase js addr fs)
       (\<lambda>r. case r of
          Inl err \<Rightarrow> Ret (Inl (ErrWrap ''marshal entity base: '' err []))
        | Inr (baseVal, baseKeys) \<Rightarrow>
            (case base_object js baseVal of
               Inl err \<Rightarrow> Ret (Inl (ErrWrap ''marshal entity base to map: '' err []))
             | Inr baseMap \<Rightarrow> Ret (json_Marshal js (merge_domain (ent_extractDomainFields baseKeys fs) (base_mvals baseMap)))))"

text \<open>Decoding into the base struct, which starts as the target's.\<close>

definition decode_audit :: "('g, 'j) json_lib \<Rightarrow> 'j json_object \<Rightarrow> AuditableEntityJSON \<Rightarrow> go_error + AuditableEntityJSON" where
  "decode_audit js obj j =
     (case decode_key (jl_to_text js) obj ''id'' (ej_ID (aj_EntityJSON j)) of
        Inl err \<Rightarrow> Inl err
      | Inr i \<Rightarrow>
          (case decode_key (jl_to_time js) obj ''createdAt'' (aj_CreatedAt j) of
             Inl err \<Rightarrow> Inl err
           | Inr c \<Rightarrow>
               (case decode_key (jl_to_time js) obj ''updatedAt'' (aj_UpdatedAt j) of
                  Inl err \<Rightarrow> Inl err
                | Inr u \<Rightarrow> Inr \<lparr>aj_EntityJSON = \<lparr>ej_ID = i\<rparr>, aj_CreatedAt = c, aj_UpdatedAt = u\<rparr>)))"

fun decode_base :: "('g, 'j) json_lib \<Rightarrow> 'j json_object \<Rightarrow> base_json \<Rightarrow> go_error + base_json" where
  "decode_base js obj (JEntity j) =
     (case decode_key (jl_to_text js) obj ''id'' (ej_ID j) of Inl err \<Rightarrow> Inl err | Inr i \<Rightarrow> Inr (JEntity \<lparr>ej_ID = i\<rparr>))"
| "decode_base js obj (JAuditable j) =
     (case decode_audit js obj j of Inl err \<Rightarrow> Inl err | Inr a \<Rightarrow> Inr (JAuditable a))"
| "decode_base js obj (JSoft j) =
     (case decode_audit js obj (sj_AuditableEntityJSON j) of
        Inl err \<Rightarrow> Inl err
      | Inr a \<Rightarrow>
          (case decode_key (jl_to_time_ptr js) obj ''deletedAt'' (sj_DeletedAt j) of
             Inl err \<Rightarrow> Inl err
           | Inr d \<Rightarrow> Inr (JSoft \<lparr>sj_AuditableEntityJSON = a, sj_DeletedAt = d\<rparr>)))"

definition UnmarshalEntity ::
    "('g, 'j) json_lib \<Rightarrow> bool \<Rightarrow> go_error + 'j json_object \<Rightarrow> 'g sfield list \<Rightarrow> (go_error option \<times> 'g sfield list) outcome" where
  "UnmarshalEntity js addr data fs =
     (case data of
        Inl err \<Rightarrow> Ret (Some (ErrWrap ''unmarshal entity: '' err []), fs)
      | Inr raw \<Rightarrow>
          out_bind (extractBase js addr fs)
            (\<lambda>r. case r of
               Inl err \<Rightarrow> Ret (Some (ErrWrap ''unmarshal entity base extract: '' err []), fs)
             | Inr (baseVal, baseKeys) \<Rightarrow>
                 (case decode_base js (restrict_keys baseKeys raw) baseVal of
                    Inl err \<Rightarrow> Ret (Some (ErrWrap ''unmarshal entity base: '' err []), fs)
                  | Inr base \<Rightarrow>
                      out_bind (applyBaseFromJSON addr base fs)
                        (\<lambda>fs1. Ret (decode_fields js ent_isEmbeddedBase ''entity'' raw fs1)))))"

subsection \<open>What an object keeps\<close>

lemma root_object_ok [simp]: "gm_ok (root_object js b)"
  by (simp add: root_object_def gm_ok_def)

lemma marshal_map_get:
  "marshal_map js m = Inr obj \<Longrightarrow>
     (case gm_get m k of None \<Rightarrow> gm_get obj k = None | Some v \<Rightarrow> \<exists>j. marshal_mval js v = Inr j \<and> gm_get obj k = Some j)"
proof (induction m arbitrary: obj)
  case (Cons p m)
  obtain k' v where p: "p = (k', v)" by (cases p)
  obtain j obj' where j: "marshal_mval js v = Inr j" "marshal_map js m = Inr obj'" "obj = (k', j) # obj'"
    using Cons.prems by (auto simp: p split: sum.splits)
  show ?case using Cons.IH [OF j(2)] j(1) unfolding j(3) by (cases "k = k'") (auto simp: p gm_get_def split: option.splits)
qed simp

lemma gm_get_sorted:
  assumes "gm_ok m"
  shows "gm_get (sort_key fst m) k = gm_get m k"
proof -
  have "map_of (sort_key fst m) = map_of m"
    using assms by (subst map_of_inject_set) (simp_all add: gm_ok_def distinct_map)
  then show ?thesis by (simp add: gm_get_def)
qed

lemma json_Marshal_get:
  assumes "json_Marshal js m = Inr obj" and "gm_ok m"
  shows "case gm_get m k of None \<Rightarrow> gm_get obj k = None | Some v \<Rightarrow> \<exists>j. marshal_mval js v = Inr j \<and> gm_get obj k = Some j"
  using marshal_map_get [OF assms(1) [unfolded json_Marshal_def], of k] by (simp add: gm_get_sorted [OF assms(2)])

lemma merge_domain_ok [simp]: "gm_ok m \<Longrightarrow> gm_ok (merge_domain kvs m)"
  by (induction kvs m rule: merge_domain.induct) auto

lemma merge_domain_other: "k \<notin> fst ` set kvs \<Longrightarrow> gm_get (merge_domain kvs m) k = gm_get m k"
  by (induction kvs m rule: merge_domain.induct) auto

lemma merge_domain_get:
  "distinct (map fst kvs) \<Longrightarrow> (k, g) \<in> set kvs \<Longrightarrow> gm_get (merge_domain kvs m) k = Some (MDomain g)"
proof (induction kvs m rule: merge_domain.induct)
  case (2 k' g' kvs m)
  show ?case
  proof (cases "(k, g) = (k', g')")
    case True
    then have "k \<notin> fst ` set kvs" using "2.prems"(1) by simp
    then show ?thesis using True by (simp add: merge_domain_other)
  next
    case False
    then show ?thesis using "2.IH" "2.prems" by auto
  qed
qed simp

lemma base_mvals_get [simp]: "gm_get (base_mvals obj) k = map_option MBase (gm_get obj k)"
  by (induction obj) (auto simp: base_mvals_def gm_get_def)

lemma base_mvals_ok [simp]: "gm_ok (base_mvals obj) \<longleftrightarrow> gm_ok obj"
  by (simp add: gm_ok_def base_mvals_def comp_def case_prod_beta)

lemma restrict_keys_get [simp]: "gm_get (restrict_keys ks raw) k = (if k \<in> set ks then gm_get raw k else None)"
  by (induction raw) (auto simp: restrict_keys_def gm_get_def)

subsection \<open>Round trips\<close>

text \<open>
  \<open>encoding/json\<close> does not restore everything it writes: invalid UTF-8 is replaced, a number in a
  \<open>map[string]interface{}\<close> is a float64, a map is merged into the variable's.  What a round trip
  needs is said of the values at hand only: the JSON of \<open>g\<close>, decoded into a variable that holds \<open>x\<close>,
  gives \<open>g\<close> again.
\<close>

definition value_survives :: "('g, 'j) json_lib \<Rightarrow> 'g \<Rightarrow> 'g \<Rightarrow> bool" where
  "value_survives js g x \<longleftrightarrow> (\<forall>j. jl_value js g = Inr j \<longrightarrow> jl_to_value js j x = Inr g)"

definition time_survives :: "('g, 'j) json_lib \<Rightarrow> time \<Rightarrow> time \<Rightarrow> bool" where
  "time_survives js t x \<longleftrightarrow> (\<forall>j. jl_time js t = Inr j \<longrightarrow> jl_to_time js j x = Inr t)"

definition time_ptr_survives :: "('g, 'j) json_lib \<Rightarrow> time \<Rightarrow> time option \<Rightarrow> bool" where
  "time_ptr_survives js t x \<longleftrightarrow> (\<forall>j. jl_time js t = Inr j \<longrightarrow> jl_to_time_ptr js j x = Inr (Some t))"

text \<open>A root's identity and versions, into the zero value \<open>UnmarshalAggregate\<close> decodes them into.\<close>

definition root_survives :: "('g, 'j) json_lib \<Rightarrow> 'd agg_root \<Rightarrow> bool" where
  "root_survives js r \<longleftrightarrow>
     jl_to_text js (jl_text js (en_id (ar_Entity r))) [] = Inr (en_id (ar_Entity r)) \<and>
     jl_to_int js (jl_int js (ar_version r)) 0 = Inr (ar_version r) \<and>
     jl_to_int js (jl_int js (ar_snapshotVersion r)) 0 = Inr (ar_snapshotVersion r)"

text \<open>A soft-deletable base \<open>e\<close> into the variables of the target's base \<open>e'\<close>.\<close>

definition soft_survives :: "('g, 'j) json_lib \<Rightarrow> SoftDeletableEntity \<Rightarrow> SoftDeletableEntity \<Rightarrow> bool" where
  "soft_survives js e e' \<longleftrightarrow>
     (let a = sd_AuditableEntity e; a' = sd_AuditableEntity e'
      in jl_to_text js (jl_text js (en_id (ae_Entity a))) (en_id (ae_Entity a')) = Inr (en_id (ae_Entity a)) \<and>
         time_survives js (ae_createdAt a) (ae_createdAt a') \<and> time_survives js (ae_updatedAt a) (ae_updatedAt a') \<and>
         (case sd_deletedAt e of None \<Rightarrow> True | Some t \<Rightarrow> time_ptr_survives js t (sd_deletedAt e')))"

text \<open>The same struct with other values, and what a round trip makes of a field.\<close>

definition same_field :: "'g sfield \<Rightarrow> 'g sfield \<Rightarrow> bool" where
  "same_field f f' \<longleftrightarrow> f'\<lparr>fd_Base := fd_Base f, fd_Value := fd_Value f\<rparr> = f"

definition restored :: "('g sfield \<Rightarrow> bool) \<Rightarrow> 'g sfield \<Rightarrow> 'g sfield \<Rightarrow> 'g sfield" where
  "restored isEmbeddedBase f f' = (if is_domain_field isEmbeddedBase f then f'\<lparr>fd_Value := fd_Value f\<rparr> else f')"

text \<open>The keys of the domain fields are distinct and none is a key of the base.\<close>

definition tags_ok :: "('g sfield \<Rightarrow> bool) \<Rightarrow> string list \<Rightarrow> 'g sfield list \<Rightarrow> bool" where
  "tags_ok isEmbeddedBase reserved fs \<longleftrightarrow>
     (let keys = map (\<lambda>f. json_key (fd_Tag f)) (filter (is_domain_field isEmbeddedBase) fs)
      in distinct keys \<and> list_all (\<lambda>k. k \<notin> set reserved) keys)"

text \<open>Every domain field's value into the variable of the same field of the target.\<close>

definition fields_survive :: "('g, 'j) json_lib \<Rightarrow> ('g sfield \<Rightarrow> bool) \<Rightarrow> 'g sfield list \<Rightarrow> 'g sfield list \<Rightarrow> bool" where
  "fields_survive js isB fs fs' \<longleftrightarrow>
     list_all2 (\<lambda>f f'. is_domain_field isB f \<longrightarrow> value_survives js (fd_Value f) (fd_Value f')) fs fs'"

lemma decode_fields_restores:
  assumes "list_all2 same_field fs fs'"
    and "\<forall>f\<in>set fs. is_domain_field isB f \<longrightarrow> (\<exists>j. gm_get raw (json_key (fd_Tag f)) = Some j \<and> jl_value js (fd_Value f) = Inr j)"
    and "fields_survive js isB fs fs'"
    and "\<And>f g b. isB (f\<lparr>fd_Base := b, fd_Value := g\<rparr>) = isB f"
  shows "decode_fields js isB what raw fs' = (None, map2 (restored isB) fs fs')"
  using assms(1,2,3)
proof (induction fs fs' rule: list_all2_induct)
  case (Cons f fs f' fs')
  have IH: "decode_fields js isB what raw fs' = (None, map2 (restored isB) fs fs')" using Cons by (simp add: fields_survive_def)
  have "f = f'\<lparr>fd_Base := fd_Base f, fd_Value := fd_Value f\<rparr>" using Cons.hyps(1) by (simp add: same_field_def)
  then obtain b g where f: "f = f'\<lparr>fd_Base := b, fd_Value := g\<rparr>" by blast
  have d: "is_domain_field isB f' \<longleftrightarrow> is_domain_field isB f" "fd_Tag f' = fd_Tag f"
    unfolding f by (simp_all add: is_domain_field_def assms(4))
  show ?case
  proof (cases "is_domain_field isB f")
    case True
    then obtain j where "gm_get raw (json_key (fd_Tag f)) = Some j" "jl_to_value js j (fd_Value f') = Inr (fd_Value f)"
      using Cons.prems by (auto simp: fields_survive_def value_survives_def)
    then show ?thesis using True IH d by (simp add: restored_def Let_def)
  next
    case False
    then show ?thesis using IH d by (simp add: restored_def)
  qed
qed simp

lemma agg_domain_fields:
  "agg_extractDomainFields fs = map (\<lambda>f. (json_key (fd_Tag f), fd_Value f)) (filter (is_domain_field agg_isEmbeddedBase) fs)"
  by (induction fs) simp_all

lemma ent_domain_fields:
  "tags_ok ent_isEmbeddedBase ks fs \<Longrightarrow> set ks' \<subseteq> set ks \<Longrightarrow>
     ent_extractDomainFields ks' fs = map (\<lambda>f. (json_key (fd_Tag f), fd_Value f)) (filter (is_domain_field ent_isEmbeddedBase) fs)"
  by (induction fs) (auto simp: tags_ok_def Let_def)

text \<open>The object of a merge: every domain field under its key, everything else from the base.\<close>

lemma merged_object:
  assumes "tags_ok isB reserved fs" and "gm_ok base"
    and "json_Marshal js (merge_domain (map (\<lambda>f. (json_key (fd_Tag f), fd_Value f)) (filter (is_domain_field isB) fs)) (base_mvals base)) = Inr obj"
  shows "\<forall>f\<in>set fs. is_domain_field isB f \<longrightarrow>
      (\<exists>j. gm_get obj (json_key (fd_Tag f)) = Some j \<and> jl_value js (fd_Value f) = Inr j)"
    and "k \<in> set reserved \<Longrightarrow> gm_get obj k = gm_get base k"
proof -
  let ?kvs = "map (\<lambda>f. (json_key (fd_Tag f), fd_Value f)) (filter (is_domain_field isB) fs)"
  have ok: "gm_ok (merge_domain ?kvs (base_mvals base))" using assms(2) by simp
  note get = json_Marshal_get [OF assms(3) ok]
  have dist: "distinct (map fst ?kvs)" using assms(1) by (simp add: tags_ok_def Let_def o_def)
  show "\<forall>f\<in>set fs. is_domain_field isB f \<longrightarrow>
      (\<exists>j. gm_get obj (json_key (fd_Tag f)) = Some j \<and> jl_value js (fd_Value f) = Inr j)"
  proof (intro ballI impI)
    fix f assume "f \<in> set fs" "is_domain_field isB f"
    then have "(json_key (fd_Tag f), fd_Value f) \<in> set ?kvs" by auto
    from merge_domain_get [OF dist this, of "base_mvals base"] get [of "json_key (fd_Tag f)"]
    show "\<exists>j. gm_get obj (json_key (fd_Tag f)) = Some j \<and> jl_value js (fd_Value f) = Inr j" by auto
  qed
  assume "k \<in> set reserved"
  then have "k \<notin> fst ` set ?kvs" using assms(1) by (auto simp: tags_ok_def list_all_iff Let_def)
  from merge_domain_other [OF this, of "base_mvals base"]
  have "gm_get (merge_domain ?kvs (base_mvals base)) k = map_option MBase (gm_get base k)"
    by (simp only: base_mvals_get)
  then show "gm_get obj k = gm_get base k" using get [of k] by (cases "gm_get base k") auto
qed

lemma aggregate_unmarshal_restores:
  assumes "MarshalAggregate js a = Inr obj"
    and "tags_ok agg_isEmbeddedBase [''id'', ''version'', ''snapshotVersion''] (ra_fields a)"
    and "list_all2 same_field (ra_fields a) (ra_fields b)"
    and "root_survives js (ra_root a)" and "fields_survive js agg_isEmbeddedBase (ra_fields a) (ra_fields b)"
  shows "UnmarshalAggregate js (Inr obj) b =
    (None, b\<lparr>ra_root := (ra_root a)\<lparr>ar_uncommittedEvents := ar_uncommittedEvents (ra_root b)\<rparr>,
             ra_fields := map2 (restored agg_isEmbeddedBase) (ra_fields a) (ra_fields b)\<rparr>)"
proof -
  let ?base = "root_object js (AggregateRoot_ToJSON (ra_root a))"
  have ok: "gm_ok ?base" by simp
  have m: "json_Marshal js (merge_domain (map (\<lambda>f. (json_key (fd_Tag f), fd_Value f))
      (filter (is_domain_field agg_isEmbeddedBase) (ra_fields a))) (base_mvals ?base)) = Inr obj"
    using assms(1) by (simp add: MarshalAggregate_def agg_domain_fields Let_def)
  note obj = merged_object [OF assms(2) ok m]
  have base: "gm_get obj ''id'' = Some (jl_text js (en_id (ar_Entity (ra_root a))))"
    "gm_get obj ''version'' = Some (jl_int js (ar_version (ra_root a)))"
    "gm_get obj ''snapshotVersion'' = Some (jl_int js (ar_snapshotVersion (ra_root a)))"
    using obj(2) [of "''id''"] obj(2) [of "''version''"] obj(2) [of "''snapshotVersion''"]
    by (simp_all add: root_object_def gm_get_def AggregateRoot_ToJSON_def Entity_ToJSON_def)
  have fields: "decode_fields js agg_isEmbeddedBase what obj (ra_fields b) =
      (None, map2 (restored agg_isEmbeddedBase) (ra_fields a) (ra_fields b))" for what
    by (rule decode_fields_restores [OF assms(3) obj(1) assms(5)]) (simp add: agg_isEmbeddedBase_def)
  note laws = assms(4) [unfolded root_survives_def]
  have keys: "baseJSONKeys js r = [''id'', ''version'', ''snapshotVersion'']" for r
    by (simp add: baseJSONKeys_def root_object_def)
  show ?thesis
    by (cases "ra_root a"; cases "ra_root b")
      (use base laws in \<open>simp add: UnmarshalAggregate_def keys decode_key_def fields AggregateRoot_FromJSON_def
         Entity_FromJSON_def Let_def\<close>)
qed

text \<open>
  C25.  Aggregates survive their JSON.  Take a struct whose domain fields have distinct keys, none of them a key
  of the root, and whose identity, versions and domain values each survive being encoded and decoded into the
  variable they are decoded into.  Then the object of \<open>MarshalAggregate\<close> restores into another value of the
  struct the identity, the versions and every exported tagged field, and leaves its uncommitted events and
  untagged fields.  Without the condition on the keys a field overwrites the root's entry
  (\<open>base_keys_clash\<close> below).
\<close>

theorem aggregate_json_roundtrip:
  assumes "MarshalAggregate js a = Inr obj"
    and "tags_ok agg_isEmbeddedBase [''id'', ''version'', ''snapshotVersion''] (ra_fields a)"
    and "list_all2 same_field (ra_fields a) (ra_fields b)"
    and "root_survives js (ra_root a)" and "fields_survive js agg_isEmbeddedBase (ra_fields a) (ra_fields b)"
  shows "UnmarshalAggregate js (Inr obj) b =
    (None, b\<lparr>ra_root := (ra_root a)\<lparr>ar_uncommittedEvents := ar_uncommittedEvents (ra_root b)\<rparr>,
             ra_fields := map2 (restored agg_isEmbeddedBase) (ra_fields a) (ra_fields b)\<rparr>)"
  by (rule aggregate_unmarshal_restores [OF assms])

text \<open>What \<open>UnmarshalEntity\<close> makes of the deletion time of its target.\<close>

definition restored_deletion :: "time option \<Rightarrow> time option \<Rightarrow> time option" where
  "restored_deletion source target = (if target = None then None else if source = None then target else source)"

text \<open>The object of a soft-deletable base, key by key.\<close>

lemma soft_keys:
  assumes "base_object js (base_ToJSON (BSoft e)) = Inr obj"
  shows "set (map fst obj) = {''id'', ''createdAt'', ''updatedAt''} \<union> (if sd_deletedAt e = None then {} else {''deletedAt''})"
    and "gm_ok obj"
    and "gm_get obj ''id'' = Some (jl_text js (en_id (ae_Entity (sd_AuditableEntity e))))"
    and "\<exists>c. jl_time js (ae_createdAt (sd_AuditableEntity e)) = Inr c \<and> gm_get obj ''createdAt'' = Some c"
    and "\<exists>u. jl_time js (ae_updatedAt (sd_AuditableEntity e)) = Inr u \<and> gm_get obj ''updatedAt'' = Some u"
    and "case sd_deletedAt e of None \<Rightarrow> gm_get obj ''deletedAt'' = None
         | Some t \<Rightarrow> \<exists>d. jl_time js t = Inr d \<and> gm_get obj ''deletedAt'' = Some d"
proof -
  obtain c where c: "jl_time js (ae_createdAt (sd_AuditableEntity e)) = Inr c"
    using assms by (cases "jl_time js (ae_createdAt (sd_AuditableEntity e))") (auto simp: audit_object_def entity_json_defs)
  obtain u where u: "jl_time js (ae_updatedAt (sd_AuditableEntity e)) = Inr u"
    using assms c by (cases "jl_time js (ae_updatedAt (sd_AuditableEntity e))") (auto simp: audit_object_def entity_json_defs)
  let ?i = "jl_text js (en_id (ae_Entity (sd_AuditableEntity e)))"
  have "set (map fst obj) = {''id'', ''createdAt'', ''updatedAt''} \<union> (if sd_deletedAt e = None then {} else {''deletedAt''}) \<and>
    gm_ok obj \<and> gm_get obj ''id'' = Some ?i \<and> gm_get obj ''createdAt'' = Some c \<and> gm_get obj ''updatedAt'' = Some u \<and>
    (case sd_deletedAt e of None \<Rightarrow> gm_get obj ''deletedAt'' = None
     | Some t \<Rightarrow> \<exists>d. jl_time js t = Inr d \<and> gm_get obj ''deletedAt'' = Some d)"
  proof (cases "sd_deletedAt e")
    case None
    then have "obj = [(''id'', ?i), (''createdAt'', c), (''updatedAt'', u)]"
      using assms c u by (simp add: audit_object_def entity_json_defs)
    then show ?thesis unfolding None by (simp add: gm_ok_def gm_get_def)
  next
    case (Some t)
    obtain d where d: "jl_time js t = Inr d" "obj = [(''id'', ?i), (''createdAt'', c), (''updatedAt'', u), (''deletedAt'', d)]"
      using assms c u Some by (cases "jl_time js t") (auto simp: audit_object_def entity_json_defs)
    show ?thesis unfolding d(2) Some by (simp add: gm_ok_def gm_get_def d(1) insert_commute)
  qed
  then show "set (map fst obj) = {''id'', ''createdAt'', ''updatedAt''} \<union> (if sd_deletedAt e = None then {} else {''deletedAt''})"
    "gm_ok obj" "gm_get obj ''id'' = Some ?i"
    "\<exists>c. jl_time js (ae_createdAt (sd_AuditableEntity e)) = Inr c \<and> gm_get obj ''createdAt'' = Some c"
    "\<exists>u. jl_time js (ae_updatedAt (sd_AuditableEntity e)) = Inr u \<and> gm_get obj ''updatedAt'' = Some u"
    "case sd_deletedAt e of None \<Rightarrow> gm_get obj ''deletedAt'' = None
       | Some t \<Rightarrow> \<exists>d. jl_time js t = Inr d \<and> gm_get obj ''deletedAt'' = Some d"
    using c u by blast+
qed

text \<open>Decoding the base out of an object that has the source's base keys.\<close>

lemma decode_soft:
  assumes "soft_survives js e e'" and "base_object js (base_ToJSON (BSoft e)) = Inr base"
    and "base_object js (base_ToJSON (BSoft e')) = Inr base'"
    and "\<And>k. k \<in> {''id'', ''createdAt'', ''updatedAt'', ''deletedAt''} \<Longrightarrow> gm_get obj k = gm_get base k"
  shows "decode_base js (restrict_keys (map fst base') obj) (base_ToJSON (BSoft e')) =
    Inr (base_ToJSON (BSoft \<lparr>sd_AuditableEntity = sd_AuditableEntity e,
           sd_deletedAt = restored_deletion (sd_deletedAt e) (sd_deletedAt e')\<rparr>))"
proof -
  let ?r = "restrict_keys (map fst base') obj"
  note k = soft_keys [OF assms(2)] and k' = soft_keys(1) [OF assms(3)]
  note laws = assms(1) [unfolded soft_survives_def Let_def time_survives_def]
  have r: "gm_get ?r ''id'' = gm_get base ''id''" "gm_get ?r ''createdAt'' = gm_get base ''createdAt''"
    "gm_get ?r ''updatedAt'' = gm_get base ''updatedAt''"
    "gm_get ?r ''deletedAt'' = (if sd_deletedAt e' = None then None else gm_get base ''deletedAt'')"
    unfolding restrict_keys_get k' by (simp_all add: assms(4))
  obtain c u where cu: "jl_time js (ae_createdAt (sd_AuditableEntity e)) = Inr c" "gm_get base ''createdAt'' = Some c"
    "jl_time js (ae_updatedAt (sd_AuditableEntity e)) = Inr u" "gm_get base ''updatedAt'' = Some u"
    using k(4,5) by blast
  have a: "decode_audit js ?r (AuditableEntity_ToJSON (sd_AuditableEntity e')) = Inr (AuditableEntity_ToJSON (sd_AuditableEntity e))"
    using cu k(3) by (simp add: decode_audit_def decode_key_def r laws
        AuditableEntity_ToJSON_def Entity_ToJSON_def del: restrict_keys_get)
  have d: "decode_key (jl_to_time_ptr js) ?r ''deletedAt'' (sd_deletedAt e') =
      Inr (restored_deletion (sd_deletedAt e) (sd_deletedAt e'))"
  proof (cases "sd_deletedAt e")
    case None
    then have "gm_get base ''deletedAt'' = None" using k(6) by simp
    then show ?thesis by (auto simp: decode_key_def r restored_deletion_def None simp del: restrict_keys_get)
  next
    case (Some t)
    then obtain j where "jl_time js t = Inr j" "gm_get base ''deletedAt'' = Some j" using k(6) by auto
    then show ?thesis using laws by (auto simp: time_ptr_survives_def decode_key_def r restored_deletion_def Some simp del: restrict_keys_get)
  qed
  show ?thesis using a d by (simp add: SoftDeletableEntity_ToJSON_def)
qed

text \<open>
  An entity's deletion does not survive its JSON.  The object of \<open>MarshalEntity\<close> restores identity, times
  and tagged fields of a soft-deletable entity, but \<open>UnmarshalEntity\<close> takes the base's keys from the target,
  where a nil \<open>deletedAt\<close> has none: into a fresh entity a deleted one is restored as not deleted, and into a
  deleted one nothing clears the deletion.
\<close>

theorem entity_json_loses_deletion:
  assumes "soft_survives js e e'" and "fields_survive js ent_isEmbeddedBase fs fs'" and "ent_isEmbeddedBase f" and "\<not> fd_Ptr f" and "fd_Base f = Some (BSoft e)"
    and "MarshalEntity js True (f # fs) = Ret (Inr obj)"
    and "tags_ok ent_isEmbeddedBase [''id'', ''createdAt'', ''updatedAt'', ''deletedAt''] fs"
    and "same_field f f'" and "list_all2 same_field fs fs'" and "fd_Base f' = Some (BSoft e')"
    and "base_object js (base_ToJSON (BSoft e')) = Inr base'"
  shows "UnmarshalEntity js True (Inr obj) (f' # fs') =
      Ret (None, f'\<lparr>fd_Base := Some (BSoft \<lparr>sd_AuditableEntity = sd_AuditableEntity e,
                       sd_deletedAt = restored_deletion (sd_deletedAt e) (sd_deletedAt e')\<rparr>)\<rparr> #
                 map2 (restored ent_isEmbeddedBase) fs fs') \<and>
    (sd_deletedAt e \<noteq> None \<longrightarrow> gm_get obj ''deletedAt'' \<noteq> None)"
proof -
  have "f = f'\<lparr>fd_Base := fd_Base f, fd_Value := fd_Value f\<rparr>" using assms(8) by (simp add: same_field_def)
  then obtain b g where f: "f = f'\<lparr>fd_Base := b, fd_Value := g\<rparr>" by blast
  have f': "ent_isEmbeddedBase f'" "\<not> fd_Ptr f'"
    using assms(3,4) unfolding f by (simp_all add: ent_isEmbeddedBase_def)
  obtain base where base: "base_object js (base_ToJSON (BSoft e)) = Inr base"
    using assms(3-6) by (cases "base_object js (base_ToJSON (BSoft e))") (simp_all add: MarshalEntity_def Let_def)
  have sub: "set (map fst base) \<subseteq> set [''id'', ''createdAt'', ''updatedAt'', ''deletedAt'']"
    unfolding soft_keys(1) [OF base] by simp
  have "json_Marshal js (merge_domain (ent_extractDomainFields (map fst base) (f # fs)) (base_mvals base)) = Inr obj"
    using assms(3-6) base by (simp add: MarshalEntity_def jsonKeysFromMap_def Let_def)
  then have m: "json_Marshal js (merge_domain (map (\<lambda>f. (json_key (fd_Tag f), fd_Value f))
      (filter (is_domain_field ent_isEmbeddedBase) fs)) (base_mvals base)) = Inr obj"
    using assms(3) by (simp add: is_domain_field_def ent_domain_fields [OF assms(7) sub])
  note obj = merged_object [OF assms(7) soft_keys(2) [OF base] m]
  have keys: "gm_get obj k = gm_get base k" if "k \<in> {''id'', ''createdAt'', ''updatedAt'', ''deletedAt''}" for k
    using obj(2) [of k] that by simp
  let ?e = "\<lparr>sd_AuditableEntity = sd_AuditableEntity e, sd_deletedAt = restored_deletion (sd_deletedAt e) (sd_deletedAt e')\<rparr>"
  have dec: "decode_base js (restrict_keys (map fst base') obj) (base_ToJSON (BSoft e')) = Inr (base_ToJSON (BSoft ?e))"
    by (rule decode_soft [OF assms(1) base assms(11) keys])
  have ext: "extractBase js True (f' # fs') = Ret (Inr (base_ToJSON (BSoft e'), map fst base'))"
    using f' assms(10,11) by (simp add: jsonKeysFromMap_def Let_def)
  have app: "applyBaseFromJSON True (base_ToJSON (BSoft ?e)) (f' # fs') = Ret (f'\<lparr>fd_Base := Some (BSoft ?e)\<rparr> # fs')"
    using f' assms(10) by (simp add: entity_json_defs)
  have fields: "decode_fields js ent_isEmbeddedBase ''entity'' obj fs' = (None, map2 (restored ent_isEmbeddedBase) fs fs')"
    by (rule decode_fields_restores [OF assms(9) obj(1) assms(2)]) (simp add: ent_isEmbeddedBase_def)
  have "\<not> is_domain_field ent_isEmbeddedBase (f'\<lparr>fd_Base := Some (BSoft ?e)\<rparr>)"
    using f'(1) by (simp add: is_domain_field_def ent_isEmbeddedBase_def)
  then have fields': "decode_fields js ent_isEmbeddedBase ''entity'' obj (f'\<lparr>fd_Base := Some (BSoft ?e)\<rparr> # fs') =
      (None, f'\<lparr>fd_Base := Some (BSoft ?e)\<rparr> # map2 (restored ent_isEmbeddedBase) fs fs')"
    by (simp add: fields)
  have "UnmarshalEntity js True (Inr obj) (f' # fs') =
      Ret (None, f'\<lparr>fd_Base := Some (BSoft ?e)\<rparr> # map2 (restored ent_isEmbeddedBase) fs fs')"
    unfolding UnmarshalEntity_def sum.case ext out_bind.simps prod.case dec app fields' ..
  moreover have "sd_deletedAt e \<noteq> None \<longrightarrow> gm_get obj ''deletedAt'' \<noteq> None"
    using soft_keys(6) [OF base] keys [of "''deletedAt''"] by (auto split: option.splits)
  ultimately show ?thesis by blast
qed

lemma ent_base_key_left_out: "k \<in> set ks \<Longrightarrow> (k, g) \<notin> set (ent_extractDomainFields ks fs)"
  by (induction fs) auto

text \<open>
  A tag that is a key of the base: an aggregate's field overwrites the root's own entry in the object,
  an entity's field is left out of it.
\<close>

theorem base_keys_clash:
  assumes "MarshalAggregate js a = Inr obj" and "distinct (map fst (agg_extractDomainFields (ra_fields a)))"
    and "f \<in> set (ra_fields a)" and "is_domain_field agg_isEmbeddedBase f" and "json_key (fd_Tag f) = ''version''"
  shows "\<exists>j. jl_value js (fd_Value f) = Inr j \<and> gm_get obj ''version'' = Some j \<and>
    (''version'', fd_Value f) \<notin> set (ent_extractDomainFields (baseJSONKeys js r) (ra_fields a))"
proof -
  let ?base = "root_object js (AggregateRoot_ToJSON (ra_root a))" and ?kvs = "agg_extractDomainFields (ra_fields a)"
  have ok: "gm_ok (merge_domain ?kvs (base_mvals ?base))" by simp
  have "(''version'', fd_Value f) \<in> set ?kvs" using assms(3-5) by (force simp: agg_domain_fields)
  from merge_domain_get [OF assms(2) this, of "base_mvals ?base"]
  have "\<exists>j. jl_value js (fd_Value f) = Inr j \<and> gm_get obj ''version'' = Some j"
    using json_Marshal_get [OF _ ok, of js obj "''version''"] assms(1) by (simp add: MarshalAggregate_def Let_def)
  moreover have "''version'' \<in> set (baseJSONKeys js r)" by (simp add: baseJSONKeys_def root_object_def)
  then have "(''version'', fd_Value f) \<notin> set (ent_extractDomainFields (baseJSONKeys js r) (ra_fields a))"
    by (rule ent_base_key_left_out)
  ultimately show ?thesis by blast
qed

subsection \<open>Witnesses\<close>

text \<open>JSON values as texts, integers and times; the domain values are integers.\<close>

datatype sample_json = SText string | SInt int | STime int

definition sample_lib :: "(int, sample_json) json_lib" where
  "sample_lib =
     \<lparr>jl_text = SText, jl_int = SInt, jl_time = (\<lambda>t. Inr (STime t)), jl_value = (\<lambda>g. Inr (SInt g)),
      jl_to_text = (\<lambda>j x. case j of SText s \<Rightarrow> Inr s | _ \<Rightarrow> Inl (ErrText ''type'')),
      jl_to_int = (\<lambda>j x. case j of SInt n \<Rightarrow> Inr n | _ \<Rightarrow> Inl (ErrText ''type'')),
      jl_to_time = (\<lambda>j x. case j of STime n \<Rightarrow> Inr n | _ \<Rightarrow> Inl (ErrText ''type'')),
      jl_to_time_ptr = (\<lambda>j x. case j of STime n \<Rightarrow> Inr (Some n) | _ \<Rightarrow> Inl (ErrText ''type'')),
      jl_to_value = (\<lambda>j x. case j of SInt n \<Rightarrow> Inr n | _ \<Rightarrow> Inl (ErrText ''type''))\<rparr>"

lemma sample_lib_survives:
  "value_survives sample_lib g x" "time_survives sample_lib t y" "time_ptr_survives sample_lib t z"
  "root_survives sample_lib r" "soft_survives sample_lib e e'"
  by (simp_all add: value_survives_def time_survives_def time_ptr_survives_def root_survives_def soft_survives_def
      Let_def sample_lib_def split: option.split)

definition sample_field :: "string \<Rightarrow> int \<Rightarrow> int sfield" where
  "sample_field tag v = \<lparr>fd_Exported = True, fd_Anonymous = False, fd_Ptr = False, fd_Struct = False,
     fd_TypeName = ''int'', fd_Tag = tag, fd_Base = None, fd_Value = v\<rparr>"

definition sample_base :: "time option \<Rightarrow> int sfield" where
  "sample_base d = \<lparr>fd_Exported = True, fd_Anonymous = True, fd_Ptr = False, fd_Struct = True,
     fd_TypeName = ''SoftDeletableEntity'', fd_Tag = [],
     fd_Base = Some (BSoft \<lparr>sd_AuditableEntity = \<lparr>ae_Entity = \<lparr>en_id = ''x''\<rparr>, ae_createdAt = 1, ae_updatedAt = 2\<rparr>, sd_deletedAt = d\<rparr>),
     fd_Value = 0\<rparr>"

definition sample_agg :: "string \<Rightarrow> int \<Rightarrow> int \<Rightarrow> (unit, int) reflected" where
  "sample_agg tag n v = \<lparr>ra_root = \<lparr>ar_Entity = \<lparr>en_id = ''a''\<rparr>, ar_version = n, ar_snapshotVersion = -1, ar_uncommittedEvents = []\<rparr>,
     ra_fields = [sample_field tag v]\<rparr>"

lemma sample_marshal: "\<exists>obj. marshal_map sample_lib m = Inr obj"
proof (induction m)
  case (Cons p m)
  obtain k v where p: "p = (k, v)" by (cases p)
  have "\<exists>j. marshal_mval sample_lib v = Inr j" by (cases v) (simp_all add: sample_lib_def)
  then show ?case using Cons p by auto
qed simp

theorem aggregate_json_roundtrip_witness:
  "\<exists>obj. UnmarshalAggregate sample_lib (Inr obj) (sample_agg ''total,omitempty'' 0 0) = (None, sample_agg ''total,omitempty'' 3 7)"
proof -
  obtain obj where obj: "MarshalAggregate sample_lib (sample_agg ''total,omitempty'' 3 7) = Inr obj"
    using sample_marshal by (auto simp: MarshalAggregate_def json_Marshal_def Let_def)
  have "UnmarshalAggregate sample_lib (Inr obj) (sample_agg ''total,omitempty'' 0 0) = (None, sample_agg ''total,omitempty'' 3 7)"
    using aggregate_json_roundtrip [OF obj, of "sample_agg ''total,omitempty'' 0 0"]
    by (simp add: sample_lib_survives fields_survive_def sample_agg_def sample_field_def tags_ok_def same_field_def restored_def is_domain_field_def
        agg_isEmbeddedBase_def json_key_def)
  then show ?thesis by blast
qed

theorem entity_json_loses_deletion_witness:
  "\<exists>obj. MarshalEntity sample_lib True [sample_base (Some 9), sample_field ''n'' 5] = Ret (Inr obj) \<and>
     UnmarshalEntity sample_lib True (Inr obj) [sample_base None, sample_field ''n'' 0] =
       Ret (None, [sample_base None, sample_field ''n'' 5])"
proof -
  let ?f = "sample_base (Some 9)" and ?f' = "sample_base None"
  let ?e = "\<lparr>sd_AuditableEntity = \<lparr>ae_Entity = \<lparr>en_id = ''x''\<rparr>, ae_createdAt = 1, ae_updatedAt = 2\<rparr>, sd_deletedAt = Some 9\<rparr>"
  let ?e' = "?e\<lparr>sd_deletedAt := None\<rparr>"
  have b: "ent_isEmbeddedBase ?f" "\<not> fd_Ptr ?f" "fd_Base ?f = Some (BSoft ?e)" "fd_Base ?f' = Some (BSoft ?e')" "same_field ?f ?f'"
    by (simp_all add: sample_base_def ent_isEmbeddedBase_def same_field_def)
  have objs: "\<exists>o1. base_object sample_lib (base_ToJSON (BSoft e)) = Inr o1" for e
    by (cases "sd_deletedAt e") (simp_all add: audit_object_def sample_lib_def entity_json_defs)
  have fs: "tags_ok ent_isEmbeddedBase [''id'', ''createdAt'', ''updatedAt'', ''deletedAt''] [sample_field ''n'' 5]"
    "list_all2 same_field [sample_field ''n'' 5] [sample_field ''n'' 0]"
    by (simp_all add: tags_ok_def sample_field_def is_domain_field_def ent_isEmbeddedBase_def json_key_def same_field_def)
  have "\<exists>obj. MarshalEntity sample_lib True [?f, sample_field ''n'' 5] = Ret (Inr obj)"
    using b(1-3) objs [of ?e] sample_marshal by (auto simp: MarshalEntity_def json_Marshal_def Let_def)
  then obtain obj where obj: "MarshalEntity sample_lib True [?f, sample_field ''n'' 5] = Ret (Inr obj)" by blast
  obtain base' where base': "base_object sample_lib (base_ToJSON (BSoft ?e')) = Inr base'" using objs by blast
  have "fields_survive sample_lib ent_isEmbeddedBase [sample_field ''n'' 5] [sample_field ''n'' 0]"
    by (simp add: fields_survive_def sample_lib_survives)
  from entity_json_loses_deletion [OF sample_lib_survives(5) this b(1-3) obj fs(1) b(5) fs(2) b(4) base']
  have "UnmarshalEntity sample_lib True (Inr obj) [?f', sample_field ''n'' 0] = Ret (None, [?f', sample_field ''n'' 5])"
    by (simp add: restored_deletion_def restored_def sample_base_def sample_field_def is_domain_field_def ent_isEmbeddedBase_def)
  with obj show ?thesis by blast
qed

theorem base_keys_clash_witness:
  "\<exists>obj. MarshalAggregate sample_lib (sample_agg ''version'' 3 7) = Inr obj \<and> gm_get obj ''version'' = Some (SInt 7)"
proof -
  obtain obj where obj: "MarshalAggregate sample_lib (sample_agg ''version'' 3 7) = Inr obj"
    using sample_marshal by (auto simp: MarshalAggregate_def json_Marshal_def Let_def)
  then show ?thesis
    using base_keys_clash [OF obj, of "sample_field ''version'' 7"]
    by (auto simp: sample_agg_def sample_field_def is_domain_field_def agg_isEmbeddedBase_def json_key_def sample_lib_def)
qed

end
