(* ===== verification/PgOrders.thy ===== *)
theory PgOrders
  imports OrderService JsonHelpers
begin

text \<open>
  The PostgreSQL order repository \<open>exampleapp/ddd/order/repository/pg_repository.go\<close> over the snapshot table
  of \<open>PgRepositories\<close>, and the order's JSON methods in \<open>order/domain/model.go\<close>, which are the reflective
  helpers of \<open>JsonHelpers\<close> on the fields of the struct \<open>Order\<close>.
\<close>

subsection \<open>An order as a reflected struct\<close>

datatype 'f order_val = OVRoot | OVText string | OVItems "'f OrderItem list" | OVAmount 'f | OVTime time

definition order_field :: "string \<Rightarrow> string \<Rightarrow> bool \<Rightarrow> 'f order_val \<Rightarrow> 'f order_val sfield" where
  "order_field typeName tag struct v =
     \<lparr>fd_Exported = True, fd_Anonymous = False, fd_Ptr = False, fd_Struct = struct, fd_TypeName = typeName,
      fd_Tag = tag, fd_Base = None, fd_Value = v\<rparr>"

definition order_fields :: "'f order_state \<Rightarrow> 'f order_val sfield list" where
  "order_fields st =
     [\<lparr>fd_Exported = True, fd_Anonymous = True, fd_Ptr = False, fd_Struct = True, fd_TypeName = ''AggregateRoot'',
       fd_Tag = [], fd_Base = None, fd_Value = OVRoot\<rparr>,
      order_field ''UserID'' ''userId'' False (OVText (os_UserID st)),
      order_field [] ''items'' False (OVItems (os_Items st)),
      order_field ''OrderStatus'' ''status'' False (OVText (os_Status st)),
      order_field ''float64'' ''totalAmount'' False (OVAmount (os_TotalAmount st)),
      order_field ''Time'' ''createdAt'' True (OVTime (os_CreatedAt st)),
      order_field ''Time'' ''paidAt'' True (OVTime (os_PaidAt st)),
      order_field ''Time'' ''shippedAt'' True (OVTime (os_ShippedAt st)),
      order_field ''Time'' ''cancelledAt'' True (OVTime (os_CancelledAt st)),
      order_field ''string'' ''cancelReason'' False (OVText (os_CancelReason st))]"

text \<open>The values go back into the struct; each has the type of its field.\<close>

fun ov_text :: "string \<Rightarrow> 'f order_val \<Rightarrow> string" where
  "ov_text d (OVText s) = s"
| "ov_text d _ = d"

fun ov_items :: "'f OrderItem list \<Rightarrow> 'f order_val \<Rightarrow> 'f OrderItem list" where
  "ov_items d (OVItems its) = its"
| "ov_items d _ = d"

fun ov_amount :: "'f \<Rightarrow> 'f order_val \<Rightarrow> 'f" where
  "ov_amount d (OVAmount a) = a"
| "ov_amount d _ = d"

fun ov_time :: "time \<Rightarrow> 'f order_val \<Rightarrow> time" where
  "ov_time d (OVTime t) = t"
| "ov_time d _ = d"

definition order_of_values :: "'f order_val list \<Rightarrow> 'f order_state \<Rightarrow> 'f order_state" where
  "order_of_values vs st =
     \<lparr>os_UserID = ov_text (os_UserID st) (vs ! 1), os_Items = ov_items (os_Items st) (vs ! 2),
      os_Status = ov_text (os_Status st) (vs ! 3), os_TotalAmount = ov_amount (os_TotalAmount st) (vs ! 4),
      os_CreatedAt = ov_time (os_CreatedAt st) (vs ! 5), os_PaidAt = ov_time (os_PaidAt st) (vs ! 6),
      os_ShippedAt = ov_time (os_ShippedAt st) (vs ! 7), os_CancelledAt = ov_time (os_CancelledAt st) (vs ! 8),
      os_CancelReason = ov_text (os_CancelReason st) (vs ! 9)\<rparr>"

definition Order_MarshalJSON :: "('f order_val, 'j) json_lib \<Rightarrow> 'f Order \<Rightarrow> go_error + 'j json_object" where
  "Order_MarshalJSON js o1 = MarshalAggregate js \<lparr>ra_root = ag_root o1, ra_fields = order_fields (ag_state o1)\<rparr>"

definition Order_UnmarshalJSON ::
    "('f order_val, 'j) json_lib \<Rightarrow> go_error + 'j json_object \<Rightarrow> 'f Order \<Rightarrow> go_error option \<times> 'f Order" where
  "Order_UnmarshalJSON js data o1 =
     (case UnmarshalAggregate js data \<lparr>ra_root = ag_root o1, ra_fields = order_fields (ag_state o1)\<rparr> of
        (err, r) \<Rightarrow> (err, \<lparr>ag_root = ra_root r, ag_state = order_of_values (map fd_Value (ra_fields r)) (ag_state o1)\<rparr>))"

subsection \<open>The repository\<close>

text \<open>The repository's UPDATE, which does not look at the stored version.\<close>

definition sql_overwrite_snapshot ::
    "stmt_faults \<Rightarrow> string \<Rightarrow> 'b snapshot_row \<Rightarrow> 'b snapshot_table \<Rightarrow> go_error option \<times> 'b snapshot_table" where
  "sql_overwrite_snapshot flt i row t =
     (case sf_exec flt of
        Some err \<Rightarrow> (Some err, t)
      | None \<Rightarrow>
          (case gm_get t i of
             Some old \<Rightarrow> (None, if sr_aggregate_type old = sr_aggregate_type row then gm_put t i row else t)
           | None \<Rightarrow> (None, t)))"

text \<open>\<open>sel\<close> has the faults of the SELECT, \<open>flt\<close> those of the INSERT or UPDATE.\<close>

definition pgo_Save ::
    "('f order_val, 'j) json_lib \<Rightarrow> stmt_faults \<Rightarrow> stmt_faults \<Rightarrow> time \<Rightarrow> 'f Order \<Rightarrow> 'j json_object snapshot_table \<Rightarrow>
       go_error option \<times> 'j json_object snapshot_table" where
  "pgo_Save js sel flt now order t =
     (case Order_MarshalJSON js order of
        Inl err \<Rightarrow> (Some (ErrWrap ''marshal order: '' err []), t)
      | Inr data \<Rightarrow>
          (let version = ar_version (ag_root order);
               row = \<lparr>sr_aggregate_type = ''Order'', sr_snapshot_data = data, sr_version = version, sr_updated_at = now\<rparr>
           in case sql_select_snapshot sel (ag_id order) ''Order'' t of
                Inl err \<Rightarrow> (Some (ErrWrap ''query existing order: '' err []), t)
              | Inr None \<Rightarrow>
                  (case sql_insert_snapshot flt (ag_id order) row t of
                     (Inl err, t1) \<Rightarrow> (Some (pg_error err), t1)
                   | (Inr n, t1) \<Rightarrow> (None, t1))
              | Inr (Some (old, existingVersion)) \<Rightarrow> sql_overwrite_snapshot flt (ag_id order) row t))"

text \<open>\<open>json.Unmarshal\<close> of a stored object into a fresh order of the id.\<close>

definition pgo_decode ::
    "('f order_val, 'j) json_lib \<Rightarrow> 'f float_ops \<Rightarrow> string \<Rightarrow> string \<Rightarrow> 'j json_object \<Rightarrow> (go_error + 'f Order) outcome" where
  "pgo_decode js fl what i data =
     out_bind (NewOrderForReplay fl i)
       (\<lambda>order. case Order_UnmarshalJSON js (Inr data) order of
          (Some err, o1) \<Rightarrow> Ret (Inl (ErrWrap what err []))
        | (None, o1) \<Rightarrow> Ret (Inr o1))"

definition pgo_FindByID ::
    "('f order_val, 'j) json_lib \<Rightarrow> 'f float_ops \<Rightarrow> stmt_faults \<Rightarrow> 'j json_object snapshot_table \<Rightarrow> string \<Rightarrow>
       (go_error + 'f Order) outcome" where
  "pgo_FindByID js fl flt t i =
     (case sql_select_snapshot flt i ''Order'' t of
        Inl err \<Rightarrow> Ret (Inl err)
      | Inr None \<Rightarrow> Ret (Inl (order_not_found i))
      | Inr (Some (data, v)) \<Rightarrow> pgo_decode js fl ''unmarshal order: '' i data)"

definition pgo_Delete ::
    "stmt_faults \<Rightarrow> string \<Rightarrow> 'b snapshot_table \<Rightarrow> go_error option \<times> 'b snapshot_table" where
  "pgo_Delete flt i t =
     (case sql_delete_snapshot flt i ''Order'' t of (Inl err, t1) \<Rightarrow> (Some err, t1) | (Inr n, t1) \<Rightarrow> (None, t1))"

text \<open>The row loop of \<open>FindAll\<close>; the n-th row is read next.\<close>

fun pgo_rows ::
    "('f order_val, 'j) json_lib \<Rightarrow> 'f float_ops \<Rightarrow> pg_faults \<Rightarrow> nat \<Rightarrow> (string \<times> 'j json_object snapshot_row) list \<Rightarrow>
       (go_error + 'f Order list) outcome" where
  "pgo_rows js fl flt n [] = Ret (case pf_rows flt of Some err \<Rightarrow> Inl err | None \<Rightarrow> Inr [])"
| "pgo_rows js fl flt n ((i, row) # rows) =
     (case pf_scan flt n of
        Some err \<Rightarrow> Ret (Inl err)
      | None \<Rightarrow>
          out_bind (pgo_decode js fl (''unmarshal order '' @ i @ '': '') i (sr_snapshot_data row))
            (\<lambda>res. case res of
               Inl err \<Rightarrow> Ret (Inl err)
             | Inr order \<Rightarrow>
                 out_bind (pgo_rows js fl flt (Suc n) rows)
                   (\<lambda>res1. case res1 of Inl err \<Rightarrow> Ret (Inl err) | Inr orders \<Rightarrow> Ret (Inr (order # orders)))))"

text \<open>\<open>collation\<close> is the database's order of texts.\<close>

definition pgo_FindAll ::
    "(string \<Rightarrow> 'k::linorder) \<Rightarrow> ('f order_val, 'j) json_lib \<Rightarrow> 'f float_ops \<Rightarrow> pg_faults \<Rightarrow> 'j json_object snapshot_table \<Rightarrow>
       (go_error + 'f Order list) outcome" where
  "pgo_FindAll collation js fl flt t =
     (case pf_query flt of
        Some err \<Rightarrow> Ret (Inl err)
      | None \<Rightarrow>
          pgo_rows js fl flt 0
            (sort_key (\<lambda>(i, row). collation i) (filter (\<lambda>(i, row). sr_aggregate_type row = ''Order'') t)))"

subsection \<open>What the table keeps of an order\<close>

text \<open>An order as a later read returns it: no uncommitted events.\<close>

definition stored_order :: "'f Order \<Rightarrow> 'f Order" where
  "stored_order o1 = o1\<lparr>ag_root := (ag_root o1)\<lparr>ar_uncommittedEvents := []\<rparr>\<rparr>"

lemma order_fields_same: "list_all2 same_field (order_fields st) (order_fields st')"
  by (simp add: order_fields_def order_field_def same_field_def)

lemma order_tags_ok: "tags_ok agg_isEmbeddedBase [''id'', ''version'', ''snapshotVersion''] (order_fields st)"
  by (simp add: tags_ok_def order_fields_def order_field_def is_domain_field_def agg_isEmbeddedBase_def json_key_def Let_def)

lemma order_fields_restored:
  "order_of_values (map fd_Value (map2 (restored agg_isEmbeddedBase) (order_fields st) (order_fields st'))) st' = st"
  by (simp add: order_of_values_def order_fields_def order_field_def restored_def is_domain_field_def agg_isEmbeddedBase_def)

text \<open>
  What the repository needs of \<open>encoding/json\<close>: the order's identity, versions and fields survive being
  encoded and decoded into a fresh order.
\<close>

definition order_survives :: "('f order_val, 'j) json_lib \<Rightarrow> 'f float_ops \<Rightarrow> 'f Order \<Rightarrow> bool" where
  "order_survives js fl o1 \<longleftrightarrow> root_survives js (ag_root o1) \<and>
     fields_survive js agg_isEmbeddedBase (order_fields (ag_state o1)) (order_fields (empty_order_state fl))"

lemma order_json_restores:
  assumes "order_survives js fl o1" and "Order_MarshalJSON js o1 = Inr data" and "ag_state o2 = empty_order_state fl"
  shows "Order_UnmarshalJSON js (Inr data) o2 =
    (None, o1\<lparr>ag_root := (ag_root o1)\<lparr>ar_uncommittedEvents := ar_uncommittedEvents (ag_root o2)\<rparr>\<rparr>)"
  unfolding Order_UnmarshalJSON_def
  by (subst aggregate_unmarshal_restores [OF assms(2) [unfolded Order_MarshalJSON_def]])
    (use assms(1,3) in \<open>simp_all add: order_survives_def order_tags_ok order_fields_same order_fields_restored del: map_map\<close>)

lemma pgo_decode_stored:
  fixes o1 :: "'f Order"
  assumes "order_survives js fl o1" and "Order_MarshalJSON js o1 = Inr data" and "i \<noteq> []"
  shows "pgo_decode js fl what i data = Ret (Inr (stored_order o1))"
proof -
  obtain ar :: "'f order_event agg_root" where "NewAggregateRoot i = Inr ar" "ar_uncommittedEvents ar = []"
    using assms(3) by (auto simp: NewAggregateRoot_def NewEntity_def split: sum.splits if_splits)
  then show ?thesis
    using assms(1,2) by (simp add: pgo_decode_def NewOrderForReplay_def order_json_restores [of js fl] stored_order_def)
qed

text \<open>A successful save puts the order's JSON into its row, whatever the row held.\<close>

lemma pgo_Save_row:
  assumes "pgo_Save js sel flt now o1 t = (None, t')"
  shows "\<exists>data. Order_MarshalJSON js o1 = Inr data \<and>
    t' = gm_put t (ag_id o1) \<lparr>sr_aggregate_type = ''Order'', sr_snapshot_data = data, sr_version = ag_version o1, sr_updated_at = now\<rparr>"
proof (cases "Order_MarshalJSON js o1")
  case (Inr data)
  show ?thesis
  proof (cases "gm_get t (ag_id o1)")
    case None
    then show ?thesis
      using assms Inr by (auto simp: pgo_Save_def sql_select_snapshot_def sql_insert_snapshot_def split: option.splits)
  next
    case (Some old)
    then show ?thesis
      using assms Inr
      by (auto simp: pgo_Save_def sql_select_snapshot_def sql_insert_snapshot_def sql_overwrite_snapshot_def
          Let_def split: option.splits if_splits)
  qed
qed (use assms in \<open>simp add: pgo_Save_def\<close>)

lemma pgo_find_saved:
  assumes "order_survives js fl o1" and "pgo_Save js sel flt now o1 t = (None, t')" and "ag_id o1 \<noteq> []"
  shows "pgo_FindByID js fl sf_none t' i = (if i = ag_id o1 then Ret (Inr (stored_order o1)) else pgo_FindByID js fl sf_none t i)"
proof -
  obtain data where d: "Order_MarshalJSON js o1 = Inr data"
    "t' = gm_put t (ag_id o1) \<lparr>sr_aggregate_type = ''Order'', sr_snapshot_data = data, sr_version = ag_version o1, sr_updated_at = now\<rparr>"
    using pgo_Save_row [OF assms(2)] by blast
  then show ?thesis
    using pgo_decode_stored [OF assms(1) d(1) assms(3)]
    by (auto simp: pgo_FindByID_def sql_select_snapshot_def)
qed

text \<open>
  The PostgreSQL order repository has no optimistic lock.  Of two clients that read an order, change it
  and save it, both succeed, and a read returns the second order: the first client's change is gone, and
  so are the events of both.
\<close>

theorem pg_order_lost_update:
  assumes "order_survives js fl o1" and "order_survives js fl o2" and "ag_id o1 \<noteq> []" and "ag_id o2 = ag_id o1"
    and "pgo_Save js sf_none sf_none now o1 t = (None, t1)" and "pgo_Save js sf_none sf_none now2 o2 t1 = (e, t2)"
    and "Order_MarshalJSON js o2 = Inr data"
  shows "e = None \<and> pgo_FindByID js fl sf_none t1 (ag_id o1) = Ret (Inr (stored_order o1)) \<and>
    pgo_FindByID js fl sf_none t2 (ag_id o1) = Ret (Inr (stored_order o2)) \<and>
    (\<forall>i. i \<noteq> ag_id o1 \<longrightarrow> pgo_FindByID js fl sf_none t2 i = pgo_FindByID js fl sf_none t i)"
proof -
  obtain d1 where t1: "t1 = gm_put t (ag_id o1) \<lparr>sr_aggregate_type = ''Order'', sr_snapshot_data = d1,
      sr_version = ag_version o1, sr_updated_at = now\<rparr>"
    using pgo_Save_row [OF assms(5)] by blast
  have e: "e = None"
    using assms(6) unfolding t1
    by (simp add: pgo_Save_def assms(4,7) sql_select_snapshot_def sql_overwrite_snapshot_def Let_def)
  have id2: "ag_id o2 \<noteq> []" using assms(3,4) by simp
  have s2: "pgo_Save js sf_none sf_none now2 o2 t1 = (None, t2)" using assms(6) e by simp
  note f1 = pgo_find_saved [OF assms(1,5,3)] and f2 = pgo_find_saved [OF assms(2) s2 id2]
  show ?thesis using e f1 f2 assms(4) by simp
qed

text \<open>
  The two order repositories behind one interface disagree on a missing order: deleting it is an error in
  memory and a success in PostgreSQL, which deletes no row of another aggregate type either.
\<close>

theorem order_delete_differs:
  assumes "gm_get (ow_orders w) i = None" and "case gm_get t i of None \<Rightarrow> True | Some row \<Rightarrow> sr_aggregate_type row \<noteq> ''Order''"
  shows "or_Delete i w = (Some (order_not_found i), w) \<and> pgo_Delete sf_none i t = (None, t)"
  using assms by (auto simp: or_Delete_def pgo_Delete_def sql_delete_snapshot_def split: option.splits)

subsection \<open>Witnesses\<close>

text \<open>JSON values as the Go values they encode.\<close>

datatype sample_oj = OJText string | OJInt int | OJTime time | OJVal "int order_val"

definition sample_order_json :: "(int order_val, sample_oj) json_lib" where
  "sample_order_json =
     \<lparr>jl_text = OJText, jl_int = OJInt, jl_time = (\<lambda>t. Inr (OJTime t)), jl_value = (\<lambda>g. Inr (OJVal g)),
      jl_to_text = (\<lambda>j x. case j of OJText s \<Rightarrow> Inr s | _ \<Rightarrow> Inl (ErrText ''type'')),
      jl_to_int = (\<lambda>j x. case j of OJInt n \<Rightarrow> Inr n | _ \<Rightarrow> Inl (ErrText ''type'')),
      jl_to_time = (\<lambda>j x. case j of OJTime n \<Rightarrow> Inr n | _ \<Rightarrow> Inl (ErrText ''type'')),
      jl_to_time_ptr = (\<lambda>j x. case j of OJTime n \<Rightarrow> Inr (Some n) | _ \<Rightarrow> Inl (ErrText ''type'')),
      jl_to_value = (\<lambda>j x. case j of OJVal g \<Rightarrow> Inr g | _ \<Rightarrow> Inl (ErrText ''type''))\<rparr>"

lemma sample_order_survives: "order_survives sample_order_json fl o1"
  by (simp add: order_survives_def root_survives_def fields_survive_def value_survives_def order_fields_def sample_order_json_def)

lemma sample_order_marshal: "\<exists>data. Order_MarshalJSON sample_order_json o1 = Inr data"
proof -
  have "\<exists>obj. marshal_map sample_order_json m = Inr obj" for m
  proof (induction m)
    case (Cons p m)
    obtain k v where p: "p = (k, v)" by (cases p)
    have "\<exists>j. marshal_mval sample_order_json v = Inr j" by (cases v) (simp_all add: sample_order_json_def)
    then show ?case using Cons p by auto
  qed simp
  then show ?thesis by (simp add: Order_MarshalJSON_def MarshalAggregate_def json_Marshal_def Let_def)
qed

theorem pg_order_lost_update_witness:
  "\<exists>t1 t2. pgo_Save sample_order_json sf_none sf_none 1 sample_order [] = (None, t1) \<and>
     pgo_Save sample_order_json sf_none sf_none 2 (snd (Order_Cancel 9 ctx_Background ''late'' sample_order)) t1 = (None, t2) \<and>
     pgo_FindByID sample_order_json sample_fl sf_none t2 ''o1'' =
       Ret (Inr (stored_order (snd (Order_Cancel 9 ctx_Background ''late'' sample_order))))"
proof -
  let ?o2 = "snd (Order_Cancel 9 ctx_Background ''late'' sample_order)"
  have ok: "order_ok ''o1'' (ag_state sample_order) sample_order" by (rule NewOrder_ok [OF sample_order])
  then have "order_ok ''o1'' (ag_state sample_order) ?o2" by (rule order_step_keeps(3))
  with ok have ids: "ag_id sample_order = ''o1''" "ag_id ?o2 = ''o1''" by (simp_all add: order_ok_def)
  obtain d1 d2 where d: "Order_MarshalJSON sample_order_json sample_order = Inr d1"
      "Order_MarshalJSON sample_order_json ?o2 = Inr d2"
    using sample_order_marshal by metis
  obtain t1 where t1: "pgo_Save sample_order_json sf_none sf_none 1 sample_order [] = (None, t1)"
    using d(1) by (simp add: pgo_Save_def sql_select_snapshot_def sql_insert_snapshot_def Let_def)
  obtain e t2 where s2: "pgo_Save sample_order_json sf_none sf_none 2 ?o2 t1 = (e, t2)" by fastforce
  have "ag_id sample_order \<noteq> []" "ag_id ?o2 = ag_id sample_order" using ids by simp_all
  from pg_order_lost_update [OF sample_order_survives [of sample_fl] sample_order_survives this t1 s2 d(2)]
  have "e = None" "pgo_FindByID sample_order_json sample_fl sf_none t2 ''o1'' = Ret (Inr (stored_order ?o2))"
    by (simp_all add: ids)
  then show ?thesis using t1 s2 by blast
qed

theorem order_delete_differs_witness:
  "fst (or_Delete ''x'' (order_world_empty :: int order_world)) \<noteq> None \<and> fst (pgo_Delete sf_none ''x'' ([] :: unit snapshot_table)) = None"
  using order_delete_differs [of "order_world_empty :: int order_world" "''x''" "[] :: unit snapshot_table"]
  by (simp add: order_world_empty_def NewOrderRepository_def)

end
