(* ===== verification/Inventory.thy ===== *)
theory Inventory
  imports PgRepositories
begin

text \<open>
  The inventory of the example application: the domain object of
  \<open>exampleapp/ddd/inventory/domain/inventory.go\<close> and the product stores of \<open>product_store.go\<close>, in memory and
  over the PostgreSQL table \<open>ddd_inventory_products\<close>, behind the interface the locale \<open>product_store\<close>
  states.  Each method of the inventory runs under its lock and is one definition; pointers to products
  never leave it, so its map holds the products themselves.  Prices are of a type \<open>'f\<close>, and \<open>lit\<close> reads a
  floating-point literal.
\<close>

record 'f Product =
  pr_ID :: string
  pr_Name :: string
  pr_Price :: 'f
  pr_Stock :: int

type_synonym 'f inventory = "(string, 'f Product) gomap"

definition product_not_found :: "string \<Rightarrow> go_error" where
  "product_not_found i = ErrText (''product '' @ i @ '' not found'')"

definition DefaultProducts :: "(string \<Rightarrow> 'f) \<Rightarrow> 'f Product list" where
  "DefaultProducts lit =
     [\<lparr>pr_ID = ''laptop'', pr_Name = ''Laptop'', pr_Price = lit ''999.99'', pr_Stock = 10\<rparr>,
      \<lparr>pr_ID = ''mouse'', pr_Name = ''Mouse'', pr_Price = lit ''29.99'', pr_Stock = 50\<rparr>,
      \<lparr>pr_ID = ''keyboard'', pr_Name = ''Keyboard'', pr_Price = lit ''79.99'', pr_Stock = 30\<rparr>,
      \<lparr>pr_ID = ''monitor'', pr_Name = ''Monitor'', pr_Price = lit ''499.99'', pr_Stock = 15\<rparr>,
      \<lparr>pr_ID = ''headphone'', pr_Name = ''Headphone'', pr_Price = lit ''149.99'', pr_Stock = 25\<rparr>]"

definition inventory_seed :: "(string \<Rightarrow> 'f) \<Rightarrow> 'f inventory \<Rightarrow> 'f inventory" where
  "inventory_seed lit iv = foldl (\<lambda>iv item. gm_put iv (pr_ID item) item) iv (DefaultProducts lit)"

definition NewInventory :: "(string \<Rightarrow> 'f) \<Rightarrow> 'f inventory" where
  "NewInventory lit = inventory_seed lit []"

definition Reserve :: "string \<Rightarrow> int \<Rightarrow> 'f inventory \<Rightarrow> go_error option \<times> 'f inventory" where
  "Reserve productID quantity iv =
     (case gm_get iv productID of
        None \<Rightarrow> (Some (product_not_found productID), iv)
      | Some p \<Rightarrow>
          if pr_Stock p < quantity
          then (Some (ErrText (''insufficient stock for '' @ pr_Name p @ '': have '' @ show_int (pr_Stock p) @
                  '', need '' @ show_int quantity)), iv)
          else (None, gm_put iv productID (p\<lparr>pr_Stock := wrap64 (pr_Stock p - quantity)\<rparr>)))"

definition Release :: "string \<Rightarrow> int \<Rightarrow> 'f inventory \<Rightarrow> go_error option \<times> 'f inventory" where
  "Release productID quantity iv =
     (case gm_get iv productID of
        None \<Rightarrow> (Some (product_not_found productID), iv)
      | Some p \<Rightarrow> (None, gm_put iv productID (p\<lparr>pr_Stock := wrap64 (pr_Stock p + quantity)\<rparr>)))"

definition AddStock :: "string \<Rightarrow> int \<Rightarrow> 'f inventory \<Rightarrow> go_error option \<times> 'f inventory" where
  "AddStock productID quantity iv =
     (case gm_get iv productID of
        None \<Rightarrow> (Some (product_not_found productID), iv)
      | Some p \<Rightarrow> (None, gm_put iv productID (p\<lparr>pr_Stock := wrap64 (pr_Stock p + quantity)\<rparr>)))"

definition GetAll :: "'f inventory \<Rightarrow> 'f Product list" where
  "GetAll iv = map snd iv"

definition zero_product :: "'f \<Rightarrow> 'f Product" where
  "zero_product fzero = \<lparr>pr_ID = [], pr_Name = [], pr_Price = fzero, pr_Stock = 0\<rparr>"

definition GetByID :: "'f \<Rightarrow> 'f inventory \<Rightarrow> string \<Rightarrow> 'f Product \<times> bool" where
  "GetByID fzero iv i = (case gm_get iv i of None \<Rightarrow> (zero_product fzero, False) | Some p \<Rightarrow> (p, True))"

subsection \<open>Accounting\<close>

datatype inventory_op = OpReserve string int | OpRelease string int | OpAddStock string int

fun inventory_apply :: "inventory_op \<Rightarrow> 'f inventory \<Rightarrow> go_error option \<times> 'f inventory" where
  "inventory_apply (OpReserve i q) iv = Reserve i q iv"
| "inventory_apply (OpRelease i q) iv = Release i q iv"
| "inventory_apply (OpAddStock i q) iv = AddStock i q iv"

fun op_quantity :: "inventory_op \<Rightarrow> int" where
  "op_quantity (OpReserve i q) = q"
| "op_quantity (OpRelease i q) = q"
| "op_quantity (OpAddStock i q) = q"

text \<open>What an operation adds to the stock of a product when it succeeds, and a run with its results.\<close>

fun op_delta :: "string \<Rightarrow> inventory_op \<Rightarrow> int" where
  "op_delta j (OpReserve i q) = (if i = j then - q else 0)"
| "op_delta j (OpRelease i q) = (if i = j then q else 0)"
| "op_delta j (OpAddStock i q) = (if i = j then q else 0)"

fun inventory_run :: "inventory_op list \<Rightarrow> 'f inventory \<Rightarrow> (inventory_op \<times> go_error option) list \<times> 'f inventory" where
  "inventory_run [] iv = ([], iv)"
| "inventory_run (c # cs) iv =
     (let (err, iv1) = inventory_apply c iv; (log, iv2) = inventory_run cs iv1 in ((c, err) # log, iv2))"

definition accounted :: "string \<Rightarrow> (inventory_op \<times> go_error option) list \<Rightarrow> int" where
  "accounted j log = sum_list (map (\<lambda>(c, err). if err = None then op_delta j c else 0) log)"

definition stock :: "'f inventory \<Rightarrow> string \<Rightarrow> int" where
  "stock iv i = (case gm_get iv i of None \<Rightarrow> 0 | Some p \<Rightarrow> pr_Stock p)"

fun op_product :: "inventory_op \<Rightarrow> string" where
  "op_product (OpReserve i q) = i"
| "op_product (OpRelease i q) = i"
| "op_product (OpAddStock i q) = i"

lemma op_delta_other [simp]: "j \<noteq> op_product c \<Longrightarrow> op_delta j c = 0"
  by (cases c) auto

lemma op_delta_le: "0 \<le> op_quantity c \<Longrightarrow> op_delta j c \<le> op_quantity c"
  by (cases c) auto

lemma inventory_apply_cases:
  assumes "inventory_apply c iv = (err, iv')"
  obtains (refused) e where "err = Some e" "iv' = iv"
  | (success) p where "err = None" "gm_get iv (op_product c) = Some p" "pr_Stock p + op_delta (op_product c) c \<ge> 0 \<or> op_delta (op_product c) c = op_quantity c"
      "iv' = gm_put iv (op_product c) (p\<lparr>pr_Stock := wrap64 (pr_Stock p + op_delta (op_product c) c)\<rparr>)"
  using assms
  by (cases c) (auto simp: Reserve_def Release_def AddStock_def split: option.splits if_splits)

text \<open>One operation with a non-negative quantity, when the sum fits into 64 bits.\<close>

lemma inventory_apply_accounts:
  assumes "inventory_apply c iv = (err, iv')" and "0 \<le> op_quantity c" and "\<And>i. 0 \<le> stock iv i"
    and "\<And>i. stock iv i + op_quantity c < 2 ^ 63"
  shows "stock iv' j = stock iv j + (if err = None then op_delta j c else 0) \<and> 0 \<le> stock iv' j \<and>
    map_option (\<lambda>p. p\<lparr>pr_Stock := 0\<rparr>) (gm_get iv' j) = map_option (\<lambda>p. p\<lparr>pr_Stock := 0\<rparr>) (gm_get iv j)"
  using assms(1)
proof (cases rule: inventory_apply_cases)
  case (refused e)
  then show ?thesis using assms(3) by simp
next
  case (success p)
  let ?x = "pr_Stock p + op_delta (op_product c) c"
  have "0 \<le> pr_Stock p" "pr_Stock p + op_quantity c < 2 ^ 63"
    using assms(3,4) [of "op_product c"] success(2) by (simp_all add: stock_def)
  then have "0 \<le> ?x" "?x < 2 ^ 63" using success(3) assms(2) op_delta_le [OF assms(2), of "op_product c"] by auto
  then have "wrap64 ?x = ?x" by (intro wrap64_id) auto
  then show ?thesis using success \<open>0 \<le> ?x\<close> assms(3) [of j] by (auto simp: stock_def)
qed

lemma inventory_run_accounts:
  assumes "inventory_run cs iv = (log, iv')" and "\<forall>c\<in>set cs. 0 \<le> op_quantity c" and "\<And>i. 0 \<le> stock iv i"
    and "\<And>i. stock iv i + sum_list (map op_quantity cs) < 2 ^ 63"
  shows "stock iv' j = stock iv j + accounted j log \<and> 0 \<le> stock iv' j \<and>
    map_option (\<lambda>p. p\<lparr>pr_Stock := 0\<rparr>) (gm_get iv' j) = map_option (\<lambda>p. p\<lparr>pr_Stock := 0\<rparr>) (gm_get iv j)"
  using assms
proof (induction cs arbitrary: iv log)
  case Nil
  then show ?case by (simp add: accounted_def)
next
  case (Cons c cs)
  obtain err iv1 log1 where run: "inventory_apply c iv = (err, iv1)" "inventory_run cs iv1 = (log1, iv')" "log = (c, err) # log1"
    using Cons.prems(1) by (auto split: prod.splits)
  have rest: "0 \<le> sum_list (map op_quantity cs)" using Cons.prems(2) by (intro sum_list_nonneg) auto
  have c: "0 \<le> op_quantity c" using Cons.prems(2) by simp
  have "stock iv i + op_quantity c < 2 ^ 63" for i using Cons.prems(4) [of i] rest by simp
  note one = inventory_apply_accounts [OF run(1) c Cons.prems(3) this]
  have "stock iv1 i + sum_list (map op_quantity cs) < 2 ^ 63" for i
    using one [of i] Cons.prems(4) [of i] op_delta_le [OF c, of i] c by (auto split: if_splits)
  moreover have "\<forall>c\<in>set cs. 0 \<le> op_quantity c" "\<And>i. 0 \<le> stock iv1 i"
    using Cons.prems(2) by (simp, blast intro: one [THEN conjunct2, THEN conjunct1])
  ultimately have rest: "stock iv' j = stock iv1 j + accounted j log1 \<and> 0 \<le> stock iv' j \<and>
    map_option (\<lambda>p. p\<lparr>pr_Stock := 0\<rparr>) (gm_get iv' j) = map_option (\<lambda>p. p\<lparr>pr_Stock := 0\<rparr>) (gm_get iv1 j)"
    by (intro Cons.IH [OF run(2)])
  have "accounted j log = (if err = None then op_delta j c else 0) + accounted j log1" by (simp add: run(3) accounted_def)
  then show ?case using one [of j] rest by simp
qed

text \<open>
  C33.  The inventory's books balance.  Over any operations with non-negative quantities that total less than
  \<open>2 ^ 62\<close>, so that no stock wraps, the stock of every product is what it was plus what the successful operations added, it is
  never negative, and no product appears, disappears or changes its name or price.  Operations with a
  negative quantity break this (\<open>negative_quantities\<close>).
\<close>

theorem inventory_accounts:
  assumes "inventory_run cs (NewInventory lit) = (log, iv')" and "\<forall>c\<in>set cs. 0 \<le> op_quantity c"
    and "sum_list (map op_quantity cs) < 2 ^ 62"
  shows "stock iv' j = stock (NewInventory lit) j + accounted j log \<and> 0 \<le> stock iv' j \<and>
    map_option (\<lambda>p. p\<lparr>pr_Stock := 0\<rparr>) (gm_get iv' j) = map_option (\<lambda>p. p\<lparr>pr_Stock := 0\<rparr>) (gm_get (NewInventory lit) j)"
proof -
  have s: "0 \<le> stock (NewInventory lit) i \<and> stock (NewInventory lit) i \<le> 50" for i
    by (simp add: stock_def NewInventory_def inventory_seed_def DefaultProducts_def)
  have "stock (NewInventory lit) i + sum_list (map op_quantity cs) < 2 ^ 63" for i
    using s [of i] assms(3) by simp
  with s show ?thesis by (intro inventory_run_accounts [OF assms(1,2)]) auto
qed

text \<open>
  Quantities are not checked: reserving a negative quantity always succeeds and adds stock, and releasing
  one can leave a negative stock.
\<close>

theorem negative_quantities:
  assumes "gm_get iv i = Some p" and "0 \<le> pr_Stock p" and "0 < q" and "pr_Stock p + q < 2 ^ 63"
  shows "fst (Reserve i (- q) iv) = None \<and> stock (snd (Reserve i (- q) iv)) i = pr_Stock p + q \<and>
    fst (Release i (- (pr_Stock p + q)) iv) = None \<and> stock (snd (Release i (- (pr_Stock p + q)) iv)) i = - q"
proof -
  have "wrap64 (pr_Stock p + q) = pr_Stock p + q" "wrap64 (- q) = - q"
    using assms(2-4) by (intro wrap64_id; simp)+
  then show ?thesis using assms(1-3) by (simp add: Reserve_def Release_def stock_def)
qed

subsection \<open>Product stores\<close>

type_synonym 'f mem_products = "(string, 'f Product) gomap"

definition NewInMemoryProductStore :: "'f Product list \<Rightarrow> 'f mem_products" where
  "NewInMemoryProductStore products = foldl (\<lambda>m p. gm_put m (pr_ID p) p) [] products"

definition mps_LoadAll :: "'f mem_products \<Rightarrow> go_error + 'f Product list" where
  "mps_LoadAll m = Inr (map snd m)"

definition mps_Save :: "'f Product \<Rightarrow> 'f mem_products \<Rightarrow> go_error option \<times> 'f mem_products" where
  "mps_Save p m = (None, gm_put m (pr_ID p) p)"

definition mps_UpdateStock :: "string \<Rightarrow> int \<Rightarrow> 'f mem_products \<Rightarrow> go_error option \<times> 'f mem_products" where
  "mps_UpdateStock i n m =
     (case gm_get m i of
        None \<Rightarrow> (Some (product_not_found i), m)
      | Some p \<Rightarrow> (None, gm_put m i (p\<lparr>pr_Stock := n\<rparr>)))"

text \<open>
  The table \<open>ddd_inventory_products\<close>, by its primary key; \<open>collation\<close> is the database's order of texts.
\<close>

record 'f product_row =
  pw_name :: string
  pw_price :: 'f
  pw_stock :: int

type_synonym 'f product_table = "(string, 'f product_row) gomap"

fun pps_rows :: "pg_faults \<Rightarrow> nat \<Rightarrow> (string \<times> 'f product_row) list \<Rightarrow> go_error + 'f Product list" where
  "pps_rows flt n [] = (case pf_rows flt of Some err \<Rightarrow> Inl err | None \<Rightarrow> Inr [])"
| "pps_rows flt n ((i, row) # rows) =
     (case pf_scan flt n of
        Some err \<Rightarrow> Inl err
      | None \<Rightarrow>
          (case pps_rows flt (Suc n) rows of
             Inl err \<Rightarrow> Inl err
           | Inr products \<Rightarrow>
               Inr (\<lparr>pr_ID = i, pr_Name = pw_name row, pr_Price = pw_price row, pr_Stock = pw_stock row\<rparr> # products)))"

definition pps_LoadAll :: "(string \<Rightarrow> 'k::linorder) \<Rightarrow> pg_faults \<Rightarrow> 'f product_table \<Rightarrow> go_error + 'f Product list" where
  "pps_LoadAll collation flt t =
     (case pf_query flt of
        Some err \<Rightarrow> Inl err
      | None \<Rightarrow> pps_rows flt 0 (sort_key (\<lambda>(i, row). collation i) t))"

definition pps_Save :: "stmt_faults \<Rightarrow> 'f Product \<Rightarrow> 'f product_table \<Rightarrow> go_error option \<times> 'f product_table" where
  "pps_Save flt p t =
     (case sf_exec flt of
        Some err \<Rightarrow> (Some err, t)
      | None \<Rightarrow> (None, gm_put t (pr_ID p) \<lparr>pw_name = pr_Name p, pw_price = pr_Price p, pw_stock = pr_Stock p\<rparr>))"

definition pps_UpdateStock :: "stmt_faults \<Rightarrow> string \<Rightarrow> int \<Rightarrow> 'f product_table \<Rightarrow> go_error option \<times> 'f product_table" where
  "pps_UpdateStock flt i n t =
     (case sf_exec flt of
        Some err \<Rightarrow> (Some err, t)
      | None \<Rightarrow> (None, case gm_get t i of None \<Rightarrow> t | Some row \<Rightarrow> gm_put t i (row\<lparr>pw_stock := n\<rparr>)))"

text \<open>\<open>SeedProducts\<close> over any store, through its \<open>Save\<close>.\<close>

fun SeedProducts :: "('f Product \<Rightarrow> 'st \<Rightarrow> go_error option \<times> 'st) \<Rightarrow> 'f Product list \<Rightarrow> 'st \<Rightarrow> go_error option \<times> 'st" where
  "SeedProducts save [] st = (None, st)"
| "SeedProducts save (p # ps) st =
     (case save p st of
        (Some err, st1) \<Rightarrow> (Some (ErrWrap (''seed product '' @ pr_ID p @ '': '') err []), st1)
      | (None, st1) \<Rightarrow> SeedProducts save ps st1)"

subsection \<open>What a product store promises\<close>

text \<open>A store holds products by their ids; operations on known products succeed, and a load shows them all.\<close>

locale product_store =
  fixes good :: "'st \<Rightarrow> bool"
    and held :: "'st \<Rightarrow> string \<Rightarrow> 'f Product option"
    and save :: "'f Product \<Rightarrow> 'st \<Rightarrow> go_error option \<times> 'st"
    and update :: "string \<Rightarrow> int \<Rightarrow> 'st \<Rightarrow> go_error option \<times> 'st"
    and load :: "'st \<Rightarrow> go_error + 'f Product list"
  assumes save_holds: "good st \<Longrightarrow> save p st = (e, st') \<Longrightarrow> e = None \<and> good st' \<and> held st' = (held st)(pr_ID p \<mapsto> p)"
    and update_holds: "good st \<Longrightarrow> held st i = Some p \<Longrightarrow> update i n st = (e, st') \<Longrightarrow>
          e = None \<and> good st' \<and> held st' = (held st)(i \<mapsto> p\<lparr>pr_Stock := n\<rparr>)"
    and load_holds: "good st \<Longrightarrow> \<exists>ps. load st = Inr ps \<and> distinct ps \<and> (\<forall>p. p \<in> set ps \<longleftrightarrow> held st (pr_ID p) = Some p)"
begin

lemma seed_holds:
  "good st \<Longrightarrow> SeedProducts save ps st = (e, st') \<Longrightarrow>
     e = None \<and> good st' \<and> held st' = held st ++ map_of (rev (map (\<lambda>p. (pr_ID p, p)) ps))"
proof (induction ps arbitrary: st)
  case (Cons p ps)
  obtain e1 st1 where s: "save p st = (e1, st1)" by (cases "save p st")
  with save_holds [OF Cons.prems(1) s] have "e1 = None" "good st1" "held st1 = (held st)(pr_ID p \<mapsto> p)" by auto
  then show ?case using Cons.IH [of st1] Cons.prems(2) s by (simp add: map_add_def fun_eq_iff split: option.splits)
qed simp

text \<open>Seeding an empty store with products of distinct ids makes it load exactly them.\<close>

lemma seed_then_load:
  assumes "good st" and "held st = Map.empty" and "distinct (map pr_ID ps)" and "SeedProducts save ps st = (e, st')"
  shows "e = None \<and> (\<exists>ps'. load st' = Inr ps' \<and> distinct ps' \<and> set ps' = set ps)"
proof -
  let ?kv = "rev (map (\<lambda>p. (pr_ID p, p)) ps)"
  from seed_holds [OF assms(1,4)] assms(2) have s: "e = None" "good st'" "held st' = map_of ?kv" by auto
  have "map fst ?kv = rev (map pr_ID ps)" by (simp add: rev_map [symmetric])
  then have "distinct (map fst ?kv)" using assms(3) by simp
  then have "map_of ?kv (pr_ID p) = Some p \<longleftrightarrow> p \<in> set ps" for p by (subst map_of_eq_Some_iff) auto
  with load_holds [OF s(2)] s(1,3) show ?thesis by auto
qed

end

definition row_of :: "'f Product \<Rightarrow> 'f product_row" where
  "row_of p = \<lparr>pw_name = pr_Name p, pw_price = pr_Price p, pw_stock = pr_Stock p\<rparr>"

definition product_of :: "string \<Rightarrow> 'f product_row \<Rightarrow> 'f Product" where
  "product_of i row = \<lparr>pr_ID = i, pr_Name = pw_name row, pr_Price = pw_price row, pr_Stock = pw_stock row\<rparr>"

definition mps_ok :: "'f mem_products \<Rightarrow> bool" where
  "mps_ok m \<longleftrightarrow> gm_ok m \<and> (\<forall>i p. gm_get m i = Some p \<longrightarrow> pr_ID p = i)"

definition pps_held :: "'f product_table \<Rightarrow> string \<Rightarrow> 'f Product option" where
  "pps_held t i = map_option (product_of i) (gm_get t i)"

lemma pps_rows_all: "pps_rows no_faults n rows = Inr (map (\<lambda>(i, row). product_of i row) rows)"
  by (induction rows arbitrary: n) (auto simp: product_of_def)

interpretation mem_products: product_store mps_ok gm_get mps_Save mps_UpdateStock mps_LoadAll
proof (unfold_locales, goal_cases)
  case (1 st p e st')
  then show ?case by (auto simp: mps_Save_def mps_ok_def split: if_splits)
next
  case (2 st i p n e st')
  then show ?case by (auto simp: mps_UpdateStock_def mps_ok_def split: if_splits)
next
  case (3 st)
  then have ok: "gm_ok st" "\<And>i p. gm_get st i = Some p \<Longrightarrow> pr_ID p = i" by (auto simp: mps_ok_def)
  then have mem: "(i, p) \<in> set st \<Longrightarrow> pr_ID p = i \<and> gm_get st i = Some p" for i p using gm_get_iff [OF ok(1)] by blast
  have "distinct (map snd st)"
    unfolding distinct_map
  proof
    show "distinct st" using ok(1) by (auto simp: gm_ok_def distinct_map)
    show "inj_on snd (set st)" using mem by (intro inj_onI) (metis prod.collapse)
  qed
  moreover have "p \<in> snd ` set st \<longleftrightarrow> gm_get st (pr_ID p) = Some p" for p
    using mem gm_get_in by (force simp: image_iff)
  ultimately show ?case by (simp add: mps_LoadAll_def)
qed

interpretation pg_products: product_store gm_ok pps_held "pps_Save sf_none" "pps_UpdateStock sf_none" "pps_LoadAll collation no_faults"
  for collation :: "string \<Rightarrow> 'k::linorder"
proof (unfold_locales, goal_cases)
  case (1 st p e st')
  then show ?case by (auto simp: pps_Save_def pps_held_def product_of_def)
next
  case (2 st i p n e st')
  then show ?case by (auto simp: pps_UpdateStock_def pps_held_def product_of_def)
next
  case (3 st)
  let ?f = "\<lambda>(i, row). product_of i row"
  have "inj_on ?f (set st)" by (intro inj_onI) (auto simp: product_of_def)
  then have "distinct (map ?f (sort_key (\<lambda>(i, row). collation i) st))"
    using 3 by (simp add: distinct_map gm_ok_def)
  moreover have "p \<in> ?f ` set st \<longleftrightarrow> pps_held st (pr_ID p) = Some p" for p
  proof -
    have eq: "p = product_of i row \<longleftrightarrow> i = pr_ID p \<and> row = row_of p" for i row by (cases p) (auto simp: product_of_def row_of_def)
    have "p \<in> ?f ` set st \<longleftrightarrow> (\<exists>i row. (i, row) \<in> set st \<and> p = product_of i row)" by (simp add: image_iff) (metis case_prod_conv surj_pair)
    also have "\<dots> \<longleftrightarrow> (pr_ID p, row_of p) \<in> set st" unfolding eq by simp
    also have "\<dots> \<longleftrightarrow> gm_get st (pr_ID p) = Some (row_of p)" by (rule gm_get_iff [OF 3, symmetric])
    also have "\<dots> \<longleftrightarrow> pps_held st (pr_ID p) = Some p"
      using eq by (cases "gm_get st (pr_ID p)") (simp_all add: pps_held_def, metis)
    finally show ?thesis .
  qed
  ultimately show ?case by (simp add: pps_LoadAll_def pps_rows_all)
qed

text \<open>
  Both stores are seeded alike: seeding a new one with products of distinct ids succeeds and a load then
  shows exactly these products, in memory in any order and in PostgreSQL in the order of the ids.  They
  disagree on the stock of an unknown product, an error in memory and a success without effect in
  PostgreSQL.
\<close>

theorem product_stores_seeded:
  assumes "distinct (map pr_ID ps)" and "SeedProducts mps_Save ps (NewInMemoryProductStore []) = (e1, m)"
    and "SeedProducts (pps_Save sf_none) ps [] = (e2, t)"
  shows "e1 = None \<and> e2 = None \<and>
    (\<exists>ps1 ps2. mps_LoadAll m = Inr ps1 \<and> pps_LoadAll collation no_faults t = Inr ps2 \<and> distinct ps1 \<and> distinct ps2 \<and>
       set ps1 = set ps \<and> set ps2 = set ps) \<and>
    (i \<notin> pr_ID ` set ps \<longrightarrow>
       mps_UpdateStock i n m = (Some (product_not_found i), m) \<and> pps_UpdateStock sf_none i n t = (None, t))"
proof -
  have mem0: "mps_ok (NewInMemoryProductStore [])" "gm_get (NewInMemoryProductStore []) = Map.empty"
    by (simp_all add: NewInMemoryProductStore_def mps_ok_def fun_eq_iff)
  have pg0: "gm_ok []" "pps_held [] = Map.empty" by (simp_all add: pps_held_def fun_eq_iff)
  note m1 = mem_products.seed_then_load [OF mem0 assms(1,2)]
  note m2 = pg_products.seed_then_load [OF pg0 assms(1,3), of collation]
  have "gm_get m i = None \<and> gm_get t i = None" if "i \<notin> pr_ID ` set ps"
  proof -
    have "map_of (rev (map (\<lambda>p. (pr_ID p, p)) ps)) i = None" using that by (auto simp: map_of_eq_None_iff)
    moreover have "gm_get m = Map.empty ++ map_of (rev (map (\<lambda>p. (pr_ID p, p)) ps))"
      using mem_products.seed_holds [OF mem0(1) assms(2)] unfolding mem0(2) by blast
    moreover have "pps_held t = Map.empty ++ map_of (rev (map (\<lambda>p. (pr_ID p, p)) ps))"
      using pg_products.seed_holds [OF pg0(1) assms(3)] unfolding pg0(2) by blast
    ultimately have "gm_get m i = None" "pps_held t i = None" by simp_all
    then show ?thesis by (simp add: pps_held_def)
  qed
  then show ?thesis using m1 m2 by (auto simp: mps_UpdateStock_def pps_UpdateStock_def)
qed

subsection \<open>Witnesses\<close>

theorem inventory_accounts_witness:
  "stock (snd (inventory_run [OpReserve ''laptop'' 4, OpRelease ''laptop'' 1, OpReserve ''laptop'' 8] (NewInventory (\<lambda>s. ())))) ''laptop'' = 7"
proof -
  let ?cs = "[OpReserve ''laptop'' 4, OpRelease ''laptop'' 1, OpReserve ''laptop'' 8]"
  obtain log iv' where run: "inventory_run ?cs (NewInventory (\<lambda>s. ())) = (log, iv')" by fastforce
  have nonneg: "\<forall>c\<in>set ?cs. 0 \<le> op_quantity c" by simp
  have "stock (NewInventory (\<lambda>s. ())) ''laptop'' = 10" by code_simp
  moreover have "accounted ''laptop'' (fst (inventory_run ?cs (NewInventory (\<lambda>s. ())))) = -3" by code_simp
  ultimately show ?thesis using inventory_accounts [OF run nonneg, of "''laptop''"] run by simp
qed

theorem negative_quantities_witness:
  "\<exists>p. gm_get (NewInventory (\<lambda>s. ())) ''laptop'' = Some p \<and>
     stock (snd (Release ''laptop'' (-13) (NewInventory (\<lambda>s. ())))) ''laptop'' = -3"
proof -
  have "gm_get (NewInventory (\<lambda>s. ())) ''laptop'' = Some \<lparr>pr_ID = ''laptop'', pr_Name = ''Laptop'', pr_Price = (), pr_Stock = 10\<rparr>"
    by (simp add: NewInventory_def inventory_seed_def DefaultProducts_def)
  from negative_quantities [OF this, of 3] this show ?thesis by simp
qed

theorem product_stores_seeded_witness:
  "\<exists>m t ps2. SeedProducts mps_Save (DefaultProducts (\<lambda>s. ())) [] = (None, m) \<and>
     SeedProducts (pps_Save sf_none) (DefaultProducts (\<lambda>s. ())) [] = (None, t) \<and>
     pps_LoadAll (\<lambda>i. i) no_faults t = Inr ps2 \<and> set ps2 = set (DefaultProducts (\<lambda>s. ()))"
proof -
  let ?ps = "DefaultProducts (\<lambda>s. ())"
  obtain e1 m where m: "SeedProducts mps_Save ?ps (NewInMemoryProductStore []) = (e1, m)" by fastforce
  obtain e2 t where t: "SeedProducts (pps_Save sf_none) ?ps [] = (e2, t)" by fastforce
  have "distinct (map pr_ID ?ps)" by (simp add: DefaultProducts_def)
  from product_stores_seeded [OF this m t, where collation = "\<lambda>i. i" and i = "[]" and n = 0]
  have "e1 = None" "e2 = None" "\<exists>ps2. pps_LoadAll (\<lambda>i. i) no_faults t = Inr ps2 \<and> set ps2 = set ?ps" by blast+
  moreover have "SeedProducts mps_Save ?ps [] = (e1, m)" using m by (simp only: NewInMemoryProductStore_def foldl.simps)
  ultimately show ?thesis using t by blast
qed

end
