(* ===== verification/InventoryService.thy ===== *)
theory InventoryService
  imports Inventory OrderModel EventBusModel
begin

text \<open>
  The inventory's command and query handlers (\<open>exampleapp/ddd/inventory/command/handlers.go\<close>,
  \<open>query/handlers.go\<close>) and its wiring into the buses (\<open>inventory/wire/wire.go\<close>), with the two handlers
  that turn order events into inventory commands.

  The state is the inventory with the rest of the world.  The handlers reach the event bus through its
  interface, the argument \<open>publish\<close>, and the event handlers reach the command bus through its \<open>Execute\<close>,
  the argument \<open>busExecute\<close>.
\<close>

datatype inventory_event = InventoryReservedEvent string int | InventoryReleasedEvent string int

text \<open>The messages of the example's buses; a message is a pointer to one of these structs.\<close>

datatype 'f app_msg =
    ReserveInventoryCommand string string int
  | ReleaseInventoryCommand string string int
  | ResetInventoryCommand string
  | GetInventoryQuery
  | OrderMsg base_event "'f order_event"
  | PlaceOrderCommand string "'f ItemInput list"
  | ConfirmPaymentCommand string
  | ShipOrderCommand string
  | CancelOrderCommand string string
  | GenerateReportCommand string
  | ProcessBatchCommand string duration
  | GetOrderQuery string
  | ListOrdersQuery

record 'f InventoryItem =
  it_ID :: string
  it_Name :: string
  it_Price :: 'f
  it_Stock :: int

record report =
  rp_ReportID :: string
  rp_OrderID :: string
  rp_Content :: string
  rp_Generated :: bool

record batch =
  bt_OrderID :: string
  bt_Processed :: bool
  bt_DurationUsed :: duration

text \<open>Results; \<open>None\<close> is the nil pointer.\<close>

datatype 'f app_result =
    ReserveInventoryResult "bool option"
  | ReleaseInventoryResult "bool option"
  | ResetInventoryResult
  | GetInventoryResult "'f InventoryItem list"
  | PlaceOrderResult "'f PlaceOrderResult option"
  | ConfirmPaymentResult "bool option"
  | ShipOrderResult "bool option"
  | CancelOrderResult "bool option"
  | GenerateReportResult "report option"
  | ProcessBatchResult batch
  | GetOrderResult "'f GetOrderResult option"
  | ListOrdersResult "'f GetOrderResult list"

type_synonym ('f, 'w) inventory_world = "'f inventory \<times> 'w"

type_synonym ('f, 'w) publisher =
  "go_ctx \<Rightarrow> base_event \<Rightarrow> inventory_event \<Rightarrow> (('f, 'w) inventory_world, go_error option) prog"

type_synonym ('f, 'w) clock = "('f, 'w) inventory_world \<Rightarrow> time \<times> ('f, 'w) inventory_world"

definition ReserveInventory_Handle ::
    "('f, 'w) clock \<Rightarrow> ('f, 'w) publisher \<Rightarrow> go_ctx \<Rightarrow> string \<Rightarrow> string \<Rightarrow> int \<Rightarrow>
       (('f, 'w) inventory_world, go_error + bool) prog" where
  "ReserveInventory_Handle clk publish ctx orderID productID quantity = (\<lambda>(iv, w).
     case Reserve productID quantity iv of
       (Some err, iv1) \<Rightarrow> (Ret (Inl err), (iv1, w))
     | (None, iv1) \<Rightarrow>
         (let (now, s1) = clk (iv1, w)
          in prog_bind (publish ctx (WithCorrelation now ctx orderID) (InventoryReservedEvent productID quantity))
               (\<lambda>ignored s. (Ret (Inr True), s)) s1))"

definition ReleaseInventory_Handle ::
    "('f, 'w) clock \<Rightarrow> ('f, 'w) publisher \<Rightarrow> go_ctx \<Rightarrow> string \<Rightarrow> string \<Rightarrow> int \<Rightarrow>
       (('f, 'w) inventory_world, go_error + bool) prog" where
  "ReleaseInventory_Handle clk publish ctx orderID productID quantity = (\<lambda>(iv, w).
     case Release productID quantity iv of
       (Some err, iv1) \<Rightarrow> (Ret (Inl err), (iv1, w))
     | (None, iv1) \<Rightarrow>
         (let (now, s1) = clk (iv1, w)
          in prog_bind (publish ctx (WithCorrelation now ctx orderID) (InventoryReleasedEvent productID quantity))
               (\<lambda>ignored s. (Ret (Inr True), s)) s1))"

definition ResetInventory_Handle :: "(('f, 'w) inventory_world, 'f app_result) prog" where
  "ResetInventory_Handle s = (Ret ResetInventoryResult, s)"

definition GetInventory_Handle :: "(('f, 'w) inventory_world, 'f app_result) prog" where
  "GetInventory_Handle = (\<lambda>(iv, w).
     (Ret (GetInventoryResult (map (\<lambda>p. \<lparr>it_ID = pr_ID p, it_Name = pr_Name p, it_Price = pr_Price p, it_Stock = pr_Stock p\<rparr>)
             (GetAll iv))), (iv, w)))"

subsection \<open>The handlers as the buses see them\<close>

definition inventory_pkg :: string where
  "inventory_pkg = ''github.com/ddd-qce/exampleapp/ddd/inventory/''"

definition struct_in :: "string \<Rightarrow> string \<Rightarrow> gtype" where
  "struct_in pkg n = TPtr (TNamed (inventory_pkg @ pkg) n)"

definition order_pkg :: string where
  "order_pkg = ''github.com/ddd-qce/exampleapp/ddd/order/''"

definition order_in :: "string \<Rightarrow> string \<Rightarrow> gtype" where
  "order_in pkg n = TPtr (TNamed (order_pkg @ pkg) n)"

fun msg_type :: "'f app_msg \<Rightarrow> gtype" where
  "msg_type (ReserveInventoryCommand o1 p q) = struct_in ''command'' ''ReserveInventoryCommand''"
| "msg_type (ReleaseInventoryCommand o1 p q) = struct_in ''command'' ''ReleaseInventoryCommand''"
| "msg_type (ResetInventoryCommand p) = struct_in ''command'' ''ResetInventoryCommand''"
| "msg_type GetInventoryQuery = struct_in ''query'' ''GetInventoryQuery''"
| "msg_type (OrderMsg m e) = TPtr (order_event_type e)"
| "msg_type (PlaceOrderCommand u is) = order_in ''command'' ''PlaceOrderCommand''"
| "msg_type (ConfirmPaymentCommand i) = order_in ''command'' ''ConfirmPaymentCommand''"
| "msg_type (ShipOrderCommand i) = order_in ''command'' ''ShipOrderCommand''"
| "msg_type (CancelOrderCommand i r) = order_in ''command'' ''CancelOrderCommand''"
| "msg_type (GenerateReportCommand i) = order_in ''command'' ''GenerateReportCommand''"
| "msg_type (ProcessBatchCommand i d) = order_in ''command'' ''ProcessBatchCommand''"
| "msg_type (GetOrderQuery i) = order_in ''query'' ''GetOrderQuery''"
| "msg_type ListOrdersQuery = order_in ''query'' ''ListOrdersQuery''"

definition app_any :: "'f app_msg \<Rightarrow> 'f app_msg goany" where
  "app_any m = GAny (msg_type m) m"

text \<open>A pointer to a handler struct with one method; calling it by reflection with another type panics.\<close>

definition pointer_handler ::
    "gtype \<Rightarrow> gtype \<Rightarrow> nat \<Rightarrow> (go_ctx \<Rightarrow> 'f app_msg \<Rightarrow> ('s, 'f app_result retval list) prog) \<Rightarrow>
       ('s, go_ctx, 'f app_msg, 'f app_result) handler" where
  "pointer_handler t payload address call =
     \<lparr>h_dyn = \<lparr>ht_type = t,
               ht_methods = [\<lparr>m_name = ''Handle'', m_in = [t, TNamed ''context'' ''Context'', payload]\<rparr>]\<rparr>,
      h_pointer = Ret address,
      h_call = (\<lambda>ctx msg s. case msg of
         GNil \<Rightarrow> (Panic ''reflect: Call using zero Value argument'', s)
       | GAny t m \<Rightarrow> if t = payload then call ctx m s else (Panic ''reflect: Call using wrong type'', s))\<rparr>"

abbreviation struct_handler ::
    "string \<Rightarrow> string \<Rightarrow> gtype \<Rightarrow> nat \<Rightarrow> (go_ctx \<Rightarrow> 'f app_msg \<Rightarrow> ('s, 'f app_result retval list) prog) \<Rightarrow>
       ('s, go_ctx, 'f app_msg, 'f app_result) handler" where
  "struct_handler pkg n \<equiv> pointer_handler (struct_in pkg n)"

definition error_result :: "go_error option \<Rightarrow> 'v retval" where
  "error_result err = (case err of None \<Rightarrow> RNil | Some e \<Rightarrow> RErr e)"

definition reserve_handler ::
    "('f, 'w) clock \<Rightarrow> ('f, 'w) publisher \<Rightarrow> (('f, 'w) inventory_world, go_ctx, 'f app_msg, 'f app_result) handler" where
  "reserve_handler clk publish =
     struct_handler ''command'' ''ReserveInventoryHandler'' (struct_in ''command'' ''ReserveInventoryCommand'') 1
       (\<lambda>ctx m s. case m of
          ReserveInventoryCommand orderID productID quantity \<Rightarrow>
            prog_bind (ReserveInventory_Handle clk publish ctx orderID productID quantity)
              (\<lambda>r s. (Ret (case r of
                 Inl err \<Rightarrow> [RVal (ReserveInventoryResult None), RErr err]
               | Inr ok \<Rightarrow> [RVal (ReserveInventoryResult (Some ok)), RNil]), s)) s
        | other \<Rightarrow> (Panic ''reflect: Call using wrong type'', s))"

definition release_handler ::
    "('f, 'w) clock \<Rightarrow> ('f, 'w) publisher \<Rightarrow> (('f, 'w) inventory_world, go_ctx, 'f app_msg, 'f app_result) handler" where
  "release_handler clk publish =
     struct_handler ''command'' ''ReleaseInventoryHandler'' (struct_in ''command'' ''ReleaseInventoryCommand'') 2
       (\<lambda>ctx m s. case m of
          ReleaseInventoryCommand orderID productID quantity \<Rightarrow>
            prog_bind (ReleaseInventory_Handle clk publish ctx orderID productID quantity)
              (\<lambda>r s. (Ret (case r of
                 Inl err \<Rightarrow> [RVal (ReleaseInventoryResult None), RErr err]
               | Inr ok \<Rightarrow> [RVal (ReleaseInventoryResult (Some ok)), RNil]), s)) s
        | other \<Rightarrow> (Panic ''reflect: Call using wrong type'', s))"

definition reset_handler :: "(('f, 'w) inventory_world, go_ctx, 'f app_msg, 'f app_result) handler" where
  "reset_handler =
     struct_handler ''command'' ''ResetInventoryHandler'' (struct_in ''command'' ''ResetInventoryCommand'') 3
       (\<lambda>ctx m. prog_bind ResetInventory_Handle (\<lambda>r s. (Ret [RVal r, RNil], s)))"

definition get_inventory_handler :: "(('f, 'w) inventory_world, go_ctx, 'f app_msg, 'f app_result) handler" where
  "get_inventory_handler =
     struct_handler ''query'' ''GetInventoryHandler'' (struct_in ''query'' ''GetInventoryQuery'') 4
       (\<lambda>ctx m. prog_bind GetInventory_Handle (\<lambda>r s. (Ret [RVal r, RNil], s)))"

subsection \<open>The order events' handlers\<close>

type_synonym ('f, 'w) execute =
  "go_ctx \<Rightarrow> 'f app_msg goany \<Rightarrow> (('f, 'w) inventory_world, 'f app_result retval \<times> go_error option) prog"

fun is_reserve_result :: "'f app_result retval \<Rightarrow> bool option option" where
  "is_reserve_result (RVal (ReserveInventoryResult r)) = Some r"
| "is_reserve_result _ = None"

fun is_release_result :: "'f app_result retval \<Rightarrow> bool option option" where
  "is_release_result (RVal (ReleaseInventoryResult r)) = Some r"
| "is_release_result _ = None"

text \<open>\<open>tname\<close> is \<open>%T\<close> of a result.\<close>

definition OrderPlacedInventory_Handle ::
    "('f app_result retval \<Rightarrow> string) \<Rightarrow> ('f, 'w) execute \<Rightarrow> go_ctx \<Rightarrow> base_event \<Rightarrow>
       (('f, 'w) inventory_world, go_error option) prog" where
  "OrderPlacedInventory_Handle tname busExecute ctx evt =
     prog_bind (cmd_Dispatch busExecute is_reserve_result None tname ctx
                  (app_any (ReserveInventoryCommand (be_AggregateID evt) ''laptop'' 1)))
       (\<lambda>(ignored, err) s. (Ret err, s))"

definition OrderCancelledInventory_Handle ::
    "('f app_result retval \<Rightarrow> string) \<Rightarrow> ('f, 'w) execute \<Rightarrow> go_ctx \<Rightarrow> base_event \<Rightarrow>
       (('f, 'w) inventory_world, go_error option) prog" where
  "OrderCancelledInventory_Handle tname busExecute ctx evt =
     prog_bind (cmd_Dispatch busExecute is_release_result None tname ctx
                  (app_any (ReleaseInventoryCommand (be_AggregateID evt) ''laptop'' 1)))
       (\<lambda>(ignored, err) s. (Ret err, s))"

definition order_handler ::
    "string \<Rightarrow> gtype \<Rightarrow> nat \<Rightarrow> (go_ctx \<Rightarrow> base_event \<Rightarrow> (('f, 'w) inventory_world, go_error option) prog) \<Rightarrow>
       (('f, 'w) inventory_world, go_ctx, 'f app_msg, 'f app_result) handler" where
  "order_handler n payload address handle =
     struct_handler ''wire'' n payload address
       (\<lambda>ctx m s. case m of
          OrderMsg meta e \<Rightarrow> prog_bind (handle ctx meta) (\<lambda>err s. (Ret [error_result err], s)) s
        | other \<Rightarrow> (Panic ''reflect: Call using wrong type'', s))"

abbreviation placed_type :: gtype where
  "placed_type \<equiv> TPtr (TNamed ''github.com/ddd-qce/exampleapp/ddd/order/event'' ''OrderPlacedEvent'')"

abbreviation cancelled_type :: gtype where
  "cancelled_type \<equiv> TPtr (TNamed ''github.com/ddd-qce/exampleapp/ddd/order/event'' ''OrderCancelledEvent'')"

definition placed_handler ::
    "('f app_result retval \<Rightarrow> string) \<Rightarrow> ('f, 'w) execute \<Rightarrow> (('f, 'w) inventory_world, go_ctx, 'f app_msg, 'f app_result) handler" where
  "placed_handler tname busExecute =
     order_handler ''OrderPlacedInventoryHandler'' placed_type 5 (OrderPlacedInventory_Handle tname busExecute)"

definition cancelled_handler ::
    "('f app_result retval \<Rightarrow> string) \<Rightarrow> ('f, 'w) execute \<Rightarrow> (('f, 'w) inventory_world, go_ctx, 'f app_msg, 'f app_result) handler" where
  "cancelled_handler tname busExecute =
     order_handler ''OrderCancelledInventoryHandler'' cancelled_type 6 (OrderCancelledInventory_Handle tname busExecute)"

subsection \<open>Wiring\<close>

text \<open>A sequence of registrations that stops at the first error; \<open>what\<close> names the handler in it.\<close>

fun register_cmds ::
    "('s, 'c, 'd, 'v) messageBus \<Rightarrow> (string \<times> ('s, 'c, 'd, 'v) handler) list \<Rightarrow> go_error option \<times> ('s, 'c, 'd, 'v) messageBus" where
  "register_cmds b [] = (None, b)"
| "register_cmds b ((what, h) # hs) =
     (case CommandBus_RegisterHandler b h of
        (b1, Some err) \<Rightarrow> (Some (ErrWrap (''register '' @ what @ '': '') err []), b1)
      | (b1, None) \<Rightarrow> register_cmds b1 hs)"

fun register_queries ::
    "('s, 'c, 'd, 'v) messageBus \<Rightarrow> (string \<times> ('s, 'c, 'd, 'v) handler) list \<Rightarrow> go_error option \<times> ('s, 'c, 'd, 'v) messageBus" where
  "register_queries b [] = (None, b)"
| "register_queries b ((what, h) # hs) =
     (case QueryBus_RegisterHandler b h of
        (b1, Some err) \<Rightarrow> (Some (ErrWrap (''register '' @ what @ '': '') err []), b1)
      | (b1, None) \<Rightarrow> register_queries b1 hs)"

fun subscribe_all ::
    "('s, 'd, 'v) event_bus \<Rightarrow> (string \<times> ('s, go_ctx, 'd, 'v) handler) list \<Rightarrow> (go_error option \<times> ('s, 'd, 'v) event_bus) outcome" where
  "subscribe_all b [] = Ret (None, b)"
| "subscribe_all b ((what, h) # hs) =
     out_bind (SubscribeHandler b h)
       (\<lambda>(b1, err). case err of
          Some e \<Rightarrow> Ret (Some (ErrWrap (''register '' @ what @ '': '') e []), b1)
        | None \<Rightarrow> subscribe_all b1 hs)"

text \<open>
  The buses a wiring function is given.  They are interfaces in the source, so what registering does to
  them is an argument: \<open>plain_buses\<close> registers with the in-memory buses themselves.
\<close>

record ('b, 's, 'd, 'v) registrar =
  rg_cmd :: "'b \<Rightarrow> ('s, go_ctx, 'd, 'v) handler \<Rightarrow> ('b \<times> go_error option) outcome"
  rg_query :: "'b \<Rightarrow> ('s, go_ctx, 'd, 'v) handler \<Rightarrow> ('b \<times> go_error option) outcome"
  rg_event :: "'b \<Rightarrow> ('s, go_ctx, 'd, 'v) handler \<Rightarrow> ('b \<times> go_error option) outcome"

fun register_via ::
    "('b \<Rightarrow> 'h \<Rightarrow> ('b \<times> go_error option) outcome) \<Rightarrow> 'b \<Rightarrow> (string \<times> 'h) list \<Rightarrow> (go_error option \<times> 'b) outcome" where
  "register_via reg b [] = Ret (None, b)"
| "register_via reg b ((what, h) # hs) =
     out_bind (reg b h)
       (\<lambda>(b1, err). case err of
          Some e \<Rightarrow> Ret (Some (ErrWrap (''register '' @ what @ '': '') e []), b1)
        | None \<Rightarrow> register_via reg b1 hs)"

record ('s, 'd, 'v) buses =
  bs_cmd :: "('s, go_ctx, 'd, 'v) messageBus"
  bs_query :: "('s, go_ctx, 'd, 'v) messageBus"
  bs_event :: "('s, 'd, 'v) event_bus"

definition plain_buses :: "(('s, 'd, 'v) buses, 's, 'd, 'v) registrar" where
  "plain_buses =
     \<lparr>rg_cmd = (\<lambda>b h. case CommandBus_RegisterHandler (bs_cmd b) h of (c, e) \<Rightarrow> Ret (b\<lparr>bs_cmd := c\<rparr>, e)),
      rg_query = (\<lambda>b h. case QueryBus_RegisterHandler (bs_query b) h of (q, e) \<Rightarrow> Ret (b\<lparr>bs_query := q\<rparr>, e)),
      rg_event = (\<lambda>b h. out_bind (SubscribeHandler (bs_event b) h) (\<lambda>(v, e). Ret (b\<lparr>bs_event := v\<rparr>, e)))\<rparr>"

definition new_buses :: "('s, go_ctx, 'd goany, 'v) chain \<Rightarrow> ('s, 'd, 'v) buses" where
  "new_buses ch = \<lparr>bs_cmd = newMessageBus ch, bs_query = newMessageBus ch, bs_event = NewEventBus [WithEventBusAspectChain ch]\<rparr>"

definition inventory_commands ::
    "('f, 'w) clock \<Rightarrow> ('f, 'w) publisher \<Rightarrow> (string \<times> (('f, 'w) inventory_world, go_ctx, 'f app_msg, 'f app_result) handler) list" where
  "inventory_commands clk publish =
     [(''ReserveInventoryHandler'', reserve_handler clk publish),
      (''ReleaseInventoryHandler'', release_handler clk publish),
      (''ResetInventoryHandler'', reset_handler)]"

definition inventory_subscribers ::
    "('f app_result retval \<Rightarrow> string) \<Rightarrow> ('f, 'w) execute \<Rightarrow>
       (string \<times> (('f, 'w) inventory_world, go_ctx, 'f app_msg, 'f app_result) handler) list" where
  "inventory_subscribers tname busExecute =
     [(''OrderPlacedInventoryHandler'', placed_handler tname busExecute),
      (''OrderCancelledInventoryHandler'', cancelled_handler tname busExecute)]"

definition WireInventory ::
    "('b, ('f, 'w) inventory_world, 'f app_msg, 'f app_result) registrar \<Rightarrow> ('f, 'w) clock \<Rightarrow> ('f, 'w) publisher \<Rightarrow>
     ('f app_result retval \<Rightarrow> string) \<Rightarrow> ('f, 'w) execute \<Rightarrow> 'b \<Rightarrow> (go_error option \<times> 'b) outcome" where
  "WireInventory rg clk publish tname busExecute b =
     out_bind (register_via (rg_cmd rg) b (inventory_commands clk publish))
       (\<lambda>(err, b1). case err of Some e \<Rightarrow> Ret (Some e, b1) | None \<Rightarrow>
     out_bind (register_via (rg_query rg) b1 [(''GetInventoryHandler'', get_inventory_handler)])
       (\<lambda>(err, b2). case err of Some e \<Rightarrow> Ret (Some e, b2) | None \<Rightarrow>
     register_via (rg_event rg) b2 (inventory_subscribers tname busExecute)))"

subsection \<open>Any buses that register like the in-memory ones\<close>

text \<open>
  What a wiring function needs of the buses: registering a handler whose payload type is found has the
  result of the in-memory bus, in the state's view of it, and leaves the other buses alone.
\<close>

definition payload_found :: "('s, 'c, 'd, 'v) handler \<Rightarrow> bool" where
  "payload_found h \<longleftrightarrow> (\<exists>t. extractHandlerPayloadType (h_dyn h) = (Some t, True))"

locale bus_registrar =
  fixes rg :: "('b, 's, 'd, 'v) registrar" and view :: "'b \<Rightarrow> ('s, 'd, 'v) buses"
  assumes cmd_registers: "payload_found h \<Longrightarrow> CommandBus_RegisterHandler (bs_cmd (view b)) h = (c, e) \<Longrightarrow>
      \<exists>b1. rg_cmd rg b h = Ret (b1, e) \<and> view b1 = (view b)\<lparr>bs_cmd := c\<rparr>"
    and query_registers: "payload_found h \<Longrightarrow> QueryBus_RegisterHandler (bs_query (view b)) h = (q, e) \<Longrightarrow>
      \<exists>b1. rg_query rg b h = Ret (b1, e) \<and> view b1 = (view b)\<lparr>bs_query := q\<rparr>"
    and event_subscribes: "payload_found h \<Longrightarrow> SubscribeHandler (bs_event (view b)) h = Ret (v, e) \<Longrightarrow>
      \<exists>b1. rg_event rg b h = Ret (b1, e) \<and> view b1 = (view b)\<lparr>bs_event := v\<rparr>"
begin

lemma via_commands:
  assumes "list_all (\<lambda>x. payload_found (snd x)) hs" and "register_cmds (bs_cmd (view b)) hs = (e, c)"
  shows "\<exists>b1. register_via (rg_cmd rg) b hs = Ret (e, b1) \<and> view b1 = (view b)\<lparr>bs_cmd := c\<rparr>"
  using assms
proof (induction hs arbitrary: b)
  case (Cons x hs)
  obtain what h where x: "x = (what, h)" by (cases x)
  obtain c1 e1 where c1: "CommandBus_RegisterHandler (bs_cmd (view b)) h = (c1, e1)" by (cases "CommandBus_RegisterHandler (bs_cmd (view b)) h")
  then obtain b1 where b1: "rg_cmd rg b h = Ret (b1, e1)" "view b1 = (view b)\<lparr>bs_cmd := c1\<rparr>"
    using cmd_registers Cons.prems(1) x by force
  show ?case
    using Cons.IH [of b1] Cons.prems x c1 b1 by (cases e1) auto
qed auto

lemma via_queries:
  assumes "list_all (\<lambda>x. payload_found (snd x)) hs" and "register_queries (bs_query (view b)) hs = (e, c)"
  shows "\<exists>b1. register_via (rg_query rg) b hs = Ret (e, b1) \<and> view b1 = (view b)\<lparr>bs_query := c\<rparr>"
  using assms
proof (induction hs arbitrary: b)
  case (Cons x hs)
  obtain what h where x: "x = (what, h)" by (cases x)
  obtain c1 e1 where c1: "QueryBus_RegisterHandler (bs_query (view b)) h = (c1, e1)" by (cases "QueryBus_RegisterHandler (bs_query (view b)) h")
  then obtain b1 where b1: "rg_query rg b h = Ret (b1, e1)" "view b1 = (view b)\<lparr>bs_query := c1\<rparr>"
    using query_registers Cons.prems(1) x by force
  show ?case
    using Cons.IH [of b1] Cons.prems x c1 b1 by (cases e1) auto
qed auto

lemma via_events:
  assumes "list_all (\<lambda>x. payload_found (snd x)) hs" and "subscribe_all (bs_event (view b)) hs = Ret (e, v)"
  shows "\<exists>b1. register_via (rg_event rg) b hs = Ret (e, b1) \<and> view b1 = (view b)\<lparr>bs_event := v\<rparr>"
  using assms
proof (induction hs arbitrary: b)
  case (Cons x hs)
  obtain what h where x: "x = (what, h)" by (cases x)
  then obtain v1 e1 where v1: "SubscribeHandler (bs_event (view b)) h = Ret (v1, e1)"
    using Cons.prems(2) by (cases "SubscribeHandler (bs_event (view b)) h") auto
  then obtain b1 where b1: "rg_event rg b h = Ret (b1, e1)" "view b1 = (view b)\<lparr>bs_event := v1\<rparr>"
    using event_subscribes Cons.prems(1) x by force
  show ?case
    using Cons.IH [of b1] Cons.prems x v1 b1 by (cases e1) auto
qed auto

end

interpretation plain: bus_registrar plain_buses "\<lambda>b. b"
  by unfold_locales (simp_all add: plain_buses_def)

subsection \<open>What the wired application does\<close>

lemma register_cmds_all: "register_cmds b hs = (None, b') \<Longrightarrow> b' = command_bus.reg_all b (map snd hs)"
  by (induction b hs rule: register_cmds.induct) (auto simp: command_bus.reg_all_def split: prod.splits option.splits)

lemma pointer_handler_payload [simp]:
  "extractHandlerPayloadType (h_dyn (pointer_handler (TPtr t) payload address call)) = (Some payload, True)"
  by (simp add: pointer_handler_def extractHandlerPayloadType_def MethodByName_def extractPayloadFromHandleMethod_def)

lemma pointer_handler_method [simp]:
  "MethodByName (h_dyn (pointer_handler t payload address call)) ''Handle'' =
     Some \<lparr>m_name = ''Handle'', m_in = [t, TNamed ''context'' ''Context'', payload]\<rparr>"
  by (simp add: pointer_handler_def MethodByName_def)

lemma struct_handler_payload [simp]:
  "extractHandlerPayloadType (h_dyn (struct_handler pkg n payload address call)) = (Some payload, True)"
  by (simp add: struct_in_def)

lemmas inventory_handlers =
  reserve_handler_def release_handler_def reset_handler_def get_inventory_handler_def placed_handler_def
  cancelled_handler_def order_handler_def

text \<open>A new command bus after its registrations: the first handler of a type, inside the chain's aspects.\<close>

lemma registered_execute:
  assumes "register_cmds (newMessageBus ch) hs = (None, cb)"
  shows "CommandBus_Execute clk cb ctx m s =
      (case find (\<lambda>h. handler_payload h = Some (type_of m)) (map snd hs) of
         None \<Rightarrow> (Ret (RNil, Some (no_handler m)), s)
       | Some h \<Rightarrow> foldr (aspect_layer clk m) (commandAspects ch) (\<lambda>c. handler_invoker h c m) ctx s)"
proof -
  have cb: "cb = command_bus.reg_all (newMessageBus ch) (map snd hs)" by (rule register_cmds_all [OF assms])
  have ok: "bus_ok cb" unfolding cb by (rule command_bus.good_reg_all) simp
  have frame: "\<not> mb_closed cb" "mb_chain cb = ch"
    unfolding cb command_bus.reg_all_def by (simp_all add: register_all_frame)
  have "bus_route cb t = find (\<lambda>h. handler_payload h = Some t) (map snd hs)" for t
    unfolding cb by (simp add: command_bus.route_reg_all)
  then show ?thesis
    by (simp add: execute_route(1) [OF ok frame(1)] frame(2) cong: option.case_cong)
qed

text \<open>Wiring the inventory into any buses where its handlers are new.\<close>

lemma inventory_payloads:
  "list_all (\<lambda>x. payload_found (snd x)) (inventory_commands clk publish)"
  "list_all (\<lambda>x. payload_found (snd x)) [(''GetInventoryHandler'', get_inventory_handler)]"
  "list_all (\<lambda>x. payload_found (snd x)) (inventory_subscribers tname busExecute)"
  by (simp_all add: inventory_commands_def inventory_subscribers_def payload_found_def inventory_handlers)

lemma wire_inventory:
  assumes "bus_registrar rg view"
    and "register_cmds (bs_cmd (view b)) (inventory_commands clk publish) = (None, c)"
    and "register_queries (bs_query (view b)) [(''GetInventoryHandler'', get_inventory_handler)] = (None, q)"
    and "subscribe_all (bs_event (view b)) (inventory_subscribers tname busExecute) = Ret (None, v)"
  shows "\<exists>b1. WireInventory rg clk publish tname busExecute b = Ret (None, b1) \<and> view b1 = \<lparr>bs_cmd = c, bs_query = q, bs_event = v\<rparr>"
proof -
  obtain b1 where b1: "register_via (rg_cmd rg) b (inventory_commands clk publish) = Ret (None, b1)" "view b1 = (view b)\<lparr>bs_cmd := c\<rparr>"
    using bus_registrar.via_commands [OF assms(1) inventory_payloads(1) assms(2)] by blast
  then obtain b2 where b2: "register_via (rg_query rg) b1 [(''GetInventoryHandler'', get_inventory_handler)] = Ret (None, b2)"
      "view b2 = (view b1)\<lparr>bs_query := q\<rparr>"
    using bus_registrar.via_queries [OF assms(1) inventory_payloads(2), of b1 None q] assms(3) by auto
  then obtain b3 where "register_via (rg_event rg) b2 (inventory_subscribers tname busExecute) = Ret (None, b3)"
      "view b3 = (view b2)\<lparr>bs_event := v\<rparr>"
    using bus_registrar.via_events [OF assms(1) inventory_payloads(3), of b2 tname busExecute None v] assms(4) b1(2) by auto
  then show ?thesis using b1 b2 by (simp add: WireInventory_def)
qed

lemma inventory_registers:
  fixes clk :: "('f, 'w) clock" and ch :: "(('f, 'w) inventory_world, go_ctx, 'f app_msg goany, 'f app_result) chain"
  obtains c q v where "register_cmds (newMessageBus ch) (inventory_commands clk publish) = (None, c)"
    and "register_queries (newMessageBus ch) [(''GetInventoryHandler'', get_inventory_handler)] = (None, q)"
    and "subscribe_all (NewEventBus [WithEventBusAspectChain ch]) (inventory_subscribers tname busExecute) = Ret (None, v)"
    and "eb_chain v = ch" and "\<not> eb_closed v" and "eb_sem v = None"
    and "gm_get (eb_handlers v) (Some placed_type) = Some [entry_of (placed_handler tname busExecute)]"
    and "gm_get (eb_handlers v) (Some cancelled_type) = Some [entry_of (cancelled_handler tname busExecute)]"
  by (simp add: CommandBus_RegisterHandler_def QueryBus_RegisterHandler_def makeInvoker_def inventory_commands_def
      inventory_subscribers_def registerHandler_def newMessageBus_def inventory_handlers struct_in_def SubscribeHandler_def
      makeHandlerInvoker_def NewEventBus_def entry_of_def Let_def)

lemma wired_buses:
  fixes clk :: "('f, 'w) clock"
  assumes "WireInventory plain_buses clk publish tname busExecute (new_buses NewAspectChain) = Ret (err, b)"
  shows "err = None" and "register_cmds (newMessageBus NewAspectChain) (inventory_commands clk publish) = (None, bs_cmd b)"
    and "eb_chain (bs_event b) = NewAspectChain" and "\<not> eb_closed (bs_event b)" and "eb_sem (bs_event b) = None"
    and "gm_get (eb_handlers (bs_event b)) (Some placed_type) = Some [entry_of (placed_handler tname busExecute)]"
    and "gm_get (eb_handlers (bs_event b)) (Some cancelled_type) = Some [entry_of (cancelled_handler tname busExecute)]"
proof -
  obtain c q v where r: "register_cmds (newMessageBus NewAspectChain) (inventory_commands clk publish) = (None, c)"
      "register_queries (newMessageBus NewAspectChain) [(''GetInventoryHandler'',
          get_inventory_handler :: (('f, 'w) inventory_world, go_ctx, 'f app_msg, 'f app_result) handler)] = (None, q)"
      "subscribe_all (NewEventBus [WithEventBusAspectChain NewAspectChain]) (inventory_subscribers tname busExecute) = Ret (None, v)"
    and v: "eb_chain v = NewAspectChain" "\<not> eb_closed v" "eb_sem v = None"
      "gm_get (eb_handlers v) (Some placed_type) = Some [entry_of (placed_handler tname busExecute)]"
      "gm_get (eb_handlers v) (Some cancelled_type) = Some [entry_of (cancelled_handler tname busExecute)]"
    by (rule inventory_registers [of NewAspectChain clk publish tname busExecute])
  have "WireInventory plain_buses clk publish tname busExecute (new_buses NewAspectChain) =
      Ret (None, \<lparr>bs_cmd = c, bs_query = q, bs_event = v\<rparr>)"
    using wire_inventory [OF plain.bus_registrar_axioms, of "new_buses NewAspectChain" clk publish c q tname busExecute v] r
    by (simp add: new_buses_def)
  then have "err = None" "b = \<lparr>bs_cmd = c, bs_query = q, bs_event = v\<rparr>" using assms by simp_all
  then show "err = None" "register_cmds (newMessageBus NewAspectChain) (inventory_commands clk publish) = (None, bs_cmd b)"
    "eb_chain (bs_event b) = NewAspectChain" "\<not> eb_closed (bs_event b)" "eb_sem (bs_event b) = None"
    "gm_get (eb_handlers (bs_event b)) (Some placed_type) = Some [entry_of (placed_handler tname busExecute)]"
    "gm_get (eb_handlers (bs_event b)) (Some cancelled_type) = Some [entry_of (cancelled_handler tname busExecute)]"
    using r(1) v by simp_all
qed

lemma wired_commands:
  assumes "WireInventory plain_buses clk publish tname busExecute (new_buses NewAspectChain) = Ret (err, b)"
  shows "CommandBus_Execute clk (bs_cmd b) ctx (app_any (ReserveInventoryCommand o1 p q)) s =
      handler_invoker (reserve_handler clk publish) ctx (app_any (ReserveInventoryCommand o1 p q)) s"
    and "CommandBus_Execute clk (bs_cmd b) ctx (app_any (ReleaseInventoryCommand o1 p q)) s =
      handler_invoker (release_handler clk publish) ctx (app_any (ReleaseInventoryCommand o1 p q)) s"
  by (simp_all add: registered_execute [OF wired_buses(2) [OF assms]] inventory_commands_def handler_payload_def
      inventory_handlers app_any_def struct_in_def NewAspectChain_def)

text \<open>The clock and publishing leave the inventory alone, and publishing does not panic.\<close>

definition quiet :: "('f, 'w) clock \<Rightarrow> ('f, 'w) publisher \<Rightarrow> bool" where
  "quiet clk publish \<longleftrightarrow> (\<forall>s. fst (snd (clk s)) = fst s) \<and>
     (\<forall>ctx b e s. \<exists>r s'. publish ctx b e s = (Ret r, s') \<and> fst s' = fst s)"

lemma reserve_run:
  assumes "quiet clk publish"
  shows "\<exists>r s'. handler_invoker (reserve_handler clk publish) ctx (app_any (ReserveInventoryCommand o1 p q)) s =
      (Ret (RVal (ReserveInventoryResult r), fst (Reserve p q (fst s))), s') \<and> fst s' = snd (Reserve p q (fst s))"
proof -
  obtain iv w where s: "s = (iv, w)" by (cases s)
  obtain err iv1 where r: "Reserve p q iv = (err, iv1)" by (cases "Reserve p q iv")
  obtain now s1 where clk: "clk (iv1, w) = (now, s1)" by (cases "clk (iv1, w)")
  with assms have s1: "fst s1 = iv1" unfolding quiet_def by (metis fst_conv snd_conv)
  obtain r2 s2 where pub: "publish ctx (WithCorrelation now ctx o1) (InventoryReservedEvent p q) s1 = (Ret r2, s2)" "fst s2 = fst s1"
    using assms unfolding quiet_def by metis
  show ?thesis
    by (cases err) (simp_all add: s r handler_invoker_def reserve_handler_def pointer_handler_def app_any_def
        prog_bind_def ReserveInventory_Handle_def clk pub s1 invoker_result_def)
qed

lemma release_run:
  assumes "quiet clk publish"
  shows "\<exists>r s'. handler_invoker (release_handler clk publish) ctx (app_any (ReleaseInventoryCommand o1 p q)) s =
      (Ret (RVal (ReleaseInventoryResult r), fst (Release p q (fst s))), s') \<and> fst s' = snd (Release p q (fst s))"
proof -
  obtain iv w where s: "s = (iv, w)" by (cases s)
  obtain err iv1 where r: "Release p q iv = (err, iv1)" by (cases "Release p q iv")
  obtain now s1 where clk: "clk (iv1, w) = (now, s1)" by (cases "clk (iv1, w)")
  with assms have s1: "fst s1 = iv1" unfolding quiet_def by (metis fst_conv snd_conv)
  obtain r2 s2 where pub: "publish ctx (WithCorrelation now ctx o1) (InventoryReleasedEvent p q) s1 = (Ret r2, s2)" "fst s2 = fst s1"
    using assms unfolding quiet_def by metis
  show ?thesis
    by (cases err) (simp_all add: s r handler_invoker_def release_handler_def pointer_handler_def app_any_def
        prog_bind_def ReleaseInventory_Handle_def clk pub s1 invoker_result_def)
qed

text \<open>The event handlers, given what the commands do.\<close>

lemma placed_run:
  assumes "\<And>ctx o1 p q s. \<exists>r s'. ex ctx (app_any (ReserveInventoryCommand o1 p q)) s =
      (Ret (RVal (ReserveInventoryResult r), fst (Reserve p q (fst s))), s') \<and> fst s' = snd (Reserve p q (fst s))"
  shows "\<exists>s'. OrderPlacedInventory_Handle tname ex ctx evt s = (Ret (fst (Reserve ''laptop'' 1 (fst s))), s') \<and>
      fst s' = snd (Reserve ''laptop'' 1 (fst s))"
proof -
  obtain r s' where r: "ex ctx (app_any (ReserveInventoryCommand (be_AggregateID evt) ''laptop'' 1)) s =
      (Ret (RVal (ReserveInventoryResult r), fst (Reserve ''laptop'' 1 (fst s))), s')" "fst s' = snd (Reserve ''laptop'' 1 (fst s))"
    using assms by metis
  then show ?thesis
    by (cases "fst (Reserve ''laptop'' 1 (fst s))")
      (simp_all add: OrderPlacedInventory_Handle_def cmd_Dispatch_def prog_bind_def cmd_typeAssert_def)
qed

lemma cancelled_run:
  assumes "\<And>ctx o1 p q s. \<exists>r s'. ex ctx (app_any (ReleaseInventoryCommand o1 p q)) s =
      (Ret (RVal (ReleaseInventoryResult r), fst (Release p q (fst s))), s') \<and> fst s' = snd (Release p q (fst s))"
  shows "\<exists>s'. OrderCancelledInventory_Handle tname ex ctx evt s = (Ret (fst (Release ''laptop'' 1 (fst s))), s') \<and>
      fst s' = snd (Release ''laptop'' 1 (fst s))"
proof -
  obtain r s' where r: "ex ctx (app_any (ReleaseInventoryCommand (be_AggregateID evt) ''laptop'' 1)) s =
      (Ret (RVal (ReleaseInventoryResult r), fst (Release ''laptop'' 1 (fst s))), s')" "fst s' = snd (Release ''laptop'' 1 (fst s))"
    using assms by metis
  then show ?thesis
    by (cases "fst (Release ''laptop'' 1 (fst s))")
      (simp_all add: OrderCancelledInventory_Handle_def cmd_Dispatch_def prog_bind_def cmd_typeAssert_def)
qed

text \<open>Publishing to the only subscriber of a type.\<close>

lemma publish_one:
  assumes "eb_chain eb = NewAspectChain" and "\<not> eb_closed eb" and "eb_sem eb = None"
    and "gm_get (eb_handlers eb) (Some (msg_type m)) = Some [entry_of h]"
    and "\<And>c s. \<exists>s'. h_call h c (app_any m) s = (Ret [error_result (f (fst s))], s') \<and> fst s' = g (fst s)"
    and "quiet clk publish" and "\<And>es. mset (sched es) = mset es"
  shows "\<exists>s'. Publish clk sched eb ctx (app_any m) s = Some (Ret (f (fst s)), s') \<and> fst s' = g (fst s)"
proof -
  have clk: "fst (snd (clk s)) = fst s" for s using assms(6) unfolding quiet_def by blast
  have sched: "sched [entry_of h] = [entry_of h]" using assms(7) [of "[entry_of h]"] by simp
  have run: "\<exists>s'. run_handler clk eb ctx timeout (app_any m) (entry_of h) s = (f (fst s), s') \<and> fst s' = g (fst s)" for timeout s
  proof -
    obtain now s1 where c: "clk s = (now, s1)" by (cases "clk s")
    then have s1: "fst s1 = fst s" using clk [of s] by simp
    let ?c = "ContextWithHandlerType (ctx_WithTimeout ctx now timeout) (he_name (entry_of h))"
    obtain s2 where "h_call h ?c (app_any m) s1 = (Ret [error_result (f (fst s1))], s2)" "fst s2 = g (fst s1)"
      using assms(5) by blast
    then show ?thesis
      by (cases "f (fst s)")
        (simp_all add: run_handler_def c s1 assms(1) ExecuteWithEventAspects_def NewAspectChain_def runEventAspects.simps
          entry_of_def prog_bind_def error_result_def)
  qed
  have "\<exists>s'. run_handlers clk eb ctx timeout (app_any m) [entry_of h] s = ([f (fst s)], s') \<and> fst s' = g (fst s)" for timeout s
    using run [of timeout s] by auto
  moreover have "collect_errors [x] = x" for x by (cases x) (simp_all add: collect_errors_def)
  ultimately have pub: "\<exists>s'. (let (sent, s2) = run_handlers clk eb ctx timeout (app_any m) [entry_of h] s1
      in Some (Ret (collect_errors sent), s2)) = Some (Ret (f (fst s1)), s') \<and> fst s' = g (fst s1)" for timeout s1
    by (metis (mono_tags, lifting) case_prod_conv)
  obtain now s1 where n: "(case cx_deadline ctx of None \<Rightarrow> (0, s) | Some d \<Rightarrow> clk s) = (now, s1)"
    by (cases "case cx_deadline ctx of None \<Rightarrow> (0, s) | Some d \<Rightarrow> clk s")
  then have "fst s1 = fst s" using clk [of s] by (cases "cx_deadline ctx") auto
  with pub [of "publish_timeout eb ctx now" s1] show ?thesis
    by (simp add: Publish_def assms(2-4) app_any_def n sched Let_def split: prod.splits)
qed

lemma wired_order_events:
  assumes "WireInventory plain_buses clk publish tname (CommandBus_Execute clk (bs_cmd b)) (new_buses NewAspectChain) = Ret (err, b)"
    and "quiet clk publish" and "\<And>es. mset (sched es) = mset es"
  shows "err = None \<and>
    (\<exists>s'. Publish clk sched (bs_event b) ctx (app_any (OrderMsg meta (OrderPlacedEvent userID amount items))) s =
        Some (Ret (fst (Reserve ''laptop'' 1 (fst s))), s') \<and> fst s' = snd (Reserve ''laptop'' 1 (fst s))) \<and>
    (\<exists>s'. Publish clk sched (bs_event b) ctx (app_any (OrderMsg meta (OrderCancelledEvent reason))) s =
        Some (Ret (fst (Release ''laptop'' 1 (fst s))), s') \<and> fst s' = snd (Release ''laptop'' 1 (fst s)))"
proof -
  let ?ex = "CommandBus_Execute clk (bs_cmd b)" and ?placed = "OrderMsg meta (OrderPlacedEvent userID amount items)"
    and ?cancelled = "OrderMsg meta (OrderCancelledEvent reason)"
  note e = wired_buses(1,3-7) [OF assms(1)]
  have h1: "\<exists>s'. h_call (placed_handler tname ?ex) c (app_any ?placed) s =
      (Ret [error_result (fst (Reserve ''laptop'' 1 (fst s)))], s') \<and> fst s' = snd (Reserve ''laptop'' 1 (fst s))" for c s
    using placed_run [of ?ex, OF reserve_run [OF assms(2), folded wired_commands(1) [OF assms(1)]], of tname c meta s]
    by (auto simp: placed_handler_def order_handler_def pointer_handler_def app_any_def prog_bind_def)
  have h2: "\<exists>s'. h_call (cancelled_handler tname ?ex) c (app_any ?cancelled) s =
      (Ret [error_result (fst (Release ''laptop'' 1 (fst s)))], s') \<and> fst s' = snd (Release ''laptop'' 1 (fst s))" for c s
    using cancelled_run [of ?ex, OF release_run [OF assms(2), folded wired_commands(2) [OF assms(1)]], of tname c meta s]
    by (auto simp: cancelled_handler_def order_handler_def pointer_handler_def app_any_def prog_bind_def)
  have g1: "gm_get (eb_handlers (bs_event b)) (Some (msg_type ?placed)) = Some [entry_of (placed_handler tname ?ex)]"
    and g2: "gm_get (eb_handlers (bs_event b)) (Some (msg_type ?cancelled)) = Some [entry_of (cancelled_handler tname ?ex)]"
    using e(5,6) by simp_all
  show ?thesis
    using e(1) publish_one [where f = "\<lambda>iv. fst (Reserve ''laptop'' 1 iv)" and g = "\<lambda>iv. snd (Reserve ''laptop'' 1 iv)",
        OF e(2-4) g1 h1 assms(2,3)]
      publish_one [where f = "\<lambda>iv. fst (Release ''laptop'' 1 iv)" and g = "\<lambda>iv. snd (Release ''laptop'' 1 iv)",
        OF e(2-4) g2 h2 assms(2,3)]
    by blast
qed

text \<open>
  Placing any order takes one laptop.  In an application wired from new buses, publishing \<open>OrderPlaced\<close> reserves
  one unit of the product \<open>laptop\<close> and \<open>OrderCancelled\<close> releases one, whatever the order's items
  are; the publication fails exactly when the inventory refuses, with its error.
\<close>

theorem order_events_move_one_laptop:
  assumes "WireInventory plain_buses clk publish tname (CommandBus_Execute clk (bs_cmd b)) (new_buses NewAspectChain) = Ret (err, b)"
    and "quiet clk publish" and "\<And>es. mset (sched es) = mset es"
  shows "err = None \<and>
    (\<exists>s'. Publish clk sched (bs_event b) ctx (app_any (OrderMsg meta (OrderPlacedEvent userID amount items))) s =
        Some (Ret (fst (Reserve ''laptop'' 1 (fst s))), s') \<and> fst s' = snd (Reserve ''laptop'' 1 (fst s))) \<and>
    (\<exists>s'. Publish clk sched (bs_event b) ctx (app_any (OrderMsg meta (OrderCancelledEvent reason))) s =
        Some (Ret (fst (Release ''laptop'' 1 (fst s))), s') \<and> fst s' = snd (Release ''laptop'' 1 (fst s)))"
  by (rule wired_order_events [OF assms])

text \<open>
  A failed reservation is released all the same: with no laptop in stock, an order that is placed, which
  fails to reserve, and then cancelled leaves one laptop in stock.
\<close>

theorem cancel_restocks_phantom:
  assumes "WireInventory plain_buses clk publish tname (CommandBus_Execute clk (bs_cmd b)) (new_buses NewAspectChain) = Ret (err, b)"
    and "quiet clk publish" and "\<And>es. mset (sched es) = mset es"
    and "gm_get (fst s) ''laptop'' = Some p" and "pr_Stock p = 0"
    and "Publish clk sched (bs_event b) ctx (app_any (OrderMsg meta (OrderPlacedEvent userID amount items))) s = Some (r1, s1)"
    and "Publish clk sched (bs_event b) ctx2 (app_any (OrderMsg meta2 (OrderCancelledEvent reason))) s1 = Some (r2, s2)"
  shows "(\<exists>e. r1 = Ret (Some e)) \<and> fst s1 = fst s \<and> r2 = Ret None \<and> stock (fst s2) ''laptop'' = 1"
proof -
  have "(1::int) = wrap64 1" by (simp add: wrap64_id)
  then show ?thesis
    using wired_order_events [OF assms(1-3), of ctx meta userID amount items s]
      wired_order_events [OF assms(1-3), of ctx2 meta2 _ _ _ s1 reason] assms(4-7)
    by (auto simp: Reserve_def Release_def stock_def)
qed

subsection \<open>Witnesses\<close>

definition sample_clock :: "(unit, nat) clock" where
  "sample_clock = (\<lambda>(iv, n). (int n, (iv, Suc n)))"

definition sample_publish :: "(unit, nat) publisher" where
  "sample_publish ctx b e s = (Ret None, s)"

lemma sample_quiet: "quiet sample_clock sample_publish"
  by (simp add: quiet_def sample_clock_def sample_publish_def split: prod.splits)

lemma sample_wired:
  "\<exists>b. WireInventory plain_buses sample_clock sample_publish (\<lambda>r. []) (CommandBus_Execute sample_clock (bs_cmd b))
     (new_buses NewAspectChain) = Ret (None, b)"
proof -
  obtain c where c: "register_cmds (newMessageBus NewAspectChain) (inventory_commands sample_clock sample_publish) = (None, c)"
    by (rule inventory_registers [of NewAspectChain sample_clock sample_publish "\<lambda>r. []" "\<lambda>ctx m s. (Ret (RNil, None), s)"])
  obtain q v where "register_queries (newMessageBus NewAspectChain) [(''GetInventoryHandler'',
        get_inventory_handler :: ((unit, nat) inventory_world, go_ctx, unit app_msg, unit app_result) handler)] = (None, q)"
      "subscribe_all (NewEventBus [WithEventBusAspectChain NewAspectChain])
         (inventory_subscribers (\<lambda>r. []) (CommandBus_Execute sample_clock c)) = Ret (None, v)"
    by (rule inventory_registers [of NewAspectChain sample_clock sample_publish "\<lambda>r. []" "CommandBus_Execute sample_clock c"])
  with c show ?thesis
    using wire_inventory [OF plain.bus_registrar_axioms, of "new_buses NewAspectChain" sample_clock sample_publish c q "\<lambda>r. []"
        "CommandBus_Execute sample_clock c" v]
    by (intro exI [of _ "\<lparr>bs_cmd = c, bs_query = q, bs_event = v\<rparr>"]) (simp add: new_buses_def)
qed

text \<open>An order without items, published in the seeded inventory.\<close>

theorem order_events_move_one_laptop_witness:
  "\<exists>(eb :: ((unit, nat) inventory_world, unit app_msg, unit app_result) event_bus) s'. Publish sample_clock (\<lambda>es. es) eb ctx_Background
       (app_any (OrderMsg (NewBaseEvent ''o1'' 1) (OrderPlacedEvent ''ann'' () []))) (NewInventory (\<lambda>s. ()), 0) = Some (Ret None, s') \<and>
     stock (fst s') ''laptop'' = 9"
proof -
  let ?s = "(NewInventory (\<lambda>s. ()), 0 :: nat)"
  obtain b where w: "WireInventory plain_buses sample_clock sample_publish (\<lambda>r. []) (CommandBus_Execute sample_clock (bs_cmd b))
     (new_buses NewAspectChain) = Ret (None, b)"
    using sample_wired by blast
  define eb where "eb = bs_event b"
  have r: "fst (Reserve ''laptop'' 1 (fst ?s)) = None" "stock (snd (Reserve ''laptop'' 1 (fst ?s))) ''laptop'' = 9"
    by (code_simp, code_simp)
  from order_events_move_one_laptop [OF w sample_quiet, folded eb_def, of "\<lambda>es. es" ctx_Background "NewBaseEvent ''o1'' 1" "''ann''" "()" "[]" ?s]
  obtain s' where "Publish sample_clock (\<lambda>es. es) eb ctx_Background
       (app_any (OrderMsg (NewBaseEvent ''o1'' 1) (OrderPlacedEvent ''ann'' () []))) ?s =
       Some (Ret (fst (Reserve ''laptop'' 1 (fst ?s))), s')" "fst s' = snd (Reserve ''laptop'' 1 (fst ?s))"
    by blast
  with r have "Publish sample_clock (\<lambda>es. es) eb ctx_Background
       (app_any (OrderMsg (NewBaseEvent ''o1'' 1) (OrderPlacedEvent ''ann'' () []))) ?s = Some (Ret None, s')"
      "stock (fst s') ''laptop'' = 9"
    by (simp_all only:)
  then show ?thesis by blast
qed

definition sold_out :: "unit inventory" where
  "sold_out = [(''laptop'', \<lparr>pr_ID = ''laptop'', pr_Name = ''Laptop'', pr_Price = (), pr_Stock = 0\<rparr>)]"

theorem cancel_restocks_phantom_witness:
  "\<exists>(eb :: ((unit, nat) inventory_world, unit app_msg, unit app_result) event_bus) s1 s2 e. Publish sample_clock (\<lambda>es. es) eb ctx_Background
       (app_any (OrderMsg (NewBaseEvent ''o1'' 1) (OrderPlacedEvent ''ann'' () []))) (sold_out, 0) = Some (Ret (Some e), s1) \<and>
     Publish sample_clock (\<lambda>es. es) eb ctx_Background
       (app_any (OrderMsg (NewBaseEvent ''o1'' 2) (OrderCancelledEvent ''late''))) s1 = Some (Ret None, s2) \<and>
     stock (fst s2) ''laptop'' = 1"
proof -
  obtain b where w: "WireInventory plain_buses sample_clock sample_publish (\<lambda>r. []) (CommandBus_Execute sample_clock (bs_cmd b))
     (new_buses NewAspectChain) = Ret (None, b)"
    using sample_wired by blast
  define eb where "eb = bs_event b"
  have sched: "mset es = mset es" for es :: "(((unit, nat) inventory_world, unit app_msg, unit app_result) handlerEntry) list" ..
  note core = wired_order_events [OF w sample_quiet, folded eb_def, of "\<lambda>es. es", OF sched]
  obtain r1 s1 where p1: "Publish sample_clock (\<lambda>es. es) eb ctx_Background
       (app_any (OrderMsg (NewBaseEvent ''o1'' 1) (OrderPlacedEvent ''ann'' () []))) (sold_out, 0) = Some (r1, s1)"
    using core by blast
  obtain r2 s2 where p2: "Publish sample_clock (\<lambda>es. es) eb ctx_Background
       (app_any (OrderMsg (NewBaseEvent ''o1'' 2) (OrderCancelledEvent ''late''))) s1 = Some (r2, s2)"
    using core by blast
  have g: "gm_get (fst (sold_out, 0 :: nat)) ''laptop'' = Some \<lparr>pr_ID = ''laptop'', pr_Name = ''Laptop'', pr_Price = (), pr_Stock = 0\<rparr>"
    by (simp add: sold_out_def gm_get_def)
  from cancel_restocks_phantom [OF w sample_quiet, folded eb_def, of "\<lambda>es. es", OF sched g _ p1 p2]
  obtain e where "r1 = Ret (Some e)" "r2 = Ret None" "stock (fst s2) ''laptop'' = 1" by auto
  with p1 p2 show ?thesis by blast
qed

end
