(* ===== verification/LintPaths.thy ===== *)
theory LintPaths
  imports Prelude
begin

text \<open>
  The path convention of the linter, \<open>lint/convention/paths.go\<close>, and the analyzers that look at import
  declarations: \<open>crossdomain\<close>, \<open>crossmodule\<close>, \<open>implimport\<close> and \<open>wireimport\<close>.

  A package under analysis is its path and the import declarations of its files; a declaration is its
  position and the text of its path literal, quotes included.  A diagnostic is a position and a text, in
  which \<open>%q\<close> of an import path or a name is the text in double quotes.
\<close>

datatype PackageKind = KindOther | KindPublic | KindInternal | KindWire

record PkgInfo =
  pk_DDDPrefix :: string
  pk_ModuleName :: string
  pk_DomainName :: string
  pk_SubPkg :: string
  pk_Kind :: PackageKind

definition classifySubPkg :: "string \<Rightarrow> PackageKind" where
  "classifySubPkg subPkg =
     (if subPkg = [] then KindInternal
      else (let firstSeg = (case str_index subPkg ''/'' of Some idx \<Rightarrow> take idx subPkg | None \<Rightarrow> subPkg)
            in if firstSeg \<in> {''command'', ''query'', ''event''} then KindPublic
               else if firstSeg \<in> {''domain'', ''service'', ''repository''} then KindInternal
               else if firstSeg = ''wire'' then KindWire
               else KindOther))"

text \<open>The loop that looks for the first path element \<open>ddd\<close>.\<close>

fun ddd_index :: "string list \<Rightarrow> nat option" where
  "ddd_index [] = None"
| "ddd_index (p # ps) = (if p = ''ddd'' then Some 0 else map_option Suc (ddd_index ps))"

definition ParsePkgPath :: "string \<Rightarrow> PkgInfo option outcome" where
  "ParsePkgPath pkgPath =
     (let parts = split_on CHR ''/'' pkgPath
      in case ddd_index parts of
           None \<Rightarrow> Ret None
         | Some dddIdx \<Rightarrow>
             if dddIdx + 1 \<ge> length parts then Ret None
             else if dddIdx = 0 then Panic ''index out of range [-1]''
             else (let subPkg = (if dddIdx + 2 < length parts then join_with ''/'' (drop (dddIdx + 2) parts) else [])
                   in Ret (Some \<lparr>pk_DDDPrefix = join_with ''/'' (take dddIdx parts), pk_ModuleName = parts ! (dddIdx - 1),
                                 pk_DomainName = parts ! (dddIdx + 1), pk_SubPkg = subPkg, pk_Kind = classifySubPkg subPkg\<rparr>)))"

definition IsDDDPackage :: "string \<Rightarrow> bool outcome" where
  "IsDDDPackage pkgPath = out_bind (ParsePkgPath pkgPath) (\<lambda>info. Ret (info \<noteq> None))"

definition IsInternalPackage :: "string \<Rightarrow> bool outcome" where
  "IsInternalPackage pkgPath =
     out_bind (ParsePkgPath pkgPath) (\<lambda>info. Ret (case info of None \<Rightarrow> False | Some i \<Rightarrow> pk_Kind i = KindInternal))"

definition same_domain :: "PkgInfo \<Rightarrow> PkgInfo \<Rightarrow> bool" where
  "same_domain i1 i2 \<longleftrightarrow> pk_DDDPrefix i1 = pk_DDDPrefix i2 \<and> pk_DomainName i1 = pk_DomainName i2"

definition SameDomain :: "string \<Rightarrow> string \<Rightarrow> bool outcome" where
  "SameDomain pkgPath1 pkgPath2 =
     out_bind (ParsePkgPath pkgPath1) (\<lambda>info1. out_bind (ParsePkgPath pkgPath2) (\<lambda>info2.
       Ret (case (info1, info2) of (Some i1, Some i2) \<Rightarrow> same_domain i1 i2 | _ \<Rightarrow> False)))"

definition SameModule :: "string \<Rightarrow> string \<Rightarrow> bool outcome" where
  "SameModule pkgPath1 pkgPath2 =
     out_bind (ParsePkgPath pkgPath1) (\<lambda>info1. out_bind (ParsePkgPath pkgPath2) (\<lambda>info2.
       Ret (case (info1, info2) of (Some i1, Some i2) \<Rightarrow> pk_ModuleName i1 = pk_ModuleName i2 | _ \<Rightarrow> False)))"

subsection \<open>The analyzers of imports\<close>

type_synonym diagnostic = "nat \<times> string"

record import_pass =
  ip_path :: string
  ip_files :: "(nat \<times> string) list list"

definition quoted :: "string \<Rightarrow> string" where
  "quoted s = CHR 0x22 # s @ [CHR 0x22]"

text \<open>\<open>strings.Trim\<close> with a double quote.\<close>

definition trim_quotes :: "string \<Rightarrow> string" where
  "trim_quotes s = rev (dropWhile (\<lambda>c. c = CHR 0x22) (rev (dropWhile (\<lambda>c. c = CHR 0x22) s)))"

text \<open>
  The loop over the imports of the files in turn, with what an analyzer does for one import: it reports a
  text or nothing, or panics, which ends the run.
\<close>

fun scan_imports :: "(string \<Rightarrow> string option outcome) \<Rightarrow> (nat \<times> string) list \<Rightarrow> diagnostic list outcome" where
  "scan_imports check [] = Ret []"
| "scan_imports check ((pos, lit) # imps) =
     out_bind (check (trim_quotes lit))
       (\<lambda>report. out_bind (scan_imports check imps)
          (\<lambda>ds. Ret (case report of None \<Rightarrow> ds | Some msg \<Rightarrow> (pos, msg) # ds)))"

definition crossdomain_check :: "PkgInfo \<Rightarrow> string \<Rightarrow> string option outcome" where
  "crossdomain_check currentInfo importPath =
     out_bind (ParsePkgPath importPath)
       (\<lambda>info. Ret (case info of
          None \<Rightarrow> None
        | Some importInfo \<Rightarrow>
            if same_domain currentInfo importInfo then None
            else if pk_Kind importInfo = KindInternal
            then Some (''dddcrossdomain: package '' @ quoted importPath @ '' is internal to domain '' @
                   quoted (pk_DomainName importInfo) @ '', import from domain '' @ quoted (pk_DomainName currentInfo) @
                   '' is forbidden; use command/query/event for cross-domain communication'')
            else None))"

definition crossdomain_run :: "import_pass \<Rightarrow> diagnostic list outcome" where
  "crossdomain_run ps =
     out_bind (ParsePkgPath (ip_path ps))
       (\<lambda>info. case info of None \<Rightarrow> Ret [] | Some currentInfo \<Rightarrow> scan_imports (crossdomain_check currentInfo) (concat (ip_files ps)))"

definition crossmodule_check :: "string \<Rightarrow> PkgInfo \<Rightarrow> string \<Rightarrow> string option outcome" where
  "crossmodule_check path currentInfo importPath =
     out_bind (ParsePkgPath importPath)
       (\<lambda>info. case info of
          None \<Rightarrow> Ret None
        | Some importInfo \<Rightarrow>
            out_bind (SameModule path importPath)
              (\<lambda>same. Ret (
                 if same then None
                 else if pk_Kind importInfo = KindInternal
                 then Some (''dddcrossmodule: package '' @ quoted importPath @ '' is internal to module '' @
                        quoted (pk_ModuleName importInfo) @ '', cross-module import from module '' @
                        quoted (pk_ModuleName currentInfo) @
                        '' is forbidden; use command/query/event for cross-module communication'')
                 else None)))"

definition crossmodule_run :: "import_pass \<Rightarrow> diagnostic list outcome" where
  "crossmodule_run ps =
     out_bind (ParsePkgPath (ip_path ps))
       (\<lambda>info. case info of
          None \<Rightarrow> Ret []
        | Some currentInfo \<Rightarrow> scan_imports (crossmodule_check (ip_path ps) currentInfo) (concat (ip_files ps)))"

definition isImplPackage :: "string \<Rightarrow> bool" where
  "isImplPackage importPath \<longleftrightarrow> str_contains importPath ''/cqrs/impl/''"

definition implimport_check :: "string \<Rightarrow> string option outcome" where
  "implimport_check importPath =
     Ret (if isImplPackage importPath
          then Some (''dddimplimport: import of implementation package '' @ quoted importPath @
                 '' is forbidden outside wire layer; use interface packages (cqrs/command, cqrs/query, cqrs/event) instead'')
          else None)"

definition implimport_run :: "import_pass \<Rightarrow> diagnostic list outcome" where
  "implimport_run ps =
     out_bind (ParsePkgPath (ip_path ps))
       (\<lambda>info. case info of
          None \<Rightarrow> Ret []
        | Some currentInfo \<Rightarrow>
            if pk_Kind currentInfo = KindWire then Ret [] else scan_imports implimport_check (concat (ip_files ps)))"

definition isAllowedImport :: "string \<Rightarrow> PkgInfo \<Rightarrow> bool outcome" where
  "isAllowedImport importPath currentInfo =
     (if \<not> str_contains importPath ''.'' then Ret True
      else if str_contains importPath ''/cqrs/impl/'' then Ret True
      else if has_prefix importPath ''github.com/ddd-qce/core/'' then Ret True
      else out_bind (ParsePkgPath importPath)
             (\<lambda>info. Ret (case info of
                None \<Rightarrow> True
              | Some importInfo \<Rightarrow> same_domain currentInfo importInfo \<or> pk_Kind importInfo = KindWire)))"

definition wireimport_check :: "PkgInfo \<Rightarrow> string \<Rightarrow> string option outcome" where
  "wireimport_check currentInfo importPath =
     out_bind (isAllowedImport importPath currentInfo)
       (\<lambda>ok. Ret (if ok then None
          else Some (''dddwireimport: import '' @ quoted importPath @ '' is not allowed in wire package; '' @
                 ''wire can only import cqrs/impl/*, other wire packages, standard library, '' @
                 ''or packages from the same domain'')))"

definition wireimport_run :: "import_pass \<Rightarrow> diagnostic list outcome" where
  "wireimport_run ps =
     out_bind (ParsePkgPath (ip_path ps))
       (\<lambda>info. case info of
          None \<Rightarrow> Ret []
        | Some currentInfo \<Rightarrow>
            if pk_Kind currentInfo \<noteq> KindWire then Ret [] else scan_imports (wireimport_check currentInfo) (concat (ip_files ps)))"

subsection \<open>What the convention reads off a path\<close>

text \<open>A path by its elements, none of which is empty of meaning for the split: they contain no slash.\<close>

definition path_of :: "string list \<Rightarrow> string" where
  "path_of segs = join_with ''/'' segs"

definition segs_ok :: "string list \<Rightarrow> bool" where
  "segs_ok segs \<longleftrightarrow> list_all (\<lambda>s. CHR ''/'' \<notin> set s) segs"

lemma split_path_of: "segs \<noteq> [] \<Longrightarrow> segs_ok segs \<Longrightarrow> split_on CHR ''/'' (path_of segs) = segs"
  by (simp add: path_of_def segs_ok_def list_all_iff split_on_join_with)

lemma ddd_index_append: "''ddd'' \<notin> set pre \<Longrightarrow> ddd_index (pre @ ''ddd'' # post) = Some (length pre)"
  by (induction pre) auto

lemma ddd_index_None: "ddd_index ps = None \<longleftrightarrow> ''ddd'' \<notin> set ps"
  by (induction ps) auto

lemma ddd_index_Some: "ddd_index ps = Some n \<Longrightarrow> \<exists>pre post. ps = pre @ ''ddd'' # post \<and> length pre = n \<and> ''ddd'' \<notin> set pre"
proof (induction ps arbitrary: n)
  case (Cons p ps)
  show ?case
  proof (cases "p = ''ddd''")
    case True
    then show ?thesis using Cons.prems by (intro exI [of _ "[]"] exI [of _ ps]) simp
  next
    case False
    then obtain m where "ddd_index ps = Some m" "n = Suc m" using Cons.prems by auto
    then obtain pre post where "ps = pre @ ''ddd'' # post" "length pre = m" "''ddd'' \<notin> set pre" using Cons.IH by blast
    then show ?thesis using False \<open>n = Suc m\<close> by (intro exI [of _ "p # pre"] exI [of _ post]) simp
  qed
qed simp

lemma str_index_slash: "str_index s ''/'' = (if CHR ''/'' \<in> set s then Some (length (takeWhile (\<lambda>c. c \<noteq> CHR ''/'') s)) else None)"
  by (induction s) (auto simp: has_prefix_def)

lemma first_segment: "CHR ''/'' \<notin> set p \<Longrightarrow> classifySubPkg (path_of (p # ps)) = classifySubPkg p \<or> p = []"
proof (cases ps)
  case (Cons q qs)
  assume p: "CHR ''/'' \<notin> set p"
  have "path_of (p # ps) = p @ CHR ''/'' # path_of ps" by (simp add: path_of_def Cons)
  moreover have "takeWhile (\<lambda>c. c \<noteq> CHR ''/'') (p @ CHR ''/'' # path_of ps) = p" using p by (induction p) auto
  ultimately show ?thesis using p by (auto simp: classifySubPkg_def str_index_slash Let_def)
qed (simp add: path_of_def)

text \<open>
  The path of package \<open>sub\<close> of a domain is read back exactly: the module is the element before the first
  \<open>ddd\<close>, the domain the one after it, and the kind depends on the first element of the rest alone.
\<close>

lemma ParsePkgPath_segs:
  assumes "segs_ok (pre @ [m, ''ddd'', d] @ sub)" and "''ddd'' \<notin> set pre" and "m \<noteq> ''ddd''"
  shows "ParsePkgPath (path_of (pre @ [m, ''ddd'', d] @ sub)) =
    Ret (Some \<lparr>pk_DDDPrefix = path_of (pre @ [m]), pk_ModuleName = m, pk_DomainName = d, pk_SubPkg = path_of sub,
               pk_Kind = classifySubPkg (path_of sub)\<rparr>)"
proof -
  have s: "split_on CHR ''/'' (path_of (pre @ [m, ''ddd'', d] @ sub)) = pre @ [m, ''ddd'', d] @ sub"
    using assms(1) by (intro split_path_of) auto
  have "ddd_index ((pre @ [m]) @ ''ddd'' # (d # sub)) = Some (length (pre @ [m]))"
    using assms(2,3) by (intro ddd_index_append) auto
  then have i: "ddd_index (pre @ [m, ''ddd'', d] @ sub) = Some (Suc (length pre))" by simp
  have sub: "(if sub = [] then [] else join_with ''/'' sub) = path_of sub" by (simp add: path_of_def)
  show ?thesis
    unfolding ParsePkgPath_def s Let_def i
    by (simp add: nth_append path_of_def sub [unfolded path_of_def])
qed

lemma ParsePkgPath_cases:
  fixes p :: string
  defines "parts \<equiv> split_on CHR ''/'' p"
  obtains (none) "ParsePkgPath p = Ret None" "''ddd'' \<notin> set (butlast parts)"
  | (panic) post where "ParsePkgPath p = Panic ''index out of range [-1]''" "parts = ''ddd'' # post" "post \<noteq> []"
  | (some) pre m d sub where "parts = pre @ [m, ''ddd'', d] @ sub" "''ddd'' \<notin> set (pre @ [m])"
      "ParsePkgPath p = Ret (Some \<lparr>pk_DDDPrefix = path_of (pre @ [m]), pk_ModuleName = m, pk_DomainName = d,
         pk_SubPkg = path_of sub, pk_Kind = classifySubPkg (path_of sub)\<rparr>)"
proof (cases "ddd_index parts")
  case None
  then have "''ddd'' \<notin> set (butlast parts)" unfolding ddd_index_None by (auto dest: in_set_butlastD)
  then show ?thesis using None by (intro none) (simp_all add: ParsePkgPath_def parts_def)
next
  case (Some n)
  then obtain pre post where s: "parts = pre @ ''ddd'' # post" "length pre = n" "''ddd'' \<notin> set pre"
    using ddd_index_Some by blast
  show ?thesis
  proof (cases post)
    case Nil
    then show ?thesis using s Some by (intro none) (simp_all add: ParsePkgPath_def parts_def)
  next
    case (Cons d sub)
    show ?thesis
    proof (cases pre rule: rev_cases)
      case Nil
      then show ?thesis using s Some Cons by (intro panic [of post]) (simp_all add: ParsePkgPath_def parts_def)
    next
      case (snoc pre' m)
      have segs: "segs_ok parts" by (simp add: segs_ok_def list_all_iff parts_def split_on_no_sep)
      have "path_of parts = p" by (simp add: path_of_def parts_def join_with_split_on)
      moreover have parts: "parts = pre' @ [m, ''ddd'', d] @ sub" using s(1) Cons snoc by simp
      ultimately show ?thesis
        using ParsePkgPath_segs [of pre' m d sub] segs s(3) snoc by (intro some [OF parts]) auto
    qed
  qed
qed

lemma split_starts: "split_on CHR ''/'' p = ''ddd'' # post \<and> post \<noteq> [] \<longleftrightarrow> has_prefix p ''ddd/'' \<and> split_on CHR ''/'' p = ''ddd'' # post"
proof
  assume h: "split_on CHR ''/'' p = ''ddd'' # post \<and> post \<noteq> []"
  then have "p = ''ddd'' @ CHR ''/'' # join_with ''/'' post" using join_with_split_on [of "CHR ''/''" p] by (simp add: join_with_Cons)
  then show "has_prefix p ''ddd/'' \<and> split_on CHR ''/'' p = ''ddd'' # post" using h by (simp add: has_prefix_def)
next
  assume h: "has_prefix p ''ddd/'' \<and> split_on CHR ''/'' p = ''ddd'' # post"
  then obtain t where "p = ''ddd'' @ CHR ''/'' # t" by (auto simp: has_prefix_iff)
  then have "split_on CHR ''/'' p = ''ddd'' # split_on CHR ''/'' t" using split_on_append [of "CHR ''/''" "''ddd''" t] by simp
  then show "split_on CHR ''/'' p = ''ddd'' # post \<and> post \<noteq> []" using h by auto
qed

lemma ParsePkgPath_panics: "(\<exists>m. ParsePkgPath p = Panic m) \<longleftrightarrow> has_prefix p ''ddd/''"
proof (cases p rule: ParsePkgPath_cases)
  case none
  have "\<not> has_prefix p ''ddd/''"
  proof
    assume "has_prefix p ''ddd/''"
    then obtain t where "p = ''ddd'' @ CHR ''/'' # t" by (auto simp: has_prefix_iff)
    then have "split_on CHR ''/'' p = ''ddd'' # split_on CHR ''/'' t" using split_on_append [of "CHR ''/''" "''ddd''" t] by simp
    then show False using none(2) by simp
  qed
  then show ?thesis using none(1) by simp
next
  case (panic post)
  then show ?thesis using split_starts [of p post] by simp
next
  case (some pre m d sub)
  have "\<not> has_prefix p ''ddd/''"
  proof
    assume "has_prefix p ''ddd/''"
    then obtain t where "p = ''ddd'' @ CHR ''/'' # t" by (auto simp: has_prefix_iff)
    then have "split_on CHR ''/'' p = ''ddd'' # split_on CHR ''/'' t" using split_on_append [of "CHR ''/''" "''ddd''" t] by simp
    then show False using some(1,2) by (cases pre) auto
  qed
  then show ?thesis using some(3) by simp
qed

text \<open>
  The convention, exactly: parsing a path panics if and only if it starts with \<open>ddd/\<close>; otherwise it finds
  nothing if and only if no element but the last is \<open>ddd\<close>, and else the module and the domain around the
  first \<open>ddd\<close>.
\<close>

theorem path_convention:
  "((\<exists>m. ParsePkgPath p = Panic m) \<longleftrightarrow> has_prefix p ''ddd/'') \<and>
   (ParsePkgPath p = Ret None \<longleftrightarrow> ''ddd'' \<notin> set (butlast (split_on CHR ''/'' p))) \<and>
   (ParsePkgPath p = Ret (Some i) \<longleftrightarrow>
      (\<exists>pre m d sub. split_on CHR ''/'' p = pre @ [m, ''ddd'', d] @ sub \<and> ''ddd'' \<notin> set (pre @ [m]) \<and>
         i = \<lparr>pk_DDDPrefix = path_of (pre @ [m]), pk_ModuleName = m, pk_DomainName = d, pk_SubPkg = path_of sub,
              pk_Kind = classifySubPkg (path_of sub)\<rparr>))"
proof (cases p rule: ParsePkgPath_cases)
  case none
  have "\<not> (\<exists>pre m d sub. split_on CHR ''/'' p = pre @ [m, ''ddd'', d] @ sub)"
  proof (intro notI, elim exE)
    fix pre m d sub assume "split_on CHR ''/'' p = pre @ [m, ''ddd'', d] @ sub"
    then have "''ddd'' \<in> set (butlast (split_on CHR ''/'' p))" by (simp add: butlast_append)
    with none(2) show False ..
  qed
  then show ?thesis using none ParsePkgPath_panics [of p] by auto
next
  case (panic post)
  have "\<not> (\<exists>pre m d sub. split_on CHR ''/'' p = pre @ [m, ''ddd'', d] @ sub \<and> ''ddd'' \<notin> set (pre @ [m]))"
  proof (intro notI, elim exE conjE)
    fix pre m d sub assume "split_on CHR ''/'' p = pre @ [m, ''ddd'', d] @ sub" "''ddd'' \<notin> set (pre @ [m])"
    then show False using panic(2) by (cases pre) auto
  qed
  then show ?thesis using panic ParsePkgPath_panics [of p] by auto
next
  case (some pre m d sub)
  have uniq: "pre' = pre \<and> m' = m \<and> d' = d \<and> sub' = sub"
    if "split_on CHR ''/'' p = pre' @ [m', ''ddd'', d'] @ sub'" "''ddd'' \<notin> set (pre' @ [m'])" for pre' m' d' sub'
  proof -
    have "(pre @ [m]) @ ''ddd'' # d # sub = (pre' @ [m']) @ ''ddd'' # d' # sub'" using some(1) that(1) by simp
    then have "ddd_index ((pre @ [m]) @ ''ddd'' # d # sub) = ddd_index ((pre' @ [m']) @ ''ddd'' # d' # sub')" by simp
    then have "length (pre @ [m]) = length (pre' @ [m'])"
      unfolding ddd_index_append [OF some(2)] ddd_index_append [OF that(2)] by simp
    with some(1) that(1) show ?thesis by auto
  qed
  let ?info = "\<lambda>pre m d sub. \<lparr>pk_DDDPrefix = path_of (pre @ [m]), pk_ModuleName = m, pk_DomainName = d,
      pk_SubPkg = path_of sub, pk_Kind = classifySubPkg (path_of sub)\<rparr>"
  have "?info pre m d sub = i \<longleftrightarrow> (\<exists>pre m d sub. split_on CHR ''/'' p = pre @ [m, ''ddd'', d] @ sub \<and>
      ''ddd'' \<notin> set (pre @ [m]) \<and> i = ?info pre m d sub)" (is "?L \<longleftrightarrow> ?R")
  proof
    show "?L \<Longrightarrow> ?R" using some(1,2) by blast
    show "?R \<Longrightarrow> ?L" using uniq by (elim exE conjE) metis
  qed
  then have "ParsePkgPath p = Ret (Some i) \<longleftrightarrow> ?R" unfolding some(3) by (simp only: outcome.inject option.inject)
  moreover have "''ddd'' \<in> set (butlast (split_on CHR ''/'' p))" by (simp add: some(1) butlast_append)
  then have "ParsePkgPath p = Ret None \<longleftrightarrow> ''ddd'' \<notin> set (butlast (split_on CHR ''/'' p))"
    unfolding some(3) by (simp only: outcome.inject option.distinct simp_thms)
  ultimately show ?thesis using ParsePkgPath_panics [of p] by blast
qed

subsection \<open>What an analyzer of imports promises\<close>

text \<open>
  A rule decides every import whose path the convention can parse, without a panic, once the analyzed
  package is fit for it (\<open>ready\<close>); its analyzer then reports exactly the forbidden imports, in their order.
\<close>

locale import_rule =
  fixes check :: "string \<Rightarrow> string option outcome"
    and forbidden :: "string \<Rightarrow> bool"
    and ready :: bool
  assumes check_decides: "ready \<Longrightarrow> \<not> has_prefix p ''ddd/'' \<Longrightarrow> \<exists>r. check p = Ret r \<and> (r \<noteq> None \<longleftrightarrow> forbidden p)"
begin

lemma scan_reports:
  "ready \<Longrightarrow> list_all (\<lambda>(pos, lit). \<not> has_prefix (trim_quotes lit) ''ddd/'') imps \<Longrightarrow>
     \<exists>ds. scan_imports check imps = Ret ds \<and> map fst ds = map fst (filter (\<lambda>(pos, lit). forbidden (trim_quotes lit)) imps)"
proof (induction imps)
  case (Cons imp imps)
  obtain pos lit where imp: "imp = (pos, lit)" by (cases imp)
  with Cons.prems obtain r where "check (trim_quotes lit) = Ret r" "r \<noteq> None \<longleftrightarrow> forbidden (trim_quotes lit)"
    using check_decides by auto
  moreover obtain ds where "scan_imports check imps = Ret ds"
      "map fst ds = map fst (filter (\<lambda>(pos, lit). forbidden (trim_quotes lit)) imps)"
    using Cons imp by auto
  ultimately show ?case by (cases r) (auto simp: imp)
qed simp

end

definition info_of :: "string \<Rightarrow> PkgInfo option" where
  "info_of p = (case ParsePkgPath p of Ret i \<Rightarrow> i | Panic m \<Rightarrow> None)"

definition foreign_internal :: "PkgInfo \<Rightarrow> string \<Rightarrow> bool" where
  "foreign_internal cur p =
     (case info_of p of None \<Rightarrow> False | Some i \<Rightarrow> \<not> same_domain cur i \<and> pk_Kind i = KindInternal)"

definition other_module_internal :: "PkgInfo \<Rightarrow> string \<Rightarrow> bool" where
  "other_module_internal cur p =
     (case info_of p of None \<Rightarrow> False | Some i \<Rightarrow> pk_ModuleName cur \<noteq> pk_ModuleName i \<and> pk_Kind i = KindInternal)"

definition not_wireable :: "PkgInfo \<Rightarrow> string \<Rightarrow> bool" where
  "not_wireable cur p \<longleftrightarrow>
     str_contains p ''.'' \<and> \<not> str_contains p ''/cqrs/impl/'' \<and> \<not> has_prefix p ''github.com/ddd-qce/core/'' \<and>
     (case info_of p of None \<Rightarrow> False | Some i \<Rightarrow> \<not> same_domain cur i \<and> pk_Kind i \<noteq> KindWire)"

lemma parse_no_panic: "\<not> has_prefix p ''ddd/'' \<Longrightarrow> ParsePkgPath p = Ret (info_of p)"
  using ParsePkgPath_panics [of p] by (cases "ParsePkgPath p") (auto simp: info_of_def)

interpretation crossdomain: import_rule "crossdomain_check cur" "foreign_internal cur" True for cur
  by unfold_locales (auto simp: crossdomain_check_def foreign_internal_def parse_no_panic split: option.split)

interpretation crossmodule: import_rule "crossmodule_check path cur" "other_module_internal cur"
    "ParsePkgPath path = Ret (Some cur)" for path cur
  by unfold_locales (auto simp: crossmodule_check_def other_module_internal_def parse_no_panic SameModule_def split: option.split)

interpretation implimport: import_rule implimport_check isImplPackage True
  by unfold_locales (auto simp: implimport_check_def)

interpretation wireimport: import_rule "wireimport_check cur" "not_wireable cur" True for cur
  by unfold_locales (auto simp: wireimport_check_def isAllowedImport_def not_wireable_def parse_no_panic split: option.split)

subsection \<open>The rules on paths\<close>

lemma info_of_segs:
  "segs_ok (pre @ [m, ''ddd'', d] @ sub) \<Longrightarrow> ''ddd'' \<notin> set pre \<Longrightarrow> m \<noteq> ''ddd'' \<Longrightarrow>
     info_of (path_of (pre @ [m, ''ddd'', d] @ sub)) =
       Some \<lparr>pk_DDDPrefix = path_of (pre @ [m]), pk_ModuleName = m, pk_DomainName = d, pk_SubPkg = path_of sub,
             pk_Kind = classifySubPkg (path_of sub)\<rparr>"
  by (simp add: info_of_def ParsePkgPath_segs del: append_Cons append.simps)

lemma path_of_inject: "segs_ok xs \<Longrightarrow> segs_ok ys \<Longrightarrow> xs \<noteq> [] \<Longrightarrow> ys \<noteq> [] \<Longrightarrow> path_of xs = path_of ys \<longleftrightarrow> xs = ys"
  by (metis split_path_of)

text \<open>The internal packages of a domain: its root and everything below \<open>domain\<close>, \<open>service\<close> and \<open>repository\<close>.\<close>

lemma internal_iff:
  assumes "segs_ok sub"
  shows "classifySubPkg (path_of sub) = KindInternal \<longleftrightarrow>
    path_of sub = [] \<or> hd sub \<in> {''domain'', ''service'', ''repository''}"
proof (cases sub)
  case Nil
  then show ?thesis by (simp add: path_of_def classifySubPkg_def)
next
  case (Cons p ps)
  have p: "CHR ''/'' \<notin> set p" using assms Cons by (simp add: segs_ok_def)
  have single: "classifySubPkg p = KindInternal \<longleftrightarrow> p = [] \<or> p \<in> {''domain'', ''service'', ''repository''}"
    using p by (auto simp: classifySubPkg_def str_index_slash)
  show ?thesis
  proof (cases "p = []")
    case True
    have "classifySubPkg (path_of sub) = KindOther \<or> path_of sub = []"
      by (cases ps) (simp_all add: Cons True path_of_def classifySubPkg_def str_index_slash)
    then show ?thesis using Cons True by (auto simp: classifySubPkg_def)
  next
    case False
    have "path_of sub \<noteq> []" using Cons False by (cases ps) (simp_all add: path_of_def)
    then show ?thesis using first_segment [OF p, of ps] single Cons False by auto
  qed
qed

text \<open>
  C35.  The cross-domain rule on paths.  In a package of a domain the analyzer reports, in order, exactly the
  imports it is meant to forbid: packages at or below another domain's root, \<open>domain\<close>, \<open>service\<close> or
  \<open>repository\<close>, where another domain is one with another name or under another \<open>ddd\<close> directory.
\<close>

theorem crossdomain_exact:
  assumes "segs_ok (pre @ [m, ''ddd'', d] @ sub)" and "''ddd'' \<notin> set (pre @ [m])"
    and "ip_path ps = path_of (pre @ [m, ''ddd'', d] @ sub)"
    and "list_all (\<lambda>(pos, lit). \<not> has_prefix (trim_quotes lit) ''ddd/'') (concat (ip_files ps))"
  shows "\<exists>ds bad. crossdomain_run ps = Ret ds \<and>
    map fst ds = map fst (filter (\<lambda>(pos, lit). bad (trim_quotes lit)) (concat (ip_files ps))) \<and>
    (\<forall>pre' m' d' sub'. segs_ok (pre' @ [m', ''ddd'', d'] @ sub') \<longrightarrow> ''ddd'' \<notin> set (pre' @ [m']) \<longrightarrow>
       bad (path_of (pre' @ [m', ''ddd'', d'] @ sub')) =
         ((pre' @ [m'], d') \<noteq> (pre @ [m], d) \<and> (path_of sub' = [] \<or> hd sub' \<in> {''domain'', ''service'', ''repository''}))) \<and>
    (\<forall>p. ''ddd'' \<notin> set (butlast (split_on CHR ''/'' p)) \<longrightarrow> \<not> bad p)"
proof -
  let ?cur = "\<lparr>pk_DDDPrefix = path_of (pre @ [m]), pk_ModuleName = m, pk_DomainName = d, pk_SubPkg = path_of sub,
      pk_Kind = classifySubPkg (path_of sub)\<rparr>"
  have cur: "ParsePkgPath (ip_path ps) = Ret (Some ?cur)"
    unfolding assms(3) using assms(1,2) by (intro ParsePkgPath_segs) auto
  have pre: "segs_ok (pre @ [m])" using assms(1) by (simp add: segs_ok_def)
  obtain ds where ds: "scan_imports (crossdomain_check ?cur) (concat (ip_files ps)) = Ret ds"
    "map fst ds = map fst (filter (\<lambda>(pos, lit). foreign_internal ?cur (trim_quotes lit)) (concat (ip_files ps)))"
    using crossdomain.scan_reports [OF TrueI assms(4)] by blast
  have run: "crossdomain_run ps = Ret ds" by (simp add: crossdomain_run_def cur ds(1))
  have bad: "foreign_internal ?cur (path_of (pre' @ [m', ''ddd'', d'] @ sub')) =
      ((pre' @ [m'], d') \<noteq> (pre @ [m], d) \<and> (path_of sub' = [] \<or> hd sub' \<in> {''domain'', ''service'', ''repository''}))"
    if h: "segs_ok (pre' @ [m', ''ddd'', d'] @ sub')" "''ddd'' \<notin> set (pre' @ [m'])" for pre' m' d' sub'
  proof -
    have i: "info_of (path_of (pre' @ [m', ''ddd'', d'] @ sub')) =
       Some \<lparr>pk_DDDPrefix = path_of (pre' @ [m']), pk_ModuleName = m', pk_DomainName = d', pk_SubPkg = path_of sub',
             pk_Kind = classifySubPkg (path_of sub')\<rparr>"
      using h by (intro info_of_segs) auto
    have "segs_ok (pre' @ [m'])" "segs_ok sub'" using h(1) by (simp_all add: segs_ok_def)
    with pre have "path_of (pre @ [m]) = path_of (pre' @ [m']) \<longleftrightarrow> pre @ [m] = pre' @ [m']"
      by (intro path_of_inject) auto
    then show ?thesis
      unfolding foreign_internal_def i using internal_iff [OF \<open>segs_ok sub'\<close>] by (auto simp: same_domain_def)
  qed
  have none: "\<not> foreign_internal ?cur p" if "''ddd'' \<notin> set (butlast (split_on CHR ''/'' p))" for p
  proof -
    have "info_of p = None"
      using that by (cases p rule: ParsePkgPath_cases) (auto simp: info_of_def butlast_append split: if_splits)
    then show ?thesis by (simp add: foreign_internal_def)
  qed
  show ?thesis using run ds(2) bad none by (intro exI [of _ ds] exI [of _ "foreign_internal ?cur"]) blast
qed

lemma ParsePkgPath_module: "ParsePkgPath p = Ret (Some i) \<Longrightarrow> ''ddd'' \<noteq> pk_ModuleName i \<and>
    (\<exists>pre. segs_ok (pre @ [pk_ModuleName i]) \<and> pk_DDDPrefix i = path_of (pre @ [pk_ModuleName i]))"
proof (cases p rule: ParsePkgPath_cases)
  case (some pre m d sub)
  assume "ParsePkgPath p = Ret (Some i)"
  then have i: "i = \<lparr>pk_DDDPrefix = path_of (pre @ [m]), pk_ModuleName = m, pk_DomainName = d, pk_SubPkg = path_of sub,
      pk_Kind = classifySubPkg (path_of sub)\<rparr>" unfolding some(3) by (simp only: outcome.inject option.inject)
  have "s \<in> set (pre @ [m]) \<Longrightarrow> CHR ''/'' \<notin> set s" for s
    by (rule split_on_no_sep [of _ _ p]) (auto simp: some(1))
  then have "segs_ok (pre @ [m])" by (auto simp: segs_ok_def list_all_iff)
  then show ?thesis using some(2) by (auto simp: i)
qed simp_all

lemma same_prefix_same_module:
  assumes "ParsePkgPath p = Ret (Some i)" and "ParsePkgPath p' = Ret (Some i')" and "pk_DDDPrefix i = pk_DDDPrefix i'"
  shows "pk_ModuleName i = pk_ModuleName i'"
proof -
  obtain pre pre' where "segs_ok (pre @ [pk_ModuleName i])" "pk_DDDPrefix i = path_of (pre @ [pk_ModuleName i])"
      "segs_ok (pre' @ [pk_ModuleName i'])" "pk_DDDPrefix i' = path_of (pre' @ [pk_ModuleName i'])"
    using ParsePkgPath_module [OF assms(1)] ParsePkgPath_module [OF assms(2)] by blast
  then have "pre @ [pk_ModuleName i] = pre' @ [pk_ModuleName i']" using assms(3) path_of_inject by auto
  then show ?thesis by simp
qed

lemma other_module_foreign:
  assumes "ParsePkgPath path = Ret (Some cur)" and "other_module_internal cur p"
  shows "foreign_internal cur p"
proof -
  obtain i where i: "info_of p = Some i" "pk_ModuleName cur \<noteq> pk_ModuleName i" "pk_Kind i = KindInternal"
    using assms(2) by (auto simp: other_module_internal_def split: option.splits)
  then have "ParsePkgPath p = Ret (Some i)" by (auto simp: info_of_def split: outcome.splits)
  then have "pk_DDDPrefix cur \<noteq> pk_DDDPrefix i" using same_prefix_same_module [OF assms(1)] i(2) by metis
  then show ?thesis using i by (simp add: foreign_internal_def same_domain_def)
qed

text \<open>
  The cross-module rule adds nothing: whatever it reports, the cross-domain rule reports too, since the
  module name is the last element of the prefix that rule compares.
\<close>

theorem crossmodule_subsumed:
  assumes "list_all (\<lambda>(pos, lit). \<not> has_prefix (trim_quotes lit) ''ddd/'') (concat (ip_files ps))"
    and "crossmodule_run ps = Ret dm" and "crossdomain_run ps = Ret dd"
  shows "set (map fst dm) \<subseteq> set (map fst dd)"
proof -
  obtain info where info: "ParsePkgPath (ip_path ps) = Ret info"
    using assms(3) by (cases "ParsePkgPath (ip_path ps)") (auto simp: crossdomain_run_def)
  show ?thesis
  proof (cases info)
    case None
    then show ?thesis using assms(2) info by (simp add: crossmodule_run_def)
  next
    case (Some cur)
    then have cur: "ParsePkgPath (ip_path ps) = Ret (Some cur)" using info by simp
    obtain dm' dd' where "scan_imports (crossmodule_check (ip_path ps) cur) (concat (ip_files ps)) = Ret dm'"
        "map fst dm' = map fst (filter (\<lambda>(pos, lit). other_module_internal cur (trim_quotes lit)) (concat (ip_files ps)))"
        "scan_imports (crossdomain_check cur) (concat (ip_files ps)) = Ret dd'"
        "map fst dd' = map fst (filter (\<lambda>(pos, lit). foreign_internal cur (trim_quotes lit)) (concat (ip_files ps)))"
      using crossmodule.scan_reports [OF cur assms(1)] crossdomain.scan_reports [OF TrueI assms(1)] by blast
    then show ?thesis
      using assms(2,3) other_module_foreign [OF cur]
      by (auto simp: crossmodule_run_def crossdomain_run_def cur simp del: map_map)
  qed
qed

text \<open>
  Import paths in back quotes confuse the rule: only double quotes are trimmed.  Another domain's package
  \<open>domain\<close> imported with a raw string literal is not reported, and a package below the own domain's
  \<open>domain\<close> is.
\<close>

theorem raw_literals_misread:
  assumes "segs_ok (pre @ [m, ''ddd'', d] @ sub)" and "''ddd'' \<notin> set (pre @ [m])" and "pre \<noteq> []" and "hd pre \<noteq> []"
    and "CHR ''/'' \<notin> set d'" and "CHR ''/'' \<notin> set x" and "d' \<noteq> d"
    and "ps = \<lparr>ip_path = path_of (pre @ [m, ''ddd'', d] @ sub),
               ip_files = [[(1, CHR 0x60 # path_of (pre @ [m, ''ddd'', d'] @ [''domain'']) @ [CHR 0x60]),
                            (2, CHR 0x60 # path_of (pre @ [m, ''ddd'', d] @ [''domain'', x]) @ [CHR 0x60])]]\<rparr>"
  shows "\<exists>ds. crossdomain_run ps = Ret ds \<and> map fst ds = [2]"
proof -
  let ?q = "CHR 0x60" and ?pre' = "(CHR 0x60 # hd pre) # tl pre"
  let ?cur = "\<lparr>pk_DDDPrefix = path_of (pre @ [m]), pk_ModuleName = m, pk_DomainName = d, pk_SubPkg = path_of sub,
      pk_Kind = classifySubPkg (path_of sub)\<rparr>"
  have pre: "pre = hd pre # tl pre" using assms(3) by simp
  have open_q: "?q # path_of (pre @ ys) = path_of (?pre' @ ys)" for ys
    by (subst pre, cases "tl pre @ ys") (simp_all add: path_of_def)
  have close_q: "path_of (zs @ [y]) @ [?q] = path_of (zs @ [y @ [?q]])" for zs y
    by (induction zs rule: induct_list012) (simp_all add: path_of_def)
  have both: "?q # path_of (pre @ ys @ [y]) @ [?q] = path_of (?pre' @ ys @ [y @ [?q]])" for ys y
  proof -
    have "(?q # path_of (pre @ ys @ [y])) @ [?q] = path_of (?pre' @ ys @ [y]) @ [?q]" by (simp only: open_q)
    also have "\<dots> = path_of (?pre' @ ys @ [y @ [?q]])" using close_q [of "?pre' @ ys" y] by simp
    finally show ?thesis by simp
  qed
  have l1: "?q # path_of (pre @ [m, ''ddd'', d'] @ [''domain'']) @ [?q] = path_of (?pre' @ [m, ''ddd'', d'] @ [''domain`''])"
    using both [of "[m, ''ddd'', d']" "''domain''"] by simp
  have l2: "?q # path_of (pre @ [m, ''ddd'', d] @ [''domain'', x]) @ [?q] = path_of (?pre' @ [m, ''ddd'', d] @ [''domain'', x @ [?q]])"
    using both [of "[m, ''ddd'', d, ''domain'']" x] by simp
  have trim: "trim_quotes (?q # s @ [?q]) = ?q # s @ [?q]" for s by (simp add: trim_quotes_def)
  have sok: "segs_ok (pre @ [m])" "CHR ''/'' \<notin> set d" using assms(1) by (simp_all add: segs_ok_def)
  then have sok': "segs_ok (?pre' @ [m])" using pre by (cases pre) (simp_all add: segs_ok_def)
  have nddd: "''ddd'' \<notin> set ?pre'" "m \<noteq> ''ddd''" using assms(2) pre by (cases pre; auto)+
  have cur: "ParsePkgPath (ip_path ps) = Ret (Some ?cur)"
    using ParsePkgPath_segs [OF assms(1)] assms(2) unfolding assms(8) by auto
  have i1: "info_of (path_of (?pre' @ [m, ''ddd'', d'] @ [''domain`''])) =
      Some \<lparr>pk_DDDPrefix = path_of (?pre' @ [m]), pk_ModuleName = m, pk_DomainName = d', pk_SubPkg = path_of [''domain`''],
            pk_Kind = classifySubPkg (path_of [''domain`''])\<rparr>"
    using sok' assms(5) nddd by (intro info_of_segs) (simp_all add: segs_ok_def)
  have i2: "info_of (path_of (?pre' @ [m, ''ddd'', d] @ [''domain'', x @ [?q]])) =
      Some \<lparr>pk_DDDPrefix = path_of (?pre' @ [m]), pk_ModuleName = m, pk_DomainName = d, pk_SubPkg = path_of [''domain'', x @ [?q]],
            pk_Kind = classifySubPkg (path_of [''domain'', x @ [?q]])\<rparr>"
    using sok' sok(2) assms(6) nddd by (intro info_of_segs) (simp_all add: segs_ok_def)
  have "path_of (pre @ [m]) \<noteq> path_of (?pre' @ [m])"
    using path_of_inject [OF sok(1) sok'] pre by (metis append_is_Nil_conv list.sel(1) list.inject not_Cons_self2 append_Cons)
  then have b2: "foreign_internal ?cur (path_of (?pre' @ [m, ''ddd'', d] @ [''domain'', x @ [?q]]))"
    unfolding foreign_internal_def i2 using first_segment [of "''domain''" "[x @ [?q]]"]
    by (simp add: same_domain_def) (simp add: classifySubPkg_def str_index_slash)
  have b1: "\<not> foreign_internal ?cur (path_of (?pre' @ [m, ''ddd'', d'] @ [''domain`'']))"
    unfolding foreign_internal_def i1 by (simp add: path_of_def classifySubPkg_def str_index_slash)
  have np: "\<not> has_prefix (?q # s) ''ddd/''" for s by (simp add: has_prefix_def)
  have two: "\<exists>ds. scan_imports (crossdomain_check ?cur) [(1, ?q # l1 @ [?q]), (2, ?q # l2 @ [?q])] = Ret ds \<and> map fst ds = [2]"
    if "\<not> foreign_internal ?cur (?q # l1 @ [?q])" "foreign_internal ?cur (?q # l2 @ [?q])" for l1 l2
    using crossdomain.scan_reports [OF TrueI, of "[(1, ?q # l1 @ [?q]), (2, ?q # l2 @ [?q])]" ?cur] that
    by (simp only: list.pred_inject prod.case trim np filter.simps if_False if_True list.map fst_conv simp_thms not_False_eq_True)
  have imps: "concat (ip_files ps) =
      [(1, ?q # path_of (pre @ [m, ''ddd'', d'] @ [''domain'']) @ [?q]), (2, ?q # path_of (pre @ [m, ''ddd'', d] @ [''domain'', x]) @ [?q])]"
    by (simp add: assms(8))
  show ?thesis
    using two [OF b1 [folded l1] b2 [folded l2]] by (simp only: crossdomain_run_def cur out_bind.simps option.case imps)
qed

text \<open>
  The wire rule takes every import path without a dot for the standard library: in a module whose path has
  none, a wire package may import anything.
\<close>

theorem wire_rule_needs_dot:
  assumes "list_all (\<lambda>(pos, lit). CHR ''.'' \<notin> set lit) (concat (ip_files ps))" and "\<not> has_prefix (ip_path ps) ''ddd/''"
  shows "wireimport_run ps = Ret []"
proof -
  have nodot: "\<not> str_contains s ''.''" if "CHR ''.'' \<notin> set s" for s
    using that by (induction s) (auto simp: str_contains_def has_prefix_def)
  have "set (trim_quotes s) \<subseteq> set s" for s
    unfolding trim_quotes_def by (auto dest!: set_dropWhileD)
  then have "wireimport_check cur (trim_quotes lit) = Ret None" if "CHR ''.'' \<notin> set lit" for cur lit
    using that nodot [of "trim_quotes lit"] by (auto simp: wireimport_check_def isAllowedImport_def)
  then have "list_all (\<lambda>(pos, lit). CHR ''.'' \<notin> set lit) imps \<Longrightarrow> scan_imports (wireimport_check cur) imps = Ret []" for cur imps
    by (induction imps) auto
  then show ?thesis using assms by (auto simp: wireimport_run_def parse_no_panic split: option.split)
qed

subsection \<open>Witnesses\<close>

definition sample_pass :: import_pass where
  "sample_pass = \<lparr>ip_path = ''x/shop/ddd/order/command'',
     ip_files = [[(1, quoted ''x/shop/ddd/stock/domain''), (2, quoted ''fmt'')]]\<rparr>"

lemma sample_imports: "list_all (\<lambda>(pos, lit). \<not> has_prefix (trim_quotes lit) ''ddd/'') (concat (ip_files sample_pass))"
  by (simp add: sample_pass_def quoted_def trim_quotes_def has_prefix_def)

theorem crossdomain_exact_witness:
  "\<exists>ds. crossdomain_run sample_pass = Ret ds \<and> map fst ds = [1]"
proof -
  have segs: "segs_ok ([''x''] @ [''shop'', ''ddd'', ''order''] @ [''command''])" "segs_ok ([''x''] @ [''shop'', ''ddd'', ''stock''] @ [''domain''])"
    by (simp_all add: segs_ok_def)
  have path: "ip_path sample_pass = path_of ([''x''] @ [''shop'', ''ddd'', ''order''] @ [''command''])"
    by (simp add: sample_pass_def path_of_def)
  obtain ds bad where ds: "crossdomain_run sample_pass = Ret ds"
    "map fst ds = map fst (filter (\<lambda>(pos, lit). bad (trim_quotes lit)) (concat (ip_files sample_pass)))"
    and bad: "\<And>pre' m' d' sub'. segs_ok (pre' @ [m', ''ddd'', d'] @ sub') \<Longrightarrow> ''ddd'' \<notin> set (pre' @ [m']) \<Longrightarrow>
       bad (path_of (pre' @ [m', ''ddd'', d'] @ sub')) =
         ((pre' @ [m'], d') \<noteq> ([''x''] @ [''shop''], ''order'') \<and> (path_of sub' = [] \<or> hd sub' \<in> {''domain'', ''service'', ''repository''}))"
    and none: "\<And>p. ''ddd'' \<notin> set (butlast (split_on CHR ''/'' p)) \<Longrightarrow> \<not> bad p"
    using crossdomain_exact [OF segs(1) _ path sample_imports] by auto
  have "path_of ([''x''] @ [''shop'', ''ddd'', ''stock''] @ [''domain'']) = ''x/shop/ddd/stock/domain''" by (simp add: path_of_def)
  with bad [OF segs(2)] have "bad ''x/shop/ddd/stock/domain''" by simp
  moreover have "\<not> bad ''fmt''" by (rule none) simp
  ultimately have "map fst ds = [1]" using ds(2) by (simp add: sample_pass_def quoted_def trim_quotes_def)
  with ds(1) show ?thesis by (intro exI [of _ ds] conjI)
qed

theorem crossmodule_subsumed_witness:
  "\<exists>dm dd. crossmodule_run \<lparr>ip_path = ''x/shop/ddd/order/command'', ip_files = [[(7, quoted ''x/bank/ddd/order/domain'')]]\<rparr> = Ret dm \<and>
     crossdomain_run \<lparr>ip_path = ''x/shop/ddd/order/command'', ip_files = [[(7, quoted ''x/bank/ddd/order/domain'')]]\<rparr> = Ret dd \<and>
     map fst dm = [7] \<and> 7 \<in> set (map fst dd)"
proof -
  let ?p = "\<lparr>ip_path = ''x/shop/ddd/order/command'', ip_files = [[(7, quoted ''x/bank/ddd/order/domain'')]]\<rparr>"
  have ok: "list_all (\<lambda>(pos, lit). \<not> has_prefix (trim_quotes lit) ''ddd/'') (concat (ip_files ?p))"
    by (simp add: quoted_def trim_quotes_def has_prefix_def)
  have p: "path_of ([''x''] @ [''shop'', ''ddd'', ''order''] @ [''command'']) = ''x/shop/ddd/order/command''"
    "path_of ([''x''] @ [''bank'', ''ddd'', ''order''] @ [''domain'']) = ''x/bank/ddd/order/domain''"
    by (simp_all add: path_of_def)
  obtain cur where cur: "ParsePkgPath (ip_path ?p) = Ret (Some cur)" "pk_ModuleName cur = ''shop''"
    using ParsePkgPath_segs [of "[''x'']" "''shop''" "''order''" "[''command'']"] by (simp add: segs_ok_def path_of_def)
  have "segs_ok ([''x''] @ [''bank'', ''ddd'', ''order''] @ [''domain''])" by (simp add: segs_ok_def)
  from info_of_segs [OF this] have "other_module_internal cur ''x/bank/ddd/order/domain''"
    by (simp add: p(2) [simplified] other_module_internal_def cur(2) path_of_def classifySubPkg_def str_index_slash)
  then obtain dm where "scan_imports (crossmodule_check (ip_path ?p) cur) (concat (ip_files ?p)) = Ret dm" "map fst dm = [7]"
    using crossmodule.scan_reports [OF cur(1) ok] by (auto simp: quoted_def trim_quotes_def)
  moreover obtain dd where "scan_imports (crossdomain_check cur) (concat (ip_files ?p)) = Ret dd"
    using crossdomain.scan_reports [OF TrueI ok] by blast
  ultimately have r: "crossmodule_run ?p = Ret dm" "crossdomain_run ?p = Ret dd" "map fst dm = [7]"
    by (simp_all only: crossmodule_run_def crossdomain_run_def cur(1) out_bind.simps option.case)
  from crossmodule_subsumed [OF ok r(1,2)] r show ?thesis by auto
qed

theorem raw_literals_misread_witness:
  "\<exists>ds. crossdomain_run \<lparr>ip_path = ''x/shop/ddd/order/command'',
       ip_files = [[(1, ''`x/shop/ddd/stock/domain`''), (2, ''`x/shop/ddd/order/domain/model`'')]]\<rparr> = Ret ds \<and> map fst ds = [2]"
  using raw_literals_misread [of "[''x'']" "''shop''" "''order''" "[''command'']" "''stock''" "''model''"]
  by (simp add: segs_ok_def path_of_def)

theorem wire_rule_needs_dot_witness:
  "wireimport_run \<lparr>ip_path = ''shop/ddd/order/wire'', ip_files = [[(1, quoted ''shop/ddd/stock/domain'')]]\<rparr> = Ret []"
  using wire_rule_needs_dot [of "\<lparr>ip_path = ''shop/ddd/order/wire'', ip_files = [[(1, quoted ''shop/ddd/stock/domain'')]]\<rparr>"]
  by (simp add: quoted_def has_prefix_def)

end
