(* ===== verification/LintSyntax.thy ===== *)
theory LintSyntax
  imports LintPaths
begin

text \<open>
  The analyzers that look at syntax: \<open>wirelogic\<close>, \<open>wirecomplexity\<close>, \<open>eventimmutable\<close> and
  \<open>fieldaccess\<close>.

  A syntax tree is a node with its position, its kind and its children in source order; the kind has what
  the analyzers read of the node besides the children, with the type checker's record of a selection in a
  selector.  \<open>%q\<close> and \<open>%d\<close> are as in \<open>LintPaths\<close>.
\<close>

text \<open>A selection: whether it is a field, and the path of the package of the selected object, if it has one.\<close>

record selection =
  sl_FieldVal :: bool
  sl_Pkg :: "string option"

text \<open>
  \<open>KSelector\<close>: child \<open>X\<close>.  \<open>KCall\<close>: \<open>Fun\<close>, then the arguments.  \<open>KBinary\<close>: \<open>X\<close>, \<open>Y\<close>.  \<open>KIf\<close>: \<open>Init\<close> if the
  first flag is set, \<open>Cond\<close>, \<open>Body\<close>, \<open>Else\<close> if the second is.  \<open>KAssign\<close>: so many left-hand sides, then the
  right-hand sides.  \<open>KExprStmt\<close>: \<open>X\<close>.
\<close>

datatype node_kind =
    KIdent string
  | KSelector string "selection option"
  | KCall
  | KBinary string
  | KIf bool bool
  | KFor | KRange | KSwitch | KTypeSwitch | KSelect | KCaseClause
  | KReturn | KBlock | KExprStmt
  | KAssign nat
  | KOther

datatype go_node = Node (nd_pos: nat) (nd_kind: node_kind) (nd_children: "go_node list")

text \<open>\<open>ast.Inspect\<close> with a function that always returns true.\<close>

fun preorder :: "go_node \<Rightarrow> go_node list" where
  "preorder (Node p k cs) = Node p k cs # concat (map preorder cs)"

record func_decl =
  fn_pos :: nat
  fn_name :: string
  fn_start :: int
  fn_end :: int
  fn_body :: "go_node option"

text \<open>A package under analysis: its path, and the functions declared in its files; \<open>IsExported\<close> on ASCII names.\<close>

record code_pass =
  cp_path :: string
  cp_funcs :: "func_decl list"

definition IsExported :: "string \<Rightarrow> bool" where
  "IsExported name = (case name of [] \<Rightarrow> False | c # cs \<Rightarrow> CHR ''A'' \<le> c \<and> c \<le> CHR ''Z'')"

subsection \<open>wirelogic\<close>

fun isNil :: "go_node \<Rightarrow> bool" where
  "isNil (Node p k cs) = (k = KIdent ''nil'')"

definition if_cond :: "bool \<Rightarrow> go_node list \<Rightarrow> go_node" where
  "if_cond init cs = cs ! (if init then 1 else 0)"

definition if_body :: "bool \<Rightarrow> go_node list \<Rightarrow> go_node" where
  "if_body init cs = cs ! (if init then 2 else 1)"

definition isSimpleErrorCheck :: "bool \<Rightarrow> go_node list \<Rightarrow> bool" where
  "isSimpleErrorCheck init cs =
     (case if_cond init cs of
        Node p (KBinary op) xs \<Rightarrow>
          op = ''!='' \<and> (isNil (xs ! 0) \<or> isNil (xs ! 1)) \<and>
          length (nd_children (if_body init cs)) = 1 \<and> nd_kind (nd_children (if_body init cs) ! 0) = KReturn
      | _ \<Rightarrow> False)"

definition isDomainObjectCreation :: "go_node list \<Rightarrow> bool" where
  "isDomainObjectCreation cs =
     (case cs of
        Node p (KSelector name sel) (Node q (KIdent pkgName) ys # xs) # args \<Rightarrow>
          (has_prefix name ''New'' \<or> has_prefix name ''Create'') \<and> (pkgName = ''domain'' \<or> has_suffix pkgName ''domain'')
      | _ \<Rightarrow> False)"

text \<open>The report for a node; \<open>%q\<close> is the function's name.\<close>

fun wirelogic_node :: "string \<Rightarrow> go_node \<Rightarrow> diagnostic list" where
  "wirelogic_node fn (Node p KFor cs) =
     [(p, ''dddwirelogic: loop statement in wire function '' @ quoted fn @ ''; wire functions should not contain loops'')]"
| "wirelogic_node fn (Node p KRange cs) =
     [(p, ''dddwirelogic: range loop in wire function '' @ quoted fn @ ''; wire functions should not contain loops'')]"
| "wirelogic_node fn (Node p KSwitch cs) =
     [(p, ''dddwirelogic: switch statement in wire function '' @ quoted fn @
          ''; wire functions should not contain switch statements'')]"
| "wirelogic_node fn (Node p KTypeSwitch cs) =
     [(p, ''dddwirelogic: type switch in wire function '' @ quoted fn @ ''; wire functions should not contain type switches'')]"
| "wirelogic_node fn (Node p KSelect cs) =
     [(p, ''dddwirelogic: select statement in wire function '' @ quoted fn @
          ''; wire functions should not contain select statements'')]"
| "wirelogic_node fn (Node p (KIf init els) cs) =
     (if isSimpleErrorCheck init cs then []
      else [(p, ''dddwirelogic: if statement in wire function '' @ quoted fn @
                ''; wire functions should only contain simple error checking (if err != nil { return err })'')])"
| "wirelogic_node fn (Node p KCall cs) =
     (if isDomainObjectCreation cs
      then [(p, ''dddwirelogic: domain object creation in wire function '' @ quoted fn @
                ''; wire functions should only wire dependencies, not create domain objects'')]
      else [])"
| "wirelogic_node fn _ = []"

definition checkFunction :: "string \<Rightarrow> go_node \<Rightarrow> diagnostic list" where
  "checkFunction fn body = concat (map (wirelogic_node fn) (preorder body))"

definition wirelogic_run :: "code_pass \<Rightarrow> diagnostic list outcome" where
  "wirelogic_run ps =
     out_bind (ParsePkgPath (cp_path ps))
       (\<lambda>info. Ret (case info of
          None \<Rightarrow> []
        | Some currentInfo \<Rightarrow>
            if pk_Kind currentInfo \<noteq> KindWire then []
            else concat (map (\<lambda>f. case fn_body f of None \<Rightarrow> [] | Some body \<Rightarrow> checkFunction (fn_name f) body) (cp_funcs ps))))"

subsection \<open>wirecomplexity\<close>

definition maxFunctionLines :: int where
  "maxFunctionLines = 80"

definition maxFunctions :: int where
  "maxFunctions = 20"

definition maxComplexity :: int where
  "maxComplexity = 25"

fun is_branch :: "node_kind \<Rightarrow> bool" where
  "is_branch (KIf i e) = True"
| "is_branch k = (k \<in> {KFor, KRange, KSwitch, KTypeSwitch, KSelect, KCaseClause})"

definition calculateComplexity :: "go_node \<Rightarrow> int" where
  "calculateComplexity body = 1 + int (length (filter (\<lambda>n. is_branch (nd_kind n)) (preorder body)))"

definition complexity_func :: "func_decl \<Rightarrow> diagnostic list" where
  "complexity_func f =
     (case fn_body f of
        None \<Rightarrow> []
      | Some body \<Rightarrow>
          (let lineCount = fn_end f - fn_start f + 1;
               complexity = calculateComplexity body
           in (if lineCount > maxFunctionLines
               then [(fn_pos f, ''dddwirecomplexity: function '' @ quoted (fn_name f) @ '' has '' @ show_int lineCount @
                       '' lines, max allowed is '' @ show_int maxFunctionLines @ ''; keep wire functions simple'')]
               else []) @
              (if complexity > maxComplexity
               then [(fn_pos f, ''dddwirecomplexity: function '' @ quoted (fn_name f) @ '' has complexity '' @ show_int complexity @
                       '', max allowed is '' @ show_int maxComplexity @ ''; wire functions should have minimal branching'')]
               else [])))"

definition wirecomplexity_run :: "code_pass \<Rightarrow> diagnostic list outcome" where
  "wirecomplexity_run ps =
     out_bind (ParsePkgPath (cp_path ps))
       (\<lambda>info. Ret (case info of
          None \<Rightarrow> []
        | Some currentInfo \<Rightarrow>
            if pk_Kind currentInfo \<noteq> KindWire then []
            else (let exportedFuncCount = int (length (filter (\<lambda>f. IsExported (fn_name f)) (cp_funcs ps)))
                  in concat (map complexity_func (cp_funcs ps)) @
                     (if exportedFuncCount > maxFunctions
                      then [(0, ''dddwirecomplexity: wire package has '' @ show_int exportedFuncCount @
                               '' exported functions, max allowed is '' @ show_int maxFunctions @
                               ''; consider splitting into multiple wire packages'')]
                      else []))))"

subsection \<open>eventimmutable and fieldaccess\<close>

text \<open>The left-hand sides of the assignments of a file, in the inspector's order.\<close>

definition assigned :: "go_node \<Rightarrow> go_node list" where
  "assigned root = concat (map (\<lambda>n. case n of Node p (KAssign k) cs \<Rightarrow> take k cs | _ \<Rightarrow> []) (preorder root))"

definition baseEventPkgPath :: string where
  "baseEventPkgPath = ''github.com/ddd-qce/core/cqrs/event''"

definition isBaseEventField :: "selection \<Rightarrow> bool" where
  "isBaseEventField sl \<longleftrightarrow> sl_FieldVal sl \<and> sl_Pkg sl = Some baseEventPkgPath"

definition eventimmutable_lhs :: "go_node \<Rightarrow> diagnostic list" where
  "eventimmutable_lhs lhs =
     (case lhs of
        Node p (KSelector name (Some sl)) cs \<Rightarrow>
          if name \<in> {''AggregateID'', ''OccurredAt'', ''CorrelationID'', ''CausationID''} \<and> isBaseEventField sl
          then [(p, ''dddeventimmutable: BaseEvent field '' @ quoted name @ '' must not be mutated; '' @
                    ''construct events via event.NewDomainEvent / event.WithCorrelation, '' @
                    ''or use a composite literal &XxxEvent{BaseEvent: ...}'')]
          else []
      | _ \<Rightarrow> [])"

definition eventimmutable_run :: "string \<Rightarrow> go_node list \<Rightarrow> diagnostic list outcome" where
  "eventimmutable_run path files =
     out_bind (ParsePkgPath path)
       (\<lambda>info. Ret (case info of None \<Rightarrow> [] | Some currentInfo \<Rightarrow> concat (map eventimmutable_lhs (concat (map assigned files)))))"

definition protectedFieldPatterns :: "string list" where
  "protectedFieldPatterns = [''Status'', ''Mode'', ''At'', ''Error'', ''ID'', ''Index'', ''Name'', ''From'', ''Reason'', ''Output'']"

definition isProtectedField :: "string \<Rightarrow> bool" where
  "isProtectedField name =
     (if name \<in> {''ID'', ''Name'', ''PID''} then False
      else if name \<in> {''Status'', ''ErrorMessage'', ''StartedAt'', ''EndedAt'', ''CompletedAt''} then True
      else list_ex (\<lambda>sfx. has_suffix name sfx \<and> length name > length sfx) protectedFieldPatterns)"

definition isDomainEntityField :: "selection \<Rightarrow> bool" where
  "isDomainEntityField sl \<longleftrightarrow> sl_FieldVal sl \<and>
     (case sl_Pkg sl of None \<Rightarrow> False | Some pkgPath \<Rightarrow> str_contains pkgPath ''/ddd/'' \<and> str_contains pkgPath ''/domain'')"

definition isExemptPkg :: "string \<Rightarrow> bool" where
  "isExemptPkg currentPkgPath \<longleftrightarrow> has_suffix currentPkgPath ''_test'' \<or> str_contains currentPkgPath ''/infra/pg''"

definition fieldaccess_lhs :: "string \<Rightarrow> go_node \<Rightarrow> diagnostic list" where
  "fieldaccess_lhs path lhs =
     (case lhs of
        Node p (KSelector name (Some sl)) cs \<Rightarrow>
          if isProtectedField name \<and> isDomainEntityField sl \<and> \<not> isExemptPkg path
          then [(p, ''dddfieldaccess: domain entity field '' @ quoted name @
                    '' must not be directly assigned outside the domain package; use a domain method instead'')]
          else []
      | _ \<Rightarrow> [])"

definition fieldaccess_run :: "string \<Rightarrow> go_node list \<Rightarrow> diagnostic list outcome" where
  "fieldaccess_run path files =
     out_bind (ParsePkgPath path)
       (\<lambda>info. Ret (case info of
          None \<Rightarrow> []
        | Some currentInfo \<Rightarrow>
            if pk_Kind currentInfo = KindInternal \<and> pk_SubPkg currentInfo = ''domain'' then []
            else concat (map (fieldaccess_lhs path) (concat (map assigned files)))))"

subsection \<open>What the rules accept\<close>

text \<open>
  A plain tree: no loop, switch or select anywhere, only simple error checks, and no call that creates a
  domain object.
\<close>

fun plain :: "go_node \<Rightarrow> bool" where
  "plain (Node p k cs) \<longleftrightarrow>
     (case k of
        KFor \<Rightarrow> False | KRange \<Rightarrow> False | KSwitch \<Rightarrow> False | KTypeSwitch \<Rightarrow> False | KSelect \<Rightarrow> False
      | KIf init els \<Rightarrow> isSimpleErrorCheck init cs
      | KCall \<Rightarrow> \<not> isDomainObjectCreation cs
      | _ \<Rightarrow> True) \<and> list_all plain cs"

lemma checkFunction_plain: "checkFunction fn n = [] \<longleftrightarrow> plain n"
proof (induction n)
  case (Node p k cs)
  have "checkFunction fn (Node p k cs) = wirelogic_node fn (Node p k cs) @ concat (map (checkFunction fn) cs)"
    by (induction cs) (simp_all add: checkFunction_def)
  moreover have "concat (map (checkFunction fn) cs) = [] \<longleftrightarrow> list_all plain cs"
    using Node by (auto simp: list_all_iff)
  ultimately show ?case by (cases k) simp_all
qed

text \<open>
  A wire package passes the logic rule exactly when every function body in it is plain; then a simple error
  check may still have any plain statements before its condition and in its \<open>else\<close>, of which the rule sees
  nothing.
\<close>

theorem wirelogic_exact:
  assumes "ParsePkgPath (cp_path ps) = Ret (Some cur)" and "pk_Kind cur = KindWire"
  shows "(wirelogic_run ps = Ret [] \<longleftrightarrow> list_all (\<lambda>f. case fn_body f of None \<Rightarrow> True | Some body \<Rightarrow> plain body) (cp_funcs ps)) \<and>
    (plain init \<longrightarrow> plain els \<longrightarrow> isSimpleErrorCheck False [cnd, body] \<longrightarrow> plain (Node p (KIf False False) [cnd, body]) \<longrightarrow>
       plain (Node p (KIf True True) [init, cnd, body, els]))"
proof -
  have "(\<forall>f\<in>set (cp_funcs ps). (case fn_body f of None \<Rightarrow> [] | Some body \<Rightarrow> checkFunction (fn_name f) body) = []) \<longleftrightarrow>
    list_all (\<lambda>f. case fn_body f of None \<Rightarrow> True | Some body \<Rightarrow> plain body) (cp_funcs ps)"
    by (auto simp: list_all_iff checkFunction_plain split: option.split)
  moreover have "if_cond True [init, cnd, body, els] = if_cond False [cnd, body]" "if_body True [init, cnd, body, els] = if_body False [cnd, body]"
    by (simp_all add: if_cond_def if_body_def numeral_eq_Suc)
  then have "isSimpleErrorCheck True [init, cnd, body, els] = isSimpleErrorCheck False [cnd, body]"
    unfolding isSimpleErrorCheck_def by (simp only:)
  ultimately show ?thesis using assms by (simp add: wirelogic_run_def)
qed

lemma complexity_node:
  "calculateComplexity (Node p k cs) = 1 + (if is_branch k then 1 else 0) + sum_list (map (\<lambda>c. calculateComplexity c - 1) cs)"
proof -
  have "int (length (filter (\<lambda>n. is_branch (nd_kind n)) (concat (map preorder cs)))) = sum_list (map (\<lambda>c. calculateComplexity c - 1) cs)"
    by (induction cs) (simp_all add: calculateComplexity_def)
  then show ?thesis by (simp add: calculateComplexity_def)
qed

text \<open>
  The complexity of a tree is one more than the branching nodes in it, so it adds up over the parts; the
  arms of a \<open>switch\<close> count, those of a \<open>select\<close> and the operators \<open>&&\<close> and \<open>||\<close> do not.
\<close>

theorem complexity_adds_up:
  assumes "list_all (\<lambda>c. nd_kind c = KCaseClause \<and> nd_children c = []) arms"
    and "list_all (\<lambda>c. nd_kind c = KOther \<and> nd_children c = []) comms"
  shows "calculateComplexity (Node p KBlock cs) = 1 + sum_list (map (\<lambda>c. calculateComplexity c - 1) cs) \<and>
    calculateComplexity (Node p KSwitch arms) = 2 + int (length arms) \<and> calculateComplexity (Node p KSelect comms) = 2"
proof -
  have leaf: "nd_children c = [] \<Longrightarrow> calculateComplexity c = 1 + (if is_branch (nd_kind c) then 1 else 0)" for c
    by (cases c) (simp add: complexity_node)
  have "sum_list (map (\<lambda>c. calculateComplexity c - 1) arms) = int (length arms)"
    using assms(1) by (induction arms) (auto simp: leaf)
  moreover have "sum_list (map (\<lambda>c. calculateComplexity c - 1) comms) = 0"
    using assms(2) by (induction comms) (auto simp: leaf)
  ultimately show ?thesis by (simp add: complexity_node)
qed

subsection \<open>Witnesses\<close>

text \<open>\<open>if err != nil { return } else { log(...) }\<close> in a wire function.\<close>

definition sample_cond :: go_node where
  "sample_cond = Node 3 (KBinary ''!='') [Node 3 (KIdent ''err'') [], Node 4 (KIdent ''nil'') []]"

definition sample_return :: go_node where
  "sample_return = Node 5 KBlock [Node 5 KReturn []]"

definition sample_else :: go_node where
  "sample_else = Node 6 KBlock [Node 6 KExprStmt [Node 6 KCall [Node 6 (KIdent ''charge'') []]]]"

definition sample_wire :: code_pass where
  "sample_wire = \<lparr>cp_path = ''x/shop/ddd/order/wire'',
     cp_funcs = [\<lparr>fn_pos = 1, fn_name = ''Wire'', fn_start = 1, fn_end = 9,
                  fn_body = Some (Node 2 KBlock [Node 2 (KIf True True) [Node 2 KOther [], sample_cond, sample_return, sample_else]])\<rparr>]\<rparr>"

theorem wirelogic_exact_witness: "wirelogic_run sample_wire = Ret []"
proof -
  obtain cur where cur: "ParsePkgPath (cp_path sample_wire) = Ret (Some cur)" "pk_Kind cur = KindWire"
    using ParsePkgPath_segs [of "[''x'']" "''shop''" "''order''" "[''wire'']"]
    by (simp add: segs_ok_def path_of_def sample_wire_def classifySubPkg_def str_index_slash)
  have p: "plain (Node 2 KOther [])" "plain sample_else" "isSimpleErrorCheck False [sample_cond, sample_return]"
      "plain (Node 2 (KIf False False) [sample_cond, sample_return])"
    by (code_simp, code_simp, code_simp, code_simp)
  have "plain (Node 2 (KIf True True) [Node 2 KOther [], sample_cond, sample_return, sample_else])"
    using wirelogic_exact [OF cur, of "Node 2 KOther []" sample_else sample_cond sample_return 2] p by blast
  then have "list_all (\<lambda>f. case fn_body f of None \<Rightarrow> True | Some body \<Rightarrow> plain body) (cp_funcs sample_wire)"
    by (simp add: sample_wire_def)
  then show ?thesis using wirelogic_exact [OF cur] by blast
qed

theorem complexity_adds_up_witness:
  "calculateComplexity (Node 1 KSwitch [Node 2 KCaseClause [], Node 3 KCaseClause []]) = 4"
  using complexity_adds_up [of "[Node 2 KCaseClause [], Node 3 KCaseClause []]" "[]" 1] by simp

end
