(* ===== verification/LintTypes.thy ===== *)
theory LintTypes
  imports LintPaths
begin

text \<open>
  The analyzers that look at declarations and types: \<open>fieldcount\<close>, \<open>publicleak\<close>, \<open>agentcreate\<close>,
  \<open>eventpublish\<close> and \<open>infraimplement\<close>, over what the type checker tells of them.
\<close>

subsection \<open>Declarations\<close>

text \<open>
  A type as \<open>publicleak\<close> takes it apart: a named type by its package's path, if it has one; \<open>TyElem\<close> is any
  other type with an element type, \<open>TyOther\<close> one without (basic types, structs, functions, aliases).
\<close>

datatype lint_type =
    TyNamed "string option"
  | TyPointer lint_type
  | TySlice lint_type
  | TyArray lint_type
  | TyMap lint_type lint_type
  | TyChan lint_type
  | TyElem lint_type
  | TyOther

text \<open>A field declaration: its names, and the position and type of its type expression (None for nil).\<close>

record field_decl =
  fe_Names :: "string list"
  fe_Pos :: nat
  fe_Type :: "lint_type option"

text \<open>A type declaration, with its fields if it is a struct, and a function's parameters and results.\<close>

datatype public_decl =
    PTypeSpec nat string "field_decl list option"
  | PFuncDecl string "field_decl list" "field_decl list"

record decl_pass =
  dp_path :: string
  dp_decls :: "public_decl list"

definition exported_name :: "string \<Rightarrow> bool" where
  "exported_name name = (case name of [] \<Rightarrow> False | c # cs \<Rightarrow> CHR ''A'' \<le> c \<and> c \<le> CHR ''Z'')"

subsection \<open>fieldcount\<close>

fun countFields :: "field_decl list \<Rightarrow> int" where
  "countFields [] = 0"
| "countFields (f # fs) = (if length (fe_Names f) = 0 then countFields fs else 1 + countFields fs)"

definition counted_kind :: "string \<Rightarrow> string \<Rightarrow> string" where
  "counted_kind subPkg typeName =
     (if subPkg = ''command'' then (if has_suffix typeName ''Command'' then ''command'' else [])
      else if subPkg = ''query'' then (if has_suffix typeName ''Query'' then ''query'' else [])
      else if subPkg = ''event'' then (if has_suffix typeName ''Event'' then ''event'' else [])
      else [])"

definition fieldcount_decl :: "int \<Rightarrow> PkgInfo \<Rightarrow> public_decl \<Rightarrow> diagnostic list" where
  "fieldcount_decl maxFields pkgInfo d =
     (case d of
        PTypeSpec p typeName (Some flds) \<Rightarrow>
          (let kind = counted_kind (pk_SubPkg pkgInfo) typeName; fieldCount = countFields flds
           in if kind = [] then []
              else if has_suffix typeName ''Result'' then []
              else if fieldCount > maxFields
              then [(p, ''dddfieldcount: '' @ kind @ '' type '' @ quoted typeName @ '' has '' @ show_int fieldCount @
                        '' fields, maximum allowed is '' @ show_int maxFields @
                        ''; consider extracting fields into a value object or splitting the '' @ kind)]
              else [])
      | _ \<Rightarrow> [])"

definition fieldcount_run :: "int \<Rightarrow> decl_pass \<Rightarrow> diagnostic list outcome" where
  "fieldcount_run maxFields ps =
     out_bind (ParsePkgPath (dp_path ps))
       (\<lambda>info. Ret (case info of
          None \<Rightarrow> []
        | Some pkgInfo \<Rightarrow>
            if pk_Kind pkgInfo \<noteq> KindPublic then [] else concat (map (fieldcount_decl maxFields pkgInfo) (dp_decls ps))))"

subsection \<open>publicleak\<close>

fun refersToCrossDomainInternal :: "lint_type \<Rightarrow> PkgInfo \<Rightarrow> bool outcome" where
  "refersToCrossDomainInternal (TyNamed None) cur = Ret False"
| "refersToCrossDomainInternal (TyNamed (Some pkg)) cur =
     out_bind (ParsePkgPath pkg)
       (\<lambda>info. Ret (case info of
          None \<Rightarrow> False
        | Some i \<Rightarrow> if pk_Kind i \<noteq> KindInternal then False else \<not> same_domain cur i))"
| "refersToCrossDomainInternal (TyPointer t) cur = refersToCrossDomainInternal t cur"
| "refersToCrossDomainInternal (TySlice t) cur = refersToCrossDomainInternal t cur"
| "refersToCrossDomainInternal (TyArray t) cur = refersToCrossDomainInternal t cur"
| "refersToCrossDomainInternal (TyMap k t) cur =
     out_bind (refersToCrossDomainInternal k cur)
       (\<lambda>b. if b then Ret True else refersToCrossDomainInternal t cur)"
| "refersToCrossDomainInternal (TyChan t) cur = refersToCrossDomainInternal t cur"
| "refersToCrossDomainInternal (TyElem t) cur = refersToCrossDomainInternal t cur"
| "refersToCrossDomainInternal TyOther cur = Ret False"

definition checkTypeExpr :: "PkgInfo \<Rightarrow> string \<Rightarrow> field_decl \<Rightarrow> diagnostic list outcome" where
  "checkTypeExpr cur contextName f =
     (case fe_Type f of
        None \<Rightarrow> Ret []
      | Some t \<Rightarrow>
          out_bind (refersToCrossDomainInternal t cur)
            (\<lambda>b. Ret (if b
               then [(fe_Pos f, ''dddpublicleak: type in '' @ quoted contextName @
                        '' references internal domain package from another domain; '' @
                        ''use scalar fields and map domain objects to Result types in handler'')]
               else [])))"

fun check_fields :: "PkgInfo \<Rightarrow> string \<Rightarrow> field_decl list \<Rightarrow> diagnostic list outcome" where
  "check_fields cur contextName [] = Ret []"
| "check_fields cur contextName (f # fs) =
     out_bind (checkTypeExpr cur contextName f)
       (\<lambda>d1. out_bind (check_fields cur contextName fs) (\<lambda>d2. Ret (d1 @ d2)))"

fun publicleak_decls :: "PkgInfo \<Rightarrow> public_decl list \<Rightarrow> diagnostic list outcome" where
  "publicleak_decls cur [] = Ret []"
| "publicleak_decls cur (d # ds) =
     out_bind (case d of
          PTypeSpec p name flds \<Rightarrow>
            if \<not> exported_name name then Ret []
            else (case flds of None \<Rightarrow> Ret [] | Some fs \<Rightarrow> check_fields cur name fs)
        | PFuncDecl name params results \<Rightarrow>
            if \<not> exported_name name then Ret [] else check_fields cur name (params @ results))
       (\<lambda>d1. out_bind (publicleak_decls cur ds) (\<lambda>d2. Ret (d1 @ d2)))"

definition publicleak_run :: "decl_pass \<Rightarrow> diagnostic list outcome" where
  "publicleak_run ps =
     out_bind (ParsePkgPath (dp_path ps))
       (\<lambda>info. case info of
          None \<Rightarrow> Ret []
        | Some cur \<Rightarrow> if pk_Kind cur \<noteq> KindPublic then Ret [] else publicleak_decls cur (dp_decls ps))"

subsection \<open>agentcreate\<close>

text \<open>A selector of the package: its position, its name, and the base name of its file.\<close>

definition isWhitelisted :: "string \<Rightarrow> string \<Rightarrow> bool" where
  "isWhitelisted pkgPath filename \<longleftrightarrow>
     str_contains pkgPath ''/ddd/agent/command'' \<or> str_contains pkgPath ''/cmd/server'' \<or>
     filename = ''pool_dispatcher.go'' \<or> filename = ''sample_provider.go'' \<or> has_suffix filename ''_test.go''"

definition agentcreate_run :: "string \<Rightarrow> (nat \<times> string \<times> string) list \<Rightarrow> diagnostic list" where
  "agentcreate_run path selectors =
     concat (map (\<lambda>(p, name, filename).
       if name \<noteq> ''CreatePendingAgentCommand'' \<and> name \<noteq> ''CreatePendingAgentResult'' then []
       else if isWhitelisted path filename then []
       else [(p, ''dddagentcreate: CreatePendingAgentCommand must only be called from '' @
                 ''PoolDispatcher.dispatchSlot(); use EnqueueSlotCommand instead'')]) selectors)"

subsection \<open>eventpublish\<close>

text \<open>
  A type as this analyzer sees it: a named type by its name, whether it has a package, its methods and, if
  its underlying type is an interface, that interface's methods; an interface literal by its numbers of
  methods and embedded types; a pointer to a type; any other by its text.
\<close>

datatype pub_type =
    PubNamed string bool "string list" "string list option"
  | PubInterface nat nat
  | PubPointer pub_type
  | PubOther string

text \<open>
  An expression statement that is a call: the position, the text of the operand if it is an identifier, the
  selected name (None if the function is no selector), the signature's results (None if the function's
  type is no signature) and its receiver.
\<close>

record publish_stmt =
  pb_Pos :: nat
  pb_Ident :: "string option"
  pb_Sel :: "string option"
  pb_Results :: "pub_type list option"
  pb_Recv :: "pub_type option"

fun isErrorType :: "pub_type \<Rightarrow> bool" where
  "isErrorType (PubNamed name has_pkg ms iface) = (name = ''error'' \<and> \<not> has_pkg)"
| "isErrorType (PubInterface n k) = (n = 1 \<and> k = 0)"
| "isErrorType (PubPointer t) = False"
| "isErrorType (PubOther s) = (s = ''error'')"

text \<open>A pointer receiver is no named type, so it is refused before the code that looks for pointers.\<close>

definition implementsEventBus :: "pub_type option \<Rightarrow> bool" where
  "implementsEventBus recv =
     (case recv of
        Some (PubNamed name has_pkg ms iface) \<Rightarrow>
          if ''Publish'' \<in> set ms then name = ''EventBus''
          else (case iface of
                  Some ims \<Rightarrow> ''Publish'' \<in> set ims \<or> name = ''EventBus''
                | None \<Rightarrow> name = ''EventBus'')
      | _ \<Rightarrow> False)"

definition isPublishCall :: "publish_stmt \<Rightarrow> bool" where
  "isPublishCall st =
     (case pb_Sel st of
        None \<Rightarrow> False
      | Some name \<Rightarrow>
          if name \<noteq> ''Publish'' \<and> name \<noteq> ''PublishEvent'' then False
          else (case pb_Results st of
                  None \<Rightarrow> False
                | Some results \<Rightarrow>
                    if results = [] then False
                    else if \<not> isErrorType (last results) then False
                    else if name = ''PublishEvent'' then True
                    else implementsEventBus (pb_Recv st)))"

definition callStr :: "publish_stmt \<Rightarrow> string" where
  "callStr st =
     (case pb_Sel st of
        None \<Rightarrow> ''function(...)''
      | Some sel \<Rightarrow> (case pb_Ident st of Some i \<Rightarrow> i @ ''.'' @ sel @ ''(...)'' | None \<Rightarrow> sel @ ''(...)''))"

definition eventpublish_run :: "publish_stmt list \<Rightarrow> diagnostic list" where
  "eventpublish_run stmts =
     concat (map (\<lambda>st. if isPublishCall st
       then [(pb_Pos st, ''dddeventpublish: return value of '' @ callStr st @ '' '' @
                ''is not checked; event publish errors must be propagated, not silently discarded'')]
       else []) stmts)"

subsection \<open>infraimplement\<close>

text \<open>
  The package: its path, the imported packages with the names of their scopes, where an interface has its
  methods, the struct declarations with whether the scope has them, and the methods declared in the files
  (the receiver's type as a name if it is one, a pointer or not, and the method's name).
  \<open>implements\<close> is \<open>types.Implements\<close> of a pointer to a struct and an interface.
\<close>

record infra_pass =
  nf_path :: string
  nf_imports :: "(string \<times> (string \<times> string list option) list) list"
  nf_structs :: "(nat \<times> string \<times> bool) list"
  nf_methods :: "(string option \<times> string) list"

record repoInterface =
  ri_Name :: string
  ri_Methods :: "string list"
  ri_PkgPath :: string

definition isInfraPackage :: "string \<Rightarrow> bool" where
  "isInfraPackage subPkg \<longleftrightarrow> has_prefix subPkg ''infra''"

fun findRepositoryInterfaces :: "PkgInfo \<Rightarrow> (string \<times> (string \<times> string list option) list) list \<Rightarrow> repoInterface list outcome" where
  "findRepositoryInterfaces cur [] = Ret []"
| "findRepositoryInterfaces cur ((path, scope) # imps) =
     out_bind (ParsePkgPath path)
       (\<lambda>info. out_bind (findRepositoryInterfaces cur imps)
          (\<lambda>rest. Ret ((case info of
             None \<Rightarrow> []
           | Some i \<Rightarrow>
               if pk_Kind i \<noteq> KindInternal \<or> pk_SubPkg i \<noteq> ''repository'' then []
               else if \<not> same_domain cur i then []
               else concat (map (\<lambda>(name, ms). case ms of
                      None \<Rightarrow> []
                    | Some methods \<Rightarrow> [\<lparr>ri_Name = name, ri_Methods = methods, ri_PkgPath = path\<rparr>]) scope)) @ rest)))"

definition hasMethod :: "infra_pass \<Rightarrow> string \<Rightarrow> string \<Rightarrow> bool" where
  "hasMethod ps structName methodName = list_ex (\<lambda>(recv, name). recv = Some structName \<and> name = methodName) (nf_methods ps)"

definition checkImplementation ::
    "(string \<Rightarrow> repoInterface \<Rightarrow> bool) \<Rightarrow> infra_pass \<Rightarrow> repoInterface \<Rightarrow> diagnostic list" where
  "checkImplementation implements ps iface =
     concat (map (\<lambda>(p, structName, known).
       if \<not> known then []
       else if \<not> implements structName iface then []
       else concat (map (\<lambda>methodName.
              if hasMethod ps structName methodName then []
              else [(p, ''dddinfraimplement: struct '' @ quoted structName @ '' does not implement method '' @
                        quoted methodName @ '' from interface '' @ quoted (ri_Name iface))]) (ri_Methods iface)))
       (nf_structs ps))"

definition infraimplement_run :: "(string \<Rightarrow> repoInterface \<Rightarrow> bool) \<Rightarrow> infra_pass \<Rightarrow> diagnostic list outcome" where
  "infraimplement_run implements ps =
     out_bind (ParsePkgPath (nf_path ps))
       (\<lambda>info. case info of
          None \<Rightarrow> Ret []
        | Some currentInfo \<Rightarrow>
            if \<not> isInfraPackage (pk_SubPkg currentInfo) then Ret []
            else out_bind (findRepositoryInterfaces currentInfo (nf_imports ps))
                   (\<lambda>ifaces. Ret (concat (map (checkImplementation implements ps) ifaces))))"

subsection \<open>What the rules report\<close>

text \<open>The named types a type is made of, as far as element types reach.\<close>

inductive made_of :: "lint_type \<Rightarrow> string option \<Rightarrow> bool" where
  named: "made_of (TyNamed pkg) pkg"
| pointer: "made_of t pkg \<Longrightarrow> made_of (TyPointer t) pkg"
| slice: "made_of t pkg \<Longrightarrow> made_of (TySlice t) pkg"
| array: "made_of t pkg \<Longrightarrow> made_of (TyArray t) pkg"
| map_key: "made_of k pkg \<Longrightarrow> made_of (TyMap k t) pkg"
| map_elem: "made_of t pkg \<Longrightarrow> made_of (TyMap k t) pkg"
| chan: "made_of t pkg \<Longrightarrow> made_of (TyChan t) pkg"
| elem: "made_of t pkg \<Longrightarrow> made_of (TyElem t) pkg"

inductive_simps made_of_simps [simp]:
  "made_of (TyNamed p) pkg" "made_of (TyPointer t) pkg" "made_of (TySlice t) pkg" "made_of (TyArray t) pkg"
  "made_of (TyMap k t) pkg" "made_of (TyChan t) pkg" "made_of (TyElem t) pkg" "made_of TyOther pkg"

text \<open>
  The leak rule finds exactly the types that are made of a type from another domain's internal packages,
  through pointers, slices, arrays, maps and channels of any depth.
\<close>

theorem publicleak_exact:
  assumes "\<And>p. made_of t (Some p) \<Longrightarrow> \<not> has_prefix p ''ddd/''"
  shows "\<exists>b. refersToCrossDomainInternal t cur = Ret b \<and> (b \<longleftrightarrow> (\<exists>p. made_of t (Some p) \<and> foreign_internal cur p))"
  using assms
proof (induction t)
  case (TyNamed pkg)
  then show ?case by (cases pkg) (auto simp: parse_no_panic foreign_internal_def split: option.split)
next
  case (TyMap k t)
  have "\<exists>b. refersToCrossDomainInternal k cur = Ret b \<and> (b \<longleftrightarrow> (\<exists>p. made_of k (Some p) \<and> foreign_internal cur p))"
    using TyMap.prems by (intro TyMap.IH(1)) simp
  then obtain b1 where k: "refersToCrossDomainInternal k cur = Ret b1" "b1 \<longleftrightarrow> (\<exists>p. made_of k (Some p) \<and> foreign_internal cur p)"
    by blast
  have "\<exists>b. refersToCrossDomainInternal t cur = Ret b \<and> (b \<longleftrightarrow> (\<exists>p. made_of t (Some p) \<and> foreign_internal cur p))"
    using TyMap.prems by (intro TyMap.IH(2)) simp
  then obtain b2 where t: "refersToCrossDomainInternal t cur = Ret b2" "b2 \<longleftrightarrow> (\<exists>p. made_of t (Some p) \<and> foreign_internal cur p)"
    by blast
  have "refersToCrossDomainInternal (TyMap k t) cur = Ret (b1 \<or> b2)" by (cases b1) (simp_all add: k(1) t(1))
  then show ?case using k(2) t(2) by (intro exI [of _ "b1 \<or> b2"]) auto
qed auto

text \<open>
  The infrastructure rule reports only what it should accept.  It looks for missing methods in structs that
  already implement the interface: every struct it says does not implement a method does implement the
  interface (the method is promoted from an embedded type), and one that does not is never reported.
\<close>

theorem infra_reports_implementers:
  assumes "infraimplement_run implements ps = Ret ds" and "(p, msg) \<in> set ds"
  shows "\<exists>structName iface m. (p, structName, True) \<in> set (nf_structs ps) \<and> implements structName iface \<and>
    m \<in> set (ri_Methods iface) \<and> \<not> hasMethod ps structName m \<and>
    msg = ''dddinfraimplement: struct '' @ quoted structName @ '' does not implement method '' @ quoted m @
      '' from interface '' @ quoted (ri_Name iface)"
proof -
  obtain info where "ParsePkgPath (nf_path ps) = Ret info"
    using assms(1) by (cases "ParsePkgPath (nf_path ps)") (auto simp: infraimplement_run_def)
  then obtain ifaces where "ds = concat (map (checkImplementation implements ps) ifaces)"
    using assms by (auto simp: infraimplement_run_def out_bind_eq_Ret split: option.splits if_splits)
  then obtain iface where "(p, msg) \<in> set (checkImplementation implements ps iface)" using assms(2) by auto
  then show ?thesis by (auto simp: checkImplementation_def split: if_splits)
qed

text \<open>
  The field rule counts declarations, not fields: a command with any number of fields of one type passes if
  they are declared together.
\<close>

theorem grouped_fields_pass:
  assumes "1 \<le> maxFields" and "names \<noteq> []"
  shows "countFields (map (\<lambda>n. \<lparr>fe_Names = [n], fe_Pos = p, fe_Type = ty\<rparr>) names) = int (length names) \<and>
    countFields [\<lparr>fe_Names = names, fe_Pos = p, fe_Type = ty\<rparr>] = 1 \<and>
    fieldcount_decl maxFields pkgInfo (PTypeSpec q typeName (Some [\<lparr>fe_Names = names, fe_Pos = p, fe_Type = ty\<rparr>])) = []"
proof -
  have "countFields (map (\<lambda>n. \<lparr>fe_Names = [n], fe_Pos = p, fe_Type = ty\<rparr>) names) = int (length names)"
    by (induction names) simp_all
  then show ?thesis using assms by (simp add: fieldcount_decl_def Let_def)
qed

text \<open>
  A discarded error of \<open>Publish\<close> is missed when the method's receiver is a pointer, as that of the framework's
  own event bus is.
\<close>

theorem pointer_publish_missed:
  assumes "pb_Sel st = Some ''Publish''" and "pb_Recv st = Some (PubPointer t)"
  shows "eventpublish_run [st] = []"
  using assms by (simp add: eventpublish_run_def isPublishCall_def implementsEventBus_def split: option.split)

subsection \<open>Witnesses\<close>

definition sample_cur :: PkgInfo where
  "sample_cur = \<lparr>pk_DDDPrefix = ''x/shop'', pk_ModuleName = ''shop'', pk_DomainName = ''order'', pk_SubPkg = ''command'', pk_Kind = KindPublic\<rparr>"

lemma sample_stock_info:
  "ParsePkgPath ''x/shop/ddd/stock/domain'' =
     Ret (Some \<lparr>pk_DDDPrefix = ''x/shop'', pk_ModuleName = ''shop'', pk_DomainName = ''stock'', pk_SubPkg = ''domain'', pk_Kind = KindInternal\<rparr>)"
  using ParsePkgPath_segs [of "[''x'']" "''shop''" "''stock''" "[''domain'']"]
  by (simp add: segs_ok_def path_of_def classifySubPkg_def str_index_slash)

theorem publicleak_exact_witness:
  "refersToCrossDomainInternal (TyMap TyOther (TySlice (TyPointer (TyNamed (Some ''x/shop/ddd/stock/domain''))))) sample_cur = Ret True"
proof -
  let ?t = "TyMap TyOther (TySlice (TyPointer (TyNamed (Some ''x/shop/ddd/stock/domain''))))"
  have made: "made_of ?t (Some p) \<longleftrightarrow> p = ''x/shop/ddd/stock/domain''" for p by auto
  then have np: "\<not> has_prefix p ''ddd/''" if "made_of ?t (Some p)" for p
    using that by (simp add: has_prefix_def)
  have "foreign_internal sample_cur ''x/shop/ddd/stock/domain''"
    by (simp add: foreign_internal_def info_of_def sample_stock_info sample_cur_def same_domain_def)
  then have "\<exists>p. made_of ?t (Some p) \<and> foreign_internal sample_cur p" unfolding made by blast
  moreover obtain b where "refersToCrossDomainInternal ?t sample_cur = Ret b"
      "b \<longleftrightarrow> (\<exists>p. made_of ?t (Some p) \<and> foreign_internal sample_cur p)"
    using publicleak_exact [of ?t sample_cur, OF np] by blast
  ultimately show ?thesis by (simp only:)
qed

text \<open>A repository that embeds its implementation: it implements the interface, and is reported.\<close>

definition sample_infra :: infra_pass where
  "sample_infra = \<lparr>nf_path = ''x/shop/ddd/order/infra'',
     nf_imports = [(''x/shop/ddd/order/repository'', [(''OrderRepository'', Some [''Save''])])],
     nf_structs = [(4, ''PgOrderRepository'', True)], nf_methods = []\<rparr>"

theorem infra_reports_implementers_witness:
  "\<exists>ds p msg structName. infraimplement_run (\<lambda>s i. s = ''PgOrderRepository'') sample_infra = Ret ds \<and> (p, msg) \<in> set ds \<and>
     (p, structName, True) \<in> set (nf_structs sample_infra) \<and> structName = ''PgOrderRepository''"
proof -
  have i: "ParsePkgPath (nf_path sample_infra) = Ret (Some \<lparr>pk_DDDPrefix = ''x/shop'', pk_ModuleName = ''shop'',
      pk_DomainName = ''order'', pk_SubPkg = ''infra'', pk_Kind = KindOther\<rparr>)"
    "ParsePkgPath ''x/shop/ddd/order/repository'' = Ret (Some \<lparr>pk_DDDPrefix = ''x/shop'', pk_ModuleName = ''shop'',
      pk_DomainName = ''order'', pk_SubPkg = ''repository'', pk_Kind = KindInternal\<rparr>)"
    using ParsePkgPath_segs [of "[''x'']" "''shop''" "''order''" "[''infra'']"]
      ParsePkgPath_segs [of "[''x'']" "''shop''" "''order''" "[''repository'']"]
    by (simp_all add: segs_ok_def path_of_def sample_infra_def classifySubPkg_def str_index_slash)
  have "\<exists>msg. infraimplement_run (\<lambda>s i. s = ''PgOrderRepository'') sample_infra = Ret [(4, msg)]"
    by (simp add: infraimplement_run_def i(1) isInfraPackage_def has_prefix_def)
      (simp add: sample_infra_def i(2) same_domain_def checkImplementation_def hasMethod_def)
  then obtain msg where r: "infraimplement_run (\<lambda>s i. s = ''PgOrderRepository'') sample_infra = Ret [(4, msg)]" by blast
  from infra_reports_implementers [OF r, of 4 msg]
  obtain structName where "(4, structName, True) \<in> set (nf_structs sample_infra)" "structName = ''PgOrderRepository''" by auto
  with r show ?thesis by (intro exI [of _ "[(4, msg)]"] exI [of _ 4] exI [of _ msg] exI [of _ structName]) simp
qed

theorem grouped_fields_pass_witness:
  "fieldcount_decl 5 sample_cur (PTypeSpec 1 ''PlaceOrderCommand''
     (Some [\<lparr>fe_Names = [''A'', ''B'', ''C'', ''D'', ''E'', ''F''], fe_Pos = 2, fe_Type = None\<rparr>])) = []"
  using grouped_fields_pass [of 5 "[''A'', ''B'', ''C'', ''D'', ''E'', ''F'']" 2 None sample_cur 1 "''PlaceOrderCommand''"] by simp

theorem pointer_publish_missed_witness:
  "eventpublish_run [\<lparr>pb_Pos = 1, pb_Ident = Some ''bus'', pb_Sel = Some ''Publish'',
     pb_Results = Some [PubNamed ''error'' False [] (Some [''Error''])], pb_Recv = Some (PubPointer (PubNamed ''EventBus'' True [''Publish''] None))\<rparr>] = []"
  by (rule pointer_publish_missed) simp_all

end
