(* ===== verification/LintMain.thy ===== *)
theory LintMain
  imports LintTypes GoErrors
begin

text \<open>
  The lint command: the list of analyzers of \<open>lint/analyzer.go\<close>, the one of \<open>lint/cmd/ddd-lint/main.go\<close>, and what the
  command prints before it runs them.  Analyzers are their packages' names; loading packages is an argument.
\<close>

definition AllAnalyzers :: "string list" where
  "AllAnalyzers =
     [''agentcreate'', ''crossdomain'', ''crossmodule'', ''publicleak'', ''implimport'', ''eventimmutable'', ''eventpublish'',
      ''fieldaccess'', ''fieldcount'', ''wirecomplexity'', ''wireimport'', ''wirelogic'', ''infraimplement'']"

definition command_analyzers :: "string list" where
  "command_analyzers =
     [''crossdomain'', ''crossmodule'', ''publicleak'', ''implimport'', ''eventimmutable'', ''eventpublish'',
      ''fieldaccess'', ''wirecomplexity'', ''wireimport'', ''wirelogic'', ''infraimplement'']"

lemma command_omits: "set AllAnalyzers - set command_analyzers = {''agentcreate'', ''fieldcount''}"
  by (simp add: AllAnalyzers_def command_analyzers_def insert_Diff_if)

record loaded_package =
  lp_PkgPath :: string
  lp_GoFiles :: "string list"

text \<open>The loop over the packages: the directories seen, and the number of files.\<close>

definition collect_packages :: "loaded_package list \<Rightarrow> (string, bool) gomap \<times> int" where
  "collect_packages pkgs = foldl (\<lambda>(dirSet, fileCount) p.
     if lp_PkgPath p = [] then (dirSet, fileCount)
     else if gm_get dirSet (lp_PkgPath p) \<noteq> Some True
     then (gm_put dirSet (lp_PkgPath p) True, fileCount + int (length (lp_GoFiles p)))
     else (dirSet, fileCount)) ([], 0) pkgs"

text \<open>
  What the command does: without patterns it runs the analyzers at once; when loading fails it ends with
  status 1; else it prints the directories and the number of files first.
\<close>

datatype lint_start = RunNow | LoadFailed string | RunAfterSummary "string list" int

definition lint_main :: "(string list \<Rightarrow> go_error + loaded_package list) \<Rightarrow> string list \<Rightarrow> lint_start" where
  "lint_main load args =
     (if length args = 0 then RunNow
      else (case load args of
              Inl err \<Rightarrow> LoadFailed (''ddd-lint: error loading packages: '' @ error_text err)
            | Inr pkgs \<Rightarrow>
                (let (dirSet, fileCount) = collect_packages pkgs
                 in RunAfterSummary (sort_slice (\<lambda>d. d) (map fst dirSet)) fileCount)))"

text \<open>The first package of a path.\<close>

fun first_of_each :: "loaded_package list \<Rightarrow> string list \<Rightarrow> loaded_package list" where
  "first_of_each [] seen = []"
| "first_of_each (p # ps) seen =
     (if lp_PkgPath p = [] \<or> lp_PkgPath p \<in> set seen then first_of_each ps seen
      else p # first_of_each ps (lp_PkgPath p # seen))"

lemma first_of_each_seen: "set s1 = set s2 \<Longrightarrow> first_of_each ps s1 = first_of_each ps s2"
proof (induction ps arbitrary: s1 s2)
  case (Cons p ps)
  show ?case using Cons.IH [of s1 s2] Cons.IH [of "lp_PkgPath p # s1" "lp_PkgPath p # s2"] Cons.prems by simp
qed simp

lemma collect_from:
  assumes "gm_ok d" and "\<forall>x\<in>set d. snd x = True"
  shows "case foldl (\<lambda>(dirSet, fileCount) p.
     if lp_PkgPath p = [] then (dirSet, fileCount)
     else if gm_get dirSet (lp_PkgPath p) \<noteq> Some True
     then (gm_put dirSet (lp_PkgPath p) True, fileCount + int (length (lp_GoFiles p)))
     else (dirSet, fileCount)) (d, n) pkgs of (d1, n1) \<Rightarrow>
       gm_ok d1 \<and> fst ` set d1 = fst ` set d \<union> (lp_PkgPath ` set pkgs - {[]}) \<and>
       n1 = n + int (sum_list (map (\<lambda>p. length (lp_GoFiles p)) (first_of_each pkgs (map fst d))))"
  using assms
proof (induction pkgs arbitrary: d n)
  case (Cons p ps)
  have seen: "gm_get d (lp_PkgPath p) = Some True \<longleftrightarrow> lp_PkgPath p \<in> fst ` set d"
    using Cons.prems gm_get_iff [OF Cons.prems(1)] by force
  show ?case
  proof (cases "lp_PkgPath p = [] \<or> lp_PkgPath p \<in> fst ` set d")
    case True
    then show ?thesis using Cons.IH [OF Cons.prems, of n] seen by (auto split: prod.splits)
  next
    case False
    let ?d = "gm_put d (lp_PkgPath p) True"
    have keys: "fst ` set ?d = insert (lp_PkgPath p) (fst ` set d)" by (rule gm_keys_put)
    have "\<forall>x\<in>set ?d. snd x = True" using Cons.prems(2) gm_put_subset [of d "lp_PkgPath p" True] by fastforce
    note IH = Cons.IH [OF gm_ok_put [OF Cons.prems(1)] this, of "n + int (length (lp_GoFiles p))"]
    have same: "first_of_each ps (map fst ?d) = first_of_each ps (lp_PkgPath p # map fst d)"
      by (rule first_of_each_seen) (use keys in simp)
    show ?thesis using IH False seen by (auto simp: keys same split: prod.splits)
  qed
qed simp

text \<open>
  The summary lists the directories of the packages, sorted and each once, and counts the files of
  the first package of each.
\<close>

theorem lint_summary_exact:
  assumes "load args = Inr pkgs" and "args \<noteq> []"
  shows "\<exists>dirs n. lint_main load args = RunAfterSummary dirs n \<and> sorted dirs \<and> distinct dirs \<and> set dirs = lp_PkgPath ` set pkgs - {[]} \<and>
    n = int (sum_list (map (\<lambda>p. length (lp_GoFiles p)) (first_of_each pkgs [])))"
proof -
  obtain d n where d: "collect_packages pkgs = (d, n)" by (metis surj_pair)
  have facts: "gm_ok d" "fst ` set d = lp_PkgPath ` set pkgs - {[]}"
      "n = int (sum_list (map (\<lambda>p. length (lp_GoFiles p)) (first_of_each pkgs [])))"
    using collect_from [where d = "[]" and n = 0 and pkgs = pkgs] d by (simp_all add: collect_packages_def)
  have "distinct (sort_slice (\<lambda>d. d) (map fst d))"
    using facts(1) mset_eq_imp_distinct_iff [OF sort_slice_mset [of "\<lambda>d. d" "map fst d"]] by (simp add: gm_ok_def)
  moreover have "sorted (sort_slice (\<lambda>d. d) (map fst d))" using sort_slice_sorted [of "\<lambda>d. d" "map fst d"] by simp
  moreover have "set (sort_slice (\<lambda>d. d) (map fst d)) = fst ` set d" by (simp add: sort_slice_set)
  ultimately show ?thesis using assms d facts by (simp add: lint_main_def)
qed

theorem lint_summary_exact_witness:
  "lint_main (\<lambda>args. Inr [\<lparr>lp_PkgPath = ''b'', lp_GoFiles = [''x.go'']\<rparr>, \<lparr>lp_PkgPath = ''b'', lp_GoFiles = [''x.go'', ''x_test.go'']\<rparr>]) [''./...''] =
     RunAfterSummary [''b''] 1"
proof -
  let ?load = "\<lambda>args :: string list. Inr [\<lparr>lp_PkgPath = ''b'', lp_GoFiles = [''x.go'']\<rparr>, \<lparr>lp_PkgPath = ''b'', lp_GoFiles = [''x.go'', ''x_test.go'']\<rparr>]"
  obtain dirs n where "lint_main ?load [''./...''] = RunAfterSummary dirs n" "distinct dirs" "set dirs = {''b''}" "n = 1"
    using lint_summary_exact [of ?load "[''./...'']"] by auto
  moreover from this have "length dirs = 1" using distinct_card [of dirs] by simp
  then have "dirs = [''b'']" using \<open>set dirs = {''b''}\<close> by (cases dirs) auto
  ultimately show ?thesis by simp
qed

end
