(* ===== verification/StatsModel.thy ===== *)
theory StatsModel
  imports BuiltinAspects
begin

text \<open>
  The statistics of operations, \<open>observability/stats.go\<close>, and the composition of metrics recorders,
  \<open>observability/compose.go\<close>.  The collector is a metrics recorder; what \<open>time.Now()\<close> says at a call is an
  argument of the call.
\<close>

record durationRecord =
  dr_dur :: duration
  dr_time :: time

record operationRecord =
  oc_name :: string
  oc_opType :: string
  oc_count :: int
  oc_errorCount :: int
  oc_durations :: "durationRecord list"
  oc_lastError :: string
  oc_lastAt :: time

record StatsCollector =
  sc_records :: "(string, operationRecord) gomap"
  sc_windowSec :: int

record OperationStats =
  st_Name :: string
  st_Type :: string
  st_Count :: int
  st_ErrorCount :: int
  st_AvgDuration :: duration
  st_MaxDuration :: duration
  st_MinDuration :: duration
  st_P50Duration :: duration
  st_P99Duration :: duration
  st_LastError :: string
  st_LastAt :: time

definition defaultWindowSize :: int where
  "defaultWindowSize = 3600"

text \<open>The options: each is a window in seconds, \<open>WithWindowSeconds\<close>.\<close>

definition NewStatsCollector :: "int list \<Rightarrow> StatsCollector" where
  "NewStatsCollector opts = foldl (\<lambda>s sec. s\<lparr>sc_windowSec := sec\<rparr>) \<lparr>sc_records = [], sc_windowSec = defaultWindowSize\<rparr> opts"

definition classifyOpType :: "string \<Rightarrow> string" where
  "classifyOpType name =
     (if length name \<ge> 7 \<and> take 7 name = ''Command'' then ''command''
      else if length name \<ge> 5 \<and> take 5 name = ''Query'' then ''query''
      else if length name \<ge> 5 \<and> take 5 name = ''Event'' then ''event''
      else ''unknown'')"

text \<open>The window, negated, in nanoseconds; the index loop of \<open>evict\<close> drops the durations before the cutoff from the front.\<close>

definition window_ns :: "StatsCollector \<Rightarrow> duration" where
  "window_ns s = wrap64 (wrap64 (- sc_windowSec s) * 1000000000)"

definition stats_evict :: "StatsCollector \<Rightarrow> time \<Rightarrow> operationRecord \<Rightarrow> operationRecord" where
  "stats_evict s now rec =
     (let cutoff = now + window_ns s
      in rec\<lparr>oc_durations := dropWhile (\<lambda>d. dr_time d < cutoff) (oc_durations rec)\<rparr>)"

definition new_record :: "string \<Rightarrow> operationRecord" where
  "new_record name = \<lparr>oc_name = name, oc_opType = classifyOpType name, oc_count = 0, oc_errorCount = 0,
     oc_durations = [], oc_lastError = [], oc_lastAt = time_zero\<rparr>"

definition stats_RecordDuration :: "time \<Rightarrow> string \<Rightarrow> duration \<Rightarrow> StatsCollector \<Rightarrow> StatsCollector" where
  "stats_RecordDuration now name d s =
     (let rec = gm_or (sc_records s) name (new_record name);
          rec1 = rec\<lparr>oc_count := wrap64 (oc_count rec + 1),
                     oc_durations := oc_durations rec @ [\<lparr>dr_dur = d, dr_time = now\<rparr>],
                     oc_lastAt := now\<rparr>
      in s\<lparr>sc_records := gm_put (sc_records s) name (stats_evict s now rec1)\<rparr>)"

definition stats_RecordError :: "time \<Rightarrow> string \<Rightarrow> go_error option \<Rightarrow> StatsCollector \<Rightarrow> StatsCollector" where
  "stats_RecordError now name err s =
     (let rec = gm_or (sc_records s) name (new_record name);
          rec1 = rec\<lparr>oc_errorCount := wrap64 (oc_errorCount rec + 1)\<rparr>;
          rec2 = (case err of None \<Rightarrow> rec1 | Some e \<Rightarrow> rec1\<lparr>oc_lastError := error_text e\<rparr>);
          rec3 = rec2\<lparr>oc_lastAt := now\<rparr>
      in s\<lparr>sc_records := gm_put (sc_records s) name (stats_evict s now rec3)\<rparr>)"

text \<open>The loop over the durations: total, least and greatest so far.\<close>

definition tally :: "durationRecord list \<Rightarrow> duration \<times> duration \<times> duration \<Rightarrow> duration \<times> duration \<times> duration" where
  "tally ds start = foldl (\<lambda>(total, lo, hi) d.
     (wrap64 (total + dr_dur d), if dr_dur d < lo then dr_dur d else lo, if dr_dur d > hi then dr_dur d else hi)) start ds"

definition buildStats :: "operationRecord \<Rightarrow> OperationStats" where
  "buildStats rec =
     (let stats = \<lparr>st_Name = oc_name rec, st_Type = oc_opType rec, st_Count = oc_count rec,
            st_ErrorCount = oc_errorCount rec, st_AvgDuration = 0, st_MaxDuration = 0, st_MinDuration = 0,
            st_P50Duration = 0, st_P99Duration = 0, st_LastError = oc_lastError rec, st_LastAt = oc_lastAt rec\<rparr>
      in if oc_durations rec = [] then stats
         else (let first = dr_dur (hd (oc_durations rec));
                   (total, lo, hi) = tally (oc_durations rec) (0, first, first);
                   durations = sort_slice (\<lambda>d. d) (map dr_dur (oc_durations rec));
                   n = length durations
               in stats\<lparr>st_MinDuration := lo, st_MaxDuration := hi, st_AvgDuration := go_div total (int n),
                        st_P50Duration := durations ! (n * 50 div 100),
                        st_P99Duration := durations ! (n * 99 div 100)\<rparr>))"

definition GetStats :: "StatsCollector \<Rightarrow> string \<Rightarrow> OperationStats option" where
  "GetStats s name = map_option buildStats (gm_get (sc_records s) name)"

definition GetAllStats :: "StatsCollector \<Rightarrow> OperationStats list" where
  "GetAllStats s = sort_slice st_Name (map (\<lambda>(name, rec). buildStats rec) (sc_records s))"

definition GetStatsByType :: "StatsCollector \<Rightarrow> string \<Rightarrow> OperationStats list" where
  "GetStatsByType s opType =
     sort_slice st_Name (map (\<lambda>(name, rec). buildStats rec) (filter (\<lambda>(name, rec). oc_opType rec = opType) (sc_records s)))"

subsection \<open>Recorders composed\<close>

definition ComposeMetrics :: "'s metrics_recorder list \<Rightarrow> 's metrics_recorder" where
  "ComposeMetrics recorders =
     \<lparr>mr_RecordDuration = (\<lambda>name d s. foldl (\<lambda>s r. mr_RecordDuration r name d s) s recorders),
      mr_RecordError = (\<lambda>name e s. foldl (\<lambda>s r. mr_RecordError r name e s) s recorders)\<rparr>"

text \<open>The collector as a recorder, in a world with a clock.\<close>

definition StatsRecorder :: "('w \<Rightarrow> time \<times> 'w) \<Rightarrow> (StatsCollector \<times> 'w) metrics_recorder" where
  "StatsRecorder clk =
     \<lparr>mr_RecordDuration = (\<lambda>name d (s, w). case clk w of (now, w1) \<Rightarrow> (stats_RecordDuration now name d s, w1)),
      mr_RecordError = (\<lambda>name e (s, w). case clk w of (now, w1) \<Rightarrow> (stats_RecordError now name (Some e) s, w1))\<rparr>"

text \<open>
  The example application's recorder (\<open>exampleapp/infrastructure/metrics.go\<close>), which keeps everything, and
  the recorder \<open>WireAppWithStore\<close> builds from the two; its lines on the standard log are left out.
\<close>

record AppMetricsRecorder =
  am_Durations :: "(string \<times> duration) list"
  am_Errors :: "(string \<times> go_error) list"

definition AppRecorder :: "(StatsCollector \<times> AppMetricsRecorder \<times> 'w) metrics_recorder" where
  "AppRecorder =
     \<lparr>mr_RecordDuration = (\<lambda>name d (s, a, w). (s, a\<lparr>am_Durations := am_Durations a @ [(name, d)]\<rparr>, w)),
      mr_RecordError = (\<lambda>name e (s, a, w). (s, a\<lparr>am_Errors := am_Errors a @ [(name, e)]\<rparr>, w))\<rparr>"

definition wired_clock :: "('w \<Rightarrow> time \<times> 'w) \<Rightarrow> AppMetricsRecorder \<times> 'w \<Rightarrow> time \<times> (AppMetricsRecorder \<times> 'w)" where
  "wired_clock clk = (\<lambda>(a, w). case clk w of (now, w1) \<Rightarrow> (now, (a, w1)))"

definition composedMetrics :: "('w \<Rightarrow> time \<times> 'w) \<Rightarrow> (StatsCollector \<times> AppMetricsRecorder \<times> 'w) metrics_recorder" where
  "composedMetrics clk = ComposeMetrics [StatsRecorder (wired_clock clk), AppRecorder]"

subsection \<open>A recorder that counts\<close>

text \<open>
  What the recorders share: they count the durations and the errors of each name, in 64 bits.  The
  collector forgets durations, so it is no \<open>recorder\<close>; every \<open>recorder\<close> counts.
\<close>

locale metrics_counter =
  fixes r :: "'s metrics_recorder"
    and cnt :: "'s \<Rightarrow> string \<Rightarrow> int"
    and errs :: "'s \<Rightarrow> string \<Rightarrow> int"
  assumes cnt_duration: "cnt (mr_RecordDuration r n d s) n' = (if n' = n then wrap64 (cnt s n' + 1) else cnt s n')"
    and cnt_error: "cnt (mr_RecordError r n e s) n' = cnt s n'"
    and errs_duration: "errs (mr_RecordDuration r n d s) n' = errs s n'"
    and errs_error: "errs (mr_RecordError r n e s) n' = (if n' = n then wrap64 (errs s n' + 1) else errs s n')"
begin

lemma after_counts:
  assumes "metrics_after r kind m err d s = (o1, s')"
  shows "o1 = Ret None \<and>
    cnt s' n = (if n = kind @ pct_T m then wrap64 (cnt s n + 1) else cnt s n) \<and>
    errs s' n = (if n = kind @ pct_T m \<and> err \<noteq> None then wrap64 (errs s n + 1) else errs s n)"
  using assms by (auto simp: metrics_after_def Let_def cnt_duration cnt_error errs_duration errs_error split: option.splits)

lemma layer_counts:
  assumes "aspect_layer (\<lambda>s. (now s, s)) m (the (as_command (MetricsAspect r))) inner ctx s = (Ret (res, err), s')"
  shows "\<exists>s2. inner ctx s = (Ret (res, err), s2) \<and> (Ret None, s') = metrics_after r ''Command/'' m err (now s2 - now s) s2 \<and>
    cnt s' n = (if n = ''Command/'' @ pct_T m then wrap64 (cnt s2 n + 1) else cnt s2 n) \<and>
    errs s' n = (if n = ''Command/'' @ pct_T m \<and> err \<noteq> None then wrap64 (errs s2 n + 1) else errs s2 n)"
proof -
  obtain s2 err2 ae where run: "inner ctx s = (Ret (res, err2), s2)"
    "metrics_after r ''Command/'' m err2 (now s2 - now s) s2 = (Ret ae, s')" "err = join_after err2 ae"
    using assms by (auto simp: aspect_layer_Ret MetricsAspect_def)
  from after_counts [OF run(2), of n] have a: "ae = None"
    "cnt s' n = (if n = ''Command/'' @ pct_T m then wrap64 (cnt s2 n + 1) else cnt s2 n)"
    "errs s' n = (if n = ''Command/'' @ pct_T m \<and> err2 \<noteq> None then wrap64 (errs s2 n + 1) else errs s2 n)"
    by simp_all
  with run(3) have "err = err2"
    by (simp add: join_after_def)
  with run(1,2) a show ?thesis by simp
qed

text \<open>Composed with recorders that leave its counts alone it still counts.\<close>

lemma composed_counts:
  assumes "\<And>q n d s. q \<in> set rs1 \<union> set rs2 \<Longrightarrow> cnt (mr_RecordDuration q n d s) = cnt s \<and> errs (mr_RecordDuration q n d s) = errs s"
    and "\<And>q n e s. q \<in> set rs1 \<union> set rs2 \<Longrightarrow> cnt (mr_RecordError q n e s) = cnt s \<and> errs (mr_RecordError q n e s) = errs s"
  shows "metrics_counter (ComposeMetrics (rs1 @ r # rs2)) cnt errs"
proof
  have d: "cnt (foldl (\<lambda>s r. mr_RecordDuration r n d s) s qs) = cnt s \<and> errs (foldl (\<lambda>s r. mr_RecordDuration r n d s) s qs) = errs s"
    if "set qs \<subseteq> set rs1 \<union> set rs2" for qs n d s
    using that assms(1) by (induction qs arbitrary: s) auto
  have e: "cnt (foldl (\<lambda>s r. mr_RecordError r n e s) s qs) = cnt s \<and> errs (foldl (\<lambda>s r. mr_RecordError r n e s) s qs) = errs s"
    if "set qs \<subseteq> set rs1 \<union> set rs2" for qs n e s
    using that assms(2) by (induction qs arbitrary: s) auto
  fix n n' d e s
  show "cnt (mr_RecordDuration (ComposeMetrics (rs1 @ r # rs2)) n d s) n' = (if n' = n then wrap64 (cnt s n' + 1) else cnt s n')"
    "errs (mr_RecordDuration (ComposeMetrics (rs1 @ r # rs2)) n d s) n' = errs s n'"
    using d [of rs1] d [of rs2] by (simp_all add: ComposeMetrics_def cnt_duration errs_duration)
  show "cnt (mr_RecordError (ComposeMetrics (rs1 @ r # rs2)) n e s) n' = cnt s n'"
    "errs (mr_RecordError (ComposeMetrics (rs1 @ r # rs2)) n e s) n' = (if n' = n then wrap64 (errs s n' + 1) else errs s n')"
    using e [of rs1] e [of rs2] by (simp_all add: ComposeMetrics_def cnt_error errs_error)
qed

end

sublocale recorder \<subseteq> counted: metrics_counter r "\<lambda>s n. wrap64 (int (length (durs s n)))" errs
  by unfold_locales (simp_all add: durs_duration durs_error errs_duration errs_error wrap64_add_right ac_simps)

definition stats_count :: "StatsCollector \<Rightarrow> string \<Rightarrow> int" where
  "stats_count s n = (case GetStats s n of None \<Rightarrow> 0 | Some st \<Rightarrow> st_Count st)"

definition stats_errors :: "StatsCollector \<Rightarrow> string \<Rightarrow> int" where
  "stats_errors s n = (case GetStats s n of None \<Rightarrow> 0 | Some st \<Rightarrow> st_ErrorCount st)"

lemma wrap64_0 [simp]: "wrap64 0 = 0"
  by (simp add: wrap64_def)

lemma buildStats_fields [simp]:
  "st_Name (buildStats rec) = oc_name rec" "st_Type (buildStats rec) = oc_opType rec" "st_Count (buildStats rec) = oc_count rec"
  "st_ErrorCount (buildStats rec) = oc_errorCount rec" "st_LastError (buildStats rec) = oc_lastError rec"
  "st_LastAt (buildStats rec) = oc_lastAt rec"
  by (simp_all add: buildStats_def Let_def split: prod.split)

lemmas stats_ops = stats_RecordDuration_def stats_RecordError_def stats_evict_def new_record_def

interpretation stats: metrics_counter "StatsRecorder clk" "\<lambda>(s, w). stats_count s" "\<lambda>(s, w). stats_errors s" for clk
  by unfold_locales
    (auto simp: StatsRecorder_def stats_count_def stats_errors_def GetStats_def stats_ops Let_def split: prod.splits option.splits)

interpretation wired: metrics_counter "composedMetrics clk" "\<lambda>(s, w). stats_count s" "\<lambda>(s, w). stats_errors s" for clk
  unfolding composedMetrics_def
  using stats.composed_counts [of "[]" "[AppRecorder]" "wired_clock clk"] by (auto simp: AppRecorder_def)

text \<open>
  Statistics of the wired application.  A command that runs inside the metrics aspect over the composed
  recorders, its result and error unchanged, adds one to the count of its name, one to the errors exactly if
  it failed, whose text is then the last error; a new name is typed as a command; the application's own
  recorder gets the duration and the error; and no other name's statistics change.
\<close>

theorem stats_of_commands:
  assumes "aspect_layer (\<lambda>s. (now s, s)) m (the (as_command (MetricsAspect (composedMetrics clk)))) inner ctx s0 =
      (Ret (res, err), (s', a', w'))"
  defines "name \<equiv> ''Command/'' @ type_text (type_of m)"
  shows "\<exists>s2 a2 w2 st. inner ctx s0 = (Ret (res, err), (s2, a2, w2)) \<and> GetStats s' name = Some st \<and>
    st_Count st = wrap64 (stats_count s2 name + 1) \<and>
    st_ErrorCount st = (if err = None then stats_errors s2 name else wrap64 (stats_errors s2 name + 1)) \<and>
    st_Type st = (case GetStats s2 name of None \<Rightarrow> ''command'' | Some st2 \<Rightarrow> st_Type st2) \<and>
    (case err of None \<Rightarrow> True | Some e \<Rightarrow> st_LastError st = error_text e) \<and>
    a' = \<lparr>am_Durations = am_Durations a2 @ [(name, now (s2, a2, w2) - now s0)],
          am_Errors = am_Errors a2 @ (case err of None \<Rightarrow> [] | Some e \<Rightarrow> [(name, e)])\<rparr> \<and>
    (\<forall>n. n \<noteq> name \<longrightarrow> GetStats s' n = GetStats s2 n)"
proof -
  obtain s2 a2 w2 where run: "inner ctx s0 = (Ret (res, err), (s2, a2, w2))"
    "(Ret None, (s', a', w')) = metrics_after (composedMetrics clk) ''Command/'' m err (now (s2, a2, w2) - now s0) (s2, a2, w2)"
    using wired.layer_counts [OF assms(1)] by (metis prod_cases3)
  have n: "name = ''Command/'' @ pct_T m" "classifyOpType name = ''command''"
    by (simp_all add: name_def pct_T_def classifyOpType_def)
  show ?thesis
    using run n
    by (intro exI [of _ s2] exI [of _ a2] exI [of _ w2] exI [of _ "the (GetStats s' name)"])
      (cases err; cases "gm_get (sc_records s2) name";
       auto simp: metrics_after_def composedMetrics_def ComposeMetrics_def StatsRecorder_def AppRecorder_def wired_clock_def
         stats_ops GetStats_def stats_count_def stats_errors_def Let_def split: prod.splits)
qed

text \<open>
  The order of the recorder's state is sampled at a command that fails in the new application.
\<close>

theorem stats_of_commands_witness:
  "\<exists>s' a' w' st. aspect_layer (\<lambda>s. (7, s)) (GAny (TNamed ''app'' ''Pay'') ())
      (the (as_command (MetricsAspect (composedMetrics (\<lambda>w. (w, w + 1))))))
      (\<lambda>ctx s. (Ret (RNil :: nat retval, Some ErrNotFound), s)) ctx_Background
      (NewStatsCollector [], \<lparr>am_Durations = [], am_Errors = []\<rparr>, 5 :: int) = (Ret (RNil, Some ErrNotFound), (s', a', w')) \<and>
    GetStats s' ''Command/app.Pay'' = Some st \<and> st_Count st = 1 \<and> st_ErrorCount st = 1 \<and>
    am_Errors a' = [(''Command/app.Pay'', ErrNotFound)]"
proof -
  let ?run = "aspect_layer (\<lambda>s. (7, s)) (GAny (TNamed ''app'' ''Pay'') ())
      (the (as_command (MetricsAspect (composedMetrics (\<lambda>w. (w, w + 1))))))
      (\<lambda>ctx s. (Ret (RNil :: nat retval, Some ErrNotFound), s)) ctx_Background
      (NewStatsCollector [], \<lparr>am_Durations = [], am_Errors = []\<rparr>, 5 :: int)"
  obtain s' a' w' where "snd ?run = (s', a', w')"
    by (rule prod_cases3)
  moreover have "fst ?run = Ret (RNil, Some ErrNotFound)"
    by (simp add: aspect_layer_def MetricsAspect_def metrics_after_def join_after_def Let_def)
  ultimately have run: "?run = (Ret (RNil, Some ErrNotFound), (s', a', w'))"
    by (simp only: prod_eq_iff fst_conv snd_conv simp_thms)
  have n: "''Command/'' @ type_text (type_of (GAny (TNamed ''app'' ''Pay'') ())) = ''Command/app.Pay''"
    by (simp add: type_text_def)
  from stats_of_commands [of "\<lambda>s. 7", OF run, unfolded n] run show ?thesis
    by (auto simp: stats_count_def stats_errors_def GetStats_def NewStatsCollector_def wrap64_def)
qed

subsection \<open>The window\<close>

datatype stats_op = SDuration string duration time | SError string "go_error option" time

fun stats_step :: "StatsCollector \<Rightarrow> stats_op \<Rightarrow> StatsCollector" where
  "stats_step s (SDuration n d now) = stats_RecordDuration now n d s"
| "stats_step s (SError n e now) = stats_RecordError now n e s"

fun sop_name :: "stats_op \<Rightarrow> string" where
  "sop_name (SDuration n d now) = n"
| "sop_name (SError n e now) = n"

fun sop_time :: "stats_op \<Rightarrow> time" where
  "sop_time (SDuration n d now) = now"
| "sop_time (SError n e now) = now"

definition sop_durations :: "stats_op list \<Rightarrow> durationRecord list" where
  "sop_durations ops = concat (map (\<lambda>x. case x of SDuration n d now \<Rightarrow> [\<lparr>dr_dur = d, dr_time = now\<rparr>] | _ \<Rightarrow> []) ops)"

definition sop_errors :: "stats_op list \<Rightarrow> go_error option list" where
  "sop_errors ops = concat (map (\<lambda>x. case x of SError n e now \<Rightarrow> [e] | _ \<Rightarrow> []) ops)"

text \<open>What the record of a name should be after its recordings: the durations within the window of the last one.\<close>

definition stats_spec :: "duration \<Rightarrow> string \<Rightarrow> stats_op list \<Rightarrow> operationRecord" where
  "stats_spec window name ops =
     \<lparr>oc_name = name, oc_opType = classifyOpType name,
      oc_count = wrap64 (int (length (sop_durations ops))),
      oc_errorCount = wrap64 (int (length (sop_errors ops))),
      oc_durations = filter (\<lambda>d. sop_time (last ops) - window \<le> dr_time d) (sop_durations ops),
      oc_lastError = (let es = concat (map (\<lambda>e. case e of None \<Rightarrow> [] | Some x \<Rightarrow> [x]) (sop_errors ops))
                      in if es = [] then [] else error_text (last es)),
      oc_lastAt = sop_time (last ops)\<rparr>"

lemma dropWhile_sorted:
  "sorted (map f xs) \<Longrightarrow> dropWhile (\<lambda>x. f x < (c :: int)) xs = filter (\<lambda>x. c \<le> f x) xs"
proof (induction xs)
  case (Cons x xs)
  then show ?case
    by (cases "f x < c") (auto intro!: filter_True [symmetric])
qed simp

lemma sop_snoc [simp]:
  "sop_durations (ops @ [x]) = sop_durations ops @ (case x of SDuration n d now \<Rightarrow> [\<lparr>dr_dur = d, dr_time = now\<rparr>] | _ \<Rightarrow> [])"
  "sop_errors (ops @ [x]) = sop_errors ops @ (case x of SError n e now \<Rightarrow> [e] | _ \<Rightarrow> [])"
  "sop_durations [] = []" "sop_errors [] = []"
  by (simp_all add: sop_durations_def sop_errors_def)

lemma sop_one [simp]:
  "sop_durations [SDuration n d now] = [\<lparr>dr_dur = d, dr_time = now\<rparr>]" "sop_durations [SError n e now] = []"
  "sop_errors [SDuration n d now] = []" "sop_errors [SError n e now] = [e]"
  by (simp_all add: sop_durations_def sop_errors_def)

lemma stats_step_records:
  "gm_get (sc_records (stats_step s x)) n =
     (if n = sop_name x
      then Some (let rec = gm_or (sc_records s) n (new_record n);
                     all = oc_durations rec @ sop_durations [x]
                 in rec\<lparr>oc_count := (if sop_durations [x] = [] then oc_count rec else wrap64 (oc_count rec + 1)),
                        oc_errorCount := (if sop_errors [x] = [] then oc_errorCount rec else wrap64 (oc_errorCount rec + 1)),
                        oc_durations := dropWhile (\<lambda>d. dr_time d < sop_time x + window_ns s) all,
                        oc_lastError := (case sop_errors [x] of [Some e] \<Rightarrow> error_text e | _ \<Rightarrow> oc_lastError rec),
                        oc_lastAt := sop_time x\<rparr>)
      else gm_get (sc_records s) n)"
  "sc_windowSec (stats_step s x) = sc_windowSec s"
  by (cases x; auto simp: stats_ops Let_def sop_durations_def sop_errors_def split: option.splits)+

lemma sop_times:
  "sorted (map sop_time ops) \<Longrightarrow>
     sorted (map dr_time (sop_durations ops)) \<and> set (map dr_time (sop_durations ops)) \<subseteq> set (map sop_time ops)"
  by (induction ops rule: rev_induct) (auto simp: sorted_append split: stats_op.splits)

lemma wrap64_Suc: "wrap64 (wrap64 (int k) + 1) = wrap64 (1 + int k)"
  using wrap64_add [of "int k" 1] by (simp add: add.commute)

lemma stats_spec_snoc:
  fixes m :: "stats_op list" and w :: duration and n :: string
  assumes srt: "sorted (map sop_time (m @ [x]))"
  defines "rec \<equiv> if m = [] then new_record n else stats_spec w n m"
  shows "rec\<lparr>oc_count := (if sop_durations [x] = [] then oc_count rec else wrap64 (oc_count rec + 1)),
             oc_errorCount := (if sop_errors [x] = [] then oc_errorCount rec else wrap64 (oc_errorCount rec + 1)),
             oc_durations := dropWhile (\<lambda>d. dr_time d < sop_time x + - w) (oc_durations rec @ sop_durations [x]),
             oc_lastError := (case sop_errors [x] of [Some e] \<Rightarrow> error_text e | _ \<Rightarrow> oc_lastError rec),
             oc_lastAt := sop_time x\<rparr> = stats_spec w n (m @ [x])"
proof -
  let ?new = "sop_durations [x]"
  let ?old = "if m = [] then [] else filter (\<lambda>d. sop_time (last m) - w \<le> dr_time d) (sop_durations m)"
  have "sorted (map dr_time (sop_durations m @ ?new))"
    using sop_times [OF srt] by (cases x) simp_all
  then have all: "sorted (map dr_time (?old @ ?new))"
    by (auto simp: sorted_append sorted_filter)
  have "m \<noteq> [] \<Longrightarrow> sop_time (last m) \<le> sop_time x"
    using srt by (auto simp: sorted_append)
  then have "dropWhile (\<lambda>d. dr_time d < sop_time x - w) (?old @ ?new) = filter (\<lambda>d. sop_time x - w \<le> dr_time d) (sop_durations m @ ?new)"
    unfolding dropWhile_sorted [OF all] by (auto intro!: filter_cong simp: filter_filter)
  moreover have "oc_durations rec = ?old"
    by (simp add: rec_def new_record_def stats_spec_def)
  ultimately show ?thesis
    by (cases x; cases "m = []") (simp_all add: rec_def new_record_def stats_spec_def wrap64_Suc Let_def split: option.split)
qed

text \<open>
  The collector after any recordings at times that do not go back, with a window that fits in a duration:
  for each name its count and errors are those of its recordings, in 64 bits, the last error is that of the
  last recording with one, and the durations the statistics are built from are exactly those at most a
  window older than the name's last recording.
\<close>

theorem stats_window:
  fixes n :: string
  assumes "sorted (map sop_time ops)" and "0 \<le> sec" and "sec * 1000000000 < 2 ^ 63"
  defines "mine \<equiv> filter (\<lambda>x. sop_name x = n) ops"
  shows "GetStats (foldl stats_step (NewStatsCollector [sec]) ops) n =
    (if mine = [] then None else Some (buildStats (stats_spec (sec * 1000000000) n mine)))"
proof -
  let ?s = "\<lambda>ops. foldl stats_step (NewStatsCollector [sec]) ops"
  let ?w = "sec * 1000000000"
  let ?m = "filter (\<lambda>x. sop_name x = n)"
  have w: "window_ns (?s ops) = - ?w" for ops
  proof -
    have "sc_windowSec (?s ops) = sec"
      by (induction ops rule: rev_induct) (simp_all add: stats_step_records NewStatsCollector_def)
    then show ?thesis
      using assms(2,3) by (simp add: window_ns_def wrap64_id)
  qed
  have "gm_get (sc_records (?s ops)) n = (if ?m ops = [] then None else Some (stats_spec ?w n (?m ops)))"
    using assms(1)
  proof (induction ops rule: rev_induct)
    case Nil
    show ?case by (simp add: NewStatsCollector_def)
  next
    case (snoc x ops)
    then have IH: "gm_or (sc_records (?s ops)) n (new_record n) = (if ?m ops = [] then new_record n else stats_spec ?w n (?m ops))"
      "gm_get (sc_records (?s ops)) n = (if ?m ops = [] then None else Some (stats_spec ?w n (?m ops)))"
      by (simp_all add: sorted_append)
    have "sorted (map sop_time (?m ops @ [x]))"
      using snoc.prems by (auto simp: sorted_append sorted_filter)
    note snoc_spec = stats_spec_snoc [OF this, of n ?w]
    show ?case
    proof (cases "n = sop_name x")
      case True
      have "gm_get (sc_records (?s (ops @ [x]))) n = Some (stats_spec ?w n (?m ops @ [x]))"
        unfolding foldl_append foldl.simps stats_step_records(1) if_P [OF True] Let_def IH(1) w snoc_spec by (rule refl)
      with True show ?thesis by simp
    next
      case False
      then show ?thesis by (simp add: stats_step_records(1) IH(2))
    qed
  qed
  then show ?thesis by (simp add: GetStats_def mine_def)
qed

text \<open>Two recordings two minutes apart with a window of one minute: the first duration is out of the statistics.\<close>

theorem stats_window_witness:
  "GetStats (foldl stats_step (NewStatsCollector [60])
       [SDuration ''Command/a'' 5 0, SError ''Query/b'' None 7, SDuration ''Command/a'' 9 120000000000]) ''Command/a'' =
     Some \<lparr>st_Name = ''Command/a'', st_Type = ''command'', st_Count = 2, st_ErrorCount = 0, st_AvgDuration = 9,
           st_MaxDuration = 9, st_MinDuration = 9, st_P50Duration = 9, st_P99Duration = 9, st_LastError = [],
           st_LastAt = 120000000000\<rparr>"
  by (subst stats_window)
    (simp_all add: stats_spec_def sop_durations_def sop_errors_def buildStats_def tally_def classifyOpType_def wrap64_id
       sort_slice_def go_div_def)

subsection \<open>What the statistics say\<close>

lemma foldl_least:
  "foldl (\<lambda>lo x. if x < lo then x else lo) (a :: int) xs \<in> insert a (set xs) \<and>
   (\<forall>y\<in>insert a (set xs). foldl (\<lambda>lo x. if x < lo then x else lo) a xs \<le> y)"
  by (induction xs arbitrary: a) (auto simp: not_less, (meson dual_order.trans less_imp_le order_trans)+)

lemma foldl_greatest:
  "foldl (\<lambda>hi x. if x > hi then x else hi) (a :: int) xs \<in> insert a (set xs) \<and>
   (\<forall>y\<in>insert a (set xs). y \<le> foldl (\<lambda>hi x. if x > hi then x else hi) a xs)"
  by (induction xs arbitrary: a) (auto simp: not_less, (meson dual_order.trans less_imp_le order_trans)+)

lemma tally_parts:
  "tally ds (t, lo, hi) =
     (foldl (\<lambda>total d. wrap64 (total + d)) t (map dr_dur ds),
      foldl (\<lambda>lo x. if x < lo then x else lo) lo (map dr_dur ds),
      foldl (\<lambda>hi x. if x > hi then x else hi) hi (map dr_dur ds))"
  unfolding tally_def by (induction ds arbitrary: t lo hi) simp_all

lemma sorted_rank:
  fixes xs :: "int list"
  assumes "sorted xs" and "k < length xs"
  shows "k + 1 \<le> length (filter (\<lambda>y. y \<le> xs ! k) xs)" and "length xs - k \<le> length (filter (\<lambda>y. xs ! k \<le> y) xs)"
proof -
  have "\<forall>y\<in>set (take (k + 1) xs). y \<le> xs ! k"
    using assms by (auto simp: in_set_conv_nth less_Suc_eq_le sorted_iff_nth_mono)
  then have "length (filter (\<lambda>y. y \<le> xs ! k) (take (k + 1) xs)) = k + 1"
    using assms(2) by (subst filter_True) auto
  moreover have "length (filter (\<lambda>y. y \<le> xs ! k) (take (k + 1) xs)) \<le> length (filter (\<lambda>y. y \<le> xs ! k) (take (k + 1) xs @ drop (k + 1) xs))"
    by (simp only: filter_append length_append)
  ultimately show "k + 1 \<le> length (filter (\<lambda>y. y \<le> xs ! k) xs)"
    by (simp only: append_take_drop_id)
  have "\<forall>y\<in>set (drop k xs). xs ! k \<le> y"
    using assms by (auto simp: in_set_conv_nth sorted_iff_nth_mono)
  then have "length (filter (\<lambda>y. xs ! k \<le> y) (drop k xs)) = length xs - k"
    by (subst filter_True) auto
  moreover have "length (filter (\<lambda>y. xs ! k \<le> y) (drop k xs)) \<le> length (filter (\<lambda>y. xs ! k \<le> y) (take k xs @ drop k xs))"
    by (simp only: filter_append length_append)
  ultimately show "length xs - k \<le> length (filter (\<lambda>y. xs ! k \<le> y) xs)"
    by (simp only: append_take_drop_id)
qed

text \<open>A percentile of a list, as \<open>buildStats\<close> picks it.\<close>

lemma percentile:
  fixes ds :: "int list"
  assumes "ds \<noteq> []" and "p < 100"
  defines "v \<equiv> sort_slice (\<lambda>d. d) ds ! (length ds * p div 100)"
  shows "v \<in> set ds" and "p * length ds < 100 * length (filter (\<lambda>d. d \<le> v) ds)"
    and "(100 - p) * length ds \<le> 100 * length (filter (\<lambda>d. v \<le> d) ds)"
proof -
  let ?xs = "sort_slice (\<lambda>d. d) ds"
  let ?k = "length ds * p div 100"
  have k: "?k < length ?xs"
    using assms(1,2) by (auto simp: less_mult_imp_div_less)
  have same: "length (filter P ds) = length (filter P ?xs)" for P
    by (metis mset_filter size_mset sort_slice_mset)
  have srt: "sorted ?xs"
    using sort_slice_sorted [of "\<lambda>d. d" ds] by simp
  show "v \<in> set ds"
    using k nth_mem [of ?k ?xs] by (simp add: v_def)
  show "p * length ds < 100 * length (filter (\<lambda>d. d \<le> v) ds)"
    using sorted_rank(1) [OF srt k] unfolding v_def same by (simp add: mult.commute)
  show "(100 - p) * length ds \<le> 100 * length (filter (\<lambda>d. v \<le> d) ds)"
  proof -
    have "length ds \<le> length (filter (\<lambda>d. v \<le> d) ds) + ?k" "100 * ?k \<le> p * length ds"
      using sorted_rank(2) [OF srt k] unfolding v_def same by (simp_all add: mult.commute)
    then show ?thesis by (simp add: diff_mult_distrib)
  qed
qed

text \<open>
  The statistics of a name with durations in its window: the least and the greatest of them, a median such
  that more than half are at most and at least half are at least it, a 99th percentile likewise, all of them
  recorded durations in this order, and an average between the extremes when the sum fits in 64 bits.
\<close>

theorem stats_summary:
  assumes "gm_get (sc_records s) n = Some rec" and "map dr_dur (oc_durations rec) = ds" and "ds \<noteq> []"
  shows "\<exists>st. GetStats s n = Some st \<and> st_MinDuration st = Min (set ds) \<and> st_MaxDuration st = Max (set ds) \<and>
    {st_P50Duration st, st_P99Duration st} \<subseteq> set ds \<and> st_P50Duration st \<le> st_P99Duration st \<and>
    length ds < 2 * length (filter (\<lambda>d. d \<le> st_P50Duration st) ds) \<and>
    length ds \<le> 2 * length (filter (\<lambda>d. st_P50Duration st \<le> d) ds) \<and>
    99 * length ds < 100 * length (filter (\<lambda>d. d \<le> st_P99Duration st) ds) \<and>
    length ds \<le> 100 * length (filter (\<lambda>d. st_P99Duration st \<le> d) ds) \<and>
    (\<bar>sum_list ds\<bar> < 2 ^ 63 \<longrightarrow> Min (set ds) \<le> st_AvgDuration st \<and> st_AvgDuration st \<le> Max (set ds))"
proof -
  let ?xs = "sort_slice (\<lambda>d. d) ds"
  define st where "st = buildStats rec"
  have ne: "oc_durations rec \<noteq> []" "dr_dur (hd (oc_durations rec)) = hd ds" "length (oc_durations rec) = length ds"
    using assms(2,3) by (cases "oc_durations rec"; auto)+
  have st: "st_MinDuration st = foldl (\<lambda>lo x. if x < lo then x else lo) (hd ds) ds"
    "st_MaxDuration st = foldl (\<lambda>hi x. if x > hi then x else hi) (hd ds) ds"
    "st_AvgDuration st = go_div (foldl (\<lambda>total d. wrap64 (total + d)) 0 ds) (int (length ds))"
    "st_P50Duration st = ?xs ! (length ds * 50 div 100)" "st_P99Duration st = ?xs ! (length ds * 99 div 100)"
    using ne assms(2) by (simp_all add: st_def buildStats_def tally_parts Let_def)
  have hd: "insert (hd ds) (set ds) = set ds"
    using assms(3) by auto
  have mn: "st_MinDuration st = Min (set ds)" and mx: "st_MaxDuration st = Max (set ds)"
    using foldl_least [of "hd ds" ds] foldl_greatest [of "hd ds" ds] unfolding st(1,2) hd
    by (auto intro!: Min_eqI [symmetric] Max_eqI [symmetric])
  have "length ds * 50 div 100 \<le> length ds * 99 div 100" "length ds * 99 div 100 < length ?xs"
    using assms(3) by (auto simp: less_mult_imp_div_less intro!: div_le_mono)
  then have le: "st_P50Duration st \<le> st_P99Duration st"
    unfolding st using sort_slice_sorted [of "\<lambda>d. d" ds] by (simp add: sorted_nth_mono)
  have avg: "Min (set ds) \<le> st_AvgDuration st \<and> st_AvgDuration st \<le> Max (set ds)" if "\<bar>sum_list ds\<bar> < 2 ^ 63"
  proof -
    have "foldl (\<lambda>total d. wrap64 (total + d)) 0 ds = sum_list ds"
      using wrap64_sum [of 0 ds] wrap64_id [of "sum_list ds"] that by simp
    moreover have "Min (set ds) * int (length ds) \<le> sum_list ds \<and> sum_list ds \<le> Max (set ds) * int (length ds)"
    proof -
      have b: "\<forall>d\<in>set xs. lo \<le> d \<and> d \<le> hi \<Longrightarrow> lo * int (length xs) \<le> sum_list xs \<and> sum_list xs \<le> hi * int (length xs)"
        for xs and lo hi :: int
        by (induction xs) (auto simp: algebra_simps)
      show ?thesis using assms(3) by (intro b) simp
    qed
    moreover have "0 < int (length ds)"
      using assms(3) by simp
    ultimately show ?thesis
      using go_div_between [of "int (length ds)" "Min (set ds)" "sum_list ds" "Max (set ds)"] unfolding st(3) by simp
  qed
  have "GetStats s n = Some st"
    using assms(1) by (simp add: GetStats_def st_def)
  then show ?thesis
    using mn mx le avg percentile [OF assms(3), of 50] percentile [OF assms(3), of 99]
    by (intro exI [of _ st]) (simp add: st(4,5))
qed

theorem stats_summary_witness:
  "\<exists>st. GetStats (foldl stats_step (NewStatsCollector []) [SDuration ''q'' 4 1, SDuration ''q'' 8 2, SDuration ''q'' 6 3]) ''q'' = Some st \<and>
     st_MinDuration st = 4 \<and> st_MaxDuration st = 8 \<and> 4 \<le> st_P50Duration st"
proof -
  let ?s = "foldl stats_step (NewStatsCollector []) [SDuration ''q'' 4 1, SDuration ''q'' 8 2, SDuration ''q'' 6 3]"
  obtain rec where rec: "gm_get (sc_records ?s) ''q'' = Some rec" "map dr_dur (oc_durations rec) = [4, 8, 6]"
    by (simp add: stats_ops NewStatsCollector_def defaultWindowSize_def window_ns_def wrap64_id Let_def)
  show ?thesis
    using stats_summary [OF rec] by auto
qed

end
