(* ===== verification/TypePrototypes.thy ===== *)
theory TypePrototypes
  imports EventBusModel BuiltinAspects LintPaths "HOL-Library.Product_Lexorder"
begin

text \<open>
  The registry of message types that the viewer shows, \<open>observability/type_prototype.go\<close>, and its collection
  from the buses, \<open>observability/bus_collector.go\<close>.

  What \<open>reflect\<close> knows of a declared type or a type literal beyond its name is the argument \<open>env\<close>, its
  kind with its element types or fields.  A nil slice and an empty one are the empty list.
\<close>

record FieldInfo =
  fi_Name :: string
  fi_Type :: string

record TypePrototype =
  tp_Name :: string
  tp_Category :: string
  tp_Domain :: string
  tp_Fields :: "FieldInfo list"
  tp_ResultType :: string
  tp_Result :: "FieldInfo list"

record DomainInfo =
  di_Name :: string
  di_Commands :: "TypePrototype list"
  di_Queries :: "TypePrototype list"
  di_Events :: "TypePrototype list"

record TypePrototypeRegistry =
  tr_prototypes :: "(string, TypePrototype) gomap"
  tr_byCategory :: "(string, TypePrototype list) gomap"
  tr_byDomain :: "(string, TypePrototype list) gomap"
  tr_domains :: "string list"

definition NewTypePrototypeRegistry :: TypePrototypeRegistry where
  "NewTypePrototypeRegistry = \<lparr>tr_prototypes = [], tr_byCategory = [], tr_byDomain = [], tr_domains = []\<rparr>"

subsection \<open>Registration\<close>

definition RegisterWithDomain ::
    "string \<Rightarrow> string \<Rightarrow> string \<Rightarrow> FieldInfo list \<Rightarrow> string \<Rightarrow> FieldInfo list \<Rightarrow> TypePrototypeRegistry \<Rightarrow> TypePrototypeRegistry" where
  "RegisterWithDomain cat domn name flds resultType result r =
     (let proto = \<lparr>tp_Name = name, tp_Category = cat, tp_Domain = domn, tp_Fields = flds,
                   tp_ResultType = resultType, tp_Result = result\<rparr>;
          r1 = r\<lparr>tr_prototypes := gm_put (tr_prototypes r) name proto,
                 tr_byCategory := gm_put (tr_byCategory r) cat (gm_or (tr_byCategory r) cat [] @ [proto])\<rparr>
      in if domn \<noteq> []
         then (let r2 = (if gm_get (tr_byDomain r1) domn = None
                         then r1\<lparr>tr_domains := sort (tr_domains r1 @ [domn])\<rparr> else r1)
               in r2\<lparr>tr_byDomain := gm_put (tr_byDomain r2) domn (gm_or (tr_byDomain r2) domn [] @ [proto])\<rparr>)
         else r1)"

definition tr_Register ::
    "string \<Rightarrow> string \<Rightarrow> FieldInfo list \<Rightarrow> string \<Rightarrow> FieldInfo list \<Rightarrow> TypePrototypeRegistry \<Rightarrow> TypePrototypeRegistry" where
  "tr_Register cat name flds resultType result = RegisterWithDomain cat [] name flds resultType result"

text \<open>A kind with what hangs on it; \<open>VStruct\<close> has the fields' names, whether they are exported, and their types.\<close>

datatype gview =
    VPtr gtype
  | VSlice gtype
  | VArray nat gtype
  | VMap gtype gtype
  | VStruct "(string \<times> bool \<times> gtype) list"
  | VOther

fun view :: "(gtype \<Rightarrow> gview) \<Rightarrow> gtype \<Rightarrow> gview" where
  "view env (TPtr t) = VPtr t"
| "view env (TSlice t) = VSlice t"
| "view env (TArray n t) = VArray n t"
| "view env (TMap k t) = VMap k t"
| "view env (TBasic n) = VOther"
| "view env t = env t"

text \<open>The loop of \<open>splitPkgPath\<close>: \<open>seg\<close> is the part since the last slash.\<close>

fun splitPkg_from :: "string \<Rightarrow> string \<Rightarrow> string list" where
  "splitPkg_from seg [] = (if seg \<noteq> [] then [seg] else [])"
| "splitPkg_from seg (c # cs) =
     (if c = CHR ''/'' then (if seg \<noteq> [] then seg # splitPkg_from [] cs else splitPkg_from [] cs)
      else splitPkg_from (seg @ [c]) cs)"

definition splitPkgPath :: "string \<Rightarrow> string list" where
  "splitPkgPath pkgPath = splitPkg_from [] pkgPath"

definition shortPackageName :: "string \<Rightarrow> string" where
  "shortPackageName pkgPath =
     (let parts = splitPkgPath pkgPath
      in case find (\<lambda>p. p \<noteq> [] \<and> p \<noteq> ''core'' \<and> p \<noteq> ''exampleapp'') (rev parts) of
           Some p \<Rightarrow> p
         | None \<Rightarrow> if length parts > 0 then last parts else pkgPath)"

text \<open>
  The text of a field's type.  The recursion follows the kind, not the name, so it does not end on a type
  such as \<open>type T []T\<close>; a call that does not return is \<open>None\<close>.
\<close>

partial_function (option) formatFieldType :: "(gtype \<Rightarrow> gview) \<Rightarrow> gtype \<Rightarrow> string option" where
  [code]: "formatFieldType env t =
     (case view env t of
        VPtr e \<Rightarrow> Option.bind (formatFieldType env e) (\<lambda>s. Some (''*'' @ s))
      | VSlice e \<Rightarrow> Option.bind (formatFieldType env e) (\<lambda>s. Some (''[]'' @ s))
      | VArray n e \<Rightarrow> Option.bind (formatFieldType env e) (\<lambda>s. Some (''['' @ show_nat n @ '']'' @ s))
      | VMap k e \<Rightarrow> Option.bind (formatFieldType env k) (\<lambda>ks. Option.bind (formatFieldType env e)
          (\<lambda>s. Some (''map['' @ ks @ '']'' @ s)))
      | _ \<Rightarrow> if type_PkgPath t \<noteq> [] then Some (shortPackageName (type_PkgPath t) @ ''.'' @ type_Name t)
             else Some (type_Name t))"

fun format_fields :: "(gtype \<Rightarrow> gview) \<Rightarrow> (string \<times> bool \<times> gtype) list \<Rightarrow> FieldInfo list option" where
  "format_fields env [] = Some []"
| "format_fields env ((name, exported, t) # fs) =
     (if exported
      then Option.bind (formatFieldType env t) (\<lambda>s. Option.bind (format_fields env fs)
             (\<lambda>rest. Some (\<lparr>fi_Name = name, fi_Type = s\<rparr> # rest)))
      else format_fields env fs)"

definition elem_of_ptr :: "(gtype \<Rightarrow> gview) \<Rightarrow> gtype \<Rightarrow> gtype" where
  "elem_of_ptr env t = (case view env t of VPtr e \<Rightarrow> e | _ \<Rightarrow> t)"

definition extractFields :: "(gtype \<Rightarrow> gview) \<Rightarrow> gtype option \<Rightarrow> FieldInfo list option" where
  "extractFields env t =
     (case t of
        None \<Rightarrow> Some []
      | Some t0 \<Rightarrow>
          (let t1 = elem_of_ptr env t0;
               t2 = (case view env t1 of VSlice e \<Rightarrow> elem_of_ptr env e | VArray n e \<Rightarrow> elem_of_ptr env e | _ \<Rightarrow> t1)
           in case view env t2 of VStruct flds \<Rightarrow> format_fields env flds | _ \<Rightarrow> Some []))"

definition RegisterFromTypeWithDomain ::
    "(gtype \<Rightarrow> gview) \<Rightarrow> string \<Rightarrow> string \<Rightarrow> string \<Rightarrow> gtype option \<Rightarrow> gtype option \<Rightarrow> TypePrototypeRegistry \<Rightarrow>
       TypePrototypeRegistry option" where
  "RegisterFromTypeWithDomain env cat domn name t resultType r =
     Option.bind (extractFields env t) (\<lambda>flds. Option.bind (extractFields env resultType) (\<lambda>resultFields.
       let resultName = (case resultType of
             None \<Rightarrow> []
           | Some rt \<Rightarrow> if type_Name rt \<noteq> [] then type_Name rt else type_String rt)
       in Some (RegisterWithDomain cat domn name flds resultName resultFields r)))"

definition RegisterFromType ::
    "(gtype \<Rightarrow> gview) \<Rightarrow> string \<Rightarrow> string \<Rightarrow> gtype option \<Rightarrow> gtype option \<Rightarrow> TypePrototypeRegistry \<Rightarrow> TypePrototypeRegistry option" where
  "RegisterFromType env cat name t resultType = RegisterFromTypeWithDomain env cat [] name t resultType"

text \<open>The text after \<open>start\<close> bytes up to the next slash.\<close>

definition next_segment :: "string \<Rightarrow> nat \<Rightarrow> string" where
  "next_segment pkgPath start =
     (case str_index (drop start pkgPath) ''/'' of
        None \<Rightarrow> if start < length pkgPath then drop start pkgPath else []
      | Some e \<Rightarrow> take e (drop start pkgPath))"

definition inferDomainFromPkgPath :: "string \<Rightarrow> string" where
  "inferDomainFromPkgPath pkgPath =
     (if pkgPath = [] then []
      else (case str_index pkgPath ''/ddd/'' of
              Some idx \<Rightarrow> next_segment pkgPath (idx + 5)
            | None \<Rightarrow> if has_prefix pkgPath ''ddd/'' then next_segment pkgPath 4 else []))"

text \<open>A sample is an \<open>any\<close>; only its type is looked at.\<close>

definition inferDomainFromSample :: "(gtype \<Rightarrow> gview) \<Rightarrow> 'd goany \<Rightarrow> string" where
  "inferDomainFromSample env sample =
     (case type_of sample of
        None \<Rightarrow> []
      | Some t \<Rightarrow> inferDomainFromPkgPath (type_PkgPath (elem_of_ptr env t)))"

definition RegisterFromSampleWithDomain ::
    "(gtype \<Rightarrow> gview) \<Rightarrow> string \<Rightarrow> string \<Rightarrow> string \<Rightarrow> 'd goany \<Rightarrow> 'd goany \<Rightarrow> TypePrototypeRegistry \<Rightarrow>
       TypePrototypeRegistry option" where
  "RegisterFromSampleWithDomain env cat domn name sample resultSample r =
     (case type_of sample of
        None \<Rightarrow> Some r
      | Some t \<Rightarrow>
          RegisterFromTypeWithDomain env cat domn name (Some (elem_of_ptr env t))
            (map_option (elem_of_ptr env) (type_of resultSample)) r)"

definition RegisterFromSample ::
    "(gtype \<Rightarrow> gview) \<Rightarrow> string \<Rightarrow> string \<Rightarrow> 'd goany \<Rightarrow> 'd goany \<Rightarrow> TypePrototypeRegistry \<Rightarrow> TypePrototypeRegistry option" where
  "RegisterFromSample env cat name sample resultSample r =
     RegisterFromSampleWithDomain env cat (inferDomainFromSample env sample) name sample resultSample r"

subsection \<open>Queries\<close>

definition tr_Get :: "TypePrototypeRegistry \<Rightarrow> string \<Rightarrow> TypePrototype option" where
  "tr_Get r name = gm_get (tr_prototypes r) name"

text \<open>\<open>ListByCategory\<close> and \<open>ListByDomain\<close> sort the registry's own slice, so they change it.\<close>

definition store_sorted :: "(string, 'a list) gomap \<Rightarrow> string \<Rightarrow> 'a list \<Rightarrow> (string, 'a list) gomap" where
  "store_sorted m k xs = (if gm_get m k = None then m else gm_put m k xs)"

definition ListByCategory :: "string \<Rightarrow> TypePrototypeRegistry \<Rightarrow> TypePrototype list \<times> TypePrototypeRegistry" where
  "ListByCategory cat r =
     (let lst = sort_slice tp_Name (gm_or (tr_byCategory r) cat [])
      in (lst, r\<lparr>tr_byCategory := store_sorted (tr_byCategory r) cat lst\<rparr>))"

definition tp_key :: "TypePrototype \<Rightarrow> string \<times> string" where
  "tp_key p = (tp_Category p, tp_Name p)"

definition tr_ListAll :: "TypePrototypeRegistry \<Rightarrow> TypePrototype list" where
  "tr_ListAll r = sort_slice tp_key (map snd (tr_prototypes r))"

definition CountByCategory :: "TypePrototypeRegistry \<Rightarrow> string \<Rightarrow> nat" where
  "CountByCategory r cat = length (gm_or (tr_byCategory r) cat [])"

definition ListDomains :: "TypePrototypeRegistry \<Rightarrow> string list" where
  "ListDomains r = tr_domains r"

definition GetDomainInfo :: "TypePrototypeRegistry \<Rightarrow> string \<Rightarrow> DomainInfo" where
  "GetDomainInfo r domn =
     (let types = gm_or (tr_byDomain r) domn [];
          kind = (\<lambda>c. sort_slice tp_Name (filter (\<lambda>t. tp_Category t = c) types))
      in \<lparr>di_Name = domn, di_Commands = kind ''command'', di_Queries = kind ''query'', di_Events = kind ''event''\<rparr>)"

definition ListByDomain :: "string \<Rightarrow> TypePrototypeRegistry \<Rightarrow> TypePrototype list \<times> TypePrototypeRegistry" where
  "ListByDomain domn r =
     (let lst = sort_slice tp_key (gm_or (tr_byDomain r) domn [])
      in (lst, r\<lparr>tr_byDomain := store_sorted (tr_byDomain r) domn lst\<rparr>))"

definition after_last_dot :: "string \<Rightarrow> string" where
  "after_last_dot s = (if CHR ''.'' \<in> set s then rev (takeWhile (\<lambda>c. c \<noteq> CHR ''.'') (rev s)) else s)"

definition normalizeTypeName :: "string \<Rightarrow> string" where
  "normalizeTypeName name =
     after_last_dot (trim_prefix (trim_prefix (trim_prefix (trim_prefix name ''Command/'') ''Query/'') ''Event/'') ''*'')"

definition tr_GetTypeDomain :: "TypePrototypeRegistry \<Rightarrow> string \<Rightarrow> string" where
  "tr_GetTypeDomain r typeName =
     (case gm_get (tr_prototypes r) (normalizeTypeName typeName) of Some proto \<Rightarrow> tp_Domain proto | None \<Rightarrow> [])"

subsection \<open>Collection from the buses\<close>

text \<open>
  A \<open>BusTypeSampleProvider\<close>, an interface: the sample and the result sample of a type's name.  A bus is what
  its list of types gives, \<open>None\<close> for a nil bus.
\<close>

record 'd sample_provider =
  GetCommandSample :: "string \<Rightarrow> 'd goany \<times> 'd goany"
  GetQuerySample :: "string \<Rightarrow> 'd goany \<times> 'd goany"
  GetEventSample :: "string \<Rightarrow> 'd goany"

fun collect_names ::
    "(gtype \<Rightarrow> gview) \<Rightarrow> string \<Rightarrow> (string \<Rightarrow> 'd goany \<times> 'd goany) option \<Rightarrow> string list \<Rightarrow> TypePrototypeRegistry \<Rightarrow>
       TypePrototypeRegistry option" where
  "collect_names env cat provider [] r = Some r"
| "collect_names env cat provider (name # names) r =
     (let (sample, resultSample) = (case provider of None \<Rightarrow> (GNil, GNil) | Some get \<Rightarrow> get name)
      in Option.bind
           (if type_of sample \<noteq> None then RegisterFromSample env cat name sample resultSample r
            else Some (tr_Register cat name [] [] [] r))
           (collect_names env cat provider names))"

text \<open>The outer option is again a call that does not return; the panic is that of listing the types.\<close>

definition collect_from ::
    "(gtype \<Rightarrow> gview) \<Rightarrow> string \<Rightarrow> (string \<Rightarrow> 'd goany \<times> 'd goany) option \<Rightarrow> string list outcome option \<Rightarrow>
       TypePrototypeRegistry \<Rightarrow> TypePrototypeRegistry outcome option" where
  "collect_from env cat provider bus r =
     (case bus of
        None \<Rightarrow> Some (Ret r)
      | Some (Panic m) \<Rightarrow> Some (Panic m)
      | Some (Ret names) \<Rightarrow> map_option Ret (collect_names env cat provider names r))"

definition CollectFromCommandBus where
  "CollectFromCommandBus env bus provider r = collect_from env ''command'' (map_option GetCommandSample provider) bus r"

definition CollectFromQueryBus where
  "CollectFromQueryBus env bus provider r = collect_from env ''query'' (map_option GetQuerySample provider) bus r"

definition CollectFromEventBus where
  "CollectFromEventBus env bus provider r =
     collect_from env ''event'' (map_option (\<lambda>p name. (GetEventSample p name, GNil)) provider) bus r"

definition then_collect :: "TypePrototypeRegistry outcome option \<Rightarrow> (TypePrototypeRegistry \<Rightarrow> TypePrototypeRegistry outcome option) \<Rightarrow>
    TypePrototypeRegistry outcome option" where
  "then_collect x f = (case x of None \<Rightarrow> None | Some (Panic m) \<Rightarrow> Some (Panic m) | Some (Ret r) \<Rightarrow> f r)"

definition CollectFromBuses ::
    "(gtype \<Rightarrow> gview) \<Rightarrow> string list outcome option \<Rightarrow> string list outcome option \<Rightarrow> string list outcome option \<Rightarrow>
       'd sample_provider option \<Rightarrow> TypePrototypeRegistry \<Rightarrow> TypePrototypeRegistry outcome option" where
  "CollectFromBuses env cmdBus queryBus evtBus provider r =
     then_collect (then_collect (CollectFromCommandBus env cmdBus provider r) (CollectFromQueryBus env queryBus provider))
       (CollectFromEventBus env evtBus provider)"

definition NewTypePrototypeRegistryFromBuses where
  "NewTypePrototypeRegistryFromBuses env cmdBus queryBus evtBus provider =
     CollectFromBuses env cmdBus queryBus evtBus provider NewTypePrototypeRegistry"

text \<open>The provider over three maps.\<close>

record 'd ReflectionSampleProvider =
  rp_commandSamples :: "(string, 'd goany \<times> 'd goany) gomap"
  rp_querySamples :: "(string, 'd goany \<times> 'd goany) gomap"
  rp_eventSamples :: "(string, 'd goany) gomap"

definition NewReflectionSampleProvider :: "'d ReflectionSampleProvider" where
  "NewReflectionSampleProvider = \<lparr>rp_commandSamples = [], rp_querySamples = [], rp_eventSamples = []\<rparr>"

definition rp_RegisterCommand :: "string \<Rightarrow> 'd goany \<Rightarrow> 'd goany \<Rightarrow> 'd ReflectionSampleProvider \<Rightarrow> 'd ReflectionSampleProvider" where
  "rp_RegisterCommand name sample resultSample p =
     p\<lparr>rp_commandSamples := gm_put (rp_commandSamples p) name (sample, resultSample)\<rparr>"

definition rp_RegisterQuery :: "string \<Rightarrow> 'd goany \<Rightarrow> 'd goany \<Rightarrow> 'd ReflectionSampleProvider \<Rightarrow> 'd ReflectionSampleProvider" where
  "rp_RegisterQuery name sample resultSample p =
     p\<lparr>rp_querySamples := gm_put (rp_querySamples p) name (sample, resultSample)\<rparr>"

definition rp_RegisterEvent :: "string \<Rightarrow> 'd goany \<Rightarrow> 'd ReflectionSampleProvider \<Rightarrow> 'd ReflectionSampleProvider" where
  "rp_RegisterEvent name sample p = p\<lparr>rp_eventSamples := gm_put (rp_eventSamples p) name sample\<rparr>"

definition rp_provider :: "'d ReflectionSampleProvider \<Rightarrow> 'd sample_provider" where
  "rp_provider p =
     \<lparr>GetCommandSample = (\<lambda>typeName. gm_or (rp_commandSamples p) typeName (GNil, GNil)),
      GetQuerySample = (\<lambda>typeName. gm_or (rp_querySamples p) typeName (GNil, GNil)),
      GetEventSample = (\<lambda>typeName. gm_or (rp_eventSamples p) typeName GNil)\<rparr>"

definition ExportEventSamples :: "'d ReflectionSampleProvider \<Rightarrow> (string \<times> 'd goany) list" where
  "ExportEventSamples p = rp_eventSamples p"

fun register_types ::
    "(gtype \<Rightarrow> gview) \<Rightarrow> string \<Rightarrow> (string \<Rightarrow> gtype option) \<Rightarrow> (string, gtype) gomap \<Rightarrow> TypePrototypeRegistry \<Rightarrow>
       TypePrototypeRegistry option" where
  "register_types env cat results [] r = Some r"
| "register_types env cat results ((name, t) # ts) r =
     Option.bind (RegisterFromType env cat name (Some t) (results name) r) (register_types env cat results ts)"

definition RegisterTypesFromReflect where
  "RegisterTypesFromReflect env r commandTypes commandResultTypes queryTypes queryResultTypes eventTypes =
     Option.bind (register_types env ''command'' (gm_get commandResultTypes) commandTypes r)
       (\<lambda>r1. Option.bind (register_types env ''query'' (gm_get queryResultTypes) queryTypes r1)
         (register_types env ''event'' (\<lambda>n. None) eventTypes))"

subsection \<open>The domain of a package\<close>

lemma split_on_mid: "split_on c (a @ c # b) = split_on c a @ split_on c b"
proof (induction a)
  case (Cons x a)
  then show ?case by (cases "split_on c a") auto
qed simp

lemma path_of_append: "a \<noteq> [] \<Longrightarrow> b \<noteq> [] \<Longrightarrow> path_of (a @ b) = path_of a @ CHR ''/'' # path_of b"
  unfolding path_of_def by (induction a rule: list_nonempty_induct) (simp_all add: join_with_Cons)

text \<open>Where \<open>/ddd/\<close> stands in a path, its element \<open>ddd\<close> stands between others.\<close>

lemma ddd_occurs:
  assumes "has_prefix (drop j p) ''/ddd/''"
  obtains t where "split_on CHR ''/'' p = split_on CHR ''/'' (take j p) @ ''ddd'' # split_on CHR ''/'' t"
proof -
  obtain t where "drop j p = ''/ddd/'' @ t"
    using assms by (auto simp: has_prefix_iff)
  then have "p = take j p @ CHR ''/'' # (''ddd'' @ CHR ''/'' # t)"
    using append_take_drop_id [of j p] by simp
  then have "split_on CHR ''/'' p = split_on CHR ''/'' (take j p) @ split_on CHR ''/'' (''ddd'' @ CHR ''/'' # t)"
    by (metis split_on_mid)
  then show ?thesis
    using split_on_append [of "CHR ''/''" "''ddd''" t] by (intro that) simp
qed

lemma next_segment_path:
  assumes "drop start p = path_of (d # sub)" and "CHR ''/'' \<notin> set d"
  shows "next_segment p start = d"
proof (cases sub)
  case Nil
  with assms have "drop start p = d" by (simp add: path_of_def)
  with assms(2) show ?thesis by (auto simp: next_segment_def str_index_slash split: if_splits)
next
  case (Cons q qs)
  then have d: "drop start p = d @ CHR ''/'' # path_of sub"
    using assms(1) path_of_append [of "[d]" sub] by (simp add: path_of_def)
  have "takeWhile (\<lambda>c. c \<noteq> CHR ''/'') (d @ CHR ''/'' # path_of sub) = d"
    using assms(2) by (induction d) auto
  with d show ?thesis by (simp add: next_segment_def str_index_slash)
qed

lemma first_occurrence: "xs @ x # ys = a @ x # b \<Longrightarrow> x \<notin> set a \<Longrightarrow> \<exists>more. xs = a @ more"
proof (induction a arbitrary: xs)
  case (Cons c a)
  then show ?case by (cases xs) auto
qed simp

lemma infer_domain_some:
  assumes parts: "split_on CHR ''/'' p = (pre @ [m]) @ ''ddd'' # d # sub" and no: "''ddd'' \<notin> set (pre @ [m])"
  shows "inferDomainFromPkgPath p = d"
proof -
  let ?A = "path_of (pre @ [m])"
  have p: "p = ?A @ ''/ddd/'' @ path_of (d # sub)"
  proof -
    have "p = path_of ((pre @ [m]) @ ([''ddd''] @ (d # sub)))"
      using parts join_with_split_on [of "CHR ''/''" p] by (simp add: path_of_def)
    also have "\<dots> = ?A @ CHR ''/'' # path_of ([''ddd''] @ (d # sub))"
      by (rule path_of_append) simp_all
    also have "path_of ([''ddd''] @ (d # sub)) = ''ddd'' @ CHR ''/'' # path_of (d # sub)"
      using path_of_append [of "[''ddd'']" "d # sub"] by (simp add: path_of_def)
    finally show ?thesis by simp
  qed
  have "str_index p ''/ddd/'' = Some (length ?A)"
    unfolding str_index_Some
  proof (intro conjI allI impI)
    show "length ?A \<le> length p" "has_prefix (drop (length ?A) p) ''/ddd/''"
      by (subst p, simp add: has_prefix_def)+
    fix j
    assume j: "j < length ?A"
    show "\<not> has_prefix (drop j p) ''/ddd/''"
    proof
      assume "has_prefix (drop j p) ''/ddd/''"
      then obtain t where t: "split_on CHR ''/'' p = split_on CHR ''/'' (take j p) @ ''ddd'' # split_on CHR ''/'' t"
        by (rule ddd_occurs)
      have "\<exists>more. split_on CHR ''/'' (take j p) = (pre @ [m]) @ more"
        using t unfolding parts by (rule first_occurrence [OF sym no])
      then obtain more where "take j p = path_of ((pre @ [m]) @ more)"
        using join_with_split_on [of "CHR ''/''" "take j p"] by (metis path_of_def)
      then have "length ?A \<le> length (take j p)"
        using path_of_append [of "pre @ [m]" more] by (cases "more = []") simp_all
      with j show False by simp
    qed
  qed
  moreover have "CHR ''/'' \<notin> set d"
    using split_on_no_sep [of d "CHR ''/''" p] by (simp add: parts)
  moreover have "drop (length ?A + 5) p = path_of (d # sub)"
    by (subst p) simp
  ultimately show ?thesis
    using next_segment_path [of "length ?A + 5" p d sub] p by (auto simp: inferDomainFromPkgPath_def)
qed

text \<open>
  The viewer and the lint rules agree on domains: the domain inferred from a package path is the one the
  lint rules' convention reads from it, and none where the convention finds none; only on a path that starts
  with \<open>ddd/\<close>, where the convention's parser panics, the viewer gives an answer.
\<close>

theorem infer_domain_convention:
  assumes "ParsePkgPath p = Ret info"
  shows "inferDomainFromPkgPath p = (case info of None \<Rightarrow> [] | Some i \<Rightarrow> pk_DomainName i)"
proof (cases p rule: ParsePkgPath_cases)
  case none
  have "str_index p ''/ddd/'' = None"
    unfolding str_index_None
  proof (intro allI impI notI)
    fix j
    assume "has_prefix (drop j p) ''/ddd/''"
    then obtain t where "split_on CHR ''/'' p = split_on CHR ''/'' (take j p) @ ''ddd'' # split_on CHR ''/'' t"
      by (rule ddd_occurs)
    with none(2) show False by (simp add: butlast_append)
  qed
  moreover have "\<not> has_prefix p ''ddd/''"
    using none(1) ParsePkgPath_panics [of p] by simp
  ultimately show ?thesis
    using assms none(1) by (simp add: inferDomainFromPkgPath_def)
next
  case (panic post)
  with assms show ?thesis by simp
next
  case (some pre m d sub)
  then show ?thesis using assms infer_domain_some [of p pre m d sub] by simp
qed

theorem infer_domain_convention_witness:
  "inferDomainFromPkgPath ''github.com/x/shop/ddd/order/domain/model'' = ''order'' \<and>
   inferDomainFromPkgPath ''github.com/x/shop/ddd'' = []"
proof
  show "inferDomainFromPkgPath ''github.com/x/shop/ddd/order/domain/model'' = ''order''"
    by (subst infer_domain_convention [OF ParsePkgPath_segs [of "[''github.com'', ''x'']" "''shop''" "''order''" "[''domain'', ''model'']",
            unfolded path_of_def, simplified]])
      (simp_all add: segs_ok_def)
  have "ParsePkgPath ''github.com/x/shop/ddd'' = Ret None" by code_simp
  from infer_domain_convention [OF this] show "inferDomainFromPkgPath ''github.com/x/shop/ddd'' = []" by simp
qed

subsection \<open>What the registry holds\<close>

definition register_proto :: "TypePrototypeRegistry \<Rightarrow> TypePrototype \<Rightarrow> TypePrototypeRegistry" where
  "register_proto r p =
     RegisterWithDomain (tp_Category p) (tp_Domain p) (tp_Name p) (tp_Fields p) (tp_ResultType p) (tp_Result p) r"

lemma register_proto_fields:
  "gm_get (tr_prototypes (register_proto r p)) n = (if n = tp_Name p then Some p else gm_get (tr_prototypes r) n)"
  "gm_or (tr_byCategory (register_proto r p)) c [] = gm_or (tr_byCategory r) c [] @ (if c = tp_Category p then [p] else [])"
  "gm_get (tr_byDomain (register_proto r p)) d =
     (if d = tp_Domain p \<and> d \<noteq> [] then Some (gm_or (tr_byDomain r) d [] @ [p]) else gm_get (tr_byDomain r) d)"
  "tr_domains (register_proto r p) =
     (if tp_Domain p = [] \<or> gm_get (tr_byDomain r) (tp_Domain p) \<noteq> None then tr_domains r else sort (tr_domains r @ [tp_Domain p]))"
  by (auto simp: register_proto_def RegisterWithDomain_def Let_def split: option.splits)

definition registered :: "TypePrototype list \<Rightarrow> TypePrototypeRegistry" where
  "registered ps = foldl register_proto NewTypePrototypeRegistry ps"

lemma registered_holds:
  "gm_get (tr_prototypes (registered ps)) n = find (\<lambda>p. tp_Name p = n) (rev ps)"
  "gm_or (tr_byCategory (registered ps)) c [] = filter (\<lambda>p. tp_Category p = c) ps"
  "gm_get (tr_byDomain (registered ps)) d =
     (if d = [] \<or> d \<notin> tp_Domain ` set ps then None else Some (filter (\<lambda>p. tp_Domain p = d) ps))"
  "sorted (tr_domains (registered ps)) \<and> distinct (tr_domains (registered ps)) \<and>
     set (tr_domains (registered ps)) = tp_Domain ` set ps - {[]}"
proof -
  have "gm_get (tr_prototypes (registered ps)) n = find (\<lambda>p. tp_Name p = n) (rev ps) \<and>
    gm_or (tr_byCategory (registered ps)) c [] = filter (\<lambda>p. tp_Category p = c) ps"
    by (induction ps rule: rev_induct)
      (simp_all add: registered_def NewTypePrototypeRegistry_def register_proto_fields)
  then show "gm_get (tr_prototypes (registered ps)) n = find (\<lambda>p. tp_Name p = n) (rev ps)"
    "gm_or (tr_byCategory (registered ps)) c [] = filter (\<lambda>p. tp_Category p = c) ps"
    by simp_all
  have "(\<forall>d. gm_get (tr_byDomain (registered ps)) d =
        (if d = [] \<or> d \<notin> tp_Domain ` set ps then None else Some (filter (\<lambda>p. tp_Domain p = d) ps))) \<and>
      sorted (tr_domains (registered ps)) \<and> distinct (tr_domains (registered ps)) \<and>
      set (tr_domains (registered ps)) = tp_Domain ` set ps - {[]}"
  proof (induction ps rule: rev_induct)
    case Nil
    show ?case by (simp add: registered_def NewTypePrototypeRegistry_def)
  next
    case (snoc p ps)
    have r: "registered (ps @ [p]) = register_proto (registered ps) p"
      by (simp add: registered_def)
    have none: "filter (\<lambda>q. tp_Domain q = d) ps = []" if "d \<notin> tp_Domain ` set ps" for d
      using that by (auto simp: filter_empty_conv)
    show ?case
      using snoc unfolding r register_proto_fields by (auto simp: none)
  qed
  then show "gm_get (tr_byDomain (registered ps)) d =
     (if d = [] \<or> d \<notin> tp_Domain ` set ps then None else Some (filter (\<lambda>p. tp_Domain p = d) ps))"
    "sorted (tr_domains (registered ps)) \<and> distinct (tr_domains (registered ps)) \<and>
     set (tr_domains (registered ps)) = tp_Domain ` set ps - {[]}"
    by blast+
qed

text \<open>
  The registry after any registrations.  A name stands for its last registration; the list of a category and
  that of a domain have every registration of it, repeated names included, in the order of names, and of
  categories first for a domain; the domains are listed once each, in order.
\<close>

theorem registry_lists:
  fixes ps :: "TypePrototype list" and c d n :: string
  defines "r \<equiv> registered ps"
  shows "tr_Get r n = find (\<lambda>p. tp_Name p = n) (rev ps) \<and>
    (let byc = fst (ListByCategory c r) in sorted (map tp_Name byc) \<and> mset byc = mset (filter (\<lambda>p. tp_Category p = c) ps)) \<and>
    CountByCategory r c = length (filter (\<lambda>p. tp_Category p = c) ps) \<and>
    sorted (ListDomains r) \<and> distinct (ListDomains r) \<and> set (ListDomains r) = tp_Domain ` set ps - {[]} \<and>
    (let byd = fst (ListByDomain d r) in sorted (map tp_key byd) \<and>
       mset byd = mset (if d = [] then [] else filter (\<lambda>p. tp_Domain p = d) ps)) \<and>
    mset (di_Commands (GetDomainInfo r d)) =
      mset (if d = [] then [] else filter (\<lambda>p. tp_Domain p = d \<and> tp_Category p = ''command'') ps) \<and>
    fst (ListByCategory c (snd (ListByDomain d (snd (ListByCategory c r))))) = fst (ListByCategory c r)"
proof -
  have none: "filter (\<lambda>q. tp_Domain q = d) ps = []" if "d \<notin> tp_Domain ` set ps"
    using that by (auto simp: filter_empty_conv)
  have byd: "gm_or (tr_byDomain r) d [] = (if d = [] then [] else filter (\<lambda>p. tp_Domain p = d) ps)"
    unfolding r_def registered_holds(3) by (auto simp: none)
  have cmds: "filter (\<lambda>p. tp_Category p = ''command'') (filter (\<lambda>p. tp_Domain p = d) ps) =
      filter (\<lambda>p. tp_Domain p = d \<and> tp_Category p = ''command'') ps"
    by (simp add: conj_commute)
  have again: "sort_slice tp_Name (sort_slice tp_Name xs) = sort_slice tp_Name xs" for xs
    by (simp add: sort_slice_def sort_key_id_if_sorted)
  have twice: "fst (ListByCategory c (snd (ListByDomain d (snd (ListByCategory c r))))) = fst (ListByCategory c r)"
    by (auto simp: ListByCategory_def ListByDomain_def store_sorted_def Let_def again split: option.splits)
  have cat: "gm_or (tr_byCategory r) c [] = filter (\<lambda>p. tp_Category p = c) ps" "tr_Get r n = find (\<lambda>p. tp_Name p = n) (rev ps)"
    unfolding r_def tr_Get_def by (rule registered_holds)+
  have info: "mset (di_Commands (GetDomainInfo r d)) =
      mset (if d = [] then [] else filter (\<lambda>p. tp_Domain p = d \<and> tp_Category p = ''command'') ps)"
    unfolding GetDomainInfo_def Let_def byd DomainInfo.select_convs sort_slice_mset
    by (cases "d = []") (simp_all only: simp_thms if_True if_False filter.simps cmds)
  have doms: "sorted (ListDomains r) \<and> distinct (ListDomains r) \<and> set (ListDomains r) = tp_Domain ` set ps - {[]}"
    unfolding r_def ListDomains_def by (rule registered_holds)
  have lists: "fst (ListByCategory c r) = sort_slice tp_Name (filter (\<lambda>p. tp_Category p = c) ps)"
    "fst (ListByDomain d r) = sort_slice tp_key (if d = [] then [] else filter (\<lambda>p. tp_Domain p = d) ps)"
    "CountByCategory r c = length (filter (\<lambda>p. tp_Category p = c) ps)"
    by (simp_all only: ListByCategory_def ListByDomain_def CountByCategory_def Let_def fst_conv byd cat)
  show ?thesis
    using doms info twice unfolding lists cat Let_def sort_slice_mset by simp
qed

subsection \<open>Names and domains of collected types\<close>

lemma RegisterWithDomain_get:
  "gm_get (tr_prototypes (RegisterWithDomain cat domn name flds rt res r)) n =
     (if n = name then Some \<lparr>tp_Name = name, tp_Category = cat, tp_Domain = domn, tp_Fields = flds,
                            tp_ResultType = rt, tp_Result = res\<rparr>
      else gm_get (tr_prototypes r) n)"
  by (simp add: RegisterWithDomain_def Let_def)

lemma RegisterFromSample_get:
  assumes "RegisterFromSample env cat name sample res r = Some r'"
  shows "(\<exists>proto. gm_get (tr_prototypes r') name = (if type_of sample = None then gm_get (tr_prototypes r) name else Some proto) \<and>
            tp_Domain proto = inferDomainFromSample env sample) \<and>
         (\<forall>n. n \<noteq> name \<longrightarrow> gm_get (tr_prototypes r') n = gm_get (tr_prototypes r) n)"
  using assms
  by (cases "type_of sample")
    (auto simp: RegisterFromSample_def RegisterFromSampleWithDomain_def RegisterFromTypeWithDomain_def RegisterWithDomain_get
       Let_def bind_eq_Some_conv intro: exI [of _ "\<lparr>tp_Name = name, tp_Category = cat, tp_Domain = inferDomainFromSample env sample,
         tp_Fields = [], tp_ResultType = [], tp_Result = []\<rparr>"])

lemma collect_names_domain:
  assumes "collect_names env cat (Some get) names r = Some r'"
    and "type_of (fst (get n)) \<noteq> None"
  shows "if n \<in> set names
    then \<exists>proto. gm_get (tr_prototypes r') n = Some proto \<and> tp_Domain proto = inferDomainFromSample env (fst (get n))
    else gm_get (tr_prototypes r') n = gm_get (tr_prototypes r) n"
  using assms(1)
proof (induction names arbitrary: r)
  case (Cons name names)
  obtain sample res where g: "get name = (sample, res)"
    by (cases "get name")
  let ?one = "if type_of sample \<noteq> None then RegisterFromSample env cat name sample res r else Some (tr_Register cat name [] [] [] r)"
  obtain r1 where r1: "?one = Some r1" "collect_names env cat (Some get) names r1 = Some r'"
    using Cons.prems g by (auto simp: bind_eq_Some_conv)
  have one: "gm_get (tr_prototypes r1) n = gm_get (tr_prototypes r) n" if "n \<noteq> name"
    using r1(1) that RegisterFromSample_get [of env cat name sample res r r1]
    by (auto simp: tr_Register_def RegisterWithDomain_get split: if_splits)
  have same: "\<exists>proto. gm_get (tr_prototypes r1) n = Some proto \<and> tp_Domain proto = inferDomainFromSample env (fst (get n))"
    if "n = name"
    using r1(1) that g assms(2) RegisterFromSample_get [of env cat name sample res r r1] by auto
  show ?case
    using Cons.IH [OF r1(2)] one same by (cases "n = name"; cases "n \<in> set names") auto
qed simp

lemma collect_names_keep:
  "collect_names env cat provider names r = Some r' \<Longrightarrow> n \<notin> set names \<Longrightarrow>
     gm_get (tr_prototypes r') n = gm_get (tr_prototypes r) n"
proof (induction names arbitrary: r)
  case (Cons name names)
  then show ?case
    by (auto simp: bind_eq_Some_conv tr_Register_def RegisterWithDomain_get split: prod.splits if_splits
        dest!: RegisterFromSample_get)
qed simp

lemma collect_from_keep:
  assumes "collect_from env cat provider bus r = Some (Ret r')" and "\<And>names. bus = Some (Ret names) \<Longrightarrow> n \<notin> set names"
  shows "gm_get (tr_prototypes r') n = gm_get (tr_prototypes r) n"
  using assms by (auto simp: collect_from_def split: option.splits outcome.splits intro!: collect_names_keep)

lemma then_collect_Ret: "then_collect x f = Some (Ret r) \<longleftrightarrow> (\<exists>r1. x = Some (Ret r1) \<and> f r1 = Some (Ret r))"
  by (auto simp: then_collect_def split: option.splits outcome.splits)

lemma type_name_listed:
  "typeNamesFromMap m = Ret names \<Longrightarrow> gm_get m (Some (TPtr (TNamed p n))) \<noteq> None \<Longrightarrow> n \<in> set names"
proof (induction m arbitrary: names rule: typeNamesFromMap.induct)
  case (3 t h m)
  then show ?case by (auto simp: out_bind_eq_Ret gm_get_def split: if_splits)
qed (auto simp: gm_get_def)

lemma normalize_command_name:
  assumes "CHR ''.'' \<notin> set n"
  shows "normalizeTypeName (''Command/'' @ ''*'' @ pkg @ ''.'' @ n) = n"
proof -
  have "trim_prefix (''Command/'' @ x) ''Command/'' = x" "trim_prefix (CHR ''*'' # y) ''Query/'' = CHR ''*'' # y"
    "trim_prefix (CHR ''*'' # y) ''Event/'' = CHR ''*'' # y" "trim_prefix (CHR ''*'' # y) ''*'' = y" for x y
    by (simp_all add: trim_prefix_def has_prefix_def)
  then have "normalizeTypeName (''Command/'' @ ''*'' @ pkg @ ''.'' @ n) = after_last_dot (pkg @ ''.'' @ n)"
    unfolding normalizeTypeName_def by simp
  moreover have "takeWhile (\<lambda>c. c \<noteq> CHR ''.'') (rev n @ CHR ''.'' # rev pkg) = rev n"
    using assms by (subst takeWhile_append2) auto
  ultimately show ?thesis by (simp add: after_last_dot_def)
qed

text \<open>
  The viewer finds a command's domain under the name its statistics have.  When the registry is collected
  from the buses with a sample of a command's type, the domain looked up for the name that the metrics aspect
  records for such a command is the domain that the lint rules read from the type's package.
\<close>

theorem viewer_finds_domain:
  fixes b :: "('s, 'c, 'e, 'v) messageBus" and v :: 'd
  assumes "gm_get (mb_handlers b) (Some (TPtr (TNamed p n))) \<noteq> None"
    and "NewTypePrototypeRegistryFromBuses env (Some (registeredTypes b)) qb eb (Some prov) = Some (Ret r)"
    and "fst (GetCommandSample prov n) = GAny (TPtr (TNamed p n)) v"
    and "\<And>names. qb = Some (Ret names) \<or> eb = Some (Ret names) \<Longrightarrow> n \<notin> set names"
    and "ParsePkgPath p = Ret (Some i)" and "CHR ''.'' \<notin> set n"
  shows "tr_GetTypeDomain r (''Command/'' @ pct_T (GAny (TPtr (TNamed p n)) v)) = pk_DomainName i"
proof -
  obtain r1 r2 where c: "CollectFromCommandBus env (Some (registeredTypes b)) (Some prov) NewTypePrototypeRegistry = Some (Ret r1)"
    and q: "CollectFromQueryBus env qb (Some prov) r1 = Some (Ret r2)" and e: "CollectFromEventBus env eb (Some prov) r2 = Some (Ret r)"
    using assms(2) unfolding NewTypePrototypeRegistryFromBuses_def CollectFromBuses_def then_collect_Ret by blast
  obtain names where names: "typeNamesFromMap (mb_handlers b) = Ret names"
    "collect_names env ''command'' (Some (GetCommandSample prov)) names NewTypePrototypeRegistry = Some r1"
    using c by (auto simp: CollectFromCommandBus_def collect_from_def registeredTypes_def split: outcome.splits)
  have "n \<in> set names"
    using type_name_listed [OF names(1) assms(1)] .
  then obtain proto where "gm_get (tr_prototypes r1) n = Some proto"
    "tp_Domain proto = inferDomainFromSample env (GAny (TPtr (TNamed p n)) v)"
    using collect_names_domain [OF names(2), of n] assms(3) by auto
  moreover have "gm_get (tr_prototypes r) n = gm_get (tr_prototypes r1) n"
    using collect_from_keep [OF q [unfolded CollectFromQueryBus_def], of n]
      collect_from_keep [OF e [unfolded CollectFromEventBus_def], of n] assms(4) by simp
  moreover have "inferDomainFromSample env (GAny (TPtr (TNamed p n)) v) = pk_DomainName i"
    using assms(5) infer_domain_some [of p] by (cases p rule: ParsePkgPath_cases) (auto simp: inferDomainFromSample_def elem_of_ptr_def)
  moreover have "normalizeTypeName (''Command/'' @ pct_T (GAny (TPtr (TNamed p n)) v)) = n"
    using normalize_command_name [OF assms(6), of "last (split_on CHR ''/'' p)"] by (simp add: pct_T_def type_text_def)
  ultimately show ?thesis
    by (simp add: tr_GetTypeDomain_def)
qed

subsection \<open>Formatting types\<close>

text \<open>Types whose named types are structs or basic types are formatted, whatever they are made of.\<close>

lemma format_returns:
  assumes "\<And>t. env t = VOther \<or> (\<exists>fs. env t = VStruct fs)"
  shows "formatFieldType env t \<noteq> None"
proof (induction t)
  case (TNamed p n)
  then show ?case using assms [of "TNamed p n"] by (subst formatFieldType.simps) auto
next
  case (TLit s)
  then show ?case using assms [of "TLit s"] by (subst formatFieldType.simps) auto
qed (subst formatFieldType.simps, auto)+

lemma format_recursive: "view env t = VSlice t \<Longrightarrow> formatFieldType env t = None"
proof (cases "formatFieldType env t")
  case (Some s)
  assume "view env t = VSlice t"
  then have "formatFieldType env t = map_option (\<lambda>s. ''[]'' @ s) (formatFieldType env t)"
    by (subst formatFieldType.simps) (cases "formatFieldType env t"; simp)
  with Some show ?thesis by simp
qed

lemma format_fields_None: "(f, True, t) \<in> set flds \<Longrightarrow> formatFieldType env t = None \<Longrightarrow> format_fields env flds = None"
proof (induction flds)
  case (Cons x flds)
  then show ?case by (cases x) (auto simp: bind_eq_None_conv)
qed simp

lemma format_fields_returns:
  assumes "\<And>t. formatFieldType env t \<noteq> None"
  shows "format_fields env flds \<noteq> None"
proof -
  have f: "formatFieldType env t = Some (the (formatFieldType env t))" for t
    using assms [of t] by simp
  show ?thesis
  proof (induction flds)
    case (Cons x flds)
    obtain a b t where x: "x = (a, b, t)"
      by (cases x)
    obtain s y where "formatFieldType env t = Some s" "format_fields env flds = Some y"
      using f [of t] Cons by blast
    then show ?case by (simp add: x)
  qed simp
qed

text \<open>Collecting a type ends when its named types and type literals are structs or basic types.\<close>

theorem sample_registration_ends:
  assumes "\<And>t. env t = VOther \<or> (\<exists>fs. env t = VStruct fs)"
  shows "RegisterFromSample env cat name sample res r \<noteq> None"
proof -
  have "extractFields env t \<noteq> None" for t
    using format_fields_returns [OF format_returns [OF assms]]
    by (simp add: extractFields_def Let_def split: option.split gview.split)
  then have x: "extractFields env t = Some (the (extractFields env t))" for t
    by simp
  show ?thesis
    unfolding RegisterFromSample_def RegisterFromSampleWithDomain_def RegisterFromTypeWithDomain_def
    by (subst (1 2) x) (simp add: Let_def split: option.split)
qed

theorem sample_registration_ends_witness:
  "RegisterFromSample (\<lambda>t. if t = TNamed ''shop'' ''Pay'' then VStruct [(''Sum'', True, TSlice (TMap (TBasic ''string'') (TBasic ''int'')))] else VOther)
     ''command'' ''Pay'' (GAny (TPtr (TNamed ''shop'' ''Pay'')) ()) GNil NewTypePrototypeRegistry \<noteq> None"
  by (rule sample_registration_ends) simp

text \<open>
  It does not end for a struct with an exported field of a recursive slice type such as \<open>type T []T\<close>: the
  recursion of \<open>formatFieldType\<close> never returns, which overflows the program's stack.
\<close>

theorem recursive_field_overflows:
  assumes "env (TNamed p n) = VStruct flds" and "(f, True, t) \<in> set flds" and "view env t = VSlice t"
  shows "RegisterFromSample env cat name (GAny (TPtr (TNamed p n)) v) res r = None"
proof -
  have "format_fields env flds = None"
    using format_fields_None [OF assms(2)] format_recursive [OF assms(3)] by blast
  then have "extractFields env (Some (TNamed p n)) = None"
    using assms(1) by (simp add: extractFields_def elem_of_ptr_def Let_def)
  then show ?thesis
    by (simp add: RegisterFromSample_def RegisterFromSampleWithDomain_def RegisterFromTypeWithDomain_def elem_of_ptr_def)
qed

theorem recursive_field_overflows_witness:
  "RegisterFromSample (\<lambda>t. if t = TNamed ''shop'' ''Tree'' then VSlice (TNamed ''shop'' ''Tree'')
       else if t = TNamed ''shop'' ''Pay'' then VStruct [(''Kids'', True, TNamed ''shop'' ''Tree'')] else VOther)
     ''command'' ''Pay'' (GAny (TPtr (TNamed ''shop'' ''Pay'')) ()) GNil NewTypePrototypeRegistry = None"
  by (rule recursive_field_overflows [where t = "TNamed ''shop'' ''Tree''"]) auto

text \<open>A bus with one handler, its command's type under the package of the order domain.\<close>

theorem viewer_finds_domain_witness:
  "\<exists>r. NewTypePrototypeRegistryFromBuses (\<lambda>t. VOther)
      (Some (registeredTypes ((newMessageBus NewAspectChain :: (unit, unit, unit, unit) messageBus)
         \<lparr>mb_handlers := [(Some (TPtr (TNamed ''shop/ddd/order/command'' ''Pay'')), h)]\<rparr>))) None None
      (Some (rp_provider (rp_RegisterCommand ''Pay'' (GAny (TPtr (TNamed ''shop/ddd/order/command'' ''Pay'')) ()) GNil NewReflectionSampleProvider))) =
      Some (Ret r) \<and>
    tr_GetTypeDomain r ''Command/*command.Pay'' = ''order''"
proof -
  let ?p = "''shop/ddd/order/command''"
  let ?b = "(newMessageBus NewAspectChain :: (unit, unit, unit, unit) messageBus)\<lparr>mb_handlers := [(Some (TPtr (TNamed ?p ''Pay'')), h)]\<rparr>"
  let ?prov = "rp_provider (rp_RegisterCommand ''Pay'' (GAny (TPtr (TNamed ?p ''Pay'')) ()) GNil NewReflectionSampleProvider)"
  have get: "GetCommandSample ?prov ''Pay'' = (GAny (TPtr (TNamed ?p ''Pay'')) (), GNil)"
    by (simp add: rp_provider_def rp_RegisterCommand_def)
  have names: "registeredTypes ?b = Ret [''Pay'']"
    by (simp add: registeredTypes_def)
  have "RegisterFromSample (\<lambda>t. VOther) ''command'' ''Pay'' (GAny (TPtr (TNamed ?p ''Pay'')) ()) GNil NewTypePrototypeRegistry \<noteq> None"
    by (rule sample_registration_ends) simp
  then obtain r where "RegisterFromSample (\<lambda>t. VOther) ''command'' ''Pay'' (GAny (TPtr (TNamed ?p ''Pay'')) ()) GNil NewTypePrototypeRegistry = Some r"
    by blast
  then have r: "NewTypePrototypeRegistryFromBuses (\<lambda>t. VOther) (Some (registeredTypes ?b)) None None (Some ?prov) = Some (Ret r)"
    unfolding names
    by (simp add: NewTypePrototypeRegistryFromBuses_def CollectFromBuses_def CollectFromCommandBus_def CollectFromQueryBus_def
        CollectFromEventBus_def collect_from_def then_collect_def get)
  have handled: "gm_get (mb_handlers ?b) (Some (TPtr (TNamed ?p ''Pay''))) \<noteq> None"
    by (simp add: gm_get_def)
  have parsed: "\<exists>i. ParsePkgPath ?p = Ret (Some i) \<and> pk_DomainName i = ''order''"
    by (intro exI conjI, rule ParsePkgPath_segs [of "[]" "''shop''" "''order''" "[''command'']", unfolded path_of_def, simplified])
      (simp_all add: segs_ok_def)
  then obtain i where i: "ParsePkgPath ?p = Ret (Some i)" "pk_DomainName i = ''order''"
    by blast
  have "fst (GetCommandSample ?prov ''Pay'') = GAny (TPtr (TNamed ?p ''Pay'')) ()"
    by (simp add: get)
  from viewer_finds_domain [OF handled r this _ i(1)] i(2) r show ?thesis
    by (intro exI [of _ r]) (simp add: pct_T_def type_text_def)
qed

end
