(* ===== verification/ExampleApp.thy ===== *)
theory ExampleApp
  imports InventoryService StatsModel Application Relationship MessageStores
begin

text \<open>
  The example application put together: the order handlers as the buses see them
  (\<open>exampleapp/ddd/order/command/handlers.go\<close>, \<open>query/handlers.go\<close>, \<open>event/handlers.go\<close>), their wiring
  (\<open>order/wire/wire.go\<close>), and the wiring and shutdown of the application on the in-memory store
  (\<open>exampleapp/infrastructure/wire.go\<close>, \<open>RegisterHandlerEmits\<close> of \<open>type_registry.go\<close>).

  The state is the inventory, the orders and the rest of the world.  Clock, UUIDs and timers are
  arguments (\<open>order_env\<close>); so are the logger, the recorders and the stores of the aspects (\<open>wiring\<close>).
\<close>

type_synonym ('f, 'w) shop = "('f, 'f order_world \<times> 'w) inventory_world"

subsection \<open>The order handlers\<close>

text \<open>
  \<open>oe_wait ctx d\<close> is the \<open>select\<close> between a timer of \<open>d\<close> and the end of the context: \<open>None\<close> when the timer
  fires first, else the time at which the context had ended.
\<close>

record ('f, 's) order_env =
  oe_float :: "'f float_ops"
  oe_uuid :: "'s \<Rightarrow> nat list \<times> 's"
  oe_now :: "'s \<Rightarrow> time \<times> 's"
  oe_rfc :: "time \<Rightarrow> string"
  oe_wait :: "go_ctx \<Rightarrow> duration \<Rightarrow> 's \<Rightarrow> time option \<times> 's"

definition GenerateReport_Handle ::
    "('f, 's) order_env \<Rightarrow> go_ctx \<Rightarrow> string \<Rightarrow> 's \<Rightarrow> (report option \<times> go_error option) \<times> 's" where
  "GenerateReport_Handle env ctx orderID s =
     (case oe_wait env ctx (200 * 1000000) s of
        (Some ended, s1) \<Rightarrow> ((None, ctx_Err ctx ended), s1)
      | (None, s1) \<Rightarrow>
          (let (now, s2) = oe_now env s1; (now2, s3) = oe_now env s2
           in ((Some \<lparr>rp_ReportID = ''RPT-'' @ show_int now, rp_OrderID = orderID,
                      rp_Content = ''Report for order '' @ orderID @ '' generated at '' @ oe_rfc env now2,
                      rp_Generated = True\<rparr>, None), s3)))"

definition ProcessBatch_Handle ::
    "('f, 's) order_env \<Rightarrow> go_ctx \<Rightarrow> string \<Rightarrow> duration \<Rightarrow> 's \<Rightarrow> (batch \<times> go_error option) \<times> 's" where
  "ProcessBatch_Handle env ctx orderID d s =
     (let (start, s1) = oe_now env s in
      case oe_wait env ctx d s1 of
        (Some ended, s2) \<Rightarrow>
          (let (now, s3) = oe_now env s2
           in ((\<lparr>bt_OrderID = orderID, bt_Processed = False, bt_DurationUsed = now - start\<rparr>, ctx_Err ctx ended), s3))
      | (None, s2) \<Rightarrow>
          (let (now, s3) = oe_now env s2
           in ((\<lparr>bt_OrderID = orderID, bt_Processed = True, bt_DurationUsed = now - start\<rparr>, None), s3)))"

text \<open>A handler's work on the orders, in the whole state.\<close>

definition on_orders :: "('f order_world \<Rightarrow> 'a \<times> 'f order_world) \<Rightarrow> ('f, 'w) shop \<Rightarrow> 'a \<times> ('f, 'w) shop" where
  "on_orders f = (\<lambda>(iv, (ow, w)). case f ow of (r, ow1) \<Rightarrow> (r, (iv, (ow1, w))))"

abbreviation wrong_type :: "'s \<Rightarrow> 'f app_result retval list outcome \<times> 's" where
  "wrong_type s \<equiv> (Panic ''reflect: Call using wrong type'', s)"

text \<open>The UUID and the clock are read before the work on the orders.\<close>

definition place_order_handler ::
    "('f, ('f, 'w) shop) order_env \<Rightarrow> (('f, 'w) shop, go_ctx, 'f app_msg, 'f app_result) handler" where
  "place_order_handler env =
     pointer_handler (order_in ''command'' ''PlaceOrderHandler'') (order_in ''command'' ''PlaceOrderCommand'') 11
       (\<lambda>ctx m s. case m of
          PlaceOrderCommand userID inputs \<Rightarrow>
            (let (uid, s1) = oe_uuid env s; (now, s2) = oe_now env s1; (now2, s3) = oe_now env s2 in
             case on_orders (PlaceOrder_Handle (oe_float env) uid now now2 ctx userID inputs) s3 of
               (Panic e, s4) \<Rightarrow> (Panic e, s4)
             | (Ret (Inl err), s4) \<Rightarrow> (Ret [RVal (PlaceOrderResult None), RErr err], s4)
             | (Ret (Inr r), s4) \<Rightarrow> (Ret [RVal (PlaceOrderResult (Some r)), RNil], s4))
        | other \<Rightarrow> wrong_type s)"

text \<open>What the three handlers that change an order return to reflection.\<close>

definition change_order ::
    "('f, ('f, 'w) shop) order_env \<Rightarrow> (bool option \<Rightarrow> 'f app_result) \<Rightarrow>
     (time \<Rightarrow> 'f order_world \<Rightarrow> (go_error + bool) \<times> 'f order_world) \<Rightarrow> (('f, 'w) shop, 'f app_result retval list) prog" where
  "change_order env result f s =
     (let (now, s1) = oe_now env s in
      case on_orders (f now) s1 of
        (Inl err, s2) \<Rightarrow> (Ret [RVal (result None), RErr err], s2)
      | (Inr ok, s2) \<Rightarrow> (Ret [RVal (result (Some ok)), RNil], s2))"

definition confirm_handler ::
    "('f, ('f, 'w) shop) order_env \<Rightarrow> (('f, 'w) shop, go_ctx, 'f app_msg, 'f app_result) handler" where
  "confirm_handler env =
     pointer_handler (order_in ''command'' ''ConfirmPaymentHandler'') (order_in ''command'' ''ConfirmPaymentCommand'') 12
       (\<lambda>ctx m s. case m of
          ConfirmPaymentCommand i \<Rightarrow> change_order env ConfirmPaymentResult (\<lambda>now. ConfirmPayment_Handle now ctx i) s
        | other \<Rightarrow> wrong_type s)"

definition ship_handler ::
    "('f, ('f, 'w) shop) order_env \<Rightarrow> (('f, 'w) shop, go_ctx, 'f app_msg, 'f app_result) handler" where
  "ship_handler env =
     pointer_handler (order_in ''command'' ''ShipOrderHandler'') (order_in ''command'' ''ShipOrderCommand'') 13
       (\<lambda>ctx m s. case m of
          ShipOrderCommand i \<Rightarrow> change_order env ShipOrderResult (\<lambda>now. ShipOrder_Handle now ctx i) s
        | other \<Rightarrow> wrong_type s)"

definition cancel_order_handler ::
    "('f, ('f, 'w) shop) order_env \<Rightarrow> (('f, 'w) shop, go_ctx, 'f app_msg, 'f app_result) handler" where
  "cancel_order_handler env =
     pointer_handler (order_in ''command'' ''CancelOrderHandler'') (order_in ''command'' ''CancelOrderCommand'') 14
       (\<lambda>ctx m s. case m of
          CancelOrderCommand i reason \<Rightarrow> change_order env CancelOrderResult (\<lambda>now. CancelOrder_Handle now ctx i reason) s
        | other \<Rightarrow> wrong_type s)"

definition report_handler ::
    "('f, ('f, 'w) shop) order_env \<Rightarrow> (('f, 'w) shop, go_ctx, 'f app_msg, 'f app_result) handler" where
  "report_handler env =
     pointer_handler (order_in ''command'' ''GenerateReportHandler'') (order_in ''command'' ''GenerateReportCommand'') 15
       (\<lambda>ctx m s. case m of
          GenerateReportCommand i \<Rightarrow>
            (case GenerateReport_Handle env ctx i s of
               ((r, err), s1) \<Rightarrow> (Ret [RVal (GenerateReportResult r), error_result err], s1))
        | other \<Rightarrow> wrong_type s)"

definition get_order_handler ::
    "('f, ('f, 'w) shop) order_env \<Rightarrow> (('f, 'w) shop, go_ctx, 'f app_msg, 'f app_result) handler" where
  "get_order_handler env =
     pointer_handler (order_in ''query'' ''GetOrderHandler'') (order_in ''query'' ''GetOrderQuery'') 16
       (\<lambda>ctx m s. case m of
          GetOrderQuery i \<Rightarrow>
            (case GetOrder_Handle (oe_float env) (oe_rfc env) i (fst (snd s)) of
               Inl err \<Rightarrow> (Ret [RVal (GetOrderResult None), RErr err], s)
             | Inr r \<Rightarrow> (Ret [RVal (GetOrderResult (Some r)), RNil], s))
        | other \<Rightarrow> wrong_type s)"

definition list_orders_handler ::
    "('f, ('f, 'w) shop) order_env \<Rightarrow> (('f, 'w) shop, go_ctx, 'f app_msg, 'f app_result) handler" where
  "list_orders_handler env =
     pointer_handler (order_in ''query'' ''ListOrdersHandler'') (order_in ''query'' ''ListOrdersQuery'') 17
       (\<lambda>ctx m s. (Ret [RVal (ListOrdersResult (ListOrders_Handle (oe_float env) (oe_rfc env) (fst (snd s)))), RNil], s))"

text \<open>It prints and succeeds.\<close>

definition notification_handler :: "(('f, 'w) shop, go_ctx, 'f app_msg, 'f app_result) handler" where
  "notification_handler =
     pointer_handler (order_in ''event'' ''OrderPlacedNotificationHandler'') placed_type 18 (\<lambda>ctx m s. (Ret [RNil], s))"

subsection \<open>Wiring the orders\<close>

definition order_commands ::
    "('f, ('f, 'w) shop) order_env \<Rightarrow> (string \<times> (('f, 'w) shop, go_ctx, 'f app_msg, 'f app_result) handler) list" where
  "order_commands env =
     [(''PlaceOrderHandler'', place_order_handler env), (''ConfirmPaymentHandler'', confirm_handler env),
      (''ShipOrderHandler'', ship_handler env), (''CancelOrderHandler'', cancel_order_handler env),
      (''GenerateReportHandler'', report_handler env)]"

definition order_queries ::
    "('f, ('f, 'w) shop) order_env \<Rightarrow> (string \<times> (('f, 'w) shop, go_ctx, 'f app_msg, 'f app_result) handler) list" where
  "order_queries env = [(''GetOrderHandler'', get_order_handler env), (''ListOrdersHandler'', list_orders_handler env)]"

definition WireOrder ::
    "('b, ('f, 'w) shop, 'f app_msg, 'f app_result) registrar \<Rightarrow> ('f, ('f, 'w) shop) order_env \<Rightarrow> 'b \<Rightarrow>
     (go_error option \<times> 'b) outcome" where
  "WireOrder rg env b =
     out_bind (register_via (rg_cmd rg) b (order_commands env))
       (\<lambda>(err, b1). case err of Some e \<Rightarrow> Ret (Some e, b1) | None \<Rightarrow>
     out_bind (register_via (rg_query rg) b1 (order_queries env))
       (\<lambda>(err, b2). case err of Some e \<Rightarrow> Ret (Some e, b2) | None \<Rightarrow>
     register_via (rg_event rg) b2 [(''OrderPlacedNotificationHandler'', notification_handler)]))"

subsection \<open>The buses that notify the relationship registry\<close>

definition notifying_buses :: "(('s, 'd, 'v) buses \<times> registry, 's, 'd, 'v) registrar" where
  "notifying_buses =
     \<lparr>rg_cmd = (\<lambda>(b, r) h. out_bind (NotifyingCommandBus_RegisterHandler CommandBus_RegisterHandler (bs_cmd b, r) h)
         (\<lambda>((c, r1), e). Ret ((b\<lparr>bs_cmd := c\<rparr>, r1), e))),
      rg_query = (\<lambda>(b, r) h. out_bind (NotifyingQueryBus_RegisterHandler QueryBus_RegisterHandler (bs_query b, r) h)
         (\<lambda>((q, r1), e). Ret ((b\<lparr>bs_query := q\<rparr>, r1), e))),
      rg_event = (\<lambda>(b, r) h. out_bind (NotifyingEventBus_SubscribeHandler SubscribeHandler (bs_event b, r) h)
         (\<lambda>((v, r1), e). Ret ((b\<lparr>bs_event := v\<rparr>, r1), e)))\<rparr>"

interpretation notifying: bus_registrar notifying_buses fst
  by unfold_locales
    (auto simp: notifying_buses_def payload_found_def NotifyingCommandBus_RegisterHandler_def
      NotifyingQueryBus_RegisterHandler_def NotifyingEventBus_SubscribeHandler_def Let_def)

text \<open>The events each handler publishes, as the application declares them.\<close>

definition RegisterHandlerEmits :: "registry \<Rightarrow> registry" where
  "RegisterHandlerEmits reg =
     RecordHandlerEmits ''ReleaseInventoryHandler'' ''InventoryReleasedEvent''
     (RecordHandlerEmits ''ReserveInventoryHandler'' ''InventoryReservedEvent''
     (RecordHandlerEmits ''CancelOrderHandler'' ''OrderCancelledEvent''
     (RecordHandlerEmits ''ShipOrderHandler'' ''OrderShippedEvent''
     (RecordHandlerEmits ''ConfirmPaymentHandler'' ''PaymentConfirmedEvent''
     (RecordHandlerEmits ''PlaceOrderHandler'' ''OrderPlacedEvent'' reg)))))"

subsection \<open>Wiring the application\<close>

text \<open>
  The parts of the application that are made elsewhere: its logger, its metrics recorder and the
  statistics collector, the transaction manager it wraps around the backend's, the persistence aspect's
  surroundings for a store, and the shutdowns of the event, command and query bus and of the job manager.
  Both providers set the backend's trace store, transaction manager and message store.
\<close>

record ('s, 'h, 'd, 'v) wiring =
  wi_Logger :: "'s logger"
  wi_Metrics :: "'s metrics_recorder"
  wi_Stats :: "'s metrics_recorder"
  wi_TxManager :: "'s tx_manager \<Rightarrow> 's tx_manager"
  wi_persist :: "'h \<Rightarrow> ('s, 'd, 'v) persist_env"
  wi_ObservableStore :: "('s, 'd, 'v) persist_env"
  wi_Shutdowns :: "(go_ctx \<Rightarrow> 's \<Rightarrow> go_error option \<times> 's) list"

definition example_aspects ::
    "('s, 'h, 'd, 'v) wiring \<Rightarrow> ('s, 'h, 'e, 'r) StoreComponents \<Rightarrow> ('s, go_ctx, 'd goany, 'v) aspect_value list" where
  "example_aspects wi store =
     [TracingAspect (th_env (the (be_TraceStore (sc_Backend store)))),
      LoggingAspect (wi_Logger wi),
      MetricsAspect (ComposeMetrics [wi_Stats wi, wi_Metrics wi]),
      PersistenceAspect (if sc_DB store \<noteq> None then wi_persist wi (the (be_MessageStore (sc_Backend store))) else wi_ObservableStore wi)]"

record ('s, 'h, 'e, 'r, 'd, 'v) AppContext =
  ac_Chain :: "('s, go_ctx, 'd goany, 'v) chain"
  ac_Buses :: "('s, 'd, 'v) buses"
  ac_Registry :: registry
  ac_lifecycles :: "(go_ctx \<Rightarrow> 's \<Rightarrow> go_error option \<times> 's) list"
  ac_store :: "('s, 'h, 'e, 'r) StoreComponents"

definition WireAppWithStore ::
    "(('f, 'w) shop, 'h, 'f app_msg, 'f app_result) wiring \<Rightarrow> ('f, ('f, 'w) shop) order_env \<Rightarrow>
     ('f, 'f order_world \<times> 'w) publisher \<Rightarrow> ('f app_result retval \<Rightarrow> string) \<Rightarrow> ('f, 'f order_world \<times> 'w) execute \<Rightarrow>
     (('f, 'w) shop, 'h, 'e, 'r) StoreComponents \<Rightarrow>
     (go_error + (('f, 'w) shop, 'h, 'e, 'r, 'f app_msg, 'f app_result) AppContext) outcome" where
  "WireAppWithStore wi env publish tname busExecute store =
     (let backend = sc_Backend store;
          ch1 = foldl RegisterAspect NewAspectChain (example_aspects wi store) in
      case NewTransactionAspect (Some (wi_TxManager wi (the (be_TransactionManager backend)))) of
        Inl err \<Rightarrow> Ret (Inl (ErrWrap ''create transaction aspect: '' err []))
      | Inr ta \<Rightarrow>
          (let ch = RegisterCommandAspect ch1 ta in
           out_bind (WireOrder notifying_buses env (new_buses ch, RegisterHandlerEmits NewRegistry))
             (\<lambda>(err, b1). case err of Some e \<Rightarrow> Ret (Inl e) | None \<Rightarrow>
           out_bind (WireInventory notifying_buses (oe_now env) publish tname busExecute b1)
             (\<lambda>(err, b2). case err of Some e \<Rightarrow> Ret (Inl e) | None \<Rightarrow>
           Ret (Inr \<lparr>ac_Chain = ch, ac_Buses = fst b2, ac_Registry = snd b2,
                     ac_lifecycles = wi_Shutdowns wi @ [\<lambda>ctx. Backend_Shutdown backend], ac_store = store\<rparr>)))))"

definition AppContext_RegisterLifecycle ::
    "('s, 'h, 'e, 'r, 'd, 'v) AppContext \<Rightarrow> (go_ctx \<Rightarrow> 's \<Rightarrow> go_error option \<times> 's) \<Rightarrow> ('s, 'h, 'e, 'r, 'd, 'v) AppContext" where
  "AppContext_RegisterLifecycle a l = a\<lparr>ac_lifecycles := ac_lifecycles a @ [l]\<rparr>"

definition AppContext_Close ::
    "('s \<Rightarrow> time) \<Rightarrow> 's db_driver \<Rightarrow> ('s, 'h, 'e, 'r, 'd, 'v) AppContext \<Rightarrow> go_ctx \<Rightarrow> 's \<Rightarrow> go_error option \<times> 's" where
  "AppContext_Close now dv a ctx s =
     (let (errs1, s1) = run_lifecycles now ctx (ac_lifecycles a) [] s;
          (errs2, s2) = (case sc_DB (ac_store a) of
            None \<Rightarrow> (errs1, s1)
          | Some db \<Rightarrow> (case dv_Close dv db s1 of (err, s2) \<Rightarrow> (add_error errs1 err, s2)))
      in (if errs2 = [] then None else Some (ErrText (''shutdown errors: '' @ errors_text errs2)), s2))"

subsection \<open>The wiring succeeds\<close>

lemma register_cmds_split:
  "register_cmds b (hs @ gs) = (None, c) \<Longrightarrow> \<exists>c1. register_cmds b hs = (None, c1) \<and> register_cmds c1 gs = (None, c)"
  by (induction b hs rule: register_cmds.induct) (auto split: prod.splits option.splits)

lemma register_cmds_fresh:
  assumes "list_all (\<lambda>x. payload_found (snd x)) hs" and "distinct (map (\<lambda>x. handler_payload (snd x)) hs)"
    and "\<forall>x\<in>set hs. \<forall>t. handler_payload (snd x) = Some t \<longrightarrow> bus_route b t = None"
  shows "\<exists>c. register_cmds b hs = (None, c)"
  using assms
proof (induction hs arbitrary: b)
  case (Cons x hs)
  obtain what h where x: "x = (what, h)" by (cases x)
  obtain t where t: "handler_payload h = Some t"
    using Cons.prems(1) x by (auto simp: payload_found_def handler_payload_def)
  then have "bus_route b t = None" using Cons.prems(3) x by auto
  then have b1: "CommandBus_RegisterHandler b h =
      (b\<lparr>mb_handlers := gm_put (mb_handlers b) t h, mb_invokers := gm_put (mb_invokers b) t (handler_invoker h)\<rparr>, None)"
    using t by (cases b h rule: registers_cases) auto
  have "bus_route (fst (CommandBus_RegisterHandler b h)) u = None"
    if "y \<in> set hs" "handler_payload (snd y) = Some u" for y u
  proof -
    have "u \<noteq> t" using that t Cons.prems(2) x by (auto simp: image_iff)
    moreover have "bus_route b u = None" using that Cons.prems(3) by auto
    ultimately show ?thesis by (simp add: b1 bus_route_def)
  qed
  then obtain c where "register_cmds (fst (CommandBus_RegisterHandler b h)) hs = (None, c)"
    using Cons.IH [of "fst (CommandBus_RegisterHandler b h)"] Cons.prems(1,2) by auto
  then show ?case using x b1 by auto
qed simp

lemma register_queries_eq: "register_queries b hs = register_cmds b hs"
  by (induction b hs rule: register_cmds.induct) (simp_all add: QueryBus_RegisterHandler_eq split: prod.split option.split)

lemmas order_handlers =
  place_order_handler_def confirm_handler_def ship_handler_def cancel_order_handler_def report_handler_def
  get_order_handler_def list_orders_handler_def notification_handler_def

lemmas shop_lists = order_commands_def order_queries_def inventory_commands_def inventory_subscribers_def

lemma handler_payload_pointer [simp]: "handler_payload (pointer_handler (order_in p n) t a call) = Some (Some t)"
  "handler_payload (pointer_handler (struct_in p n) t a call) = Some (Some t)"
  "payload_found (pointer_handler (order_in p n) t a call)" "payload_found (pointer_handler (struct_in p n) t a call)"
  by (simp_all add: handler_payload_def payload_found_def order_in_def struct_in_def)

lemma pkg_types [simp]:
  "(order_in p n = order_in p n') = (n = n')" "(struct_in p n = struct_in p n') = (n = n')"
  "order_in p n \<noteq> struct_in p' n'" "struct_in p' n' \<noteq> order_in p n"
  "order_in ''command'' n \<noteq> order_in ''query'' n'" "order_in ''query'' n \<noteq> order_in ''command'' n'"
  "struct_in ''command'' n \<noteq> struct_in ''query'' n'"
  by (simp_all add: order_in_def struct_in_def order_pkg_def inventory_pkg_def)

lemma shop_registers:
  fixes env :: "('f, ('f, 'w) shop) order_env"
  obtains c q where
    "register_cmds (newMessageBus ch) (order_commands env @ inventory_commands (oe_now env) publish) = (None, c)"
    "register_queries (newMessageBus ch) (order_queries env @
       [(''GetInventoryHandler'', get_inventory_handler :: (('f, 'w) shop, go_ctx, 'f app_msg, 'f app_result) handler)]) = (None, q)"
proof -
  have "\<exists>c. register_cmds (newMessageBus ch) (order_commands env @ inventory_commands (oe_now env) publish) = (None, c)"
    by (rule register_cmds_fresh) (simp_all add: shop_lists order_handlers inventory_handlers)
  moreover have "\<exists>q. register_cmds (newMessageBus ch) (order_queries env @
       [(''GetInventoryHandler'', get_inventory_handler :: (('f, 'w) shop, go_ctx, 'f app_msg, 'f app_result) handler)]) = (None, q)"
    by (rule register_cmds_fresh) (simp_all add: shop_lists order_handlers inventory_handlers)
  ultimately show thesis using that by (auto simp: register_queries_eq)
qed

lemma subscribe_pointer:
  assumes "h = pointer_handler (TPtr t) p a call" and "already_subscribed (gm_or (eb_handlers b) (Some p) []) h = Ret False"
  shows "SubscribeHandler b h =
    Ret (b\<lparr>eb_handlers := gm_put (eb_handlers b) (Some p) (gm_or (eb_handlers b) (Some p) [] @ [entry_of h])\<rparr>, None)"
  using assms by (simp add: SubscribeHandler_def makeHandlerInvoker_def entry_of_def Let_def)

lemma subscriber_pointers:
  "h_pointer notification_handler = Ret 18" "h_pointer (placed_handler tname ex) = Ret 5" "h_pointer (cancelled_handler tname ex) = Ret 6"
  "he_handler (entry_of h) = h"
  by (simp_all add: notification_handler_def placed_handler_def cancelled_handler_def order_handler_def pointer_handler_def entry_of_def)

lemma shop_subscribes:
  fixes busExecute :: "('f, 'f order_world \<times> 'w) execute"
  obtains v1 v where
    "subscribe_all (NewEventBus [WithEventBusAspectChain ch])
       [(''OrderPlacedNotificationHandler'', notification_handler :: (('f, 'w) shop, go_ctx, 'f app_msg, 'f app_result) handler)] = Ret (None, v1)"
    "subscribe_all v1 (inventory_subscribers tname busExecute) = Ret (None, v)"
    "map fst (eb_handlers v) = [Some placed_type, Some cancelled_type]"
proof -
  let ?n = "notification_handler :: (('f, 'w) shop, go_ctx, 'f app_msg, 'f app_result) handler"
  let ?p = "placed_handler tname busExecute" and ?c = "cancelled_handler tname busExecute" and ?b = "NewEventBus [WithEventBusAspectChain ch]"
  obtain t1 t2 t3 k1 k2 k3 where n: "?n = pointer_handler (TPtr t1) placed_type 18 k1"
    and p: "?p = pointer_handler (TPtr t2) placed_type 5 k2" and c: "?c = pointer_handler (TPtr t3) cancelled_type 6 k3"
    by (simp add: notification_handler_def placed_handler_def cancelled_handler_def order_handler_def order_in_def struct_in_def)
  define v1 where "v1 = ?b\<lparr>eb_handlers := gm_put [] (Some placed_type) [entry_of ?n]\<rparr>"
  define v2 where "v2 = v1\<lparr>eb_handlers := gm_put (eb_handlers v1) (Some placed_type) [entry_of ?n, entry_of ?p]\<rparr>"
  define v3 where "v3 = v2\<lparr>eb_handlers := gm_put (eb_handlers v2) (Some cancelled_type) [entry_of ?c]\<rparr>"
  have "SubscribeHandler ?b ?n = Ret (v1, None)"
    using subscribe_pointer [OF n, of ?b] by (simp add: NewEventBus_def v1_def)
  moreover have "SubscribeHandler v1 ?p = Ret (v2, None)"
    using subscribe_pointer [OF p, of v1] by (simp add: v2_def v1_def subscriber_pointers)
  moreover have "SubscribeHandler v2 ?c = Ret (v3, None)"
    using subscribe_pointer [OF c, of v2] by (simp add: v3_def v2_def v1_def)
  moreover have "map fst (eb_handlers v3) = [Some placed_type, Some cancelled_type]"
    by (simp add: v3_def v2_def v1_def gm_put_def)
  ultimately show thesis
    using that [of v1 v3] by (simp add: inventory_subscribers_def)
qed

lemma order_payloads:
  "list_all (\<lambda>x. payload_found (snd x)) (order_commands env)"
  "list_all (\<lambda>x. payload_found (snd x)) (order_queries env)"
  "list_all (\<lambda>x. payload_found (snd x)) [(''OrderPlacedNotificationHandler'', notification_handler)]"
  by (simp_all add: shop_lists order_handlers)

lemma wire_order:
  assumes "bus_registrar rg view"
    and "register_cmds (bs_cmd (view b)) (order_commands env) = (None, c)"
    and "register_queries (bs_query (view b)) (order_queries env) = (None, q)"
    and "subscribe_all (bs_event (view b)) [(''OrderPlacedNotificationHandler'', notification_handler)] = Ret (None, v)"
  shows "\<exists>b1. WireOrder rg env b = Ret (None, b1) \<and> view b1 = \<lparr>bs_cmd = c, bs_query = q, bs_event = v\<rparr>"
proof -
  obtain b1 where b1: "register_via (rg_cmd rg) b (order_commands env) = Ret (None, b1)" "view b1 = (view b)\<lparr>bs_cmd := c\<rparr>"
    using bus_registrar.via_commands [OF assms(1) order_payloads(1) assms(2)] by blast
  then obtain b2 where b2: "register_via (rg_query rg) b1 (order_queries env) = Ret (None, b2)" "view b2 = (view b1)\<lparr>bs_query := q\<rparr>"
    using bus_registrar.via_queries [OF assms(1) order_payloads(2), of b1 env None q] assms(3) by auto
  then obtain b3 where "register_via (rg_event rg) b2 [(''OrderPlacedNotificationHandler'', notification_handler)] = Ret (None, b3)"
      "view b3 = (view b2)\<lparr>bs_event := v\<rparr>"
    using bus_registrar.via_events [OF assms(1) order_payloads(3), of b2 None v] assms(4) b1(2) by auto
  then show ?thesis using b1 b2 by (simp add: WireOrder_def)
qed

text \<open>The aspects of a command, outermost first.\<close>

definition example_command_aspects ::
    "('s, 'h, 'd, 'v) wiring \<Rightarrow> ('s, 'h, 'e, 'r) StoreComponents \<Rightarrow> ('s, go_ctx, 'd goany, 'v) aspect list" where
  "example_command_aspects wi store =
     (case map (\<lambda>a. the (as_command a)) (example_aspects wi store) of
        tracing # others \<Rightarrow>
          tracing # TransactionAspect (wi_TxManager wi (the (be_TransactionManager (sc_Backend store)))) # others)"

definition example_chain :: "('s, 'h, 'd, 'v) wiring \<Rightarrow> ('s, 'h, 'e, 'r) StoreComponents \<Rightarrow> ('s, go_ctx, 'd goany, 'v) chain" where
  "example_chain wi store = RegisterCommandAspect (foldl RegisterAspect NewAspectChain (example_aspects wi store))
     (TransactionAspect (wi_TxManager wi (the (be_TransactionManager (sc_Backend store)))))"

lemma persistence_parts:
  obtains c q where "as_command (PersistenceAspect env) = Some c" "asp_order c = 200"
    "as_query (PersistenceAspect env) = Some q" "asp_order q = 200"
  by (simp add: PersistenceAspect_def)

lemma sort_five:
  assumes "as_command t = Some tc" "asp_order tc = 0" "as_command l = Some lc" "asp_order lc = 50"
    "as_command m = Some mc" "asp_order mc = 100" "as_command p = Some pc" "asp_order pc = 200" "asp_order x = 10"
  shows "commandAspects (RegisterCommandAspect (foldl RegisterAspect NewAspectChain [t, l, m, p]) x) = [tc, x, lc, mc, pc]"
  using assms by (simp add: RegisterAspect_lists sort_slice_def NewAspectChain_def)

lemma example_chain_commands:
  fixes wi :: "('s, 'h, 'd, 'v) wiring" and store :: "('s, 'h, 'e, 'r) StoreComponents"
  shows "commandAspects (example_chain wi store) = example_command_aspects wi store"
proof -
  obtain t :: "('s, go_ctx, 'd goany, 'v) aspect_value" and tc where t: "TracingAspect (th_env (the (be_TraceStore (sc_Backend store)))) = t" "as_command t = Some tc" "asp_order tc = 0"
    using tracing_parts by metis
  obtain l :: "('s, go_ctx, 'd goany, 'v) aspect_value" and lc where l: "LoggingAspect (wi_Logger wi) = l" "as_command l = Some lc" "asp_order lc = 50"
    using aspect_parts by metis
  obtain m :: "('s, go_ctx, 'd goany, 'v) aspect_value" and mc where m: "MetricsAspect (ComposeMetrics [wi_Stats wi, wi_Metrics wi]) = m" "as_command m = Some mc" "asp_order mc = 100"
    using metrics_parts by metis
  obtain p :: "('s, go_ctx, 'd goany, 'v) aspect_value" and pc where p: "PersistenceAspect (if sc_DB store \<noteq> None then wi_persist wi (the (be_MessageStore (sc_Backend store)))
      else wi_ObservableStore wi) = p" "as_command p = Some pc" "asp_order pc = 200"
    using persistence_parts by metis
  have x: "asp_order (TransactionAspect tm :: ('s, go_ctx, 'd goany, 'v) aspect) = 10" for tm by (simp add: TransactionAspect_def)
  show ?thesis
    unfolding example_chain_def example_command_aspects_def example_aspects_def t(1) l(1) m(1) p(1)
      sort_five [OF t(2,3) l(2,3) m(2,3) p(2,3) x]
    by (simp add: t(2) l(2) m(2) p(2))
qed

lemma wired_app:
  fixes wi :: "(('f, 'w) shop, 'h, 'f app_msg, 'f app_result) wiring"
    and store :: "(('f, 'w) shop, 'h, 'e, 'r) StoreComponents"
  shows "\<exists>a. WireAppWithStore wi env publish tname busExecute store = Ret (Inr a) \<and> ac_Chain a = example_chain wi store \<and>
     register_cmds (newMessageBus (ac_Chain a)) (order_commands env @ inventory_commands (oe_now env) publish) = (None, bs_cmd (ac_Buses a)) \<and>
     register_queries (newMessageBus (ac_Chain a)) (order_queries env @ [(''GetInventoryHandler'', get_inventory_handler)]) =
       (None, bs_query (ac_Buses a)) \<and>
     ac_lifecycles a = wi_Shutdowns wi @ [\<lambda>ctx. Backend_Shutdown (sc_Backend store)] \<and> ac_store a = store \<and>
     map fst (eb_handlers (bs_event (ac_Buses a))) = [Some placed_type, Some cancelled_type]"
proof -
  let ?ch = "example_chain wi store"
  obtain c q where c: "register_cmds (newMessageBus ?ch) (order_commands env @ inventory_commands (oe_now env) publish) = (None, c)"
    and q: "register_queries (newMessageBus ?ch) (order_queries env @
       [(''GetInventoryHandler'', get_inventory_handler :: (('f, 'w) shop, go_ctx, 'f app_msg, 'f app_result) handler)]) = (None, q)"
    by (rule shop_registers [of ?ch env publish])
  obtain c1 q1 where c1: "register_cmds (newMessageBus ?ch) (order_commands env) = (None, c1)"
      "register_cmds c1 (inventory_commands (oe_now env) publish) = (None, c)"
    and q1: "register_queries (newMessageBus ?ch) (order_queries env) = (None, q1)"
      "register_queries q1 [(''GetInventoryHandler'', get_inventory_handler)] = (None, q)"
    using register_cmds_split [OF c] register_cmds_split [OF q [unfolded register_queries_eq]] unfolding register_queries_eq by blast
  obtain v1 v where v: "subscribe_all (NewEventBus [WithEventBusAspectChain ?ch])
       [(''OrderPlacedNotificationHandler'', notification_handler :: (('f, 'w) shop, go_ctx, 'f app_msg, 'f app_result) handler)] = Ret (None, v1)"
      "subscribe_all v1 (inventory_subscribers tname busExecute) = Ret (None, v)"
      "map fst (eb_handlers v) = [Some placed_type, Some cancelled_type]"
    by (rule shop_subscribes [of ?ch tname busExecute])
  obtain b1 where b1: "WireOrder notifying_buses env (new_buses ?ch, RegisterHandlerEmits NewRegistry) = Ret (None, b1)"
      "fst b1 = \<lparr>bs_cmd = c1, bs_query = q1, bs_event = v1\<rparr>"
    using wire_order [OF notifying.bus_registrar_axioms, of "(new_buses ?ch, RegisterHandlerEmits NewRegistry)" env c1 q1 v1] c1(1) q1(1) v(1)
    by (auto simp: new_buses_def)
  obtain b2 where b2: "WireInventory notifying_buses (oe_now env) publish tname busExecute b1 = Ret (None, b2)"
      "fst b2 = \<lparr>bs_cmd = c, bs_query = q, bs_event = v\<rparr>"
    using wire_inventory [OF notifying.bus_registrar_axioms, of b1 "oe_now env" publish c q tname busExecute v] c1(2) q1(2) v(2) b1(2)
    by auto
  show ?thesis
    using b1(1) b2 c q v(3) by (simp add: WireAppWithStore_def NewTransactionAspect_def Let_def example_chain_def)
qed

subsection \<open>What the wired application runs\<close>

text \<open>The handler the application has for a message sent to the command bus.\<close>

fun command_handler ::
    "('f, ('f, 'w) shop) order_env \<Rightarrow> ('f, 'f order_world \<times> 'w) publisher \<Rightarrow> 'f app_msg \<Rightarrow>
     (('f, 'w) shop, go_ctx, 'f app_msg, 'f app_result) handler option" where
  "command_handler env publish (PlaceOrderCommand u is) = Some (place_order_handler env)"
| "command_handler env publish (ConfirmPaymentCommand i) = Some (confirm_handler env)"
| "command_handler env publish (ShipOrderCommand i) = Some (ship_handler env)"
| "command_handler env publish (CancelOrderCommand i r) = Some (cancel_order_handler env)"
| "command_handler env publish (GenerateReportCommand i) = Some (report_handler env)"
| "command_handler env publish (ReserveInventoryCommand i p q) = Some (reserve_handler (oe_now env) publish)"
| "command_handler env publish (ReleaseInventoryCommand i p q) = Some (release_handler (oe_now env) publish)"
| "command_handler env publish (ResetInventoryCommand p) = Some reset_handler"
| "command_handler env publish m = None"

lemma command_handler_found:
  "find (\<lambda>h. handler_payload h = Some (type_of (app_any m))) (map snd (order_commands env @ inventory_commands (oe_now env) publish)) =
     command_handler env publish m"
proof (cases m)
  case (OrderMsg meta e)
  have "order_pkg @ ''command'' \<noteq> order_pkg @ ''event''" "inventory_pkg @ ''command'' \<noteq> order_pkg @ ''event''"
    by (simp_all add: order_pkg_def inventory_pkg_def)
  then have "msg_type m \<noteq> order_in ''command'' n" "msg_type m \<noteq> struct_in ''command'' n" for n
    using OrderMsg by (cases e; simp add: order_in_def struct_in_def order_pkg_def inventory_pkg_def)+
  then have "order_in ''command'' n \<noteq> msg_type m" "struct_in ''command'' n \<noteq> msg_type m" for n by metis+
  then show ?thesis using OrderMsg by (simp add: shop_lists order_handlers inventory_handlers app_any_def)
qed (simp_all add: shop_lists order_handlers inventory_handlers app_any_def)

lemma wired_execute:
  fixes wi :: "(('f, 'w) shop, 'h, 'f app_msg, 'f app_result) wiring"
    and store :: "(('f, 'w) shop, 'h, 'e, 'r) StoreComponents"
  assumes "WireAppWithStore wi env publish tname busExecute store = Ret (Inr a)"
  shows "CommandBus_Execute clk (bs_cmd (ac_Buses a)) ctx (app_any m) s =
      (case command_handler env publish m of
         None \<Rightarrow> (Ret (RNil, Some (no_handler (app_any m))), s)
       | Some h \<Rightarrow> foldr (aspect_layer clk (app_any m)) (example_command_aspects wi store) (\<lambda>c. handler_invoker h c (app_any m)) ctx s)"
proof -
  obtain a1 where "WireAppWithStore wi env publish tname busExecute store = Ret (Inr a1)" and ch: "ac_Chain a1 = example_chain wi store"
    and c: "register_cmds (newMessageBus (ac_Chain a1)) (order_commands env @ inventory_commands (oe_now env) publish) =
      (None, bs_cmd (ac_Buses a1))"
    using wired_app [of wi env publish tname busExecute store] by blast
  with assms have a: "a1 = a" by simp
  show ?thesis
    unfolding registered_execute [OF c [unfolded a ch [unfolded a]]] command_handler_found example_chain_commands ..
qed

text \<open>
  C9.  The wiring of the example application never fails, and its command bus runs every command
  inside tracing, the transaction, logging, metrics and persistence, in this order from the outside,
  around the one handler of the command; a \<open>ProcessBatchCommand\<close>, whose handler is never registered, is
  refused, and so is what is no command.
\<close>

theorem example_app_runs:
  fixes wi :: "(('f, 'w) shop, 'h, 'f app_msg, 'f app_result) wiring"
    and store :: "(('f, 'w) shop, 'h, 'e, 'r) StoreComponents"
  shows "\<exists>a. WireAppWithStore wi env publish tname busExecute store = Ret (Inr a) \<and>
     map asp_name (commandAspects (ac_Chain a)) = [''tracing'', ''transaction'', ''logging'', ''metrics'', ''persistence''] \<and>
     (\<forall>clk ctx m s. CommandBus_Execute clk (bs_cmd (ac_Buses a)) ctx (app_any m) s =
        (case command_handler env publish m of
           None \<Rightarrow> (Ret (RNil, Some (no_handler (app_any m))), s)
         | Some h \<Rightarrow> foldr (aspect_layer clk (app_any m)) (commandAspects (ac_Chain a)) (\<lambda>c. handler_invoker h c (app_any m)) ctx s)) \<and>
     (\<forall>i d. command_handler env publish (ProcessBatchCommand i d) = None)"
proof -
  obtain a where a: "WireAppWithStore wi env publish tname busExecute store = Ret (Inr a)" "ac_Chain a = example_chain wi store"
    using wired_app [of wi env publish tname busExecute store] by blast
  have "map asp_name (example_command_aspects wi store) = [''tracing'', ''transaction'', ''logging'', ''metrics'', ''persistence'']"
    by (simp add: example_command_aspects_def example_aspects_def TracingAspect_def LoggingAspect_def MetricsAspect_def
        PersistenceAspect_def TransactionAspect_def)
  moreover have "commandAspects (ac_Chain a) = example_command_aspects wi store" by (simp add: a(2) example_chain_commands)
  ultimately show ?thesis
    using a(1) wired_execute [OF a(1)] by (intro exI [of _ a]) (simp only: command_handler.simps simp_thms)
qed

subsection \<open>Orders and the inventory\<close>

text \<open>A part \<open>f\<close> of the state that the hooks of the aspects leave alone stays as the operation leaves it.\<close>

definition hooks_keep :: "('s \<Rightarrow> 'a) \<Rightarrow> ('s, 'c, 'm, 'v) aspect \<Rightarrow> bool" where
  "hooks_keep f a \<longleftrightarrow> (\<forall>ctx m s. f (snd (asp_before a ctx m s)) = f s) \<and>
     (\<forall>ctx m r e d s. f (snd (asp_after a ctx m r e d s)) = f s)"

lemma layer_keeps:
  assumes "hooks_keep f a" and clk: "\<And>s. f (snd (clk s)) = f s" and inner: "\<And>c s. f (snd (inner c s)) = f s"
  shows "f (snd (aspect_layer clk m a inner ctx s)) = f s"
proof -
  have b: "f (snd (asp_before a ctx m s)) = f s" and af: "\<And>c r e d s. f (snd (asp_after a c m r e d s)) = f s"
    using assms(1) by (simp_all add: hooks_keep_def)
  have clk': "f s2 = f s1" if "clk s1 = (t, s2)" for s1 t s2 using clk [of s1] that by simp
  have inner': "f s2 = f s1" if "inner c s1 = (r, s2)" for c s1 r s2 using inner [of c s1] that by simp
  have af': "f s2 = f s1" if "asp_after a c m r e d s1 = (x, s2)" for c r e d s1 x s2 using af [of c r e d s1] that by simp
  obtain r s1 where before: "asp_before a ctx m s = (r, s1)" by (cases "asp_before a ctx m s")
  then have s1: "f s1 = f s" using b by simp
  obtain start s2 where s2: "clk s1 = (start, s2)" by (cases "clk s1")
  show ?thesis
    using clk' [OF s2] s1
    by (auto simp: aspect_layer_def before s2 Let_def dest!: inner' clk' af' split: outcome.split prod.split option.split)
qed

lemma onion_keeps:
  assumes "list_all (hooks_keep f) as" and "\<And>s. f (snd (clk s)) = f s" and "\<And>c s. f (snd (inner c s)) = f s"
  shows "f (snd (foldr (aspect_layer clk m) as inner ctx s)) = f s"
  using assms(1)
proof (induction as arbitrary: ctx s)
  case (Cons a as)
  then show ?case using layer_keeps [of f a clk "foldr (aspect_layer clk m) as inner"] assms(2) by simp
qed (simp add: assms(3))

definition env_keeps :: "('f, ('f, 'w) shop) order_env \<Rightarrow> bool" where
  "env_keeps env \<longleftrightarrow> (\<forall>s. fst (snd (oe_uuid env s)) = fst s) \<and> (\<forall>s. fst (snd (oe_now env s)) = fst s) \<and>
     (\<forall>ctx d s. fst (snd (oe_wait env ctx d s)) = fst s)"

fun order_message :: "'f app_msg \<Rightarrow> bool" where
  "order_message (ReserveInventoryCommand i p q) = False"
| "order_message (ReleaseInventoryCommand i p q) = False"
| "order_message (ResetInventoryCommand p) = False"
| "order_message m = True"

lemma on_orders_keeps: "fst (snd (on_orders f s)) = fst s"
  by (simp add: on_orders_def split: prod.split)

lemma change_order_keeps: "env_keeps env \<Longrightarrow> fst (snd (change_order env result f s)) = fst s"
proof -
  assume env: "env_keeps env"
  obtain now s1 where s1: "oe_now env s = (now, s1)" by (cases "oe_now env s")
  then have "fst s1 = fst s" using env unfolding env_keeps_def by (metis snd_conv)
  moreover obtain r s2 where "on_orders (f now) s1 = (r, s2)" by (cases "on_orders (f now) s1")
  moreover from this have "fst s2 = fst s1" using on_orders_keeps [of "f now" s1] by simp
  ultimately show ?thesis using s1 by (cases r) (simp_all add: change_order_def)
qed

lemma report_keeps:
  assumes "env_keeps env"
  shows "fst (snd (GenerateReport_Handle env ctx i s)) = fst s"
proof -
  obtain w s1 where w: "oe_wait env ctx (200 * 1000000) s = (w, s1)" by (cases "oe_wait env ctx (200 * 1000000) s")
  obtain n1 s2 where n1: "oe_now env s1 = (n1, s2)" by (cases "oe_now env s1")
  obtain n2 s3 where n2: "oe_now env s2 = (n2, s3)" by (cases "oe_now env s2")
  have "fst s1 = fst s" "fst s2 = fst s1" "fst s3 = fst s2"
    using assms w n1 n2 unfolding env_keeps_def by (metis snd_conv)+
  then show ?thesis using w n1 n2 by (cases w) (simp_all add: GenerateReport_Handle_def)
qed

lemma place_keeps:
  assumes "env_keeps env"
  shows "fst (snd (h_call (place_order_handler env) ctx (app_any (PlaceOrderCommand u is)) s)) = fst s"
proof -
  obtain uid s1 where u: "oe_uuid env s = (uid, s1)" by (cases "oe_uuid env s")
  obtain n1 s2 where n1: "oe_now env s1 = (n1, s2)" by (cases "oe_now env s1")
  obtain n2 s3 where n2: "oe_now env s2 = (n2, s3)" by (cases "oe_now env s2")
  have "fst s1 = fst s" "fst s2 = fst s1" "fst s3 = fst s2"
    using assms u n1 n2 unfolding env_keeps_def by (metis snd_conv)+
  moreover obtain r s4 where r: "on_orders (PlaceOrder_Handle (oe_float env) uid n1 n2 ctx u is) s3 = (r, s4)"
    by (cases "on_orders (PlaceOrder_Handle (oe_float env) uid n1 n2 ctx u is) s3")
  moreover from r have "fst s4 = fst s3"
    using on_orders_keeps [of "PlaceOrder_Handle (oe_float env) uid n1 n2 ctx u is" s3] by simp
  ultimately show ?thesis
    using u n1 n2 by (cases r) (simp_all add: place_order_handler_def pointer_handler_def app_any_def split: sum.split)
qed

lemma order_handlers_keep:
  assumes "env_keeps env" and "order_message m" and "command_handler env publish m = Some h"
  shows "fst (snd (handler_invoker h ctx (app_any m) s)) = fst s"
proof -
  have "fst (snd (h_call h ctx (app_any m) s)) = fst s"
    using assms(2,3) place_keeps [OF assms(1)]
  proof (cases m)
    case (GenerateReportCommand i)
    obtain r e s1 where "GenerateReport_Handle env ctx i s = ((r, e), s1)" by (metis prod.collapse)
    then show ?thesis using assms(3) GenerateReportCommand report_keeps [OF assms(1), of ctx i s]
      by (auto simp: report_handler_def pointer_handler_def app_any_def)
  qed (auto simp: change_order_keeps [OF assms(1)] confirm_handler_def ship_handler_def cancel_order_handler_def
      pointer_handler_def app_any_def)
  then show ?thesis
    by (auto simp: handler_invoker_def prog_bind_def split: outcome.split prod.split)
qed

text \<open>A query never changes the inventory.\<close>

lemma registered_query:
  assumes "register_queries (newMessageBus ch) hs = (None, qb)"
  shows "QueryBus_Execute clk qb ctx m s =
      (case find (\<lambda>h. handler_payload h = Some (type_of m)) (map snd hs) of
         None \<Rightarrow> (Ret (RNil, Some (no_handler m)), s)
       | Some h \<Rightarrow> foldr (aspect_layer clk m) (queryAspects ch) (\<lambda>c. handler_invoker h c m) ctx s)"
proof -
  have qb: "qb = command_bus.reg_all (newMessageBus ch) (map snd hs)"
    by (rule register_cmds_all [OF assms [unfolded register_queries_eq]])
  have ok: "bus_ok qb" unfolding qb by (rule command_bus.good_reg_all) simp
  have frame: "\<not> mb_closed qb" "mb_chain qb = ch"
    unfolding qb command_bus.reg_all_def by (simp_all add: register_all_frame)
  have "bus_route qb t = find (\<lambda>h. handler_payload h = Some t) (map snd hs)" for t
    unfolding qb by (simp add: command_bus.route_reg_all)
  then show ?thesis
    by (simp add: execute_route(2) [OF ok frame(1)] frame(2) cong: option.case_cong)
qed

lemma query_handlers_keep:
  assumes "h \<in> set (map snd (order_queries env @ [(''GetInventoryHandler'', get_inventory_handler)]))"
  shows "fst (snd (handler_invoker h ctx (app_any m) s)) = fst s"
proof -
  have "fst (snd (h_call h ctx (app_any m) s)) = fst s"
    using assms
    by (cases m) (auto simp: shop_lists get_order_handler_def list_orders_handler_def get_inventory_handler_def pointer_handler_def
        app_any_def GetInventory_Handle_def prog_bind_def split: sum.split prod.split)
  then show ?thesis
    by (auto simp: handler_invoker_def prog_bind_def split: outcome.split prod.split)
qed

lemma wired_query_keeps:
  fixes wi :: "(('f, 'w) shop, 'h, 'f app_msg, 'f app_result) wiring"
    and store :: "(('f, 'w) shop, 'h, 'e, 'r) StoreComponents"
  assumes "WireAppWithStore wi env publish tname busExecute store = Ret (Inr a)" and "\<And>s. fst (snd (clk s)) = fst s"
    and "list_all (hooks_keep fst) (queryAspects (ac_Chain a))"
  shows "fst (snd (QueryBus_Execute clk (bs_query (ac_Buses a)) ctx (app_any m) s)) = fst s"
proof -
  have q: "register_queries (newMessageBus (ac_Chain a)) (order_queries env @ [(''GetInventoryHandler'', get_inventory_handler)]) =
      (None, bs_query (ac_Buses a))"
    using assms(1) wired_app [of wi env publish tname busExecute store] by auto
  define hs :: "(('f, 'w) shop, go_ctx, 'f app_msg, 'f app_result) handler list" where
    "hs = map snd (order_queries env @ [(''GetInventoryHandler'', get_inventory_handler)])"
  show ?thesis
  proof (cases "find (\<lambda>h. handler_payload h = Some (type_of (app_any m))) hs")
    case None
    then show ?thesis unfolding registered_query [OF q] hs_def [symmetric] by simp
  next
    case (Some h)
    then have "h \<in> set hs" by (auto simp: find_Some_iff)
    then have "fst (snd (handler_invoker h c (app_any m) s)) = fst s" for c s
      unfolding hs_def by (rule query_handlers_keep)
    then show ?thesis
      unfolding registered_query [OF q] hs_def [symmetric] Some by (simp add: onion_keeps [OF assms(3,2)])
  qed
qed

lemma wired_order_keeps:
  fixes wi :: "(('f, 'w) shop, 'h, 'f app_msg, 'f app_result) wiring"
    and store :: "(('f, 'w) shop, 'h, 'e, 'r) StoreComponents"
  assumes "WireAppWithStore wi env publish tname busExecute store = Ret (Inr a)" and "\<And>s. fst (snd (clk s)) = fst s"
    and "list_all (hooks_keep fst) (commandAspects (ac_Chain a))" and "env_keeps env" and "order_message m"
  shows "fst (snd (CommandBus_Execute clk (bs_cmd (ac_Buses a)) ctx (app_any m) s)) = fst s"
proof -
  have "commandAspects (ac_Chain a) = example_command_aspects wi store"
    using assms(1) wired_app [of wi env publish tname busExecute store] by (auto simp: example_chain_commands)
  then show ?thesis
    using wired_execute [OF assms(1), of clk ctx m s] assms(2,3) order_handlers_keep [OF assms(4,5)]
    by (cases "command_handler env publish m") (simp_all add: onion_keeps)
qed

text \<open>The events the relationship graph says a handler emits.\<close>

lemma addNode_edges [simp]: "b_edges (addNode df tf i ty d b) = b_edges b"
  by (simp add: addNode_def Let_def)

lemma build_emits_edges:
  "b_edges (build_emits r df tf b) =
     b_edges b @ concat (map (\<lambda>(h, es). map (\<lambda>e. \<lparr>e_Source = h, e_Target = e, e_Type = ''emits''\<rparr>) es) (rr_handlerEmits r))"
proof -
  have inner: "b_edges (foldl (\<lambda>b e. addEdge h e ''emits'' (addNode df tf e ''event'' (d e) b)) b es) =
      b_edges b @ map (\<lambda>e. \<lparr>e_Source = h, e_Target = e, e_Type = ''emits''\<rparr>) es" for h d b es
    by (induction es arbitrary: b) (simp_all add: addEdge_def)
  have "b_edges (foldl (\<lambda>b (handler, events).
       let handlerDomain = GetTypeDomain r handler
       in foldl (\<lambda>b evt.
            let evtDomain = (if GetTypeDomain r evt = [] then handlerDomain else GetTypeDomain r evt)
            in addEdge handler evt ''emits'' (addNode df tf evt ''event'' evtDomain b))
            (addNode df tf handler ''handler'' handlerDomain b) events) b hs) =
      b_edges b @ concat (map (\<lambda>(h, es). map (\<lambda>e. \<lparr>e_Source = h, e_Target = e, e_Type = ''emits''\<rparr>) es) hs)" for hs
    by (induction hs arbitrary: b) (simp_all add: Let_def inner split: prod.split)
  then show ?thesis by (simp add: build_emits_def)
qed

lemma graph_emits:
  assumes "(h, es) \<in> set (rr_handlerEmits r)" and "e \<in> set es"
  shows "\<lparr>e_Source = h, e_Target = e, e_Type = ''emits''\<rparr> \<in> set (g_Edges (BuildGraph r df tf))"
  using assms by (force simp: BuildGraph_def Let_def build_emits_edges)

text \<open>Registering through the notifying buses leaves the declared events alone.\<close>

lemma register_via_keeps:
  assumes "\<And>b h b1 e. reg b h = Ret (b1, e) \<Longrightarrow> f b1 = f b" and "register_via reg b hs = Ret (err, b2)"
  shows "f b2 = f b"
  using assms(2)
proof (induction hs arbitrary: b)
  case (Cons x hs)
  obtain what h where x: "x = (what, h)" by (cases x)
  with Cons.prems obtain b1 e where b1: "reg b h = Ret (b1, e)" by (auto simp: out_bind_eq_Ret)
  with Cons.prems x have "e = None \<longrightarrow> register_via reg b1 hs = Ret (err, b2)" "e \<noteq> None \<longrightarrow> b2 = b1" by auto
  then show ?case using assms(1) [OF b1] Cons.IH [of b1] by (cases e) auto
qed simp

definition declared :: "'b \<times> registry \<Rightarrow> (string, string list) gomap" where
  "declared b = rr_handlerEmits (snd b)"

lemma notifying_declared:
  "rg_cmd notifying_buses b h = Ret (b1, e) \<Longrightarrow> declared b1 = declared b"
  "rg_query notifying_buses b h = Ret (b1, e) \<Longrightarrow> declared b1 = declared b"
  "rg_event notifying_buses b h = Ret (b1, e) \<Longrightarrow> declared b1 = declared b"
  by (auto simp: declared_def notifying_buses_def NotifyingCommandBus_RegisterHandler_def NotifyingQueryBus_RegisterHandler_def
      NotifyingEventBus_SubscribeHandler_def out_bind_eq_Ret Let_def RecordTypeDomain_def RecordCommandHandler_def
      RecordQueryHandler_def RecordEventHandler_def split: prod.splits option.splits bool.splits if_splits)

lemma three_registrations_declared:
  assumes "out_bind (register_via (rg_cmd notifying_buses) b cs)
       (\<lambda>(err, b1). case err of Some e \<Rightarrow> Ret (Some e, b1) | None \<Rightarrow>
     out_bind (register_via (rg_query notifying_buses) b1 qs)
       (\<lambda>(err, b2). case err of Some e \<Rightarrow> Ret (Some e, b2) | None \<Rightarrow>
     register_via (rg_event notifying_buses) b2 es)) = Ret (err, b3)"
  shows "declared b3 = declared b"
proof -
  note keeps = register_via_keeps [where f = declared, OF notifying_declared(1)]
    register_via_keeps [where f = declared, OF notifying_declared(2)] register_via_keeps [where f = declared, OF notifying_declared(3)]
  obtain e1 b1 where b1: "register_via (rg_cmd notifying_buses) b cs = Ret (e1, b1)"
    using assms by (auto simp: out_bind_eq_Ret)
  note k1 = keeps(1) [OF _ b1, simplified]
  show ?thesis
  proof (cases e1)
    case (Some e)
    then show ?thesis using assms b1 k1 by simp
  next
    case None
    then obtain e2 b2 where b2: "register_via (rg_query notifying_buses) b1 qs = Ret (e2, b2)"
      using assms b1 by (auto simp: out_bind_eq_Ret)
    note k2 = keeps(2) [OF _ b2, simplified]
    show ?thesis
    proof (cases e2)
      case (Some e)
      then show ?thesis using assms None b1 b2 k1 k2 by simp
    next
      case None
      then have "register_via (rg_event notifying_buses) b2 es = Ret (err, b3)"
        using assms \<open>e1 = None\<close> b1 b2 by simp
      from keeps(3) [OF _ this] show ?thesis using k1 k2 by simp
    qed
  qed
qed

lemma wiring_declared:
  "WireOrder notifying_buses env b = Ret (err, b1) \<Longrightarrow> declared b1 = declared b"
  "WireInventory notifying_buses clk publish tname ex b = Ret (err, b1) \<Longrightarrow> declared b1 = declared b"
  unfolding WireOrder_def WireInventory_def by (erule three_registrations_declared)+

lemma example_declares:
  "(''PlaceOrderHandler'', [''OrderPlacedEvent'']) \<in> set (rr_handlerEmits (RegisterHandlerEmits NewRegistry))"
  by code_simp

lemma wired_declares:
  assumes "WireAppWithStore wi env publish tname busExecute store = Ret (Inr a)"
  shows "rr_handlerEmits (ac_Registry a) = rr_handlerEmits (RegisterHandlerEmits NewRegistry)"
proof -
  obtain b1 b2 where "WireOrder notifying_buses env (new_buses (example_chain wi store), RegisterHandlerEmits NewRegistry) = Ret (None, b1)"
    and "WireInventory notifying_buses (oe_now env) publish tname busExecute b1 = Ret (None, b2)" and "ac_Registry a = snd b2"
    using assms by (auto simp: WireAppWithStore_def NewTransactionAspect_def Let_def out_bind_eq_Ret example_chain_def split: option.splits)
  then show ?thesis using wiring_declared by (metis declared_def snd_conv)
qed

text \<open>
  C10.  In the example application wired on an in-memory store, no command about orders changes the
  inventory, and its run does not depend on what publishing does, since the handlers' repository
  publishes nothing; yet the relationship graph of the same application shows that placing an order
  emits \<open>OrderPlacedEvent\<close>, the event on which the inventory would reserve.
\<close>

theorem orders_never_reach_inventory:
  fixes wi :: "(('f, 'w) shop, 'h, 'f app_msg, 'f app_result) wiring"
    and store :: "(('f, 'w) shop, 'h, 'e, 'r) StoreComponents"
  assumes "WireAppWithStore wi env publish tname busExecute store = Ret (Inr a)"
    and "WireAppWithStore wi env publish' tname busExecute store = Ret (Inr a')"
    and "order_message m" and "env_keeps env" and "\<And>s. fst (snd (clk s)) = fst s"
    and "list_all (hooks_keep fst) (commandAspects (ac_Chain a))"
  shows "fst (snd (CommandBus_Execute clk (bs_cmd (ac_Buses a)) ctx (app_any m) s)) = fst s \<and>
    CommandBus_Execute clk (bs_cmd (ac_Buses a')) ctx (app_any m) s = CommandBus_Execute clk (bs_cmd (ac_Buses a)) ctx (app_any m) s \<and>
    \<lparr>e_Source = ''PlaceOrderHandler'', e_Target = ''OrderPlacedEvent'', e_Type = ''emits''\<rparr> \<in> set (g_Edges (BuildGraph (ac_Registry a) df tf))"
proof -
  have same: "command_handler env publish' m = command_handler env publish m"
    using assms(3) by (cases m) simp_all
  have "fst (snd (CommandBus_Execute clk (bs_cmd (ac_Buses a)) ctx (app_any m) s)) = fst s"
    by (rule wired_order_keeps [OF assms(1,5,6,4,3)])
  moreover have "CommandBus_Execute clk (bs_cmd (ac_Buses a')) ctx (app_any m) s = CommandBus_Execute clk (bs_cmd (ac_Buses a)) ctx (app_any m) s"
    unfolding wired_execute [OF assms(1)] wired_execute [OF assms(2)] same ..
  ultimately show ?thesis
    using graph_emits [OF example_declares [folded wired_declares [OF assms(1)]]] by simp
qed

subsection \<open>Closing the application\<close>

text \<open>
  C21.  Closing the example application on a database runs shutdowns from the front of the list,
  event bus first and backend last, all of them unless the context has ended after one, and
  then closes the database whatever failed before: its connection is not open afterwards.  The result is nil
  exactly when everything that ran succeeded.
\<close>

theorem close_releases_database:
  assumes "driver_ok conns dv" and "sc_DB (ac_store a) = Some db" and "AppContext_Close now dv a ctx s = (res, s')"
  shows "db \<notin> conns s' \<and>
    (\<exists>k\<le>length (ac_lifecycles a). let ran = map (\<lambda>l. l ctx) (take k (ac_lifecycles a)) @ [dv_Close dv db] in
       s' = snd (run_all ran s) \<and> (res = None \<longleftrightarrow> set (fst (run_all ran s)) \<subseteq> {None}) \<and>
       (ctx_Err ctx = (\<lambda>t. None) \<longrightarrow> k = length (ac_lifecycles a)))"
proof -
  obtain k where k: "k \<le> length (ac_lifecycles a)" and run: "run_lifecycles now ctx (ac_lifecycles a) [] s =
      (all_errors (fst (run_all (map (\<lambda>l. l ctx) (take k (ac_lifecycles a))) s)),
       snd (run_all (map (\<lambda>l. l ctx) (take k (ac_lifecycles a))) s))"
    and stop: "k < length (ac_lifecycles a) \<longrightarrow>
       ctx_Err ctx (now (snd (run_all (map (\<lambda>l. l ctx) (take k (ac_lifecycles a))) s))) \<noteq> None"
    using run_lifecycles_prefix [of "ac_lifecycles a" now ctx "[]" s] by auto
  define ran where "ran = map (\<lambda>l. l ctx) (take k (ac_lifecycles a))"
  have none: "all_errors rs = [] \<longleftrightarrow> set rs \<subseteq> {None}" for rs
    by (auto simp: all_errors_def split: option.splits)
  obtain rs s1 where rs: "run_all ran s = (rs, s1)" by (cases "run_all ran s")
  obtain e s2 where e: "dv_Close dv db s1 = (e, s2)" by (cases "dv_Close dv db s1")
  then have "conns s2 = conns s1 - {db}" using assms(1) unfolding driver_ok_def by (metis snd_conv)
  moreover have "add_error (all_errors rs) e = [] \<longleftrightarrow> set (rs @ [e]) \<subseteq> {None}"
    using add_error_all [of "all_errors rs" e "[]"] none [of rs] by (cases e) (auto simp: add_error_def all_errors_def)
  then have "res = None \<longleftrightarrow> set (rs @ [e]) \<subseteq> {None}" "s' = s2"
    using assms(2,3) rs e by (auto simp: AppContext_Close_def run ran_def [symmetric] split: if_splits)
  moreover have "ctx_Err ctx = (\<lambda>t. None) \<longrightarrow> k = length (ac_lifecycles a)" using stop k by auto
  ultimately show ?thesis
    using k rs e unfolding ran_def [symmetric] by (intro conjI exI [of _ k]) (simp_all add: Let_def run_all_append ran_def)
qed

subsection \<open>A concrete application\<close>

text \<open>The hooks touch nothing, every UUID is the same, and timers fire before contexts end.\<close>

type_synonym sample_shop = "(unit, nat) shop"

definition sample_env :: "(unit, sample_shop) order_env" where
  "sample_env = \<lparr>oe_float = \<lparr>fl_zero = (), fl_add = (\<lambda>a b. ()), fl_mul = (\<lambda>a b. ()), fl_of_int = (\<lambda>n. ())\<rparr>,
     oe_uuid = (\<lambda>s. ([7], s)), oe_now = (\<lambda>s. (0, s)), oe_rfc = (\<lambda>t. []), oe_wait = (\<lambda>ctx d s. (None, s))\<rparr>"

definition sample_persist :: "(sample_shop, unit app_msg, unit app_result) persist_env" where
  "sample_persist =
     \<lparr>pe_store = \<lparr>ms_RecordCommand = (\<lambda>ctx e s. (Ret None, s)), ms_RecordQuery = (\<lambda>ctx e s. (Ret None, s)),
        ms_RecordEvent = (\<lambda>ctx e s. (Ret None, s)), ms_RecordEventHandler = (\<lambda>ctx e s. (Ret None, s))\<rparr>,
      pe_now = (\<lambda>s. (0, s)), pe_Marshal = (\<lambda>m. Inr []), pe_quote = (\<lambda>t. t), pe_resultName = (\<lambda>r. Ret []),
      pe_resultMarshal = (\<lambda>r. Inr []), pe_AggregateID = (\<lambda>m. [])\<rparr>"

definition sample_metrics :: "sample_shop metrics_recorder" where
  "sample_metrics = \<lparr>mr_RecordDuration = (\<lambda>n d s. s), mr_RecordError = (\<lambda>n e s. s)\<rparr>"

definition sample_wiring :: "(sample_shop, unit, unit app_msg, unit app_result) wiring" where
  "sample_wiring = \<lparr>wi_Logger = (\<lambda>lvl msg args s. s), wi_Metrics = sample_metrics, wi_Stats = sample_metrics,
     wi_TxManager = (\<lambda>tm. tm), wi_persist = (\<lambda>h. sample_persist), wi_ObservableStore = sample_persist, wi_Shutdowns = []\<rparr>"

definition sample_tracing :: "sample_shop tracing_env" where
  "sample_tracing = \<lparr>te_now = (\<lambda>s. (0, s)), te_uuid = (\<lambda>s. ([0], s)), te_store = Some (\<lambda>ctx sp s. (Ret None, s)), te_logger = None\<rparr>"

definition sample_components :: "(sample_shop, unit, unit, unit) StoreComponents" where
  "sample_components =
     \<lparr>sc_Backend = NewMemoryBackend \<lparr>bp_TransactionManager = NoOpTransactionManager, bp_JobStore = (),
        bp_TraceStore = \<lparr>th_env = sample_tracing, th_Close = (\<lambda>s. (None, s))\<rparr>, bp_MessageStore = ()\<rparr> [],
      sc_EventStore = (), sc_OrderRepo = (), sc_DB = None\<rparr>"

lemma sample_hooks:
  "list_all (hooks_keep fst) (example_command_aspects sample_wiring sample_components)"
proof -
  have "hooks_keep fst (the (as_command (TracingAspect sample_tracing) :: (sample_shop, go_ctx, 'd goany, 'v) aspect option))"
    by (simp add: hooks_keep_def TracingAspect_def tracing_BeforeCommand_def tracing_AfterCommand_def tracing_before_def
        tracing_after_def sample_tracing_def Let_def split: outcome.split option.split ctx_val.split)
  moreover have "hooks_keep fst (TransactionAspect (NoOpTransactionManager :: sample_shop tx_manager) :: (sample_shop, go_ctx, 'd goany, 'v) aspect)"
    by (simp add: hooks_keep_def TransactionAspect_def NoOpTransactionManager_def split: option.split)
  moreover have "hooks_keep fst (the (as_command (LoggingAspect (\<lambda>lvl msg args s. s)) :: (sample_shop, go_ctx, 'd goany, 'v) aspect option))"
    by (simp add: hooks_keep_def LoggingAspect_def log_before_def log_after_def split: option.split)
  moreover have "hooks_keep fst (the (as_command (MetricsAspect (ComposeMetrics [sample_metrics, sample_metrics])) ::
      (sample_shop, go_ctx, 'd goany, 'v) aspect option))"
    by (simp add: hooks_keep_def MetricsAspect_def metrics_after_def ComposeMetrics_def sample_metrics_def Let_def split: option.split)
  moreover have "hooks_keep fst (the (as_command (PersistenceAspect sample_persist)))"
    by (simp add: hooks_keep_def PersistenceAspect_def persist_AfterCommand_def sample_persist_def Let_def split: outcome.split prod.split)
  ultimately show ?thesis
    by (simp add: example_command_aspects_def example_aspects_def sample_wiring_def sample_components_def NewMemoryBackend_def NewBackend_def)
qed

lemma query_aspects_all:
  assumes "list_all P (queryAspects ch)" and "list_all (\<lambda>a. P (the (as_query a))) as"
  shows "list_all P (queryAspects (foldl RegisterAspect ch as))"
  using assms
proof (induction as arbitrary: ch)
  case (Cons a as)
  have "list_all P (queryAspects (RegisterAspect ch a))"
    using Cons.prems by (cases "as_query a") (simp_all add: RegisterAspect_lists list_all_iff sort_slice_set)
  then show ?case using Cons by simp
qed simp

lemma sample_query_hooks:
  "list_all (hooks_keep fst) (queryAspects (example_chain sample_wiring sample_components))"
proof -
  have "hooks_keep fst (the (as_query (TracingAspect sample_tracing) :: (sample_shop, go_ctx, 'd goany, 'v) aspect option))"
    by (simp add: hooks_keep_def TracingAspect_def tracing_BeforeQuery_def tracing_AfterQuery_def tracing_before_def
        tracing_after_def sample_tracing_def Let_def split: outcome.split option.split ctx_val.split)
  moreover have "hooks_keep fst (the (as_query (LoggingAspect (\<lambda>lvl msg args s. s)) :: (sample_shop, go_ctx, 'd goany, 'v) aspect option))"
    by (simp add: hooks_keep_def LoggingAspect_def log_before_def log_after_def split: option.split)
  moreover have "hooks_keep fst (the (as_query (MetricsAspect (ComposeMetrics [sample_metrics, sample_metrics])) ::
      (sample_shop, go_ctx, 'd goany, 'v) aspect option))"
    by (simp add: hooks_keep_def MetricsAspect_def metrics_after_def ComposeMetrics_def sample_metrics_def Let_def split: option.split)
  moreover have "hooks_keep fst (the (as_query (PersistenceAspect sample_persist)))"
    by (simp add: hooks_keep_def PersistenceAspect_def persist_AfterQuery_def sample_persist_def Let_def split: outcome.split prod.split)
  ultimately have "list_all (\<lambda>a. hooks_keep fst (the (as_query a))) (example_aspects sample_wiring sample_components)"
    by (simp add: example_aspects_def sample_wiring_def sample_components_def NewMemoryBackend_def NewBackend_def)
  then show ?thesis
    by (simp add: example_chain_def RegisterAspect_lists query_aspects_all NewAspectChain_def)
qed

theorem orders_never_reach_inventory_witness:
  "\<exists>a :: (sample_shop, unit, unit, unit, unit app_msg, unit app_result) AppContext.
     WireAppWithStore sample_wiring sample_env (\<lambda>ctx b e s. (Ret None, s)) (\<lambda>r. []) (\<lambda>ctx m s. (Ret (RNil, None), s)) sample_components = Ret (Inr a) \<and>
     fst (snd (CommandBus_Execute (\<lambda>s. (0, s)) (bs_cmd (ac_Buses a)) ctx_Background (app_any (ConfirmPaymentCommand ''o1''))
       (sold_out, (\<lparr>ow_heap = [], ow_orders = []\<rparr>, 0)))) = sold_out"
proof -
  let ?w = "WireAppWithStore sample_wiring sample_env (\<lambda>ctx b e s. (Ret None, s)) (\<lambda>r. []) (\<lambda>ctx m s. (Ret (RNil, None), s)) sample_components"
  obtain a where a: "?w = Ret (Inr a)" "ac_Chain a = example_chain sample_wiring sample_components"
    using wired_app by blast
  have "list_all (hooks_keep fst) (commandAspects (ac_Chain a))"
    using sample_hooks by (simp add: a(2) example_chain_commands)
  then have "fst (snd (CommandBus_Execute (\<lambda>s. (0, s)) (bs_cmd (ac_Buses a)) ctx_Background (app_any (ConfirmPaymentCommand ''o1''))
       (sold_out, (\<lparr>ow_heap = [], ow_orders = []\<rparr>, 0)))) = sold_out"
    using orders_never_reach_inventory [OF a(1) a(1), of "ConfirmPaymentCommand ''o1''" "\<lambda>s. (0, s)" ctx_Background
        "(sold_out, (\<lparr>ow_heap = [], ow_orders = []\<rparr>, 0))"]
    by (simp add: env_keeps_def sample_env_def)
  with a(1) show ?thesis by blast
qed

theorem close_releases_database_witness:
  "\<exists>s'. AppContext_Close (\<lambda>s. 0) sample_driver (\<lparr>ac_Chain = NewAspectChain, ac_Buses = new_buses NewAspectChain, ac_Registry = NewRegistry,
       ac_lifecycles = [\<lambda>ctx s. (Some (ErrText ''bus''), s)],
       ac_store = \<lparr>sc_Backend = NewBackend [], sc_EventStore = (), sc_OrderRepo = (), sc_DB = Some 1\<rparr>\<rparr>
         :: (nat list, unit, unit, unit, unit, unit) AppContext) ctx_Background [1] = (Some (ErrText ''shutdown errors: [bus]''), s') \<and> 1 \<notin> set s'"
proof -
  let ?a = "\<lparr>ac_Chain = NewAspectChain, ac_Buses = new_buses NewAspectChain, ac_Registry = NewRegistry,
       ac_lifecycles = [\<lambda>ctx s. (Some (ErrText ''bus''), s)],
       ac_store = \<lparr>sc_Backend = NewBackend [], sc_EventStore = (), sc_OrderRepo = (), sc_DB = Some 1\<rparr>\<rparr>
         :: (nat list, unit, unit, unit, unit, unit) AppContext"
  have run: "AppContext_Close (\<lambda>s. 0) sample_driver ?a ctx_Background [1] = (Some (ErrText ''shutdown errors: [bus]''), [])"
    by (simp add: AppContext_Close_def sample_driver_def add_error_def errors_text_def Let_def ctx_Err_def ctx_Background_def)
  have "driver_ok set sample_driver" using sample_driver_ok [of "\<lambda>k. []"] by (simp add: sample_surroundings_def)
  from close_releases_database [OF this _ run] show ?thesis using run by (intro exI [of _ "[]"]) simp
qed

end
