(* ===== verification/ExampleTypes.thy ===== *)
theory ExampleTypes
  imports ExampleApp TypePrototypes
begin

text \<open>
  The samples of the example application's messages, \<open>exampleapp/infrastructure/type_registry.go\<close>: what the viewer
  knows the messages by.  Of a sample only the type is looked at, so its value is left out.
\<close>

definition order_sample :: "string \<Rightarrow> string \<Rightarrow> unit goany" where
  "order_sample pkg n = GAny (TNamed (order_pkg @ pkg) n) ()"

definition inventory_sample :: "string \<Rightarrow> string \<Rightarrow> unit goany" where
  "inventory_sample pkg n = GAny (TNamed (inventory_pkg @ pkg) n) ()"

definition app_command_samples :: "(string \<times> unit goany \<times> unit goany) list" where
  "app_command_samples =
     [(''PlaceOrderCommand'', order_sample ''command'' ''PlaceOrderCommand'', order_sample ''command'' ''PlaceOrderResult''),
      (''ConfirmPaymentCommand'', order_sample ''command'' ''ConfirmPaymentCommand'', order_sample ''command'' ''ConfirmPaymentResult''),
      (''ShipOrderCommand'', order_sample ''command'' ''ShipOrderCommand'', order_sample ''command'' ''ShipOrderResult''),
      (''CancelOrderCommand'', order_sample ''command'' ''CancelOrderCommand'', order_sample ''command'' ''CancelOrderResult''),
      (''GenerateReportCommand'', order_sample ''command'' ''GenerateReportCommand'', order_sample ''command'' ''GenerateReportResult''),
      (''ReserveInventoryCommand'', inventory_sample ''command'' ''ReserveInventoryCommand'', inventory_sample ''command'' ''ReserveInventoryResult''),
      (''ReleaseInventoryCommand'', inventory_sample ''command'' ''ReleaseInventoryCommand'', inventory_sample ''command'' ''ReleaseInventoryResult''),
      (''ResetInventoryCommand'', inventory_sample ''command'' ''ResetInventoryCommand'', inventory_sample ''command'' ''ResetInventoryResult'')]"

definition app_query_samples :: "(string \<times> unit goany \<times> unit goany) list" where
  "app_query_samples =
     [(''GetOrderQuery'', order_sample ''query'' ''GetOrderQuery'', order_sample ''query'' ''GetOrderResult''),
      (''ListOrdersQuery'', order_sample ''query'' ''ListOrdersQuery'', order_sample ''query'' ''ListOrdersResult''),
      (''GetInventoryQuery'', inventory_sample ''query'' ''GetInventoryQuery'', inventory_sample ''query'' ''GetInventoryResult'')]"

definition app_event_samples :: "(string \<times> unit goany) list" where
  "app_event_samples =
     [(''OrderPlacedEvent'', order_sample ''event'' ''OrderPlacedEvent''),
      (''PaymentConfirmedEvent'', order_sample ''event'' ''PaymentConfirmedEvent''),
      (''OrderShippedEvent'', order_sample ''event'' ''OrderShippedEvent''),
      (''OrderCancelledEvent'', order_sample ''event'' ''OrderCancelledEvent''),
      (''InventoryReservedEvent'', inventory_sample ''event'' ''InventoryReservedEvent''),
      (''InventoryReleasedEvent'', inventory_sample ''event'' ''InventoryReleasedEvent'')]"

fun register_samples ::
    "(gtype \<Rightarrow> gview) \<Rightarrow> (string \<times> string \<times> unit goany \<times> unit goany) list \<Rightarrow> TypePrototypeRegistry \<Rightarrow> TypePrototypeRegistry option" where
  "register_samples env [] r = Some r"
| "register_samples env ((cat, name, sample, result) # ss) r =
     Option.bind (RegisterFromSample env cat name sample result r) (register_samples env ss)"

definition RegisterAppTypes :: "(gtype \<Rightarrow> gview) \<Rightarrow> TypePrototypeRegistry \<Rightarrow> TypePrototypeRegistry option" where
  "RegisterAppTypes env = register_samples env
     (map (Pair ''command'') app_command_samples @ map (Pair ''query'') app_query_samples @
      map (\<lambda>(name, sample). (''event'', name, sample, GNil)) app_event_samples)"

definition RegisterAppTypesToProvider :: "unit ReflectionSampleProvider \<Rightarrow> unit ReflectionSampleProvider" where
  "RegisterAppTypesToProvider p =
     (let p1 = foldl (\<lambda>p (name, sample, result). rp_RegisterCommand name sample result p) p app_command_samples;
          p2 = foldl (\<lambda>p (name, sample, result). rp_RegisterQuery name sample result p) p1 app_query_samples
      in foldl (\<lambda>p (name, sample). rp_RegisterEvent name sample p) p2 app_event_samples)"

definition NewAppTypeProvider :: "unit ReflectionSampleProvider" where
  "NewAppTypeProvider = RegisterAppTypesToProvider NewReflectionSampleProvider"

subsection \<open>The samples fit the wiring\<close>

lemmas app_samples = app_command_samples_def app_query_samples_def app_event_samples_def order_sample_def inventory_sample_def

text \<open>The type of a handler's messages is a pointer to the sample's.\<close>

definition takes_sample :: "('s, 'c, 'd, 'v) handler \<Rightarrow> unit goany \<Rightarrow> bool" where
  "takes_sample h sample \<longleftrightarrow> handler_payload h = Some (map_option TPtr (type_of sample))"

lemma samples_of_handlers:
  "list_all2 (\<lambda>h (name, sample, result). takes_sample h sample) (map snd (order_commands env @ inventory_commands clk publish)) app_command_samples"
  "list_all2 (\<lambda>h (name, sample, result). takes_sample h sample)
     (map snd (order_queries env @ [(''GetInventoryHandler'', get_inventory_handler)])) app_query_samples"
  by (simp_all add: app_samples shop_lists order_handlers inventory_handlers takes_sample_def handler_payload_def order_in_def struct_in_def)

lemma samples_of_subscribers:
  "takes_sample notification_handler (order_sample ''event'' ''OrderPlacedEvent'')"
  "takes_sample (placed_handler tname ex) (order_sample ''event'' ''OrderPlacedEvent'')"
  "takes_sample (cancelled_handler tname ex) (order_sample ''event'' ''OrderCancelledEvent'')"
  by (simp_all add: takes_sample_def notification_handler_def placed_handler_def cancelled_handler_def order_handler_def
      handler_payload_def order_sample_def order_in_def struct_in_def order_pkg_def)

text \<open>
  Every handler of the example application's buses has a sample of its messages: the handlers of commands
  and queries exactly one each, in the order of registration, those of events one of the six.
\<close>

theorem app_samples_complete:
  "list_all2 (\<lambda>h (name, sample, result). takes_sample h sample) (map snd (order_commands env @ inventory_commands clk publish)) app_command_samples \<and>
   list_all2 (\<lambda>h (name, sample, result). takes_sample h sample)
     (map snd (order_queries env @ [(''GetInventoryHandler'', get_inventory_handler)])) app_query_samples \<and>
   list_all (\<lambda>h. list_ex (\<lambda>(name, sample). takes_sample h sample) app_event_samples)
     (notification_handler # map snd (inventory_subscribers tname ex))"
  by (intro conjI samples_of_handlers) (simp add: inventory_subscribers_def app_event_samples_def samples_of_subscribers)

text \<open>The domains of the samples, and the names of their types.\<close>

lemma app_sample_domains:
  "map (\<lambda>(name, sample). inferDomainFromSample (\<lambda>t. VOther) sample) app_event_samples =
     [''order'', ''order'', ''order'', ''order'', ''inventory'', ''inventory'']"
  by code_simp

end
