(* ===== verification/Dashboard.thy ===== *)
theory Dashboard
  imports StatsModel MessageStores TraceStore JobCore
begin

text \<open>
  The JSON dashboard, \<open>observability/dashboard.go\<close>: its configuration, its routes and its handlers; and what
  both viewers share: requests, responses and the numbers in their queries.

  A handler is looked at during one request: the stores it asks are interfaces that answer for that
  request, the statistics are the collector's content.  \<open>net/http\<close> is the pair of request and response.
\<close>

subsection \<open>Numbers in a query\<close>

datatype num_error = ErrSyntax | ErrRange

text \<open>\<open>strconv.ParseUint(s, 10, 64)\<close> after \<open>n\<close>: an overflow is reported before the rest is read.\<close>

fun parse_digits :: "nat \<Rightarrow> string \<Rightarrow> num_error + nat" where
  "parse_digits n [] = Inr n"
| "parse_digits n (c # cs) =
     (if of_char c < (48 :: nat) \<or> (57 :: nat) < of_char c then Inl ErrSyntax
      else if 2 ^ 64 \<le> 10 * n + (of_char c - 48) then Inl ErrRange
      else parse_digits (10 * n + (of_char c - 48)) cs)"

text \<open>\<open>strconv.ParseInt(s, 10, 64)\<close> and \<open>strconv.Atoi\<close>: a value beside the error, the nearest one when out of range.\<close>

definition ParseInt :: "string \<Rightarrow> int \<times> num_error option" where
  "ParseInt s =
     (let neg = (case s of c # cs \<Rightarrow> c = CHR ''-'' | [] \<Rightarrow> False);
          ds = (case s of c # cs \<Rightarrow> if c = CHR ''-'' \<or> c = CHR ''+'' then cs else s | [] \<Rightarrow> [])
      in if ds = [] then (0, Some ErrSyntax)
         else (case parse_digits 0 ds of
                 Inl ErrSyntax \<Rightarrow> (0, Some ErrSyntax)
               | Inl ErrRange \<Rightarrow> (if neg then - (2 ^ 63) else 2 ^ 63 - 1, Some ErrRange)
               | Inr n \<Rightarrow>
                   if neg then (if 2 ^ 63 < n then (- (2 ^ 63), Some ErrRange) else (- int n, None))
                   else if 2 ^ 63 \<le> n then (2 ^ 63 - 1, Some ErrRange) else (int n, None)))"

definition Atoi :: "string \<Rightarrow> int \<times> num_error option" where
  "Atoi s = ParseInt s"

text \<open>\<open>time.Unix(ts, 0)\<close>, in nanoseconds since Go's zero time.\<close>

definition time_Unix :: "int \<Rightarrow> time" where
  "time_Unix ts = wrap64 (ts + 62135596800) * 1000000000"

subsection \<open>Requests and responses\<close>

record http_request =
  rq_Method :: string
  rq_Query :: "string \<Rightarrow> string"
  rq_Accept :: string
  rq_Path :: string
  rq_Context :: go_ctx

datatype 'b http_response =
    JsonBody int 'b
  | ErrorText int string

definition seconds :: "int \<Rightarrow> duration" where
  "seconds n = n * 1000000000"

text \<open>The interfaces the viewers ask; a span's status and type in a filter are any strings.\<close>

record trace_query =
  tq_Type :: string
  tq_Status :: string
  tq_StartTime :: time
  tq_EndTime :: time
  tq_NameContains :: string

definition no_trace_query :: trace_query where
  "no_trace_query = \<lparr>tq_Type = [], tq_Status = [], tq_StartTime = 0, tq_EndTime = 0, tq_NameContains = []\<rparr>"

record trace_reader =
  tr_ListTraces :: "go_ctx \<Rightarrow> trace_query \<Rightarrow> go_error + string list"
  tr_GetTrace :: "go_ctx \<Rightarrow> string \<Rightarrow> go_error + span list"

type_synonym 'j job_lister = "go_ctx \<Rightarrow> string \<Rightarrow> go_error + 'j list"

record message_reader =
  me_QueryCommands :: "go_ctx \<Rightarrow> MessageFilter \<Rightarrow> (CommandEntry QueryResult \<times> go_error option) outcome"
  me_QueryQueries :: "go_ctx \<Rightarrow> MessageFilter \<Rightarrow> (QueryEntry QueryResult \<times> go_error option) outcome"
  me_QueryEvents :: "go_ctx \<Rightarrow> MessageFilter \<Rightarrow> (EventEntry QueryResult \<times> go_error option) outcome"

text \<open>The in-memory store as such a reader; it ignores the context and has no errors.\<close>

definition observable_reader :: "InMemoryMessageStore \<Rightarrow> message_reader" where
  "observable_reader s =
     \<lparr>me_QueryCommands = (\<lambda>ctx f. out_bind (QueryCommands s f) (\<lambda>r. Ret (r, None))),
      me_QueryQueries = (\<lambda>ctx f. out_bind (QueryQueries s f) (\<lambda>r. Ret (r, None))),
      me_QueryEvents = (\<lambda>ctx f. out_bind (QueryEvents s f) (\<lambda>r. Ret (r, None)))\<rparr>"

subsection \<open>The dashboard\<close>

record DashboardConfig =
  dc_Prefix :: string
  dc_EnableStats :: bool
  dc_EnableCommands :: bool
  dc_EnableQueries :: bool
  dc_EnableEvents :: bool
  dc_EnableJobs :: bool
  dc_EnableTraces :: bool
  dc_EnableHealth :: bool
  dc_QueryLimit :: int

definition defaultConfig :: DashboardConfig where
  "defaultConfig =
     \<lparr>dc_Prefix = ''/api/ddd'', dc_EnableStats = True, dc_EnableCommands = True, dc_EnableQueries = True,
      dc_EnableEvents = True, dc_EnableJobs = True, dc_EnableTraces = True, dc_EnableHealth = True, dc_QueryLimit = 100\<rparr>"

record 'j Dashboard =
  db_stats :: StatsCollector
  db_traceStore :: "trace_reader option"
  db_jobMgr :: "'j job_lister option"
  db_msgReader :: "message_reader option"
  db_config :: DashboardConfig

datatype 'j DashboardOption =
    WithPrefix string
  | WithoutStats
  | WithoutCommands
  | WithoutQueries
  | WithoutEvents
  | WithoutJobs
  | WithoutTraces
  | WithoutHealth
  | WithQueryLimit int
  | WithDashboardTraceStore "trace_reader option"
  | WithDashboardJobManager "'j job_lister option"
  | WithMessageReader "message_reader option"

fun apply_dashboard_option :: "'j Dashboard \<Rightarrow> 'j DashboardOption \<Rightarrow> 'j Dashboard" where
  "apply_dashboard_option d (WithPrefix p) = d\<lparr>db_config := (db_config d)\<lparr>dc_Prefix := p\<rparr>\<rparr>"
| "apply_dashboard_option d WithoutStats = d\<lparr>db_config := (db_config d)\<lparr>dc_EnableStats := False\<rparr>\<rparr>"
| "apply_dashboard_option d WithoutCommands = d\<lparr>db_config := (db_config d)\<lparr>dc_EnableCommands := False\<rparr>\<rparr>"
| "apply_dashboard_option d WithoutQueries = d\<lparr>db_config := (db_config d)\<lparr>dc_EnableQueries := False\<rparr>\<rparr>"
| "apply_dashboard_option d WithoutEvents = d\<lparr>db_config := (db_config d)\<lparr>dc_EnableEvents := False\<rparr>\<rparr>"
| "apply_dashboard_option d WithoutJobs = d\<lparr>db_config := (db_config d)\<lparr>dc_EnableJobs := False\<rparr>\<rparr>"
| "apply_dashboard_option d WithoutTraces = d\<lparr>db_config := (db_config d)\<lparr>dc_EnableTraces := False\<rparr>\<rparr>"
| "apply_dashboard_option d WithoutHealth = d\<lparr>db_config := (db_config d)\<lparr>dc_EnableHealth := False\<rparr>\<rparr>"
| "apply_dashboard_option d (WithQueryLimit n) = d\<lparr>db_config := (db_config d)\<lparr>dc_QueryLimit := n\<rparr>\<rparr>"
| "apply_dashboard_option d (WithDashboardTraceStore ts) = d\<lparr>db_traceStore := ts\<rparr>"
| "apply_dashboard_option d (WithDashboardJobManager jm) = d\<lparr>db_jobMgr := jm\<rparr>"
| "apply_dashboard_option d (WithMessageReader r) = d\<lparr>db_msgReader := r\<rparr>"

definition NewDashboard :: "StatsCollector \<Rightarrow> 'j DashboardOption list \<Rightarrow> 'j Dashboard" where
  "NewDashboard stats opts = foldl apply_dashboard_option
     \<lparr>db_stats = stats, db_traceStore = None, db_jobMgr = None, db_msgReader = None, db_config = defaultConfig\<rparr> opts"

datatype route = RStats | RCommands | RQueries | REvents | RJobs | RTraces | RHealth

definition RegisterRoutes :: "'j Dashboard \<Rightarrow> (string \<times> route) list" where
  "RegisterRoutes d =
     (let p = dc_Prefix (db_config d); c = db_config d in
      (if dc_EnableStats c then [(p @ ''/stats'', RStats)] else []) @
      (if dc_EnableCommands c then [(p @ ''/commands'', RCommands)] else []) @
      (if dc_EnableQueries c then [(p @ ''/queries'', RQueries)] else []) @
      (if dc_EnableEvents c then [(p @ ''/events'', REvents)] else []) @
      (if dc_EnableJobs c then [(p @ ''/jobs'', RJobs)] else []) @
      (if dc_EnableTraces c then [(p @ ''/traces'', RTraces)] else []) @
      (if dc_EnableHealth c then [(p @ ''/health'', RHealth)] else []))"

text \<open>The values that are written as JSON.\<close>

datatype 'j json_body =
    JError string
  | JStats OperationStats
  | JStatsList "OperationStats list"
  | JJobs "'j list"
  | JJobList "(string \<times> 'j list) list"
  | JSpans "span list"
  | JTraceIDs "string list"
  | JHealth string "(string \<times> string) list"
  | JCommands "CommandEntry QueryResult"
  | JQueries "QueryEntry QueryResult"
  | JEvents "EventEntry QueryResult"

type_synonym 'j json_response = "'j json_body http_response"

definition not_allowed :: "'j json_response" where
  "not_allowed = ErrorText 405 ''method not allowed''"

definition handleStats :: "'j Dashboard \<Rightarrow> http_request \<Rightarrow> 'j json_response" where
  "handleStats d r =
     (if rq_Method r \<noteq> ''GET'' then not_allowed
      else (let name = rq_Query r ''name''; opType = rq_Query r ''type'' in
            if name \<noteq> []
            then (case GetStats (db_stats d) name of
                    None \<Rightarrow> JsonBody 404 (JError ''operation not found'')
                  | Some stats \<Rightarrow> JsonBody 200 (JStats stats))
            else if opType \<noteq> [] then JsonBody 200 (JStatsList (GetStatsByType (db_stats d) opType))
            else JsonBody 200 (JStatsList (GetAllStats (db_stats d)))))"

definition job_statuses :: "string list" where
  "job_statuses = map status_text
     [JobStatusPending, JobStatusRunning, JobStatusCompleted, JobStatusFailed, JobStatusCancelled]"

text \<open>The loop over the statuses; it stops at the first error.\<close>

fun list_statuses :: "'j job_lister \<Rightarrow> go_ctx \<Rightarrow> string list \<Rightarrow> go_error + (string \<times> 'j list) list" where
  "list_statuses jm ctx [] = Inr []"
| "list_statuses jm ctx (st # sts) =
     (case jm ctx st of
        Inl err \<Rightarrow> Inl err
      | Inr jobs \<Rightarrow> (case list_statuses jm ctx sts of Inl err \<Rightarrow> Inl err | Inr rest \<Rightarrow> Inr ((st, jobs) # rest)))"

definition handleJobs :: "time \<Rightarrow> 'j Dashboard \<Rightarrow> http_request \<Rightarrow> 'j json_response" where
  "handleJobs now d r =
     (if rq_Method r \<noteq> ''GET'' then not_allowed
      else (case db_jobMgr d of
          None \<Rightarrow> JsonBody 503 (JError ''job manager not configured'')
        | Some jm \<Rightarrow>
            (let statusStr = rq_Query r ''status'';
                 ctx = ctx_WithTimeout (rq_Context r) now (seconds 5)
             in if statusStr \<noteq> []
                then (case jm ctx statusStr of
                        Inl err \<Rightarrow> JsonBody 500 (JError (error_text err))
                      | Inr jobs \<Rightarrow> JsonBody 200 (JJobs jobs))
                else (case list_statuses jm ctx job_statuses of
                        Inl err \<Rightarrow> JsonBody 500 (JError (error_text err))
                      | Inr lst \<Rightarrow> JsonBody 200 (JJobList lst)))))"

text \<open>A time in a query, in seconds; zero, which means no bound, when it is no number.\<close>

definition query_time :: "string \<Rightarrow> time" where
  "query_time s = (if s = [] then 0 else (case ParseInt s of (ts, None) \<Rightarrow> time_Unix ts | (ts, Some err) \<Rightarrow> 0))"

definition handleTraces :: "time \<Rightarrow> 'j Dashboard \<Rightarrow> http_request \<Rightarrow> 'j json_response" where
  "handleTraces now d r =
     (if rq_Method r \<noteq> ''GET'' then not_allowed
      else (case db_traceStore d of
          None \<Rightarrow> JsonBody 503 (JError ''trace store not configured'')
        | Some store \<Rightarrow>
            (let ctx = ctx_WithTimeout (rq_Context r) now (seconds 5);
                 traceID = rq_Query r ''traceID''
             in if traceID \<noteq> []
                then (case tr_GetTrace store ctx traceID of
                        Inl err \<Rightarrow> JsonBody 500 (JError (error_text err))
                      | Inr spans \<Rightarrow> JsonBody 200 (JSpans spans))
                else (case tr_ListTraces store ctx
                             \<lparr>tq_Type = rq_Query r ''type'', tq_Status = rq_Query r ''status'',
                              tq_StartTime = query_time (rq_Query r ''start''), tq_EndTime = query_time (rq_Query r ''end''),
                              tq_NameContains = rq_Query r ''name''\<rparr> of
                        Inl err \<Rightarrow> JsonBody 500 (JError (error_text err))
                      | Inr ids \<Rightarrow> JsonBody 200 (JTraceIDs ids)))))"

text \<open>One check of \<open>handleHealth\<close>, and the answer made of the checks.\<close>

definition health_check :: "string \<Rightarrow> (go_error + 'a) option \<Rightarrow> (string \<times> string) list" where
  "health_check name result =
     (case result of
        None \<Rightarrow> []
      | Some (Inl err) \<Rightarrow> [(name, ''error: '' @ error_text err)]
      | Some (Inr x) \<Rightarrow> [(name, ''ok'')])"

definition health_response :: "bool \<Rightarrow> (string \<times> string) list \<Rightarrow> 'j json_response" where
  "health_response degraded checks =
     (if degraded then JsonBody 503 (JHealth ''degraded'' checks) else JsonBody 200 (JHealth ''ok'' checks))"

definition health_failed :: "(go_error + 'a) option \<Rightarrow> bool" where
  "health_failed result = (case result of Some (Inl err) \<Rightarrow> True | _ \<Rightarrow> False)"

definition handleHealth :: "time \<Rightarrow> 'j Dashboard \<Rightarrow> http_request \<Rightarrow> 'j json_response" where
  "handleHealth now d r =
     (if rq_Method r \<noteq> ''GET'' then not_allowed
      else (let ctx = ctx_WithTimeout (rq_Context r) now (seconds 2);
                traces = map_option (\<lambda>store. tr_ListTraces store ctx no_trace_query) (db_traceStore d);
                jobs = map_option (\<lambda>jm. jm ctx (status_text JobStatusCompleted)) (db_jobMgr d)
            in health_response (health_failed traces \<or> health_failed jobs)
                 (health_check ''traceStore'' traces @ health_check ''jobManager'' jobs @ [(''statsCollector'', ''ok'')])))"

definition parseMessageFilter :: "'j Dashboard \<Rightarrow> http_request \<Rightarrow> MessageFilter" where
  "parseMessageFilter d r =
     (let limit = (if rq_Query r ''limit'' = [] then dc_QueryLimit (db_config d)
                   else (case Atoi (rq_Query r ''limit'') of
                           (n, None) \<Rightarrow> if n > 0 then n else dc_QueryLimit (db_config d)
                         | (n, Some err) \<Rightarrow> dc_QueryLimit (db_config d)))
      in \<lparr>mf_Type = rq_Query r ''type'', mf_TraceID = rq_Query r ''traceID'', mf_AggregateID = rq_Query r ''aggregateID'',
          mf_Status = rq_Query r ''status'', mf_Since = query_time (rq_Query r ''since''), mf_Limit = limit, mf_Offset = 0\<rparr>)"

text \<open>The three handlers of the messages differ in the query they make.\<close>

definition handle_messages ::
    "(message_reader \<Rightarrow> go_ctx \<Rightarrow> MessageFilter \<Rightarrow> ('a QueryResult \<times> go_error option) outcome) \<Rightarrow> ('a QueryResult \<Rightarrow> 'j json_body) \<Rightarrow>
       time \<Rightarrow> 'j Dashboard \<Rightarrow> http_request \<Rightarrow> 'j json_response outcome" where
  "handle_messages query body now d r =
     (if rq_Method r \<noteq> ''GET'' then Ret not_allowed
      else (case db_msgReader d of
          None \<Rightarrow> Ret (JsonBody 503 (JError ''message store reader not configured''))
        | Some reader \<Rightarrow>
            out_bind (query reader (ctx_WithTimeout (rq_Context r) now (seconds 5)) (parseMessageFilter d r))
              (\<lambda>(result, err). case err of
                 Some e \<Rightarrow> Ret (JsonBody 500 (JError (error_text e)))
               | None \<Rightarrow> Ret (JsonBody 200 (body result)))))"

definition handleCommands :: "time \<Rightarrow> 'j Dashboard \<Rightarrow> http_request \<Rightarrow> 'j json_response outcome" where
  "handleCommands = handle_messages me_QueryCommands JCommands"

definition handleQueries :: "time \<Rightarrow> 'j Dashboard \<Rightarrow> http_request \<Rightarrow> 'j json_response outcome" where
  "handleQueries = handle_messages me_QueryQueries JQueries"

definition handleEvents :: "time \<Rightarrow> 'j Dashboard \<Rightarrow> http_request \<Rightarrow> 'j json_response outcome" where
  "handleEvents = handle_messages me_QueryEvents JEvents"

subsection \<open>Printed numbers are read back\<close>

lemma digit_char [simp]: "d < 10 \<Longrightarrow> of_char (char_of (48 + d) :: char) = (48 + d :: nat)"
  by simp

lemma parse_digits_append:
  "parse_digits n (xs @ ys) = (case parse_digits n xs of Inl e \<Rightarrow> Inl e | Inr m \<Rightarrow> parse_digits m ys)"
  by (induction xs arbitrary: n) auto

lemma parse_digits_show_nat: "n < 2 ^ 64 \<Longrightarrow> parse_digits 0 (show_nat n) = Inr n"
proof (induction n rule: show_nat.induct)
  case (1 n)
  show ?case
  proof (cases "n < 10")
    case True
    then show ?thesis
      by (subst show_nat.simps) simp
  next
    case False
    have "n = 10 * (n div 10) + n mod 10"
      by simp
    then show ?thesis
      using 1 False by (subst show_nat.simps) (simp add: parse_digits_append)
  qed
qed

lemma digit_no_sign: "d < 10 \<Longrightarrow> char_of (48 + d) \<noteq> CHR ''-'' \<and> char_of (48 + d) \<noteq> CHR ''+''" for d :: nat
proof -
  assume "d < 10"
  then have "of_char (char_of (48 + d) :: char) = (48 + d :: nat)"
    by simp
  then have code: "of_char (char_of (48 + d) :: char) \<noteq> (45 :: nat)" "of_char (char_of (48 + d) :: char) \<noteq> (43 :: nat)"
    by linarith+
  show ?thesis
  proof (intro conjI notI)
    assume "char_of (48 + d) = CHR ''-''"
    with code(1) show False by simp
  next
    assume "char_of (48 + d) = CHR ''+''"
    with code(2) show False by simp
  qed
qed

lemma show_nat_head: "\<exists>c cs. show_nat n = c # cs \<and> c \<noteq> CHR ''-'' \<and> c \<noteq> CHR ''+''"
proof (induction n rule: less_induct)
  case (less n)
  show ?case
  proof (cases "n < 10")
    case True
    then show ?thesis
      using digit_no_sign [OF True] by (subst show_nat.simps) simp
  next
    case False
    then have "\<exists>c cs. show_nat (n div 10) = c # cs \<and> c \<noteq> CHR ''-'' \<and> c \<noteq> CHR ''+''"
      by (intro less) simp
    then show ?thesis
      using False by (subst show_nat.simps) auto
  qed
qed

lemma ParseInt_show_int:
  assumes "- (2 ^ 63) \<le> n" "n < 2 ^ 63"
  shows "ParseInt (show_int n) = (n, None)"
proof -
  obtain c cs where cs: "show_nat (nat \<bar>n\<bar>) = c # cs" "c \<noteq> CHR ''-''" "c \<noteq> CHR ''+''"
    using show_nat_head by blast
  have "nat \<bar>n\<bar> < 2 ^ 64"
    using assms by (simp add: nat_less_iff)
  then have digits: "parse_digits 0 (c # cs) = Inr (nat \<bar>n\<bar>)"
    using parse_digits_show_nat [of "nat \<bar>n\<bar>"] cs(1) by simp
  show ?thesis
  proof (cases "n < 0")
    case True
    then show ?thesis
      using cs(1) digits assms by (simp add: show_int_def ParseInt_def Let_def del: parse_digits.simps)
  next
    case False
    then show ?thesis
      using cs digits assms by (simp add: show_int_def ParseInt_def Let_def del: parse_digits.simps)
  qed
qed

text \<open>
  A number of 64 bits, printed, is read back as itself without an error.
\<close>

theorem ParseInt_show:
  assumes "- (2 ^ 63) \<le> n" "n < 2 ^ 63"
  shows "ParseInt (show_int n) = (n, None)"
  using assms by (rule ParseInt_show_int)

theorem ParseInt_show_witness: "ParseInt (show_int (- 1205)) = (- 1205, None)"
  by (rule ParseInt_show) simp_all

subsection \<open>What the dashboard answers\<close>

lemma filter_limit_positive: "0 < dc_QueryLimit (db_config d) \<Longrightarrow> 0 < mf_Limit (parseMessageFilter d r)"
  by (simp add: parseMessageFilter_def Let_def split: prod.split option.split)

text \<open>
  A GET of the commands of a dashboard over the in-memory store, after any entries were recorded
  in it, is answered with the newest matching entries of those the store keeps, at most as many as the
  request's limit (the dashboard's own when the request names none), and with the number of all that
  match; it never panics.
\<close>

theorem dashboard_commands_newest:
  assumes "0 \<le> maxSize" "im_commands_run (NewObservableMessageStore (Some maxSize)) es = Ret s"
    and "db_msgReader d = Some (observable_reader s)" "0 < dc_QueryLimit (db_config d)" "rq_Method r = ''GET''"
  shows "\<exists>limit matching.
           matching = filter (\<lambda>e. matchCommandFilter e (parseMessageFilter d r)) (rev (last_n (nat maxSize) es)) \<and>
           limit = mf_Limit (parseMessageFilter d r) \<and> 0 < limit \<and>
           handleCommands now d r = Ret (JsonBody 200 (JCommands \<lparr>qr_Items = take (nat limit) matching, qr_Total = length matching\<rparr>))"
proof -
  let ?f = "parseMessageFilter d r"
  define matching where "matching = filter (\<lambda>e. matchCommandFilter e ?f) (rev (last_n (nat maxSize) es))"
  have "mf_Offset ?f = 0"
    by (simp add: parseMessageFilter_def Let_def)
  moreover have limit: "0 < mf_Limit ?f"
    using filter_limit_positive assms(4) .
  ultimately have "QueryCommands s ?f = Ret \<lparr>qr_Items = take (nat (mf_Limit ?f)) matching, qr_Total = length matching\<rparr>"
    using im_commands_page [OF assms(1), of ?f es] assms(2) by (simp add: Let_def matching_def)
  then have "handleCommands now d r =
      Ret (JsonBody 200 (JCommands \<lparr>qr_Items = take (nat (mf_Limit ?f)) matching, qr_Total = length matching\<rparr>))"
    using assms(3,5) by (simp add: handleCommands_def handle_messages_def observable_reader_def)
  then show ?thesis
    using limit matching_def by blast
qed

definition sample_request :: "(string \<times> string) list \<Rightarrow> http_request" where
  "sample_request qs =
     \<lparr>rq_Method = ''GET'', rq_Query = (\<lambda>k. case map_of qs k of Some v \<Rightarrow> v | None \<Rightarrow> []), rq_Accept = [], rq_Path = [],
      rq_Context = ctx_Background\<rparr>"

theorem dashboard_commands_newest_witness:
  "\<exists>limit matching. limit = mf_Limit (parseMessageFilter
       (NewDashboard (NewStatsCollector []) [WithMessageReader (Some (observable_reader (NewObservableMessageStore (Some 3))))] :: unit Dashboard)
       (sample_request [(''limit'', ''7'')])) \<and> limit = 7 \<and>
     handleCommands 0 (NewDashboard (NewStatsCollector [])
         [WithMessageReader (Some (observable_reader (NewObservableMessageStore (Some 3))))] :: unit Dashboard)
       (sample_request [(''limit'', ''7'')]) =
     Ret (JsonBody 200 (JCommands \<lparr>qr_Items = take (nat limit) matching, qr_Total = length matching\<rparr>))"
proof -
  let ?d = "NewDashboard (NewStatsCollector []) [WithMessageReader (Some (observable_reader (NewObservableMessageStore (Some 3))))] :: unit Dashboard"
  have d: "db_msgReader ?d = Some (observable_reader (NewObservableMessageStore (Some 3)))" "0 < dc_QueryLimit (db_config ?d)"
    by (simp_all add: NewDashboard_def defaultConfig_def)
  have "mf_Limit (parseMessageFilter ?d (sample_request [(''limit'', ''7'')])) = 7"
    by (simp add: parseMessageFilter_def sample_request_def Atoi_def ParseInt_def)
  then show ?thesis
    using dashboard_commands_newest [of 3 "[]" "NewObservableMessageStore (Some 3)" ?d "sample_request [(''limit'', ''7'')]" 0] d
    by (auto simp: sample_request_def)
qed

text \<open>
  The health check answers 503 and ``degraded'' exactly when the trace store or the job manager it
  has cannot be queried, and else 200 and ``ok''; a part it does not have is not checked.
\<close>

theorem health_reports_failures:
  fixes d :: "'j Dashboard" and r :: http_request and now :: time
  assumes "rq_Method r = ''GET''"
  defines "ctx \<equiv> ctx_WithTimeout (rq_Context r) now (seconds 2)"
  shows "\<exists>checks. handleHealth now d r =
            (if (\<exists>store err. db_traceStore d = Some store \<and> tr_ListTraces store ctx no_trace_query = Inl err) \<or>
                (\<exists>jm err. db_jobMgr d = Some jm \<and> jm ctx ''completed'' = Inl err)
             then JsonBody 503 (JHealth ''degraded'' checks) else JsonBody 200 (JHealth ''ok'' checks)) \<and>
          map fst checks = (if db_traceStore d = None then [] else [''traceStore'']) @
            (if db_jobMgr d = None then [] else [''jobManager'']) @ [''statsCollector'']"
proof -
  show ?thesis
    using assms(1) unfolding ctx_def
    by (cases "db_traceStore d"; cases "db_jobMgr d")
      (auto simp: handleHealth_def Let_def health_response_def health_failed_def health_check_def split: option.splits sum.splits)
qed

theorem health_reports_failures_witness:
  "handleHealth 0 (NewDashboard (NewStatsCollector []) [WithDashboardJobManager (Some (\<lambda>ctx st. Inl (ErrText ''down'')))] :: unit Dashboard)
     (sample_request []) = JsonBody 503 (JHealth ''degraded'' [(''jobManager'', ''error: down''), (''statsCollector'', ''ok'')])"
  using health_reports_failures [of "sample_request []" 0
      "NewDashboard (NewStatsCollector []) [WithDashboardJobManager (Some (\<lambda>ctx st. Inl (ErrText ''down'')))] :: unit Dashboard"]
  by (simp add: sample_request_def NewDashboard_def handleHealth_def Let_def health_response_def health_failed_def health_check_def)

end
