(* ===== verification/Viewer.thy ===== *)
theory Viewer
  imports Dashboard TypePrototypes Relationship
begin

text \<open>
  The viewer, \<open>observability/ddd_viewer.go\<close>: its options, its routes and its handlers, and the schema pages
  of \<open>observability/schema_viewer.go\<close> and \<open>schema_reader.go\<close>.

  A page is the template's name with the data it is given; \<open>html/template\<close> and the templates are not
  part of the model, nor are the lines on the standard log.  A viewer is looked at during one request: what
  it points to is the content at that moment.  The static schema, the text of durations and times, and
  \<open>json.Indent\<close> are arguments.
\<close>

subsection \<open>Pages\<close>

record Pagination =
  pn_Page :: int
  pn_PageSize :: int
  pn_Total :: int
  pn_Pages :: int
  pn_HasPrev :: bool
  pn_HasNext :: bool

definition newPagination :: "int \<Rightarrow> int \<Rightarrow> int \<Rightarrow> Pagination" where
  "newPagination pg pageSize n =
     (let ps = (if pageSize \<le> 0 then 50 else pageSize);
          p = (if pg \<le> 0 then 1 else pg);
          pages0 = go_div n ps;
          pages1 = (if n - pages0 * ps > 0 then pages0 + 1 else pages0);
          pages = (if pages1 = 0 then 1 else pages1)
      in \<lparr>pn_Page = p, pn_PageSize = ps, pn_Total = n, pn_Pages = pages,
          pn_HasPrev = p > 1, pn_HasNext = p < pages\<rparr>)"

text \<open>The page and its size in a query: what they are when absent, no number, or out of bounds.\<close>

definition query_pageSize :: "http_request \<Rightarrow> int" where
  "query_pageSize r =
     (if rq_Query r ''pageSize'' = [] then 50
      else (case Atoi (rq_Query r ''pageSize'') of
              (n, None) \<Rightarrow> if n > 0 \<and> n \<le> 500 then n else 50
            | (n, Some err) \<Rightarrow> 50))"

definition query_page :: "http_request \<Rightarrow> int" where
  "query_page r =
     (if rq_Query r ''page'' = [] then 1
      else (case Atoi (rq_Query r ''page'') of
              (n, None) \<Rightarrow> if n > 0 then n else 1
            | (n, Some err) \<Rightarrow> 1))"

text \<open>The lists of messages take the number \<open>Atoi\<close> returns beside an error, too.\<close>

definition shown_page :: "http_request \<Rightarrow> int" where
  "shown_page r = (let pg = fst (Atoi (rq_Query r ''page'')) in if pg \<le> 0 then 1 else pg)"

definition page_offset :: "http_request \<Rightarrow> int" where
  "page_offset r = wrap64 (wrap64 (query_page r - 1) * query_pageSize r)"

definition viewer_parseMessageFilter :: "http_request \<Rightarrow> MessageFilter" where
  "viewer_parseMessageFilter r =
     \<lparr>mf_Type = rq_Query r ''type'', mf_TraceID = rq_Query r ''traceID'', mf_AggregateID = rq_Query r ''aggregateID'',
      mf_Status = rq_Query r ''status'', mf_Since = query_time (rq_Query r ''since''),
      mf_Limit = query_pageSize r, mf_Offset = page_offset r\<rparr>"

definition slice_range :: "int \<Rightarrow> int \<Rightarrow> 'a list \<Rightarrow> 'a list outcome" where
  "slice_range lo hi xs =
     (if 0 \<le> lo \<and> lo \<le> hi \<and> hi \<le> int (length xs) then Ret (take (nat (hi - lo)) (drop (nat lo) xs))
      else Panic ''slice bounds out of range'')"

subsection \<open>The schema\<close>

record TableInfo =
  ti_Name :: string
  ti_Description :: string
  ti_RowCount :: int
  ti_LastUpdated :: "time option"
  ti_DiskSize :: int
  ti_AvgRowSize :: int

record ColumnInfo =
  co_Name :: string
  co_Type :: string
  co_Nullable :: bool
  co_DefaultValue :: string
  co_IsPrimaryKey :: bool
  co_Description :: string

record IndexInfo =
  ix_Name :: string
  ix_Columns :: "string list"
  ix_Unique :: bool

record TableDetail =
  td_TableInfo :: TableInfo
  td_Columns :: "ColumnInfo list"
  td_Indexes :: "IndexInfo list"

record TableRelation =
  rl_FromTable :: string
  rl_FromColumn :: string
  rl_ToTable :: string
  rl_ToColumn :: string

record schema_reader =
  sr_ListTables :: "go_ctx \<Rightarrow> TableInfo list \<times> go_error option"
  sr_GetTable :: "go_ctx \<Rightarrow> string \<Rightarrow> go_error + TableDetail"
  sr_ListRelations :: "go_ctx \<Rightarrow> TableRelation list \<times> go_error option"

definition StaticRelations :: "TableRelation list" where
  "StaticRelations =
     [\<lparr>rl_FromTable = ''ddd_job_execution_log'', rl_FromColumn = ''job_id'', rl_ToTable = ''ddd_jobs'', rl_ToColumn = ''id''\<rparr>,
      \<lparr>rl_FromTable = ''ddd_event_handler_log'', rl_FromColumn = ''event_log_id'', rl_ToTable = ''ddd_event_log'', rl_ToColumn = ''id''\<rparr>]"

definition memory_ListTables :: "TableDetail list \<Rightarrow> TableInfo list" where
  "memory_ListTables schema =
     map (\<lambda>t. (td_TableInfo t)\<lparr>ti_RowCount := - 1, ti_DiskSize := - 1, ti_AvgRowSize := - 1\<rparr>) schema"

definition memory_GetTable :: "TableDetail list \<Rightarrow> string \<Rightarrow> go_error + TableDetail" where
  "memory_GetTable schema name =
     (case find (\<lambda>t. ti_Name (td_TableInfo t) = name) schema of
        Some t \<Rightarrow> Inr t
      | None \<Rightarrow> Inl (ErrText (''table '' @ [CHR 0x22] @ name @ [CHR 0x22] @ '' not found'')))"

definition InMemorySchemaReader :: "TableDetail list \<Rightarrow> schema_reader" where
  "InMemorySchemaReader schema =
     \<lparr>sr_ListTables = (\<lambda>ctx. (memory_ListTables schema, None)), sr_GetTable = (\<lambda>ctx. memory_GetTable schema),
      sr_ListRelations = (\<lambda>ctx. (StaticRelations, None))\<rparr>"

definition formatCount :: "int \<Rightarrow> string" where
  "formatCount n = (if n < 0 then ''N/A'' else show_int n)"

subsection \<open>The viewer\<close>

datatype 'm store_ref = OwnStore InMemoryMessageStore | GivenStore 'm

record ('j, 'm) DDDViewer =
  vw_statsCollector :: "StatsCollector option"
  vw_msgStore :: "'m store_ref option"
  vw_msgReader :: "message_reader option"
  vw_schemaReader :: "schema_reader option"
  vw_traceStore :: "trace_reader option"
  vw_jobMgr :: "'j job_lister option"
  vw_typeRegistry :: "TypePrototypeRegistry option"
  vw_relRegistry :: "registry option"
  vw_Prefix :: string
  vw_QueryLimit :: int
  vw_backendType :: string
  vw_baseURL :: string

datatype ('d, 'j, 'm) DDDViewerOption =
    WithDDDViewerPrefix string
  | WithDDDViewerPgDB
  | WithDDDViewerBaseURL string
  | WithDDDViewerTraceStore "trace_reader option"
  | WithDDDViewerJobManager "'j job_lister option"
  | WithDDDViewerMessageStore "'m option"
  | WithDDDViewerMessageReader "message_reader option"
  | WithDDDViewerSchemaReader "schema_reader option" string
  | WithDDDViewerStatsCollector "StatsCollector option"
  | WithDDDViewerRelationshipRegistry "registry option"
  | WithDDDViewerExtraEvents "(string \<times> 'd goany) list"

fun register_events :: "(gtype \<Rightarrow> gview) \<Rightarrow> (string \<times> 'd goany) list \<Rightarrow> TypePrototypeRegistry \<Rightarrow> TypePrototypeRegistry option" where
  "register_events env [] reg = Some reg"
| "register_events env ((name, sample) # es) reg =
     Option.bind (RegisterFromSample env ''event'' name sample (GNil :: 'd goany) reg) (register_events env es)"

text \<open>An option; \<open>None\<close> is the call that does not return, of the registration by reflection.\<close>

fun apply_viewer_option ::
    "(gtype \<Rightarrow> gview) \<Rightarrow> ('j, 'm) DDDViewer \<Rightarrow> ('d, 'j, 'm) DDDViewerOption \<Rightarrow> ('j, 'm) DDDViewer option" where
  "apply_viewer_option env v (WithDDDViewerPrefix p) = Some (v\<lparr>vw_Prefix := p\<rparr>)"
| "apply_viewer_option env v WithDDDViewerPgDB = Some (v\<lparr>vw_backendType := ''PostgreSQL''\<rparr>)"
| "apply_viewer_option env v (WithDDDViewerBaseURL url) = Some (v\<lparr>vw_baseURL := url\<rparr>)"
| "apply_viewer_option env v (WithDDDViewerTraceStore ts) = Some (v\<lparr>vw_traceStore := ts\<rparr>)"
| "apply_viewer_option env v (WithDDDViewerJobManager jm) = Some (v\<lparr>vw_jobMgr := jm\<rparr>)"
| "apply_viewer_option env v (WithDDDViewerMessageStore ms) = Some (v\<lparr>vw_msgStore := map_option GivenStore ms\<rparr>)"
| "apply_viewer_option env v (WithDDDViewerMessageReader r) = Some (v\<lparr>vw_msgReader := r\<rparr>)"
| "apply_viewer_option env v (WithDDDViewerSchemaReader r backend) = Some (v\<lparr>vw_schemaReader := r, vw_backendType := backend\<rparr>)"
| "apply_viewer_option env v (WithDDDViewerStatsCollector sc) = Some (v\<lparr>vw_statsCollector := sc\<rparr>)"
| "apply_viewer_option env v (WithDDDViewerRelationshipRegistry reg) = Some (v\<lparr>vw_relRegistry := reg\<rparr>)"
| "apply_viewer_option env v (WithDDDViewerExtraEvents events) =
     (case vw_typeRegistry v of
        None \<Rightarrow> Some v
      | Some reg \<Rightarrow> map_option (\<lambda>reg1. v\<lparr>vw_typeRegistry := Some reg1\<rparr>) (register_events env events reg))"

fun apply_viewer_options where
  "apply_viewer_options env v [] = Some v"
| "apply_viewer_options env v (opt # opts) =
     Option.bind (apply_viewer_option env v opt) (\<lambda>v1. apply_viewer_options env v1 opts)"

text \<open>What \<open>NewDDDViewer\<close> does after the options.\<close>

definition viewer_defaults :: "TableDetail list \<Rightarrow> ('j, 'm) DDDViewer \<Rightarrow> ('j, 'm) DDDViewer" where
  "viewer_defaults schema v =
     (let v1 = (if vw_msgStore v = None \<and> vw_msgReader v = None
                then v\<lparr>vw_msgStore := Some (OwnStore (NewObservableMessageStore None)),
                       vw_msgReader := Some (observable_reader (NewObservableMessageStore None))\<rparr> else v)
      in if vw_schemaReader v1 = None then v1\<lparr>vw_schemaReader := Some (InMemorySchemaReader schema)\<rparr> else v1)"

definition NewDDDViewer ::
    "(gtype \<Rightarrow> gview) \<Rightarrow> TableDetail list \<Rightarrow> string list outcome option \<Rightarrow> string list outcome option \<Rightarrow> string list outcome option \<Rightarrow>
     'd sample_provider option \<Rightarrow> ('d, 'j, 'm) DDDViewerOption list \<Rightarrow> ('j, 'm) DDDViewer outcome option" where
  "NewDDDViewer env schema cmdBus queryBus evtBus provider opts =
     (case NewTypePrototypeRegistryFromBuses env cmdBus queryBus evtBus provider of
        None \<Rightarrow> None
      | Some (Panic m) \<Rightarrow> Some (Panic m)
      | Some (Ret reg) \<Rightarrow>
          map_option (\<lambda>v. Ret (viewer_defaults schema v))
            (apply_viewer_options env
               \<lparr>vw_statsCollector = Some (NewStatsCollector []), vw_msgStore = None, vw_msgReader = None, vw_schemaReader = None,
                vw_traceStore = None, vw_jobMgr = None, vw_typeRegistry = Some reg, vw_relRegistry = None,
                vw_Prefix = ''/api/ddd'', vw_QueryLimit = 100, vw_backendType = ''Memory'', vw_baseURL = []\<rparr> opts))"

datatype 'm viewer_aspect = ViewerMetrics "StatsCollector option" | ViewerPersistence "'m store_ref"

definition Aspects :: "('j, 'm) DDDViewer \<Rightarrow> 'm viewer_aspect list" where
  "Aspects v = [ViewerMetrics (vw_statsCollector v)] @
     (case vw_msgStore v of None \<Rightarrow> [] | Some store \<Rightarrow> [ViewerPersistence store])"

datatype viewer_route =
    VOverview | VTableList | VTableDetail | VCommands | VQueries | VEvents | VDomains | VCommandTypes
  | VQueryTypes | VEventTypes | VStats | VJobs | VTraces | VHealth | VGraph

definition viewer_RegisterRoutes :: "('j, 'm) DDDViewer \<Rightarrow> (string \<times> viewer_route) list" where
  "viewer_RegisterRoutes v =
     map (\<lambda>(path, rt). (''GET '' @ vw_Prefix v @ path, rt))
       [(''/ddd_overview'', VOverview), (''/ddd_schema/'', VTableList), (''/ddd_schema/{table}'', VTableDetail),
        (''/ddd_commands'', VCommands), (''/ddd_queries'', VQueries), (''/ddd_events'', VEvents),
        (''/ddd_domains'', VDomains), (''/ddd_command_types'', VCommandTypes), (''/ddd_query_types'', VQueryTypes),
        (''/ddd_event_types'', VEventTypes), (''/ddd_stats'', VStats), (''/ddd_jobs'', VJobs),
        (''/ddd_traces'', VTraces), (''/ddd_health'', VHealth), (''/ddd_graph'', VGraph)]"

subsection \<open>What the pages show\<close>

record SpanView =
  sv_ID :: string
  sv_TraceID :: string
  sv_ParentID :: string
  sv_Type :: string
  sv_Name :: string
  sv_Status :: string
  sv_Error :: string
  sv_Duration :: duration

record DomainStats =
  dm_CommandCount :: int
  dm_CommandErrors :: int
  dm_QueryCount :: int
  dm_QueryErrors :: int
  dm_EventCount :: int
  dm_EventErrors :: int

record DomainEntry =
  de_Type :: string
  de_Category :: string
  de_Status :: string
  de_Duration :: string
  de_CreatedAt :: string
  de_Error :: string
  de_Data :: string
  de_Result :: string

record domain_page =
  dp_Domains :: "string list"
  dp_SelectedDomain :: string
  dp_Stats :: DomainStats
  dp_DomainInfo :: "DomainInfo option"
  dp_Entries :: "DomainEntry list"
  dp_Pagination :: "Pagination option"

record overview_page =
  op_Tables :: "TableInfo list"
  op_Relations :: "TableRelation list"
  op_AllStats :: "OperationStats list"
  op_CmdCount :: int
  op_QueryCount :: int
  op_EventCount :: int
  op_HasMsgReader :: bool
  op_HasTraceStore :: bool
  op_HasJobMgr :: bool

datatype 'j page_data =
    Unavailable string
  | Overview overview_page
  | SchemaTables "TableInfo list" "TableRelation list"
  | SchemaDetail TableDetail
  | CommandEntries "CommandEntry list" MessageFilter Pagination
  | QueryEntries "QueryEntry list" MessageFilter Pagination
  | EventEntries "EventEntry list" MessageFilter Pagination
  | StatsPage "OperationStats list"
  | JobGroups "(string \<times> 'j list) list"
  | TracesPage "(string \<times> SpanView list) list" string string Pagination
  | GraphPage graph string string string "string list"
  | TypesPage string "TypePrototype list" nat
  | DomainsPage domain_page

text \<open>\<open>HtmlPage name data\<close> is \<open>render\<close> with the viewer's prefix, \<open>GraphJson\<close> the answer with a graph.\<close>

datatype 'j viewer_response =
    HtmlPage string "'j page_data"
  | HttpError int string
  | GraphJson int graph
  | HealthJson int string "(string \<times> string) list"

fun span_type_text :: "span_type \<Rightarrow> string" where
  "span_type_text SpanTypeCommand = ''command''"
| "span_type_text SpanTypeQuery = ''query''"
| "span_type_text SpanTypeEvent = ''event''"

fun span_status_text :: "span_status \<Rightarrow> string" where
  "span_status_text StatusUnset = []"
| "span_status_text SpanStatusSuccess = ''success''"
| "span_status_text SpanStatusError = ''error''"
| "span_status_text SpanStatusBusinessError = ''business_error''"

subsection \<open>The handlers\<close>

definition nil_deref :: "'a outcome" where
  "nil_deref = Panic ''invalid memory address or nil pointer dereference''"

text \<open>The sum of the counts of a type, in 64 bits.\<close>

definition add_counts :: "(OperationStats \<Rightarrow> int) \<Rightarrow> string \<Rightarrow> OperationStats list \<Rightarrow> int" where
  "add_counts cnt ty stats = foldl (\<lambda>n s. if st_Type s = ty then wrap64 (n + cnt s) else n) 0 stats"

definition handleOverview :: "('j, 'm) DDDViewer \<Rightarrow> http_request \<Rightarrow> 'j viewer_response outcome" where
  "handleOverview v r =
     (case (vw_schemaReader v, vw_statsCollector v) of
        (Some reader, Some stats) \<Rightarrow>
          (let allStats = GetAllStats stats
           in Ret (HtmlPage ''ddd_overview'' (Overview
                \<lparr>op_Tables = fst (sr_ListTables reader (rq_Context r)), op_Relations = fst (sr_ListRelations reader (rq_Context r)),
                 op_AllStats = allStats, op_CmdCount = add_counts st_Count ''command'' allStats,
                 op_QueryCount = add_counts st_Count ''query'' allStats, op_EventCount = add_counts st_Count ''event'' allStats,
                 op_HasMsgReader = vw_msgReader v \<noteq> None, op_HasTraceStore = vw_traceStore v \<noteq> None,
                 op_HasJobMgr = vw_jobMgr v \<noteq> None\<rparr>)))
      | _ \<Rightarrow> nil_deref)"

definition handleSchemaTableList :: "('j, 'm) DDDViewer \<Rightarrow> http_request \<Rightarrow> 'j viewer_response outcome" where
  "handleSchemaTableList v r =
     (case vw_schemaReader v of
        None \<Rightarrow> nil_deref
      | Some reader \<Rightarrow>
          (case sr_ListTables reader (rq_Context r) of
             (tables, Some err) \<Rightarrow> Ret (HttpError 500 (error_text err))
           | (tables, None) \<Rightarrow>
               Ret (HtmlPage ''schema_tables'' (SchemaTables tables (fst (sr_ListRelations reader (rq_Context r)))))))"

definition handleSchemaTableDetail :: "('j, 'm) DDDViewer \<Rightarrow> http_request \<Rightarrow> 'j viewer_response outcome" where
  "handleSchemaTableDetail v r =
     (let tableName = rq_Path r in
      if \<not> has_prefix tableName ''ddd_'' then Ret (HttpError 404 ''table not found'')
      else (case vw_schemaReader v of
              None \<Rightarrow> nil_deref
            | Some reader \<Rightarrow>
                (case sr_GetTable reader (rq_Context r) tableName of
                   Inl err \<Rightarrow> Ret (HttpError 404 (error_text err))
                 | Inr detail \<Rightarrow> Ret (HtmlPage ''schema_detail'' (SchemaDetail detail)))))"

text \<open>The three handlers of the messages differ in the query they make and the page they show.\<close>

definition viewer_messages ::
    "string \<Rightarrow> (message_reader \<Rightarrow> go_ctx \<Rightarrow> MessageFilter \<Rightarrow> ('a QueryResult \<times> go_error option) outcome) \<Rightarrow> string \<Rightarrow>
     ('a list \<Rightarrow> MessageFilter \<Rightarrow> Pagination \<Rightarrow> 'j page_data) \<Rightarrow> time \<Rightarrow> ('j, 'm) DDDViewer \<Rightarrow> http_request \<Rightarrow>
     'j viewer_response outcome" where
  "viewer_messages feature query name body now v r =
     (case vw_msgReader v of
        None \<Rightarrow> Ret (HtmlPage ''ddd_unavailable'' (Unavailable feature))
      | Some reader \<Rightarrow>
          (let fltr = viewer_parseMessageFilter r in
           out_bind (query reader (ctx_WithTimeout (rq_Context r) now (seconds 5)) fltr)
             (\<lambda>(result, err). case err of
                Some e \<Rightarrow> Ret (HttpError 500 (error_text e))
              | None \<Rightarrow> Ret (HtmlPage name (body (qr_Items result) fltr
                  (newPagination (shown_page r) (query_pageSize r) (int (qr_Total result))))))))"

definition viewer_handleCommands :: "time \<Rightarrow> ('j, 'm) DDDViewer \<Rightarrow> http_request \<Rightarrow> 'j viewer_response outcome" where
  "viewer_handleCommands = viewer_messages ''Commands'' me_QueryCommands ''ddd_commands'' CommandEntries"

definition viewer_handleQueries :: "time \<Rightarrow> ('j, 'm) DDDViewer \<Rightarrow> http_request \<Rightarrow> 'j viewer_response outcome" where
  "viewer_handleQueries = viewer_messages ''Queries'' me_QueryQueries ''ddd_queries'' QueryEntries"

definition viewer_handleEvents :: "time \<Rightarrow> ('j, 'm) DDDViewer \<Rightarrow> http_request \<Rightarrow> 'j viewer_response outcome" where
  "viewer_handleEvents = viewer_messages ''Events'' me_QueryEvents ''ddd_events'' EventEntries"

definition viewer_handleStats :: "('j, 'm) DDDViewer \<Rightarrow> 'j viewer_response outcome" where
  "viewer_handleStats v =
     (case vw_statsCollector v of
        None \<Rightarrow> nil_deref
      | Some stats \<Rightarrow> Ret (HtmlPage ''ddd_stats'' (StatsPage (GetAllStats stats))))"

definition viewer_handleJobs :: "time \<Rightarrow> ('j, 'm) DDDViewer \<Rightarrow> http_request \<Rightarrow> 'j viewer_response" where
  "viewer_handleJobs now v r =
     (case vw_jobMgr v of
        None \<Rightarrow> HtmlPage ''ddd_unavailable'' (Unavailable ''Jobs'')
      | Some jm \<Rightarrow>
          (case list_statuses jm (ctx_WithTimeout (rq_Context r) now (seconds 5)) job_statuses of
             Inl err \<Rightarrow> HttpError 500 (error_text err)
           | Inr groups \<Rightarrow> HtmlPage ''ddd_jobs'' (JobGroups groups)))"

definition span_view :: "span \<Rightarrow> SpanView" where
  "span_view s =
     \<lparr>sv_ID = sp_ID s, sv_TraceID = sp_TraceID s, sv_ParentID = sp_ParentID s, sv_Type = span_type_text (sp_Type s),
      sv_Name = sp_Name s, sv_Status = span_status_text (sp_Status s), sv_Error = sp_Error s, sv_Duration = sp_Duration s\<rparr>"

text \<open>The loop over the page's traces; a trace that cannot be read is left out.\<close>

fun trace_views :: "trace_reader \<Rightarrow> go_ctx \<Rightarrow> string list \<Rightarrow> (string \<times> SpanView list) list" where
  "trace_views store ctx [] = []"
| "trace_views store ctx (tid # tids) =
     (case tr_GetTrace store ctx tid of
        Inl err \<Rightarrow> trace_views store ctx tids
      | Inr spans \<Rightarrow> (tid, map span_view spans) # trace_views store ctx tids)"

definition page_slice :: "http_request \<Rightarrow> 'a list \<Rightarrow> 'a list outcome" where
  "page_slice r xs =
     (let n = int (length xs);
          offset = (if page_offset r > n then n else page_offset r);
          end0 = wrap64 (offset + query_pageSize r)
      in slice_range offset (if end0 > n then n else end0) xs)"

definition viewer_handleTraces :: "time \<Rightarrow> ('j, 'm) DDDViewer \<Rightarrow> http_request \<Rightarrow> 'j viewer_response outcome" where
  "viewer_handleTraces now v r =
     (case vw_traceStore v of
        None \<Rightarrow> Ret (HtmlPage ''ddd_unavailable'' (Unavailable ''Traces''))
      | Some store \<Rightarrow>
          (let ctx = ctx_WithTimeout (rq_Context r) now (seconds 5) in
           case tr_ListTraces store ctx (no_trace_query\<lparr>tq_Status := rq_Query r ''status'', tq_Type := rq_Query r ''type''\<rparr>) of
             Inl err \<Rightarrow> Ret (HttpError 500 (error_text err))
           | Inr ids \<Rightarrow>
               out_bind (page_slice r ids) (\<lambda>paged.
                 Ret (HtmlPage ''ddd_traces'' (TracesPage (trace_views store ctx paged) (rq_Query r ''status'') (rq_Query r ''type'')
                   (newPagination (query_page r) (query_pageSize r) (int (length ids))))))))"

definition viewer_handleHealth :: "time \<Rightarrow> ('j, 'm) DDDViewer \<Rightarrow> http_request \<Rightarrow> 'j viewer_response" where
  "viewer_handleHealth now v r =
     (let ctx = ctx_WithTimeout (rq_Context r) now (seconds 2);
          traces = map_option (\<lambda>store. tr_ListTraces store ctx no_trace_query) (vw_traceStore v);
          jobs = map_option (\<lambda>jm. jm ctx (status_text JobStatusCompleted)) (vw_jobMgr v);
          checks = health_check ''traceStore'' traces @ health_check ''jobManager'' jobs @ [(''statsCollector'', ''ok'')] @
                   (if vw_msgReader v \<noteq> None then [(''messageStore'', ''ok'')] else [])
      in if health_failed traces \<or> health_failed jobs then HealthJson 503 ''degraded'' checks else HealthJson 200 ''ok'' checks)"

subsection \<open>The graphs\<close>

text \<open>One span's edge in the run: from the first span of the trace that is its parent.\<close>

definition run_edge :: "span \<Rightarrow> span \<Rightarrow> edge" where
  "run_edge ps s =
     \<lparr>e_Source = sp_Name ps, e_Target = sp_Name s,
      e_Type = (if sp_Type ps = SpanTypeCommand \<or> sp_Type ps = SpanTypeQuery then ''handles'' else ''emits'')\<rparr>"

definition runtime_edge :: "span list \<Rightarrow> span \<Rightarrow> edge list" where
  "runtime_edge spans s =
     (if sp_ParentID s = [] then []
      else (case find (\<lambda>ps. sp_ID ps = sp_ParentID s) spans of
              None \<Rightarrow> []
            | Some ps \<Rightarrow> [run_edge ps s]))"

definition runtime_node :: "('j, 'm) DDDViewer \<Rightarrow> span \<Rightarrow> node" where
  "runtime_node v s =
     \<lparr>n_ID = sp_Name s, n_Type = span_type_text (sp_Type s),
      n_Domain = (case vw_typeRegistry v of None \<Rightarrow> [] | Some reg \<Rightarrow> tr_GetTypeDomain reg (sp_Name s))\<rparr>"

definition empty_graph :: graph where
  "empty_graph = \<lparr>g_Nodes = [], g_Edges = [], g_Domains = []\<rparr>"

definition buildRuntimeGraph :: "time \<Rightarrow> ('j, 'm) DDDViewer \<Rightarrow> trace_reader \<Rightarrow> string \<Rightarrow> graph" where
  "buildRuntimeGraph now v store traceID =
     (case tr_GetTrace store (ctx_WithTimeout ctx_Background now (seconds 5)) traceID of
        Inl err \<Rightarrow> empty_graph
      | Inr spans \<Rightarrow>
          \<lparr>g_Nodes = map snd (foldl (\<lambda>m s. gm_put m (sp_Name s) (runtime_node v s)) [] spans),
           g_Edges = concat (map (runtime_edge spans) spans), g_Domains = []\<rparr>)"

text \<open>The map of maps \<open>emitsMap\<close>: the names below a handler without repetition.\<close>

definition add_emit :: "span list \<Rightarrow> (string, string list) gomap \<Rightarrow> span \<Rightarrow> (string, string list) gomap" where
  "add_emit spans m s =
     (if sp_ParentID s = [] then m
      else (case find (\<lambda>ps. sp_ID ps = sp_ParentID s) spans of
              None \<Rightarrow> m
            | Some ps \<Rightarrow>
                (let handlerName = sp_Name ps @ ''Handler''; names = gm_or m handlerName []
                 in gm_put m handlerName (if sp_Name s \<in> set names then names else names @ [sp_Name s]))))"

fun collect_emits :: "trace_reader \<Rightarrow> go_ctx \<Rightarrow> string list \<Rightarrow> (string, string list) gomap \<Rightarrow> (string, string list) gomap" where
  "collect_emits store ctx [] m = m"
| "collect_emits store ctx (tid # tids) m =
     (case tr_GetTrace store ctx tid of
        Inl err \<Rightarrow> collect_emits store ctx tids m
      | Inr spans \<Rightarrow> collect_emits store ctx tids (foldl (add_emit spans) m spans))"

definition emit_edges :: "(string, string list) gomap \<Rightarrow> edge list" where
  "emit_edges m = concat (map (\<lambda>(handler, events). map (\<lambda>e. \<lparr>e_Source = handler, e_Target = e, e_Type = ''emits''\<rparr>) events) m)"

definition buildSummaryGraph :: "time \<Rightarrow> ('j, 'm) DDDViewer \<Rightarrow> registry \<Rightarrow> string \<Rightarrow> string \<Rightarrow> graph" where
  "buildSummaryGraph now v reg domainFilter typeFilter =
     (let g = BuildGraph reg domainFilter typeFilter in
      case vw_traceStore v of
        None \<Rightarrow> g
      | Some store \<Rightarrow>
          (let ctx = ctx_WithTimeout ctx_Background now (seconds 5) in
           case tr_ListTraces store ctx no_trace_query of
             Inl err \<Rightarrow> g
           | Inr ids \<Rightarrow> g\<lparr>g_Edges := g_Edges g @ emit_edges (collect_emits store ctx ids [])\<rparr>))"

definition handleGraphJSON :: "time \<Rightarrow> ('j, 'm) DDDViewer \<Rightarrow> registry \<Rightarrow> http_request \<Rightarrow> 'j viewer_response" where
  "handleGraphJSON now v reg r =
     (let mode = rq_Query r ''mode''; df = rq_Query r ''domain''; tf = rq_Query r ''type''; traceID = rq_Query r ''traceId'' in
      if mode = ''runtime''
      then (case vw_traceStore v of
              None \<Rightarrow> GraphJson 200 empty_graph
            | Some store \<Rightarrow> if traceID = [] then GraphJson 200 empty_graph
                            else GraphJson 200 (buildRuntimeGraph now v store traceID))
      else if mode = ''summary'' then GraphJson 200 (buildSummaryGraph now v reg df tf)
      else GraphJson 200 (BuildGraph reg df tf))"

definition handleGraph :: "time \<Rightarrow> ('j, 'm) DDDViewer \<Rightarrow> http_request \<Rightarrow> 'j viewer_response" where
  "handleGraph now v r =
     (case vw_relRegistry v of
        None \<Rightarrow> HtmlPage ''ddd_unavailable'' (Unavailable ''Graph'')
      | Some reg \<Rightarrow>
          if rq_Query r ''json'' = ''1'' \<or> str_contains (rq_Accept r) ''application/json''
          then handleGraphJSON now v reg r
          else (let mode = (if rq_Query r ''mode'' = [] then ''static'' else rq_Query r ''mode'');
                    df = rq_Query r ''domain''; tf = rq_Query r ''type'';
                    g = BuildGraph reg df tf;
                    domains = (if g_Domains g = [] then g_Domains (BuildGraph reg [] []) else g_Domains g)
                in HtmlPage ''ddd_graph'' (GraphPage g mode df tf domains)))"

subsection \<open>The types and the domains\<close>

text \<open>Listing sorts the registry's slice in place, so these handlers change the registry.\<close>

definition types_page ::
    "string \<Rightarrow> string \<Rightarrow> string \<Rightarrow> ('j, 'm) DDDViewer \<Rightarrow> 'j viewer_response \<times> ('j, 'm) DDDViewer" where
  "types_page feature name category v =
     (case vw_typeRegistry v of
        None \<Rightarrow> (HtmlPage ''ddd_unavailable'' (Unavailable feature), v)
      | Some reg \<Rightarrow>
          (case ListByCategory category reg of (types, reg1) \<Rightarrow>
             (HtmlPage name (TypesPage category types (CountByCategory reg1 category)), v\<lparr>vw_typeRegistry := Some reg1\<rparr>)))"

definition handleCommandTypes :: "('j, 'm) DDDViewer \<Rightarrow> 'j viewer_response \<times> ('j, 'm) DDDViewer" where
  "handleCommandTypes = types_page ''Command Types'' ''ddd_command_types'' ''command''"

definition handleQueryTypes :: "('j, 'm) DDDViewer \<Rightarrow> 'j viewer_response \<times> ('j, 'm) DDDViewer" where
  "handleQueryTypes = types_page ''Query Types'' ''ddd_query_types'' ''query''"

definition handleEventTypes :: "('j, 'm) DDDViewer \<Rightarrow> 'j viewer_response \<times> ('j, 'm) DDDViewer" where
  "handleEventTypes = types_page ''Event Types'' ''ddd_event_types'' ''event''"

record viewer_text =
  vt_Indent :: "string \<Rightarrow> string option"
  vt_Duration :: "duration \<Rightarrow> string"
  vt_Time :: "time \<Rightarrow> string"

text \<open>\<open>formatData\<close> on the JSON of an entry.\<close>

definition formatData :: "viewer_text \<Rightarrow> string \<Rightarrow> string" where
  "formatData txt d = (if d = [] then [] else (case vt_Indent txt d of Some pretty \<Rightarrow> pretty | None \<Rightarrow> d))"

definition with_error :: "string \<Rightarrow> DomainEntry \<Rightarrow> DomainEntry" where
  "with_error err e = (if err \<noteq> [] then e\<lparr>de_Status := ''error'', de_Error := err\<rparr> else e)"

definition command_entry :: "viewer_text \<Rightarrow> CommandEntry \<Rightarrow> DomainEntry" where
  "command_entry txt e = with_error (ce_Error e)
     \<lparr>de_Type = ce_CommandType e, de_Category = ''command'', de_Status = ''ok'', de_Duration = vt_Duration txt (ce_Duration e),
      de_CreatedAt = vt_Time txt (ce_CreatedAt e), de_Error = [], de_Data = formatData txt (ce_CommandData e),
      de_Result = formatData txt (ce_ResultData e)\<rparr>"

definition query_entry :: "viewer_text \<Rightarrow> QueryEntry \<Rightarrow> DomainEntry" where
  "query_entry txt e = with_error (qe_Error e)
     \<lparr>de_Type = qe_QueryType e, de_Category = ''query'', de_Status = ''ok'', de_Duration = vt_Duration txt (qe_Duration e),
      de_CreatedAt = vt_Time txt (qe_CreatedAt e), de_Error = [], de_Data = formatData txt (qe_QueryData e),
      de_Result = formatData txt (qe_ResultData e)\<rparr>"

definition event_entry :: "viewer_text \<Rightarrow> EventEntry \<Rightarrow> DomainEntry" where
  "event_entry txt e = with_error (ee_Error e)
     \<lparr>de_Type = ee_EventType e, de_Category = ''event'', de_Status = ''ok'', de_Duration = vt_Duration txt (ee_Duration e),
      de_CreatedAt = vt_Time txt (ee_CreatedAt e), de_Error = [], de_Data = formatData txt (ee_EventData e), de_Result = []\<rparr>"

definition domain_stats :: "TypePrototypeRegistry \<Rightarrow> string \<Rightarrow> StatsCollector option \<Rightarrow> DomainStats" where
  "domain_stats reg selected collector =
     (let stats = (case collector of None \<Rightarrow> []
                   | Some c \<Rightarrow> filter (\<lambda>s. tr_GetTypeDomain reg (st_Name s) = selected) (GetAllStats c))
      in \<lparr>dm_CommandCount = add_counts st_Count ''command'' stats, dm_CommandErrors = add_counts st_ErrorCount ''command'' stats,
          dm_QueryCount = add_counts st_Count ''query'' stats, dm_QueryErrors = add_counts st_ErrorCount ''query'' stats,
          dm_EventCount = add_counts st_Count ''event'' stats, dm_EventErrors = add_counts st_ErrorCount ''event'' stats\<rparr>)"

definition no_domain_stats :: DomainStats where
  "no_domain_stats = \<lparr>dm_CommandCount = 0, dm_CommandErrors = 0, dm_QueryCount = 0, dm_QueryErrors = 0,
     dm_EventCount = 0, dm_EventErrors = 0\<rparr>"

text \<open>The entries of a domain on a page of each of the three logs; their errors are not looked at.\<close>

definition domain_entries ::
    "viewer_text \<Rightarrow> TypePrototypeRegistry \<Rightarrow> string \<Rightarrow> message_reader \<Rightarrow> go_ctx \<Rightarrow> MessageFilter \<Rightarrow> DomainEntry list outcome" where
  "domain_entries txt reg selected reader ctx fltr =
     out_bind (me_QueryCommands reader ctx fltr) (\<lambda>(cs, err1).
     out_bind (me_QueryQueries reader ctx fltr) (\<lambda>(qs, err2).
     out_bind (me_QueryEvents reader ctx fltr) (\<lambda>(es, err3).
       Ret (map (command_entry txt) (filter (\<lambda>e. tr_GetTypeDomain reg (ce_CommandType e) = selected) (qr_Items cs)) @
            map (query_entry txt) (filter (\<lambda>e. tr_GetTypeDomain reg (qe_QueryType e) = selected) (qr_Items qs)) @
            map (event_entry txt) (filter (\<lambda>e. tr_GetTypeDomain reg (ee_EventType e) = selected) (qr_Items es))))))"

definition handleDomains :: "viewer_text \<Rightarrow> time \<Rightarrow> ('j, 'm) DDDViewer \<Rightarrow> http_request \<Rightarrow> 'j viewer_response outcome" where
  "handleDomains txt now v r =
     (case vw_typeRegistry v of
        None \<Rightarrow> Ret (HtmlPage ''ddd_unavailable'' (Unavailable ''Domains''))
      | Some reg \<Rightarrow>
          (let domains = ListDomains reg;
               selected = (if rq_Query r ''domain'' = [] \<and> domains \<noteq> [] then hd domains else rq_Query r ''domain'');
               result = (\<lambda>stats info entries pgn. Ret (HtmlPage ''ddd_domains'' (DomainsPage
                 \<lparr>dp_Domains = domains, dp_SelectedDomain = selected, dp_Stats = stats, dp_DomainInfo = info,
                  dp_Entries = entries, dp_Pagination = pgn\<rparr>)))
           in if selected = [] then result no_domain_stats None [] None
              else (let stats = domain_stats reg selected (vw_statsCollector v); info = Some (GetDomainInfo reg selected) in
                    case vw_msgReader v of
                      None \<Rightarrow> result stats info [] None
                    | Some reader \<Rightarrow>
                        out_bind (domain_entries txt reg selected reader (ctx_WithTimeout (rq_Context r) now (seconds 5))
                            \<lparr>mf_Type = [], mf_TraceID = [], mf_AggregateID = [], mf_Status = [], mf_Since = 0,
                             mf_Limit = query_pageSize r, mf_Offset = page_offset r\<rparr>)
                          (\<lambda>entries. result stats info entries
                             (Some (newPagination (query_page r) (query_pageSize r) (int (length entries))))))))"

subsection \<open>Pagination\<close>

lemma pagination_fields:
  assumes "0 \<le> n"
  shows "0 < pn_PageSize (newPagination pg sz n)" "1 \<le> pn_Page (newPagination pg sz n)"
    and "1 \<le> pn_Pages (newPagination pg sz n)"
    and "n \<le> pn_Pages (newPagination pg sz n) * pn_PageSize (newPagination pg sz n)"
    and "0 < n \<Longrightarrow> (pn_Pages (newPagination pg sz n) - 1) * pn_PageSize (newPagination pg sz n) < n"
    and "n = 0 \<Longrightarrow> pn_Pages (newPagination pg sz n) = 1"
    and "pn_HasNext (newPagination pg sz n) \<longleftrightarrow> pn_Page (newPagination pg sz n) < pn_Pages (newPagination pg sz n)"
    and "pn_HasPrev (newPagination pg sz n) \<longleftrightarrow> 1 < pn_Page (newPagination pg sz n)"
proof -
  define S where "S = (if sz \<le> 0 then 50 else sz)"
  have S: "0 < S" by (simp add: S_def)
  define q where "q = n div S"
  define m where "m = n mod S"
  have n: "n = q * S + m" "0 \<le> m" "m < S" "0 \<le> q"
    using S assms by (simp_all add: q_def m_def pos_imp_zdiv_nonneg_iff)
  have pages: "pn_Pages (newPagination pg sz n) = (let p = (if 0 < m then q + 1 else q) in if p = 0 then 1 else p)"
  proof -
    have "go_div n S = q" "n - q * S = m"
      using S assms n(1) go_div_nonneg [OF assms S] unfolding q_def by linarith+
    then show ?thesis
      by (simp add: newPagination_def Let_def S_def [symmetric])
  qed
  have size: "pn_PageSize (newPagination pg sz n) = S"
    by (simp add: newPagination_def Let_def S_def)
  show "0 < pn_PageSize (newPagination pg sz n)" "1 \<le> pn_Page (newPagination pg sz n)"
    using S size by (simp_all add: newPagination_def Let_def)
  show "1 \<le> pn_Pages (newPagination pg sz n)"
    unfolding pages Let_def using n(4) by auto
  show "n \<le> pn_Pages (newPagination pg sz n) * pn_PageSize (newPagination pg sz n)"
    unfolding pages size Let_def using n S by (auto simp: algebra_simps)
  show "0 < n \<Longrightarrow> (pn_Pages (newPagination pg sz n) - 1) * pn_PageSize (newPagination pg sz n) < n"
    unfolding pages size Let_def using n S by (auto simp: algebra_simps)
  show "n = 0 \<Longrightarrow> pn_Pages (newPagination pg sz n) = 1"
    unfolding pages Let_def by (simp add: q_def m_def)
  show "pn_HasNext (newPagination pg sz n) \<longleftrightarrow> pn_Page (newPagination pg sz n) < pn_Pages (newPagination pg sz n)"
    "pn_HasPrev (newPagination pg sz n) \<longleftrightarrow> 1 < pn_Page (newPagination pg sz n)"
    by (simp_all add: newPagination_def Let_def)
qed

text \<open>The positions, from 0, of the entries on a page.\<close>

definition on_page :: "Pagination \<Rightarrow> int \<Rightarrow> int set" where
  "on_page p q = {e. 0 \<le> e \<and> e < pn_Total p \<and> (q - 1) * pn_PageSize p \<le> e \<and> e < q * pn_PageSize p}"

lemma on_page_nonempty:
  assumes "0 < pn_PageSize p"
  shows "on_page p q \<noteq> {} \<longleftrightarrow> 1 \<le> q \<and> (q - 1) * pn_PageSize p < pn_Total p"
proof
  assume "on_page p q \<noteq> {}"
  then obtain e where e: "0 \<le> e" "e < pn_Total p" "(q - 1) * pn_PageSize p \<le> e" "e < q * pn_PageSize p"
    by (auto simp: on_page_def)
  then have "0 < q * pn_PageSize p" by linarith
  then show "1 \<le> q \<and> (q - 1) * pn_PageSize p < pn_Total p"
    using e assms by (simp add: zero_less_mult_iff)
next
  assume q: "1 \<le> q \<and> (q - 1) * pn_PageSize p < pn_Total p"
  then have "(q - 1) * pn_PageSize p \<in> on_page p q"
    using assms by (simp add: on_page_def algebra_simps)
  then show "on_page p q \<noteq> {}" by blast
qed

lemma page_has_entries:
  fixes pg sz n :: int
  assumes "0 \<le> n"
  defines "p \<equiv> newPagination pg sz n"
  shows "on_page p q \<noteq> {} \<longleftrightarrow> 0 < n \<and> 1 \<le> q \<and> q \<le> pn_Pages p"
proof -
  note f = pagination_fields [OF assms(1), of pg sz, folded p_def]
  have total: "pn_Total p = n"
    by (simp add: p_def newPagination_def Let_def)
  have "(q - 1) * pn_PageSize p < n \<longleftrightarrow> q \<le> pn_Pages p" if "0 < n"
  proof
    assume "(q - 1) * pn_PageSize p < n"
    then have "(q - 1) * pn_PageSize p < pn_Pages p * pn_PageSize p"
      using f(4) by linarith
    then show "q \<le> pn_Pages p"
      using f(1) by (simp add: mult_less_cancel_right)
  next
    assume "q \<le> pn_Pages p"
    then have "(q - 1) * pn_PageSize p \<le> (pn_Pages p - 1) * pn_PageSize p"
      using f(1) by (intro mult_right_mono) auto
    then show "(q - 1) * pn_PageSize p < n"
      using f(5) [OF that] by linarith
  qed
  moreover have "0 < n" if "1 \<le> q" "(q - 1) * pn_PageSize p < n"
  proof -
    have "0 \<le> (q - 1) * pn_PageSize p" using that(1) f(1) by simp
    then show ?thesis using that(2) by linarith
  qed
  ultimately show ?thesis
    unfolding on_page_nonempty [OF f(1)] total by blast
qed

text \<open>
  C31.  Whatever page and page size are asked for, the pagination of \<open>n\<close> entries has a positive page size,
  a current page from 1 on and at least one page, and if there are entries the pages with entries are
  exactly those from 1 to the number of pages.  A next page is offered exactly when the page after the
  current one has entries.  Up to the last page, a previous page is offered exactly when the page before
  the current one has entries; on a page behind the last it is always offered, and has entries
  only if the current page is the one right behind the last and there are entries at all.
\<close>

theorem newPagination_correct:
  fixes pg sz n :: int
  assumes "0 \<le> n"
  defines "p \<equiv> newPagination pg sz n"
  shows "0 < pn_PageSize p \<and> 1 \<le> pn_Page p \<and> 1 \<le> pn_Pages p \<and>
         (\<forall>q. on_page p q \<noteq> {} \<longleftrightarrow> 0 < n \<and> 1 \<le> q \<and> q \<le> pn_Pages p) \<and>
         (pn_HasNext p \<longleftrightarrow> on_page p (pn_Page p + 1) \<noteq> {}) \<and>
         (pn_Page p \<le> pn_Pages p \<longrightarrow> (pn_HasPrev p \<longleftrightarrow> on_page p (pn_Page p - 1) \<noteq> {})) \<and>
         (pn_Pages p < pn_Page p \<longrightarrow> pn_HasPrev p \<and> \<not> pn_HasNext p \<and>
            (on_page p (pn_Page p - 1) \<noteq> {} \<longleftrightarrow> 0 < n \<and> pn_Page p = pn_Pages p + 1))"
proof -
  note f = pagination_fields [OF assms(1), of pg sz, folded p_def]
  note e = page_has_entries [OF assms(1), of pg sz, folded p_def]
  have "0 < n" if "1 < pn_Pages p"
    using that f(6) assms(1) by (cases "n = 0") auto
  then show ?thesis
    unfolding e using f(1-3,7,8) by auto
qed

theorem newPagination_correct_witness:
  "pn_HasNext (newPagination 3 10 31) \<and> on_page (newPagination 3 10 31) 4 \<noteq> {} \<and> \<not> pn_HasNext (newPagination 4 10 31) \<and>
   pn_HasPrev (newPagination 5 50 0) \<and> on_page (newPagination 5 50 0) 4 = {}"
proof -
  have v: "pn_Page (newPagination 3 10 31) = 3" "pn_Pages (newPagination 3 10 31) = 4"
    "pn_Page (newPagination 4 10 31) = 4" "pn_Pages (newPagination 4 10 31) = 4"
    "pn_Page (newPagination 5 50 0) = 5" "pn_Pages (newPagination 5 50 0) = 1"
    by (simp_all add: newPagination_def go_div_def)
  show ?thesis
    using newPagination_correct [of 31 3 10] newPagination_correct [of 31 4 10] newPagination_correct [of 0 5 50]
    by (simp add: v)
qed

subsection \<open>Page offsets and slices\<close>

lemma query_pageSize_bounds: "1 \<le> query_pageSize r" "query_pageSize r \<le> 500"
  by (auto simp: query_pageSize_def split: prod.split option.split)

lemma page_slice_eq:
  assumes "length xs < 2 ^ 62"
  shows "page_slice r xs =
     (if page_offset r < 0 then Panic ''slice bounds out of range''
      else Ret (take (nat (query_pageSize r)) (drop (nat (page_offset r)) xs)))"
proof -
  define sz where "sz = query_pageSize r"
  define off where "off = (if page_offset r > int (length xs) then int (length xs) else page_offset r)"
  have sz: "1 \<le> sz" "sz \<le> 500" using query_pageSize_bounds [of r] by (simp_all add: sz_def)
  have wrap: "wrap64 (off + sz) = off + sz" if "0 \<le> off"
    using that sz assms by (intro wrap64_id) (auto simp: off_def)
  show ?thesis
  proof (cases "page_offset r < 0")
    case True
    then show ?thesis by (simp add: page_slice_def Let_def slice_range_def)
  next
    case False
    then have off: "0 \<le> off" "off \<le> int (length xs)" by (simp_all add: off_def)
    have "take (nat ((if off + sz > int (length xs) then int (length xs) else off + sz) - off)) (drop (nat off) xs) =
        take (nat sz) (drop (nat (page_offset r)) xs)"
      using off False sz by (auto simp: off_def)
    moreover have "page_slice r xs = Ret (take (nat ((if off + sz > int (length xs) then int (length xs) else off + sz) - off)) (drop (nat off) xs))"
      using off sz wrap unfolding page_slice_def Let_def slice_range_def off_def [symmetric] sz_def [symmetric] by simp
    ultimately show ?thesis
      using False by (simp only: if_False sz_def [symmetric])
  qed
qed

text \<open>The request for a page of a size, beside what else it asks for.\<close>

definition at_page :: "http_request \<Rightarrow> int \<Rightarrow> int \<Rightarrow> http_request" where
  "at_page r sz pg = r\<lparr>rq_Query := (rq_Query r)(''page'' := show_int pg, ''pageSize'' := show_int sz)\<rparr>"

lemma show_int_ne: "show_int n \<noteq> []"
  using show_nat_head [of "nat n"] show_nat_head [of "nat (- n)"] by (auto simp: show_int_def)

lemma Atoi_show: "- (2 ^ 63) \<le> n \<Longrightarrow> n < 2 ^ 63 \<Longrightarrow> Atoi (show_int n) = (n, None)"
  by (simp add: Atoi_def ParseInt_show_int)

lemma at_page_numbers:
  assumes "1 \<le> sz" "sz \<le> 500" "1 \<le> pg" "pg < 2 ^ 50"
  shows "query_pageSize (at_page r sz pg) = sz" "query_page (at_page r sz pg) = pg"
    and "page_offset (at_page r sz pg) = (pg - 1) * sz"
proof -
  show s: "query_pageSize (at_page r sz pg) = sz" and p: "query_page (at_page r sz pg) = pg"
    using assms by (simp_all add: query_pageSize_def query_page_def at_page_def show_int_ne Atoi_show)
  have "(pg - 1) * sz \<le> 2 ^ 50 * 500"
    using assms by (intro mult_mono) auto
  moreover have "0 \<le> (pg - 1) * sz"
    using assms by simp
  moreover have "wrap64 (pg - 1) = pg - 1"
    using assms by (intro wrap64_id) auto
  ultimately show "page_offset (at_page r sz pg) = (pg - 1) * sz"
    by (simp add: page_offset_def s p wrap64_id)
qed

lemma chunks_cover:
  "0 < s \<Longrightarrow> length xs \<le> k * s \<Longrightarrow> concat (map (\<lambda>i. take s (drop (i * s) xs)) [0..<k]) = xs"
proof (induction k arbitrary: xs)
  case (Suc k)
  have "concat (map (\<lambda>i. take s (drop (i * s) xs)) [0..<Suc k]) =
      take s xs @ concat (map (\<lambda>i. take s (drop (Suc i * s) xs)) [0..<k])"
    by (simp add: upt_conv_Cons map_Suc_upt [symmetric] o_def del: upt_Suc)
  also have "(\<lambda>i. take s (drop (Suc i * s) xs)) = (\<lambda>i. take s (drop (i * s) (drop s xs)))"
    by (simp add: add.commute)
  also have "concat (map (\<lambda>i. take s (drop (i * s) (drop s xs))) [0..<k]) = drop s xs"
    using Suc.prems by (intro Suc.IH) simp_all
  finally show ?case by simp
qed simp

definition shown_traces :: "'j viewer_response outcome \<Rightarrow> string list" where
  "shown_traces resp = (case resp of Ret (HtmlPage name (TracesPage traces st ty pgn)) \<Rightarrow> map fst traces | _ \<Rightarrow> [])"

definition offers_pages :: "'j viewer_response outcome \<Rightarrow> int" where
  "offers_pages resp = (case resp of Ret (HtmlPage name (TracesPage traces st ty pgn)) \<Rightarrow> pn_Pages pgn | _ \<Rightarrow> 0)"

lemma trace_views_ids:
  "(\<forall>t\<in>set ids. \<exists>spans. tr_GetTrace store ctx t = Inr spans) \<Longrightarrow> map fst (trace_views store ctx ids) = ids"
  by (induction ids) (auto split: sum.splits)

lemma traces_response:
  assumes store: "vw_traceStore v = Some store"
    and lst: "tr_ListTraces store (ctx_WithTimeout (rq_Context r) now (seconds 5))
       (no_trace_query\<lparr>tq_Status := rq_Query r ''status'', tq_Type := rq_Query r ''type''\<rparr>) = Inr ids"
    and len: "length ids < 2 ^ 62" and off: "0 \<le> page_offset r"
  shows "viewer_handleTraces now v r = Ret (HtmlPage ''ddd_traces'' (TracesPage
     (trace_views store (ctx_WithTimeout (rq_Context r) now (seconds 5))
        (take (nat (query_pageSize r)) (drop (nat (page_offset r)) ids)))
     (rq_Query r ''status'') (rq_Query r ''type'') (newPagination (query_page r) (query_pageSize r) (int (length ids)))))"
  using assms by (simp add: viewer_handleTraces_def Let_def page_slice_eq)

text \<open>The number of pages of a size, whichever page is asked for.\<close>

lemma pages_of:
  assumes "1 \<le> sz" "n < 2 ^ 49"
  defines "k \<equiv> nat (pn_Pages (newPagination 1 sz (int n)))"
  shows "pn_Pages (newPagination pg sz (int n)) = int k" "n \<le> k * nat sz" "int k \<le> 2 ^ 49"
proof -
  have pages_eq: "pn_Pages (newPagination pg sz (int n)) = int k" for pg
    using pagination_fields(3) [of "int n" 1 sz] by (simp add: k_def newPagination_def Let_def)
  then show "pn_Pages (newPagination pg sz (int n)) = int k" .
  have ps: "pn_PageSize (newPagination 1 sz (int n)) = sz"
    using assms(1) by (simp add: newPagination_def Let_def)
  have "int n \<le> int k * sz"
    using pagination_fields(4) [of "int n" 1 sz] by (simp add: ps pages_eq)
  then have "int n \<le> int (k * nat sz)"
    using assms(1) by simp
  then show "n \<le> k * nat sz" by linarith
  show "int k \<le> 2 ^ 49"
  proof (cases "n = 0")
    case True
    then have "int k = 1" using pagination_fields(6) [of "int n" 1 sz] pages_eq [of 1] by simp
    then show ?thesis by simp
  next
    case False
    then have "(int k - 1) * sz < int n"
      using pagination_fields(5) [of "int n" 1 sz] by (simp add: ps pages_eq)
    moreover have "(int k - 1) * 1 \<le> (int k - 1) * sz"
      using assms(1) pagination_fields(3) [of "int n" 1 sz] by (intro mult_left_mono) (simp_all add: pages_eq)
    ultimately show ?thesis using assms(2) by simp
  qed
qed

lemma traces_page_at:
  assumes store: "vw_traceStore v = Some store"
    and lst: "tr_ListTraces store (ctx_WithTimeout (rq_Context r) now (seconds 5))
       (no_trace_query\<lparr>tq_Status := rq_Query r ''status'', tq_Type := rq_Query r ''type''\<rparr>) = Inr ids"
    and size: "1 \<le> sz" "sz \<le> 500" and len: "length ids < 2 ^ 62" and i: "int i < 2 ^ 49"
  shows "viewer_handleTraces now v (at_page r sz (int i + 1)) = Ret (HtmlPage ''ddd_traces'' (TracesPage
      (trace_views store (ctx_WithTimeout (rq_Context r) now (seconds 5)) (take (nat sz) (drop (i * nat sz) ids)))
      (rq_Query r ''status'') (rq_Query r ''type'') (newPagination (int i + 1) sz (int (length ids)))))"
proof -
  have bounds: "1 \<le> int i + 1" "int i + 1 < 2 ^ 50"
    using i by simp_all
  note nums = at_page_numbers [OF size bounds, of r]
  have frame: "rq_Context (at_page r sz (int i + 1)) = rq_Context r" "rq_Query (at_page r sz (int i + 1)) ''status'' = rq_Query r ''status''"
    "rq_Query (at_page r sz (int i + 1)) ''type'' = rq_Query r ''type''"
    by (simp_all add: at_page_def)
  have "nat (int i * sz) = i * nat sz"
    using size by (simp add: nat_mult_distrib)
  then show ?thesis
    using traces_response [OF store, of "at_page r sz (int i + 1)" now ids] lst len size
    by (simp add: nums frame)
qed

subsection \<open>The pages of the traces\<close>

text \<open>
  The in-memory trace store as the viewer asks it, \<open>trace/store.go\<close>: the filter's status and type are
  strings.  The order of the index is the order in which this call's \<open>range\<close> visits the map, which Go
  chooses anew for every call.
\<close>

definition query_matches :: "span list \<Rightarrow> trace_query \<Rightarrow> bool" where
  "query_matches spans q \<longleftrightarrow>
     \<not> (tq_Type q \<noteq> [] \<and> \<not> list_ex (\<lambda>s. span_type_text (sp_Type s) = tq_Type q) spans) \<and>
     \<not> (tq_Status q \<noteq> [] \<and> \<not> list_ex (\<lambda>s. span_status_text (sp_Status s) = tq_Status q) spans) \<and>
     \<not> (tq_StartTime q \<noteq> 0 \<and> \<not> list_ex (\<lambda>s. \<not> sp_StartedAt s < tq_StartTime q) spans) \<and>
     \<not> (tq_EndTime q \<noteq> 0 \<and> \<not> list_ex (\<lambda>s. \<not> tq_EndTime q < sp_StartedAt s) spans) \<and>
     \<not> (tq_NameContains q \<noteq> [] \<and> \<not> list_ex (\<lambda>s. str_contains (sp_Name s) (tq_NameContains q)) spans)"

definition memory_ListTraces :: "InMemoryTraceStore \<Rightarrow> trace_query \<Rightarrow> string list" where
  "memory_ListTraces s q =
     map fst (filter (\<lambda>(traceID, indexes). query_matches (map (\<lambda>i. ts_spans s ! i) indexes) q) (ts_traceIndex s))"

definition memory_trace_reader :: "InMemoryTraceStore \<Rightarrow> trace_reader" where
  "memory_trace_reader s =
     \<lparr>tr_ListTraces = (\<lambda>ctx q. Inr (memory_ListTraces s q)), tr_GetTrace = (\<lambda>ctx t. ts_GetTrace s t)\<rparr>"

text \<open>The same store whose index is visited in another order, and a page of a viewer of it.\<close>

definition visited :: "(string \<times> nat list) list \<Rightarrow> InMemoryTraceStore \<Rightarrow> InMemoryTraceStore" where
  "visited idx s = s\<lparr>ts_traceIndex := idx\<rparr>"

definition traces_page ::
    "time \<Rightarrow> ('j, 'm) DDDViewer \<Rightarrow> InMemoryTraceStore \<Rightarrow> (string \<times> nat list) list \<Rightarrow> http_request \<Rightarrow> 'j viewer_response outcome" where
  "traces_page now v s idx r = viewer_handleTraces now (v\<lparr>vw_traceStore := Some (memory_trace_reader (visited idx s))\<rparr>) r"

definition request_query :: "http_request \<Rightarrow> trace_query" where
  "request_query r = no_trace_query\<lparr>tq_Status := rq_Query r ''status'', tq_Type := rq_Query r ''type''\<rparr>"

lemma visited_list:
  "memory_ListTraces (visited idx s) q =
     map fst (filter (\<lambda>(t, xs). query_matches (map (\<lambda>i. ts_spans s ! i) xs) q) idx)"
  by (simp add: memory_ListTraces_def visited_def)

lemma visited_mset:
  assumes "mset idx = mset (ts_traceIndex s)"
  shows "mset (memory_ListTraces (visited idx s) q) = mset (memory_ListTraces s q)"
  unfolding visited_list unfolding memory_ListTraces_def mset_map mset_filter assms ..

lemma same_keys_ok:
  assumes "mset m' = mset m" "gm_ok m"
  shows "gm_ok m'"
proof -
  have "mset (map fst m') = mset (map fst m)"
    using assms(1) by simp
  then show ?thesis
    using assms(2) mset_eq_imp_distinct_iff unfolding gm_ok_def by blast
qed

lemma traces_page_shows:
  assumes "gm_ok idx" and size: "1 \<le> sz" "sz \<le> 500" and i: "int i < 2 ^ 49"
    and len: "length (memory_ListTraces (visited idx s) (request_query r)) < 2 ^ 49"
  shows "shown_traces (traces_page now v s idx (at_page r sz (int i + 1))) =
      take (nat sz) (drop (i * nat sz) (memory_ListTraces (visited idx s) (request_query r)))"
    and "offers_pages (traces_page now v s idx (at_page r sz (int i + 1))) =
      pn_Pages (newPagination 1 sz (int (length (memory_ListTraces (visited idx s) (request_query r)))))"
proof -
  let ?ids = "memory_ListTraces (visited idx s) (request_query r)"
  let ?v = "v\<lparr>vw_traceStore := Some (memory_trace_reader (visited idx s))\<rparr>" and ?st = "memory_trace_reader (visited idx s)"
  let ?ctx = "ctx_WithTimeout (rq_Context r) now (seconds 5)"
  have pg: "viewer_handleTraces now ?v (at_page r sz (int i + 1)) = Ret (HtmlPage ''ddd_traces'' (TracesPage
      (trace_views ?st ?ctx (take (nat sz) (drop (i * nat sz) ?ids)))
      (rq_Query r ''status'') (rq_Query r ''type'') (newPagination (int i + 1) sz (int (length ?ids)))))"
    using len i by (intro traces_page_at [OF _ _ size]) (simp_all add: memory_trace_reader_def request_query_def)
  have "\<exists>spans. tr_GetTrace ?st ?ctx t = Inr spans" if "t \<in> set ?ids" for t
  proof -
    obtain xs where "(t, xs) \<in> set idx"
      using \<open>t \<in> set ?ids\<close> by (auto simp: visited_list)
    then have "gm_get idx t = Some xs"
      using assms(1) by (simp add: gm_get_iff)
    then show ?thesis by (simp add: memory_trace_reader_def ts_GetTrace_def visited_def)
  qed
  then have "map fst (trace_views ?st ?ctx (take (nat sz) (drop (i * nat sz) ?ids))) = take (nat sz) (drop (i * nat sz) ?ids)"
    by (intro trace_views_ids) (meson in_set_dropD in_set_takeD)
  then show "shown_traces (traces_page now v s idx (at_page r sz (int i + 1))) = take (nat sz) (drop (i * nat sz) ?ids)"
    by (simp add: traces_page_def pg shown_traces_def)
  show "offers_pages (traces_page now v s idx (at_page r sz (int i + 1))) = pn_Pages (newPagination 1 sz (int (length ?ids)))"
    using pages_of(1) [OF size(1) len, of "int i + 1"] pages_of(1) [OF size(1) len, of 1]
    by (simp add: traces_page_def pg offers_pages_def)
qed

text \<open>A trace listed last on the first page's request and first on the others is on no page.\<close>

lemma page_misses:
  assumes "t \<notin> set ids" "n \<le> length ids" "1 \<le> n"
  shows "t \<notin> set (take n (drop (i * n) (if i = 0 then ids @ [t] else t # ids)))"
proof (cases i)
  case 0
  then show ?thesis using assms by (auto dest: in_set_takeD)
next
  case (Suc k)
  have "drop (i * n) (t # ids) = drop (i * n - 1) ids"
    using assms(3) Suc by (cases "i * n") simp_all
  then show ?thesis using assms(1) Suc by (auto dest: in_set_takeD in_set_dropD)
qed

lemma missing_orders:
  assumes "gm_ok (ts_traceIndex s)" "t \<in> set (memory_ListTraces s q)" "nat sz < length (memory_ListTraces s q)" "1 \<le> sz"
  obtains ord :: "nat \<Rightarrow> (string \<times> nat list) list" where "\<And>i. mset (ord i) = mset (ts_traceIndex s)"
    "\<And>i. t \<notin> set (take (nat sz) (drop (i * nat sz) (memory_ListTraces (visited (ord i) s) q)))"
proof -
  let ?idx = "ts_traceIndex s" and ?m = "\<lambda>(t, xs). query_matches (map (\<lambda>i. ts_spans s ! i) xs) q"
  obtain xs where e: "(t, xs) \<in> set ?idx" "?m (t, xs)"
    using assms(2) by (auto simp: memory_ListTraces_def)
  let ?rest = "remove1 (t, xs) ?idx"
  let ?ord = "\<lambda>i :: nat. if i = 0 then ?rest @ [(t, xs)] else (t, xs) # ?rest"
  let ?ids = "map fst (filter ?m ?rest)"
  have perm: "mset (?ord i) = mset ?idx" for i
    using e(1) by simp
  have lst: "memory_ListTraces (visited (?ord i) s) q = (if i = 0 then ?ids @ [t] else t # ?ids)" for i
    using e(2) by (simp add: visited_list)
  have "length (memory_ListTraces (visited (?ord 1) s) q) = length (memory_ListTraces s q)"
    by (rule mset_eq_length [OF visited_mset [OF perm]])
  then have "length (memory_ListTraces s q) = Suc (length ?ids)"
    unfolding lst by (simp only: if_False one_neq_zero list.size)
  then have n: "nat sz \<le> length ?ids" "1 \<le> nat sz"
    using assms(3,4) by simp_all
  have "distinct (map fst (?ord 1))"
    using same_keys_ok [OF perm [of 1] assms(1)] by (simp only: gm_ok_def)
  then have "t \<notin> set ?ids"
    by auto
  note miss = page_misses [OF this n]
  show thesis
    by (rule that [of ?ord]) (rule perm, unfold lst, rule miss)
qed

text \<open>
  C30.  The pages of the traces over the in-memory store, asked for one after the other with any page size up
  to 500.  Every page offers the same number of pages.  If every request happens to visit the store's
  index in one and the same order, they show every trace of the filter once.  But each request lists the
  store anew, in an order Go chooses anew, and the pages are cut out of that: as soon as there is more
  than one page, every trace of the filter can be missing on all of them, although nothing changed.
\<close>

theorem traces_pages_cover:
  fixes r :: http_request and v :: "('j, 'm) DDDViewer" and now :: time
  assumes "gm_ok (ts_traceIndex s)" and size: "1 \<le> sz" "sz \<le> 500" and len: "length (ts_traceIndex s) < 2 ^ 49"
  defines "ids \<equiv> memory_ListTraces s (request_query r)"
  shows "\<exists>k.
    (\<forall>idx i. mset idx = mset (ts_traceIndex s) \<longrightarrow> i < k \<longrightarrow>
       offers_pages (traces_page now v s idx (at_page r sz (int i + 1))) = int k) \<and>
    (\<forall>idx. mset idx = mset (ts_traceIndex s) \<longrightarrow>
       mset (concat (map (\<lambda>i. shown_traces (traces_page now v s idx (at_page r sz (int i + 1)))) [0..<k])) = mset ids) \<and>
    (nat sz < length ids \<longrightarrow> (\<forall>t\<in>set ids. \<exists>ord. (\<forall>i. mset (ord i) = mset (ts_traceIndex s)) \<and>
       (\<forall>i<k. t \<notin> set (shown_traces (traces_page now v s (ord i) (at_page r sz (int i + 1)))))))"
proof -
  define k where "k = nat (pn_Pages (newPagination 1 sz (int (length ids))))"
  have n: "length ids < 2 ^ 49"
    using len length_filter_le [of _ "ts_traceIndex s"] unfolding ids_def memory_ListTraces_def length_map by (rule le_less_trans [rotated])
  note pages = pages_of [OF size(1) n, folded k_def]
  have same: "gm_ok idx" "length (memory_ListTraces (visited idx s) (request_query r)) = length ids"
    if "mset idx = mset (ts_traceIndex s)" for idx
    using same_keys_ok [OF that assms(1)] arg_cong [OF visited_mset [OF that, of "request_query r"], of size]
    by (simp_all add: ids_def)
  have pg: "shown_traces (traces_page now v s idx (at_page r sz (int i + 1))) =
        take (nat sz) (drop (i * nat sz) (memory_ListTraces (visited idx s) (request_query r)))"
      "offers_pages (traces_page now v s idx (at_page r sz (int i + 1))) = int k"
    if "mset idx = mset (ts_traceIndex s)" "i < k" for idx i
    using traces_page_shows [OF same(1) [OF that(1)] size, of i s r now v] same(2) [OF that(1)] n that(2) pages(1,3)
    by simp_all
  have cover: "concat (map (\<lambda>i. shown_traces (traces_page now v s idx (at_page r sz (int i + 1)))) [0..<k]) =
      memory_ListTraces (visited idx s) (request_query r)" if "mset idx = mset (ts_traceIndex s)" for idx
  proof -
    let ?ids = "memory_ListTraces (visited idx s) (request_query r)"
    have "concat (map (\<lambda>i. shown_traces (traces_page now v s idx (at_page r sz (int i + 1)))) [0..<k]) =
        concat (map (\<lambda>i. take (nat sz) (drop (i * nat sz) ?ids)) [0..<k])"
      by (intro arg_cong [of _ _ concat] map_cong refl) (simp add: pg(1) [OF that])
    also have "\<dots> = ?ids"
      using size pages(2) same(2) [OF that] by (intro chunks_cover) simp_all
    finally show ?thesis .
  qed
  have "\<exists>ord. (\<forall>i. mset (ord i) = mset (ts_traceIndex s)) \<and>
      (\<forall>i<k. t \<notin> set (shown_traces (traces_page now v s (ord i) (at_page r sz (int i + 1)))))"
    if long: "nat sz < length ids" and t: "t \<in> set ids" for t
  proof -
    obtain ord :: "nat \<Rightarrow> (string \<times> nat list) list" where ord: "\<And>i. mset (ord i) = mset (ts_traceIndex s)"
      "\<And>i. t \<notin> set (take (nat sz) (drop (i * nat sz) (memory_ListTraces (visited (ord i) s) (request_query r))))"
      using missing_orders [OF assms(1) t [unfolded ids_def] long [unfolded ids_def] size(1)] by blast
    show ?thesis by (rule exI [of _ ord]) (simp add: pg(1) ord)
  qed
  then show ?thesis
    by (intro exI [of _ k]) (simp add: pg(2) cover visited_mset ids_def)
qed

subsection \<open>Pages out of reach\<close>

text \<open>
  The offset of a page is computed in 64 bits: where it wraps around to a negative number, the
  traces panic, and over the in-memory store the commands, the queries and the events do.
\<close>

theorem wrapped_offset_panics:
  assumes "page_offset r < 0" "length ids < 2 ^ 62"
    and "vw_traceStore v = Some \<lparr>tr_ListTraces = (\<lambda>ctx f. Inr ids), tr_GetTrace = get\<rparr>"
    and "vw_msgReader v = Some (observable_reader s)"
  shows "viewer_handleTraces now v r = Panic ''slice bounds out of range'' \<and>
         viewer_handleCommands now v r = Panic ''slice bounds out of range'' \<and>
         viewer_handleQueries now v r = Panic ''slice bounds out of range'' \<and>
         viewer_handleEvents now v r = Panic ''slice bounds out of range''"
proof -
  have off: "mf_Offset (viewer_parseMessageFilter r) < 0"
    using assms(1) by (simp add: viewer_parseMessageFilter_def)
  show ?thesis
    using assms page_slice_eq [OF assms(2), of r] off
    by (simp add: viewer_handleTraces_def viewer_handleCommands_def viewer_handleQueries_def viewer_handleEvents_def
        viewer_messages_def Let_def observable_reader_def QueryCommands_def QueryQueries_def QueryEvents_def page_def slice_from_def)
qed

lemma huge_page_wraps: "page_offset (sample_request [(''page'', ''184467440737095518'')]) < 0"
  by (simp add: page_offset_def query_page_def query_pageSize_def sample_request_def Atoi_def ParseInt_def wrap64_def)

text \<open>A page beyond 64 bits: the entries are those of page 1, the pagination shows the greatest number.\<close>

lemma unreadable_page_shown:
  "query_page (sample_request [(''page'', ''99999999999999999999'')]) = 1"
  "shown_page (sample_request [(''page'', ''99999999999999999999'')]) = 2 ^ 63 - 1"
  by (simp_all add: shown_page_def query_page_def sample_request_def Atoi_def ParseInt_def)

definition sample_traces :: "string list \<Rightarrow> trace_reader" where
  "sample_traces ids = \<lparr>tr_ListTraces = (\<lambda>ctx f. Inr ids), tr_GetTrace = (\<lambda>ctx t. Inr [])\<rparr>"

definition bare_viewer :: "(unit, unit) DDDViewer" where
  "bare_viewer =
     \<lparr>vw_statsCollector = Some (NewStatsCollector []), vw_msgStore = None, vw_msgReader = None, vw_schemaReader = None,
      vw_traceStore = None, vw_jobMgr = None, vw_typeRegistry = Some NewTypePrototypeRegistry, vw_relRegistry = None,
      vw_Prefix = ''/api/ddd'', vw_QueryLimit = 100, vw_backendType = ''Memory'', vw_baseURL = []\<rparr>"

definition three_traces :: InMemoryTraceStore where
  "three_traces =
     \<lparr>ts_spans = map (\<lambda>t. \<lparr>sp_ID = t, sp_TraceID = t, sp_ParentID = [], sp_Type = SpanTypeCommand, sp_Name = t,
        sp_Status = SpanStatusSuccess, sp_Error = [], sp_StartedAt = 1, sp_Duration = 1\<rparr>) [''a'', ''b'', ''c''],
      ts_traceIndex = [(''a'', [0]), (''b'', [1]), (''c'', [2])], ts_ttl = 100, ts_maxSpans = 10, ts_stopped = False\<rparr>"

theorem traces_pages_cover_witness:
  "memory_ListTraces three_traces (request_query (sample_request [])) = [''a'', ''b'', ''c''] \<and>
   (\<exists>k ord. (\<forall>i. mset (ord i) = mset (ts_traceIndex three_traces)) \<and>
      offers_pages (traces_page 0 bare_viewer three_traces (ts_traceIndex three_traces) (at_page (sample_request []) 2 1)) = int k \<and>
      (\<forall>i<k. ''b'' \<notin> set (shown_traces (traces_page 0 bare_viewer three_traces (ord i) (at_page (sample_request []) 2 (int i + 1))))))"
proof -
  have ids: "memory_ListTraces three_traces (request_query (sample_request [])) = [''a'', ''b'', ''c'']"
    by (simp add: memory_ListTraces_def three_traces_def query_matches_def request_query_def sample_request_def no_trace_query_def)
  have pre: "gm_ok (ts_traceIndex three_traces)" "(1 :: int) \<le> 2" "(2 :: int) \<le> 500" "length (ts_traceIndex three_traces) < 2 ^ 49"
    by (simp_all add: gm_ok_def three_traces_def)
  have b: "nat 2 < length (memory_ListTraces three_traces (request_query (sample_request [])))"
    "''b'' \<in> set (memory_ListTraces three_traces (request_query (sample_request [])))"
    by (simp_all add: ids)
  from traces_pages_cover [OF pre, of 0 bare_viewer "sample_request []"] b obtain k ord where k:
    "\<forall>idx i. mset idx = mset (ts_traceIndex three_traces) \<longrightarrow> i < k \<longrightarrow>
       offers_pages (traces_page 0 bare_viewer three_traces idx (at_page (sample_request []) 2 (int i + 1))) = int k"
    "\<forall>i. mset (ord i) = mset (ts_traceIndex three_traces)"
    "\<forall>i<k. ''b'' \<notin> set (shown_traces (traces_page 0 bare_viewer three_traces (ord i) (at_page (sample_request []) 2 (int i + 1))))"
    "\<forall>idx. mset idx = mset (ts_traceIndex three_traces) \<longrightarrow>
       mset (concat (map (\<lambda>i. shown_traces (traces_page 0 bare_viewer three_traces idx (at_page (sample_request []) 2 (int i + 1)))) [0..<k])) =
       mset (memory_ListTraces three_traces (request_query (sample_request [])))"
    by blast
  have "0 < k"
    using k(4) ids by (cases k) auto
  then have "offers_pages (traces_page 0 bare_viewer three_traces (ts_traceIndex three_traces) (at_page (sample_request []) 2 1)) = int k"
    using k(1) by fastforce
  with ids k(2,3) show ?thesis by blast
qed

theorem wrapped_offset_panics_witness:
  "viewer_handleTraces 0 (bare_viewer\<lparr>vw_traceStore := Some (sample_traces [''a'']),
       vw_msgReader := Some (observable_reader (NewObservableMessageStore None))\<rparr>)
     (sample_request [(''page'', ''184467440737095518'')]) = Panic ''slice bounds out of range''"
  using wrapped_offset_panics [OF huge_page_wraps, of "[''a'']" "bare_viewer\<lparr>vw_traceStore := Some (sample_traces [''a'']),
       vw_msgReader := Some (observable_reader (NewObservableMessageStore None))\<rparr>" "\<lambda>ctx t. Inr []" "NewObservableMessageStore None" 0]
  by (simp add: sample_traces_def)

subsection \<open>The graph of a run\<close>

lemma run_nodes:
  fixes m :: "(string, node) gomap" and v :: "('j, 'm) DDDViewer" and spans :: "span list"
  assumes "gm_ok m" "\<forall>x\<in>set m. n_ID (snd x) = fst x"
  defines "m' \<equiv> foldl (\<lambda>m s. gm_put m (sp_Name s) (runtime_node v s)) m spans"
  shows "gm_ok m' \<and> fst ` set m' = fst ` set m \<union> sp_Name ` set spans \<and> (\<forall>x\<in>set m'. n_ID (snd x) = fst x)"
  unfolding m'_def using assms(1,2)
proof (induction spans arbitrary: m)
  case (Cons s spans)
  let ?m = "gm_put m (sp_Name s) (runtime_node v s)"
  have "\<forall>x\<in>set ?m. n_ID (snd x) = fst x"
    using Cons.prems(2) gm_put_subset [of m "sp_Name s" "runtime_node v s"] by (auto simp: runtime_node_def)
  from Cons.IH [OF gm_ok_put [OF Cons.prems(1)] this] show ?case
    by (simp add: gm_keys_put)
qed simp

lemma run_edge_ends [simp]: "e_Source (run_edge ps s) = sp_Name ps" "e_Target (run_edge ps s) = sp_Name s"
  by (simp_all add: run_edge_def)

lemma runtime_edge_iff:
  "e \<in> set (runtime_edge spans s) \<longleftrightarrow>
     (\<exists>ps. sp_ParentID s \<noteq> [] \<and> find (\<lambda>ps. sp_ID ps = sp_ParentID s) spans = Some ps \<and> e = run_edge ps s)"
  by (cases "find (\<lambda>ps. sp_ID ps = sp_ParentID s) spans") (simp_all add: runtime_edge_def)

lemma find_unique:
  assumes "distinct (map f xs)" "x \<in> set xs"
  shows "find (\<lambda>y. f y = f x) xs = Some x"
  using assms by (induction xs) (auto simp: image_iff)

text \<open>
  The graph of a trace has one node for each name of its spans, and its edges lead from the name of a
  span to the names of the spans below it, and nowhere else: every end of an edge is a node.
\<close>

theorem runtime_graph_exact:
  fixes v :: "('j, 'm) DDDViewer" and store :: trace_reader and now :: time and traceID :: string
  assumes "tr_GetTrace store (ctx_WithTimeout ctx_Background now (seconds 5)) traceID = Inr spans"
    and "distinct (map sp_ID spans)"
  defines "g \<equiv> buildRuntimeGraph now v store traceID"
  shows "distinct (map n_ID (g_Nodes g)) \<and> n_ID ` set (g_Nodes g) = sp_Name ` set spans \<and>
         (\<forall>a b. (\<exists>e\<in>set (g_Edges g). e_Source e = a \<and> e_Target e = b) \<longleftrightarrow>
            (\<exists>ps\<in>set spans. \<exists>s\<in>set spans. sp_ParentID s \<noteq> [] \<and> sp_ID ps = sp_ParentID s \<and> a = sp_Name ps \<and> b = sp_Name s)) \<and>
         (\<forall>e\<in>set (g_Edges g). e_Source e \<in> n_ID ` set (g_Nodes g) \<and> e_Target e \<in> n_ID ` set (g_Nodes g))"
proof -
  define m where "m = foldl (\<lambda>m s. gm_put m (sp_Name s) (runtime_node v s)) [] spans"
  have g: "g_Nodes g = map snd m" "g_Edges g = concat (map (runtime_edge spans) spans)"
    using assms(1) by (simp_all add: g_def buildRuntimeGraph_def m_def)
  have m: "gm_ok m" "fst ` set m = sp_Name ` set spans" "\<forall>x\<in>set m. n_ID (snd x) = fst x"
    using run_nodes [of "[]" v spans] by (simp_all add: m_def)
  have ids: "map n_ID (g_Nodes g) = map fst m"
    using m(3) by (simp add: g)
  then have nodes: "n_ID ` set (g_Nodes g) = sp_Name ` set spans"
    using m(2) by (metis list.set_map)
  have found: "find (\<lambda>ps. sp_ID ps = sp_ParentID s) spans = Some ps \<longleftrightarrow> ps \<in> set spans \<and> sp_ID ps = sp_ParentID s" for s ps
    using find_unique [OF assms(2), of ps] by (auto simp: find_Some_iff)
  have edges: "e \<in> set (g_Edges g) \<longleftrightarrow> (\<exists>s\<in>set spans. e \<in> set (runtime_edge spans s))" for e
    by (simp add: g)
  have pairs: "(\<exists>e\<in>set (g_Edges g). e_Source e = a \<and> e_Target e = b) \<longleftrightarrow>
      (\<exists>ps\<in>set spans. \<exists>s\<in>set spans. sp_ParentID s \<noteq> [] \<and> sp_ID ps = sp_ParentID s \<and> a = sp_Name ps \<and> b = sp_Name s)" for a b
  proof
    assume "\<exists>e\<in>set (g_Edges g). e_Source e = a \<and> e_Target e = b"
    then obtain e s where "s \<in> set spans" "e \<in> set (runtime_edge spans s)" "e_Source e = a" "e_Target e = b"
      by (auto simp: edges)
    then show "\<exists>ps\<in>set spans. \<exists>s\<in>set spans. sp_ParentID s \<noteq> [] \<and> sp_ID ps = sp_ParentID s \<and> a = sp_Name ps \<and> b = sp_Name s"
      unfolding runtime_edge_iff found by force
  next
    assume "\<exists>ps\<in>set spans. \<exists>s\<in>set spans. sp_ParentID s \<noteq> [] \<and> sp_ID ps = sp_ParentID s \<and> a = sp_Name ps \<and> b = sp_Name s"
    then obtain ps s where ps: "ps \<in> set spans" "s \<in> set spans" "sp_ParentID s \<noteq> []" "sp_ID ps = sp_ParentID s"
      "a = sp_Name ps" "b = sp_Name s"
      by blast
    let ?e = "run_edge ps s"
    have "?e \<in> set (runtime_edge spans s)"
      unfolding runtime_edge_iff found using ps by blast
    then have "?e \<in> set (g_Edges g)"
      using ps(2) edges by blast
    then show "\<exists>e\<in>set (g_Edges g). e_Source e = a \<and> e_Target e = b"
      using ps by (intro bexI [of _ ?e]) simp_all
  qed
  have "distinct (map n_ID (g_Nodes g))"
    using m(1) unfolding ids by (simp add: gm_ok_def)
  moreover have "e_Source e \<in> sp_Name ` set spans \<and> e_Target e \<in> sp_Name ` set spans" if e: "e \<in> set (g_Edges g)" for e
  proof -
    obtain ps s where "ps \<in> set spans" "s \<in> set spans" "e_Source e = sp_Name ps" "e_Target e = sp_Name s"
      using pairs [of "e_Source e" "e_Target e"] e by blast
    then show ?thesis by simp
  qed
  ultimately show ?thesis
    using pairs nodes by simp
qed

subsection \<open>The summary graph\<close>

definition emit_pairs :: "(string, string list) gomap \<Rightarrow> (string \<times> string) set" where
  "emit_pairs m = {(h, e). \<exists>es. gm_get m h = Some es \<and> e \<in> set es}"

definition span_emits :: "span list \<Rightarrow> (string \<times> string) set" where
  "span_emits spans = {(sp_Name ps @ ''Handler'', sp_Name s) | ps s. s \<in> set spans \<and> sp_ParentID s \<noteq> [] \<and>
     find (\<lambda>ps. sp_ID ps = sp_ParentID s) spans = Some ps}"

lemma emit_pairs_put:
  "emit_pairs (gm_put m h (if x \<in> set (gm_or m h []) then gm_or m h [] else gm_or m h [] @ [x])) = insert (h, x) (emit_pairs m)"
  unfolding emit_pairs_def by (cases "gm_get m h") (auto split: if_splits)

lemma add_emit_pairs:
  "emit_pairs (add_emit spans m s) = emit_pairs m \<union>
     {(sp_Name ps @ ''Handler'', sp_Name s) | ps. sp_ParentID s \<noteq> [] \<and> find (\<lambda>ps. sp_ID ps = sp_ParentID s) spans = Some ps}"
proof (cases "sp_ParentID s = []")
  case False
  show ?thesis
  proof (cases "find (\<lambda>ps. sp_ID ps = sp_ParentID s) spans")
    case None
    then show ?thesis by (simp add: add_emit_def)
  next
    case (Some ps)
    then have "emit_pairs (add_emit spans m s) = insert (sp_Name ps @ ''Handler'', sp_Name s) (emit_pairs m)"
      unfolding add_emit_def Let_def by (simp only: False if_False option.case emit_pairs_put)
    moreover have "{(sp_Name ps @ ''Handler'', sp_Name s) | ps. sp_ParentID s \<noteq> [] \<and> find (\<lambda>ps. sp_ID ps = sp_ParentID s) spans = Some ps}
        = {(sp_Name ps @ ''Handler'', sp_Name s)}"
      using Some False by simp
    ultimately show ?thesis
      by simp
  qed
qed (simp add: add_emit_def)

lemma add_emits_pairs:
  "gm_ok m \<Longrightarrow> gm_ok (foldl (add_emit spans) m ss) \<and>
     emit_pairs (foldl (add_emit spans) m ss) = emit_pairs m \<union>
       {(sp_Name ps @ ''Handler'', sp_Name s) | ps s. s \<in> set ss \<and> sp_ParentID s \<noteq> [] \<and>
          find (\<lambda>ps. sp_ID ps = sp_ParentID s) spans = Some ps}"
proof (induction ss arbitrary: m)
  case (Cons s ss)
  have "gm_ok (add_emit spans m s)"
    using Cons.prems by (simp add: add_emit_def Let_def split: option.split)
  from Cons.IH [OF this] show ?case
    by (auto simp: add_emit_pairs)
qed simp

lemma collect_emits_pairs:
  assumes "gm_ok m"
  shows "gm_ok (collect_emits store ctx ids m) \<and>
    emit_pairs (collect_emits store ctx ids m) =
      emit_pairs m \<union> {p. \<exists>t\<in>set ids. \<exists>spans. tr_GetTrace store ctx t = Inr spans \<and> p \<in> span_emits spans}"
  using assms
proof (induction ids arbitrary: m)
  case (Cons t ids)
  show ?case
  proof (cases "tr_GetTrace store ctx t")
    case (Inl err)
    then show ?thesis using Cons.IH [OF Cons.prems] by auto
  next
    case (Inr spans)
    note step = add_emits_pairs [OF Cons.prems, of spans spans]
    have "emit_pairs (foldl (add_emit spans) m spans) = emit_pairs m \<union> span_emits spans"
      using step by (simp add: span_emits_def)
    then show ?thesis
      using Cons.IH [of "foldl (add_emit spans) m spans"] step Inr by auto
  qed
qed simp

lemma emit_edges_set:
  assumes "gm_ok m"
  shows "set (emit_edges m) = {\<lparr>e_Source = h, e_Target = e, e_Type = ''emits''\<rparr> | h e. (h, e) \<in> emit_pairs m}"
  unfolding emit_edges_def emit_pairs_def using gm_get_iff [OF assms] by fastforce

text \<open>
  The summary graph is the registry's graph with further edges: one ``emits'' edge for each pair of a
  span and a span below it in any trace that can be read, from the name of the upper one with ``Handler''
  appended; its nodes, and so the filters, are the registry's.
\<close>

theorem summary_graph_exact:
  fixes v :: "('j, 'm) DDDViewer" and store :: trace_reader and now :: time and reg :: registry and df tf :: string
  assumes "vw_traceStore v = Some store"
    and "tr_ListTraces store (ctx_WithTimeout ctx_Background now (seconds 5)) no_trace_query = Inr ids"
  defines "g \<equiv> buildSummaryGraph now v reg df tf" and "g0 \<equiv> BuildGraph reg df tf"
  shows "g_Nodes g = g_Nodes g0 \<and> g_Domains g = g_Domains g0 \<and>
         (\<exists>extra. g_Edges g = g_Edges g0 @ extra \<and> set extra =
            {\<lparr>e_Source = sp_Name ps @ ''Handler'', e_Target = sp_Name s, e_Type = ''emits''\<rparr> | ps s spans t.
               t \<in> set ids \<and> tr_GetTrace store (ctx_WithTimeout ctx_Background now (seconds 5)) t = Inr spans \<and>
               s \<in> set spans \<and> sp_ParentID s \<noteq> [] \<and> find (\<lambda>ps. sp_ID ps = sp_ParentID s) spans = Some ps})"
proof -
  let ?ctx = "ctx_WithTimeout ctx_Background now (seconds 5)"
  define m where "m = collect_emits store ?ctx ids []"
  have g: "g = g0\<lparr>g_Edges := g_Edges g0 @ emit_edges m\<rparr>"
    using assms(1,2) by (simp add: g_def g0_def buildSummaryGraph_def Let_def m_def)
  note m = collect_emits_pairs [of "[]" store ?ctx ids, folded m_def, simplified]
  have "set (emit_edges m) = {\<lparr>e_Source = h, e_Target = e, e_Type = ''emits''\<rparr> | h e. (h, e) \<in> emit_pairs m}"
    using m by (intro emit_edges_set) simp
  also have "\<dots> = {\<lparr>e_Source = sp_Name ps @ ''Handler'', e_Target = sp_Name s, e_Type = ''emits''\<rparr> | ps s spans t.
               t \<in> set ids \<and> tr_GetTrace store ?ctx t = Inr spans \<and>
               s \<in> set spans \<and> sp_ParentID s \<noteq> [] \<and> find (\<lambda>ps. sp_ID ps = sp_ParentID s) spans = Some ps}"
    using m by (auto simp: emit_pairs_def span_emits_def) blast+
  finally show ?thesis
    using g by simp
qed

definition sample_span :: "string \<Rightarrow> string \<Rightarrow> string \<Rightarrow> span_type \<Rightarrow> span" where
  "sample_span i parent name ty =
     \<lparr>sp_ID = i, sp_TraceID = ''t'', sp_ParentID = parent, sp_Type = ty, sp_Name = name, sp_Status = SpanStatusSuccess,
      sp_Error = [], sp_StartedAt = 1, sp_Duration = 1\<rparr>"

definition sample_run :: trace_reader where
  "sample_run =
     \<lparr>tr_ListTraces = (\<lambda>ctx f. Inr [''t'']),
      tr_GetTrace = (\<lambda>ctx t. Inr [sample_span ''1'' [] ''Pay'' SpanTypeCommand, sample_span ''2'' ''1'' ''Paid'' SpanTypeEvent])\<rparr>"

theorem runtime_graph_exact_witness:
  "\<exists>e\<in>set (g_Edges (buildRuntimeGraph 0 bare_viewer sample_run ''t'')). e_Source e = ''Pay'' \<and> e_Target e = ''Paid''"
proof -
  let ?spans = "[sample_span ''1'' [] ''Pay'' SpanTypeCommand, sample_span ''2'' ''1'' ''Paid'' SpanTypeEvent]"
  have run: "tr_GetTrace sample_run (ctx_WithTimeout ctx_Background 0 (seconds 5)) ''t'' = Inr ?spans"
    by (simp add: sample_run_def)
  have ids: "distinct (map sp_ID ?spans)"
    by (simp add: sample_span_def)
  have "\<exists>ps\<in>set ?spans. \<exists>s\<in>set ?spans. sp_ParentID s \<noteq> [] \<and> sp_ID ps = sp_ParentID s \<and> ''Pay'' = sp_Name ps \<and> ''Paid'' = sp_Name s"
    by (simp add: sample_span_def)
  then show ?thesis
    using runtime_graph_exact [OF run ids, of bare_viewer] by blast
qed

text \<open>The edge's source, a handler the registry does not know, is no node.\<close>

theorem summary_graph_exact_witness:
  "\<exists>e\<in>set (g_Edges (buildSummaryGraph 0 (bare_viewer\<lparr>vw_traceStore := Some sample_run\<rparr>) NewRegistry [] [])).
     e_Source e = ''PayHandler'' \<and> e_Target e = ''Paid'' \<and>
     e_Source e \<notin> n_ID ` set (g_Nodes (buildSummaryGraph 0 (bare_viewer\<lparr>vw_traceStore := Some sample_run\<rparr>) NewRegistry [] []))"
proof -
  let ?v = "bare_viewer\<lparr>vw_traceStore := Some sample_run\<rparr>"
  let ?ps = "sample_span ''1'' [] ''Pay'' SpanTypeCommand" and ?s = "sample_span ''2'' ''1'' ''Paid'' SpanTypeEvent"
  let ?e = "\<lparr>e_Source = sp_Name ?ps @ ''Handler'', e_Target = sp_Name ?s, e_Type = ''emits''\<rparr>"
  have nodes: "g_Nodes (BuildGraph NewRegistry [] []) = []"
    by (simp add: BuildGraph_def NewRegistry_def build_handles_def build_subscribes_def build_emits_def Let_def sort_slice_def)
  have v: "vw_traceStore ?v = Some sample_run" by simp
  have lst: "tr_ListTraces sample_run (ctx_WithTimeout ctx_Background 0 (seconds 5)) no_trace_query = Inr [''t'']"
    by (simp add: sample_run_def)
  note exact = summary_graph_exact [OF v lst, of NewRegistry "[]" "[]"]
  have pair: "''t'' \<in> set [''t''] \<and> tr_GetTrace sample_run (ctx_WithTimeout ctx_Background 0 (seconds 5)) ''t'' = Inr [?ps, ?s] \<and>
      ?s \<in> set [?ps, ?s] \<and> sp_ParentID ?s \<noteq> [] \<and> find (\<lambda>ps. sp_ID ps = sp_ParentID ?s) [?ps, ?s] = Some ?ps"
    by (simp add: sample_run_def sample_span_def)
  obtain extra where edges: "g_Edges (buildSummaryGraph 0 ?v NewRegistry [] []) = g_Edges (BuildGraph NewRegistry [] []) @ extra"
    and extra: "set extra = {\<lparr>e_Source = sp_Name ps @ ''Handler'', e_Target = sp_Name s, e_Type = ''emits''\<rparr> | ps s spans t.
               t \<in> set [''t''] \<and> tr_GetTrace sample_run (ctx_WithTimeout ctx_Background 0 (seconds 5)) t = Inr spans \<and>
               s \<in> set spans \<and> sp_ParentID s \<noteq> [] \<and> find (\<lambda>ps. sp_ID ps = sp_ParentID s) spans = Some ps}"
    using exact by (elim conjE exE)
  have "?e \<in> set extra"
    unfolding extra using pair by blast
  then have "?e \<in> set (g_Edges (buildSummaryGraph 0 ?v NewRegistry [] []))"
    by (simp add: edges)
  moreover have "g_Nodes (buildSummaryGraph 0 ?v NewRegistry [] []) = []"
    using exact nodes by (elim conjE) simp
  ultimately show ?thesis
    by (intro bexI [of _ ?e]) (simp_all add: sample_span_def)
qed

subsection \<open>The page of a domain\<close>

lemma page_at_most: "page f xs = Ret res \<Longrightarrow> 0 < mf_Limit f \<Longrightarrow> int (length (qr_Items res)) \<le> mf_Limit f"
  by (auto simp: page_def Let_def slice_from_def split: if_splits)

lemma domain_entries_at_most:
  assumes "domain_entries txt reg sel (observable_reader s) ctx f = Ret entries" "0 < mf_Limit f"
  shows "int (length entries) \<le> 3 * mf_Limit f"
proof -
  obtain cs where cs: "QueryCommands s f = Ret cs"
    using assms(1) by (cases "QueryCommands s f") (auto simp: domain_entries_def observable_reader_def)
  obtain qs where qs: "QueryQueries s f = Ret qs"
    using assms(1) cs by (cases "QueryQueries s f") (auto simp: domain_entries_def observable_reader_def)
  obtain es where es: "QueryEvents s f = Ret es"
    using assms(1) cs qs by (cases "QueryEvents s f") (auto simp: domain_entries_def observable_reader_def)
  have "length entries \<le> length (qr_Items cs) + (length (qr_Items qs) + length (qr_Items es))"
    using assms(1) cs qs es by (auto simp: domain_entries_def observable_reader_def intro!: add_mono)
  moreover have "int (length (qr_Items cs)) \<le> mf_Limit f" "int (length (qr_Items qs)) \<le> mf_Limit f"
    "int (length (qr_Items es)) \<le> mf_Limit f"
    using page_at_most assms(2) cs qs es unfolding QueryCommands_def QueryQueries_def QueryEvents_def by blast+
  ultimately show ?thesis by linarith
qed

text \<open>
  The pagination of a domain's page counts the entries of the domain on that page only, at most
  three page sizes: from the third page on it offers no next page, however many entries there are.
\<close>

theorem domain_pages_end:
  assumes "vw_msgReader v = Some (observable_reader s)"
    and "handleDomains txt now v r = Ret (HtmlPage name (DomainsPage pg))" "dp_Pagination pg = Some pn"
  shows "pn_Total pn = int (length (dp_Entries pg)) \<and> pn_Total pn \<le> 3 * pn_PageSize pn \<and> (pn_HasNext pn \<longrightarrow> pn_Page pn < 3)"
proof -
  obtain reg where reg: "vw_typeRegistry v = Some reg"
    using assms(2) by (cases "vw_typeRegistry v") (simp_all add: handleDomains_def)
  define sel where "sel = (if rq_Query r ''domain'' = [] \<and> ListDomains reg \<noteq> [] then hd (ListDomains reg) else rq_Query r ''domain'')"
  have "sel \<noteq> []"
    using assms(2,3) reg by (auto simp: handleDomains_def Let_def sel_def [symmetric])
  define f where "f = \<lparr>mf_Type = [], mf_TraceID = [], mf_AggregateID = [], mf_Status = [], mf_Since = 0,
     mf_Limit = query_pageSize r, mf_Offset = page_offset r\<rparr>"
  define ctx where "ctx = ctx_WithTimeout (rq_Context r) now (seconds 5)"
  obtain entries where entries: "domain_entries txt reg sel (observable_reader s) ctx f = Ret entries"
    and pg: "dp_Entries pg = entries" "pn = newPagination (query_page r) (query_pageSize r) (int (length entries))"
    using assms reg \<open>sel \<noteq> []\<close>
    by (cases "domain_entries txt reg sel (observable_reader s) ctx f")
      (auto simp: handleDomains_def Let_def sel_def [symmetric] ctx_def [symmetric] f_def [symmetric])
  have size: "pn_PageSize pn = query_pageSize r" "pn_Total pn = int (length entries)"
    using query_pageSize_bounds(1) [of r] by (simp_all add: pg newPagination_def Let_def)
  have few: "int (length entries) \<le> 3 * query_pageSize r"
    using domain_entries_at_most [OF entries] query_pageSize_bounds(1) [of r] by (simp add: f_def)
  have "pn_Page pn * pn_PageSize pn < pn_Total pn" if "pn_HasNext pn"
  proof -
    note fields = pagination_fields [of "int (length entries)" "query_page r" "query_pageSize r", folded pg(2)]
    have "pn_Page pn \<le> pn_Pages pn - 1"
      using that fields(7) by simp
    then have "pn_Page pn * pn_PageSize pn \<le> (pn_Pages pn - 1) * pn_PageSize pn"
      using fields(1) by (intro mult_right_mono) simp_all
    moreover have "0 < int (length entries)"
      using that fields(2,6,7) by (cases "entries = []") auto
    ultimately show ?thesis
      using fields(5) size(2) by simp
  qed
  then have "pn_HasNext pn \<Longrightarrow> pn_Page pn * query_pageSize r < 3 * query_pageSize r"
    using few size by fastforce
  then show ?thesis
    using few size pg(1) query_pageSize_bounds(1) [of r] by (auto simp: mult_less_cancel_right)
qed

theorem domain_pages_end_witness:
  "\<exists>pg pn. handleDomains \<lparr>vt_Indent = Some, vt_Duration = show_int, vt_Time = show_int\<rparr> 0
       (bare_viewer\<lparr>vw_msgReader := Some (observable_reader (NewObservableMessageStore None))\<rparr>)
       (sample_request [(''domain'', ''order'')]) = Ret (HtmlPage ''ddd_domains'' (DomainsPage pg)) \<and>
     dp_Pagination pg = Some pn \<and> pn_Total pn \<le> 3 * pn_PageSize pn \<and> pn_PageSize pn = 50"
proof -
  let ?v = "bare_viewer\<lparr>vw_msgReader := Some (observable_reader (NewObservableMessageStore None))\<rparr>"
  let ?txt = "\<lparr>vt_Indent = Some, vt_Duration = show_int, vt_Time = show_int\<rparr>"
  have sz: "query_pageSize (sample_request [(''domain'', ''order'')]) = 50" "page_offset (sample_request [(''domain'', ''order'')]) = 0"
    "query_page (sample_request [(''domain'', ''order'')]) = 1"
    by (simp_all add: query_pageSize_def page_offset_def query_page_def sample_request_def wrap64_def)
  have dom: "rq_Query (sample_request [(''domain'', ''order'')]) ''domain'' = ''order''"
    by (simp add: sample_request_def)
  have "\<exists>pg. handleDomains ?txt 0 ?v (sample_request [(''domain'', ''order'')]) = Ret (HtmlPage ''ddd_domains'' (DomainsPage pg)) \<and>
      dp_Pagination pg = Some (newPagination 1 50 0)"
    by (simp add: handleDomains_def Let_def bare_viewer_def dom sz domain_entries_def observable_reader_def QueryCommands_def
        QueryQueries_def QueryEvents_def NewObservableMessageStore_def NewInMemoryMessageStore_def im_GetCommands_def
        im_GetQueries_def im_GetEvents_def page_def slice_from_def)
  then obtain pg where pg: "handleDomains ?txt 0 ?v (sample_request [(''domain'', ''order'')]) = Ret (HtmlPage ''ddd_domains'' (DomainsPage pg))"
    "dp_Pagination pg = Some (newPagination 1 50 0)" by blast
  have "vw_msgReader ?v = Some (observable_reader (NewObservableMessageStore None))"
    by simp
  from domain_pages_end [OF this pg] show ?thesis
    using pg by (intro exI [of _ pg] exI [of _ "newPagination 1 50 0"]) (simp add: newPagination_def Let_def)
qed

end
