(* ===== verification/SchemaViewer.thy ===== *)
theory SchemaViewer
  imports Viewer
begin

text \<open>
  The stand-alone viewer of the database schema, \<open>observability/schema_viewer.go\<close>: its options, routes and handlers, and
  the formats of its numbers.  Its pages are those of the viewer of \<open>ddd_viewer.go\<close> for the same reader.
\<close>

record SchemaViewer =
  sv_reader :: "schema_reader option"
  sv_Prefix :: string
  sv_backendType :: string
  sv_baseURL :: string

datatype SchemaViewerOption = WithSchemaPrefix string | WithSchemaReader "schema_reader option" string | WithBaseURL string

fun apply_schema_option :: "SchemaViewer \<Rightarrow> SchemaViewerOption \<Rightarrow> SchemaViewer" where
  "apply_schema_option v (WithSchemaPrefix prefix) = v\<lparr>sv_Prefix := prefix\<rparr>"
| "apply_schema_option v (WithSchemaReader reader backendType) = v\<lparr>sv_reader := reader, sv_backendType := backendType\<rparr>"
| "apply_schema_option v (WithBaseURL url) = v\<lparr>sv_baseURL := url\<rparr>"

definition NewSchemaViewer :: "TableDetail list \<Rightarrow> SchemaViewerOption list \<Rightarrow> SchemaViewer" where
  "NewSchemaViewer schema opts =
     (let v = foldl apply_schema_option
            \<lparr>sv_reader = None, sv_Prefix = ''/api/ddd/ddd_schema'', sv_backendType = ''Memory'', sv_baseURL = []\<rparr> opts
      in if sv_reader v = None then v\<lparr>sv_reader := Some (InMemorySchemaReader schema)\<rparr> else v)"

definition schema_routes :: "SchemaViewer \<Rightarrow> (string \<times> string) list" where
  "schema_routes v = [(''GET '' @ sv_Prefix v @ ''/'', ''handleTableList''), (''GET '' @ sv_Prefix v @ ''/{table}'', ''handleTableDetail'')]"

definition schema_handleTableList :: "SchemaViewer \<Rightarrow> http_request \<Rightarrow> 'j viewer_response outcome" where
  "schema_handleTableList v r =
     (case sv_reader v of
        None \<Rightarrow> nil_deref
      | Some reader \<Rightarrow>
          (case sr_ListTables reader (rq_Context r) of
             (tables, Some err) \<Rightarrow> Ret (HttpError 500 (error_text err))
           | (tables, None) \<Rightarrow>
               (let (relations, ignored) = sr_ListRelations reader (rq_Context r)
                in Ret (HtmlPage ''schema_tables'' (SchemaTables tables relations)))))"

definition schema_handleTableDetail :: "SchemaViewer \<Rightarrow> http_request \<Rightarrow> 'j viewer_response outcome" where
  "schema_handleTableDetail v r =
     (let tableName = rq_Path r in
      if \<not> has_prefix tableName ''ddd_'' then Ret (HttpError 404 ''table not found'')
      else (case sv_reader v of
              None \<Rightarrow> nil_deref
            | Some reader \<Rightarrow>
                (case sr_GetTable reader (rq_Context r) tableName of
                   Inl err \<Rightarrow> Ret (HttpError 404 (error_text err))
                 | Inr detail \<Rightarrow> Ret (HtmlPage ''schema_detail'' (SchemaDetail detail)))))"

text \<open>\<open>fixed1 a b\<close> is \<open>%.1f\<close> of the quotient of two floats; the layout of a time is an argument.\<close>

definition formatSize :: "(int \<Rightarrow> int \<Rightarrow> string) \<Rightarrow> int \<Rightarrow> string" where
  "formatSize fixed1 bytes =
     (if bytes < 0 then ''N/A''
      else if bytes = 0 then ''0 B''
      else if 1024 * 1024 * 1024 \<le> bytes then fixed1 bytes (1024 * 1024 * 1024) @ '' GB''
      else if 1024 * 1024 \<le> bytes then fixed1 bytes (1024 * 1024) @ '' MB''
      else if 1024 \<le> bytes then fixed1 bytes 1024 @ '' KB''
      else show_int bytes @ '' B'')"

definition formatTime :: "(time \<Rightarrow> string) \<Rightarrow> time option \<Rightarrow> string" where
  "formatTime layout t = (case t of None \<Rightarrow> ''N/A'' | Some u \<Rightarrow> layout u)"

text \<open>The page of a fresh viewer never panics, and is the one of any \<open>DDDViewer\<close> that has its reader.\<close>

theorem schema_viewer_same_pages:
  fixes d :: "('j, 'm) DDDViewer" and r :: http_request
  assumes "v = NewSchemaViewer schema opts" and "vw_schemaReader d = sv_reader v"
  shows "schema_handleTableList v r = handleSchemaTableList d r \<and> schema_handleTableDetail v r = handleSchemaTableDetail d r \<and>
    (schema_handleTableList v r :: 'j viewer_response outcome) \<noteq> nil_deref \<and> (schema_handleTableDetail v r :: 'j viewer_response outcome) \<noteq> nil_deref"
proof -
  obtain reader where "sv_reader v = Some reader"
    using assms(1) by (cases "sv_reader v") (auto simp: NewSchemaViewer_def Let_def split: if_splits)
  then show ?thesis
    using assms(2)
    by (cases "sr_ListTables reader (rq_Context r)"; cases "sr_ListRelations reader (rq_Context r)"; cases "sr_GetTable reader (rq_Context r) (rq_Path r)")
      (simp_all add: schema_handleTableList_def schema_handleTableDetail_def handleSchemaTableList_def
        handleSchemaTableDetail_def nil_deref_def Let_def split: option.split)
qed

theorem schema_viewer_same_pages_witness:
  "\<exists>v. v = NewSchemaViewer [] [WithSchemaPrefix ''/schema''] \<and> sv_Prefix v = ''/schema'' \<and>
     (schema_handleTableList v (sample_request []) :: unit viewer_response outcome) =
       handleSchemaTableList (bare_viewer\<lparr>vw_schemaReader := sv_reader v\<rparr>) (sample_request [])"
proof -
  let ?v = "NewSchemaViewer [] [WithSchemaPrefix ''/schema'']"
  have "(schema_handleTableList ?v (sample_request []) :: unit viewer_response outcome) = handleSchemaTableList (bare_viewer\<lparr>vw_schemaReader := sv_reader ?v\<rparr>) (sample_request [])"
    using schema_viewer_same_pages [where v = ?v and schema = "[]" and opts = "[WithSchemaPrefix ''/schema'']"
        and d = "bare_viewer\<lparr>vw_schemaReader := sv_reader ?v\<rparr>" and r = "sample_request []"] by simp
  moreover have "sv_Prefix ?v = ''/schema''" by (simp add: NewSchemaViewer_def)
  ultimately show ?thesis by blast
qed

end
