(* ===== verification/ExampleMain.thy ===== *)
theory ExampleMain
  imports ExampleTypes SchemaViewer
begin

text \<open>
  The example application from its configuration on (\<open>WireApp\<close>, \<open>WireAppWithConfig\<close> and \<open>WaitForSignal\<close> of
  \<open>exampleapp/infrastructure/wire.go\<close>), and the viewer it makes over its buses and stores.
\<close>

subsection \<open>Starting and stopping\<close>

definition recoveryEnabled :: "InfraConfig \<Rightarrow> bool" where
  "recoveryEnabled cfg \<longleftrightarrow> ic_StoreType cfg = ''postgresql''"

definition WireAppWithConfig ::
    "(('f, 'w) shop, 'h) surroundings \<Rightarrow> ('e, 'r) store_parts \<Rightarrow> (('f, 'w) shop, 'h, 'f app_msg, 'f app_result) wiring \<Rightarrow>
     ('f, ('f, 'w) shop) order_env \<Rightarrow> ('f, 'f order_world \<times> 'w) publisher \<Rightarrow> ('f app_result retval \<Rightarrow> string) \<Rightarrow>
     ('f, 'f order_world \<times> 'w) execute \<Rightarrow> InfraConfig \<Rightarrow>
     (('f, 'w) shop, go_error + (('f, 'w) shop, 'h, 'e, 'r, 'f app_msg, 'f app_result) AppContext) prog" where
  "WireAppWithConfig su parts wi env publish tname busExecute cfg s =
     (case NewProvider su parts cfg s of
        (Inl err, s1) \<Rightarrow> (Ret (Inl err), s1)
      | (Inr store, s1) \<Rightarrow> (WireAppWithStore wi env publish tname busExecute store, s1))"

text \<open>An error is a panic; its text stands for the value.\<close>

definition WireApp ::
    "(('f, 'w) shop, 'h) surroundings \<Rightarrow> ('e, 'r) store_parts \<Rightarrow> (('f, 'w) shop, 'h, 'f app_msg, 'f app_result) wiring \<Rightarrow>
     ('f, ('f, 'w) shop) order_env \<Rightarrow> ('f, 'f order_world \<times> 'w) publisher \<Rightarrow> ('f app_result retval \<Rightarrow> string) \<Rightarrow>
     ('f, 'f order_world \<times> 'w) execute \<Rightarrow>
     (('f, 'w) shop, (('f, 'w) shop, 'h, 'e, 'r, 'f app_msg, 'f app_result) AppContext) prog" where
  "WireApp su parts wi env publish tname busExecute =
     prog_bind (WireAppWithConfig su parts wi env publish tname busExecute (LoadConfig (su_getenv su)))
       (\<lambda>app s. case app of Inl err \<Rightarrow> (Panic (error_text err), s) | Inr a \<Rightarrow> (Ret a, s))"

text \<open>What happens when the signal has come; the error of closing is only logged.\<close>

definition WaitForSignal ::
    "('s \<Rightarrow> time) \<Rightarrow> 's db_driver \<Rightarrow> ('s, 'h, 'e, 'r, 'd, 'v) AppContext \<Rightarrow> duration \<Rightarrow> 's \<Rightarrow> 's" where
  "WaitForSignal now dv a timeout s = snd (AppContext_Close now dv a (ctx_WithTimeout ctx_Background (now s) timeout) s)"

lemma close_closes:
  assumes "driver_ok conns dv" and "sc_DB (ac_store a) = Some db"
  shows "db \<notin> conns (snd (AppContext_Close now dv a ctx s))"
proof -
  obtain errs s1 where run: "run_lifecycles now ctx (ac_lifecycles a) [] s = (errs, s1)" by (metis surj_pair)
  obtain e s2 where e: "dv_Close dv db s1 = (e, s2)" by (metis surj_pair)
  then have "conns s2 = conns s1 - {db}" using driver_okD(5) [OF assms(1), of db s1] by simp
  then show ?thesis using assms(2) run e by (simp add: AppContext_Close_def Let_def)
qed

text \<open>
  Starting the example application with any configuration: it fails exactly when the store provider
  does, with the provider's error and no connection left open, and never panics; when it succeeds the one
  connection it may have opened is closed by the shutdown after a signal, whatever else the shutdown
  meets and however little time it has.
\<close>

theorem start_and_stop:
  assumes "driver_ok conns (su_driver su)"
  shows "case WireAppWithConfig su parts wi env publish tname busExecute cfg s of
      (Panic m, s') \<Rightarrow> False
    | (Ret (Inl err), s') \<Rightarrow> fst (NewProvider su parts cfg s) = Inl err \<and> conns s' = conns s
    | (Ret (Inr a), s') \<Rightarrow> fst (NewProvider su parts cfg s) = Inr (ac_store a) \<and> conns s' = conns s \<union> set_option (sc_DB (ac_store a)) \<and>
        (\<forall>now timeout s1. set_option (sc_DB (ac_store a)) \<inter> conns (WaitForSignal now (su_driver su) a timeout s1) = {})"
proof -
  obtain r s' where p: "NewProvider su parts cfg s = (r, s')" by (metis surj_pair)
  note leak = provider_leaks_no_connection [OF assms p]
  show ?thesis
  proof (cases r)
    case (Inl e)
    then show ?thesis using p leak by (simp add: WireAppWithConfig_def)
  next
    case (Inr store)
    obtain a where a: "WireAppWithStore wi env publish tname busExecute store = Ret (Inr a)" "ac_store a = store"
      using wired_app by blast
    have "set_option (sc_DB (ac_store a)) \<inter> conns (WaitForSignal now (su_driver su) a timeout s1) = {}" for now timeout s1
      unfolding WaitForSignal_def using close_closes [OF assms, of a] by (cases "sc_DB (ac_store a)") auto
    then show ?thesis using p leak Inr a by (simp add: WireAppWithConfig_def)
  qed
qed

subsection \<open>The viewer\<close>

text \<open>The readers of a database are given by its connection; without one the log is in memory.\<close>

definition example_viewer_options ::
    "StatsCollector \<Rightarrow> trace_reader option \<Rightarrow> 'j job_lister \<Rightarrow> registry \<Rightarrow> (nat \<Rightarrow> schema_reader) \<Rightarrow> (nat \<Rightarrow> message_reader) \<Rightarrow>
     message_reader \<Rightarrow> nat option \<Rightarrow> (unit, 'j, 'm) DDDViewerOption list" where
  "example_viewer_options stats traceStore jobs reg pgSchema pgMessages memMessages db =
     [WithDDDViewerStatsCollector (Some stats), WithDDDViewerTraceStore traceStore, WithDDDViewerJobManager (Some jobs),
      WithDDDViewerBaseURL ''http://localhost:8555'', WithDDDViewerRelationshipRegistry (Some reg)] @
     (case db of
        Some d \<Rightarrow> [WithDDDViewerPgDB, WithDDDViewerSchemaReader (Some (pgSchema d)) ''PostgreSQL'', WithDDDViewerMessageReader (Some (pgMessages d))]
      | None \<Rightarrow> [WithDDDViewerMessageReader (Some memMessages)])"

definition example_viewer where
  "example_viewer env schema buses opts =
     NewDDDViewer env schema (Some (registeredTypes (bs_cmd buses))) (Some (registeredTypes (bs_query buses)))
       (Some (SubscribedTypes (bs_event buses))) (Some (rp_provider NewAppTypeProvider)) opts"

lemma example_viewer_parts:
  assumes "example_viewer env schema buses (example_viewer_options stats ts jobs reg pgSchema pgMessages memMessages db) = Some (Ret v)"
  shows "vw_msgReader v = Some (case db of Some d \<Rightarrow> pgMessages d | None \<Rightarrow> memMessages)"
    and "vw_backendType v = (case db of Some d \<Rightarrow> ''PostgreSQL'' | None \<Rightarrow> ''Memory'')"
    and "vw_schemaReader v = Some (case db of Some d \<Rightarrow> pgSchema d | None \<Rightarrow> InMemorySchemaReader schema)"
    and "\<exists>types. NewTypePrototypeRegistryFromBuses env (Some (registeredTypes (bs_cmd buses))) (Some (registeredTypes (bs_query buses)))
           (Some (SubscribedTypes (bs_event buses))) (Some (rp_provider NewAppTypeProvider)) = Some (Ret types) \<and>
         vw_typeRegistry v = Some types"
  using assms
  by (auto simp: example_viewer_def NewDDDViewer_def example_viewer_options_def viewer_defaults_def Let_def split: option.splits outcome.splits)

subsection \<open>The events the viewer does not know\<close>

lemma typeNames_from:
  "typeNamesFromMap m = Ret names \<Longrightarrow> n \<in> set names \<Longrightarrow> \<exists>t h. (Some t, h) \<in> set m \<and> n = type_Name (if is_ptr t then deref t else t)"
proof (induction m arbitrary: names rule: typeNamesFromMap.induct)
  case (3 t h m)
  then obtain ns where ns: "typeNamesFromMap m = Ret ns" "names = type_Name (if is_ptr t then deref t else t) # ns"
    by (auto simp: out_bind_eq_Ret)
  show ?case
  proof (cases "n \<in> set ns")
    case True
    from "3.IH" [OF ns(1) True] show ?thesis by auto
  next
    case False
    then show ?thesis using "3.prems"(2) ns(2) by auto
  qed
qed auto

text \<open>The names a registering bus gives are those of its handlers' messages.\<close>

lemma registered_names:
  assumes "register_cmds (newMessageBus ch) hs = (None, b)"
    and "list_all2 (\<lambda>h (name, sample, result). takes_sample h sample) (map snd hs) samples"
    and "list_all (\<lambda>(name, sample, result). \<exists>p. sample = GAny (TNamed p name) ()) samples"
  shows "\<exists>names. registeredTypes b = Ret names \<and> set names \<subseteq> set (map fst samples)"
proof -
  have b: "b = command_bus.reg_all (newMessageBus ch) (map snd hs)" by (rule register_cmds_all [OF assms(1)])
  have ok: "bus_ok b" unfolding b by (rule command_bus.good_reg_all) simp
  then have gm: "gm_ok (mb_handlers b)" by (simp add: bus_ok_def)
  have entry: "\<exists>p name. t = Some (TPtr (TNamed p name)) \<and> name \<in> set (map fst samples)" if "(t, h) \<in> set (mb_handlers b)" for t h
  proof -
    have "bus_route b t = Some h" using that by (simp add: bus_route_def gm_get_iff [OF gm])
    then have f: "find (\<lambda>h. handler_payload h = Some t) (map snd hs) = Some h"
      unfolding b by (simp add: command_bus.route_reg_all)
    then obtain i where i: "i < length hs" "map snd hs ! i = h" "handler_payload h = Some t"
      by (auto simp: find_Some_iff)
    obtain name sample result where s: "samples ! i = (name, sample, result)" by (metis prod_cases3)
    have len: "i < length samples" using i(1) list_all2_lengthD [OF assms(2)] by simp
    have "takes_sample h sample" using list_all2_nthD [OF assms(2), of i] i s by simp
    moreover obtain p where "sample = GAny (TNamed p name) ()"
      using assms(3) len s by (auto simp: list_all_length dest!: spec [of _ i])
    moreover have "name \<in> set (map fst samples)" using len s by (metis fst_conv length_map nth_map nth_mem)
    ultimately show ?thesis using i(3) by (auto simp: takes_sample_def)
  qed
  then have "None \<notin> fst ` set (mb_handlers b)" by fastforce
  then obtain names where names: "registeredTypes b = Ret names"
    unfolding registeredTypes_def using typeNamesFromMap_Ret by blast
  have "n \<in> set (map fst samples)" if n_in: "n \<in> set names" for n
  proof -
    obtain t h where "(Some t, h) \<in> set (mb_handlers b)" and n: "n = type_Name (if is_ptr t then deref t else t)"
      using typeNames_from [OF names [unfolded registeredTypes_def] n_in] by blast
    then obtain p name where "t = TPtr (TNamed p name)" "name \<in> set (map fst samples)" using entry by blast
    then show ?thesis by (simp add: n)
  qed
  then show ?thesis using names by blast
qed

lemma wired_names:
  fixes wi :: "(('f, 'w) shop, 'h, 'f app_msg, 'f app_result) wiring"
    and store :: "(('f, 'w) shop, 'h, 'e, 'r) StoreComponents"
  assumes "WireAppWithStore wi env publish tname busExecute store = Ret (Inr a)"
  shows "\<exists>names. registeredTypes (bs_cmd (ac_Buses a)) = Ret names \<and> set names \<subseteq> set (map fst app_command_samples)"
    and "\<exists>names. registeredTypes (bs_query (ac_Buses a)) = Ret names \<and> set names \<subseteq> set (map fst app_query_samples)"
    and "SubscribedTypes (bs_event (ac_Buses a)) = Ret [''OrderPlacedEvent'', ''OrderCancelledEvent'']"
proof -
  have w: "register_cmds (newMessageBus (ac_Chain a)) (order_commands env @ inventory_commands (oe_now env) publish) = (None, bs_cmd (ac_Buses a))"
    "register_cmds (newMessageBus (ac_Chain a)) (order_queries env @ [(''GetInventoryHandler'', get_inventory_handler)]) = (None, bs_query (ac_Buses a))"
    and e: "map fst (eb_handlers (bs_event (ac_Buses a))) = [Some placed_type, Some cancelled_type]"
    using assms wired_app [of wi env publish tname busExecute store] by (auto simp: register_queries_eq)
  show "\<exists>names. registeredTypes (bs_cmd (ac_Buses a)) = Ret names \<and> set names \<subseteq> set (map fst app_command_samples)"
    by (rule registered_names [OF w(1) samples_of_handlers(1)]) (simp add: app_samples)
  show "\<exists>names. registeredTypes (bs_query (ac_Buses a)) = Ret names \<and> set names \<subseteq> set (map fst app_query_samples)"
    by (rule registered_names [OF w(2) samples_of_handlers(2)]) (simp add: app_samples)
  obtain h1 h2 where "eb_handlers (bs_event (ac_Buses a)) = [(Some placed_type, h1), (Some cancelled_type, h2)]"
    using e by (auto simp: map_eq_Cons_conv)
  then show "SubscribedTypes (bs_event (ac_Buses a)) = Ret [''OrderPlacedEvent'', ''OrderCancelledEvent'']"
    by (simp add: SubscribedTypes_def)
qed

definition unsubscribed :: "string list" where
  "unsubscribed = [''PaymentConfirmedEvent'', ''OrderShippedEvent'', ''InventoryReservedEvent'', ''InventoryReleasedEvent'']"

lemma unsubscribed_samples:
  "list_all (\<lambda>n. gm_get (rp_eventSamples NewAppTypeProvider) n \<noteq> None \<and> n \<notin> set (map fst app_command_samples) \<and>
     n \<notin> set (map fst app_query_samples) \<and> n \<notin> {''OrderPlacedEvent'', ''OrderCancelledEvent''}) unsubscribed"
  by code_simp

text \<open>
  The viewer of the wired example application does not know the events nobody subscribes: of the six
  events of the samples its registry of types has no prototype of four, since it asks the buses for
  their types and is not given the further events of the samples.
\<close>

theorem viewer_misses_events:
  fixes wi :: "(('f, 'w) shop, 'h, 'f app_msg, 'f app_result) wiring"
    and store :: "(('f, 'w) shop, 'h, 'e, 'r) StoreComponents"
  assumes "WireAppWithStore wi env publish tname busExecute store = Ret (Inr a)"
    and "example_viewer reflect schema (ac_Buses a) (example_viewer_options stats ts jobs reg pgSchema pgMessages memMessages db) = Some (Ret v)"
  shows "\<exists>types. vw_typeRegistry v = Some types \<and>
    (\<forall>n\<in>set unsubscribed. tr_Get types n = None \<and> gm_get (rp_eventSamples NewAppTypeProvider) n \<noteq> None)"
proof -
  obtain types where t: "NewTypePrototypeRegistryFromBuses reflect (Some (registeredTypes (bs_cmd (ac_Buses a))))
      (Some (registeredTypes (bs_query (ac_Buses a)))) (Some (SubscribedTypes (bs_event (ac_Buses a)))) (Some (rp_provider NewAppTypeProvider)) =
        Some (Ret types)" "vw_typeRegistry v = Some types"
    using example_viewer_parts(4) [OF assms(2)] by blast
  obtain r1 r2 where c: "CollectFromCommandBus reflect (Some (registeredTypes (bs_cmd (ac_Buses a)))) (Some (rp_provider NewAppTypeProvider)) NewTypePrototypeRegistry = Some (Ret r1)"
    and q: "CollectFromQueryBus reflect (Some (registeredTypes (bs_query (ac_Buses a)))) (Some (rp_provider NewAppTypeProvider)) r1 = Some (Ret r2)"
    and e: "CollectFromEventBus reflect (Some (SubscribedTypes (bs_event (ac_Buses a)))) (Some (rp_provider NewAppTypeProvider)) r2 = Some (Ret types)"
    using t(1) by (auto simp: NewTypePrototypeRegistryFromBuses_def CollectFromBuses_def then_collect_Ret)
  obtain cs qs where names: "registeredTypes (bs_cmd (ac_Buses a)) = Ret cs" "set cs \<subseteq> set (map fst app_command_samples)"
      "registeredTypes (bs_query (ac_Buses a)) = Ret qs" "set qs \<subseteq> set (map fst app_query_samples)"
    using wired_names(1,2) [OF assms(1)] by blast
  have unknown: "gm_get (tr_prototypes types) n = None"
    if "n \<notin> set (map fst app_command_samples)" "n \<notin> set (map fst app_query_samples)" "n \<notin> {''OrderPlacedEvent'', ''OrderCancelledEvent''}" for n
  proof -
    have "gm_get (tr_prototypes types) n = gm_get (tr_prototypes r2) n"
      by (rule collect_from_keep [OF e [unfolded CollectFromEventBus_def]]) (use that(3) wired_names(3) [OF assms(1)] in auto)
    also have "\<dots> = gm_get (tr_prototypes r1) n"
      by (rule collect_from_keep [OF q [unfolded CollectFromQueryBus_def]]) (use that(2) names(3,4) in auto)
    also have "\<dots> = gm_get (tr_prototypes NewTypePrototypeRegistry) n"
      by (rule collect_from_keep [OF c [unfolded CollectFromCommandBus_def]]) (use that(1) names(1,2) in auto)
    finally show ?thesis by (simp add: NewTypePrototypeRegistry_def)
  qed
  have "tr_Get types n = None \<and> gm_get (rp_eventSamples NewAppTypeProvider) n \<noteq> None" if "n \<in> set unsubscribed" for n
    using unsubscribed_samples that unknown [of n] by (simp add: list_all_iff tr_Get_def)
  then show ?thesis using t(2) by blast
qed

subsection \<open>A viewer without fields\<close>

text \<open>When reflection shows no fields, every registration returns, and so does the viewer's constructor.\<close>

lemma plain_fields: "extractFields (\<lambda>t. VOther) t = Some []"
proof -
  have "view (\<lambda>t. VOther) u \<noteq> VStruct f" for u f by (cases u) simp_all
  then show ?thesis by (auto simp: extractFields_def Let_def split: option.split gview.split)
qed

lemma plain_collects: "\<exists>r'. collect_names (\<lambda>t. VOther) cat provider names r = Some r'"
proof (induction names arbitrary: r)
  case (Cons n names)
  obtain x y where s: "(case provider of None \<Rightarrow> (GNil, GNil) | Some get \<Rightarrow> get n) = (x, y)" by (metis surj_pair)
  have "\<exists>r'. RegisterFromSample (\<lambda>t. VOther) cat n x y r = Some r'"
    by (auto simp: RegisterFromSample_def RegisterFromSampleWithDomain_def RegisterFromTypeWithDomain_def plain_fields Let_def split: option.split)
  then show ?case using Cons s by auto
qed simp

lemma plain_viewer:
  assumes "registeredTypes (bs_cmd buses) = Ret cs" and "registeredTypes (bs_query buses) = Ret qs" and "SubscribedTypes (bs_event buses) = Ret es"
  shows "\<exists>v. example_viewer (\<lambda>t. VOther) schema buses (example_viewer_options stats ts jobs reg pgSchema pgMessages memMessages db) = Some (Ret v)"
proof -
  let ?p = "Some (rp_provider NewAppTypeProvider)"
  obtain r1 where r1: "collect_names (\<lambda>t. VOther) ''command'' (map_option GetCommandSample ?p) cs NewTypePrototypeRegistry = Some r1"
    using plain_collects by blast
  obtain r2 where r2: "collect_names (\<lambda>t. VOther) ''query'' (map_option GetQuerySample ?p) qs r1 = Some r2"
    using plain_collects by blast
  obtain r3 where r3: "collect_names (\<lambda>t. VOther) ''event'' (map_option (\<lambda>p name. (GetEventSample p name, GNil)) ?p) es r2 = Some r3"
    using plain_collects by blast
  have "NewTypePrototypeRegistryFromBuses (\<lambda>t. VOther) (Some (registeredTypes (bs_cmd buses))) (Some (registeredTypes (bs_query buses)))
      (Some (SubscribedTypes (bs_event buses))) ?p = Some (Ret r3)"
    using r1 r2 r3 assms by (simp add: NewTypePrototypeRegistryFromBuses_def CollectFromBuses_def CollectFromCommandBus_def
        CollectFromQueryBus_def CollectFromEventBus_def collect_from_def then_collect_def)
  then show ?thesis by (cases db) (simp_all add: example_viewer_def NewDDDViewer_def example_viewer_options_def)
qed

theorem viewer_misses_events_witness:
  "\<exists>(a :: (sample_shop, unit, unit, unit, unit app_msg, unit app_result) AppContext) (v :: (unit, unit) DDDViewer) types.
     example_viewer (\<lambda>t. VOther) [] (ac_Buses a) (example_viewer_options (NewStatsCollector []) None (\<lambda>ctx st. Inr []) (ac_Registry a)
       (\<lambda>d. InMemorySchemaReader []) (\<lambda>d. observable_reader (NewObservableMessageStore None)) (observable_reader (NewObservableMessageStore None)) None) = Some (Ret v) \<and>
     vw_typeRegistry v = Some types \<and> tr_Get types ''OrderShippedEvent'' = None"
proof -
  obtain a :: "(sample_shop, unit, unit, unit, unit app_msg, unit app_result) AppContext"
    where a: "WireAppWithStore sample_wiring sample_env (\<lambda>ctx b e s. (Ret None, s)) (\<lambda>r. []) (\<lambda>ctx m s. (Ret (RNil, None), s)) sample_components = Ret (Inr a)"
    using wired_app by blast
  let ?opts = "example_viewer_options (NewStatsCollector []) None (\<lambda>ctx st. Inr []) (ac_Registry a)
       (\<lambda>d. InMemorySchemaReader []) (\<lambda>d. observable_reader (NewObservableMessageStore None)) (observable_reader (NewObservableMessageStore None)) None
         :: (unit, unit, unit) DDDViewerOption list"
  obtain cs qs where "registeredTypes (bs_cmd (ac_Buses a)) = Ret cs" "registeredTypes (bs_query (ac_Buses a)) = Ret qs"
    using wired_names(1,2) [OF a] by blast
  then obtain v where v: "example_viewer (\<lambda>t. VOther) [] (ac_Buses a) ?opts = Some (Ret v)"
    using plain_viewer wired_names(3) [OF a] by blast
  have "''OrderShippedEvent'' \<in> set unsubscribed" by (simp add: unsubscribed_def)
  then show ?thesis using viewer_misses_events [OF a v] v by blast
qed

end
