(* ===== verification/ExampleHttp.thy ===== *)
theory ExampleHttp
  imports ExampleApp OrderService JobManager Dashboard
begin

text \<open>
  The pages of the example application (\<open>exampleapp/interfaces/http/handlers.go\<close>) and their routes
  (\<open>server.go\<close>): orders, inventory and jobs.  A handler is a function of the request; its answer is an
  error with its status, a redirection, or a page with the data the template is given.  The pages that
  try the framework out are in \<open>ExampleTests\<close>; the templates themselves are not modelled.

  The buses are their \<open>Execute\<close>, the store of events its \<open>Load\<close>; both are arguments (\<open>web\<close>).
\<close>

subsection \<open>Requests and answers\<close>

text \<open>\<open>wr_ParseForm\<close> is the error of parsing the form, \<open>wr_FormValue\<close> what \<open>FormValue\<close> returns.\<close>

record web_request =
  wr_Method :: string
  wr_Context :: go_ctx
  wr_PathID :: string
  wr_ParseForm :: "go_error option"
  wr_FormValue :: "string \<Rightarrow> string"

record 'f event_view =
  vw_EventType :: string
  vw_OrderID :: string
  vw_UserID :: string
  vw_Amount :: 'f
  vw_Details :: string
  vw_OccurredAt :: string

datatype 'f web_page =
    DashboardPage nat int int int "'f InventoryItem list" "'f GetOrderResult list"
  | OrdersPage "'f GetOrderResult list"
  | NewOrderPage "'f InventoryItem list"
  | OrderDetailPage "'f GetOrderResult option"
  | OrderEventsPage string "'f event_view list" "'f GetOrderResult option"
  | InventoryPage "'f InventoryItem list"
  | InventoryManagePage "'f InventoryItem list"
  | JobsPage "('f app_msg, 'f app_result) job list"

datatype 'f web_response = HttpError int string | Redirect int string | Page "'f web_page"

text \<open>\<open>wb_fixed2\<close> is \<open>%.2f\<close>, \<open>wb_tname\<close> \<open>%T\<close> of a result.\<close>

record ('f, 'w) web =
  wb_CmdBus :: "('f, 'f order_world \<times> 'w) execute"
  wb_QueryBus :: "('f, 'f order_world \<times> 'w) execute"
  wb_EventStore_Load :: "go_ctx \<Rightarrow> string \<Rightarrow> int \<Rightarrow> ('f, 'w) shop \<Rightarrow> (go_error + 'f order_event devent list) outcome"
  wb_tname :: "'f app_result retval \<Rightarrow> string"
  wb_fixed2 :: "'f \<Rightarrow> string"
  wb_rfc :: "time \<Rightarrow> string"
  wb_fzero :: 'f

fun is_orders :: "'f app_result retval \<Rightarrow> 'f GetOrderResult list option option" where
  "is_orders (RVal (ListOrdersResult l)) = Some (Some l)"
| "is_orders _ = None"

fun is_products :: "'f app_result retval \<Rightarrow> 'f InventoryItem list option option" where
  "is_products (RVal (GetInventoryResult l)) = Some (Some l)"
| "is_products _ = None"

fun is_order :: "'f app_result retval \<Rightarrow> 'f GetOrderResult option option" where
  "is_order (RVal (GetOrderResult r)) = Some r"
| "is_order _ = None"

fun is_placed :: "'f app_result retval \<Rightarrow> 'f PlaceOrderResult option option" where
  "is_placed (RVal (PlaceOrderResult r)) = Some r"
| "is_placed _ = None"

fun is_confirmed :: "'f app_result retval \<Rightarrow> bool option option" where
  "is_confirmed (RVal (ConfirmPaymentResult r)) = Some r"
| "is_confirmed _ = None"

fun is_shipped :: "'f app_result retval \<Rightarrow> bool option option" where
  "is_shipped (RVal (ShipOrderResult r)) = Some r"
| "is_shipped _ = None"

fun is_cancelled :: "'f app_result retval \<Rightarrow> bool option option" where
  "is_cancelled (RVal (CancelOrderResult r)) = Some r"
| "is_cancelled _ = None"

text \<open>A typed query whose error is answered with a status; reading a field of a nil result panics.\<close>

definition ask ::
    "('f, 'w) web \<Rightarrow> ('f app_result retval \<Rightarrow> 'r option option) \<Rightarrow> go_ctx \<Rightarrow> 'f app_msg \<Rightarrow> int \<Rightarrow>
     ('r option \<Rightarrow> (('f, 'w) shop, 'f web_response) prog) \<Rightarrow> (('f, 'w) shop, 'f web_response) prog" where
  "ask web isR ctx q status k =
     prog_bind (qry_Dispatch (wb_QueryBus web) isR None (wb_tname web) ctx (app_any q))
       (\<lambda>(result, err) s. case err of
          Some e \<Rightarrow> (Ret (HttpError status (error_text e)), s)
        | None \<Rightarrow> k result s)"

definition field_of :: "'r option \<Rightarrow> ('r \<Rightarrow> (('f, 'w) shop, 'f web_response) prog) \<Rightarrow> (('f, 'w) shop, 'f web_response) prog" where
  "field_of result k s = (case result of None \<Rightarrow> (Panic ''nil pointer dereference'', s) | Some r \<Rightarrow> k r s)"

definition show_page :: "'f web_page \<Rightarrow> (('f, 'w) shop, 'f web_response) prog" where
  "show_page p s = (Ret (Page p), s)"

subsection \<open>Pages\<close>

text \<open>The loop over the orders: paid, shipped, cancelled.\<close>

definition count_orders :: "'f GetOrderResult list \<Rightarrow> int \<times> int \<times> int" where
  "count_orders orders = foldl (\<lambda>(paid, shipped, cancelled) o1.
     if gr_CancelledAt o1 \<noteq> [] then (paid, shipped, cancelled + 1)
     else (if gr_PaidAt o1 \<noteq> [] then paid + 1 else paid, if gr_ShippedAt o1 \<noteq> [] then shipped + 1 else shipped, cancelled))
     (0, 0, 0) orders"

definition web_Dashboard :: "('f, 'w) web \<Rightarrow> web_request \<Rightarrow> (('f, 'w) shop, 'f web_response) prog" where
  "web_Dashboard web r =
     ask web is_orders (wr_Context r) ListOrdersQuery 500 (\<lambda>ordersResult.
     ask web is_products (wr_Context r) GetInventoryQuery 500 (\<lambda>inventoryResult.
       field_of ordersResult (\<lambda>orders.
         case count_orders orders of (paid, shipped, cancelled) \<Rightarrow>
         field_of inventoryResult (\<lambda>products.
           show_page (DashboardPage (length orders) paid shipped cancelled products orders)))))"

definition web_ListOrders :: "('f, 'w) web \<Rightarrow> web_request \<Rightarrow> (('f, 'w) shop, 'f web_response) prog" where
  "web_ListOrders web r =
     ask web is_orders (wr_Context r) ListOrdersQuery 500 (\<lambda>result. field_of result (\<lambda>orders. show_page (OrdersPage orders)))"

definition web_NewOrderForm :: "('f, 'w) web \<Rightarrow> web_request \<Rightarrow> (('f, 'w) shop, 'f web_response) prog" where
  "web_NewOrderForm web r =
     ask web is_products (wr_Context r) GetInventoryQuery 500 (\<lambda>result. field_of result (\<lambda>products. show_page (NewOrderPage products)))"

text \<open>The items of the form: every product with a positive quantity.\<close>

definition form_items :: "web_request \<Rightarrow> 'f Product list \<Rightarrow> 'f ItemInput list" where
  "form_items r products = concat (map (\<lambda>p.
     case Atoi (wr_FormValue r (''qty_'' @ pr_ID p)) of
       (qty, None) \<Rightarrow>
         (if 0 < qty then [\<lparr>ii_ProductID = pr_ID p, ii_ProductName = pr_Name p, ii_Price = pr_Price p, ii_Quantity = qty\<rparr>] else [])
     | (qty, Some e) \<Rightarrow> []) products)"

definition web_PlaceOrder :: "('f, 'w) web \<Rightarrow> web_request \<Rightarrow> (('f, 'w) shop, 'f web_response) prog" where
  "web_PlaceOrder web r s =
     (case wr_ParseForm r of
        Some err \<Rightarrow> (Ret (HttpError 400 (error_text err)), s)
      | None \<Rightarrow>
          (let userID = wr_FormValue r ''user_id''; items = form_items r (GetAll (fst s)) in
           if length items = 0 then (Ret (HttpError 400 ''at least one item required''), s)
           else prog_bind (cmd_Dispatch (wb_CmdBus web) is_placed None (wb_tname web) (wr_Context r) (app_any (PlaceOrderCommand userID items)))
             (\<lambda>(result, err) s. case err of
                Some e \<Rightarrow> (Ret (HttpError 500 (error_text e)), s)
              | None \<Rightarrow> field_of result (\<lambda>placed s. (Ret (Redirect 303 (''/orders/'' @ po_OrderID placed)), s)) s) s))"

definition web_OrderDetail :: "('f, 'w) web \<Rightarrow> web_request \<Rightarrow> (('f, 'w) shop, 'f web_response) prog" where
  "web_OrderDetail web r =
     ask web is_order (wr_Context r) (GetOrderQuery (wr_PathID r)) 404 (\<lambda>result. show_page (OrderDetailPage result))"

text \<open>The answer to a command on the order of the path.\<close>

definition change_page ::
    "('f, 'w) web \<Rightarrow> ('f app_result retval \<Rightarrow> bool option option) \<Rightarrow> web_request \<Rightarrow> 'f app_msg \<Rightarrow> (('f, 'w) shop, 'f web_response) prog" where
  "change_page web isR r cmd =
     prog_bind (cmd_Dispatch (wb_CmdBus web) isR None (wb_tname web) (wr_Context r) (app_any cmd))
       (\<lambda>(ignored, err) s. case err of
          Some e \<Rightarrow> (Ret (HttpError 400 (error_text e)), s)
        | None \<Rightarrow> (Ret (Redirect 303 (''/orders/'' @ wr_PathID r)), s))"

definition web_ConfirmPayment :: "('f, 'w) web \<Rightarrow> web_request \<Rightarrow> (('f, 'w) shop, 'f web_response) prog" where
  "web_ConfirmPayment web r = change_page web is_confirmed r (ConfirmPaymentCommand (wr_PathID r))"

definition web_ShipOrder :: "('f, 'w) web \<Rightarrow> web_request \<Rightarrow> (('f, 'w) shop, 'f web_response) prog" where
  "web_ShipOrder web r = change_page web is_shipped r (ShipOrderCommand (wr_PathID r))"

definition web_CancelOrder :: "('f, 'w) web \<Rightarrow> web_request \<Rightarrow> (('f, 'w) shop, 'f web_response) prog" where
  "web_CancelOrder web r = change_page web is_cancelled r (CancelOrderCommand (wr_PathID r) (wr_FormValue r ''reason''))"

definition web_DeleteOrder :: "web_request \<Rightarrow> (('f, 'w) shop, 'f web_response) prog" where
  "web_DeleteOrder r s =
     (case on_orders (or_Delete (wr_PathID r)) s of
        (Some err, s1) \<Rightarrow> (Ret (HttpError 404 (error_text err)), s1)
      | (None, s1) \<Rightarrow> (Ret (Redirect 303 ''/orders''), s1))"

definition event_view_of :: "('f, 'w) web \<Rightarrow> 'f order_event devent \<Rightarrow> 'f event_view outcome" where
  "event_view_of web e = out_bind (EventNameOf (ev_value e)) (\<lambda>name.
     let meta = MetadataOf e;
         view = \<lparr>vw_EventType = name, vw_OrderID = be_AggregateID meta, vw_UserID = [], vw_Amount = wb_fzero web,
                 vw_Details = [], vw_OccurredAt = wb_rfc web (be_OccurredAt meta)\<rparr>
     in Ret (case ev_value e of
          GAny (TPtr t) (OrderPlacedEvent userID amount items) \<Rightarrow>
            view\<lparr>vw_UserID := userID, vw_Amount := amount, vw_Details := ''UserID: '' @ userID @ '', Amount: '' @ wb_fixed2 web amount\<rparr>
        | GAny (TPtr t) PaymentConfirmedEvent \<Rightarrow> view\<lparr>vw_Details := ''Payment confirmed''\<rparr>
        | GAny (TPtr t) OrderShippedEvent \<Rightarrow> view\<lparr>vw_Details := ''Order shipped''\<rparr>
        | GAny (TPtr t) (OrderCancelledEvent reason) \<Rightarrow> view\<lparr>vw_Details := ''Cancelled: '' @ reason\<rparr>
        | _ \<Rightarrow> view))"

fun event_views :: "('f, 'w) web \<Rightarrow> 'f order_event devent list \<Rightarrow> 'f event_view list outcome" where
  "event_views web [] = Ret []"
| "event_views web (e # es) = out_bind (event_view_of web e) (\<lambda>v. out_bind (event_views web es) (\<lambda>vs. Ret (v # vs)))"

definition web_OrderEvents :: "('f, 'w) web \<Rightarrow> web_request \<Rightarrow> (('f, 'w) shop, 'f web_response) prog" where
  "web_OrderEvents web r s =
     (case wb_EventStore_Load web (wr_Context r) (wr_PathID r) 0 s of
        Panic m \<Rightarrow> (Panic m, s)
      | Ret (Inl err) \<Rightarrow> (Ret (HttpError 500 (error_text err)), s)
      | Ret (Inr events) \<Rightarrow>
          (if length events = 0 then (Ret (HttpError 404 ''order not found''), s)
           else (case event_views web events of
                   Panic m \<Rightarrow> (Panic m, s)
                 | Ret views \<Rightarrow>
                     ask web is_order (wr_Context r) (GetOrderQuery (wr_PathID r)) 500
                       (\<lambda>order. show_page (OrderEventsPage (wr_PathID r) views order)) s)))"

definition web_Inventory :: "('f, 'w) web \<Rightarrow> web_request \<Rightarrow> (('f, 'w) shop, 'f web_response) prog" where
  "web_Inventory web r =
     ask web is_products (wr_Context r) GetInventoryQuery 500 (\<lambda>result. field_of result (\<lambda>products. show_page (InventoryPage products)))"

definition web_InventoryManage :: "('f, 'w) web \<Rightarrow> web_request \<Rightarrow> (('f, 'w) shop, 'f web_response) prog" where
  "web_InventoryManage web r s =
     (if wr_Method r = ''POST''
      then (let productID = wr_FormValue r ''product_id''; quantity = wr_FormValue r ''quantity'' in
        if productID = [] \<or> quantity = [] then (Ret (HttpError 400 ''product_id and quantity are required''), s)
        else (case Atoi quantity of (qty, err) \<Rightarrow>
          if err \<noteq> None \<or> qty \<le> 0 then (Ret (HttpError 400 ''quantity must be a positive integer''), s)
          else (case GetByID (wb_fzero web) (fst s) productID of (product, ok) \<Rightarrow>
            if \<not> ok \<or> pr_ID product = [] then (Ret (HttpError 404 ''product not found''), s)
            else (case AddStock productID qty (fst s) of
                (Some e, iv) \<Rightarrow> (Ret (HttpError 500 (''failed to add stock: '' @ error_text e)), (iv, snd s))
              | (None, iv) \<Rightarrow> (Ret (Redirect 302 ''/inventory/manage''), (iv, snd s))))))
      else ask web is_products (wr_Context r) GetInventoryQuery 500
             (\<lambda>result. field_of result (\<lambda>products. show_page (InventoryManagePage products))) s)"

subsection \<open>Jobs\<close>

type_synonym 'f job_manager = "('f app_msg, 'f app_result) manager"

definition web_ListJobs :: "'f job_manager \<Rightarrow> 'f web_response" where
  "web_ListJobs m = Page (JobsPage (concat (map (jm_ListByStatus m)
     [JobStatusPending, JobStatusRunning, JobStatusCompleted, JobStatusFailed, JobStatusCancelled])))"

text \<open>The options and the command of the form; a number of milliseconds is multiplied in 64 bits.\<close>

definition milliseconds :: "int \<Rightarrow> duration" where
  "milliseconds n = wrap64 (n * 1000000)"

definition positive :: "string \<Rightarrow> int option" where
  "positive text = (case Atoi text of (n, None) \<Rightarrow> if 0 < n then Some n else None | (n, Some e) \<Rightarrow> None)"

definition form_options :: "web_request \<Rightarrow> JobOption list" where
  "form_options r =
     (case positive (wr_FormValue r ''timeout'') of Some n \<Rightarrow> [WithTimeout (milliseconds n)] | None \<Rightarrow> []) @
     (case positive (wr_FormValue r ''retries'') of Some n \<Rightarrow> [WithMaxRetries n] | None \<Rightarrow> [])"

definition form_command :: "web_request \<Rightarrow> 'f app_msg" where
  "form_command r =
     (let orderID = wr_FormValue r ''order_id'' in
      case positive (wr_FormValue r ''duration'') of
        Some n \<Rightarrow> ProcessBatchCommand orderID (milliseconds n)
      | None \<Rightarrow> GenerateReportCommand orderID)"

text \<open>
  The error of \<open>Submit\<close> is assigned to the variable of the \<open>if\<close> around it; the variable that is looked at
  afterwards is still nil.
\<close>

definition web_SubmitJob :: "nat list \<Rightarrow> time \<Rightarrow> web_request \<Rightarrow> 'f job_manager \<Rightarrow> 'f web_response \<times> 'f job_manager" where
  "web_SubmitJob uuid now r m =
     (case wr_ParseForm r of
        Some err \<Rightarrow> (HttpError 400 (error_text err), m)
      | None \<Rightarrow> (Redirect 303 ''/jobs'', snd (jm_Submit uuid now (app_any (form_command r)) (form_options r) m)))"

definition web_CancelJob :: "time \<Rightarrow> web_request \<Rightarrow> 'f job_manager \<Rightarrow> 'f web_response \<times> 'f job_manager" where
  "web_CancelJob now r m =
     (case jm_Cancel now (wr_PathID r) m of
        (Some err, m1) \<Rightarrow> (HttpError 400 (error_text err), m1)
      | (None, m1) \<Rightarrow> (Redirect 303 ''/jobs'', m1))"

definition web_RetryJob :: "web_request \<Rightarrow> 'f job_manager \<Rightarrow> 'f web_response \<times> 'f job_manager" where
  "web_RetryJob r m =
     (case jm_Retry (wr_PathID r) m of
        (Some err, m1) \<Rightarrow> (HttpError 400 (error_text err), m1)
      | (None, m1) \<Rightarrow> (Redirect 303 ''/jobs'', m1))"

definition web_ListTraces :: "'f web_response" where
  "web_ListTraces = Redirect 302 ''/api/ddd/ddd_traces''"

text \<open>The routes of the application's own pages, by the names of their handlers; an empty method is any.\<close>

definition web_routes :: "(string \<times> string \<times> string) list" where
  "web_routes =
     [([], ''/'', ''Dashboard''), (''GET'', ''/orders'', ''ListOrders''), (''GET'', ''/orders/new'', ''NewOrderForm''),
      (''POST'', ''/orders'', ''PlaceOrder''), (''GET'', ''/orders/{id}'', ''OrderDetail''),
      (''POST'', ''/orders/{id}/confirm'', ''ConfirmPayment''), (''POST'', ''/orders/{id}/ship'', ''ShipOrder''),
      (''POST'', ''/orders/{id}/cancel'', ''CancelOrder''), (''POST'', ''/orders/{id}/delete'', ''DeleteOrder''),
      (''GET'', ''/orders/{id}/events'', ''OrderEvents''), (''GET'', ''/inventory'', ''Inventory''),
      (''GET'', ''/jobs'', ''ListJobs''), (''POST'', ''/jobs'', ''SubmitJob''), (''POST'', ''/jobs/{id}/cancel'', ''CancelJob''),
      (''POST'', ''/jobs/{id}/retry'', ''RetryJob''), (''GET'', ''/traces'', ''ListTraces''), (''POST'', ''/test/query'', ''TestQuery''),
      (''POST'', ''/test/command'', ''TestCommand''), (''POST'', ''/test/event'', ''TestEvent''), (''POST'', ''/test/qce'', ''TestQCE'')]"

lemma unrouted_pages: "\<not> list_ex (\<lambda>(m, path, h). h \<in> {''InventoryManage'', ''TestJob'', ''AdminReset'', ''TestSeedJob''}) web_routes"
  by (simp add: web_routes_def)

subsection \<open>Jobs that no handler runs\<close>

lemma NewJob_keeps:
  "jb_id (NewJob now i cmd opts :: ('d, 'v) job) = i" "jb_command (NewJob now i cmd opts :: ('d, 'v) job) = cmd"
  "jb_retryCount (NewJob now i cmd opts :: ('d, 'v) job) = 0"
proof -
  have "jb_id (foldl apply_job_option j opts) = jb_id j \<and> jb_command (foldl apply_job_option j opts) = jb_command j \<and>
      jb_retryCount (foldl apply_job_option j opts) = jb_retryCount j" for j :: "('d, 'v) job"
  proof (induction opts arbitrary: j)
    case (Cons opt opts)
    then show ?case by (cases opt) simp_all
  qed simp
  then show "jb_id (NewJob now i cmd opts :: ('d, 'v) job) = i" "jb_command (NewJob now i cmd opts :: ('d, 'v) job) = cmd"
    "jb_retryCount (NewJob now i cmd opts :: ('d, 'v) job) = 0"
    by (simp_all add: NewJob_def)
qed

lemma submitted_job:
  assumes "web_SubmitJob uuid now r m = (Redirect code where, m1)" and "gm_get (jm_store m) (hex_EncodeToString uuid) = None"
  shows "gm_get (jm_jobs m1) (hex_EncodeToString uuid) =
      Some (NewJob now (hex_EncodeToString uuid) (app_any (form_command r)) (form_options r))"
    and "gm_get (jm_store m1) (hex_EncodeToString uuid) \<noteq> None"
  using assms
  by (auto simp: web_SubmitJob_def jm_Submit_def js_Create_def NewJob_keeps Let_def split: option.splits prod.splits sum.splits if_splits)

text \<open>A submission that fails is answered like one that succeeds, and submits nothing.\<close>

lemma failed_submission_redirects:
  assumes "wr_ParseForm r = None" and "gm_get (jm_store m) (hex_EncodeToString uuid) \<noteq> None"
  shows "web_SubmitJob uuid now r m = (Redirect 303 ''/jobs'', m) \<and>
    (\<exists>e. fst (jm_Submit uuid now (app_any (form_command r)) (form_options r) m) = Inl e)"
  using assms by (auto simp: web_SubmitJob_def jm_Submit_def js_Create_def NewJob_keeps Let_def)

text \<open>
  C24.  A job submitted with a duration is a \<open>ProcessBatchCommand\<close>, for which the example application has
  no handler: left alone, every one of its executions is refused by the command bus, and after one more than
  its retries the job has failed for that reason.
\<close>

theorem batch_job_never_runs:
  fixes a :: "(('f, 'w) shop, 'h, 'e, 'r, 'f app_msg, 'f app_result) AppContext"
  assumes "WireAppWithStore wi env publish tname busExecute store = Ret (Inr a)"
    and "web_SubmitJob uuid now r m = (Redirect code where, m1)" and "gm_get (jm_store m) (hex_EncodeToString uuid) = None"
    and "positive (wr_FormValue r ''duration'') = Some d"
    and "gm_get (jm_jobs m1) (hex_EncodeToString uuid) = Some j"
    and "\<And>k. \<exists>ctx s. fst (CommandBus_Execute clk (bs_cmd (ac_Buses a)) ctx (jb_command j) s) = Ret (run k)"
    and "execute_loop run (\<lambda>k. False) later 0 j (jm_store m1) = (j', s', n)"
  shows "n = nat (jb_maxRetries j) + 1 \<and> jb_status j' = JobStatusFailed \<and> jb_done j' = DoneClosed \<and>
    jb_err j' = ''no handler registered for type: '' @ type_text (Some (order_in ''command'' ''ProcessBatchCommand''))"
proof -
  have j: "j = NewJob now (hex_EncodeToString uuid) (app_any (form_command r)) (form_options r)"
    using assms(5) submitted_job(1) [OF assms(2,3)] by simp
  obtain i where cmd: "jb_command j = app_any (ProcessBatchCommand i (milliseconds d))"
    using assms(4) by (simp add: j NewJob_keeps form_command_def Let_def)
  have refused: "run k = (RNil, Some (no_handler (jb_command j)))" for k
  proof -
    obtain ctx s where "fst (CommandBus_Execute clk (bs_cmd (ac_Buses a)) ctx (jb_command j) s) = Ret (run k)" using assms(6) by blast
    then show ?thesis unfolding cmd wired_execute [OF assms(1)] by simp
  qed
  then have "first_ok run 0 b = None" for b by (simp add: first_ok_def find_None_iff)
  moreover have "loop_outcome run 0 (nat (jb_maxRetries j - jb_retryCount j)) j j' n \<and> jb_done j' = DoneClosed"
    using execute_loop_outcome [OF _ _ refl assms(7)] submitted_job(2) [OF assms(2,3)] by (simp add: j NewJob_keeps)
  moreover have "jb_retryCount j = 0" by (simp add: j NewJob_keeps)
  ultimately show ?thesis
    by (simp add: loop_outcome_def refused no_handler_def fmt_s_type_def type_text_def cmd app_any_def)
qed

text \<open>A timeout of more milliseconds than 64 bits of nanoseconds hold is no timeout.\<close>

lemma positive_show: "0 < n \<Longrightarrow> n < 2 ^ 63 \<Longrightarrow> positive (show_int n) = Some n"
  by (simp add: positive_def Atoi_def ParseInt_show_int)

lemma huge_timeout_vanishes:
  assumes "wr_FormValue r ''timeout'' = show_int n" and "2 ^ 63 \<le> n * 1000000" and "n * 1000000 < 2 ^ 64"
  shows "exec_ctx bg now (NewJob t i cmd (form_options r)) = bg"
proof -
  have "positive (wr_FormValue r ''timeout'') = Some n"
    unfolding assms(1) using assms(2,3) by (intro positive_show) simp_all
  moreover have "milliseconds n < 0"
  proof -
    have "(n * 1000000 + 2 ^ 63) mod 2 ^ 64 = ((n * 1000000 - 2 ^ 63) + 2 ^ 64) mod (2 ^ 64 :: int)" by (simp add: add.commute)
    also have "\<dots> = n * 1000000 - 2 ^ 63"
      unfolding mod_add_self2 using assms(2,3) by (intro mod_pos_pos_trivial) simp_all
    finally show ?thesis using assms(3) by (simp add: milliseconds_def wrap64_def)
  qed
  moreover have "jb_timeout (apply_job_option j (WithMaxRetries k)) = jb_timeout j" for j :: "('a, 'b) job" and k by simp
  ultimately show ?thesis
    by (simp add: exec_ctx_def form_options_def NewJob_def split: option.split)
qed

subsection \<open>The numbers of the dashboard\<close>

lemma count_orders_filter:
  "count_orders orders =
     (int (length (filter (\<lambda>v. gr_CancelledAt v = [] \<and> gr_PaidAt v \<noteq> []) orders)),
      int (length (filter (\<lambda>v. gr_CancelledAt v = [] \<and> gr_ShippedAt v \<noteq> []) orders)),
      int (length (filter (\<lambda>v. gr_CancelledAt v \<noteq> []) orders)))"
  by (induction orders rule: rev_induct) (simp_all add: count_orders_def split: prod.split)

text \<open>The times of an order agree with its status.\<close>

definition dated :: "'f Order \<Rightarrow> bool" where
  "dated o1 \<longleftrightarrow> (let s = ag_state o1; st = os_Status s in
     (os_CancelledAt s \<noteq> 0 \<longleftrightarrow> st = OrderStatusCancelled) \<and>
     (st \<noteq> OrderStatusCancelled \<longrightarrow> (os_PaidAt s \<noteq> 0 \<longleftrightarrow> st = OrderStatusPaid \<or> st = OrderStatusShipped) \<and>
        (os_ShippedAt s \<noteq> 0 \<longleftrightarrow> st = OrderStatusShipped)))"

fun clocked :: "'f order_command \<Rightarrow> bool" where
  "clocked (CPlace uid now now2 ctx u is) \<longleftrightarrow> now2 \<noteq> 0"
| "clocked (CConfirm now ctx i) \<longleftrightarrow> now \<noteq> 0"
| "clocked (CShip now ctx i) \<longleftrightarrow> now \<noteq> 0"
| "clocked (CCancel now ctx i r) \<longleftrightarrow> now \<noteq> 0"

lemma dated_change:
  "now \<noteq> 0 \<Longrightarrow> dated o1 \<Longrightarrow> dated (snd (ConfirmPayment now ctx o1))"
  "now \<noteq> 0 \<Longrightarrow> dated o1 \<Longrightarrow> dated (snd (Ship now ctx o1))"
  "now \<noteq> 0 \<Longrightarrow> dated o1 \<Longrightarrow> dated (snd (Order_Cancel now ctx r o1))"
  by (auto simp: dated_def ConfirmPayment_def Ship_def Order_Cancel_def ApplyChange_def Let_def order_statuses)

lemma dated_new: "NewOrder fl now now2 ctx i u items = Inr o1 \<Longrightarrow> dated o1"
  by (drule NewOrder_Inr) (auto simp: dated_def empty_order_state_def order_statuses Let_def)

lemma on_heap_dated:
  assumes "list_all dated (ow_heap w)" and "\<And>o1. dated o1 \<Longrightarrow> dated (snd (f o1))"
  shows "list_all dated (ow_heap (snd (on_heap p f w)))"
proof -
  have heap: "ow_heap (snd (on_heap p f w)) = (ow_heap w)[p := snd (f (ow_heap w ! p))]"
    by (simp add: on_heap_def split: prod.split)
  show ?thesis
  proof (cases "p < length (ow_heap w)")
    case True
    then have "dated (snd (f (ow_heap w ! p)))" using assms by (simp add: list_all_length)
    then show ?thesis using assms(1) True by (simp add: heap list_all_length nth_list_update)
  qed (use assms(1) in \<open>simp add: heap list_update_beyond\<close>)
qed

lemma or_Save_heap [simp]: "ow_heap (snd (or_Save p w)) = ow_heap w"
  by (simp add: or_Save_def)

lemma change_dated:
  assumes "list_all dated (ow_heap w)" and "\<And>o1. dated o1 \<Longrightarrow> dated (snd (f o1))"
  shows "list_all dated (ow_heap (snd (case on_heap p f w of
             (Some err, w1) \<Rightarrow> (Inl err, w1)
           | (None, w1) \<Rightarrow> (case or_Save p w1 of (Some err, w2) \<Rightarrow> (Inl err, w2) | (None, w2) \<Rightarrow> (Inr True, w2)))))"
proof -
  obtain e w1 where w1: "on_heap p f w = (e, w1)" by (cases "on_heap p f w")
  then have "list_all dated (ow_heap w1)" using on_heap_dated [where p = p and f = f, OF assms(1) assms(2)] by simp
  then show ?thesis by (cases e) (simp_all add: w1 or_Save_def)
qed

lemma order_handle_dated:
  assumes "list_all dated (ow_heap w)" and "clocked c"
  shows "list_all dated (ow_heap (order_handle fl w c))"
proof (cases c)
  case (CPlace uid now now2 ctx u inputs)
  have "list_all dated (ow_heap (snd (PlaceOrder_Handle fl uid now now2 ctx u inputs w)))"
    using assms(1) by (auto simp: PlaceOrder_Handle_def or_Save_def Let_def dest: dated_new split: outcome.split sum.split)
  then show ?thesis by (simp add: CPlace)
qed (use assms in \<open>simp_all add: ConfirmPayment_Handle_def ShipOrder_Handle_def CancelOrder_Handle_def change_dated dated_change split: sum.split\<close>)

lemma on_heap_orders [simp]: "ow_orders (snd (on_heap p f w)) = ow_orders w"
  by (simp add: on_heap_def split: prod.split)

lemma change_gm_ok:
  assumes "gm_ok (ow_orders w)"
  shows "gm_ok (ow_orders (snd (case on_heap p f w of
             (Some err, w1) \<Rightarrow> (Inl err, w1)
           | (None, w1) \<Rightarrow> (case or_Save p w1 of (Some err, w2) \<Rightarrow> (Inl err, w2) | (None, w2) \<Rightarrow> (Inr True, w2)))))"
proof -
  obtain e w1 where w1: "on_heap p f w = (e, w1)" by (cases "on_heap p f w")
  then have "gm_ok (ow_orders w1)" using on_heap_orders [of p f w] assms by simp
  then show ?thesis by (cases e) (simp_all add: w1 or_Save_def)
qed

lemma order_handle_gm_ok:
  assumes "gm_ok (ow_orders w)"
  shows "gm_ok (ow_orders (order_handle fl w c))"
proof (cases c)
  case (CPlace uid now now2 ctx u inputs)
  have "gm_ok (ow_orders (snd (PlaceOrder_Handle fl uid now now2 ctx u inputs w)))"
    using assms by (auto simp: PlaceOrder_Handle_def or_Save_def Let_def split: outcome.split sum.split)
  then show ?thesis by (simp add: CPlace)
qed (use assms in \<open>simp_all add: ConfirmPayment_Handle_def ShipOrder_Handle_def CancelOrder_Handle_def change_gm_ok split: sum.split\<close>)

text \<open>Every order a query can show has one of the four statuses, and the dates that go with it.\<close>

lemma listed_orders_dated:
  assumes "list_all clocked cs" and "p \<in> set (or_FindAll (foldl (order_handle fl) order_world_empty cs))"
  defines "o1 \<equiv> ow_heap (foldl (order_handle fl) order_world_empty cs) ! p"
  shows "dated o1 \<and> os_Status (ag_state o1) \<in> {OrderStatusPending, OrderStatusPaid, OrderStatusShipped, OrderStatusCancelled}"
proof -
  define w where "w = foldl (order_handle fl) order_world_empty cs"
  have dates: "list_all dated (ow_heap w)"
    using assms(1) unfolding w_def by (induction cs rule: rev_induct) (simp_all add: order_world_empty_def order_handle_dated)
  have wf: "orders_wf w"
    unfolding w_def by (rule order_commands_wf) (simp add: orders_wf_def order_world_empty_def NewOrderRepository_def)
  have "gm_ok (ow_orders w)"
    unfolding w_def by (induction cs rule: rev_induct) (simp_all add: order_world_empty_def NewOrderRepository_def order_handle_gm_ok)
  moreover obtain i where "(i, p) \<in> set (ow_orders w)"
    using assms(2) by (auto simp: or_FindAll_def w_def)
  ultimately have "gm_get (ow_orders w) i = Some p" by (simp add: gm_get_iff)
  then have "p < length (ow_heap w)" "\<exists>s0. order_ok i s0 (ow_heap w ! p)"
    using wf by (simp_all add: orders_wf_def)
  then show ?thesis
    using dates unfolding o1_def w_def [symmetric] by (auto simp: order_ok_def order_histories_def list_all_length)
qed

lemma statuses_partition:
  assumes "\<forall>x\<in>set xs. f x \<in> {OrderStatusPending, OrderStatusPaid, OrderStatusShipped, OrderStatusCancelled}"
  shows "length xs = length (filter (\<lambda>x. f x \<in> {OrderStatusPending}) xs) +
      length (filter (\<lambda>x. f x \<in> {OrderStatusPaid, OrderStatusShipped}) xs) + length (filter (\<lambda>x. f x \<in> {OrderStatusCancelled}) xs)"
  using assms by (induction xs) (auto simp: order_statuses)

text \<open>
  C34.  The dashboard over the order service: after any commands, the number of cancelled orders is
  that of the orders with the status cancelled, the number of shipped ones that of the shipped, and the
  number of paid ones counts the paid and the shipped orders.
\<close>

theorem dashboard_counts:
  assumes "w = foldl (order_handle fl) order_world_empty cs" and "list_all clocked cs" and "\<And>t. rfc t \<noteq> []"
    and "vs = ListOrders_Handle fl rfc w"
  defines "with \<equiv> \<lambda>sts. int (length (filter (\<lambda>v. gr_Status v \<in> sts) vs))"
  shows "count_orders vs = (with {OrderStatusPaid, OrderStatusShipped}, with {OrderStatusShipped}, with {OrderStatusCancelled}) \<and>
    with UNIV = with {OrderStatusPending} + with {OrderStatusPaid, OrderStatusShipped} + with {OrderStatusCancelled}"
proof -
  have views: "gr_Status v \<in> {OrderStatusPending, OrderStatusPaid, OrderStatusShipped, OrderStatusCancelled} \<and>
      (gr_CancelledAt v = [] \<and> gr_PaidAt v \<noteq> [] \<longleftrightarrow> gr_Status v \<in> {OrderStatusPaid, OrderStatusShipped}) \<and>
      (gr_CancelledAt v = [] \<and> gr_ShippedAt v \<noteq> [] \<longleftrightarrow> gr_Status v \<in> {OrderStatusShipped}) \<and>
      (gr_CancelledAt v \<noteq> [] \<longleftrightarrow> gr_Status v \<in> {OrderStatusCancelled})" if v: "v \<in> set vs" for v
  proof -
    obtain p where "p \<in> set (or_FindAll w)" and vp: "v = toOrderView fl rfc (ow_heap w ! p)"
      using v unfolding assms(4) ListOrders_Handle_def by auto
    from listed_orders_dated [OF assms(2) this(1) [unfolded assms(1)], folded assms(1)] show ?thesis
      using assms(3) unfolding vp toOrderView_def dated_def Let_def by (auto simp: order_statuses)
  qed
  have "count_orders vs = (with {OrderStatusPaid, OrderStatusShipped}, with {OrderStatusShipped}, with {OrderStatusCancelled})"
    unfolding count_orders_filter with_def using views by (auto cong: filter_cong)
  then show ?thesis
    using statuses_partition [of vs gr_Status] views by (simp add: with_def)
qed

subsection \<open>A batch job and a dashboard\<close>

definition batch_request :: web_request where
  "batch_request = \<lparr>wr_Method = ''POST'', wr_Context = ctx_Background, wr_PathID = [], wr_ParseForm = None,
     wr_FormValue = (\<lambda>k. if k = ''order_id'' then ''o1'' else if k = ''timeout'' then [] else ''2'')\<rparr>"

definition no_jobs :: "unit job_manager" where
  "no_jobs = \<lparr>jm_store = [], jm_jobs = [], jm_cancelers = [], jm_cancelled = [], jm_spawned = [], jm_closed = False\<rparr>"

lemma positive_two: "positive ''2'' = Some 2" "positive [] = None"
proof -
  have "show_int 2 = ''2''" by code_simp
  then show "positive ''2'' = Some 2" using positive_show [of 2] by simp
  show "positive [] = None" by (simp add: positive_def Atoi_def ParseInt_def Let_def)
qed

theorem batch_job_never_runs_witness:
  "\<exists>m1 (j :: (unit app_msg, unit app_result) job) run j' s' n.
     web_SubmitJob [10] 0 batch_request no_jobs = (Redirect 303 ''/jobs'', m1) \<and>
     gm_get (jm_jobs m1) (hex_EncodeToString [10]) = Some j \<and>
     execute_loop run (\<lambda>k. False) 5 0 j (jm_store m1) = (j', s', n) \<and> n = 3 \<and> jb_status j' = JobStatusFailed"
proof -
  let ?publish = "(\<lambda>ctx b e s. (Ret None, s)) :: (unit, unit order_world \<times> nat) publisher" and ?clk = "(\<lambda>s. (0, s)) :: sample_shop \<Rightarrow> time \<times> sample_shop"
  obtain a where a: "WireAppWithStore sample_wiring sample_env ?publish (\<lambda>r. []) (\<lambda>ctx m s. (Ret (RNil, None), s)) sample_components = Ret (Inr a)"
    using wired_app by blast
  let ?j = "NewJob 0 (hex_EncodeToString [10]) (app_any (form_command batch_request)) (form_options batch_request) :: (unit app_msg, unit app_result) job"
  obtain m1 where sub: "web_SubmitJob [10] 0 batch_request no_jobs = (Redirect 303 ''/jobs'', m1)"
    by (simp add: web_SubmitJob_def batch_request_def)
  have fresh: "gm_get (jm_store no_jobs) (hex_EncodeToString [10]) = None" by (simp add: no_jobs_def)
  have j: "gm_get (jm_jobs m1) (hex_EncodeToString [10]) = Some ?j" by (rule submitted_job(1) [OF sub fresh])
  have cmd: "jb_command ?j = app_any (ProcessBatchCommand ''o1'' (milliseconds 2))"
    by (simp add: NewJob_keeps form_command_def batch_request_def positive_two)
  let ?run = "\<lambda>k :: nat. (RNil :: unit app_result retval, Some (no_handler (jb_command ?j)))"
  have runs: "\<exists>ctx s. fst (CommandBus_Execute ?clk (bs_cmd (ac_Buses a)) ctx (jb_command ?j) s) = Ret (?run k)" for k
    unfolding cmd wired_execute [OF a] by simp
  obtain j' s' n where ex: "execute_loop ?run (\<lambda>k. False) 5 0 ?j (jm_store m1) = (j', s', n)"
    by (cases "execute_loop ?run (\<lambda>k. False) 5 0 ?j (jm_store m1)")
  have "jb_maxRetries ?j = 2"
    by (simp add: NewJob_def form_options_def batch_request_def positive_two)
  moreover have "positive (wr_FormValue batch_request ''duration'') = Some 2" by (simp add: batch_request_def positive_two)
  ultimately have "n = 3 \<and> jb_status j' = JobStatusFailed"
    using batch_job_never_runs [OF a sub fresh _ j runs ex] by simp
  with sub j ex show ?thesis by blast
qed

theorem dashboard_counts_witness:
  "let vs = ListOrders_Handle sample_fl (\<lambda>t. ''t'') (foldl (order_handle sample_fl) order_world_empty
       [CPlace [10] 5 6 ctx_Background ''ann'' [\<lparr>ii_ProductID = ''pen'', ii_ProductName = ''Pen'', ii_Price = 3, ii_Quantity = 2\<rparr>],
        CConfirm 7 ctx_Background ''0a''])
   in fst (count_orders vs) = int (length (filter (\<lambda>v. gr_Status v \<in> {OrderStatusPaid, OrderStatusShipped}) vs))"
  unfolding Let_def by (rule dashboard_counts [OF refl _ _ refl, THEN conjunct1, THEN arg_cong [where f = fst], simplified fst_conv]) simp_all

end
