(* ===== verification/PgMigrate.thy ===== *)
theory PgMigrate
  imports PgUtil
begin

text \<open>
  The migration, \<open>pg/migrate.go\<close>: the statements are sent one by one until one fails.  \<open>exec\<close> is the database's
  \<open>Exec\<close>; the texts of the statements that create the tables are an argument.
\<close>

definition migrate_tables :: "string list" where
  "migrate_tables =
     [''ddd_event_handler_log'', ''ddd_event_log'', ''ddd_query_log'', ''ddd_command_log'', ''ddd_aggregate_snapshots'',
      ''ddd_spans'', ''ddd_job_execution_log'', ''ddd_jobs'', ''ddd_domain_events'']"

fun Migrate :: "(string \<Rightarrow> 'db \<Rightarrow> go_error option \<times> 'db) \<Rightarrow> string list \<Rightarrow> 'db \<Rightarrow> go_error option \<times> 'db" where
  "Migrate exec [] db = (None, db)"
| "Migrate exec (stmt # statements) db =
     (case exec stmt db of
        (Some err, db1) \<Rightarrow> (Some err, db1)
      | (None, db1) \<Rightarrow> Migrate exec statements db1)"

definition DropAll :: "(string \<Rightarrow> 'db \<Rightarrow> go_error option \<times> 'db) \<Rightarrow> 'db \<Rightarrow> go_error option \<times> 'db" where
  "DropAll exec = Migrate exec (map (\<lambda>t. ''DROP TABLE IF EXISTS '' @ t @ '' CASCADE'') migrate_tables)"

definition TruncateAll :: "(string \<Rightarrow> 'db \<Rightarrow> go_error option \<times> 'db) \<Rightarrow> 'db \<Rightarrow> go_error option \<times> 'db" where
  "TruncateAll exec = Migrate exec (map (\<lambda>t. ''TRUNCATE TABLE '' @ t @ '' CASCADE'') migrate_tables)"

text \<open>What was sent is a beginning of the list, all of it exactly when nothing failed.\<close>

lemma migrate_sends_prefix:
  assumes "\<And>stmt db. log (snd (exec stmt db)) = log db @ [stmt]"
  shows "\<exists>k\<le>length statements. log (snd (Migrate exec statements db)) = log db @ take k statements \<and>
    (fst (Migrate exec statements db) = None \<longrightarrow> k = length statements)"
proof (induction statements arbitrary: db)
  case (Cons stmt statements)
  obtain e db1 where e: "exec stmt db = (e, db1)" by (cases "exec stmt db")
  then have l: "log db1 = log db @ [stmt]" using assms [of stmt db] by simp
  show ?case
  proof (cases e)
    case None
    obtain k where "k \<le> length statements" "log (snd (Migrate exec statements db1)) = log db1 @ take k statements"
        "fst (Migrate exec statements db1) = None \<longrightarrow> k = length statements"
      using Cons.IH [of db1] by (elim exE conjE)
    then show ?thesis using e l None by (intro exI [of _ "Suc k"]) simp
  next
    case (Some err)
    then show ?thesis using e l by (intro exI [of _ 1]) simp
  qed
qed simp

end
