(* ===== verification/ExampleTests.thy ===== *)
theory ExampleTests
  imports ExampleHttp PgJobs PgMigrate
begin

text \<open>
  The pages of the example application that try the framework out
  (\<open>exampleapp/interfaces/http/handlers.go\<close>): \<open>TestQuery\<close>, \<open>TestCommand\<close>, \<open>TestEvent\<close> and \<open>TestQCE\<close>, and the two
  of the end-to-end tests, \<open>AdminReset\<close> and \<open>TestSeedJob\<close>.

  A page of the first kind is a list of steps; a step runs a function and notes its duration and its error.  The
  variable \<open>orderID\<close> that the closures of a page share is passed from step to step.
\<close>

subsection \<open>Steps\<close>

record TestStep =
  ts_Type :: string
  ts_Name :: string
  ts_Duration :: string
  ts_Success :: bool
  ts_Error :: string
  ts_Detail :: string

record TestResult =
  tr_TestName :: string
  tr_Steps :: "TestStep list"
  tr_Total :: nat
  tr_Passed :: nat
  tr_Failed :: nat
  tr_Duration :: string

datatype 'f test_event = OrderTestEvent base_event "'f order_event" | StockTestEvent base_event inventory_event

text \<open>
  What the pages use: the buses, the bytes of a new UUID, the clock, the text of a duration, sleeping, the value of a literal
  such as \<open>999.99\<close>, and \<open>Publish\<close> of the event bus.
\<close>

record ('f, 'w) testing =
  tg_web :: "('f, 'w) web"
  tg_uuid :: "('f, 'w) shop \<Rightarrow> nat list \<times> ('f, 'w) shop"
  tg_now :: "('f, 'w) shop \<Rightarrow> time \<times> ('f, 'w) shop"
  tg_duration :: "duration \<Rightarrow> string"
  tg_sleep :: "duration \<Rightarrow> ('f, 'w) shop \<Rightarrow> ('f, 'w) shop"
  tg_literal :: "string \<Rightarrow> 'f"
  tg_Publish :: "go_ctx \<Rightarrow> 'f test_event \<Rightarrow> (('f, 'w) shop, go_error option) prog"

definition errStr :: "go_error option \<Rightarrow> string" where
  "errStr err = (case err of None \<Rightarrow> [] | Some e \<Rightarrow> error_text e)"

text \<open>The function of a step: the detail and the error, and the shared variable.\<close>

type_synonym ('f, 'w) test_body = "string \<Rightarrow> (('f, 'w) shop, (string \<times> go_error option) \<times> string) prog"

datatype ('f, 'w) action = Step string string "('f, 'w) test_body" | Sleep duration

definition test_step ::
    "('f, 'w) testing \<Rightarrow> string \<Rightarrow> string \<Rightarrow> ('f, 'w) test_body \<Rightarrow> TestStep list \<times> string \<Rightarrow> (('f, 'w) shop, TestStep list \<times> string) prog" where
  "test_step tg typ name body = (\<lambda>(steps, orderID) s.
     let (start, s1) = tg_now tg s in
     prog_bind (body orderID) (\<lambda>((detail, err), orderID1) s2.
       let (now, s3) = tg_now tg s2
       in (Ret (steps @ [\<lparr>ts_Type = typ, ts_Name = name, ts_Duration = tg_duration tg (now - start), ts_Success = (err = None),
                          ts_Error = errStr err, ts_Detail = detail\<rparr>], orderID1), s3)) s1)"

fun run_actions ::
    "('f, 'w) testing \<Rightarrow> ('f, 'w) action list \<Rightarrow> TestStep list \<times> string \<Rightarrow> (('f, 'w) shop, TestStep list \<times> string) prog" where
  "run_actions tg [] p s = (Ret p, s)"
| "run_actions tg (Step typ name body # as) p s = prog_bind (test_step tg typ name body p) (run_actions tg as) s"
| "run_actions tg (Sleep d # as) p s = run_actions tg as p (tg_sleep tg d s)"

definition renderTestResult :: "string \<Rightarrow> TestStep list \<Rightarrow> string \<Rightarrow> TestResult" where
  "renderTestResult title steps totalDuration =
     (let (passed, failed) = foldl (\<lambda>(passed, failed) st. if ts_Success st then (passed + 1, failed) else (passed, failed + 1)) (0, 0) steps
      in \<lparr>tr_TestName = title, tr_Steps = steps, tr_Total = length steps, tr_Passed = passed, tr_Failed = failed,
          tr_Duration = totalDuration\<rparr>)"

text \<open>A page: a trace of its own, the steps, and the result.\<close>

definition test_page ::
    "('f, 'w) testing \<Rightarrow> string \<Rightarrow> (go_ctx \<Rightarrow> string \<Rightarrow> ('f, 'w) action list) \<Rightarrow> web_request \<Rightarrow> (('f, 'w) shop, TestResult) prog" where
  "test_page tg title actions r s =
     (let (uid, s1) = tg_uuid tg s; traceID = NewTraceID uid; ctx = WithTrace (wr_Context r) traceID [];
          (start, s2) = tg_now tg s1
      in prog_bind (run_actions tg (actions ctx traceID) ([], [])) (\<lambda>(steps, orderID) s3.
           let (now, s4) = tg_now tg s3 in (Ret (renderTestResult title steps (tg_duration tg (now - start))), s4)) s2)"

subsection \<open>What the steps do\<close>

definition said :: "string \<Rightarrow> ('f, 'w) test_body" where
  "said detail orderID s = (Ret ((detail, None), orderID), s)"

text \<open>A typed command or query; its error, wrapped, is the step's; reading a nil result panics.\<close>

definition answered ::
    "(go_error \<Rightarrow> go_error) \<Rightarrow> (('f, 'w) shop, 'r option \<times> go_error option) prog \<Rightarrow> ('r \<Rightarrow> ('f, 'w) test_body) \<Rightarrow> ('f, 'w) test_body" where
  "answered wrap call k orderID =
     prog_bind call (\<lambda>(result, err) s.
       case err of Some e \<Rightarrow> (Ret (([], Some (wrap e)), orderID), s)
       | None \<Rightarrow> (case result of None \<Rightarrow> (Panic ''nil pointer dereference'', s) | Some x \<Rightarrow> k x orderID s))"

abbreviation command_of ::
    "('f, 'w) testing \<Rightarrow> ('f app_result retval \<Rightarrow> 'r option option) \<Rightarrow> go_ctx \<Rightarrow> 'f app_msg \<Rightarrow> (('f, 'w) shop, 'r option \<times> go_error option) prog" where
  "command_of tg isR ctx m \<equiv> cmd_Dispatch (wb_CmdBus (tg_web tg)) isR None (wb_tname (tg_web tg)) ctx (app_any m)"

abbreviation query_of ::
    "('f, 'w) testing \<Rightarrow> ('f app_result retval \<Rightarrow> 'r option option) \<Rightarrow> go_ctx \<Rightarrow> 'f app_msg \<Rightarrow> (('f, 'w) shop, 'r option \<times> go_error option) prog" where
  "query_of tg isR ctx m \<equiv> qry_Dispatch (wb_QueryBus (tg_web tg)) isR None (wb_tname (tg_web tg)) ctx (app_any m)"

fun is_report :: "'f app_result retval \<Rightarrow> report option option" where
  "is_report (RVal (GenerateReportResult r)) = Some r"
| "is_report _ = None"

definition bool_text :: "bool \<Rightarrow> string" where
  "bool_text b = (if b then ''true'' else ''false'')"

definition success_text :: "bool \<Rightarrow> ('f, 'w) test_body" where
  "success_text ok = said (''success='' @ bool_text ok)"

definition one_item :: "('f, 'w) testing \<Rightarrow> string \<Rightarrow> string \<Rightarrow> string \<Rightarrow> string \<Rightarrow> int \<Rightarrow> 'f app_msg" where
  "one_item tg user product name price quantity =
     PlaceOrderCommand user [\<lparr>ii_ProductID = product, ii_ProductName = name, ii_Price = tg_literal tg price, ii_Quantity = quantity\<rparr>]"

text \<open>Placing an order sets the shared variable; \<open>suffix\<close> is what the page adds to the detail.\<close>

definition placing :: "('f, 'w) testing \<Rightarrow> go_ctx \<Rightarrow> 'f app_msg \<Rightarrow> string \<Rightarrow> ('f, 'w) test_body" where
  "placing tg ctx m suffix = answered (\<lambda>e. e) (command_of tg is_placed ctx m) (\<lambda>r orderID s.
     (Ret ((''orderID='' @ po_OrderID r @ '' total='' @ wb_fixed2 (tg_web tg) (po_TotalAmount r) @ suffix, None), po_OrderID r), s))"

definition confirming :: "('f, 'w) testing \<Rightarrow> go_ctx \<Rightarrow> ('f, 'w) test_body" where
  "confirming tg ctx orderID = answered (\<lambda>e. e) (command_of tg is_confirmed ctx (ConfirmPaymentCommand orderID)) success_text orderID"

definition shipping :: "('f, 'w) testing \<Rightarrow> go_ctx \<Rightarrow> ('f, 'w) test_body" where
  "shipping tg ctx orderID = answered (\<lambda>e. e) (command_of tg is_shipped ctx (ShipOrderCommand orderID)) success_text orderID"

abbreviation setup_error :: "go_error \<Rightarrow> go_error" where
  "setup_error e \<equiv> ErrWrap ''setup: place order: '' e []"

subsection \<open>The pages\<close>

definition query_actions :: "('f, 'w) testing \<Rightarrow> go_ctx \<Rightarrow> string \<Rightarrow> ('f, 'w) action list" where
  "query_actions tg ctx traceID =
     [Step ''query'' ''ListOrdersQuery'' (answered (\<lambda>e. e) (query_of tg is_orders ctx ListOrdersQuery)
        (\<lambda>orders. said (''returned '' @ show_nat (length orders) @ '' orders''))),
      Step ''query'' ''GetOrderQuery (with orderID)''
        (answered setup_error (command_of tg is_placed ctx (one_item tg ''test-query-user'' ''laptop'' ''Laptop'' ''999.99'' 1)) (\<lambda>placed.
         answered (\<lambda>e. e) (query_of tg is_order ctx (GetOrderQuery (po_OrderID placed))) (\<lambda>r.
           said (''order '' @ gr_OrderID r @ '' status='' @ gr_Status r @ '' total='' @ wb_fixed2 (tg_web tg) (gr_TotalAmount r))))),
      Step ''query'' ''GetInventoryQuery'' (answered (\<lambda>e. e) (query_of tg is_products ctx GetInventoryQuery)
        (\<lambda>products. said (''returned '' @ show_nat (length products) @ '' products'')))]"

definition web_TestQuery :: "('f, 'w) testing \<Rightarrow> web_request \<Rightarrow> (('f, 'w) shop, TestResult) prog" where
  "web_TestQuery tg = test_page tg ''Test Query'' (query_actions tg)"

text \<open>A command on the stock of a product, for an order with a new identifier.\<close>

definition stocking ::
    "('f, 'w) testing \<Rightarrow> ('f app_result retval \<Rightarrow> bool option option) \<Rightarrow> (string \<Rightarrow> string \<Rightarrow> int \<Rightarrow> 'f app_msg) \<Rightarrow> go_ctx \<Rightarrow> ('f, 'w) test_body" where
  "stocking tg isR msg ctx orderID s =
     (let (uid, s1) = tg_uuid tg s
      in answered (\<lambda>e. e) (command_of tg isR ctx (msg (hex_EncodeToString uid) ''headphone'' 1)) success_text orderID s1)"

definition command_actions :: "('f, 'w) testing \<Rightarrow> go_ctx \<Rightarrow> string \<Rightarrow> ('f, 'w) action list" where
  "command_actions tg ctx traceID =
     [Step ''command'' ''PlaceOrderCommand'' (placing tg ctx (one_item tg ''test-cmd-user'' ''mouse'' ''Mouse'' ''29.99'' 2) []),
      Step ''command'' ''ConfirmPaymentCommand'' (confirming tg ctx),
      Step ''command'' ''ShipOrderCommand'' (shipping tg ctx),
      Step ''command'' ''CancelOrderCommand''
        (answered setup_error (command_of tg is_placed ctx (one_item tg ''test-cancel-user'' ''keyboard'' ''Keyboard'' ''79.99'' 1)) (\<lambda>placed.
         answered (\<lambda>e. e) (command_of tg is_cancelled ctx (CancelOrderCommand (po_OrderID placed) ''test cancel'')) success_text)),
      Step ''command'' ''GenerateReportCommand'' (\<lambda>orderID.
         answered (\<lambda>e. e) (command_of tg is_report ctx (GenerateReportCommand orderID))
           (\<lambda>r. said (''reportID='' @ rp_ReportID r @ '' generated='' @ bool_text (rp_Generated r))) orderID),
      Step ''command'' ''ReserveInventoryCommand'' (stocking tg is_reserve_result ReserveInventoryCommand ctx),
      Step ''command'' ''ReleaseInventoryCommand'' (stocking tg is_release_result ReleaseInventoryCommand ctx)]"

definition web_TestCommand :: "('f, 'w) testing \<Rightarrow> web_request \<Rightarrow> (('f, 'w) shop, TestResult) prog" where
  "web_TestCommand tg = test_page tg ''Test Command'' (command_actions tg)"

text \<open>An event is published, and its handlers are given some time.\<close>

definition publishing ::
    "('f, 'w) testing \<Rightarrow> go_ctx \<Rightarrow> string \<Rightarrow> (base_event \<Rightarrow> 'f test_event) \<Rightarrow> duration \<Rightarrow> string \<Rightarrow> ('f, 'w) test_body" where
  "publishing tg ctx aggregateID ev d detail orderID s =
     (let (now, s1) = tg_now tg s
      in prog_bind (tg_Publish tg ctx (ev (WithCorrelation now ctx aggregateID)))
           (\<lambda>err s2. case err of Some e \<Rightarrow> (Ret (([], Some e), orderID), s2)
             | None \<Rightarrow> (Ret ((detail, None), orderID), tg_sleep tg d s2)) s1)"

definition publishing_new ::
    "('f, 'w) testing \<Rightarrow> go_ctx \<Rightarrow> (base_event \<Rightarrow> 'f test_event) \<Rightarrow> ('f, 'w) test_body" where
  "publishing_new tg ctx ev orderID s =
     (let (uid, s1) = tg_uuid tg s
      in publishing tg ctx (hex_EncodeToString uid) ev (milliseconds 100) ''dispatched'' orderID s1)"

text \<open>The arrow in two of the names, as its bytes.\<close>

definition arrow :: string where
  "arrow = [CHR 0xE2, CHR 0x86, CHR 0x92]"

definition event_actions :: "('f, 'w) testing \<Rightarrow> string \<Rightarrow> go_ctx \<Rightarrow> string \<Rightarrow> ('f, 'w) action list" where
  "event_actions tg testAggID ctx traceID =
     [Step ''event'' (''OrderPlacedEvent ('' @ arrow @ '' NotificationHandler + InventoryHandler)'')
        (publishing tg ctx testAggID (\<lambda>b. OrderTestEvent b (OrderPlacedEvent ''test-event-user'' (tg_literal tg ''999.99'') [''Laptop'']))
          (milliseconds 200) ''dispatched, handlers invoked''),
      Step ''event'' ''PaymentConfirmedEvent''
        (publishing tg ctx testAggID (\<lambda>b. OrderTestEvent b PaymentConfirmedEvent) (milliseconds 100) ''dispatched''),
      Step ''event'' ''OrderShippedEvent''
        (publishing tg ctx testAggID (\<lambda>b. OrderTestEvent b OrderShippedEvent) (milliseconds 100) ''dispatched''),
      Step ''event'' (''OrderCancelledEvent ('' @ arrow @ '' InventoryHandler)'')
        (publishing tg ctx testAggID (\<lambda>b. OrderTestEvent b (OrderCancelledEvent ''test cancel'')) (milliseconds 200)
          ''dispatched, inventory handler invoked''),
      Step ''event'' ''InventoryReservedEvent'' (publishing_new tg ctx (\<lambda>b. StockTestEvent b (InventoryReservedEvent ''mouse'' 2))),
      Step ''event'' ''InventoryReleasedEvent'' (publishing_new tg ctx (\<lambda>b. StockTestEvent b (InventoryReleasedEvent ''mouse'' 2)))]"

text \<open>The identifier of the aggregate is drawn after the start of the page.\<close>

definition web_TestEvent :: "('f, 'w) testing \<Rightarrow> web_request \<Rightarrow> (('f, 'w) shop, TestResult) prog" where
  "web_TestEvent tg r s =
     (let (uid, s1) = tg_uuid tg s; traceID = NewTraceID uid; ctx = WithTrace (wr_Context r) traceID [];
          (start, s2) = tg_now tg s1; (uid2, s3) = tg_uuid tg s2
      in prog_bind (run_actions tg (event_actions tg (hex_EncodeToString uid2) ctx traceID) ([], [])) (\<lambda>(steps, orderID) s4.
           let (now, s5) = tg_now tg s4 in (Ret (renderTestResult ''Test Event'' steps (tg_duration tg (now - start))), s5)) s3)"

text \<open>The order must have a status.\<close>

definition verifying :: "('f, 'w) testing \<Rightarrow> go_ctx \<Rightarrow> string \<Rightarrow> ('f, 'w) test_body" where
  "verifying tg ctx status orderID =
     answered (\<lambda>e. e) (query_of tg is_order ctx (GetOrderQuery orderID)) (\<lambda>r orderID s.
       if gr_Status r \<noteq> status then (Ret (([], Some (ErrText (''expected '' @ status @ '', got '' @ gr_Status r))), orderID), s)
       else said (''status='' @ gr_Status r @ '' (correct)'') orderID s) orderID"

definition qce_actions :: "('f, 'w) testing \<Rightarrow> go_ctx \<Rightarrow> string \<Rightarrow> ('f, 'w) action list" where
  "qce_actions tg ctx traceID =
     [Step ''command'' ''PlaceOrderCommand''
        (placing tg ctx (one_item tg ''test-qce-user'' ''monitor'' ''Monitor'' ''499.99'' 1) ('' (traceID='' @ traceID @ '')'')),
      Sleep (milliseconds 200),
      Step ''event'' ''OrderPlacedEvent (auto-dispatched)''
        (said (''triggered by PlaceOrderCommand, handled by NotificationHandler + InventoryHandler '' @ arrow @ '' ReserveInventoryCommand'')),
      Step ''query'' ''GetOrderQuery (verify pending)'' (verifying tg ctx ''pending''),
      Step ''command'' ''ConfirmPaymentCommand'' (confirming tg ctx),
      Sleep (milliseconds 100),
      Step ''event'' ''PaymentConfirmedEvent (auto-dispatched)'' (said ''triggered by ConfirmPaymentCommand''),
      Step ''query'' ''GetOrderQuery (verify paid)'' (verifying tg ctx ''paid''),
      Step ''command'' ''ShipOrderCommand'' (shipping tg ctx),
      Sleep (milliseconds 100),
      Step ''event'' ''OrderShippedEvent (auto-dispatched)'' (said ''triggered by ShipOrderCommand''),
      Step ''query'' ''GetOrderQuery (verify shipped)'' (verifying tg ctx ''shipped''),
      Step ''query'' ''GetInventoryQuery (verify stock deducted)'' (answered (\<lambda>e. e) (query_of tg is_products ctx GetInventoryQuery) (\<lambda>products.
         said (case find (\<lambda>p. it_Name p = ''Laptop'' \<or> it_Name p = ''Monitor'') products of
                 Some p \<Rightarrow> it_Name p @ '' stock='' @ show_int (it_Stock p)
               | None \<Rightarrow> ''inventory retrieved'')))]"

definition web_TestQCE :: "('f, 'w) testing \<Rightarrow> web_request \<Rightarrow> (('f, 'w) shop, TestResult) prog" where
  "web_TestQCE tg = test_page tg ''Test QCE Full Lifecycle'' (qce_actions tg)"

subsection \<open>The pages of the end-to-end tests\<close>

datatype admin_answer = AdminError int string | AdminJson string

definition quoted_text :: "string \<Rightarrow> string" where
  "quoted_text t = CHR 0x22 # t @ [CHR 0x22]"

text \<open>The database, None when there is none, with its \<open>Exec\<close> and the \<open>Save\<close> of the product store on it.\<close>

definition web_AdminReset ::
    "bool \<Rightarrow> (string \<Rightarrow> 'db \<Rightarrow> go_error option \<times> 'db) \<Rightarrow> ('f Product \<Rightarrow> 'db \<Rightarrow> go_error option \<times> 'db) \<Rightarrow> (string \<Rightarrow> 'f) \<Rightarrow>
     web_request \<Rightarrow> 'db option \<Rightarrow> admin_answer \<times> 'db option" where
  "web_AdminReset testMode exec save lit r db =
     (if wr_Method r \<noteq> ''POST'' then (AdminError 405 ''method not allowed'', db)
      else if \<not> testMode then (AdminError 403 ''test mode not enabled'', db)
      else (case db of
              None \<Rightarrow> (AdminError 503 ''database not available'', None)
            | Some d \<Rightarrow>
                (case TruncateAll exec d of
                   (Some err, d1) \<Rightarrow> (AdminError 500 (''truncate failed: '' @ error_text err), Some d1)
                 | (None, d1) \<Rightarrow>
                     (case SeedProducts save (DefaultProducts lit) d1 of
                        (Some err, d2) \<Rightarrow> (AdminError 500 (''seed products failed: '' @ error_text err), Some d2)
                      | (None, d2) \<Rightarrow> (AdminJson (''{'' @ quoted_text ''status'' @ '':'' @ quoted_text ''ok'' @ ''}''), Some d2)))))"

text \<open>
  A job is put into the table without the store; \<open>cmd\<close> is the column's value of the text \<open>{"type":"e2e-test"}\<close>,
  \<open>i\<close> the text of a new UUID, and the columns the statement leaves out have the table's defaults.
\<close>

definition web_TestSeedJob ::
    "'b column_types \<Rightarrow> bool \<Rightarrow> 'b \<Rightarrow> go_error option \<Rightarrow> string \<Rightarrow> time \<Rightarrow> web_request \<Rightarrow> string \<Rightarrow> 'b job_table option \<Rightarrow> admin_answer \<times> 'b job_table option" where
  "web_TestSeedJob ct testMode cmd flt i now r statusParam db =
     (if wr_Method r \<noteq> ''POST'' then (AdminError 405 ''method not allowed'', db)
      else if \<not> testMode then (AdminError 403 ''test mode not enabled'', db)
      else if statusParam \<noteq> ''running'' \<and> statusParam \<noteq> ''failed''
      then (AdminError 400 (''status must be '' @ [CHR 0x27] @ ''running'' @ [CHR 0x27] @ '' or '' @ [CHR 0x27] @ ''failed'' @ [CHR 0x27]), db)
      else (case db of
              None \<Rightarrow> (AdminError 503 ''database not available'', None)
            | Some t \<Rightarrow>
                (let row = \<lparr>jr_id = i, jr_command = cmd, jr_command_type = ''e2e-test'',
                            jr_status = (if statusParam = ''failed'' then JobStatusFailed else JobStatusRunning),
                            jr_result = None, jr_result_type = None, jr_error = Some [], jr_created_at = now,
                            jr_started_at = Some now, jr_completed_at = (if statusParam = ''failed'' then Some now else None),
                            jr_timeout_ns = 0, jr_retry_count = 0, jr_max_retries = 0\<rparr>
                 in case sql_insert_job ct flt row t of
                      (Some err, t1) \<Rightarrow> (AdminError 500 (''insert job failed: '' @ error_text (pg_error err)), Some t1)
                    | (None, t1) \<Rightarrow> (AdminJson (''{'' @ quoted_text ''jobId'' @ '':'' @ quoted_text i @ ''}''), Some t1))))"

text \<open>A job seeded as failed is read back as pending: the page does not give the tests what they ask for.\<close>

lemma seeded_failure_read_pending:
  assumes "web_TestSeedJob ct testMode cmd flt i now r ''failed'' (Some t) = (AdminJson answer, Some t1)"
    and "pg_job_Get s None later t1 i = Inr j"
  shows "jb_status j = JobStatusPending"
proof -
  have "gm_get t1 i = Some \<lparr>jr_id = i, jr_command = cmd, jr_command_type = ''e2e-test'', jr_status = JobStatusFailed,
      jr_result = None, jr_result_type = None, jr_error = Some [], jr_created_at = now, jr_started_at = Some now,
      jr_completed_at = Some now, jr_timeout_ns = 0, jr_retry_count = 0, jr_max_retries = 0\<rparr>"
    using assms(1) by (auto simp: web_TestSeedJob_def sql_insert_job_def Let_def split: if_splits option.splits prod.splits)
  then show ?thesis
    using assms(2) by (auto simp: pg_job_Get_def scanJob_def Let_def RestoreJobState_def NewJob_def split: sum.splits if_splits)
qed

subsection \<open>What a page reports\<close>

lemma renderTestResult_counts:
  "tr_Total (renderTestResult title steps d) = length steps \<and>
   tr_Passed (renderTestResult title steps d) = length (filter ts_Success steps) \<and>
   tr_Failed (renderTestResult title steps d) = length (filter (\<lambda>st. \<not> ts_Success st) steps)"
proof -
  have "foldl (\<lambda>(passed, failed) st. if ts_Success st then (passed + 1, failed) else (passed, failed + 1)) (p, q) steps =
      (p + length (filter ts_Success steps), q + length (filter (\<lambda>st. \<not> ts_Success st) steps))" for p q :: nat
    by (induction steps arbitrary: p q) simp_all
  from this [of 0 0] show ?thesis by (simp add: renderTestResult_def)
qed

text \<open>A step that cannot fail, and the steps of a page one by one.\<close>

fun infallible :: "('f, 'w) action \<Rightarrow> bool" where
  "infallible (Step typ name body) \<longleftrightarrow> (\<forall>x s d e y s1. body x s = (Ret ((d, e), y), s1) \<longrightarrow> e = None)"
| "infallible (Sleep d) \<longleftrightarrow> True"

fun is_Step :: "('f, 'w) action \<Rightarrow> bool" where
  "is_Step (Step typ name body) = True"
| "is_Step (Sleep d) = False"

fun action_name :: "('f, 'w) action \<Rightarrow> string" where
  "action_name (Step typ name body) = name"
| "action_name (Sleep d) = []"

lemma infallible_said [simp]: "infallible (Step typ name (said detail))"
  by (simp add: said_def)

lemma test_step_Ret:
  assumes "test_step tg typ name body (steps, x) s = (Ret (steps1, x1), s1)"
  shows "\<exists>st. steps1 = steps @ [st] \<and> ts_Name st = name \<and> (infallible (Step typ name body) \<longrightarrow> ts_Success st)"
  using assms by (auto simp: test_step_def prog_bind_def Let_def split: prod.splits outcome.splits) blast+

lemma run_actions_Ret:
  assumes "run_actions tg as (steps, x) s = (Ret (steps1, x1), s1)"
  shows "\<exists>ds. steps1 = steps @ ds \<and>
    list_all2 (\<lambda>a d. ts_Name d = action_name a \<and> (infallible a \<longrightarrow> ts_Success d)) (filter is_Step as) ds"
  using assms
proof (induction as arbitrary: steps x s)
  case (Cons a as)
  show ?case
  proof (cases a)
    case (Step ty nm body)
    obtain p s2 where first: "test_step tg ty nm body (steps, x) s = (Ret p, s2)" and rest: "run_actions tg as p s2 = (Ret (steps1, x1), s1)"
      using Cons.prems Step by (auto simp: prog_bind_def split: prod.splits outcome.splits)
    obtain steps2 x2 where p: "p = (steps2, x2)" by (cases p)
    obtain st where st: "steps2 = steps @ [st]" "ts_Name st = nm" "infallible (Step ty nm body) \<longrightarrow> ts_Success st"
      using test_step_Ret [OF first [unfolded p]] by blast
    obtain ds where "steps1 = steps2 @ ds"
        "list_all2 (\<lambda>a d. ts_Name d = action_name a \<and> (infallible a \<longrightarrow> ts_Success d)) (filter is_Step as) ds"
      using Cons.IH [OF rest [unfolded p]] by blast
    then show ?thesis using st Step by (intro exI [of _ "st # ds"]) simp
  next
    case (Sleep d)
    then show ?thesis using Cons.IH Cons.prems by simp
  qed
qed simp

subsection \<open>The page of the full life cycle and the inventory\<close>

definition keeps_stock :: "(('f, 'w) shop, 'a) prog \<Rightarrow> bool" where
  "keeps_stock p \<longleftrightarrow> (\<forall>s. fst (snd (p s)) = fst s)"

lemma keeps_bind: "keeps_stock m \<Longrightarrow> (\<And>x. keeps_stock (f x)) \<Longrightarrow> keeps_stock (prog_bind m f)"
  unfolding keeps_stock_def prog_bind_def by (metis (mono_tags, lifting) case_prod_conv outcome.exhaust outcome.simps(5) outcome.simps(6) prod.collapse snd_conv)

lemma keeps_said: "keeps_stock (said detail orderID)"
  by (simp add: keeps_stock_def said_def)

lemma keeps_dispatch:
  "(\<And>c. keeps_stock (bus c m)) \<Longrightarrow> keeps_stock (cmd_Dispatch bus isR z tn ctx m)"
  "(\<And>c. keeps_stock (bus c m)) \<Longrightarrow> keeps_stock (qry_Dispatch bus isR z tn ctx m)"
  unfolding cmd_Dispatch_def qry_Dispatch_def
  by (intro keeps_bind; auto simp: keeps_stock_def split: option.split prod.split)+

lemma keeps_answered:
  assumes "keeps_stock call" and "\<And>x o1. keeps_stock (k x o1)"
  shows "keeps_stock (answered w call k orderID)"
  unfolding answered_def using assms(2)
  by (intro keeps_bind assms(1)) (auto simp: keeps_stock_def split: option.split prod.split)

definition quiet_testing :: "('f, 'w) testing \<Rightarrow> bool" where
  "quiet_testing tg \<longleftrightarrow> keeps_stock (\<lambda>s. case tg_uuid tg s of (u, s1) \<Rightarrow> (Ret u, s1)) \<and>
     keeps_stock (\<lambda>s. case tg_now tg s of (t, s1) \<Rightarrow> (Ret t, s1)) \<and> (\<forall>d s. fst (tg_sleep tg d s) = fst s)"

lemma quiet_testingD:
  assumes "quiet_testing tg"
  shows "tg_uuid tg s = (u, s1) \<Longrightarrow> fst s1 = fst s" "tg_now tg s = (t, s1) \<Longrightarrow> fst s1 = fst s" "fst (tg_sleep tg d s) = fst s"
  using assms unfolding quiet_testing_def keeps_stock_def by (metis case_prod_conv snd_conv)+

fun action_keeps :: "('f, 'w) action \<Rightarrow> bool" where
  "action_keeps (Step ty nm body) \<longleftrightarrow> (\<forall>x. keeps_stock (body x))"
| "action_keeps (Sleep d) \<longleftrightarrow> True"

lemma keeps_test_step:
  assumes "quiet_testing tg" and "\<And>x. keeps_stock (body x)"
  shows "keeps_stock (test_step tg ty nm body p)"
proof -
  obtain steps x where p: "p = (steps, x)" by (cases p)
  have "fst (snd (test_step tg ty nm body (steps, x) s)) = fst s" for s
  proof -
    obtain t s1 where t: "tg_now tg s = (t, s1)" by (cases "tg_now tg s")
    obtain r s2 where r: "body x s1 = (r, s2)" by (cases "body x s1")
    obtain t2 s3 where t2: "tg_now tg s2 = (t2, s3)" by (cases "tg_now tg s2")
    have "fst s1 = fst s" "fst s3 = fst s2" using quiet_testingD(2) [OF assms(1)] t t2 by blast+
    moreover have "fst s2 = fst s1" using assms(2) [of x] r unfolding keeps_stock_def by (metis snd_conv)
    ultimately show ?thesis using t r t2 by (auto simp: test_step_def prog_bind_def split: outcome.split prod.split)
  qed
  then show ?thesis by (simp add: keeps_stock_def p)
qed

lemma keeps_run_actions:
  assumes "quiet_testing tg" and "list_all action_keeps as"
  shows "keeps_stock (run_actions tg as p)"
  using assms(2)
proof (induction as arbitrary: p)
  case (Cons a as)
  then have IH: "keeps_stock (run_actions tg as p)" for p by simp
  show ?case
  proof (cases a)
    case (Step ty nm body)
    have "keeps_stock (prog_bind (test_step tg ty nm body p) (run_actions tg as))"
      using Cons.prems Step by (intro keeps_bind keeps_test_step [OF assms(1)] IH) simp
    then show ?thesis by (simp add: keeps_stock_def Step)
  next
    case (Sleep d)
    have "fst (snd (run_actions tg as p (tg_sleep tg d s))) = fst s" for s
      using IH [of p] quiet_testingD(3) [OF assms(1)] unfolding keeps_stock_def by metis
    then show ?thesis by (simp add: keeps_stock_def Sleep)
  qed
qed (simp add: keeps_stock_def)

lemma keeps_test_page:
  assumes "quiet_testing tg" and "\<And>ctx i. list_all action_keeps (actions ctx i)"
  shows "keeps_stock (test_page tg title actions r)"
proof -
  have "fst (snd (test_page tg title actions r s)) = fst s" for s
  proof -
    obtain u s1 where u: "tg_uuid tg s = (u, s1)" by (cases "tg_uuid tg s")
    obtain t s2 where t: "tg_now tg s1 = (t, s2)" by (cases "tg_now tg s1")
    let ?run = "run_actions tg (actions (WithTrace (wr_Context r) (NewTraceID u) []) (NewTraceID u)) ([], []) s2"
    obtain p s3 where p: "?run = (p, s3)" by (cases ?run)
    obtain t2 s4 where t2: "tg_now tg s3 = (t2, s4)" by (cases "tg_now tg s3")
    have "fst s1 = fst s" "fst s2 = fst s1" "fst s4 = fst s3"
      using quiet_testingD(1,2) [OF assms(1)] u t t2 by blast+
    moreover have "fst s3 = fst s2"
      using keeps_run_actions [OF assms(1,2)] p unfolding keeps_stock_def by (metis snd_conv)
    ultimately show ?thesis
      using u t p t2 by (auto simp: test_page_def prog_bind_def Let_def split: outcome.split prod.split)
  qed
  then show ?thesis by (simp add: keeps_stock_def)
qed

lemma test_page_Ret:
  assumes "test_page tg title actions r s = (Ret res, s')"
  shows "\<exists>ctx i ds t. res = renderTestResult title ds t \<and>
    list_all2 (\<lambda>a d. ts_Name d = action_name a \<and> (infallible a \<longrightarrow> ts_Success d)) (filter is_Step (actions ctx i)) ds"
proof -
  obtain u s1 where u: "tg_uuid tg s = (u, s1)" by (cases "tg_uuid tg s")
  obtain t s2 where t: "tg_now tg s1 = (t, s2)" by (cases "tg_now tg s1")
  define ctx where "ctx = WithTrace (wr_Context r) (NewTraceID u) []"
  obtain p s3 where p: "run_actions tg (actions ctx (NewTraceID u)) ([], []) s2 = (Ret p, s3)"
    using assms u t by (auto simp: test_page_def prog_bind_def Let_def ctx_def split: outcome.splits prod.splits)
  obtain ds x where ds: "p = (ds, x)" by (cases p)
  obtain d where "res = renderTestResult title ds d"
    using assms u t p [unfolded ctx_def] ds by (auto simp: test_page_def prog_bind_def Let_def split: prod.splits)
  moreover have "list_all2 (\<lambda>a d. ts_Name d = action_name a \<and> (infallible a \<longrightarrow> ts_Success d)) (filter is_Step (actions ctx (NewTraceID u))) ds"
    using run_actions_Ret [OF p [unfolded ds]] by auto
  ultimately show ?thesis by blast
qed

text \<open>The ten steps.\<close>

lemma qce_steps:
  assumes "list_all2 (\<lambda>a d. ts_Name d = action_name a \<and> (infallible a \<longrightarrow> ts_Success d)) (filter is_Step (qce_actions tg ctx i)) ds"
  shows "length ds = 10" "ts_Name (ds ! 1) = ''OrderPlacedEvent (auto-dispatched)''" "\<forall>i\<in>{1, 4, 7}. ts_Success (ds ! i)"
proof -
  note each = list_all2_nthD [OF assms]
  show len: "length ds = 10" using list_all2_lengthD [OF assms] by (simp add: qce_actions_def)
  show "ts_Name (ds ! 1) = ''OrderPlacedEvent (auto-dispatched)''"
    using each [of 1] by (simp add: qce_actions_def)
  have "ts_Success (ds ! 1)" "ts_Success (ds ! 4)" "ts_Success (ds ! 7)"
    using each [of 1] each [of 4] each [of 7] by (simp_all add: qce_actions_def del: infallible.simps)
  then show "\<forall>i\<in>{1, 4, 7}. ts_Success (ds ! i)" by simp
qed

text \<open>
  C11.  The page that tries the full life cycle of an order, in the wired example application:
  whatever its commands and queries do, the inventory is afterwards what it was before; yet of its ten
  steps the three named auto-dispatched, the reservation by \<open>OrderPlacedEvent\<close> among them, are reported as passed.
\<close>

theorem qce_page_blind:
  fixes wi :: "(('f, 'w) shop, 'h, 'f app_msg, 'f app_result) wiring"
    and store :: "(('f, 'w) shop, 'h, 'e, 'r) StoreComponents"
  assumes "WireAppWithStore wi env publish tname busExecute store = Ret (Inr a)"
    and "wb_CmdBus (tg_web tg) = CommandBus_Execute clk (bs_cmd (ac_Buses a))"
    and "wb_QueryBus (tg_web tg) = QueryBus_Execute clk (bs_query (ac_Buses a))"
    and "env_keeps env" and "quiet_testing tg" and "\<And>s. fst (snd (clk s)) = fst s"
    and "list_all (hooks_keep fst) (commandAspects (ac_Chain a))" and "list_all (hooks_keep fst) (queryAspects (ac_Chain a))"
  shows "case web_TestQCE tg r s of
      (Panic msg, s') \<Rightarrow> fst s' = fst s
    | (Ret res, s') \<Rightarrow> fst s' = fst s \<and> tr_Total res = 10 \<and> tr_Passed res + tr_Failed res = 10 \<and>
        ts_Name (tr_Steps res ! 1) = ''OrderPlacedEvent (auto-dispatched)'' \<and> (\<forall>i\<in>{1, 4, 7}. ts_Success (tr_Steps res ! i))"
proof -
  have cmd: "keeps_stock (command_of tg isR ctx m)" if "order_message m" for isR ctx m
    using wired_order_keeps [OF assms(1,6,7,4) that] unfolding assms(2)
    by (intro keeps_dispatch) (simp add: keeps_stock_def)
  have qry: "keeps_stock (query_of tg isR ctx m)" for isR ctx m
    using wired_query_keeps [OF assms(1,6,8)] unfolding assms(3)
    by (intro keeps_dispatch) (simp add: keeps_stock_def)
  have placing: "keeps_stock (placing tg ctx (one_item tg u p n pr q) suffix x)" for ctx u p n pr q suffix x
    unfolding placing_def one_item_def by (rule keeps_answered, rule cmd) (simp_all add: keeps_stock_def)
  have verifying: "keeps_stock (verifying tg ctx status x)" for ctx status x
    unfolding verifying_def by (rule keeps_answered, rule qry) (simp add: keeps_stock_def said_def)
  have changing: "keeps_stock (confirming tg ctx x)" "keeps_stock (shipping tg ctx x)" for ctx x
    by (simp_all add: confirming_def shipping_def success_text_def keeps_answered cmd keeps_said)
  have "list_all action_keeps (qce_actions tg ctx i)" for ctx i
    by (simp add: qce_actions_def placing verifying changing keeps_answered qry keeps_said)
  then have kept: "fst (snd (web_TestQCE tg r s)) = fst s"
    using keeps_test_page [OF assms(5), of "qce_actions tg" "''Test QCE Full Lifecycle''" r]
    unfolding keeps_stock_def web_TestQCE_def by blast
  obtain out s' where run: "web_TestQCE tg r s = (out, s')" by (metis surj_pair)
  show ?thesis
  proof (cases out)
    case (Ret res)
    obtain ctx i ds t where res: "res = renderTestResult ''Test QCE Full Lifecycle'' ds t"
      and ds: "list_all2 (\<lambda>a d. ts_Name d = action_name a \<and> (infallible a \<longrightarrow> ts_Success d)) (filter is_Step (qce_actions tg ctx i)) ds"
      using test_page_Ret [OF run [unfolded Ret web_TestQCE_def]] by blast
    have "tr_Passed res + tr_Failed res = length ds"
      unfolding res using renderTestResult_counts sum_length_filter_compl [of ts_Success ds] by metis
    moreover have "tr_Steps res = ds" "tr_Total res = length ds"
      by (simp_all add: res renderTestResult_def split: prod.split)
    ultimately show ?thesis using kept run Ret qce_steps [OF ds] by simp
  qed (use kept run in simp)
qed

text \<open>A page whose clock stands still, over a sold-out inventory and no orders.\<close>

definition sample_testing :: "(unit, unit order_world \<times> nat) execute \<Rightarrow> (unit, unit order_world \<times> nat) execute \<Rightarrow> (unit, nat) testing" where
  "sample_testing cmdBus queryBus =
     \<lparr>tg_web = \<lparr>wb_CmdBus = cmdBus, wb_QueryBus = queryBus, wb_EventStore_Load = (\<lambda>ctx i n s. Ret (Inr [])), wb_tname = (\<lambda>r. []),
                wb_fixed2 = (\<lambda>f. []), wb_rfc = (\<lambda>t. []), wb_fzero = ()\<rparr>,
      tg_uuid = (\<lambda>s. ([1], s)), tg_now = (\<lambda>s. (0, s)), tg_duration = (\<lambda>d. []), tg_sleep = (\<lambda>d s. s), tg_literal = (\<lambda>t. ()),
      tg_Publish = (\<lambda>ctx e s. (Ret None, s))\<rparr>"

theorem qce_page_blind_witness:
  "\<exists>a :: (sample_shop, unit, unit, unit, unit app_msg, unit app_result) AppContext.
     fst (snd (web_TestQCE (sample_testing (CommandBus_Execute (\<lambda>s. (0, s)) (bs_cmd (ac_Buses a))) (QueryBus_Execute (\<lambda>s. (0, s)) (bs_query (ac_Buses a))))
       batch_request (sold_out, (\<lparr>ow_heap = [], ow_orders = []\<rparr>, 0)))) = sold_out"
proof -
  obtain a :: "(sample_shop, unit, unit, unit, unit app_msg, unit app_result) AppContext"
    where a: "WireAppWithStore sample_wiring sample_env (\<lambda>ctx b e s. (Ret None, s)) (\<lambda>r. []) (\<lambda>ctx m s. (Ret (RNil, None), s)) sample_components = Ret (Inr a)"
      and ch: "ac_Chain a = example_chain sample_wiring sample_components"
    using wired_app by blast
  let ?tg = "sample_testing (CommandBus_Execute (\<lambda>s. (0, s)) (bs_cmd (ac_Buses a))) (QueryBus_Execute (\<lambda>s. (0, s)) (bs_query (ac_Buses a)))"
  let ?run = "web_TestQCE ?tg batch_request (sold_out, (\<lparr>ow_heap = [], ow_orders = []\<rparr>, 0))"
  have "list_all (hooks_keep fst) (commandAspects (ac_Chain a))" "list_all (hooks_keep fst) (queryAspects (ac_Chain a))"
    using sample_hooks sample_query_hooks by (simp_all add: ch example_chain_commands)
  moreover have "quiet_testing ?tg" "env_keeps sample_env"
    by (simp_all add: quiet_testing_def keeps_stock_def sample_testing_def env_keeps_def sample_env_def)
  moreover have "wb_CmdBus (tg_web ?tg) = CommandBus_Execute (\<lambda>s. (0, s)) (bs_cmd (ac_Buses a))"
      "wb_QueryBus (tg_web ?tg) = QueryBus_Execute (\<lambda>s. (0, s)) (bs_query (ac_Buses a))"
    by (simp_all add: sample_testing_def)
  ultimately have "fst (snd ?run) = sold_out"
    using qce_page_blind [OF a, where tg = ?tg and clk = "\<lambda>s. (0, s)" and r = batch_request and s = "(sold_out, (\<lparr>ow_heap = [], ow_orders = []\<rparr>, 0))"]
    by (cases ?run; cases "fst ?run") simp_all
  then show ?thesis by blast
qed

end
