(* ===== verification/PgSchema.thy ===== *)
theory PgSchema
  imports Viewer
begin

text \<open>
  The schema reader on PostgreSQL, \<open>observability/pg/schema_reader.go\<close>.

  The database is what it answers to a statement with its arguments (\<open>querier\<close>); the statements on the
  catalogue, whose text is constant, have names, and a statement that the reader builds is its text.  The
  descriptions of tables and columns, which are not ASCII, are arguments.  Letters and blanks are those
  of ASCII.
\<close>

subsection \<open>Statements\<close>

datatype statement =
    TablesStmt
  | ColumnsStmt
  | IndexesStmt
  | ForeignKeysStmt
  | PrimaryKeyStmt
  | ColumnCountStmt
  | RelationSizeStmt
  | TextStmt string

text \<open>
  \<open>qr_rows\<close> is \<open>QueryContext\<close>: its error, or for each row the error or the columns of \<open>Scan\<close> (None a null)
  and the error of \<open>rows.Err\<close>.  The other two are \<open>QueryRowContext\<close> with \<open>Scan\<close> into a number and a nullable time.
\<close>

record querier =
  qr_rows :: "statement \<Rightarrow> string list \<Rightarrow> go_error + (go_error + string option list) list \<times> go_error option"
  qr_int :: "statement \<Rightarrow> string list \<Rightarrow> go_error + int"
  qr_time :: "statement \<Rightarrow> string list \<Rightarrow> go_error + time option"

text \<open>The loop over the rows: \<open>onRow\<close> builds one result, \<open>scanErr\<close> wraps an error of \<open>Scan\<close>.\<close>

fun scan_rows ::
    "(go_error \<Rightarrow> go_error) \<Rightarrow> (string option list \<Rightarrow> 'a) \<Rightarrow> (go_error + string option list) list \<Rightarrow> go_error + 'a list" where
  "scan_rows scanErr onRow [] = Inr []"
| "scan_rows scanErr onRow (Inl e # rows) = Inl (scanErr e)"
| "scan_rows scanErr onRow (Inr cols # rows) =
     (case scan_rows scanErr onRow rows of Inl e \<Rightarrow> Inl e | Inr rs \<Rightarrow> Inr (onRow cols # rs))"

definition query_all ::
    "querier \<Rightarrow> statement \<Rightarrow> string list \<Rightarrow> (go_error \<Rightarrow> go_error) \<Rightarrow> (go_error \<Rightarrow> go_error) \<Rightarrow> (string option list \<Rightarrow> 'a) \<Rightarrow>
     go_error + 'a list" where
  "query_all q st args queryErr scanErr onRow =
     (case qr_rows q st args of
        Inl e \<Rightarrow> Inl (queryErr e)
      | Inr (rows, rowsErr) \<Rightarrow>
          (case scan_rows scanErr onRow rows of
             Inl e \<Rightarrow> Inl e
           | Inr rs \<Rightarrow> (case rowsErr of Some e \<Rightarrow> Inl e | None \<Rightarrow> Inr rs)))"

text \<open>A column scanned into a string, and into a \<open>NullString\<close> whose \<open>String\<close> is read.\<close>

definition col_text :: "string option list \<Rightarrow> nat \<Rightarrow> string" where
  "col_text cols n = (if n < length cols then (case cols ! n of Some t \<Rightarrow> t | None \<Rightarrow> []) else [])"

definition getPrimaryKeyColumns :: "querier \<Rightarrow> string \<Rightarrow> go_error + string list" where
  "getPrimaryKeyColumns q tableName = query_all q PrimaryKeyStmt [tableName] (\<lambda>e. e) (\<lambda>e. e) (\<lambda>cols. col_text cols 0)"

definition hasColumn :: "querier \<Rightarrow> string \<Rightarrow> string \<Rightarrow> bool" where
  "hasColumn q tableName columnName = (case qr_int q ColumnCountStmt [tableName, columnName] of Inl e \<Rightarrow> False | Inr n \<Rightarrow> 0 < n)"

subsection \<open>The columns of an index\<close>

definition blank :: "char \<Rightarrow> bool" where
  "blank c \<longleftrightarrow> of_char c \<in> {9, 10, 11, 12, 13, 32 :: nat}"

definition TrimSpace :: "string \<Rightarrow> string" where
  "TrimSpace s = rev (dropWhile blank (rev (dropWhile blank s)))"

definition ascii_upper :: "char \<Rightarrow> char" where
  "ascii_upper c = (if (97 :: nat) \<le> of_char c \<and> of_char c \<le> (122 :: nat) then char_of (of_char c - 32 :: nat) else c)"

definition index_column :: "string \<Rightarrow> string" where
  "index_column p =
     (let col = TrimSpace p
      in case str_index col '' '' of None \<Rightarrow> col | Some n \<Rightarrow> if 0 < n then take n col else col)"

definition parseIndexColumns :: "string \<Rightarrow> string list" where
  "parseIndexColumns indexDef =
     (case str_index indexDef ''('' of
        None \<Rightarrow> []
      | Some idx \<Rightarrow>
          (let rest = drop (idx + 1) indexDef in
           case str_index rest '')'' of
             None \<Rightarrow> []
           | Some endIdx \<Rightarrow> filter (\<lambda>col. col \<noteq> []) (map index_column (split_on (CHR '','') (take endIdx rest)))))"

definition index_info :: "string option list \<Rightarrow> IndexInfo" where
  "index_info cols =
     (let idxDef = col_text cols 1
      in \<lparr>ix_Name = col_text cols 0, ix_Columns = parseIndexColumns idxDef, ix_Unique = str_contains (map ascii_upper idxDef) ''UNIQUE''\<rparr>)"

subsection \<open>Tables\<close>

definition quoted_name :: "string \<Rightarrow> string" where
  "quoted_name name = [CHR 0x22] @ name @ [CHR 0x22]"

text \<open>The numbers of a table; a statement that fails leaves the zero value.\<close>

definition table_info :: "querier \<Rightarrow> (string \<Rightarrow> string) \<Rightarrow> string \<Rightarrow> TableInfo" where
  "table_info q tableDescription name =
     \<lparr>ti_Name = name, ti_Description = tableDescription name,
      ti_RowCount = (case qr_int q (TextStmt (''SELECT count(*) FROM '' @ name)) [] of Inr n \<Rightarrow> n | Inl e \<Rightarrow> 0),
      ti_LastUpdated =
        (if hasColumn q name ''created_at''
         then (case qr_time q (TextStmt (''SELECT max(created_at) FROM '' @ name)) [] of Inr t \<Rightarrow> t | Inl e \<Rightarrow> None) else None),
      ti_DiskSize = (case qr_int q RelationSizeStmt [name] of Inr n \<Rightarrow> n | Inl e \<Rightarrow> 0),
      ti_AvgRowSize = 0\<rparr>"

definition pg_ListTables :: "querier \<Rightarrow> (string \<Rightarrow> string) \<Rightarrow> TableInfo list \<times> go_error option" where
  "pg_ListTables q tableDescription =
     (case query_all q TablesStmt [] (\<lambda>e. ErrWrap ''query tables: '' e []) (\<lambda>e. ErrWrap ''scan table name: '' e []) (\<lambda>cols. col_text cols 0) of
        Inl e \<Rightarrow> ([], Some e)
      | Inr names \<Rightarrow> (map (table_info q tableDescription) names, None))"

definition column_info :: "(string \<Rightarrow> string \<Rightarrow> string) \<Rightarrow> string \<Rightarrow> string option list \<Rightarrow> ColumnInfo" where
  "column_info columnDescription name cols =
     \<lparr>co_Name = col_text cols 0, co_Type = col_text cols 1, co_Nullable = (col_text cols 2 = ''YES''), co_DefaultValue = col_text cols 3,
      co_IsPrimaryKey = False, co_Description = columnDescription name (col_text cols 0)\<rparr>"

definition pg_GetTable ::
    "querier \<Rightarrow> (string \<Rightarrow> string) \<Rightarrow> (string \<Rightarrow> string \<Rightarrow> string) \<Rightarrow> string \<Rightarrow> go_error + TableDetail" where
  "pg_GetTable q tableDescription columnDescription name =
     (if \<not> has_prefix name ''ddd_'' then Inl (ErrText (''table '' @ quoted_name name @ '' not found''))
      else (case query_all q ColumnsStmt [name] (\<lambda>e. ErrWrap ''query columns: '' e []) (\<lambda>e. ErrWrap ''scan column: '' e [])
                   (column_info columnDescription name) of
              Inl e \<Rightarrow> Inl e
            | Inr columns \<Rightarrow>
                (let columns1 = (case getPrimaryKeyColumns q name of
                       Inl e \<Rightarrow> columns
                     | Inr pkCols \<Rightarrow> map (\<lambda>c. if co_Name c \<in> set pkCols then c\<lparr>co_IsPrimaryKey := True\<rparr> else c) columns)
                 in case query_all q IndexesStmt [name] (\<lambda>e. ErrWrap ''query indexes: '' e []) (\<lambda>e. ErrWrap ''scan index: '' e []) index_info of
                      Inl e \<Rightarrow> Inl e
                    | Inr indexes \<Rightarrow>
                        Inr \<lparr>td_TableInfo = table_info q tableDescription name, td_Columns = columns1, td_Indexes = indexes\<rparr>)))"

definition pg_ListRelations :: "querier \<Rightarrow> TableRelation list \<times> go_error option" where
  "pg_ListRelations q =
     (case query_all q ForeignKeysStmt [] (\<lambda>e. ErrWrap ''query relations: '' e []) (\<lambda>e. ErrWrap ''scan relation: '' e [])
             (\<lambda>cols. \<lparr>rl_FromTable = col_text cols 0, rl_FromColumn = col_text cols 1, rl_ToTable = col_text cols 2, rl_ToColumn = col_text cols 3\<rparr>) of
        Inl e \<Rightarrow> ([], Some e)
      | Inr relations \<Rightarrow> (relations @ StaticRelations, None))"

definition PgSchemaReader :: "(go_ctx \<Rightarrow> querier) \<Rightarrow> (string \<Rightarrow> string) \<Rightarrow> (string \<Rightarrow> string \<Rightarrow> string) \<Rightarrow> schema_reader" where
  "PgSchemaReader getQuerier tableDescription columnDescription =
     \<lparr>sr_ListTables = (\<lambda>ctx. pg_ListTables (getQuerier ctx) tableDescription),
      sr_GetTable = (\<lambda>ctx. pg_GetTable (getQuerier ctx) tableDescription columnDescription),
      sr_ListRelations = (\<lambda>ctx. pg_ListRelations (getQuerier ctx))\<rparr>"

subsection \<open>The columns of an index are read back\<close>

text \<open>The definition of an index as the database prints it; a column has its name and an option such as \<open>DESC\<close>.\<close>

definition index_definition :: "bool \<Rightarrow> string \<Rightarrow> string \<Rightarrow> (string \<times> string) list \<Rightarrow> string \<Rightarrow> string" where
  "index_definition unique name table columns tail =
     ''CREATE '' @ (if unique then ''UNIQUE '' else []) @ ''INDEX '' @ name @ '' ON public.'' @ table @ '' USING btree ('' @
     join_with '', '' (map (\<lambda>(c, opt). if opt = [] then c else c @ '' '' @ opt) columns) @ '')'' @ tail"

definition plain_name :: "string \<Rightarrow> bool" where
  "plain_name c \<longleftrightarrow> c \<noteq> [] \<and> list_all (\<lambda>x. \<not> blank x \<and> x \<noteq> CHR '','' \<and> x \<noteq> CHR ''('' \<and> x \<noteq> CHR '')'') c"

lemma str_index_char: "str_index s [x] = (if x \<in> set s then Some (length (takeWhile (\<lambda>c. c \<noteq> x) s)) else None)"
  by (induction s) (auto simp: has_prefix_def)

lemma str_index_after: "x \<notin> set pre \<Longrightarrow> str_index (pre @ x # post) [x] = Some (length pre)"
  by (induction pre) (auto simp: has_prefix_def)

lemma blank_space [simp]: "blank (CHR '' '')" "\<not> blank (CHR '','')" "\<not> blank (CHR ''('')"
  by (simp_all add: blank_def)

lemma plain_ends:
  assumes "plain_name c"
  shows "\<not> blank (hd c)" "\<not> blank (last c)" "c \<noteq> []" "CHR '' '' \<notin> set c" "CHR '','' \<notin> set c" "CHR ''('' \<notin> set c" "CHR '')'' \<notin> set c"
proof -
  show ne: "c \<noteq> []" using assms by (simp add: plain_name_def)
  have all: "x \<in> set c \<Longrightarrow> \<not> blank x \<and> x \<noteq> CHR '','' \<and> x \<noteq> CHR ''('' \<and> x \<noteq> CHR '')''" for x
    using assms unfolding plain_name_def list_all_iff by blast
  show "\<not> blank (hd c)" using all [OF hd_in_set [OF ne]] by blast
  show "\<not> blank (last c)" using all [OF last_in_set [OF ne]] by blast
  show "CHR '' '' \<notin> set c" using all blank_space(1) by blast
  show "CHR '','' \<notin> set c" "CHR ''('' \<notin> set c" "CHR '')'' \<notin> set c" using all by blast+
qed

lemma dropWhile_hd: "s \<noteq> [] \<Longrightarrow> \<not> P (hd s) \<Longrightarrow> dropWhile P s = s"
  by (cases s) simp_all

lemma TrimSpace_ends: "s \<noteq> [] \<Longrightarrow> \<not> blank (hd s) \<Longrightarrow> \<not> blank (last s) \<Longrightarrow> TrimSpace s = s"
  by (simp add: TrimSpace_def dropWhile_hd hd_rev)

lemma index_column_plain:
  assumes "plain_name c" and "opt = [] \<or> plain_name opt" and "b = [] \<or> b = '' ''"
  shows "index_column (b @ (if opt = [] then c else c @ '' '' @ opt)) = c"
proof -
  let ?s = "if opt = [] then c else c @ '' '' @ opt"
  note c = plain_ends [OF assms(1)]
  have "last ?s = (if opt = [] then last c else last opt)" by simp
  moreover have "opt \<noteq> [] \<Longrightarrow> \<not> blank (last opt)" using assms(2) plain_ends(2) by blast
  ultimately have "TrimSpace ?s = ?s" using c by (intro TrimSpace_ends) (auto simp: hd_append)
  moreover have "TrimSpace (b @ ?s) = TrimSpace ?s" using assms(3) by (auto simp: TrimSpace_def)
  moreover have "str_index c '' '' = None" using c(4) by (simp add: str_index_char)
  moreover have "str_index (c @ '' '' @ opt) '' '' = Some (length c)" using str_index_after [OF c(4), of opt] by simp
  ultimately show ?thesis using c(3) by (simp add: index_column_def Let_def)
qed

lemma split_join_comma:
  "cs \<noteq> [] \<Longrightarrow> \<forall>c\<in>set cs. CHR '','' \<notin> set c \<Longrightarrow>
     split_on (CHR '','') (join_with '', '' cs) = hd cs # map (\<lambda>c. CHR '' '' # c) (tl cs)"
proof (induction cs rule: list_nonempty_induct)
  case (single c)
  then show ?case by (simp add: split_on_single)
next
  case (cons c cs)
  then show ?case
    by (cases cs) (auto simp: join_with_Cons split_on_append)
qed

text \<open>
  C32.  The columns of every index over plain columns are read back from the definition the database
  prints, in their order and without their options, whatever follows the list.
\<close>

theorem index_columns_read:
  assumes "CHR ''('' \<notin> set name" and "CHR ''('' \<notin> set table" and "columns \<noteq> []"
    and "\<forall>(c, opt)\<in>set columns. plain_name c \<and> (opt = [] \<or> plain_name opt)"
  shows "parseIndexColumns (index_definition unique name table columns tail) = map fst columns"
proof -
  define texts where "texts = map (\<lambda>(c, opt). if opt = [] then c else c @ '' '' @ opt) columns"
  define inner where "inner = join_with '', '' texts"
  define pre where "pre = ''CREATE '' @ (if unique then ''UNIQUE '' else []) @ ''INDEX '' @ name @ '' ON public.'' @ table @ '' USING btree ''"
  have printed: "index_definition unique name table columns tail = pre @ CHR ''('' # (inner @ CHR '')'' # tail)"
    by (simp add: index_definition_def pre_def inner_def texts_def)
  have pre: "CHR ''('' \<notin> set pre" using assms(1,2) by (simp add: pre_def)
  have ok: "CHR '')'' \<notin> set t \<and> CHR '','' \<notin> set t" if t: "t \<in> set texts" for t
  proof -
    obtain c opt where "(c, opt) \<in> set columns" and t: "t = (if opt = [] then c else c @ '' '' @ opt)"
      using t by (auto simp: texts_def)
    then have "plain_name c \<and> (opt = [] \<or> plain_name opt)" using assms(4) by blast
    then show ?thesis using plain_ends(5,7) unfolding t by auto
  qed
  have "CHR '')'' \<notin> set (join_with '', '' ts)" if "set ts \<subseteq> set texts" for ts
    using that ok by (induction "'', ''" ts rule: join_with.induct) auto
  then have inner: "CHR '')'' \<notin> set inner" by (simp add: inner_def)
  have ne: "texts \<noteq> []" using assms(3) by (simp add: texts_def)
  have "parseIndexColumns (index_definition unique name table columns tail) =
      filter (\<lambda>col. col \<noteq> []) (map index_column (split_on (CHR '','') inner))"
    unfolding printed parseIndexColumns_def str_index_after [OF pre] by (simp add: Let_def str_index_after [OF inner])
  also have "split_on (CHR '','') inner = hd texts # map (\<lambda>t. CHR '' '' # t) (tl texts)"
    unfolding inner_def using split_join_comma [OF ne] ok by blast
  also have "map index_column \<dots> = map fst columns"
  proof -
    have one: "index_column (b @ (case x of (c, opt) \<Rightarrow> if opt = [] then c else c @ '' '' @ opt)) = fst x"
      if "x \<in> set columns" "b = [] \<or> b = '' ''" for x b
      using assms(4) that index_column_plain [of "fst x" "snd x" b] by (cases x) auto
    show ?thesis
      using one [of _ "[]"] one [of _ "'' ''"] assms(3) by (cases columns) (auto simp: texts_def)
  qed
  also have "filter (\<lambda>col. col \<noteq> []) (map fst columns) = map fst columns"
  proof (rule filter_True, rule ballI)
    fix c assume "c \<in> set (map fst columns)"
    then obtain opt where "(c, opt) \<in> set columns" by auto
    then have "plain_name c" using assms(4) by blast
    then show "c \<noteq> []" by (rule plain_ends(3))
  qed
  finally show ?thesis .
qed

theorem index_columns_read_witness:
  "parseIndexColumns (index_definition True ''ddd_spans_pkey'' ''ddd_spans'' [(''trace_id'', []), (''started_at'', ''DESC'')] []) =
     [''trace_id'', ''started_at'']"
proof -
  have "plain_name ''trace_id'' \<and> plain_name ''started_at'' \<and> plain_name ''DESC''"
    by (simp add: plain_name_def blank_def)
  then show ?thesis
    using index_columns_read [of "''ddd_spans_pkey''" "''ddd_spans''" "[(''trace_id'', []), (''started_at'', ''DESC'')]" True "[]"] by simp
qed

text \<open>An index on an expression loses its text after the first parenthesis, and a name can make an index unique.\<close>

lemma expression_index_misread:
  "parseIndexColumns ''CREATE INDEX i ON public.ddd_jobs USING btree (lower(status), id)'' = [''lower(status'']"
  by code_simp

lemma unique_by_name:
  "ix_Unique (index_info [Some ''idx_unique_jobs'', Some ''CREATE INDEX idx_unique_jobs ON public.ddd_jobs USING btree (id)''])"
  by code_simp

text \<open>The name of the request's path goes into the text of a statement after a look at its prefix alone.\<close>

lemma table_name_in_statement:
  assumes "pg_GetTable q tableDescription columnDescription (''ddd_'' @ rest) = Inr t"
    and "qr_int q (TextStmt (''SELECT count(*) FROM ddd_'' @ rest)) [] = Inr n"
  shows "ti_RowCount (td_TableInfo t) = n"
  using assms by (auto simp: pg_GetTable_def table_info_def Let_def has_prefix_def split: sum.splits)

end
