(* ===== verification/EventStoreContract.thy ===== *)
theory EventStoreContract
  imports PgEventStore
begin

text \<open>
  The contract tests that ship with the event-store interface: \<open>cqrs/impl/event_store_contract.go\<close> and
  \<open>cqrs/event/eventtest/eventtest.go\<close>.  A subtest is a function of the store; its value is the list
  of the messages it reports, empty for a pass.  \<open>t.Errorf\<close> reports and goes on, \<open>t.Fatalf\<close> reports and
  ends the subtest, and a panic ends the run.

  \<open>clk i\<close> is what a subtest's call number \<open>i\<close> of \<open>time.Now()\<close> gives, \<open>newStore i\<close> the store the factory
  makes for subtest number \<open>i\<close>.
\<close>

subsection \<open>Reporting\<close>

type_synonym report = "string list"

definition t_Errorf_unless :: "bool \<Rightarrow> string \<Rightarrow> report outcome \<Rightarrow> report outcome" where
  "t_Errorf_unless c msg rest = (if c then rest else out_bind rest (\<lambda>rs. Ret (msg # rs)))"

definition t_Fatalf_unless :: "bool \<Rightarrow> string \<Rightarrow> report outcome \<Rightarrow> report outcome" where
  "t_Fatalf_unless c msg rest = (if c then rest else Ret [msg])"

definition t_Fatalf_on :: "string \<Rightarrow> go_error option \<Rightarrow> report outcome \<Rightarrow> report outcome" where
  "t_Fatalf_on msg err rest = (case err of Some e \<Rightarrow> Ret [msg @ error_text e] | None \<Rightarrow> rest)"

definition t_value :: "string \<Rightarrow> go_error + 'a \<Rightarrow> ('a \<Rightarrow> report outcome) \<Rightarrow> report outcome" where
  "t_value msg r k = (case r of Inl e \<Rightarrow> Ret [msg @ error_text e] | Inr x \<Rightarrow> k x)"

fun t_Run :: "(string \<times> report outcome) list \<Rightarrow> (string \<times> report) list outcome" where
  "t_Run [] = Ret []"
| "t_Run ((name, test) # tests) =
     out_bind test (\<lambda>r. out_bind (t_Run tests) (\<lambda>rs. Ret ((name, r) # rs)))"

definition all_passed :: "(string \<times> report) list outcome \<Rightarrow> bool" where
  "all_passed result = (case result of Ret rs \<Rightarrow> list_all (\<lambda>(name, r). r = []) rs | Panic m \<Rightarrow> False)"

lemma t_simps [simp]:
  "t_Errorf_unless True msg rest = rest" "t_Fatalf_unless True msg rest = rest"
  "t_Fatalf_on msg None rest = rest" "t_value msg (Inr x) k = k x"
  by (simp_all add: t_Errorf_unless_def t_Fatalf_unless_def t_Fatalf_on_def t_value_def)

lemma t_Run_passes: "list_all (\<lambda>(name, test). test = Ret []) tests \<Longrightarrow> all_passed (t_Run tests)"
proof -
  assume "list_all (\<lambda>(name, test). test = Ret []) tests"
  then have "t_Run tests = Ret (map (\<lambda>(name, test). (name, [])) tests)"
    by (induction tests rule: t_Run.induct) auto
  then show ?thesis by (simp add: all_passed_def list_all_iff split_beta)
qed

lemma all_passed_iff: "all_passed (t_Run tests) \<longleftrightarrow> list_all (\<lambda>(name, test). test = Ret []) tests"
proof
  show "all_passed (t_Run tests) \<Longrightarrow> list_all (\<lambda>(name, test). test = Ret []) tests"
  proof (induction tests rule: t_Run.induct)
    case (2 name test tests)
    show ?case
    proof (cases test)
      case (Ret r)
      with 2 show ?thesis by (cases "t_Run tests") (auto simp: all_passed_def)
    next
      case (Panic m)
      with 2(2) show ?thesis by (simp add: all_passed_def)
    qed
  qed simp
qed (rule t_Run_passes)

subsection \<open>The interface and the test event\<close>

text \<open>
  A store of test events.  \<open>esi_LoadAll\<close> is None for a store that does not implement
  \<open>GlobalEventStore\<close>.  The dynamic value of a test event is its \<open>Data\<close>; \<open>pkg\<close> is the import path of
  the package that declares the type, which both packages do.
\<close>

record 's test_store_ops =
  esi_Append :: "string \<Rightarrow> int \<Rightarrow> string devent list \<Rightarrow> 's \<Rightarrow> (go_error option \<times> 's) outcome"
  esi_Load :: "'s \<Rightarrow> string \<Rightarrow> int \<Rightarrow> (go_error + string devent list) outcome"
  esi_LoadAll :: "('s \<Rightarrow> int \<Rightarrow> int \<Rightarrow> (go_error + (int \<times> string devent) list) outcome) option"

definition NewTestEvent :: "string \<Rightarrow> time \<Rightarrow> string \<Rightarrow> string \<Rightarrow> string devent" where
  "NewTestEvent pkg now aggID data =
     \<lparr>ev_Metadata = Some (NewBaseEvent aggID now), ev_value = GAny (TPtr (TNamed pkg ''TestEvent'')) data\<rparr>"

text \<open>\<open>loaded[i].Data\<close>, where the index and the pointer may panic.\<close>

definition event_at :: "'d devent list \<Rightarrow> nat \<Rightarrow> ('d devent \<Rightarrow> report outcome) \<Rightarrow> report outcome" where
  "event_at loaded i k = (if i < length loaded then k (loaded ! i) else Panic ''index out of range'')"

definition data_at :: "string devent list \<Rightarrow> nat \<Rightarrow> (string \<Rightarrow> report outcome) \<Rightarrow> report outcome" where
  "data_at loaded i k = event_at loaded i (\<lambda>e. case ev_value e of
     GAny t d \<Rightarrow> k d | GNil \<Rightarrow> Panic ''invalid memory address or nil pointer dereference'')"

abbreviation impl_pkg :: string where
  "impl_pkg \<equiv> ''github.com/ddd-qce/core/cqrs/impl''"

abbreviation eventtest_pkg :: string where
  "eventtest_pkg \<equiv> ''github.com/ddd-qce/core/cqrs/event/eventtest''"

lemma agg_of_test [simp]: "agg_of (NewTestEvent pkg now a d) = a"
  by (simp add: NewTestEvent_def MetadataOf_def NewBaseEvent_def)

lemma value_of_test [simp]: "ev_value (NewTestEvent pkg now a d) = GAny (TPtr (TNamed pkg ''TestEvent'')) d"
  by (simp add: NewTestEvent_def)

subsection \<open>The subtests\<close>

definition AppendAndLoad :: "'s test_store_ops \<Rightarrow> string \<Rightarrow> (nat \<Rightarrow> time) \<Rightarrow> 's \<Rightarrow> report outcome" where
  "AppendAndLoad io pkg clk s =
     out_bind (esi_Append io ''contract-1'' 0
       [NewTestEvent pkg (clk 0) ''contract-1'' ''e1'', NewTestEvent pkg (clk 1) ''contract-1'' ''e2'',
        NewTestEvent pkg (clk 2) ''contract-1'' ''e3''] s) (\<lambda>(err, s1).
     t_Fatalf_on ''Append failed: '' err (
     out_bind (esi_Load io s1 ''contract-1'' 0) (\<lambda>r.
     t_value ''Load failed: '' r (\<lambda>loaded.
     t_Errorf_unless (length loaded = 3) (''expected 3 events, got '' @ show_nat (length loaded)) (Ret [])))))"

definition LoadAfterVersion :: "'s test_store_ops \<Rightarrow> string \<Rightarrow> (nat \<Rightarrow> time) \<Rightarrow> 's \<Rightarrow> report outcome" where
  "LoadAfterVersion io pkg clk s =
     out_bind (esi_Append io ''contract-2'' 0
       [NewTestEvent pkg (clk 0) ''contract-2'' ''v0'', NewTestEvent pkg (clk 1) ''contract-2'' ''v1'',
        NewTestEvent pkg (clk 2) ''contract-2'' ''v2'', NewTestEvent pkg (clk 3) ''contract-2'' ''v3''] s) (\<lambda>(err, s1).
     t_Fatalf_on ''Append failed: '' err (
     out_bind (esi_Load io s1 ''contract-2'' 2) (\<lambda>r.
     t_value ''Load failed: '' r (\<lambda>loaded.
     t_Fatalf_unless (length loaded = 2) (''expected 2 events after version 2, got '' @ show_nat (length loaded)) (
     data_at loaded 0 (\<lambda>d0.
     t_Errorf_unless (d0 = ''v2'') (''expected first event data 'v2', got '' @ CHR 0x27 # d0 @ [CHR 0x27]) (
     data_at loaded 1 (\<lambda>d1.
     t_Errorf_unless (d1 = ''v3'') (''expected second event data 'v3', got '' @ CHR 0x27 # d1 @ [CHR 0x27])
       (Ret [])))))))))"

definition LoadNonExistentAggregate :: "'s test_store_ops \<Rightarrow> 's \<Rightarrow> report outcome" where
  "LoadNonExistentAggregate io s =
     out_bind (esi_Load io s ''contract-nonexistent'' 0) (\<lambda>r.
     t_value ''unexpected error: '' r (\<lambda>loaded.
     t_Errorf_unless (length loaded = 0)
       (''expected empty slice for nonexistent aggregate, got '' @ show_nat (length loaded) @ '' events'') (Ret [])))"

definition AppendMultipleBatches :: "'s test_store_ops \<Rightarrow> string \<Rightarrow> (nat \<Rightarrow> time) \<Rightarrow> 's \<Rightarrow> report outcome" where
  "AppendMultipleBatches io pkg clk s =
     out_bind (esi_Append io ''contract-3'' 0
       [NewTestEvent pkg (clk 0) ''contract-3'' ''e0'', NewTestEvent pkg (clk 1) ''contract-3'' ''e1''] s) (\<lambda>(err, s1).
     t_Fatalf_on ''first Append failed: '' err (
     out_bind (esi_Append io ''contract-3'' 2 [NewTestEvent pkg (clk 2) ''contract-3'' ''e2''] s1) (\<lambda>(err, s2).
     t_Fatalf_on ''second Append failed: '' err (
     out_bind (esi_Load io s2 ''contract-3'' 0) (\<lambda>r.
     t_value ''Load failed: '' r (\<lambda>loaded.
     t_Errorf_unless (length loaded = 3) (''expected 3 events, got '' @ show_nat (length loaded)) (Ret [])))))))"

definition ConcurrencyConflict :: "'s test_store_ops \<Rightarrow> string \<Rightarrow> (nat \<Rightarrow> time) \<Rightarrow> 's \<Rightarrow> report outcome" where
  "ConcurrencyConflict io pkg clk s =
     out_bind (esi_Append io ''contract-4'' 0 [NewTestEvent pkg (clk 0) ''contract-4'' ''e1''] s) (\<lambda>(err, s1).
     t_Fatalf_on ''first Append failed: '' err (
     out_bind (esi_Append io ''contract-4'' 0 [NewTestEvent pkg (clk 1) ''contract-4'' ''e2''] s1) (\<lambda>(err, s2).
     case err of
       None \<Rightarrow> Ret [''expected concurrency conflict error'']
     | Some e \<Rightarrow> t_Errorf_unless (errors_Is e ''CONCURRENCY'') (''expected ErrConcurrency, got: '' @ error_text e) (Ret []))))"

definition MultipleAggregates :: "'s test_store_ops \<Rightarrow> string \<Rightarrow> (nat \<Rightarrow> time) \<Rightarrow> 's \<Rightarrow> report outcome" where
  "MultipleAggregates io pkg clk s =
     out_bind (esi_Append io ''contract-5a'' 0
       [NewTestEvent pkg (clk 0) ''contract-5a'' ''a1-e1'', NewTestEvent pkg (clk 1) ''contract-5a'' ''a1-e2''] s) (\<lambda>(err, s1).
     t_Fatalf_on ''Append agg1 failed: '' err (
     out_bind (esi_Append io ''contract-5b'' 0
       [NewTestEvent pkg (clk 2) ''contract-5b'' ''a2-e1'', NewTestEvent pkg (clk 3) ''contract-5b'' ''a2-e2''] s1) (\<lambda>(err, s2).
     t_Fatalf_on ''Append agg2 failed: '' err (
     out_bind (esi_Load io s2 ''contract-5a'' 0) (\<lambda>r1.
     t_value ''Load agg1 failed: '' r1 (\<lambda>loaded1.
     t_Errorf_unless (length loaded1 = 2) (''expected 2 events for agg1, got '' @ show_nat (length loaded1)) (
     out_bind (esi_Load io s2 ''contract-5b'' 0) (\<lambda>r2.
     t_value ''Load agg2 failed: '' r2 (\<lambda>loaded2.
     t_Errorf_unless (length loaded2 = 2) (''expected 2 events for agg2, got '' @ show_nat (length loaded2))
       (Ret []))))))))))"

definition LoadAfterVersionBeyondRange :: "'s test_store_ops \<Rightarrow> string \<Rightarrow> (nat \<Rightarrow> time) \<Rightarrow> 's \<Rightarrow> report outcome" where
  "LoadAfterVersionBeyondRange io pkg clk s =
     out_bind (esi_Append io ''contract-6'' 0 [NewTestEvent pkg (clk 0) ''contract-6'' ''e1''] s) (\<lambda>(err, s1).
     t_Fatalf_on ''Append failed: '' err (
     out_bind (esi_Load io s1 ''contract-6'' 5) (\<lambda>r.
     t_value ''Load failed: '' r (\<lambda>loaded.
     t_Errorf_unless (length loaded = 0) (''expected 0 events, got '' @ show_nat (length loaded)) (Ret [])))))"

definition EventDataRoundTrip :: "'s test_store_ops \<Rightarrow> string \<Rightarrow> (nat \<Rightarrow> time) \<Rightarrow> 's \<Rightarrow> report outcome" where
  "EventDataRoundTrip io pkg clk s =
     out_bind (esi_Append io ''contract-7'' 0 [NewTestEvent pkg (clk 0) ''contract-7'' ''hello''] s) (\<lambda>(err, s1).
     t_Fatalf_on ''Append failed: '' err (
     out_bind (esi_Load io s1 ''contract-7'' 0) (\<lambda>r.
     t_value ''Load failed: '' r (\<lambda>loaded.
     t_Fatalf_unless (length loaded = 1) (''expected 1 event, got '' @ show_nat (length loaded)) (
     data_at loaded 0 (\<lambda>d.
     t_Errorf_unless (d = ''hello'') (''expected Data 'hello', got '' @ CHR 0x27 # d @ [CHR 0x27]) (
     event_at loaded 0 (\<lambda>e.
     t_Errorf_unless (agg_of e = ''contract-7'')
       (''expected AggregateID 'contract-7', got '' @ CHR 0x27 # agg_of e @ [CHR 0x27]) (Ret [])))))))))"

text \<open>The suite of \<open>cqrs/impl\<close>, and that of \<open>eventtest\<close>, whose four subtests are the same statements.\<close>

definition TestAggregateEventStoreContract ::
    "'s test_store_ops \<Rightarrow> (nat \<Rightarrow> time) \<Rightarrow> (nat \<Rightarrow> 's) \<Rightarrow> (string \<times> report) list outcome" where
  "TestAggregateEventStoreContract io clk newStore =
     t_Run
       [(''AppendAndLoad'', AppendAndLoad io impl_pkg clk (newStore 0)),
        (''LoadAfterVersion'', LoadAfterVersion io impl_pkg clk (newStore 1)),
        (''LoadNonExistentAggregate'', LoadNonExistentAggregate io (newStore 2)),
        (''AppendMultipleBatches'', AppendMultipleBatches io impl_pkg clk (newStore 3)),
        (''ConcurrencyConflict'', ConcurrencyConflict io impl_pkg clk (newStore 4)),
        (''MultipleAggregates'', MultipleAggregates io impl_pkg clk (newStore 5)),
        (''LoadAfterVersionBeyondRange'', LoadAfterVersionBeyondRange io impl_pkg clk (newStore 6)),
        (''EventDataRoundTrip'', EventDataRoundTrip io impl_pkg clk (newStore 7))]"

definition eventtest_StoreContract ::
    "'s test_store_ops \<Rightarrow> (nat \<Rightarrow> time) \<Rightarrow> (nat \<Rightarrow> 's) \<Rightarrow> (string \<times> report) list outcome" where
  "eventtest_StoreContract io clk newStore =
     t_Run
       [(''AppendAndLoad'', AppendAndLoad io eventtest_pkg clk (newStore 0)),
        (''LoadAfterVersion'', LoadAfterVersion io eventtest_pkg clk (newStore 1)),
        (''LoadNonExistentAggregate'', LoadNonExistentAggregate io (newStore 2)),
        (''ConcurrencyConflict'', ConcurrencyConflict io eventtest_pkg clk (newStore 3))]"

lemmas subtest_defs = AppendAndLoad_def LoadAfterVersion_def LoadNonExistentAggregate_def
  AppendMultipleBatches_def ConcurrencyConflict_def MultipleAggregates_def LoadAfterVersionBeyondRange_def
  EventDataRoundTrip_def event_at_def data_at_def

text \<open>
  The events the subtests make: number of the clock's call, aggregate and data.  The first list is of
  the subtests that both suites have.
\<close>

definition eventtest_calls :: "(nat \<times> string \<times> string) list" where
  "eventtest_calls =
     [(0, ''contract-1'', ''e1''), (1, ''contract-1'', ''e2''), (2, ''contract-1'', ''e3''),
      (0, ''contract-2'', ''v0''), (1, ''contract-2'', ''v1''), (2, ''contract-2'', ''v2''), (3, ''contract-2'', ''v3''),
      (0, ''contract-4'', ''e1''), (1, ''contract-4'', ''e2'')]"

definition other_calls :: "(nat \<times> string \<times> string) list" where
  "other_calls =
     [(0, ''contract-3'', ''e0''), (1, ''contract-3'', ''e1''), (2, ''contract-3'', ''e2''),
      (0, ''contract-5a'', ''a1-e1''), (1, ''contract-5a'', ''a1-e2''), (2, ''contract-5b'', ''a2-e1''), (3, ''contract-5b'', ''a2-e2''),
      (0, ''contract-6'', ''e1''), (0, ''contract-7'', ''hello'')]"

lemmas call_defs = eventtest_calls_def other_calls_def

subsection \<open>Every store that keeps the contract passes\<close>

text \<open>
  \<open>event_store\<close> at the type of test events: one append to a stream whose length is the expected version,
  as the subtests make it, and the loads and conflicts that follow.
\<close>

locale test_event_store = event_store ok stream own append load
  for ok :: "'s \<Rightarrow> bool"
    and stream :: "'s \<Rightarrow> string \<Rightarrow> string devent list"
    and own append load
begin

lemma append_len:
  assumes "ok s" "\<forall>e\<in>set evs. own a e" "v = int (length (stream s a))"
  obtains s' where "append a v evs s = Ret (None, s')" "ok s'" "stream s' a = stream s a @ evs"
    "\<And>b. b \<noteq> a \<Longrightarrow> stream s' b = stream s b"
  using append_at [OF assms(1,2)] assms(3) by blast

lemma load_at: "ok s \<Longrightarrow> 0 \<le> v \<Longrightarrow> load s a v = Ret (Inr (drop (nat v) (stream s a)))"
  using load_stream [of s a "nat v"] by simp

lemma append_conflict:
  assumes "ok s" "\<forall>e\<in>set evs. own a e" "evs \<noteq> []" "0 \<le> v" "v < int (length (stream s a))"
  obtains err s' where "append a v evs s = Ret (Some err, s')" "errors_Is err ''CONCURRENCY''"
proof -
  have "nat v < length (stream s a)" using assms(4,5) by linarith
  from append_stale [OF assms(1-3) this] show ?thesis using that assms(4) by auto
qed

lemma first_append:
  assumes "ok s" "\<And>a. stream s a = []" "\<forall>e\<in>set evs. own a e"
  obtains s' where "append a 0 evs s = Ret (None, s')" "ok s'" "stream s' a = evs"
  using append_len [OF assms(1,3), of 0] assms(2) by (metis append_Nil list.size(3) of_nat_0)

lemma eventtest_subtests:
  assumes io: "esi_Append io = append" "esi_Load io = load"
    and own: "\<And>i a d. (i, a, d) \<in> set eventtest_calls \<Longrightarrow> own a (NewTestEvent pkg (clk i) a d)"
    and fresh: "ok s" "\<And>a. stream s a = []"
  shows "AppendAndLoad io pkg clk s = Ret []" "LoadAfterVersion io pkg clk s = Ret []"
    "LoadNonExistentAggregate io s = Ret []" "ConcurrencyConflict io pkg clk s = Ret []"
proof -
  note ld = load_at io fresh
  let ?e = "\<lambda>i a d. NewTestEvent pkg (clk i) a d"
  let ?us = "[?e 0 ''contract-1'' ''e1'', ?e 1 ''contract-1'' ''e2'', ?e 2 ''contract-1'' ''e3'']"
  obtain s1 where "append ''contract-1'' 0 ?us s = Ret (None, s1)" "ok s1" "stream s1 ''contract-1'' = ?us"
    by (rule first_append [OF fresh, of ?us "''contract-1''"]) (simp_all add: own call_defs)
  then show "AppendAndLoad io pkg clk s = Ret []" by (simp add: AppendAndLoad_def ld)
  let ?vs = "[?e 0 ''contract-2'' ''v0'', ?e 1 ''contract-2'' ''v1'', ?e 2 ''contract-2'' ''v2'', ?e 3 ''contract-2'' ''v3'']"
  obtain s2 where "append ''contract-2'' 0 ?vs s = Ret (None, s2)" "ok s2" "stream s2 ''contract-2'' = ?vs"
    by (rule first_append [OF fresh, of ?vs "''contract-2''"]) (simp_all add: own call_defs)
  then show "LoadAfterVersion io pkg clk s = Ret []"
    by (simp add: LoadAfterVersion_def ld data_at_def event_at_def numeral_2_eq_2)
  show "LoadNonExistentAggregate io s = Ret []" by (simp add: LoadNonExistentAggregate_def ld)
  obtain t1 where t1: "append ''contract-4'' 0 [?e 0 ''contract-4'' ''e1''] s = Ret (None, t1)" "ok t1"
      "stream t1 ''contract-4'' = [?e 0 ''contract-4'' ''e1'']"
    by (rule first_append [OF fresh, of "[?e 0 ''contract-4'' ''e1'']" "''contract-4''"]) (simp_all add: own call_defs)
  obtain err t2 where "append ''contract-4'' 0 [?e 1 ''contract-4'' ''e2''] t1 = Ret (Some err, t2)" "errors_Is err ''CONCURRENCY''"
    by (rule append_conflict [OF t1(2), of "[?e 1 ''contract-4'' ''e2'']" "''contract-4''" 0]) (simp_all add: t1 own call_defs)
  then show "ConcurrencyConflict io pkg clk s = Ret []"
    using t1 by (simp add: ConcurrencyConflict_def io)
qed

lemma other_subtests:
  assumes io: "esi_Append io = append" "esi_Load io = load"
    and own: "\<And>i a d. (i, a, d) \<in> set other_calls \<Longrightarrow> own a (NewTestEvent pkg (clk i) a d)"
    and fresh: "ok s" "\<And>a. stream s a = []"
  shows "AppendMultipleBatches io pkg clk s = Ret []" "MultipleAggregates io pkg clk s = Ret []"
    "LoadAfterVersionBeyondRange io pkg clk s = Ret []" "EventDataRoundTrip io pkg clk s = Ret []"
proof -
  let ?e = "\<lambda>i a d. NewTestEvent pkg (clk i) a d"
  note ld = load_at io
  obtain s1 where s1: "append ''contract-3'' 0 [?e 0 ''contract-3'' ''e0'', ?e 1 ''contract-3'' ''e1''] s = Ret (None, s1)"
      "ok s1" "stream s1 ''contract-3'' = [?e 0 ''contract-3'' ''e0'', ?e 1 ''contract-3'' ''e1'']"
    by (rule first_append [OF fresh, of "[?e 0 ''contract-3'' ''e0'', ?e 1 ''contract-3'' ''e1'']" "''contract-3''"])
       (simp_all add: own call_defs)
  obtain s2 where "append ''contract-3'' 2 [?e 2 ''contract-3'' ''e2''] s1 = Ret (None, s2)" "ok s2"
      "stream s2 ''contract-3'' = stream s1 ''contract-3'' @ [?e 2 ''contract-3'' ''e2'']"
    by (rule append_len [OF s1(2), of "[?e 2 ''contract-3'' ''e2'']" "''contract-3''" 2]) (simp_all add: s1 own call_defs)
  then show "AppendMultipleBatches io pkg clk s = Ret []"
    using s1 by (simp add: AppendMultipleBatches_def ld)
  let ?as = "[?e 0 ''contract-5a'' ''a1-e1'', ?e 1 ''contract-5a'' ''a1-e2'']"
  let ?bs = "[?e 2 ''contract-5b'' ''a2-e1'', ?e 3 ''contract-5b'' ''a2-e2'']"
  obtain u1 where u1: "append ''contract-5a'' 0 ?as s = Ret (None, u1)" "ok u1" "stream u1 ''contract-5a'' = ?as"
      "stream u1 ''contract-5b'' = []"
    by (rule append_len [OF fresh(1), of ?as "''contract-5a''" 0]) (simp_all add: fresh own call_defs)
  obtain u2 where "append ''contract-5b'' 0 ?bs u1 = Ret (None, u2)" "ok u2" "stream u2 ''contract-5b'' = ?bs"
      "stream u2 ''contract-5a'' = ?as"
    by (rule append_len [OF u1(2), of ?bs "''contract-5b''" 0]) (simp_all add: u1 own call_defs)
  then show "MultipleAggregates io pkg clk s = Ret []"
    using u1 by (simp add: MultipleAggregates_def ld)
  obtain s6 where "append ''contract-6'' 0 [?e 0 ''contract-6'' ''e1''] s = Ret (None, s6)" "ok s6"
      "stream s6 ''contract-6'' = [?e 0 ''contract-6'' ''e1'']"
    by (rule first_append [OF fresh, of "[?e 0 ''contract-6'' ''e1'']" "''contract-6''"]) (simp_all add: own call_defs)
  then show "LoadAfterVersionBeyondRange io pkg clk s = Ret []"
    by (simp add: LoadAfterVersionBeyondRange_def ld)
  obtain s7 where "append ''contract-7'' 0 [?e 0 ''contract-7'' ''hello''] s = Ret (None, s7)" "ok s7"
      "stream s7 ''contract-7'' = [?e 0 ''contract-7'' ''hello'']"
    by (rule first_append [OF fresh, of "[?e 0 ''contract-7'' ''hello'']" "''contract-7''"]) (simp_all add: own call_defs)
  then show "EventDataRoundTrip io pkg clk s = Ret []"
    by (simp add: EventDataRoundTrip_def ld data_at_def event_at_def)
qed

lemma suite_passes:
  assumes "esi_Append io = append" "esi_Load io = load"
    and "\<And>i a d. (i, a, d) \<in> set (eventtest_calls @ other_calls) \<Longrightarrow> own a (NewTestEvent impl_pkg (clk i) a d)"
    and "\<And>i. ok (newStore i)" "\<And>i a. stream (newStore i) a = []"
  shows "all_passed (TestAggregateEventStoreContract io clk newStore)"
proof -
  have own: "\<And>i a d. (i, a, d) \<in> set eventtest_calls \<Longrightarrow> own a (NewTestEvent impl_pkg (clk i) a d)"
    "\<And>i a d. (i, a, d) \<in> set other_calls \<Longrightarrow> own a (NewTestEvent impl_pkg (clk i) a d)"
    using assms(3) by simp_all
  show ?thesis
    using eventtest_subtests [OF assms(1,2) own(1) assms(4,5)] other_subtests [OF assms(1,2) own(2) assms(4,5)]
    by (simp add: TestAggregateEventStoreContract_def all_passed_def)
qed

lemma eventtest_suite_passes:
  assumes "esi_Append io = append" "esi_Load io = load"
    and "\<And>i a d. (i, a, d) \<in> set eventtest_calls \<Longrightarrow> own a (NewTestEvent eventtest_pkg (clk i) a d)"
    and "\<And>i. ok (newStore i)" "\<And>i a. stream (newStore i) a = []"
  shows "all_passed (eventtest_StoreContract io clk newStore)"
  using eventtest_subtests [OF assms]
  by (simp add: eventtest_StoreContract_def all_passed_def)

end


interpretation mem_test_events: test_event_store es_wf es_stream es_own "\<lambda>a v evs s. Ret (es_Append a v evs s)" es_Load ..

interpretation pg_test_events: test_event_store "pg_ok st js" "pg_stream st js" "pg_own st js"
    "pg_Append js no_faults tx" "\<lambda>db a n. Ret (pg_Load st js no_faults db a n)" for st js tx ..

subsection \<open>The suite of the global log\<close>

text \<open>The appends' errors are dropped; a store without \<open>LoadAll\<close> skips the subtest after them.\<close>

definition append_dropped ::
    "'s test_store_ops \<Rightarrow> string \<Rightarrow> int \<Rightarrow> string devent list \<Rightarrow> 's \<Rightarrow> ('s \<Rightarrow> report outcome) \<Rightarrow> report outcome" where
  "append_dropped io a v evs s k = out_bind (esi_Append io a v evs s) (\<lambda>(err, s1). k s1)"

definition load_all ::
    "'s test_store_ops \<Rightarrow> 's \<Rightarrow> int \<Rightarrow> int \<Rightarrow> ((int \<times> string devent) list \<Rightarrow> report outcome) \<Rightarrow> report outcome" where
  "load_all io s after limit k = (case esi_LoadAll io of
     None \<Rightarrow> Ret []
   | Some loadAll \<Rightarrow> out_bind (loadAll s after limit) (\<lambda>r. t_value ''LoadAll failed: '' r k))"

definition position_at :: "(int \<times> string devent) list \<Rightarrow> nat \<Rightarrow> (int \<Rightarrow> report outcome) \<Rightarrow> report outcome" where
  "position_at all i k = (if i < length all then k (fst (all ! i)) else Panic ''index out of range'')"

definition LoadAllReturnsAllEventsInOrder :: "'s test_store_ops \<Rightarrow> string \<Rightarrow> (nat \<Rightarrow> time) \<Rightarrow> 's \<Rightarrow> report outcome" where
  "LoadAllReturnsAllEventsInOrder io pkg clk s =
     append_dropped io ''la-1'' 0 [NewTestEvent pkg (clk 0) ''la-1'' ''a1-e1''] s (\<lambda>s1.
     append_dropped io ''la-2'' 0 [NewTestEvent pkg (clk 1) ''la-2'' ''a2-e1''] s1 (\<lambda>s2.
     append_dropped io ''la-1'' 1 [NewTestEvent pkg (clk 2) ''la-1'' ''a1-e2''] s2 (\<lambda>s3.
     load_all io s3 0 0 (\<lambda>all.
     t_Fatalf_unless (length all = 3) (''expected 3 events, got '' @ show_nat (length all)) (
     position_at all 0 (\<lambda>p0.
     t_Errorf_unless (p0 = 1) (''first event position = '' @ show_int p0 @ '', want 1'') (
     position_at all 1 (\<lambda>p1.
     t_Errorf_unless (p1 = 2) (''second event position = '' @ show_int p1 @ '', want 2'') (
     position_at all 2 (\<lambda>p2.
     t_Errorf_unless (p2 = 3) (''third event position = '' @ show_int p2 @ '', want 3'') (Ret [])))))))))))"

definition LoadAllWithAfterPosition :: "'s test_store_ops \<Rightarrow> string \<Rightarrow> (nat \<Rightarrow> time) \<Rightarrow> 's \<Rightarrow> report outcome" where
  "LoadAllWithAfterPosition io pkg clk s =
     append_dropped io ''la-3'' 0 [NewTestEvent pkg (clk 0) ''la-3'' ''e1''] s (\<lambda>s1.
     append_dropped io ''la-3'' 1 [NewTestEvent pkg (clk 1) ''la-3'' ''e2''] s1 (\<lambda>s2.
     append_dropped io ''la-3'' 2 [NewTestEvent pkg (clk 2) ''la-3'' ''e3''] s2 (\<lambda>s3.
     load_all io s3 1 0 (\<lambda>all.
     t_Fatalf_unless (length all = 2) (''expected 2 events after position 1, got '' @ show_nat (length all)) (
     position_at all 0 (\<lambda>p0.
     t_Errorf_unless (p0 = 2) (''first event position = '' @ show_int p0 @ '', want 2'') (Ret [])))))))"

definition LoadAllWithLimit :: "'s test_store_ops \<Rightarrow> string \<Rightarrow> (nat \<Rightarrow> time) \<Rightarrow> 's \<Rightarrow> report outcome" where
  "LoadAllWithLimit io pkg clk s =
     append_dropped io ''la-4'' 0 [NewTestEvent pkg (clk 0) ''la-4'' ''e1''] s (\<lambda>s1.
     append_dropped io ''la-4'' 1 [NewTestEvent pkg (clk 1) ''la-4'' ''e2''] s1 (\<lambda>s2.
     append_dropped io ''la-4'' 2 [NewTestEvent pkg (clk 2) ''la-4'' ''e3''] s2 (\<lambda>s3.
     load_all io s3 0 2 (\<lambda>all.
     t_Fatalf_unless (length all = 2) (''expected 2 events with limit 2, got '' @ show_nat (length all)) (Ret [])))))"

definition LoadAllEmpty :: "'s test_store_ops \<Rightarrow> 's \<Rightarrow> report outcome" where
  "LoadAllEmpty io s =
     load_all io s 0 0 (\<lambda>all.
     t_Errorf_unless (length all = 0) (''expected 0 events, got '' @ show_nat (length all)) (Ret []))"

definition TestGlobalEventStoreContract ::
    "'s test_store_ops \<Rightarrow> (nat \<Rightarrow> time) \<Rightarrow> (nat \<Rightarrow> 's) \<Rightarrow> (string \<times> report) list outcome" where
  "TestGlobalEventStoreContract io clk newStore =
     t_Run
       [(''LoadAllReturnsAllEventsInOrder'', LoadAllReturnsAllEventsInOrder io impl_pkg clk (newStore 0)),
        (''LoadAllWithAfterPosition'', LoadAllWithAfterPosition io impl_pkg clk (newStore 1)),
        (''LoadAllWithLimit'', LoadAllWithLimit io impl_pkg clk (newStore 2)),
        (''LoadAllEmpty'', LoadAllEmpty io (newStore 3))]"

subsection \<open>The stores of the program\<close>

definition mem_test_ops :: "string es_store test_store_ops" where
  "mem_test_ops = \<lparr>esi_Append = (\<lambda>a v evs s. Ret (es_Append a v evs s)), esi_Load = es_Load,
     esi_LoadAll = Some (\<lambda>s p l. Ret (es_LoadAll s p l))\<rparr>"

definition pg_test_ops :: "pg_store \<Rightarrow> (string, 'b) pg_json \<Rightarrow> bool \<Rightarrow> 'b ev_table test_store_ops" where
  "pg_test_ops st js tx = \<lparr>esi_Append = pg_Append js no_faults tx,
     esi_Load = (\<lambda>db a n. Ret (pg_Load st js no_faults db a n)),
     esi_LoadAll = Some (\<lambda>db p l. Ret (pg_LoadAll st js no_faults db p l))\<rparr>"

lemma es_globalEvents_zip:
  assumes "es_wf s" "map snd (es_globalEvents s) = evs"
  shows "es_globalEvents s = zip (map (\<lambda>i. int i + 1) [0..<length evs]) evs"
proof -
  have "length (es_globalEvents s) = length evs" using assms(2) by auto
  then show ?thesis
    using assms by (metis es_wf_def zip_map_fst_snd)
qed

text \<open>One append of one event at the stream's length, seen in the log.\<close>

lemma mem_append_dropped:
  assumes "es_wf s" "v = int (length (es_stream s (agg_of e)))" "a = agg_of e"
  obtains s' where "es_Append a v [e] s = (None, s')" "es_wf s'"
    "map snd (es_globalEvents s') = map snd (es_globalEvents s) @ [e]"
    "\<And>b. es_stream s' b = es_stream s b @ (if agg_of e = b then [e] else [])"
  using es_Append_ok [OF assms(1), of v a "[e]"] assms(2,3) by auto

lemma mem_three_appends:
  assumes "es_wf s" "\<And>a. es_stream s a = []" "es_globalEvents s = []"
    and "agg_of e3 = agg_of e1" "a = agg_of e1" "b = agg_of e2" "w = (if a = b then 1 else 0)" "v = 1 + w"
  obtains s1 s2 s3 where "es_Append a 0 [e1] s = (None, s1)" "es_Append b w [e2] s1 = (None, s2)"
    "es_Append a v [e3] s2 = (None, s3)" "es_wf s3"
    "es_globalEvents s3 = [(1, e1), (2, e2), (3, e3)]"
proof -
  obtain s1 where s1: "es_Append a 0 [e1] s = (None, s1)" "es_wf s1"
      "map snd (es_globalEvents s1) = map snd (es_globalEvents s) @ [e1]"
      "\<And>b. es_stream s1 b = es_stream s b @ (if agg_of e1 = b then [e1] else [])"
    by (rule mem_append_dropped [OF assms(1), of 0 e1 a]) (simp_all add: assms)
  obtain s2 where s2: "es_Append b w [e2] s1 = (None, s2)" "es_wf s2"
      "map snd (es_globalEvents s2) = map snd (es_globalEvents s1) @ [e2]"
      "\<And>b. es_stream s2 b = es_stream s1 b @ (if agg_of e2 = b then [e2] else [])"
    by (rule mem_append_dropped [OF s1(2), of w e2 b]) (simp_all add: assms s1(4))
  obtain s3 where s3: "es_Append a v [e3] s2 = (None, s3)" "es_wf s3"
      "map snd (es_globalEvents s3) = map snd (es_globalEvents s2) @ [e3]"
    by (rule mem_append_dropped [OF s2(2), of v e3 a]) (simp_all add: assms s1(4) s2(4))
  have "es_globalEvents s3 = [(1, e1), (2, e2), (3, e3)]"
    using es_globalEvents_zip [OF s3(2), of "[e1, e2, e3]"] s3(3) s2(3) s1(3) assms(3) by (simp add: upt_rec)
  then show ?thesis using that s1(1) s2(1) s3(1,2) by blast
qed

lemma mem_global_subtests:
  assumes "es_wf s" "\<And>a. es_stream s a = []" "es_globalEvents s = []"
  shows "LoadAllReturnsAllEventsInOrder mem_test_ops pkg clk s = Ret []"
    "LoadAllWithAfterPosition mem_test_ops pkg clk s = Ret []"
    "LoadAllWithLimit mem_test_ops pkg clk s = Ret []"
    "LoadAllEmpty mem_test_ops s = Ret []"
proof -
  let ?e = "\<lambda>i a d. NewTestEvent pkg (clk i) a d"
  note eval = append_dropped_def load_all_def position_at_def mem_test_ops_def es_LoadAll_wf Let_def
  obtain s1 s2 s3 where "es_Append ''la-1'' 0 [?e 0 ''la-1'' ''a1-e1''] s = (None, s1)"
      "es_Append ''la-2'' 0 [?e 1 ''la-2'' ''a2-e1''] s1 = (None, s2)"
      "es_Append ''la-1'' 1 [?e 2 ''la-1'' ''a1-e2''] s2 = (None, s3)" "es_wf s3"
      "es_globalEvents s3 = [(1, ?e 0 ''la-1'' ''a1-e1''), (2, ?e 1 ''la-2'' ''a2-e1''), (3, ?e 2 ''la-1'' ''a1-e2'')]"
    by (rule mem_three_appends [OF assms, of "?e 2 ''la-1'' ''a1-e2''" "?e 0 ''la-1'' ''a1-e1''" "''la-1''" "''la-2''" "?e 1 ''la-2'' ''a2-e1''" 0 1])
       simp_all
  then show "LoadAllReturnsAllEventsInOrder mem_test_ops pkg clk s = Ret []"
    by (simp add: LoadAllReturnsAllEventsInOrder_def eval)
  obtain t1 t2 t3 where "es_Append ''la-3'' 0 [?e 0 ''la-3'' ''e1''] s = (None, t1)"
      "es_Append ''la-3'' 1 [?e 1 ''la-3'' ''e2''] t1 = (None, t2)"
      "es_Append ''la-3'' 2 [?e 2 ''la-3'' ''e3''] t2 = (None, t3)" "es_wf t3"
      "es_globalEvents t3 = [(1, ?e 0 ''la-3'' ''e1''), (2, ?e 1 ''la-3'' ''e2''), (3, ?e 2 ''la-3'' ''e3'')]"
    by (rule mem_three_appends [OF assms, of "?e 2 ''la-3'' ''e3''" "?e 0 ''la-3'' ''e1''" "''la-3''" "''la-3''" "?e 1 ''la-3'' ''e2''" 1 2])
       simp_all
  then show "LoadAllWithAfterPosition mem_test_ops pkg clk s = Ret []"
    by (simp add: LoadAllWithAfterPosition_def eval)
  obtain u1 u2 u3 where "es_Append ''la-4'' 0 [?e 0 ''la-4'' ''e1''] s = (None, u1)"
      "es_Append ''la-4'' 1 [?e 1 ''la-4'' ''e2''] u1 = (None, u2)"
      "es_Append ''la-4'' 2 [?e 2 ''la-4'' ''e3''] u2 = (None, u3)" "es_wf u3"
      "es_globalEvents u3 = [(1, ?e 0 ''la-4'' ''e1''), (2, ?e 1 ''la-4'' ''e2''), (3, ?e 2 ''la-4'' ''e3'')]"
    by (rule mem_three_appends [OF assms, of "?e 2 ''la-4'' ''e3''" "?e 0 ''la-4'' ''e1''" "''la-4''" "''la-4''" "?e 1 ''la-4'' ''e2''" 1 2])
       simp_all
  then show "LoadAllWithLimit mem_test_ops pkg clk s = Ret []"
    by (simp add: LoadAllWithLimit_def eval)
  show "LoadAllEmpty mem_test_ops s = Ret []"
    by (simp add: LoadAllEmpty_def eval assms)
qed


text \<open>
  A new in-memory event store, of any type parameter and options, passes the three contract suites:
  appends and loads, batches, versions beyond the stream, the concurrency conflict, separate aggregates,
  and the positions, pages and limits of the global log.
\<close>

theorem mem_store_passes_contracts:
  assumes "NewEventSourceStore t opts = Inr s0"
  shows "all_passed (TestAggregateEventStoreContract mem_test_ops clk (\<lambda>i. s0)) \<and>
    all_passed (eventtest_StoreContract mem_test_ops clk (\<lambda>i. s0)) \<and>
    all_passed (TestGlobalEventStoreContract mem_test_ops clk (\<lambda>i. s0))"
proof -
  have w: "es_wf s0" "es_globalEvents s0 = []" using NewEventSourceStore_wf [OF assms] by simp_all
  then have e: "es_stream s0 a = []" for a using es_stream_wf [OF w(1), of a] by simp
  note io = mem_test_ops_def es_own_def
  have "all_passed (TestAggregateEventStoreContract mem_test_ops clk (\<lambda>i. s0))"
    by (rule mem_test_events.suite_passes) (simp_all add: io w(1) e)
  moreover have "all_passed (eventtest_StoreContract mem_test_ops clk (\<lambda>i. s0))"
    by (rule mem_test_events.eventtest_suite_passes) (simp_all add: io w(1) e)
  moreover have "all_passed (TestGlobalEventStoreContract mem_test_ops clk (\<lambda>i. s0))"
    using mem_global_subtests [OF w(1) e w(2)] by (simp add: TestGlobalEventStoreContract_def all_passed_def)
  ultimately show ?thesis by simp
qed

theorem mem_store_passes_contracts_witness:
  "\<exists>s0. NewEventSourceStore (Some (TPtr (TNamed impl_pkg ''TestEvent''))) [] = Inr s0 \<and>
     all_passed (TestGlobalEventStoreContract mem_test_ops int (\<lambda>i. s0))"
proof -
  obtain s0 :: "string es_store" where "NewEventSourceStore (Some (TPtr (TNamed impl_pkg ''TestEvent''))) [] = Inr s0"
    using NewEventSourceStore_fails_iff [of "Some (TPtr (TNamed impl_pkg ''TestEvent''))" "[]"]
    by (cases "NewEventSourceStore (Some (TPtr (TNamed impl_pkg ''TestEvent''))) [] :: go_error + string es_store") auto
  with mem_store_passes_contracts [OF this] show ?thesis by blast
qed

text \<open>What a round trip through the store's JSON needs of one event.\<close>

definition event_survives :: "(string, 'b) pg_json \<Rightarrow> string devent \<Rightarrow> bool" where
  "event_survives js e \<longleftrightarrow> (\<exists>b. pj_Marshal js e = Inr b \<and> pj_Unmarshal js b (TPtr (TNamed eventtest_pkg ''TestEvent'')) = Inr e)"

text \<open>Texts that every TEXT column takes: bytes from 1 to 127.\<close>

definition plain_text :: "string \<Rightarrow> bool" where
  "plain_text t \<longleftrightarrow> (\<forall>c\<in>set t. (0 :: nat) < of_char c \<and> (of_char c :: nat) < 128)"

text \<open>
  C26.  Let the nine events the suite of \<open>eventtest\<close> makes, and one more event of an aggregate \<open>a\<close>, survive the
  JSON of the PostgreSQL store made for the suite's event type.  Then that store passes the suite on an empty
  table, and so does the in-memory store, yet the two differ on what the suite does not ask: for an
  expected version above 0 and below the range of the version column, an append to the new aggregate \<open>a\<close> is a
  conflict in memory and accepted by PostgreSQL, which numbers the event after the gap.
\<close>

theorem eventtest_suite_misses_gap:
  fixes js :: "(string, 'b) pg_json"
  assumes "PgNewEventSourceStore (Some (TPtr (TNamed eventtest_pkg ''TestEvent''))) [] = Inr st"
    and "\<And>i a d. (i, a, d) \<in> set eventtest_calls \<Longrightarrow> event_survives js (NewTestEvent eventtest_pkg (clk i) a d)"
    and "event_survives js (NewTestEvent eventtest_pkg n a d)" and "plain_text a"
    and "et_rows db = []" and "0 < v" and "int v + 1 < 2 ^ 31" and "NewEventSourceStore t opts = Inr s0"
  shows "all_passed (eventtest_StoreContract (pg_test_ops st js tx) clk (\<lambda>i. db)) \<and>
    all_passed (eventtest_StoreContract mem_test_ops clk (\<lambda>i. s0)) \<and>
    (\<exists>db'. esi_Append (pg_test_ops st js tx) a (int v) [NewTestEvent eventtest_pkg n a d] db = Ret (None, db') \<and>
       map er_version (agg_rows db' a) = [int v + 1]) \<and>
    (\<exists>err. esi_Append mem_test_ops a (int v) [NewTestEvent eventtest_pkg n a d] s0 = Ret (Some err, s0))"
proof -
  have st: "pg_alloc st name = Inr (TPtr (TNamed eventtest_pkg ''TestEvent''))" for name
    using assms(1) by (auto simp: PgNewEventSourceStore_def pg_alloc_def Let_def)
  have own: "pg_own st js a (NewTestEvent eventtest_pkg n a d)" if "event_survives js (NewTestEvent eventtest_pkg n a d)" for a n d
    using that st by (auto simp: pg_own_def EventNameOf_def event_survives_def)
  have ok: "pg_ok st js db" "\<And>a. pg_stream st js db a = []"
    using assms(5) by (simp_all add: pg_ok_def pg_stream_def)
  have w: "es_wf s0" "es_stream s0 a = []" for a
    using NewEventSourceStore_wf [OF assms(8)] es_stream_wf [of s0 a] by simp_all
  have pass: "all_passed (eventtest_StoreContract (pg_test_ops st js tx) clk (\<lambda>i. db))"
    by (rule pg_test_events.eventtest_suite_passes [where st = st and js = js and tx = tx])
       (simp_all add: pg_test_ops_def ok own assms(2))
  have pass_mem: "all_passed (eventtest_StoreContract mem_test_ops clk (\<lambda>i. s0))"
    by (rule mem_test_events.eventtest_suite_passes) (simp_all add: mem_test_ops_def es_own_def w)
  have "\<exists>db'. pg_appendEvents js no_faults a (int v) 0 [NewTestEvent eventtest_pkg n a d] db = Ret (None, db') \<and>
      map er_version (agg_rows db' a) = [int v + 1]"
    using pg_appendEvents_beyond [where db = db and a = a and v = "int v" and i = 0 and s = st and js = js
      and evs = "[NewTestEvent eventtest_pkg n a d]"] own [OF assms(3)] assms(5) by auto
  moreover have "pf_begin no_faults = None" "pf_commit no_faults = None" by (simp_all add: no_faults_def)
  ultimately have gap: "\<exists>db'. esi_Append (pg_test_ops st js tx) a (int v) [NewTestEvent eventtest_pkg n a d] db = Ret (None, db') \<and>
      map er_version (agg_rows db' a) = [int v + 1]"
    by (auto simp: pg_test_ops_def pg_Append_def)
  have "\<exists>err. esi_Append mem_test_ops a (int v) [NewTestEvent eventtest_pkg n a d] s0 = Ret (Some err, s0)"
    using es_Append_stale [of "int v" s0 a] w(2) [of a] assms(6) by (auto simp: mem_test_ops_def)
  with pass pass_mem gap show ?thesis by blast
qed

text \<open>A JSON that encodes only the events with texts of bytes from 1 to 127.\<close>

definition sample_test_json :: "(string, string devent) pg_json" where
  "sample_test_json =
     \<lparr>pj_Marshal = (\<lambda>e. case ev_value e of
        GAny t d \<Rightarrow> if plain_text d \<and> plain_text (agg_of e) then Inr e else Inl (ErrText ''invalid'')
      | GNil \<Rightarrow> Inl (ErrText ''nil'')),
      pj_Unmarshal = (\<lambda>b t. Inr b)\<rparr>"

theorem eventtest_suite_misses_gap_witness:
  "\<exists>st db'. esi_Append (pg_test_ops st sample_test_json False) ''a'' (int 5)
     [NewTestEvent eventtest_pkg 7 ''a'' ''d''] empty_table = Ret (None, db') \<and>
     map er_version (agg_rows db' ''a'') = [6]"
proof -
  obtain st where st: "PgNewEventSourceStore (Some (TPtr (TNamed eventtest_pkg ''TestEvent''))) [] = Inr st"
    by (simp add: PgNewEventSourceStore_def Let_def)
  obtain s0 :: "string es_store" where s0: "NewEventSourceStore None [] = Inr s0"
    by (simp add: NewEventSourceStore_def Let_def)
  have e: "et_rows empty_table = []" by (simp add: empty_table_def)
  have j: "event_survives sample_test_json (NewTestEvent eventtest_pkg m b d)" if "plain_text b" "plain_text d" for m b d
    using that by (simp add: event_survives_def sample_test_json_def)
  have calls: "event_survives sample_test_json (NewTestEvent eventtest_pkg (int i) b d)"
    if "(i, b, d) \<in> set eventtest_calls" for i b d
    using that by (intro j) (auto simp: eventtest_calls_def plain_text_def)
  have a: "plain_text ''a''" "plain_text ''d''" by (simp_all add: plain_text_def)
  from eventtest_suite_misses_gap [OF st calls j [OF a] a(1) e _ _ s0, where v = 5 and tx = False and n = 7]
  obtain db' where "esi_Append (pg_test_ops st sample_test_json False) ''a'' (int 5) [NewTestEvent eventtest_pkg 7 ''a'' ''d''] empty_table = Ret (None, db')"
      "map er_version (agg_rows db' ''a'') = [int 5 + 1]"
    by fastforce
  then show ?thesis by (intro exI [of _ st] exI [of _ db']) simp
qed

end
