(* ===== verification/Spec2Isabelle.thy ===== *)
theory Spec2Isabelle
  imports EventBusModel Transactions BuiltinAspects TracingModel MessageStores Relationship JobTermination
    PgJobs PgTraces PgMessages PgOrders InventoryService LintSyntax LintMain StatsModel TypePrototypes
    Application ExampleMain ExampleTests PgSchema EventStoreContract
begin

text \<open>
  Verification of \<open>ddd-qce\<close>, a Go framework for domain-driven design with command, query and event buses,
  and of the example application that is built on it.

  \<^bold>\<open>The program.\<close> A client sends commands and queries to buses, which find the handler of the
  message's dynamic type by reflection and run it inside a chain of aspects: tracing, transaction, logging, metrics,
  persistence of the message. Handlers work on aggregates, which record their changes as events; repositories and
  event stores keep them, in memory or in PostgreSQL, and check versions optimistically. Events are published on an
  event bus to any number of handlers. A job manager runs commands in the background, with timeouts, retries and
  cancellation. A trace store, a message log, statistics, a registry of message types and a graph of who handles and
  emits what are filled by the way and shown by a JSON dashboard and an HTML viewer. An application container puts the
  parts together and closes them in order. A linter checks the conventions of packages. The example application sells
  products: orders and an inventory.

  \<^bold>\<open>The model.\<close> A function of the program is a function of the same name, with a prefix or suffix
  where Go's method names coincide or a HOL constant has the name; a struct is a record, an enumeration or an
  interface with known implementations a datatype. State is passed explicitly (\<open>('s, 'a) prog\<close> is
  \<open>'s \<Rightarrow> 'a outcome \<times> 's\<close>). \<open>outcome\<close> is a value or a panic, an error
  result is an option or a sum, and \<open>go_error\<close> keeps what \<open>errors.Is\<close> can see of an error.
  Go's 64-bit integers, durations and times are \<open>int\<close> with the wrap-around written out
  (\<open>wrap64\<close>) where the code calculates with them. A Go map is an association list with distinct keys
  (\<open>gm_ok\<close>) whose order stands for the order of one \<open>range\<close> loop. Pointers that are shared
  are positions in a heap (orders, jobs). Go floats are a type \<open>'f\<close> with the operations used as
  arguments. What is not code of the repository is an argument of the definitions that use it: the clock, UUIDs,
  \<open>encoding/json\<close>, the TOML decoder, the environment, the faults of the database driver, LIKE, the
  templates; what is assumed of one is a named hypothesis (\<open>ser_ok\<close>, \<open>root_survives\<close>, \<open>fields_survive\<close>,
  \<open>event_survives\<close>, \<open>like_laws\<close>, \<open>driver_ok\<close>) with a witness that meets it. As
  \<open>encoding/json\<close> replaces invalid UTF-8, refuses far years and merges into maps, what is assumed of it is
  that the values at hand, and no others, survive.

  \<^bold>\<open>Theories, and the code they model.\<close>

  \<^item> \<open>Prelude\<close>: outcomes, Go's maps, slices, strings, division and 64-bit integers, and their
    lemmas.
  \<^item> \<open>GoErrors\<close>: \<open>error/\<close>, \<open>infra/repository/error.go\<close>;
    \<open>errors.Is\<close> is membership in the tree of unwrapped errors.
  \<^item> \<open>GoTypes\<close>: dynamic types and the part of \<open>reflect\<close> the buses use
    (\<open>cqrs/impl/memory/bus_helpers.go\<close>).
  \<^item> \<open>AspectChain\<close>: \<open>aspect/chain.go\<close>; the three index recursions, and their
    specification as an onion.
  \<^item> \<open>MessageBus\<close>: \<open>cqrs/impl/memory/bus_core.go\<close>, \<open>command_bus.go\<close>,
    \<open>query_bus.go\<close>, \<open>Dispatch\<close> of \<open>cqrs/command\<close> and \<open>cqrs/query\<close>;
    routing, typed dispatch, and the closing protocol as a step relation (\<open>lc_step\<close>) over interleaved
    calls and shutdowns: the store of \<open>closed\<close>, the end of the wait, the close of its channel and the return
    are steps of their own.
  \<^item> \<open>GoContext\<close>: contexts and \<open>trace/trace.go\<close>, \<open>trace/span.go\<close>.
    \<open>EventBusModel\<close>: \<open>cqrs/impl/memory/event_bus.go\<close>.
  \<^item> \<open>Transactions\<close>: \<open>aspect/builtin/transaction.go\<close>, the managers of
    \<open>infra/memory_backend.go\<close>, \<open>pg/transaction.go\<close> and the example, as instances of one
    interface (locales \<open>tx_contract\<close> and \<open>strict_tx_contract\<close>).
  \<^item> \<open>BuiltinAspects\<close>, \<open>TracingModel\<close>, \<open>TraceStore\<close>,
    \<open>MessageStores\<close>: the other aspects of \<open>aspect/builtin\<close>, \<open>trace/store.go\<close>,
    \<open>in_memory_message_store.go\<close>, \<open>observability/message_reader.go\<close>.
  \<^item> \<open>Relationship\<close>: \<open>relationship/registry.go\<close>, \<open>notifying_bus.go\<close>.
  \<^item> \<open>JobCore\<close>, \<open>JobManager\<close>, \<open>JobTermination\<close>:
    \<open>job/core/job.go\<close>, \<open>job/memory\<close>; the job's transitions, the manager's calls, and the
    step relation of executions, cancellations and retries on one job. A retry waits on the done channel it took
    (\<open>RWait\<close> with the channel's number, and whether its context can end) although
    \<open>ResetDone\<close> may have replaced it, and an execution may leave after the manager's shutdown without
    closing it.
  \<^item> \<open>Entities\<close>, \<open>EventStore\<close>, \<open>Aggregates\<close>, \<open>Repositories\<close>,
    \<open>JsonHelpers\<close>: \<open>domain/\<close>, \<open>cqrs/event\<close>,
    \<open>cqrs/impl/memory/event_store.go\<close>, \<open>infra/repository/memory\<close>.
  \<^item> \<open>EventStoreContract\<close>: the test suites of the event-store interface
    (\<open>cqrs/impl/event_store_contract.go\<close>, \<open>cqrs/event/eventtest\<close>), which every store that
    keeps the contract passes, and what they miss.
  \<^item> \<open>PgUtil\<close>, \<open>PgEventStore\<close>, \<open>PgRepositories\<close>, \<open>PgJobs\<close>,
    \<open>PgTraces\<close>, \<open>PgMessages\<close>, \<open>PgOrders\<close>, \<open>PgSchema\<close>,
    \<open>PgMigrate\<close>: the stores on PostgreSQL. A table is the list of its rows, a statement a function on it
    with the constraints of \<open>pg/migrate.go\<close>; a fault of the driver can be any error.
  \<^item> \<open>OrderModel\<close>, \<open>OrderService\<close>, \<open>Inventory\<close>,
    \<open>InventoryService\<close>: \<open>exampleapp/ddd\<close>. \<open>ExampleApp\<close>: its wiring
    (\<open>exampleapp/infrastructure/wire.go\<close>) on the notifying buses. \<open>ExampleHttp\<close> and
    \<open>ExampleTests\<close>: its pages (\<open>exampleapp/interfaces/http\<close>). \<open>ExampleTypes\<close>:
    the samples of its messages (\<open>type_registry.go\<close>). \<open>ExampleMain\<close>: its start from the
    configuration, its stop after a signal, and its viewer.
  \<^item> \<open>LintPaths\<close>, \<open>LintSyntax\<close>, \<open>LintTypes\<close>, \<open>LintMain\<close>:
    \<open>lint/\<close>, the path convention, the thirteen analyzers on the syntax and types they are given, and the command.
  \<^item> \<open>StatsModel\<close>, \<open>TypePrototypes\<close>, \<open>Dashboard\<close>, \<open>Viewer\<close>,
    \<open>SchemaViewer\<close>: \<open>observability/\<close>.
  \<^item> \<open>Application\<close>: \<open>app/\<close>, \<open>config/\<close>, \<open>infra/\<close>,
    \<open>exampleapp/infrastructure/config.go\<close> and \<open>provider.go\<close>.

  \<^bold>\<open>Interfaces.\<close> What a component relies on in another is a locale, interpreted on the code's
  models in the theory of the provider: message buses, event stores (in memory and PostgreSQL, with one more law for
  those that can replay from the start), versioned repositories, event-sourced ones that reload, job stores,
  transaction managers, product stores, metrics recorders, import rules of the linter, and the buses a wiring
  registers handlers in (plain and notifying).

  \<^bold>\<open>What the lemmas show.\<close> For each component: its well-formedness is kept by every operation;
  what each operation does on every branch; that optimised routines (index recursions, rebuilt indexes, evictions,
  queries built from filters) are their plain specifications; that PostgreSQL stores simulate those in memory, and
  where they do not; that versions rule out lost updates, and where the code forgoes them; that the threads of a job
  take boundedly many steps, when a retry waits for ever, and that the store catches up; round trips of JSON, rows, identifiers and index definitions. On top stand the
  properties of the whole: the onion of a wired application's command, what the example application can and cannot do,
  its shutdown. Where the code does not do what its comments or its sibling implementations do, a theorem shows the
  behaviour at a concrete input.

  \<^bold>\<open>Bounds and fuel.\<close> No definition has fuel. Loops are structural recursions, or
  \<open>function\<close>s with a measure (the aspects left to run, the retries left). One recursion of the program
  may not end, the reflection on field types: it is a \<open>partial_function\<close> with the value None, with lemmas
  for when it returns and when not. Results about lengths suppose lists shorter than \<open>2 ^ 62\<close> (\<open>2 ^
  49\<close> where a page number is multiplied by a page size of at most 500), so that Go's \<open>int\<close> holds
  them. Interleavings are steps of any number of threads, with no bound. The columns of the job table have their
  types (\<open>row_fits\<close>, \<open>update_fits\<close>: 32-bit retry counts, a 64-bit timeout, texts and JSON the
  database takes); the version column of the event table is an unbounded integer, so the results about it are for
  versions within its 32 bits.

  \<^bold>\<open>Simplified.\<close> The handlers of one published event run one after another, in any order, and are
  not interleaved; a concurrency limit is a natural number (Go's \<open>make\<close> panics for a negative one).
  A statement that fails inside a caller's transaction changes nothing and leaves the transaction usable, where
  PostgreSQL refuses every later statement up to the rollback. Times keep their nanoseconds in a table, where
  \<open>TIMESTAMPTZ\<close> rounds to microseconds. Index definitions are printed with options of one word, and the
  import rules are specified for import paths in double quotes.

  \<^bold>\<open>Not modelled.\<close> HTML templates, the text of log lines, and starting servers: a page is the name
  and the data its template is given. Live reload, the operating system's signals, and goroutine scheduling beyond the
  step relations: they have no result the code computes. The page \<open>TestJob\<close> of the example, which no route
  reaches. The DDL text of the migration and the statements' evaluation by
  PostgreSQL (query plans, isolation): the table models state what a statement does to rows. The fixed descriptions of
  tables, whose texts are not ASCII: they are arguments. The version file: constants. The
  other contract test packages and the example programs: they test or print what the components above do.
\<close>

end
